(* ===== verification/Prelude.thy ===== *)
theory Prelude
  imports "HOL-Library.Word" "HOL-Library.AList" "HOL-Library.List_Lexorder"
begin

text \<open>
  What the components share: JavaScript strings as lists of UTF-16 code units, the character
  classes and the decimal texts of the sources' regular expressions, the insertion-ordered
  \<^verbatim>\<open>Map\<close> of JavaScript as an association list, and the generic lemmas about them.
\<close>

section \<open>JavaScript strings\<close>

text \<open>
  A JavaScript string is a sequence of 16-bit code units; \<^verbatim>\<open>length\<close>, indexing, \<^verbatim>\<open>slice\<close>,
  \<^verbatim>\<open>===\<close> and \<^verbatim>\<open><\<close> all work on code units. A literal of the source is written
  \<^verbatim>\<open>js ''text''\<close>; the order of the library theory \<^verbatim>\<open>List_Lexorder\<close> on such lists is the
  code-unit order of \<^verbatim>\<open><\<close> and of \<^verbatim>\<open>Array.prototype.sort\<close>.
\<close>

type_synonym unit16 = "16 word"
type_synonym jstr = "16 word list"
type_synonym u8 = "8 word"

definition js :: "string \<Rightarrow> jstr" where
  "js s = map of_char s"

lemma of_char_unit16_eq [simp]: "(of_char a :: unit16) = of_char b \<longleftrightarrow> a = b"
proof
  assume "(of_char a :: unit16) = of_char b"
  then have "unat (of_nat (of_char a) :: unit16) = unat (of_nat (of_char b) :: unit16)"
    by (simp add: of_nat_of_char)
  moreover have "of_char a < (65536 :: nat)" "of_char b < (65536 :: nat)"
    using nat_of_char_less_256 [of a] nat_of_char_less_256 [of b] by linarith+
  ultimately have "(of_char a :: nat) = of_char b"
    by (simp add: unat_of_nat)
  then show "a = b" by simp
qed simp

lemma js_inject [simp]: "js a = js b \<longleftrightarrow> a = b"
proof
  assume "js a = js b"
  then show "a = b"
    unfolding js_def by (rule map_injective) (simp add: inj_def)
qed simp

lemma js_Nil [simp]: "js [] = []"
  by (simp add: js_def)

lemma js_eq_Nil [simp]: "js s = [] \<longleftrightarrow> s = []" "[] = js s \<longleftrightarrow> s = []"
  by (auto simp: js_def)

lemma length_js [simp]: "length (js s) = length s"
  by (simp add: js_def)

lemma js_append: "js (a @ b) = js a @ js b"
  by (simp add: js_def)

lemma list_all_js [simp]: "list_all P (js s) = list_all (\<lambda>c. P (of_char c)) s"
  by (simp add: js_def list_all_iff)

section \<open>Character classes\<close>

definition is_digit :: "unit16 \<Rightarrow> bool" where
  "is_digit c \<longleftrightarrow> 48 \<le> c \<and> c \<le> 57"

definition is_lower_hex :: "unit16 \<Rightarrow> bool" where
  "is_lower_hex c \<longleftrightarrow> is_digit c \<or> (97 \<le> c \<and> c \<le> 102)"

definition is_letter :: "unit16 \<Rightarrow> bool" where
  "is_letter c \<longleftrightarrow> (65 \<le> c \<and> c \<le> 90) \<or> (97 \<le> c \<and> c \<le> 122)"

definition high_surrogate :: "unit16 \<Rightarrow> bool" where
  "high_surrogate c \<longleftrightarrow> 0xD800 \<le> c \<and> c \<le> 0xDBFF"

definition low_surrogate :: "unit16 \<Rightarrow> bool" where
  "low_surrogate c \<longleftrightarrow> 0xDC00 \<le> c \<and> c \<le> 0xDFFF"

lemma high_not_low: "high_surrogate c \<Longrightarrow> \<not> low_surrogate c"
  by (auto simp: high_surrogate_def low_surrogate_def word_le_nat_alt)

text \<open>The test \<^verbatim>\<open>/^[0-9a-f]{64}$/\<close>, which several modules repeat.\<close>

definition sha256_text :: "jstr \<Rightarrow> bool" where
  "sha256_text s \<longleftrightarrow> length s = 64 \<and> list_all is_lower_hex s"

text \<open>A unit without the case of ASCII letters.\<close>

definition ascii_lower :: "unit16 \<Rightarrow> unit16" where
  "ascii_lower c = (if 65 \<le> c \<and> c \<le> 90 then c + 32 else c)"

section \<open>Decimal texts\<close>

definition digit_val :: "unit16 \<Rightarrow> nat" where
  "digit_val c = unat c - 48"

definition digit_unit :: "nat \<Rightarrow> unit16" where
  "digit_unit d = of_nat (48 + d)"

definition digits_val :: "jstr \<Rightarrow> nat" where
  "digits_val s = foldl (\<lambda>n c. 10 * n + digit_val c) 0 s"

text \<open>\<^verbatim>\<open>value.toString()\<close> of a natural \<^verbatim>\<open>bigint\<close>: its canonical decimal text.\<close>

fun dec :: "nat \<Rightarrow> jstr" where
  "dec n = (if n < 10 then [digit_unit n] else dec (n div 10) @ [digit_unit (n mod 10)])"

declare dec.simps [simp del]

definition int_text :: "int \<Rightarrow> jstr" where
  "int_text i = (if i < 0 then js ''-'' @ dec (nat (- i)) else dec (nat i))"

text \<open>The test \<^verbatim>\<open>/^(?:0|[1-9][0-9]*)$/\<close> of a canonical unsigned decimal.\<close>

definition canonical_text :: "jstr \<Rightarrow> bool" where
  "canonical_text s \<longleftrightarrow> s \<noteq> [] \<and> list_all is_digit s \<and> (hd s = 48 \<longrightarrow> length s = 1)"

lemma digit_unit_props [simp]:
  assumes "d < 10"
  shows "is_digit (digit_unit d)" and "digit_val (digit_unit d) = d"
    and "digit_unit d = 48 \<longleftrightarrow> d = 0"
proof -
  have "d \<in> set [0..<10]" using assms by simp
  then have "is_digit (digit_unit d) \<and> digit_val (digit_unit d) = d \<and> (digit_unit d = 48 \<longleftrightarrow> d = 0)"
    by (simp add: upt_rec is_digit_def digit_unit_def digit_val_def) (auto simp: word_le_nat_alt)
  then show "is_digit (digit_unit d)" and "digit_val (digit_unit d) = d"
    and "digit_unit d = 48 \<longleftrightarrow> d = 0" by auto
qed

lemma is_digit_nat: "is_digit c \<longleftrightarrow> 48 \<le> unat c \<and> unat c \<le> 57"
  by (simp add: is_digit_def word_le_nat_alt)

lemma digit_val_less: "is_digit c \<Longrightarrow> digit_val c < 10"
  by (auto simp: is_digit_nat digit_val_def)

lemma digit_unit_val: "is_digit c \<Longrightarrow> digit_unit (digit_val c) = c"
  by (simp add: is_digit_nat digit_val_def digit_unit_def)

lemma digit_val_zero: "is_digit c \<Longrightarrow> digit_val c = 0 \<longleftrightarrow> c = 48"
  using digit_unit_val [of c] by (auto simp: digit_unit_def digit_val_def)

lemma digits_val_Nil [simp]: "digits_val [] = 0"
  by (simp add: digits_val_def)

lemma digits_val_snoc [simp]: "digits_val (s @ [c]) = 10 * digits_val s + digit_val c"
  by (simp add: digits_val_def)

lemma digits_val_append: "digits_val (s @ t) = digits_val s * 10 ^ length t + digits_val t"
proof (induction t rule: rev_induct)
  case (snoc c t)
  have "digits_val (s @ t @ [c]) = digits_val ((s @ t) @ [c])" by simp
  then show ?case using snoc by (simp only: digits_val_snoc) (simp add: algebra_simps)
qed simp

lemma digits_val_single [simp]: "digits_val [c] = digit_val c"
  by (simp add: digits_val_def)

lemma digits_val_Cons: "digits_val (c # t) = digit_val c * 10 ^ length t + digits_val t"
  using digits_val_append [of "[c]" t] by simp

lemma digits_val_less: "list_all is_digit s \<Longrightarrow> digits_val s < 10 ^ length s"
proof (induction s rule: rev_induct)
  case (snoc c s)
  then have "digits_val s < 10 ^ length s" and "digit_val c < 10"
    by (auto intro: digit_val_less)
  then have "10 * digits_val s + digit_val c < 10 * 10 ^ length s" by linarith
  then show ?case by simp
qed simp

lemma dec_nonempty [simp]: "dec n \<noteq> []"
  by (subst dec.simps) simp

lemma dec_digits [simp]: "list_all is_digit (dec n)"
  by (induction n rule: dec.induct) (subst dec.simps, simp)

lemma digits_val_dec [simp]: "digits_val (dec n) = n"
proof (induction n rule: dec.induct)
  case (1 n)
  show ?case
  proof (cases "n < 10")
    case True
    then show ?thesis by (subst dec.simps) simp
  next
    case False
    with 1 have "digits_val (dec (n div 10)) = n div 10" by simp
    with False show ?thesis by (subst dec.simps) simp
  qed
qed

lemma hd_dec: "hd (dec n) = 48 \<longleftrightarrow> n = 0"
proof (induction n rule: dec.induct)
  case (1 n)
  show ?case
  proof (cases "n < 10")
    case True
    then show ?thesis by (subst dec.simps) simp
  next
    case False
    with 1 have "hd (dec (n div 10)) = 48 \<longleftrightarrow> n div 10 = 0" by simp
    with False show ?thesis by (subst dec.simps) simp
  qed
qed

lemma dec_0 [simp]: "dec 0 = [48]"
  by (subst dec.simps) (simp add: digit_unit_def)

lemma canonical_dec [simp]: "canonical_text (dec n)"
  by (cases "n = 0") (auto simp: canonical_text_def hd_dec is_digit_def)

lemma digits_val_pos: "canonical_text s \<Longrightarrow> s \<noteq> [48] \<Longrightarrow> 10 ^ (length s - 1) \<le> digits_val s"
proof (cases s)
  case (Cons c t)
  assume "canonical_text s" "s \<noteq> [48]"
  with Cons have "is_digit c" "c \<noteq> 48" by (auto simp: canonical_text_def)
  then have "1 \<le> digit_val c" using digit_val_zero [of c] by linarith
  then have "1 * 10 ^ length t \<le> digit_val c * 10 ^ length t" by (rule mult_le_mono1)
  then have "10 ^ length t \<le> digit_val c * 10 ^ length t + digits_val t" by linarith
  with Cons show ?thesis by (simp add: digits_val_Cons)
qed (simp add: canonical_text_def)

lemma dec_digits_val: "canonical_text s \<Longrightarrow> dec (digits_val s) = s"
proof (induction s rule: rev_induct)
  case Nil
  then show ?case by (simp add: canonical_text_def)
next
  case (snoc c s)
  then have c: "is_digit c" by (simp add: canonical_text_def)
  then have lt: "digit_val c < 10" by (rule digit_val_less)
  show ?case
  proof (cases "s = []")
    case True
    with c lt show ?thesis by (subst dec.simps) (simp add: digit_unit_val)
  next
    case False
    with snoc.prems have can: "canonical_text s" and ne: "s \<noteq> [48]"
      by (auto simp: canonical_text_def)
    have "10 ^ (length s - 1) \<le> digits_val s" using can ne by (rule digits_val_pos)
    then have "1 \<le> digits_val s"
      by (meson le_trans one_le_numeral one_le_power)
    then have "\<not> digits_val (s @ [c]) < 10" by simp
    then have "dec (digits_val (s @ [c])) = dec (digits_val s) @ [digit_unit (digit_val c)]"
      using lt by (subst dec.simps) simp
    with snoc.IH [OF can] c show ?thesis by (simp add: digit_unit_val)
  qed
qed

lemma canonical_eq_iff:
  "canonical_text s \<Longrightarrow> canonical_text t \<Longrightarrow> digits_val s = digits_val t \<longleftrightarrow> s = t"
  using dec_digits_val by metis

lemma length_canonical:
  assumes "canonical_text s"
  shows "length s \<le> Suc k \<longleftrightarrow> digits_val s < 10 ^ Suc k"
proof (cases "s = [48]")
  case True
  have "digits_val [48] = 0" by (simp add: digit_val_def)
  with True show ?thesis by simp
next
  case False
  have lo: "10 ^ (length s - 1) \<le> digits_val s" using assms False by (rule digits_val_pos)
  have hi: "digits_val s < 10 ^ length s"
    using assms by (auto simp: canonical_text_def intro: digits_val_less)
  show ?thesis
  proof
    assume "length s \<le> Suc k"
    then have "(10::nat) ^ length s \<le> 10 ^ Suc k" by (intro power_increasing) auto
    with hi show "digits_val s < 10 ^ Suc k" by linarith
  next
    assume "digits_val s < 10 ^ Suc k"
    with lo have "(10::nat) ^ (length s - 1) < 10 ^ Suc k" by linarith
    then have "length s - 1 < Suc k"
      using power_strict_increasing_iff [of "10::nat" "length s - 1" "Suc k"] by linarith
    then show "length s \<le> Suc k" by simp
  qed
qed

lemma length_dec: "length (dec n) \<le> Suc k \<longleftrightarrow> n < 10 ^ Suc k"
  using length_canonical [OF canonical_dec, of n k] by simp

section \<open>Insertion-ordered maps\<close>

text \<open>
  A JavaScript \<^verbatim>\<open>Map\<close> keeps its keys in insertion order: \<^verbatim>\<open>set\<close> of a present key replaces the
  value in place, and \<^verbatim>\<open>set\<close> of a new key appends. That is \<^verbatim>\<open>AList.update\<close>; \<^verbatim>\<open>get\<close> is
  \<^verbatim>\<open>map_of\<close>, \<^verbatim>\<open>size\<close> is \<^verbatim>\<open>length\<close>, and the keys are distinct.
\<close>

type_synonym ('k, 'v) jsmap = "('k \<times> 'v) list"

abbreviation map_set :: "'k \<Rightarrow> 'v \<Rightarrow> ('k, 'v) jsmap \<Rightarrow> ('k, 'v) jsmap" where
  "map_set \<equiv> AList.update"

abbreviation map_has :: "('k, 'v) jsmap \<Rightarrow> 'k \<Rightarrow> bool" where
  "map_has m k \<equiv> map_of m k \<noteq> None"

abbreviation wf_map :: "('k, 'v) jsmap \<Rightarrow> bool" where
  "wf_map m \<equiv> distinct (map fst m)"

lemma map_of_map_set: "map_of (map_set k v m) = (map_of m)(k \<mapsto> v)"
  by (rule AList.update_conv')

lemma wf_map_set [simp]: "wf_map m \<Longrightarrow> wf_map (map_set k v m)"
  by (rule AList.distinct_update)

lemma keys_map_set: "map fst (map_set k v m) = (if k \<in> set (map fst m) then map fst m else map fst m @ [k])"
  by (rule AList.update_keys)

lemma map_set_values:
  "wf_map m \<Longrightarrow> set (map_set k v m) = insert (k, v) {(a, b) \<in> set m. a \<noteq> k}"
  by (induction m) (auto simp: rev_image_eqI)

lemma length_map_set: "length (map_set k v m) = (if map_has m k then length m else Suc (length m))"
proof -
  have "length (map_set k v m) = length (map fst (map_set k v m))" by simp
  also have "\<dots> = (if k \<in> set (map fst m) then length m else Suc (length m))"
    by (simp only: keys_map_set) simp
  finally show ?thesis by (simp add: map_of_eq_None_iff)
qed

lemma map_set_new: "map_of m k = None \<Longrightarrow> map_set k v m = m @ [(k, v)]"
  by (induction m) (auto split: if_splits)

lemma map_set_triv: "map_of m k = Some v \<Longrightarrow> map_set k v m = m"
  by (rule AList.update_triv)

lemma sum_list_map_set:
  "map_of m k = Some v \<Longrightarrow> wf_map m \<Longrightarrow>
   (\<Sum>p\<leftarrow>map_set k v' m. f (snd p)) + f v = (\<Sum>p\<leftarrow>m. f (snd p)) + (f v' :: nat)"
  by (induction m) (auto split: if_splits)

section \<open>Options and lists\<close>

text \<open>\<^verbatim>\<open>undefined\<close> is \<^term>\<open>None\<close>; a reader that allows JSON null gives an option of an option.\<close>

fun all_some :: "'a option list \<Rightarrow> 'a list option" where
  "all_some [] = Some []"
| "all_some (x # xs) =
     (case x of None \<Rightarrow> None | Some a \<Rightarrow> (case all_some xs of None \<Rightarrow> None | Some as \<Rightarrow> Some (a # as)))"

lemma all_some_map_Some [simp]: "all_some (map Some ys) = Some ys"
  by (induction ys) auto

lemma all_some_Some: "all_some xs = Some ys \<longleftrightarrow> xs = map Some ys"
proof
  show "all_some xs = Some ys \<Longrightarrow> xs = map Some ys"
    by (induction xs arbitrary: ys) (auto split: option.splits)
qed simp

lemma all_some_map_iff: "all_some (map f xs) = Some ys \<longleftrightarrow> list_all2 (\<lambda>x y. f x = Some y) xs ys"
  by (auto simp: all_some_Some list_all2_conv_all_nth list_eq_iff_nth_eq)

lemma distinct_subset_same_length:
  assumes "distinct xs" and "set xs \<subseteq> set ys" and "length ys = length xs"
  shows "distinct ys" and "set ys = set xs"
proof -
  have "card (set xs) = length ys" using assms by (simp add: distinct_card)
  moreover have "card (set xs) \<le> card (set ys)" by (rule card_mono) (use assms in auto)
  moreover have "card (set ys) \<le> length ys" by (rule card_length)
  ultimately have "card (set ys) = length ys" by linarith
  then show "distinct ys" by (rule card_distinct)
  with assms show "set ys = set xs"
    by (metis List.finite_set card_subset_eq distinct_card)
qed

end
