(* ===== verification/Utf8.thy ===== *)
theory Utf8
  imports Prelude
begin

text \<open>
  The part of the JavaScript standard library that turns strings into bytes and back, as the
  sources use it: the code points of a string (string iteration, \<^verbatim>\<open>Array.from\<close>), the UTF-8
  encoding of \<^verbatim>\<open>Buffer.from(text, "utf8")\<close> and \<^verbatim>\<open>Buffer.byteLength\<close>, and the UTF-8 decoder of
  \<^verbatim>\<open>TextDecoder\<close> and \<^verbatim>\<open>Buffer.toString("utf8")\<close>. The lemmas are the round trips between them.
\<close>

section \<open>Code points\<close>

lemma unat_lt_65536: "unat (u :: unit16) < 0x10000"
  using unsigned_less [of u] by simp

text \<open>
  Iteration of a string joins a high and a low surrogate into one code point; a lone
  surrogate is a code point of its own.
\<close>

definition pair_point :: "unit16 \<Rightarrow> unit16 \<Rightarrow> nat" where
  "pair_point h l = 0x10000 + (unat h - 0xD800) * 0x400 + (unat l - 0xDC00)"

fun code_points :: "jstr \<Rightarrow> nat list" where
  "code_points [] = []"
| "code_points [u] = [unat u]"
| "code_points (u # v # s) =
     (if high_surrogate u \<and> low_surrogate v then pair_point u v # code_points s
      else unat u # code_points (v # s))"

definition units_of_point :: "nat \<Rightarrow> jstr" where
  "units_of_point p =
     (if p < 0x10000 then [of_nat p]
      else [of_nat (0xD800 + (p - 0x10000) div 0x400), of_nat (0xDC00 + (p - 0x10000) mod 0x400)])"

definition units_of_points :: "nat list \<Rightarrow> jstr" where
  "units_of_points ps = concat (map units_of_point ps)"

definition surrogate_point :: "nat \<Rightarrow> bool" where
  "surrogate_point p \<longleftrightarrow> 0xD800 \<le> p \<and> p \<le> 0xDFFF"

definition scalar_point :: "nat \<Rightarrow> bool" where
  "scalar_point p \<longleftrightarrow> p < 0x110000 \<and> \<not> surrogate_point p"

text \<open>A string is well formed when it has no lone surrogate.\<close>

definition well_formed :: "jstr \<Rightarrow> bool" where
  "well_formed s \<longleftrightarrow> list_all scalar_point (code_points s)"

lemma units_pair_point:
  assumes "high_surrogate u" "low_surrogate v"
  shows "units_of_point (pair_point u v) = [u, v]"
proof -
  have u: "0xD800 \<le> unat u" "unat u \<le> 0xDBFF" and v: "0xDC00 \<le> unat v" "unat v \<le> 0xDFFF"
    using assms by (simp_all add: high_surrogate_def low_surrogate_def word_le_nat_alt)
  let ?a = "unat u - 0xD800" and ?b = "unat v - 0xDC00"
  have "?b < 0x400" using v by linarith
  then have "(pair_point u v - 0x10000) div 0x400 = ?a" "(pair_point u v - 0x10000) mod 0x400 = ?b"
    by (simp_all add: pair_point_def)
  with u v show ?thesis by (simp add: units_of_point_def pair_point_def)
qed

lemma units_of_points_simps [simp]:
  "units_of_points [] = []"
  "units_of_points (p # ps) = units_of_point p @ units_of_points ps"
  by (simp_all add: units_of_points_def)

lemma units_of_unat [simp]: "units_of_point (unat (u :: unit16)) = [u]"
  using unat_lt_65536 [of u] by (simp add: units_of_point_def)

lemma units_code_points [simp]: "units_of_points (code_points s) = s"
  by (induction s rule: code_points.induct) (auto simp: units_pair_point)

lemma code_points_Nil [simp]: "code_points s = [] \<longleftrightarrow> s = []"
  by (induction s rule: code_points.induct) auto

lemma code_points_ascii: "list_all (\<lambda>u. u < 0xD800) s \<Longrightarrow> code_points s = map unat s"
  by (induction s rule: code_points.induct) (auto simp: high_surrogate_def)

lemma code_points_bound: "p \<in> set (code_points s) \<Longrightarrow> p < 0x110000"
proof (induction s rule: code_points.induct)
  case (2 u)
  then show ?case using unat_lt_65536 [of u] by simp
next
  case (3 u v s)
  have "pair_point u v < 0x110000" if "high_surrogate u" "low_surrogate v"
    using that by (auto simp: pair_point_def high_surrogate_def low_surrogate_def word_le_nat_alt)
  with 3 show ?case using unat_lt_65536 [of u] by (auto split: if_splits)
qed simp

section \<open>The UTF-8 encoder\<close>

definition byte :: "nat \<Rightarrow> u8" where
  "byte n = of_nat n"

lemma unat_byte: "n < 256 \<Longrightarrow> unat (byte n) = n"
  by (simp add: byte_def unat_of_nat)

definition utf8_point :: "nat \<Rightarrow> u8 list" where
  "utf8_point p =
     (if p < 0x80 then [byte p]
      else if p < 0x800 then [byte (0xC0 + p div 64), byte (0x80 + p mod 64)]
      else if p < 0x10000 then
        [byte (0xE0 + p div 4096), byte (0x80 + p div 64 mod 64), byte (0x80 + p mod 64)]
      else [byte (0xF0 + p div 262144), byte (0x80 + p div 4096 mod 64),
            byte (0x80 + p div 64 mod 64), byte (0x80 + p mod 64)])"

text \<open>A lone surrogate is encoded as the replacement character U+FFFD.\<close>

definition utf8_scalar :: "nat \<Rightarrow> nat" where
  "utf8_scalar p = (if surrogate_point p then 0xFFFD else p)"

definition utf8_points :: "nat list \<Rightarrow> u8 list" where
  "utf8_points ps = concat (map utf8_point ps)"

definition utf8_encode :: "jstr \<Rightarrow> u8 list" where
  "utf8_encode s = utf8_points (map utf8_scalar (code_points s))"

definition byteLength :: "jstr \<Rightarrow> nat" where
  "byteLength s = length (utf8_encode s)"

section \<open>The UTF-8 decoder\<close>

text \<open>
  The decoder of the Encoding standard: one item for each scalar value, or \<^term>\<open>None\<close> for
  each maximal ill-formed part. A fatal decoder refuses every \<^term>\<open>None\<close>, and the other
  decoder replaces it with U+FFFD. The byte-order mark is kept.
\<close>

definition continuation :: "u8 \<Rightarrow> bool" where
  "continuation b \<longleftrightarrow> 0x80 \<le> b \<and> b \<le> 0xBF"

definition second_ok :: "u8 \<Rightarrow> u8 \<Rightarrow> bool" where
  "second_ok b c \<longleftrightarrow>
     (if b = 0xE0 then 0xA0 else if b = 0xF0 then 0x90 else 0x80) \<le> c \<and>
     c \<le> (if b = 0xED then 0x9F else if b = 0xF4 then 0x8F else 0xBF)"

definition low6 :: "u8 \<Rightarrow> nat" where
  "low6 b = unat b - 0x80"

fun utf8_items :: "u8 list \<Rightarrow> nat option list" where
  "utf8_items [] = []"
| "utf8_items (b # r) =
     (if b < 0x80 then Some (unat b) # utf8_items r
      else if 0xC2 \<le> b \<and> b \<le> 0xDF then
        (case r of
           c # r1 \<Rightarrow>
             if second_ok b c then Some ((unat b - 0xC0) * 64 + low6 c) # utf8_items r1
             else None # utf8_items r
         | [] \<Rightarrow> [None])
      else if 0xE0 \<le> b \<and> b \<le> 0xEF then
        (case r of
           c # r1 \<Rightarrow>
             if second_ok b c then
               (case r1 of
                  d # r2 \<Rightarrow>
                    if continuation d
                    then Some ((unat b - 0xE0) * 4096 + low6 c * 64 + low6 d) # utf8_items r2
                    else None # utf8_items r1
                | [] \<Rightarrow> [None])
             else None # utf8_items r
         | [] \<Rightarrow> [None])
      else if 0xF0 \<le> b \<and> b \<le> 0xF4 then
        (case r of
           c # r1 \<Rightarrow>
             if second_ok b c then
               (case r1 of
                  d # r2 \<Rightarrow>
                    if continuation d then
                      (case r2 of
                         e # r3 \<Rightarrow>
                           if continuation e
                           then Some ((unat b - 0xF0) * 262144 + low6 c * 4096 + low6 d * 64 + low6 e)
                                  # utf8_items r3
                           else None # utf8_items r2
                       | [] \<Rightarrow> [None])
                    else None # utf8_items r1
                | [] \<Rightarrow> [None])
             else None # utf8_items r
         | [] \<Rightarrow> [None])
      else None # utf8_items r)"

text \<open>\<^verbatim>\<open>new TextDecoder("utf-8", { fatal: true, ignoreBOM: true }).decode(bytes)\<close>.\<close>

definition utf8_decode :: "u8 list \<Rightarrow> jstr option" where
  "utf8_decode bs = map_option units_of_points (all_some (utf8_items bs))"

text \<open>\<^verbatim>\<open>buffer.toString("utf8")\<close>, which never fails.\<close>

definition utf8_to_string :: "u8 list \<Rightarrow> jstr" where
  "utf8_to_string bs =
     units_of_points (map (\<lambda>i. case i of None \<Rightarrow> 0xFFFD | Some p \<Rightarrow> p) (utf8_items bs))"

declare utf8_items.simps(2) [simp del]

section \<open>Round trips\<close>

lemma utf8_scalar_scalar: "p < 0x110000 \<Longrightarrow> scalar_point (utf8_scalar p)"
  by (auto simp: utf8_scalar_def scalar_point_def surrogate_point_def)

lemmas byte_arith = word_less_nat_alt word_le_nat_alt unat_byte second_ok_def low6_def
  continuation_def word_unat_eq_iff

lemma digits64:
  fixes p :: nat
  shows "p div 4096 * 4096 + p div 64 mod 64 * 64 + p mod 64 = p"
    and "p div 262144 * 262144 + p div 4096 mod 64 * 4096 + p div 64 mod 64 * 64 + p mod 64 = p"
proof -
  have d: "p div 4096 = p div 64 div 64" "p div 262144 = p div 4096 div 64"
    by (simp_all flip: div_mult2_eq)
  have "p div 64 * 64 + p mod 64 = p" "p div 64 div 64 * 64 + p div 64 mod 64 = p div 64"
    "p div 4096 div 64 * 64 + p div 4096 mod 64 = p div 4096"
    by (rule div_mult_mod_eq)+
  with d show "p div 4096 * 4096 + p div 64 mod 64 * 64 + p mod 64 = p"
    and "p div 262144 * 262144 + p div 4096 mod 64 * 4096 + p div 64 mod 64 * 64 + p mod 64 = p"
    by linarith+
qed

lemma utf8_items_lead2:
  assumes "0xC2 \<le> unat b" "unat b \<le> 0xDF" "second_ok b c"
  shows "utf8_items (b # c # r) = Some ((unat b - 0xC0) * 64 + low6 c) # utf8_items r"
  using assms by (subst utf8_items.simps) (simp add: word_less_nat_alt word_le_nat_alt)

lemma utf8_items_lead3:
  assumes "0xE0 \<le> unat b" "unat b \<le> 0xEF" "second_ok b c" "continuation d"
  shows "utf8_items (b # c # d # r) =
    Some ((unat b - 0xE0) * 4096 + low6 c * 64 + low6 d) # utf8_items r"
  using assms by (subst utf8_items.simps) (simp add: word_less_nat_alt word_le_nat_alt)

lemma utf8_items_lead4:
  assumes "0xF0 \<le> unat b" "unat b \<le> 0xF4" "second_ok b c" "continuation d" "continuation e"
  shows "utf8_items (b # c # d # e # r) =
    Some ((unat b - 0xF0) * 262144 + low6 c * 4096 + low6 d * 64 + low6 e) # utf8_items r"
  using assms by (subst utf8_items.simps) (simp add: word_less_nat_alt word_le_nat_alt)

lemma continuation_byte: "b < 64 \<Longrightarrow> continuation (byte (128 + b))"
  by (simp add: continuation_def word_le_nat_alt unat_byte)

lemma low6_byte: "b < 64 \<Longrightarrow> low6 (byte (128 + b)) = b"
  by (simp add: low6_def unat_byte)

lemma utf8_items_ascii: "p < 0x80 \<Longrightarrow> utf8_items (utf8_point p @ r) = Some p # utf8_items r"
  by (simp add: utf8_point_def byte_arith utf8_items.simps(2) [of "byte p"])

lemma utf8_items_two:
  assumes "0x80 \<le> p" "p < 0x800"
  shows "utf8_items (utf8_point p @ r) = Some p # utf8_items r"
proof -
  define a b where ab: "a = p div 64" "b = p mod 64"
  have eq: "a * 64 + b = p" unfolding ab by presburger
  have l: "a < 32" "2 \<le> a" "b < 64" unfolding ab using assms by auto
  have "second_ok (byte (192 + a)) (byte (128 + b))"
    using l by (simp add: byte_arith)
  then have "utf8_items (byte (192 + a) # byte (128 + b) # r) = Some (a * 64 + b) # utf8_items r"
    using l by (subst utf8_items_lead2) (simp_all add: unat_byte low6_byte)
  with assms eq show ?thesis unfolding utf8_point_def ab [symmetric] by simp
qed

lemma utf8_items_three:
  assumes "0x800 \<le> p" "p < 0x10000" "\<not> surrogate_point p"
  shows "utf8_items (utf8_point p @ r) = Some p # utf8_items r"
proof -
  define a b c where abc: "a = p div 4096" "b = p div 64 mod 64" "c = p mod 64"
  have eq: "a * 4096 + b * 64 + c = p" unfolding abc by (rule digits64)
  have l: "a < 16" "b < 64" "c < 64" unfolding abc using assms by auto
  have lo: "a = 0 \<Longrightarrow> 32 \<le> b" using eq assms l by linarith
  have hi: "b < 32" if "a = 13"
  proof (rule ccontr)
    assume "\<not> b < 32"
    then have "surrogate_point p" using eq l that by (simp add: surrogate_point_def)
    with assms show False by simp
  qed
  have "second_ok (byte (224 + a)) (byte (128 + b))"
    using l lo hi by (auto simp: byte_arith)
  then have "utf8_items (byte (224 + a) # byte (128 + b) # byte (128 + c) # r) =
      Some (a * 4096 + b * 64 + c) # utf8_items r"
    using l by (subst utf8_items_lead3) (simp_all add: unat_byte low6_byte continuation_byte)
  with assms eq show ?thesis unfolding utf8_point_def abc [symmetric] by simp
qed

lemma utf8_items_four:
  assumes "0x10000 \<le> p" "p < 0x110000"
  shows "utf8_items (utf8_point p @ r) = Some p # utf8_items r"
proof -
  define a b c d where abcd: "a = p div 262144" "b = p div 4096 mod 64" "c = p div 64 mod 64" "d = p mod 64"
  have eq: "a * 262144 + b * 4096 + c * 64 + d = p" unfolding abcd by (rule digits64)
  have l: "a < 5" "b < 64" "c < 64" "d < 64" unfolding abcd using assms by auto
  have lo: "a = 0 \<Longrightarrow> 16 \<le> b" using eq assms l by linarith
  have hi: "a = 4 \<Longrightarrow> b < 16" using eq assms by linarith
  have "second_ok (byte (240 + a)) (byte (128 + b))"
    using l lo hi by (auto simp: byte_arith)
  then have "utf8_items (byte (240 + a) # byte (128 + b) # byte (128 + c) # byte (128 + d) # r) =
      Some (a * 262144 + b * 4096 + c * 64 + d) # utf8_items r"
    using l by (subst utf8_items_lead4) (simp_all add: unat_byte low6_byte continuation_byte)
  with assms eq show ?thesis unfolding utf8_point_def abcd [symmetric] by simp
qed

lemma utf8_items_point:
  assumes "scalar_point p"
  shows "utf8_items (utf8_point p @ r) = Some p # utf8_items r"
proof -
  consider "p < 0x80" | "0x80 \<le> p" "p < 0x800" | "0x800 \<le> p" "p < 0x10000" | "0x10000 \<le> p"
    by linarith
  then show ?thesis
  proof cases
    case 1
    then show ?thesis by (rule utf8_items_ascii)
  next
    case 2
    then show ?thesis by (rule utf8_items_two)
  next
    case 3
    with assms show ?thesis by (intro utf8_items_three) (auto simp: scalar_point_def)
  next
    case 4
    with assms show ?thesis by (intro utf8_items_four) (auto simp: scalar_point_def)
  qed
qed

lemma utf8_items_points:
  "list_all scalar_point ps \<Longrightarrow> utf8_items (utf8_points ps) = map Some ps"
  by (induction ps) (auto simp: utf8_points_def utf8_items_point)

lemma utf8_decode_points: "list_all scalar_point ps \<Longrightarrow> utf8_decode (utf8_points ps) = Some (units_of_points ps)"
  by (simp add: utf8_decode_def utf8_items_points)

lemma utf8_to_string_points: "list_all scalar_point ps \<Longrightarrow> utf8_to_string (utf8_points ps) = units_of_points ps"
  by (simp add: utf8_to_string_def utf8_items_points comp_def)

lemma well_formed_scalars: "well_formed s \<Longrightarrow> map utf8_scalar (code_points s) = code_points s"
  by (auto simp: well_formed_def list_all_iff scalar_point_def utf8_scalar_def intro: map_idI)

lemma utf8_decode_encode: "well_formed s \<Longrightarrow> utf8_decode (utf8_encode s) = Some s"
  by (simp add: utf8_encode_def well_formed_scalars)
     (simp add: utf8_decode_points well_formed_def)

lemma ascii_well_formed: "list_all (\<lambda>u. u < 0x80) s \<Longrightarrow> well_formed s"
proof -
  assume a: "list_all (\<lambda>u. u < 0x80) s"
  then have "list_all (\<lambda>u. u < 0xD800) s" by (auto simp: list_all_iff word_less_nat_alt)
  then have "code_points s = map unat s" by (rule code_points_ascii)
  with a show ?thesis
    by (auto simp: well_formed_def list_all_iff scalar_point_def surrogate_point_def word_less_nat_alt)
qed

end
