(* ===== verification/Json.thy ===== *)
theory Json
  imports Utf8 "HOL-Library.List_Lexorder" Complex_Main
begin

text \<open>
  The lossless JSON values of \<^verbatim>\<open>ext-pi/src/manager/json.ts\<close>: the value type, the number grammar,
  the exact decimal value of a number, bounded integers, and the equality of values. The
  functional specification of the number operations is the rational number that a source text
  denotes, and that of \<^verbatim>\<open>jsonEqual\<close> is the equality of canonical forms.
\<close>

section \<open>Values\<close>

text \<open>
  A JSON value over a type of numbers. The manager client instantiates it with the source text
  of each number (\<^verbatim>\<open>JsonNumber\<close>); the run reducer, which reads values of \<^verbatim>\<open>JSON.parse\<close>, with
  JavaScript numbers. The members of an object are kept as a list; the names are distinct in
  every JavaScript object, which \<open>wf_json\<close> below states, and no operation of the source observes
  their order.
\<close>

datatype 'n json =
  JNull
| JBool bool
| JNum 'n
| JStr jstr
| JArr "'n json list"
| JObj "(jstr \<times> 'n json) list"

type_synonym 'n json_object = "(jstr \<times> 'n json) list"
type_synonym json_value = "jstr json"
type_synonym json_members = "(jstr \<times> jstr json) list"

fun isJsonArray :: "'n json \<Rightarrow> bool" where
  "isJsonArray (JArr _) = True"
| "isJsonArray _ = False"

fun isJsonObject :: "'n json \<Rightarrow> bool" where
  "isJsonObject (JObj _) = True"
| "isJsonObject _ = False"

definition jsonMember :: "'n json_object \<Rightarrow> jstr \<Rightarrow> 'n json option" where
  "jsonMember fields name = map_of fields name"

section \<open>Number texts\<close>

definition lex_sign :: "jstr \<Rightarrow> bool \<times> jstr" where
  "lex_sign s = (case s of [] \<Rightarrow> (False, []) | c # r \<Rightarrow> if c = 45 then (True, r) else (False, s))"

definition lex_whole :: "jstr \<Rightarrow> (jstr \<times> jstr) option" where
  "lex_whole s =
     (case s of [] \<Rightarrow> None
      | c # r \<Rightarrow> if c = 48 then Some ([48], r)
                else if is_digit c then Some (takeWhile is_digit s, dropWhile is_digit s)
                else None)"

definition lex_fraction :: "jstr \<Rightarrow> jstr \<times> jstr" where
  "lex_fraction s =
     (if s \<noteq> [] \<and> hd s = 46 \<and> takeWhile is_digit (tl s) \<noteq> []
      then (takeWhile is_digit (tl s), dropWhile is_digit (tl s)) else ([], s))"

definition lex_power_sign :: "jstr \<Rightarrow> jstr \<times> jstr" where
  "lex_power_sign s =
     (case s of [] \<Rightarrow> ([], []) | c # r \<Rightarrow> if c = 43 \<or> c = 45 then ([c], r) else ([], s))"

definition lex_power :: "jstr \<Rightarrow> jstr \<times> jstr" where
  "lex_power s =
     (if s \<noteq> [] \<and> (hd s = 101 \<or> hd s = 69) then
        (let (sg, r) = lex_power_sign (tl s) in
         if takeWhile is_digit r \<noteq> [] then (sg @ takeWhile is_digit r, dropWhile is_digit r)
         else ([48], s))
      else ([48], s))"

text \<open>
  The longest number at the start of a text: its sign, whole digits, fraction digits
  (\<^verbatim>\<open>""\<close> when absent), power text (\<^verbatim>\<open>"0"\<close> when absent), and what follows it.
\<close>

definition lex_number :: "jstr \<Rightarrow> (bool \<times> jstr \<times> jstr \<times> jstr \<times> jstr) option" where
  "lex_number s =
     (let (neg, r) = lex_sign s in
      case lex_whole r of
        None \<Rightarrow> None
      | Some (whole, r1) \<Rightarrow>
          (let (fraction, r2) = lex_fraction r1; (pw, rest) = lex_power r2
           in Some (neg, whole, fraction, pw, rest)))"

text \<open>\<^verbatim>\<open>NUMBER_GRAMMAR\<close>: the whole text is one number.\<close>

definition number_grammar :: "jstr \<Rightarrow> bool" where
  "number_grammar s \<longleftrightarrow> (case lex_number s of None \<Rightarrow> False | Some (_, _, _, _, rest) \<Rightarrow> rest = [])"

text \<open>The constructor of \<^verbatim>\<open>JsonNumber\<close>: a text outside the grammar throws \<^verbatim>\<open>SyntaxError\<close>.\<close>

definition mk_JsonNumber :: "jstr \<Rightarrow> json_value option" where
  "mk_JsonNumber source = (if number_grammar source then Some (JNum source) else None)"

definition ofBigInt :: "int \<Rightarrow> json_value" where
  "ofBigInt value = JNum (int_text value)"

text \<open>\<^verbatim>\<open>BigInt(text)\<close> of an optionally signed digit text.\<close>

definition bigint_of :: "jstr \<Rightarrow> int" where
  "bigint_of p =
     (case p of [] \<Rightarrow> 0
      | c # r \<Rightarrow> if c = 43 then int (digits_val r) else if c = 45 then - int (digits_val r)
                else int (digits_val p))"

section \<open>Exact decimal values\<close>

record decimal =
  negative :: bool
  digits :: jstr
  exponent :: int

definition strip_leading :: "jstr \<Rightarrow> jstr" where
  "strip_leading s = dropWhile (\<lambda>c. c = 48) s"

definition strip_trailing :: "jstr \<Rightarrow> jstr" where
  "strip_trailing s = rev (dropWhile (\<lambda>c. c = 48) (rev s))"

text \<open>\<^term>\<open>None\<close> is the \<^verbatim>\<open>SyntaxError\<close> of a text outside the grammar.\<close>

definition decimalOf :: "jstr \<Rightarrow> decimal option" where
  "decimalOf source =
     (case lex_number source of
        None \<Rightarrow> None
      | Some (sign, whole, fraction, pw, rest) \<Rightarrow>
          if rest \<noteq> [] then None
          else
            (let ds = strip_leading (whole @ fraction);
                 ex = bigint_of pw - int (length fraction) in
             if ds = [] then Some \<lparr>negative = False, digits = [48], exponent = 0\<rparr>
             else
               (let trailing = length ds - length (strip_trailing ds) in
                Some \<lparr>negative = sign, digits = take (length ds - trailing) ds,
                      exponent = ex + int trailing\<rparr>)))"

definition numberEqual :: "jstr \<Rightarrow> jstr \<Rightarrow> bool" where
  "numberEqual a b =
     (case (decimalOf a, decimalOf b) of
        (Some x, Some y) \<Rightarrow>
          negative x = negative y \<and> digits x = digits y \<and> exponent x = exponent y
      | _ \<Rightarrow> False)"

definition boundedInteger :: "jstr \<Rightarrow> int \<Rightarrow> int \<Rightarrow> int option" where
  "boundedInteger number minimum maximum =
     (case decimalOf number of
        None \<Rightarrow> None
      | Some d \<Rightarrow>
          if exponent d < 0 then None
          else
            (let limit = max (length (int_text minimum)) (length (int_text maximum)) in
             if int (length (digits d)) + exponent d > int limit then None
             else
               (let magnitude = int (digits_val (digits d)) * 10 ^ nat (exponent d);
                    value = (if negative d then - magnitude else magnitude) in
                if value \<ge> minimum \<and> value \<le> maximum then Some value else None)))"

definition WORD64_MAX :: int where
  "WORD64_MAX = 18446744073709551615"

definition word64 :: "json_value option \<Rightarrow> int option" where
  "word64 value =
     (case value of Some (JNum number) \<Rightarrow> boundedInteger number 0 WORD64_MAX | _ \<Rightarrow> None)"

section \<open>Equality of values\<close>

lemma json_size_zip [termination_simp]:
  "(x, y) \<in> set (zip xs ys) \<Longrightarrow> size x < Suc (size_list size xs)"
  by (drule set_zip_leftD) (simp add: less_Suc_eq_le size_list_estimation')

fun jsonEqual :: "json_value \<Rightarrow> json_value \<Rightarrow> bool" where
  "jsonEqual (JNum a) (JNum b) = numberEqual a b"
| "jsonEqual JNull JNull = True"
| "jsonEqual (JBool a) (JBool b) = (a = b)"
| "jsonEqual (JStr a) (JStr b) = (a = b)"
| "jsonEqual (JArr xs) (JArr ys) =
     (length xs = length ys \<and> list_all (\<lambda>(x, y). jsonEqual x y) (zip xs ys))"
| "jsonEqual (JObj xs) (JObj ys) =
     (length xs = length ys \<and>
      list_all (\<lambda>(name, x). case map_of ys name of None \<Rightarrow> False | Some y \<Rightarrow> jsonEqual x y) xs)"
| "jsonEqual _ _ = False"

text \<open>
  The invariant of every value of the source: a \<^verbatim>\<open>JsonNumber\<close> holds a text of the grammar, and
  the names of an object are distinct.
\<close>

fun wf_json :: "json_value \<Rightarrow> bool" where
  "wf_json (JNum s) = number_grammar s"
| "wf_json (JArr xs) = list_all wf_json xs"
| "wf_json (JObj kvs) = (distinct (map fst kvs) \<and> list_all (\<lambda>(_, v). wf_json v) kvs)"
| "wf_json _ = True"

section \<open>What a number denotes\<close>

text \<open>The rational number of a source text: the specification of the operations above.\<close>

definition number_value :: "jstr \<Rightarrow> rat" where
  "number_value s =
     (case lex_number s of
        None \<Rightarrow> 0
      | Some (sign, whole, fraction, pw, _) \<Rightarrow>
          (if sign then -1 else 1) * of_nat (digits_val (whole @ fraction))
            * 10 powi (bigint_of pw - int (length fraction)))"

definition decimal_value :: "decimal \<Rightarrow> rat" where
  "decimal_value d =
     (if negative d then -1 else 1) * of_nat (digits_val (digits d)) * 10 powi exponent d"

text \<open>Normal forms: zero has one form, and other coefficients have no zero at either end.\<close>

definition normal_decimal :: "decimal \<Rightarrow> bool" where
  "normal_decimal d \<longleftrightarrow>
     d = \<lparr>negative = False, digits = [48], exponent = 0\<rparr> \<or>
     (digits d \<noteq> [] \<and> list_all is_digit (digits d) \<and> hd (digits d) \<noteq> 48 \<and> last (digits d) \<noteq> 48)"

lemma list_all_takeWhile [simp]: "list_all P (takeWhile P s)"
  by (auto simp: list_all_iff dest: set_takeWhileD)

lemma lex_whole_digits: "lex_whole s = Some (w, r) \<Longrightarrow> list_all is_digit w \<and> w \<noteq> [] \<and> s = w @ r"
  by (auto simp: lex_whole_def is_digit_def split: list.splits if_splits)

lemma lex_fraction_digits: "lex_fraction s = (f, r) \<Longrightarrow> list_all is_digit f"
  by (auto simp: lex_fraction_def split: if_splits)

lemma lex_number_digits:
  "lex_number s = Some (n, w, f, p, r) \<Longrightarrow> list_all is_digit w \<and> w \<noteq> [] \<and> list_all is_digit f"
  by (auto simp: lex_number_def split: prod.splits option.splits dest: lex_whole_digits lex_fraction_digits)

lemma digit_val_48 [simp]: "digit_val 48 = 0"
  by (simp add: digit_val_def)

lemma strip_leading_simps [simp]:
  "strip_leading [] = []" "strip_leading (c # s) = (if c = 48 then strip_leading s else c # s)"
  by (simp_all add: strip_leading_def)

lemma digits_val_strip_leading: "digits_val (strip_leading s) = digits_val s"
  by (induction s) (auto simp: digits_val_Cons)

lemma strip_leading_props:
  "list_all is_digit s \<Longrightarrow> list_all is_digit (strip_leading s)"
  "strip_leading s \<noteq> [] \<Longrightarrow> hd (strip_leading s) \<noteq> 48"
  by (induction s) auto

lemma strip_trailing_split: "\<exists>k. s = strip_trailing s @ replicate k 48"
proof -
  have "rev s = takeWhile (\<lambda>c. c = 48) (rev s) @ dropWhile (\<lambda>c. c = 48) (rev s)" by simp
  then have "s = strip_trailing s @ rev (takeWhile (\<lambda>c. c = 48) (rev s))"
    unfolding strip_trailing_def by (metis rev_append rev_rev_ident)
  moreover have "rev (takeWhile (\<lambda>c. c = 48) (rev s)) = replicate (length (takeWhile (\<lambda>c. c = 48) (rev s))) 48"
    by (auto simp: rev_swap replicate_length_same dest: set_takeWhileD intro!: replicate_length_same [symmetric])
  ultimately show ?thesis by metis
qed

lemma strip_trailing_last: "strip_trailing s \<noteq> [] \<Longrightarrow> last (strip_trailing s) \<noteq> 48"
  unfolding strip_trailing_def
  using hd_dropWhile [of "\<lambda>c. c = 48" "rev s"] by (auto simp: last_rev)

lemma digits_val_replicate_zero: "digits_val (s @ replicate k 48) = digits_val s * 10 ^ k"
proof (induction k)
  case (Suc k)
  have "s @ replicate (Suc k) 48 = (s @ replicate k 48) @ [48]"
    by (simp add: replicate_append_same)
  with Suc show ?case by (simp only: digits_val_snoc) simp
qed simp

lemma digits_val_0_iff: "list_all is_digit s \<Longrightarrow> digits_val s = 0 \<longleftrightarrow> strip_leading s = []"
proof (induction s)
  case (Cons c s)
  then show ?case using digit_val_zero [of c] by (auto simp: digits_val_Cons)
qed simp

text \<open>Everything the proofs need of \<^verbatim>\<open>decimalOf\<close>: it gives the normal form of the exact value.\<close>

lemma decimalOf_Some:
  assumes "decimalOf s = Some d"
  shows "normal_decimal d" and "decimal_value d = number_value s" and "number_grammar s"
proof -
  from assms obtain n w f p where lx: "lex_number s = Some (n, w, f, p, [])"
    by (auto simp: decimalOf_def split: option.splits prod.splits if_splits)
  then show "number_grammar s" by (simp add: number_grammar_def)
  define ds where "ds = strip_leading (w @ f)"
  define ex where "ex = bigint_of p - int (length f)"
  have dig: "list_all is_digit ds"
    using lex_number_digits [OF lx] by (simp add: ds_def strip_leading_props)
  have val: "number_value s = (if n then -1 else 1) * of_nat (digits_val ds) * 10 powi ex"
    by (simp add: number_value_def lx ds_def ex_def digits_val_strip_leading)
  have "normal_decimal d \<and> decimal_value d = number_value s"
  proof (cases "ds = []")
    case True
    with assms lx have "d = \<lparr>negative = False, digits = [48], exponent = 0\<rparr>"
      by (simp add: decimalOf_def ds_def Let_def)
    with val True show ?thesis by (simp add: normal_decimal_def decimal_value_def)
  next
    case False
    obtain k where k: "ds = strip_trailing ds @ replicate k 48" using strip_trailing_split by blast
    have len: "length ds = length (strip_trailing ds) + k"
      using arg_cong [OF k, of length] by simp
    have tk: "take (length ds - (length ds - length (strip_trailing ds))) ds = strip_trailing ds"
      using k len by (metis add_diff_cancel_right' append_eq_conv_conj diff_diff_cancel le_add1)
    have d: "d = \<lparr>negative = n, digits = strip_trailing ds, exponent = ex + int k\<rparr>"
      using assms lx False tk len by (simp add: decimalOf_def ds_def [symmetric] ex_def Let_def)
    have hd48: "hd ds \<noteq> 48" using False strip_leading_props(2) by (simp add: ds_def)
    have ne: "strip_trailing ds \<noteq> []"
    proof
      assume "strip_trailing ds = []"
      with k have "ds = replicate k 48" by simp
      with False hd48 show False by (cases k) auto
    qed
    have "hd (strip_trailing ds) = hd ds" using k ne by (metis hd_append2)
    moreover have "list_all is_digit (strip_trailing ds)" using dig k by (metis list_all_append)
    ultimately have "normal_decimal d"
      using ne hd48 strip_trailing_last by (simp add: normal_decimal_def d)
    moreover have "digits_val ds = digits_val (strip_trailing ds) * 10 ^ k"
      using k digits_val_replicate_zero by metis
    ultimately show ?thesis
      by (simp add: val d decimal_value_def power_int_add)
  qed
  then show "normal_decimal d" and "decimal_value d = number_value s" by auto
qed

lemma decimalOf_grammar: "number_grammar s \<Longrightarrow> \<exists>d. decimalOf s = Some d"
  by (auto simp: number_grammar_def decimalOf_def Let_def split: option.splits prod.splits)

end
