(* ===== verification/JsonLaws.thy ===== *)
theory JsonLaws
  imports Json "HOL-Library.Multiset"
begin

text \<open>
  Correctness of the number operations and of the equality of \<^verbatim>\<open>json.ts\<close>: two numbers are equal
  exactly when they denote the same rational, \<^verbatim>\<open>boundedInteger\<close> gives exactly the integers of
  its range, and \<^verbatim>\<open>jsonEqual\<close> is equality of canonical forms, hence an equivalence.
\<close>

section \<open>Normal forms are unique\<close>

lemma digits_val_last: "s \<noteq> [] \<Longrightarrow> digits_val s mod 10 = digit_val (last s) mod 10"
  by (cases s rule: rev_cases) (auto simp: mod_add_left_eq [symmetric])

lemma normal_not_10:
  assumes "list_all is_digit s" "s \<noteq> []" "last s \<noteq> 48"
  shows "\<not> 10 dvd digits_val s"
proof -
  have d: "is_digit (last s)" using assms by (auto simp: list_all_iff)
  have "digit_val (last s) \<noteq> 0" using digit_val_zero [OF d] assms by simp
  then have "digit_val (last s) mod 10 \<noteq> 0" using digit_val_less [OF d] by simp
  then show ?thesis using digits_val_last [OF assms(2)] by (simp add: dvd_eq_mod_eq_0)
qed

lemma scaled_le:
  fixes m n :: nat
  assumes "(of_nat m :: rat) * 10 powi a = of_nat n * 10 powi b" "\<not> 10 dvd m"
  shows "b \<le> a"
proof (rule ccontr)
  assume "\<not> b \<le> a"
  then obtain k where k: "b = a + 1 + int k" using zle_iff_zadd [of "a + 1" b] by auto
  have "(of_nat m :: rat) * 10 powi a = of_nat n * (10 powi a * 10 powi (1 + int k))"
    using assms(1) by (simp add: k power_int_add flip: add.assoc)
  moreover have "(10 :: rat) powi a \<noteq> 0" by simp
  moreover have "(10 :: rat) powi (1 + int k) = of_nat (10 ^ Suc k)"
    by (simp add: power_int_add)
  ultimately have "(of_nat m :: rat) = of_nat (n * 10 ^ Suc k)" by simp
  then have "m = n * 10 ^ Suc k" by (simp only: of_nat_eq_iff)
  then have "10 dvd m" by simp
  with assms(2) show False ..
qed

lemma scaled_unique:
  fixes m n :: nat
  assumes "(of_nat m :: rat) * 10 powi a = of_nat n * 10 powi b" "\<not> 10 dvd m" "\<not> 10 dvd n"
  shows "m = n \<and> a = b"
proof -
  have "a = b" using scaled_le [OF assms(1,2)] scaled_le [OF assms(1) [symmetric] assms(3)] by simp
  with assms(1) show ?thesis by simp
qed

lemma normal_decimal_cases:
  assumes "normal_decimal d"
  obtains (zero) "d = \<lparr>negative = False, digits = [48], exponent = 0\<rparr>" "decimal_value d = 0"
  | (coefficient) "canonical_text (digits d)" "\<not> 10 dvd digits_val (digits d)" "decimal_value d \<noteq> 0"
proof (cases "d = \<lparr>negative = False, digits = [48], exponent = 0\<rparr>")
  case True
  then show ?thesis using zero by (simp add: decimal_value_def)
next
  case False
  with assms have p: "digits d \<noteq> []" "list_all is_digit (digits d)" "hd (digits d) \<noteq> 48" "last (digits d) \<noteq> 48"
    by (auto simp: normal_decimal_def)
  then have n: "\<not> 10 dvd digits_val (digits d)" by (intro normal_not_10) auto
  then have "digits_val (digits d) \<noteq> 0" by (metis dvd_0_right)
  with p n show ?thesis by (intro coefficient) (auto simp: canonical_text_def decimal_value_def)
qed

lemma normal_decimal_unique:
  assumes "normal_decimal d" "normal_decimal e" "decimal_value d = decimal_value e"
  shows "d = e"
  using assms(1)
proof (cases rule: normal_decimal_cases)
  case zero
  with assms(2,3) show ?thesis by (cases e rule: normal_decimal_cases) auto
next
  case c: coefficient
  with assms(3) have "decimal_value e \<noteq> 0" by simp
  with assms(2) have e: "canonical_text (digits e)" "\<not> 10 dvd digits_val (digits e)"
    by (cases e rule: normal_decimal_cases; simp)+
  define u v where "u = (of_nat (digits_val (digits d)) :: rat) * 10 powi exponent d"
    and "v = (of_nat (digits_val (digits e)) :: rat) * 10 powi exponent e"
  have nz: "digits_val (digits d) \<noteq> 0" "digits_val (digits e) \<noteq> 0"
    using c e by (metis dvd_0_right)+
  have pos: "u > 0" "v > 0" using nz by (simp_all add: u_def v_def)
  have "(if negative d then - u else u) = (if negative e then - v else v)"
    using assms(3) by (simp add: decimal_value_def u_def v_def split: if_splits)
  with pos have uv: "u = v" and neg: "negative d = negative e" by (auto split: if_splits)
  from uv have "digits_val (digits d) = digits_val (digits e) \<and> exponent d = exponent e"
    unfolding u_def v_def using c(2) e(2) by (rule scaled_unique)
  moreover from this have "digits d = digits e" using canonical_eq_iff c e by blast
  ultimately show ?thesis using neg by simp
qed

theorem numberEqual_exact:
  assumes "number_grammar a" "number_grammar b"
  shows "numberEqual a b \<longleftrightarrow> number_value a = number_value b"
proof -
  obtain d e where d: "decimalOf a = Some d" and e: "decimalOf b = Some e"
    using assms decimalOf_grammar by blast
  have "numberEqual a b \<longleftrightarrow> d = e" by (auto simp: numberEqual_def d e)
  moreover have "d = e \<longleftrightarrow> decimal_value d = decimal_value e"
    using normal_decimal_unique decimalOf_Some d e by blast
  ultimately show ?thesis using decimalOf_Some(2) [OF d] decimalOf_Some(2) [OF e] by simp
qed

lemma numberEqual_decimalOf:
  "number_grammar a \<Longrightarrow> numberEqual a b \<longleftrightarrow> decimalOf a = decimalOf b"
  using decimalOf_grammar [of a] by (auto simp: numberEqual_def split: option.splits)

section \<open>Bounded integers\<close>

lemma length_int_text: "length (int_text i) \<ge> length (dec (nat \<bar>i\<bar>))"
  by (auto simp: int_text_def)

lemma length_dec_mono:
  assumes "m \<le> n"
  shows "length (dec m) \<le> length (dec n)"
proof -
  obtain k where k: "length (dec n) = Suc k" by (cases "dec n") auto
  then have "n < 10 ^ Suc k" using length_dec [of n k] by simp
  with assms have "m < 10 ^ Suc k" by linarith
  with k show ?thesis using length_dec [of m k] by simp
qed

lemma digits_limit:
  assumes "canonical_text ds" "digits_val ds \<noteq> 0" "minimum \<le> i" "i \<le> maximum"
    and "nat \<bar>i\<bar> = digits_val ds * 10 ^ k"
  shows "length ds + k \<le> max (length (int_text minimum)) (length (int_text maximum))"
proof -
  have "ds \<noteq> [48]" using assms(2) by auto
  then have "10 ^ (length ds - 1) \<le> digits_val ds" using assms(1) by (rule digits_val_pos [rotated])
  then have "10 ^ (length ds - 1) * 10 ^ k \<le> nat \<bar>i\<bar>" using assms(5) by simp
  then have lo: "10 ^ (length ds - 1 + k) \<le> nat \<bar>i\<bar>" by (simp add: power_add)
  have ne: "length ds \<ge> 1" using assms(1) by (cases ds) (auto simp: canonical_text_def)
  have "length ds + k \<le> length (dec (nat \<bar>i\<bar>))"
  proof (rule ccontr)
    assume "\<not> length ds + k \<le> length (dec (nat \<bar>i\<bar>))"
    then have lt: "length (dec (nat \<bar>i\<bar>)) \<le> length ds - 1 + k" using ne by linarith
    then obtain j where j: "length ds - 1 + k = Suc j"
      by (cases "length ds - 1 + k") auto
    then have "nat \<bar>i\<bar> < 10 ^ Suc j" using lt length_dec [of "nat \<bar>i\<bar>" j] by simp
    then show False using lo unfolding j by linarith
  qed
  also have "\<dots> \<le> max (length (int_text minimum)) (length (int_text maximum))"
  proof (cases "0 \<le> i")
    case True
    then have "nat \<bar>i\<bar> \<le> nat \<bar>maximum\<bar>" using assms(4) by simp
    then show ?thesis using length_dec_mono length_int_text by (meson le_max_iff_disj le_trans)
  next
    case False
    then have "nat \<bar>i\<bar> \<le> nat \<bar>minimum\<bar>" using assms(3) by simp
    then show ?thesis using length_dec_mono length_int_text by (meson le_max_iff_disj le_trans)
  qed
  finally show ?thesis .
qed

text \<open>The integer that a normal form denotes when its exponent is not negative.\<close>

definition decimal_int :: "decimal \<Rightarrow> int" where
  "decimal_int d =
     (let m = int (digits_val (digits d)) * 10 ^ nat (exponent d) in if negative d then - m else m)"

lemma decimal_int_value: "0 \<le> exponent d \<Longrightarrow> decimal_value d = of_int (decimal_int d)"
  by (auto simp: decimal_value_def decimal_int_def Let_def power_int_def)

lemma fraction_not_int:
  assumes "\<not> 10 dvd digits_val (digits d)" "exponent d < 0"
  shows "decimal_value d \<noteq> of_int v"
proof
  assume eq: "decimal_value d = of_int v"
  define k where "k = nat (- exponent d)"
  have k: "exponent d = - int k" "0 < k" using assms(2) by (auto simp: k_def)
  have "\<bar>decimal_value d\<bar> = of_nat (digits_val (digits d)) * 10 powi exponent d"
    by (simp add: decimal_value_def)
  then have "(of_nat (digits_val (digits d)) :: rat) * 10 powi exponent d = of_nat (nat \<bar>v\<bar>) * 10 powi 0"
    by (simp add: eq)
  then have "0 \<le> exponent d" using assms(1) by (rule scaled_le)
  with assms(2) show False by simp
qed

lemma boundedInteger_unfold:
  assumes "decimalOf s = Some d"
  shows "boundedInteger s lo hi =
    (if 0 \<le> exponent d \<and>
        int (length (digits d)) + exponent d \<le> int (max (length (int_text lo)) (length (int_text hi))) \<and>
        lo \<le> decimal_int d \<and> decimal_int d \<le> hi
     then Some (decimal_int d) else None)"
  by (simp add: boundedInteger_def assms decimal_int_def Let_def)

theorem boundedInteger_exact:
  assumes "number_grammar s"
  shows "boundedInteger s lo hi = Some v \<longleftrightarrow> number_value s = of_int v \<and> lo \<le> v \<and> v \<le> hi"
proof -
  obtain d where d: "decimalOf s = Some d" using assms decimalOf_grammar by blast
  have val: "number_value s = decimal_value d" using decimalOf_Some(2) [OF d] by simp
  from decimalOf_Some(1) [OF d] show ?thesis
  proof (cases rule: normal_decimal_cases)
    case zero
    have "1 \<le> length (int_text lo)" by (simp add: int_text_def Suc_le_eq)
    with zero show ?thesis
      by (auto simp: boundedInteger_unfold [OF d] val decimal_int_def max_def)
  next
    case c: coefficient
    show ?thesis
    proof (cases "0 \<le> exponent d")
      case False
      with fraction_not_int [OF c(2)] show ?thesis
        by (auto simp: boundedInteger_unfold [OF d] val)
    next
      case True
      have "nat \<bar>decimal_int d\<bar> = digits_val (digits d) * 10 ^ nat (exponent d)"
        by (simp add: decimal_int_def Let_def abs_mult nat_mult_distrib nat_power_eq)
      moreover have "digits_val (digits d) \<noteq> 0" using c(2) by (metis dvd_0_right)
      ultimately have "lo \<le> decimal_int d \<Longrightarrow> decimal_int d \<le> hi \<Longrightarrow>
          length (digits d) + nat (exponent d) \<le> max (length (int_text lo)) (length (int_text hi))"
        using c(1) digits_limit by blast
      then have "lo \<le> decimal_int d \<Longrightarrow> decimal_int d \<le> hi \<Longrightarrow>
          int (length (digits d)) + exponent d \<le> int (max (length (int_text lo)) (length (int_text hi)))"
        using True by linarith
      then show ?thesis
        by (auto simp: boundedInteger_unfold [OF d] val decimal_int_value [OF True] True)
    qed
  qed
qed

lemma boundedInteger_range: "boundedInteger s lo hi = Some v \<Longrightarrow> lo \<le> v \<and> v \<le> hi"
  by (auto simp: boundedInteger_def Let_def split: option.splits if_splits)

section \<open>The integers that the client writes\<close>

lemma lex_digits:
  assumes "canonical_text t" "lex_fraction r = ([], r)" "r = [] \<or> \<not> is_digit (hd r)"
  shows "lex_whole (t @ r) = Some (t, r)"
proof -
  obtain c t' where t: "t = c # t'" using assms(1) by (cases t) (auto simp: canonical_text_def)
  have d: "list_all is_digit t" using assms(1) by (simp add: canonical_text_def)
  have "takeWhile is_digit (t @ r) = t" "dropWhile is_digit (t @ r) = r"
    using d assms(3) by (cases r; simp add: takeWhile_append dropWhile_append list_all_iff)+
  with assms(1) t d show ?thesis by (auto simp: lex_whole_def canonical_text_def)
qed

lemma is_digit_not_sign: "is_digit c \<Longrightarrow> c \<noteq> 45"
  by (auto simp: is_digit_def)

lemma lex_sign_digits: "list_all is_digit t \<Longrightarrow> t \<noteq> [] \<Longrightarrow> lex_sign t = (False, t)"
  by (cases t) (auto simp: lex_sign_def dest: is_digit_not_sign)

lemma lex_int_text: "lex_number (int_text i) = Some (i < 0, dec (nat \<bar>i\<bar>), [], [48], [])"
proof -
  have w: "lex_whole (dec n) = Some (dec n, [])" for n
    using lex_digits [of "dec n" "[]"] by (simp add: lex_fraction_def)
  have e: "lex_fraction [] = ([], [])" "lex_power [] = ([48], [])"
    by (simp_all add: lex_fraction_def lex_power_def)
  show ?thesis
  proof (cases "i < 0")
    case True
    then have "lex_sign (int_text i) = (True, dec (nat (- i)))"
      by (simp add: int_text_def lex_sign_def js_def)
    with True w e show ?thesis by (simp add: lex_number_def)
  next
    case False
    then have "lex_sign (int_text i) = (False, dec (nat i))"
      by (simp add: int_text_def lex_sign_digits)
    with False w e show ?thesis by (simp add: lex_number_def)
  qed
qed

lemma int_text_grammar [simp]: "number_grammar (int_text i)"
  by (simp add: number_grammar_def lex_int_text)

lemma int_text_value [simp]: "number_value (int_text i) = of_int i"
  by (auto simp: number_value_def lex_int_text bigint_of_def)

text \<open>A number that the client writes is read back as itself, inside any range that holds it.\<close>

lemma boundedInteger_int_text [simp]:
  "boundedInteger (int_text i) lo hi = (if lo \<le> i \<and> i \<le> hi then Some i else None)"
proof (cases "boundedInteger (int_text i) lo hi")
  case None
  then show ?thesis using boundedInteger_exact [OF int_text_grammar, of i lo hi i] by auto
next
  case (Some v)
  then show ?thesis using boundedInteger_exact [OF int_text_grammar, of i lo hi v] by auto
qed

lemma int_text_inject [simp]: "int_text i = int_text j \<longleftrightarrow> i = j"
  by (metis int_text_value of_int_eq_iff)

section \<open>The specification of equality\<close>

text \<open>
  The specification of \<^verbatim>\<open>jsonEqual\<close>: two values are equal when their canonical forms are the
  same. The canonical form sorts the members of each object by name and replaces the source text
  of each number by its exact decimal value.
\<close>

section \<open>Member lists with distinct names\<close>

lemma map_fst_sort_key [simp]: "map fst (sort_key fst xs) = sort (map fst xs)"
proof (rule properties_for_sort [symmetric])
  show "mset (map fst (sort_key fst xs)) = mset (map fst xs)" by simp
  show "sorted (map fst (sort_key fst xs))" by (rule sorted_sort_key)
qed

lemma map_of_distinct_set: "distinct (map fst xs) \<Longrightarrow> set xs = set ys \<Longrightarrow> distinct (map fst ys) \<Longrightarrow> map_of xs = map_of ys"
  by (rule map_of_eqI) (auto simp: map_of_eq_Some_iff intro: map_of_eqI)

lemma members_determined: "distinct (map fst xs) \<Longrightarrow> xs = map (\<lambda>k. (k, the (map_of xs k))) (map fst xs)"
proof (rule nth_equalityI)
  fix i assume "distinct (map fst xs)" "i < length xs"
  then have "map_of xs (fst (xs ! i)) = Some (snd (xs ! i))"
    by (simp add: map_of_eq_Some_iff)
  with \<open>i < length xs\<close> show "xs ! i = map (\<lambda>k. (k, the (map_of xs k))) (map fst xs) ! i" by simp
qed simp

lemma sort_members_eq_iff:
  assumes "distinct (map fst xs)" "distinct (map fst ys)"
  shows "sort_key fst xs = sort_key fst ys \<longleftrightarrow> map_of xs = map_of ys"
proof
  assume "sort_key fst xs = sort_key fst ys"
  then have "set xs = set ys" by (metis set_sort)
  with assms show "map_of xs = map_of ys" using map_of_distinct_set by blast
next
  assume m: "map_of xs = map_of ys"
  have "set (map fst xs) = set (map fst ys)"
    using m by (metis dom_map_of_conv_image_fst list.set_map)
  then have "sort (map fst xs) = sort (map fst ys)"
    using assms by (metis sorted_distinct_set_unique sorted_sort distinct_sort set_sort)
  moreover have "map_of (sort_key fst zs) = map_of zs" if "distinct (map fst zs)" for zs :: "('a \<times> 'b) list"
    using that by (intro map_of_distinct_set) (simp_all del: distinct_map)
  moreover have "distinct (map fst (sort_key fst zs))" if "distinct (map fst zs)" for zs :: "('a \<times> 'b) list"
    using that by (simp del: distinct_map)
  ultimately show "sort_key fst xs = sort_key fst ys"
    using assms m members_determined [of "sort_key fst xs"] members_determined [of "sort_key fst ys"]
    by simp
qed

lemma map_of_map_values: "map_of (map (\<lambda>(k, v). (k, f v)) xs) k = map_option f (map_of xs k)"
  by (induction xs) auto

section \<open>Canonical forms\<close>

fun canonical :: "json_value \<Rightarrow> decimal option json" where
  "canonical JNull = JNull"
| "canonical (JBool b) = JBool b"
| "canonical (JNum s) = JNum (decimalOf s)"
| "canonical (JStr s) = JStr s"
| "canonical (JArr xs) = JArr (map canonical xs)"
| "canonical (JObj kvs) = JObj (sort_key fst (map (\<lambda>(k, v). (k, canonical v)) kvs))"

lemma list_all_zip_iff:
  "length xs = length ys \<Longrightarrow> (\<And>x y. x \<in> set xs \<Longrightarrow> y \<in> set ys \<Longrightarrow> P x y \<longleftrightarrow> f x = f y) \<Longrightarrow>
   list_all (\<lambda>(x, y). P x y) (zip xs ys) \<longleftrightarrow> map f xs = map f ys"
  by (induction xs ys rule: list_induct2) auto

lemma fst_map_value [simp]: "fst \<circ> (\<lambda>(k, v). (k, f v)) = fst"
  by auto

text \<open>Equal numbers of distinct names and one inclusion make two objects have the same members.\<close>

lemma same_members_iff:
  assumes dx: "distinct (map fst xs)" and dy: "distinct (map fst ys)"
    and eq: "\<And>k x y. (k, x) \<in> set xs \<Longrightarrow> (k, y) \<in> set ys \<Longrightarrow> P x y \<longleftrightarrow> f x = f y"
  shows "(length xs = length ys \<and>
      list_all (\<lambda>(k, x). case map_of ys k of None \<Rightarrow> False | Some y \<Rightarrow> P x y) xs)
    \<longleftrightarrow> map_option f \<circ> map_of xs = map_option f \<circ> map_of ys" (is "?l \<longleftrightarrow> ?r")
proof
  assume l: ?l
  then have each: "\<exists>y. map_of ys k = Some y \<and> f x = f y" if "(k, x) \<in> set xs" for k x
    using that eq by (fastforce simp: list_all_iff split: option.splits dest: map_of_SomeD)
  then have "fst ` set xs \<subseteq> fst ` set ys" by (force dest: map_of_SomeD)
  moreover have "length (map fst xs) = length (map fst ys)" using l by simp
  ultimately have keys: "fst ` set xs = fst ` set ys"
    using distinct_subset_same_length(2) [of "map fst xs" "map fst ys"] dx by simp
  show ?r
  proof
    fix k
    show "(map_option f \<circ> map_of xs) k = (map_option f \<circ> map_of ys) k"
    proof (cases "map_of xs k")
      case None
      then have "map_of ys k = None" using keys by (metis map_of_eq_None_iff)
      with None show ?thesis by simp
    next
      case (Some x)
      then show ?thesis using each map_of_SomeD by fastforce
    qed
  qed
next
  assume r: ?r
  have same: "map_option f (map_of xs k) = map_option f (map_of ys k)" for k
    using fun_cong [OF r, of k] by simp
  have "map_of xs k = None \<longleftrightarrow> map_of ys k = None" for k
    using same [of k] by (metis map_option_is_None)
  then have "dom (map_of xs) = dom (map_of ys)" unfolding dom_def by simp
  then have keys: "set (map fst xs) = set (map fst ys)"
    by (simp add: dom_map_of_conv_image_fst)
  then have "length xs = length ys"
    using distinct_card [OF dx] distinct_card [OF dy] by simp
  moreover have "case map_of ys k of None \<Rightarrow> False | Some y \<Rightarrow> P x y" if "(k, x) \<in> set xs" for k x
  proof -
    have "map_of xs k = Some x" using that dx by simp
    with same [of k] obtain y where y: "map_of ys k = Some y" "f x = f y"
      by (cases "map_of ys k") auto
    then show ?thesis using eq [OF that] map_of_SomeD by fastforce
  qed
  ultimately show ?l by (auto simp: list_all_iff)
qed

lemma jsonEqual_canonical:
  "wf_json a \<Longrightarrow> wf_json b \<Longrightarrow> jsonEqual a b \<longleftrightarrow> canonical a = canonical b"
proof (induction a arbitrary: b)
  case (JNum s)
  then show ?case by (cases b) (auto simp: numberEqual_decimalOf)
next
  case (JArr xs)
  show ?case
  proof (cases b)
    case (JArr ys)
    have "length xs = length ys \<Longrightarrow>
      list_all (\<lambda>(x, y). jsonEqual x y) (zip xs ys) \<longleftrightarrow> map canonical xs = map canonical ys"
      by (rule list_all_zip_iff) (use JArr JArr.IH JArr.prems in \<open>auto simp: list_all_iff\<close>)
    with JArr show ?thesis by (auto dest: map_eq_imp_length_eq)
  qed auto
next
  case (JObj xs)
  show ?case
  proof (cases b)
    case (JObj ys)
    have d: "distinct (map fst xs)" "distinct (map fst ys)" using JObj JObj.prems by auto
    have "jsonEqual (JObj xs) b \<longleftrightarrow> map_option canonical \<circ> map_of xs = map_option canonical \<circ> map_of ys"
      unfolding JObj jsonEqual.simps using d
    proof (rule same_members_iff)
      fix k x y assume "(k, x) \<in> set xs" "(k, y) \<in> set ys"
      then show "jsonEqual x y \<longleftrightarrow> canonical x = canonical y"
        using JObj JObj.prems by (intro JObj.IH) (auto simp: list_all_iff)
    qed
    also have "\<dots> \<longleftrightarrow> canonical (JObj xs) = canonical b"
      using sort_members_eq_iff [of "map (\<lambda>(k, v). (k, canonical v)) xs" "map (\<lambda>(k, v). (k, canonical v)) ys"] d
      by (simp add: JObj fun_eq_iff map_of_map_values)
    finally show ?thesis .
  qed auto
next
  case JNull
  show ?case by (cases b) auto
next
  case (JBool x)
  show ?case by (cases b) auto
next
  case (JStr x)
  show ?case by (cases b) auto
qed

text \<open>Hence \<^verbatim>\<open>jsonEqual\<close> is an equivalence on the values of the source.\<close>

lemma jsonEqual_refl: "wf_json a \<Longrightarrow> jsonEqual a a"
  by (simp add: jsonEqual_canonical)

lemma jsonEqual_sym: "wf_json a \<Longrightarrow> wf_json b \<Longrightarrow> jsonEqual a b \<Longrightarrow> jsonEqual b a"
  by (simp add: jsonEqual_canonical)

lemma jsonEqual_trans:
  "wf_json a \<Longrightarrow> wf_json b \<Longrightarrow> wf_json c \<Longrightarrow> jsonEqual a b \<Longrightarrow> jsonEqual b c \<Longrightarrow> jsonEqual a c"
  by (simp add: jsonEqual_canonical)

text \<open>Equality with a value that holds no number is equality of the values up to member order.\<close>

lemma jsonEqual_text [simp]: "jsonEqual v (JStr s) \<longleftrightarrow> v = JStr s" "jsonEqual (JStr s) v \<longleftrightarrow> v = JStr s"
  by (cases v; auto)+

lemma jsonEqual_null [simp]: "jsonEqual v JNull \<longleftrightarrow> v = JNull" "jsonEqual JNull v \<longleftrightarrow> v = JNull"
  by (cases v; auto)+

lemma jsonEqual_bool [simp]: "jsonEqual v (JBool b) \<longleftrightarrow> v = JBool b" "jsonEqual (JBool b) v \<longleftrightarrow> v = JBool b"
  by (cases v; auto)+

end
