(* ===== verification/JsonTextLaws.thy ===== *)
theory JsonTextLaws
  imports JsonText
begin

text \<open>
  Laws of the JSON text functions: the fuel of the parser never runs out, the parser gives
  well-formed values, and \<^verbatim>\<open>parseJson\<close> reads back what \<^verbatim>\<open>encodeJson\<close> writes.
\<close>

section \<open>Strings\<close>

lemma unat_unit16: "n < 65536 \<Longrightarrow> unat (of_nat n :: unit16) = n"
  by (simp add: unat_of_nat)

lemma hex_value_unit:
  assumes "n < 16"
  shows "hex_value (hex_unit n) = Some n"
proof (cases "n < 10")
  case True
  define c :: unit16 where "c = of_nat (48 + n)"
  have "unat c = 48 + n" unfolding c_def using assms by (intro unat_unit16) simp
  with True show ?thesis
    by (simp add: hex_unit_def c_def [symmetric] hex_value_def is_digit_nat del: of_nat_add)
next
  case False
  define c :: unit16 where "c = of_nat (87 + n)"
  have "unat c = 87 + n" unfolding c_def using assms by (intro unat_unit16) simp
  with False assms show ?thesis
    by (simp add: hex_unit_def c_def [symmetric] hex_value_def is_digit_nat word_le_nat_alt del: of_nat_add)
qed

lemma hex_digits: "n < 65536 \<Longrightarrow>
  n div 4096 * 4096 + n div 256 mod 16 * 256 + n div 16 mod 16 * 16 + n mod 16 = (n :: nat)"
proof -
  have d: "n div 256 = n div 16 div 16" "n div 4096 = n div 256 div 16"
    by (simp_all flip: div_mult2_eq)
  have "n div 16 * 16 + n mod 16 = n" "n div 16 div 16 * 16 + n div 16 mod 16 = n div 16"
    "n div 256 div 16 * 16 + n div 256 mod 16 = n div 256"
    by (rule div_mult_mod_eq)+
  with d show ?thesis by linarith
qed

lemma lex_unicode_escape:
  "lex_string (unicode_escape u @ r) = map_option (apfst ((#) u)) (lex_string r)"
proof -
  have l: "unat u < 65536" using unat_lt_65536 [of u] by simp
  then have "unat u div 4096 < 16" by auto
  then show ?thesis using hex_digits [OF l]
    by (simp add: unicode_escape_def hex_value_unit del: of_nat_add of_nat_mult)
qed

lemma lex_escape_unit:
  "lex_string (escape_unit u @ r) = map_option (apfst ((#) u)) (lex_string r)"
proof (cases "u < 32 \<and> u \<notin> {8, 9, 10, 12, 13}")
  case True
  then show ?thesis by (auto simp: escape_unit_def lex_unicode_escape)
next
  case False
  then show ?thesis
    by (auto simp: escape_unit_def simple_escape_def)
qed

lemma lex_plain:
  assumes "high_surrogate u \<or> low_surrogate u"
  shows "lex_string (u # s) = map_option (apfst ((#) u)) (lex_string s)"
proof -
  have "u \<noteq> 34 \<and> u \<noteq> 92 \<and> \<not> u < 32"
    using assms by (auto simp: high_surrogate_def low_surrogate_def word_le_nat_alt word_less_nat_alt)
  then show ?thesis by simp
qed

lemma lex_quote_units: "lex_string (quote_units s @ 34 # r) = Some (s, r)"
proof (induction s rule: quote_units.induct)
  case (2 u)
  then show ?case by (simp add: lex_unicode_escape lex_escape_unit)
next
  case (3 u v s)
  show ?case
  proof (cases "high_surrogate u \<and> low_surrogate v")
    case True
    with 3(1) show ?thesis by (simp add: lex_plain del: lex_string.simps)
  next
    case False
    then have "quote_units (u # v # s) =
        (if high_surrogate u \<or> low_surrogate u then unicode_escape u else escape_unit u) @ quote_units (v # s)"
      by auto
    with 3(2,3) False show ?thesis
      by (cases "high_surrogate u \<or> low_surrogate u")
        (simp_all add: lex_unicode_escape lex_escape_unit del: quote_units.simps lex_string.simps)
  qed
qed simp

section \<open>Numbers\<close>

text \<open>What may follow a value inside a text of \<^verbatim>\<open>encodeJson\<close>.\<close>

definition stops :: "jstr \<Rightarrow> bool" where
  "stops r \<longleftrightarrow> r = [] \<or> hd r \<in> {44, 93, 125}"

lemma stops_simps [simp]: "stops []" "stops (44 # r)" "stops (93 # r)" "stops (125 # r)"
  by (simp_all add: stops_def)

lemma stops_digit: "stops r \<Longrightarrow> r = [] \<or> \<not> is_digit (hd r)"
  by (auto simp: stops_def is_digit_def)

lemma while_digits:
  assumes "stops r"
  shows "takeWhile is_digit (s @ r) = takeWhile is_digit s"
    and "dropWhile is_digit (s @ r) = dropWhile is_digit s @ r"
proof -
  have "takeWhile is_digit r = []" "dropWhile is_digit r = r"
    using stops_digit [OF assms] by (cases r; auto)+
  then show "takeWhile is_digit (s @ r) = takeWhile is_digit s"
    and "dropWhile is_digit (s @ r) = dropWhile is_digit s @ r"
    by (induction s) auto
qed

lemma lex_whole_append:
  "stops r \<Longrightarrow> lex_whole s = Some (w, q) \<Longrightarrow> lex_whole (s @ r) = Some (w, q @ r)"
  using while_digits [of r s] by (cases s) (auto simp: lex_whole_def split: if_splits)

lemma lex_fraction_append:
  "stops r \<Longrightarrow> lex_fraction s = (f, q) \<Longrightarrow> lex_fraction (s @ r) = (f, q @ r)"
proof (cases s)
  case Nil
  assume "stops r" "lex_fraction s = (f, q)"
  with Nil show ?thesis by (auto simp: lex_fraction_def stops_def)
next
  case (Cons c t)
  assume "stops r" "lex_fraction s = (f, q)"
  with Cons show ?thesis by (auto simp: lex_fraction_def while_digits split: if_splits)
qed

lemma lex_power_append:
  assumes "stops r" "lex_power s = (p, [])"
  shows "lex_power (s @ r) = (p, r)"
proof (cases s)
  case Nil
  with assms show ?thesis by (auto simp: lex_power_def stops_def)
next
  case (Cons c t)
  with assms(2) have "t \<noteq> []"
    by (auto simp: lex_power_def lex_power_sign_def split: if_splits)
  then have "lex_power_sign (t @ r) = (fst (lex_power_sign t), snd (lex_power_sign t) @ r)"
    by (cases t) (auto simp: lex_power_sign_def)
  with assms Cons show ?thesis
    by (auto simp: lex_power_def while_digits split: if_splits prod.splits)
qed

lemma lex_sign_append: "s \<noteq> [] \<Longrightarrow> lex_sign (s @ r) = (fst (lex_sign s), snd (lex_sign s) @ r)"
  by (cases s) (auto simp: lex_sign_def)

lemma lex_number_append:
  assumes "stops r" "number_grammar s"
  shows "\<exists>n w f p. lex_number (s @ r) = Some (n, w, f, p, r)"
proof -
  have "s \<noteq> []"
    using assms(2) by (auto simp: number_grammar_def lex_number_def lex_sign_def lex_whole_def)
  then show ?thesis
    using assms lex_whole_append lex_fraction_append lex_power_append lex_sign_append [of s r]
    by (fastforce simp: number_grammar_def lex_number_def split: option.splits prod.splits)
qed

lemma parse_number_append:
  "stops r \<Longrightarrow> number_grammar s \<Longrightarrow> parse_number (s @ r) = Some (JNum s, r)"
  using lex_number_append [of r s] by (auto simp: parse_number_def)

section \<open>Consumption\<close>

lemma length_skip_ws: "length (skip_ws s) \<le> length s"
  by (simp add: skip_ws_def length_dropWhile_le)

lemma skip_ws_Cons: "skip_ws s = c # r \<Longrightarrow> length r < length s"
  using length_skip_ws [of s] by simp

lemma lex_string_shorter: "lex_string s = Some (t, r) \<Longrightarrow> length r < length s"
proof (induction s arbitrary: t r rule: lex_string.induct)
  case (2 c s)
  then show ?case
    by (fastforce split: if_splits list.splits option.splits prod.splits dest: less_SucI)
qed simp

lemma dropWhile_shorter: "takeWhile P s \<noteq> [] \<Longrightarrow> length (dropWhile P s) < length s"
  by (cases s) (auto split: if_splits simp: le_imp_less_Suc length_dropWhile_le)

lemma lex_fraction_suffix:
  assumes "lex_fraction q1 = (f, q2)"
  shows "\<exists>t. q1 = t @ q2"
proof (cases q1)
  case (Cons c t)
  then have "q2 = dropWhile is_digit t \<or> q2 = q1"
    using assms by (auto simp: lex_fraction_def split: if_splits)
  moreover have "q1 = (c # takeWhile is_digit t) @ dropWhile is_digit t" using Cons by simp
  ultimately show ?thesis by (metis append_Nil)
qed (use assms in \<open>simp add: lex_fraction_def\<close>)

lemma lex_power_suffix:
  assumes "lex_power q2 = (p, r)"
  shows "\<exists>t. q2 = t @ r"
proof (cases q2)
  case (Cons c t)
  obtain sg u where u: "lex_power_sign t = (sg, u)" by (cases "lex_power_sign t")
  then have "t = sg @ u" by (auto simp: lex_power_sign_def split: list.splits if_splits)
  then have "q2 = (c # sg @ takeWhile is_digit u) @ dropWhile is_digit u" using Cons by simp
  moreover have "r = dropWhile is_digit u \<or> r = q2"
    using assms Cons u by (auto simp: lex_power_def split: if_splits)
  ultimately show ?thesis by (metis append_Nil)
qed (use assms in \<open>simp add: lex_power_def\<close>)

lemma lex_number_suffix:
  assumes "lex_number s = Some (n, w, f, p, r)"
  shows "\<exists>t. t \<noteq> [] \<and> s = t @ r"
proof -
  obtain s1 q1 q2 where s1: "lex_sign s = (n, s1)" and w: "lex_whole s1 = Some (w, q1)"
    and f: "lex_fraction q1 = (f, q2)" and p: "lex_power q2 = (p, r)"
    using assms by (auto simp: lex_number_def split: option.splits prod.splits)
  have "\<exists>t. s = t @ s1" using s1 by (auto simp: lex_sign_def split: list.splits if_splits)
  moreover have "w \<noteq> [] \<and> s1 = w @ q1" using lex_whole_digits [OF w] by simp
  moreover have "\<exists>t. q1 = t @ q2" using f by (rule lex_fraction_suffix)
  moreover have "\<exists>t. q2 = t @ r" using p by (rule lex_power_suffix)
  ultimately show ?thesis by (metis append.assoc append_is_Nil_conv)
qed

lemma parse_number_shorter: "parse_number s = Some (v, r) \<Longrightarrow> length r < length s"
  by (auto simp: parse_number_def split: option.splits dest!: lex_number_suffix)

lemma strip_prefix_shorter: "strip_prefix p s = Some r \<Longrightarrow> p \<noteq> [] \<Longrightarrow> length r < length s"
  by (cases p; cases s) (auto simp: strip_prefix_def split: if_splits)

lemma parse_literal_shorter: "parse_literal s = Some (v, r) \<Longrightarrow> length r < length s"
  by (auto simp: parse_literal_def split: option.splits dest: strip_prefix_shorter)

text \<open>One unfolding of each parser, with the text that remains after each token named.\<close>

lemma parse_value_SucD:
  assumes "parse_value (Suc n) s = Some (v, r)"
  obtains c q where "skip_ws s = c # q" "length q < length s"
    and "(\<exists>t. lex_string q = Some (t, r) \<and> v = JStr t) \<or>
      (\<exists>d. skip_ws q = d # r \<and> (v = JArr [] \<or> v = JObj [])) \<or>
      (\<exists>xs. parse_elements n q = Some (xs, r) \<and> v = JArr xs) \<or>
      (\<exists>ms. parse_members n [] q = Some (ms, r) \<and> v = JObj ms) \<or>
      parse_literal (c # q) = Some (v, r) \<or> parse_number (c # q) = Some (v, r)"
proof (cases "skip_ws s")
  case (Cons c q)
  from Cons have "length q < length s" by (rule skip_ws_Cons)
  then show ?thesis using assms Cons
    by (intro that [of c q]) (auto split: if_splits list.splits option.splits)
qed (use assms in simp)

lemma parse_elements_SucD:
  assumes "parse_elements (Suc n) s = Some (vs, r)"
  obtains v r1 c q where "parse_value n s = Some (v, r1)" "skip_ws r1 = c # q"
    and "(q = r \<and> vs = [v]) \<or> (\<exists>us. parse_elements n q = Some (us, r) \<and> vs = v # us)"
  using assms by (auto split: option.splits prod.splits list.splits if_splits)

lemma parse_members_SucD:
  assumes "parse_members (Suc n) acc s = Some (ms, r)"
  obtains c q name r1 d r2 v r3 e r4 where "skip_ws s = c # q" "lex_string q = Some (name, r1)"
    and "skip_ws r1 = d # r2" "parse_value n r2 = Some (v, r3)" "skip_ws r3 = e # r4"
    and "(r4 = r \<and> ms = map_set name v acc) \<or> parse_members n (map_set name v acc) r4 = Some (ms, r)"
  using assms by (auto split: option.splits prod.splits list.splits if_splits)

lemma parse_shorter:
  "(parse_value n s = Some (v, r) \<longrightarrow> length r < length s) \<and>
   (parse_elements n s = Some (vs, r) \<longrightarrow> length r < length s) \<and>
   (parse_members n acc s = Some (ms, r) \<longrightarrow> length r < length s)"
proof (induction n arbitrary: s v r vs acc ms)
  case (Suc n)
  have "length r < length s" if a: "parse_value (Suc n) s = Some (v, r)" for s v r
  proof -
    from a obtain c q where q: "skip_ws s = c # q" "length q < length s"
      and alt: "(\<exists>t. lex_string q = Some (t, r) \<and> v = JStr t) \<or>
      (\<exists>d. skip_ws q = d # r \<and> (v = JArr [] \<or> v = JObj [])) \<or>
      (\<exists>xs. parse_elements n q = Some (xs, r) \<and> v = JArr xs) \<or>
      (\<exists>ms. parse_members n [] q = Some (ms, r) \<and> v = JObj ms) \<or>
      parse_literal (c # q) = Some (v, r) \<or> parse_number (c # q) = Some (v, r)"
      by (rule parse_value_SucD)
    from alt have "length r < length q \<or> length r < Suc (length q)"
      using Suc skip_ws_Cons lex_string_shorter
      by (auto dest: parse_number_shorter parse_literal_shorter)
    with q show ?thesis by linarith
  qed
  moreover have "length r < length s" if a: "parse_elements (Suc n) s = Some (vs, r)" for s vs r
    using a
  proof (rule parse_elements_SucD)
    fix v r1 c q
    assume "parse_value n s = Some (v, r1)" and q: "skip_ws r1 = c # q"
      and alt: "(q = r \<and> vs = [v]) \<or> (\<exists>us. parse_elements n q = Some (us, r) \<and> vs = v # us)"
    then have "length r1 < length s" using Suc by blast
    moreover have "length q < length r1" using q by (rule skip_ws_Cons)
    moreover have "length r \<le> length q" using alt Suc less_imp_le_nat by blast
    ultimately show ?thesis by linarith
  qed
  moreover have "length r < length s" if a: "parse_members (Suc n) acc s = Some (ms, r)" for s acc ms r
    using a
  proof (rule parse_members_SucD)
    fix c q name r1 d r2 v r3 e r4
    assume t: "skip_ws s = c # q" "lex_string q = Some (name, r1)" "skip_ws r1 = d # r2"
      "parse_value n r2 = Some (v, r3)" "skip_ws r3 = e # r4"
      and alt: "(r4 = r \<and> ms = map_set name v acc) \<or> parse_members n (map_set name v acc) r4 = Some (ms, r)"
    have "length r3 < length r2" using t(4) Suc by blast
    moreover have "length r \<le> length r4" using alt Suc less_imp_le_nat by blast
    ultimately show ?thesis
      using skip_ws_Cons [OF t(1)] lex_string_shorter [OF t(2)] skip_ws_Cons [OF t(3)] skip_ws_Cons [OF t(5)]
      by linarith
  qed
  ultimately show ?case by blast
qed simp

section \<open>Enough fuel\<close>

lemma parse_fuel:
  "(2 * length s + 1 \<le> n \<longrightarrow> n \<le> m \<longrightarrow> parse_value m s = parse_value n s) \<and>
   (2 * length s + 2 \<le> n \<longrightarrow> n \<le> m \<longrightarrow> parse_elements m s = parse_elements n s) \<and>
   (2 * length s + 2 \<le> n \<longrightarrow> n \<le> m \<longrightarrow> parse_members m acc s = parse_members n acc s)"
proof (induction n arbitrary: m s acc)
  case (Suc n)
  have IHv: "parse_value m s = parse_value n s" if "2 * length s + 1 \<le> n" "n \<le> m" for m s
    using Suc that by blast
  have IHe: "parse_elements m s = parse_elements n s" if "2 * length s + 2 \<le> n" "n \<le> m" for m s
    using Suc that by blast
  have IHm: "parse_members m acc s = parse_members n acc s" if "2 * length s + 2 \<le> n" "n \<le> m" for m acc s
    using Suc that by blast
  show ?case
  proof (intro conjI impI)
    assume f: "2 * length s + 1 \<le> Suc n" "Suc n \<le> m"
    then obtain k where m: "m = Suc k" "n \<le> k" by (cases m) auto
    show "parse_value m s = parse_value (Suc n) s"
    proof (cases "skip_ws s")
      case (Cons c q)
      have "length q < length s" using Cons by (rule skip_ws_Cons)
      then have "parse_elements k q = parse_elements n q" "parse_members k [] q = parse_members n [] q"
        using f m by (auto intro!: IHe IHm)
      then show ?thesis by (simp add: m Cons split: list.splits)
    qed (simp add: m)
  next
    assume f: "2 * length s + 2 \<le> Suc n" "Suc n \<le> m"
    then obtain k where m: "m = Suc k" "n \<le> k" by (cases m) auto
    have v: "parse_value k s = parse_value n s" using f m by (intro IHv) auto
    have "parse_elements k q = parse_elements n q"
      if "parse_value n s = Some (x, r)" "skip_ws r = c # q" for x r c q
    proof -
      have "length q < length s" using skip_ws_Cons [OF that(2)] parse_shorter that(1) by fastforce
      then show ?thesis using f m by (intro IHe) auto
    qed
    then show "parse_elements m s = parse_elements (Suc n) s"
      by (auto simp: m v split: option.splits prod.splits list.splits)
  next
    assume f: "2 * length s + 2 \<le> Suc n" "Suc n \<le> m"
    then obtain k where m: "m = Suc k" "n \<le> k" by (cases m) auto
    show "parse_members m acc s = parse_members (Suc n) acc s"
    proof (cases "skip_ws s")
      case (Cons c q)
      note l = skip_ws_Cons [OF Cons]
      have v: "parse_value k r2 = parse_value n r2"
        if "lex_string q = Some (name, r1)" "skip_ws r1 = d # r2" for name r1 d r2
        using lex_string_shorter [OF that(1)] skip_ws_Cons [OF that(2)] l f m by (intro IHv) auto
      have "parse_members k acc' r4 = parse_members n acc' r4"
        if "lex_string q = Some (name, r1)" "skip_ws r1 = d # r2" "parse_value n r2 = Some (x, r3)"
          "skip_ws r3 = e # r4" for name r1 d r2 x r3 e r4 acc'
      proof -
        have "length r3 < length r2" using that(3) parse_shorter by blast
        then show ?thesis
          using lex_string_shorter [OF that(1)] skip_ws_Cons [OF that(2)] skip_ws_Cons [OF that(4)] l f m
          by (intro IHm) auto
      qed
      with v show ?thesis
        by (auto simp: m Cons split: option.splits prod.splits list.splits)
    qed (simp add: m)
  qed
qed simp

lemma parse_value_fuel: "2 * length s + 1 \<le> n \<Longrightarrow> n \<le> m \<Longrightarrow> parse_value m s = parse_value n s"
  using parse_fuel by blast

section \<open>The parser gives values of the source\<close>

lemma while_prefix:
  assumes "dropWhile P (u @ r) = q @ r"
  shows "takeWhile P (u @ r) = takeWhile P u" and "dropWhile P u = q"
proof -
  have u: "u = takeWhile P (u @ r) @ q"
    using assms takeWhile_dropWhile_id [of P "u @ r"] by (metis append.assoc append_same_eq)
  have q: "q = [] \<or> \<not> P (hd q)"
    using assms hd_dropWhile [of P "u @ r"] by (cases q) auto
  have "takeWhile P (t @ q) = t \<and> dropWhile P (t @ q) = q" if "list_all P t" for t
    using q that by (cases q) (induction t, auto)+
  from this [of "takeWhile P (u @ r)"] show "takeWhile P (u @ r) = takeWhile P u" and "dropWhile P u = q"
    using u by (metis list_all_takeWhile)+
qed

lemma lex_whole_prefix:
  assumes "lex_whole (u @ r) = Some (w, q @ r)"
  shows "lex_whole u = Some (w, q)"
proof -
  have "u = w @ q" "w \<noteq> []" using lex_whole_digits [OF assms] by auto
  then have "u \<noteq> []" by simp
  then obtain c t where "u = c # t" by (cases u) simp_all
  with assms while_prefix [of is_digit u r q] show ?thesis
    by (auto simp: lex_whole_def split: if_splits)
qed

lemma lex_fraction_prefix:
  assumes "lex_fraction (u @ r) = (f, q @ r)"
  shows "lex_fraction u = (f, q)"
proof (cases u)
  case Nil
  show ?thesis
  proof (cases "f = []")
    case False
    then have "q @ r = dropWhile is_digit (tl r)" "r \<noteq> []"
      using assms Nil by (auto simp: lex_fraction_def split: if_splits)
    then have "length (q @ r) < length r"
      using length_dropWhile_le [of is_digit "tl r"] by (cases r) auto
    then show ?thesis by simp
  qed (use assms Nil in \<open>auto simp: lex_fraction_def split: if_splits\<close>)
next
  case (Cons c t)
  have "takeWhile is_digit t \<noteq> [] \<Longrightarrow> takeWhile is_digit (t @ r) \<noteq> []"
    by (cases t) (auto split: if_splits)
  with assms Cons while_prefix [of is_digit t r q] show ?thesis
    by (auto simp: lex_fraction_def split: if_splits)
qed

lemma lex_power_prefix:
  assumes "lex_power (u @ r) = (p, r)"
  shows "lex_power u = (p, [])"
proof (cases u)
  case Nil
  have "length r < length r" if "r = dropWhile is_digit (snd (lex_power_sign (tl r)))" "r \<noteq> []"
  proof -
    have "length (snd (lex_power_sign (tl r))) \<le> length (tl r)"
      by (cases "tl r") (auto simp: lex_power_sign_def)
    moreover have "length r \<le> length (snd (lex_power_sign (tl r)))"
      using that(1) length_dropWhile_le by metis
    ultimately have "length r \<le> length r - 1"
      by (metis (no_types, opaque_lifting) One_nat_def le_trans length_tl)
    moreover have "length r \<noteq> 0" using that(2) by simp
    ultimately have False by linarith
    then show ?thesis ..
  qed
  with assms Nil show ?thesis
    by (auto simp: lex_power_def Let_def split: if_splits prod.splits)
next
  case (Cons c t)
  with assms have c: "c = 101 \<or> c = 69" by (auto simp: lex_power_def split: if_splits)
  obtain sg v where v: "lex_power_sign (t @ r) = (sg, v)" by (cases "lex_power_sign (t @ r)")
  from assms Cons c v have dw: "dropWhile is_digit v = [] @ r" and ne: "takeWhile is_digit v \<noteq> []"
    and p: "p = sg @ takeWhile is_digit v"
    by (auto simp: lex_power_def split: if_splits)
  have "length r < length v" using dw ne by (metis append_Nil dropWhile_shorter)
  then obtain t1 where t1: "lex_power_sign t = (sg, t1)" "v = t1 @ r"
    using v by (cases t) (auto simp: lex_power_sign_def split: list.splits if_splits)
  show ?thesis
    using c ne p while_prefix [of is_digit t1 r "[]"] dw unfolding t1(2)
    by (simp add: lex_power_def Cons t1(1))
qed

lemma lex_number_prefix:
  assumes "lex_number (t @ r) = Some (n, w, f, p, r)" "t \<noteq> []"
  shows "number_grammar t"
proof -
  obtain s1 q1 q2 where s1: "lex_sign (t @ r) = (n, s1)" and w: "lex_whole s1 = Some (w, q1)"
    and f: "lex_fraction q1 = (f, q2)" and p: "lex_power q2 = (p, r)"
    using assms by (auto simp: lex_number_def split: option.splits prod.splits)
  obtain u2 where u2: "q2 = u2 @ r" using lex_power_suffix [OF p] by blast
  obtain u1 where u1: "q1 = u1 @ r" using lex_fraction_suffix [OF f] u2 by (metis append.assoc)
  obtain u where u: "s1 = u @ r" using lex_whole_digits [OF w] u1 by (metis append.assoc)
  have "lex_sign t = (n, u)"
  proof -
    have "n = fst (lex_sign t)" "snd (lex_sign t) @ r = u @ r"
      using s1 lex_sign_append [OF assms(2), of r] u by simp_all
    then show ?thesis by (intro prod_eqI) simp_all
  qed
  moreover have "lex_whole u = Some (w, u1)" using w unfolding u u1 by (rule lex_whole_prefix)
  moreover have "lex_fraction u1 = (f, u2)" using f unfolding u1 u2 by (rule lex_fraction_prefix)
  moreover have "lex_power u2 = (p, [])" using p unfolding u2 by (rule lex_power_prefix)
  ultimately show ?thesis by (simp add: number_grammar_def lex_number_def)
qed

lemma parse_number_wf:
  assumes "parse_number s = Some (v, r)"
  shows "wf_json v"
proof -
  obtain n w f p where lx: "lex_number s = Some (n, w, f, p, r)" and v: "v = JNum (take (length s - length r) s)"
    using assms by (auto simp: parse_number_def split: option.splits)
  obtain t where t: "t \<noteq> []" "s = t @ r" using lex_number_suffix [OF lx] by blast
  have "number_grammar t"
    using lex_number_prefix lx t by blast
  with v t show ?thesis by simp
qed

lemma parse_wf:
  "(parse_value n s = Some (v, r) \<longrightarrow> wf_json v) \<and>
   (parse_elements n s = Some (vs, r) \<longrightarrow> list_all wf_json vs) \<and>
   (wf_json (JObj acc) \<longrightarrow> parse_members n acc s = Some (ms, r) \<longrightarrow> wf_json (JObj ms))"
proof (induction n arbitrary: s v r vs acc ms)
  case (Suc n)
  have "wf_json v" if "parse_value (Suc n) s = Some (v, r)" for s v r
    using that
  proof (rule parse_value_SucD)
    fix c q
    assume alt: "(\<exists>t. lex_string q = Some (t, r) \<and> v = JStr t) \<or>
      (\<exists>d. skip_ws q = d # r \<and> (v = JArr [] \<or> v = JObj [])) \<or>
      (\<exists>xs. parse_elements n q = Some (xs, r) \<and> v = JArr xs) \<or>
      (\<exists>ms. parse_members n [] q = Some (ms, r) \<and> v = JObj ms) \<or>
      parse_literal (c # q) = Some (v, r) \<or> parse_number (c # q) = Some (v, r)"
    have "wf_json (JObj [])" by simp
    then have "list_all wf_json xs" if "parse_elements n q = Some (xs, r)" for xs
      using Suc that by blast
    moreover have "wf_json (JObj ms)" if "parse_members n [] q = Some (ms, r)" for ms
      using Suc that \<open>wf_json (JObj [])\<close> by blast
    moreover have "wf_json v" if "parse_literal (c # q) = Some (v, r)"
      using that by (auto simp: parse_literal_def split: option.splits)
    ultimately show ?thesis using alt \<open>wf_json (JObj [])\<close>
      by (auto dest: parse_number_wf simp del: wf_json.simps(3))
  qed
  moreover have "list_all wf_json vs" if "parse_elements (Suc n) s = Some (vs, r)" for s vs r
    using that
  proof (rule parse_elements_SucD)
    fix v r1 c q
    assume "parse_value n s = Some (v, r1)"
      "(q = r \<and> vs = [v]) \<or> (\<exists>us. parse_elements n q = Some (us, r) \<and> vs = v # us)"
    then show ?thesis using Suc by auto
  qed
  moreover have "wf_json (JObj ms)"
    if acc: "wf_json (JObj acc)" and "parse_members (Suc n) acc s = Some (ms, r)" for s acc ms r
    using that(2)
  proof (rule parse_members_SucD)
    fix c q name r1 d r2 v r3 e r4
    assume "parse_value n r2 = Some (v, r3)"
      and alt: "(r4 = r \<and> ms = map_set name v acc) \<or> parse_members n (map_set name v acc) r4 = Some (ms, r)"
    then have "wf_json v" using Suc by blast
    then have "wf_json (JObj (map_set name v acc))"
      using acc by (auto simp: list_all_iff map_set_values)
    then show ?thesis using alt Suc by blast
  qed
  ultimately show ?case by blast
qed simp

end
