(* ===== verification/JsonRoundtrip.thy ===== *)
theory JsonRoundtrip
  imports JsonTextLaws
begin

text \<open>
  \<^verbatim>\<open>parseJson\<close> reads the compact text of \<^verbatim>\<open>encodeJson\<close> back as the same value with the members
  of each object in name order, which \<^verbatim>\<open>jsonEqual\<close> identifies with the value written.
\<close>

fun sort_members :: "json_value \<Rightarrow> json_value" where
  "sort_members (JArr xs) = JArr (map sort_members xs)"
| "sort_members (JObj kvs) = JObj (sort_key fst (map (\<lambda>(k, v). (k, sort_members v)) kvs))"
| "sort_members v = v"

section \<open>Sorting the members\<close>

lemma insort_map_values:
  "insort_key fst (k, f v) (map (\<lambda>(k, v). (k, f v)) kvs) = map (\<lambda>(k, v). (k, f v)) (insort_key fst (k, v) kvs)"
  by (induction kvs) auto

lemma sort_key_map_values:
  "sort_key fst (map (\<lambda>(k, v). (k, f v)) kvs) = map (\<lambda>(k, v). (k, f v)) (sort_key fst kvs)"
  by (induction kvs) (auto simp: insort_map_values)

lemma sort_members_wf: "wf_json v \<Longrightarrow> wf_json (sort_members v)"
proof (induction v)
  case (JArr xs)
  then show ?case by (auto simp: list_all_iff)
next
  case (JObj kvs)
  then show ?case by (fastforce simp: list_all_iff simp del: distinct_map)
qed auto

lemma sort_sorted: "sort_key fst (sort_key fst xs) = sort_key fst xs"
  by (simp add: sort_key_id_if_sorted sorted_sort_key)

lemma canonical_sort_members: "canonical (sort_members v) = canonical v"
proof (induction v)
  case (JObj kvs)
  let ?c = "\<lambda>(k, v). (k, canonical v)" and ?s = "\<lambda>(k, v). (k, sort_members v)"
  have eq: "map ?c (map ?s kvs) = map ?c kvs" using JObj by auto
  have "canonical (sort_members (JObj kvs)) = JObj (sort_key fst (map ?c (sort_key fst (map ?s kvs))))"
    by simp
  also have "\<dots> = JObj (sort_key fst (sort_key fst (map ?c (map ?s kvs))))"
    by (simp only: sort_key_map_values [where f = canonical])
  also have "\<dots> = canonical (JObj kvs)" by (simp only: eq sort_sorted canonical.simps)
  finally show ?case .
qed auto

lemma jsonEqual_sort_members: "wf_json v \<Longrightarrow> jsonEqual v (sort_members v)"
  by (simp add: jsonEqual_canonical sort_members_wf canonical_sort_members)

section \<open>The first unit of an encoding\<close>

lemma number_first:
  assumes "number_grammar s"
  shows "s \<noteq> [] \<and> (hd s = 45 \<or> is_digit (hd s))"
proof (cases s)
  case Nil
  with assms show ?thesis by (simp add: number_grammar_def lex_number_def lex_sign_def lex_whole_def)
next
  case (Cons c t)
  with assms show ?thesis
    by (auto simp: number_grammar_def lex_number_def lex_sign_def lex_whole_def is_digit_def
        split: if_splits option.splits prod.splits)
qed

lemma encode_first:
  assumes "wf_json v"
  shows "\<exists>c t. encodeJson v = c # t \<and> \<not> is_space c \<and> c \<noteq> 93 \<and> c \<noteq> 125"
proof (cases v)
  case (JNum s)
  with assms number_first [of s] show ?thesis
    by (cases s) (auto simp: is_space_def is_digit_def)
next
  case (JBool b)
  then show ?thesis by (cases b) (auto simp: js_def is_space_def)
qed (auto simp: js_def is_space_def quote_def)

lemma skip_ws_first [simp]: "\<not> is_space c \<Longrightarrow> skip_ws (c # t) = c # t"
  by (simp add: skip_ws_def)

lemma not_space [simp]:
  "\<not> is_space 34" "\<not> is_space 44" "\<not> is_space 58" "\<not> is_space 91" "\<not> is_space 93"
  "\<not> is_space 123" "\<not> is_space 125"
  by (simp_all add: is_space_def)

lemma join_Cons: "xs \<noteq> [] \<Longrightarrow> join sep (x # xs) = x @ sep @ join sep xs"
  by (cases xs) auto

lemma js_marks: "js '','' = [44]" "js '':'' = [58]" "js ''['' = [91]" "js '']'' = [93]"
  "js ''{'' = [123]" "js ''}'' = [125]"
  by (simp_all add: js_def)

section \<open>Elements and members\<close>

definition reads_back :: "json_value \<Rightarrow> bool" where
  "reads_back v \<longleftrightarrow>
     (\<forall>n r. stops r \<longrightarrow> 2 * length (encodeJson v) + 1 \<le> n \<longrightarrow>
        parse_value n (encodeJson v @ r) = Some (sort_members v, r))"

lemma reads_backD:
  "reads_back v \<Longrightarrow> stops r \<Longrightarrow> 2 * length (encodeJson v) + 1 \<le> n \<Longrightarrow>
   parse_value n (encodeJson v @ r) = Some (sort_members v, r)"
  by (simp add: reads_back_def)

lemma parse_elements_join:
  assumes "list_all reads_back vs" "vs \<noteq> []"
    and "2 * length (join (js '','') (map encodeJson vs)) + 2 \<le> n"
  shows "parse_elements n (join (js '','') (map encodeJson vs) @ 93 # r) = Some (map sort_members vs, r)"
  using assms
proof (induction vs arbitrary: n)
  case (Cons v vs)
  obtain m where n: "n = Suc m" using Cons.prems(3) by (cases n) auto
  show ?case
  proof (cases "vs = []")
    case True
    have "parse_value m (encodeJson v @ 93 # r) = Some (sort_members v, 93 # r)"
      using Cons.prems True n by (intro reads_backD) auto
    with True n show ?thesis by simp
  next
    case False
    let ?j = "join (js '','') (map encodeJson vs)"
    have j: "join (js '','') (encodeJson v # map encodeJson vs) = encodeJson v @ 44 # ?j"
      using False by (simp add: join_Cons js_marks)
    have "parse_value m (encodeJson v @ 44 # ?j @ 93 # r) = Some (sort_members v, 44 # ?j @ 93 # r)"
      using Cons.prems n by (intro reads_backD) (auto simp: j)
    moreover have "parse_elements m (?j @ 93 # r) = Some (map sort_members vs, r)"
      using Cons.prems n False by (intro Cons.IH) (auto simp: j)
    ultimately show ?thesis by (simp add: j n)
  qed
qed simp

definition member_text :: "jstr \<times> json_value \<Rightarrow> jstr" where
  "member_text kv = quote (fst kv) @ js '':'' @ encodeJson (snd kv)"

lemma member_text_unfold: "member_text (k, v) = 34 # quote_units k @ 34 # 58 # encodeJson v"
  by (simp add: member_text_def quote_def js_marks)

lemma parse_members_join:
  assumes "list_all (\<lambda>(k, v). reads_back v) kvs" "kvs \<noteq> []" "distinct (map fst (acc @ kvs))"
    and "2 * length (join (js '','') (map member_text kvs)) + 2 \<le> n"
  shows "parse_members n acc (join (js '','') (map member_text kvs) @ 125 # r) =
    Some (acc @ map (\<lambda>(k, v). (k, sort_members v)) kvs, r)"
  using assms
proof (induction kvs arbitrary: n acc)
  case (Cons kv kvs)
  obtain k v where kv: "kv = (k, v)" by (cases kv)
  obtain m where n: "n = Suc m" using Cons.prems(4) by (cases n) auto
  have "map_of acc k = None" using Cons.prems(3) kv by (auto simp: map_of_eq_None_iff)
  then have set: "map_set k (sort_members v) acc = acc @ [(k, sort_members v)]" by (rule map_set_new)
  show ?case
  proof (cases "kvs = []")
    case True
    have "parse_value m (encodeJson v @ 125 # r) = Some (sort_members v, 125 # r)"
      using Cons.prems True n kv by (intro reads_backD) (auto simp: member_text_unfold)
    with True n kv set show ?thesis by (simp add: member_text_unfold lex_quote_units)
  next
    case False
    let ?j = "join (js '','') (map member_text kvs)"
    have j: "join (js '','') (member_text (k, v) # map member_text kvs) = 34 # quote_units k @ 34 # 58 # encodeJson v @ 44 # ?j"
      using False by (simp add: join_Cons js_marks kv member_text_unfold)
    have "parse_value m (encodeJson v @ 44 # ?j @ 125 # r) = Some (sort_members v, 44 # ?j @ 125 # r)"
      using Cons.prems n kv by (intro reads_backD) (auto simp: j)
    moreover have "parse_members m (acc @ [(k, sort_members v)]) (?j @ 125 # r) =
        Some ((acc @ [(k, sort_members v)]) @ map (\<lambda>(k, v). (k, sort_members v)) kvs, r)"
      using Cons.prems n False kv by (intro Cons.IH) (auto simp: j)
    ultimately show ?thesis by (simp add: j n kv set lex_quote_units)
  qed
qed simp

section \<open>Round trip\<close>

lemma parse_literal_number: "is_digit c \<or> c = 45 \<Longrightarrow> parse_literal (c # t) = None"
  by (auto simp: parse_literal_def strip_prefix_def js_def is_digit_def split: if_splits)

lemma reads_back_number:
  assumes "number_grammar s"
  shows "reads_back (JNum s)"
  unfolding reads_back_def
proof (intro allI impI)
  fix n r
  assume "stops r" "2 * length (encodeJson (JNum s)) + 1 \<le> n"
  then obtain m where n: "n = Suc m" by (cases n) auto
  obtain c t where s: "s = c # t" and c: "c = 45 \<or> is_digit c"
    using number_first [OF assms] by (cases s) auto
  from c have "\<not> is_space c" "c \<noteq> 34" "c \<noteq> 91" "c \<noteq> 123" by (auto simp: is_space_def is_digit_def)
  moreover have "parse_literal (c # t @ r) = None" using c by (intro parse_literal_number) auto
  moreover have "parse_number (c # t @ r) = Some (JNum s, r)"
    using parse_number_append [OF \<open>stops r\<close> assms] s by simp
  ultimately show "parse_value n (encodeJson (JNum s) @ r) = Some (sort_members (JNum s), r)"
    by (simp add: s n)
qed

lemma reads_back_array:
  assumes "list_all wf_json vs" "list_all reads_back vs"
  shows "reads_back (JArr vs)"
  unfolding reads_back_def
proof (intro allI impI)
  fix n r
  assume "stops r" and f: "2 * length (encodeJson (JArr vs)) + 1 \<le> n"
  then obtain m where n: "n = Suc m" by (cases n) auto
  show "parse_value n (encodeJson (JArr vs) @ r) = Some (sort_members (JArr vs), r)"
  proof (cases vs)
    case Nil
    then show ?thesis by (simp add: n js_marks)
  next
    case (Cons v us)
    let ?j = "join (js '','') (map encodeJson vs)"
    have "parse_elements m (?j @ 93 # r) = Some (map sort_members vs, r)"
      using assms f n Cons by (intro parse_elements_join) (auto simp: js_marks)
    moreover obtain c t where "encodeJson v = c # t" "\<not> is_space c" "c \<noteq> 93"
      using encode_first [of v] assms(1) Cons by auto
    then have "\<exists>t. ?j = c # t \<and> \<not> is_space c \<and> c \<noteq> 93" using Cons by (cases us) auto
    ultimately show ?thesis by (auto simp: n js_marks)
  qed
qed

lemma encode_object:
  "encodeJson (JObj kvs) = 123 # join (js '','') (map member_text (sort_key fst kvs)) @ [125]"
proof -
  have "(\<lambda>(name, encoded). quote name @ js '':'' @ encoded) \<circ> (\<lambda>(k, v). (k, encodeJson v)) = member_text"
    by (auto simp: member_text_def)
  then show ?thesis by (simp add: sort_key_map_values js_marks)
qed

lemma reads_back_object:
  assumes "distinct (map fst kvs)" "list_all (\<lambda>(k, v). reads_back v) kvs"
  shows "reads_back (JObj kvs)"
  unfolding reads_back_def
proof (intro allI impI)
  fix n r
  assume "stops r" and f: "2 * length (encodeJson (JObj kvs)) + 1 \<le> n"
  then obtain m where n: "n = Suc m" by (cases n) auto
  let ?s = "sort_key fst kvs"
  show "parse_value n (encodeJson (JObj kvs) @ r) = Some (sort_members (JObj kvs), r)"
  proof (cases ?s)
    case Nil
    then show ?thesis by (simp add: n encode_object sort_key_map_values del: encodeJson.simps)
  next
    case (Cons kv rest)
    let ?j = "join (js '','') (map member_text ?s)"
    have "parse_members m [] (?j @ 125 # r) = Some ([] @ map (\<lambda>(k, v). (k, sort_members v)) ?s, r)"
    proof (rule parse_members_join)
      show "list_all (\<lambda>(k, v). reads_back v) ?s" using assms(2) by (auto simp: list_all_iff)
      show "?s \<noteq> []" using Cons by simp
      show "distinct (map fst ([] @ ?s))" using assms(1) by (simp del: distinct_map)
      show "2 * length ?j + 2 \<le> m" using f n by (simp add: encode_object del: encodeJson.simps)
    qed
    moreover obtain t where "?j = 34 # t"
      using Cons by (cases rest; cases kv) (auto simp: member_text_unfold)
    ultimately show ?thesis
      by (simp add: n encode_object sort_key_map_values del: encodeJson.simps)
  qed
qed

lemma reads_back_all: "wf_json v \<Longrightarrow> reads_back v"
proof (induction v)
  case JNull
  show ?case unfolding reads_back_def
    by (intro allI impI, case_tac n) (simp_all add: js_def is_space_def parse_literal_def strip_prefix_def)
next
  case (JBool b)
  show ?case unfolding reads_back_def
    by (intro allI impI, case_tac n; cases b)
      (simp_all add: js_def is_space_def parse_literal_def strip_prefix_def)
next
  case (JStr s)
  show ?case unfolding reads_back_def
    by (intro allI impI, case_tac n) (simp_all add: quote_def lex_quote_units)
next
  case (JNum s)
  then show ?case by (intro reads_back_number) simp
next
  case (JArr vs)
  then show ?case by (intro reads_back_array) (auto simp: list_all_iff)
next
  case (JObj kvs)
  then show ?case by (intro reads_back_object) (auto simp: list_all_iff)
qed

lemma tryParseJson_encodeJson: "wf_json v \<Longrightarrow> tryParseJson (encodeJson v) = Some (sort_members v)"
  using reads_backD [OF reads_back_all, of v "[]" "json_fuel (encodeJson v)"]
  by (simp add: tryParseJson_def json_fuel_def skip_ws_def)

lemma tryParseJson_wf: "tryParseJson s = Some v \<Longrightarrow> wf_json v"
  using parse_wf by (auto simp: tryParseJson_def split: option.splits if_splits)

end
