(* ===== verification/Readers.thy ===== *)
theory Readers
  imports JsonRoundtrip "HOL-Library.Monad_Syntax"
begin

text \<open>
  The outcome type of the manager client (\<^verbatim>\<open>events.ts\<close>) and the field readers that its
  decoders share (\<^verbatim>\<open>resources.ts\<close>). A reader gives \<^term>\<open>None\<close> for \<^verbatim>\<open>undefined\<close>; the
  characterisations of the collection \<open>reads\<close> turn a decoder that succeeded into facts about
  the members of the decoded object.
\<close>

named_theorems reads \<open>when a field reader succeeds\<close>

section \<open>Outcomes\<close>

datatype fixed_failure =
  ClientClosed | InvalidEndpoint | WrongEndpoint | CredentialUnavailable | CredentialChanged
| TransportUnavailable | RedirectRefused | InvalidResponse | ResponseTooLarge
| UnsupportedVersion | ClientFileUnavailable | InvalidClientProfile

datatype client_failure = Fixed fixed_failure | Refused int jstr

type_synonym 'a outcome = "client_failure + 'a"

definition decided :: "'a option \<Rightarrow> 'a outcome" where
  "decided value = (case value of None \<Rightarrow> Inl (Fixed InvalidResponse) | Some x \<Rightarrow> Inr x)"

lemma decided_Inr [simp]: "decided value = Inr x \<longleftrightarrow> value = Some x"
  by (auto simp: decided_def split: option.splits)

text \<open>An early return of \<^verbatim>\<open>undefined\<close>.\<close>

definition require :: "bool \<Rightarrow> unit option" where
  "require b = (if b then Some () else None)"

lemma require_Some [reads, simp]: "require b = Some u \<longleftrightarrow> b"
  by (simp add: require_def)

lemma bind_Some_elim: "Option.bind m f = Some y \<Longrightarrow> (\<And>x. m = Some x \<Longrightarrow> f x = Some y \<Longrightarrow> P) \<Longrightarrow> P"
  by (auto simp: bind_eq_Some_conv)

section \<open>Readers of one value\<close>

text \<open>The count of code points, over code units as the source counts them.\<close>

fun textLength :: "jstr \<Rightarrow> nat" where
  "textLength [] = 0"
| "textLength [u] = 1"
| "textLength (u # v # s) =
     (if high_surrogate u \<and> low_surrogate v then 1 + textLength s else 1 + textLength (v # s))"

definition bounded :: "jstr \<Rightarrow> nat \<Rightarrow> nat \<Rightarrow> bool" where
  "bounded value lower upper \<longleftrightarrow> lower \<le> textLength value \<and> textLength value \<le> upper"

definition textOf :: "json_value option \<Rightarrow> jstr option" where
  "textOf value = (case value of Some (JStr s) \<Rightarrow> Some s | _ \<Rightarrow> None)"

definition boundedText :: "json_value option \<Rightarrow> nat \<Rightarrow> nat \<Rightarrow> jstr option" where
  "boundedText value lower upper =
     (case value of Some (JStr s) \<Rightarrow> if bounded s lower upper then Some s else None | _ \<Rightarrow> None)"

definition boolOf :: "json_value option \<Rightarrow> bool option" where
  "boolOf value = (case value of Some (JBool b) \<Rightarrow> Some b | _ \<Rightarrow> None)"

definition INT64_MIN :: int where "INT64_MIN = - (2 ^ 63)"
definition INT64_MAX :: int where "INT64_MAX = 2 ^ 63 - 1"

definition intOf :: "json_value option \<Rightarrow> int \<Rightarrow> int \<Rightarrow> int option" where
  "intOf value minimum maximum =
     (case value of Some (JNum n) \<Rightarrow> boundedInteger n minimum maximum | _ \<Rightarrow> None)"

definition oneOf :: "json_value option \<Rightarrow> jstr list \<Rightarrow> jstr option" where
  "oneOf value choices =
     (case value of Some (JStr s) \<Rightarrow> List.find (\<lambda>choice. choice = s) choices | _ \<Rightarrow> None)"

definition nullable :: "json_value option \<Rightarrow> (json_value \<Rightarrow> 'a option) \<Rightarrow> 'a option option" where
  "nullable value parse =
     (case value of None \<Rightarrow> None | Some JNull \<Rightarrow> Some None | Some v \<Rightarrow> map_option Some (parse v))"

text \<open>\<^term>\<open>None\<close> as the limit stands for \<^verbatim>\<open>Infinity\<close>.\<close>

definition listOf :: "json_value option \<Rightarrow> (json_value \<Rightarrow> 'a option) \<Rightarrow> nat option \<Rightarrow> 'a list option" where
  "listOf value parse limit =
     (case value of
        Some (JArr items) \<Rightarrow>
          if (case limit of None \<Rightarrow> False | Some n \<Rightarrow> length items > n) then None
          else all_some (map parse items)
      | _ \<Rightarrow> None)"

text \<open>\<^verbatim>\<open>new Set(values).size === values.length\<close>.\<close>

definition unique :: "'a list \<Rightarrow> bool" where
  "unique values \<longleftrightarrow> length (remdups values) = length values"

lemma unique_distinct [simp]: "unique xs \<longleftrightarrow> distinct xs"
  by (auto simp: unique_def length_remdups_card_conv intro: card_distinct dest: distinct_card)

section \<open>Readers of an object\<close>

definition exact :: "json_value option \<Rightarrow> jstr list \<Rightarrow> json_members option" where
  "exact value names =
     (case value of
        Some (JObj fs) \<Rightarrow>
          if length fs = length names \<and> list_all (map_has fs) names then Some fs else None
      | _ \<Rightarrow> None)"

definition within_names :: "json_value option \<Rightarrow> jstr list \<Rightarrow> json_members option" where
  "within_names value names =
     (case value of
        Some (JObj fs) \<Rightarrow> if list_all (\<lambda>(name, _). name \<in> set names) fs then Some fs else None
      | _ \<Rightarrow> None)"

definition versionOne :: "json_members \<Rightarrow> bool" where
  "versionOne fs \<longleftrightarrow> intOf (jsonMember fs (js ''version'')) INT64_MIN INT64_MAX = Some 1"

definition validDigest :: "jstr \<Rightarrow> bool" where
  "validDigest value \<longleftrightarrow> sha256_text value"

definition canonicalDecimal :: "jstr \<Rightarrow> nat option \<Rightarrow> int option \<Rightarrow> int option" where
  "canonicalDecimal value most maximum =
     (if (case most of None \<Rightarrow> False | Some n \<Rightarrow> length value > n) \<or> \<not> canonical_text value then None
      else
        (let number = int (digits_val value) in
         if (case maximum of None \<Rightarrow> True | Some m \<Rightarrow> number \<le> m) then Some number else None))"

definition word64Text :: "json_value option \<Rightarrow> int option" where
  "word64Text value =
     (case value of Some (JStr s) \<Rightarrow> canonicalDecimal s None (Some WORD64_MAX) | _ \<Rightarrow> None)"

section \<open>When a reader succeeds\<close>

lemma textLength_points: "textLength s = length (code_points s)"
  by (induction s rule: textLength.induct) auto

lemma textOf_Some [reads]: "textOf m = Some s \<longleftrightarrow> m = Some (JStr s)"
  by (auto simp: textOf_def split: option.splits json.splits)

lemma boundedText_Some [reads]: "boundedText m l u = Some s \<longleftrightarrow> m = Some (JStr s) \<and> bounded s l u"
  by (auto simp: boundedText_def split: option.splits json.splits)

lemma boolOf_Some [reads]: "boolOf m = Some b \<longleftrightarrow> m = Some (JBool b)"
  by (auto simp: boolOf_def split: option.splits json.splits)

lemma intOf_Some [reads]:
  "intOf m lo hi = Some i \<longleftrightarrow> (\<exists>n. m = Some (JNum n) \<and> boundedInteger n lo hi = Some i)"
  by (auto simp: intOf_def split: option.splits json.splits)

lemma find_self: "List.find (\<lambda>choice. choice = s) cs = Some c \<longleftrightarrow> c = s \<and> s \<in> set cs"
  by (induction cs) auto

lemma oneOf_Some [reads]: "oneOf m cs = Some c \<longleftrightarrow> m = Some (JStr c) \<and> c \<in> set cs"
  by (auto simp: oneOf_def find_self split: option.splits json.splits)

lemma nullable_None [reads]: "nullable m p = Some None \<longleftrightarrow> m = Some JNull"
  by (auto simp: nullable_def split: option.splits json.splits)

lemma nullable_Some [reads]:
  "nullable m p = Some (Some x) \<longleftrightarrow> (\<exists>v. m = Some v \<and> v \<noteq> JNull \<and> p v = Some x)"
  by (auto simp: nullable_def split: option.splits json.splits)

lemma listOf_Some [reads]:
  "listOf m p limit = Some xs \<longleftrightarrow>
     (\<exists>vs. m = Some (JArr vs) \<and> (case limit of None \<Rightarrow> True | Some n \<Rightarrow> length vs \<le> n) \<and>
        list_all2 (\<lambda>v x. p v = Some x) vs xs)"
  by (auto simp: listOf_def all_some_map_iff split: option.splits json.splits)

lemma exact_Some:
  "exact m names = Some fs \<longleftrightarrow>
     m = Some (JObj fs) \<and> length fs = length names \<and> list_all (map_has fs) names"
  by (auto simp: exact_def split: option.splits json.splits)

lemma within_names_Some:
  "within_names m names = Some fs \<longleftrightarrow> m = Some (JObj fs) \<and> fst ` set fs \<subseteq> set names"
  by (auto simp: within_names_def list_all_iff split: option.splits json.splits)

lemma canonicalDecimal_Some:
  "canonicalDecimal s most m = Some i \<longleftrightarrow>
     (case most of None \<Rightarrow> True | Some n \<Rightarrow> length s \<le> n) \<and>
     (case m of None \<Rightarrow> True | Some b \<Rightarrow> i \<le> b) \<and> 0 \<le> i \<and> s = int_text i"
proof (cases "canonical_text s")
  case True
  have "i = int (digits_val s) \<longleftrightarrow> 0 \<le> i \<and> s = int_text i"
    using dec_digits_val [OF True] by (auto simp: int_text_def)
  moreover have "canonicalDecimal s most m = Some i \<longleftrightarrow>
      (case most of None \<Rightarrow> True | Some n \<Rightarrow> length s \<le> n) \<and>
      (case m of None \<Rightarrow> True | Some b \<Rightarrow> i \<le> b) \<and> i = int (digits_val s)"
    using True by (cases most; cases m) (auto simp: canonicalDecimal_def Let_def split: if_splits)
  ultimately show ?thesis by blast
next
  case False
  then have "\<not> (0 \<le> i \<and> s = int_text i)" by (auto simp: int_text_def)
  with False show ?thesis by (auto simp: canonicalDecimal_def)
qed

lemma word64Text_Some [reads]:
  "word64Text m = Some i \<longleftrightarrow> m = Some (JStr (int_text i)) \<and> 0 \<le> i \<and> i \<le> WORD64_MAX"
  by (auto simp: word64Text_def canonicalDecimal_Some split: option.splits json.splits)

section \<open>Objects written by an encoder\<close>

text \<open>An object whose members are exactly the named ones, in that order, passes \<^verbatim>\<open>exact\<close>.\<close>

lemma exact_self [simp]: "map fst fs = names \<Longrightarrow> exact (Some (JObj fs)) names = Some fs"
  by (auto simp: exact_Some list_all_iff map_of_eq_None_iff)

lemma exact_members: "exact (Some (JObj fs)) names = Some gs \<longleftrightarrow> gs = fs \<and> length fs = length names \<and> list_all (map_has fs) names"
  by (auto simp: exact_Some)

text \<open>
  Conversely, an encoder that writes the named members, each equal to the member it was read
  from, gives an equal object.
\<close>

lemma jsonEqual_exact:
  assumes "exact (Some v) names = Some fs" "map fst enc = names"
    and "list_all (\<lambda>(k, x). \<exists>y. map_of fs k = Some y \<and> jsonEqual x y) enc"
  shows "jsonEqual (JObj enc) v"
proof -
  have v: "v = JObj fs" "length fs = length names" using assms(1) by (auto simp: exact_Some)
  moreover have "length enc = length fs" using v assms(2) by (metis length_map)
  ultimately show ?thesis using assms(3) by (fastforce simp: list_all_iff)
qed

lemma wf_member: "wf_json (JObj fs) \<Longrightarrow> map_of fs k = Some y \<Longrightarrow> wf_json y"
  by (fastforce simp: list_all_iff dest: map_of_SomeD)

lemma exact_wf: "exact (Some v) names = Some fs \<Longrightarrow> wf_json v \<Longrightarrow> map_of fs k = Some y \<Longrightarrow> wf_json y"
  by (auto simp: exact_Some intro: wf_member)

lemma jsonEqual_number:
  "number_grammar n \<Longrightarrow> boundedInteger n lo hi = Some i \<Longrightarrow> jsonEqual (JNum (int_text i)) (JNum n)"
  using numberEqual_exact [of "int_text i" n] boundedInteger_exact [of n lo hi i] by simp

lemma one_text: "js ''1'' = int_text 1"
  by (simp add: js_def int_text_def dec.simps digit_unit_def)

lemma versionOne_members:
  "versionOne fs \<longleftrightarrow> (\<exists>n. map_of fs (js ''version'') = Some (JNum n) \<and> boundedInteger n INT64_MIN INT64_MAX = Some 1)"
  by (simp add: versionOne_def jsonMember_def reads)

end
