(* ===== verification/Codec.thy ===== *)
theory Codec
  imports Readers
begin

text \<open>
  The contract of a wire format: a decoder that refuses or gives a record, an encoder, and the
  records that the format carries. Every decoder and encoder pair of the client interprets one
  of these locales; the consequences for lists and for texts on the wire are proved here once.
\<close>

section \<open>Members after a passage through the wire\<close>

text \<open>
  Printing orders the members of every object, so a decoder must not depend on that order.
\<close>

definition sort_fields :: "json_members \<Rightarrow> json_members" where
  "sort_fields fs = sort_key fst (map (\<lambda>(k, v). (k, sort_members v)) fs)"

lemma sort_members_obj: "sort_members (JObj fs) = JObj (sort_fields fs)"
  by (simp add: sort_fields_def)

lemma map_of_sort_fields:
  assumes "distinct (map fst fs)"
  shows "map_of (sort_fields fs) k = map_option sort_members (map_of fs k)"
proof -
  let ?gs = "map (\<lambda>(k, v). (k, sort_members v)) fs"
  have d: "distinct (map fst ?gs)" using assms by (simp only: map_map fst_map_value)
  then have "distinct (map fst (sort_key fst ?gs))" by (simp only: map_fst_sort_key distinct_sort)
  then have "map_of (sort_fields fs) = map_of ?gs"
    unfolding sort_fields_def using d by (subst map_of_inject_set) simp_all
  then show ?thesis by (simp only: map_of_map_values)
qed

lemma length_sort_fields [simp]: "length (sort_fields fs) = length fs"
  by (simp add: sort_fields_def)

lemma exact_sort:
  "wf_json v \<Longrightarrow> exact (Some (sort_members v)) names = map_option sort_fields (exact (Some v) names)"
  by (cases v) (auto simp: exact_def sort_members_obj map_of_sort_fields list_all_iff simp del: sort_members.simps(2))

lemma member_sort:
  "distinct (map fst fs) \<Longrightarrow> jsonMember (sort_fields fs) k = map_option sort_members (jsonMember fs k)"
  by (simp add: jsonMember_def map_of_sort_fields)

text \<open>The readers of values without objects cannot see the order.\<close>

lemma readers_sort [simp]:
  "textOf (map_option sort_members m) = textOf m"
  "boundedText (map_option sort_members m) l u = boundedText m l u"
  "boolOf (map_option sort_members m) = boolOf m"
  "intOf (map_option sort_members m) lo hi = intOf m lo hi"
  "oneOf (map_option sort_members m) cs = oneOf m cs"
  "word64Text (map_option sort_members m) = word64Text m"
  "word64 (map_option sort_members m) = word64 m"
  by (cases m; (simp; fail)?; (case_tac a; simp add: textOf_def boundedText_def boolOf_def intOf_def oneOf_def word64Text_def word64_def))+

lemmas readers_sort_Some [simp] = readers_sort [of "Some v" for v, simplified option.map]

lemma member_wf: "wf_json (JObj fs) \<Longrightarrow> jsonMember fs k = Some y \<Longrightarrow> wf_json y"
  unfolding jsonMember_def by (rule wf_member)

lemma sort_null [simp]: "sort_members v = JNull \<longleftrightarrow> v = JNull"
  by (cases v) auto

lemma sort_bool [simp]: "sort_members v = JBool b \<longleftrightarrow> v = JBool b"
  by (cases v) auto

lemma sort_text [simp]: "sort_members v = JStr s \<longleftrightarrow> v = JStr s"
  by (cases v) auto

lemma all_some_sort:
  "(\<And>v. wf_json v \<Longrightarrow> p (sort_members v) = p v) \<Longrightarrow> list_all wf_json vs \<Longrightarrow>
   all_some (map p (map sort_members vs)) = all_some (map p vs)"
  by (induction vs) (auto split: option.splits)

lemma listOf_sort:
  assumes "wf_json (JObj fs)" "\<And>v. wf_json v \<Longrightarrow> p (sort_members v) = p v"
  shows "listOf (map_option sort_members (jsonMember fs k)) p limit = listOf (jsonMember fs k) p limit"
proof (cases "jsonMember fs k")
  case (Some y)
  show ?thesis
  proof (cases y)
    case (JArr vs)
    then have "list_all wf_json vs" using member_wf [OF assms(1) Some] by simp
    with assms(2) have "all_some (map p (map sort_members vs)) = all_some (map p vs)"
      by (intro all_some_sort) auto
    then show ?thesis by (cases limit) (simp_all add: Some JArr listOf_def)
  qed (simp_all add: Some listOf_def)
qed (simp add: listOf_def)

lemma nullable_sort:
  assumes "wf_json (JObj fs)" "\<And>v. wf_json v \<Longrightarrow> p (sort_members v) = p v"
  shows "nullable (map_option sort_members (jsonMember fs k)) p = nullable (jsonMember fs k) p"
proof (cases "jsonMember fs k")
  case (Some y)
  then have "p (sort_members y) = p y" using assms member_wf by blast
  then show ?thesis by (cases y) (simp_all add: Some nullable_def)
qed simp

lemma versionOne_sort: "distinct (map fst fs) \<Longrightarrow> versionOne (sort_fields fs) = versionOne fs"
  by (simp add: versionOne_def member_sort)

lemma jsonEqual_sort_left: "wf_json v \<Longrightarrow> wf_json w \<Longrightarrow> jsonEqual (sort_members v) w = jsonEqual v w"
  by (simp add: jsonEqual_canonical sort_members_wf canonical_sort_members)

lemma exact_wf_obj: "exact (Some v) names = Some fs \<Longrightarrow> wf_json v \<Longrightarrow> wf_json (JObj fs)"
  by (auto simp: exact_Some)

lemma exact_distinct: "exact (Some v) names = Some fs \<Longrightarrow> wf_json v \<Longrightarrow> distinct (map fst fs)"
  by (auto simp: exact_Some)

lemmas sort_rules = exact_sort member_sort exact_distinct exact_wf_obj listOf_sort nullable_sort versionOne_sort

text \<open>Members that state the version, and members of an object that \<^verbatim>\<open>within\<close> accepts in full.\<close>

lemma versionOne_equal:
  "versionOne fs \<Longrightarrow> wf_json (JObj fs) \<Longrightarrow>
   \<exists>y. map_of fs (js ''version'') = Some y \<and> jsonEqual (JNum (js ''1'')) y"
proof -
  assume v: "versionOne fs" and wf: "wf_json (JObj fs)"
  obtain n where n: "map_of fs (js ''version'') = Some (JNum n)" "boundedInteger n INT64_MIN INT64_MAX = Some 1"
    using v by (auto simp: versionOne_members)
  have "number_grammar n" using wf_member [OF wf n(1)] by simp
  then have "jsonEqual (JNum (js ''1'')) (JNum n)" using n(2) unfolding one_text by (rule jsonEqual_number)
  with n(1) show ?thesis by blast
qed

lemma versionOne_written [simp]: "map_of fs (js ''version'') = Some (JNum (js ''1'')) \<Longrightarrow> versionOne fs"
  by (simp add: versionOne_members one_text INT64_MIN_def INT64_MAX_def)

lemma one_wf [simp]: "number_grammar (js ''1'')"
  by (simp add: one_text)

lemma within_exact:
  assumes "within_names (Some v) names = Some fs" "wf_json v" "list_all (map_has fs) names" "distinct names"
  shows "exact (Some v) names = Some fs"
proof -
  have v: "v = JObj fs" "set (map fst fs) \<subseteq> set names" using assms(1) by (auto simp: within_names_Some)
  have "set names \<subseteq> set (map fst fs)"
    using assms(3) by (auto simp: list_all_iff map_of_eq_None_iff)
  then have "set (map fst fs) = set names" using v(2) by blast
  then have "length fs = length names"
    using assms(2,4) v(1) distinct_card [of "map fst fs"] distinct_card [of names] by simp
  with v(1) assms(3) show ?thesis by (simp add: exact_Some)
qed

lemma within_self: "fst ` set fs \<subseteq> set names \<Longrightarrow> within_names (Some (JObj fs)) names = Some fs"
  by (simp add: within_names_Some)

lemma listOf_texts [simp]:
  "listOf (Some (JArr (map JStr ts))) (\<lambda>v. textOf (Some v)) limit =
     (if (case limit of None \<Rightarrow> True | Some n \<Rightarrow> length ts \<le> n) then Some ts else None)"
  by (cases limit) (auto simp: listOf_def comp_def textOf_def)

lemma listed_texts: "list_all2 (\<lambda>v x. v = JStr x) vs ts \<longleftrightarrow> vs = map JStr ts"
  by (induction ts arbitrary: vs) (auto simp: list_all2_Cons2)

lemma listed_choices:
  "list_all2 (\<lambda>v x. v = JStr x \<and> x \<in> set cs) vs ts \<longleftrightarrow> vs = map JStr ts \<and> set ts \<subseteq> set cs"
  by (induction ts arbitrary: vs) (auto simp: list_all2_Cons2)

lemma listOf_textOf: "listOf m (\<lambda>v. textOf (Some v)) limit = Some ts \<longleftrightarrow>
    m = Some (JArr (map JStr ts)) \<and> (case limit of None \<Rightarrow> True | Some n \<Rightarrow> length ts \<le> n)"
  by (cases limit; simp add: listOf_Some textOf_Some listed_texts; metis length_map)

lemma listOf_oneOf: "listOf m (\<lambda>v. oneOf (Some v) cs) limit = Some ts \<longleftrightarrow>
    m = Some (JArr (map JStr ts)) \<and> (case limit of None \<Rightarrow> True | Some n \<Rightarrow> length ts \<le> n) \<and> set ts \<subseteq> set cs"
  by (cases limit; simp add: listOf_Some oneOf_Some listed_choices; metis length_map)

lemma wf_texts [simp]: "list_all wf_json (map JStr ts)"
  by (simp add: list_all_iff)

lemma jsonEqual_texts [simp]: "jsonEqual (JArr (map JStr ts)) (JArr (map JStr ts))"
  by (rule jsonEqual_refl) simp

text \<open>Nullable texts, and the JSON that states them.\<close>

definition text_or_null :: "jstr option \<Rightarrow> json_value" where
  "text_or_null t = (case t of None \<Rightarrow> JNull | Some s \<Rightarrow> JStr s)"

definition int_or_null :: "int option \<Rightarrow> json_value" where
  "int_or_null t = (case t of None \<Rightarrow> JNull | Some n \<Rightarrow> ofBigInt n)"

lemma text_or_null_simps [simp]: "text_or_null None = JNull" "text_or_null (Some s) = JStr s"
  by (simp_all add: text_or_null_def)

lemma text_or_null_wf [simp]: "wf_json (text_or_null t)"
  by (cases t) simp_all

lemma text_or_null_equal [simp]: "jsonEqual (text_or_null t) (text_or_null t)"
  by (rule jsonEqual_refl) simp

lemma nullable_text:
  assumes "\<And>v s. p v = Some s \<longleftrightarrow> v = JStr s \<and> ok s"
  shows "nullable m p = Some t \<longleftrightarrow> m = Some (text_or_null t) \<and> (\<forall>s \<in> set_option t. ok s)"
  by (cases t) (auto simp: nullable_None nullable_Some assms)

lemma nullable_oneOf: "nullable m (\<lambda>v. oneOf (Some v) cs) = Some t \<longleftrightarrow>
    m = Some (text_or_null t) \<and> (\<forall>s \<in> set_option t. s \<in> set cs)"
  by (rule nullable_text) (auto simp: oneOf_Some)

lemma nullable_boundedText: "nullable m (\<lambda>v. boundedText (Some v) lo hi) = Some t \<longleftrightarrow>
    m = Some (text_or_null t) \<and> (\<forall>s \<in> set_option t. bounded s lo hi)"
  by (rule nullable_text) (auto simp: boundedText_Some)

lemma int_or_null_wf [simp]: "wf_json (int_or_null t)"
  by (simp add: int_or_null_def ofBigInt_def split: option.split)

text \<open>A nullable number, read from a member of the object and written canonically.\<close>

lemma nullable_intOf_written:
  "(\<forall>n \<in> set_option t. lo \<le> n \<and> n \<le> hi) \<Longrightarrow> nullable (Some (int_or_null t)) (\<lambda>v. intOf (Some v) lo hi) = Some t"
  by (cases t) (simp_all add: int_or_null_def nullable_def ofBigInt_def intOf_def)

lemma nullable_intOf_range: "nullable m (\<lambda>v. intOf (Some v) lo hi) = Some t \<Longrightarrow> \<forall>n \<in> set_option t. lo \<le> n \<and> n \<le> hi"
  by (cases t) (auto simp: nullable_Some intOf_Some dest: boundedInteger_range)

lemma nullable_intOf_equal:
  assumes "nullable m (\<lambda>v. intOf (Some v) lo hi) = Some t" "\<And>y. m = Some y \<Longrightarrow> wf_json y"
  shows "\<exists>y. m = Some y \<and> jsonEqual (int_or_null t) y"
proof (cases t)
  case None
  with assms show ?thesis by (simp add: int_or_null_def nullable_None)
next
  case (Some i)
  with assms(1) obtain n where n: "m = Some (JNum n)" "boundedInteger n lo hi = Some i"
    by (auto simp: nullable_Some intOf_Some)
  then have "number_grammar n" using assms(2) by fastforce
  with n have "jsonEqual (JNum (int_text i)) (JNum n)" by (intro jsonEqual_number)
  with n Some show ?thesis by (simp add: int_or_null_def ofBigInt_def)
qed

section \<open>A codec\<close>

locale codec =
  fixes decode :: "json_value \<Rightarrow> 'a option"
    and encode :: "'a \<Rightarrow> json_value"
    and valid :: "'a \<Rightarrow> bool"
  assumes decode_valid: "wf_json v \<Longrightarrow> decode v = Some x \<Longrightarrow> valid x"
    and encode_wf: "valid x \<Longrightarrow> wf_json (encode x)"
    and decode_encode: "valid x \<Longrightarrow> decode (encode x) = Some x"
    and encode_decode: "wf_json v \<Longrightarrow> decode v = Some x \<Longrightarrow> jsonEqual (encode x) v"
begin

text \<open>The records that a decoder gives are exactly those that the format carries.\<close>

lemma decoded_iff: "valid x \<longleftrightarrow> (\<exists>v. wf_json v \<and> decode v = Some x)"
  using decode_valid encode_wf decode_encode by blast

lemma encode_inject: "valid x \<Longrightarrow> valid y \<Longrightarrow> encode x = encode y \<Longrightarrow> x = y"
  using decode_encode by (metis option.inject)

text \<open>Two values with one record are equal JSON.\<close>

lemma decode_same:
  assumes "wf_json v" "wf_json w" "decode v = Some x" "decode w = Some x"
  shows "jsonEqual v w"
proof -
  have "wf_json (encode x)" using assms decode_valid encode_wf by blast
  then show ?thesis
    using assms encode_decode [of v x] encode_decode [of w x] by (simp add: jsonEqual_canonical)
qed

text \<open>Lists of records.\<close>

lemma list_decode_encode:
  "list_all valid xs \<Longrightarrow> (case limit of None \<Rightarrow> True | Some n \<Rightarrow> length xs \<le> n) \<Longrightarrow>
   listOf (Some (JArr (map encode xs))) decode limit = Some xs"
  by (auto simp: listOf_Some list_all2_map1 list_all_iff decode_encode intro: list.rel_refl_strong split: option.splits)

lemma list_encode_wf: "list_all valid xs \<Longrightarrow> wf_json (JArr (map encode xs))"
  by (simp add: list_all_iff encode_wf)

lemma list_decode_valid:
  assumes "list_all2 (\<lambda>v x. decode v = Some x) vs xs" "list_all wf_json vs"
  shows "list_all valid xs"
  using assms by (induction rule: list_all2_induct) (auto intro: decode_valid)

lemma list_encode_decode:
  assumes "list_all2 (\<lambda>v x. decode v = Some x) vs xs" "list_all wf_json vs"
  shows "jsonEqual (JArr (map encode xs)) (JArr vs)"
proof -
  have "length xs = length vs \<and> list_all (\<lambda>(x, y). jsonEqual x y) (zip (map encode xs) vs)"
    using assms by (induction rule: list_all2_induct) (auto intro: encode_decode)
  then show ?thesis by simp
qed

end

text \<open>A format without embedded JSON does not depend on the order of members, and survives printing.\<close>

locale text_codec = codec +
  assumes decode_sort: "wf_json v \<Longrightarrow> decode (sort_members v) = decode v"
begin

lemma wire_roundtrip:
  assumes "valid x"
  shows "Option.bind (tryParseJson (encodeJson (encode x))) decode = Some x"
  using encode_wf [OF assms] decode_encode [OF assms] by (simp add: tryParseJson_encodeJson decode_sort)

lemma list_decode_sort: "list_all wf_json vs \<Longrightarrow> all_some (map decode (map sort_members vs)) = all_some (map decode vs)"
  by (induction vs) (auto simp: decode_sort split: option.splits)

end

end
