(* ===== verification/Identifiers.thy ===== *)
theory Identifiers
  imports Readers
begin

text \<open>
  The texts that name things on the wire (\<^verbatim>\<open>manager/events.ts\<close>): bounded identifiers and
  revisions, resource paths, event cursors, strong entity tags and event names.
\<close>

section \<open>Identifiers, resources and tags\<close>

definition id_unit :: "unit16 \<Rightarrow> bool" where
  "id_unit c \<longleftrightarrow> is_letter c \<or> is_digit c \<or> c = 95 \<or> c = 45"

definition validId :: "jstr \<Rightarrow> bool" where
  "validId s \<longleftrightarrow> 1 \<le> length s \<and> length s \<le> 128 \<and> list_all id_unit s"

definition validRevision :: "jstr \<Rightarrow> bool" where
  "validRevision s \<longleftrightarrow> validId s"

definition starts_with :: "jstr \<Rightarrow> jstr \<Rightarrow> bool" where
  "starts_with s prefix \<longleftrightarrow> take (length prefix) s = prefix"

definition ends_with :: "jstr \<Rightarrow> jstr \<Rightarrow> bool" where
  "ends_with s suffix \<longleftrightarrow> length suffix \<le> length s \<and> drop (length s - length suffix) s = suffix"

definition resource_unit :: "unit16 \<Rightarrow> bool" where
  "resource_unit c \<longleftrightarrow> is_letter c \<or> is_digit c \<or> c \<in> set (js ''_-/?=&.%'')"

definition validResource :: "jstr \<Rightarrow> bool" where
  "validResource s \<longleftrightarrow> 4 < length s \<and> length s \<le> 8192 \<and> starts_with s (js ''/v1/'') \<and> list_all resource_unit s"

definition validETag :: "jstr \<Rightarrow> bool" where
  "validETag s \<longleftrightarrow> 3 \<le> length s \<and> length s \<le> 130 \<and> starts_with s [34] \<and> ends_with s [34]
     \<and> validId (butlast (tl s))"

section \<open>Cursors\<close>

text \<open>\<^verbatim>\<open>value.split(separator)\<close> for a separator of one code unit.\<close>

fun split_on :: "'a \<Rightarrow> 'a list \<Rightarrow> 'a list list" where
  "split_on c [] = [[]]"
| "split_on c (u # s) =
     (if u = c then [] # split_on c s
      else (case split_on c s of [] \<Rightarrow> [[u]] | p # ps \<Rightarrow> (u # p) # ps))"

definition cursor_number :: "jstr \<Rightarrow> bool" where
  "cursor_number s \<longleftrightarrow> canonical_text s \<and> length s \<le> 20 \<and> int (digits_val s) \<le> WORD64_MAX"

definition validCursor :: "jstr \<Rightarrow> bool" where
  "validCursor s =
     (case split_on 46 s of
        [stream, number] \<Rightarrow> validId stream \<and> cursor_number number
      | _ \<Rightarrow> False)"

text \<open>\<^verbatim>\<open>id.slice(id.lastIndexOf(".") + 1)\<close>: what follows the last dot.\<close>

definition after_last_dot :: "jstr \<Rightarrow> jstr" where
  "after_last_dot s = last (split_on 46 s)"

lemma split_on_nonempty [simp]: "split_on c s \<noteq> []"
  by (induction s) (auto split: list.splits)

lemma split_on_free: "c \<notin> set s \<Longrightarrow> split_on c s = [s]"
  by (induction s) auto

lemma split_on_append: "c \<notin> set s \<Longrightarrow> split_on c (s @ c # t) = s # split_on c t"
  by (induction s) auto

lemma split_on_pieces: "p \<in> set (split_on c s) \<Longrightarrow> c \<notin> set p"
  by (induction s arbitrary: p) (auto split: if_splits list.splits)

lemma split_on_two: "split_on c s = [a, b] \<longleftrightarrow> s = a @ c # b \<and> c \<notin> set a \<and> c \<notin> set b"
proof
  assume l: "split_on c s = [a, b]"
  have single: "split_on c t = [b] \<Longrightarrow> t = b" for t b
    by (induction t arbitrary: b) (auto split: if_splits list.splits)
  have "s = a @ c # b" using l
  proof (induction s arbitrary: a)
    case (Cons u s)
    then show ?case by (auto split: if_splits list.splits dest: single)
  qed simp
  moreover have "c \<notin> set a" "c \<notin> set b" using l split_on_pieces [of _ c s] by auto
  ultimately show "s = a @ c # b \<and> c \<notin> set a \<and> c \<notin> set b" by simp
qed (simp add: split_on_append split_on_free)

lemma id_unit_not_dot [simp]: "\<not> id_unit 46"
  by (simp add: id_unit_def is_letter_def is_digit_def)

lemma digit_not_dot [simp]: "\<not> is_digit 46"
  by (simp add: is_digit_def)

lemma canonical_no_dot: "canonical_text s \<Longrightarrow> 46 \<notin> set s"
  by (auto simp: canonical_text_def list_all_iff dest: bspec [of _ _ 46])

text \<open>The cursors are exactly an identifier, a dot and the decimal of a 64-bit number.\<close>

lemma cursor_number_iff: "cursor_number s \<longleftrightarrow> (\<exists>n. int n \<le> WORD64_MAX \<and> s = dec n)"
proof
  assume l: "cursor_number s"
  then have "s = dec (digits_val s)" by (simp add: cursor_number_def dec_digits_val)
  with l show "\<exists>n. int n \<le> WORD64_MAX \<and> s = dec n" by (auto simp: cursor_number_def)
next
  assume "\<exists>n. int n \<le> WORD64_MAX \<and> s = dec n"
  then obtain n where n: "int n \<le> WORD64_MAX" "s = dec n" by blast
  then have "n < 10 ^ Suc 19" by (simp add: WORD64_MAX_def)
  then have "length s \<le> 20" using length_dec [of n 19] n by simp
  with n show "cursor_number s" by (simp add: cursor_number_def)
qed

lemma validCursor_iff:
  "validCursor s \<longleftrightarrow> (\<exists>stream n. validId stream \<and> int n \<le> WORD64_MAX \<and> s = stream @ 46 # dec n)"
proof
  assume l: "validCursor s"
  then obtain a b where ab: "split_on 46 s = [a, b]" "validId a" "cursor_number b"
    by (auto simp: validCursor_def split: list.splits)
  then show "\<exists>stream n. validId stream \<and> int n \<le> WORD64_MAX \<and> s = stream @ 46 # dec n"
    by (auto simp: split_on_two cursor_number_iff)
next
  assume "\<exists>stream n. validId stream \<and> int n \<le> WORD64_MAX \<and> s = stream @ 46 # dec n"
  then obtain stream n where s: "validId stream" "int n \<le> WORD64_MAX" "s = stream @ 46 # dec n" by blast
  have "46 \<notin> set stream" using s(1) by (auto simp: validId_def list_all_iff dest: bspec [of _ _ 46])
  then have "split_on 46 s = [stream, dec n]"
    using s(3) canonical_no_dot [OF canonical_dec, of n] by (simp add: split_on_two)
  with s show "validCursor s" by (auto simp: validCursor_def cursor_number_iff)
qed

lemma after_last_dot_cursor: "46 \<notin> set stream \<Longrightarrow> after_last_dot (stream @ 46 # dec n) = dec n"
  using canonical_no_dot [OF canonical_dec, of n]
  by (simp add: after_last_dot_def split_on_append split_on_free)

lemma id_no_dot: "validId s \<Longrightarrow> 46 \<notin> set s"
  by (auto simp: validId_def list_all_iff dest: bspec [of _ _ 46])

lemma validCursor_last: "validCursor s \<Longrightarrow> canonical_text (after_last_dot s)"
  by (auto simp: validCursor_iff after_last_dot_cursor id_no_dot)

section \<open>Event names\<close>

definition EVENT_NAMES :: "jstr list" where
  "EVENT_NAMES = [js ''request.changed'', js ''preparation.changed'', js ''run.changed'',
     js ''decision.changed'', js ''command.changed'', js ''artifact.changed'', js ''service.changed'']"

definition parseEventName :: "jstr \<Rightarrow> jstr option" where
  "parseEventName text = List.find (\<lambda>name. name = text) EVENT_NAMES"

lemma parseEventName_Some [reads]: "parseEventName s = Some n \<longleftrightarrow> n = s \<and> s \<in> set EVENT_NAMES"
  by (simp add: parseEventName_def find_self)

definition ROUTE_SCHEMAS :: "jstr list" where
  "ROUTE_SCHEMAS = [js ''start'', js ''control'', js ''question'', js ''answer'', js ''engine-start'',
     js ''turn'', js ''steer'', js ''done'', js ''event'', js ''permission'', js ''command'',
     js ''receipt'', js ''review'', js ''relay'', js ''notice'']"

end
