(* ===== verification/Drafts.thy ===== *)
theory Drafts
  imports Codec Identifiers
begin

text \<open>
  Requests and their readiness (\<^verbatim>\<open>manager/resources.ts\<close>, after
  \<^verbatim>\<open>Agentic.Manager.Protocol.Draft\<close>): declared inputs, supplied inputs, the names still
  missing, the admission of a request, and the captures of its inputs.
\<close>

section \<open>Timestamps\<close>

definition MAXIMUM_DAY :: "nat list" where
  "MAXIMUM_DAY = [31, 29, 31, 30, 31, 30, 31, 31, 30, 31, 30, 31]"

text \<open>
  \<^verbatim>\<open>toUpperCase\<close> on ASCII units. The upper case of every other character holds a unit that the
  pattern, whose only letters are T and Z, refuses, so leaving such a unit alone decides the same.
\<close>

definition upper_unit :: "unit16 \<Rightarrow> unit16" where
  "upper_unit c = (if 97 \<le> c \<and> c \<le> 122 then c - 32 else c)"

definition take_digits :: "nat \<Rightarrow> jstr \<Rightarrow> (nat \<times> jstr) option" where
  "take_digits n s =
     (if length s \<ge> n \<and> list_all is_digit (take n s) then Some (digits_val (take n s), drop n s) else None)"

definition take_unit :: "unit16 \<Rightarrow> jstr \<Rightarrow> jstr option" where
  "take_unit c s = (case s of [] \<Rightarrow> None | u # r \<Rightarrow> if u = c then Some r else None)"

text \<open>The optional fraction \<^verbatim>\<open>(?:\.[0-9]+)?\<close>.\<close>

definition skip_fraction :: "jstr \<Rightarrow> jstr" where
  "skip_fraction s =
     (if s \<noteq> [] \<and> hd s = 46 \<and> takeWhile is_digit (tl s) \<noteq> [] then dropWhile is_digit (tl s) else s)"

text \<open>The zone \<^verbatim>\<open>(?:Z|[+-]([0-9]{2}):([0-9]{2}))$\<close>: its hour and minute, zero for \<^verbatim>\<open>Z\<close>.\<close>

definition zone :: "jstr \<Rightarrow> (nat \<times> nat) option" where
  "zone s =
     (case s of
        [] \<Rightarrow> None
      | u # r \<Rightarrow>
          if u = 90 then (if r = [] then Some (0, 0) else None)
          else if u = 43 \<or> u = 45 then do {
            (h, r1) \<leftarrow> take_digits 2 r;
            r2 \<leftarrow> take_unit 58 r1;
            (m, r3) \<leftarrow> take_digits 2 r2;
            if r3 = [] then Some (h, m) else None
          }
          else None)"

record stamp =
  st_year :: nat
  st_month :: nat
  st_day :: nat
  st_hour :: nat
  st_minute :: nat
  st_second :: nat
  st_zone :: "nat \<times> nat"

definition timestamp_parts :: "jstr \<Rightarrow> stamp option" where
  "timestamp_parts s = do {
     (y, s1) \<leftarrow> take_digits 4 s; s2 \<leftarrow> take_unit 45 s1;
     (mo, s3) \<leftarrow> take_digits 2 s2; s4 \<leftarrow> take_unit 45 s3;
     (d, s5) \<leftarrow> take_digits 2 s4; s6 \<leftarrow> take_unit 84 s5;
     (h, s7) \<leftarrow> take_digits 2 s6; s8 \<leftarrow> take_unit 58 s7;
     (mi, s9) \<leftarrow> take_digits 2 s8; s10 \<leftarrow> take_unit 58 s9;
     (se, s11) \<leftarrow> take_digits 2 s10;
     z \<leftarrow> zone (skip_fraction s11);
     Some \<lparr>st_year = y, st_month = mo, st_day = d, st_hour = h, st_minute = mi, st_second = se, st_zone = z\<rparr>
   }"

definition leap_year :: "nat \<Rightarrow> bool" where
  "leap_year year \<longleftrightarrow> year mod 4 = 0 \<and> (year mod 100 \<noteq> 0 \<or> year mod 400 = 0)"

definition validTimestamp :: "jstr \<Rightarrow> bool" where
  "validTimestamp value \<longleftrightarrow>
     bounded value 20 64 \<and>
     (case timestamp_parts (map upper_unit value) of
        None \<Rightarrow> False
      | Some t \<Rightarrow>
          st_year t \<noteq> 0 \<and> st_month t \<ge> 1 \<and> st_month t \<le> 12 \<and> st_day t \<ge> 1
          \<and> st_day t \<le> (if st_month t = 2 \<and> \<not> leap_year (st_year t) then 28 else MAXIMUM_DAY ! (st_month t - 1))
          \<and> st_hour t < 24 \<and> st_minute t < 60 \<and> st_second t < 60
          \<and> fst (st_zone t) < 24 \<and> snd (st_zone t) < 60)"

section \<open>Inputs\<close>

definition inputNameValid :: "jstr \<Rightarrow> bool" where
  "inputNameValid name \<longleftrightarrow> bounded name 1 1024 \<and> 0 \<notin> set name"

definition inputName :: "json_value option \<Rightarrow> jstr option" where
  "inputName value =
     (case value of Some (JStr s) \<Rightarrow> if inputNameValid s then Some s else None | _ \<Rightarrow> None)"

definition INPUT_SOURCES :: "jstr list" where
  "INPUT_SOURCES = [js ''prompt'', js ''command-tail'', js ''stdin'']"

record input_declaration =
  decl_name :: jstr
  decl_source :: jstr

datatype supplied_input = Literal (supplied_name: jstr) jstr | Capture (supplied_name: jstr) jstr

definition INPUT_ERROR_CODES :: "jstr list" where
  "INPUT_ERROR_CODES = [js ''unknown-input'', js ''invalid-input'', js ''capture-unavailable'', js ''size-limit'']"

record input_error =
  err_name :: jstr
  err_code :: jstr

record readiness =
  rd_declarations :: "input_declaration list"
  rd_supplied :: "supplied_input list"
  rd_missing :: "jstr list"
  rd_errors :: "input_error list"

definition REQUEST_PHASES :: "jstr list" where
  "REQUEST_PHASES = [js ''draft'', js ''queued'', js ''preparing'', js ''review'', js ''start-pending'',
     js ''associated'', js ''withdrawn'', js ''refused'']"

definition ADMISSION_STATES :: "jstr list" where
  "ADMISSION_STATES = [js ''not-queued'', js ''waiting'', js ''reserved'', js ''released'', js ''refused'']"

definition ADMISSION_REASONS :: "jstr list" where
  "ADMISSION_REASONS = [js ''missing-inputs'', js ''profile-busy'', js ''workspace-busy'', js ''target-busy'',
     js ''store-busy'', js ''capacity'', js ''quarantined'', js ''storage-quota'']"

definition LINEAGE_OPERATIONS :: "jstr list" where
  "LINEAGE_OPERATIONS = [js ''restart'', js ''resume'', js ''fork'']"

record admission =
  adm_state :: jstr
  adm_position :: "int option"
  adm_reasons :: "jstr list"

record draft_view =
  dv_id :: jstr
  dv_revision :: jstr
  dv_workflowId :: jstr
  dv_descriptorRevision :: jstr
  dv_profileId :: jstr
  dv_profileRevision :: jstr
  dv_phase :: jstr
  dv_readiness :: readiness
  dv_admission :: admission
  dv_preparationId :: "jstr option"
  dv_runId :: "jstr option"
  dv_parentRunId :: "jstr option"
  dv_lineage :: "jstr option"

definition STRING_SCHEMA :: json_value where
  "STRING_SCHEMA = JObj [(js ''type'', JStr (js ''string''))]"

definition parseInputDeclaration :: "json_value \<Rightarrow> input_declaration option" where
  "parseInputDeclaration value = do {
     fs \<leftarrow> exact (Some value) [js ''name'', js ''source'', js ''description'', js ''required'', js ''schema''];
     name \<leftarrow> inputName (jsonMember fs (js ''name''));
     source \<leftarrow> oneOf (jsonMember fs (js ''source'')) INPUT_SOURCES;
     require (jsonMember fs (js ''description'') = Some JNull);
     require (jsonMember fs (js ''required'') = Some (JBool True));
     schema \<leftarrow> jsonMember fs (js ''schema'');
     require (jsonEqual schema STRING_SCHEMA);
     Some \<lparr>decl_name = name, decl_source = source\<rparr>
   }"

definition parseSuppliedInput :: "json_value \<Rightarrow> supplied_input option" where
  "parseSuppliedInput value = do {
     own \<leftarrow> (case value of JObj fs \<Rightarrow> Some fs | _ \<Rightarrow> None);
     name \<leftarrow> inputName (jsonMember own (js ''name''));
     (if textOf (jsonMember own (js ''source'')) = Some (js ''literal'') then do {
        fs \<leftarrow> exact (Some value) [js ''name'', js ''source'', js ''value''];
        literal \<leftarrow> boundedText (jsonMember fs (js ''value'')) 0 2097152;
        Some (Literal name literal)
      }
      else if textOf (jsonMember own (js ''source'')) = Some (js ''capture'') then do {
        fs \<leftarrow> exact (Some value) [js ''name'', js ''source'', js ''captureId''];
        captureId \<leftarrow> textOf (jsonMember fs (js ''captureId''));
        require (validId captureId);
        Some (Capture name captureId)
      }
      else None)
   }"

definition parseInputError :: "json_value \<Rightarrow> input_error option" where
  "parseInputError value = do {
     fs \<leftarrow> exact (Some value) [js ''name'', js ''code''];
     name \<leftarrow> inputName (jsonMember fs (js ''name''));
     code \<leftarrow> oneOf (jsonMember fs (js ''code'')) INPUT_ERROR_CODES;
     Some \<lparr>err_name = name, err_code = code\<rparr>
   }"

definition missing_names :: "input_declaration list \<Rightarrow> supplied_input list \<Rightarrow> jstr list" where
  "missing_names declarations supplied =
     filter (\<lambda>name. name \<notin> set (map supplied_name supplied)) (map decl_name declarations)"

definition parseReadiness :: "json_value option \<Rightarrow> readiness option" where
  "parseReadiness value = do {
     fs \<leftarrow> exact value [js ''declarations'', js ''supplied'', js ''missing'', js ''errors''];
     declarations \<leftarrow> listOf (jsonMember fs (js ''declarations'')) parseInputDeclaration None;
     supplied \<leftarrow> listOf (jsonMember fs (js ''supplied'')) parseSuppliedInput None;
     missing \<leftarrow> listOf (jsonMember fs (js ''missing'')) (\<lambda>v. textOf (Some v)) None;
     errors \<leftarrow> listOf (jsonMember fs (js ''errors'')) parseInputError None;
     let names = map decl_name declarations;
     let present = map supplied_name supplied;
     let expectedMissing = missing_names declarations supplied;
     require (length names \<le> 256 \<and> length present \<le> 256 \<and> length missing \<le> 256 \<and> length errors \<le> 256);
     require (unique names \<and> unique present \<and> list_all (\<lambda>name. name \<in> set names) present);
     require (missing = expectedMissing);
     Some \<lparr>rd_declarations = declarations, rd_supplied = supplied, rd_missing = missing, rd_errors = errors\<rparr>
   }"

definition identity_member :: "json_value \<Rightarrow> jstr option" where
  "identity_member value = (case value of JStr s \<Rightarrow> if validId s then Some s else None | _ \<Rightarrow> None)"

definition parseDraftView :: "json_value \<Rightarrow> draft_view option" where
  "parseDraftView value = do {
     fs \<leftarrow> exact (Some value) [js ''version'', js ''id'', js ''revision'', js ''workflowId'',
        js ''descriptorRevision'', js ''profileId'', js ''profileRevision'', js ''phase'', js ''readiness'',
        js ''admission'', js ''preparationId'', js ''runId'', js ''parentRunId'', js ''lineage'', js ''links''];
     require (versionOne fs);
     adm \<leftarrow> exact (jsonMember fs (js ''admission'')) [js ''state'', js ''position'', js ''reasons''];
     ident \<leftarrow> textOf (jsonMember fs (js ''id''));
     revision \<leftarrow> textOf (jsonMember fs (js ''revision''));
     workflowId \<leftarrow> textOf (jsonMember fs (js ''workflowId''));
     descriptorRevision \<leftarrow> textOf (jsonMember fs (js ''descriptorRevision''));
     profileId \<leftarrow> textOf (jsonMember fs (js ''profileId''));
     profileRevision \<leftarrow> textOf (jsonMember fs (js ''profileRevision''));
     require (list_all validId [ident, revision, workflowId, descriptorRevision, profileId, profileRevision]);
     phase \<leftarrow> oneOf (jsonMember fs (js ''phase'')) REQUEST_PHASES;
     ready \<leftarrow> parseReadiness (jsonMember fs (js ''readiness''));
     state \<leftarrow> oneOf (jsonMember adm (js ''state'')) ADMISSION_STATES;
     position \<leftarrow> nullable (jsonMember adm (js ''position'')) (\<lambda>v. intOf (Some v) 1 100);
     reasons \<leftarrow> listOf (jsonMember adm (js ''reasons'')) (\<lambda>v. oneOf (Some v) ADMISSION_REASONS) (Some 8);
     require (unique reasons);
     preparationId \<leftarrow> nullable (jsonMember fs (js ''preparationId'')) identity_member;
     runId \<leftarrow> nullable (jsonMember fs (js ''runId'')) identity_member;
     parentRunId \<leftarrow> nullable (jsonMember fs (js ''parentRunId'')) identity_member;
     lineage \<leftarrow> nullable (jsonMember fs (js ''lineage'')) (\<lambda>v. oneOf (Some v) LINEAGE_OPERATIONS);
     links \<leftarrow> jsonMember fs (js ''links'');
     require (jsonEqual links (JObj [(js ''self'', JStr (js ''/v1/requests/'' @ ident))]));
     Some \<lparr>dv_id = ident, dv_revision = revision, dv_workflowId = workflowId,
           dv_descriptorRevision = descriptorRevision, dv_profileId = profileId,
           dv_profileRevision = profileRevision, dv_phase = phase, dv_readiness = ready,
           dv_admission = \<lparr>adm_state = state, adm_position = position, adm_reasons = reasons\<rparr>,
           dv_preparationId = preparationId, dv_runId = runId, dv_parentRunId = parentRunId, dv_lineage = lineage\<rparr>
   }"

section \<open>Encoders\<close>

definition encodeInputDeclaration :: "input_declaration \<Rightarrow> json_value" where
  "encodeInputDeclaration d =
     JObj [(js ''name'', JStr (decl_name d)), (js ''source'', JStr (decl_source d)),
           (js ''description'', JNull), (js ''required'', JBool True), (js ''schema'', STRING_SCHEMA)]"

definition encodeSuppliedInput :: "supplied_input \<Rightarrow> json_value" where
  "encodeSuppliedInput s =
     (case s of
        Literal name v \<Rightarrow>
          JObj [(js ''name'', JStr name), (js ''source'', JStr (js ''literal'')), (js ''value'', JStr v)]
      | Capture name c \<Rightarrow>
          JObj [(js ''name'', JStr name), (js ''source'', JStr (js ''capture'')), (js ''captureId'', JStr c)])"

definition encodeInputError :: "input_error \<Rightarrow> json_value" where
  "encodeInputError e = JObj [(js ''name'', JStr (err_name e)), (js ''code'', JStr (err_code e))]"

definition encodeReadiness :: "readiness \<Rightarrow> json_value" where
  "encodeReadiness r =
     JObj [(js ''declarations'', JArr (map encodeInputDeclaration (rd_declarations r))),
           (js ''supplied'', JArr (map encodeSuppliedInput (rd_supplied r))),
           (js ''missing'', JArr (map JStr (rd_missing r))),
           (js ''errors'', JArr (map encodeInputError (rd_errors r)))]"

definition encodeDraftView :: "draft_view \<Rightarrow> json_value" where
  "encodeDraftView d =
     JObj [(js ''version'', JNum (js ''1'')), (js ''id'', JStr (dv_id d)), (js ''revision'', JStr (dv_revision d)),
           (js ''workflowId'', JStr (dv_workflowId d)), (js ''descriptorRevision'', JStr (dv_descriptorRevision d)),
           (js ''profileId'', JStr (dv_profileId d)), (js ''profileRevision'', JStr (dv_profileRevision d)),
           (js ''phase'', JStr (dv_phase d)), (js ''readiness'', encodeReadiness (dv_readiness d)),
           (js ''admission'',
              JObj [(js ''state'', JStr (adm_state (dv_admission d))),
                    (js ''position'', int_or_null (adm_position (dv_admission d))),
                    (js ''reasons'', JArr (map JStr (adm_reasons (dv_admission d))))]),
           (js ''preparationId'', text_or_null (dv_preparationId d)), (js ''runId'', text_or_null (dv_runId d)),
           (js ''parentRunId'', text_or_null (dv_parentRunId d)), (js ''lineage'', text_or_null (dv_lineage d)),
           (js ''links'', JObj [(js ''self'', JStr (js ''/v1/requests/'' @ dv_id d))])]"

section \<open>Captures\<close>

record capture_receipt =
  cr_id :: jstr
  cr_requestId :: jstr
  cr_profileId :: jstr
  cr_bytes :: int
  cr_sha256 :: jstr

definition CAPTURE_BYTES :: int where
  "CAPTURE_BYTES = 67108864"

definition parseCaptureReceipt :: "json_value \<Rightarrow> capture_receipt option" where
  "parseCaptureReceipt value = do {
     fs \<leftarrow> exact (Some value) [js ''version'', js ''id'', js ''requestId'', js ''profileId'', js ''bytes'', js ''sha256''];
     require (versionOne fs);
     ident \<leftarrow> textOf (jsonMember fs (js ''id''));
     requestId \<leftarrow> textOf (jsonMember fs (js ''requestId''));
     profileId \<leftarrow> textOf (jsonMember fs (js ''profileId''));
     sz \<leftarrow> textOf (jsonMember fs (js ''bytes''));
     bytes \<leftarrow> canonicalDecimal sz (Some 8) (Some CAPTURE_BYTES);
     sha256 \<leftarrow> textOf (jsonMember fs (js ''sha256''));
     require (validId ident \<and> validId requestId \<and> validId profileId \<and> validDigest sha256);
     Some \<lparr>cr_id = ident, cr_requestId = requestId, cr_profileId = profileId, cr_bytes = bytes, cr_sha256 = sha256\<rparr>
   }"

definition decodeInputDeclaration :: "json_value \<Rightarrow> input_declaration outcome" where
  "decodeInputDeclaration value = decided (parseInputDeclaration value)"

definition decodeSuppliedInput :: "json_value \<Rightarrow> supplied_input outcome" where
  "decodeSuppliedInput value = decided (parseSuppliedInput value)"

definition decodeInputError :: "json_value \<Rightarrow> input_error outcome" where
  "decodeInputError value = decided (parseInputError value)"

definition decodeReadiness :: "json_value \<Rightarrow> readiness outcome" where
  "decodeReadiness value = decided (parseReadiness (Some value))"

definition decodeDraftView :: "json_value \<Rightarrow> draft_view outcome" where
  "decodeDraftView value = decided (parseDraftView value)"

definition decodeCaptureReceipt :: "json_value \<Rightarrow> capture_receipt outcome" where
  "decodeCaptureReceipt value = decided (parseCaptureReceipt value)"

end
