(* ===== verification/Snapshot.thy ===== *)
theory Snapshot
  imports Complex_Main Drafts
begin

text \<open>
  The state of the run reducer (\<^verbatim>\<open>types.ts\<close> and \<^verbatim>\<open>reducer.ts\<close>): the snapshot of a run with its
  occurrences and attempts, the events it reads, and the readers of event fields. An event is a
  value of \<^verbatim>\<open>JSON.parse\<close>, so its numbers are JavaScript numbers. An error is the message of the
  \<^verbatim>\<open>Error\<close> thrown.
\<close>

section \<open>JavaScript numbers\<close>

text \<open>
  JavaScript numbers as far as the sources observe them: a finite value, exact, or one of the
  values that no integer test accepts. Rounding of double-precision results is not modelled; the
  sources compute with integers below \<^verbatim>\<open>2^53\<close>, which are exact, except where noted.
\<close>

datatype js_number = Finite rat | PosInfinity | NegInfinity | NotANumber

definition js_int :: "int \<Rightarrow> js_number" where
  "js_int i = Finite (of_int i)"

definition MAX_SAFE :: int where
  "MAX_SAFE = 9007199254740991"

text \<open>\<^verbatim>\<open>Number.isSafeInteger(x)\<close>, giving the integer.\<close>

definition safe_integer :: "js_number \<Rightarrow> int option" where
  "safe_integer x =
     (case x of
        Finite r \<Rightarrow> if r = of_int \<lfloor>r\<rfloor> \<and> \<bar>\<lfloor>r\<rfloor>\<bar> \<le> MAX_SAFE then Some \<lfloor>r\<rfloor> else None
      | _ \<Rightarrow> None)"

lemma safe_integer_Some: "safe_integer x = Some i \<longleftrightarrow> x = js_int i \<and> \<bar>i\<bar> \<le> MAX_SAFE"
  by (auto simp: safe_integer_def js_int_def split: js_number.splits)

lemma safe_integer_js_int [simp]: "safe_integer (js_int i) = (if \<bar>i\<bar> \<le> MAX_SAFE then Some i else None)"
  by (auto simp: safe_integer_def js_int_def)

lemma js_int_inject [simp]: "js_int i = js_int j \<longleftrightarrow> i = j"
  by (simp add: js_int_def)

section \<open>The state of a run\<close>

type_synonym js_value = "js_number json"
type_synonym js_members = "(jstr \<times> js_number json) list"
type_synonym 'a result = "jstr + 'a"

section \<open>Errors\<close>

definition thenE :: "'a result \<Rightarrow> ('a \<Rightarrow> 'b result) \<Rightarrow> 'b result" where
  "thenE m f = (case m of Inl e \<Rightarrow> Inl e | Inr x \<Rightarrow> f x)"

definition check :: "bool \<Rightarrow> jstr \<Rightarrow> unit result" where
  "check ok message = (if ok then Inr () else Inl message)"

lemma thenE_Inr: "thenE m f = Inr y \<longleftrightarrow> (\<exists>x. m = Inr x \<and> f x = Inr y)"
  by (auto simp: thenE_def split: sum.splits)

lemma thenE_elim: "thenE m f = Inr y \<Longrightarrow> (\<And>x. m = Inr x \<Longrightarrow> f x = Inr y \<Longrightarrow> P) \<Longrightarrow> P"
  by (auto simp: thenE_Inr)

lemma thenE_simps [simp]: "thenE (Inl e) f = Inl e" "thenE (Inr x) f = f x"
  by (simp_all add: thenE_def)

lemma check_Inr [simp]: "check ok m = Inr u \<longleftrightarrow> ok"
  by (simp add: check_def)

section \<open>Data\<close>

datatype attempt_state = AttemptRunning | AttemptCompleted | AttemptFailed

datatype occurrence_state =
  OccRunning | OccRecovering | OccReused | OccCompleted | OccFailed | OccCancelled

datatype run_status = Starting | Running | Cancelling | Succeeded | RunFailed | RunCancelled | Orphaned

record steer_record =
  sr_controlId :: jstr
  sr_timing :: jstr
  sr_text :: jstr

record public_tool =
  tp_id :: jstr
  tp_title :: "jstr option"
  tp_toolKind :: "jstr option"
  tp_status :: "jstr option"
  tp_summary :: "jstr option"

record todo_item =
  td_content :: jstr
  td_priority :: jstr
  td_status :: jstr

record usage =
  us_used :: jstr
  us_size :: jstr

record attempt_snapshot =
  at_id :: jstr
  at_target :: "jstr option"
  at_state :: attempt_state
  at_output :: jstr
  at_steers :: "steer_record list"
  at_messages :: "jstr list"
  at_tools :: "(jstr, public_tool) jsmap"
  at_todos :: "todo_item list"
  at_usage :: "usage option"
  at_reasoning :: "jstr list"
  at_failure :: "jstr option"
  at_failureClass :: "jstr option"

record question_ref =
  qr_version :: int
  qr_path :: jstr
  qr_sha256 :: jstr
  qr_bytes :: jstr

record result_ref =
  rr_ref :: question_ref
  rr_code :: js_value
  rr_preview :: jstr

record redirect =
  rd_controlId :: jstr
  rd_target :: jstr
  rd_stoppedAttempt :: "jstr option"

record dispatch =
  dp_targets :: "jstr list"
  dp_open :: bool
  dp_redirect :: "redirect option"

record recovery_choice =
  ch_choice :: jstr
  ch_target :: "jstr option"

record recovery =
  rec_gap :: jstr
  rec_message :: jstr
  rec_retries :: "jstr list"
  rec_choices :: "recovery_choice list"
  rec_chosen :: "(jstr \<times> recovery_choice) option"

record occurrence =
  oc_id :: jstr
  oc_state :: occurrence_state
  oc_code :: "jstr option"
  oc_intent :: "jstr option"
  oc_addressee :: "jstr option"
  oc_prompt :: "jstr option"
  oc_answer :: "jstr option"
  oc_dispatch :: "dispatch option"
  oc_recovery :: "recovery option"
  oc_reuseKind :: "jstr option"
  oc_source :: "jstr option"
  oc_failureClass :: "jstr option"
  oc_replayable :: bool
  oc_personQuestion :: "question_ref option"
  oc_personPending :: bool
  oc_attempts :: "(jstr, attempt_snapshot) jsmap"

record control_ack =
  ca_controlId :: jstr
  ca_state :: jstr
  ca_message :: jstr
  ca_command :: "jstr option"
  ca_occurrenceId :: "jstr option"
  ca_attemptId :: "jstr option"

record run_snapshot =
  rs_runId :: jstr
  rs_status :: run_status
  rs_protocolVersion :: "js_number option"
  rs_lastSequence :: "int option"
  rs_workflow :: "jstr option"
  rs_target :: "jstr option"
  rs_personAnswering :: "jstr option"
  rs_occurrences :: "(jstr, occurrence) jsmap"
  rs_authoredOrder :: "jstr list"
  rs_traceRecorded :: bool
  rs_eventDigests :: "(jstr, jstr) jsmap"
  rs_controlAcks :: "(jstr, control_ack) jsmap"
  rs_billFresh :: "jstr option"
  rs_billMemo :: "jstr option"
  rs_result :: "result_ref option"
  rs_failure :: "jstr option"
  rs_failureClass :: "jstr option"

record runtime_event =
  ev_protocolVersion :: js_number
  ev_runId :: jstr
  ev_sequence :: jstr
  ev_timestamp :: js_value
  ev_type :: jstr
  ev_fields :: js_members

text \<open>
  What the platform decides: the SHA-256 of the JSON text of an event, whether \<^verbatim>\<open>Date.parse\<close> gives
  a finite number, the Unicode classes L and N, and the text of a number in a message.
\<close>

record platform =
  event_digest :: "runtime_event \<Rightarrow> jstr"
  date_finite :: "jstr \<Rightarrow> bool"
  letter_or_number :: "nat \<Rightarrow> bool"
  number_text :: "js_number \<Rightarrow> jstr"

definition OUTPUT_TAIL :: nat where "OUTPUT_TAIL = 64 * 1024"
definition MAX_WORD64 :: int where "MAX_WORD64 = 2 ^ 64 - 1"
definition MAX_WORD32 :: int where "MAX_WORD32 = 2 ^ 32 - 1"
definition MAX_OCCURRENCES :: nat where "MAX_OCCURRENCES = 2048"
definition MAX_ATTEMPTS :: nat where "MAX_ATTEMPTS = 512"
definition MAX_STEERS :: nat where "MAX_STEERS = 256"
definition MAX_CONTROLS :: nat where "MAX_CONTROLS = 256"
definition MAX_OPTIONS :: nat where "MAX_OPTIONS = 64"
definition MAX_HISTORY :: nat where "MAX_HISTORY = 64"

definition initialSnapshot :: "jstr \<Rightarrow> run_snapshot" where
  "initialSnapshot runId =
     \<lparr>rs_runId = runId, rs_status = Starting, rs_protocolVersion = None, rs_lastSequence = None,
      rs_workflow = None, rs_target = None, rs_personAnswering = None, rs_occurrences = [],
      rs_authoredOrder = [], rs_traceRecorded = False, rs_eventDigests = [], rs_controlAcks = [],
      rs_billFresh = None, rs_billMemo = None, rs_result = None, rs_failure = None, rs_failureClass = None\<rparr>"

definition isTerminal :: "run_status \<Rightarrow> bool" where
  "isTerminal status \<longleftrightarrow> status = Succeeded \<or> status = RunFailed \<or> status = RunCancelled \<or> status = Orphaned"

fun state_name :: "occurrence_state \<Rightarrow> jstr" where
  "state_name OccRunning = js ''running''"
| "state_name OccRecovering = js ''recovering''"
| "state_name OccReused = js ''reused''"
| "state_name OccCompleted = js ''completed''"
| "state_name OccFailed = js ''failed''"
| "state_name OccCancelled = js ''cancelled''"

fun attempt_state_name :: "attempt_state \<Rightarrow> jstr" where
  "attempt_state_name AttemptRunning = js ''running''"
| "attempt_state_name AttemptCompleted = js ''completed''"
| "attempt_state_name AttemptFailed = js ''failed''"

fun status_name :: "run_status \<Rightarrow> jstr" where
  "status_name Starting = js ''starting''"
| "status_name Running = js ''running''"
| "status_name Cancelling = js ''cancelling''"
| "status_name Succeeded = js ''succeeded''"
| "status_name RunFailed = js ''failed''"
| "status_name RunCancelled = js ''cancelled''"
| "status_name Orphaned = js ''orphaned''"

section \<open>Readers of event fields\<close>

definition field :: "runtime_event \<Rightarrow> string \<Rightarrow> js_value option" where
  "field event name = map_of (ev_fields event) (js name)"

definition textE :: "js_value option \<Rightarrow> string \<Rightarrow> jstr result" where
  "textE value label =
     (case value of Some (JStr s) \<Rightarrow> Inr s | _ \<Rightarrow> Inl (js label @ js '' is not text''))"

definition decimalTextE :: "js_value option \<Rightarrow> string \<Rightarrow> int \<Rightarrow> jstr result" where
  "decimalTextE value label maximum =
     thenE (textE value label) (\<lambda>encoded.
     thenE (check (canonical_text encoded) (js label @ js '' is not an unsigned decimal string'')) (\<lambda>_.
     thenE (check (int (digits_val encoded) \<le> maximum) (js label @ js '' exceeds its unsigned range'')) (\<lambda>_.
       Inr encoded)))"

definition naturalText :: "js_value option \<Rightarrow> string \<Rightarrow> jstr result" where
  "naturalText value label =
     thenE (textE value label) (\<lambda>encoded.
     thenE (check (canonical_text encoded) (js label @ js '' is not an unsigned decimal string'')) (\<lambda>_.
       Inr encoded))"

definition integerNumberE :: "js_value option \<Rightarrow> string \<Rightarrow> int result" where
  "integerNumberE value label =
     (case value of
        Some (JNum n) \<Rightarrow>
          (case safe_integer n of Some i \<Rightarrow> Inr i | None \<Rightarrow> Inl (js label @ js '' is not a safe integer''))
      | _ \<Rightarrow> Inl (js label @ js '' is not a safe integer''))"

definition asRecord :: "js_value option \<Rightarrow> jstr \<Rightarrow> js_members result" where
  "asRecord value message = (case value of Some (JObj fs) \<Rightarrow> Inr fs | _ \<Rightarrow> Inl message)"

definition occurrenceId :: "runtime_event \<Rightarrow> jstr result" where
  "occurrenceId event = decimalTextE (field event ''occurrenceId'') ''occurrenceId'' MAX_WORD64"

definition attemptId :: "runtime_event \<Rightarrow> jstr result" where
  "attemptId event =
     thenE (occurrenceId event) (\<lambda>occ.
     thenE (decimalTextE (field event ''attempt'') ''attempt'' MAX_WORD32) (\<lambda>att.
       Inr (occ @ js '':'' @ att)))"

definition attemptReference :: "js_value option \<Rightarrow> jstr result" where
  "attemptReference value =
     thenE (asRecord value (js ''attemptId is not an object'')) (\<lambda>fs.
     thenE (decimalTextE (map_of fs (js ''occurrenceId'')) ''attempt occurrenceId'' MAX_WORD64) (\<lambda>occ.
     thenE (decimalTextE (map_of fs (js ''attemptNumber'')) ''attemptNumber'' MAX_WORD32) (\<lambda>att.
       Inr (occ @ js '':'' @ att))))"

text \<open>\<^verbatim>\<open>/^[\p{L}\p{N}...]+$/u\<close>: the code points of the two Unicode classes and the listed signs.\<close>

definition name_text :: "platform \<Rightarrow> string \<Rightarrow> jstr \<Rightarrow> bool" where
  "name_text env signs s \<longleftrightarrow>
     s \<noteq> [] \<and> list_all (\<lambda>p. letter_or_number env p \<or> p \<in> set (map of_char signs)) (code_points s)"

definition runtimeControlId :: "platform \<Rightarrow> runtime_event \<Rightarrow> jstr result" where
  "runtimeControlId env event =
     thenE (textE (field event ''controlId'') ''controlId'') (\<lambda>ident.
     thenE (check (length ident \<le> 128 \<and> name_text env ''._-'' ident) (js ''controlId is invalid'')) (\<lambda>_.
       Inr ident))"

definition runtimeFailureClass :: "js_value option \<Rightarrow> jstr result" where
  "runtimeFailureClass value =
     thenE (textE value ''failure'') (\<lambda>failure.
     thenE (check (failure \<in> {js ''setup'', js ''transport'', js ''decode'', js ''protocol'', js ''cancelled'', js ''runtime''})
              (js ''unknown failure class '' @ failure)) (\<lambda>_.
       Inr failure))"

definition controlCommand :: "js_value option \<Rightarrow> jstr result" where
  "controlCommand value =
     thenE (textE value ''command'') (\<lambda>command.
     thenE (check (command \<in> {js ''cancelRun'', js ''steerOccurrence'', js ''retryOccurrence'', js ''failoverOccurrence'',
                js ''abandonOccurrence'', js ''redirectOccurrence'', js ''answerPerson'', js ''invalid''})
              (js ''unknown runtime control command '' @ command)) (\<lambda>_.
       Inr command))"

section \<open>References\<close>

definition validateArtifactReference :: "jstr \<Rightarrow> jstr \<Rightarrow> unit result" where
  "validateArtifactReference sha256 bytes =
     thenE (check (sha256_text sha256) (js ''invalid artifact SHA-256'')) (\<lambda>_.
       check (0 < digits_val bytes \<and> digits_val bytes \<le> 67108864)
         (js ''artifact byte count is outside the supported bound''))"

definition question_path :: "jstr \<Rightarrow> bool" where
  "question_path path =
     (let n = take (length path - 22) (drop 17 path)
      in canonical_text n \<and> path = js ''person/questions/'' @ n @ js ''.json'')"

definition reference_fields :: "js_members \<Rightarrow> question_ref result" where
  "reference_fields fs =
     thenE (integerNumberE (map_of fs (js ''artifactVersion'')) ''artifactVersion'') (\<lambda>version.
     thenE (textE (map_of fs (js ''path'')) ''path'') (\<lambda>path.
     thenE (textE (map_of fs (js ''sha256'')) ''sha256'') (\<lambda>sha256.
     thenE (naturalText (map_of fs (js ''bytes'')) ''bytes'') (\<lambda>bytes.
       Inr \<lparr>qr_version = version, qr_path = path, qr_sha256 = sha256, qr_bytes = bytes\<rparr>))))"

definition questionRef :: "js_value option \<Rightarrow> question_ref result" where
  "questionRef value =
     thenE (asRecord value (js ''question reference is not an object'')) (\<lambda>fs.
     thenE (reference_fields fs) (\<lambda>ref.
     thenE (check (qr_version ref = 1 \<and> question_path (qr_path ref)) (js ''invalid question artifact reference'')) (\<lambda>_.
     thenE (validateArtifactReference (qr_sha256 ref) (qr_bytes ref)) (\<lambda>_.
       Inr ref))))"

definition resultRef :: "js_value option \<Rightarrow> result_ref result" where
  "resultRef value =
     thenE (asRecord value (js ''result reference is not an object'')) (\<lambda>fs.
       (case map_of fs (js ''code'') of
          None \<Rightarrow> Inl (js ''result reference code is missing'')
        | Some code \<Rightarrow>
            thenE (reference_fields fs) (\<lambda>ref.
            thenE (textE (map_of fs (js ''preview'')) ''preview'') (\<lambda>preview.
            thenE (check (qr_version ref = 1 \<and> qr_path ref = js ''result.json''
                      \<and> length (code_points preview) \<le> 500 \<and> 13 \<notin> set preview \<and> 10 \<notin> set preview)
                    (js ''invalid result artifact reference'')) (\<lambda>_.
            thenE (validateArtifactReference (qr_sha256 ref) (qr_bytes ref)) (\<lambda>_.
              Inr \<lparr>rr_ref = ref, rr_code = code, rr_preview = preview\<rparr>))))))"

section \<open>The tail of an output\<close>

text \<open>\<^verbatim>\<open>(byte & 0xc0) === 0x80\<close>, the test of a continuation byte.\<close>

definition tail :: "jstr \<Rightarrow> jstr" where
  "tail value =
     (let bytes = utf8_encode value in
      if length bytes \<le> OUTPUT_TAIL then value
      else utf8_to_string (dropWhile continuation (drop (length bytes - OUTPUT_TAIL) bytes)))"

end
