(* ===== verification/Reducer.thy ===== *)
theory Reducer
  imports Snapshot
begin

text \<open>
  The reducer of \<^verbatim>\<open>reducer.ts\<close>: one operation per event type of \<^verbatim>\<open>apply\<close>, the public progress of
  an attempt, and \<^verbatim>\<open>reduceEvent\<close>. The source copies the snapshot before it applies an event, so
  an operation that throws leaves the current snapshot as it was; here it returns the message
  and no snapshot. Guards, readers and writes stand in the order of the source, because the
  first failing one decides the message.
\<close>

section \<open>Access\<close>

definition attemptCount :: "run_snapshot \<Rightarrow> nat" where
  "attemptCount s = (\<Sum>p\<leftarrow>rs_occurrences s. length (oc_attempts (snd p)))"

definition steersOf :: "occurrence \<Rightarrow> nat" where
  "steersOf occ = (\<Sum>p\<leftarrow>oc_attempts occ. length (at_steers (snd p)))"

definition steerCount :: "run_snapshot \<Rightarrow> nat" where
  "steerCount s = (\<Sum>p\<leftarrow>rs_occurrences s. steersOf (snd p))"

definition occurrenceOf :: "run_snapshot \<Rightarrow> runtime_event \<Rightarrow> (jstr \<times> occurrence) result" where
  "occurrenceOf s event =
     thenE (occurrenceId event) (\<lambda>ident.
       (case map_of (rs_occurrences s) ident of
          None \<Rightarrow> Inl (js ''unknown occurrence '' @ ident)
        | Some occ \<Rightarrow> Inr (ident, occ)))"

definition attemptOf :: "run_snapshot \<Rightarrow> runtime_event \<Rightarrow> ((jstr \<times> occurrence) \<times> jstr \<times> attempt_snapshot) result" where
  "attemptOf s event =
     thenE (occurrenceOf s event) (\<lambda>found.
     thenE (attemptId event) (\<lambda>ident.
       (case map_of (oc_attempts (snd found)) ident of
          None \<Rightarrow> Inl (js ''unknown attempt '' @ ident)
        | Some att \<Rightarrow> Inr (found, ident, att))))"

text \<open>The writes: an occurrence, or an attempt within its occurrence.\<close>

definition put_occurrence :: "jstr \<Rightarrow> occurrence \<Rightarrow> run_snapshot \<Rightarrow> run_snapshot" where
  "put_occurrence ident occ s = s\<lparr>rs_occurrences := map_set ident occ (rs_occurrences s)\<rparr>"

definition put_attempt :: "jstr \<times> occurrence \<Rightarrow> jstr \<Rightarrow> attempt_snapshot \<Rightarrow> run_snapshot \<Rightarrow> run_snapshot" where
  "put_attempt found ident att s =
     put_occurrence (fst found) ((snd found)\<lparr>oc_attempts := map_set ident att (oc_attempts (snd found))\<rparr>) s"

definition requireAttemptRunning :: "attempt_snapshot \<Rightarrow> string \<Rightarrow> unit result" where
  "requireAttemptRunning att operation =
     check (at_state att = AttemptRunning)
       (js ''attempt '' @ at_id att @ js '' cannot accept '' @ js operation @ js '' while '' @ attempt_state_name (at_state att))"

definition anyAttemptRunning :: "occurrence \<Rightarrow> bool" where
  "anyAttemptRunning occ \<longleftrightarrow> list_ex (\<lambda>p. at_state (snd p) = AttemptRunning) (oc_attempts occ)"

definition closeDispatch :: "occurrence \<Rightarrow> occurrence" where
  "closeDispatch occ =
     (case oc_dispatch occ of None \<Rightarrow> occ | Some d \<Rightarrow> occ\<lparr>oc_dispatch := Some (d\<lparr>dp_open := False\<rparr>)\<rparr>)"

text \<open>\<^verbatim>\<open>Array.isArray(value)\<close>, giving the items.\<close>

definition js_array :: "js_value option \<Rightarrow> js_value list option" where
  "js_array value = (case value of Some (JArr vs) \<Rightarrow> Some vs | _ \<Rightarrow> None)"

text \<open>\<^verbatim>\<open>Array.isArray(value) && value.every((item) => typeof item === "string")\<close>.\<close>

definition string_array :: "js_value option \<Rightarrow> jstr list option" where
  "string_array value =
     (case js_array value of
        None \<Rightarrow> None
      | Some vs \<Rightarrow> all_some (map (\<lambda>v. case v of JStr s \<Rightarrow> Some s | _ \<Rightarrow> None) vs))"

text \<open>\<^verbatim>\<open>typeof value === "string" ? value : undefined\<close>.\<close>

definition optional_string :: "js_value option \<Rightarrow> jstr option" where
  "optional_string value = (case value of Some (JStr s) \<Rightarrow> Some s | _ \<Rightarrow> None)"

text \<open>A JavaScript \<^verbatim>\<open>map\<close> whose function may throw.\<close>

fun mapE :: "('a \<Rightarrow> 'b result) \<Rightarrow> 'a list \<Rightarrow> 'b list result" where
  "mapE f [] = Inr []"
| "mapE f (x # xs) = thenE (f x) (\<lambda>y. thenE (mapE f xs) (\<lambda>ys. Inr (y # ys)))"

lemma mapE_Inr: "mapE f xs = Inr ys \<longleftrightarrow> list_all2 (\<lambda>x y. f x = Inr y) xs ys"
proof (induction xs arbitrary: ys)
  case (Cons x xs)
  show ?case by (cases ys) (auto simp: thenE_Inr Cons.IH)
qed auto

section \<open>The start of a run and of an occurrence\<close>

definition run_started :: "run_snapshot \<Rightarrow> runtime_event \<Rightarrow> nat \<Rightarrow> run_snapshot result" where
  "run_started s event version =
     thenE (check (rs_status s = Starting \<or> rs_status s = Cancelling) (js ''run.started is not first'')) (\<lambda>_.
     thenE (textE (field event ''workflow'') ''workflow'') (\<lambda>workflow.
     thenE (textE (field event ''target'') ''target'') (\<lambda>target.
       let s' = s\<lparr>rs_status := (if rs_status s \<noteq> Cancelling then Running else rs_status s),
                  rs_workflow := Some workflow, rs_target := Some target\<rparr> in
       if version = 2 then
         thenE (textE (field event ''personAnswering'') ''personAnswering'') (\<lambda>answering.
         thenE (check (answering = js ''engine'' \<or> answering = js ''local-control'')
                  (js ''unknown person answering mode '' @ answering)) (\<lambda>_.
           Inr (s'\<lparr>rs_personAnswering := Some answering\<rparr>)))
       else Inr s')))"

definition occurrence_started :: "run_snapshot \<Rightarrow> runtime_event \<Rightarrow> run_snapshot result" where
  "occurrence_started s event =
     thenE (occurrenceId event) (\<lambda>ident.
     thenE (check (rs_status s = Running) (js ''occurrence started before run'')) (\<lambda>_.
     thenE (check (\<not> map_has (rs_occurrences s) ident) (js ''duplicate occurrence '' @ ident)) (\<lambda>_.
     thenE (check (length (rs_occurrences s) < MAX_OCCURRENCES) (js ''runtime snapshot exceeds 2048 occurrences'')) (\<lambda>_.
     thenE (textE (field event ''code'') ''code'') (\<lambda>code.
     thenE (textE (field event ''intent'') ''intent'') (\<lambda>intent.
     thenE (textE (field event ''addressee'') ''addressee'') (\<lambda>addressee.
     thenE (textE (field event ''prompt'') ''prompt'') (\<lambda>prompt.
       Inr (put_occurrence ident
         \<lparr>oc_id = ident, oc_state = OccRunning, oc_code = Some code, oc_intent = Some intent,
          oc_addressee = Some addressee, oc_prompt = Some prompt, oc_answer = None, oc_dispatch = None,
          oc_recovery = None, oc_reuseKind = None, oc_source = None, oc_failureClass = None,
          oc_replayable = True, oc_personQuestion = None, oc_personPending = False, oc_attempts = []\<rparr> s)))))))))"

section \<open>Attempts\<close>

definition attempt_started :: "run_snapshot \<Rightarrow> runtime_event \<Rightarrow> run_snapshot result" where
  "attempt_started s event =
     thenE (occurrenceOf s event) (\<lambda>(key, occ).
     thenE (attemptId event) (\<lambda>ident.
     thenE (check (oc_state occ = OccRunning)
       (js ''occurrence '' @ oc_id occ @ js '' cannot start an attempt while '' @ state_name (oc_state occ))) (\<lambda>_.
     thenE (check (\<not> map_has (oc_attempts occ) ident) (js ''duplicate attempt '' @ ident)) (\<lambda>_.
     thenE (check (attemptCount s < MAX_ATTEMPTS) (js ''runtime snapshot exceeds 512 attempts'')) (\<lambda>_.
     thenE (textE (field event ''target'') ''target'') (\<lambda>target.
       Inr (put_attempt (key, closeDispatch occ) ident
         \<lparr>at_id = ident, at_target = Some target, at_state = AttemptRunning, at_output = [], at_steers = [],
          at_messages = [], at_tools = [], at_todos = [], at_usage = None, at_reasoning = [],
          at_failure = None, at_failureClass = None\<rparr> s)))))))"

definition attempt_output :: "run_snapshot \<Rightarrow> runtime_event \<Rightarrow> run_snapshot result" where
  "attempt_output s event =
     thenE (attemptOf s event) (\<lambda>(found, ident, att).
     thenE (requireAttemptRunning att ''output'') (\<lambda>_.
     thenE (textE (field event ''chunk'') ''chunk'') (\<lambda>chunk.
       Inr (put_attempt found ident (att\<lparr>at_output := tail (at_output att @ chunk)\<rparr>) s))))"

definition attempt_steered :: "platform \<Rightarrow> run_snapshot \<Rightarrow> runtime_event \<Rightarrow> run_snapshot result" where
  "attempt_steered env s event =
     thenE (occurrenceOf s event) (\<lambda>_.
     thenE (attemptOf s event) (\<lambda>((key, occ), ident, att).
     thenE (requireAttemptRunning att ''steering'') (\<lambda>_.
     thenE (check (steerCount s < MAX_STEERS) (js ''runtime snapshot exceeds 256 steer records'')) (\<lambda>_.
     thenE (textE (field event ''timing'') ''timing'') (\<lambda>timing.
     thenE (check (timing = js ''interrupt-now'' \<or> timing = js ''next-boundary'')
              (js ''unknown steering timing '' @ timing)) (\<lambda>_.
     thenE (runtimeControlId env event) (\<lambda>controlId.
     thenE (textE (field event ''text'') ''text'') (\<lambda>content.
       Inr (put_attempt (key, occ\<lparr>oc_replayable := False\<rparr>) ident
         (att\<lparr>at_steers := at_steers att @ [\<lparr>sr_controlId = controlId, sr_timing = timing, sr_text = content\<rparr>]\<rparr>) s)))))))))"

definition attempt_completed :: "run_snapshot \<Rightarrow> runtime_event \<Rightarrow> run_snapshot result" where
  "attempt_completed s event =
     thenE (attemptOf s event) (\<lambda>(found, ident, att).
     thenE (requireAttemptRunning att ''completion'') (\<lambda>_.
       Inr (put_attempt found ident (att\<lparr>at_state := AttemptCompleted\<rparr>) s)))"

definition attempt_failed :: "run_snapshot \<Rightarrow> runtime_event \<Rightarrow> run_snapshot result" where
  "attempt_failed s event =
     thenE (attemptOf s event) (\<lambda>(found, ident, att).
     thenE (requireAttemptRunning att ''failure'') (\<lambda>_.
     thenE (textE (field event ''message'') ''message'') (\<lambda>message.
     thenE (runtimeFailureClass (field event ''failure'')) (\<lambda>failure.
       Inr (put_attempt found ident
         (att\<lparr>at_state := AttemptFailed, at_failure := Some message, at_failureClass := Some failure\<rparr>) s)))))"

section \<open>Public progress\<close>

definition boundedProgressText :: "js_value option \<Rightarrow> string \<Rightarrow> nat \<Rightarrow> jstr result" where
  "boundedProgressText value label maximum =
     thenE (textE value label) (\<lambda>result.
     thenE (check (result \<noteq> [] \<and> length (code_points result) \<le> maximum) (js label @ js '' is empty or too long'')) (\<lambda>_.
       Inr result))"

definition progressIdentifier :: "platform \<Rightarrow> js_value option \<Rightarrow> string \<Rightarrow> jstr result" where
  "progressIdentifier env value label =
     thenE (textE value label) (\<lambda>result.
     thenE (check (result \<noteq> [] \<and> length (code_points result) \<le> 128 \<and> name_text env ''._:-'' result)
              (js label @ js '' is invalid'')) (\<lambda>_.
       Inr result))"

definition optionalProgressText :: "js_value option \<Rightarrow> string \<Rightarrow> nat \<Rightarrow> jstr option result" where
  "optionalProgressText value label maximum =
     (case value of
        None \<Rightarrow> Inr None
      | Some v \<Rightarrow> thenE (boundedProgressText (Some v) label maximum) (\<lambda>result. Inr (Some result)))"

definition optionalToolStatus :: "js_value option \<Rightarrow> jstr option result" where
  "optionalToolStatus value =
     (case value of
        None \<Rightarrow> Inr None
      | Some v \<Rightarrow>
          thenE (textE (Some v) ''public tool status'') (\<lambda>status.
          thenE (check (status \<in> {js ''pending'', js ''in_progress'', js ''completed'', js ''failed'', js ''cancelled''})
                   (js ''unknown public tool status '' @ status)) (\<lambda>_.
            Inr (Some status))))"

definition todoItem :: "js_value \<Rightarrow> todo_item result" where
  "todoItem value =
     thenE (asRecord (Some value) (js ''public todo item is not an object'')) (\<lambda>fs.
     thenE (textE (map_of fs (js ''priority'')) ''public todo priority'') (\<lambda>priority.
     thenE (textE (map_of fs (js ''status'')) ''public todo status'') (\<lambda>status.
     thenE (check (priority \<in> {js ''high'', js ''medium'', js ''low''})
              (js ''unknown public todo priority '' @ priority)) (\<lambda>_.
     thenE (check (status \<in> {js ''pending'', js ''in_progress'', js ''completed''})
              (js ''unknown public todo status '' @ status)) (\<lambda>_.
     thenE (boundedProgressText (map_of fs (js ''content'')) ''public todo content'' 1024) (\<lambda>content.
       Inr \<lparr>td_content = content, td_priority = priority, td_status = status\<rparr>))))))"

text \<open>\<^verbatim>\<open>{ ...previous, ...update }\<close>: a field the update lacks keeps its previous value.\<close>

definition later :: "'a option \<Rightarrow> 'a option \<Rightarrow> 'a option" where
  "later previous update = (case update of None \<Rightarrow> previous | Some v \<Rightarrow> Some v)"

definition merge_tool :: "public_tool option \<Rightarrow> public_tool \<Rightarrow> public_tool" where
  "merge_tool previous update =
     (case previous of
        None \<Rightarrow> update
      | Some p \<Rightarrow>
          \<lparr>tp_id = tp_id update, tp_title = later (tp_title p) (tp_title update),
           tp_toolKind = later (tp_toolKind p) (tp_toolKind update),
           tp_status = later (tp_status p) (tp_status update),
           tp_summary = later (tp_summary p) (tp_summary update)\<rparr>)"

text \<open>\<^verbatim>\<open>push\<close> and then \<^verbatim>\<open>splice\<close> of the oldest entries beyond the maximum.\<close>

definition push_bounded :: "nat \<Rightarrow> 'a \<Rightarrow> 'a list \<Rightarrow> 'a list" where
  "push_bounded maximum x xs = (let ys = xs @ [x] in drop (length ys - maximum) ys)"

definition tool_progress :: "platform \<Rightarrow> attempt_snapshot \<Rightarrow> js_members \<Rightarrow> attempt_snapshot result" where
  "tool_progress env att fs =
     thenE (asRecord (map_of fs (js ''tool'')) (js ''public tool update is not an object'')) (\<lambda>tool.
     thenE (progressIdentifier env (map_of tool (js ''id'')) ''public tool id'') (\<lambda>identifier.
     thenE (check (map_has (at_tools att) identifier \<or> length (at_tools att) < 128)
              (js ''runtime snapshot exceeds 128 public tools in one attempt'')) (\<lambda>_.
     thenE (optionalProgressText (map_of tool (js ''title'')) ''public tool title'' 1024) (\<lambda>title.
     thenE (optionalProgressText (map_of tool (js ''toolKind'')) ''public tool kind'' 128) (\<lambda>toolKind.
     thenE (optionalToolStatus (map_of tool (js ''status''))) (\<lambda>status.
     thenE (optionalProgressText (map_of tool (js ''summary'')) ''public tool summary'' 4096) (\<lambda>summary.
       Inr (att\<lparr>at_tools := map_set identifier
         (merge_tool (map_of (at_tools att) identifier)
           \<lparr>tp_id = identifier, tp_title = title, tp_toolKind = toolKind, tp_status = status, tp_summary = summary\<rparr>)
         (at_tools att)\<rparr>))))))))"

definition todos_progress :: "attempt_snapshot \<Rightarrow> js_members \<Rightarrow> attempt_snapshot result" where
  "todos_progress att fs =
     (case js_array (map_of fs (js ''items'')) of
        None \<Rightarrow> Inl (js ''public todo snapshot is invalid'')
      | Some items \<Rightarrow>
          thenE (check (length items \<le> 128) (js ''public todo snapshot is invalid'')) (\<lambda>_.
          thenE (mapE todoItem items) (\<lambda>todos. Inr (att\<lparr>at_todos := todos\<rparr>))))"

definition usage_progress :: "attempt_snapshot \<Rightarrow> js_members \<Rightarrow> attempt_snapshot result" where
  "usage_progress att fs =
     thenE (asRecord (map_of fs (js ''usage'')) (js ''public usage is not an object'')) (\<lambda>us.
     thenE (naturalText (map_of us (js ''used'')) ''public usage used'') (\<lambda>used.
     thenE (naturalText (map_of us (js ''size'')) ''public usage size'') (\<lambda>size.
     thenE (check (0 < digits_val size \<and> digits_val used \<le> digits_val size)
              (js ''public usage is outside its context window'')) (\<lambda>_.
       Inr (att\<lparr>at_usage := Some \<lparr>us_used = used, us_size = size\<rparr>\<rparr>)))))"

definition applyProgress :: "platform \<Rightarrow> attempt_snapshot \<Rightarrow> js_value option \<Rightarrow> attempt_snapshot result" where
  "applyProgress env att value =
     thenE (asRecord value (js ''public progress is not an object'')) (\<lambda>fs.
     thenE (textE (map_of fs (js ''kind'')) ''public progress kind'') (\<lambda>kind.
       if kind = js ''message'' then
         thenE (boundedProgressText (map_of fs (js ''text'')) ''message'' 4096) (\<lambda>content.
           Inr (att\<lparr>at_messages := push_bounded 64 content (at_messages att)\<rparr>))
       else if kind = js ''reasoning-summary'' then
         thenE (boundedProgressText (map_of fs (js ''text'')) ''reasoning-summary'' 4096) (\<lambda>content.
           Inr (att\<lparr>at_reasoning := push_bounded 32 content (at_reasoning att)\<rparr>))
       else if kind = js ''tool'' then tool_progress env att fs
       else if kind = js ''todos'' then todos_progress att fs
       else if kind = js ''usage'' then usage_progress att fs
       else Inl (js ''unknown public progress kind '' @ kind)))"

definition attempt_progress :: "platform \<Rightarrow> run_snapshot \<Rightarrow> runtime_event \<Rightarrow> nat \<Rightarrow> run_snapshot result" where
  "attempt_progress env s event version =
     thenE (check (version = 2) (js ''attempt progress is unavailable in protocol version 1'')) (\<lambda>_.
     thenE (attemptOf s event) (\<lambda>(found, ident, att).
     thenE (requireAttemptRunning att ''progress'') (\<lambda>_.
     thenE (applyProgress env att (field event ''progress'')) (\<lambda>att'.
       Inr (put_attempt found ident att' s)))))"

section \<open>Recovery\<close>

definition recoveryChoice :: "js_value \<Rightarrow> recovery_choice result" where
  "recoveryChoice candidate =
     thenE (asRecord (Some candidate) (js ''recovery choice is invalid'')) (\<lambda>fs.
     thenE (textE (map_of fs (js ''choice'')) ''choice'') (\<lambda>choice.
       let target = optional_string (map_of fs (js ''target'')) in
       thenE (check (choice \<in> {js ''retry'', js ''failover'', js ''abandon''}) (js ''unknown recovery choice '' @ choice)) (\<lambda>_.
       thenE (check (choice = js ''failover'' \<or> target = None) (js ''only failover recovery may name a target'')) (\<lambda>_.
         Inr \<lparr>ch_choice = choice, ch_target = target\<rparr>))))"

definition recovery_pending :: "run_snapshot \<Rightarrow> runtime_event \<Rightarrow> run_snapshot result" where
  "recovery_pending s event =
     thenE (occurrenceOf s event) (\<lambda>(key, occ).
     thenE (check (oc_state occ = OccRunning)
       (js ''occurrence '' @ oc_id occ @ js '' cannot enter recovery while '' @ state_name (oc_state occ))) (\<lambda>_.
       (case js_array (field event ''choices'') of
          None \<Rightarrow> Inl (js ''recovery choices are missing'')
        | Some candidates \<Rightarrow>
            thenE (check (candidates \<noteq> []) (js ''recovery choices are missing'')) (\<lambda>_.
            thenE (check (length candidates \<le> MAX_OPTIONS) (js ''runtime snapshot recovery exceeds 64 choices'')) (\<lambda>_.
            thenE (mapE recoveryChoice candidates) (\<lambda>choices.
            thenE (check (distinct (map ch_choice choices)) (js ''recovery choices contain duplicates'')) (\<lambda>_.
            thenE (textE (field event ''gap'') ''gap'') (\<lambda>gap.
            thenE (textE (field event ''message'') ''message'') (\<lambda>message.
              Inr (put_occurrence key
                (occ\<lparr>oc_state := OccRecovering,
                     oc_recovery := Some \<lparr>rec_gap = gap, rec_message = message, rec_retries = [],
                                          rec_choices = choices, rec_chosen = None\<rparr>\<rparr>) s))))))))))"

definition recovery_chosen :: "platform \<Rightarrow> run_snapshot \<Rightarrow> runtime_event \<Rightarrow> run_snapshot result" where
  "recovery_chosen env s event =
     thenE (occurrenceOf s event) (\<lambda>(key, occ).
       (case oc_recovery occ of
          None \<Rightarrow> Inl (js ''occurrence '' @ oc_id occ @ js '' was not waiting for recovery choice'')
        | Some recovery \<Rightarrow>
            thenE (check (oc_state occ = OccRecovering)
              (js ''occurrence '' @ oc_id occ @ js '' was not waiting for recovery choice'')) (\<lambda>_.
            thenE (check (rec_chosen recovery = None)
              (js ''occurrence '' @ oc_id occ @ js '' already has a recovery choice'')) (\<lambda>_.
            thenE (textE (field event ''choice'') ''choice'') (\<lambda>choice.
              let chosen = \<lparr>ch_choice = choice, ch_target = optional_string (field event ''target'')\<rparr> in
              thenE (check (chosen \<in> set (rec_choices recovery)) (js ''recovery choice '' @ choice @ js '' was not offered'')) (\<lambda>_.
              thenE (runtimeControlId env event) (\<lambda>controlId.
                Inr (put_occurrence key
                  (occ\<lparr>oc_recovery := Some (recovery\<lparr>rec_chosen := Some (controlId, chosen)\<rparr>)\<rparr>) s))))))))"

definition occurrence_retried :: "platform \<Rightarrow> run_snapshot \<Rightarrow> runtime_event \<Rightarrow> run_snapshot result" where
  "occurrence_retried env s event =
     thenE (occurrenceOf s event) (\<lambda>(key, occ).
       let refusal = js ''occurrence '' @ oc_id occ @ js '' was not waiting for retry/failover recovery'' in
       (case oc_recovery occ of
          None \<Rightarrow> Inl refusal
        | Some recovery \<Rightarrow>
            thenE (check (oc_state occ = OccRecovering) refusal) (\<lambda>_.
              (case rec_chosen recovery of
                 None \<Rightarrow> Inl refusal
               | Some (_, chosen) \<Rightarrow>
                   thenE (check (ch_choice chosen \<noteq> js ''abandon'') refusal) (\<lambda>_.
                   thenE (check (length (rec_retries recovery) < MAX_HISTORY)
                            (js ''runtime snapshot recovery exceeds 64 retries'')) (\<lambda>_.
                   thenE (runtimeControlId env event) (\<lambda>controlId.
                     Inr (put_occurrence key
                       (occ\<lparr>oc_state := OccRunning,
                            oc_recovery := Some (recovery\<lparr>rec_retries := rec_retries recovery @ [controlId]\<rparr>)\<rparr>) s))))))))"

section \<open>Reuse, dispatch and questions\<close>

definition occurrence_reused :: "run_snapshot \<Rightarrow> runtime_event \<Rightarrow> run_snapshot result" where
  "occurrence_reused s event =
     thenE (occurrenceOf s event) (\<lambda>(key, occ).
     thenE (check (oc_state occ = OccRunning \<and> oc_attempts occ = [] \<and> \<not> oc_personPending occ)
       (js ''occurrence '' @ oc_id occ @ js '' cannot be reused while physically active'')) (\<lambda>_.
     thenE (textE (field event ''answerGroup'') ''answerGroup'') (\<lambda>group.
       Inr (put_occurrence key
         (closeDispatch (occ\<lparr>oc_state := OccReused, oc_reuseKind := Some group\<rparr>)) s))))"

definition dispatch_pending :: "run_snapshot \<Rightarrow> runtime_event \<Rightarrow> run_snapshot result" where
  "dispatch_pending s event =
     thenE (occurrenceOf s event) (\<lambda>(key, occ).
     thenE (check (oc_state occ = OccRunning \<and> oc_dispatch occ = None)
       (js ''occurrence '' @ oc_id occ @ js '' cannot open dispatch'')) (\<lambda>_.
       (case string_array (field event ''targets'') of
          None \<Rightarrow> Inl (js ''dispatch targets are invalid'')
        | Some targets \<Rightarrow>
            thenE (check (targets \<noteq> [] \<and> distinct targets) (js ''dispatch targets are invalid'')) (\<lambda>_.
            thenE (check (length targets \<le> MAX_OPTIONS) (js ''runtime snapshot dispatch exceeds 64 targets'')) (\<lambda>_.
              Inr (put_occurrence key
                (occ\<lparr>oc_dispatch := Some \<lparr>dp_targets = targets, dp_open = True, dp_redirect = None\<rparr>\<rparr>) s))))))"

definition runningAttempt :: "occurrence \<Rightarrow> attempt_snapshot option" where
  "runningAttempt occ = List.find (\<lambda>att. at_state att = AttemptRunning) (map snd (oc_attempts occ))"

text \<open>
  A redirect in the dispatch window closes the window. A later one re-routes the attempt in
  flight, and is admitted for a target of the dispatch, or for any target without one.
\<close>

definition occurrence_redirected :: "platform \<Rightarrow> run_snapshot \<Rightarrow> runtime_event \<Rightarrow> run_snapshot result" where
  "occurrence_redirected env s event =
     thenE (occurrenceOf s event) (\<lambda>(key, occ).
     thenE (textE (field event ''target'') ''target'') (\<lambda>target.
     thenE (runtimeControlId env event) (\<lambda>controlId.
       let refusal = Inl (js ''redirect target '' @ target
             @ js '' was not reserved in an open dispatch or for an in-flight attempt'') in
       (case (oc_dispatch occ, runningAttempt occ) of
          (Some d, running) \<Rightarrow>
            if dp_open d \<and> target \<in> set (dp_targets d) then
              Inr (put_occurrence key (occ\<lparr>oc_dispatch := Some (d\<lparr>dp_open := False,
                dp_redirect := Some \<lparr>rd_controlId = controlId, rd_target = target, rd_stoppedAttempt = None\<rparr>\<rparr>)\<rparr>) s)
            else
              (case running of
                 Some att \<Rightarrow>
                   if target \<in> set (dp_targets d) then
                     Inr (put_occurrence key (occ\<lparr>oc_dispatch := Some \<lparr>dp_targets = dp_targets d, dp_open = False,
                       dp_redirect = Some \<lparr>rd_controlId = controlId, rd_target = target, rd_stoppedAttempt = Some (at_id att)\<rparr>\<rparr>\<rparr>) s)
                   else refusal
               | None \<Rightarrow> refusal)
        | (None, Some att) \<Rightarrow>
            Inr (put_occurrence key (occ\<lparr>oc_dispatch := Some \<lparr>dp_targets = [target], dp_open = False,
              dp_redirect = Some \<lparr>rd_controlId = controlId, rd_target = target, rd_stoppedAttempt = Some (at_id att)\<rparr>\<rparr>\<rparr>) s)
        | (None, None) \<Rightarrow> refusal))))"

definition person_answer_pending :: "run_snapshot \<Rightarrow> runtime_event \<Rightarrow> nat \<Rightarrow> run_snapshot result" where
  "person_answer_pending s event version =
     thenE (check (version = 2) (js ''person answer event is unavailable in protocol version 1'')) (\<lambda>_.
     thenE (occurrenceOf s event) (\<lambda>(key, occ).
     thenE (check (oc_state occ = OccRunning
              \<and> (case oc_addressee occ of None \<Rightarrow> False | Some a \<Rightarrow> starts_with a (js ''person ''))
              \<and> oc_attempts occ = [] \<and> \<not> oc_personPending occ \<and> oc_personQuestion occ = None)
       (js ''occurrence '' @ oc_id occ @ js '' cannot wait for a person answer'')) (\<lambda>_.
     thenE (questionRef (field event ''question'')) (\<lambda>question.
       Inr (put_occurrence key (occ\<lparr>oc_personQuestion := Some question, oc_personPending := True\<rparr>) s)))))"

section \<open>The end of an occurrence\<close>

definition occurrence_completed :: "run_snapshot \<Rightarrow> runtime_event \<Rightarrow> run_snapshot result" where
  "occurrence_completed s event =
     thenE (occurrenceOf s event) (\<lambda>(key, occ).
     thenE (check (oc_state occ = OccRunning \<or> oc_state occ = OccReused)
       (js ''occurrence '' @ oc_id occ @ js '' cannot complete while '' @ state_name (oc_state occ))) (\<lambda>_.
     thenE (check (\<not> oc_personPending occ)
       (js ''occurrence '' @ oc_id occ @ js '' completed while waiting for a person answer'')) (\<lambda>_.
     thenE (check (\<not> anyAttemptRunning occ)
       (js ''occurrence '' @ oc_id occ @ js '' completed with an active attempt'')) (\<lambda>_.
     thenE (textE (field event ''source'') ''source'') (\<lambda>source.
     thenE (textE (field event ''answer'') ''answer'') (\<lambda>answer.
       Inr (put_occurrence key
         (occ\<lparr>oc_state := (if oc_state occ = OccReused then OccReused else OccCompleted),
              oc_source := Some source, oc_answer := Some answer\<rparr>) s)))))))"

definition occurrence_failed :: "run_snapshot \<Rightarrow> runtime_event \<Rightarrow> run_snapshot result" where
  "occurrence_failed s event =
     thenE (occurrenceOf s event) (\<lambda>(key, occ).
     thenE (check (\<not> (oc_state occ = OccCompleted \<or> oc_state occ = OccReused \<or> oc_state occ = OccFailed \<or> oc_state occ = OccCancelled))
       (js ''occurrence '' @ oc_id occ @ js '' failed after terminal state'')) (\<lambda>_.
     thenE (check (\<not> anyAttemptRunning occ)
       (js ''occurrence '' @ oc_id occ @ js '' failed with an active attempt'')) (\<lambda>_.
     thenE (textE (field event ''message'') ''message'') (\<lambda>message.
     thenE (runtimeFailureClass (field event ''failure'')) (\<lambda>failure.
       Inr (put_occurrence key
         (occ\<lparr>oc_state := OccFailed, oc_answer := Some message, oc_failureClass := Some failure\<rparr>) s))))))"

section \<open>The trace and the acknowledgements\<close>

definition settled :: "occurrence \<Rightarrow> bool" where
  "settled occ \<longleftrightarrow> oc_state occ = OccCompleted \<or> oc_state occ = OccReused"

definition allSettled :: "run_snapshot \<Rightarrow> bool" where
  "allSettled s \<longleftrightarrow> list_all (\<lambda>p. settled (snd p)) (rs_occurrences s)"

definition trace_ordered :: "run_snapshot \<Rightarrow> runtime_event \<Rightarrow> run_snapshot result" where
  "trace_ordered s event =
     thenE (check (\<not> rs_traceRecorded s) (js ''trace.ordered was emitted more than once'')) (\<lambda>_.
       (case string_array (field event ''occurrenceIds'') of
          None \<Rightarrow> Inl (js ''trace.ordered occurrenceIds are invalid or unknown'')
        | Some ids \<Rightarrow>
            thenE (check (distinct ids \<and> list_all (map_has (rs_occurrences s)) ids)
              (js ''trace.ordered occurrenceIds are invalid or unknown'')) (\<lambda>_.
            thenE (check (length ids = length (rs_occurrences s) \<and> allSettled s)
              (js ''trace.ordered was emitted before all occurrences completed'')) (\<lambda>_.
              Inr (s\<lparr>rs_authoredOrder := ids, rs_traceRecorded := True\<rparr>)))))"

definition ACK_STATES :: "jstr set" where
  "ACK_STATES = {js ''accepted'', js ''queued'', js ''delivered'', js ''rejected-stale'', js ''unsupported'', js ''failed''}"

text \<open>An acknowledgement that is not the last word of its control.\<close>

definition provisional :: "jstr \<Rightarrow> bool" where
  "provisional state \<longleftrightarrow> state = js ''accepted'' \<or> state = js ''queued''"

text \<open>A field of a version-2 acknowledgement that may be absent or null.\<close>

definition optionalE :: "js_value option \<Rightarrow> (js_value option \<Rightarrow> 'a result) \<Rightarrow> 'a option result" where
  "optionalE value read =
     (if value = None \<or> value = Some JNull then Inr None else thenE (read value) (\<lambda>x. Inr (Some x)))"

text \<open>The effect of an acknowledgement of \<^verbatim>\<open>answerPerson\<close> on the occurrence it names.\<close>

definition acknowledge_person :: "run_snapshot \<Rightarrow> control_ack option \<Rightarrow> control_ack \<Rightarrow> run_snapshot result" where
  "acknowledge_person s prior ack =
     (if ca_command ack = Some (js ''answerPerson'') then
        thenE (check (\<not> (ca_state ack = js ''delivered'' \<or> ca_state ack = js ''failed'')
                \<or> (case prior of None \<Rightarrow> False | Some p \<Rightarrow> ca_state p = js ''accepted''))
           (js ''person answer terminal acknowledgement was not preceded by acceptance'')) (\<lambda>_.
          (case ca_occurrenceId ack of
             None \<Rightarrow> Inl (js ''person answer acknowledgement has no occurrence id'')
           | Some ident \<Rightarrow>
               thenE (check (ca_attemptId ack = None) (js ''person answer acknowledgement has an attempt id'')) (\<lambda>_.
               let refusal = js ''occurrence '' @ ident @ js '' is not waiting for a person answer'' in
                 (case map_of (rs_occurrences s) ident of
                    None \<Rightarrow> Inl refusal
                  | Some occ \<Rightarrow>
                      thenE (check (oc_personPending occ) refusal) (\<lambda>_.
                        Inr (if ca_state ack = js ''delivered''
                             then put_occurrence ident (occ\<lparr>oc_personPending := False\<rparr>) s else s))))))
      else Inr s)"

definition control_ack_event :: "platform \<Rightarrow> run_snapshot \<Rightarrow> runtime_event \<Rightarrow> nat \<Rightarrow> run_snapshot result" where
  "control_ack_event env s event version =
     thenE (check (rs_status s = Running \<or> rs_status s = Cancelling)
       (js ''control acknowledged while run is '' @ status_name (rs_status s))) (\<lambda>_.
     thenE (runtimeControlId env event) (\<lambda>controlId.
     thenE (textE (field event ''state'') ''state'') (\<lambda>state.
     thenE (check (state \<in> ACK_STATES) (js ''unknown control state '' @ state)) (\<lambda>_.
     thenE (if version = 2 then thenE (controlCommand (field event ''command'')) (\<lambda>c. Inr (Some c)) else Inr None) (\<lambda>command.
     thenE (if version = 2
            then optionalE (field event ''occurrenceId'') (\<lambda>v. decimalTextE v ''occurrenceId'' MAX_WORD64)
            else Inr None) (\<lambda>ident.
     thenE (if version = 2 then optionalE (field event ''attemptId'') attemptReference else Inr None) (\<lambda>attempt.
     thenE (textE (field event ''message'') ''message'') (\<lambda>message.
       let prior = map_of (rs_controlAcks s) controlId;
           next = \<lparr>ca_controlId = controlId, ca_state = state, ca_message = message, ca_command = command,
                   ca_occurrenceId = ident, ca_attemptId = attempt\<rparr> in
       if prior = Some next then Inr s
       else
         thenE (check (prior \<noteq> None \<or> length (rs_controlAcks s) < MAX_CONTROLS)
           (js ''runtime snapshot exceeds 256 control acknowledgements'')) (\<lambda>_.
         thenE (check (case prior of None \<Rightarrow> True
                       | Some p \<Rightarrow> ca_command p = command \<and> ca_occurrenceId p = ident \<and> ca_attemptId p = attempt)
           (js ''control acknowledgement correlation mismatch: command or target identity changed'')) (\<lambda>_.
         thenE (case prior of None \<Rightarrow> Inr ()
                | Some p \<Rightarrow> check (provisional (ca_state p) \<and> \<not> provisional state)
                    (js ''invalid acknowledgement transition '' @ ca_state p @ js '' -> '' @ state)) (\<lambda>_.
         thenE (acknowledge_person s prior next) (\<lambda>s'.
           Inr (s'\<lparr>rs_controlAcks := map_set controlId next (rs_controlAcks s')\<rparr>)))))))))))))"

section \<open>The end of a run\<close>

definition run_completed :: "run_snapshot \<Rightarrow> runtime_event \<Rightarrow> nat \<Rightarrow> run_snapshot result" where
  "run_completed s event version =
     thenE (check (rs_status s = Running \<and> rs_traceRecorded s \<and> length (rs_authoredOrder s) = length (rs_occurrences s)
                   \<and> allSettled s)
       (js ''run completed before authored trace/occurrences completed'')) (\<lambda>_.
     thenE (naturalText (field event ''billFresh'') ''billFresh'') (\<lambda>fresh.
     thenE (naturalText (field event ''billMemo'') ''billMemo'') (\<lambda>memo.
       let s' = s\<lparr>rs_status := Succeeded, rs_billFresh := Some fresh, rs_billMemo := Some memo\<rparr> in
       if version = 2 then thenE (resultRef (field event ''result'')) (\<lambda>result. Inr (s'\<lparr>rs_result := Some result\<rparr>))
       else Inr s')))"

definition run_failed :: "run_snapshot \<Rightarrow> runtime_event \<Rightarrow> run_snapshot result" where
  "run_failed s event =
     thenE (check (rs_status s = Running \<or> rs_status s = Cancelling) (js ''run failed while '' @ status_name (rs_status s))) (\<lambda>_.
     thenE (textE (field event ''message'') ''message'') (\<lambda>message.
     thenE (runtimeFailureClass (field event ''failure'')) (\<lambda>failure.
       Inr (s\<lparr>rs_status := RunFailed, rs_failure := Some message, rs_failureClass := Some failure\<rparr>))))"

definition run_cancelled :: "run_snapshot \<Rightarrow> runtime_event \<Rightarrow> run_snapshot result" where
  "run_cancelled s event =
     thenE (check (rs_status s = Running \<or> rs_status s = Cancelling) (js ''run cancelled while '' @ status_name (rs_status s))) (\<lambda>_.
     thenE (textE (field event ''message'') ''message'') (\<lambda>message.
       Inr (s\<lparr>rs_status := RunCancelled, rs_failure := Some message, rs_failureClass := Some (js ''cancelled'')\<rparr>)))"

section \<open>The reducer\<close>

definition apply_event :: "platform \<Rightarrow> run_snapshot \<Rightarrow> runtime_event \<Rightarrow> nat \<Rightarrow> run_snapshot result" where
  "apply_event env s event version =
     (let type = ev_type event in
      if type = js ''run.started'' then run_started s event version
      else if type = js ''occurrence.started'' then occurrence_started s event
      else if type = js ''attempt.started'' then attempt_started s event
      else if type = js ''attempt.output'' then attempt_output s event
      else if type = js ''attempt.progress'' then attempt_progress env s event version
      else if type = js ''attempt.steered'' then attempt_steered env s event
      else if type = js ''attempt.completed'' then attempt_completed s event
      else if type = js ''attempt.failed'' then attempt_failed s event
      else if type = js ''occurrence.recovery-chosen'' then recovery_chosen env s event
      else if type = js ''occurrence.reused'' then occurrence_reused s event
      else if type = js ''occurrence.recovery-pending'' then recovery_pending s event
      else if type = js ''occurrence.retried'' then occurrence_retried env s event
      else if type = js ''occurrence.dispatch-pending'' then dispatch_pending s event
      else if type = js ''occurrence.redirected'' then occurrence_redirected env s event
      else if type = js ''occurrence.person-answer-pending'' then person_answer_pending s event version
      else if type = js ''occurrence.completed'' then occurrence_completed s event
      else if type = js ''occurrence.failed'' then occurrence_failed s event
      else if type = js ''trace.ordered'' then trace_ordered s event
      else if type = js ''control.ack'' then control_ack_event env s event version
      else if type = js ''run.completed'' then run_completed s event version
      else if type = js ''run.failed'' then run_failed s event
      else if type = js ''run.cancelled'' then run_cancelled s event
      else Inl (js ''unknown runtime event '' @ type))"

text \<open>\<^verbatim>\<open>/^\d{4}-\d{2}-\d{2}T\d{2}:\d{2}:\d{2}(?:\.\d+)?Z$/\<close>.\<close>

definition utc_text :: "jstr \<Rightarrow> bool" where
  "utc_text s \<longleftrightarrow>
     20 \<le> length s
     \<and> list_all (\<lambda>i. is_digit (s ! i)) [0, 1, 2, 3, 5, 6, 8, 9, 11, 12, 14, 15, 17, 18]
     \<and> s ! 4 = 45 \<and> s ! 7 = 45 \<and> s ! 10 = 84 \<and> s ! 13 = 58 \<and> s ! 16 = 58
     \<and> (let rest = drop 19 s in
          rest = [90] \<or> (3 \<le> length rest \<and> hd rest = 46 \<and> last rest = 90
                        \<and> list_all is_digit (butlast (tl rest))))"

definition protocol_version :: "js_number \<Rightarrow> nat option" where
  "protocol_version v = (if v = js_int 1 then Some 1 else if v = js_int 2 then Some 2 else None)"

definition expectedSequence :: "run_snapshot \<Rightarrow> int" where
  "expectedSequence s = (case rs_lastSequence s of None \<Rightarrow> 0 | Some n \<Rightarrow> n + 1)"

text \<open>The checks of the envelope that come before the copy of the snapshot.\<close>

definition admit :: "platform \<Rightarrow> run_snapshot \<Rightarrow> runtime_event \<Rightarrow> (nat \<times> int \<times> jstr) result" where
  "admit env s event =
     (case protocol_version (ev_protocolVersion event) of
        None \<Rightarrow> Inl (js ''unsupported protocol version '' @ number_text env (ev_protocolVersion event))
      | Some version \<Rightarrow>
          thenE (check (rs_protocolVersion s = None \<or> rs_protocolVersion s = Some (ev_protocolVersion event))
            (js ''protocol version changed within one run'')) (\<lambda>_.
          thenE (check (ev_runId event = rs_runId s)
            (js ''run id changed from '' @ rs_runId s @ js '' to '' @ ev_runId event)) (\<lambda>_.
          thenE (check (case ev_timestamp event of JStr t \<Rightarrow> utc_text t \<and> date_finite env t | _ \<Rightarrow> False)
            (js ''timestamp is not canonical UTC ISO-8601'')) (\<lambda>_.
          thenE (check (canonical_text (ev_sequence event)) (js ''sequence is not an unsigned decimal string'')) (\<lambda>_.
          let digest = event_digest env event in
          thenE (case map_of (rs_eventDigests s) (ev_sequence event) of
                   None \<Rightarrow> Inr ()
                 | Some prior \<Rightarrow> Inl (if prior = digest then js ''duplicate sequence '' @ ev_sequence event
                                      else js ''conflicting duplicate sequence '' @ ev_sequence event)) (\<lambda>_.
          let sequence = int (digits_val (ev_sequence event)) in
          thenE (check (sequence \<le> MAX_WORD64) (js ''sequence exceeds unsigned 64-bit range'')) (\<lambda>_.
          thenE (check (sequence = expectedSequence s)
            (js ''sequence gap: expected '' @ int_text (expectedSequence s) @ js '', got '' @ int_text sequence)) (\<lambda>_.
          thenE (check (\<not> isTerminal (rs_status s)) (js ''post-terminal event '' @ ev_type event)) (\<lambda>_.
            Inr (version, sequence, digest))))))))))"

definition reduceEvent :: "platform \<Rightarrow> run_snapshot \<Rightarrow> runtime_event \<Rightarrow> run_snapshot result" where
  "reduceEvent env s event =
     thenE (admit env s event) (\<lambda>(version, sequence, digest).
       apply_event env
         (s\<lparr>rs_protocolVersion := Some (ev_protocolVersion event), rs_lastSequence := Some sequence,
            rs_eventDigests := [(ev_sequence event, digest)]\<rparr>)
         event version)"

text \<open>The snapshot of a journal: the fold of its events, as the supervisor and its recovery do it.\<close>

fun replay :: "platform \<Rightarrow> run_snapshot \<Rightarrow> runtime_event list \<Rightarrow> run_snapshot result" where
  "replay env s [] = Inr s"
| "replay env s (e # es) = thenE (reduceEvent env s e) (\<lambda>s'. replay env s' es)"

end
