(* ===== verification/Lifecycle.thy ===== *)
theory Lifecycle
  imports Reducer
begin

text \<open>
  The abstract machine of a run, which the reducer refines: the steps of an attempt, of an
  occurrence and of a snapshot, each with the guard that its event needs. The invariants of the
  reducer are proved once over these steps.
\<close>

section \<open>Attempts\<close>

inductive att_step :: "attempt_snapshot \<Rightarrow> attempt_snapshot \<Rightarrow> bool" where
  att_output: "at_state a = AttemptRunning \<Longrightarrow> att_step a (a\<lparr>at_output := tail (at_output a @ chunk)\<rparr>)"
| att_progress: "at_state a = AttemptRunning \<Longrightarrow> applyProgress env a v = Inr a' \<Longrightarrow> att_step a a'"
| att_complete: "at_state a = AttemptRunning \<Longrightarrow> att_step a (a\<lparr>at_state := AttemptCompleted\<rparr>)"
| att_fail: "at_state a = AttemptRunning \<Longrightarrow>
    att_step a (a\<lparr>at_state := AttemptFailed, at_failure := Some m, at_failureClass := Some c\<rparr>)"

definition newAttempt :: "jstr \<Rightarrow> jstr \<Rightarrow> attempt_snapshot" where
  "newAttempt ident target =
     \<lparr>at_id = ident, at_target = Some target, at_state = AttemptRunning, at_output = [], at_steers = [],
      at_messages = [], at_tools = [], at_todos = [], at_usage = None, at_reasoning = [],
      at_failure = None, at_failureClass = None\<rparr>"

section \<open>Occurrences\<close>

inductive occ_step :: "occurrence \<Rightarrow> occurrence \<Rightarrow> bool" where
  occ_reuse: "oc_state x = OccRunning \<Longrightarrow> oc_attempts x = [] \<Longrightarrow> \<not> oc_personPending x \<Longrightarrow>
    occ_step x (closeDispatch (x\<lparr>oc_state := OccReused, oc_reuseKind := Some g\<rparr>))"
| occ_recover: "oc_state x = OccRunning \<Longrightarrow> choices \<noteq> [] \<Longrightarrow> length choices \<le> MAX_OPTIONS \<Longrightarrow>
    distinct (map ch_choice choices) \<Longrightarrow>
    (\<And>c. c \<in> set choices \<Longrightarrow> ch_choice c = js ''failover'' \<or> ch_target c = None) \<Longrightarrow>
    occ_step x (x\<lparr>oc_state := OccRecovering,
      oc_recovery := Some \<lparr>rec_gap = g, rec_message = m, rec_retries = [], rec_choices = choices, rec_chosen = None\<rparr>\<rparr>)"
| occ_choose: "oc_state x = OccRecovering \<Longrightarrow> oc_recovery x = Some r \<Longrightarrow> rec_chosen r = None \<Longrightarrow>
    c \<in> set (rec_choices r) \<Longrightarrow>
    occ_step x (x\<lparr>oc_recovery := Some (r\<lparr>rec_chosen := Some (ident, c)\<rparr>)\<rparr>)"
| occ_retry: "oc_state x = OccRecovering \<Longrightarrow> oc_recovery x = Some r \<Longrightarrow> rec_chosen r = Some (i, c) \<Longrightarrow>
    ch_choice c \<noteq> js ''abandon'' \<Longrightarrow>
    occ_step x (x\<lparr>oc_state := OccRunning, oc_recovery := Some (r\<lparr>rec_retries := rec_retries r @ [ident]\<rparr>)\<rparr>)"
| occ_open: "oc_state x = OccRunning \<Longrightarrow> oc_dispatch x = None \<Longrightarrow> ts \<noteq> [] \<Longrightarrow> distinct ts \<Longrightarrow>
    length ts \<le> MAX_OPTIONS \<Longrightarrow>
    occ_step x (x\<lparr>oc_dispatch := Some \<lparr>dp_targets = ts, dp_open = True, dp_redirect = None\<rparr>\<rparr>)"
| occ_redirect: "oc_dispatch x = Some d \<Longrightarrow> dp_open d \<Longrightarrow> t \<in> set (dp_targets d) \<Longrightarrow>
    occ_step x (x\<lparr>oc_dispatch := Some (d\<lparr>dp_open := False,
      dp_redirect := Some \<lparr>rd_controlId = ident, rd_target = t, rd_stoppedAttempt = None\<rparr>\<rparr>)\<rparr>)"
| occ_reroute: "runningAttempt x = Some a \<Longrightarrow>
    (case oc_dispatch x of None \<Rightarrow> ts = [t] | Some d \<Rightarrow> ts = dp_targets d \<and> t \<in> set ts) \<Longrightarrow>
    occ_step x (x\<lparr>oc_dispatch := Some \<lparr>dp_targets = ts, dp_open = False,
      dp_redirect = Some \<lparr>rd_controlId = ident, rd_target = t, rd_stoppedAttempt = Some (at_id a)\<rparr>\<rparr>\<rparr>)"
| occ_ask: "oc_state x = OccRunning \<Longrightarrow> oc_attempts x = [] \<Longrightarrow> oc_personQuestion x = None \<Longrightarrow>
    questionRef v = Inr q \<Longrightarrow>
    occ_step x (x\<lparr>oc_personQuestion := Some q, oc_personPending := True\<rparr>)"
| occ_answered: "oc_personPending x \<Longrightarrow> occ_step x (x\<lparr>oc_personPending := False\<rparr>)"
| occ_complete: "oc_state x = OccRunning \<or> oc_state x = OccReused \<Longrightarrow> \<not> oc_personPending x \<Longrightarrow>
    \<not> anyAttemptRunning x \<Longrightarrow>
    occ_step x (x\<lparr>oc_state := (if oc_state x = OccReused then OccReused else OccCompleted),
      oc_source := Some sc, oc_answer := Some an\<rparr>)"
| occ_fail: "oc_state x = OccRunning \<or> oc_state x = OccRecovering \<Longrightarrow> \<not> anyAttemptRunning x \<Longrightarrow>
    occ_step x (x\<lparr>oc_state := OccFailed, oc_answer := Some m, oc_failureClass := Some c\<rparr>)"

definition newOccurrence :: "jstr \<Rightarrow> jstr \<Rightarrow> jstr \<Rightarrow> jstr \<Rightarrow> jstr \<Rightarrow> occurrence" where
  "newOccurrence ident code intent addressee prompt =
     \<lparr>oc_id = ident, oc_state = OccRunning, oc_code = Some code, oc_intent = Some intent,
      oc_addressee = Some addressee, oc_prompt = Some prompt, oc_answer = None, oc_dispatch = None,
      oc_recovery = None, oc_reuseKind = None, oc_source = None, oc_failureClass = None,
      oc_replayable = True, oc_personQuestion = None, oc_personPending = False, oc_attempts = []\<rparr>"

section \<open>Runs\<close>

definition live :: "run_snapshot \<Rightarrow> bool" where
  "live s \<longleftrightarrow> rs_status s = Running \<or> rs_status s = Cancelling"

text \<open>What an acknowledgement may do to the one before it.\<close>

definition ack_follows :: "control_ack option \<Rightarrow> control_ack \<Rightarrow> bool" where
  "ack_follows prior ack \<longleftrightarrow>
     (case prior of
        None \<Rightarrow> True
      | Some p \<Rightarrow> provisional (ca_state p) \<and> \<not> provisional (ca_state ack)
                 \<and> ca_command p = ca_command ack \<and> ca_occurrenceId p = ca_occurrenceId ack
                 \<and> ca_attemptId p = ca_attemptId ack)"

inductive snap_step :: "run_snapshot \<Rightarrow> run_snapshot \<Rightarrow> bool" where
  snap_same: "snap_step s s"
| snap_start: "rs_status s = Starting \<or> rs_status s = Cancelling \<Longrightarrow>
    st = (if rs_status s = Starting then Running else Cancelling) \<Longrightarrow>
    snap_step s (s\<lparr>rs_status := st, rs_workflow := w, rs_target := t, rs_personAnswering := p\<rparr>)"
| snap_occurrence: "rs_status s = Running \<Longrightarrow> map_of (rs_occurrences s) k = None \<Longrightarrow>
    length (rs_occurrences s) < MAX_OCCURRENCES \<Longrightarrow> canonical_text k \<Longrightarrow>
    snap_step s (put_occurrence k (newOccurrence k c i a p) s)"
| snap_attempt: "map_of (rs_occurrences s) k = Some x \<Longrightarrow> oc_state x = OccRunning \<Longrightarrow>
    map_of (oc_attempts x) n = None \<Longrightarrow> attemptCount s < MAX_ATTEMPTS \<Longrightarrow>
    snap_step s (put_attempt (k, closeDispatch x) n (newAttempt n t) s)"
| snap_update: "map_of (rs_occurrences s) k = Some x \<Longrightarrow> map_of (oc_attempts x) n = Some a \<Longrightarrow>
    att_step a a' \<Longrightarrow> snap_step s (put_attempt (k, x) n a' s)"
| snap_steer: "map_of (rs_occurrences s) k = Some x \<Longrightarrow> map_of (oc_attempts x) n = Some a \<Longrightarrow>
    at_state a = AttemptRunning \<Longrightarrow> steerCount s < MAX_STEERS \<Longrightarrow>
    snap_step s (put_attempt (k, x\<lparr>oc_replayable := False\<rparr>) n (a\<lparr>at_steers := at_steers a @ [r]\<rparr>) s)"
| snap_occ: "map_of (rs_occurrences s) k = Some x \<Longrightarrow> occ_step x x' \<Longrightarrow>
    snap_step s (put_occurrence k x' s)"
| snap_trace: "\<not> rs_traceRecorded s \<Longrightarrow> distinct ids \<Longrightarrow> list_all (map_has (rs_occurrences s)) ids \<Longrightarrow>
    length ids = length (rs_occurrences s) \<Longrightarrow> allSettled s \<Longrightarrow>
    snap_step s (s\<lparr>rs_authoredOrder := ids, rs_traceRecorded := True\<rparr>)"
| snap_ack: "live s \<Longrightarrow> ack_follows (map_of (rs_controlAcks s) (ca_controlId ack)) ack \<Longrightarrow>
    map_has (rs_controlAcks s) (ca_controlId ack) \<or> length (rs_controlAcks s) < MAX_CONTROLS \<Longrightarrow>
    s' = s \<or> (\<exists>k x. map_of (rs_occurrences s) k = Some x \<and> oc_personPending x
                  \<and> s' = put_occurrence k (x\<lparr>oc_personPending := False\<rparr>) s) \<Longrightarrow>
    snap_step s (s'\<lparr>rs_controlAcks := map_set (ca_controlId ack) ack (rs_controlAcks s)\<rparr>)"
| snap_complete: "rs_status s = Running \<Longrightarrow> rs_traceRecorded s \<Longrightarrow>
    length (rs_authoredOrder s) = length (rs_occurrences s) \<Longrightarrow> allSettled s \<Longrightarrow>
    snap_step s (s\<lparr>rs_status := Succeeded, rs_billFresh := Some f, rs_billMemo := Some b, rs_result := r\<rparr>)"
| snap_end: "live s \<Longrightarrow> st = RunFailed \<or> st = RunCancelled \<Longrightarrow>
    snap_step s (s\<lparr>rs_status := st, rs_failure := Some m, rs_failureClass := Some c\<rparr>)"

section \<open>The reducer refines the machine\<close>

named_theorems refines

lemma occurrenceId_canonical: "occurrenceId e = Inr k \<Longrightarrow> canonical_text k"
  by (auto simp: occurrenceId_def decimalTextE_def thenE_Inr)

lemma occurrenceOf_Inr: "occurrenceOf s e = Inr kx \<Longrightarrow> map_of (rs_occurrences s) (fst kx) = Some (snd kx)"
  by (auto simp: occurrenceOf_def thenE_Inr split: option.splits)

lemma attemptOf_Inr:
  "attemptOf s e = Inr (kx, n, a) \<Longrightarrow>
   map_of (rs_occurrences s) (fst kx) = Some (snd kx) \<and> map_of (oc_attempts (snd kx)) n = Some a"
  by (auto simp: attemptOf_def thenE_Inr split: option.splits dest: occurrenceOf_Inr)

lemma run_started_step [refines]:
  assumes "run_started s e v = Inr s'"
  shows "snap_step s s'"
proof -
  define st where "st = (if rs_status s = Starting then Running else Cancelling)"
  from assms obtain w t where g: "rs_status s = Starting \<or> rs_status s = Cancelling"
    and s': "s' = s\<lparr>rs_status := st, rs_workflow := w, rs_target := t\<rparr> \<or>
         (\<exists>p. s' = s\<lparr>rs_status := st, rs_workflow := w, rs_target := t, rs_personAnswering := p\<rparr>)"
    unfolding run_started_def st_def Let_def
    by (elim thenE_elim) (auto simp: thenE_Inr split: if_splits)
  have "s\<lparr>rs_status := st, rs_workflow := w, rs_target := t\<rparr> =
        s\<lparr>rs_status := st, rs_workflow := w, rs_target := t, rs_personAnswering := rs_personAnswering s\<rparr>"
    by (cases s) simp
  with s' show ?thesis using snap_start [OF g st_def] by metis
qed

lemma occurrence_started_step [refines]: "occurrence_started s e = Inr s' \<Longrightarrow> snap_step s s'"
  unfolding occurrence_started_def
  by (elim thenE_elim)
     (auto simp: newOccurrence_def [symmetric] intro!: snap_occurrence dest: occurrenceId_canonical)

lemma attempt_started_step [refines]: "attempt_started s e = Inr s' \<Longrightarrow> snap_step s s'"
  unfolding attempt_started_def
  by (auto simp: thenE_Inr newAttempt_def [symmetric] intro!: snap_attempt dest: occurrenceOf_Inr split: prod.splits)

lemma attempt_update_step:
  "attemptOf s e = Inr (kx, n, a) \<Longrightarrow> att_step a a' \<Longrightarrow> snap_step s (put_attempt kx n a' s)"
  using snap_update [of s "fst kx" "snd kx" n a a'] by (auto dest: attemptOf_Inr)

lemma requireAttemptRunning_Inr [simp]: "requireAttemptRunning a m = Inr u \<longleftrightarrow> at_state a = AttemptRunning"
  by (simp add: requireAttemptRunning_def)

lemma attempt_output_step [refines]: "attempt_output s e = Inr s' \<Longrightarrow> snap_step s s'"
  unfolding attempt_output_def
  by (auto simp: thenE_Inr intro!: attempt_update_step att_output split: prod.splits)

lemma attempt_progress_step [refines]: "attempt_progress env s e v = Inr s' \<Longrightarrow> snap_step s s'"
  unfolding attempt_progress_def
  by (auto simp: thenE_Inr intro: attempt_update_step att_progress split: prod.splits)

lemma attempt_completed_step [refines]: "attempt_completed s e = Inr s' \<Longrightarrow> snap_step s s'"
  unfolding attempt_completed_def
  by (auto simp: thenE_Inr intro!: attempt_update_step att_complete split: prod.splits)

lemma attempt_failed_step [refines]: "attempt_failed s e = Inr s' \<Longrightarrow> snap_step s s'"
  unfolding attempt_failed_def
  by (auto simp: thenE_Inr intro!: attempt_update_step att_fail split: prod.splits)

lemma attempt_steered_step [refines]: "attempt_steered env s e = Inr s' \<Longrightarrow> snap_step s s'"
  unfolding attempt_steered_def
  by (auto simp: thenE_Inr intro!: snap_steer dest: attemptOf_Inr split: prod.splits)

lemma occurrence_update_step:
  "occurrenceOf s e = Inr (k, x) \<Longrightarrow> occ_step x x' \<Longrightarrow> snap_step s (put_occurrence k x' s)"
  using occurrenceOf_Inr [of s e "(k, x)"] by (auto intro: snap_occ)

lemma occurrence_reused_step [refines]: "occurrence_reused s e = Inr s' \<Longrightarrow> snap_step s s'"
  unfolding occurrence_reused_def
  by (auto simp: thenE_Inr intro!: occurrence_update_step occ_reuse split: prod.splits)

lemma recoveryChoice_target:
  "recoveryChoice v = Inr c \<Longrightarrow> ch_choice c = js ''failover'' \<or> ch_target c = None"
  by (auto simp: recoveryChoice_def Let_def thenE_Inr)

lemma recovery_pending_step [refines]:
  assumes "recovery_pending s e = Inr s'"
  shows "snap_step s s'"
proof -
  obtain k x where x: "occurrenceOf s e = Inr (k, x)"
    using assms unfolding recovery_pending_def by (elim thenE_elim) auto
  obtain vs where "js_array (field e ''choices'') = Some vs"
    using assms x unfolding recovery_pending_def
    by (cases "js_array (field e ''choices'')") (auto simp: thenE_Inr)
  with assms x obtain choices g m where st: "oc_state x = OccRunning"
    and vs: "vs \<noteq> []" "length vs \<le> MAX_OPTIONS" "mapE recoveryChoice vs = Inr choices"
    and d: "distinct (map ch_choice choices)"
    and s': "s' = put_occurrence k (x\<lparr>oc_state := OccRecovering,
        oc_recovery := Some \<lparr>rec_gap = g, rec_message = m, rec_retries = [], rec_choices = choices, rec_chosen = None\<rparr>\<rparr>) s"
    unfolding recovery_pending_def by (clarsimp simp: thenE_Inr)
  have all: "list_all2 (\<lambda>v c. recoveryChoice v = Inr c) vs choices" using vs by (simp add: mapE_Inr)
  then have "length choices = length vs" by (simp add: list_all2_lengthD)
  moreover have "\<And>c. c \<in> set choices \<Longrightarrow> ch_choice c = js ''failover'' \<or> ch_target c = None"
    using all by (induction rule: list_all2_induct) (simp, metis recoveryChoice_target set_ConsD)
  ultimately show ?thesis
    unfolding s' using st vs d by (intro occurrence_update_step [OF x] occ_recover) auto
qed

lemma recovery_chosen_step [refines]:
  assumes "recovery_chosen env s e = Inr s'"
  shows "snap_step s s'"
proof -
  obtain k x where x: "occurrenceOf s e = Inr (k, x)"
    using assms unfolding recovery_chosen_def by (elim thenE_elim) auto
  obtain r where r: "oc_recovery x = Some r"
    using assms x unfolding recovery_chosen_def by (cases "oc_recovery x") auto
  with assms x obtain c ident where "oc_state x = OccRecovering" "rec_chosen r = None" "c \<in> set (rec_choices r)"
    and s': "s' = put_occurrence k (x\<lparr>oc_recovery := Some (r\<lparr>rec_chosen := Some (ident, c)\<rparr>)\<rparr>) s"
    unfolding recovery_chosen_def Let_def
    by (simp del: not_None_eq not_Some_eq split_paired_All split_paired_Ex)
       (elim thenE_elim, simp, metis)
  then show ?thesis
    unfolding s' using r by (intro occurrence_update_step [OF x] occ_choose)
qed

lemma occurrence_retried_step [refines]: "occurrence_retried env s e = Inr s' \<Longrightarrow> snap_step s s'"
  unfolding occurrence_retried_def
  by (auto simp: thenE_Inr Let_def intro!: occurrence_update_step occ_retry split: prod.splits option.splits)

lemma dispatch_pending_step [refines]: "dispatch_pending s e = Inr s' \<Longrightarrow> snap_step s s'"
  unfolding dispatch_pending_def
  by (auto simp: thenE_Inr intro!: occurrence_update_step occ_open split: prod.splits option.splits)

lemma occurrence_redirected_step [refines]:
  assumes "occurrence_redirected env s e = Inr s'"
  shows "snap_step s s'"
proof -
  obtain k x t ident where x: "occurrenceOf s e = Inr (k, x)"
    and t: "textE (field e ''target'') ''target'' = Inr t" and c: "runtimeControlId env e = Inr ident"
    using assms unfolding occurrence_redirected_def by (elim thenE_elim) (auto simp: thenE_Inr)
  note now = assms [unfolded occurrence_redirected_def Let_def x t c thenE_simps prod.case]
  show ?thesis
  proof (cases "oc_dispatch x")
    case None
    with now x show ?thesis
      by (auto intro!: occurrence_update_step occ_reroute split: option.splits)
  next
    case (Some d)
    show ?thesis
    proof (cases "dp_open d \<and> t \<in> set (dp_targets d)")
      case True
      with now Some x show ?thesis by (auto intro!: occurrence_update_step occ_redirect)
    next
      case False
      with now Some x show ?thesis
        by (auto intro!: occurrence_update_step occ_reroute split: option.splits if_splits)
    qed
  qed
qed

lemma person_answer_pending_step [refines]: "person_answer_pending s e v = Inr s' \<Longrightarrow> snap_step s s'"
  unfolding person_answer_pending_def
  by (auto simp: thenE_Inr intro!: occurrence_update_step intro: occ_ask split: prod.splits)

lemma occurrence_completed_step [refines]: "occurrence_completed s e = Inr s' \<Longrightarrow> snap_step s s'"
  unfolding occurrence_completed_def
  by (elim thenE_elim; clarsimp simp: thenE_Inr split del: if_split split: prod.splits)
     (rule occurrence_update_step, assumption, rule occ_complete, simp_all)

lemma occurrence_failed_step [refines]: "occurrence_failed s e = Inr s' \<Longrightarrow> snap_step s s'"
  unfolding occurrence_failed_def
  by (elim thenE_elim; clarsimp simp: thenE_Inr split: prod.splits)
     (rule occurrence_update_step, assumption, rule occ_fail, auto intro: occurrence_state.exhaust)

lemma trace_ordered_step [refines]: "trace_ordered s e = Inr s' \<Longrightarrow> snap_step s s'"
  unfolding trace_ordered_def
  by (auto simp: thenE_Inr intro!: snap_trace split: option.splits)

lemma run_failed_step [refines]: "run_failed s e = Inr s' \<Longrightarrow> snap_step s s'"
  unfolding run_failed_def by (auto simp: thenE_Inr live_def intro!: snap_end)

lemma run_cancelled_step [refines]: "run_cancelled s e = Inr s' \<Longrightarrow> snap_step s s'"
  unfolding run_cancelled_def by (auto simp: thenE_Inr live_def intro!: snap_end)

lemma run_completed_step [refines]:
  assumes "run_completed s e v = Inr s'"
  shows "snap_step s s'"
proof -
  obtain f b where g: "rs_status s = Running" "rs_traceRecorded s"
      "length (rs_authoredOrder s) = length (rs_occurrences s)" "allSettled s"
    and s': "s' = s\<lparr>rs_status := Succeeded, rs_billFresh := Some f, rs_billMemo := Some b\<rparr> \<or>
         (\<exists>r. s' = s\<lparr>rs_status := Succeeded, rs_billFresh := Some f, rs_billMemo := Some b, rs_result := r\<rparr>)"
    using assms unfolding run_completed_def Let_def
    by (elim thenE_elim) (auto simp: thenE_Inr split: if_splits)
  have "s\<lparr>rs_status := Succeeded, rs_billFresh := Some f, rs_billMemo := Some b\<rparr> =
        s\<lparr>rs_status := Succeeded, rs_billFresh := Some f, rs_billMemo := Some b, rs_result := rs_result s\<rparr>"
    by (cases s) simp
  with s' show ?thesis using snap_complete [OF g] by metis
qed

lemma acknowledge_person_Inr:
  assumes "acknowledge_person s prior ack = Inr s'"
  shows "s' = s \<or> (\<exists>k x. map_of (rs_occurrences s) k = Some x \<and> oc_personPending x
                      \<and> s' = put_occurrence k (x\<lparr>oc_personPending := False\<rparr>) s)"
proof (cases "ca_command ack = Some (js ''answerPerson'')")
  case True
  show ?thesis
  proof (cases "ca_occurrenceId ack")
    case None
    with assms True show ?thesis by (auto simp: acknowledge_person_def thenE_Inr)
  next
    case (Some k)
    with assms True show ?thesis
      by (cases "map_of (rs_occurrences s) k")
         (auto simp: acknowledge_person_def thenE_Inr Let_def split: if_splits)
  qed
qed (use assms in \<open>simp add: acknowledge_person_def\<close>)

lemma control_ack_step [refines]:
  assumes "control_ack_event env s e v = Inr s'"
  shows "snap_step s s'"
proof (cases "s' = s")
  case False
  obtain c st cmd i a m where lv: "live s"
    and now: "(let prior = map_of (rs_controlAcks s) c;
           next = \<lparr>ca_controlId = c, ca_state = st, ca_message = m, ca_command = cmd,
                   ca_occurrenceId = i, ca_attemptId = a\<rparr> in
       if prior = Some next then Inr s
       else
         thenE (check (prior \<noteq> None \<or> length (rs_controlAcks s) < MAX_CONTROLS)
           (js ''runtime snapshot exceeds 256 control acknowledgements'')) (\<lambda>_.
         thenE (check (case prior of None \<Rightarrow> True
                       | Some p \<Rightarrow> ca_command p = cmd \<and> ca_occurrenceId p = i \<and> ca_attemptId p = a)
           (js ''control acknowledgement correlation mismatch: command or target identity changed'')) (\<lambda>_.
         thenE (case prior of None \<Rightarrow> Inr ()
                | Some p \<Rightarrow> check (provisional (ca_state p) \<and> \<not> provisional st)
                    (js ''invalid acknowledgement transition '' @ ca_state p @ js '' -> '' @ st)) (\<lambda>_.
         thenE (acknowledge_person s prior next) (\<lambda>s'.
           Inr (s'\<lparr>rs_controlAcks := map_set c next (rs_controlAcks s')\<rparr>)))))) = Inr s'"
    using assms unfolding control_ack_event_def live_def by (elim thenE_elim) (simp add: Let_def)
  define ack where "ack = \<lparr>ca_controlId = c, ca_state = st, ca_message = m, ca_command = cmd,
                   ca_occurrenceId = i, ca_attemptId = a\<rparr>"
  note now' = now [unfolded Let_def ack_def [symmetric]]
  from now' False obtain t where room: "map_has (rs_controlAcks s) c \<or> length (rs_controlAcks s) < MAX_CONTROLS"
    and fol: "ack_follows (map_of (rs_controlAcks s) (ca_controlId ack)) ack"
    and t: "acknowledge_person s (map_of (rs_controlAcks s) c) ack = Inr t"
    and s': "s' = t\<lparr>rs_controlAcks := map_set c ack (rs_controlAcks t)\<rparr>"
    by (cases "map_of (rs_controlAcks s) c")
       (auto simp: thenE_Inr ack_follows_def ack_def split: if_splits)
  have "rs_controlAcks t = rs_controlAcks s"
    using acknowledge_person_Inr [OF t] by (auto simp: put_occurrence_def)
  with s' have "s' = t\<lparr>rs_controlAcks := map_set (ca_controlId ack) ack (rs_controlAcks s)\<rparr>"
    by (simp add: ack_def)
  then show ?thesis
    using snap_ack [OF lv fol _ acknowledge_person_Inr [OF t]] room by (simp add: ack_def)
qed (simp add: snap_same)

theorem apply_event_refines: "apply_event env s e v = Inr s' \<Longrightarrow> snap_step s s'"
  unfolding apply_event_def Let_def by (auto dest: refines split: if_splits)

text \<open>The header of an event: what \<^verbatim>\<open>reduceEvent\<close> writes before it applies the event.\<close>

definition headed :: "runtime_event \<Rightarrow> int \<Rightarrow> jstr \<Rightarrow> run_snapshot \<Rightarrow> run_snapshot" where
  "headed e n d s = s\<lparr>rs_protocolVersion := Some (ev_protocolVersion e), rs_lastSequence := Some n,
                     rs_eventDigests := [(ev_sequence e, d)]\<rparr>"

lemma reduceEvent_Inr:
  "reduceEvent env s e = Inr s' \<longleftrightarrow>
   (\<exists>v n d. admit env s e = Inr (v, n, d) \<and> apply_event env (headed e n d s) e v = Inr s')"
  by (auto simp: reduceEvent_def thenE_Inr headed_def)

lemma admit_Inr:
  assumes "admit env s e = Inr (v, n, d)"
  shows "n = expectedSequence s" "n = int (digits_val (ev_sequence e))" "canonical_text (ev_sequence e)"
    "n \<le> MAX_WORD64" "\<not> isTerminal (rs_status s)" "ev_runId e = rs_runId s"
    "rs_protocolVersion s = None \<or> rs_protocolVersion s = Some (ev_protocolVersion e)"
    "d = event_digest env e" "protocol_version (ev_protocolVersion e) = Some v"
  using assms unfolding admit_def Let_def
  by (auto simp: thenE_Inr split: option.splits)

end
