(* ===== verification/TailLaws.thy ===== *)
theory TailLaws
  imports Snapshot
begin

text \<open>
  The tail of an output (\<^verbatim>\<open>tail\<close> of \<^verbatim>\<open>reducer.ts\<close>): cutting at a byte offset and dropping the
  continuation bytes leaves whole code points, so the tail is at most the bound in UTF-8 and is
  a suffix of the text.
\<close>

lemma utf8_point_shape:
  assumes "scalar_point p"
  shows "\<exists>b cs. utf8_point p = b # cs \<and> \<not> continuation b \<and> list_all continuation cs"
proof -
  have "p < 0x110000" using assms by (simp add: scalar_point_def)
  then show ?thesis
    by (auto simp: utf8_point_def continuation_def word_le_nat_alt unat_byte)
qed

lemma dropWhile_points: "list_all scalar_point ps \<Longrightarrow> dropWhile continuation (utf8_points ps) = utf8_points ps"
proof (cases ps)
  case (Cons p qs)
  moreover assume "list_all scalar_point ps"
  ultimately obtain b cs where "utf8_point p = b # cs" "\<not> continuation b"
    using utf8_point_shape by fastforce
  with Cons show ?thesis by (simp add: utf8_points_def)
qed (simp add: utf8_points_def)

lemma cut_points:
  "list_all scalar_point ps \<Longrightarrow>
   \<exists>rs qs. ps = rs @ qs \<and> dropWhile continuation (drop n (utf8_points ps)) = utf8_points qs"
proof (induction ps arbitrary: n)
  case Nil
  show ?case by (simp add: utf8_points_def)
next
  case (Cons p ps)
  then obtain b cs where p: "utf8_point p = b # cs" and cs: "list_all continuation cs"
    using utf8_point_shape by fastforce
  have ps: "list_all scalar_point ps" using Cons.prems by simp
  have split: "utf8_points (p # ps) = b # cs @ utf8_points ps" by (simp add: utf8_points_def p)
  consider "n = 0" | k where "n = Suc k" "k < length cs" | k where "n = Suc k" "length cs \<le> k"
    by (cases n) (auto simp: not_less [symmetric])
  then show ?case
  proof cases
    case 1
    have "dropWhile continuation (utf8_points (p # ps)) = utf8_points (p # ps)"
      using Cons.prems by (rule dropWhile_points)
    with 1 show ?thesis by (intro exI [of _ "[]"] exI [of _ "p # ps"]) simp
  next
    case 2
    have "\<forall>x \<in> set (drop k cs). continuation x"
      using cs by (auto simp: list_all_iff dest: in_set_dropD)
    then have "dropWhile continuation (drop k cs @ utf8_points ps) = utf8_points ps"
      using dropWhile_points [OF ps] by (simp add: dropWhile_append2)
    with 2 split show ?thesis by (intro exI [of _ "[p]"] exI [of _ ps]) simp
  next
    case 3
    obtain rs qs where "ps = rs @ qs"
      "dropWhile continuation (drop (k - length cs) (utf8_points ps)) = utf8_points qs"
      using Cons.IH [OF ps] by blast
    with 3 split show ?thesis by (intro exI [of _ "p # rs"] exI [of _ qs]) simp
  qed
qed

lemma scalars: "list_all scalar_point (map utf8_scalar (code_points s))"
  by (auto simp: list_all_iff intro: utf8_scalar_scalar code_points_bound)

text \<open>A list of scalar values is read back from the units it is written to.\<close>

lemma code_points_Cons: "\<not> high_surrogate u \<Longrightarrow> code_points (u # s) = unat u # code_points s"
  by (cases s) auto

lemma code_points_of_point:
  assumes "scalar_point p"
  shows "code_points (units_of_point p @ s) = p # code_points s"
proof (cases "p < 0x10000")
  case True
  with assms have "\<not> high_surrogate (of_nat p)"
    by (auto simp: high_surrogate_def scalar_point_def surrogate_point_def word_le_nat_alt unat_of_nat)
  with True show ?thesis by (simp add: units_of_point_def code_points_Cons unat_of_nat)
next
  case False
  define a b where "a = (p - 0x10000) div 0x400" and "b = (p - 0x10000) mod 0x400"
  have lt: "p < 0x110000" using assms by (simp add: scalar_point_def)
  then have a: "a < 0x400" and b: "b < 0x400" by (auto simp: a_def b_def)
  have p: "p = 0x10000 + a * 0x400 + b" using False by (simp add: a_def b_def)
  have u: "unat (of_nat (0xD800 + a) :: unit16) = 0xD800 + a"
    "unat (of_nat (0xDC00 + b) :: unit16) = 0xDC00 + b"
    using a b by (simp_all only: unat_of_nat) simp_all
  have "high_surrogate (of_nat (0xD800 + a))" "low_surrogate (of_nat (0xDC00 + b))"
    using a b by (simp_all only: high_surrogate_def low_surrogate_def word_le_nat_alt u) simp_all
  moreover have "pair_point (of_nat (0xD800 + a)) (of_nat (0xDC00 + b)) = p"
    by (simp only: pair_point_def u p)
  moreover have "units_of_point p = [of_nat (0xD800 + a), of_nat (0xDC00 + b)]"
    using False by (simp add: units_of_point_def a_def b_def)
  ultimately show ?thesis by simp
qed

lemma code_points_of_scalars: "list_all scalar_point ps \<Longrightarrow> code_points (units_of_points ps) = ps"
  by (induction ps) (auto simp: code_points_of_point)

lemma encode_scalars: "list_all scalar_point ps \<Longrightarrow> utf8_encode (units_of_points ps) = utf8_points ps"
proof -
  assume a: "list_all scalar_point ps"
  then have "map utf8_scalar ps = ps"
    by (auto simp: list_all_iff scalar_point_def utf8_scalar_def intro: map_idI)
  with a show ?thesis by (simp add: utf8_encode_def code_points_of_scalars)
qed

lemma tail_spec:
  obtains "tail s = s" "byteLength s \<le> OUTPUT_TAIL"
  | rs qs where "map utf8_scalar (code_points s) = rs @ qs" "tail s = units_of_points qs"
      "byteLength (tail s) \<le> OUTPUT_TAIL" "list_all scalar_point qs"
proof (cases "byteLength s \<le> OUTPUT_TAIL")
  case True
  with that(1) show ?thesis by (simp add: tail_def byteLength_def)
next
  case False
  let ?n = "length (utf8_encode s) - OUTPUT_TAIL"
  obtain rs qs where split: "map utf8_scalar (code_points s) = rs @ qs"
    and cut: "dropWhile continuation (drop ?n (utf8_encode s)) = utf8_points qs"
    using cut_points [OF scalars] unfolding utf8_encode_def by blast
  have qs: "list_all scalar_point qs" using scalars [of s] split by simp
  have t: "tail s = units_of_points qs"
    using False cut qs by (simp add: tail_def byteLength_def Let_def utf8_to_string_points)
  have "length (utf8_points qs) \<le> length (drop ?n (utf8_encode s))"
    unfolding cut [symmetric] by (rule length_dropWhile_le)
  then have "length (utf8_points qs) \<le> OUTPUT_TAIL" by simp
  then have "byteLength (tail s) \<le> OUTPUT_TAIL" by (simp add: byteLength_def t encode_scalars qs)
  with that(2) split t qs show ?thesis by blast
qed

lemma tail_bound: "byteLength (tail s) \<le> OUTPUT_TAIL"
  by (rule tail_spec [of s]) auto

end
