(* ===== verification/ReducerLaws.thy ===== *)
theory ReducerLaws
  imports Lifecycle TailLaws
begin

text \<open>
  The invariant of the reducer's snapshot, proved over the steps of the abstract machine: the
  sizes of every collection, the identity of keys, the consistency of the recovery and dispatch
  records with the state of the occurrence, and what a recorded trace and a succeeded run mean.
  Then the properties of replayed journals: contiguous sequence numbers, terminal states that
  admit no event, and states of occurrences and acknowledgements that are never left.
\<close>

section \<open>Attempts\<close>

definition usage_ok :: "usage \<Rightarrow> bool" where
  "usage_ok u \<longleftrightarrow> canonical_text (us_used u) \<and> canonical_text (us_size u) \<and> 0 < digits_val (us_size u)
     \<and> digits_val (us_used u) \<le> digits_val (us_size u)"

definition att_inv :: "jstr \<Rightarrow> attempt_snapshot \<Rightarrow> bool" where
  "att_inv n a \<longleftrightarrow> at_id a = n \<and> byteLength (at_output a) \<le> OUTPUT_TAIL
     \<and> length (at_messages a) \<le> 64 \<and> length (at_reasoning a) \<le> 32
     \<and> wf_map (at_tools a) \<and> length (at_tools a) \<le> 128 \<and> length (at_todos a) \<le> 128
     \<and> pred_option usage_ok (at_usage a)
     \<and> (at_state a = AttemptFailed \<longleftrightarrow> at_failure a \<noteq> None)"

lemma push_bounded_length: "length (push_bounded n x xs) \<le> n"
  by (simp add: push_bounded_def Let_def)

lemma naturalText_canonical: "naturalText v l = Inr t \<Longrightarrow> canonical_text t"
  by (auto simp: naturalText_def thenE_Inr)

lemma tool_progress_inv:
  assumes "tool_progress env a fs = Inr a'" and "att_inv n a"
  shows "att_inv n a' \<and> at_state a' = at_state a \<and> at_steers a' = at_steers a"
proof -
  obtain i t where a': "a' = a\<lparr>at_tools := map_set i t (at_tools a)\<rparr>"
    and room: "map_has (at_tools a) i \<or> length (at_tools a) < 128"
    using assms(1) unfolding tool_progress_def by (elim thenE_elim) (simp, metis)
  have "length (map_set i t (at_tools a)) \<le> 128"
    using room assms(2) by (auto simp: length_map_set att_inv_def)
  with assms(2) show ?thesis unfolding a' att_inv_def by simp
qed

lemma applyProgress_inv:
  assumes "applyProgress env a v = Inr a'" and "att_inv n a"
  shows "att_inv n a' \<and> at_state a' = at_state a \<and> at_steers a' = at_steers a"
proof -
  obtain fs kind where "(if kind = js ''message'' then
         thenE (boundedProgressText (map_of fs (js ''text'')) ''message'' 4096) (\<lambda>content.
           Inr (a\<lparr>at_messages := push_bounded 64 content (at_messages a)\<rparr>))
       else if kind = js ''reasoning-summary'' then
         thenE (boundedProgressText (map_of fs (js ''text'')) ''reasoning-summary'' 4096) (\<lambda>content.
           Inr (a\<lparr>at_reasoning := push_bounded 32 content (at_reasoning a)\<rparr>))
       else if kind = js ''tool'' then tool_progress env a fs
       else if kind = js ''todos'' then todos_progress a fs
       else if kind = js ''usage'' then usage_progress a fs
       else Inl (js ''unknown public progress kind '' @ kind)) = Inr a'"
    using assms(1) unfolding applyProgress_def by (elim thenE_elim)
  then consider c where "a' = a\<lparr>at_messages := push_bounded 64 c (at_messages a)\<rparr>"
    | c where "a' = a\<lparr>at_reasoning := push_bounded 32 c (at_reasoning a)\<rparr>"
    | "tool_progress env a fs = Inr a'" | "todos_progress a fs = Inr a'" | "usage_progress a fs = Inr a'"
    by (auto simp: thenE_Inr split: if_splits)
  then show ?thesis
  proof cases
    case 3
    then show ?thesis using assms(2) by (rule tool_progress_inv)
  next
    case 4
    then obtain ts where "a' = a\<lparr>at_todos := ts\<rparr>" "length ts \<le> 128"
      unfolding todos_progress_def
      by (auto simp: thenE_Inr mapE_Inr split: option.splits dest: list_all2_lengthD)
    with assms(2) show ?thesis by (simp add: att_inv_def)
  next
    case 5
    then obtain used size where "a' = a\<lparr>at_usage := Some \<lparr>us_used = used, us_size = size\<rparr>\<rparr>"
      and "canonical_text used" "canonical_text size" "0 < digits_val size" "digits_val used \<le> digits_val size"
      unfolding usage_progress_def
      by (elim thenE_elim) (auto dest: naturalText_canonical)
    with assms(2) show ?thesis by (simp add: att_inv_def usage_ok_def)
  qed (use assms(2) push_bounded_length in \<open>auto simp: att_inv_def\<close>)
qed

lemma att_step_inv: "att_step a a' \<Longrightarrow> att_inv n a \<Longrightarrow> att_inv n a'"
  by (induction rule: att_step.induct) (auto simp: att_inv_def tail_bound dest: applyProgress_inv [unfolded att_inv_def])

lemma att_step_steers:
  assumes "att_step a a'" "att_inv n a"
  shows "at_steers a' = at_steers a \<and> at_state a = AttemptRunning"
  using assms by (induction rule: att_step.induct) (auto dest: applyProgress_inv)

lemma newAttempt_inv: "att_inv n (newAttempt n t)"
  by (simp add: att_inv_def newAttempt_def byteLength_def utf8_encode_def utf8_points_def)

section \<open>Occurrences\<close>

definition rec_inv :: "recovery \<Rightarrow> bool" where
  "rec_inv r \<longleftrightarrow> rec_choices r \<noteq> [] \<and> length (rec_choices r) \<le> MAX_OPTIONS
     \<and> distinct (map ch_choice (rec_choices r))
     \<and> list_all (\<lambda>c. ch_choice c = js ''failover'' \<or> ch_target c = None) (rec_choices r)
     \<and> length (rec_retries r) \<le> 1
     \<and> pred_option (\<lambda>(_, c). c \<in> set (rec_choices r)) (rec_chosen r)"

definition disp_inv :: "dispatch \<Rightarrow> bool" where
  "disp_inv d \<longleftrightarrow> dp_targets d \<noteq> [] \<and> distinct (dp_targets d) \<and> length (dp_targets d) \<le> MAX_OPTIONS
     \<and> pred_option (\<lambda>r. rd_target r \<in> set (dp_targets d)) (dp_redirect d)
     \<and> (dp_open d \<longrightarrow> dp_redirect d = None)"

definition occ_inv :: "jstr \<Rightarrow> occurrence \<Rightarrow> bool" where
  "occ_inv k x \<longleftrightarrow> oc_id x = k \<and> canonical_text k
     \<and> wf_map (oc_attempts x) \<and> list_all (\<lambda>(n, a). att_inv n a) (oc_attempts x)
     \<and> (settled x \<longrightarrow> \<not> oc_personPending x \<and> \<not> anyAttemptRunning x)
     \<and> (oc_state x = OccFailed \<longrightarrow> \<not> anyAttemptRunning x)
     \<and> oc_state x \<noteq> OccCancelled
     \<and> (oc_state x = OccRecovering \<longrightarrow> (\<exists>r. oc_recovery x = Some r \<and> rec_retries r = []))
     \<and> pred_option rec_inv (oc_recovery x) \<and> pred_option disp_inv (oc_dispatch x)
     \<and> (oc_personPending x \<longrightarrow> oc_personQuestion x \<noteq> None)"

lemma closeDispatch_fields [simp]:
  "oc_id (closeDispatch x) = oc_id x" "oc_state (closeDispatch x) = oc_state x"
  "oc_attempts (closeDispatch x) = oc_attempts x" "oc_recovery (closeDispatch x) = oc_recovery x"
  "oc_personPending (closeDispatch x) = oc_personPending x"
  "oc_personQuestion (closeDispatch x) = oc_personQuestion x"
  by (simp_all add: closeDispatch_def split: option.split)

lemma closeDispatch_inv: "pred_option disp_inv (oc_dispatch x) \<Longrightarrow> pred_option disp_inv (oc_dispatch (closeDispatch x))"
  by (auto simp: closeDispatch_def disp_inv_def split: option.split)

lemma closeDispatch_update [simp]:
  "oc_dispatch (closeDispatch (x\<lparr>oc_state := st, oc_reuseKind := g\<rparr>)) = oc_dispatch (closeDispatch x)"
  by (simp add: closeDispatch_def split: option.split)

lemma find_running: "runningAttempt x = Some a \<Longrightarrow> anyAttemptRunning x"
  by (auto simp: runningAttempt_def anyAttemptRunning_def find_Some_iff list_ex_iff)

lemma occ_step_inv: "occ_step x x' \<Longrightarrow> occ_inv k x \<Longrightarrow> occ_inv k x'"
proof (induction rule: occ_step.induct)
  case (occ_reuse x g)
  then show ?case
    using closeDispatch_inv [of x] by (simp add: occ_inv_def settled_def anyAttemptRunning_def)
next
  case (occ_recover x choices g m)
  then show ?case by (auto simp: occ_inv_def settled_def anyAttemptRunning_def rec_inv_def list_all_iff)
next
  case (occ_choose x r c ident)
  then show ?case by (auto simp: occ_inv_def settled_def anyAttemptRunning_def rec_inv_def)
next
  case (occ_retry x r i c ident)
  then show ?case by (auto simp: occ_inv_def settled_def anyAttemptRunning_def rec_inv_def)
next
  case (occ_open x ts)
  then show ?case by (auto simp: occ_inv_def settled_def anyAttemptRunning_def disp_inv_def)
next
  case (occ_redirect x d t ident)
  then show ?case by (auto simp: occ_inv_def settled_def anyAttemptRunning_def disp_inv_def)
next
  case (occ_reroute x a ts t ident)
  have "disp_inv \<lparr>dp_targets = ts, dp_open = False,
      dp_redirect = Some \<lparr>rd_controlId = ident, rd_target = t, rd_stoppedAttempt = Some (at_id a)\<rparr>\<rparr>"
    using occ_reroute by (auto simp: disp_inv_def occ_inv_def MAX_OPTIONS_def split: option.splits)
  with occ_reroute show ?case by (simp add: occ_inv_def settled_def anyAttemptRunning_def)
next
  case (occ_ask x v q)
  then show ?case by (auto simp: occ_inv_def settled_def anyAttemptRunning_def)
next
  case (occ_answered x)
  then show ?case by (auto simp: occ_inv_def settled_def anyAttemptRunning_def)
next
  case (occ_complete x sc an)
  then show ?case by (auto simp: occ_inv_def settled_def anyAttemptRunning_def)
next
  case (occ_fail x m c)
  then show ?case by (auto simp: occ_inv_def settled_def anyAttemptRunning_def)
qed

lemma occ_step_attempts: "occ_step x x' \<Longrightarrow> oc_attempts x' = oc_attempts x"
  by (induction rule: occ_step.induct) auto

text \<open>The life cycle of an occurrence: completed, reused and failed are final.\<close>

definition terminalState :: "occurrence_state \<Rightarrow> bool" where
  "terminalState st \<longleftrightarrow> st = OccCompleted \<or> st = OccReused \<or> st = OccFailed \<or> st = OccCancelled"

lemma occ_step_terminal: "occ_step x x' \<Longrightarrow> terminalState (oc_state x) \<Longrightarrow> oc_state x' = oc_state x"
  by (induction rule: occ_step.induct) (auto simp: terminalState_def)

lemma occ_step_settled: "occ_step x x' \<Longrightarrow> settled x \<Longrightarrow> settled x'"
  using occ_step_terminal [of x x'] by (auto simp: terminalState_def settled_def)

lemma newOccurrence_inv: "canonical_text k \<Longrightarrow> occ_inv k (newOccurrence k c i a p)"
  by (simp add: occ_inv_def newOccurrence_def settled_def)

text \<open>Replacing or adding an attempt.\<close>

lemma all_map_set:
  "wf_map m \<Longrightarrow> list_all (\<lambda>(k, v). P k v) m \<Longrightarrow> P k v \<Longrightarrow> list_all (\<lambda>(k, v). P k v) (map_set k v m)"
  by (auto simp: list_all_iff map_set_values)

lemma map_of_all: "list_all (\<lambda>(k, v). P k v) m \<Longrightarrow> map_of m k = Some v \<Longrightarrow> P k v"
  by (auto simp: list_all_iff dest: map_of_SomeD)

lemma attempt_put_inv:
  assumes "occ_inv k x" "att_inv n a" "at_state a = AttemptRunning \<longrightarrow> \<not> terminalState (oc_state x)"
  shows "occ_inv k (x\<lparr>oc_attempts := map_set n a (oc_attempts x)\<rparr>)"
proof -
  have "wf_map (oc_attempts x)" using assms(1) by (simp add: occ_inv_def)
  then have run: "anyAttemptRunning (x\<lparr>oc_attempts := map_set n a (oc_attempts x)\<rparr>) \<longrightarrow>
      anyAttemptRunning x \<or> at_state a = AttemptRunning"
    unfolding anyAttemptRunning_def list_ex_iff by (simp add: map_set_values) force
  have "list_all (\<lambda>(n, a). att_inv n a) (map_set n a (oc_attempts x))"
    using assms by (intro all_map_set) (auto simp: occ_inv_def)
  with assms run show ?thesis
    by (auto simp: occ_inv_def settled_def terminalState_def)
qed

lemma running_not_terminal:
  assumes "occ_inv k x" "map_of (oc_attempts x) n = Some a" "at_state a = AttemptRunning"
  shows "\<not> terminalState (oc_state x)"
proof -
  have "anyAttemptRunning x"
    using assms(2,3) by (force simp: anyAttemptRunning_def list_ex_iff dest!: map_of_SomeD)
  with assms(1) show ?thesis by (auto simp: occ_inv_def terminalState_def settled_def)
qed

section \<open>Snapshots\<close>

definition trace_inv :: "run_snapshot \<Rightarrow> bool" where
  "trace_inv s \<longleftrightarrow>
     (if rs_traceRecorded s
      then distinct (rs_authoredOrder s)
        \<and> list_all (\<lambda>k. case map_of (rs_occurrences s) k of None \<Rightarrow> False | Some x \<Rightarrow> settled x) (rs_authoredOrder s)
      else rs_authoredOrder s = [])
     \<and> (rs_status s = Succeeded \<longrightarrow>
          rs_traceRecorded s \<and> length (rs_authoredOrder s) = length (rs_occurrences s))"

definition sizes_ok :: "run_snapshot \<Rightarrow> bool" where
  "sizes_ok s \<longleftrightarrow> length (rs_occurrences s) \<le> MAX_OCCURRENCES \<and> attemptCount s \<le> MAX_ATTEMPTS
     \<and> steerCount s \<le> MAX_STEERS \<and> length (rs_controlAcks s) \<le> MAX_CONTROLS"

definition snap_inv :: "run_snapshot \<Rightarrow> bool" where
  "snap_inv s \<longleftrightarrow> wf_map (rs_occurrences s) \<and> list_all (\<lambda>(k, x). occ_inv k x) (rs_occurrences s)
     \<and> wf_map (rs_controlAcks s) \<and> list_all (\<lambda>(c, a). ca_controlId a = c) (rs_controlAcks s)
     \<and> sizes_ok s \<and> trace_inv s"

lemma put_occurrence_fields [simp]:
  "rs_occurrences (put_occurrence k x s) = map_set k x (rs_occurrences s)"
  "rs_status (put_occurrence k x s) = rs_status s"
  "rs_traceRecorded (put_occurrence k x s) = rs_traceRecorded s"
  "rs_authoredOrder (put_occurrence k x s) = rs_authoredOrder s"
  "rs_controlAcks (put_occurrence k x s) = rs_controlAcks s"
  "rs_lastSequence (put_occurrence k x s) = rs_lastSequence s"
  "rs_protocolVersion (put_occurrence k x s) = rs_protocolVersion s"
  "rs_runId (put_occurrence k x s) = rs_runId s"
  by (simp_all add: put_occurrence_def)

lemma attemptCount_put:
  "map_of (rs_occurrences s) k = Some x \<Longrightarrow> wf_map (rs_occurrences s) \<Longrightarrow>
   attemptCount (put_occurrence k x' s) + length (oc_attempts x) = attemptCount s + length (oc_attempts x')"
  by (simp add: attemptCount_def sum_list_map_set [where f = "\<lambda>x. length (oc_attempts x)"])

lemma steerCount_put:
  "map_of (rs_occurrences s) k = Some x \<Longrightarrow> wf_map (rs_occurrences s) \<Longrightarrow>
   steerCount (put_occurrence k x' s) + steersOf x = steerCount s + steersOf x'"
  by (simp add: steerCount_def sum_list_map_set [where f = steersOf])

lemma steersOf_put:
  "map_of (oc_attempts x) n = Some a \<Longrightarrow> wf_map (oc_attempts x) \<Longrightarrow>
   steersOf (x\<lparr>oc_attempts := map_set n a' (oc_attempts x)\<rparr>) + length (at_steers a) = steersOf x + length (at_steers a')"
  by (simp add: steersOf_def sum_list_map_set [where f = "\<lambda>a. length (at_steers a)"])

lemma trace_put:
  assumes "trace_inv s" "map_of (rs_occurrences s) k = Some x" "settled x \<longrightarrow> settled x'" "rs_status s \<noteq> Succeeded"
  shows "trace_inv (put_occurrence k x' s)"
  using assms by (auto simp: trace_inv_def list_all_iff map_of_map_set split: if_splits option.splits)

text \<open>Replacing an occurrence keeps the invariant when the new one has it and the totals stay in bounds.\<close>

lemma put_inv:
  assumes inv: "snap_inv s" and x: "map_of (rs_occurrences s) k = Some x" and x': "occ_inv k x'"
    and settled: "settled x \<longrightarrow> settled x'" and status: "rs_status s \<noteq> Succeeded"
    and atts: "attemptCount (put_occurrence k x' s) \<le> MAX_ATTEMPTS"
    and steers: "steerCount (put_occurrence k x' s) \<le> MAX_STEERS"
  shows "snap_inv (put_occurrence k x' s)"
proof -
  have wf: "wf_map (rs_occurrences s)" and all: "list_all (\<lambda>(k, x). occ_inv k x) (rs_occurrences s)"
    using inv by (simp_all add: snap_inv_def)
  have "list_all (\<lambda>(k, x). occ_inv k x) (map_set k x' (rs_occurrences s))"
    using wf all x' by (rule all_map_set)
  moreover have "sizes_ok (put_occurrence k x' s)"
    using inv x atts steers by (simp add: sizes_ok_def snap_inv_def length_map_set)
  moreover have "trace_inv (put_occurrence k x' s)"
    using inv x settled status by (intro trace_put) (auto simp: snap_inv_def)
  ultimately show ?thesis using inv by (simp add: snap_inv_def)
qed

lemma snap_occ_inv: "snap_inv s \<Longrightarrow> map_of (rs_occurrences s) k = Some x \<Longrightarrow> occ_inv k x"
  unfolding snap_inv_def by (blast intro: map_of_all)

lemma put_same_attempts:
  assumes inv: "snap_inv s" and x: "map_of (rs_occurrences s) k = Some x" and x': "occ_inv k x'"
    and settled: "settled x \<longrightarrow> settled x'" and status: "rs_status s \<noteq> Succeeded"
    and same: "oc_attempts x' = oc_attempts x"
  shows "snap_inv (put_occurrence k x' s)"
proof (rule put_inv [OF inv x x' settled status])
  have wf: "wf_map (rs_occurrences s)" using inv by (simp add: snap_inv_def)
  show "attemptCount (put_occurrence k x' s) \<le> MAX_ATTEMPTS"
    using attemptCount_put [OF x wf, of x'] inv same by (simp add: snap_inv_def sizes_ok_def)
  have "steersOf x' = steersOf x" using same by (simp add: steersOf_def)
  then show "steerCount (put_occurrence k x' s) \<le> MAX_STEERS"
    using steerCount_put [OF x wf, of x'] inv by (simp add: snap_inv_def sizes_ok_def)
qed

lemma put_attempt_inv:
  assumes inv: "snap_inv s" and status: "rs_status s \<noteq> Succeeded" and x: "map_of (rs_occurrences s) k = Some x"
    and y: "occ_inv k y" "oc_attempts y = oc_attempts x" "oc_state y = oc_state x"
    and a: "map_of (oc_attempts x) n = Some a" "at_state a = AttemptRunning" and a': "att_inv n a'"
    and steers: "length (at_steers a') = length (at_steers a) \<or>
                 length (at_steers a') = Suc (length (at_steers a)) \<and> steerCount s < MAX_STEERS"
  shows "snap_inv (put_attempt (k, y) n a' s)"
proof -
  let ?z = "y\<lparr>oc_attempts := map_set n a' (oc_attempts y)\<rparr>"
  have wf: "wf_map (rs_occurrences s)" using inv by (simp add: snap_inv_def)
  have wfa: "wf_map (oc_attempts y)" using y(1) by (simp add: occ_inv_def)
  have run: "map_of (oc_attempts y) n = Some a" using a(1) y(2) by simp
  then have nt: "\<not> terminalState (oc_state y)" using running_not_terminal [OF y(1)] a(2) by blast
  have "occ_inv k ?z" using y(1) a' nt by (intro attempt_put_inv) auto
  moreover have "settled x \<longrightarrow> settled ?z" using nt y(3) by (simp add: settled_def terminalState_def)
  moreover have "attemptCount (put_occurrence k ?z s) \<le> MAX_ATTEMPTS"
    using attemptCount_put [OF x wf, of ?z] inv run y(2)
    by (simp add: length_map_set snap_inv_def sizes_ok_def)
  moreover have "steerCount (put_occurrence k ?z s) \<le> MAX_STEERS"
  proof -
    have "steersOf ?z + length (at_steers a) = steersOf y + length (at_steers a')"
      by (rule steersOf_put [OF run wfa])
    moreover have "steersOf y = steersOf x" by (simp add: steersOf_def y(2))
    ultimately show ?thesis
      using steerCount_put [OF x wf, of ?z] inv steers by (auto simp: snap_inv_def sizes_ok_def)
  qed
  ultimately show ?thesis
    unfolding put_attempt_def using inv x status by (simp add: put_inv)
qed

lemma new_attempt_inv:
  assumes inv: "snap_inv s" and status: "rs_status s \<noteq> Succeeded" and x: "map_of (rs_occurrences s) k = Some x"
    and run: "oc_state x = OccRunning" and new: "map_of (oc_attempts x) n = None"
    and room: "attemptCount s < MAX_ATTEMPTS"
  shows "snap_inv (put_attempt (k, closeDispatch x) n (newAttempt n t) s)"
proof -
  let ?y = "closeDispatch x"
  let ?z = "?y\<lparr>oc_attempts := map_set n (newAttempt n t) (oc_attempts ?y)\<rparr>"
  have wf: "wf_map (rs_occurrences s)" using inv by (simp add: snap_inv_def)
  have xi: "occ_inv k x" using inv x by (rule snap_occ_inv)
  then have "occ_inv k ?y"
    using closeDispatch_inv [of x] by (simp add: occ_inv_def settled_def anyAttemptRunning_def)
  then have "occ_inv k ?z"
    using newAttempt_inv run by (intro attempt_put_inv) (auto simp: terminalState_def)
  moreover have "settled x \<longrightarrow> settled ?z" by (simp add: settled_def)
  moreover have "attemptCount (put_occurrence k ?z s) \<le> MAX_ATTEMPTS"
    using attemptCount_put [OF x wf, of ?z] room new by (simp add: length_map_set)
  moreover have "steersOf ?z = steersOf x"
    using new by (simp add: steersOf_def map_set_new newAttempt_def)
  then have "steerCount (put_occurrence k ?z s) \<le> MAX_STEERS"
    using steerCount_put [OF x wf, of ?z] inv by (simp add: snap_inv_def sizes_ok_def)
  ultimately show ?thesis
    unfolding put_attempt_def using inv x status by (simp add: put_inv)
qed

lemma new_occurrence_inv:
  assumes "snap_inv s" "rs_status s = Running" "map_of (rs_occurrences s) k = None"
    "length (rs_occurrences s) < MAX_OCCURRENCES" "canonical_text k"
  shows "snap_inv (put_occurrence k (newOccurrence k c i a p) s)"
proof -
  let ?x = "newOccurrence k c i a p"
  have add: "rs_occurrences (put_occurrence k ?x s) = rs_occurrences s @ [(k, ?x)]"
    using assms(3) by (simp add: map_set_new)
  have fresh: "k \<notin> fst ` set (rs_occurrences s)" using assms(3) by (simp add: map_of_eq_None_iff)
  have "attemptCount (put_occurrence k ?x s) = attemptCount s" "steerCount (put_occurrence k ?x s) = steerCount s"
    by (simp_all only: attemptCount_def steerCount_def add)
       (simp_all add: newOccurrence_def steersOf_def)
  moreover have "trace_inv (put_occurrence k ?x s)"
    using assms(1,2,3) by (auto simp: snap_inv_def trace_inv_def list_all_iff map_of_map_set split: if_splits option.splits)
  ultimately show ?thesis
    using assms fresh newOccurrence_inv [OF assms(5)]
    by (simp add: snap_inv_def sizes_ok_def map_set_new)
qed

lemma trace_ordered_inv:
  assumes "snap_inv s" "distinct ids" "list_all (map_has (rs_occurrences s)) ids" "allSettled s"
    "length ids = length (rs_occurrences s)"
  shows "snap_inv (s\<lparr>rs_authoredOrder := ids, rs_traceRecorded := True\<rparr>)"
proof -
  have "list_all (\<lambda>k. case map_of (rs_occurrences s) k of None \<Rightarrow> False | Some x \<Rightarrow> settled x) ids"
    using assms(3,4) by (auto simp: list_all_iff allSettled_def dest!: map_of_SomeD split: option.splits)
  with assms show ?thesis
    by (simp add: snap_inv_def trace_inv_def sizes_ok_def attemptCount_def steerCount_def)
qed

lemma ack_inv:
  assumes "snap_inv s" "map_has (rs_controlAcks s) (ca_controlId a) \<or> length (rs_controlAcks s) < MAX_CONTROLS"
  shows "snap_inv (s\<lparr>rs_controlAcks := map_set (ca_controlId a) a (rs_controlAcks s)\<rparr>)"
proof -
  have "list_all (\<lambda>(c, a). ca_controlId a = c) (map_set (ca_controlId a) a (rs_controlAcks s))"
    using assms(1) by (intro all_map_set [where P = "\<lambda>c a. ca_controlId a = c"]) (auto simp: snap_inv_def)
  with assms show ?thesis
    by (auto simp: snap_inv_def trace_inv_def sizes_ok_def attemptCount_def steerCount_def length_map_set)
qed

theorem snap_step_inv: "snap_step s s' \<Longrightarrow> snap_inv s \<Longrightarrow> \<not> isTerminal (rs_status s) \<Longrightarrow> snap_inv s'"
proof (induction rule: snap_step.induct)
  case (snap_start s st w t p)
  then show ?case by (auto simp: snap_inv_def trace_inv_def sizes_ok_def attemptCount_def steerCount_def)
next
  case (snap_occurrence s k c i a p)
  then show ?case by (intro new_occurrence_inv)
next
  case (snap_attempt s k x n t)
  then show ?case by (intro new_attempt_inv) (auto simp: isTerminal_def)
next
  case (snap_update s k x n a a')
  have a: "att_inv n a"
    using snap_occ_inv [OF snap_update.prems(1) snap_update.hyps(1)] snap_update.hyps(2)
    unfolding occ_inv_def by (blast intro: map_of_all)
  with snap_update show ?case
    using snap_occ_inv [OF snap_update.prems(1) snap_update.hyps(1)] att_step_inv [OF _ a] att_step_steers [OF _ a]
    by (intro put_attempt_inv [where x = x and a = a]) (auto simp: isTerminal_def)
next
  case (snap_steer s k x n a r)
  have x: "occ_inv k x" using snap_steer.prems(1) snap_steer.hyps(1) by (rule snap_occ_inv)
  then have "occ_inv k (x\<lparr>oc_replayable := False\<rparr>)" by (simp add: occ_inv_def settled_def anyAttemptRunning_def)
  moreover have "att_inv n a"
    using x snap_steer.hyps(2) unfolding occ_inv_def by (blast intro: map_of_all)
  then have "att_inv n (a\<lparr>at_steers := at_steers a @ [r]\<rparr>)" by (simp add: att_inv_def)
  ultimately show ?case
    using snap_steer by (intro put_attempt_inv [where x = x and a = a]) (auto simp: isTerminal_def)
next
  case (snap_occ s k x x')
  then show ?case
    using snap_occ_inv [of s k x] occ_step_inv [of x x' k] occ_step_settled [of x x'] occ_step_attempts [of x x']
    by (intro put_same_attempts [where x = x]) (auto simp: isTerminal_def)
next
  case (snap_trace s ids)
  then show ?case by (intro trace_ordered_inv)
next
  case (snap_ack s ack s')
  from snap_ack.hyps(4) have "snap_inv s'"
  proof (elim disjE exE conjE)
    fix k x assume x: "map_of (rs_occurrences s) k = Some x" "oc_personPending x"
      and s': "s' = put_occurrence k (x\<lparr>oc_personPending := False\<rparr>) s"
    have "occ_step x (x\<lparr>oc_personPending := False\<rparr>)" using x(2) by (rule occ_answered)
    moreover have "occ_inv k x" using snap_ack.prems(1) x(1) by (rule snap_occ_inv)
    ultimately show "snap_inv s'"
      unfolding s' using snap_ack.prems x occ_step_inv [of x _ k] occ_step_settled [of x]
      by (intro put_same_attempts [where x = x]) (auto simp: isTerminal_def)
  qed (use snap_ack.prems in simp)
  moreover have "rs_controlAcks s' = rs_controlAcks s" using snap_ack.hyps(4) by auto
  ultimately show ?case using ack_inv [of s' ack] snap_ack.hyps(3) by simp
next
  case (snap_complete s f b r)
  then show ?case by (auto simp: snap_inv_def trace_inv_def sizes_ok_def attemptCount_def steerCount_def)
next
  case (snap_end s st m c)
  then show ?case by (auto simp: snap_inv_def trace_inv_def sizes_ok_def attemptCount_def steerCount_def)
qed simp

section \<open>Journals\<close>

lemma headed_fields [simp]:
  "rs_occurrences (headed e n d s) = rs_occurrences s" "rs_status (headed e n d s) = rs_status s"
  "rs_traceRecorded (headed e n d s) = rs_traceRecorded s" "rs_authoredOrder (headed e n d s) = rs_authoredOrder s"
  "rs_controlAcks (headed e n d s) = rs_controlAcks s" "rs_lastSequence (headed e n d s) = Some n"
  "rs_runId (headed e n d s) = rs_runId s" "rs_eventDigests (headed e n d s) = [(ev_sequence e, d)]"
  "rs_protocolVersion (headed e n d s) = Some (ev_protocolVersion e)"
  by (simp_all add: headed_def)

lemma headed_inv: "snap_inv s \<Longrightarrow> snap_inv (headed e n d s)"
  by (simp add: snap_inv_def sizes_ok_def trace_inv_def attemptCount_def steerCount_def)

text \<open>The steps leave the header of the snapshot alone.\<close>

lemma snap_step_header:
  "snap_step s s' \<Longrightarrow> rs_lastSequence s' = rs_lastSequence s \<and> rs_runId s' = rs_runId s
     \<and> rs_protocolVersion s' = rs_protocolVersion s"
  by (induction rule: snap_step.induct) (auto simp: put_attempt_def)

lemma snap_step_digests: "snap_step s s' \<Longrightarrow> rs_eventDigests s' = rs_eventDigests s"
  by (induction rule: snap_step.induct) (auto simp: put_attempt_def put_occurrence_def)

text \<open>An admitted header is refused once its sequence number is recorded.\<close>

lemma admit_duplicate:
  assumes "admit env s e = Inr (v, n, d)" and "rs_eventDigests t = [(ev_sequence e, d')]"
    and "rs_runId t = ev_runId e" "rs_protocolVersion t = Some (ev_protocolVersion e)"
    and "ev_sequence e' = ev_sequence e" "ev_runId e' = ev_runId e" "ev_timestamp e' = ev_timestamp e"
      "ev_protocolVersion e' = ev_protocolVersion e"
  shows "admit env t e' =
    Inl (if d' = event_digest env e' then js ''duplicate sequence '' @ ev_sequence e
         else js ''conflicting duplicate sequence '' @ ev_sequence e)"
  using assms unfolding admit_def Let_def
  by (auto simp: thenE_Inr check_def split: option.splits)

text \<open>An event that is reduced: the admitted header and one step of the machine.\<close>

lemma reduceEvent_step:
  assumes "reduceEvent env s e = Inr s'"
  obtains n d where "snap_step (headed e n d s) s'" "n = expectedSequence s"
    "n = int (digits_val (ev_sequence e))" "canonical_text (ev_sequence e)" "n \<le> MAX_WORD64"
    "\<not> isTerminal (rs_status s)" "ev_runId e = rs_runId s"
    "rs_protocolVersion s = None \<or> rs_protocolVersion s = Some (ev_protocolVersion e)"
proof -
  obtain v n d where a: "admit env s e = Inr (v, n, d)"
    and "apply_event env (headed e n d s) e v = Inr s'"
    using assms by (auto simp: reduceEvent_Inr)
  then show ?thesis using that apply_event_refines admit_Inr [OF a] by blast
qed

lemma reduceEvent_inv: "reduceEvent env s e = Inr s' \<Longrightarrow> snap_inv s \<Longrightarrow> snap_inv s'"
proof -
  assume "reduceEvent env s e = Inr s'" and inv: "snap_inv s"
  then obtain n d where "snap_step (headed e n d s) s'" "\<not> isTerminal (rs_status s)"
    using reduceEvent_step by blast
  with inv show ?thesis using snap_step_inv headed_inv by simp
qed

lemma initialSnapshot_inv: "snap_inv (initialSnapshot r)"
  by (simp add: snap_inv_def initialSnapshot_def sizes_ok_def trace_inv_def attemptCount_def steerCount_def)

lemma replay_append: "replay env s (es @ fs) = thenE (replay env s es) (\<lambda>s'. replay env s' fs)"
  by (induction es arbitrary: s) (auto simp: thenE_def split: sum.split)

lemma replay_induct [consumes 1, case_names init step]:
  assumes "replay env s es = Inr s'" and "P s []"
    and "\<And>s1 s2 es e. replay env s es = Inr s1 \<Longrightarrow> P s1 es \<Longrightarrow> reduceEvent env s1 e = Inr s2 \<Longrightarrow> P s2 (es @ [e])"
  shows "P s' es"
  using assms(1)
proof (induction es arbitrary: s' rule: rev_induct)
  case Nil
  then show ?case using assms(2) by simp
next
  case (snoc e es)
  then show ?case using assms(3) by (auto simp: replay_append thenE_Inr)
qed

lemma replay_inv: "replay env s es = Inr s' \<Longrightarrow> snap_inv s \<Longrightarrow> snap_inv s'"
  by (induction rule: replay_induct) (auto intro: reduceEvent_inv)

lemma expected_last: "rs_lastSequence s = (if n = 0 then None else Some (int n - 1)) \<Longrightarrow> expectedSequence s = int n"
  by (auto simp: expectedSequence_def split: if_splits)

lemma replay_sequence:
  "replay env (initialSnapshot r) es = Inr s \<Longrightarrow>
   map ev_sequence es = map dec [0..<length es]
   \<and> rs_lastSequence s = (if es = [] then None else Some (int (length es) - 1))
   \<and> list_all (\<lambda>e. ev_runId e = r) es \<and> rs_runId s = r"
proof (induction rule: replay_induct)
  case init
  show ?case by (simp add: initialSnapshot_def)
next
  case (step s1 s2 es e)
  obtain n d where n: "snap_step (headed e n d s1) s2" "n = expectedSequence s1"
    "n = int (digits_val (ev_sequence e))" "canonical_text (ev_sequence e)" "ev_runId e = rs_runId s1"
    using step.hyps(2) by (rule reduceEvent_step)
  have "n = int (length es)" using step.IH n(2) expected_last [of s1 "length es"] by auto
  with n(3,4) have "ev_sequence e = dec (length es)" using dec_digits_val by fastforce
  moreover have "rs_lastSequence s2 = Some n" "rs_runId s2 = rs_runId s1"
    using snap_step_header [OF n(1)] by simp_all
  ultimately show ?case using step.IH n(5) \<open>n = int (length es)\<close> by auto
qed

lemma terminal_refuses: "isTerminal (rs_status s) \<Longrightarrow> \<exists>m. reduceEvent env s e = Inl m"
proof (cases "reduceEvent env s e")
  case (Inr s')
  then show "isTerminal (rs_status s) \<Longrightarrow> ?thesis" using reduceEvent_step [OF Inr] by blast
qed simp

section \<open>What is never undone\<close>

lemma snap_step_occurrence:
  assumes "snap_step s s'" "map_of (rs_occurrences s) k = Some x"
  shows "\<exists>x'. map_of (rs_occurrences s') k = Some x' \<and> (terminalState (oc_state x) \<longrightarrow> oc_state x' = oc_state x)"
  using assms
proof (induction rule: snap_step.induct)
  case (snap_occ s k' y y')
  then show ?case using occ_step_terminal [of y y'] by (auto simp: map_of_map_set)
qed (auto simp: map_of_map_set put_attempt_def)

lemma snap_step_ack:
  assumes "snap_step s s'" "map_of (rs_controlAcks s) c = Some a"
  shows "\<exists>a'. map_of (rs_controlAcks s') c = Some a' \<and> (\<not> provisional (ca_state a) \<longrightarrow> a' = a)
              \<and> ca_command a' = ca_command a \<and> ca_occurrenceId a' = ca_occurrenceId a"
  using assms by (induction rule: snap_step.induct) (auto simp: map_of_map_set put_attempt_def ack_follows_def)

lemma replay_occurrence:
  "replay env s es = Inr s' \<Longrightarrow> map_of (rs_occurrences s) k = Some x \<Longrightarrow>
   \<exists>x'. map_of (rs_occurrences s') k = Some x' \<and> (terminalState (oc_state x) \<longrightarrow> oc_state x' = oc_state x)"
proof (induction rule: replay_induct)
  case (step s1 s2 es e)
  then obtain x1 where x1: "map_of (rs_occurrences s1) k = Some x1" "terminalState (oc_state x) \<longrightarrow> oc_state x1 = oc_state x"
    by blast
  obtain n d where "snap_step (headed e n d s1) s2" using step.hyps(2) by (rule reduceEvent_step)
  with x1 show ?case using snap_step_occurrence [of "headed e n d s1" s2 k x1] by auto
qed auto

lemma replay_ack:
  "replay env s es = Inr s' \<Longrightarrow> map_of (rs_controlAcks s) c = Some a \<Longrightarrow>
   \<exists>a'. map_of (rs_controlAcks s') c = Some a' \<and> (\<not> provisional (ca_state a) \<longrightarrow> a' = a)
        \<and> ca_command a' = ca_command a \<and> ca_occurrenceId a' = ca_occurrenceId a"
proof (induction rule: replay_induct)
  case (step s1 s2 es e)
  then obtain a1 where a1: "map_of (rs_controlAcks s1) c = Some a1" "\<not> provisional (ca_state a) \<longrightarrow> a1 = a"
    "ca_command a1 = ca_command a" "ca_occurrenceId a1 = ca_occurrenceId a"
    by blast
  obtain n d where "snap_step (headed e n d s1) s2" using step.hyps(2) by (rule reduceEvent_step)
  with a1 show ?case using snap_step_ack [of "headed e n d s1" s2 c a1] by auto
qed auto

text \<open>A succeeded run: the authored order is the set of its occurrences, and each is settled.\<close>

lemma succeeded_settled:
  assumes inv: "snap_inv s" and ok: "rs_status s = Succeeded"
  shows "allSettled s" "set (rs_authoredOrder s) = set (map fst (rs_occurrences s))"
    "distinct (rs_authoredOrder s)"
proof -
  have d: "distinct (rs_authoredOrder s)" and len: "length (rs_authoredOrder s) = length (map fst (rs_occurrences s))"
    and in_keys: "\<And>k. k \<in> set (rs_authoredOrder s) \<Longrightarrow> \<exists>x. map_of (rs_occurrences s) k = Some x \<and> settled x"
    using inv ok by (fastforce simp: snap_inv_def trace_inv_def list_all_iff split: if_splits option.splits)+
  have "set (rs_authoredOrder s) \<subseteq> set (map fst (rs_occurrences s))"
    using in_keys by (force dest!: map_of_SomeD)
  then show keys: "set (rs_authoredOrder s) = set (map fst (rs_occurrences s))"
    using distinct_subset_same_length [OF d _ len [symmetric]] by simp
  show "distinct (rs_authoredOrder s)" by (rule d)
  have wf: "wf_map (rs_occurrences s)" using inv by (simp add: snap_inv_def)
  have "settled x" if "(k, x) \<in> set (rs_occurrences s)" for k x
  proof -
    have "k \<in> set (map fst (rs_occurrences s))" using that by force
    then obtain y where "map_of (rs_occurrences s) k = Some y" "settled y"
      using in_keys [of k] keys by auto
    moreover have "map_of (rs_occurrences s) k = Some x" using wf that by (rule map_of_is_SomeI)
    ultimately show ?thesis by simp
  qed
  then show "allSettled s" by (auto simp: allSettled_def list_all_iff)
qed

lemma snapshot_settled:
  assumes "snap_inv s" "(k, x) \<in> set (rs_occurrences s)"
  shows "settled x \<longrightarrow> \<not> anyAttemptRunning x \<and> \<not> oc_personPending x"
proof -
  have "occ_inv k x" using assms by (auto simp: snap_inv_def list_all_iff)
  then show ?thesis by (simp add: occ_inv_def)
qed

lemma settled_success:
  assumes "snap_inv s" and "rs_status s = Succeeded"
  shows "rs_traceRecorded s \<and> distinct (rs_authoredOrder s)
    \<and> set (rs_authoredOrder s) = set (map fst (rs_occurrences s))
    \<and> list_all (\<lambda>(_, x). (oc_state x = OccCompleted \<or> oc_state x = OccReused)
         \<and> \<not> anyAttemptRunning x \<and> \<not> oc_personPending x) (rs_occurrences s)"
proof -
  have all: "allSettled s" using assms by (rule succeeded_settled)
  have each: "settled x \<and> \<not> anyAttemptRunning x \<and> \<not> oc_personPending x" if "(k, x) \<in> set (rs_occurrences s)" for k x
    using snapshot_settled [OF assms(1) that] all that by (auto simp: allSettled_def list_all_iff)
  have "list_all (\<lambda>(_, x). (oc_state x = OccCompleted \<or> oc_state x = OccReused)
         \<and> \<not> anyAttemptRunning x \<and> \<not> oc_personPending x) (rs_occurrences s)"
    unfolding list_all_iff using each [unfolded settled_def] by blast
  moreover have "rs_traceRecorded s" using assms by (simp add: snap_inv_def trace_inv_def)
  ultimately show ?thesis using succeeded_settled [OF assms] by blast
qed

end
