(* ===== verification/SampleRun.thy ===== *)
theory SampleRun
  imports ReducerLaws
begin

text \<open>
  A concrete journal of a run that succeeds: one occurrence, one attempt with output, one
  acknowledged control, the authored trace and the end of the run. The properties of the reducer
  are applied to it.
\<close>

definition plain_platform :: platform where
  "plain_platform = \<lparr>event_digest = (\<lambda>e. ev_sequence e @ ev_type e), date_finite = (\<lambda>_. True),
     letter_or_number = (\<lambda>p. 48 \<le> p \<and> p < 123), number_text = (\<lambda>_. js ''number'')\<rparr>"

definition sample_event :: "nat \<Rightarrow> string \<Rightarrow> (string \<times> js_value) list \<Rightarrow> runtime_event" where
  "sample_event n type fs =
     \<lparr>ev_protocolVersion = Finite 1, ev_runId = js ''run'', ev_sequence = dec n,
      ev_timestamp = JStr (js ''2024-01-01T00:00:00Z''), ev_type = js type,
      ev_fields = map (\<lambda>(k, v). (js k, v)) fs\<rparr>"

definition sample_start :: runtime_event where
  "sample_start = sample_event 0 ''run.started'' [(''workflow'', JStr (js ''w'')), (''target'', JStr (js ''t''))]"

definition sample_occurrence :: runtime_event where
  "sample_occurrence = sample_event 1 ''occurrence.started''
     [(''occurrenceId'', JStr [55]), (''code'', JStr (js ''text'')), (''intent'', JStr (js ''i'')),
      (''addressee'', JStr (js ''model'')), (''prompt'', JStr (js ''p''))]"

definition sample_ack :: runtime_event where
  "sample_ack = sample_event 2 ''control.ack''
     [(''controlId'', JStr (js ''c'')), (''state'', JStr (js ''delivered'')), (''message'', JStr (js ''done''))]"

definition sample_completed :: runtime_event where
  "sample_completed = sample_event 3 ''occurrence.completed''
     [(''occurrenceId'', JStr [55]), (''source'', JStr (js ''s'')), (''answer'', JStr (js ''a''))]"

definition sample_trace :: runtime_event where
  "sample_trace = sample_event 4 ''trace.ordered'' [(''occurrenceIds'', JArr [JStr [55]])]"

definition sample_end :: runtime_event where
  "sample_end = sample_event 5 ''run.completed'' [(''billFresh'', JStr [49]), (''billMemo'', JStr [48])]"

definition sample_before :: "runtime_event list" where
  "sample_before = [sample_start, sample_occurrence, sample_ack, sample_completed]"

definition sample_journal :: "runtime_event list" where
  "sample_journal = sample_before @ [sample_trace, sample_end]"

lemmas sample_defs = sample_start_def sample_occurrence_def sample_ack_def sample_completed_def
  sample_trace_def sample_end_def

lemma sample_time: "utc_text (js ''2024-01-01T00:00:00Z'')"
  by code_simp

lemma sample_numbers:
  "canonical_text [55]" "digit_val 55 = 7" "canonical_text [49]" "canonical_text [48]"
  by code_simp+

lemma sample_control: "name_text plain_platform ''._-'' (js ''c'')"
  by code_simp

text \<open>An event of the sample is admitted when its sequence number is the expected one.\<close>

lemma sample_admitted:
  "\<not> isTerminal (rs_status s) \<Longrightarrow> rs_runId s = js ''run'' \<Longrightarrow>
   rs_protocolVersion s = None \<or> rs_protocolVersion s = Some (Finite 1) \<Longrightarrow>
   expectedSequence s = int n \<Longrightarrow> n < 1000 \<Longrightarrow> map_of (rs_eventDigests s) (dec n) = None \<Longrightarrow>
   reduceEvent plain_platform s (sample_event n type fs) =
   apply_event plain_platform (headed (sample_event n type fs) (int n) (dec n @ js type) s) (sample_event n type fs) 1"
  by (simp add: reduceEvent_def admit_def Let_def thenE_def check_def protocol_version_def js_int_def
      sample_event_def plain_platform_def sample_time MAX_WORD64_def headed_def)

lemma dec_inject [simp]: "dec m = dec n \<longleftrightarrow> m = n"
  using digits_val_dec by metis

lemma dec_zero [simp]: "dec n = [48] \<longleftrightarrow> n = 0" "[48] = dec n \<longleftrightarrow> n = 0"
  using dec_inject [of n 0] by auto

lemmas sample_run = isTerminal_def expectedSequence_def sample_admitted sample_numbers sample_control
  apply_event_def run_started_def occurrence_started_def control_ack_event_def
  occurrence_completed_def trace_ordered_def run_completed_def Let_def check_def textE_def
  put_occurrence_def occurrenceId_def decimalTextE_def naturalText_def occurrenceOf_def
  runtimeControlId_def ACK_STATES_def acknowledge_person_def anyAttemptRunning_def
  string_array_def js_array_def allSettled_def settled_def MAX_OCCURRENCES_def MAX_CONTROLS_def MAX_WORD64_def

lemma sample_field:
  "field (sample_event n type fs) name = map_of fs name"
  by (induction fs) (auto simp: field_def sample_event_def)

lemma sample_type:
  "ev_type (sample_event n type fs) = js type" "ev_sequence (sample_event n type fs) = dec n"
  "ev_protocolVersion (sample_event n type fs) = Finite 1" "ev_runId (sample_event n type fs) = js ''run''"
  by (simp_all add: sample_event_def)

definition sample_snapshot :: run_snapshot where
  "sample_snapshot =
     \<lparr>rs_runId = js ''run'', rs_status = Succeeded, rs_protocolVersion = Some (Finite 1), rs_lastSequence = Some 5,
      rs_workflow = Some (js ''w''), rs_target = Some (js ''t''), rs_personAnswering = None,
      rs_occurrences = [([55], (newOccurrence [55] (js ''text'') (js ''i'') (js ''model'') (js ''p''))
        \<lparr>oc_state := OccCompleted, oc_source := Some (js ''s''), oc_answer := Some (js ''a'')\<rparr>)],
      rs_authoredOrder = [[55]], rs_traceRecorded = True,
      rs_eventDigests = [(dec 5, dec 5 @ js ''run.completed'')],
      rs_controlAcks = [(js ''c'', \<lparr>ca_controlId = js ''c'', ca_state = js ''delivered'', ca_message = js ''done'',
        ca_command = None, ca_occurrenceId = None, ca_attemptId = None\<rparr>)],
      rs_billFresh = Some [49], rs_billMemo = Some [48], rs_result = None, rs_failure = None, rs_failureClass = None\<rparr>"

lemma sample_replay: "replay plain_platform (initialSnapshot (js ''run'')) sample_journal = Inr sample_snapshot"
  unfolding sample_journal_def sample_before_def sample_defs
  by (simp add: initialSnapshot_def sample_run sample_field sample_type headed_def sample_snapshot_def newOccurrence_def)

lemma sample_succeeded: "rs_status sample_snapshot = Succeeded"
  by (simp add: sample_snapshot_def)

lemma sample_terminal: "isTerminal (rs_status sample_snapshot)"
  by (simp add: sample_succeeded isTerminal_def)

lemma sample_journal_nonempty: "sample_journal \<noteq> []"
  by (simp add: sample_journal_def)

definition sample_running :: run_snapshot where
  "sample_running = headed sample_start 0 (dec 0 @ js ''run.started'') (initialSnapshot (js ''run''))
     \<lparr>rs_status := Running, rs_workflow := Some (js ''w''), rs_target := Some (js ''t'')\<rparr>"

lemma sample_first: "reduceEvent plain_platform (initialSnapshot (js ''run'')) sample_start = Inr sample_running"
  unfolding sample_defs sample_running_def
  by (simp add: initialSnapshot_def sample_run sample_field sample_type headed_def)

text \<open>The snapshots after the first four events and after the trace.\<close>

definition sample_settled :: run_snapshot where
  "sample_settled = sample_snapshot\<lparr>rs_status := Running, rs_lastSequence := Some 3, rs_authoredOrder := [],
     rs_traceRecorded := False, rs_eventDigests := [(dec 3, dec 3 @ js ''occurrence.completed'')],
     rs_billFresh := None, rs_billMemo := None\<rparr>"

lemma sample_replay_before: "replay plain_platform (initialSnapshot (js ''run'')) sample_before = Inr sample_settled"
  unfolding sample_before_def sample_defs
  by (simp add: initialSnapshot_def sample_run sample_field sample_type headed_def sample_settled_def
      sample_snapshot_def newOccurrence_def)

lemma sample_replay_rest: "replay plain_platform sample_settled [sample_trace, sample_end] = Inr sample_snapshot"
  using sample_replay sample_replay_before by (simp only: sample_journal_def replay_append thenE_simps)

section \<open>A run that waits for recovery\<close>

definition sample_pending :: runtime_event where
  "sample_pending = sample_event 2 ''occurrence.recovery-pending''
     [(''occurrenceId'', JStr [55]), (''gap'', JStr (js ''g'')), (''message'', JStr (js ''m'')),
      (''choices'', JArr [JObj [(js ''choice'', JStr (js ''retry''))]])]"

definition sample_retry :: recovery_choice where
  "sample_retry = \<lparr>ch_choice = js ''retry'', ch_target = None\<rparr>"

definition sample_recovery :: recovery where
  "sample_recovery = \<lparr>rec_gap = js ''g'', rec_message = js ''m'', rec_retries = [], rec_choices = [sample_retry],
     rec_chosen = None\<rparr>"

definition sample_waiting :: run_snapshot where
  "sample_waiting = sample_running\<lparr>rs_lastSequence := Some 2,
     rs_occurrences := [([55], (newOccurrence [55] (js ''text'') (js ''i'') (js ''model'') (js ''p''))
        \<lparr>oc_state := OccRecovering, oc_recovery := Some sample_recovery\<rparr>)],
     rs_eventDigests := [(dec 2, dec 2 @ js ''occurrence.recovery-pending'')]\<rparr>"

lemma sample_replay_waiting:
  "replay plain_platform (initialSnapshot (js ''run'')) [sample_start, sample_occurrence, sample_pending] = Inr sample_waiting"
  unfolding sample_defs sample_pending_def
  by (simp add: initialSnapshot_def sample_run sample_field sample_type headed_def sample_waiting_def sample_running_def
      sample_defs newOccurrence_def recovery_pending_def recoveryChoice_def asRecord_def optional_string_def
      MAX_OPTIONS_def sample_recovery_def sample_retry_def)

end
