(* ===== verification/RunProperties.thy ===== *)
theory RunProperties
  imports SampleRun
begin

text \<open>
  The properties of the run reducer. The parameter \<open>env\<close> is the platform (digest, date,
  Unicode classes); no property needs an assumption on it. Each witness applies its theorem to
  the journal of \<^theory_text>\<open>SampleRun\<close> on a concrete platform.
\<close>

text \<open>
  C1: Refinement. An event that the reducer accepts has the expected sequence number and the run
  id of the snapshot, the snapshot was not terminal, and the change of the snapshot is one step of
  the abstract machine of runs, occurrences and attempts, after the header is written.
\<close>

theorem reduceEvent_refines_machine:
  assumes "reduceEvent env s e = Inr s'"
  shows "\<exists>d. snap_step (headed e (expectedSequence s) d s) s'
           \<and> int (digits_val (ev_sequence e)) = expectedSequence s
           \<and> ev_runId e = rs_runId s \<and> \<not> isTerminal (rs_status s)"
  using assms by (elim reduceEvent_step) auto

theorem reduceEvent_refines_machine_witness:
  "\<exists>d. snap_step (headed sample_start 0 d (initialSnapshot (js ''run''))) sample_running"
proof -
  have "expectedSequence (initialSnapshot (js ''run'')) = 0"
    by (simp add: expectedSequence_def initialSnapshot_def)
  then show ?thesis using reduceEvent_refines_machine [OF sample_first] by auto
qed

text \<open>
  C2: Invariant. Every snapshot that a journal reduces to from the initial one satisfies the
  invariant \<^term>\<open>snap_inv\<close>: keys are the identities of what they hold, every collection is within its
  bound, a recovering occurrence has an unanswered recovery, a settled one has no running attempt
  and no pending question, dispatch and recovery records are well formed, and the authored order
  lists distinct settled occurrences.
\<close>

theorem replay_keeps_invariant:
  assumes "replay env (initialSnapshot r) es = Inr s"
  shows "snap_inv s"
  using assms initialSnapshot_inv by (rule replay_inv)

theorem replay_keeps_invariant_witness: "snap_inv sample_snapshot"
  by (rule replay_keeps_invariant [OF sample_replay])

text \<open>
  C35: Bounds. However long the journal, the snapshot holds at most 2048 occurrences, 512 attempts,
  256 steering records and 256 acknowledgements, and each attempt at most 64 KiB of output in UTF-8,
  64 messages, 32 summaries, 128 tools and 128 todo items.
\<close>

theorem replay_is_bounded:
  assumes "replay env (initialSnapshot r) es = Inr s"
  shows "length (rs_occurrences s) \<le> 2048 \<and> attemptCount s \<le> 512 \<and> steerCount s \<le> 256
    \<and> length (rs_controlAcks s) \<le> 256
    \<and> list_all (\<lambda>(_, x). list_all (\<lambda>(_, a). byteLength (at_output a) \<le> 65536 \<and> length (at_messages a) \<le> 64
         \<and> length (at_reasoning a) \<le> 32 \<and> length (at_tools a) \<le> 128 \<and> length (at_todos a) \<le> 128)
       (oc_attempts x)) (rs_occurrences s)"
proof -
  have inv: "snap_inv s" using assms initialSnapshot_inv by (rule replay_inv)
  have "list_all (\<lambda>(_, x). list_all (\<lambda>(_, a). byteLength (at_output a) \<le> 65536 \<and> length (at_messages a) \<le> 64
         \<and> length (at_reasoning a) \<le> 32 \<and> length (at_tools a) \<le> 128 \<and> length (at_todos a) \<le> 128)
       (oc_attempts x)) (rs_occurrences s)"
    using inv by (auto simp: snap_inv_def occ_inv_def att_inv_def list_all_iff OUTPUT_TAIL_def)
  with inv show ?thesis
    by (simp add: snap_inv_def sizes_ok_def MAX_OCCURRENCES_def MAX_ATTEMPTS_def MAX_STEERS_def MAX_CONTROLS_def)
qed

theorem replay_is_bounded_witness: "attemptCount sample_snapshot \<le> 512 \<and> steerCount sample_snapshot \<le> 256"
  using replay_is_bounded [OF sample_replay] by simp

text \<open>
  Ordering. A journal that reduces numbers its events 0, 1, 2, ... without gap or repetition, in
  canonical decimal, all with the run id of the snapshot, and the snapshot records the last number.
\<close>

theorem replay_is_contiguous:
  assumes "replay env (initialSnapshot r) es = Inr s"
  shows "map ev_sequence es = map dec [0..<length es]
    \<and> rs_lastSequence s = (if es = [] then None else Some (int (length es) - 1))
    \<and> list_all (\<lambda>e. ev_runId e = r) es"
  using replay_sequence [OF assms] by simp

theorem replay_is_contiguous_witness: "map ev_sequence sample_journal = map dec [0..<length sample_journal]"
  by (rule conjunct1 [OF replay_is_contiguous [OF sample_replay]])

text \<open>
  Termination of a run. A terminal snapshot (succeeded, failed, cancelled or orphaned) accepts no
  further event: the only journal that reduces from it is the empty one.
\<close>

theorem terminal_accepts_nothing:
  assumes "isTerminal (rs_status s)"
  shows "replay env s es = Inr s' \<longleftrightarrow> es = [] \<and> s' = s"
proof (cases es)
  case (Cons e fs)
  obtain m where "reduceEvent env s e = Inl m" using terminal_refuses [OF assms] by blast
  with Cons show ?thesis by simp
qed auto

theorem terminal_accepts_nothing_witness:
  "replay plain_platform sample_snapshot sample_journal \<noteq> Inr sample_snapshot"
  using terminal_accepts_nothing [OF sample_terminal, of plain_platform sample_journal sample_snapshot]
    sample_journal_nonempty by blast

text \<open>
  C3: Safety of success. A run that is reported as succeeded recorded its trace; the trace lists
  every occurrence exactly once; every occurrence completed or was reused, has no running attempt
  and no question waiting for a person.
\<close>

theorem success_is_complete:
  assumes "replay env (initialSnapshot r) es = Inr s" and "rs_status s = Succeeded"
  shows "rs_traceRecorded s \<and> distinct (rs_authoredOrder s)
    \<and> set (rs_authoredOrder s) = set (map fst (rs_occurrences s))
    \<and> list_all (\<lambda>(_, x). (oc_state x = OccCompleted \<or> oc_state x = OccReused)
         \<and> \<not> anyAttemptRunning x \<and> \<not> oc_personPending x) (rs_occurrences s)"
  using replay_inv [OF assms(1) initialSnapshot_inv] assms(2) by (rule settled_success)

theorem success_is_complete_witness:
  "rs_traceRecorded sample_snapshot \<and> set (rs_authoredOrder sample_snapshot) = set (map fst (rs_occurrences sample_snapshot))"
  using success_is_complete [OF sample_replay sample_succeeded] by (elim conjE) (intro conjI)

text \<open>
  Finality of occurrences. Over any further journal an occurrence never disappears, and one that
  completed, was reused or failed keeps that state.
\<close>

theorem occurrence_states_are_final:
  assumes "replay env s es = Inr s'" and "map_of (rs_occurrences s) k = Some x"
  shows "\<exists>x'. map_of (rs_occurrences s') k = Some x'
           \<and> (oc_state x \<in> {OccCompleted, OccReused, OccFailed, OccCancelled} \<longrightarrow> oc_state x' = oc_state x)"
  using replay_occurrence [OF assms] by (auto simp: terminalState_def)

theorem occurrence_states_are_final_witness:
  "\<exists>x'. map_of (rs_occurrences sample_snapshot) [55] = Some x' \<and> oc_state x' = OccCompleted"
proof -
  obtain x where x: "map_of (rs_occurrences sample_settled) [55] = Some x" "oc_state x = OccCompleted"
    by (simp add: sample_settled_def sample_snapshot_def)
  show ?thesis using occurrence_states_are_final [OF sample_replay_rest x(1)] x(2) by auto
qed

text \<open>
  Finality of acknowledgements. Over any further journal the acknowledgement of a control stays
  recorded with its command and target, and one that is not provisional (accepted or queued) is
  never replaced.
\<close>

theorem acknowledgements_are_final:
  assumes "replay env s es = Inr s'" and "map_of (rs_controlAcks s) c = Some a"
  shows "\<exists>a'. map_of (rs_controlAcks s') c = Some a' \<and> ca_command a' = ca_command a
           \<and> ca_occurrenceId a' = ca_occurrenceId a
           \<and> (ca_state a \<noteq> js ''accepted'' \<and> ca_state a \<noteq> js ''queued'' \<longrightarrow> a' = a)"
  using replay_ack [OF assms] by (auto simp: provisional_def)

theorem acknowledgements_are_final_witness:
  "\<exists>a. map_of (rs_controlAcks sample_snapshot) (js ''c'') = Some a \<and> ca_state a = js ''delivered''"
proof -
  obtain a where a: "map_of (rs_controlAcks sample_settled) (js ''c'') = Some a" "ca_state a = js ''delivered''"
    by (simp add: sample_settled_def sample_snapshot_def)
  show ?thesis using acknowledgements_are_final [OF sample_replay_rest a(1)] a(2) by auto
qed

text \<open>
  Redelivery. After an accepted event the same event is refused as a duplicate, and another
  event with its sequence number, admissible in every other respect, as a conflicting duplicate.
\<close>

theorem redelivery_is_refused:
  assumes "reduceEvent env s e = Inr s'"
    and "ev_sequence e' = ev_sequence e" "ev_runId e' = ev_runId e" "ev_timestamp e' = ev_timestamp e"
      "ev_protocolVersion e' = ev_protocolVersion e"
  shows "reduceEvent env s' e' =
    Inl (if event_digest env e' = event_digest env e then js ''duplicate sequence '' @ ev_sequence e
         else js ''conflicting duplicate sequence '' @ ev_sequence e)"
proof -
  obtain v n d where a: "admit env s e = Inr (v, n, d)" and ap: "apply_event env (headed e n d s) e v = Inr s'"
    using assms(1) by (auto simp: reduceEvent_Inr)
  have step: "snap_step (headed e n d s) s'" using ap by (rule apply_event_refines)
  have dig: "rs_eventDigests s' = [(ev_sequence e, event_digest env e)]"
    using snap_step_digests [OF step] admit_Inr(8) [OF a] by simp
  have "rs_runId s' = ev_runId e" "rs_protocolVersion s' = Some (ev_protocolVersion e)"
    using snap_step_header [OF step] admit_Inr(6) [OF a] by simp_all
  then show ?thesis
    using admit_duplicate [OF a] dig assms(2-5) by (simp add: reduceEvent_def)
qed

theorem redelivery_is_refused_witness:
  "reduceEvent plain_platform sample_running sample_start = Inl (js ''duplicate sequence '' @ ev_sequence sample_start)"
  using redelivery_is_refused [OF sample_first, of sample_start] by simp

text \<open>
  Recovery history. In every snapshot an occurrence keeps at most one retry: a new pending
  recovery replaces the record with its retries, so the bound of 64 retries is never reached.
\<close>

theorem one_retry_is_kept:
  assumes "replay env (initialSnapshot r) es = Inr s" and "map_of (rs_occurrences s) k = Some x"
    and "oc_recovery x = Some c"
  shows "length (rec_retries c) \<le> 1 \<and> (oc_state x = OccRecovering \<longrightarrow> rec_retries c = [])
    \<and> distinct (map ch_choice (rec_choices c)) \<and> length (rec_choices c) \<le> 64"
proof -
  have "snap_inv s" using assms(1) initialSnapshot_inv by (rule replay_inv)
  then have "occ_inv k x" using assms(2) by (rule snap_occ_inv)
  with assms(3) show ?thesis by (auto simp: occ_inv_def rec_inv_def MAX_OPTIONS_def)
qed

theorem one_retry_is_kept_witness:
  "length (rec_retries sample_recovery) \<le> 1 \<and> length (rec_choices sample_recovery) \<le> 64"
proof -
  obtain x where x: "map_of (rs_occurrences sample_waiting) [55] = Some x" "oc_recovery x = Some sample_recovery"
    by (simp add: sample_waiting_def)
  show ?thesis using one_retry_is_kept [OF sample_replay_waiting x] by blast
qed

text \<open>
  Output tail. The kept tail of an output is at most 64 KiB in UTF-8, is the whole text when that
  fits, and otherwise consists of the last whole code points of the text (lone surrogates read as
  the replacement character).
\<close>

theorem tail_keeps_last_code_points:
  "byteLength (tail s) \<le> 65536
   \<and> (if byteLength s \<le> 65536 then tail s = s
      else \<exists>before. map utf8_scalar (code_points s) = before @ code_points (tail s))"
proof (cases "byteLength s \<le> OUTPUT_TAIL")
  case True
  then show ?thesis by (simp add: tail_def byteLength_def OUTPUT_TAIL_def)
next
  case False
  then show ?thesis
    by (cases rule: tail_spec [of s]) (auto simp: OUTPUT_TAIL_def code_points_of_scalars)
qed

end
