(* ===== verification/Sse.thy ===== *)
theory Sse
  imports Identifiers
begin

text \<open>
  The incremental server-sent-event parser of the manager client (\<^verbatim>\<open>manager/events.ts\<close>):
  one record per connection, which accepts the bytes of the response in chunks split anywhere.
  Its specification is a machine that reads one byte at a time; the refinement gives that the
  chunking of a response cannot be observed.
\<close>

section \<open>The parser\<close>

definition SSE_BLOCK_BYTES :: nat where
  "SSE_BLOCK_BYTES = 16384"

text \<open>A \<^verbatim>\<open>Chain\<close> is built by prepending, newest first.\<close>

definition oldestFirst :: "'a list \<Rightarrow> 'a list" where
  "oldestFirst chain = rev chain"

record sse_parser =
  pieces :: "u8 list list"
  block_lines :: "u8 list list"
  block_bytes :: nat
  lastId :: "jstr option"

record sse_event =
  event_id :: "jstr option"
  event_name :: jstr
  event_data :: jstr

datatype sse_block = Dispatch sse_event | Advance jstr | Heartbeat

definition newSseParser :: "jstr option \<Rightarrow> sse_parser" where
  "newSseParser lastEventId = \<lparr>pieces = [], block_lines = [], block_bytes = 0, lastId = lastEventId\<rparr>"

definition joinBytes :: "u8 list list \<Rightarrow> u8 list" where
  "joinBytes parts = concat parts"

definition closeSse :: "sse_parser \<Rightarrow> jstr option" where
  "closeSse p = lastId p"

section \<open>One complete block\<close>

text \<open>The field and value of a line that is no comment.\<close>

definition sse_field :: "jstr \<Rightarrow> jstr \<times> jstr" where
  "sse_field line =
     (if 58 \<notin> set line then (line, [])
      else
        (let before = takeWhile (\<lambda>c. c \<noteq> 58) line; v = drop (Suc (length before)) line in
         (before, if starts_with v [32] then tl v else v)))"

definition sse_values :: "jstr \<Rightarrow> (jstr \<times> jstr) list \<Rightarrow> jstr list" where
  "sse_values name fs = map snd (filter (\<lambda>f. fst f = name) fs)"

text \<open>The parts joined with LF.\<close>

fun join_lf :: "jstr list \<Rightarrow> jstr" where
  "join_lf [] = []"
| "join_lf [a] = a"
| "join_lf (a # b # s) = a @ 10 # join_lf (b # s)"

definition blockOf :: "u8 list list \<Rightarrow> (jstr option \<times> sse_block option) option" where
  "blockOf rawLines =
     (case all_some (map utf8_decode rawLines) of
        None \<Rightarrow> None
      | Some texts \<Rightarrow>
          (let fs = map sse_field (filter (\<lambda>line. \<not> starts_with line [58]) texts);
               ids = sse_values (js ''id'') fs;
               names = sse_values (js ''event'') fs;
               payload = sse_values (js ''data'') fs in
           if \<not> list_all validCursor ids then None
           else
             (let ident = (if ids = [] then None else Some (last ids)) in
              Some (ident,
                if payload \<noteq> [] then
                  Some (Dispatch \<lparr>event_id = ident,
                                  event_name = (if names = [] then js ''message'' else last names),
                                  event_data = join_lf payload\<rparr>)
                else case ident of
                  Some i \<Rightarrow> Some (Advance i)
                | None \<Rightarrow> if fs = [] \<and> texts \<noteq> [] then Some Heartbeat else None))))"

section \<open>Feeding a chunk\<close>

text \<open>A final carriage return of a line belongs to its end.\<close>

definition drop_cr :: "u8 list \<Rightarrow> u8 list" where
  "drop_cr line = (if line \<noteq> [] \<and> last line = 13 then butlast line else line)"

text \<open>
  The loop of \<^verbatim>\<open>feedSse\<close>; \<open>rest\<close> is the chunk from \<^verbatim>\<open>offset\<close> on, and every iteration that
  continues consumes at least its LF.
\<close>

function feed_from :: "sse_parser \<Rightarrow> sse_block list \<Rightarrow> u8 list \<Rightarrow> (sse_parser \<times> sse_block list) outcome" where
  "feed_from p blocks rest =
     (if 10 \<notin> set rest then
        (let total = block_bytes p + length rest in
         if total > SSE_BLOCK_BYTES then Inl (Fixed InvalidResponse)
         else Inr (p\<lparr>pieces := (if rest \<noteq> [] then rest # pieces p else pieces p),
                     block_bytes := total\<rparr>, blocks))
      else
        (let before = takeWhile (\<lambda>b. b \<noteq> 10) rest;
             total = block_bytes p + length before + 1;
             line = drop_cr (joinBytes (oldestFirst (before # pieces p)));
             after = drop (length before + 1) rest in
         if total > SSE_BLOCK_BYTES then Inl (Fixed InvalidResponse)
         else if 13 \<in> set line then Inl (Fixed InvalidResponse)
         else if line = [] then
           (case blockOf (oldestFirst (block_lines p)) of
              None \<Rightarrow> Inl (Fixed InvalidResponse)
            | Some (ident, block) \<Rightarrow>
                feed_from
                  \<lparr>pieces = [], block_lines = [], block_bytes = 0,
                   lastId = (case ident of Some i \<Rightarrow> Some i | None \<Rightarrow> lastId p)\<rparr>
                  (case block of Some b \<Rightarrow> blocks @ [b] | None \<Rightarrow> blocks) after)
         else feed_from (p\<lparr>pieces := [], block_lines := line # block_lines p, block_bytes := total\<rparr>)
                blocks after))"
  by pat_completeness auto

lemma after_lf_shorter: "10 \<in> set rest \<Longrightarrow> length rest - Suc (length (takeWhile (\<lambda>b. b \<noteq> (10 :: u8)) rest)) < length rest"
  by (cases rest) auto

termination feed_from
  by (relation "measure (\<lambda>(_, _, rest). length rest)") (auto dest: after_lf_shorter)

declare feed_from.simps [simp del]

definition feedSse :: "sse_parser \<Rightarrow> u8 list \<Rightarrow> (sse_parser \<times> sse_block list) outcome" where
  "feedSse start chunk = feed_from start [] chunk"

section \<open>The machine that reads one byte\<close>

text \<open>
  The specification: the incomplete line, the complete lines of the block, the bytes of the
  block, and the last identifier.
\<close>

record line_state =
  open_line :: "u8 list"
  done_lines :: "u8 list list"
  count :: nat
  seen_id :: "jstr option"

definition end_line :: "line_state \<Rightarrow> (line_state \<times> sse_block list) outcome" where
  "end_line s =
     (let line = drop_cr (open_line s) in
      if 13 \<in> set line then Inl (Fixed InvalidResponse)
      else if line = [] then
        (case blockOf (done_lines s) of
           None \<Rightarrow> Inl (Fixed InvalidResponse)
         | Some (ident, block) \<Rightarrow>
             Inr (\<lparr>open_line = [], done_lines = [], count = 0,
                   seen_id = (case ident of Some i \<Rightarrow> Some i | None \<Rightarrow> seen_id s)\<rparr>,
                  case block of Some b \<Rightarrow> [b] | None \<Rightarrow> []))
      else Inr (s\<lparr>open_line := [], done_lines := done_lines s @ [line], count := count s + 1\<rparr>, []))"

definition byte_step :: "line_state \<Rightarrow> u8 \<Rightarrow> (line_state \<times> sse_block list) outcome" where
  "byte_step s b =
     (if count s + 1 > SSE_BLOCK_BYTES then Inl (Fixed InvalidResponse)
      else if b = 10 then end_line s
      else Inr (s\<lparr>open_line := open_line s @ [b], count := count s + 1\<rparr>, []))"

fun byte_run :: "line_state \<Rightarrow> u8 list \<Rightarrow> (line_state \<times> sse_block list) outcome" where
  "byte_run s [] = Inr (s, [])"
| "byte_run s (b # bs) =
     (case byte_step s b of
        Inl e \<Rightarrow> Inl e
      | Inr (s', out) \<Rightarrow>
          (case byte_run s' bs of Inl e \<Rightarrow> Inl e | Inr (s'', out') \<Rightarrow> Inr (s'', out @ out')))"

definition abs_parser :: "sse_parser \<Rightarrow> line_state" where
  "abs_parser p = \<lparr>open_line = concat (rev (pieces p)), done_lines = rev (block_lines p),
                   count = block_bytes p, seen_id = lastId p\<rparr>"

fun abs_fed :: "(sse_parser \<times> sse_block list) outcome \<Rightarrow> (line_state \<times> sse_block list) outcome" where
  "abs_fed (Inl e) = Inl e"
| "abs_fed (Inr (p, blocks)) = Inr (abs_parser p, blocks)"

end
