(* ===== verification/Events.thy ===== *)
theory Events
  imports Codec Sse Snapshot
begin

text \<open>
  The records of \<^verbatim>\<open>/v1/events\<close> and of a route stream, their decoders and encoders, and the
  failure of a problem response (\<^verbatim>\<open>manager/events.ts\<close>).
\<close>

section \<open>Records\<close>

record invalidation =
  inv_resource :: jstr
  inv_revision :: jstr

record invalidation_event =
  ie_id :: jstr
  ie_name :: jstr
  ie_data :: invalidation

record event_batch =
  eb_cursor :: jstr
  eb_oldestCursor :: jstr
  eb_events :: "invalidation_event list"
  eb_hasMore :: bool

datatype route_payload = Body json_value | Claim jstr int | EventSequence int

record route_record =
  rr_id :: jstr
  rr_class :: jstr
  rr_position :: int
  rr_schema :: jstr
  rr_from :: json_value
  rr_to :: json_value
  rr_about :: json_value
  rr_replyTo :: "int option"
  rr_at :: jstr
  rr_payload :: route_payload

section \<open>Decoders\<close>

definition closed_object :: "json_value option \<Rightarrow> jstr list \<Rightarrow> json_members option" where
  "closed_object value names =
     (case value of
        Some (JObj fs) \<Rightarrow>
          if length fs = length names \<and> list_all (map_has fs) names then Some fs else None
      | _ \<Rightarrow> None)"

definition ONE :: json_value where
  "ONE = JNum (js ''1'')"

definition versionIsOne :: "json_members \<Rightarrow> bool" where
  "versionIsOne fs \<longleftrightarrow>
     (case jsonMember fs (js ''version'') of Some (JNum n) \<Rightarrow> numberEqual n (js ''1'') | _ \<Rightarrow> False)"

definition cursorField :: "json_members \<Rightarrow> jstr \<Rightarrow> jstr option" where
  "cursorField fs name = do {
     value \<leftarrow> textOf (jsonMember fs name);
     require (validCursor value);
     Some value
   }"

definition parseInvalidation :: "json_value option \<Rightarrow> invalidation option" where
  "parseInvalidation value = do {
     fs \<leftarrow> closed_object value [js ''version'', js ''resource'', js ''revision''];
     require (versionIsOne fs);
     resource \<leftarrow> textOf (jsonMember fs (js ''resource''));
     revision \<leftarrow> textOf (jsonMember fs (js ''revision''));
     require (validResource resource \<and> validRevision revision);
     Some \<lparr>inv_resource = resource, inv_revision = revision\<rparr>
   }"

definition parseInvalidationEvent :: "json_value option \<Rightarrow> invalidation_event option" where
  "parseInvalidationEvent value = do {
     fs \<leftarrow> closed_object value [js ''id'', js ''event'', js ''data''];
     ident \<leftarrow> cursorField fs (js ''id'');
     nameText \<leftarrow> textOf (jsonMember fs (js ''event''));
     name \<leftarrow> parseEventName nameText;
     data \<leftarrow> parseInvalidation (jsonMember fs (js ''data''));
     Some \<lparr>ie_id = ident, ie_name = name, ie_data = data\<rparr>
   }"

definition listedEvents :: "json_value option \<Rightarrow> json_value list option" where
  "listedEvents listed =
     (case listed of
        Some (JArr items) \<Rightarrow> if length items > 256 then None else Some items
      | _ \<Rightarrow> None)"

definition parseEventBatch :: "json_value \<Rightarrow> event_batch option" where
  "parseEventBatch value = do {
     fs \<leftarrow> closed_object (Some value)
       [js ''version'', js ''cursor'', js ''oldestCursor'', js ''events'', js ''hasMore''];
     require (versionIsOne fs);
     cursor \<leftarrow> cursorField fs (js ''cursor'');
     oldestCursor \<leftarrow> cursorField fs (js ''oldestCursor'');
     listed \<leftarrow> listedEvents (jsonMember fs (js ''events''));
     hasMore \<leftarrow> boolOf (jsonMember fs (js ''hasMore''));
     events \<leftarrow> all_some (map (\<lambda>item. parseInvalidationEvent (Some item)) listed);
     Some \<lparr>eb_cursor = cursor, eb_oldestCursor = oldestCursor, eb_events = events, eb_hasMore = hasMore\<rparr>
   }"

definition ROUTE_HEADER :: "jstr list" where
  "ROUTE_HEADER = [js ''id'', js ''class'', js ''position'', js ''schema'', js ''from'', js ''to'',
     js ''about'', js ''replyTo'', js ''at'']"

definition parseRoutePayload :: "jstr \<Rightarrow> json_value \<Rightarrow> route_payload option" where
  "parseRoutePayload name value =
     (if name = js ''body'' then Some (Body value)
      else if name = js ''claim'' then do {
        claim \<leftarrow> closed_object (Some value) [js ''sha256'', js ''bytes''];
        sha256 \<leftarrow> textOf (jsonMember claim (js ''sha256''));
        bytes \<leftarrow> word64 (jsonMember claim (js ''bytes''));
        require (sha256_text sha256);
        Some (Claim sha256 bytes)
      }
      else do {
        event \<leftarrow> closed_object (Some value) [js ''sequence''];
        sequence \<leftarrow> word64 (jsonMember event (js ''sequence''));
        Some (EventSequence sequence)
      })"

definition parseRouteRecord :: "json_value \<Rightarrow> route_record option" where
  "parseRouteRecord value = do {
     own \<leftarrow> (case value of JObj fs \<Rightarrow> Some fs | _ \<Rightarrow> None);
     bodyName \<leftarrow> (case filter (map_has own) [js ''body'', js ''claim'', js ''event''] of
        [name] \<Rightarrow> Some name | _ \<Rightarrow> None);
     fs \<leftarrow> closed_object (Some value) (bodyName # ROUTE_HEADER);
     ident \<leftarrow> cursorField fs (js ''id'');
     kind \<leftarrow> textOf (jsonMember fs (js ''class''));
     position \<leftarrow> word64 (jsonMember fs (js ''position''));
     schema \<leftarrow> textOf (jsonMember fs (js ''schema''));
     source \<leftarrow> jsonMember fs (js ''from'');
     target \<leftarrow> jsonMember fs (js ''to'');
     about \<leftarrow> jsonMember fs (js ''about'');
     reply \<leftarrow> jsonMember fs (js ''replyTo'');
     replyTo \<leftarrow> (if reply = JNull then Some None else map_option Some (word64 (Some reply)));
     at_text \<leftarrow> textOf (jsonMember fs (js ''at''));
     require (kind = js ''public'' \<or> kind = js ''actor'');
     routeSchema \<leftarrow> List.find (\<lambda>known. known = schema) ROUTE_SCHEMAS;
     require (\<not> (position \<ge> WORD64_MAX \<or> after_last_dot ident \<noteq> int_text (position + 1)));
     require (source = JStr (js ''manager'') \<or> isJsonObject source);
     require (target = JStr (js ''public'') \<or> isJsonObject target);
     require (isJsonObject about);
     bodyValue \<leftarrow> jsonMember fs bodyName;
     payload \<leftarrow> parseRoutePayload bodyName bodyValue;
     Some \<lparr>rr_id = ident, rr_class = kind, rr_position = position, rr_schema = routeSchema,
           rr_from = source, rr_to = target, rr_about = about, rr_replyTo = replyTo, rr_at = at_text,
           rr_payload = payload\<rparr>
   }"

definition decodeInvalidation :: "json_value \<Rightarrow> invalidation outcome" where
  "decodeInvalidation value = decided (parseInvalidation (Some value))"

definition decodeInvalidationEvent :: "json_value \<Rightarrow> invalidation_event outcome" where
  "decodeInvalidationEvent value = decided (parseInvalidationEvent (Some value))"

definition decodeEventBatch :: "json_value \<Rightarrow> event_batch outcome" where
  "decodeEventBatch value = decided (parseEventBatch value)"

definition decodeRouteRecord :: "json_value \<Rightarrow> route_record outcome" where
  "decodeRouteRecord value = decided (parseRouteRecord value)"

section \<open>Encoders\<close>

definition encodeInvalidation :: "invalidation \<Rightarrow> json_value" where
  "encodeInvalidation i =
     JObj [(js ''version'', ONE), (js ''resource'', JStr (inv_resource i)),
           (js ''revision'', JStr (inv_revision i))]"

definition encodeInvalidationEvent :: "invalidation_event \<Rightarrow> json_value" where
  "encodeInvalidationEvent e =
     JObj [(js ''id'', JStr (ie_id e)), (js ''event'', JStr (ie_name e)),
           (js ''data'', encodeInvalidation (ie_data e))]"

definition encodeEventBatch :: "event_batch \<Rightarrow> json_value" where
  "encodeEventBatch b =
     JObj [(js ''version'', ONE), (js ''cursor'', JStr (eb_cursor b)),
           (js ''oldestCursor'', JStr (eb_oldestCursor b)),
           (js ''events'', JArr (map encodeInvalidationEvent (eb_events b))),
           (js ''hasMore'', JBool (eb_hasMore b))]"

definition encodeRouteRecord :: "route_record \<Rightarrow> json_value" where
  "encodeRouteRecord r =
     JObj ([(js ''id'', JStr (rr_id r)), (js ''class'', JStr (rr_class r)),
            (js ''position'', ofBigInt (rr_position r)), (js ''schema'', JStr (rr_schema r)),
            (js ''from'', rr_from r), (js ''to'', rr_to r), (js ''about'', rr_about r),
            (js ''replyTo'', (case rr_replyTo r of None \<Rightarrow> JNull | Some n \<Rightarrow> ofBigInt n)),
            (js ''at'', JStr (rr_at r))]
         @ (case rr_payload r of
              Body v \<Rightarrow> [(js ''body'', v)]
            | Claim sha bytes \<Rightarrow>
                [(js ''claim'', JObj [(js ''sha256'', JStr sha), (js ''bytes'', ofBigInt bytes)])]
            | EventSequence n \<Rightarrow> [(js ''event'', JObj [(js ''sequence'', ofBigInt n)])]))"

section \<open>Dispatched blocks\<close>

definition blockData :: "sse_event \<Rightarrow> json_value option" where
  "blockData e = tryParseJson (event_data e)"

definition decodeEventBlock :: "sse_event \<Rightarrow> invalidation_event outcome" where
  "decodeEventBlock e =
     (let name = parseEventName (event_name e);
          inv = (case blockData e of None \<Rightarrow> None | Some d \<Rightarrow> parseInvalidation (Some d)) in
      case (event_id e, name, inv) of
        (Some i, Some n, Some d) \<Rightarrow> Inr \<lparr>ie_id = i, ie_name = n, ie_data = d\<rparr>
      | _ \<Rightarrow> Inl (Fixed InvalidResponse))"

definition decodeRouteBlock :: "sse_event \<Rightarrow> route_record outcome" where
  "decodeRouteBlock e =
     (let rec = (case blockData e of None \<Rightarrow> None | Some d \<Rightarrow> parseRouteRecord d) in
      case (event_id e, rec) of
        (Some i, Some r) \<Rightarrow>
          if rr_id r \<noteq> i \<or> event_name e \<noteq> js ''route.'' @ rr_schema r then Inl (Fixed InvalidResponse)
          else Inr r
      | _ \<Rightarrow> Inl (Fixed InvalidResponse))"

section \<open>Problem responses\<close>

text \<open>The status of a response is an integer; \<^verbatim>\<open>Number.isSafeInteger\<close> bounds it.\<close>

definition problemFailure :: "int \<Rightarrow> json_value \<Rightarrow> client_failure" where
  "problemFailure status body =
     (if \<not> (- MAX_SAFE \<le> status \<and> status \<le> MAX_SAFE) then Fixed InvalidResponse
      else
        (case body of
           JObj fs \<Rightarrow>
             (case (jsonMember fs (js ''status''), jsonMember fs (js ''code'')) of
                (Some (JNum stated), Some (JStr code)) \<Rightarrow>
                  if numberEqual stated (int_text status) \<and> validId code then Refused status code
                  else Fixed InvalidResponse
              | _ \<Rightarrow> Fixed InvalidResponse)
         | _ \<Rightarrow> Fixed InvalidResponse))"

section \<open>Laws of the readers\<close>

lemma closed_exact [simp]: "closed_object value names = exact value names"
  by (simp add: closed_object_def exact_def)

lemma versionIsOne_iff:
  "versionIsOne fs \<longleftrightarrow> (\<exists>n. map_of fs (js ''version'') = Some (JNum n) \<and> numberEqual n (js ''1''))"
  by (auto simp: versionIsOne_def jsonMember_def split: option.splits json.splits)

lemma ONE_wf [simp]: "wf_json ONE"
  by (simp add: ONE_def one_text)

lemma numberEqual_refl: "number_grammar n \<Longrightarrow> numberEqual n n"
  by (simp add: numberEqual_exact)

lemma versionIsOne_ONE [simp]: "map_of fs (js ''version'') = Some ONE \<Longrightarrow> versionIsOne fs"
  by (auto simp: versionIsOne_iff ONE_def one_text numberEqual_refl)

lemma versionIsOne_equal:
  "versionIsOne fs \<Longrightarrow> wf_json (JObj fs) \<Longrightarrow> \<exists>y. map_of fs (js ''version'') = Some y \<and> jsonEqual ONE y"
proof -
  assume v: "versionIsOne fs" and wf: "wf_json (JObj fs)"
  then obtain n where n: "map_of fs (js ''version'') = Some (JNum n)" "numberEqual n (js ''1'')"
    by (auto simp: versionIsOne_iff)
  then have "number_grammar n" using wf_member [OF wf n(1)] by simp
  then have "jsonEqual (JNum n) ONE" "wf_json (JNum n)" using n by (simp_all add: ONE_def)
  then show ?thesis using n(1) jsonEqual_sym by auto
qed

lemma cursorField_Some [reads]:
  "cursorField fs name = Some c \<longleftrightarrow> map_of fs name = Some (JStr c) \<and> validCursor c"
  by (auto simp: cursorField_def bind_eq_Some_conv jsonMember_def reads)


section \<open>The formats\<close>

definition invalidation_ok :: "invalidation \<Rightarrow> bool" where
  "invalidation_ok i \<longleftrightarrow> validResource (inv_resource i) \<and> validRevision (inv_revision i)"

definition event_ok :: "invalidation_event \<Rightarrow> bool" where
  "event_ok e \<longleftrightarrow> validCursor (ie_id e) \<and> ie_name e \<in> set EVENT_NAMES \<and> invalidation_ok (ie_data e)"

definition batch_ok :: "event_batch \<Rightarrow> bool" where
  "batch_ok b \<longleftrightarrow> validCursor (eb_cursor b) \<and> validCursor (eb_oldestCursor b)
     \<and> length (eb_events b) \<le> 256 \<and> list_all event_ok (eb_events b)"

lemmas decode_defs = jsonMember_def bind_eq_Some_conv reads

lemma parseInvalidation_Some:
  "parseInvalidation m = Some i \<longleftrightarrow>
     (\<exists>fs. exact m [js ''version'', js ''resource'', js ''revision''] = Some fs \<and> versionIsOne fs
        \<and> map_of fs (js ''resource'') = Some (JStr (inv_resource i))
        \<and> map_of fs (js ''revision'') = Some (JStr (inv_revision i)) \<and> invalidation_ok i)"
  by (cases i) (auto simp: parseInvalidation_def decode_defs invalidation_ok_def)

lemma versionIsOne_sort [simp]: "distinct (map fst fs) \<Longrightarrow> versionIsOne (sort_fields fs) = versionIsOne fs"
  by (cases "map_of fs (js ''version'')") (auto simp: versionIsOne_def member_sort jsonMember_def map_of_sort_fields split: json.splits)

lemma parseInvalidation_sort:
  "wf_json v \<Longrightarrow> parseInvalidation (Some (sort_members v)) = parseInvalidation (Some v)"
  by (cases "exact (Some v) [js ''version'', js ''resource'', js ''revision'']")
    (simp_all add: parseInvalidation_def exact_sort member_sort exact_distinct)

interpretation invalidation: text_codec "\<lambda>v. parseInvalidation (Some v)" encodeInvalidation invalidation_ok
proof
  fix v i assume "wf_json v" "parseInvalidation (Some v) = Some i"
  then show "invalidation_ok i" by (auto simp: parseInvalidation_Some)
next
  fix i assume "invalidation_ok i"
  then show "wf_json (encodeInvalidation i)" "parseInvalidation (Some (encodeInvalidation i)) = Some i"
    by (simp_all add: encodeInvalidation_def parseInvalidation_Some)
next
  fix v i assume v: "wf_json v" and "parseInvalidation (Some v) = Some i"
  then obtain fs where fs: "exact (Some v) [js ''version'', js ''resource'', js ''revision''] = Some fs"
      "versionIsOne fs" "map_of fs (js ''resource'') = Some (JStr (inv_resource i))"
      "map_of fs (js ''revision'') = Some (JStr (inv_revision i))"
    by (auto simp: parseInvalidation_Some)
  have "wf_json (JObj fs)" using fs(1) v by (auto simp: exact_Some)
  with fs versionIsOne_equal show "jsonEqual (encodeInvalidation i) v"
    unfolding encodeInvalidation_def by (intro jsonEqual_exact [OF fs(1)]) auto
next
  fix v assume "wf_json v"
  then show "parseInvalidation (Some (sort_members v)) = parseInvalidation (Some v)"
    by (rule parseInvalidation_sort)
qed

lemma parseInvalidationEvent_Some:
  "parseInvalidationEvent m = Some e \<longleftrightarrow>
     (\<exists>fs. exact m [js ''id'', js ''event'', js ''data''] = Some fs
        \<and> map_of fs (js ''id'') = Some (JStr (ie_id e)) \<and> validCursor (ie_id e)
        \<and> map_of fs (js ''event'') = Some (JStr (ie_name e)) \<and> ie_name e \<in> set EVENT_NAMES
        \<and> parseInvalidation (map_of fs (js ''data'')) = Some (ie_data e))"
  by (cases e) (auto simp: parseInvalidationEvent_def decode_defs)

lemma parseInvalidation_member: "parseInvalidation (map_of fs k) = Some i \<Longrightarrow> \<exists>d. map_of fs k = Some d \<and> parseInvalidation (Some d) = Some i"
  by (cases "map_of fs k") (auto simp: parseInvalidation_Some exact_Some)

lemma cursorField_sort: "distinct (map fst fs) \<Longrightarrow> cursorField (sort_fields fs) k = cursorField fs k"
  by (simp add: cursorField_def member_sort)

interpretation invalidation_event: text_codec "\<lambda>v. parseInvalidationEvent (Some v)" encodeInvalidationEvent event_ok
proof
  fix v e assume v: "wf_json v" and "parseInvalidationEvent (Some v) = Some e"
  then obtain fs where fs: "exact (Some v) [js ''id'', js ''event'', js ''data''] = Some fs"
      "map_of fs (js ''id'') = Some (JStr (ie_id e))" "validCursor (ie_id e)"
      "map_of fs (js ''event'') = Some (JStr (ie_name e))" "ie_name e \<in> set EVENT_NAMES"
      "parseInvalidation (map_of fs (js ''data'')) = Some (ie_data e)"
    by (auto simp: parseInvalidationEvent_Some)
  obtain d where d: "map_of fs (js ''data'') = Some d" "parseInvalidation (Some d) = Some (ie_data e)"
    using parseInvalidation_member [OF fs(6)] by blast
  have wd: "wf_json d" using exact_wf [OF fs(1) v d(1)] .
  show "event_ok e" using fs invalidation.decode_valid [OF wd d(2)] by (simp add: event_ok_def)
  show "jsonEqual (encodeInvalidationEvent e) v"
    unfolding encodeInvalidationEvent_def
    using fs d invalidation.encode_decode [OF wd d(2)] by (intro jsonEqual_exact [OF fs(1)]) auto
next
  fix e assume e: "event_ok e"
  then show "wf_json (encodeInvalidationEvent e)"
    by (simp add: event_ok_def encodeInvalidationEvent_def invalidation.encode_wf)
  show "parseInvalidationEvent (Some (encodeInvalidationEvent e)) = Some e"
    using e by (simp add: event_ok_def encodeInvalidationEvent_def parseInvalidationEvent_Some invalidation.decode_encode)
next
  fix v assume v: "wf_json v"
  show "parseInvalidationEvent (Some (sort_members v)) = parseInvalidationEvent (Some v)"
  proof (cases "exact (Some v) [js ''id'', js ''event'', js ''data'']")
    case (Some fs)
    have "parseInvalidation (map_option sort_members (jsonMember fs (js ''data'')))
        = parseInvalidation (jsonMember fs (js ''data''))"
      using exact_wf [OF Some v, of "js ''data''"]
      by (cases "jsonMember fs (js ''data'')") (auto simp: jsonMember_def parseInvalidation_sort)
    with Some v show ?thesis
      by (simp add: parseInvalidationEvent_def exact_sort member_sort cursorField_sort exact_distinct)
  qed (simp add: parseInvalidationEvent_def exact_sort v)
qed

lemma listedEvents_Some [reads]: "listedEvents m = Some vs \<longleftrightarrow> m = Some (JArr vs) \<and> length vs \<le> 256"
  by (auto simp: listedEvents_def split: option.splits json.splits if_splits)

lemma listedEvents_sort:
  "listedEvents (map_option sort_members m) = map_option (map sort_members) (listedEvents m)"
proof (cases m)
  case (Some v)
  then show ?thesis by (cases v) (auto simp: listedEvents_def)
qed (simp add: listedEvents_def)

lemma parseEventBatch_Some:
  "parseEventBatch v = Some b \<longleftrightarrow>
     (\<exists>fs vs. exact (Some v) [js ''version'', js ''cursor'', js ''oldestCursor'', js ''events'', js ''hasMore''] = Some fs
        \<and> versionIsOne fs
        \<and> map_of fs (js ''cursor'') = Some (JStr (eb_cursor b)) \<and> validCursor (eb_cursor b)
        \<and> map_of fs (js ''oldestCursor'') = Some (JStr (eb_oldestCursor b)) \<and> validCursor (eb_oldestCursor b)
        \<and> map_of fs (js ''events'') = Some (JArr vs) \<and> length vs \<le> 256
        \<and> list_all2 (\<lambda>v e. parseInvalidationEvent (Some v) = Some e) vs (eb_events b)
        \<and> map_of fs (js ''hasMore'') = Some (JBool (eb_hasMore b)))"
  by (cases b) (auto simp: parseEventBatch_def all_some_map_iff listedEvents_Some decode_defs)

interpretation event_batch: text_codec parseEventBatch encodeEventBatch batch_ok
proof
  fix v b assume v: "wf_json v" and "parseEventBatch v = Some b"
  then obtain fs vs where
    fs: "exact (Some v) [js ''version'', js ''cursor'', js ''oldestCursor'', js ''events'', js ''hasMore''] = Some fs"
      "versionIsOne fs"
      "map_of fs (js ''cursor'') = Some (JStr (eb_cursor b))" "validCursor (eb_cursor b)"
      "map_of fs (js ''oldestCursor'') = Some (JStr (eb_oldestCursor b))" "validCursor (eb_oldestCursor b)"
      "map_of fs (js ''events'') = Some (JArr vs)" "length vs \<le> 256"
      "list_all2 (\<lambda>v e. parseInvalidationEvent (Some v) = Some e) vs (eb_events b)"
      "map_of fs (js ''hasMore'') = Some (JBool (eb_hasMore b))"
    by (auto simp: parseEventBatch_Some)
  have wf: "list_all wf_json vs" using exact_wf [OF fs(1) v fs(7)] by simp
  show "batch_ok b"
    using fs invalidation_event.list_decode_valid [OF fs(9) wf] list_all2_lengthD [OF fs(9)]
    by (simp add: batch_ok_def)
  have "wf_json (JObj fs)" using fs(1) v by (auto simp: exact_Some)
  then obtain y where "map_of fs (js ''version'') = Some y" "jsonEqual ONE y"
    using versionIsOne_equal fs(2) by blast
  then show "jsonEqual (encodeEventBatch b) v"
    unfolding encodeEventBatch_def
    using fs(3-10) invalidation_event.list_encode_decode [OF fs(9) wf]
    by (intro jsonEqual_exact [OF fs(1)]) (auto simp del: jsonEqual.simps(5))
next
  fix b assume b: "batch_ok b"
  then show "wf_json (encodeEventBatch b)"
    using invalidation_event.list_encode_wf [of "eb_events b"]
    by (simp add: batch_ok_def encodeEventBatch_def)
  have "list_all2 (\<lambda>v e. parseInvalidationEvent (Some v) = Some e)
      (map encodeInvalidationEvent (eb_events b)) (eb_events b)"
    using b by (auto simp: batch_ok_def list_all2_map1 list_all_iff invalidation_event.decode_encode
        intro!: list.rel_refl_strong)
  with b show "parseEventBatch (encodeEventBatch b) = Some b"
    by (simp add: batch_ok_def encodeEventBatch_def parseEventBatch_Some)
next
  fix v assume v: "wf_json v"
  let ?names = "[js ''version'', js ''cursor'', js ''oldestCursor'', js ''events'', js ''hasMore'']"
  show "parseEventBatch (sort_members v) = parseEventBatch v"
  proof (cases "exact (Some v) ?names")
    case (Some fs)
    have wj: "wf_json (JObj fs)" using Some v by (auto simp: exact_Some)
    note rewr = parseEventBatch_def exact_sort member_sort cursorField_sort exact_distinct [OF Some v] Some v
    show ?thesis
    proof (cases "listedEvents (jsonMember fs (js ''events''))")
      case None
      then show ?thesis by (simp add: rewr listedEvents_sort)
    next
      case items: (Some items)
      then have "list_all wf_json items"
        using wf_member [OF wj, of "js ''events''"] by (simp add: jsonMember_def reads)
      then have "all_some (map (\<lambda>i. parseInvalidationEvent (Some i)) (map sort_members items))
          = all_some (map (\<lambda>i. parseInvalidationEvent (Some i)) items)"
        by (rule invalidation_event.list_decode_sort)
      then show ?thesis by (simp add: rewr listedEvents_sort items comp_def)
    qed
  qed (simp add: parseEventBatch_def exact_sort v)
qed


lemma decodeEventBlock_Inr:
  "decodeEventBlock b = Inr e \<longleftrightarrow>
     event_id b = Some (ie_id e) \<and> parseEventName (event_name b) = Some (ie_name e)
     \<and> (\<exists>d. tryParseJson (event_data b) = Some d \<and> parseInvalidation (Some d) = Some (ie_data e))"
  by (cases e) (auto simp: decodeEventBlock_def blockData_def Let_def split: option.splits)

lemma decodeRouteBlock_Inr:
  "decodeRouteBlock b = Inr r \<longleftrightarrow>
     event_id b = Some (rr_id r) \<and> event_name b = js ''route.'' @ rr_schema r
     \<and> (\<exists>d. tryParseJson (event_data b) = Some d \<and> parseRouteRecord d = Some r)"
  by (auto simp: decodeRouteBlock_def blockData_def Let_def split: option.splits)

lemma problemFailure_Refused:
  "problemFailure status body = Refused n code \<longleftrightarrow>
     n = status \<and> - MAX_SAFE \<le> status \<and> status \<le> MAX_SAFE \<and> validId code \<and>
     (\<exists>fs stated. body = JObj fs \<and> map_of fs (js ''status'') = Some (JNum stated)
        \<and> numberEqual stated (int_text status) \<and> map_of fs (js ''code'') = Some (JStr code))"
  by (auto simp: problemFailure_def jsonMember_def split: json.splits option.splits)

end
