(* ===== verification/Routes.thy ===== *)
theory Routes
  imports Events
begin

text \<open>
  The format of route records: the members that the decoder requires, the records it gives, and
  the encoder as its inverse. A route record keeps four JSON values as they are, so this format
  is a codec and depends on the order of members only inside them.
\<close>

definition payload_name :: "route_payload \<Rightarrow> jstr" where
  "payload_name p = (case p of Body _ \<Rightarrow> js ''body'' | Claim _ _ \<Rightarrow> js ''claim'' | EventSequence _ \<Rightarrow> js ''event'')"

definition payload_value :: "route_payload \<Rightarrow> json_value" where
  "payload_value p =
     (case p of
        Body v \<Rightarrow> v
      | Claim sha bytes \<Rightarrow> JObj [(js ''sha256'', JStr sha), (js ''bytes'', ofBigInt bytes)]
      | EventSequence n \<Rightarrow> JObj [(js ''sequence'', ofBigInt n)])"

definition payload_ok :: "route_payload \<Rightarrow> bool" where
  "payload_ok p =
     (case p of
        Body v \<Rightarrow> wf_json v
      | Claim sha bytes \<Rightarrow> sha256_text sha \<and> 0 \<le> bytes \<and> bytes \<le> WORD64_MAX
      | EventSequence n \<Rightarrow> 0 \<le> n \<and> n \<le> WORD64_MAX)"

definition party_ok :: "jstr \<Rightarrow> json_value \<Rightarrow> bool" where
  "party_ok name v \<longleftrightarrow> (v = JStr name \<or> isJsonObject v) \<and> wf_json v"

definition route_ok :: "route_record \<Rightarrow> bool" where
  "route_ok r \<longleftrightarrow>
     validCursor (rr_id r) \<and> rr_class r \<in> {js ''public'', js ''actor''}
     \<and> 0 \<le> rr_position r \<and> rr_position r < WORD64_MAX
     \<and> after_last_dot (rr_id r) = int_text (rr_position r + 1)
     \<and> rr_schema r \<in> set ROUTE_SCHEMAS
     \<and> party_ok (js ''manager'') (rr_from r) \<and> party_ok (js ''public'') (rr_to r)
     \<and> isJsonObject (rr_about r) \<and> wf_json (rr_about r)
     \<and> (case rr_replyTo r of None \<Rightarrow> True | Some n \<Rightarrow> 0 \<le> n \<and> n \<le> WORD64_MAX)
     \<and> payload_ok (rr_payload r)"

section \<open>Numbers of 64 bits\<close>

lemma word64_Some: "word64 m = Some i \<longleftrightarrow> (\<exists>n. m = Some (JNum n) \<and> boundedInteger n 0 WORD64_MAX = Some i)"
  by (auto simp: word64_def split: option.splits json.splits)

lemma word64_range: "word64 m = Some i \<Longrightarrow> 0 \<le> i \<and> i \<le> WORD64_MAX"
  by (auto simp: word64_Some dest: boundedInteger_range)

lemma word64_ofBigInt [simp]: "0 \<le> i \<Longrightarrow> i \<le> WORD64_MAX \<Longrightarrow> word64 (Some (ofBigInt i)) = Some i"
  by (simp add: word64_Some ofBigInt_def)

lemma word64_equal: "word64 (Some v) = Some i \<Longrightarrow> wf_json v \<Longrightarrow> jsonEqual (ofBigInt i) v"
  by (auto simp: word64_Some ofBigInt_def intro: jsonEqual_number [unfolded jsonEqual.simps])

lemma ofBigInt_wf [simp]: "wf_json (ofBigInt i)"
  by (simp add: ofBigInt_def)

lemma ofBigInt_not_null [simp]: "ofBigInt i \<noteq> JNull"
  by (simp add: ofBigInt_def)

section \<open>Payloads\<close>

lemma parseRoutePayload_name:
  "parseRoutePayload n v = Some p \<Longrightarrow> n \<in> {js ''body'', js ''claim'', js ''event''} \<Longrightarrow> n = payload_name p"
  by (auto simp: parseRoutePayload_def payload_name_def bind_eq_Some_conv split: if_splits)

lemma parseRoutePayload_Some:
  assumes "parseRoutePayload (payload_name p) v = Some p" "wf_json v"
  shows "payload_ok p" and "jsonEqual (payload_value p) v"
proof -
  have "payload_ok p \<and> jsonEqual (payload_value p) v"
  proof (cases p)
    case (Body b)
    with assms show ?thesis by (auto simp: parseRoutePayload_def payload_name_def payload_ok_def payload_value_def intro: jsonEqual_refl)
  next
    case (Claim sha bytes)
    with assms obtain fs where fs: "exact (Some v) [js ''sha256'', js ''bytes''] = Some fs"
        "map_of fs (js ''sha256'') = Some (JStr sha)" "word64 (map_of fs (js ''bytes'')) = Some bytes"
        "sha256_text sha"
      by (auto simp: parseRoutePayload_def payload_name_def decode_defs)
    obtain y where y: "map_of fs (js ''bytes'') = Some y" using fs(3) by (auto simp: word64_Some)
    have "jsonEqual (ofBigInt bytes) y" using word64_equal fs(3) y exact_wf [OF fs(1) assms(2) y] by simp
    then have "jsonEqual (payload_value p) v"
      unfolding Claim payload_value_def route_payload.case using fs y by (intro jsonEqual_exact [OF fs(1)]) auto
    with Claim fs word64_range show ?thesis by (auto simp: payload_ok_def)
  next
    case (EventSequence n)
    with assms obtain fs where fs: "exact (Some v) [js ''sequence''] = Some fs"
        "word64 (map_of fs (js ''sequence'')) = Some n"
      by (auto simp: parseRoutePayload_def payload_name_def decode_defs)
    obtain y where y: "map_of fs (js ''sequence'') = Some y" using fs(2) by (auto simp: word64_Some)
    have "jsonEqual (ofBigInt n) y" using word64_equal fs(2) y exact_wf [OF fs(1) assms(2) y] by simp
    then have "jsonEqual (payload_value p) v"
      unfolding EventSequence payload_value_def route_payload.case using fs y by (intro jsonEqual_exact [OF fs(1)]) auto
    with EventSequence fs word64_range show ?thesis by (auto simp: payload_ok_def)
  qed
  then show "payload_ok p" and "jsonEqual (payload_value p) v" by auto
qed

lemma parseRoutePayload_value: "payload_ok p \<Longrightarrow> parseRoutePayload (payload_name p) (payload_value p) = Some p"
  by (cases p) (auto simp: parseRoutePayload_def payload_name_def payload_value_def payload_ok_def decode_defs)

lemma payload_value_wf: "payload_ok p \<Longrightarrow> wf_json (payload_value p)"
  by (cases p) (auto simp: payload_value_def payload_ok_def)

section \<open>Records\<close>

lemma one_body:
  "filter (map_has fs) [js ''body'', js ''claim'', js ''event''] = [n] \<Longrightarrow> n \<in> {js ''body'', js ''claim'', js ''event''}"
  by (auto split: if_splits)

lemma names_of_exact:
  assumes "exact (Some (JObj fs)) names = Some fs" "distinct names"
  shows "map_has fs k \<longleftrightarrow> k \<in> set names"
proof -
  have len: "length (map fst fs) = length names" and sub: "set names \<subseteq> set (map fst fs)"
    using assms(1) by (auto simp: exact_Some list_all_iff map_of_eq_None_iff)
  have "set (map fst fs) = set names"
    using distinct_subset_same_length(2) [OF assms(2) sub] len by simp
  then show ?thesis by (auto simp: map_of_eq_None_iff)
qed

lemma one_body_exact:
  assumes "exact (Some (JObj fs)) (payload_name p # ROUTE_HEADER) = Some fs"
  shows "filter (map_has fs) [js ''body'', js ''claim'', js ''event''] = [payload_name p]"
proof -
  have d: "distinct (payload_name p # ROUTE_HEADER)"
    by (cases p) (simp_all add: payload_name_def ROUTE_HEADER_def)
  show ?thesis
    by (cases p) (simp_all only: names_of_exact [OF assms d], simp_all add: payload_name_def ROUTE_HEADER_def)
qed

lemma parseRouteRecord_Some:
  "parseRouteRecord v = Some r \<longleftrightarrow>
     (\<exists>fs reply bv. exact (Some v) (payload_name (rr_payload r) # ROUTE_HEADER) = Some fs
        \<and> map_of fs (js ''id'') = Some (JStr (rr_id r)) \<and> validCursor (rr_id r)
        \<and> map_of fs (js ''class'') = Some (JStr (rr_class r)) \<and> rr_class r \<in> {js ''public'', js ''actor''}
        \<and> word64 (map_of fs (js ''position'')) = Some (rr_position r)
        \<and> rr_position r < WORD64_MAX \<and> after_last_dot (rr_id r) = int_text (rr_position r + 1)
        \<and> map_of fs (js ''schema'') = Some (JStr (rr_schema r)) \<and> rr_schema r \<in> set ROUTE_SCHEMAS
        \<and> map_of fs (js ''from'') = Some (rr_from r) \<and> (rr_from r = JStr (js ''manager'') \<or> isJsonObject (rr_from r))
        \<and> map_of fs (js ''to'') = Some (rr_to r) \<and> (rr_to r = JStr (js ''public'') \<or> isJsonObject (rr_to r))
        \<and> map_of fs (js ''about'') = Some (rr_about r) \<and> isJsonObject (rr_about r)
        \<and> map_of fs (js ''replyTo'') = Some reply
        \<and> (case rr_replyTo r of None \<Rightarrow> reply = JNull | Some n \<Rightarrow> reply \<noteq> JNull \<and> word64 (Some reply) = Some n)
        \<and> map_of fs (js ''at'') = Some (JStr (rr_at r))
        \<and> map_of fs (payload_name (rr_payload r)) = Some bv
        \<and> parseRoutePayload (payload_name (rr_payload r)) bv = Some (rr_payload r))" (is "_ \<longleftrightarrow> ?r")
proof
  assume l: "parseRouteRecord v = Some r"
  then obtain fs n where v: "v = JObj fs"
      and n: "filter (map_has fs) [js ''body'', js ''claim'', js ''event''] = [n]"
    by (auto simp: parseRouteRecord_def bind_eq_Some_conv split: json.splits list.splits)
  obtain bv where b: "parseRoutePayload n bv = Some (rr_payload r)"
    using l v n by (auto simp: parseRouteRecord_def bind_eq_Some_conv)
  have nm: "n = payload_name (rr_payload r)"
    using parseRoutePayload_name [OF b one_body [OF n]] .
  show ?r
    using l n unfolding v nm parseRouteRecord_def
    by (cases r; cases "rr_replyTo r") (auto simp: decode_defs find_self not_le split: if_splits)
next
  assume ?r
  then obtain fs reply bv where fs: "exact (Some v) (payload_name (rr_payload r) # ROUTE_HEADER) = Some fs"
      "map_of fs (js ''replyTo'') = Some reply"
      "(case rr_replyTo r of None \<Rightarrow> reply = JNull | Some n \<Rightarrow> reply \<noteq> JNull \<and> word64 (Some reply) = Some n)"
      "map_of fs (payload_name (rr_payload r)) = Some bv"
      "parseRoutePayload (payload_name (rr_payload r)) bv = Some (rr_payload r)"
    and rest: "map_of fs (js ''id'') = Some (JStr (rr_id r))" "validCursor (rr_id r)"
      "map_of fs (js ''class'') = Some (JStr (rr_class r))" "rr_class r \<in> {js ''public'', js ''actor''}"
      "word64 (map_of fs (js ''position'')) = Some (rr_position r)"
      "rr_position r < WORD64_MAX" "after_last_dot (rr_id r) = int_text (rr_position r + 1)"
      "map_of fs (js ''schema'') = Some (JStr (rr_schema r))" "rr_schema r \<in> set ROUTE_SCHEMAS"
      "map_of fs (js ''from'') = Some (rr_from r)" "rr_from r = JStr (js ''manager'') \<or> isJsonObject (rr_from r)"
      "map_of fs (js ''to'') = Some (rr_to r)" "rr_to r = JStr (js ''public'') \<or> isJsonObject (rr_to r)"
      "map_of fs (js ''about'') = Some (rr_about r)" "isJsonObject (rr_about r)"
      "map_of fs (js ''at'') = Some (JStr (rr_at r))"
    by blast
  have v: "v = JObj fs" using fs(1) by (simp add: exact_Some)
  note body = one_body_exact [OF fs(1) [unfolded v]]
  have reply: "(if reply = JNull then Some None else map_option Some (word64 (Some reply))) = Some (rr_replyTo r)"
    using fs(3) by (cases "rr_replyTo r") auto
  show "parseRouteRecord v = Some r"
    unfolding parseRouteRecord_def v json.case Option.bind.simps body list.case
    using fs(1,2,4,5) rest reply v by (simp add: decode_defs find_self not_le)
qed


interpretation route_record: codec parseRouteRecord encodeRouteRecord route_ok
proof
  fix v r assume v: "wf_json v" and d: "parseRouteRecord v = Some r"
  then obtain fs reply bv where ex: "exact (Some v) (payload_name (rr_payload r) # ROUTE_HEADER) = Some fs"
      and fs: "map_of fs (js ''id'') = Some (JStr (rr_id r))" "map_of fs (js ''class'') = Some (JStr (rr_class r))"
      "word64 (map_of fs (js ''position'')) = Some (rr_position r)"
      "map_of fs (js ''schema'') = Some (JStr (rr_schema r))" "map_of fs (js ''from'') = Some (rr_from r)"
      "map_of fs (js ''to'') = Some (rr_to r)" "map_of fs (js ''about'') = Some (rr_about r)"
      "map_of fs (js ''replyTo'') = Some reply" "map_of fs (js ''at'') = Some (JStr (rr_at r))"
      "map_of fs (payload_name (rr_payload r)) = Some bv"
    and reply: "(case rr_replyTo r of None \<Rightarrow> reply = JNull | Some n \<Rightarrow> reply \<noteq> JNull \<and> word64 (Some reply) = Some n)"
    and bv: "parseRoutePayload (payload_name (rr_payload r)) bv = Some (rr_payload r)"
    and ok: "validCursor (rr_id r)" "rr_class r \<in> {js ''public'', js ''actor''}" "rr_position r < WORD64_MAX"
      "after_last_dot (rr_id r) = int_text (rr_position r + 1)" "rr_schema r \<in> set ROUTE_SCHEMAS"
      "rr_from r = JStr (js ''manager'') \<or> isJsonObject (rr_from r)"
      "rr_to r = JStr (js ''public'') \<or> isJsonObject (rr_to r)" "isJsonObject (rr_about r)"
    unfolding parseRouteRecord_Some by blast
  note wf = exact_wf [OF ex v]
  note payload = parseRoutePayload_Some [OF bv wf [OF fs(10)]]
  have reply_ok: "case rr_replyTo r of None \<Rightarrow> True | Some n \<Rightarrow> 0 \<le> n \<and> n \<le> WORD64_MAX"
    using reply word64_range by (auto split: option.splits)
  show "route_ok r"
    unfolding route_ok_def party_ok_def
    using ok wf [OF fs(5)] wf [OF fs(6)] wf [OF fs(7)] word64_range [OF fs(3)] payload(1) reply_ok
    by simp
  obtain pos where pos: "map_of fs (js ''position'') = Some pos" using fs(3) by (auto simp: word64_Some)
  have eqs: "jsonEqual (ofBigInt (rr_position r)) pos" "jsonEqual (rr_from r) (rr_from r)"
      "jsonEqual (rr_to r) (rr_to r)" "jsonEqual (rr_about r) (rr_about r)"
      "jsonEqual (case rr_replyTo r of None \<Rightarrow> JNull | Some n \<Rightarrow> ofBigInt n) reply"
    using word64_equal fs(3) pos wf [OF pos] wf [OF fs(5)] wf [OF fs(6)] wf [OF fs(7)] wf [OF fs(8)] reply
    by (auto intro: jsonEqual_refl split: option.splits)
  have enc: "encodeRouteRecord r =
      JObj ([(js ''id'', JStr (rr_id r)), (js ''class'', JStr (rr_class r)),
            (js ''position'', ofBigInt (rr_position r)), (js ''schema'', JStr (rr_schema r)),
            (js ''from'', rr_from r), (js ''to'', rr_to r), (js ''about'', rr_about r),
            (js ''replyTo'', (case rr_replyTo r of None \<Rightarrow> JNull | Some n \<Rightarrow> ofBigInt n)),
            (js ''at'', JStr (rr_at r))] @ [(payload_name (rr_payload r), payload_value (rr_payload r))])"
    by (cases "rr_payload r") (simp_all add: encodeRouteRecord_def payload_name_def payload_value_def)
  show "jsonEqual (encodeRouteRecord r) v"
    using v
  proof (cases v)
    case (JObj gs)
    then have gs: "gs = fs" "length fs = length (payload_name (rr_payload r) # ROUTE_HEADER)"
      using ex by (auto simp: exact_Some)
    show ?thesis unfolding enc JObj gs(1) jsonEqual.simps
      using gs(2) fs pos eqs payload(2) by (simp add: ROUTE_HEADER_def)
  qed (use ex in \<open>simp_all add: exact_Some\<close>)
next
  fix r assume ok: "route_ok r"
  have enc: "encodeRouteRecord r =
      JObj ([(js ''id'', JStr (rr_id r)), (js ''class'', JStr (rr_class r)),
            (js ''position'', ofBigInt (rr_position r)), (js ''schema'', JStr (rr_schema r)),
            (js ''from'', rr_from r), (js ''to'', rr_to r), (js ''about'', rr_about r),
            (js ''replyTo'', (case rr_replyTo r of None \<Rightarrow> JNull | Some n \<Rightarrow> ofBigInt n)),
            (js ''at'', JStr (rr_at r))] @ [(payload_name (rr_payload r), payload_value (rr_payload r))])"
    (is "_ = JObj ?fs")
    by (cases "rr_payload r") (simp_all add: encodeRouteRecord_def payload_name_def payload_value_def)
  have pn: "payload_name (rr_payload r) \<in> {js ''body'', js ''claim'', js ''event''}"
    by (simp add: payload_name_def split: route_payload.split)
  then have free: "payload_name (rr_payload r) \<notin> set ROUTE_HEADER" by (auto simp: ROUTE_HEADER_def)
  have nw: "wf_json (case rr_replyTo r of None \<Rightarrow> JNull | Some n \<Rightarrow> ofBigInt n)" by (simp split: option.split)
  show "wf_json (encodeRouteRecord r)"
    unfolding enc using ok free nw payload_value_wf
    by (simp add: route_ok_def party_ok_def ROUTE_HEADER_def eq_commute)
  have get: "map_of ?fs (payload_name (rr_payload r)) = Some (payload_value (rr_payload r))"
    using free by (auto simp: ROUTE_HEADER_def)
  have ex: "exact (Some (encodeRouteRecord r)) (payload_name (rr_payload r) # ROUTE_HEADER) = Some ?fs"
    unfolding enc using get by (simp add: exact_Some ROUTE_HEADER_def)
  have "\<forall>n. rr_replyTo r = Some n \<longrightarrow> word64 (Some (ofBigInt n)) = Some n"
    using ok by (auto simp: route_ok_def)
  then show "parseRouteRecord (encodeRouteRecord r) = Some r"
    unfolding parseRouteRecord_Some
    using ex get ok parseRoutePayload_value [of "rr_payload r"]
    by - (rule exI [of _ ?fs], rule exI [of _ "case rr_replyTo r of None \<Rightarrow> JNull | Some n \<Rightarrow> ofBigInt n"],
        rule exI [of _ "payload_value (rr_payload r)"],
        simp add: route_ok_def party_ok_def split: option.split)
qed

end
