(* ===== verification/DraftLaws.thy ===== *)
theory DraftLaws
  imports Drafts
begin

text \<open>
  The formats of requests: which records the decoders give, the encoders as their inverses, and
  the interpretations of the codec contract. A readiness names as missing exactly the declared
  inputs that are not supplied.
\<close>

section \<open>Declarations, inputs and errors\<close>

definition declaration_ok :: "input_declaration \<Rightarrow> bool" where
  "declaration_ok d \<longleftrightarrow> inputNameValid (decl_name d) \<and> decl_source d \<in> set INPUT_SOURCES"

definition supplied_ok :: "supplied_input \<Rightarrow> bool" where
  "supplied_ok s \<longleftrightarrow> inputNameValid (supplied_name s) \<and>
     (case s of Literal _ v \<Rightarrow> bounded v 0 2097152 | Capture _ c \<Rightarrow> validId c)"

definition input_error_ok :: "input_error \<Rightarrow> bool" where
  "input_error_ok e \<longleftrightarrow> inputNameValid (err_name e) \<and> err_code e \<in> set INPUT_ERROR_CODES"

lemma inputName_Some [reads]: "inputName m = Some s \<longleftrightarrow> m = Some (JStr s) \<and> inputNameValid s"
  by (auto simp: inputName_def split: option.splits json.splits)

lemma inputName_sort [simp]: "inputName (map_option sort_members m) = inputName m"
proof (cases m)
  case (Some v)
  then show ?thesis by (cases v) (simp_all add: inputName_def)
qed simp

lemmas reads_defs = jsonMember_def bind_eq_Some_conv reads

lemma STRING_SCHEMA_wf [simp]: "wf_json STRING_SCHEMA"
  by (simp add: STRING_SCHEMA_def)

lemma parseInputDeclaration_Some:
  "parseInputDeclaration v = Some d \<longleftrightarrow>
     (\<exists>fs sch. exact (Some v) [js ''name'', js ''source'', js ''description'', js ''required'', js ''schema''] = Some fs
        \<and> map_of fs (js ''name'') = Some (JStr (decl_name d)) \<and> map_of fs (js ''source'') = Some (JStr (decl_source d))
        \<and> map_of fs (js ''description'') = Some JNull \<and> map_of fs (js ''required'') = Some (JBool True)
        \<and> map_of fs (js ''schema'') = Some sch \<and> jsonEqual sch STRING_SCHEMA \<and> declaration_ok d)"
  by (cases d) (auto simp: parseInputDeclaration_def reads_defs declaration_ok_def)

interpretation input_declaration: text_codec parseInputDeclaration encodeInputDeclaration declaration_ok
proof
  fix v d assume v: "wf_json v" and "parseInputDeclaration v = Some d"
  then obtain fs sch where
    fs: "exact (Some v) [js ''name'', js ''source'', js ''description'', js ''required'', js ''schema''] = Some fs"
      "map_of fs (js ''name'') = Some (JStr (decl_name d))" "map_of fs (js ''source'') = Some (JStr (decl_source d))"
      "map_of fs (js ''description'') = Some JNull" "map_of fs (js ''required'') = Some (JBool True)"
      "map_of fs (js ''schema'') = Some sch" "jsonEqual sch STRING_SCHEMA" and ok: "declaration_ok d"
    by (auto simp: parseInputDeclaration_Some)
  show "declaration_ok d" by (rule ok)
  have "jsonEqual STRING_SCHEMA sch"
    using jsonEqual_sym fs(7) exact_wf [OF fs(1) v fs(6)] by simp
  then show "jsonEqual (encodeInputDeclaration d) v"
    unfolding encodeInputDeclaration_def using fs by (intro jsonEqual_exact [OF fs(1)]) auto
next
  fix d assume "declaration_ok d"
  then show "wf_json (encodeInputDeclaration d)" "parseInputDeclaration (encodeInputDeclaration d) = Some d"
    by (simp_all add: encodeInputDeclaration_def parseInputDeclaration_Some jsonEqual_refl)
next
  fix v assume v: "wf_json v"
  show "parseInputDeclaration (sort_members v) = parseInputDeclaration v"
  proof (cases "exact (Some v) [js ''name'', js ''source'', js ''description'', js ''required'', js ''schema'']")
    case (Some fs)
    have schema: "jsonEqual (sort_members w) STRING_SCHEMA = jsonEqual w STRING_SCHEMA"
      if "jsonMember fs (js ''schema'') = Some w" for w
      using member_wf [OF exact_wf_obj [OF Some v] that] by (simp add: jsonEqual_sort_left)
    show ?thesis using v Some
      by (cases "jsonMember fs (js ''schema'')") (simp_all add: parseInputDeclaration_def sort_rules schema)
  qed (simp add: parseInputDeclaration_def exact_sort v)
qed

lemma parseInputError_Some:
  "parseInputError v = Some e \<longleftrightarrow>
     (\<exists>fs. exact (Some v) [js ''name'', js ''code''] = Some fs
        \<and> map_of fs (js ''name'') = Some (JStr (err_name e)) \<and> map_of fs (js ''code'') = Some (JStr (err_code e))
        \<and> input_error_ok e)"
  by (cases e) (auto simp: parseInputError_def reads_defs input_error_ok_def)

interpretation input_error: text_codec parseInputError encodeInputError input_error_ok
proof
  fix v e assume v: "wf_json v" and "parseInputError v = Some e"
  then obtain fs where fs: "exact (Some v) [js ''name'', js ''code''] = Some fs"
      "map_of fs (js ''name'') = Some (JStr (err_name e))" "map_of fs (js ''code'') = Some (JStr (err_code e))"
      and ok: "input_error_ok e"
    by (auto simp: parseInputError_Some)
  show "input_error_ok e" by (rule ok)
  show "jsonEqual (encodeInputError e) v"
    unfolding encodeInputError_def using fs by (intro jsonEqual_exact [OF fs(1)]) auto
next
  fix e assume "input_error_ok e"
  then show "wf_json (encodeInputError e)" "parseInputError (encodeInputError e) = Some e"
    by (simp_all add: encodeInputError_def parseInputError_Some)
next
  fix v assume v: "wf_json v"
  then show "parseInputError (sort_members v) = parseInputError v"
    by (cases "exact (Some v) [js ''name'', js ''code'']") (simp_all add: parseInputError_def sort_rules)
qed

lemma parseSuppliedInput_Literal:
  "parseSuppliedInput v = Some (Literal n l) \<longleftrightarrow>
     (\<exists>fs. exact (Some v) [js ''name'', js ''source'', js ''value''] = Some fs
        \<and> map_of fs (js ''name'') = Some (JStr n) \<and> map_of fs (js ''source'') = Some (JStr (js ''literal''))
        \<and> map_of fs (js ''value'') = Some (JStr l) \<and> supplied_ok (Literal n l))"
  by (auto simp: parseSuppliedInput_def reads_defs supplied_ok_def exact_Some split: json.splits)

lemma parseSuppliedInput_Capture:
  "parseSuppliedInput v = Some (Capture n c) \<longleftrightarrow>
     (\<exists>fs. exact (Some v) [js ''name'', js ''source'', js ''captureId''] = Some fs
        \<and> map_of fs (js ''name'') = Some (JStr n) \<and> map_of fs (js ''source'') = Some (JStr (js ''capture''))
        \<and> map_of fs (js ''captureId'') = Some (JStr c) \<and> supplied_ok (Capture n c))"
  by (auto simp: parseSuppliedInput_def reads_defs supplied_ok_def exact_Some split: json.splits)

lemma parseSuppliedInput_sort:
  assumes "wf_json v" shows "parseSuppliedInput (sort_members v) = parseSuppliedInput v"
proof (cases v)
  case (JObj fs)
  have d: "distinct (map fst fs)" using assms JObj by simp
  have rd: "exact (Some (sort_members v)) names = map_option sort_fields (exact (Some v) names)" for names
    using assms by (rule exact_sort)
  have only: "exact (Some v) names = Some g \<Longrightarrow> g = fs" for names g using JObj by (simp add: exact_Some)
  have own: "(case sort_members v of JObj gs \<Rightarrow> Some gs | _ \<Rightarrow> None) = Some (sort_fields fs)"
    "(case v of JObj gs \<Rightarrow> Some gs | _ \<Rightarrow> None) = Some fs"
    by (simp_all add: JObj sort_members_obj del: sort_members.simps)
  show ?thesis unfolding parseSuppliedInput_def own rd using d
    by (cases "exact (Some v) [js ''name'', js ''source'', js ''value'']";
        cases "exact (Some v) [js ''name'', js ''source'', js ''captureId'']")
      (simp_all add: member_sort cong: if_cong, (drule only, simp add: member_sort cong: if_cong)+)
qed (simp_all add: parseSuppliedInput_def)

interpretation supplied_input: text_codec parseSuppliedInput encodeSuppliedInput supplied_ok
proof
  fix v s assume v: "wf_json v" and s: "parseSuppliedInput v = Some s"
  show "supplied_ok s" using s by (cases s) (auto simp: parseSuppliedInput_Literal parseSuppliedInput_Capture)
  show "jsonEqual (encodeSuppliedInput s) v"
  proof (cases s)
    case (Literal n l)
    with s obtain fs where fs: "exact (Some v) [js ''name'', js ''source'', js ''value''] = Some fs"
        "map_of fs (js ''name'') = Some (JStr n)" "map_of fs (js ''source'') = Some (JStr (js ''literal''))"
        "map_of fs (js ''value'') = Some (JStr l)" by (auto simp: parseSuppliedInput_Literal)
    then show ?thesis unfolding encodeSuppliedInput_def Literal supplied_input.case
      by (intro jsonEqual_exact [OF fs(1)]) auto
  next
    case (Capture n c)
    with s obtain fs where fs: "exact (Some v) [js ''name'', js ''source'', js ''captureId''] = Some fs"
        "map_of fs (js ''name'') = Some (JStr n)" "map_of fs (js ''source'') = Some (JStr (js ''capture''))"
        "map_of fs (js ''captureId'') = Some (JStr c)" by (auto simp: parseSuppliedInput_Capture)
    then show ?thesis unfolding encodeSuppliedInput_def Capture supplied_input.case
      by (intro jsonEqual_exact [OF fs(1)]) auto
  qed
next
  fix s assume "supplied_ok s"
  then show "wf_json (encodeSuppliedInput s)" "parseSuppliedInput (encodeSuppliedInput s) = Some s"
    by (cases s; simp add: encodeSuppliedInput_def parseSuppliedInput_Literal parseSuppliedInput_Capture)+
qed (rule parseSuppliedInput_sort)


section \<open>Readiness\<close>

definition readiness_ok :: "readiness \<Rightarrow> bool" where
  "readiness_ok r \<longleftrightarrow>
     list_all declaration_ok (rd_declarations r) \<and> list_all supplied_ok (rd_supplied r)
     \<and> list_all input_error_ok (rd_errors r)
     \<and> length (rd_declarations r) \<le> 256 \<and> length (rd_supplied r) \<le> 256
     \<and> length (rd_missing r) \<le> 256 \<and> length (rd_errors r) \<le> 256
     \<and> distinct (map decl_name (rd_declarations r)) \<and> distinct (map supplied_name (rd_supplied r))
     \<and> set (map supplied_name (rd_supplied r)) \<subseteq> set (map decl_name (rd_declarations r))
     \<and> rd_missing r = missing_names (rd_declarations r) (rd_supplied r)"

lemma parseReadiness_Some:
  "parseReadiness m = Some r \<longleftrightarrow>
     (\<exists>fs ds ss es. exact m [js ''declarations'', js ''supplied'', js ''missing'', js ''errors''] = Some fs
        \<and> map_of fs (js ''declarations'') = Some (JArr ds) \<and> map_of fs (js ''supplied'') = Some (JArr ss)
        \<and> map_of fs (js ''missing'') = Some (JArr (map JStr (rd_missing r))) \<and> map_of fs (js ''errors'') = Some (JArr es)
        \<and> list_all2 (\<lambda>v x. parseInputDeclaration v = Some x) ds (rd_declarations r)
        \<and> list_all2 (\<lambda>v x. parseSuppliedInput v = Some x) ss (rd_supplied r)
        \<and> list_all2 (\<lambda>v x. parseInputError v = Some x) es (rd_errors r)
        \<and> length (rd_declarations r) \<le> 256 \<and> length (rd_supplied r) \<le> 256
        \<and> length (rd_missing r) \<le> 256 \<and> length (rd_errors r) \<le> 256
        \<and> distinct (map decl_name (rd_declarations r)) \<and> distinct (map supplied_name (rd_supplied r))
        \<and> set (map supplied_name (rd_supplied r)) \<subseteq> set (map decl_name (rd_declarations r))
        \<and> rd_missing r = missing_names (rd_declarations r) (rd_supplied r))"
  by (cases r) (auto simp: parseReadiness_def Let_def jsonMember_def bind_eq_Some_conv listOf_Some [where p = parseInputDeclaration]
      listOf_Some [where p = parseSuppliedInput] listOf_Some [where p = parseInputError] listOf_textOf list_all_iff)

lemma readiness_sort:
  assumes v: "wf_json v"
  shows "parseReadiness (Some (sort_members v)) = parseReadiness (Some v)"
proof (cases "exact (Some v) [js ''declarations'', js ''supplied'', js ''missing'', js ''errors'']")
  case (Some fs)
  note wf = exact_wf_obj [OF Some v]
  show ?thesis using v Some
    by (simp add: parseReadiness_def exact_sort member_sort exact_distinct [OF Some v]
        listOf_sort [OF wf] input_declaration.decode_sort parseSuppliedInput_sort input_error.decode_sort)
qed (simp add: parseReadiness_def exact_sort v)

interpretation readiness: text_codec "\<lambda>v. parseReadiness (Some v)" encodeReadiness readiness_ok
proof
  fix v r assume v: "wf_json v" and r: "parseReadiness (Some v) = Some r"
  then obtain fs ds ss es where
    fs: "exact (Some v) [js ''declarations'', js ''supplied'', js ''missing'', js ''errors''] = Some fs"
      "map_of fs (js ''declarations'') = Some (JArr ds)" "map_of fs (js ''supplied'') = Some (JArr ss)"
      "map_of fs (js ''missing'') = Some (JArr (map JStr (rd_missing r)))" "map_of fs (js ''errors'') = Some (JArr es)"
      and ds: "list_all2 (\<lambda>v x. parseInputDeclaration v = Some x) ds (rd_declarations r)"
      and ss: "list_all2 (\<lambda>v x. parseSuppliedInput v = Some x) ss (rd_supplied r)"
      and es: "list_all2 (\<lambda>v x. parseInputError v = Some x) es (rd_errors r)"
    unfolding parseReadiness_Some by blast
  have wf: "list_all wf_json ds" "list_all wf_json ss" "list_all wf_json es"
    using exact_wf [OF fs(1) v fs(2)] exact_wf [OF fs(1) v fs(3)] exact_wf [OF fs(1) v fs(5)] by simp_all
  show "readiness_ok r"
    using r input_declaration.list_decode_valid [OF ds wf(1)] supplied_input.list_decode_valid [OF ss wf(2)]
      input_error.list_decode_valid [OF es wf(3)]
    unfolding parseReadiness_Some readiness_ok_def by blast
  show "jsonEqual (encodeReadiness r) v"
    unfolding encodeReadiness_def
    using fs input_declaration.list_encode_decode [OF ds wf(1)] supplied_input.list_encode_decode [OF ss wf(2)]
      input_error.list_encode_decode [OF es wf(3)]
    by (intro jsonEqual_exact [OF fs(1)]) (simp_all del: jsonEqual.simps(5))
next
  fix r assume r: "readiness_ok r"
  then show "wf_json (encodeReadiness r)"
    using input_declaration.list_encode_wf [of "rd_declarations r"] supplied_input.list_encode_wf [of "rd_supplied r"]
      input_error.list_encode_wf [of "rd_errors r"]
    by (simp add: readiness_ok_def encodeReadiness_def)
  have l: "list_all2 (\<lambda>v x. parseInputDeclaration v = Some x) (map encodeInputDeclaration (rd_declarations r)) (rd_declarations r)"
    "list_all2 (\<lambda>v x. parseSuppliedInput v = Some x) (map encodeSuppliedInput (rd_supplied r)) (rd_supplied r)"
    "list_all2 (\<lambda>v x. parseInputError v = Some x) (map encodeInputError (rd_errors r)) (rd_errors r)"
    using r by (auto simp: readiness_ok_def list_all2_map1 list_all_iff input_declaration.decode_encode
        supplied_input.decode_encode input_error.decode_encode intro!: list.rel_refl_strong)
  show "parseReadiness (Some (encodeReadiness r)) = Some r"
    unfolding parseReadiness_Some encodeReadiness_def using l r unfolding readiness_ok_def by (simp, metis)
qed (rule readiness_sort)


section \<open>Requests\<close>

definition admission_ok :: "admission \<Rightarrow> bool" where
  "admission_ok a \<longleftrightarrow>
     adm_state a \<in> set ADMISSION_STATES \<and> (\<forall>n \<in> set_option (adm_position a). 1 \<le> n \<and> n \<le> 100)
     \<and> length (adm_reasons a) \<le> 8 \<and> distinct (adm_reasons a) \<and> set (adm_reasons a) \<subseteq> set ADMISSION_REASONS"

definition draft_ok :: "draft_view \<Rightarrow> bool" where
  "draft_ok d \<longleftrightarrow>
     list_all validId [dv_id d, dv_revision d, dv_workflowId d, dv_descriptorRevision d, dv_profileId d, dv_profileRevision d]
     \<and> dv_phase d \<in> set REQUEST_PHASES \<and> readiness_ok (dv_readiness d) \<and> admission_ok (dv_admission d)
     \<and> (\<forall>s \<in> set_option (dv_preparationId d). validId s) \<and> (\<forall>s \<in> set_option (dv_runId d). validId s)
     \<and> (\<forall>s \<in> set_option (dv_parentRunId d). validId s) \<and> (\<forall>s \<in> set_option (dv_lineage d). s \<in> set LINEAGE_OPERATIONS)"

lemma nullable_identity: "nullable m identity_member = Some t \<longleftrightarrow>
    m = Some (text_or_null t) \<and> (\<forall>s \<in> set_option t. validId s)"
  by (rule nullable_text) (auto simp: identity_member_def split: json.splits)

definition draft_names :: "jstr list" where
  "draft_names = [js ''version'', js ''id'', js ''revision'', js ''workflowId'',
     js ''descriptorRevision'', js ''profileId'', js ''profileRevision'', js ''phase'', js ''readiness'',
     js ''admission'', js ''preparationId'', js ''runId'', js ''parentRunId'', js ''lineage'', js ''links'']"

definition self_link :: "jstr \<Rightarrow> json_value" where
  "self_link s = JObj [(js ''self'', JStr (js ''/v1/requests/'' @ s))]"

lemma self_link_wf [simp]: "wf_json (self_link s)"
  by (simp add: self_link_def)

text \<open>The members that a request states; the admission and the links are read further.\<close>

definition draft_members :: "json_members \<Rightarrow> draft_view \<Rightarrow> bool" where
  "draft_members fs d \<longleftrightarrow>
     versionOne fs
     \<and> map_of fs (js ''id'') = Some (JStr (dv_id d)) \<and> map_of fs (js ''revision'') = Some (JStr (dv_revision d))
     \<and> map_of fs (js ''workflowId'') = Some (JStr (dv_workflowId d))
     \<and> map_of fs (js ''descriptorRevision'') = Some (JStr (dv_descriptorRevision d))
     \<and> map_of fs (js ''profileId'') = Some (JStr (dv_profileId d))
     \<and> map_of fs (js ''profileRevision'') = Some (JStr (dv_profileRevision d))
     \<and> list_all validId [dv_id d, dv_revision d, dv_workflowId d, dv_descriptorRevision d, dv_profileId d, dv_profileRevision d]
     \<and> map_of fs (js ''phase'') = Some (JStr (dv_phase d)) \<and> dv_phase d \<in> set REQUEST_PHASES
     \<and> parseReadiness (map_of fs (js ''readiness'')) = Some (dv_readiness d)
     \<and> map_of fs (js ''preparationId'') = Some (text_or_null (dv_preparationId d))
     \<and> (\<forall>s \<in> set_option (dv_preparationId d). validId s)
     \<and> map_of fs (js ''runId'') = Some (text_or_null (dv_runId d)) \<and> (\<forall>s \<in> set_option (dv_runId d). validId s)
     \<and> map_of fs (js ''parentRunId'') = Some (text_or_null (dv_parentRunId d))
     \<and> (\<forall>s \<in> set_option (dv_parentRunId d). validId s)
     \<and> map_of fs (js ''lineage'') = Some (text_or_null (dv_lineage d))
     \<and> (\<forall>s \<in> set_option (dv_lineage d). s \<in> set LINEAGE_OPERATIONS)
     \<and> (\<exists>links. map_of fs (js ''links'') = Some links \<and> jsonEqual links (self_link (dv_id d)))"

definition admission_members :: "json_members \<Rightarrow> admission \<Rightarrow> bool" where
  "admission_members fs a \<longleftrightarrow>
     map_of fs (js ''state'') = Some (JStr (adm_state a)) \<and> adm_state a \<in> set ADMISSION_STATES
     \<and> nullable (map_of fs (js ''position'')) (\<lambda>v. intOf (Some v) 1 100) = Some (adm_position a)
     \<and> map_of fs (js ''reasons'') = Some (JArr (map JStr (adm_reasons a))) \<and> length (adm_reasons a) \<le> 8
     \<and> set (adm_reasons a) \<subseteq> set ADMISSION_REASONS \<and> distinct (adm_reasons a)"


lemma parseDraftView_members:
  assumes "parseDraftView v = Some d"
  shows "\<exists>fs adm. exact (Some v) draft_names = Some fs
        \<and> exact (map_of fs (js ''admission'')) [js ''state'', js ''position'', js ''reasons''] = Some adm
        \<and> admission_members adm (dv_admission d) \<and> draft_members fs d"
  using assms
  unfolding parseDraftView_def draft_names_def [symmetric] self_link_def [symmetric]
  by (elim bind_Some_elim)
    (clarsimp simp: jsonMember_def textOf_Some oneOf_Some listOf_oneOf nullable_identity nullable_oneOf
        admission_members_def draft_members_def)

lemma parseDraftView_written:
  assumes "exact (Some v) draft_names = Some fs"
    "exact (map_of fs (js ''admission'')) [js ''state'', js ''position'', js ''reasons''] = Some adm"
    "admission_members adm (dv_admission d)" "draft_members fs d"
  shows "parseDraftView v = Some d"
proof -
  obtain links where l: "map_of fs (js ''links'') = Some links" "jsonEqual links (self_link (dv_id d))"
    using assms(4) by (auto simp: draft_members_def)
  have n: "nullable (map_of fs (js ''preparationId'')) identity_member = Some (dv_preparationId d)"
    "nullable (map_of fs (js ''runId'')) identity_member = Some (dv_runId d)"
    "nullable (map_of fs (js ''parentRunId'')) identity_member = Some (dv_parentRunId d)"
    "nullable (map_of fs (js ''lineage'')) (\<lambda>v. oneOf (Some v) LINEAGE_OPERATIONS) = Some (dv_lineage d)"
    "listOf (map_of adm (js ''reasons'')) (\<lambda>v. oneOf (Some v) ADMISSION_REASONS) (Some 8) = Some (adm_reasons (dv_admission d))"
    "oneOf (map_of fs (js ''phase'')) REQUEST_PHASES = Some (dv_phase d)"
    "oneOf (map_of adm (js ''state'')) ADMISSION_STATES = Some (adm_state (dv_admission d))"
    using assms(3,4) by (simp_all add: admission_members_def draft_members_def nullable_identity nullable_oneOf listOf_oneOf oneOf_Some)
  show ?thesis
    unfolding parseDraftView_def draft_names_def [symmetric] self_link_def [symmetric] jsonMember_def
    using assms(1,2) n l assms(3,4)
    by (simp add: admission_members_def draft_members_def textOf_def require_def)
qed


lemma readiness_member:
  "parseReadiness (map_of fs k) = Some r \<Longrightarrow> \<exists>y. map_of fs k = Some y \<and> parseReadiness (Some y) = Some r"
  by (cases "map_of fs k") (auto simp: parseReadiness_Some exact_Some)

lemma draft_sort:
  assumes v: "wf_json v"
  shows "parseDraftView (sort_members v) = parseDraftView v"
proof (cases "exact (Some v) draft_names")
  case (Some fs)
  note wf = exact_wf_obj [OF Some v]
  have ready: "parseReadiness (map_option sort_members (jsonMember fs (js ''readiness''))) = parseReadiness (jsonMember fs (js ''readiness''))"
    using member_wf [OF wf, of "js ''readiness''"]
    by (cases "jsonMember fs (js ''readiness'')") (simp_all add: readiness_sort)
  have links: "jsonEqual (sort_members w) (self_link i) = jsonEqual w (self_link i)"
    if "jsonMember fs (js ''links'') = Some w" for w i
    using member_wf [OF wf that] by (simp add: jsonEqual_sort_left)
  have id: "identity_member (sort_members w) = identity_member w" for w
    by (cases w) (simp_all add: identity_member_def)
  let ?adm = "\<lambda>m. exact m [js ''state'', js ''position'', js ''reasons'']"
  have rest: "parseDraftView (sort_members v) = parseDraftView v"
    if adm: "?adm (map_option sort_members (jsonMember fs (js ''admission''))) = map_option sort_fields (?adm (jsonMember fs (js ''admission'')))"
      and wa: "\<And>g. ?adm (jsonMember fs (js ''admission'')) = Some g \<Longrightarrow> wf_json (JObj g)"
  proof (cases "?adm (jsonMember fs (js ''admission''))")
    case None
    then show ?thesis unfolding parseDraftView_def draft_names_def [symmetric] self_link_def [symmetric] using v Some
      by (simp add: exact_sort member_sort exact_distinct [OF Some v] adm)
  next
    case g: (Some g)
    have d: "distinct (map fst g)" using wa [OF g] by simp
    show ?thesis unfolding parseDraftView_def draft_names_def [symmetric] self_link_def [symmetric] using v Some g
      by (cases "jsonMember fs (js ''links'')")
        (simp_all add: exact_sort member_sort exact_distinct [OF Some v] adm d versionOne_sort ready links id
          nullable_sort [OF wf] nullable_sort [OF wa [OF g]] listOf_sort [OF wa [OF g]])
  qed
  show ?thesis
  proof (cases "jsonMember fs (js ''admission'')")
    case None
    then show ?thesis by (intro rest) (simp_all add: exact_def)
  next
    case w: (Some w)
    have ww: "wf_json w" using member_wf [OF wf w] .
    show ?thesis
    proof (rule rest)
      fix g assume "?adm (jsonMember fs (js ''admission'')) = Some g"
      then show "wf_json (JObj g)" using exact_wf_obj ww w by metis
    qed (use ww w in \<open>simp add: exact_sort\<close>)
  qed
qed (simp add: parseDraftView_def draft_names_def [symmetric] exact_sort v)

interpretation draft_view: text_codec parseDraftView encodeDraftView draft_ok
proof
  fix v d assume v: "wf_json v" and "parseDraftView v = Some d"
  from parseDraftView_members [OF this(2)] obtain fs adm where fs: "exact (Some v) draft_names = Some fs"
      and adm: "exact (map_of fs (js ''admission'')) [js ''state'', js ''position'', js ''reasons''] = Some adm"
      and am: "admission_members adm (dv_admission d)" and dm: "draft_members fs d" by blast
  note wf = exact_wf [OF fs v]
  obtain rv where rv: "map_of fs (js ''readiness'') = Some rv" "parseReadiness (Some rv) = Some (dv_readiness d)"
    using readiness_member [of fs "js ''readiness''"] dm unfolding draft_members_def by blast
  show "draft_ok d" unfolding draft_ok_def admission_ok_def
    using am dm readiness.decode_valid [OF wf [OF rv(1)] rv(2)] nullable_intOf_range
    by (auto simp: admission_members_def draft_members_def)
  obtain av where av: "map_of fs (js ''admission'') = Some av" using adm by (auto simp: exact_Some)
  obtain links where links: "map_of fs (js ''links'') = Some links" "jsonEqual links (self_link (dv_id d))"
    using dm by (auto simp: draft_members_def)
  obtain y where y: "map_of adm (js ''position'') = Some y" "jsonEqual (int_or_null (adm_position (dv_admission d))) y"
    using am exact_wf [OF adm [unfolded av] wf [OF av], of "js ''position''"] nullable_intOf_equal
    unfolding admission_members_def by metis
  have "jsonEqual (JObj [(js ''state'', JStr (adm_state (dv_admission d))),
       (js ''position'', int_or_null (adm_position (dv_admission d))),
       (js ''reasons'', JArr (map JStr (adm_reasons (dv_admission d))))]) av"
    using am y by (intro jsonEqual_exact [OF adm [unfolded av]]) (auto simp: admission_members_def simp del: jsonEqual.simps(5))
  moreover have "jsonEqual (self_link (dv_id d)) links"
    using jsonEqual_sym links(2) wf [OF links(1)] by simp
  moreover obtain ver where "map_of fs (js ''version'') = Some ver" "jsonEqual (JNum (js ''1'')) ver"
    using versionOne_equal [OF _ exact_wf_obj [OF fs v]] dm unfolding draft_members_def by blast
  ultimately show "jsonEqual (encodeDraftView d) v"
    unfolding encodeDraftView_def self_link_def [symmetric]
    using dm rv av links(1) readiness.encode_decode [OF wf [OF rv(1)] rv(2)]
    by (intro jsonEqual_exact [OF fs]) (simp_all add: draft_names_def draft_members_def del: jsonEqual.simps(5,6))
next
  fix d assume d: "draft_ok d"
  then have r: "wf_json (encodeReadiness (dv_readiness d))" "parseReadiness (Some (encodeReadiness (dv_readiness d))) = Some (dv_readiness d)"
    using readiness.encode_wf readiness.decode_encode by (auto simp: draft_ok_def)
  show "wf_json (encodeDraftView d)"
    unfolding encodeDraftView_def self_link_def [symmetric] using r by simp
  have p: "nullable (Some (int_or_null (adm_position (dv_admission d)))) (\<lambda>v. intOf (Some v) 1 100) = Some (adm_position (dv_admission d))"
    using d by (intro nullable_intOf_written) (simp add: draft_ok_def admission_ok_def)
  obtain fs where fs: "encodeDraftView d = JObj fs" and names: "map fst fs = draft_names"
    by (simp add: encodeDraftView_def draft_names_def)
  obtain adm where adm: "map_of fs (js ''admission'') = Some (JObj adm)"
      and names': "map fst adm = [js ''state'', js ''position'', js ''reasons'']"
      and am: "admission_members adm (dv_admission d)"
    using fs d p by (auto simp: encodeDraftView_def draft_ok_def admission_ok_def admission_members_def)
  show "parseDraftView (encodeDraftView d) = Some d"
  proof (rule parseDraftView_written)
    show "exact (Some (encodeDraftView d)) draft_names = Some fs" unfolding fs using names by (rule exact_self)
    show "exact (map_of fs (js ''admission'')) [js ''state'', js ''position'', js ''reasons''] = Some adm"
      unfolding adm using names' by (rule exact_self)
    show "draft_members fs d"
      using fs d r by (auto simp: encodeDraftView_def self_link_def [symmetric] draft_ok_def draft_members_def jsonEqual_refl)
  qed (rule am)
qed (rule draft_sort)

end
