(* ===== verification/Schemas.thy ===== *)
theory Schemas
  imports Readers
begin

text \<open>
  Observation codes and semantic schemas (\<^verbatim>\<open>manager/resources.ts\<close>): a schema is a primitive, an
  array of one item schema, or a chain of named properties, nested at most as deep as the rule of
  its owner allows. The specification is the tree that a schema denotes.
\<close>

record depth_rule =
  dr_step :: nat
  dr_deepest :: nat

definition REVIEW_DEPTH :: depth_rule where
  "REVIEW_DEPTH = \<lparr>dr_step = 2, dr_deepest = 64\<rparr>"

definition DECISION_DEPTH :: depth_rule where
  "DECISION_DEPTH = \<lparr>dr_step = 1, dr_deepest = 63\<rparr>"

definition SEMANTIC_PRIMITIVES :: "jstr list" where
  "SEMANTIC_PRIMITIVES = [js ''null'', js ''boolean'', js ''integer'', js ''number'', js ''string'', js ''object'']"

definition hasMember :: "json_value \<Rightarrow> jstr \<Rightarrow> bool" where
  "hasMember value name = (case value of JObj fs \<Rightarrow> map_has fs name | _ \<Rightarrow> False)"

text \<open>The items of an array schema, and the parts of a property.\<close>

definition array_items :: "json_value \<Rightarrow> json_value option" where
  "array_items value = do {
     outer \<leftarrow> exact (Some value) [js ''array''];
     array \<leftarrow> exact (jsonMember outer (js ''array'')) [js ''items''];
     jsonMember array (js ''items'')
   }"

definition property_parts :: "json_value \<Rightarrow> (jstr \<times> json_value \<times> json_value) option" where
  "property_parts value = do {
     outer \<leftarrow> exact (Some value) [js ''property''];
     property \<leftarrow> exact (jsonMember outer (js ''property'')) [js ''name'', js ''schema'', js ''rest''];
     name \<leftarrow> boundedText (jsonMember property (js ''name'')) 0 1024;
     schema \<leftarrow> jsonMember property (js ''schema'');
     rest \<leftarrow> jsonMember property (js ''rest'');
     Some (name, schema, rest)
   }"

lemma size_member: "map_of fs k = Some v \<Longrightarrow> size v < size (JObj fs)"
proof (induction fs)
  case (Cons p fs)
  then show ?case by (cases p) (auto split: if_splits)
qed simp

lemma array_items_size: "array_items v = Some i \<Longrightarrow> size i < size v"
proof -
  assume "array_items v = Some i"
  then obtain fs gs where "v = JObj fs" "map_of fs (js ''array'') = Some (JObj gs)" "map_of gs (js ''items'') = Some i"
    by (auto simp: array_items_def bind_eq_Some_conv exact_Some jsonMember_def)
  then show ?thesis using size_member [of fs] size_member [of gs] by fastforce
qed

lemma property_parts_size: "property_parts v = Some (n, s, r) \<Longrightarrow> size s < size v \<and> size r < size v"
proof -
  assume "property_parts v = Some (n, s, r)"
  then obtain fs gs where "v = JObj fs" "map_of fs (js ''property'') = Some (JObj gs)"
      "map_of gs (js ''schema'') = Some s" "map_of gs (js ''rest'') = Some r"
    by (auto simp: property_parts_def bind_eq_Some_conv exact_Some jsonMember_def)
  then show ?thesis using size_member [of fs] size_member [of gs] by fastforce
qed

function semanticSchema :: "json_value \<Rightarrow> nat \<Rightarrow> depth_rule \<Rightarrow> bool"
  and semanticObject :: "json_value \<Rightarrow> nat \<Rightarrow> jstr list \<Rightarrow> depth_rule \<Rightarrow> bool" where
  "semanticSchema value depth rule =
     (if depth > dr_deepest rule then False
      else if textOf (Some value) \<noteq> None then oneOf (Some value) SEMANTIC_PRIMITIVES \<noteq> None
      else if hasMember value (js ''array'') then
        (case array_items value of
           None \<Rightarrow> False
         | Some items \<Rightarrow> semanticSchema items (depth + dr_step rule) rule)
      else semanticObject value depth [] rule)"
| "semanticObject value depth seen rule =
     (if depth > dr_deepest rule then False
      else if value = JStr (js ''object'') then True
      else
        (case property_parts value of
           None \<Rightarrow> False
         | Some (name, schema, rest) \<Rightarrow>
             name \<notin> set seen
             \<and> semanticSchema schema (depth + dr_step rule) rule
             \<and> semanticObject rest (depth + dr_step rule) (seen @ [name]) rule))"
  by pat_completeness auto

termination
  by (relation "measure (\<lambda>x. case x of Inl (v, _, _) \<Rightarrow> 2 * size v + 1 | Inr (v, _, _, _) \<Rightarrow> 2 * size v)")
    (auto dest!: array_items_size property_parts_size)

declare semanticSchema.simps [simp del] semanticObject.simps [simp del]

definition PRIMITIVE_CODES :: "jstr list" where
  "PRIMITIVE_CODES = [js ''text'', js ''verdict'', js ''flag'', js ''receipt'']"

definition observationCode :: "json_value option \<Rightarrow> depth_rule \<Rightarrow> json_value option" where
  "observationCode value rule =
     (case value of
        None \<Rightarrow> None
      | Some (JStr s) \<Rightarrow> if oneOf value PRIMITIVE_CODES = None then None else value
      | Some v \<Rightarrow> do {
          outer \<leftarrow> exact (Some v) [js ''json''];
          json \<leftarrow> exact (jsonMember outer (js ''json'')) [js ''schema''];
          schema \<leftarrow> jsonMember json (js ''schema'');
          require (semanticSchema schema 0 rule);
          Some v
        })"

section \<open>The trees that schemas denote\<close>

datatype sem = SPrim jstr | SArray sem | SObject | SProperty jstr sem sem

text \<open>\<^verbatim>\<open>SObject\<close> ends a chain of properties; as a schema of its own it is the primitive object.\<close>

fun sem_json :: "sem \<Rightarrow> json_value" where
  "sem_json (SPrim p) = JStr p"
| "sem_json (SArray s) = JObj [(js ''array'', JObj [(js ''items'', sem_json s)])]"
| "sem_json SObject = JStr (js ''object'')"
| "sem_json (SProperty n s r) =
     JObj [(js ''property'', JObj [(js ''name'', JStr n), (js ''schema'', sem_json s), (js ''rest'', sem_json r)])]"

text \<open>Which trees a rule allows at a depth, as a schema and as the rest of a chain.\<close>

fun sem_ok :: "depth_rule \<Rightarrow> nat \<Rightarrow> sem \<Rightarrow> bool" and chain_ok :: "depth_rule \<Rightarrow> nat \<Rightarrow> jstr list \<Rightarrow> sem \<Rightarrow> bool" where
  "sem_ok rule depth (SPrim p) \<longleftrightarrow> depth \<le> dr_deepest rule \<and> p \<in> set SEMANTIC_PRIMITIVES"
| "sem_ok rule depth (SArray s) \<longleftrightarrow> depth \<le> dr_deepest rule \<and> sem_ok rule (depth + dr_step rule) s"
| "sem_ok rule depth SObject \<longleftrightarrow> False"
| "sem_ok rule depth (SProperty n s r) \<longleftrightarrow>
     depth \<le> dr_deepest rule \<and> bounded n 0 1024
     \<and> sem_ok rule (depth + dr_step rule) s \<and> chain_ok rule (depth + dr_step rule) [n] r"
| "chain_ok rule depth seen SObject \<longleftrightarrow> depth \<le> dr_deepest rule"
| "chain_ok rule depth seen (SProperty n s r) \<longleftrightarrow>
     depth \<le> dr_deepest rule \<and> bounded n 0 1024 \<and> n \<notin> set seen
     \<and> sem_ok rule (depth + dr_step rule) s \<and> chain_ok rule (depth + dr_step rule) (seen @ [n]) r"
| "chain_ok rule depth seen (SPrim _) \<longleftrightarrow> False"
| "chain_ok rule depth seen (SArray _) \<longleftrightarrow> False"


lemma array_items_equal:
  assumes "array_items v = Some i" "jsonEqual x i"
  shows "jsonEqual (JObj [(js ''array'', JObj [(js ''items'', x)])]) v"
proof -
  obtain fs gs where fs: "exact (Some v) [js ''array''] = Some fs"
      "exact (map_of fs (js ''array'')) [js ''items''] = Some gs" "map_of gs (js ''items'') = Some i"
    using assms(1) by (auto simp: array_items_def bind_eq_Some_conv jsonMember_def)
  then obtain w where w: "map_of fs (js ''array'') = Some w" by (auto simp: exact_Some)
  have "jsonEqual (JObj [(js ''items'', x)]) w"
    by (rule jsonEqual_exact [OF fs(2) [unfolded w]]) (use fs(3) assms(2) in auto)
  then show ?thesis by (intro jsonEqual_exact [OF fs(1)]) (use w in auto)
qed

lemma property_parts_equal:
  assumes "property_parts v = Some (n, s, r)" "jsonEqual x s" "jsonEqual y r"
  shows "jsonEqual (JObj [(js ''property'', JObj [(js ''name'', JStr n), (js ''schema'', x), (js ''rest'', y)])]) v"
    and "bounded n 0 1024"
proof -
  obtain fs gs where fs: "exact (Some v) [js ''property''] = Some fs"
      "exact (map_of fs (js ''property'')) [js ''name'', js ''schema'', js ''rest''] = Some gs"
      "map_of gs (js ''name'') = Some (JStr n)" "map_of gs (js ''schema'') = Some s" "map_of gs (js ''rest'') = Some r"
      and b: "bounded n 0 1024"
    using assms(1) by (auto simp: property_parts_def bind_eq_Some_conv jsonMember_def boundedText_Some)
  then obtain w where w: "map_of fs (js ''property'') = Some w" by (auto simp: exact_Some)
  have "jsonEqual (JObj [(js ''name'', JStr n), (js ''schema'', x), (js ''rest'', y)]) w"
    by (rule jsonEqual_exact [OF fs(2) [unfolded w]]) (use fs(3-5) assms(2,3) in auto)
  then show "jsonEqual (JObj [(js ''property'', JObj [(js ''name'', JStr n), (js ''schema'', x), (js ''rest'', y)])]) v"
    by (intro jsonEqual_exact [OF fs(1)]) (use w in auto)
  show "bounded n 0 1024" by (rule b)
qed

lemma array_items_wf:
  assumes "array_items v = Some i" "wf_json v"
  shows "wf_json i"
proof -
  obtain fs w gs where fs: "exact (Some v) [js ''array''] = Some fs" "map_of fs (js ''array'') = Some w"
      "exact (Some w) [js ''items''] = Some gs" "map_of gs (js ''items'') = Some i"
    using assms(1) by (auto simp: array_items_def bind_eq_Some_conv jsonMember_def exact_Some)
  show ?thesis using exact_wf [OF fs(3) exact_wf [OF fs(1) assms(2) fs(2)] fs(4)] .
qed

lemma property_parts_wf:
  assumes "property_parts v = Some (n, s, r)" "wf_json v"
  shows "wf_json s" and "wf_json r"
proof -
  obtain fs w gs where fs: "exact (Some v) [js ''property''] = Some fs" "map_of fs (js ''property'') = Some w"
      "exact (Some w) [js ''name'', js ''schema'', js ''rest''] = Some gs"
      "map_of gs (js ''schema'') = Some s" "map_of gs (js ''rest'') = Some r"
    using assms(1) by (auto simp: property_parts_def bind_eq_Some_conv jsonMember_def exact_Some)
  note wf = exact_wf [OF fs(3) exact_wf [OF fs(1) assms(2) fs(2)]]
  show "wf_json s" "wf_json r" using wf [OF fs(4)] wf [OF fs(5)] .
qed

lemma semantic_sound:
  "semanticSchema v d rule \<Longrightarrow> wf_json v \<Longrightarrow> \<exists>t. sem_ok rule d t \<and> jsonEqual (sem_json t) v"
  "semanticObject w d' seen rule' \<Longrightarrow> wf_json w \<Longrightarrow> \<exists>t. chain_ok rule' d' seen t \<and> jsonEqual (sem_json t) w"
proof (induction v d rule and w d' seen rule' rule: semanticSchema_semanticObject.induct)
  case (1 v d rule)
  have d: "d \<le> dr_deepest rule" using 1(3) by (subst (asm) semanticSchema.simps) (auto split: if_splits)
  show ?case
  proof (cases "textOf (Some v)")
    case (Some s)
    then have v: "v = JStr s" by (simp add: textOf_Some)
    have "s \<in> set SEMANTIC_PRIMITIVES"
      using 1(3) Some d by (subst (asm) semanticSchema.simps) (auto simp: oneOf_Some v)
    with v d show ?thesis by (intro exI [of _ "SPrim s"]) simp
  next
    case no: None
    show ?thesis
    proof (cases "hasMember v (js ''array'')")
      case True
      then obtain i where i: "array_items v = Some i" "semanticSchema i (d + dr_step rule) rule"
        using 1(3) no d by (subst (asm) semanticSchema.simps) (auto split: option.splits)
      have "\<exists>t. sem_ok rule (d + dr_step rule) t \<and> jsonEqual (sem_json t) i"
        using 1(1) i no True d array_items_wf [OF i(1) 1(4)] by simp
      then obtain t where "sem_ok rule (d + dr_step rule) t" "jsonEqual (sem_json t) i" by blast
      then show ?thesis using d array_items_equal [OF i(1)] by (intro exI [of _ "SArray t"]) simp
    next
      case False
      have ob: "semanticObject v d [] rule"
        using 1(3) no d False by (subst (asm) semanticSchema.simps) auto
      obtain t where t: "chain_ok rule d [] t" "jsonEqual (sem_json t) v"
        using 1(2) ob no False d 1(4) by fastforce
      have "sem_ok rule d t" using t no by (cases t) (auto simp: textOf_def)
      with t show ?thesis by blast
    qed
  qed
next
  case (2 v d seen rule)
  have d: "d \<le> dr_deepest rule" using 2(3) by (subst (asm) semanticObject.simps) (auto split: if_splits)
  show ?case
  proof (cases "v = JStr (js ''object'')")
    case True
    with d show ?thesis by (intro exI [of _ SObject]) simp
  next
    case False
    then obtain n s r where p: "property_parts v = Some (n, s, r)" and n: "n \<notin> set seen"
        and s: "semanticSchema s (d + dr_step rule) rule" and r: "semanticObject r (d + dr_step rule) (seen @ [n]) rule"
      using 2(3) d by (subst (asm) semanticObject.simps) (auto split: option.splits)
    have wf: "wf_json s" "wf_json r" using property_parts_wf [OF p 2(4)] .
    obtain t where t: "sem_ok rule (d + dr_step rule) t" "jsonEqual (sem_json t) s"
      using 2(1) d False p n s wf by fastforce
    obtain u where u: "chain_ok rule (d + dr_step rule) (seen @ [n]) u" "jsonEqual (sem_json u) r"
      using 2(2) d False p n s r wf by fastforce
    show ?thesis using property_parts_equal [OF p t(2) u(2)] t(1) u(1) d n
      by (intro exI [of _ "SProperty n t u"]) simp
  qed
qed


text \<open>The other direction: every tree that the rule allows is accepted.\<close>

lemma jsonEqual_single:
  assumes "jsonEqual (JObj [(k, x)]) v"
  obtains y where "v = JObj [(k, y)]" "jsonEqual x y"
proof (cases v)
  case (JObj fs)
  with assms that show ?thesis by (cases fs) (auto split: if_splits option.splits)
qed (use assms in auto)

lemma array_items_written:
  assumes "jsonEqual (JObj [(js ''array'', JObj [(js ''items'', x)])]) v"
  obtains i where "array_items v = Some i" "jsonEqual x i" "hasMember v (js ''array'')" "textOf (Some v) = None"
proof -
  obtain w where w: "v = JObj [(js ''array'', w)]" "jsonEqual (JObj [(js ''items'', x)]) w"
    using assms by (rule jsonEqual_single)
  obtain i where i: "w = JObj [(js ''items'', i)]" "jsonEqual x i" using w(2) by (rule jsonEqual_single)
  show ?thesis using w i by (intro that [of i]) (simp_all add: array_items_def jsonMember_def hasMember_def textOf_def exact_Some)
qed

lemma property_parts_written:
  assumes "jsonEqual (JObj [(js ''property'', JObj [(js ''name'', JStr n), (js ''schema'', x), (js ''rest'', y)])]) v"
    and "bounded n 0 1024"
  obtains s r where "property_parts v = Some (n, s, r)" "jsonEqual x s" "jsonEqual y r"
    "\<not> hasMember v (js ''array'')" "textOf (Some v) = None" "v \<noteq> JStr (js ''object'')"
proof -
  obtain w where w: "v = JObj [(js ''property'', w)]"
      "jsonEqual (JObj [(js ''name'', JStr n), (js ''schema'', x), (js ''rest'', y)]) w"
    using assms(1) by (rule jsonEqual_single)
  obtain gs s r where gs: "w = JObj gs" "length gs = 3" "map_of gs (js ''name'') = Some (JStr n)"
      "map_of gs (js ''schema'') = Some s" "jsonEqual x s" "map_of gs (js ''rest'') = Some r" "jsonEqual y r"
    using w(2) by (cases w) (auto split: option.splits)
  have "exact (Some w) [js ''name'', js ''schema'', js ''rest''] = Some gs" using gs by (simp add: exact_Some)
  then have "property_parts v = Some (n, s, r)"
    using w gs assms(2) by (simp add: property_parts_def jsonMember_def boundedText_def)
  with w gs show ?thesis by (intro that [of s r]) (simp_all add: hasMember_def textOf_def)
qed

lemma semantic_complete:
  "sem_ok rule d t \<Longrightarrow> jsonEqual (sem_json t) v \<Longrightarrow> semanticSchema v d rule"
  "chain_ok rule' d' seen u \<Longrightarrow> jsonEqual (sem_json u) w \<Longrightarrow> semanticObject w d' seen rule'"
proof (induction rule d t and rule' d' seen u arbitrary: v and w rule: sem_ok_chain_ok.induct)
  case (1 rule depth p)
  then show ?case by (subst semanticSchema.simps) (simp add: textOf_def oneOf_def find_None_iff)
next
  case (2 rule depth t)
  obtain i where "array_items v = Some i" "jsonEqual (sem_json t) i" "hasMember v (js ''array'')" "textOf (Some v) = None"
    using 2(3) unfolding sem_json.simps by (rule array_items_written)
  with 2(1,2) show ?case by (subst semanticSchema.simps) simp
next
  case (4 rule depth n s r)
  have b: "bounded n 0 1024" using 4(3) by simp
  obtain s' r' where p: "property_parts v = Some (n, s', r')" "jsonEqual (sem_json s) s'" "jsonEqual (sem_json r) r'"
      "\<not> hasMember v (js ''array'')" "textOf (Some v) = None" "v \<noteq> JStr (js ''object'')"
    using property_parts_written [OF _ b] 4(4) unfolding sem_json.simps by metis
  then show ?case using 4(1) [OF _ p(2)] 4(2) [OF _ p(3)] 4(3)
    by (subst semanticSchema.simps, subst semanticObject.simps) simp
next
  case (5 rule depth seen)
  then show ?case by (subst semanticObject.simps) simp
next
  case (6 rule depth seen n s r)
  have b: "bounded n 0 1024" using 6(3) by simp
  obtain s' r' where p: "property_parts w = Some (n, s', r')" "jsonEqual (sem_json s) s'" "jsonEqual (sem_json r) r'"
      "w \<noteq> JStr (js ''object'')"
    using property_parts_written [OF _ b] 6(4) unfolding sem_json.simps by metis
  then show ?case using 6(1) [OF _ p(2)] 6(2) [OF _ p(3)] 6(3)
    by (subst semanticObject.simps) simp
qed simp_all

lemma semanticSchema_iff:
  "wf_json v \<Longrightarrow> semanticSchema v d rule \<longleftrightarrow> (\<exists>t. sem_ok rule d t \<and> jsonEqual (sem_json t) v)"
  using semantic_sound(1) semantic_complete(1) by blast

text \<open>The tree of an accepted schema has at most \<open>deepest / step + 1\<close> levels.\<close>

fun sem_levels :: "sem \<Rightarrow> nat" where
  "sem_levels (SPrim _) = 1"
| "sem_levels (SArray s) = Suc (sem_levels s)"
| "sem_levels SObject = 1"
| "sem_levels (SProperty _ s r) = Suc (max (sem_levels s) (sem_levels r))"

lemma sem_levels_bound:
  "sem_ok rule d t \<Longrightarrow> d + dr_step rule * (sem_levels t - 1) \<le> dr_deepest rule"
  "chain_ok rule' d' seen u \<Longrightarrow> d' + dr_step rule' * (sem_levels u - 1) \<le> dr_deepest rule'"
proof (induction rule d t and rule' d' seen u rule: sem_ok_chain_ok.induct)
  case (2 rule depth t)
  have "sem_levels t \<noteq> 0" by (cases t) auto
  with 2 show ?case by (cases "sem_levels t") auto
next
  case (4 rule depth n s r)
  have "sem_levels s \<noteq> 0" "sem_levels r \<noteq> 0" by (cases s; auto) (cases r; auto)
  then have "dr_step rule * max (sem_levels s) (sem_levels r) =
      dr_step rule + dr_step rule * max (sem_levels s - 1) (sem_levels r - 1)"
    by (cases "sem_levels s"; cases "sem_levels r") (auto simp: algebra_simps)
  moreover have "depth + dr_step rule + dr_step rule * (sem_levels s - 1) \<le> dr_deepest rule"
      "depth + dr_step rule + dr_step rule * (sem_levels r - 1) \<le> dr_deepest rule" using 4 by auto
  ultimately show ?case by (simp add: max_def split: if_splits)
next
  case (6 rule depth seen n s r)
  have "sem_levels s \<noteq> 0" "sem_levels r \<noteq> 0" by (cases s; auto) (cases r; auto)
  then have "dr_step rule * max (sem_levels s) (sem_levels r) =
      dr_step rule + dr_step rule * max (sem_levels s - 1) (sem_levels r - 1)"
    by (cases "sem_levels s"; cases "sem_levels r") (auto simp: algebra_simps)
  moreover have "depth + dr_step rule + dr_step rule * (sem_levels s - 1) \<le> dr_deepest rule"
      "depth + dr_step rule + dr_step rule * (sem_levels r - 1) \<le> dr_deepest rule" using 6 by auto
  ultimately show ?case by (simp add: max_def split: if_splits)
qed simp_all

lemma observationCode_Some: "observationCode m rule = Some c \<Longrightarrow> m = Some c"
  by (auto simp: observationCode_def bind_eq_Some_conv split: option.splits json.splits if_splits)

end
