(* ===== verification/Reviews.thy ===== *)
theory Reviews
  imports Drafts Schemas
begin

text \<open>
  Preparations and their reviews (\<^verbatim>\<open>manager/resources.ts\<close>, after
  \<^verbatim>\<open>Agentic.Manager.Protocol.Preparation\<close>): the inputs, edits and lineage that a consent names,
  the frozen policy, and the preparation that carries the review.
\<close>

record review_input =
  ri_name :: jstr
  ri_source :: jstr
  ri_bytes :: int
  ri_sha256 :: jstr

datatype review_edit = DropEdit int | ReplaceEdit int jstr

record review_lineage =
  rl_parentRunId :: jstr
  rl_operation :: jstr
  rl_edits :: "review_edit list"

record review =
  rv_programHash :: jstr
  rv_personAnswering :: jstr
  rv_policy :: json_value
  rv_workflowId :: jstr
  rv_profileId :: jstr
  rv_workspaceLabel :: jstr
  rv_targetLabel :: jstr
  rv_inputs :: "review_input list"
  rv_plan :: jstr
  rv_runFacts :: "jstr list"
  rv_pins :: "jstr list"
  rv_warnings :: "jstr list"
  rv_resultCode :: json_value
  rv_lineage :: "review_lineage option"

definition PREPARATION_STATES :: "jstr list" where
  "PREPARATION_STATES = [js ''live'', js ''consumed'', js ''invalidated'']"

definition PREPARATION_REASONS :: "jstr list" where
  "PREPARATION_REASONS = [js ''expired'', js ''input-changed'', js ''profile-changed'', js ''worker-lost'',
     js ''discarded'', js ''authority-changed'', js ''consumed'']"

record preparation =
  pp_id :: jstr
  pp_revision :: jstr
  pp_requestId :: jstr
  pp_requestRevision :: jstr
  pp_profileId :: jstr
  pp_profileRevision :: jstr
  pp_descriptorRevision :: jstr
  pp_state :: jstr
  pp_expiresAt :: jstr
  pp_reviewDigest :: jstr
  pp_processGeneration :: jstr
  pp_review :: review
  pp_reason :: "jstr option"

section \<open>The frozen policy\<close>

definition POLICY_KEYS :: "jstr list" where
  "POLICY_KEYS = [js ''kind'', js ''default'', js ''coverage'', js ''routes'', js ''pollMs'', js ''timeoutMs'',
     js ''verbose'', js ''realizations'', js ''routingVersion'', js ''persona'', js ''personaSource'',
     js ''policyDigest'', js ''personAnswers'']"

definition REALIZATION_KEYS :: "jstr list" where
  "REALIZATION_KEYS = [js ''profile'', js ''axis'', js ''rung'', js ''backend'', js ''router'', js ''provider'',
     js ''model'', js ''thinking'', js ''maxOutput'', js ''executionFingerprint'', js ''modelAlias'', js ''engine'']"

definition THINKING_LEVELS :: "jstr list" where
  "THINKING_LEVELS = [js ''off'', js ''minimal'', js ''low'', js ''medium'', js ''high'', js ''xhigh'', js ''max'']"

definition PERSONA_SOURCES :: "jstr list" where
  "PERSONA_SOURCES = [js ''command-line'', js ''environment'', js ''project'', js ''user-default'']"

definition policyLabel :: "json_value option \<Rightarrow> bool" where
  "policyLabel value \<longleftrightarrow> boundedText value 0 1024 \<noteq> None"

definition nullablePositive :: "json_value option \<Rightarrow> bool" where
  "nullablePositive value =
     (case value of
        Some JNull \<Rightarrow> True
      | Some (JNum n) \<Rightarrow> boundedInteger n 1 2147483647 \<noteq> None
      | _ \<Rightarrow> False)"

definition validRealization :: "json_value \<Rightarrow> bool" where
  "validRealization value =
     (case within_names (Some value) REALIZATION_KEYS of
        None \<Rightarrow> False
      | Some fs \<Rightarrow>
          list_all (\<lambda>name. policyLabel (jsonMember fs name))
            [js ''profile'', js ''axis'', js ''backend'', js ''router'', js ''provider'', js ''model'']
          \<and> intOf (jsonMember fs (js ''rung'')) 0 2147483647 \<noteq> None
          \<and> oneOf (jsonMember fs (js ''thinking'')) THINKING_LEVELS \<noteq> None
          \<and> nullablePositive (jsonMember fs (js ''maxOutput''))
          \<and> list_all (\<lambda>name. \<not> map_has fs name \<or> policyLabel (jsonMember fs name)) [js ''modelAlias'', js ''engine'']
          \<and> (case jsonMember fs (js ''executionFingerprint'') of
               None \<Rightarrow> True | Some (JStr s) \<Rightarrow> validDigest s | Some _ \<Rightarrow> False))"

definition validPersonAnswers :: "json_value \<Rightarrow> bool" where
  "validPersonAnswers value =
     (case listOf (Some value) (\<lambda>v. textOf (Some v)) None of
        None \<Rightarrow> False
      | Some addresses \<Rightarrow>
          addresses \<noteq> [] \<and> length addresses \<le> 256
          \<and> list_all (\<lambda>address. bounded address 1 1024
               \<and> list_ex (\<lambda>prefix. starts_with address prefix \<and> length address > length prefix)
                   [js ''model:'', js ''tool:'']) addresses)"

definition validRoute :: "json_value \<Rightarrow> bool" where
  "validRoute route =
     (case within_names (Some route) [js ''name'', js ''backend''] of
        None \<Rightarrow> False
      | Some fs \<Rightarrow> policyLabel (jsonMember fs (js ''name'')) \<and> policyLabel (jsonMember fs (js ''backend'')))"

text \<open>The persona members are all absent or all present and valid.\<close>

definition validPersona :: "json_members \<Rightarrow> bool" where
  "validPersona own =
     (let present = filter (map_has own)
            [js ''routingVersion'', js ''persona'', js ''personaSource'', js ''policyDigest''] in
      if present = [] then True
      else
        length present = 4
        \<and> intOf (jsonMember own (js ''routingVersion'')) INT64_MIN INT64_MAX = Some 2
        \<and> policyLabel (jsonMember own (js ''persona''))
        \<and> oneOf (jsonMember own (js ''personaSource'')) PERSONA_SOURCES \<noteq> None
        \<and> (case textOf (jsonMember own (js ''policyDigest'')) of None \<Rightarrow> False | Some d \<Rightarrow> validDigest d))"

definition validPolicy :: "json_value option \<Rightarrow> bool" where
  "validPolicy value =
     (case value of
        Some (JObj own) \<Rightarrow>
          (let kind = textOf (jsonMember own (js ''kind'')); hasDefault = map_has own (js ''default'') in
           if kind = Some (js ''scripted'') then within_names value [js ''kind''] \<noteq> None
           else if kind \<noteq> Some (js ''routed'') \<or> within_names value POLICY_KEYS = None then False
           else if hasDefault = map_has own (js ''coverage'') then False
           else if (if hasDefault then \<not> policyLabel (jsonMember own (js ''default''))
                    else jsonMember own (js ''coverage'') \<noteq> Some (JStr (js ''full''))) then False
           else
             (case jsonMember own (js ''routes'') of
                Some (JArr routes) \<Rightarrow>
                  length routes \<le> 64 \<and> list_all validRoute routes
                  \<and> nullablePositive (jsonMember own (js ''pollMs''))
                  \<and> nullablePositive (jsonMember own (js ''timeoutMs''))
                  \<and> boolOf (jsonMember own (js ''verbose'')) \<noteq> None
                  \<and> (case jsonMember own (js ''realizations'') of
                       Some (JArr rs) \<Rightarrow> length rs \<le> 256 \<and> list_all validRealization rs
                     | _ \<Rightarrow> False)
                  \<and> (case jsonMember own (js ''personAnswers'') of None \<Rightarrow> True | Some a \<Rightarrow> validPersonAnswers a)
                  \<and> validPersona own
              | _ \<Rightarrow> False))
      | _ \<Rightarrow> False)"

section \<open>Decoders\<close>

definition parseReviewInput :: "json_value \<Rightarrow> review_input option" where
  "parseReviewInput value = do {
     fs \<leftarrow> within_names (Some value) [js ''name'', js ''source'', js ''bytes'', js ''sha256''];
     name \<leftarrow> boundedText (jsonMember fs (js ''name'')) 1 1024;
     source \<leftarrow> oneOf (jsonMember fs (js ''source'')) [js ''literal'', js ''capture''];
     bytes \<leftarrow> word64Text (jsonMember fs (js ''bytes''));
     sha256 \<leftarrow> textOf (jsonMember fs (js ''sha256''));
     require (validDigest sha256);
     Some \<lparr>ri_name = name, ri_source = source, ri_bytes = bytes, ri_sha256 = sha256\<rparr>
   }"

definition parseReviewEdit :: "json_value \<Rightarrow> review_edit option" where
  "parseReviewEdit value = do {
     own \<leftarrow> (case value of JObj fs \<Rightarrow> Some fs | _ \<Rightarrow> None);
     (if textOf (jsonMember own (js ''operation'')) = Some (js ''drop'') then do {
        fs \<leftarrow> within_names (Some value) [js ''operation'', js ''occurrenceId''];
        occurrenceId \<leftarrow> word64Text (jsonMember fs (js ''occurrenceId''));
        Some (DropEdit occurrenceId)
      }
      else if textOf (jsonMember own (js ''operation'')) = Some (js ''replace'') then do {
        fs \<leftarrow> within_names (Some value) [js ''operation'', js ''occurrenceId'', js ''sha256''];
        sha256 \<leftarrow> textOf (jsonMember fs (js ''sha256''));
        require (validDigest sha256);
        occurrenceId \<leftarrow> word64Text (jsonMember fs (js ''occurrenceId''));
        Some (ReplaceEdit occurrenceId sha256)
      }
      else None)
   }"

definition parseReviewLineage :: "json_value \<Rightarrow> review_lineage option" where
  "parseReviewLineage value = do {
     fs \<leftarrow> within_names (Some value) [js ''parentRunId'', js ''operation'', js ''edits''];
     parentRunId \<leftarrow> textOf (jsonMember fs (js ''parentRunId''));
     operation \<leftarrow> textOf (jsonMember fs (js ''operation''));
     edits \<leftarrow> listOf (jsonMember fs (js ''edits'')) parseReviewEdit None;
     require (validId parentRunId);
     known \<leftarrow> oneOf (Some (JStr operation)) LINEAGE_OPERATIONS;
     require (length edits \<le> 2048 \<and> (edits = [] \<or> known = js ''fork''));
     Some \<lparr>rl_parentRunId = parentRunId, rl_operation = known, rl_edits = edits\<rparr>
   }"

definition boundedTexts :: "json_value option \<Rightarrow> jstr list option" where
  "boundedTexts value = listOf value (\<lambda>item. boundedText (Some item) 0 4096) (Some 256)"

definition REVIEW_NAMES :: "jstr list" where
  "REVIEW_NAMES = [js ''programHash'', js ''personAnswering'', js ''policy'', js ''workflowId'', js ''profileId'',
     js ''workspaceLabel'', js ''targetLabel'', js ''inputs'', js ''plan'', js ''runFacts'', js ''pins'',
     js ''warnings'', js ''resultCode'', js ''lineage'']"

definition parseReview :: "json_value option \<Rightarrow> review option" where
  "parseReview value = do {
     fs \<leftarrow> within_names value REVIEW_NAMES;
     programHash \<leftarrow> textOf (jsonMember fs (js ''programHash''));
     require (validDigest programHash);
     personAnswering \<leftarrow> oneOf (jsonMember fs (js ''personAnswering'')) [js ''engine'', js ''local-control''];
     policy \<leftarrow> jsonMember fs (js ''policy'');
     require (validPolicy (Some policy));
     workflowId \<leftarrow> textOf (jsonMember fs (js ''workflowId''));
     require (validId workflowId);
     profileId \<leftarrow> textOf (jsonMember fs (js ''profileId''));
     require (validId profileId);
     workspaceLabel \<leftarrow> boundedText (jsonMember fs (js ''workspaceLabel'')) 0 4096;
     targetLabel \<leftarrow> boundedText (jsonMember fs (js ''targetLabel'')) 0 4096;
     inputs \<leftarrow> listOf (jsonMember fs (js ''inputs'')) parseReviewInput (Some 256);
     plan \<leftarrow> boundedText (jsonMember fs (js ''plan'')) 0 524288;
     runFacts \<leftarrow> boundedTexts (jsonMember fs (js ''runFacts''));
     pins \<leftarrow> boundedTexts (jsonMember fs (js ''pins''));
     warnings \<leftarrow> boundedTexts (jsonMember fs (js ''warnings''));
     resultCode \<leftarrow> observationCode (jsonMember fs (js ''resultCode'')) REVIEW_DEPTH;
     lineage \<leftarrow> (case jsonMember fs (js ''lineage'') of
        None \<Rightarrow> Some None | Some l \<Rightarrow> map_option Some (parseReviewLineage l));
     Some \<lparr>rv_programHash = programHash, rv_personAnswering = personAnswering, rv_policy = policy,
           rv_workflowId = workflowId, rv_profileId = profileId, rv_workspaceLabel = workspaceLabel,
           rv_targetLabel = targetLabel, rv_inputs = inputs, rv_plan = plan, rv_runFacts = runFacts,
           rv_pins = pins, rv_warnings = warnings, rv_resultCode = resultCode, rv_lineage = lineage\<rparr>
   }"

definition PREPARATION_NAMES :: "jstr list" where
  "PREPARATION_NAMES = [js ''version'', js ''id'', js ''revision'', js ''requestId'', js ''requestRevision'',
     js ''profileId'', js ''profileRevision'', js ''descriptorRevision'', js ''state'', js ''expiresAt'',
     js ''reviewDigest'', js ''processGeneration'', js ''review'', js ''reason'']"

definition parsePreparation :: "json_value \<Rightarrow> preparation option" where
  "parsePreparation value = do {
     fs \<leftarrow> within_names (Some value) PREPARATION_NAMES;
     require (versionOne fs);
     ident \<leftarrow> textOf (jsonMember fs (js ''id''));
     revision \<leftarrow> textOf (jsonMember fs (js ''revision''));
     requestId \<leftarrow> textOf (jsonMember fs (js ''requestId''));
     requestRevision \<leftarrow> textOf (jsonMember fs (js ''requestRevision''));
     profileId \<leftarrow> textOf (jsonMember fs (js ''profileId''));
     profileRevision \<leftarrow> textOf (jsonMember fs (js ''profileRevision''));
     descriptorRevision \<leftarrow> textOf (jsonMember fs (js ''descriptorRevision''));
     processGeneration \<leftarrow> textOf (jsonMember fs (js ''processGeneration''));
     require (list_all validId [ident, revision, requestId, requestRevision, profileId, profileRevision,
        descriptorRevision, processGeneration]);
     state \<leftarrow> oneOf (jsonMember fs (js ''state'')) PREPARATION_STATES;
     expiresAt \<leftarrow> textOf (jsonMember fs (js ''expiresAt''));
     require (validTimestamp expiresAt);
     reviewDigest \<leftarrow> textOf (jsonMember fs (js ''reviewDigest''));
     require (validDigest reviewDigest);
     review \<leftarrow> parseReview (jsonMember fs (js ''review''));
     reason \<leftarrow> nullable (jsonMember fs (js ''reason'')) (\<lambda>v. oneOf (Some v) PREPARATION_REASONS);
     Some \<lparr>pp_id = ident, pp_revision = revision, pp_requestId = requestId, pp_requestRevision = requestRevision,
           pp_profileId = profileId, pp_profileRevision = profileRevision,
           pp_descriptorRevision = descriptorRevision, pp_state = state, pp_expiresAt = expiresAt,
           pp_reviewDigest = reviewDigest, pp_processGeneration = processGeneration, pp_review = review,
           pp_reason = reason\<rparr>
   }"

section \<open>Encoders\<close>

definition encodeReviewInput :: "review_input \<Rightarrow> json_value" where
  "encodeReviewInput i =
     JObj [(js ''name'', JStr (ri_name i)), (js ''source'', JStr (ri_source i)),
           (js ''bytes'', JStr (int_text (ri_bytes i))), (js ''sha256'', JStr (ri_sha256 i))]"

definition encodeReviewEdit :: "review_edit \<Rightarrow> json_value" where
  "encodeReviewEdit e =
     (case e of
        DropEdit n \<Rightarrow> JObj [(js ''operation'', JStr (js ''drop'')), (js ''occurrenceId'', JStr (int_text n))]
      | ReplaceEdit n sha \<Rightarrow>
          JObj [(js ''operation'', JStr (js ''replace'')), (js ''occurrenceId'', JStr (int_text n)),
                (js ''sha256'', JStr sha)])"

definition encodeReviewLineage :: "review_lineage \<Rightarrow> json_value" where
  "encodeReviewLineage l =
     JObj [(js ''parentRunId'', JStr (rl_parentRunId l)), (js ''operation'', JStr (rl_operation l)),
           (js ''edits'', JArr (map encodeReviewEdit (rl_edits l)))]"

definition encodeReview :: "review \<Rightarrow> json_value" where
  "encodeReview r =
     JObj ([(js ''programHash'', JStr (rv_programHash r)), (js ''personAnswering'', JStr (rv_personAnswering r)),
            (js ''policy'', rv_policy r), (js ''workflowId'', JStr (rv_workflowId r)),
            (js ''profileId'', JStr (rv_profileId r)), (js ''workspaceLabel'', JStr (rv_workspaceLabel r)),
            (js ''targetLabel'', JStr (rv_targetLabel r)), (js ''inputs'', JArr (map encodeReviewInput (rv_inputs r))),
            (js ''plan'', JStr (rv_plan r)), (js ''runFacts'', JArr (map JStr (rv_runFacts r))),
            (js ''pins'', JArr (map JStr (rv_pins r))), (js ''warnings'', JArr (map JStr (rv_warnings r))),
            (js ''resultCode'', rv_resultCode r)]
         @ (case rv_lineage r of None \<Rightarrow> [] | Some l \<Rightarrow> [(js ''lineage'', encodeReviewLineage l)]))"

definition encodePreparation :: "preparation \<Rightarrow> json_value" where
  "encodePreparation p =
     JObj [(js ''version'', JNum (js ''1'')), (js ''id'', JStr (pp_id p)), (js ''revision'', JStr (pp_revision p)),
           (js ''requestId'', JStr (pp_requestId p)), (js ''requestRevision'', JStr (pp_requestRevision p)),
           (js ''profileId'', JStr (pp_profileId p)), (js ''profileRevision'', JStr (pp_profileRevision p)),
           (js ''descriptorRevision'', JStr (pp_descriptorRevision p)), (js ''state'', JStr (pp_state p)),
           (js ''expiresAt'', JStr (pp_expiresAt p)), (js ''reviewDigest'', JStr (pp_reviewDigest p)),
           (js ''processGeneration'', JStr (pp_processGeneration p)), (js ''review'', encodeReview (pp_review p)),
           (js ''reason'', text_or_null (pp_reason p))]"

definition decodeReviewInput :: "json_value \<Rightarrow> review_input outcome" where
  "decodeReviewInput value = decided (parseReviewInput value)"

definition decodeReviewEdit :: "json_value \<Rightarrow> review_edit outcome" where
  "decodeReviewEdit value = decided (parseReviewEdit value)"

definition decodeReviewLineage :: "json_value \<Rightarrow> review_lineage outcome" where
  "decodeReviewLineage value = decided (parseReviewLineage value)"

definition decodeReview :: "json_value \<Rightarrow> review outcome" where
  "decodeReview value = decided (parseReview (Some value))"

definition decodePreparation :: "json_value \<Rightarrow> preparation outcome" where
  "decodePreparation value = decided (parsePreparation value)"

end
