(* ===== verification/ReviewLaws.thy ===== *)
theory ReviewLaws
  imports Reviews DraftLaws
begin

text \<open>
  The formats of reviews and preparations as codecs. A review keeps its policy and its result
  code as JSON, so these formats are stated up to the equality of JSON values.
\<close>

lemma within_sort: "wf_json v \<Longrightarrow> within_names (Some (sort_members v)) names = map_option sort_fields (within_names (Some v) names)"
proof (cases v)
  case (JObj fs)
  have "fst ` set (sort_fields fs) = fst ` set fs" by (force simp: sort_fields_def image_image)
  moreover have "list_all (\<lambda>(name, _). name \<in> set names) xs \<longleftrightarrow> fst ` set xs \<subseteq> set names"
    for xs :: json_members by (auto simp: list_all_iff)
  ultimately show ?thesis by (simp add: JObj within_names_def sort_members_obj del: sort_members.simps(2))
qed (auto simp: within_names_def)

lemma within_distinct: "within_names (Some v) names = Some fs \<Longrightarrow> wf_json v \<Longrightarrow> distinct (map fst fs)"
  by (auto simp: within_names_Some)

lemma within_wf: "within_names (Some v) names = Some fs \<Longrightarrow> wf_json v \<Longrightarrow> wf_json (JObj fs)"
  by (auto simp: within_names_Some)

lemma within_obj: "within_names m names = Some fs \<Longrightarrow> m = Some (JObj fs)"
  by (simp add: within_names_Some)

section \<open>Inputs and edits\<close>

definition review_input_ok :: "review_input \<Rightarrow> bool" where
  "review_input_ok i \<longleftrightarrow> bounded (ri_name i) 1 1024 \<and> ri_source i \<in> {js ''literal'', js ''capture''}
     \<and> 0 \<le> ri_bytes i \<and> ri_bytes i \<le> WORD64_MAX \<and> validDigest (ri_sha256 i)"

lemma parseReviewInput_Some:
  "parseReviewInput v = Some i \<longleftrightarrow>
     (\<exists>fs. within_names (Some v) [js ''name'', js ''source'', js ''bytes'', js ''sha256''] = Some fs
        \<and> map_of fs (js ''name'') = Some (JStr (ri_name i)) \<and> map_of fs (js ''source'') = Some (JStr (ri_source i))
        \<and> map_of fs (js ''bytes'') = Some (JStr (int_text (ri_bytes i)))
        \<and> map_of fs (js ''sha256'') = Some (JStr (ri_sha256 i)) \<and> review_input_ok i)"
  by (cases i) (auto simp: parseReviewInput_def jsonMember_def bind_eq_Some_conv textOf_Some boundedText_Some oneOf_Some
      word64Text_Some review_input_ok_def)

interpretation review_input: text_codec parseReviewInput encodeReviewInput review_input_ok
proof
  fix v i assume v: "wf_json v" and "parseReviewInput v = Some i"
  then obtain fs where fs: "within_names (Some v) [js ''name'', js ''source'', js ''bytes'', js ''sha256''] = Some fs"
      "map_of fs (js ''name'') = Some (JStr (ri_name i))" "map_of fs (js ''source'') = Some (JStr (ri_source i))"
      "map_of fs (js ''bytes'') = Some (JStr (int_text (ri_bytes i)))"
      "map_of fs (js ''sha256'') = Some (JStr (ri_sha256 i))" and ok: "review_input_ok i"
    by (auto simp: parseReviewInput_Some)
  show "review_input_ok i" by (rule ok)
  have "exact (Some v) [js ''name'', js ''source'', js ''bytes'', js ''sha256''] = Some fs"
    using fs by (intro within_exact [OF fs(1) v]) simp_all
  then show "jsonEqual (encodeReviewInput i) v"
    unfolding encodeReviewInput_def using fs by (intro jsonEqual_exact) auto
next
  fix i assume "review_input_ok i"
  then show "wf_json (encodeReviewInput i)" "parseReviewInput (encodeReviewInput i) = Some i"
    by (simp_all add: encodeReviewInput_def parseReviewInput_Some within_names_Some)
next
  fix v assume v: "wf_json v"
  show "parseReviewInput (sort_members v) = parseReviewInput v"
  proof (cases "within_names (Some v) [js ''name'', js ''source'', js ''bytes'', js ''sha256'']")
    case (Some fs)
    with v show ?thesis by (simp add: parseReviewInput_def within_sort member_sort within_distinct [OF Some v])
  qed (simp add: parseReviewInput_def within_sort v)
qed

definition review_edit_ok :: "review_edit \<Rightarrow> bool" where
  "review_edit_ok e \<longleftrightarrow>
     (case e of
        DropEdit n \<Rightarrow> 0 \<le> n \<and> n \<le> WORD64_MAX
      | ReplaceEdit n sha \<Rightarrow> 0 \<le> n \<and> n \<le> WORD64_MAX \<and> validDigest sha)"

lemma parseReviewEdit_Drop:
  "parseReviewEdit v = Some (DropEdit n) \<longleftrightarrow>
     (\<exists>fs. within_names (Some v) [js ''operation'', js ''occurrenceId''] = Some fs
        \<and> map_of fs (js ''operation'') = Some (JStr (js ''drop''))
        \<and> map_of fs (js ''occurrenceId'') = Some (JStr (int_text n)) \<and> review_edit_ok (DropEdit n))"
  by (cases v) (auto simp: parseReviewEdit_def jsonMember_def bind_eq_Some_conv textOf_Some word64Text_Some
      within_names_Some review_edit_ok_def split: if_splits)

lemma parseReviewEdit_Replace:
  "parseReviewEdit v = Some (ReplaceEdit n sha) \<longleftrightarrow>
     (\<exists>fs. within_names (Some v) [js ''operation'', js ''occurrenceId'', js ''sha256''] = Some fs
        \<and> map_of fs (js ''operation'') = Some (JStr (js ''replace''))
        \<and> map_of fs (js ''occurrenceId'') = Some (JStr (int_text n))
        \<and> map_of fs (js ''sha256'') = Some (JStr sha) \<and> review_edit_ok (ReplaceEdit n sha))"
  by (cases v) (auto simp: parseReviewEdit_def jsonMember_def bind_eq_Some_conv textOf_Some word64Text_Some
      within_names_Some review_edit_ok_def split: if_splits)

lemma parseReviewEdit_sort:
  assumes "wf_json v" shows "parseReviewEdit (sort_members v) = parseReviewEdit v"
proof (cases v)
  case (JObj fs)
  have d: "distinct (map fst fs)" using assms JObj by simp
  have rd: "within_names (Some (sort_members v)) names = map_option sort_fields (within_names (Some v) names)" for names
    using assms by (rule within_sort)
  have only: "within_names (Some v) names = Some g \<Longrightarrow> g = fs" for names g using JObj by (simp add: within_names_Some)
  have own: "(case sort_members v of JObj gs \<Rightarrow> Some gs | _ \<Rightarrow> None) = Some (sort_fields fs)"
    "(case v of JObj gs \<Rightarrow> Some gs | _ \<Rightarrow> None) = Some fs"
    by (simp_all add: JObj sort_members_obj del: sort_members.simps)
  show ?thesis unfolding parseReviewEdit_def own rd using d
    by (cases "within_names (Some v) [js ''operation'', js ''occurrenceId'']";
        cases "within_names (Some v) [js ''operation'', js ''occurrenceId'', js ''sha256'']")
      (simp_all add: member_sort cong: if_cong, (drule only, simp add: member_sort cong: if_cong)+)
qed (simp_all add: parseReviewEdit_def)

interpretation review_edit: text_codec parseReviewEdit encodeReviewEdit review_edit_ok
proof
  fix v e assume v: "wf_json v" and e: "parseReviewEdit v = Some e"
  show "review_edit_ok e" using e by (cases e) (auto simp: parseReviewEdit_Drop parseReviewEdit_Replace)
  show "jsonEqual (encodeReviewEdit e) v"
  proof (cases e)
    case (DropEdit n)
    with e obtain fs where fs: "within_names (Some v) [js ''operation'', js ''occurrenceId''] = Some fs"
        "map_of fs (js ''operation'') = Some (JStr (js ''drop''))"
        "map_of fs (js ''occurrenceId'') = Some (JStr (int_text n))" by (auto simp: parseReviewEdit_Drop)
    have "exact (Some v) [js ''operation'', js ''occurrenceId''] = Some fs"
      using fs by (intro within_exact [OF fs(1) v]) simp_all
    then show ?thesis unfolding encodeReviewEdit_def DropEdit review_edit.case
      using fs by (intro jsonEqual_exact) auto
  next
    case (ReplaceEdit n sha)
    with e obtain fs where fs: "within_names (Some v) [js ''operation'', js ''occurrenceId'', js ''sha256''] = Some fs"
        "map_of fs (js ''operation'') = Some (JStr (js ''replace''))"
        "map_of fs (js ''occurrenceId'') = Some (JStr (int_text n))" "map_of fs (js ''sha256'') = Some (JStr sha)"
      by (auto simp: parseReviewEdit_Replace)
    have "exact (Some v) [js ''operation'', js ''occurrenceId'', js ''sha256''] = Some fs"
      using fs by (intro within_exact [OF fs(1) v]) simp_all
    then show ?thesis unfolding encodeReviewEdit_def ReplaceEdit review_edit.case
      using fs by (intro jsonEqual_exact) auto
  qed
next
  fix e assume "review_edit_ok e"
  then show "wf_json (encodeReviewEdit e)" "parseReviewEdit (encodeReviewEdit e) = Some e"
    by (cases e; simp add: encodeReviewEdit_def parseReviewEdit_Drop parseReviewEdit_Replace within_names_Some)+
qed (rule parseReviewEdit_sort)

definition review_lineage_ok :: "review_lineage \<Rightarrow> bool" where
  "review_lineage_ok l \<longleftrightarrow> validId (rl_parentRunId l) \<and> rl_operation l \<in> set LINEAGE_OPERATIONS
     \<and> list_all review_edit_ok (rl_edits l) \<and> length (rl_edits l) \<le> 2048
     \<and> (rl_edits l = [] \<or> rl_operation l = js ''fork'')"

definition lineage_names :: "jstr list" where
  "lineage_names = [js ''parentRunId'', js ''operation'', js ''edits'']"

lemma parseReviewLineage_Some:
  "parseReviewLineage v = Some l \<longleftrightarrow>
     (\<exists>fs es. within_names (Some v) lineage_names = Some fs
        \<and> map_of fs (js ''parentRunId'') = Some (JStr (rl_parentRunId l))
        \<and> map_of fs (js ''operation'') = Some (JStr (rl_operation l)) \<and> map_of fs (js ''edits'') = Some (JArr es)
        \<and> list_all2 (\<lambda>v x. parseReviewEdit v = Some x) es (rl_edits l)
        \<and> validId (rl_parentRunId l) \<and> rl_operation l \<in> set LINEAGE_OPERATIONS \<and> length (rl_edits l) \<le> 2048
        \<and> (rl_edits l = [] \<or> rl_operation l = js ''fork''))"
  by (cases l) (auto simp: parseReviewLineage_def lineage_names_def jsonMember_def bind_eq_Some_conv textOf_Some oneOf_Some
      listOf_Some)

interpretation review_lineage: text_codec parseReviewLineage encodeReviewLineage review_lineage_ok
proof
  fix v l assume v: "wf_json v" and "parseReviewLineage v = Some l"
  then obtain fs es where fs: "within_names (Some v) lineage_names = Some fs"
      "map_of fs (js ''parentRunId'') = Some (JStr (rl_parentRunId l))"
      "map_of fs (js ''operation'') = Some (JStr (rl_operation l))" "map_of fs (js ''edits'') = Some (JArr es)"
      and es: "list_all2 (\<lambda>v x. parseReviewEdit v = Some x) es (rl_edits l)"
      and ok: "validId (rl_parentRunId l)" "rl_operation l \<in> set LINEAGE_OPERATIONS" "length (rl_edits l) \<le> 2048"
        "rl_edits l = [] \<or> rl_operation l = js ''fork''"
    unfolding parseReviewLineage_Some by blast
  have ex: "exact (Some v) lineage_names = Some fs"
    using fs by (intro within_exact [OF fs(1) v]) (simp_all add: lineage_names_def)
  have wf: "list_all wf_json es" using exact_wf [OF ex v fs(4)] by simp
  show "review_lineage_ok l"
    using ok review_edit.list_decode_valid [OF es wf] by (simp add: review_lineage_ok_def)
  show "jsonEqual (encodeReviewLineage l) v"
    unfolding encodeReviewLineage_def using fs review_edit.list_encode_decode [OF es wf]
    by (intro jsonEqual_exact [OF ex]) (simp_all add: lineage_names_def del: jsonEqual.simps(5))
next
  fix l assume l: "review_lineage_ok l"
  then show "wf_json (encodeReviewLineage l)"
    using review_edit.list_encode_wf [of "rl_edits l"] by (simp add: review_lineage_ok_def encodeReviewLineage_def)
  have "list_all2 (\<lambda>v x. parseReviewEdit v = Some x) (map encodeReviewEdit (rl_edits l)) (rl_edits l)"
    using l by (auto simp: review_lineage_ok_def list_all2_map1 list_all_iff review_edit.decode_encode
        intro!: list.rel_refl_strong)
  with l show "parseReviewLineage (encodeReviewLineage l) = Some l"
    by (auto simp: review_lineage_ok_def encodeReviewLineage_def parseReviewLineage_Some within_names_Some lineage_names_def)
next
  fix v assume v: "wf_json v"
  show "parseReviewLineage (sort_members v) = parseReviewLineage v"
  proof (cases "within_names (Some v) lineage_names")
    case (Some fs)
    note wf = within_wf [OF Some v]
    show ?thesis using v Some
      by (simp add: parseReviewLineage_def lineage_names_def [symmetric] within_sort member_sort
          within_distinct [OF Some v] listOf_sort [OF wf] parseReviewEdit_sort)
  qed (simp add: parseReviewLineage_def lineage_names_def [symmetric] within_sort v)
qed


section \<open>Reviews\<close>

definition texts_ok :: "jstr list \<Rightarrow> bool" where
  "texts_ok ts \<longleftrightarrow> length ts \<le> 256 \<and> list_all (\<lambda>t. bounded t 0 4096) ts"

lemma boundedTexts_Some: "boundedTexts m = Some ts \<longleftrightarrow> m = Some (JArr (map JStr ts)) \<and> texts_ok ts"
proof -
  have each: "list_all2 (\<lambda>v x. v = JStr x \<and> bounded x 0 4096) vs ts \<longleftrightarrow> vs = map JStr ts \<and> list_all (\<lambda>t. bounded t 0 4096) ts" for vs
    by (induction ts arbitrary: vs) (auto simp: list_all2_Cons2)
  show ?thesis unfolding boundedTexts_def listOf_Some boundedText_Some texts_ok_def
    by (simp add: each; metis length_map)
qed

definition review_ok :: "review \<Rightarrow> bool" where
  "review_ok r \<longleftrightarrow>
     validDigest (rv_programHash r) \<and> rv_personAnswering r \<in> {js ''engine'', js ''local-control''}
     \<and> validPolicy (Some (rv_policy r)) \<and> wf_json (rv_policy r)
     \<and> validId (rv_workflowId r) \<and> validId (rv_profileId r)
     \<and> bounded (rv_workspaceLabel r) 0 4096 \<and> bounded (rv_targetLabel r) 0 4096
     \<and> list_all review_input_ok (rv_inputs r) \<and> length (rv_inputs r) \<le> 256 \<and> bounded (rv_plan r) 0 524288
     \<and> texts_ok (rv_runFacts r) \<and> texts_ok (rv_pins r) \<and> texts_ok (rv_warnings r)
     \<and> observationCode (Some (rv_resultCode r)) REVIEW_DEPTH = Some (rv_resultCode r) \<and> wf_json (rv_resultCode r)
     \<and> (\<forall>l \<in> set_option (rv_lineage r). review_lineage_ok l)"

definition review_members :: "json_members \<Rightarrow> review \<Rightarrow> bool" where
  "review_members fs r \<longleftrightarrow>
     map_of fs (js ''programHash'') = Some (JStr (rv_programHash r)) \<and> validDigest (rv_programHash r)
     \<and> map_of fs (js ''personAnswering'') = Some (JStr (rv_personAnswering r))
     \<and> rv_personAnswering r \<in> {js ''engine'', js ''local-control''}
     \<and> map_of fs (js ''policy'') = Some (rv_policy r) \<and> validPolicy (Some (rv_policy r))
     \<and> map_of fs (js ''workflowId'') = Some (JStr (rv_workflowId r)) \<and> validId (rv_workflowId r)
     \<and> map_of fs (js ''profileId'') = Some (JStr (rv_profileId r)) \<and> validId (rv_profileId r)
     \<and> map_of fs (js ''workspaceLabel'') = Some (JStr (rv_workspaceLabel r)) \<and> bounded (rv_workspaceLabel r) 0 4096
     \<and> map_of fs (js ''targetLabel'') = Some (JStr (rv_targetLabel r)) \<and> bounded (rv_targetLabel r) 0 4096
     \<and> (\<exists>vs. map_of fs (js ''inputs'') = Some (JArr vs) \<and> length vs \<le> 256
          \<and> list_all2 (\<lambda>v x. parseReviewInput v = Some x) vs (rv_inputs r))
     \<and> map_of fs (js ''plan'') = Some (JStr (rv_plan r)) \<and> bounded (rv_plan r) 0 524288
     \<and> map_of fs (js ''runFacts'') = Some (JArr (map JStr (rv_runFacts r))) \<and> texts_ok (rv_runFacts r)
     \<and> map_of fs (js ''pins'') = Some (JArr (map JStr (rv_pins r))) \<and> texts_ok (rv_pins r)
     \<and> map_of fs (js ''warnings'') = Some (JArr (map JStr (rv_warnings r))) \<and> texts_ok (rv_warnings r)
     \<and> map_of fs (js ''resultCode'') = Some (rv_resultCode r)
     \<and> observationCode (Some (rv_resultCode r)) REVIEW_DEPTH = Some (rv_resultCode r)
     \<and> (case rv_lineage r of
          None \<Rightarrow> map_of fs (js ''lineage'') = None
        | Some l \<Rightarrow> \<exists>y. map_of fs (js ''lineage'') = Some y \<and> parseReviewLineage y = Some l)"

lemma lineage_member:
  "(case m of None \<Rightarrow> Some None | Some l \<Rightarrow> map_option Some (parseReviewLineage l)) = Some t \<longleftrightarrow>
     (case t of None \<Rightarrow> m = None | Some l \<Rightarrow> \<exists>y. m = Some y \<and> parseReviewLineage y = Some l)"
  by (auto split: option.splits)

lemma code_member: "observationCode m rule = Some c \<longleftrightarrow> m = Some c \<and> observationCode (Some c) rule = Some c"
  using observationCode_Some [of m rule c] by auto

lemma parseReview_members:
  assumes "parseReview m = Some r"
  shows "\<exists>fs. within_names m REVIEW_NAMES = Some fs \<and> review_members fs r"
  using assms unfolding parseReview_def
  by (elim bind_Some_elim)
    (clarsimp simp: jsonMember_def textOf_Some oneOf_Some boundedText_Some boundedTexts_Some listOf_Some
      lineage_member code_member [of "map_of _ _"] review_members_def)

lemma parseReview_written:
  assumes "within_names m REVIEW_NAMES = Some fs" "review_members fs r"
  shows "parseReview m = Some r"
proof -
  have l: "(case map_of fs (js ''lineage'') of None \<Rightarrow> Some None | Some l \<Rightarrow> map_option Some (parseReviewLineage l))
      = Some (rv_lineage r)"
    using assms(2) unfolding lineage_member review_members_def by blast
  have t: "boundedTexts (map_of fs (js ''runFacts'')) = Some (rv_runFacts r)"
    "boundedTexts (map_of fs (js ''pins'')) = Some (rv_pins r)"
    "boundedTexts (map_of fs (js ''warnings'')) = Some (rv_warnings r)"
    "listOf (map_of fs (js ''inputs'')) parseReviewInput (Some 256) = Some (rv_inputs r)"
    "oneOf (map_of fs (js ''personAnswering'')) [js ''engine'', js ''local-control''] = Some (rv_personAnswering r)"
    using assms(2) by (auto simp: review_members_def boundedTexts_Some listOf_Some oneOf_Some)
  show ?thesis unfolding parseReview_def jsonMember_def
    using assms l t by (simp add: review_members_def textOf_def boundedText_def require_def)
qed

interpretation review: codec "\<lambda>v. parseReview (Some v)" encodeReview review_ok
proof
  fix v r assume v: "wf_json v" and "parseReview (Some v) = Some r"
  from parseReview_members [OF this(2)] obtain fs where fs: "within_names (Some v) REVIEW_NAMES = Some fs"
      and rm: "review_members fs r" by blast
  have vo: "v = JObj fs" and wfo: "wf_json (JObj fs)" using within_obj [OF fs] within_wf [OF fs v] by auto
  note wf = wf_member [OF wfo]
  obtain vs where vs: "map_of fs (js ''inputs'') = Some (JArr vs)" "length vs \<le> 256"
      "list_all2 (\<lambda>v x. parseReviewInput v = Some x) vs (rv_inputs r)" using rm by (auto simp: review_members_def)
  have wvs: "list_all wf_json vs" using wf [OF vs(1)] by simp
  have lin: "\<forall>l \<in> set_option (rv_lineage r). review_lineage_ok l"
    using rm wf review_lineage.decode_valid unfolding review_members_def by (auto split: option.splits)
  show "review_ok r"
    using rm lin review_input.list_decode_valid [OF vs(3) wvs] list_all2_lengthD [OF vs(3)] vs(2)
      wf [of "js ''policy''" "rv_policy r"] wf [of "js ''resultCode''" "rv_resultCode r"]
    unfolding review_members_def review_ok_def by simp
  have eqs: "jsonEqual (rv_policy r) (rv_policy r)" "jsonEqual (rv_resultCode r) (rv_resultCode r)"
    using rm wf unfolding review_members_def by (auto intro: jsonEqual_refl)
  let ?names = "butlast REVIEW_NAMES @ (case rv_lineage r of None \<Rightarrow> [] | Some _ \<Rightarrow> [js ''lineage''])"
  have sub: "fst ` set fs \<subseteq> set ?names"
  proof
    fix k assume k: "k \<in> fst ` set fs"
    have "k \<in> set REVIEW_NAMES" using k fs by (auto simp: within_names_Some)
    moreover have "rv_lineage r = None \<Longrightarrow> js ''lineage'' \<notin> fst ` set fs"
      using rm unfolding review_members_def by (simp add: map_of_eq_None_iff)
    then have "rv_lineage r = None \<Longrightarrow> k \<noteq> js ''lineage''" using k by metis
    ultimately show "k \<in> set ?names" by (cases "rv_lineage r") (auto simp: REVIEW_NAMES_def)
  qed
  have ex: "exact (Some v) ?names = Some fs"
  proof (rule within_exact [OF _ v])
    show "within_names (Some v) ?names = Some fs" using sub vo by (simp add: within_names_Some)
    show "list_all (map_has fs) ?names"
      using rm by (cases "rv_lineage r") (simp_all add: REVIEW_NAMES_def review_members_def, fastforce+)
    show "distinct ?names" by (cases "rv_lineage r") (simp_all add: REVIEW_NAMES_def)
  qed
  show "jsonEqual (encodeReview r) v"
    unfolding encodeReview_def
    by (rule jsonEqual_exact [OF ex])
      (use rm vs eqs review_input.list_encode_decode [OF vs(3) wvs] wf review_lineage.encode_decode in
        \<open>auto simp: REVIEW_NAMES_def review_members_def simp del: jsonEqual.simps(5) split: option.splits\<close>)
next
  fix r assume r: "review_ok r"
  have l: "\<forall>l \<in> set_option (rv_lineage r). wf_json (encodeReviewLineage l) \<and> parseReviewLineage (encodeReviewLineage l) = Some l"
    using r review_lineage.encode_wf review_lineage.decode_encode by (auto simp: review_ok_def)
  show "wf_json (encodeReview r)"
    using r l review_input.list_encode_wf [of "rv_inputs r"]
    by (cases "rv_lineage r") (simp_all add: review_ok_def encodeReview_def)
  have inp: "list_all2 (\<lambda>v x. parseReviewInput v = Some x) (map encodeReviewInput (rv_inputs r)) (rv_inputs r)"
    using r by (auto simp: review_ok_def list_all2_map1 list_all_iff review_input.decode_encode intro!: list.rel_refl_strong)
  obtain fs where fs: "encodeReview r = JObj fs" and names: "fst ` set fs \<subseteq> set REVIEW_NAMES"
    by (cases "rv_lineage r") (auto simp: encodeReview_def REVIEW_NAMES_def)
  show "parseReview (Some (encodeReview r)) = Some r"
  proof (rule parseReview_written)
    show "within_names (Some (encodeReview r)) REVIEW_NAMES = Some fs" unfolding fs using names by (rule within_self)
    show "review_members fs r"
      using fs r l inp by (cases "rv_lineage r") (auto simp: encodeReview_def review_ok_def review_members_def)
  qed
qed


section \<open>Preparations\<close>

definition preparation_ok :: "preparation \<Rightarrow> bool" where
  "preparation_ok p \<longleftrightarrow>
     list_all validId [pp_id p, pp_revision p, pp_requestId p, pp_requestRevision p, pp_profileId p,
       pp_profileRevision p, pp_descriptorRevision p, pp_processGeneration p]
     \<and> pp_state p \<in> set PREPARATION_STATES \<and> validTimestamp (pp_expiresAt p) \<and> validDigest (pp_reviewDigest p)
     \<and> review_ok (pp_review p) \<and> (\<forall>s \<in> set_option (pp_reason p). s \<in> set PREPARATION_REASONS)"

definition preparation_members :: "json_members \<Rightarrow> preparation \<Rightarrow> bool" where
  "preparation_members fs p \<longleftrightarrow>
     versionOne fs
     \<and> map_of fs (js ''id'') = Some (JStr (pp_id p)) \<and> map_of fs (js ''revision'') = Some (JStr (pp_revision p))
     \<and> map_of fs (js ''requestId'') = Some (JStr (pp_requestId p))
     \<and> map_of fs (js ''requestRevision'') = Some (JStr (pp_requestRevision p))
     \<and> map_of fs (js ''profileId'') = Some (JStr (pp_profileId p))
     \<and> map_of fs (js ''profileRevision'') = Some (JStr (pp_profileRevision p))
     \<and> map_of fs (js ''descriptorRevision'') = Some (JStr (pp_descriptorRevision p))
     \<and> map_of fs (js ''processGeneration'') = Some (JStr (pp_processGeneration p))
     \<and> list_all validId [pp_id p, pp_revision p, pp_requestId p, pp_requestRevision p, pp_profileId p,
          pp_profileRevision p, pp_descriptorRevision p, pp_processGeneration p]
     \<and> map_of fs (js ''state'') = Some (JStr (pp_state p)) \<and> pp_state p \<in> set PREPARATION_STATES
     \<and> map_of fs (js ''expiresAt'') = Some (JStr (pp_expiresAt p)) \<and> validTimestamp (pp_expiresAt p)
     \<and> map_of fs (js ''reviewDigest'') = Some (JStr (pp_reviewDigest p)) \<and> validDigest (pp_reviewDigest p)
     \<and> parseReview (map_of fs (js ''review'')) = Some (pp_review p)
     \<and> map_of fs (js ''reason'') = Some (text_or_null (pp_reason p))
     \<and> (\<forall>s \<in> set_option (pp_reason p). s \<in> set PREPARATION_REASONS)"

lemma parsePreparation_members:
  assumes "parsePreparation v = Some p"
  shows "\<exists>fs. within_names (Some v) PREPARATION_NAMES = Some fs \<and> preparation_members fs p"
  using assms unfolding parsePreparation_def
  by (elim bind_Some_elim)
    (clarsimp simp: jsonMember_def textOf_Some oneOf_Some nullable_oneOf preparation_members_def)

lemma parsePreparation_written:
  assumes "within_names (Some v) PREPARATION_NAMES = Some fs" "preparation_members fs p"
  shows "parsePreparation v = Some p"
proof -
  have n: "nullable (map_of fs (js ''reason'')) (\<lambda>v. oneOf (Some v) PREPARATION_REASONS) = Some (pp_reason p)"
    "oneOf (map_of fs (js ''state'')) PREPARATION_STATES = Some (pp_state p)"
    using assms(2) by (simp_all add: preparation_members_def nullable_oneOf oneOf_Some)
  show ?thesis unfolding parsePreparation_def jsonMember_def
    using assms n by (simp add: preparation_members_def textOf_def require_def)
qed

lemma review_member:
  "parseReview (map_of fs k) = Some r \<Longrightarrow> \<exists>y. map_of fs k = Some y \<and> parseReview (Some y) = Some r"
  by (cases "map_of fs k") (auto simp: parseReview_def within_names_def)

interpretation preparation: codec parsePreparation encodePreparation preparation_ok
proof
  fix v p assume v: "wf_json v" and "parsePreparation v = Some p"
  from parsePreparation_members [OF this(2)] obtain fs where fs: "within_names (Some v) PREPARATION_NAMES = Some fs"
      and pm: "preparation_members fs p" by blast
  obtain rv where rv: "map_of fs (js ''review'') = Some rv" "parseReview (Some rv) = Some (pp_review p)"
    using review_member [of fs "js ''review''"] pm unfolding preparation_members_def by blast
  have ex: "exact (Some v) PREPARATION_NAMES = Some fs"
    by (rule within_exact [OF fs v])
      (use pm rv(1) in \<open>auto simp: PREPARATION_NAMES_def preparation_members_def versionOne_members\<close>)
  have wr: "wf_json rv" using exact_wf [OF ex v rv(1)] .
  show "preparation_ok p"
    using pm review.decode_valid [OF wr rv(2)] unfolding preparation_members_def preparation_ok_def by simp
  obtain ver where "map_of fs (js ''version'') = Some ver" "jsonEqual (JNum (js ''1'')) ver"
    using versionOne_equal [OF _ exact_wf_obj [OF ex v]] pm unfolding preparation_members_def by blast
  then show "jsonEqual (encodePreparation p) v"
    unfolding encodePreparation_def using pm rv(1) review.encode_decode [OF wr rv(2)]
    by (intro jsonEqual_exact [OF ex]) (simp_all add: PREPARATION_NAMES_def preparation_members_def)
next
  fix p assume p: "preparation_ok p"
  then have r: "wf_json (encodeReview (pp_review p))" "parseReview (Some (encodeReview (pp_review p))) = Some (pp_review p)"
    using review.encode_wf review.decode_encode by (auto simp: preparation_ok_def)
  show "wf_json (encodePreparation p)" using r by (simp add: encodePreparation_def)
  obtain fs where fs: "encodePreparation p = JObj fs" and names: "fst ` set fs \<subseteq> set PREPARATION_NAMES"
    by (simp add: encodePreparation_def PREPARATION_NAMES_def)
  show "parsePreparation (encodePreparation p) = Some p"
  proof (rule parsePreparation_written)
    show "within_names (Some (encodePreparation p)) PREPARATION_NAMES = Some fs"
      unfolding fs using names by (rule within_self)
    show "preparation_members fs p"
      using fs r p by (auto simp: encodePreparation_def preparation_ok_def preparation_members_def)
  qed
qed

end
