(* ===== verification/Refresh.thy ===== *)
theory Refresh
  imports Events
begin

text \<open>
  Refresh coordination (\<^verbatim>\<open>manager/refresh.ts\<close>): one fetch in flight for a resource, coalescing
  of invalidations, fencing by generation, the reconnection backoff, and the reconciliation of
  an uncertain command. A step relation then runs the coordinator against a server whose
  resources change, and shows that no invalidation is lost.
\<close>

section \<open>Flights\<close>

record flight =
  fl_generation :: int
  fl_dirty :: bool

record 'k refresh =
  generation :: int
  flights :: "('k, flight) jsmap"

definition newRefresh :: "'k refresh" where
  "newRefresh = \<lparr>generation = 0, flights = []\<rparr>"

datatype 'k refresh_action = Fetch 'k int | Install 'k int | Discard 'k int

definition withFlight :: "'k refresh \<Rightarrow> 'k \<Rightarrow> flight option \<Rightarrow> 'k refresh" where
  "withFlight state key f =
     \<lparr>generation = generation state,
      flights = (case f of
          None \<Rightarrow> AList.delete key (flights state)
        | Some x \<Rightarrow> map_set key x (flights state))\<rparr>"

definition invalidateResource :: "'k \<Rightarrow> 'k refresh \<Rightarrow> 'k refresh \<times> 'k refresh_action list" where
  "invalidateResource key state =
     (case map_of (flights state) key of
        Some f \<Rightarrow>
          (withFlight state key (Some \<lparr>fl_generation = fl_generation f, fl_dirty = True\<rparr>), [])
      | None \<Rightarrow>
          (withFlight state key (Some \<lparr>fl_generation = generation state, fl_dirty = False\<rparr>),
           [Fetch key (generation state)]))"

definition completeFetch :: "'k \<Rightarrow> int \<Rightarrow> 'k refresh \<Rightarrow> 'k refresh \<times> 'k refresh_action list" where
  "completeFetch key gen state =
     (let current = generation state in
      case map_of (flights state) key of
        None \<Rightarrow> (state, [Discard key gen])
      | Some f \<Rightarrow>
          if gen \<noteq> current \<or> fl_generation f \<noteq> current then (state, [Discard key gen])
          else if fl_dirty f then
            (withFlight state key (Some \<lparr>fl_generation = current, fl_dirty = False\<rparr>),
             [Install key gen, Fetch key current])
          else (withFlight state key None, [Install key gen]))"

definition advanceGeneration :: "'k refresh \<Rightarrow> 'k refresh" where
  "advanceGeneration state = \<lparr>generation = generation state + 1, flights = []\<rparr>"

section \<open>Backoff\<close>

definition RECONNECT_BACKOFF_MAX_SECONDS :: int where
  "RECONNECT_BACKOFF_MAX_SECONDS = 30"

record backoff = seconds :: int

definition INITIAL_BACKOFF :: backoff where
  "INITIAL_BACKOFF = \<lparr>seconds = 1\<rparr>"

definition reconnectDelay :: "backoff \<Rightarrow> int \<times> backoff" where
  "reconnectDelay b = (seconds b, \<lparr>seconds = min RECONNECT_BACKOFF_MAX_SECONDS (2 * seconds b)\<rparr>)"

text \<open>
  The fraction is any JavaScript number. The product is computed exactly here; the source rounds
  it, which is monotone, so the bounds proved below hold for it too.
\<close>

definition clamp_fraction :: "js_number \<Rightarrow> rat" where
  "clamp_fraction fraction =
     (case fraction of
        Finite r \<Rightarrow> if r \<ge> 1 then 1 else if r > 0 then r else 0
      | PosInfinity \<Rightarrow> 1 | NegInfinity \<Rightarrow> 0 | NotANumber \<Rightarrow> 0)"

definition jitteredMicroseconds :: "int \<Rightarrow> js_number \<Rightarrow> int" where
  "jitteredMicroseconds secs fraction =
     \<lfloor>of_int secs * 1000000 * (1 / 2 + 1 / 2 * clamp_fraction fraction)\<rfloor>"

section \<open>Uncertain commands\<close>

definition COMMAND_STATES :: "jstr list" where
  "COMMAND_STATES = [js ''accepted'', js ''dispatch-attempted'', js ''acknowledged'',
     js ''effect-observed'', js ''refused'', js ''unresolved'']"

definition parseCommandState :: "jstr \<Rightarrow> jstr option" where
  "parseCommandState text = List.find (\<lambda>state. state = text) COMMAND_STATES"

record ('c, 'l) uncertain =
  un_command :: 'c
  un_target :: 'l
  un_precondition :: "jstr option"
  un_receipt :: "'l option"

datatype 'l reconcile_read = ReadReceipt 'l | ReadTarget 'l

definition reconcileRead :: "('c, 'l) uncertain \<Rightarrow> 'l reconcile_read" where
  "reconcileRead u =
     (case un_receipt u of None \<Rightarrow> ReadTarget (un_target u) | Some l \<Rightarrow> ReadReceipt l)"

datatype observation =
  ObservedReceipt jstr
| ObservedTarget jstr bool
| ObservedFailure client_failure

datatype ('c, 'l) reconciled = EffectObserved | CommandRefused | StillUncertain "('c, 'l) uncertain"

definition reconcile :: "('c, 'l) uncertain \<Rightarrow> observation \<Rightarrow> ('c, 'l) reconciled" where
  "reconcile u ob =
     (case (un_receipt u, ob) of
        (Some _, ObservedReceipt state) \<Rightarrow>
          if state = js ''effect-observed'' then EffectObserved
          else if state = js ''refused'' then CommandRefused
          else StillUncertain u
      | (None, ObservedTarget etag effectVisible) \<Rightarrow>
          if effectVisible \<and> Some etag \<noteq> un_precondition u then EffectObserved else StillUncertain u
      | _ \<Rightarrow> StillUncertain u)"

section \<open>Laws of the backoff\<close>

text \<open>The delays of a connection that keeps failing.\<close>

fun backoff_after :: "nat \<Rightarrow> backoff" where
  "backoff_after 0 = INITIAL_BACKOFF"
| "backoff_after (Suc n) = snd (reconnectDelay (backoff_after n))"

lemma backoff_after_value: "seconds (backoff_after n) = min 30 (2 ^ n)"
  by (induction n) (auto simp: INITIAL_BACKOFF_def reconnectDelay_def RECONNECT_BACKOFF_MAX_SECONDS_def)

lemma clamp_range: "0 \<le> clamp_fraction f" "clamp_fraction f \<le> 1"
  by (auto simp: clamp_fraction_def split: js_number.split)

lemma jitter_bounds:
  assumes "0 \<le> s"
  shows "s * 500000 \<le> jitteredMicroseconds s f" and "jitteredMicroseconds s f \<le> s * 1000000"
proof -
  let ?c = "clamp_fraction f" and ?s = "of_int s :: rat"
  have s: "0 \<le> ?s" using assms by simp
  have lo: "?s * 500000 \<le> ?s * 1000000 * (1 / 2 + 1 / 2 * ?c)"
  proof -
    have "0 \<le> ?s * ?c" using s clamp_range(1) by (rule mult_nonneg_nonneg)
    then show ?thesis by (simp add: algebra_simps)
  qed
  have hi: "?s * 1000000 * (1 / 2 + 1 / 2 * ?c) \<le> ?s * 1000000"
  proof -
    have "?s * ?c \<le> ?s * 1" using clamp_range(2) s by (rule mult_left_mono)
    then show ?thesis by (simp add: algebra_simps)
  qed
  have "of_int (s * 500000) \<le> ?s * 1000000 * (1 / 2 + 1 / 2 * ?c)" using lo by simp
  then show "s * 500000 \<le> jitteredMicroseconds s f" unfolding jitteredMicroseconds_def by (simp add: le_floor_iff)
  have "?s * 1000000 * (1 / 2 + 1 / 2 * ?c) \<le> of_int (s * 1000000)" using hi by simp
  then have "jitteredMicroseconds s f \<le> \<lfloor>of_int (s * 1000000) :: rat\<rfloor>"
    unfolding jitteredMicroseconds_def by (rule floor_mono)
  then show "jitteredMicroseconds s f \<le> s * 1000000" by (simp only: floor_of_int)
qed

section \<open>The coordinator against a changing server\<close>

text \<open>
  The server has a version for each resource. The client watches some resources; it has for each what its last
  installed read gave (the version of the server when the read was asked for, and the version that was read, or
  nothing when the read was refused), the latest version that was announced to it, and its fetches in flight,
  each with the version of the server when it was asked for. A fetch that ends has read some version since then,
  or it was refused.

  A new generation forgets every flight: until the session has read its overview, which it reads outside the
  coordinator, and has invalidated what it watches again, the client is \<open>behind\<close>. A change of the endpoint clears what is watched and installed, for a server with other versions.
\<close>

record 'k world =
  client :: "'k refresh"
  server :: "'k \<Rightarrow> nat"
  watching :: "'k list"
  behind :: bool
  last_read :: "'k \<Rightarrow> (nat \<times> nat option) option"
  announced :: "'k \<Rightarrow> nat"
  outstanding :: "('k \<times> int \<times> nat) list"

fun perform :: "nat \<times> nat option \<Rightarrow> 'k world \<Rightarrow> 'k refresh_action list \<Rightarrow> 'k world" where
  "perform r w [] = w"
| "perform r w (Fetch k g # as) = perform r (w\<lparr>outstanding := (k, g, server w k) # outstanding w\<rparr>) as"
| "perform r w (Install k g # as) = perform r (w\<lparr>last_read := (last_read w)(k := Some r)\<rparr>) as"
| "perform r w (Discard k g # as) = perform r w as"

definition world0 :: "'k world" where
  "world0 = \<lparr>client = newRefresh, server = (\<lambda>_. 0), watching = [], behind = False, last_read = (\<lambda>_. None), announced = (\<lambda>_. 0),
     outstanding = []\<rparr>"

text \<open>An invalidation that announces the changes up to version \<open>n\<close>.\<close>

definition invalidate_at :: "nat \<Rightarrow> 'k \<Rightarrow> 'k world \<Rightarrow> 'k world" where
  "invalidate_at n k w =
     (let (c, as) = invalidateResource k (client w) in
      perform (0, None) (w\<lparr>client := c, announced := (announced w)(k := n)\<rparr>) as)"

text \<open>What a read gives that was asked for at version \<open>s\<close>: a version since then, or a refusal.\<close>

definition read_since :: "nat \<Rightarrow> nat \<Rightarrow> nat option \<Rightarrow> bool" where
  "read_since s now outcome \<longleftrightarrow> (case outcome of None \<Rightarrow> True | Some v \<Rightarrow> s \<le> v \<and> v \<le> now)"

inductive refresh_step :: "'k world \<Rightarrow> 'k world \<Rightarrow> bool" where
  change: "refresh_step w (w\<lparr>server := (server w)(k := server w k + 1)\<rparr>)"
| watched: "refresh_step w (invalidate_at (server w k) k (w\<lparr>watching := watching w @ [k]\<rparr>))"
| announce: "k \<in> set (watching w) \<Longrightarrow> announced w k \<le> n \<Longrightarrow> n \<le> server w k \<Longrightarrow> refresh_step w (invalidate_at n k w)"
| complete: "outstanding w = xs @ (k, g, s) # ys \<Longrightarrow> read_since s (server w k) outcome \<Longrightarrow>
    completeFetch k g (client w) = (c, as) \<Longrightarrow>
    refresh_step w (perform (s, outcome) (w\<lparr>client := c, outstanding := xs @ ys\<rparr>) as)"
| resnapshot: "refresh_step w (w\<lparr>client := advanceGeneration (client w), behind := True\<rparr>)"
| resumed: "refresh_step w ((fold (\<lambda>k w. invalidate_at (server w k) k w) (watching w) w)\<lparr>behind := False\<rparr>)"
| switched: "refresh_step w (w\<lparr>client := advanceGeneration (client w), server := versions, watching := [], behind := False,
    last_read := (\<lambda>_. None), announced := (\<lambda>_. 0)\<rparr>)"

inductive refresh_reachable :: "'k world \<Rightarrow> bool" where
  start: "refresh_reachable world0"
| step: "refresh_reachable w \<Longrightarrow> refresh_step w w' \<Longrightarrow> refresh_reachable w'"

definition flying :: "int \<Rightarrow> ('k \<times> int \<times> nat) list \<Rightarrow> 'k \<Rightarrow> nat list" where
  "flying gen out k = map (\<lambda>(_, _, s). s) (filter (\<lambda>(k', g, _). k' = k \<and> g = gen) out)"

text \<open>
  Invariant of one resource. Without a flight no fetch of this generation is out and, if the resource must be
  \<open>covered\<close>, its last installed read was asked for since the last announcement; with a flight exactly one is out,
  and unless the flight is dirty it was asked for since then.
\<close>

definition fresh_read :: "nat \<Rightarrow> nat \<Rightarrow> (nat \<times> nat option) option \<Rightarrow> bool" where
  "fresh_read ann now seen \<longleftrightarrow> (\<exists>s outcome. seen = Some (s, outcome) \<and> ann \<le> s \<and> s \<le> now \<and> read_since s now outcome)"

definition key_ok :: "bool \<Rightarrow> int \<Rightarrow> flight option \<Rightarrow> nat list \<Rightarrow> nat \<Rightarrow> nat \<Rightarrow> (nat \<times> nat option) option \<Rightarrow> bool" where
  "key_ok covered gen f fly ann now seen \<longleftrightarrow>
     ann \<le> now \<and>
     (case f of
        None \<Rightarrow> fly = [] \<and> (covered \<longrightarrow> fresh_read ann now seen)
      | Some x \<Rightarrow> fl_generation x = gen \<and> (\<exists>s. fly = [s] \<and> s \<le> now \<and> (fl_dirty x \<or> ann \<le> s)))"

definition key_inv :: "bool \<Rightarrow> 'k world \<Rightarrow> 'k \<Rightarrow> bool" where
  "key_inv covered w k \<longleftrightarrow>
     key_ok covered (generation (client w)) (map_of (flights (client w)) k)
       (flying (generation (client w)) (outstanding w) k) (announced w k) (server w k) (last_read w k)"

text \<open>The invariant with the resources that must be covered.\<close>

definition covers :: "'k set \<Rightarrow> 'k world \<Rightarrow> bool" where
  "covers ks w \<longleftrightarrow>
     wf_map (flights (client w)) \<and> (\<forall>(_, g, _) \<in> set (outstanding w). g \<le> generation (client w))
     \<and> (\<forall>k. key_inv (k \<in> ks) w k)"

definition world_inv :: "'k world \<Rightarrow> bool" where
  "world_inv w \<longleftrightarrow> covers (if behind w then {} else set (watching w)) w"

lemma flying_simps [simp]:
  "flying gen [] k = []"
  "flying gen ((k', g, s) # out) k = (if k' = k \<and> g = gen then s # flying gen out k else flying gen out k)"
  "flying gen (xs @ ys) k = flying gen xs k @ flying gen ys k"
  by (auto simp: flying_def)

lemma flying_old: "\<forall>(_, g, _) \<in> set out. g \<le> gen \<Longrightarrow> flying (gen + 1) out k = []"
  by (fastforce simp: flying_def filter_empty_conv)

lemma key_ok_idle [simp]: "key_ok covered gen None fly ann now seen \<longleftrightarrow> ann \<le> now \<and> fly = [] \<and> (covered \<longrightarrow> fresh_read ann now seen)"
  by (auto simp: key_ok_def)

lemma key_ok_flight [simp]:
  "key_ok covered gen (Some x) fly ann now seen \<longleftrightarrow>
     ann \<le> now \<and> fl_generation x = gen \<and> (\<exists>s. fly = [s] \<and> s \<le> now \<and> (fl_dirty x \<or> ann \<le> s))"
  by (auto simp: key_ok_def)

lemma fresh_read_later:
  assumes "fresh_read ann now seen" "now \<le> later"
  shows "fresh_read ann later seen"
proof -
  obtain s outcome where o: "seen = Some (s, outcome)" "ann \<le> s" "s \<le> now" "read_since s now outcome"
    using assms(1) unfolding fresh_read_def by blast
  moreover have "read_since s later outcome" using o(4) assms(2) by (cases outcome) (simp_all add: read_since_def)
  ultimately show ?thesis using assms(2) unfolding fresh_read_def by (intro exI [of _ s] exI [of _ outcome]) simp
qed

lemma key_ok_server:
  assumes "key_ok covered gen f fly ann now seen" "now \<le> later"
  shows "key_ok covered gen f fly ann later seen"
proof (cases f)
  case None
  then show ?thesis using assms fresh_read_later [OF _ assms(2)] by auto
next
  case (Some x)
  then show ?thesis using assms by (auto intro: le_trans)
qed

lemma key_ok_covered: "key_ok covered gen f fly ann now seen \<Longrightarrow> (covered' \<Longrightarrow> covered) \<Longrightarrow> key_ok covered' gen f fly ann now seen"
  by (cases f) auto

lemma covers_fewer: "covers ks w \<Longrightarrow> ks' \<subseteq> ks \<Longrightarrow> covers ks' w"
  by (auto simp: covers_def key_inv_def intro: key_ok_covered)

lemma delete_wf [simp]: "wf_map m \<Longrightarrow> wf_map (AList.delete k m)"
  by (rule AList.distinct_delete)

lemma flights_with [simp]:
  "map_of (flights (withFlight c k (Some f))) = (map_of (flights c))(k \<mapsto> f)"
  "map_of (flights (withFlight c k None)) = (map_of (flights c))(k := None)"
  "generation (withFlight c k x) = generation c"
  "wf_map (flights c) \<Longrightarrow> wf_map (flights (withFlight c k x))"
  by (auto simp: withFlight_def map_of_map_set AList.delete_conv' split: option.split)

lemma covers_fields:
  "client w' = client w \<Longrightarrow> server w' = server w \<Longrightarrow> last_read w' = last_read w \<Longrightarrow> announced w' = announced w
   \<Longrightarrow> outstanding w' = outstanding w \<Longrightarrow> covers ks w \<Longrightarrow> covers ks w'"
  by (simp add: covers_def key_inv_def)

lemma invalidate_fields [simp]:
  "server (invalidate_at n k w) = server w" "watching (invalidate_at n k w) = watching w" "behind (invalidate_at n k w) = behind w"
  by (simp_all add: invalidate_at_def invalidateResource_def split: option.split)

text \<open>An invalidated resource is covered: it is in flight.\<close>

lemma covers_invalidate:
  assumes inv: "covers ks w" and n: "announced w k \<le> n" "n \<le> server w k"
  shows "covers (insert k ks) (invalidate_at n k w)"
proof (cases "map_of (flights (client w)) k")
  case None
  have "key_inv (k \<in> ks) w k" using inv by (simp add: covers_def)
  with None have "flying (generation (client w)) (outstanding w) k = []" by (simp add: key_inv_def)
  with inv n None show ?thesis by (simp add: invalidate_at_def invalidateResource_def covers_def key_inv_def)
next
  case (Some f)
  have "key_inv (k \<in> ks) w k" using inv by (simp add: covers_def)
  with Some inv n show ?thesis by (auto simp: invalidate_at_def invalidateResource_def covers_def key_inv_def)
qed

lemma covers_known: "covers ks w \<Longrightarrow> announced w k \<le> server w k"
  by (auto simp: covers_def key_inv_def key_ok_def)

lemma covers_complete:
  assumes inv: "covers ks w" and out: "outstanding w = xs @ (k, g, s) # ys"
    and r: "read_since s (server w k) outcome" and st: "completeFetch k g (client w) = (c, as)"
  shows "covers ks (perform (s, outcome) (w\<lparr>client := c, outstanding := xs @ ys\<rparr>) as)"
proof (cases "g = generation (client w)")
  case False
  then have c: "c = client w \<and> as = [Discard k g]"
    using st by (auto simp: completeFetch_def Let_def split: option.splits if_splits)
  have "flying (generation (client w)) (xs @ ys) k' = flying (generation (client w)) (outstanding w) k'" for k'
    using False by (simp add: out)
  with inv c show ?thesis by (auto simp: covers_def key_inv_def out)
next
  case True
  have kinv: "key_inv (k \<in> ks) w k" and rest: "\<And>k'. key_inv (k' \<in> ks) w k'" using inv by (auto simp: covers_def)
  then obtain f where f: "map_of (flights (client w)) k = Some f" "fl_generation f = g"
      and none: "flying g xs k = []" "flying g ys k = []" and s: "fl_dirty f \<or> announced w k \<le> s" "s \<le> server w k"
    using True by (cases "map_of (flights (client w)) k") (auto simp: key_inv_def out append_eq_Cons_conv)
  have other: "key_ok (k' \<in> ks) g (map_of (flights (client w)) k') (flying g xs k' @ flying g ys k') (announced w k')
      (server w k') (last_read w k')" if "k' \<noteq> k" for k'
    using rest [of k'] that True by (simp add: key_inv_def out)
  have gens: "\<forall>(_, g, _) \<in> set (xs @ ys). g \<le> generation (client w)" "announced w k \<le> server w k"
    using inv kinv f by (auto simp: covers_def key_inv_def out)
  have wf: "wf_map (flights (client w))" using inv by (simp add: covers_def)
  show ?thesis
  proof (cases "fl_dirty f")
    case dirty: True
    with f True st have c: "c = withFlight (client w) k (Some \<lparr>fl_generation = g, fl_dirty = False\<rparr>)"
        "as = [Install k g, Fetch k g]" by (simp_all add: completeFetch_def Let_def)
    then show ?thesis using wf gens none other True by (simp add: covers_def key_inv_def)
  next
    case False
    with f True st have c: "c = withFlight (client w) k None" "as = [Install k g]"
      by (simp_all add: completeFetch_def Let_def)
    have "fresh_read (announced w k) (server w k) (Some (s, outcome))"
      using s r False by (simp add: fresh_read_def)
    then show ?thesis using wf gens none other True c by (simp add: covers_def key_inv_def)
  qed
qed

lemma perform_fields [simp]:
  "server (perform r w as) = server w" "watching (perform r w as) = watching w" "behind (perform r w as) = behind w"
  by (induction r w as rule: perform.induct) simp_all

lemma covers_advance:
  "covers ks w \<Longrightarrow> covers {} (w\<lparr>client := advanceGeneration (client w)\<rparr>)"
  by (fastforce simp: covers_def key_inv_def advanceGeneration_def flying_old key_ok_def)

lemma covers_resumed: "covers ks w \<Longrightarrow> covers (ks \<union> set keys) (fold (\<lambda>k w. invalidate_at (server w k) k w) keys w)"
proof (induction keys arbitrary: ks w)
  case (Cons k keys)
  have "covers (insert k ks) (invalidate_at (server w k) k w)"
    by (rule covers_invalidate [OF Cons.prems covers_known [OF Cons.prems]]) simp
  from Cons.IH [OF this] show ?case by simp
qed simp

lemma resumed_fields [simp]:
  "server (fold (\<lambda>k w. invalidate_at (server w k) k w) keys w) = server w"
  "watching (fold (\<lambda>k w. invalidate_at (server w k) k w) keys w) = watching w"
  by (induction keys arbitrary: w) simp_all

lemma refresh_step_inv: "refresh_step w w' \<Longrightarrow> world_inv w \<Longrightarrow> world_inv w'"
proof (induction rule: refresh_step.induct)
  case (change w k)
  have "server w k' \<le> ((server w)(k := server w k + 1)) k'" for k' by simp
  then have "covers ks (w\<lparr>server := (server w)(k := server w k + 1)\<rparr>)" if "covers ks w" for ks
    using that unfolding covers_def key_inv_def by (simp del: fun_upd_apply) (metis key_ok_server)
  then show ?case using change by (cases "behind w") (simp_all add: world_inv_def)
next
  case (watched w k)
  let ?w = "w\<lparr>watching := watching w @ [k]\<rparr>" and ?ks = "if behind w then {} else set (watching w)"
  have "covers ?ks ?w" using watched by (intro covers_fields [of ?w w]) (simp_all add: world_inv_def)
  from covers_invalidate [OF this covers_known [OF this], of k] show ?case
    by (auto simp: world_inv_def intro: covers_fewer)
next
  case (announce k w n)
  let ?ks = "if behind w then {} else set (watching w)"
  have "covers (insert k ?ks) (invalidate_at n k w)" using announce by (intro covers_invalidate) (simp_all add: world_inv_def)
  then have "covers ?ks (invalidate_at n k w)" by (rule covers_fewer) auto
  then show ?case by (cases "behind w") (simp_all add: world_inv_def)
next
  case (complete w xs k g s ys outcome c as)
  have "covers ks (perform (s, outcome) (w\<lparr>client := c, outstanding := xs @ ys\<rparr>) as)" if "covers ks w" for ks
    using covers_complete [OF that] complete by blast
  then show ?case using complete by (cases "behind w") (simp_all add: world_inv_def)
next
  case (resnapshot w)
  then have "covers {} (w\<lparr>client := advanceGeneration (client w)\<rparr>)" by (auto simp: world_inv_def intro: covers_advance)
  then show ?case by (simp add: world_inv_def covers_def key_inv_def)
next
  case (resumed w)
  then have "covers (set (watching w)) (fold (\<lambda>k w. invalidate_at (server w k) k w) (watching w) w)"
    using covers_resumed [of _ w "watching w"] by (auto simp: world_inv_def intro: covers_fewer)
  then show ?case by (simp add: world_inv_def) (rule covers_fields [rotated 5], assumption, simp_all)
next
  case (switched w versions)
  then have "covers {} (w\<lparr>client := advanceGeneration (client w)\<rparr>)" by (auto simp: world_inv_def intro: covers_advance)
  then show ?case by (fastforce simp: world_inv_def covers_def key_inv_def advanceGeneration_def key_ok_def)
qed

lemma world_inv_start: "world_inv world0"
  by (simp add: world_inv_def covers_def key_inv_def world0_def newRefresh_def)

lemma reachable_inv: "refresh_reachable w \<Longrightarrow> world_inv w"
  by (induction rule: refresh_reachable.induct) (auto intro: world_inv_start refresh_step_inv)

end
