(* ===== verification/Receipts.thy ===== *)
theory Receipts
  imports Refresh DraftLaws
begin

text \<open>
  Command receipts (\<^verbatim>\<open>manager/resources.ts\<close>, after \<^verbatim>\<open>Agentic.Manager.Protocol.Command\<close>):
  the operations and their scopes, the acknowledgement and the effect of a command, and the
  agreement of the state of a receipt with its evidence.
\<close>

section \<open>Operations\<close>

definition OPERATIONS :: "jstr list" where
  "OPERATIONS = [js ''create'', js ''capture'', js ''set-input'', js ''remove-input'', js ''enqueue'',
     js ''withdraw'', js ''approve'', js ''discard'', js ''cancel'', js ''steer'', js ''retry'',
     js ''choose-recovery'', js ''redirect'', js ''answer'', js ''export'', js ''restart'', js ''resume'', js ''fork'']"

definition requiredScopes :: "jstr \<Rightarrow> jstr list" where
  "requiredScopes operation =
     (if operation \<in> {js ''create'', js ''capture'', js ''set-input'', js ''remove-input'', js ''enqueue'', js ''withdraw''}
      then [js ''submit'']
      else if operation \<in> {js ''approve'', js ''discard''} then [js ''submit'', js ''control'']
      else if operation \<in> {js ''cancel'', js ''steer'', js ''retry'', js ''choose-recovery'', js ''redirect'', js ''answer''}
      then [js ''control'']
      else if operation = js ''export'' then [js ''observe'', js ''export'']
      else [js ''observe'', js ''submit''])"

definition RECEIPT_REFUSALS :: "jstr list" where
  "RECEIPT_REFUSALS = [js ''state-conflict'', js ''stale-revision'', js ''unsupported-operation'',
     js ''ownership-unavailable'', js ''supervision-unavailable'', js ''invalid-answer'',
     js ''invalid-lineage-edit'', js ''export-conflict'', js ''storage-unavailable'']"

record command_receipt =
  rc_id :: jstr
  rc_profileId :: jstr
  rc_operation :: jstr
  rc_resource :: jstr
  rc_state :: jstr
  rc_acceptedAt :: jstr
  rc_dispatchAttemptedAt :: "jstr option"
  rc_acknowledgement :: "json_value option"
  rc_effect :: "json_value option"
  rc_refusal :: "jstr option"

section \<open>Acknowledgements and effects\<close>

definition optionalDecimal :: "json_value option \<Rightarrow> nat \<Rightarrow> int \<Rightarrow> bool" where
  "optionalDecimal value most maximum =
     (case value of
        Some JNull \<Rightarrow> True
      | Some (JStr s) \<Rightarrow> canonicalDecimal s (Some most) (Some maximum) \<noteq> None
      | _ \<Rightarrow> False)"

definition requiredDecimal :: "json_value option \<Rightarrow> nat \<Rightarrow> int \<Rightarrow> bool" where
  "requiredDecimal value most maximum =
     (case value of Some (JStr s) \<Rightarrow> canonicalDecimal s (Some most) (Some maximum) \<noteq> None | _ \<Rightarrow> False)"

definition WORD32_MAX :: int where
  "WORD32_MAX = 4294967295"

definition encodedBytes :: "json_value \<Rightarrow> nat" where
  "encodedBytes value = byteLength (encodeJson value)"

definition ACKNOWLEDGEMENT_STATES :: "jstr list" where
  "ACKNOWLEDGEMENT_STATES = [js ''accepted'', js ''queued'', js ''delivered'', js ''rejected-stale'',
     js ''unsupported'', js ''failed'']"

definition ACKNOWLEDGED_COMMANDS :: "jstr list" where
  "ACKNOWLEDGED_COMMANDS = [js ''cancel'', js ''steer'', js ''retry'', js ''choose-recovery'', js ''redirect'', js ''answer'']"

definition validAcknowledgement :: "json_value \<Rightarrow> bool" where
  "validAcknowledgement value =
     (case exact (Some value) [js ''commandId'', js ''state'', js ''message'', js ''command'', js ''occurrenceId'', js ''attemptId''] of
        None \<Rightarrow> False
      | Some fs \<Rightarrow>
          (let occurrence = jsonMember fs (js ''occurrenceId''); attempt = jsonMember fs (js ''attemptId'') in
           case (textOf (jsonMember fs (js ''commandId'')), textOf (jsonMember fs (js ''message'')),
                 nullable (jsonMember fs (js ''command'')) (\<lambda>v. oneOf (Some v) ACKNOWLEDGED_COMMANDS)) of
             (Some commandId, Some message, Some command) \<Rightarrow>
               validId commandId \<and> oneOf (jsonMember fs (js ''state'')) ACKNOWLEDGEMENT_STATES \<noteq> None
               \<and> textLength message \<le> 4096
               \<and> optionalDecimal occurrence 20 WORD64_MAX \<and> optionalDecimal attempt 10 WORD32_MAX
               \<and> (attempt = Some JNull \<or> occurrence \<noteq> Some JNull)
               \<and> (command \<noteq> Some (js ''answer'') \<or> (occurrence \<noteq> Some JNull \<and> attempt = Some JNull))
               \<and> encodedBytes value \<le> 32768
           | _ \<Rightarrow> False))"

definition EFFECT_KINDS :: "jstr list" where
  "EFFECT_KINDS = [js ''started'', js ''cancelled'', js ''steered'', js ''retried'', js ''recovery-chosen'',
     js ''redirected'', js ''answer-accepted'', js ''input-changed'', js ''enqueued'', js ''withdrawn'',
     js ''discarded'', js ''exported'', js ''lineage-created'']"

definition addressValid :: "json_value option \<Rightarrow> bool" where
  "addressValid address =
     (case address of
        Some JNull \<Rightarrow> True
      | Some (JObj own) \<Rightarrow>
          (let withAttempt = map_has own (js ''attemptId'') in
           case exact address (if withAttempt then [js ''occurrenceId'', js ''attemptId''] else [js ''occurrenceId'']) of
             None \<Rightarrow> False
           | Some shaped \<Rightarrow>
               requiredDecimal (jsonMember shaped (js ''occurrenceId'')) 20 WORD64_MAX
               \<and> (\<not> withAttempt \<or> requiredDecimal (jsonMember shaped (js ''attemptId'')) 10 WORD32_MAX))
      | _ \<Rightarrow> False)"

definition validEffect :: "json_value \<Rightarrow> bool" where
  "validEffect value =
     (case exact (Some value) [js ''kind'', js ''runtimeSequence'', js ''address'', js ''resource''] of
        None \<Rightarrow> False
      | Some fs \<Rightarrow>
          oneOf (jsonMember fs (js ''kind'')) EFFECT_KINDS \<noteq> None
          \<and> optionalDecimal (jsonMember fs (js ''runtimeSequence'')) 20 WORD64_MAX
          \<and> (case textOf (jsonMember fs (js ''resource'')) of None \<Rightarrow> False | Some r \<Rightarrow> validResource r)
          \<and> addressValid (jsonMember fs (js ''address'')) \<and> encodedBytes value \<le> 16384)"

section \<open>Receipts\<close>

text \<open>The agreement of the state with the evidence that a receipt carries.\<close>

definition consistent :: "jstr \<Rightarrow> bool \<Rightarrow> bool \<Rightarrow> bool \<Rightarrow> bool \<Rightarrow> bool" where
  "consistent state attempted acknowledged observed refused =
     (if state = js ''accepted'' then \<not> attempted \<and> \<not> acknowledged \<and> \<not> observed \<and> \<not> refused
      else if state = js ''dispatch-attempted'' then attempted \<and> \<not> acknowledged \<and> \<not> observed \<and> \<not> refused
      else if state = js ''acknowledged'' then attempted \<and> acknowledged \<and> \<not> observed \<and> \<not> refused
      else if state = js ''effect-observed'' then observed \<and> \<not> refused
      else if state = js ''refused'' then refused \<and> \<not> observed
      else \<not> observed \<and> \<not> refused)"

definition keep_if :: "(json_value \<Rightarrow> bool) \<Rightarrow> json_value \<Rightarrow> json_value option" where
  "keep_if ok v = (if ok v then Some v else None)"

definition RECEIPT_NAMES :: "jstr list" where
  "RECEIPT_NAMES = [js ''version'', js ''id'', js ''profileId'', js ''operation'', js ''requiredScopes'',
     js ''resource'', js ''state'', js ''acceptedAt'', js ''dispatchAttemptedAt'', js ''acknowledgement'',
     js ''effect'', js ''refusal'', js ''links'']"

definition parseCommandReceipt :: "json_value \<Rightarrow> command_receipt option" where
  "parseCommandReceipt value = do {
     fs \<leftarrow> exact (Some value) RECEIPT_NAMES;
     require (versionOne fs);
     ident \<leftarrow> textOf (jsonMember fs (js ''id''));
     profileId \<leftarrow> textOf (jsonMember fs (js ''profileId''));
     operation \<leftarrow> oneOf (jsonMember fs (js ''operation'')) OPERATIONS;
     resource \<leftarrow> textOf (jsonMember fs (js ''resource''));
     state \<leftarrow> oneOf (jsonMember fs (js ''state'')) COMMAND_STATES;
     acceptedAt \<leftarrow> textOf (jsonMember fs (js ''acceptedAt''));
     dispatchAttemptedAt \<leftarrow> nullable (jsonMember fs (js ''dispatchAttemptedAt'')) (\<lambda>v. textOf (Some v));
     acknowledgement \<leftarrow> nullable (jsonMember fs (js ''acknowledgement'')) (keep_if validAcknowledgement);
     effect \<leftarrow> nullable (jsonMember fs (js ''effect'')) (keep_if validEffect);
     refusal \<leftarrow> nullable (jsonMember fs (js ''refusal'')) (\<lambda>v. oneOf (Some v) RECEIPT_REFUSALS);
     require (validId ident \<and> validId profileId \<and> validResource resource \<and> validTimestamp acceptedAt
       \<and> (case dispatchAttemptedAt of None \<Rightarrow> True | Some t \<Rightarrow> validTimestamp t));
     scopes \<leftarrow> jsonMember fs (js ''requiredScopes'');
     require (jsonEqual scopes (JArr (map JStr (requiredScopes operation))));
     links \<leftarrow> exact (jsonMember fs (js ''links'')) [js ''self'', js ''resource''];
     require (jsonMember links (js ''self'') = Some (JStr (js ''/v1/commands/'' @ ident))
       \<and> jsonMember links (js ''resource'') = Some (JStr resource));
     require (consistent state (dispatchAttemptedAt \<noteq> None) (acknowledgement \<noteq> None) (effect \<noteq> None) (refusal \<noteq> None));
     Some \<lparr>rc_id = ident, rc_profileId = profileId, rc_operation = operation, rc_resource = resource,
           rc_state = state, rc_acceptedAt = acceptedAt, rc_dispatchAttemptedAt = dispatchAttemptedAt,
           rc_acknowledgement = acknowledgement, rc_effect = effect, rc_refusal = refusal\<rparr>
   }"

definition value_or_null :: "json_value option \<Rightarrow> json_value" where
  "value_or_null v = (case v of None \<Rightarrow> JNull | Some x \<Rightarrow> x)"

definition encodeCommandReceipt :: "command_receipt \<Rightarrow> json_value" where
  "encodeCommandReceipt r =
     JObj [(js ''version'', JNum (js ''1'')), (js ''id'', JStr (rc_id r)), (js ''profileId'', JStr (rc_profileId r)),
           (js ''operation'', JStr (rc_operation r)),
           (js ''requiredScopes'', JArr (map JStr (requiredScopes (rc_operation r)))),
           (js ''resource'', JStr (rc_resource r)), (js ''state'', JStr (rc_state r)),
           (js ''acceptedAt'', JStr (rc_acceptedAt r)),
           (js ''dispatchAttemptedAt'', text_or_null (rc_dispatchAttemptedAt r)),
           (js ''acknowledgement'', value_or_null (rc_acknowledgement r)), (js ''effect'', value_or_null (rc_effect r)),
           (js ''refusal'', text_or_null (rc_refusal r)),
           (js ''links'', JObj [(js ''self'', JStr (js ''/v1/commands/'' @ rc_id r)), (js ''resource'', JStr (rc_resource r))])]"

definition decodeCommandReceipt :: "json_value \<Rightarrow> command_receipt outcome" where
  "decodeCommandReceipt value = decided (parseCommandReceipt value)"

section \<open>The format\<close>

definition receipt_ok :: "command_receipt \<Rightarrow> bool" where
  "receipt_ok r \<longleftrightarrow>
     validId (rc_id r) \<and> validId (rc_profileId r) \<and> rc_operation r \<in> set OPERATIONS \<and> validResource (rc_resource r)
     \<and> rc_state r \<in> set COMMAND_STATES \<and> validTimestamp (rc_acceptedAt r)
     \<and> (\<forall>t \<in> set_option (rc_dispatchAttemptedAt r). validTimestamp t)
     \<and> (\<forall>a \<in> set_option (rc_acknowledgement r). validAcknowledgement a \<and> wf_json a)
     \<and> (\<forall>e \<in> set_option (rc_effect r). validEffect e \<and> wf_json e)
     \<and> (\<forall>c \<in> set_option (rc_refusal r). c \<in> set RECEIPT_REFUSALS)
     \<and> consistent (rc_state r) (rc_dispatchAttemptedAt r \<noteq> None) (rc_acknowledgement r \<noteq> None)
         (rc_effect r \<noteq> None) (rc_refusal r \<noteq> None)"

lemma nullable_textOf: "nullable m (\<lambda>v. textOf (Some v)) = Some t \<longleftrightarrow> m = Some (text_or_null t)"
  using nullable_text [of "\<lambda>v. textOf (Some v)" "\<lambda>_. True" m t] by (simp add: textOf_Some)

lemma validAcknowledgement_not_null [simp]: "\<not> validAcknowledgement JNull"
  by (simp add: validAcknowledgement_def exact_def)

lemma validEffect_not_null [simp]: "\<not> validEffect JNull"
  by (simp add: validEffect_def exact_def)

lemma nullable_keep:
  assumes "\<not> ok JNull"
  shows "nullable m (keep_if ok) = Some t \<longleftrightarrow> m = Some (value_or_null t) \<and> (\<forall>v \<in> set_option t. ok v)"
  using assms by (cases t) (auto simp: nullable_None nullable_Some keep_if_def value_or_null_def)

definition receipt_members :: "json_members \<Rightarrow> json_members \<Rightarrow> command_receipt \<Rightarrow> bool" where
  "receipt_members fs links r \<longleftrightarrow>
     versionOne fs
     \<and> map_of fs (js ''id'') = Some (JStr (rc_id r)) \<and> validId (rc_id r)
     \<and> map_of fs (js ''profileId'') = Some (JStr (rc_profileId r)) \<and> validId (rc_profileId r)
     \<and> map_of fs (js ''operation'') = Some (JStr (rc_operation r)) \<and> rc_operation r \<in> set OPERATIONS
     \<and> map_of fs (js ''resource'') = Some (JStr (rc_resource r)) \<and> validResource (rc_resource r)
     \<and> map_of fs (js ''state'') = Some (JStr (rc_state r)) \<and> rc_state r \<in> set COMMAND_STATES
     \<and> map_of fs (js ''acceptedAt'') = Some (JStr (rc_acceptedAt r)) \<and> validTimestamp (rc_acceptedAt r)
     \<and> map_of fs (js ''dispatchAttemptedAt'') = Some (text_or_null (rc_dispatchAttemptedAt r))
     \<and> (\<forall>t \<in> set_option (rc_dispatchAttemptedAt r). validTimestamp t)
     \<and> map_of fs (js ''acknowledgement'') = Some (value_or_null (rc_acknowledgement r))
     \<and> (\<forall>a \<in> set_option (rc_acknowledgement r). validAcknowledgement a)
     \<and> map_of fs (js ''effect'') = Some (value_or_null (rc_effect r))
     \<and> (\<forall>e \<in> set_option (rc_effect r). validEffect e)
     \<and> map_of fs (js ''refusal'') = Some (text_or_null (rc_refusal r))
     \<and> (\<forall>c \<in> set_option (rc_refusal r). c \<in> set RECEIPT_REFUSALS)
     \<and> (\<exists>scopes. map_of fs (js ''requiredScopes'') = Some scopes
          \<and> jsonEqual scopes (JArr (map JStr (requiredScopes (rc_operation r)))))
     \<and> map_of links (js ''self'') = Some (JStr (js ''/v1/commands/'' @ rc_id r))
     \<and> map_of links (js ''resource'') = Some (JStr (rc_resource r))
     \<and> consistent (rc_state r) (rc_dispatchAttemptedAt r \<noteq> None) (rc_acknowledgement r \<noteq> None)
         (rc_effect r \<noteq> None) (rc_refusal r \<noteq> None)"

lemma parseCommandReceipt_members:
  assumes "parseCommandReceipt v = Some r"
  shows "\<exists>fs links. exact (Some v) RECEIPT_NAMES = Some fs
    \<and> exact (map_of fs (js ''links'')) [js ''self'', js ''resource''] = Some links \<and> receipt_members fs links r"
  using assms unfolding parseCommandReceipt_def
  by (elim bind_Some_elim)
    (clarsimp simp: jsonMember_def textOf_Some oneOf_Some nullable_oneOf nullable_textOf nullable_keep
      receipt_members_def simp del: jsonEqual.simps split: option.splits)

lemma parseCommandReceipt_written:
  assumes "exact (Some v) RECEIPT_NAMES = Some fs"
    "exact (map_of fs (js ''links'')) [js ''self'', js ''resource''] = Some links" "receipt_members fs links r"
  shows "parseCommandReceipt v = Some r"
proof -
  obtain scopes where s: "map_of fs (js ''requiredScopes'') = Some scopes"
      "jsonEqual scopes (JArr (map JStr (requiredScopes (rc_operation r))))"
    using assms(3) by (auto simp: receipt_members_def)
  have n: "nullable (map_of fs (js ''dispatchAttemptedAt'')) (\<lambda>v. textOf (Some v)) = Some (rc_dispatchAttemptedAt r)"
    "nullable (map_of fs (js ''acknowledgement'')) (keep_if validAcknowledgement) = Some (rc_acknowledgement r)"
    "nullable (map_of fs (js ''effect'')) (keep_if validEffect) = Some (rc_effect r)"
    "nullable (map_of fs (js ''refusal'')) (\<lambda>v. oneOf (Some v) RECEIPT_REFUSALS) = Some (rc_refusal r)"
    "oneOf (map_of fs (js ''operation'')) OPERATIONS = Some (rc_operation r)"
    "oneOf (map_of fs (js ''state'')) COMMAND_STATES = Some (rc_state r)"
    "(case rc_dispatchAttemptedAt r of None \<Rightarrow> True | Some t \<Rightarrow> validTimestamp t)"
    using assms(3) by (auto simp: receipt_members_def nullable_textOf nullable_keep nullable_oneOf oneOf_Some split: option.split)
  show ?thesis unfolding parseCommandReceipt_def jsonMember_def
    using assms s n by (simp add: receipt_members_def textOf_def require_def del: jsonEqual.simps)
qed

interpretation command_receipt: codec parseCommandReceipt encodeCommandReceipt receipt_ok
proof
  fix v r assume v: "wf_json v" and "parseCommandReceipt v = Some r"
  from parseCommandReceipt_members [OF this(2)] obtain fs links where fs: "exact (Some v) RECEIPT_NAMES = Some fs"
      and links: "exact (map_of fs (js ''links'')) [js ''self'', js ''resource''] = Some links"
      and rm: "receipt_members fs links r" by blast
  note wf = exact_wf [OF fs v]
  have wfs: "wf_json (value_or_null (rc_acknowledgement r))" "wf_json (value_or_null (rc_effect r))"
    using rm wf unfolding receipt_members_def by blast+
  then show "receipt_ok r"
    using rm by (auto simp: receipt_members_def receipt_ok_def value_or_null_def split: option.splits)
  obtain scopes where s: "map_of fs (js ''requiredScopes'') = Some scopes"
      "jsonEqual scopes (JArr (map JStr (requiredScopes (rc_operation r))))"
    using rm by (auto simp: receipt_members_def)
  have s': "jsonEqual (JArr (map JStr (requiredScopes (rc_operation r)))) scopes"
    using jsonEqual_sym [OF wf [OF s(1)] _ s(2)] by simp
  obtain lv where lv: "map_of fs (js ''links'') = Some lv" using links by (auto simp: exact_Some)
  have l: "jsonEqual (JObj [(js ''self'', JStr (js ''/v1/commands/'' @ rc_id r)), (js ''resource'', JStr (rc_resource r))]) lv"
    by (rule jsonEqual_exact [OF links [unfolded lv]]) (use rm in \<open>auto simp: receipt_members_def\<close>)
  obtain ver where "map_of fs (js ''version'') = Some ver" "jsonEqual (JNum (js ''1'')) ver"
    using versionOne_equal [OF _ exact_wf_obj [OF fs v]] rm unfolding receipt_members_def by blast
  then show "jsonEqual (encodeCommandReceipt r) v"
    unfolding encodeCommandReceipt_def using rm s(1) s' lv l jsonEqual_refl [OF wfs(1)] jsonEqual_refl [OF wfs(2)]
    by (intro jsonEqual_exact [OF fs]) (simp_all add: RECEIPT_NAMES_def receipt_members_def del: jsonEqual.simps(5,6))
next
  fix r assume r: "receipt_ok r"
  have wfs: "wf_json (value_or_null (rc_acknowledgement r))" "wf_json (value_or_null (rc_effect r))"
    using r by (auto simp: receipt_ok_def value_or_null_def split: option.splits)
  then show "wf_json (encodeCommandReceipt r)" by (simp add: encodeCommandReceipt_def)
  obtain fs where fs: "encodeCommandReceipt r = JObj fs" and names: "map fst fs = RECEIPT_NAMES"
    by (simp add: encodeCommandReceipt_def RECEIPT_NAMES_def)
  obtain links where links: "map_of fs (js ''links'') = Some (JObj links)"
      and names': "map fst links = [js ''self'', js ''resource'']" and rm: "receipt_members fs links r"
    using fs r by (auto simp: encodeCommandReceipt_def receipt_ok_def receipt_members_def simp del: jsonEqual.simps)
  show "parseCommandReceipt (encodeCommandReceipt r) = Some r"
  proof (rule parseCommandReceipt_written)
    show "exact (Some (encodeCommandReceipt r)) RECEIPT_NAMES = Some fs" unfolding fs using names by (rule exact_self)
    show "exact (map_of fs (js ''links'')) [js ''self'', js ''resource''] = Some links"
      unfolding links using names' by (rule exact_self)
  qed (rule rm)
qed

end
