(* ===== verification/SampleWire.thy ===== *)
theory SampleWire
  imports Routes DraftLaws ReviewLaws Receipts JsonRoundtrip
begin

text \<open>Concrete values of the wire formats, to which their properties are applied.\<close>

definition ident :: jstr where "ident = js ''id-1''"
definition sample_stamp :: jstr where "sample_stamp = js ''2024-02-29T12:00:00Z''"
definition sample_digest :: jstr where "sample_digest = replicate 64 97"

lemma ident_valid [simp]: "validId ident"
  unfolding ident_def by code_simp

lemma sample_stamp_valid [simp]: "validTimestamp sample_stamp"
  unfolding sample_stamp_def by code_simp

lemma sample_digest_valid [simp]: "validDigest sample_digest"
  unfolding sample_digest_def by code_simp

definition sample_resource :: jstr where "sample_resource = js ''/v1/runs/id-1''"

lemma sample_resource_valid [simp]: "validResource sample_resource"
  unfolding sample_resource_def by code_simp

definition sample_cursor :: jstr where "sample_cursor = js ''s.7''"

lemma sample_cursor_valid [simp]: "validCursor sample_cursor" "after_last_dot sample_cursor = int_text 7"
  unfolding sample_cursor_def by code_simp+

definition sample_invalidation :: invalidation where
  "sample_invalidation = \<lparr>inv_resource = sample_resource, inv_revision = ident\<rparr>"

definition sample_update :: invalidation_event where
  "sample_update = \<lparr>ie_id = sample_cursor, ie_name = js ''run.changed'', ie_data = sample_invalidation\<rparr>"

definition sample_batch :: event_batch where
  "sample_batch = \<lparr>eb_cursor = sample_cursor, eb_oldestCursor = sample_cursor, eb_events = [sample_update], eb_hasMore = False\<rparr>"

lemma sample_update_ok: "event_ok sample_update"
  by (simp add: event_ok_def sample_update_def sample_invalidation_def invalidation_ok_def EVENT_NAMES_def validRevision_def)

lemma sample_batch_ok: "batch_ok sample_batch"
  using sample_update_ok by (simp add: batch_ok_def sample_batch_def)

definition sample_route :: route_record where
  "sample_route = \<lparr>rr_id = sample_cursor, rr_class = js ''public'', rr_position = 6, rr_schema = hd ROUTE_SCHEMAS,
     rr_from = JStr (js ''manager''), rr_to = JStr (js ''public''), rr_about = JObj [], rr_replyTo = Some 3,
     rr_at = sample_stamp, rr_payload = EventSequence 9\<rparr>"

lemma sample_route_ok: "route_ok sample_route"
  by (simp add: route_ok_def sample_route_def ROUTE_SCHEMAS_def party_ok_def payload_ok_def WORD64_MAX_def)

definition sample_readiness :: readiness where
  "sample_readiness = \<lparr>rd_declarations = [], rd_supplied = [], rd_missing = [], rd_errors = []\<rparr>"

definition sample_draft :: draft_view where
  "sample_draft = \<lparr>dv_id = ident, dv_revision = ident, dv_workflowId = ident, dv_descriptorRevision = ident,
     dv_profileId = ident, dv_profileRevision = ident, dv_phase = hd REQUEST_PHASES, dv_readiness = sample_readiness,
     dv_admission = \<lparr>adm_state = hd ADMISSION_STATES, adm_position = Some 1, adm_reasons = []\<rparr>,
     dv_preparationId = Some ident, dv_runId = None, dv_parentRunId = None, dv_lineage = None\<rparr>"

lemma sample_draft_ok: "draft_ok sample_draft"
  by (simp add: draft_ok_def sample_draft_def readiness_ok_def sample_readiness_def admission_ok_def missing_names_def
      REQUEST_PHASES_def ADMISSION_STATES_def)

definition sample_review :: review where
  "sample_review = \<lparr>rv_programHash = sample_digest, rv_personAnswering = js ''engine'',
     rv_policy = JObj [(js ''kind'', JStr (js ''scripted''))], rv_workflowId = ident, rv_profileId = ident,
     rv_workspaceLabel = [], rv_targetLabel = [], rv_inputs = [], rv_plan = [], rv_runFacts = [], rv_pins = [],
     rv_warnings = [], rv_resultCode = JStr (js ''text''), rv_lineage = None\<rparr>"

lemma sample_review_ok: "review_ok sample_review"
  by (simp add: review_ok_def sample_review_def validPolicy_def textOf_def jsonMember_def within_names_def
      texts_ok_def bounded_def observationCode_def oneOf_def PRIMITIVE_CODES_def)

definition sample_preparation :: preparation where
  "sample_preparation = \<lparr>pp_id = ident, pp_revision = ident, pp_requestId = ident, pp_requestRevision = ident,
     pp_profileId = ident, pp_profileRevision = ident, pp_descriptorRevision = ident, pp_state = hd PREPARATION_STATES,
     pp_expiresAt = sample_stamp, pp_reviewDigest = sample_digest, pp_processGeneration = ident,
     pp_review = sample_review, pp_reason = None\<rparr>"

lemma sample_preparation_ok: "preparation_ok sample_preparation"
  using sample_review_ok by (simp add: preparation_ok_def sample_preparation_def PREPARATION_STATES_def)

definition sample_receipt :: command_receipt where
  "sample_receipt = \<lparr>rc_id = ident, rc_profileId = ident, rc_operation = hd OPERATIONS, rc_resource = sample_resource,
     rc_state = js ''refused'', rc_acceptedAt = sample_stamp, rc_dispatchAttemptedAt = None, rc_acknowledgement = None,
     rc_effect = None, rc_refusal = Some (hd RECEIPT_REFUSALS)\<rparr>"

lemma sample_receipt_ok: "receipt_ok sample_receipt"
  by (simp add: receipt_ok_def sample_receipt_def OPERATIONS_def COMMAND_STATES_def RECEIPT_REFUSALS_def consistent_def)

definition sample_json :: json_value where
  "sample_json = JObj [(js ''b'', JNum (js ''10e-1'')), (js ''a'', JArr [JNull, JStr (js ''x'')])]"

lemma sample_numbers_json: "number_grammar (js ''10e-1'')" "number_grammar (js ''1.0'')"
  by code_simp+

lemma sample_json_wf: "wf_json sample_json"
  by (simp add: sample_json_def sample_numbers_json)

end
