(* ===== verification/WireProperties.thy ===== *)
theory WireProperties
  imports SampleWire
begin

text \<open>
  The properties of the lossless JSON layer and of the wire formats. A codec property has two
  halves: a record that the format can carry is read back from its encoding, and the encoding of a
  decoded record is the decoded value up to the manager's equality of JSON.
\<close>

text \<open>
  C33: JSON round trip. The text that \<^verbatim>\<open>encodeJson\<close> writes for a value parses back to the value with the
  members of its objects sorted, which \<^verbatim>\<open>jsonEqual\<close> does not distinguish from it; numbers keep their text.
\<close>

theorem encoded_json_parses_back:
  assumes "wf_json v"
  shows "tryParseJson (encodeJson v) = Some (sort_members v) \<and> jsonEqual (sort_members v) v"
  using tryParseJson_encodeJson [OF assms] assms by (simp add: jsonEqual_sort_left jsonEqual_refl)

theorem encoded_json_parses_back_witness:
  "tryParseJson (encodeJson sample_json) = Some (sort_members sample_json)"
  using encoded_json_parses_back [OF sample_json_wf] by simp

text \<open>
  The parser is total and sound: recursion depth proportional to the length of the text always
  decides it (more fuel never changes the result), and a parsed value is well formed: its numbers are
  in the grammar and the members of its objects are distinct.
\<close>

theorem json_parser_decides:
  "(2 * length s + 1 \<le> n \<longrightarrow> parse_value n s = parse_value (json_fuel s) s)
   \<and> (\<forall>v. tryParseJson s = Some v \<longrightarrow> wf_json v)"
proof
  have enough: "parse_value m s = parse_value (2 * length s + 1) s" if "2 * length s + 1 \<le> m" for m
    using that by (intro parse_value_fuel) simp_all
  have "2 * length s + 1 \<le> json_fuel s" by (simp add: json_fuel_def)
  then show "2 * length s + 1 \<le> n \<longrightarrow> parse_value n s = parse_value (json_fuel s) s"
    using enough [of n] enough [of "json_fuel s"] by (simp del: parse_value.simps)
  show "\<forall>v. tryParseJson s = Some v \<longrightarrow> wf_json v"
    using parse_wf [of "json_fuel s" s] by (auto simp: tryParseJson_def split: option.splits if_splits)
qed

theorem json_parser_decides_witness:
  "parse_value 100 (js ''[1]'') = parse_value (json_fuel (js ''[1]'')) (js ''[1]'')"
  using json_parser_decides [of "js ''[1]''" 100] by simp

text \<open>
  C34: Number equality is exact: two number texts are equal for \<^verbatim>\<open>numberEqual\<close> exactly when they denote
  the same rational number, without rounding (so \<^verbatim>\<open>1.0\<close> and \<^verbatim>\<open>10e-1\<close> are equal, and \<^verbatim>\<open>-0\<close> is \<^verbatim>\<open>0\<close>).
\<close>

theorem number_equality_is_exact:
  assumes "number_grammar a" "number_grammar b"
  shows "numberEqual a b \<longleftrightarrow> number_value a = number_value b"
  using assms by (rule numberEqual_exact)

theorem number_equality_is_exact_witness: "number_value (js ''10e-1'') = number_value (js ''1.0'')"
proof -
  have "numberEqual (js ''10e-1'') (js ''1.0'')" by code_simp
  then show ?thesis using number_equality_is_exact [OF sample_numbers_json] by simp
qed

text \<open>
  Bounded integers. A number text gives an integer exactly when the rational it denotes is that
  integer and lies in the closed range, for every exponent and length of the text.
\<close>

theorem bounded_integer_is_exact:
  assumes "number_grammar s"
  shows "boundedInteger s lo hi = Some v \<longleftrightarrow> number_value s = of_int v \<and> lo \<le> v \<and> v \<le> hi"
  using assms by (rule boundedInteger_exact)

theorem bounded_integer_is_exact_witness: "number_value (js ''10e-1'') = of_int 1"
proof -
  have "boundedInteger (js ''10e-1'') 0 5 = Some 1" by code_simp
  then show ?thesis using bounded_integer_is_exact [OF sample_numbers_json(1)] by simp
qed

text \<open>
  JSON equality. On well-formed values \<^verbatim>\<open>jsonEqual\<close> is the equality of canonical forms (exact
  numbers, members by name), hence an equivalence.
\<close>

theorem json_equality_is_canonical:
  assumes "wf_json a" "wf_json b" "wf_json c"
  shows "(jsonEqual a b \<longleftrightarrow> canonical a = canonical b) \<and> jsonEqual a a
    \<and> (jsonEqual a b \<longleftrightarrow> jsonEqual b a) \<and> (jsonEqual a b \<and> jsonEqual b c \<longrightarrow> jsonEqual a c)"
  using assms by (simp add: jsonEqual_canonical) auto

theorem json_equality_is_canonical_witness: "jsonEqual sample_json sample_json"
  using json_equality_is_canonical [OF sample_json_wf sample_json_wf sample_json_wf] by blast

text \<open>
  Event batches on the wire. The JSON text of a batch of invalidation events decodes to the same
  batch, and any well-formed value that decodes to it is equal JSON to its encoding.
\<close>

theorem event_batch_round_trip:
  assumes "batch_ok b"
  shows "Option.bind (tryParseJson (encodeJson (encodeEventBatch b))) parseEventBatch = Some b
    \<and> (\<forall>v. wf_json v \<and> parseEventBatch v = Some b \<longrightarrow> jsonEqual (encodeEventBatch b) v)"
  using event_batch.wire_roundtrip [OF assms] event_batch.encode_decode by blast

theorem event_batch_round_trip_witness:
  "Option.bind (tryParseJson (encodeJson (encodeEventBatch sample_batch))) parseEventBatch = Some sample_batch"
  using event_batch_round_trip [OF sample_batch_ok] by blast

text \<open>
  Closed formats. A batch is decoded from some well-formed value exactly when its cursors are valid,
  it has at most 256 events, and each event has a valid cursor, a known name, a resource of the
  public interface and a revision.
\<close>

theorem event_batch_decodes_exactly:
  "(\<exists>v. wf_json v \<and> parseEventBatch v = Some b) \<longleftrightarrow>
     validCursor (eb_cursor b) \<and> validCursor (eb_oldestCursor b) \<and> length (eb_events b) \<le> 256
     \<and> list_all (\<lambda>e. validCursor (ie_id e) \<and> ie_name e \<in> set EVENT_NAMES
          \<and> validResource (inv_resource (ie_data e)) \<and> validRevision (inv_revision (ie_data e))) (eb_events b)"
proof -
  have e: "(\<lambda>e. validCursor (ie_id e) \<and> ie_name e \<in> set EVENT_NAMES
          \<and> validResource (inv_resource (ie_data e)) \<and> validRevision (inv_revision (ie_data e))) = event_ok"
    by (auto simp: event_ok_def invalidation_ok_def)
  show ?thesis
    unfolding e using event_batch.decoded_iff [of b] by (simp add: batch_ok_def)
qed

text \<open>
  Route records. A valid record is read back from its encoding, and a decoded value is equal to the
  encoding of its record; the position is one below the number of the cursor.
\<close>

theorem route_record_round_trip:
  assumes "route_ok r"
  shows "parseRouteRecord (encodeRouteRecord r) = Some r
    \<and> (\<forall>v. wf_json v \<and> parseRouteRecord v = Some r \<longrightarrow> jsonEqual (encodeRouteRecord r) v)
    \<and> after_last_dot (rr_id r) = int_text (rr_position r + 1)"
  using assms route_record.decode_encode route_record.encode_decode by (auto simp: route_ok_def)

theorem route_record_round_trip_witness: "parseRouteRecord (encodeRouteRecord sample_route) = Some sample_route"
  using route_record_round_trip [OF sample_route_ok] by blast

text \<open>
  Request drafts. The JSON text of a valid draft decodes to the draft, and of any decoded draft the
  missing inputs are exactly the declared names that no supplied input has, in declaration order.
\<close>

theorem draft_round_trip:
  assumes "draft_ok d"
  shows "Option.bind (tryParseJson (encodeJson (encodeDraftView d))) parseDraftView = Some d
    \<and> rd_missing (dv_readiness d) =
        filter (\<lambda>n. n \<notin> set (map supplied_name (rd_supplied (dv_readiness d))))
          (map decl_name (rd_declarations (dv_readiness d)))"
  using draft_view.wire_roundtrip [OF assms] assms
  by (auto simp: draft_ok_def readiness_ok_def missing_names_def)

theorem draft_round_trip_witness:
  "Option.bind (tryParseJson (encodeJson (encodeDraftView sample_draft))) parseDraftView = Some sample_draft"
  using draft_round_trip [OF sample_draft_ok] by blast

text \<open>
  Preparations. A valid preparation with its frozen review is read back from its encoding, and two
  well-formed values that decode to the same preparation are equal JSON.
\<close>

theorem preparation_round_trip:
  assumes "preparation_ok p"
  shows "parsePreparation (encodePreparation p) = Some p
    \<and> (\<forall>v w. wf_json v \<and> wf_json w \<and> parsePreparation v = Some p \<and> parsePreparation w = Some p \<longrightarrow> jsonEqual v w)"
  using preparation.decode_encode [OF assms] preparation.decode_same by blast

theorem preparation_round_trip_witness: "parsePreparation (encodePreparation sample_preparation) = Some sample_preparation"
  using preparation_round_trip [OF sample_preparation_ok] by blast

text \<open>
  C40: Receipts. A receipt that decodes equals its encoding, its state is one of the six, and its evidence agrees
  with the state: an effect exactly in \<^verbatim>\<open>effect-observed\<close> and a refusal exactly in \<^verbatim>\<open>refused\<close>; neither a dispatch
  nor an acknowledgement in \<^verbatim>\<open>accepted\<close>, a dispatch without an acknowledgement in \<^verbatim>\<open>dispatch-attempted\<close>, and both
  in \<^verbatim>\<open>acknowledged\<close>. The three final states leave dispatch and acknowledgement open.
\<close>

theorem receipt_evidence_agrees_with_state:
  assumes "wf_json v" "parseCommandReceipt v = Some r"
  shows "jsonEqual (encodeCommandReceipt r) v
    \<and> rc_state r \<in> {js ''accepted'', js ''dispatch-attempted'', js ''acknowledged'', js ''effect-observed'', js ''refused'', js ''unresolved''}
    \<and> (rc_effect r \<noteq> None \<longleftrightarrow> rc_state r = js ''effect-observed'')
    \<and> (rc_refusal r \<noteq> None \<longleftrightarrow> rc_state r = js ''refused'')
    \<and> (rc_state r = js ''accepted'' \<longrightarrow> rc_dispatchAttemptedAt r = None \<and> rc_acknowledgement r = None)
    \<and> (rc_state r = js ''dispatch-attempted'' \<longrightarrow> rc_dispatchAttemptedAt r \<noteq> None \<and> rc_acknowledgement r = None)
    \<and> (rc_state r = js ''acknowledged'' \<longrightarrow> rc_dispatchAttemptedAt r \<noteq> None \<and> rc_acknowledgement r \<noteq> None)"
proof -
  have ok: "receipt_ok r" using assms by (rule command_receipt.decode_valid)
  have "consistent (rc_state r) (rc_dispatchAttemptedAt r \<noteq> None) (rc_acknowledgement r \<noteq> None)
         (rc_effect r \<noteq> None) (rc_refusal r \<noteq> None)" and "rc_state r \<in> set COMMAND_STATES"
    using ok by (simp_all add: receipt_ok_def)
  then show ?thesis
    using command_receipt.encode_decode [OF assms]
    by (auto simp: consistent_def COMMAND_STATES_def split: if_splits)
qed

theorem receipt_evidence_agrees_with_state_witness: "rc_refusal sample_receipt \<noteq> None"
  using receipt_evidence_agrees_with_state [OF command_receipt.encode_wf [OF sample_receipt_ok]
      command_receipt.decode_encode [OF sample_receipt_ok]]
  by (simp add: sample_receipt_def)

text \<open>
  Cursors. The accepted cursors are exactly a stream identifier, a dot and the canonical decimal of an
  unsigned 64-bit number.
\<close>

theorem cursor_grammar:
  "validCursor s \<longleftrightarrow> (\<exists>stream n. validId stream \<and> int n \<le> 18446744073709551615 \<and> s = stream @ 46 # dec n)"
  using validCursor_iff [of s] by (simp add: WORD64_MAX_def)

text \<open>
  Problem responses. A response is reported as a refusal with a code exactly when its status is a
  safe integer, its body is an object whose \<^verbatim>\<open>status\<close> is that number exactly and whose \<^verbatim>\<open>code\<close> is a valid
  identifier; every other response is an invalid response.
\<close>

theorem problem_is_refused_exactly:
  "problemFailure status body = Refused n code \<longleftrightarrow>
     n = status \<and> \<bar>status\<bar> \<le> MAX_SAFE \<and> validId code \<and>
     (\<exists>fs stated. body = JObj fs \<and> map_of fs (js ''status'') = Some (JNum stated)
        \<and> numberEqual stated (int_text status) \<and> map_of fs (js ''code'') = Some (JStr code))"
  using problemFailure_Refused [of status body n code] by auto

end
