(* ===== verification/SseLaws.thy ===== *)
theory SseLaws
  imports Sse
begin

text \<open>
  The laws of the event parser: \<^verbatim>\<open>feedSse\<close> refines the machine that reads one byte at a time,
  what a connection buffers is bounded, and the lines of a formatted event are read back.
\<close>

section \<open>The machine on lines\<close>

abbreviation too_long :: "('a :: type) outcome" where
  "too_long \<equiv> Inl (Fixed InvalidResponse)"

fun and_then :: "(line_state \<times> sse_block list) outcome \<Rightarrow> u8 list \<Rightarrow> (line_state \<times> sse_block list) outcome" where
  "and_then (Inl e) bs = Inl e"
| "and_then (Inr (s, out)) bs =
     (case byte_run s bs of Inl e \<Rightarrow> Inl e | Inr (s', out') \<Rightarrow> Inr (s', out @ out'))"

lemma byte_run_Cons: "byte_run s (b # bs) = and_then (byte_step s b) bs"
  by (auto split: sum.splits prod.splits)

lemma and_then_out:
  "and_then (Inr (s, out)) bs = (case and_then (Inr (s, [])) bs of Inl e \<Rightarrow> Inl e | Inr (s', o') \<Rightarrow> Inr (s', out @ o'))"
  by (auto split: sum.splits prod.splits)

lemma byte_run_append: "byte_run s (a @ b) = and_then (byte_run s a) b"
proof (induction a arbitrary: s)
  case (Cons x a)
  show ?case
    by (cases "byte_step s x") (auto simp: Cons.IH split: sum.splits prod.splits)
qed (auto split: sum.splits)

lemma byte_run_text:
  "10 \<notin> set bs \<Longrightarrow> count s \<le> SSE_BLOCK_BYTES \<Longrightarrow>
   byte_run s bs =
     (if count s + length bs > SSE_BLOCK_BYTES then too_long
      else Inr (s\<lparr>open_line := open_line s @ bs, count := count s + length bs\<rparr>, []))"
  by (induction bs arbitrary: s) (auto simp: byte_step_def)

lemma byte_run_line:
  assumes "10 \<notin> set before" "count s \<le> SSE_BLOCK_BYTES"
  shows "byte_run s (before @ 10 # after) =
     (if count s + length before + 1 > SSE_BLOCK_BYTES then too_long
      else and_then (end_line (s\<lparr>open_line := open_line s @ before, count := count s + length before\<rparr>)) after)"
proof -
  let ?s = "s\<lparr>open_line := open_line s @ before, count := count s + length before\<rparr>"
  have "byte_run s (before @ 10 # after) = and_then (byte_run s before) (10 # after)"
    by (rule byte_run_append)
  also have "\<dots> = (if count s + length before > SSE_BLOCK_BYTES then too_long else and_then (byte_step ?s 10) after)"
    using assms by (auto simp: byte_run_text byte_run_Cons simp del: byte_run.simps split: sum.splits prod.splits)
  also have "byte_step ?s 10 = (if count s + length before + 1 > SSE_BLOCK_BYTES then too_long else end_line ?s)"
    by (simp add: byte_step_def)
  finally show ?thesis by auto
qed

section \<open>The refinement\<close>

text \<open>Appending to the blocks already collected.\<close>

fun emit :: "sse_block list \<Rightarrow> (line_state \<times> sse_block list) outcome \<Rightarrow> (line_state \<times> sse_block list) outcome" where
  "emit out (Inl e) = Inl e"
| "emit out (Inr (s, out')) = Inr (s, out @ out')"

lemma and_then_emit: "and_then (Inr (s, out)) bs = emit out (byte_run s bs)"
  by (cases "byte_run s bs") auto

lemma emit_emit: "emit a (emit b r) = emit (a @ b) r"
  by (cases r) auto

lemma emit_Nil [simp]: "emit [] r = r"
  by (cases r) auto

lemma first_line: "10 \<in> set rest \<Longrightarrow>
  rest = takeWhile (\<lambda>b. b \<noteq> (10 :: u8)) rest @ 10 # drop (Suc (length (takeWhile (\<lambda>b. b \<noteq> 10) rest))) rest"
  by (induction rest) auto

lemma takeWhile_free: "x \<notin> set (takeWhile (\<lambda>b. b \<noteq> x) rest)"
  by (auto dest: set_takeWhileD)

theorem feed_from_refines:
  "block_bytes p \<le> SSE_BLOCK_BYTES \<Longrightarrow>
   abs_fed (feed_from p blocks rest) = emit blocks (byte_run (abs_parser p) rest)"
proof (induction p blocks rest rule: feed_from.induct)
  case (1 p blocks rest)
  show ?case
  proof (cases "10 \<in> set rest")
    case False
    with 1(3) show ?thesis
      by (subst feed_from.simps) (simp add: byte_run_text abs_parser_def Let_def)
  next
    case True
    define before where "before = takeWhile (\<lambda>b. b \<noteq> 10) rest"
    define after where "after = drop (length before + 1) rest"
    define line where "line = drop_cr (concat (rev (pieces p)) @ before)"
    have rest: "rest = before @ 10 # after"
      using first_line [OF True] by (simp add: before_def after_def)
    have free: "10 \<notin> set before" unfolding before_def by (rule takeWhile_free)
    have l: "drop_cr (joinBytes (oldestFirst (before # pieces p))) = line"
      by (simp add: line_def joinBytes_def oldestFirst_def)
    let ?s = "\<lparr>open_line = concat (rev (pieces p)) @ before, done_lines = rev (block_lines p),
                count = block_bytes p + length before, seen_id = lastId p\<rparr>"
    have run: "byte_run (abs_parser p) rest =
        (if block_bytes p + length before + 1 > SSE_BLOCK_BYTES then too_long else and_then (end_line ?s) after)"
      unfolding rest using free 1(3) by (subst byte_run_line) (simp_all add: abs_parser_def)
    note IH = 1(1,2) [OF _ before_def refl l [symmetric], unfolded after_def [symmetric]]
    show ?thesis
    proof (cases "block_bytes p + length before + 1 > SSE_BLOCK_BYTES \<or> 13 \<in> set line")
      case True
      then show ?thesis using \<open>10 \<in> set rest\<close>
        by (subst feed_from.simps)
          (auto simp: Let_def run end_line_def l [symmetric] line_def before_def [symmetric] joinBytes_def oldestFirst_def)
    next
      case ok: False
      have out: "feed_from p blocks rest =
          (if line = [] then
             (case blockOf (rev (block_lines p)) of
                None \<Rightarrow> too_long
              | Some (ident, block) \<Rightarrow>
                  feed_from \<lparr>pieces = [], block_lines = [], block_bytes = 0,
                      lastId = (case ident of Some i \<Rightarrow> Some i | None \<Rightarrow> lastId p)\<rparr>
                    (case block of Some b \<Rightarrow> blocks @ [b] | None \<Rightarrow> blocks) after)
           else feed_from (p\<lparr>pieces := [], block_lines := line # block_lines p,
                   block_bytes := block_bytes p + length before + 1\<rparr>) blocks after)"
        using True ok
        by (subst feed_from.simps)
          (simp add: Let_def before_def [symmetric] l oldestFirst_def [of "block_lines p"] after_def split: option.split)
      have el: "end_line ?s =
          (if line = [] then
             (case blockOf (rev (block_lines p)) of
                None \<Rightarrow> too_long
              | Some (ident, block) \<Rightarrow>
                  Inr (\<lparr>open_line = [], done_lines = [], count = 0,
                        seen_id = (case ident of Some i \<Rightarrow> Some i | None \<Rightarrow> lastId p)\<rparr>,
                       case block of Some b \<Rightarrow> [b] | None \<Rightarrow> []))
           else Inr (?s\<lparr>open_line := [], done_lines := rev (block_lines p) @ [line], count := count ?s + 1\<rparr>, []))"
        using ok by (simp add: end_line_def line_def [symmetric] split: option.split)
      show ?thesis
      proof (cases "line = []")
        case line: True
        show ?thesis
        proof (cases "blockOf (rev (block_lines p))")
          case None
          with line show ?thesis by (simp add: out run el ok)
        next
          case (Some r)
          obtain ident block where r: "r = (ident, block)" by (cases r)
          let ?q = "\<lparr>pieces = [], block_lines = [], block_bytes = 0,
                      lastId = (case ident of Some i \<Rightarrow> Some i | None \<Rightarrow> lastId p)\<rparr>"
          let ?bs = "case block of Some b \<Rightarrow> blocks @ [b] | None \<Rightarrow> blocks"
          have "abs_fed (feed_from ?q ?bs after) = emit ?bs (byte_run (abs_parser ?q) after)"
            using IH(1) True ok line Some r by (simp add: oldestFirst_def)
          then show ?thesis unfolding run out using ok line Some r
            by (cases block)
              (simp_all add: el and_then_emit emit_emit abs_parser_def del: and_then.simps)
        qed
      next
        case line: False
        let ?q = "p\<lparr>pieces := [], block_lines := line # block_lines p,
                    block_bytes := block_bytes p + length before + 1\<rparr>"
        have "abs_fed (feed_from ?q blocks after) = emit blocks (byte_run (abs_parser ?q) after)"
          using IH(2) True ok line by simp
        then show ?thesis unfolding run out using ok line
          by (simp add: el and_then_emit abs_parser_def del: and_then.simps)
      qed
    qed
  qed
qed

lemma feedSse_refines:
  "block_bytes p \<le> SSE_BLOCK_BYTES \<Longrightarrow> abs_fed (feedSse p chunk) = byte_run (abs_parser p) chunk"
  by (simp add: feedSse_def feed_from_refines)

section \<open>What a connection keeps\<close>

text \<open>
  The invariant of a connection: the bytes held never pass the bound, the lines are those of the
  incomplete block (no line end in a line, and no blank line), and the last identifier is a
  cursor.
\<close>

definition line_inv :: "line_state \<Rightarrow> bool" where
  "line_inv s \<longleftrightarrow>
     length (open_line s) + (\<Sum>l\<leftarrow>done_lines s. length l + 1) \<le> count s \<and> count s \<le> SSE_BLOCK_BYTES
     \<and> 10 \<notin> set (open_line s)
     \<and> (\<forall>l \<in> set (done_lines s). l \<noteq> [] \<and> 10 \<notin> set l \<and> 13 \<notin> set l)
     \<and> (case seen_id s of None \<Rightarrow> True | Some i \<Rightarrow> validCursor i)"

lemma set_drop_cr: "set (drop_cr l) \<subseteq> set l"
  by (auto simp: drop_cr_def dest: in_set_butlastD)

lemma length_drop_cr: "length (drop_cr l) \<le> length l"
  by (simp add: drop_cr_def)

lemma blockOf_id: "blockOf ls = Some (Some i, b) \<Longrightarrow> validCursor i"
  by (auto simp: blockOf_def Let_def list_all_iff split: option.splits if_splits)

lemma blockOf_events:
  "blockOf ls = Some (ident, Some b) \<Longrightarrow>
   (case b of Dispatch e \<Rightarrow> event_id e = ident | Advance i \<Rightarrow> ident = Some i | Heartbeat \<Rightarrow> ident = None)"
  by (auto simp: blockOf_def Let_def split: option.splits if_splits)

lemma byte_step_inv:
  assumes "byte_step s b = Inr (s', out)" "line_inv s"
  shows "line_inv s'"
proof (cases "b = 10")
  case False
  with assms show ?thesis
    by (auto simp: byte_step_def line_inv_def split: if_splits)
next
  case True
  let ?l = "drop_cr (open_line s)"
  have e: "end_line s = Inr (s', out)" and bound: "count s + 1 \<le> SSE_BLOCK_BYTES" and n13: "13 \<notin> set ?l"
    using assms True by (auto simp: byte_step_def end_line_def Let_def split: if_splits)
  show ?thesis
  proof (cases "?l = []")
    case nil: True
    then obtain ident b' where "blockOf (done_lines s) = Some (ident, b')"
        "s' = \<lparr>open_line = [], done_lines = [], count = 0,
               seen_id = (case ident of Some i \<Rightarrow> Some i | None \<Rightarrow> seen_id s)\<rparr>"
      using e n13 by (auto simp: end_line_def split: option.splits)
    then show ?thesis using assms(2)
      by (cases ident) (auto simp: line_inv_def dest: blockOf_id)
  next
    case False
    then have s': "s' = s\<lparr>open_line := [], done_lines := done_lines s @ [?l], count := count s + 1\<rparr>"
      using e n13 by (simp add: end_line_def)
    have "10 \<notin> set ?l" using assms(2) set_drop_cr [of "open_line s"] by (auto simp: line_inv_def)
    with s' False n13 bound assms(2) show ?thesis
      using length_drop_cr [of "open_line s"] by (auto simp: line_inv_def)
  qed
qed

lemma byte_run_inv: "byte_run s bs = Inr (s', out) \<Longrightarrow> line_inv s \<Longrightarrow> line_inv s'"
  by (induction bs arbitrary: s out) (auto split: sum.splits prod.splits dest: byte_step_inv)

definition parser_inv :: "sse_parser \<Rightarrow> bool" where
  "parser_inv p \<longleftrightarrow> line_inv (abs_parser p)"

lemma parser_inv_bound: "parser_inv p \<Longrightarrow> block_bytes p \<le> SSE_BLOCK_BYTES"
  by (simp add: parser_inv_def line_inv_def abs_parser_def)

lemma feedSse_inv:
  assumes "parser_inv p" "feedSse p chunk = Inr (p', blocks)"
  shows "parser_inv p'"
proof -
  have "byte_run (abs_parser p) chunk = Inr (abs_parser p', blocks)"
    using feedSse_refines [OF parser_inv_bound [OF assms(1)], of chunk] assms(2) by simp
  then show ?thesis using assms(1) byte_run_inv by (auto simp: parser_inv_def)
qed

lemma newSseParser_inv: "(case i of None \<Rightarrow> True | Some c \<Rightarrow> validCursor c) \<Longrightarrow> parser_inv (newSseParser i)"
  by (simp add: parser_inv_def line_inv_def abs_parser_def newSseParser_def)

section \<open>Chunks\<close>

text \<open>Feeding a sequence of chunks, as the reader of a response does.\<close>

fun feed_all :: "sse_parser \<Rightarrow> u8 list list \<Rightarrow> (sse_parser \<times> sse_block list) outcome" where
  "feed_all p [] = Inr (p, [])"
| "feed_all p (c # cs) =
     (case feedSse p c of
        Inl e \<Rightarrow> Inl e
      | Inr (p', out) \<Rightarrow>
          (case feed_all p' cs of Inl e \<Rightarrow> Inl e | Inr (p'', out') \<Rightarrow> Inr (p'', out @ out')))"

lemma feed_all_refines:
  "parser_inv p \<Longrightarrow> abs_fed (feed_all p chunks) = byte_run (abs_parser p) (concat chunks)"
proof (induction chunks arbitrary: p)
  case (Cons c cs)
  note ref = feedSse_refines [OF parser_inv_bound [OF Cons.prems], of c]
  show ?case
  proof (cases "feedSse p c")
    case (Inl e)
    then have "byte_run (abs_parser p) c = Inl e" using ref by simp
    with Inl show ?thesis by (simp add: byte_run_append)
  next
    case (Inr r)
    obtain p' out where r: "r = (p', out)" by (cases r)
    have run: "byte_run (abs_parser p) c = Inr (abs_parser p', out)" using ref Inr r by simp
    have "parser_inv p'" using feedSse_inv [OF Cons.prems] Inr r by simp
    then have "abs_fed (feed_all p' cs) = byte_run (abs_parser p') (concat cs)" by (rule Cons.IH)
    then show ?thesis using Inr r run
      by (cases "feed_all p' cs") (auto simp: byte_run_append split: sum.splits prod.splits)
  qed
qed simp

end
