(* ===== verification/SseFormat.thy ===== *)
theory SseFormat
  imports SseLaws
begin

text \<open>
  The format of an event on the wire, as the event-stream format states it, and the parser as its
  inverse: the lines of an event, each with its LF, and a blank line.
\<close>

definition field_line :: "jstr \<Rightarrow> jstr \<Rightarrow> jstr" where
  "field_line name v = name @ 58 # 32 # v"

definition event_texts :: "sse_event \<Rightarrow> jstr list" where
  "event_texts e =
     (case event_id e of None \<Rightarrow> [] | Some i \<Rightarrow> [field_line (js ''id'') i])
     @ [field_line (js ''event'') (event_name e)]
     @ map (field_line (js ''data'')) (split_on 10 (event_data e))"

definition wire_lines :: "u8 list list \<Rightarrow> u8 list" where
  "wire_lines ls = concat (map (\<lambda>l. l @ [10]) ls) @ [10]"

definition wire_event :: "sse_event \<Rightarrow> u8 list" where
  "wire_event e = wire_lines (map utf8_encode (event_texts e))"

text \<open>Events that the format can carry.\<close>

definition wire_ok :: "sse_event \<Rightarrow> bool" where
  "wire_ok e \<longleftrightarrow>
     (case event_id e of None \<Rightarrow> True | Some i \<Rightarrow> validCursor i)
     \<and> well_formed (event_name e) \<and> 10 \<notin> set (event_name e) \<and> 13 \<notin> set (event_name e)
     \<and> well_formed (event_data e) \<and> 13 \<notin> set (event_data e)
     \<and> length (wire_event e) \<le> SSE_BLOCK_BYTES"

section \<open>Encoded lines\<close>

lemma utf8_point_small: "b \<in> set (utf8_point p) \<Longrightarrow> p < 0x110000 \<Longrightarrow> b < 0x80 \<Longrightarrow> unat b = p"
proof -
  have big: "\<not> byte n < 0x80" if "0x80 \<le> n" "n < 256" for n
    using that by (simp add: word_less_nat_alt unat_byte)
  have q: "p div 262144 < 16" if "p < 0x110000" using that by simp
  assume "b \<in> set (utf8_point p)" "p < 0x110000" "b < 0x80"
  then show ?thesis using q
    by (auto simp: utf8_point_def unat_byte big split: if_splits)
qed

lemma utf8_encode_small:
  assumes "b \<in> set (utf8_encode s)" "b < 0x80"
  shows "ucast b \<in> set s"
proof -
  obtain p where p: "p \<in> set (code_points s)" "b \<in> set (utf8_point (utf8_scalar p))"
    using assms(1) by (auto simp: utf8_encode_def utf8_points_def)
  have "utf8_scalar p < 0x110000" using code_points_bound [OF p(1)] by (simp add: utf8_scalar_def)
  then have "unat b = utf8_scalar p" using utf8_point_small p(2) assms(2) by blast
  moreover have "unat b < 0x80" using assms(2) by (simp add: word_less_nat_alt)
  ultimately have "p = unat b" by (simp add: utf8_scalar_def split: if_splits)
  then have pp: "p < 0x80" "units_of_point p = [ucast b]"
    using \<open>unat b < 0x80\<close> by (simp_all add: units_of_point_def)
  have "set (units_of_point p) \<subseteq> set (units_of_points (code_points s))"
    using p(1) by (auto simp: units_of_points_def)
  then show ?thesis using pp by simp
qed

lemma utf8_no_line_end:
  "10 \<notin> set s \<Longrightarrow> 10 \<notin> set (utf8_encode s)" "13 \<notin> set s \<Longrightarrow> 13 \<notin> set (utf8_encode s)"
  using utf8_encode_small [of 10 s] utf8_encode_small [of 13 s] by auto

lemma code_points_Cons_ascii: "u < 0xD800 \<Longrightarrow> code_points (u # s) = unat u # code_points s"
  by (cases s) (auto simp: high_surrogate_def)

lemma well_formed_ascii_append: "list_all (\<lambda>u. u < 0xD800) a \<Longrightarrow> well_formed (a @ s) \<longleftrightarrow> well_formed s"
proof (induction a)
  case (Cons u a)
  then have "unat u < 0xD800" by (simp add: word_less_nat_alt)
  with Cons show ?case
    by (simp add: well_formed_def code_points_Cons_ascii scalar_point_def surrogate_point_def)
qed simp

lemma code_points_append_ascii: "u < 0xD800 \<Longrightarrow> code_points (a @ u # s) = code_points a @ code_points (u # s)"
proof (induction a rule: code_points.induct)
  case (2 v)
  then have "\<not> low_surrogate u" by (auto simp: low_surrogate_def word_le_nat_alt word_less_nat_alt)
  then show ?case by simp
qed auto

lemma well_formed_append_ascii: "u < 0xD800 \<Longrightarrow> well_formed (a @ u # s) \<longleftrightarrow> well_formed a \<and> well_formed s"
  by (auto simp: well_formed_def code_points_append_ascii code_points_Cons_ascii scalar_point_def
      surrogate_point_def word_less_nat_alt)

lemma well_formed_pieces: "well_formed s \<Longrightarrow> u < 0xD800 \<Longrightarrow> p \<in> set (split_on u s) \<Longrightarrow> well_formed p"
proof (induction "length s" arbitrary: s p rule: less_induct)
  case less
  show ?case
  proof (cases "u \<in> set s")
    case False
    with less show ?thesis by (simp add: split_on_free)
  next
    case True
    then obtain a t where s: "s = a @ u # t" "u \<notin> set a" by (meson split_list_first)
    then have "well_formed a" "well_formed t" using less.prems well_formed_append_ascii by auto
    moreover have "p = a \<or> p \<in> set (split_on u t)" using less.prems s by (simp add: split_on_append)
    ultimately show ?thesis using less.hyps [of t p] less.prems s by auto
  qed
qed

lemma set_split_on: "p \<in> set (split_on c s) \<Longrightarrow> set p \<subseteq> set s"
proof (induction s arbitrary: p)
  case IH: (Cons u s)
  show ?case
  proof (cases "split_on c s")
    case (Cons q qs)
    then have "set p \<subseteq> insert u (set s)" if "p \<in> set ([] # q # qs) \<or> p = u # q" for p
      using that IH.IH [of q] IH.IH [of p] by auto
    with Cons IH.prems show ?thesis by (auto split: if_splits)
  qed simp
qed simp

section \<open>The parser reads the lines\<close>

definition plain_line :: "u8 list \<Rightarrow> bool" where
  "plain_line l \<longleftrightarrow> l \<noteq> [] \<and> 10 \<notin> set l \<and> 13 \<notin> set l"

lemma drop_cr_plain: "13 \<notin> set l \<Longrightarrow> drop_cr l = l"
  unfolding drop_cr_def by (metis last_in_set)

lemma byte_run_plain:
  "list_all plain_line ls \<Longrightarrow> open_line s = [] \<Longrightarrow>
   count s + length (concat (map (\<lambda>l. l @ [10]) ls)) \<le> SSE_BLOCK_BYTES \<Longrightarrow>
   byte_run s (concat (map (\<lambda>l. l @ [10]) ls) @ after) =
     byte_run (s\<lparr>done_lines := done_lines s @ ls, count := count s + length (concat (map (\<lambda>l. l @ [10]) ls))\<rparr>) after"
proof (induction ls arbitrary: s)
  case (Cons l ls)
  let ?s = "s\<lparr>done_lines := done_lines s @ [l], count := count s + length l + 1\<rparr>"
  have el: "end_line (s\<lparr>open_line := l, count := count s + length l\<rparr>) = Inr (?s, [])"
    using Cons.prems by (simp add: end_line_def drop_cr_plain plain_line_def)
  have "byte_run s (l @ 10 # concat (map (\<lambda>l. l @ [10]) ls) @ after)
      = byte_run ?s (concat (map (\<lambda>l. l @ [10]) ls) @ after)"
    using Cons.prems el by (subst byte_run_line) (auto simp: plain_line_def and_then_emit simp del: and_then.simps)
  also have "\<dots> = byte_run (?s\<lparr>done_lines := done_lines ?s @ ls,
      count := count ?s + length (concat (map (\<lambda>l. l @ [10]) ls))\<rparr>) after"
    using Cons.prems by (intro Cons.IH) auto
  finally show ?case by (simp add: ac_simps)
qed simp

lemma byte_run_blank:
  assumes "open_line s = []" "count s < SSE_BLOCK_BYTES" "blockOf (done_lines s) = Some (ident, block)"
  shows "byte_run s [10] =
     Inr (\<lparr>open_line = [], done_lines = [], count = 0,
           seen_id = (case ident of Some i \<Rightarrow> Some i | None \<Rightarrow> seen_id s)\<rparr>,
          case block of Some b \<Rightarrow> [b] | None \<Rightarrow> [])"
  using assms by (simp add: byte_step_def end_line_def drop_cr_def)

section \<open>The lines of an event\<close>

lemma takeWhile_stop: "x \<notin> set a \<Longrightarrow> takeWhile (\<lambda>c. c \<noteq> x) (a @ x # r) = a"
  by (induction a) auto

lemma sse_field_line [simp]: "58 \<notin> set name \<Longrightarrow> sse_field (field_line name v) = (name, v)"
  by (simp add: sse_field_def field_line_def starts_with_def takeWhile_stop)

lemma names_no_colon [simp]:
  "58 \<notin> set (js ''id'')" "58 \<notin> set (js ''event'')" "58 \<notin> set (js ''data'')"
  by (simp_all add: js_def)

lemma names_start [simp]:
  "\<not> starts_with (field_line (js ''id'') v) [58]" "\<not> starts_with (field_line (js ''event'') v) [58]"
  "\<not> starts_with (field_line (js ''data'') v) [58]"
  by (simp_all add: starts_with_def field_line_def js_def)

lemma join_split: "join_lf (split_on 10 s) = s"
proof (induction s)
  case (Cons u s)
  then show ?case by (cases "split_on 10 s"; cases "tl (split_on 10 s)") auto
qed simp

lemma map_data_fields [simp]:
  "map (sse_field \<circ> field_line (js ''data'')) vs = map (Pair (js ''data'')) vs"
  "filter (\<lambda>l. \<not> starts_with l [58]) (map (field_line (js ''data'')) vs) = map (field_line (js ''data'')) vs"
  by (induction vs) auto

lemma sse_values_data [simp]:
  "sse_values (js ''id'') (map (Pair (js ''data'')) vs) = []"
  "sse_values (js ''event'') (map (Pair (js ''data'')) vs) = []"
  "sse_values (js ''data'') (map (Pair (js ''data'')) vs) = vs"
  by (induction vs) (auto simp: sse_values_def)

lemma sse_values_Cons: "sse_values n ((k, v) # fs) = (if k = n then v # sse_values n fs else sse_values n fs)"
  by (simp add: sse_values_def)

lemma texts_decode:
  assumes "wire_ok e"
  shows "all_some (map utf8_decode (map utf8_encode (event_texts e))) = Some (event_texts e)"
    and "list_all plain_line (map utf8_encode (event_texts e))"
proof -
  have names: "list_all (\<lambda>u. u < 0xD800) (n @ [58, 32])" "10 \<notin> set (n @ [58, 32])" "13 \<notin> set (n @ [58, 32])"
    if "n \<in> {js ''id'', js ''event'', js ''data''}" for n
    using that by (auto simp: js_def)
  have line: "utf8_decode (utf8_encode (field_line n v)) = Some (field_line n v) \<and> plain_line (utf8_encode (field_line n v))"
    if "n \<in> {js ''id'', js ''event'', js ''data''}" "well_formed v" "10 \<notin> set v" "13 \<notin> set v" for n v
  proof -
    have l: "field_line n v = (n @ [58, 32]) @ v" by (simp add: field_line_def)
    then have wf: "well_formed (field_line n v)"
      using well_formed_ascii_append [OF names(1) [OF that(1)], of v] that(2) by simp
    moreover have "10 \<notin> set (field_line n v)" "13 \<notin> set (field_line n v)"
      using names(2,3) [OF that(1)] that(3,4) by (auto simp: l)
    moreover have "utf8_encode (field_line n v) \<noteq> []"
    proof
      assume "utf8_encode (field_line n v) = []"
      with wf have "utf8_decode [] = Some (field_line n v)" using utf8_decode_encode by metis
      then show False by (simp add: utf8_decode_def field_line_def)
    qed
    ultimately show ?thesis by (simp add: utf8_decode_encode plain_line_def utf8_no_line_end)
  qed
  have idok: "well_formed i \<and> 10 \<notin> set i \<and> 13 \<notin> set i" if cur: "validCursor i" for i
  proof -
    have "list_all (\<lambda>u. u < 0xD800 \<and> u \<noteq> 10 \<and> u \<noteq> 13) i"
    proof -
      obtain st n where i: "i = st @ 46 # dec n" "validId st" using cur unfolding validCursor_iff by blast
      have "id_unit u \<or> u = 46 \<or> is_digit u" if "u \<in> set i" for u
        using that i dec_digits [of n] by (auto simp: validId_def list_all_iff)
      then show ?thesis
        by (fastforce simp: list_all_iff id_unit_def is_letter_def is_digit_def word_le_nat_alt word_less_nat_alt)
    qed
    then show ?thesis using well_formed_ascii_append [of i "[]"] by (auto simp: list_all_iff well_formed_def)
  qed
  have all: "utf8_decode (utf8_encode t) = Some t \<and> plain_line (utf8_encode t)" if t: "t \<in> set (event_texts e)" for t
  proof -
    consider (i) i where "event_id e = Some i" "t = field_line (js ''id'') i"
      | (n) "t = field_line (js ''event'') (event_name e)"
      | (d) d where "d \<in> set (split_on 10 (event_data e))" "t = field_line (js ''data'') d"
      using t by (cases "event_id e") (auto simp: event_texts_def)
    then show ?thesis
    proof cases
      case i
      then show ?thesis using assms idok line by (simp add: wire_ok_def)
    next
      case n
      then show ?thesis using assms line by (simp add: wire_ok_def)
    next
      case d
      have "set d \<subseteq> set (event_data e)" using d(1) by (rule set_split_on)
      then show ?thesis using d assms line [of _ d] split_on_pieces [OF d(1)] well_formed_pieces [OF _ _ d(1)]
        by (auto simp: wire_ok_def)
    qed
  qed
  have "map utf8_decode (map utf8_encode (event_texts e)) = map Some (event_texts e)"
    using all by simp
  then show "all_some (map utf8_decode (map utf8_encode (event_texts e))) = Some (event_texts e)"
    by (simp only: all_some_map_Some)
  show "list_all plain_line (map utf8_encode (event_texts e))" using all by (simp add: list_all_iff)
qed

lemma blockOf_event:
  assumes "wire_ok e"
  shows "blockOf (map utf8_encode (event_texts e)) = Some (event_id e, Some (Dispatch e))"
proof -
  have v: "\<forall>i. event_id e = Some i \<longrightarrow> validCursor i" using assms by (auto simp: wire_ok_def)
  then show ?thesis
    unfolding blockOf_def texts_decode(1) [OF assms]
    by (cases "event_id e")
      (simp_all add: event_texts_def Let_def sse_values_Cons join_split)
qed

theorem byte_run_event:
  assumes "wire_ok e" "open_line s = []" "done_lines s = []" "count s = 0"
  shows "byte_run s (wire_event e) =
     Inr (s\<lparr>seen_id := (case event_id e of Some i \<Rightarrow> Some i | None \<Rightarrow> seen_id s)\<rparr>, [Dispatch e])"
proof -
  let ?ls = "map utf8_encode (event_texts e)"
  have len: "length (concat (map (\<lambda>l. l @ [10]) ?ls)) < SSE_BLOCK_BYTES"
    using assms(1) by (simp add: wire_ok_def wire_event_def wire_lines_def)
  have "byte_run s (wire_event e) =
      byte_run (s\<lparr>done_lines := ?ls, count := length (concat (map (\<lambda>l. l @ [10]) ?ls))\<rparr>) [10]"
    unfolding wire_event_def wire_lines_def
    using texts_decode(2) [OF assms(1)] assms(2-4) len by (subst byte_run_plain) auto
  also have "\<dots> = Inr (s\<lparr>seen_id := (case event_id e of Some i \<Rightarrow> Some i | None \<Rightarrow> seen_id s)\<rparr>, [Dispatch e])"
    using assms len blockOf_event [OF assms(1)]
    by (subst byte_run_blank) (auto split: option.splits)
  finally show ?thesis .
qed

end
