(* ===== verification/StreamProperties.thy ===== *)
theory StreamProperties
  imports SseFormat SampleWire Refresh
begin

text \<open>
  The properties of the event stream and of the refresh state: the incremental parser against the
  byte machine, the delivery of a formatted event through any split of its bytes, and the fetches
  that invalidations cause.
\<close>

section \<open>The stream\<close>

lemma new_parser_inv: "parser_inv (newSseParser None)"
  by (rule newSseParser_inv) simp

text \<open>
  C27: Refinement of the stream parser. Fed any chunks, the parser does what the byte machine does on their
  concatenation: the same blocks in the same order, the same refusals, and the same state.
\<close>

theorem chunked_parser_refines_byte_machine:
  assumes "parser_inv p"
  shows "abs_fed (feed_all p chunks) = byte_run (abs_parser p) (concat chunks)"
  using assms by (rule feed_all_refines)

theorem chunked_parser_refines_byte_machine_witness:
  "abs_fed (feed_all (newSseParser None) [[100, 97], [], [10]]) = byte_run (abs_parser (newSseParser None)) [100, 97, 10]"
  using chunked_parser_refines_byte_machine [OF new_parser_inv, of "[[100, 97], [], [10]]"] by simp

text \<open>
  Chunk boundaries do not matter. Two splits of the same bytes give the same blocks, or both refuse,
  and leave parsers in the same state with the same last event identifier.
\<close>

theorem chunk_boundaries_do_not_matter:
  assumes "parser_inv p" and "concat xs = concat ys"
  shows "map_sum id (\<lambda>(q, out). (abs_parser q, closeSse q, out)) (feed_all p xs)
       = map_sum id (\<lambda>(q, out). (abs_parser q, closeSse q, out)) (feed_all p ys)"
proof -
  have "abs_fed (feed_all p xs) = abs_fed (feed_all p ys)"
    using assms by (simp add: feed_all_refines)
  moreover have "lastId q = seen_id (abs_parser q)" for q by (simp add: abs_parser_def)
  ultimately show ?thesis
    by (cases "feed_all p xs"; cases "feed_all p ys") (auto simp: closeSse_def)
qed

theorem chunk_boundaries_do_not_matter_witness:
  "map_sum id (\<lambda>(q, out). (abs_parser q, closeSse q, out)) (feed_all (newSseParser None) [[100, 97], [10]])
   = map_sum id (\<lambda>(q, out). (abs_parser q, closeSse q, out)) (feed_all (newSseParser None) [[100], [97, 10]])"
  by (rule chunk_boundaries_do_not_matter [OF new_parser_inv]) simp

text \<open>
  Memory of the stream parser. After any accepted chunks the bytes held for the incomplete block are at
  most 16384, no held line contains a line feed, and the last event identifier is a valid cursor.
\<close>

theorem parser_memory_is_bounded:
  assumes "feed_all (newSseParser start) chunks = Inr (p, blocks)"
    and "case start of None \<Rightarrow> True | Some c \<Rightarrow> validCursor c"
  shows "length (concat (pieces p)) + (\<Sum>l\<leftarrow>block_lines p. length l + 1) \<le> 16384
    \<and> (case closeSse p of None \<Rightarrow> True | Some c \<Rightarrow> validCursor c)"
proof -
  have "line_inv (abs_parser p)"
  proof -
    have "byte_run (abs_parser (newSseParser start)) (concat chunks) = Inr (abs_parser p, blocks)"
      using feed_all_refines [OF newSseParser_inv [OF assms(2)], of chunks] assms(1) by simp
    then show ?thesis
      using newSseParser_inv [OF assms(2)] byte_run_inv by (auto simp: parser_inv_def)
  qed
  moreover have "length (concat (rev (pieces p))) = length (concat (pieces p))"
    by (simp add: length_concat rev_map [symmetric])
  moreover have "(\<Sum>l\<leftarrow>rev (block_lines p). length l + 1) = (\<Sum>l\<leftarrow>block_lines p. length l + 1)"
    by (simp add: rev_map [symmetric])
  ultimately show ?thesis
    by (auto simp: line_inv_def abs_parser_def closeSse_def SSE_BLOCK_BYTES_def)
qed

lemma sample_feed: "feed_all (newSseParser None) [] = Inr (newSseParser None, [])"
  by simp

theorem parser_memory_is_bounded_witness: "length (concat (pieces (newSseParser None))) \<le> 16384"
  using parser_memory_is_bounded [OF sample_feed] by simp

text \<open>
  Delivery. An event written in the event-stream format and split into chunks anywhere is dispatched
  exactly once and unchanged by a fresh parser, whose last event identifier is then that of the event,
  if it has one.
\<close>

theorem formatted_event_is_delivered:
  assumes "wire_ok e" and "concat chunks = wire_event e"
  shows "\<exists>p. feed_all (newSseParser None) chunks = Inr (p, [Dispatch e]) \<and> closeSse p = event_id e"
proof -
  let ?s = "abs_parser (newSseParser None)"
  have "byte_run ?s (wire_event e) =
     Inr (?s\<lparr>seen_id := (case event_id e of Some i \<Rightarrow> Some i | None \<Rightarrow> seen_id ?s)\<rparr>, [Dispatch e])"
    using assms(1) by (rule byte_run_event) (simp_all add: abs_parser_def newSseParser_def)
  moreover have "abs_fed (feed_all (newSseParser None) chunks) = byte_run ?s (wire_event e)"
    using feed_all_refines [OF new_parser_inv, of chunks] assms(2) by simp
  ultimately have fed: "abs_fed (feed_all (newSseParser None) chunks) =
     Inr (?s\<lparr>seen_id := (case event_id e of Some i \<Rightarrow> Some i | None \<Rightarrow> seen_id ?s)\<rparr>, [Dispatch e])" by simp
  then obtain p where p: "feed_all (newSseParser None) chunks = Inr (p, [Dispatch e])"
    and "abs_parser p = ?s\<lparr>seen_id := (case event_id e of Some i \<Rightarrow> Some i | None \<Rightarrow> seen_id ?s)\<rparr>"
    by (cases "feed_all (newSseParser None) chunks") auto
  then have "seen_id (abs_parser p) = event_id e"
    by (simp add: abs_parser_def newSseParser_def split: option.splits)
  then show ?thesis using p by (simp add: abs_parser_def closeSse_def)
qed

definition sample_wire :: sse_event where
  "sample_wire = \<lparr>event_id = Some sample_cursor, event_name = js ''n'', event_data = js ''d''\<rparr>"

lemma length_singles: "\<forall>x \<in> set xs. length (f x) = 1 \<Longrightarrow> length (concat (map f xs)) = length xs"
  by (induction xs) auto

lemma ascii_length:
  assumes "list_all (\<lambda>u. u < 0x80) s"
  shows "length (utf8_encode s) = length s"
proof -
  have "code_points s = map unat s"
    using assms by (intro code_points_ascii) (auto simp: list_all_iff word_less_nat_alt)
  then have "utf8_encode s = concat (map (\<lambda>u. utf8_point (utf8_scalar (unat u))) s)"
    by (simp add: utf8_encode_def utf8_points_def comp_def)
  moreover have "length (utf8_point (utf8_scalar (unat u))) = 1" if "u \<in> set s" for u
  proof -
    have "unat u < 128" using assms that by (auto simp: list_all_iff word_less_nat_alt)
    then show ?thesis by (simp add: utf8_scalar_def surrogate_point_def utf8_point_def)
  qed
  ultimately show ?thesis by (simp add: length_singles)
qed

lemma sample_wire_ok: "wire_ok sample_wire"
proof -
  have texts: "event_texts sample_wire = [js ''id: s.7'', js ''event: n'', js ''data: d'']"
    unfolding sample_wire_def sample_cursor_def by code_simp
  have "list_all (\<lambda>u. u < 0x80) (js ''id: s.7'')" "list_all (\<lambda>u. u < 0x80) (js ''event: n'')"
    "list_all (\<lambda>u. u < 0x80) (js ''data: d'')" by code_simp+
  then have "length (wire_event sample_wire) = 26"
    by (simp add: wire_event_def wire_lines_def texts ascii_length)
  moreover have "well_formed (js ''n'')" "well_formed (js ''d'')"
    by (rule ascii_well_formed, code_simp)+
  moreover have "10 \<notin> set (js ''n'')" "13 \<notin> set (js ''n'')" "13 \<notin> set (js ''d'')"
    by (simp_all add: js_def)
  ultimately show ?thesis by (simp add: wire_ok_def sample_wire_def SSE_BLOCK_BYTES_def)
qed

theorem formatted_event_is_delivered_witness:
  "\<exists>p. feed_all (newSseParser None) [wire_event sample_wire] = Inr (p, [Dispatch sample_wire])"
  using formatted_event_is_delivered [OF sample_wire_ok, of "[wire_event sample_wire]"] by auto

text \<open>
  Invalidations end to end. The block that carries the JSON text of an invalidation under the name and
  cursor of the event decodes to exactly that event.
\<close>

theorem invalidation_block_decodes:
  assumes "event_ok e"
  shows "decodeEventBlock \<lparr>event_id = Some (ie_id e), event_name = ie_name e,
     event_data = encodeJson (encodeInvalidation (ie_data e))\<rparr> = Inr e"
proof -
  have ok: "invalidation_ok (ie_data e)" "ie_name e \<in> set EVENT_NAMES" using assms by (simp_all add: event_ok_def)
  have "Option.bind (tryParseJson (encodeJson (encodeInvalidation (ie_data e)))) (\<lambda>v. parseInvalidation (Some v)) = Some (ie_data e)"
    using ok(1) by (rule invalidation.wire_roundtrip)
  then obtain d where "tryParseJson (encodeJson (encodeInvalidation (ie_data e))) = Some d"
    "parseInvalidation (Some d) = Some (ie_data e)" by (auto simp: bind_eq_Some_conv)
  moreover have "parseEventName (ie_name e) = Some (ie_name e)"
    using ok(2) by (auto simp: parseEventName_def EVENT_NAMES_def)
  ultimately show ?thesis by (simp add: decodeEventBlock_Inr)
qed

theorem invalidation_block_decodes_witness:
  "decodeEventBlock \<lparr>event_id = Some sample_cursor, event_name = js ''run.changed'',
     event_data = encodeJson (encodeInvalidation sample_invalidation)\<rparr> = Inr sample_update"
  using invalidation_block_decodes [OF sample_update_ok] by (simp add: sample_update_def)

section \<open>Refresh\<close>

text \<open>
  C32: No change is lost. In every reachable state of client and server, whatever the order of changes,
  announcements, reads that succeed or are refused, resnapshots and changes of the endpoint: a resource has a
  fetch of the current generation in flight exactly when the coordinator says so, and never two. Unless a
  resnapshot is under way, a watched resource that has none shows a read that was asked for after its last
  announced change, and the version that this read gave, when it was not refused, is at least as new.
\<close>

theorem no_change_is_lost:
  assumes "refresh_reachable w"
  shows "length (flying (generation (client w)) (outstanding w) k) = (if map_of (flights (client w)) k = None then 0 else 1)
    \<and> (k \<in> set (watching w) \<longrightarrow> \<not> behind w \<longrightarrow> map_of (flights (client w)) k = None \<longrightarrow>
        (\<exists>s outcome. last_read w k = Some (s, outcome) \<and> announced w k \<le> s \<and> s \<le> server w k
          \<and> (case outcome of None \<Rightarrow> True | Some v \<Rightarrow> s \<le> v \<and> v \<le> server w k)))"
proof -
  have "key_inv (\<not> behind w \<and> k \<in> set (watching w)) w k"
    using reachable_inv [OF assms] by (cases "behind w") (auto simp: world_inv_def covers_def)
  then show ?thesis
    by (cases "map_of (flights (client w)) k") (auto simp: key_inv_def fresh_read_def read_since_def)
qed

definition sample_watched :: "nat world" where
  "sample_watched = invalidate_at 0 7 (world0\<lparr>watching := [7]\<rparr>)"

definition sample_read :: "nat world" where
  "sample_read = sample_watched\<lparr>client := newRefresh, outstanding := [], last_read := (\<lambda>_. None)(7 \<mapsto> (0, Some 0))\<rparr>"

lemma sample_read_reachable: "refresh_reachable sample_read"
proof -
  have "refresh_step (world0 :: nat world) sample_watched"
    using refresh_step.watched [of "world0 :: nat world" 7] by (simp add: sample_watched_def world0_def)
  moreover have "refresh_step sample_watched sample_read"
    using complete [of sample_watched "[]" 7 0 0 "[]" "Some 0"]
    by (simp add: sample_watched_def sample_read_def world0_def invalidate_at_def invalidateResource_def newRefresh_def
        completeFetch_def withFlight_def read_since_def fun_upd_def cong: if_cong)
  ultimately show ?thesis using refresh_reachable.start refresh_reachable.step by blast
qed

theorem no_change_is_lost_witness: "\<exists>s outcome. last_read sample_read 7 = Some (s, outcome) \<and> announced sample_read 7 \<le> s"
  using no_change_is_lost [OF sample_read_reachable, of 7]
  by (auto simp: sample_read_def sample_watched_def world0_def invalidate_at_def invalidateResource_def newRefresh_def)

text \<open>
  Fencing by generation. After a reconnection the completion of any earlier fetch is discarded and
  changes nothing, and the next invalidation of any resource fetches again in the new generation.
\<close>

theorem reconnection_fences_old_fetches:
  assumes "g \<le> generation c"
  shows "completeFetch k g (advanceGeneration c) = (advanceGeneration c, [Discard k g])
    \<and> snd (invalidateResource k' (advanceGeneration c)) = [Fetch k' (generation c + 1)]"
  using assms by (simp add: completeFetch_def advanceGeneration_def invalidateResource_def)

theorem reconnection_fences_old_fetches_witness:
  "completeFetch (1::nat) 0 (advanceGeneration newRefresh) = (advanceGeneration newRefresh, [Discard 1 0])"
  by (rule conjunct1 [OF reconnection_fences_old_fetches]) (simp add: newRefresh_def)

text \<open>
  Backoff. The delay after \<open>n\<close> failed reconnections is \<open>2 ^ n\<close> seconds up to 30, and the jittered delay in
  microseconds lies between half of it and the whole, for every fraction that the random source gives,
  also one that is not a number.
\<close>

theorem reconnection_backoff_bounds:
  "seconds (backoff_after n) = min 30 (2 ^ n)
   \<and> min 30 (2 ^ n) * 500000 \<le> jitteredMicroseconds (seconds (backoff_after n)) fraction
   \<and> jitteredMicroseconds (seconds (backoff_after n)) fraction \<le> min 30 (2 ^ n) * 1000000"
  using jitter_bounds [of "min 30 (2 ^ n)" fraction] by (simp add: backoff_after_value)

end
