(* ===== verification/Decisions.thy ===== *)
theory Decisions
  imports Drafts Schemas
begin

text \<open>
  Decisions and controls (\<^verbatim>\<open>manager/resources.ts\<close>, after \<^verbatim>\<open>Agentic.Tui.Service\<close>): the
  questions and recoveries that a run waits for, the editor schema of a structured answer, and
  the control offers that a run publishes.
\<close>

section \<open>Readers of the service\<close>

definition WORD32_LIMIT :: int where
  "WORD32_LIMIT = 4294967295"

definition identifierOf :: "json_value option \<Rightarrow> jstr option" where
  "identifierOf value = (case value of Some (JStr s) \<Rightarrow> if validId s then Some s else None | _ \<Rightarrow> None)"

definition resourceLink :: "json_value option \<Rightarrow> jstr option" where
  "resourceLink value =
     (case value of
        Some (JStr s) \<Rightarrow>
          if bounded s 4 8192 \<and> starts_with s (js ''/v1/'') \<and> list_all resource_unit s then Some s else None
      | _ \<Rightarrow> None)"

definition natural :: "json_value option \<Rightarrow> int option" where
  "natural value = (case value of Some (JStr s) \<Rightarrow> canonicalDecimal s (Some 4096) None | _ \<Rightarrow> None)"

definition uint64 :: "json_value option \<Rightarrow> int option" where
  "uint64 value = (case value of Some (JStr s) \<Rightarrow> canonicalDecimal s (Some 20) (Some WORD64_MAX) | _ \<Rightarrow> None)"

definition uint32 :: "json_value option \<Rightarrow> int option" where
  "uint32 value = (case value of Some (JStr s) \<Rightarrow> canonicalDecimal s (Some 10) (Some WORD32_LIMIT) | _ \<Rightarrow> None)"

definition occurrenceAddress :: "json_value option \<Rightarrow> int option" where
  "occurrenceAddress value = do {
     fs \<leftarrow> exact value [js ''occurrenceId''];
     uint64 (jsonMember fs (js ''occurrenceId''))
   }"

definition attemptAddress :: "json_value option \<Rightarrow> (int \<times> int) option" where
  "attemptAddress value = do {
     fs \<leftarrow> exact value [js ''occurrenceId'', js ''attemptId''];
     occurrenceId \<leftarrow> uint64 (jsonMember fs (js ''occurrenceId''));
     attemptId \<leftarrow> uint32 (jsonMember fs (js ''attemptId''));
     Some (occurrenceId, attemptId)
   }"

definition SUPERVISION_STATES :: "jstr list" where
  "SUPERVISION_STATES = [js ''owned'', js ''cleanup-pending'', js ''lost'', js ''observer'']"

section \<open>Data\<close>

record recovery_option =
  ro_choice :: jstr
  ro_target :: "jstr option"

text \<open>The properties of an object schema are kept in the order of their names.\<close>

datatype editor_schema =
  EPrimitive jstr
| EArray editor_schema
| EObject "(jstr \<times> editor_schema) list"

datatype decision_content =
  Question json_value "editor_schema option" jstr
| Recovery jstr jstr "recovery_option list"

definition DECISION_STATES :: "jstr list" where
  "DECISION_STATES = [js ''pending'', js ''submitting'', js ''resolved'', js ''invalidated'']"

record decision_view =
  dc_id :: jstr
  dc_revision :: jstr
  dc_runId :: jstr
  dc_profileId :: jstr
  dc_generation :: jstr
  dc_occurrenceId :: int
  dc_state :: jstr
  dc_position :: int
  dc_observedSequence :: int
  dc_content :: decision_content
  dc_value :: json_value

definition OFFER_OPERATIONS :: "jstr list" where
  "OFFER_OPERATIONS = [js ''steer'', js ''retry'', js ''choose-recovery'', js ''redirect'', js ''answer'']"

record control_offer =
  of_operation :: jstr
  of_occurrenceId :: int
  of_attemptId :: "int option"
  of_generation :: "jstr option"
  of_timings :: "jstr list"
  of_choices :: "recovery_option list"
  of_targets :: "jstr list"

record control_view =
  cv_runId :: jstr
  cv_revision :: jstr
  cv_supervision :: jstr
  cv_cancelAllowed :: bool
  cv_decisionHeadId :: "jstr option"
  cv_offers :: "control_offer list"
  cv_value :: json_value

section \<open>Decoders\<close>

definition parseRecoveryOption :: "json_value \<Rightarrow> recovery_option option" where
  "parseRecoveryOption value = do {
     fs \<leftarrow> exact (Some value) [js ''choice'', js ''target''];
     choice \<leftarrow> oneOf (jsonMember fs (js ''choice'')) [js ''retry'', js ''failover'', js ''abandon''];
     target \<leftarrow> nullable (jsonMember fs (js ''target'')) (\<lambda>v. boundedText (Some v) 0 1024);
     require (\<not> (choice \<noteq> js ''failover'' \<and> target \<noteq> None));
     Some \<lparr>ro_choice = choice, ro_target = target\<rparr>
   }"

definition EDITOR_TYPES :: "jstr list" where
  "EDITOR_TYPES = [js ''null'', js ''boolean'', js ''integer'', js ''number'', js ''string'', js ''array'', js ''object'']"

text \<open>
  The closed object of an editor schema: its properties in name order, when the names are bounded
  and required are exactly the names.
\<close>

definition editor_properties :: "json_value \<Rightarrow> json_members option" where
  "editor_properties value = do {
     fs \<leftarrow> exact (Some value) [js ''type'', js ''properties'', js ''required'', js ''additionalProperties''];
     properties \<leftarrow> (case jsonMember fs (js ''properties'') of Some (JObj ps) \<Rightarrow> Some ps | _ \<Rightarrow> None);
     require (length properties \<le> 256 \<and> list_all (\<lambda>(name, _). bounded name 0 1024) properties);
     required \<leftarrow> listOf (jsonMember fs (js ''required'')) (\<lambda>v. boundedText (Some v) 0 1024) (Some 256);
     additional \<leftarrow> boolOf (jsonMember fs (js ''additionalProperties''));
     require (unique required \<and> \<not> additional);
     require (length required = length properties \<and> list_all (\<lambda>(name, _). name \<in> set required) properties);
     Some (sort_key fst properties)
   }"

definition editor_items :: "json_value \<Rightarrow> json_value option" where
  "editor_items value = do {
     fs \<leftarrow> exact (Some value) [js ''type'', js ''items''];
     jsonMember fs (js ''items'')
   }"

lemma editor_items_size: "editor_items v = Some i \<Longrightarrow> size i < size v"
proof -
  assume "editor_items v = Some i"
  then obtain fs where fs: "v = JObj fs" "map_of fs (js ''items'') = Some i"
    by (auto simp: editor_items_def bind_eq_Some_conv exact_Some jsonMember_def)
  show ?thesis unfolding fs(1) using fs(2) by (rule size_member)
qed

lemma size_in_members: "(k, y) \<in> set fs \<Longrightarrow> size y < size (JObj fs)"
proof (induction fs)
  case (Cons p fs)
  then show ?case by (cases p) auto
qed simp

lemma editor_properties_Some:
  assumes "editor_properties v = Some ps"
  shows "\<exists>fs qs. v = JObj fs \<and> map_of fs (js ''properties'') = Some (JObj qs) \<and> ps = sort_key fst qs"
  using assms unfolding editor_properties_def
  by (elim bind_Some_elim) (auto simp: exact_Some jsonMember_def split: option.splits json.splits)

lemma editor_properties_size:
  assumes "editor_properties v = Some ps" "(k, y) \<in> set ps"
  shows "size y < size v"
proof -
  obtain fs qs where v: "v = JObj fs" "map_of fs (js ''properties'') = Some (JObj qs)" "ps = sort_key fst qs"
    using editor_properties_Some [OF assms(1)] by blast
  have "size y < size (JObj qs)" using assms(2) unfolding v(3) by (intro size_in_members [of k]) simp
  also have "\<dots> < size v" unfolding v(1) using v(2) by (rule size_member)
  finally show ?thesis .
qed

function parseEditorSchema :: "json_value \<Rightarrow> nat \<Rightarrow> editor_schema option" where
  "parseEditorSchema value depth =
     (if \<not> isJsonObject value \<or> depth \<ge> 64 then None
      else
        (case oneOf (case value of JObj fs \<Rightarrow> jsonMember fs (js ''type'') | _ \<Rightarrow> None) EDITOR_TYPES of
           None \<Rightarrow> None
         | Some type \<Rightarrow>
             if type = js ''array'' then
               (case editor_items value of
                  None \<Rightarrow> None
                | Some items \<Rightarrow> map_option EArray (parseEditorSchema items (depth + 1)))
             else if type = js ''object'' then
               (case editor_properties value of
                  None \<Rightarrow> None
                | Some properties \<Rightarrow>
                    (case all_some (map (\<lambda>(name, property). parseEditorSchema property (depth + 1)) properties) of
                       None \<Rightarrow> None
                     | Some schemas \<Rightarrow> Some (EObject (zip (map fst properties) schemas))))
             else if exact (Some value) [js ''type''] = None then None
             else Some (EPrimitive type)))"
  by pat_completeness auto

termination
  by (relation "measure (\<lambda>(v, _). size v)") (auto dest: editor_items_size editor_properties_size)

declare parseEditorSchema.simps [simp del]

definition parseQuestion :: "json_value option \<Rightarrow> decision_content option" where
  "parseQuestion value = do {
     fs \<leftarrow> exact value [js ''code'', js ''semanticSchema'', js ''editorSchema'', js ''addressee'', js ''scope'', js ''draw'', js ''prompt''];
     code \<leftarrow> observationCode (jsonMember fs (js ''code'')) DECISION_DEPTH;
     schema \<leftarrow> jsonMember fs (js ''semanticSchema'');
     require (schema = JNull \<or> semanticSchema schema 0 DECISION_DEPTH);
     require (case code of
        JObj own \<Rightarrow>
          (case jsonMember own (js ''json'') of
             Some (JObj structured) \<Rightarrow>
               (case jsonMember structured (js ''schema'') of None \<Rightarrow> False | Some stated \<Rightarrow> jsonEqual stated schema)
           | _ \<Rightarrow> True)
      | _ \<Rightarrow> True);
     editor \<leftarrow> nullable (jsonMember fs (js ''editorSchema'')) (\<lambda>v. parseEditorSchema v 0);
     scope \<leftarrow> exact (jsonMember fs (js ''scope'')) [js ''model'', js ''mode''];
     require (nullable (jsonMember scope (js ''model'')) (\<lambda>v. boundedText (Some v) 0 1024) \<noteq> None);
     require (nullable (jsonMember scope (js ''mode'')) (\<lambda>v. boundedText (Some v) 0 1024) \<noteq> None);
     prompt \<leftarrow> boundedText (jsonMember fs (js ''prompt'')) 0 524288;
     require (boundedText (jsonMember fs (js ''addressee'')) 0 1024 \<noteq> None);
     require (natural (jsonMember fs (js ''draw'')) \<noteq> None);
     Some (Question code editor prompt)
   }"

definition DECISION_FIELDS :: "jstr list" where
  "DECISION_FIELDS = [js ''version'', js ''id'', js ''revision'', js ''runId'', js ''profileId'',
     js ''generation'', js ''address'', js ''state'', js ''position'', js ''observedSequence'', js ''queue'', js ''kind'']"

definition parseDecision :: "json_value \<Rightarrow> decision_view option" where
  "parseDecision value = do {
     own \<leftarrow> (case value of JObj fs \<Rightarrow> Some fs | _ \<Rightarrow> None);
     kind \<leftarrow> oneOf (jsonMember own (js ''kind'')) [js ''question'', js ''recovery''];
     fs \<leftarrow> exact (Some value) (DECISION_FIELDS @
        (if kind = js ''question'' then [js ''question''] else [js ''gap'', js ''message'', js ''choices'']));
     require (versionOne fs);
     runId \<leftarrow> identifierOf (jsonMember fs (js ''runId''));
     require (resourceLink (jsonMember fs (js ''queue'')) = Some (js ''/v1/decisions?runId='' @ runId));
     position \<leftarrow> intOf (jsonMember fs (js ''position'')) INT64_MIN INT64_MAX;
     require (\<not> (position < 0 \<or> position > 2047));
     content \<leftarrow>
       (if kind = js ''question'' then parseQuestion (jsonMember fs (js ''question''))
        else do {
          gap \<leftarrow> boundedText (jsonMember fs (js ''gap'')) 0 4096;
          message \<leftarrow> boundedText (jsonMember fs (js ''message'')) 0 4096;
          choices \<leftarrow> listOf (jsonMember fs (js ''choices'')) parseRecoveryOption (Some 16);
          Some (Recovery gap message choices)
        });
     ident \<leftarrow> identifierOf (jsonMember fs (js ''id''));
     revision \<leftarrow> identifierOf (jsonMember fs (js ''revision''));
     profileId \<leftarrow> identifierOf (jsonMember fs (js ''profileId''));
     generation \<leftarrow> identifierOf (jsonMember fs (js ''generation''));
     occurrenceId \<leftarrow> occurrenceAddress (jsonMember fs (js ''address''));
     state \<leftarrow> oneOf (jsonMember fs (js ''state'')) DECISION_STATES;
     observedSequence \<leftarrow> uint64 (jsonMember fs (js ''observedSequence''));
     Some \<lparr>dc_id = ident, dc_revision = revision, dc_runId = runId, dc_profileId = profileId,
           dc_generation = generation, dc_occurrenceId = occurrenceId, dc_state = state, dc_position = position,
           dc_observedSequence = observedSequence, dc_content = content, dc_value = value\<rparr>
   }"

definition parseOffer :: "json_value \<Rightarrow> control_offer option" where
  "parseOffer value = do {
     fs \<leftarrow> exact (Some value) [js ''operation'', js ''address'', js ''generation'', js ''timings'', js ''choices'', js ''targets''];
     operation \<leftarrow> oneOf (jsonMember fs (js ''operation'')) OFFER_OPERATIONS;
     address \<leftarrow>
       (if operation = js ''steer'' then
          map_option (\<lambda>(occ, att). (occ, Some att)) (attemptAddress (jsonMember fs (js ''address'')))
        else map_option (\<lambda>occ. (occ, None)) (occurrenceAddress (jsonMember fs (js ''address''))));
     timings \<leftarrow> listOf (jsonMember fs (js ''timings''))
        (\<lambda>v. oneOf (Some v) [js ''interrupt-now'', js ''next-boundary'']) (Some 2);
     require (unique timings);
     generation \<leftarrow> nullable (jsonMember fs (js ''generation'')) (\<lambda>v. identifierOf (Some v));
     choices \<leftarrow> listOf (jsonMember fs (js ''choices'')) parseRecoveryOption (Some 16);
     targets \<leftarrow> listOf (jsonMember fs (js ''targets'')) (\<lambda>v. boundedText (Some v) 0 1024) (Some 256);
     Some \<lparr>of_operation = operation, of_occurrenceId = fst address, of_attemptId = snd address,
           of_generation = generation, of_timings = timings, of_choices = choices, of_targets = targets\<rparr>
   }"

definition parseControl :: "json_value \<Rightarrow> control_view option" where
  "parseControl value = do {
     fs \<leftarrow> exact (Some value) [js ''version'', js ''runId'', js ''revision'', js ''supervision'',
        js ''cancelAllowed'', js ''offers'', js ''decisionHeadId''];
     require (versionOne fs);
     runId \<leftarrow> identifierOf (jsonMember fs (js ''runId''));
     revision \<leftarrow> identifierOf (jsonMember fs (js ''revision''));
     supervision \<leftarrow> oneOf (jsonMember fs (js ''supervision'')) SUPERVISION_STATES;
     cancelAllowed \<leftarrow> boolOf (jsonMember fs (js ''cancelAllowed''));
     decisionHeadId \<leftarrow> nullable (jsonMember fs (js ''decisionHeadId'')) (\<lambda>v. identifierOf (Some v));
     offers \<leftarrow> listOf (jsonMember fs (js ''offers'')) parseOffer (Some 512);
     Some \<lparr>cv_runId = runId, cv_revision = revision, cv_supervision = supervision,
           cv_cancelAllowed = cancelAllowed, cv_decisionHeadId = decisionHeadId, cv_offers = offers, cv_value = value\<rparr>
   }"

definition decodeDecision :: "json_value \<Rightarrow> decision_view outcome" where
  "decodeDecision value = decided (parseDecision value)"

definition decodeControl :: "json_value \<Rightarrow> control_view outcome" where
  "decodeControl value = decided (parseControl value)"

end
