(* ===== verification/Runs.thy ===== *)
theory Runs
  imports Decisions Reviews
begin

text \<open>
  Runs, overview members and their projections (\<^verbatim>\<open>manager/resources.ts\<close>, after
  \<^verbatim>\<open>Agentic.Tui.Service\<close>): a run item is display data whose links must be those of its own
  identity, and a projection shows decoded fields, never the raw value.
\<close>

definition RUN_STATUSES :: "jstr list" where
  "RUN_STATUSES = [js ''starting'', js ''running'', js ''cancelling'', js ''succeeded'', js ''failed'',
     js ''cancelled'', js ''orphaned'']"

definition UNREADABLE_CATEGORIES :: "jstr list" where
  "UNREADABLE_CATEGORIES = [js ''manifest-unavailable'', js ''malformed-manifest'', js ''unsupported-manifest'']"

definition RUN_INTEGRITIES :: "jstr list" where
  "RUN_INTEGRITIES = [js ''valid'', js ''corrupt'', js ''incomplete'', js ''unknown'']"

definition RUN_LIMITATIONS :: "jstr list" where
  "RUN_LIMITATIONS = [js ''legacy'', js ''foreign-owner'', js ''corrupt-journal'', js ''incompatible-invocation'',
     js ''quarantined'', js ''lost-supervision'']"

definition UNAVAILABLE_REASONS :: "jstr list" where
  "UNAVAILABLE_REASONS = [js ''missing'', js ''corrupt'', js ''unsupported-version'', js ''size-limit'', js ''ownership-unavailable'']"

datatype verification_state =
  VAbsent
| VReferenced jstr
| VVerified jstr
| VUnavailable "jstr option" jstr

record run_runtime =
  rt_status :: jstr
  rt_lastSequence :: int
  rt_protocolVersion :: int

record known_run =
  kr_workflowId :: jstr
  kr_requestId :: "jstr option"
  kr_parentRunId :: "jstr option"
  kr_lineage :: "jstr option"
  kr_manifestVersion :: "int option"
  kr_runtime :: "run_runtime option"
  kr_supervision :: jstr
  kr_integrity :: jstr
  kr_verification :: verification_state
  kr_limitations :: "jstr list"

datatype run_content = Unreadable jstr | Known known_run

record run_item =
  rn_id :: jstr
  rn_revision :: jstr
  rn_profileId :: jstr
  rn_content :: run_content

datatype overview_member =
  MRequest draft_view
| MPreparation preparation
| MRun run_item
| MDecision decision_view

section \<open>Decoders\<close>

definition linksAgree :: "json_value option \<Rightarrow> (jstr \<times> jstr) list \<Rightarrow> bool" where
  "linksAgree value expected =
     (case exact value (map fst expected) of
        None \<Rightarrow> False
      | Some fs \<Rightarrow> list_all (\<lambda>(name, uri). resourceLink (jsonMember fs name) = Some uri) expected)"

definition parseVerification :: "json_value option \<Rightarrow> verification_state option" where
  "parseVerification value = do {
     own \<leftarrow> (case value of Some (JObj fs) \<Rightarrow> Some fs | _ \<Rightarrow> None);
     state \<leftarrow> oneOf (jsonMember own (js ''state'')) [js ''absent'', js ''referenced'', js ''verified'', js ''unavailable''];
     (if state = js ''absent'' then do { exact value [js ''state'']; Some VAbsent }
      else if state = js ''referenced'' \<or> state = js ''verified'' then do {
        exact value [js ''state'', js ''artifactId''];
        artifactId \<leftarrow> identifierOf (jsonMember own (js ''artifactId''));
        Some (if state = js ''referenced'' then VReferenced artifactId else VVerified artifactId)
      }
      else do {
        exact value [js ''state'', js ''artifactId'', js ''reason''];
        artifactId \<leftarrow> nullable (jsonMember own (js ''artifactId'')) (\<lambda>v. identifierOf (Some v));
        reason \<leftarrow> oneOf (jsonMember own (js ''reason'')) UNAVAILABLE_REASONS;
        Some (VUnavailable artifactId reason)
      })
   }"

definition parseRuntime :: "json_value \<Rightarrow> run_runtime option" where
  "parseRuntime value = do {
     fs \<leftarrow> exact (Some value) [js ''status'', js ''lastSequence'', js ''protocolVersion''];
     status \<leftarrow> oneOf (jsonMember fs (js ''status'')) RUN_STATUSES;
     lastSequence \<leftarrow> uint64 (jsonMember fs (js ''lastSequence''));
     protocolVersion \<leftarrow> intOf (jsonMember fs (js ''protocolVersion'')) INT64_MIN INT64_MAX;
     require (protocolVersion \<in> {1, 2, 3});
     Some \<lparr>rt_status = status, rt_lastSequence = lastSequence, rt_protocolVersion = protocolVersion\<rparr>
   }"

text \<open>The manifest version, \<^term>\<open>Some None\<close> for a legacy manifest.\<close>

definition parseManifest :: "json_value option \<Rightarrow> int option option" where
  "parseManifest value = do {
     own \<leftarrow> (case value of Some (JObj fs) \<Rightarrow> Some fs | _ \<Rightarrow> None);
     kind \<leftarrow> oneOf (jsonMember own (js ''kind'')) [js ''legacy'', js ''versioned''];
     (if kind = js ''legacy'' then do { exact value [js ''kind'']; Some None }
      else do {
        exact value [js ''kind'', js ''frontendManifestVersion''];
        version \<leftarrow> intOf (jsonMember own (js ''frontendManifestVersion'')) INT64_MIN INT64_MAX;
        require (version = 2 \<or> version = 3);
        Some (Some version)
      })
   }"

definition KNOWN_RUN_FIELDS :: "jstr list" where
  "KNOWN_RUN_FIELDS = [js ''version'', js ''id'', js ''revision'', js ''profileId'', js ''workflowId'',
     js ''requestId'', js ''parentRunId'', js ''lineage'', js ''manifest'', js ''runtime'', js ''supervision'',
     js ''integrity'', js ''verification'', js ''limitations'', js ''links'']"

definition run_links :: "jstr \<Rightarrow> (jstr \<times> jstr) list" where
  "run_links self = [(js ''self'', self), (js ''snapshot'', self @ js ''/snapshot''),
     (js ''control'', self @ js ''/control''), (js ''outputs'', self @ js ''/outputs''),
     (js ''exports'', self @ js ''/exports''), (js ''lineageRequests'', self @ js ''/lineage-requests'')]"

definition parseRunContent :: "json_members \<Rightarrow> jstr \<Rightarrow> run_content option" where
  "parseRunContent fs self =
     (if map_has fs (js ''kind'') then do {
        exact (Some (JObj fs)) [js ''version'', js ''kind'', js ''id'', js ''revision'', js ''profileId'', js ''category'', js ''links''];
        oneOf (jsonMember fs (js ''kind'')) [js ''unreadable-manifest''];
        require (linksAgree (jsonMember fs (js ''links'')) [(js ''self'', self)]);
        category \<leftarrow> oneOf (jsonMember fs (js ''category'')) UNREADABLE_CATEGORIES;
        Some (Unreadable category)
      }
      else do {
        exact (Some (JObj fs)) KNOWN_RUN_FIELDS;
        require (linksAgree (jsonMember fs (js ''links'')) (run_links self));
        workflowId \<leftarrow> identifierOf (jsonMember fs (js ''workflowId''));
        requestId \<leftarrow> nullable (jsonMember fs (js ''requestId'')) (\<lambda>v. identifierOf (Some v));
        parentRunId \<leftarrow> nullable (jsonMember fs (js ''parentRunId'')) (\<lambda>v. identifierOf (Some v));
        lineage \<leftarrow> nullable (jsonMember fs (js ''lineage'')) (\<lambda>v. oneOf (Some v) LINEAGE_OPERATIONS);
        manifestVersion \<leftarrow> parseManifest (jsonMember fs (js ''manifest''));
        runtime \<leftarrow> nullable (jsonMember fs (js ''runtime'')) parseRuntime;
        supervision \<leftarrow> oneOf (jsonMember fs (js ''supervision'')) SUPERVISION_STATES;
        integrity \<leftarrow> oneOf (jsonMember fs (js ''integrity'')) RUN_INTEGRITIES;
        verified \<leftarrow> parseVerification (jsonMember fs (js ''verification''));
        limitations \<leftarrow> listOf (jsonMember fs (js ''limitations'')) (\<lambda>v. oneOf (Some v) RUN_LIMITATIONS) (Some 6);
        require (unique limitations);
        Some (Known \<lparr>kr_workflowId = workflowId, kr_requestId = requestId, kr_parentRunId = parentRunId,
           kr_lineage = lineage, kr_manifestVersion = manifestVersion, kr_runtime = runtime,
           kr_supervision = supervision, kr_integrity = integrity, kr_verification = verified,
           kr_limitations = limitations\<rparr>)
      })"

definition parseRunItem :: "json_value \<Rightarrow> run_item option" where
  "parseRunItem value = do {
     fs \<leftarrow> (case value of JObj fs \<Rightarrow> Some fs | _ \<Rightarrow> None);
     require (versionOne fs);
     ident \<leftarrow> identifierOf (jsonMember fs (js ''id''));
     content \<leftarrow> parseRunContent fs (js ''/v1/runs/'' @ ident);
     revision \<leftarrow> identifierOf (jsonMember fs (js ''revision''));
     profileId \<leftarrow> identifierOf (jsonMember fs (js ''profileId''));
     Some \<lparr>rn_id = ident, rn_revision = revision, rn_profileId = profileId, rn_content = content\<rparr>
   }"

definition OVERVIEW_KINDS :: "jstr list" where
  "OVERVIEW_KINDS = [js ''request'', js ''preparation'', js ''run'', js ''decision'']"

definition parseOverviewMember :: "json_value \<Rightarrow> overview_member option" where
  "parseOverviewMember value = do {
     own \<leftarrow> (case value of JObj fs \<Rightarrow> Some fs | _ \<Rightarrow> None);
     kind \<leftarrow> oneOf (jsonMember own (js ''kind'')) OVERVIEW_KINDS;
     fs \<leftarrow> exact (Some value) [js ''kind'', kind];
     member \<leftarrow> jsonMember fs kind;
     (if kind = js ''request'' then map_option MRequest (parseDraftView member)
      else if kind = js ''preparation'' then map_option MPreparation (parsePreparation member)
      else if kind = js ''run'' then map_option MRun (parseRunItem member)
      else map_option MDecision (parseDecision member))
   }"

definition decodeRunItem :: "json_value \<Rightarrow> run_item outcome" where
  "decodeRunItem value = decided (parseRunItem value)"

definition decodeOverviewMember :: "json_value \<Rightarrow> overview_member outcome" where
  "decodeOverviewMember value = decided (parseOverviewMember value)"

section \<open>Projections\<close>

definition decimalText :: "int \<Rightarrow> jstr" where
  "decimalText value = int_text value"

definition integerNumber :: "int \<Rightarrow> json_value" where
  "integerNumber value = ofBigInt value"

definition choiceProjection :: "recovery_option \<Rightarrow> json_value" where
  "choiceProjection r = JObj [(js ''choice'', JStr (ro_choice r)), (js ''target'', text_or_null (ro_target r))]"

definition decisionProjection :: "decision_view \<Rightarrow> json_value" where
  "decisionProjection view =
     JObj [(js ''id'', JStr (dc_id view)), (js ''revision'', JStr (dc_revision view)), (js ''runId'', JStr (dc_runId view)),
           (js ''profileId'', JStr (dc_profileId view)), (js ''generation'', JStr (dc_generation view)),
           (js ''occurrenceId'', JStr (decimalText (dc_occurrenceId view))), (js ''state'', JStr (dc_state view)),
           (js ''position'', integerNumber (dc_position view)),
           (js ''observedSequence'', JStr (decimalText (dc_observedSequence view))),
           (js ''content'',
             (case dc_content view of
                Question code _ prompt \<Rightarrow>
                  JObj [(js ''kind'', JStr (js ''question'')), (js ''code'', code), (js ''prompt'', JStr prompt)]
              | Recovery gap message choices \<Rightarrow>
                  JObj [(js ''kind'', JStr (js ''recovery'')), (js ''gap'', JStr gap), (js ''message'', JStr message),
                        (js ''choices'', JArr (map choiceProjection choices))]))]"

definition offerProjection :: "control_offer \<Rightarrow> json_value" where
  "offerProjection f =
     JObj [(js ''operation'', JStr (of_operation f)), (js ''occurrenceId'', JStr (decimalText (of_occurrenceId f))),
           (js ''attemptId'', (case of_attemptId f of None \<Rightarrow> JNull | Some a \<Rightarrow> JStr (decimalText a))),
           (js ''generation'', text_or_null (of_generation f)), (js ''timings'', JArr (map JStr (of_timings f))),
           (js ''choices'', JArr (map choiceProjection (of_choices f))), (js ''targets'', JArr (map JStr (of_targets f)))]"

definition controlProjection :: "control_view \<Rightarrow> json_value" where
  "controlProjection view =
     JObj [(js ''runId'', JStr (cv_runId view)), (js ''revision'', JStr (cv_revision view)),
           (js ''supervision'', JStr (cv_supervision view)), (js ''cancelAllowed'', JBool (cv_cancelAllowed view)),
           (js ''decisionHeadId'', text_or_null (cv_decisionHeadId view)),
           (js ''offers'', JArr (map offerProjection (cv_offers view)))]"

definition verificationProjection :: "verification_state \<Rightarrow> json_value" where
  "verificationProjection v =
     (case v of
        VAbsent \<Rightarrow> JObj [(js ''state'', JStr (js ''absent''))]
      | VReferenced a \<Rightarrow> JObj [(js ''state'', JStr (js ''referenced'')), (js ''artifactId'', JStr a)]
      | VVerified a \<Rightarrow> JObj [(js ''state'', JStr (js ''verified'')), (js ''artifactId'', JStr a)]
      | VUnavailable a r \<Rightarrow>
          JObj [(js ''state'', JStr (js ''unavailable'')), (js ''artifactId'', text_or_null a), (js ''reason'', JStr r)])"

definition runProjection :: "run_item \<Rightarrow> json_value" where
  "runProjection item =
     JObj [(js ''id'', JStr (rn_id item)), (js ''revision'', JStr (rn_revision item)),
           (js ''profileId'', JStr (rn_profileId item)),
           (js ''content'',
             (case rn_content item of
                Unreadable category \<Rightarrow>
                  JObj [(js ''kind'', JStr (js ''unreadable'')), (js ''category'', JStr category)]
              | Known c \<Rightarrow>
                  JObj [(js ''kind'', JStr (js ''known'')), (js ''workflowId'', JStr (kr_workflowId c)),
                        (js ''requestId'', text_or_null (kr_requestId c)), (js ''parentRunId'', text_or_null (kr_parentRunId c)),
                        (js ''lineage'', text_or_null (kr_lineage c)),
                        (js ''manifestVersion'', (case kr_manifestVersion c of None \<Rightarrow> JNull | Some n \<Rightarrow> integerNumber n)),
                        (js ''runtime'',
                          (case kr_runtime c of
                             None \<Rightarrow> JNull
                           | Some r \<Rightarrow>
                               JObj [(js ''status'', JStr (rt_status r)),
                                     (js ''lastSequence'', JStr (decimalText (rt_lastSequence r))),
                                     (js ''protocolVersion'', integerNumber (rt_protocolVersion r))])),
                        (js ''supervision'', JStr (kr_supervision c)), (js ''integrity'', JStr (kr_integrity c)),
                        (js ''verification'', verificationProjection (kr_verification c)),
                        (js ''limitations'', JArr (map JStr (kr_limitations c)))]))]"

definition memberProjection :: "overview_member \<Rightarrow> json_value" where
  "memberProjection m =
     (case m of
        MRequest d \<Rightarrow> JObj [(js ''kind'', JStr (js ''request'')), (js ''request'', encodeDraftView d)]
      | MPreparation p \<Rightarrow> JObj [(js ''kind'', JStr (js ''preparation'')), (js ''preparation'', encodePreparation p)]
      | MRun r \<Rightarrow> JObj [(js ''kind'', JStr (js ''run'')), (js ''run'', runProjection r)]
      | MDecision d \<Rightarrow> JObj [(js ''kind'', JStr (js ''decision'')), (js ''decision'', decisionProjection d)])"

section \<open>Facts of decoded runs\<close>

lemma identifierOf_Some [reads]: "identifierOf m = Some s \<longleftrightarrow> m = Some (JStr s) \<and> validId s"
  by (auto simp: identifierOf_def split: option.splits json.splits)

lemma resourceLink_Some: "resourceLink m = Some s \<longleftrightarrow> m = Some (JStr s) \<and> bounded s 4 8192
    \<and> starts_with s (js ''/v1/'') \<and> list_all resource_unit s"
  by (auto simp: resourceLink_def split: option.splits json.splits)

text \<open>A decoded run states the links of its own identity and no other.\<close>

lemma parseRunItem_links:
  assumes "parseRunItem v = Some r"
  obtains fs ls where "v = JObj fs" "validId (rn_id r)" "map_of fs (js ''links'') = Some (JObj ls)"
    "\<forall>(name, uri) \<in> set (case rn_content r of Unreadable _ \<Rightarrow> [(js ''self'', js ''/v1/runs/'' @ rn_id r)]
        | Known _ \<Rightarrow> run_links (js ''/v1/runs/'' @ rn_id r)). map_of ls name = Some (JStr uri)"
    "length ls = (case rn_content r of Unreadable _ \<Rightarrow> 1 | Known _ \<Rightarrow> 6)"
proof -
  obtain fs c where v: "v = JObj fs" "validId (rn_id r)" "parseRunContent fs (js ''/v1/runs/'' @ rn_id r) = Some c"
      "rn_content r = c"
    using assms unfolding parseRunItem_def
    by (elim bind_Some_elim) (auto simp: identifierOf_Some split: json.splits)
  let ?self = "js ''/v1/runs/'' @ rn_id r"
  let ?links = "case c of Unreadable _ \<Rightarrow> [(js ''self'', ?self)] | Known _ \<Rightarrow> run_links ?self"
  have "linksAgree (jsonMember fs (js ''links'')) ?links"
    using v(3) unfolding parseRunContent_def by (auto elim!: bind_Some_elim split: if_splits)
  then obtain ls where ls: "jsonMember fs (js ''links'') = Some (JObj ls)" "length ls = length ?links"
      "list_all (\<lambda>(name, uri). resourceLink (jsonMember ls name) = Some uri) ?links"
    by (auto simp: linksAgree_def exact_Some split: option.splits)
  show ?thesis
    by (rule that [of fs ls])
      (use v ls in \<open>auto simp: jsonMember_def list_all_iff resourceLink_Some run_links_def split: run_content.splits\<close>)
qed

end
