(* ===== verification/Answers.thy ===== *)
theory Answers
  imports Runs
begin

text \<open>
  Typed answers (\<^verbatim>\<open>manager/resources.ts\<close>): the JSON value of the operator's text for a question,
  the check against an editor schema, the body of an answer, and the text that a run snapshot
  stores for it.
\<close>

text \<open>The left side is the reason of the failure \<^verbatim>\<open>InvalidAnswer\<close>.\<close>

type_synonym answer_outcome = "jstr + json_value"

definition refuseAnswer :: "jstr \<Rightarrow> answer_outcome" where
  "refuseAnswer reason = Inl reason"

section \<open>Text answers\<close>

definition is_white :: "unit16 \<Rightarrow> bool" where
  "is_white c \<longleftrightarrow> (9 \<le> c \<and> c \<le> 13) \<or> c = 32 \<or> c = 0xA0 \<or> c = 0x1680 \<or> (0x2000 \<le> c \<and> c \<le> 0x200A)
     \<or> c = 0x202F \<or> c = 0x205F \<or> c = 0x3000"

definition trim :: "(unit16 \<Rightarrow> bool) \<Rightarrow> jstr \<Rightarrow> jstr" where
  "trim p s = rev (dropWhile p (rev (dropWhile p s)))"

definition strip :: "jstr \<Rightarrow> jstr" where
  "strip input = trim is_white input"

definition PERSON_ANSWER_BYTES :: nat where
  "PERSON_ANSWER_BYTES = 1024 * 1024"

definition jsonAnswer :: "jstr \<Rightarrow> answer_outcome" where
  "jsonAnswer input =
     (if byteLength input > PERSON_ANSWER_BYTES
      then refuseAnswer (js ''person answer exceeds '' @ dec PERSON_ANSWER_BYTES @ js '' UTF-8 bytes'')
      else
        (case tryParseJson input of
           None \<Rightarrow> refuseAnswer (js ''answer is not JSON'')
         | Some v \<Rightarrow> Inr v))"

text \<open>
  \<^verbatim>\<open>toUpperCase().toLowerCase()\<close> on the letters of the flag words. Outside ASCII only the long s,
  whose upper case is S, becomes one of their letters.
\<close>

definition fold_unit :: "unit16 \<Rightarrow> unit16" where
  "fold_unit c = (if 65 \<le> c \<and> c \<le> 90 then c + 32 else if c = 0x17F then 115 else c)"

definition personAnswerValue :: "jstr \<Rightarrow> jstr \<Rightarrow> answer_outcome" where
  "personAnswerValue code input =
     (if code = js ''text'' then Inr (JStr input)
      else if code = js ''flag'' then
        (let word = map fold_unit (strip input) in
         if word = js ''y'' \<or> word = js ''yes'' \<or> word = js ''true'' then Inr (JBool True)
         else if word = js ''n'' \<or> word = js ''no'' \<or> word = js ''false'' then Inr (JBool False)
         else refuseAnswer (js ''a flag answer must be yes, no, true, or false''))
      else if code = js ''receipt'' then
        (if strip input = [] then Inr JNull else refuseAnswer (js ''a receipt answer must be empty''))
      else if code = js ''verdict'' then jsonAnswer input
      else refuseAnswer (js ''unsupported person answer code '' @ code))"

section \<open>The editor schema\<close>

definition editorNoun :: "editor_schema \<Rightarrow> jstr" where
  "editorNoun schema =
     (case schema of
        EPrimitive t \<Rightarrow>
          if t = js ''null'' then js ''null'' else if t = js ''boolean'' then js ''a boolean''
          else if t = js ''integer'' then js ''an integer'' else if t = js ''number'' then js ''a number''
          else js ''a string''
      | EArray _ \<Rightarrow> js ''an array''
      | EObject _ \<Rightarrow> js ''an object'')"

fun first_some :: "'a option list \<Rightarrow> 'a option" where
  "first_some [] = None"
| "first_some (Some x # xs) = Some x"
| "first_some (None # xs) = first_some xs"

definition primitive_agrees :: "jstr \<Rightarrow> json_value \<Rightarrow> bool" where
  "primitive_agrees t value =
     (if t = js ''null'' then value = JNull
      else if t = js ''boolean'' then (case value of JBool _ \<Rightarrow> True | _ \<Rightarrow> False)
      else if t = js ''integer'' then
        (case value of JNum n \<Rightarrow> (case decimalOf n of Some d \<Rightarrow> exponent d \<ge> 0 | None \<Rightarrow> False) | _ \<Rightarrow> False)
      else if t = js ''number'' then (case value of JNum _ \<Rightarrow> True | _ \<Rightarrow> False)
      else (case value of JStr _ \<Rightarrow> True | _ \<Rightarrow> False))"

fun editorCheck :: "editor_schema \<Rightarrow> json_value \<Rightarrow> jstr \<Rightarrow> jstr option" where
  "editorCheck (EPrimitive t) value place =
     (if primitive_agrees t value then None else Some (place @ js '' must be '' @ editorNoun (EPrimitive t)))"
| "editorCheck (EArray items) value place =
     (case value of
        JArr vs \<Rightarrow> first_some (map (\<lambda>(i, v). editorCheck items v (place @ js '' item '' @ dec i)) (enumerate 0 vs))
      | _ \<Rightarrow> Some (place @ js '' must be '' @ editorNoun (EArray items)))"
| "editorCheck (EObject properties) value place =
     (case value of
        JObj fs \<Rightarrow>
          (case List.find (\<lambda>name. \<not> map_has fs name) (map fst properties) of
             Some lacking \<Rightarrow> Some (place @ js '' lacks the field '' @ lacking)
           | None \<Rightarrow>
               (case List.find (\<lambda>name. name \<notin> set (map fst properties)) (sort (map fst fs)) of
                  Some unknown \<Rightarrow> Some (place @ js '' has the unknown field '' @ unknown)
                | None \<Rightarrow>
                    first_some (map (\<lambda>(name, field).
                      case map_of fs name of
                        None \<Rightarrow> None
                      | Some v \<Rightarrow> editorCheck field v (place @ js '' field '' @ name)) properties)))
      | _ \<Rightarrow> Some (place @ js '' must be '' @ editorNoun (EObject properties)))"

section \<open>Answers of a decision\<close>

definition answerValue :: "decision_view \<Rightarrow> jstr \<Rightarrow> answer_outcome" where
  "answerValue decision input =
     (case dc_content decision of
        Recovery _ _ _ \<Rightarrow> refuseAnswer (js ''a recovery decision takes no answer'')
      | Question code editor _ \<Rightarrow>
          (case code of
             JStr c \<Rightarrow> personAnswerValue c input
           | _ \<Rightarrow>
               (case editor of
                  None \<Rightarrow> refuseAnswer (js ''the decision gives no editor schema for its structured answer'')
                | Some schema \<Rightarrow>
                    (case jsonAnswer input of
                       Inl reason \<Rightarrow> Inl reason
                     | Inr v \<Rightarrow>
                         (case editorCheck schema v (js ''answer'') of
                            None \<Rightarrow> Inr v
                          | Some problem \<Rightarrow> refuseAnswer problem)))))"

definition answerBody :: "decision_view \<Rightarrow> json_value \<Rightarrow> json_members" where
  "answerBody decision value =
     [(js ''operation'', JStr (js ''answer'')), (js ''occurrenceId'', JStr (decimalText (dc_occurrenceId decision))),
      (js ''generation'', JStr (dc_generation decision)), (js ''value'', value)]"

section \<open>Stored answers\<close>

definition STORED_ANSWER_CHARACTERS :: nat where
  "STORED_ANSWER_CHARACTERS = 500"

definition ascii_blank :: "unit16 \<Rightarrow> bool" where
  "ascii_blank c \<longleftrightarrow> c = 32 \<or> c = 9 \<or> c = 13"

definition storedWhole :: "jstr \<Rightarrow> bool" where
  "storedWhole text \<longleftrightarrow>
     10 \<notin> set text \<and> trim ascii_blank text = text \<and> length (code_points text) \<le> STORED_ANSWER_CHARACTERS"

definition objection_text :: "json_value \<Rightarrow> jstr option" where
  "objection_text item =
     (case item of JStr s \<Rightarrow> if s \<noteq> [] \<and> 59 \<notin> set s \<and> storedWhole s then Some s else None | _ \<Rightarrow> None)"

definition verdict_text :: "json_value \<Rightarrow> jstr option" where
  "verdict_text value =
     (case value of
        JObj fs \<Rightarrow>
          (let tag = jsonMember fs (js ''tag''); objections = jsonMember fs (js ''objections'') in
           if length fs = 1 \<and> tag = Some (JStr (js ''approve'')) then Some (js ''approve'')
           else if length fs = 1 \<and> tag = Some (JStr (js ''declined'')) then Some (js ''declined'')
           else if tag \<noteq> Some (JStr (js ''object'')) \<or> length fs \<noteq> 2 then None
           else
             (case objections of
                Some (JArr items) \<Rightarrow>
                  if items = [] then None
                  else
                    (let texts = List.map_filter objection_text items;
                         joined = join (js ''; '') texts in
                     if length texts = length items \<and> storedWhole joined
                        \<and> joined \<noteq> js ''approve'' \<and> joined \<noteq> js ''declined''
                     then Some joined else None)
              | _ \<Rightarrow> None))
      | _ \<Rightarrow> None)"

definition storedAnswerText :: "decision_view \<Rightarrow> json_value \<Rightarrow> jstr option" where
  "storedAnswerText decision value =
     (case dc_content decision of
        Question (JStr code) _ _ \<Rightarrow>
          if code = js ''flag'' then (case value of JBool b \<Rightarrow> Some (if b then js ''yes'' else js ''no'') | _ \<Rightarrow> None)
          else if code = js ''receipt'' then (if value = JNull then Some (js ''done'') else None)
          else if code = js ''text'' then (case value of JStr s \<Rightarrow> if storedWhole s then Some s else None | _ \<Rightarrow> None)
          else if code = js ''verdict'' then verdict_text value
          else None
      | _ \<Rightarrow> None)"

section \<open>What a checked answer is\<close>

fun conforms :: "editor_schema \<Rightarrow> json_value \<Rightarrow> bool" where
  "conforms (EPrimitive t) value =
     (if t = js ''null'' then value = JNull
      else if t = js ''boolean'' then (\<exists>b. value = JBool b)
      else if t = js ''integer'' then (\<exists>n i. value = JNum n \<and> number_grammar n \<and> number_value n = of_int i)
      else if t = js ''number'' then (\<exists>n. value = JNum n)
      else (\<exists>s. value = JStr s))"
| "conforms (EArray items) value \<longleftrightarrow> (\<exists>vs. value = JArr vs \<and> (\<forall>v \<in> set vs. conforms items v))"
| "conforms (EObject properties) value \<longleftrightarrow>
     (\<exists>fs. value = JObj fs \<and> fst ` set fs = fst ` set properties
        \<and> (\<forall>(name, field) \<in> set properties. \<forall>v. map_of fs name = Some v \<longrightarrow> conforms field v))"

lemma integer_exponent:
  assumes "decimalOf n = Some d"
  shows "exponent d \<ge> 0 \<longleftrightarrow> (\<exists>i. number_value n = of_int i)"
proof
  assume e: "exponent d \<ge> 0"
  have "10 powi exponent d = (of_int (10 ^ nat (exponent d)) :: rat)"
    using e by (simp add: power_int_def)
  then have "number_value n = of_int ((if negative d then -1 else 1) * int (digits_val (digits d)) * 10 ^ nat (exponent d))"
    using decimalOf_Some(2) [OF assms] by (cases "negative d") (simp_all add: decimal_value_def)
  then show "\<exists>i. number_value n = of_int i" by blast
next
  assume "\<exists>i. number_value n = of_int i"
  then obtain i where "number_value n = of_int i" by blast
  then have "boundedInteger n i i = Some i"
    using boundedInteger_exact [OF decimalOf_Some(3) [OF assms], of i i i] by simp
  then show "exponent d \<ge> 0" using assms by (simp add: boundedInteger_def split: if_splits)
qed

lemma primitive_agrees_iff: "primitive_agrees t v \<longleftrightarrow> conforms (EPrimitive t) v"
proof -
  have "(case decimalOf n of Some d \<Rightarrow> exponent d \<ge> 0 | None \<Rightarrow> False) \<longleftrightarrow>
      number_grammar n \<and> (\<exists>i. number_value n = of_int i)" for n
  proof (cases "decimalOf n")
    case None
    then have "\<not> number_grammar n" using decimalOf_grammar by fastforce
    with None show ?thesis by simp
  next
    case (Some d)
    then show ?thesis using integer_exponent decimalOf_Some(3) by simp
  qed
  then show ?thesis by (cases v) (auto simp: primitive_agrees_def)
qed

lemma first_some_None: "first_some xs = None \<longleftrightarrow> (\<forall>x \<in> set xs. x = None)"
  by (induction xs rule: first_some.induct) auto

lemma enumerate_values: "(\<forall>(i, v) \<in> set (enumerate n vs). P v) \<longleftrightarrow> (\<forall>v \<in> set vs. P v)"
  by (induction vs arbitrary: n) auto

lemma editorCheck_iff: "editorCheck schema v place = None \<longleftrightarrow> conforms schema v"
proof (induction schema arbitrary: v place)
  case (EPrimitive t)
  then show ?case by (simp add: primitive_agrees_iff del: conforms.simps)
next
  case (EArray items)
  show ?case
  proof (cases v)
    case (JArr vs)
    have "editorCheck (EArray items) v place = None \<longleftrightarrow>
        (\<forall>(i, w) \<in> set (enumerate 0 vs). editorCheck items w (place @ js '' item '' @ dec i) = None)"
      by (force simp: JArr first_some_None)
    also have "\<dots> \<longleftrightarrow> (\<forall>(i, w) \<in> set (enumerate 0 vs). conforms items w)" by (simp add: EArray.IH)
    also have "\<dots> \<longleftrightarrow> (\<forall>w \<in> set vs. conforms items w)" by (rule enumerate_values)
    finally show ?thesis by (simp add: JArr)
  qed simp_all
next
  case (EObject properties)
  show ?case
  proof (cases v)
    case (JObj fs)
    have keys: "(List.find (\<lambda>name. \<not> map_has fs name) (map fst properties) = None
        \<and> List.find (\<lambda>name. name \<notin> set (map fst properties)) (sort (map fst fs)) = None)
      \<longleftrightarrow> fst ` set fs = fst ` set properties"
      unfolding find_None_iff by (auto simp: map_of_eq_None_iff; blast)
    have checks: "(case map_of fs name of None \<Rightarrow> None | Some w \<Rightarrow> editorCheck field w (place @ js '' field '' @ name)) = None
        \<longleftrightarrow> (\<forall>w. map_of fs name = Some w \<longrightarrow> conforms field w)" if "(name, field) \<in> set properties" for name field
      using EObject.IH [OF that, of field] by (auto split: option.split)
    have "editorCheck (EObject properties) v place = None \<longleftrightarrow>
        fst ` set fs = fst ` set properties \<and>
        (\<forall>(name, field) \<in> set properties.
          (case map_of fs name of None \<Rightarrow> None | Some w \<Rightarrow> editorCheck field w (place @ js '' field '' @ name)) = None)"
      unfolding keys [symmetric] by (auto simp: JObj first_some_None split: option.split)
    also have "\<dots> \<longleftrightarrow> fst ` set fs = fst ` set properties \<and>
        (\<forall>(name, field) \<in> set properties. \<forall>w. map_of fs name = Some w \<longrightarrow> conforms field w)"
      using checks by (auto split: prod.splits)
    finally show ?thesis by (simp add: JObj)
  qed simp_all
qed


section \<open>A stored text names its answer\<close>

lemma split_unique: "x \<notin> set a \<Longrightarrow> x \<notin> set b \<Longrightarrow> a @ x # s = b @ x # t \<Longrightarrow> a = b \<and> s = t"
proof (induction a arbitrary: b)
  case Nil
  then show ?case by (cases b) auto
next
  case (Cons y a)
  then show ?case by (cases b) auto
qed

lemma objection_Some:
  "objection_text v = Some s \<longleftrightarrow> v = JStr s \<and> s \<noteq> [] \<and> 59 \<notin> set s \<and> storedWhole s"
  by (auto simp: objection_text_def split: json.splits)

lemma join_objections_inject:
  "list_all (\<lambda>s. 59 \<notin> set s) xs \<Longrightarrow> list_all (\<lambda>s. 59 \<notin> set s) ys \<Longrightarrow> xs \<noteq> [] \<Longrightarrow> ys \<noteq> [] \<Longrightarrow>
   join (js ''; '') xs = join (js ''; '') ys \<Longrightarrow> xs = ys"
proof (induction xs arbitrary: ys)
  case (Cons a xs)
  obtain b ys' where ys: "ys = b # ys'" using Cons.prems(4) by (cases ys) auto
  have sep: "js ''; '' = [59, 32]" by (simp add: js_def)
  have free: "59 \<notin> set a" "59 \<notin> set b" using Cons.prems ys by auto
  have split: "a @ 59 # s = b @ 59 # t \<Longrightarrow> a = b \<and> s = t" for s t
    using split_unique [OF free] by blast
  have none: "59 \<in> set (c @ 59 # s)" for c s by simp
  show ?case
  proof (cases xs; cases ys')
    assume "xs = []" "ys' = []"
    with Cons.prems(5) ys show ?thesis by simp
  next
    fix c zs assume "xs = []" "ys' = c # zs"
    with Cons.prems(5) ys have "a = b @ 59 # 32 # join (js ''; '') ys'" by (simp add: sep)
    with free show ?thesis by simp
  next
    fix c zs assume "xs = c # zs" "ys' = []"
    with Cons.prems(5) ys have "b = a @ 59 # 32 # join (js ''; '') xs" by (simp add: sep)
    with free show ?thesis by simp
  next
    fix c zs d ws assume l: "xs = c # zs" "ys' = d # ws"
    with Cons.prems(5) ys have "a @ 59 # 32 # join (js ''; '') xs = b @ 59 # 32 # join (js ''; '') ys'" by (simp add: sep)
    then have "a = b" "join (js ''; '') xs = join (js ''; '') ys'" using split by auto
    moreover have "xs = ys'"
      by (rule Cons.IH) (use Cons.prems l ys calculation in simp_all)
    ultimately show ?thesis using ys by simp
  qed
qed simp

lemma map_filter_full: "length (List.map_filter f xs) = length xs \<Longrightarrow> map f xs = map Some (List.map_filter f xs)"
proof (induction xs)
  case (Cons x xs)
  have "length (List.map_filter f xs) \<le> length xs" by (simp add: List.map_filter_def)
  with Cons show ?case by (cases "f x") (auto simp: List.map_filter_def)
qed (simp add: List.map_filter_def)

lemma objections_texts:
  assumes "length (List.map_filter objection_text items) = length items"
  shows "items = map JStr (List.map_filter objection_text items)"
    and "list_all (\<lambda>s. 59 \<notin> set s) (List.map_filter objection_text items)"
proof -
  let ?ts = "List.map_filter objection_text items"
  have each: "objection_text (items ! i) = Some (?ts ! i)" if "i < length items" for i
    using map_filter_full [OF assms] that assms by (metis nth_map)
  show "items = map JStr ?ts"
    using each assms by (intro nth_equalityI) (auto simp: objection_Some)
  show "list_all (\<lambda>s. 59 \<notin> set s) ?ts"
    using each assms by (auto simp: list_all_length objection_Some)
qed

text \<open>The three shapes of a verdict that is stored exactly.\<close>

lemma verdict_text_shapes:
  assumes "verdict_text v = Some t"
  obtains "v = JObj [(js ''tag'', JStr t)]" "t = js ''approve'' \<or> t = js ''declined''"
  | fs ts where "v = JObj fs" "length fs = 2" "map_of fs (js ''tag'') = Some (JStr (js ''object''))"
      "map_of fs (js ''objections'') = Some (JArr (map JStr ts))" "ts \<noteq> []" "list_all (\<lambda>s. 59 \<notin> set s) ts"
      "t = join (js ''; '') ts" "t \<noteq> js ''approve''" "t \<noteq> js ''declined''"
proof -
  obtain fs where v: "v = JObj fs" using assms by (auto simp: verdict_text_def split: json.splits)
  show ?thesis
  proof (cases "length fs = 1 \<and> (map_of fs (js ''tag'') = Some (JStr (js ''approve'')) \<or> map_of fs (js ''tag'') = Some (JStr (js ''declined'')))")
    case True
    then obtain k w where fs: "fs = [(k, w)]" by (cases fs) auto
    with True assms v have "v = JObj [(js ''tag'', JStr t)]" "t = js ''approve'' \<or> t = js ''declined''"
      by (auto simp: verdict_text_def jsonMember_def split: if_splits)
    then show ?thesis by (rule that(1))
  next
    case False
    then obtain items where m: "map_of fs (js ''tag'') = Some (JStr (js ''object''))" "length fs = 2"
        "map_of fs (js ''objections'') = Some (JArr items)" "items \<noteq> []"
        "length (List.map_filter objection_text items) = length items"
        "t = join (js ''; '') (List.map_filter objection_text items)" "t \<noteq> js ''approve''" "t \<noteq> js ''declined''"
      using assms v
      by (auto simp: verdict_text_def jsonMember_def Let_def split: if_splits option.splits json.splits)
    then show ?thesis using objections_texts [OF m(5)] v
      by (intro that(2) [of fs "List.map_filter objection_text items"]) auto
  qed
qed

lemma two_members:
  assumes "length fs = 2" "length gs = 2" "distinct (map fst gs)" "k \<noteq> l"
    and "map_of fs k = Some x" "map_of gs k = Some x" "map_of fs l = Some y" "map_of gs l = Some y"
    and "jsonEqual x x" "jsonEqual y y"
  shows "jsonEqual (JObj fs) (JObj gs)"
proof -
  obtain a b where fs: "fs = [a, b]" using assms(1) by (auto simp: length_Suc_conv numeral_2_eq_2)
  then have "(a = (k, x) \<and> b = (l, y)) \<or> (a = (l, y) \<and> b = (k, x))"
    using assms(4,5,7) by (cases a; cases b) (auto split: if_splits)
  then show ?thesis using fs assms by auto
qed

lemma verdict_text_inject:
  assumes "verdict_text v = Some t" "verdict_text w = Some t" "wf_json v" "wf_json w"
  shows "jsonEqual v w"
  using assms(1)
proof (cases rule: verdict_text_shapes)
  case v: 1
  from assms(2) show ?thesis by (cases rule: verdict_text_shapes) (use v in auto)
next
  case v: (2 fs ts)
  from assms(2) show ?thesis
  proof (cases rule: verdict_text_shapes)
    case 1
    with v show ?thesis by auto
  next
    case w: (2 gs us)
    have "ts = us" using join_objections_inject [of ts us] v w by simp
    with v w assms(4) show ?thesis
      by (auto simp del: jsonEqual.simps intro!: two_members [where k = "js ''tag''" and l = "js ''objections''"])
  qed
qed

lemma storedAnswerText_inject:
  assumes "storedAnswerText d v = Some t" "storedAnswerText d w = Some t" "wf_json v" "wf_json w"
  shows "jsonEqual v w"
proof -
  obtain code e p where c: "dc_content d = Question (JStr code) e p"
    using assms(1) by (auto simp: storedAnswerText_def split: decision_content.splits json.splits)
  show ?thesis
  proof (cases "code = js ''verdict''")
    case True
    with assms c show ?thesis by (auto simp: storedAnswerText_def intro: verdict_text_inject)
  next
    case False
    with assms c have "v = w"
      by (auto simp: storedAnswerText_def split: json.splits if_splits)
    with assms(3) show ?thesis by (simp add: jsonEqual_refl)
  qed
qed

section \<open>Fork replacements\<close>

definition forkReplacementValue :: "jstr \<Rightarrow> jstr \<Rightarrow> answer_outcome" where
  "forkReplacementValue code input =
     (if code = js ''ack'' then personAnswerValue (js ''receipt'') input
      else if code = js ''structured'' then jsonAnswer input
      else personAnswerValue code input)"

end
