(* ===== verification/Exports.thy ===== *)
theory Exports
  imports Answers DraftLaws
begin

text \<open>
  Exports and lineage requests of a run (\<^verbatim>\<open>manager/resources.ts\<close>): the receipts of exported
  documents, the operations that a parent run still admits, and the body of a lineage request
  with the edits of a fork in occurrence order.
\<close>

definition EXPORT_STATES :: "jstr list" where
  "EXPORT_STATES = [js ''published'', js ''unresolved'']"

definition EXPORT_BYTES :: int where
  "EXPORT_BYTES = 67108864"

record export_receipt =
  ex_id :: jstr
  ex_runId :: jstr
  ex_commandId :: jstr
  ex_name :: jstr
  ex_code :: json_value
  ex_state :: jstr
  ex_sha256 :: "jstr option"
  ex_bytes :: "int option"
  ex_download :: "jstr option"

record export_collection =
  xc_runId :: jstr
  xc_revision :: jstr
  xc_items :: "export_receipt list"

definition LINEAGE_REFUSALS :: "jstr list" where
  "LINEAGE_REFUSALS = [js ''incompatible-parent'', js ''ownership-unavailable'', js ''quarantined'', js ''unsupported-operation'']"

record lineage_collection =
  lc_runId :: jstr
  lc_revision :: jstr
  lc_eligible :: "jstr list"
  lc_refusal :: "jstr option"
  lc_children :: "draft_view list"

datatype fork_edit = ForkDrop (fork_occurrence: int) | ForkReplace (fork_occurrence: int) json_value

section \<open>Decoders\<close>

definition export_unit :: "unit16 \<Rightarrow> bool" where
  "export_unit c \<longleftrightarrow> is_letter c \<or> is_digit c \<or> c = 46 \<or> c = 95 \<or> c = 45"

definition exportNameValid :: "jstr \<Rightarrow> bool" where
  "exportNameValid name \<longleftrightarrow>
     (case name of
        [] \<Rightarrow> False
      | c # r \<Rightarrow> (is_letter c \<or> is_digit c) \<and> length r \<le> 127 \<and> list_all export_unit r)"

definition pageRevision :: "json_members \<Rightarrow> jstr option" where
  "pageRevision fs =
     (case jsonMember fs (js ''page'') of
        Some (JObj page) \<Rightarrow> boundedText (jsonMember page (js ''revision'')) 1 256
      | _ \<Rightarrow> None)"

definition digest_text :: "json_value \<Rightarrow> jstr option" where
  "digest_text item = (case item of JStr s \<Rightarrow> if validDigest s then Some s else None | _ \<Rightarrow> None)"

definition export_size :: "json_value \<Rightarrow> int option" where
  "export_size item =
     (case word64Text (Some item) of None \<Rightarrow> None | Some n \<Rightarrow> if n \<le> EXPORT_BYTES then Some n else None)"

definition parseExportReceipt :: "json_value \<Rightarrow> export_receipt option" where
  "parseExportReceipt value = do {
     fs \<leftarrow> exact (Some value) [js ''version'', js ''id'', js ''runId'', js ''commandId'', js ''name'',
        js ''code'', js ''state'', js ''sha256'', js ''bytes'', js ''download''];
     require (versionOne fs);
     ident \<leftarrow> identifierOf (jsonMember fs (js ''id''));
     runId \<leftarrow> identifierOf (jsonMember fs (js ''runId''));
     commandId \<leftarrow> identifierOf (jsonMember fs (js ''commandId''));
     name \<leftarrow> textOf (jsonMember fs (js ''name''));
     require (exportNameValid name);
     code \<leftarrow> observationCode (jsonMember fs (js ''code'')) DECISION_DEPTH;
     state \<leftarrow> oneOf (jsonMember fs (js ''state'')) EXPORT_STATES;
     sha256 \<leftarrow> nullable (jsonMember fs (js ''sha256'')) digest_text;
     bytes \<leftarrow> nullable (jsonMember fs (js ''bytes'')) export_size;
     download \<leftarrow> nullable (jsonMember fs (js ''download'')) (\<lambda>v. resourceLink (Some v));
     Some \<lparr>ex_id = ident, ex_runId = runId, ex_commandId = commandId, ex_name = name, ex_code = code,
           ex_state = state, ex_sha256 = sha256, ex_bytes = bytes, ex_download = download\<rparr>
   }"

definition decodeExportReceipt :: "json_value \<Rightarrow> export_receipt outcome" where
  "decodeExportReceipt value = decided (parseExportReceipt value)"

definition parseExportCollection :: "json_value \<Rightarrow> export_collection option" where
  "parseExportCollection value = do {
     fs \<leftarrow> exact (Some value) [js ''version'', js ''page'', js ''items'', js ''runId''];
     require (versionOne fs);
     runId \<leftarrow> identifierOf (jsonMember fs (js ''runId''));
     revision \<leftarrow> pageRevision fs;
     items \<leftarrow> listOf (jsonMember fs (js ''items'')) parseExportReceipt (Some 256);
     require (unique (map ex_id items));
     require (list_all (\<lambda>item. ex_runId item = runId) items);
     Some \<lparr>xc_runId = runId, xc_revision = revision, xc_items = items\<rparr>
   }"

definition decodeExportCollection :: "json_value \<Rightarrow> export_collection outcome" where
  "decodeExportCollection value = decided (parseExportCollection value)"

definition parseLineageCollection :: "json_value \<Rightarrow> lineage_collection option" where
  "parseLineageCollection value = do {
     fs \<leftarrow> exact (Some value) [js ''version'', js ''page'', js ''items'', js ''runId'', js ''eligible'', js ''refusal''];
     require (versionOne fs);
     runId \<leftarrow> identifierOf (jsonMember fs (js ''runId''));
     revision \<leftarrow> pageRevision fs;
     eligible \<leftarrow> listOf (jsonMember fs (js ''eligible'')) (\<lambda>v. oneOf (Some v) LINEAGE_OPERATIONS) (Some 3);
     require (unique eligible);
     refusal \<leftarrow> nullable (jsonMember fs (js ''refusal'')) (\<lambda>v. oneOf (Some v) LINEAGE_REFUSALS);
     require (\<not> ((eligible = []) \<noteq> (refusal \<noteq> None)));
     children \<leftarrow> listOf (jsonMember fs (js ''items'')) parseDraftView (Some 256);
     require (unique (map dv_id children));
     require (list_all (\<lambda>child. dv_parentRunId child = Some runId) children);
     Some \<lparr>lc_runId = runId, lc_revision = revision, lc_eligible = eligible, lc_refusal = refusal, lc_children = children\<rparr>
   }"

definition decodeLineageCollection :: "json_value \<Rightarrow> lineage_collection outcome" where
  "decodeLineageCollection value = decided (parseLineageCollection value)"

section \<open>Lineage requests\<close>

definition fork_edit_json :: "fork_edit \<Rightarrow> json_value" where
  "fork_edit_json e =
     (case e of
        ForkDrop n \<Rightarrow> JObj [(js ''occurrenceId'', JStr (decimalText n)), (js ''operation'', JStr (js ''drop''))]
      | ForkReplace n answer \<Rightarrow>
          JObj [(js ''occurrenceId'', JStr (decimalText n)), (js ''operation'', JStr (js ''replace'')), (js ''answer'', answer)])"

definition lineageBody :: "jstr \<Rightarrow> fork_edit list \<Rightarrow> json_members" where
  "lineageBody operation edits =
     (if operation \<noteq> js ''fork'' then [(js ''operation'', JStr operation)]
      else
        (let ordered = sort_key fork_occurrence edits in
         [(js ''operation'', JStr operation), (js ''edits'', JArr (map fork_edit_json ordered))]))"

text \<open>What the body of a lineage request states: its edits, read back.\<close>

definition fork_edit_of :: "json_value \<Rightarrow> fork_edit option" where
  "fork_edit_of v =
     (case v of
        JObj fs \<Rightarrow>
          (case word64Text (jsonMember fs (js ''occurrenceId'')) of
             None \<Rightarrow> None
           | Some n \<Rightarrow>
               if jsonMember fs (js ''operation'') = Some (JStr (js ''drop'')) then Some (ForkDrop n)
               else if jsonMember fs (js ''operation'') = Some (JStr (js ''replace''))
               then map_option (ForkReplace n) (jsonMember fs (js ''answer''))
               else None)
      | _ \<Rightarrow> None)"

lemma fork_edit_read:
  "0 \<le> fork_occurrence e \<Longrightarrow> fork_occurrence e \<le> WORD64_MAX \<Longrightarrow> fork_edit_of (fork_edit_json e) = Some e"
proof -
  assume "0 \<le> fork_occurrence e" "fork_occurrence e \<le> WORD64_MAX"
  then have "word64Text (Some (JStr (decimalText (fork_occurrence e)))) = Some (fork_occurrence e)"
    by (simp add: word64Text_Some decimalText_def)
  then show ?thesis by (cases e) (simp_all add: fork_edit_of_def fork_edit_json_def jsonMember_def)
qed

lemma parseExportCollection_facts:
  assumes "parseExportCollection v = Some c"
  shows "validId (xc_runId c)" "distinct (map ex_id (xc_items c))" "\<forall>item \<in> set (xc_items c). ex_runId item = xc_runId c"
    "length (xc_items c) \<le> 256"
  using assms unfolding parseExportCollection_def
  by (auto elim!: bind_Some_elim simp: identifierOf_Some list_all_iff listOf_Some dest!: list_all2_lengthD)

lemma parseLineageCollection_facts:
  assumes "parseLineageCollection v = Some c"
  shows "lc_eligible c = [] \<longleftrightarrow> lc_refusal c \<noteq> None" "distinct (lc_eligible c)"
    "set (lc_eligible c) \<subseteq> set LINEAGE_OPERATIONS" "distinct (map dv_id (lc_children c))"
    "\<forall>child \<in> set (lc_children c). dv_parentRunId child = Some (lc_runId c)"
  using assms unfolding parseLineageCollection_def
  by (auto elim!: bind_Some_elim simp: list_all_iff listOf_oneOf)

end
