(* ===== verification/ClientProperties.thy ===== *)
theory ClientProperties
  imports Exports Answers Runs SampleWire
begin

text \<open>
  The properties of what a client checks before it shows or sends: semantic schemas, runs, answers
  of decisions, and the bodies of lineage requests.
\<close>

text \<open>
  C37: Semantic schemas. A value is accepted as a semantic schema at a depth exactly when it is equal JSON
  to the encoding of an abstract schema (a primitive, an array, or a chain of properties with distinct
  names) whose nesting stays within the rule of its owner.
\<close>

theorem semantic_schema_is_decided:
  assumes "wf_json v"
  shows "semanticSchema v d rule \<longleftrightarrow>
    (\<exists>t. sem_ok rule d t \<and> jsonEqual (sem_json t) v \<and> d + dr_step rule * (sem_levels t - 1) \<le> dr_deepest rule)"
  using semanticSchema_iff [OF assms, of d rule] sem_levels_bound(1) by blast

theorem semantic_schema_is_decided_witness:
  "\<exists>t. sem_ok REVIEW_DEPTH 0 t \<and> jsonEqual (sem_json t) (JStr (js ''string''))"
proof -
  have "semanticSchema (JStr (js ''string'')) 0 REVIEW_DEPTH"
    by (subst semanticSchema.simps) (simp add: SEMANTIC_PRIMITIVES_def oneOf_def textOf_def REVIEW_DEPTH_def)
  then show ?thesis using semantic_schema_is_decided [of "JStr (js ''string'')" 0 REVIEW_DEPTH] by auto
qed

text \<open>
  C36: Structured answers. A structured question accepts exactly the editor inputs of at most 1 MiB of UTF-8
  that are JSON and conform to the schema of the question: closed objects with every property, homogeneous
  arrays, exact integers; the value sent is the parsed input.
\<close>

theorem structured_answer_conforms:
  assumes "dc_content decision = Question code (Some schema) state" and "\<And>c. code \<noteq> JStr c"
  shows "answerValue decision input = Inr v \<longleftrightarrow>
    byteLength input \<le> 1048576 \<and> tryParseJson input = Some v \<and> conforms schema v"
  using assms editorCheck_iff [of schema v "js ''answer''"]
  by (cases code) (auto simp: answerValue_def jsonAnswer_def refuseAnswer_def PERSON_ANSWER_BYTES_def
      split: option.splits)

definition sample_decision :: decision_view where
  "sample_decision = \<lparr>dc_id = ident, dc_revision = ident, dc_runId = ident, dc_profileId = ident, dc_generation = ident,
     dc_occurrenceId = 7, dc_state = js ''pending'', dc_position = 1, dc_observedSequence = 1,
     dc_content = Question JNull (Some (EPrimitive (js ''null''))) (js ''s''), dc_value = JNull\<rparr>"

theorem structured_answer_conforms_witness: "answerValue sample_decision [110] \<noteq> Inr JNull"
proof -
  have c: "dc_content sample_decision = Question JNull (Some (EPrimitive (js ''null''))) (js ''s'')"
    by (simp add: sample_decision_def)
  have "tryParseJson [110] \<noteq> Some JNull" by code_simp
  then show ?thesis using structured_answer_conforms [OF c, of "[110]" JNull] by simp
qed

text \<open>
  Stored answers. When the client names the stored text of an accepted answer, the text determines the
  answer: two values with the same stored text for one question are equal JSON.
\<close>

theorem stored_answer_determines_value:
  assumes "storedAnswerText decision v = Some t" "storedAnswerText decision w = Some t" "wf_json v" "wf_json w"
  shows "jsonEqual v w"
  using assms by (rule storedAnswerText_inject)

definition sample_flag :: decision_view where
  "sample_flag = sample_decision\<lparr>dc_content := Question (JStr (js ''flag'')) None (js ''s'')\<rparr>"

lemma sample_stored: "storedAnswerText sample_flag (JBool True) = Some (js ''yes'')"
  by (simp add: sample_flag_def storedAnswerText_def)

theorem stored_answer_determines_value_witness: "jsonEqual (JBool True) (JBool True)"
  by (rule stored_answer_determines_value [OF sample_stored sample_stored]) simp_all

text \<open>
  Lineage requests. The body of a fork lists its edits in occurrence order, each exactly once, edits of
  one occurrence in the order given, and every edit is read back from its JSON; a restart and a resume
  carry no edits.
\<close>

theorem fork_body_lists_edits:
  assumes "list_all (\<lambda>e. 0 \<le> fork_occurrence e \<and> fork_occurrence e \<le> WORD64_MAX) edits"
  shows "\<exists>items. map_of (lineageBody (js ''fork'') edits) (js ''edits'') = Some (JArr items)
    \<and> map fork_edit_of items = map Some (sort_key fork_occurrence edits)
    \<and> sorted (map fork_occurrence (map (the \<circ> fork_edit_of) items))
    \<and> mset (map (the \<circ> fork_edit_of) items) = mset edits
    \<and> (\<forall>n. filter (\<lambda>e. fork_occurrence e = n) (map (the \<circ> fork_edit_of) items) = filter (\<lambda>e. fork_occurrence e = n) edits)"
proof -
  let ?sorted = "sort_key fork_occurrence edits"
  have read: "fork_edit_of (fork_edit_json e) = Some e" if "e \<in> set edits" for e
    using assms that by (auto simp: list_all_iff intro: fork_edit_read)
  then have all: "map fork_edit_of (map fork_edit_json ?sorted) = map Some ?sorted" by simp
  have again: "map (the \<circ> fork_edit_of) (map fork_edit_json ?sorted) = ?sorted"
    unfolding map_map by (rule map_idI) (simp add: read)
  show ?thesis
  proof (intro exI conjI)
    show "map_of (lineageBody (js ''fork'') edits) (js ''edits'') = Some (JArr (map fork_edit_json ?sorted))"
      by (simp add: lineageBody_def Let_def)
    show "map fork_edit_of (map fork_edit_json ?sorted) = map Some ?sorted" by (rule all)
  qed (simp_all only: again, simp_all add: sort_key_stable)
qed

definition sample_edits :: "fork_edit list" where
  "sample_edits = [ForkReplace 9 JNull, ForkDrop 2]"

lemma sample_edits_ok: "list_all (\<lambda>e. 0 \<le> fork_occurrence e \<and> fork_occurrence e \<le> WORD64_MAX) sample_edits"
  by (simp add: sample_edits_def WORD64_MAX_def)

theorem fork_body_lists_edits_witness:
  "\<exists>items. map_of (lineageBody (js ''fork'') sample_edits) (js ''edits'') = Some (JArr items)
    \<and> map fork_edit_of items = [Some (ForkDrop 2), Some (ForkReplace 9 JNull)]"
  using fork_body_lists_edits [OF sample_edits_ok] by (auto simp: sample_edits_def insort_key_def)

text \<open>
  Run items. The links of a decoded run are those of its own identifier: the item at
  \<^verbatim>\<open>/v1/runs/<id>\<close>, and for a readable run its snapshot, control, outputs, exports and lineage requests
  below it, and no other link.
\<close>

theorem run_links_are_its_own:
  assumes "parseRunItem v = Some r"
  shows "validId (rn_id r) \<and> (\<exists>fs ls. v = JObj fs \<and> map_of fs (js ''links'') = Some (JObj ls)
    \<and> (let self = js ''/v1/runs/'' @ rn_id r;
           expected = (case rn_content r of Unreadable _ \<Rightarrow> [(js ''self'', self)] | Known _ \<Rightarrow> run_links self)
       in length ls = length expected \<and> list_all (\<lambda>(name, uri). map_of ls name = Some (JStr uri)) expected))"
  using assms
  by (rule parseRunItem_links)
     (auto simp: Let_def list_all_iff run_links_def split: run_content.splits)

definition sample_run_links :: json_members where
  "sample_run_links = [(js ''self'', JStr (js ''/v1/runs/'' @ ident))]"

definition sample_unreadable :: json_value where
  "sample_unreadable = JObj [(js ''version'', JNum (js ''1'')), (js ''kind'', JStr (js ''unreadable-manifest'')),
     (js ''id'', JStr ident), (js ''revision'', JStr ident), (js ''profileId'', JStr ident),
     (js ''category'', JStr (hd UNREADABLE_CATEGORIES)), (js ''links'', JObj sample_run_links)]"

lemma sample_one: "boundedInteger (js ''1'') INT64_MIN INT64_MAX = Some 1"
  by (simp add: one_text INT64_MIN_def INT64_MAX_def)

lemma sample_self: "resourceLink (Some (JStr (js ''/v1/runs/'' @ ident))) = Some (js ''/v1/runs/'' @ ident)"
  unfolding ident_def by code_simp

lemma ident_length: "textLength ident = 4"
  unfolding ident_def by code_simp

lemma sample_unreadable_parsed:
  "parseRunItem sample_unreadable = Some \<lparr>rn_id = ident, rn_revision = ident, rn_profileId = ident,
     rn_content = Unreadable (hd UNREADABLE_CATEGORIES)\<rparr>"
  by (simp add: sample_unreadable_def sample_run_links_def parseRunItem_def parseRunContent_def versionOne_def intOf_def
      identifierOf_def textOf_def exact_def oneOf_def linksAgree_def UNREADABLE_CATEGORIES_def jsonMember_def require_def sample_one sample_self)

theorem run_links_are_its_own_witness:
  "map_of sample_run_links (js ''self'') = Some (JStr (js ''/v1/runs/'' @ ident))"
  using run_links_are_its_own [OF sample_unreadable_parsed] by (simp add: sample_unreadable_def)

text \<open>
  Exports and lineage pages. Every receipt of a decoded export page belongs to the run of the page and
  occurs once; a lineage page states a refusal exactly when it offers no operation, offers each known
  operation at most once, and lists distinct child requests of that run only.
\<close>

theorem collections_belong_to_their_run:
  "(\<forall>v c. parseExportCollection v = Some c \<longrightarrow>
      distinct (map ex_id (xc_items c)) \<and> list_all (\<lambda>item. ex_runId item = xc_runId c) (xc_items c)
      \<and> length (xc_items c) \<le> 256)
   \<and> (\<forall>v c. parseLineageCollection v = Some c \<longrightarrow>
      (lc_eligible c = [] \<longleftrightarrow> lc_refusal c \<noteq> None) \<and> distinct (lc_eligible c)
      \<and> set (lc_eligible c) \<subseteq> set LINEAGE_OPERATIONS \<and> distinct (map dv_id (lc_children c))
      \<and> list_all (\<lambda>child. dv_parentRunId child = Some (lc_runId c)) (lc_children c))"
  using parseExportCollection_facts parseLineageCollection_facts by (auto simp: list_all_iff)

definition sample_exports :: json_value where
  "sample_exports = JObj [(js ''version'', JNum (js ''1'')), (js ''page'', JObj [(js ''revision'', JStr ident)]),
     (js ''items'', JArr []), (js ''runId'', JStr ident)]"

lemma sample_exports_parsed:
  "parseExportCollection sample_exports = Some \<lparr>xc_runId = ident, xc_revision = ident, xc_items = []\<rparr>"
  by (simp add: sample_exports_def parseExportCollection_def versionOne_def intOf_def identifierOf_def textOf_def exact_def
      pageRevision_def boundedText_def bounded_def listOf_def unique_def jsonMember_def require_def sample_one ident_length)

theorem collections_belong_to_their_run_witness:
  "parseExportCollection sample_exports \<noteq> None \<and> length (xc_items (the (parseExportCollection sample_exports))) \<le> 256"
  using collections_belong_to_their_run sample_exports_parsed by auto

end
