(* ===== verification/JsValues.thy ===== *)
theory JsValues
  imports Snapshot "HOL-Library.Log_Nat"
begin

text \<open>
  The values of \<^verbatim>\<open>JSON.parse\<close> without a reviver: numbers rounded to double precision, the order
  in which JavaScript enumerates the members of an object, and the texts of
  \<^verbatim>\<open>JSON.stringify\<close>. The text of a double is a parameter, as in the rest of the development.
\<close>

section \<open>Doubles\<close>

definition floor_log2 :: "rat \<Rightarrow> int" where
  "floor_log2 r =
     (let (a, b) = quotient_of r; e = bitlen a - bitlen b in
      if 2 powi e \<le> r then e else e - 1)"

definition round_even :: "rat \<Rightarrow> int" where
  "round_even q =
     (let f = \<lfloor>q\<rfloor>; d = q - of_int f in
      if d < 1 / 2 \<or> d = 1 / 2 \<and> even f then f else f + 1)"

text \<open>Round to nearest, ties to even; below the normal range the spacing is \<^verbatim>\<open>2^-1074\<close>.\<close>

definition to_double :: "rat \<Rightarrow> js_number" where
  "to_double r =
     (if r = 0 then Finite 0
      else
        (let ulp = 2 powi (max (floor_log2 \<bar>r\<bar>) (-1022) - 52);
             v = of_int (round_even (r / ulp)) * ulp in
         if 2 ^ 1024 \<le> v then PosInfinity else if v \<le> - (2 ^ 1024) then NegInfinity else Finite v))"

lemma round_even_int [simp]: "round_even (of_int i) = i"
  by (simp add: round_even_def)

lemma floor_log2_le:
  assumes "0 < r"
  shows "2 powi floor_log2 r \<le> r"
proof -
  obtain a b where q: "quotient_of r = (a, b)" by (cases "quotient_of r") auto
  then have r: "r = of_int a / of_int b" and b: "0 < b"
    by (simp_all add: quotient_of_div quotient_of_denom_pos)
  then have a: "0 < a" using assms by (simp add: zero_less_divide_iff)
  show ?thesis
  proof (cases "2 powi (bitlen a - bitlen b) \<le> r")
    case True
    then show ?thesis by (simp add: floor_log2_def q)
  next
    case False
    have lo: "(2::rat) powi (bitlen a - 1) \<le> of_int a"
    proof -
      have "2 ^ nat (bitlen a - 1) \<le> a" using bitlen_bounds [OF a] by simp
      then have "(of_int (2 ^ nat (bitlen a - 1)) :: rat) \<le> of_int a" by (rule of_int_le_iff [THEN iffD2])
      moreover have "0 \<le> bitlen a - 1" 
        using bitlen_nonneg [of a] bitlen_eq_zero_iff [of a] a by linarith
      ultimately show ?thesis by (simp add: power_int_def)
    qed
    have hi: "of_int b \<le> (2::rat) powi bitlen b"
    proof -
      have "b < 2 ^ nat (bitlen b)" using bitlen_bounds [OF b] by simp
      then have "(of_int b :: rat) \<le> of_int (2 ^ nat (bitlen b))" by (intro of_int_le_iff [THEN iffD2]) simp
      then show ?thesis using bitlen_nonneg [of b] by (simp add: power_int_def)
    qed
    have "(2::rat) powi (bitlen a - bitlen b - 1) = 2 powi (bitlen a - 1) / 2 powi bitlen b"
      by (simp add: power_int_diff)
    also have "\<dots> \<le> of_int a / of_int b"
      using lo hi a b by (intro frac_le) simp_all
    finally show ?thesis using False by (simp add: floor_log2_def q r [symmetric])
  qed
qed

text \<open>The integers that \<^verbatim>\<open>Number.isSafeInteger\<close> accepts are not rounded.\<close>

lemma to_double_int: "\<bar>i\<bar> \<le> MAX_SAFE \<Longrightarrow> to_double (of_int i) = js_int i"
proof (cases "i = 0")
  case False
  assume small: "\<bar>i\<bar> \<le> MAX_SAFE"
  define k where "k = max (floor_log2 \<bar>of_int i :: rat\<bar>) (-1022) - 52"
  have pos: "0 < \<bar>of_int i :: rat\<bar>" using False by simp
  have "\<bar>of_int i :: rat\<bar> = of_int \<bar>i\<bar>" by simp
  also have "\<dots> < 2 powi 53"
    using small by (simp add: MAX_SAFE_def power_int_def flip: of_int_less_iff [where 'a = rat])
  finally have "2 powi floor_log2 \<bar>of_int i :: rat\<bar> < (2 :: rat) powi 53"
    using floor_log2_le [OF pos] by simp
  then have "floor_log2 \<bar>of_int i :: rat\<bar> < 53"
    using power_int_increasing [of 53 "floor_log2 \<bar>of_int i :: rat\<bar>" "2 :: rat"] by force
  then have "k \<le> 0" by (simp add: k_def)
  then have inv: "(2::rat) powi k = 1 / 2 ^ nat (- k)"
    by (simp add: power_int_def field_simps)
  have quot: "of_int i / (2::rat) powi k = of_int (i * 2 ^ nat (- k))" by (simp add: inv)
  have "of_int (round_even (of_int i / (2::rat) powi k)) * 2 powi k = (of_int i :: rat)"
    by (simp only: quot round_even_int) (simp add: inv)
  moreover have "\<bar>of_int i :: rat\<bar> < 2 ^ 1024"
  proof -
    have "\<bar>of_int i :: rat\<bar> < 2 ^ 53"
      using \<open>of_int \<bar>i\<bar> < (2::rat) powi 53\<close> by (simp add: power_int_def)
    also have "(2::rat) ^ 53 \<le> 2 ^ 1024" by (rule power_increasing) simp_all
    finally show ?thesis .
  qed
  ultimately show ?thesis
    using False by (simp add: to_double_def Let_def js_int_def k_def [symmetric] abs_less_iff not_le)
qed (simp add: to_double_def js_int_def)

section \<open>Parsing\<close>

definition json_parse :: "jstr \<Rightarrow> js_value option" where
  "json_parse s = map_option (map_json (\<lambda>source. to_double (number_value source))) (tryParseJson s)"

section \<open>The order of members\<close>

text \<open>
  \<^verbatim>\<open>Object.keys\<close> and \<^verbatim>\<open>Object.entries\<close> list the array indices in ascending order, then the other
  names as they were inserted.
\<close>

definition index_name :: "jstr \<Rightarrow> bool" where
  "index_name name \<longleftrightarrow> canonical_text name \<and> digits_val name < 2 ^ 32 - 1"

definition own_entries :: "(jstr \<times> 'a) list \<Rightarrow> (jstr \<times> 'a) list" where
  "own_entries fs =
     sort_key (\<lambda>(name, _). digits_val name) (filter (\<lambda>(name, _). index_name name) fs)
     @ filter (\<lambda>(name, _). \<not> index_name name) fs"

lemma set_own_entries [simp]: "set (own_entries fs) = set fs"
  by (auto simp: own_entries_def)

lemma mset_own_entries: "mset (own_entries fs) = mset fs"
  by (simp add: own_entries_def flip: multiset_partition)

lemma length_own_entries [simp]: "length (own_entries fs) = length fs"
  using mset_own_entries [THEN arg_cong [where f = size]] by simp

lemma wf_own_entries [simp]: "wf_map (own_entries fs) = wf_map fs"
proof -
  have "mset (map fst (own_entries fs)) = mset (map fst fs)"
    by (simp add: mset_own_entries)
  then show ?thesis by (metis mset_eq_imp_distinct_iff)
qed

section \<open>Texts\<close>

definition number_json :: "(js_number \<Rightarrow> jstr) \<Rightarrow> js_number \<Rightarrow> jstr" where
  "number_json number n = (case n of Finite _ \<Rightarrow> number n | _ \<Rightarrow> js ''null'')"

fun stringify :: "(js_number \<Rightarrow> jstr) \<Rightarrow> js_value \<Rightarrow> jstr" where
  "stringify number JNull = js ''null''"
| "stringify number (JBool b) = (if b then js ''true'' else js ''false'')"
| "stringify number (JNum n) = number_json number n"
| "stringify number (JStr s) = quote s"
| "stringify number (JArr xs) = js ''['' @ join (js '','') (map (stringify number) xs) @ js '']''"
| "stringify number (JObj fs) =
     js ''{'' @
     join (js '','') (map (\<lambda>(name, text). quote name @ js '':'' @ text)
       (own_entries (map (\<lambda>(name, v). (name, stringify number v)) fs)))
     @ js ''}''"

end
