(* ===== verification/Config.thy ===== *)
theory Config
  imports JsValues Reducer
begin

text \<open>
  The configuration of the extension (\<^verbatim>\<open>config.ts\<close>): the runners, the manager profiles that
  select service mode, the state directory, the remote session and the retention policy, each
  read from environment variables. Paths are POSIX paths.
\<close>

type_synonym process_env = "string \<Rightarrow> jstr option"

text \<open>A variable in a condition: unset and empty variables count as absent.\<close>

definition truthy :: "jstr option \<Rightarrow> bool" where
  "truthy value \<longleftrightarrow> (case value of None \<Rightarrow> False | Some s \<Rightarrow> s \<noteq> [])"

text \<open>\<^verbatim>\<open>isAbsolute\<close> of \<^verbatim>\<open>node:path\<close>.\<close>

definition isAbsolute :: "jstr \<Rightarrow> bool" where
  "isAbsolute path \<longleftrightarrow> path \<noteq> [] \<and> hd path = 47"

text \<open>\<^verbatim>\<open>Array.isArray(value) && value.every((entry) => typeof entry === "string")\<close>.\<close>

definition string_items :: "js_value list \<Rightarrow> jstr list option" where
  "string_items items = all_some (map (\<lambda>v. case v of JStr s \<Rightarrow> Some s | _ \<Rightarrow> None) items)"

lemma string_items_iff: "string_items items = Some ss \<longleftrightarrow> items = map JStr ss"
proof -
  have "(case v of JStr s \<Rightarrow> Some s | _ \<Rightarrow> None) = Some s \<longleftrightarrow> v = JStr s" for v :: js_value and s
    by (cases v) auto
  then show ?thesis by (auto simp: string_items_def all_some_map_iff list_all2_conv_all_nth list_eq_iff_nth_eq)
qed

section \<open>Runners\<close>

record runner_config =
  rc_id :: jstr
  rc_executable :: jstr
  rc_prefixArgs :: "jstr list option"
  rc_allowedCwds :: "jstr list"

definition optionalStrings :: "js_value option \<Rightarrow> jstr \<Rightarrow> jstr list result" where
  "optionalStrings value label =
     (case value of
        None \<Rightarrow> Inr []
      | Some (JArr items) \<Rightarrow>
          (case string_items items of Some ss \<Rightarrow> Inr ss | None \<Rightarrow> Inl (label @ js '' must be a JSON string array''))
      | _ \<Rightarrow> Inl (label @ js '' must be a JSON string array''))"

definition runner_label :: "nat \<Rightarrow> string \<Rightarrow> jstr" where
  "runner_label index rest = js ''AGENT_CAT_RUNNERS['' @ dec index @ js '']'' @ js rest"

text \<open>One entry, given the identifiers of the entries before it.\<close>

definition runner_entry :: "jstr \<Rightarrow> nat \<Rightarrow> jstr list \<Rightarrow> js_value \<Rightarrow> runner_config result" where
  "runner_entry cwd index ids value =
     thenE (asRecord (Some value) (runner_label index '' is not an object'')) (\<lambda>entry.
     thenE (check (list_all (\<lambda>(key, _). key \<in> set (map js [''id'', ''executable'', ''prefixArgs'', ''allowedCwds''])) entry)
       (runner_label index '' has an unknown field'')) (\<lambda>_.
     (case map_of entry (js ''id'') of
        Some (JStr ident) \<Rightarrow>
          thenE (check (ident \<noteq> [] \<and> ident \<notin> set ids) (runner_label index ''.id is empty or duplicated'')) (\<lambda>_.
          (case map_of entry (js ''executable'') of
             Some (JStr executable) \<Rightarrow>
               thenE (check (isAbsolute executable) (runner_label index ''.executable must be absolute'')) (\<lambda>_.
               thenE (optionalStrings (map_of entry (js ''prefixArgs'')) (runner_label index ''.prefixArgs'')) (\<lambda>prefixArgs.
               thenE (case map_of entry (js ''allowedCwds'') of None \<Rightarrow> Inr [cwd]
                      | v \<Rightarrow> optionalStrings v (runner_label index ''.allowedCwds'')) (\<lambda>allowedCwds.
               thenE (check (allowedCwds \<noteq> [] \<and> list_all isAbsolute allowedCwds)
                 (runner_label index ''.allowedCwds must contain absolute paths'')) (\<lambda>_.
                 Inr \<lparr>rc_id = ident, rc_executable = executable, rc_prefixArgs = Some prefixArgs,
                      rc_allowedCwds = allowedCwds\<rparr>))))
           | _ \<Rightarrow> Inl (runner_label index ''.executable must be absolute'')))
      | _ \<Rightarrow> Inl (runner_label index ''.id is empty or duplicated''))))"

fun runner_entries :: "jstr \<Rightarrow> nat \<Rightarrow> jstr list \<Rightarrow> js_value list \<Rightarrow> runner_config list result" where
  "runner_entries cwd index ids [] = Inr []"
| "runner_entries cwd index ids (v # vs) =
     thenE (runner_entry cwd index ids v) (\<lambda>runner.
     thenE (runner_entries cwd (Suc index) (rc_id runner # ids) vs) (\<lambda>runners. Inr (runner # runners)))"

definition configuredRunners :: "jstr \<Rightarrow> process_env \<Rightarrow> runner_config list result" where
  "configuredRunners cwd env =
     (let configured = env ''AGENT_CAT_RUNNERS''; single = env ''AGENT_CAT_RUNNER'' in
      if truthy configured \<and> truthy single then Inl (js ''configure AGENT_CAT_RUNNERS or AGENT_CAT_RUNNER, not both'')
      else if \<not> truthy configured then
        (if \<not> truthy single then Inr []
         else
           thenE (check (isAbsolute (the single)) (js ''AGENT_CAT_RUNNER must be an absolute path'')) (\<lambda>_.
             Inr [\<lparr>rc_id = (case env ''AGENT_CAT_RUNNER_ID'' of None \<Rightarrow> js ''agent-cat'' | Some i \<Rightarrow> i),
                   rc_executable = the single, rc_prefixArgs = None, rc_allowedCwds = [cwd]\<rparr>]))
      else
        (case json_parse (the configured) of
           None \<Rightarrow> Inl (js ''AGENT_CAT_RUNNERS is not valid JSON'')
         | Some (JArr (v # vs)) \<Rightarrow> runner_entries cwd 0 [] (v # vs)
         | Some _ \<Rightarrow> Inl (js ''AGENT_CAT_RUNNERS must be a non-empty JSON array'')))"

section \<open>The client mode\<close>

datatype client_mode = Local | Service "jstr list"

definition MAX_MANAGER_PROFILES :: nat where
  "MAX_MANAGER_PROFILES = 8"

definition profile_label :: "nat \<Rightarrow> string \<Rightarrow> jstr" where
  "profile_label index rest = js ''AGENT_CAT_MANAGER_PROFILES['' @ dec index @ js '']'' @ js rest"

fun profile_paths :: "nat \<Rightarrow> jstr list \<Rightarrow> js_value list \<Rightarrow> jstr list result" where
  "profile_paths index profiles [] = Inr profiles"
| "profile_paths index profiles (v # vs) =
     (case v of
        JStr path \<Rightarrow>
          thenE (check (isAbsolute path) (profile_label index '' must be an absolute path'')) (\<lambda>_.
          thenE (check (path \<notin> set profiles) (profile_label index '' is duplicated'')) (\<lambda>_.
            profile_paths (Suc index) (profiles @ [path]) vs))
      | _ \<Rightarrow> Inl (profile_label index '' must be an absolute path''))"

definition configuredManagerProfiles :: "process_env \<Rightarrow> client_mode result" where
  "configuredManagerProfiles env =
     (let configured = env ''AGENT_CAT_MANAGER_PROFILES''; single = env ''AGENT_CAT_MANAGER_PROFILE'' in
      if truthy configured \<and> truthy single then
        Inl (js ''configure AGENT_CAT_MANAGER_PROFILES or AGENT_CAT_MANAGER_PROFILE, not both'')
      else if truthy single then
        thenE (check (isAbsolute (the single)) (js ''AGENT_CAT_MANAGER_PROFILE must be an absolute path'')) (\<lambda>_.
          Inr (Service [the single]))
      else if \<not> truthy configured then Inr Local
      else
        (case json_parse (the configured) of
           None \<Rightarrow> Inl (js ''AGENT_CAT_MANAGER_PROFILES is not valid JSON'')
         | Some parsed \<Rightarrow>
             (case parsed of
                JArr items \<Rightarrow>
                  thenE (check (items \<noteq> [] \<and> length items \<le> MAX_MANAGER_PROFILES)
                    (js ''AGENT_CAT_MANAGER_PROFILES must be a JSON array of 1 to '' @ dec MAX_MANAGER_PROFILES @ js '' paths'')) (\<lambda>_.
                  thenE (profile_paths 0 [] items) (\<lambda>profiles. Inr (Service profiles)))
              | _ \<Rightarrow> Inl (js ''AGENT_CAT_MANAGER_PROFILES must be a JSON array of 1 to '' @ dec MAX_MANAGER_PROFILES @ js '' paths''))))"

section \<open>Directories, remote session and retention\<close>

definition stateDirectory :: "process_env \<Rightarrow> jstr result" where
  "stateDirectory env =
     (let configured = env ''AGENT_CAT_STATE_DIR''; home = env ''HOME'' in
      if truthy configured then
        thenE (check (isAbsolute (the configured)) (js ''AGENT_CAT_STATE_DIR must be absolute'')) (\<lambda>_. Inr (the configured))
      else if \<not> truthy home then Inl (js ''HOME is unavailable and AGENT_CAT_STATE_DIR is not configured'')
      else Inr (the home @ js ''/.pi/agent/agent-cat''))"

definition configuredRemote :: "process_env \<Rightarrow> (jstr \<times> jstr option) option result" where
  "configuredRemote env =
     (let socket = env ''AGENT_CAT_PI_REMOTE_SOCKET''; sessionId = env ''AGENT_CAT_PI_REMOTE_SESSION'' in
      if \<not> truthy socket \<and> \<not> truthy sessionId then Inr None
      else if \<not> truthy socket then
        Inl (js ''AGENT_CAT_PI_REMOTE_SOCKET is required when a remote session is configured'')
      else
        thenE (check (isAbsolute (the socket)) (js ''AGENT_CAT_PI_REMOTE_SOCKET must be absolute'')) (\<lambda>_.
          Inr (Some (the socket, sessionId))))"

definition testHooksEnabled :: "process_env \<Rightarrow> bool" where
  "testHooksEnabled env \<longleftrightarrow> env ''AGENT_CAT_PI_TEST_HOOKS'' = Some (js ''1'')"

definition natural_setting :: "jstr option \<Rightarrow> int \<Rightarrow> string \<Rightarrow> int result" where
  "natural_setting value fallback name =
     (case value of
        None \<Rightarrow> Inr fallback
      | Some s \<Rightarrow>
          thenE (check (canonical_text s) (js name @ js '' must be an unsigned decimal integer'')) (\<lambda>_.
            (case safe_integer (to_double (of_nat (digits_val s))) of
               Some parsed \<Rightarrow> Inr parsed
             | None \<Rightarrow> Inl (js name @ js '' exceeds JavaScript's safe integer range''))))"

record retention =
  rt_days :: int
  rt_maxRuns :: int

definition retentionPolicy :: "process_env \<Rightarrow> retention result" where
  "retentionPolicy env =
     thenE (natural_setting (env ''AGENT_CAT_RETENTION_DAYS'') 30 ''AGENT_CAT_RETENTION_DAYS'') (\<lambda>days.
     thenE (natural_setting (env ''AGENT_CAT_MAX_RUNS'') 100 ''AGENT_CAT_MAX_RUNS'') (\<lambda>maxRuns.
       Inr \<lparr>rt_days = days, rt_maxRuns = maxRuns\<rparr>))"

section \<open>What an accepted configuration is\<close>

lemma profile_paths_Inr:
  "profile_paths i ps vs = Inr qs \<longleftrightarrow>
     (\<exists>ss. vs = map JStr ss \<and> list_all isAbsolute ss \<and> distinct ss \<and> set ss \<inter> set ps = {} \<and> qs = ps @ ss)"
proof (induction vs arbitrary: i ps)
  case (Cons v vs)
  show ?case
  proof (cases v)
    case (JStr s)
    have "(\<exists>ss. JStr s # vs = map JStr ss \<and> list_all isAbsolute ss \<and> distinct ss \<and> set ss \<inter> set ps = {} \<and> qs = ps @ ss)
      \<longleftrightarrow> (\<exists>ss. vs = map JStr ss \<and> list_all isAbsolute (s # ss) \<and> distinct (s # ss) \<and> set (s # ss) \<inter> set ps = {} \<and> qs = ps @ s # ss)"
      by (auto simp: Cons_eq_map_conv)
    then show ?thesis by (auto simp: JStr thenE_Inr Cons.IH)
  qed (auto simp: Cons_eq_map_conv)
qed auto

end
