(* ===== verification/Projection.thy ===== *)
theory Projection
  imports ReducerLaws Identifiers "HOL-Library.Product_Lexorder"
begin

text \<open>
  The projection \<^verbatim>\<open>snapshotValue\<close> of the reducer: a snapshot as one JSON value whose lists do
  not depend on the order in which the entries arrived. A member that is \<^verbatim>\<open>undefined\<close> is left
  out, as every comparison and text of the projection leaves it out.
\<close>

section \<open>Comparators\<close>

text \<open>\<^verbatim>\<open>BigInt\<close> of a canonical decimal text, the only ids that the reducer stores.\<close>

definition compareDecimal :: "jstr \<Rightarrow> jstr \<Rightarrow> int" where
  "compareDecimal left right =
     (let a = digits_val left; b = digits_val right in if a < b then -1 else if b < a then 1 else 0)"

definition id_part :: "nat \<Rightarrow> jstr \<Rightarrow> jstr" where
  "id_part i ident = (let parts = split_on 58 ident in if i < length parts then parts ! i else [])"

definition compareAttempt :: "jstr \<Rightarrow> jstr \<Rightarrow> int" where
  "compareAttempt left right =
     (let c = compareDecimal (id_part 0 left) (id_part 0 right) in
      if c \<noteq> 0 then c else compareDecimal (id_part 1 left) (id_part 1 right))"

definition compareText :: "jstr \<Rightarrow> jstr \<Rightarrow> int" where
  "compareText left right = (if left < right then -1 else if right < left then 1 else 0)"

text \<open>\<^verbatim>\<open>Array.prototype.sort\<close> is stable: an element goes before the first one that is not less.\<close>

fun js_insert :: "('a \<Rightarrow> 'a \<Rightarrow> int) \<Rightarrow> 'a \<Rightarrow> 'a list \<Rightarrow> 'a list" where
  "js_insert compare x [] = [x]"
| "js_insert compare x (y # ys) = (if compare x y \<le> 0 then x # y # ys else y # js_insert compare x ys)"

definition js_sort :: "('a \<Rightarrow> 'a \<Rightarrow> int) \<Rightarrow> 'a list \<Rightarrow> 'a list" where
  "js_sort compare xs = foldr (js_insert compare) xs []"

lemma js_insert_key:
  assumes "\<And>x y. compare x y \<le> 0 \<longleftrightarrow> f x \<le> f y"
  shows "js_insert compare x ys = insort_key f x ys"
  by (induction ys) (simp_all add: assms)

lemma js_sort_key:
  assumes "\<And>x y. compare x y \<le> 0 \<longleftrightarrow> f x \<le> f y"
  shows "js_sort compare xs = sort_key f xs"
proof -
  have "js_insert compare = insort_key f" by (intro ext js_insert_key assms)
  then show ?thesis by (simp add: js_sort_def sort_key_def)
qed

lemma compareDecimal_le: "compareDecimal l r \<le> 0 \<longleftrightarrow> digits_val l \<le> digits_val r"
  by (simp add: compareDecimal_def Let_def)

lemma compareText_le: "compareText l r \<le> 0 \<longleftrightarrow> l \<le> r"
  by (auto simp: compareText_def)

definition attempt_key :: "jstr \<Rightarrow> nat \<times> nat" where
  "attempt_key ident = (digits_val (id_part 0 ident), digits_val (id_part 1 ident))"

lemma compareAttempt_le: "compareAttempt l r \<le> 0 \<longleftrightarrow> attempt_key l \<le> attempt_key r"
  by (auto simp: compareAttempt_def compareDecimal_def attempt_key_def Let_def less_eq_prod_def)

section \<open>The value\<close>

text \<open>\<^verbatim>\<open>value ?? null\<close>, and a member that may be absent.\<close>

definition or_null :: "jstr option \<Rightarrow> js_value" where
  "or_null value = (case value of None \<Rightarrow> JNull | Some s \<Rightarrow> JStr s)"

definition member_if :: "string \<Rightarrow> js_value option \<Rightarrow> js_members" where
  "member_if name value = (case value of None \<Rightarrow> [] | Some v \<Rightarrow> [(js name, v)])"

definition text_list :: "jstr list \<Rightarrow> js_value" where
  "text_list xs = JArr (map JStr xs)"

definition choice_value :: "recovery_choice \<Rightarrow> js_value" where
  "choice_value choice =
     JObj ((js ''choice'', JStr (ch_choice choice)) # member_if ''target'' (map_option JStr (ch_target choice)))"

definition dispatch_value :: "dispatch \<Rightarrow> js_value" where
  "dispatch_value d =
     JObj [(js ''targets'', text_list (dp_targets d)), (js ''open'', JBool (dp_open d)),
           (js ''redirect'',
            case dp_redirect d of None \<Rightarrow> JNull
            | Some r \<Rightarrow> JObj [(js ''controlId'', JStr (rd_controlId r)), (js ''target'', JStr (rd_target r))])]"

definition recovery_value :: "recovery \<Rightarrow> js_value" where
  "recovery_value r =
     JObj [(js ''gap'', JStr (rec_gap r)), (js ''message'', JStr (rec_message r)),
           (js ''retries'', text_list (rec_retries r)),
           (js ''choices'', JArr (map choice_value (rec_choices r))),
           (js ''chosen'',
            case rec_chosen r of None \<Rightarrow> JNull
            | Some (controlId, c) \<Rightarrow>
                JObj [(js ''controlId'', JStr controlId), (js ''choice'', JStr (ch_choice c)),
                      (js ''target'', or_null (ch_target c))])]"

definition steer_value :: "steer_record \<Rightarrow> js_value" where
  "steer_value r =
     JObj [(js ''controlId'', JStr (sr_controlId r)), (js ''timing'', JStr (sr_timing r)), (js ''text'', JStr (sr_text r))]"

definition tool_value :: "public_tool \<Rightarrow> js_value" where
  "tool_value t =
     JObj ((js ''id'', JStr (tp_id t)) # member_if ''title'' (map_option JStr (tp_title t))
       @ member_if ''toolKind'' (map_option JStr (tp_toolKind t)) @ member_if ''status'' (map_option JStr (tp_status t))
       @ member_if ''summary'' (map_option JStr (tp_summary t)))"

definition todo_value :: "todo_item \<Rightarrow> js_value" where
  "todo_value t =
     JObj [(js ''content'', JStr (td_content t)), (js ''priority'', JStr (td_priority t)), (js ''status'', JStr (td_status t))]"

definition usage_value :: "usage \<Rightarrow> js_value" where
  "usage_value u = JObj [(js ''used'', JStr (us_used u)), (js ''size'', JStr (us_size u))]"

definition attempt_value :: "attempt_snapshot \<Rightarrow> js_value" where
  "attempt_value a =
     JObj ([(js ''id'', JStr (at_id a)), (js ''target'', or_null (at_target a)),
            (js ''state'', JStr (attempt_state_name (at_state a))), (js ''output'', JStr (at_output a)),
            (js ''steers'', JArr (map steer_value (at_steers a))), (js ''failure'', or_null (at_failure a)),
            (js ''failureClass'', or_null (at_failureClass a))]
       @ member_if ''messages'' (if at_messages a = [] then None else Some (text_list (at_messages a)))
       @ member_if ''tools''
           (if at_tools a = [] then None
            else Some (JArr (map tool_value (js_sort (\<lambda>l r. compareText (tp_id l) (tp_id r)) (map snd (at_tools a))))))
       @ member_if ''todos'' (if at_todos a = [] then None else Some (JArr (map todo_value (at_todos a))))
       @ member_if ''usage'' (map_option usage_value (at_usage a))
       @ member_if ''reasoningSummaries'' (if at_reasoning a = [] then None else Some (text_list (at_reasoning a))))"

definition reference_members :: "question_ref \<Rightarrow> js_members" where
  "reference_members q =
     [(js ''artifactVersion'', JNum (js_int (qr_version q))), (js ''path'', JStr (qr_path q)),
      (js ''sha256'', JStr (qr_sha256 q)), (js ''bytes'', JStr (qr_bytes q))]"

definition occurrence_value :: "occurrence \<Rightarrow> js_value" where
  "occurrence_value x =
     JObj ([(js ''id'', JStr (oc_id x)), (js ''state'', JStr (state_name (oc_state x))),
            (js ''code'', or_null (oc_code x)), (js ''intent'', or_null (oc_intent x)),
            (js ''addressee'', or_null (oc_addressee x)), (js ''prompt'', or_null (oc_prompt x)),
            (js ''answer'', or_null (oc_answer x)),
            (js ''dispatch'', case oc_dispatch x of None \<Rightarrow> JNull | Some d \<Rightarrow> dispatch_value d),
            (js ''recovery'', case oc_recovery x of None \<Rightarrow> JNull | Some r \<Rightarrow> recovery_value r),
            (js ''reuseKind'', or_null (oc_reuseKind x)), (js ''source'', or_null (oc_source x)),
            (js ''failureClass'', or_null (oc_failureClass x)), (js ''replayable'', JBool (oc_replayable x)),
            (js ''attempts'',
             JArr (map attempt_value (js_sort (\<lambda>l r. compareAttempt (at_id l) (at_id r)) (map snd (oc_attempts x)))))]
       @ (case oc_personQuestion x of None \<Rightarrow> []
          | Some q \<Rightarrow> [(js ''personQuestion'', JObj (reference_members q)),
                      (js ''personPending'', JBool (oc_personPending x))]))"

definition ack_value :: "control_ack \<Rightarrow> js_value" where
  "ack_value k =
     JObj ([(js ''controlId'', JStr (ca_controlId k)), (js ''state'', JStr (ca_state k)), (js ''message'', JStr (ca_message k))]
       @ member_if ''command'' (map_option JStr (ca_command k))
       @ member_if ''occurrenceId'' (map_option JStr (ca_occurrenceId k))
       @ member_if ''attemptId'' (map_option JStr (ca_attemptId k)))"

definition snapshotValue :: "run_snapshot \<Rightarrow> js_value" where
  "snapshotValue s =
     JObj ([(js ''runId'', JStr (rs_runId s)), (js ''status'', JStr (status_name (rs_status s))),
            (js ''lastSequence'', or_null (map_option int_text (rs_lastSequence s))),
            (js ''workflow'', or_null (rs_workflow s)), (js ''target'', or_null (rs_target s)),
            (js ''occurrences'',
             JArr (map occurrence_value (js_sort (\<lambda>l r. compareDecimal (oc_id l) (oc_id r)) (map snd (rs_occurrences s))))),
            (js ''authoredOrder'', text_list (rs_authoredOrder s)), (js ''traceRecorded'', JBool (rs_traceRecorded s)),
            (js ''controlAcks'',
             JArr (map ack_value (js_sort (\<lambda>l r. compareText (ca_controlId l) (ca_controlId r)) (map snd (rs_controlAcks s))))),
            (js ''billFresh'', or_null (rs_billFresh s)), (js ''billMemo'', or_null (rs_billMemo s)),
            (js ''failure'', or_null (rs_failure s)), (js ''failureClass'', or_null (rs_failureClass s))]
       @ member_if ''personAnswering'' (case rs_personAnswering s of Some p \<Rightarrow> if p = [] then None else Some (JStr p) | None \<Rightarrow> None)
       @ member_if ''result''
           (map_option (\<lambda>r. JObj (reference_members (rr_ref r)
              @ [(js ''code'', rr_code r), (js ''preview'', JStr (rr_preview r))])) (rs_result s)))"

section \<open>The order of the lists\<close>

lemma js_sort_decimal: "js_sort (\<lambda>l r. compareDecimal (g l) (g r)) xs = sort_key (\<lambda>x. digits_val (g x)) xs"
  by (rule js_sort_key) (rule compareDecimal_le)

lemma js_sort_text: "js_sort (\<lambda>l r. compareText (g l) (g r)) xs = sort_key g xs"
  by (rule js_sort_key) (rule compareText_le)

lemma js_sort_attempt: "js_sort (\<lambda>l r. compareAttempt (g l) (g r)) xs = sort_key (\<lambda>x. attempt_key (g x)) xs"
  by (rule js_sort_key) (rule compareAttempt_le)

lemmas js_sorts = js_sort_decimal js_sort_text js_sort_attempt

text \<open>Sorting forgets the order of arrival when the keys tell the elements apart.\<close>

lemma sort_key_permuted:
  assumes "mset xs = mset ys" and "inj_on f (set xs)"
  shows "sort_key f xs = sort_key f ys"
proof (rule sort_key_inj_key_eq)
  show "mset xs = mset (sort_key f ys)" using assms(1) by simp
qed (use assms in simp_all)

lemma sort_key_strict:
  assumes "distinct (map f xs)"
  shows "sorted_wrt (<) (map f (sort_key f xs))"
proof -
  have "mset (map f (sort_key f xs)) = mset (map f xs)" by simp
  with assms have "distinct (map f (sort_key f xs))" by (metis mset_eq_imp_distinct_iff)
  then show ?thesis by (simp add: strict_sorted_iff)
qed

lemma map_keyed: "list_all (\<lambda>(k, x). g x = k) xs \<Longrightarrow> map g (map snd xs) = map fst xs"
  by (induction xs) auto

lemma occ_inv_id: "occ_inv k x \<Longrightarrow> oc_id x = k \<and> canonical_text k"
  by (simp add: occ_inv_def)

lemma inv_ids:
  assumes "snap_inv s"
  shows "map oc_id (map snd (rs_occurrences s)) = map fst (rs_occurrences s)"
    and "map ca_controlId (map snd (rs_controlAcks s)) = map fst (rs_controlAcks s)"
    and "list_all canonical_text (map fst (rs_occurrences s))"
proof -
  have o: "list_all (\<lambda>(k, x). occ_inv k x) (rs_occurrences s)" using assms by (simp add: snap_inv_def)
  then have ids: "list_all (\<lambda>(k, x). oc_id x = k \<and> canonical_text k) (rs_occurrences s)"
    by (rule list.pred_mono_strong) (use occ_inv_id in blast)
  show "map oc_id (map snd (rs_occurrences s)) = map fst (rs_occurrences s)"
    by (rule map_keyed, rule list.pred_mono_strong [OF ids]) auto
  show "map ca_controlId (map snd (rs_controlAcks s)) = map fst (rs_controlAcks s)"
    using assms by (intro map_keyed) (simp add: snap_inv_def)
  show "list_all canonical_text (map fst (rs_occurrences s))"
    unfolding list.pred_map comp_def by (rule list.pred_mono_strong [OF ids]) auto
qed

lemma numeric_ids:
  assumes "snap_inv s"
  shows "distinct (map (\<lambda>x. digits_val (oc_id x)) (map snd (rs_occurrences s)))"
proof -
  have "distinct (map fst (rs_occurrences s))" using assms by (simp add: snap_inv_def)
  moreover have "inj_on digits_val (set (map fst (rs_occurrences s)))"
    using inv_ids(3) [OF assms] by (auto simp: inj_on_def list_all_iff canonical_eq_iff)
  ultimately have "distinct (map digits_val (map fst (rs_occurrences s)))"
    by (simp only: distinct_map)
  then have "distinct (map digits_val (map oc_id (map snd (rs_occurrences s))))"
    by (simp only: inv_ids(1) [OF assms])
  then show ?thesis by (simp add: comp_def)
qed

text \<open>The occurrences of a projection, as its reader finds them.\<close>

definition projected_ids :: "js_value \<Rightarrow> jstr list" where
  "projected_ids v =
     (case v of
        JObj fs \<Rightarrow> (case map_of fs (js ''occurrences'') of
          Some (JArr xs) \<Rightarrow>
            map (\<lambda>x. case x of JObj gs \<Rightarrow> (case map_of gs (js ''id'') of Some (JStr i) \<Rightarrow> i | _ \<Rightarrow> []) | _ \<Rightarrow> []) xs
        | _ \<Rightarrow> [])
      | _ \<Rightarrow> [])"

lemma projected_ids_snapshotValue:
  "projected_ids (snapshotValue s) =
     map oc_id (js_sort (\<lambda>l r. compareDecimal (oc_id l) (oc_id r)) (map snd (rs_occurrences s)))"
  by (simp add: projected_ids_def snapshotValue_def occurrence_value_def comp_def)

lemma projected_order:
  assumes "snap_inv s"
  shows "sorted_wrt (<) (map digits_val (projected_ids (snapshotValue s)))"
    and "mset (projected_ids (snapshotValue s)) = mset (map fst (rs_occurrences s))"
proof -
  show "sorted_wrt (<) (map digits_val (projected_ids (snapshotValue s)))"
    using sort_key_strict [OF numeric_ids [OF assms]]
    by (simp add: projected_ids_snapshotValue js_sorts comp_def)
  show "mset (projected_ids (snapshotValue s)) = mset (map fst (rs_occurrences s))"
    unfolding inv_ids(1) [OF assms, symmetric] by (simp add: projected_ids_snapshotValue js_sorts multiset.map_comp)
qed

lemma snapshotValue_permuted:
  assumes "snap_inv s" and "mset os = mset (rs_occurrences s)" and "mset cs = mset (rs_controlAcks s)"
  shows "snapshotValue (s\<lparr>rs_occurrences := os, rs_controlAcks := cs\<rparr>) = snapshotValue s"
proof -
  have o: "mset (map snd os) = mset (map snd (rs_occurrences s))" using assms(2) by simp
  have c: "mset (map snd cs) = mset (map snd (rs_controlAcks s))" using assms(3) by simp
  have "inj_on (\<lambda>x. digits_val (oc_id x)) (set (map snd os))"
    using numeric_ids [OF assms(1)] mset_eq_setD [OF o] by (simp only: distinct_map)
  moreover have "inj_on ca_controlId (set (map snd cs))"
  proof -
    have "distinct (map ca_controlId (map snd (rs_controlAcks s)))"
      unfolding inv_ids(2) [OF assms(1)] using assms(1) by (simp add: snap_inv_def)
    then show ?thesis using mset_eq_setD [OF c] by (simp only: distinct_map)
  qed
  ultimately have "sort_key (\<lambda>x. digits_val (oc_id x)) (map snd os)
      = sort_key (\<lambda>x. digits_val (oc_id x)) (map snd (rs_occurrences s))"
    and "sort_key ca_controlId (map snd cs) = sort_key ca_controlId (map snd (rs_controlAcks s))"
    using sort_key_permuted [OF o] sort_key_permuted [OF c] by blast+
  then show ?thesis by (simp add: snapshotValue_def js_sorts)
qed

end
