(* ===== verification/Catalogue.thy ===== *)
theory Catalogue
  imports Config Projection
begin

text \<open>
  The catalogue (\<^verbatim>\<open>catalogue.ts\<close>): workflow descriptors, capabilities, protocol negotiation, the
  canonical JSON text that the program hash covers, routing inspections and the arguments of the
  runner invocations. Running the runner itself is a parameter of the operations that need it.
\<close>

section \<open>Readers\<close>

definition text_of :: "js_value option \<Rightarrow> jstr \<Rightarrow> jstr result" where
  "text_of value label = (case value of Some (JStr s) \<Rightarrow> Inr s | _ \<Rightarrow> Inl (label @ js '' is not text''))"

definition number_of :: "js_value option \<Rightarrow> jstr \<Rightarrow> int result" where
  "number_of value label =
     (case value of
        Some (JNum n) \<Rightarrow> (case safe_integer n of Some i \<Rightarrow> Inr i | None \<Rightarrow> Inl (label @ js '' is not a safe integer''))
      | _ \<Rightarrow> Inl (label @ js '' is not a safe integer''))"

definition naturalNumber :: "js_value option \<Rightarrow> jstr \<Rightarrow> int result" where
  "naturalNumber value label =
     thenE (number_of value label) (\<lambda>i. thenE (check (0 \<le> i) (label @ js '' is negative'')) (\<lambda>_. Inr i))"

definition nullableNaturalNumber :: "js_value option \<Rightarrow> jstr \<Rightarrow> int option result" where
  "nullableNaturalNumber value label =
     (if value = Some JNull then Inr None else thenE (naturalNumber value label) (\<lambda>i. Inr (Some i)))"

definition texts :: "js_value option \<Rightarrow> jstr \<Rightarrow> jstr list result" where
  "texts value label =
     (case value of
        Some (JArr items) \<Rightarrow>
          (case string_items items of Some ss \<Rightarrow> Inr ss | None \<Rightarrow> Inl (label @ js '' is not text[]''))
      | _ \<Rightarrow> Inl (label @ js '' is not text[]''))"

definition numbers :: "js_value option \<Rightarrow> jstr \<Rightarrow> int list result" where
  "numbers value label =
     (case value of
        Some (JArr items) \<Rightarrow> mapE (\<lambda>v. number_of (Some v) label) items
      | _ \<Rightarrow> Inl (label @ js '' is not number[]''))"

text \<open>\<^verbatim>\<open>Object.keys(value).filter((key) => !allowed.includes(key))\<close> must be empty.\<close>

definition onlyKeys :: "js_members \<Rightarrow> jstr list \<Rightarrow> jstr \<Rightarrow> unit result" where
  "onlyKeys value allowed label =
     (let unknown = filter (\<lambda>key. key \<notin> set allowed) (map fst (own_entries value)) in
      check (unknown = []) (label @ js '' has unknown field(s): '' @ join (js '', '') unknown))"

definition assertName :: "jstr \<Rightarrow> jstr \<Rightarrow> unit result" where
  "assertName value label =
     check (value \<noteq> [] \<and> 0 \<notin> set value \<and> 10 \<notin> set value) (js ''invalid '' @ label @ js '' name'')"

section \<open>Descriptors\<close>

datatype input_source = Prompt | CommandTail | Stdin

record workflow_input =
  wi_name :: jstr
  wi_source :: input_source

text \<open>A capability is a boolean or a natural number.\<close>

datatype capability = Flag bool | Amount int

record workflow_descriptor =
  wd_runnerId :: jstr
  wd_name :: jstr
  wd_blurb :: jstr
  wd_result :: "js_value option"
  wd_level :: jstr
  wd_size :: int
  wd_askNodes :: int
  wd_minFold :: "int option"
  wd_maxFold :: "int option"
  wd_paths :: int
  wd_inputs :: "workflow_input list"
  wd_runFacts :: "jstr list"
  wd_pins :: "jstr list"
  wd_descriptorVersion :: int
  wd_runnerVersion :: jstr
  wd_protocolVersions :: "int list"
  wd_storeVersions :: "int list"
  wd_capabilities :: "(jstr, capability) jsmap"
  wd_personAnsweringModes :: "jstr list"

definition descriptorKeys :: "int \<Rightarrow> jstr list" where
  "descriptorKeys version =
     map js [''descriptorVersion'', ''runnerVersion'', ''protocolVersions'', ''storeVersions'', ''capabilities'',
       ''name'', ''blurb'', ''result'', ''level'', ''size'', ''askNodes'', ''minFold'', ''maxFold'', ''paths'',
       ''inputs'', ''runFacts'', ''pins'']
     @ (if version \<ge> 3 then [js ''personAnsweringModes''] else [])"

definition capabilityKeys :: "jstr list" where
  "capabilityKeys =
     map js [''structuredRun'', ''wholeRunCancel'', ''controlFd'', ''requestControls'', ''steering'',
       ''interactiveRetry'', ''schedulerRedirect'', ''semanticResume'', ''immutableFork'',
       ''restartFromScratch'', ''protocolNegotiation'', ''routingInspection'', ''routingJsonVersion'',
       ''personaRouting'', ''modelAliasRouting'', ''consults'', ''observes'', ''effects'', ''effectful'', ''toolExecution'']"

definition source_of :: "jstr \<Rightarrow> input_source option" where
  "source_of s =
     (if s = js ''prompt'' then Some Prompt else if s = js ''command-tail'' then Some CommandTail
      else if s = js ''stdin'' then Some Stdin else None)"

definition input_label :: "nat \<Rightarrow> string \<Rightarrow> jstr" where
  "input_label index rest = js ''inputs['' @ dec index @ js '']'' @ js rest"

definition workflow_input_entry :: "nat \<times> js_value \<Rightarrow> workflow_input result" where
  "workflow_input_entry = (\<lambda>(index, value).
     thenE (asRecord (Some value) (input_label index '' is not an object'')) (\<lambda>entry.
     thenE (check (list_all (\<lambda>(key, _). key = js ''name'' \<or> key = js ''source'') entry)
       (input_label index '' has an unknown field'')) (\<lambda>_.
     thenE (text_of (map_of entry (js ''name'')) (input_label index ''.name'')) (\<lambda>name.
     thenE (assertName name (js ''input'')) (\<lambda>_.
     thenE (text_of (map_of entry (js ''source'')) (input_label index ''.source'')) (\<lambda>source.
       (case source_of source of
          Some src \<Rightarrow> Inr \<lparr>wi_name = name, wi_source = src\<rparr>
        | None \<Rightarrow> Inl (input_label index '' has unknown source '' @ source))))))))"

definition workflowInputs :: "js_value option \<Rightarrow> int \<Rightarrow> workflow_input list result" where
  "workflowInputs value descriptorVersion =
     (if descriptorVersion = 1 then
        thenE (texts value (js ''inputs'')) (\<lambda>names. Inr (map (\<lambda>name. \<lparr>wi_name = name, wi_source = Prompt\<rparr>) names))
      else
        (case value of
           Some (JArr items) \<Rightarrow> mapE workflow_input_entry (enumerate 0 items)
         | _ \<Rightarrow> Inl (js ''inputs is not an input descriptor array'')))"

section \<open>Capabilities\<close>

definition BOOLEAN_KEYS :: "jstr list" where
  "BOOLEAN_KEYS =
     map js [''structuredRun'', ''wholeRunCancel'', ''requestControls'', ''steering'', ''interactiveRetry'',
       ''schedulerRedirect'', ''semanticResume'', ''immutableFork'', ''restartFromScratch'',
       ''protocolNegotiation'', ''routingInspection'', ''personaRouting'', ''modelAliasRouting'',
       ''effectful'', ''toolExecution'']"

definition NUMERIC_KEYS :: "jstr list" where
  "NUMERIC_KEYS = map js [''controlFd'', ''routingJsonVersion'', ''consults'', ''observes'', ''effects'']"

definition natural_capability :: "js_value \<Rightarrow> capability option" where
  "natural_capability entry =
     (case entry of
        JNum n \<Rightarrow> (case safe_integer n of Some i \<Rightarrow> if 0 \<le> i then Some (Amount i) else None | None \<Rightarrow> None)
      | _ \<Rightarrow> None)"

definition capability_of :: "jstr \<Rightarrow> js_value \<Rightarrow> capability option" where
  "capability_of key entry =
     (let flag = (case entry of JBool b \<Rightarrow> Some (Flag b) | _ \<Rightarrow> None) in
      if key \<in> set BOOLEAN_KEYS then flag
      else if key \<in> set NUMERIC_KEYS then natural_capability entry
      else if flag \<noteq> None then flag else natural_capability entry)"

fun set_capabilities :: "(jstr, capability) jsmap \<Rightarrow> (jstr \<times> js_value) list \<Rightarrow> (jstr, capability) jsmap result" where
  "set_capabilities acc [] = Inr acc"
| "set_capabilities acc ((key, entry) # rest) =
     (case capability_of key entry of
        None \<Rightarrow> Inl (js ''capability '' @ key @ js '' is invalid'')
      | Some c \<Rightarrow> set_capabilities (map_set key c acc) rest)"

definition default_capabilities :: "(jstr, capability) jsmap" where
  "default_capabilities =
     map (\<lambda>key. (key, Flag False)) BOOLEAN_KEYS
     @ [(js ''consults'', Amount 0), (js ''observes'', Amount 0), (js ''effects'', Amount 0)]"

definition amount_of :: "capability option \<Rightarrow> int option" where
  "amount_of c = (case c of Some (Amount i) \<Rightarrow> Some i | _ \<Rightarrow> None)"

definition capabilities :: "js_value option \<Rightarrow> int \<Rightarrow> (jstr, capability) jsmap result" where
  "capabilities value descriptorVersion =
     thenE (asRecord value (js ''capabilities is not an object'')) (\<lambda>fs.
     thenE (if descriptorVersion \<ge> 2 then onlyKeys fs capabilityKeys (js ''workflow descriptor capabilities'') else Inr ()) (\<lambda>_.
     thenE (set_capabilities default_capabilities (own_entries fs)) (\<lambda>caps.
     thenE (check (descriptorVersion \<ge> 2 \<longrightarrow>
         (case map_of caps (js ''controlFd'') of None \<Rightarrow> True | c \<Rightarrow> (case amount_of c of Some i \<Rightarrow> 3 \<le> i | None \<Rightarrow> False)))
       (js ''capability controlFd is invalid'')) (\<lambda>_.
     thenE (check (descriptorVersion \<ge> 2 \<longrightarrow>
         map_of caps (js ''effectful'') = Some (Flag (case amount_of (map_of caps (js ''effects'')) of Some i \<Rightarrow> 0 < i | None \<Rightarrow> False)))
       (js ''capability effectful disagrees with effects'')) (\<lambda>_.
       Inr caps)))))"

section \<open>Parsing a descriptor\<close>

fun first_duplicate :: "jstr list \<Rightarrow> jstr list \<Rightarrow> jstr option" where
  "first_duplicate seen [] = None"
| "first_duplicate seen (name # names) =
     (if name \<in> set seen then Some name else first_duplicate (name # seen) names)"

definition input_names :: "input_source \<Rightarrow> workflow_input list \<Rightarrow> jstr list" where
  "input_names source inputs = map wi_name (filter (\<lambda>input. wi_source input = source) inputs)"

text \<open>The members of the descriptor, read in the order of the source.\<close>

definition descriptor_members :: "jstr \<Rightarrow> js_members \<Rightarrow> int \<Rightarrow> workflow_descriptor result" where
  "descriptor_members runnerId fs version =
     thenE (text_of (map_of fs (js ''name'')) (js ''name'')) (\<lambda>name.
     thenE (text_of (map_of fs (js ''blurb'')) (js ''blurb'')) (\<lambda>blurb.
     thenE (text_of (map_of fs (js ''level'')) (js ''level'')) (\<lambda>level.
     thenE (naturalNumber (map_of fs (js ''size'')) (js ''size'')) (\<lambda>size.
     thenE (naturalNumber (map_of fs (js ''askNodes'')) (js ''askNodes'')) (\<lambda>askNodes.
     thenE (nullableNaturalNumber (map_of fs (js ''minFold'')) (js ''minFold'')) (\<lambda>minFold.
     thenE (nullableNaturalNumber (map_of fs (js ''maxFold'')) (js ''maxFold'')) (\<lambda>maxFold.
     thenE (naturalNumber (map_of fs (js ''paths'')) (js ''paths'')) (\<lambda>paths.
     thenE (workflowInputs (map_of fs (js ''inputs'')) version) (\<lambda>inputs.
     thenE (texts (map_of fs (js ''runFacts'')) (js ''runFacts'')) (\<lambda>runFacts.
     thenE (texts (map_of fs (js ''pins'')) (js ''pins'')) (\<lambda>pins.
     thenE (text_of (map_of fs (js ''runnerVersion'')) (js ''runnerVersion'')) (\<lambda>runnerVersion.
     thenE (numbers (map_of fs (js ''protocolVersions'')) (js ''protocolVersions'')) (\<lambda>protocolVersions.
     thenE (numbers (map_of fs (js ''storeVersions'')) (js ''storeVersions'')) (\<lambda>storeVersions.
     thenE (capabilities (map_of fs (js ''capabilities'')) version) (\<lambda>caps.
     thenE (if version \<ge> 3 then texts (map_of fs (js ''personAnsweringModes'')) (js ''personAnsweringModes'') else Inr []) (\<lambda>modes.
       Inr \<lparr>wd_runnerId = runnerId, wd_name = name, wd_blurb = blurb, wd_result = map_of fs (js ''result''),
            wd_level = level, wd_size = size, wd_askNodes = askNodes, wd_minFold = minFold, wd_maxFold = maxFold,
            wd_paths = paths, wd_inputs = inputs, wd_runFacts = runFacts, wd_pins = pins,
            wd_descriptorVersion = version, wd_runnerVersion = runnerVersion,
            wd_protocolVersions = protocolVersions, wd_storeVersions = storeVersions,
            wd_capabilities = caps, wd_personAnsweringModes = modes\<rparr>))))))))))))))))"

definition descriptor_checks :: "jstr \<Rightarrow> workflow_descriptor \<Rightarrow> unit result" where
  "descriptor_checks runnerId d =
     thenE (assertName (wd_name d) (js ''workflow'')) (\<lambda>_.
     thenE (case first_duplicate [] (map wi_name (wd_inputs d)) of None \<Rightarrow> Inr ()
            | Some name \<Rightarrow> Inl (js ''input '' @ name @ js '' was listed twice'')) (\<lambda>_.
     thenE (check (length (input_names CommandTail (wd_inputs d)) \<le> 1)
       (js ''multiple command-tail inputs: '' @ join (js '', '') (input_names CommandTail (wd_inputs d)))) (\<lambda>_.
     thenE (check (length (input_names Stdin (wd_inputs d)) \<le> 1)
       (js ''multiple stdin inputs: '' @ join (js '', '') (input_names Stdin (wd_inputs d)))) (\<lambda>_.
     thenE (check (1 \<in> set (wd_protocolVersions d)) (js ''runner '' @ runnerId @ js '' does not support protocol 1'')) (\<lambda>_.
     thenE (check (1 \<in> set (wd_storeVersions d)) (js ''runner '' @ runnerId @ js '' does not support store 1'')) (\<lambda>_.
     thenE (check (unique (wd_protocolVersions d)) (js ''protocolVersions contains duplicates'')) (\<lambda>_.
     thenE (check (unique (wd_storeVersions d)) (js ''storeVersions contains duplicates'')) (\<lambda>_.
     thenE (check (\<not> (case (wd_minFold d, wd_maxFold d) of (Some lo, Some hi) \<Rightarrow> hi < lo | _ \<Rightarrow> False))
       (js ''minFold exceeds maxFold'')) (\<lambda>_.
       if wd_descriptorVersion d \<ge> 3 then
         thenE (check (2 \<in> set (wd_protocolVersions d)) (js ''descriptor version 3 does not support protocol 2'')) (\<lambda>_.
         thenE (check (2 \<in> set (wd_storeVersions d)) (js ''descriptor version 3 does not support store 2'')) (\<lambda>_.
           check (wd_personAnsweringModes d = [js ''local-control''])
             (js ''descriptor version 3 has unsupported person answering modes'')))
       else Inr ())))))))))"

definition parseDescriptor :: "jstr \<Rightarrow> js_value \<Rightarrow> workflow_descriptor result" where
  "parseDescriptor runnerId value =
     thenE (asRecord (Some value) (js ''runner '' @ runnerId @ js '' returned a non-object workflow'')) (\<lambda>fs.
     thenE (number_of (map_of fs (js ''descriptorVersion'')) (js ''descriptorVersion'')) (\<lambda>version.
     thenE (check (version \<in> {1, 2, 3}) (js ''unsupported descriptor version '' @ int_text version)) (\<lambda>_.
     thenE (if version \<ge> 2 then onlyKeys fs (descriptorKeys version) (js ''workflow descriptor'') else Inr ()) (\<lambda>_.
     thenE (check (version \<ge> 2 \<longrightarrow> map_has fs (js ''result'')) (js ''result is missing'')) (\<lambda>_.
     thenE (descriptor_members runnerId fs version) (\<lambda>descriptor.
     thenE (descriptor_checks runnerId descriptor) (\<lambda>_.
       Inr descriptor)))))))"

definition supportsRoutingInspection :: "workflow_descriptor \<Rightarrow> bool" where
  "supportsRoutingInspection d \<longleftrightarrow>
     wd_descriptorVersion d \<ge> 3
     \<and> map_of (wd_capabilities d) (js ''routingInspection'') = Some (Flag True)
     \<and> map_of (wd_capabilities d) (js ''routingJsonVersion'') = Some (Amount 2)
     \<and> map_of (wd_capabilities d) (js ''personaRouting'') = Some (Flag True)
     \<and> map_of (wd_capabilities d) (js ''modelAliasRouting'') = Some (Flag True)"

definition negotiateProtocolVersion :: "workflow_descriptor \<Rightarrow> int list \<Rightarrow> int result" where
  "negotiateProtocolVersion d supported =
     (case js_sort (\<lambda>left right. right - left) (filter (\<lambda>v. v \<in> set supported) (wd_protocolVersions d)) of
        [] \<Rightarrow> Inl (js ''runner '' @ wd_runnerId d @ js '' has no supported machine protocol'')
      | v # _ \<Rightarrow> Inr v)"

section \<open>Canonical JSON\<close>

fun canonicalJson :: "(js_number \<Rightarrow> jstr) \<Rightarrow> js_value \<Rightarrow> jstr" where
  "canonicalJson number (JArr xs) = js ''['' @ join (js '','') (map (canonicalJson number) xs) @ js '']''"
| "canonicalJson number (JObj fs) =
     js ''{'' @
     join (js '','') (map (\<lambda>(name, text). quote name @ js '':'' @ text)
       (sort_key fst (map (\<lambda>(name, v). (name, canonicalJson number v)) fs)))
     @ js ''}''"
| "canonicalJson number JNull = stringify number JNull"
| "canonicalJson number (JBool b) = stringify number (JBool b)"
| "canonicalJson number (JNum n) = stringify number (JNum n)"
| "canonicalJson number (JStr s) = stringify number (JStr s)"

section \<open>Running a runner\<close>

text \<open>What \<^verbatim>\<open>execFile\<close> gives: the standard output, or the error with its fields.\<close>

record failure_report =
  fr_code :: "int option"
  fr_killed :: bool
  fr_signal :: "jstr option"
  fr_stderr :: jstr
  fr_message :: jstr

datatype invocation = Stdout jstr | Failed failure_report

text \<open>\<^verbatim>\<open>invoke\<close>: the executable, its arguments and the working directory.\<close>

type_synonym exec_file = "jstr \<Rightarrow> jstr list \<Rightarrow> jstr \<Rightarrow> invocation"

definition invoke :: "exec_file \<Rightarrow> runner_config \<Rightarrow> jstr list \<Rightarrow> jstr \<Rightarrow> invocation" where
  "invoke exec config args cwd =
     exec (rc_executable config) ((case rc_prefixArgs config of None \<Rightarrow> [] | Some p \<Rightarrow> p) @ args) cwd"

definition stdout_of :: "invocation \<Rightarrow> jstr result" where
  "stdout_of r = (case r of Stdout out \<Rightarrow> Inr out | Failed f \<Rightarrow> Inl (fr_message f))"

definition parsed_json :: "jstr \<Rightarrow> js_value result" where
  "parsed_json text = (case json_parse text of Some v \<Rightarrow> Inr v | None \<Rightarrow> Inl (js ''SyntaxError''))"

text \<open>The regular expression with the flag \<^verbatim>\<open>i\<close>: letters are compared without case.\<close>

fun has_infix :: "jstr \<Rightarrow> jstr \<Rightarrow> bool" where
  "has_infix p [] = (p = [])"
| "has_infix p (c # s) = (starts_with (c # s) p \<or> has_infix p s)"

fun refusal_at :: "jstr \<Rightarrow> bool" where
  "refusal_at [] = False"
| "refusal_at (c # s) =
     ((\<exists>w \<in> set [''unknown'', ''unrecognized'', ''unsupported'', ''invalid'', ''unexpected'', ''no''].
         \<exists>n \<in> set ['' option'', '' argument''].
           starts_with (c # s) (js (w @ n))
           \<and> has_infix (js ''--descriptor-version'') (takeWhile (\<lambda>d. d \<noteq> 10) (drop (length (w @ n)) (c # s))))
      \<or> refusal_at s)"

definition isUnsupportedDescriptorVersion :: "failure_report \<Rightarrow> bool" where
  "isUnsupportedDescriptorVersion f \<longleftrightarrow>
     (case fr_code f of
        None \<Rightarrow> False
      | Some code \<Rightarrow> code \<noteq> 0 \<and> \<not> fr_killed f \<and> \<not> truthy (fr_signal f) \<and> refusal_at (map ascii_lower (fr_stderr f)))"

fun parse_listing :: "jstr \<Rightarrow> jstr list \<Rightarrow> js_value list \<Rightarrow> workflow_descriptor list result" where
  "parse_listing runner names [] = Inr []"
| "parse_listing runner names (v # vs) =
     thenE (parseDescriptor runner v) (\<lambda>d.
     thenE (check (wd_name d \<notin> set names) (js ''runner '' @ runner @ js '' lists duplicate workflow '' @ wd_name d)) (\<lambda>_.
     thenE (parse_listing runner (wd_name d # names) vs) (\<lambda>ds. Inr (d # ds))))"

definition discoverRunner :: "exec_file \<Rightarrow> runner_config \<Rightarrow> jstr \<Rightarrow> workflow_descriptor list result" where
  "discoverRunner exec config cwd =
     thenE (case invoke exec config (map js [''list'', ''--json'', ''--descriptor-version'', ''3'']) cwd of
              Stdout out \<Rightarrow> Inr out
            | Failed f \<Rightarrow> if \<not> isUnsupportedDescriptorVersion f then Inl (fr_message f)
                        else stdout_of (invoke exec config (map js [''list'', ''--json'']) cwd)) (\<lambda>out.
     thenE (parsed_json out) (\<lambda>parsed.
       (case parsed of
          JArr items \<Rightarrow> parse_listing (rc_id config) [] items
        | _ \<Rightarrow> Inl (js ''runner '' @ rc_id config @ js '' list is not an array''))))"

definition qualify :: "jstr \<Rightarrow> jstr \<Rightarrow> jstr" where
  "qualify runnerId workflow = runnerId @ js '':'' @ workflow"

definition readHelp :: "exec_file \<Rightarrow> runner_config \<Rightarrow> jstr \<Rightarrow> jstr \<Rightarrow> jstr result" where
  "readHelp exec config workflow cwd =
     thenE (assertName workflow (js ''workflow'')) (\<lambda>_. stdout_of (invoke exec config [js ''help'', workflow] cwd))"

text \<open>The arguments that name the input files.\<close>

fun input_file_args :: "(jstr \<times> jstr) list \<Rightarrow> jstr list result" where
  "input_file_args [] = Inr []"
| "input_file_args ((name, path) # rest) =
     thenE (assertName name (js ''input'')) (\<lambda>_.
     thenE (input_file_args rest) (\<lambda>args. Inr (js ''--input-file'' # (name @ js ''='' @ path) # args)))"

definition readPlan :: "exec_file \<Rightarrow> runner_config \<Rightarrow> jstr \<Rightarrow> (jstr, jstr) jsmap \<Rightarrow> jstr \<Rightarrow> js_members result" where
  "readPlan exec config workflow inputFiles cwd =
     thenE (assertName workflow (js ''workflow'')) (\<lambda>_.
     thenE (input_file_args inputFiles) (\<lambda>args.
     thenE (stdout_of (invoke exec config ([js ''plan'', workflow, js ''--json'', js ''--raw''] @ args) cwd)) (\<lambda>out.
     thenE (parsed_json out) (\<lambda>parsed.
       (case parsed of
          JObj fs \<Rightarrow>
            (case map_of fs (js ''program'') of
               Some (JObj _) \<Rightarrow> Inr fs
             | _ \<Rightarrow> Inl (js ''runner '' @ rc_id config @ js '' plan has no program object''))
        | _ \<Rightarrow> Inl (js ''runner '' @ rc_id config @ js '' plan has no program object''))))))"

definition checkLineage ::
  "exec_file \<Rightarrow> runner_config \<Rightarrow> jstr \<Rightarrow> jstr \<Rightarrow> jstr \<Rightarrow> (jstr, jstr) jsmap \<Rightarrow> jstr list \<Rightarrow> jstr \<Rightarrow> unit result" where
  "checkLineage exec config operation parentStore workflow inputFiles targetArgs cwd =
     thenE (assertName workflow (js ''workflow'')) (\<lambda>_.
     thenE (input_file_args inputFiles) (\<lambda>args.
     thenE (stdout_of (invoke exec config
       ([js ''lineage-check'', operation, parentStore, workflow] @ targetArgs @ args) cwd)) (\<lambda>_. Inr ())))"

end
