(* ===== verification/Routing.thy ===== *)
theory Routing
  imports Catalogue
begin

text \<open>
  Routing inspections (\<^verbatim>\<open>catalogue.ts\<close>): the closed format of version 2, and the check that no
  member at any depth has a name that could carry a secret or an endpoint. Its specification is
  stated over the values inside a value.
\<close>

section \<open>Names that must not occur\<close>

definition FORBIDDEN :: "jstr list" where
  "FORBIDDEN =
     map js [''secret'', ''secrets'', ''secretref'', ''secretreference'', ''secretvalue'',
       ''environment'', ''environments'', ''environmentname'', ''environmentvalue'',
       ''header'', ''headers'', ''auth'', ''authorization'', ''credential'', ''credentials'', ''credentialvalue'',
       ''token'', ''accesstoken'', ''authtoken'', ''bearertoken'', ''refreshtoken'', ''sessiontoken'',
       ''apikey'', ''password'', ''passwordvalue'', ''cookie'', ''cookievalue'',
       ''url'', ''endpoint'', ''endpointurl'', ''baseurl'', ''catalogurl'', ''catalogueurl'']"

text \<open>
  \<^verbatim>\<open>key.toLowerCase().replace(/[^a-z0-9]/g, "")\<close>. Apart from the ASCII capitals, two characters
  have a lower case with an ASCII letter: the Kelvin sign and the capital I with a dot.
\<close>

definition normalized_unit :: "unit16 \<Rightarrow> jstr" where
  "normalized_unit c =
     (if 65 \<le> c \<and> c \<le> 90 then [c + 32]
      else if 97 \<le> c \<and> c \<le> 122 \<or> is_digit c then [c]
      else if c = 0x212A then [107] else if c = 0x130 then [105] else [])"

definition normalized :: "jstr \<Rightarrow> jstr" where
  "normalized key = concat (map normalized_unit key)"

fun visit :: "js_value \<Rightarrow> unit result" where
  "visit (JArr xs) = foldr (\<lambda>r rest. thenE r (\<lambda>_. rest)) (map visit xs) (Inr ())"
| "visit (JObj fs) =
     foldr (\<lambda>(key, r) rest.
         thenE (check (normalized key \<notin> set FORBIDDEN) (js ''routing inspection contains forbidden field '' @ key)) (\<lambda>_.
         thenE r (\<lambda>_. rest)))
       (own_entries (map (\<lambda>(key, child). (key, visit child)) fs)) (Inr ())"
| "visit _ = Inr ()"

definition assertSanitizedRouting :: "js_value \<Rightarrow> unit result" where
  "assertSanitizedRouting value = visit value"

section \<open>Inspections\<close>

record routing_rung =
  ru_axis :: jstr
  ru_modelAlias :: jstr
  ru_model :: jstr

record routing_inspection =
  ri_persona :: "jstr \<times> jstr"
  ri_arguments :: "jstr list"
  ri_fingerprint :: jstr
  ri_availablePersonas :: "jstr list"
  ri_availableModels :: "(jstr \<times> jstr) list"
  ri_profiles :: "(jstr \<times> routing_rung list) list"
  ri_warnings :: "jstr list"
  ri_raw :: js_members

definition routing_argument :: "jstr \<Rightarrow> bool" where
  "routing_argument argument \<longleftrightarrow>
     argument \<noteq> [] \<and> length argument \<le> 4096 \<and> list_all (\<lambda>c. c \<noteq> 0 \<and> c \<noteq> 13 \<and> c \<noteq> 10) argument"

definition model_label :: "nat \<Rightarrow> string \<Rightarrow> jstr" where
  "model_label index rest = js ''availableModels['' @ dec index @ js '']'' @ js rest"

definition available_model :: "nat \<times> js_value \<Rightarrow> (jstr \<times> jstr) result" where
  "available_model = (\<lambda>(index, entry).
     thenE (asRecord (Some entry) (model_label index '' is not an object'')) (\<lambda>fs.
     thenE (text_of (map_of fs (js ''alias'')) (model_label index ''.alias'')) (\<lambda>alias.
     thenE (text_of (map_of fs (js ''engine'')) (model_label index ''.engine'')) (\<lambda>engine.
       Inr (alias, engine)))))"

definition rung_label :: "nat \<Rightarrow> nat \<Rightarrow> string \<Rightarrow> jstr" where
  "rung_label index rungIndex rest = js ''profiles['' @ dec index @ js ''].rungs['' @ dec rungIndex @ js '']'' @ js rest"

definition parse_rung :: "nat \<Rightarrow> nat \<times> js_value \<Rightarrow> routing_rung result" where
  "parse_rung index = (\<lambda>(rungIndex, rung).
     thenE (asRecord (Some rung) (rung_label index rungIndex '' is not an object'')) (\<lambda>fs.
     thenE (text_of (map_of fs (js ''axis'')) (rung_label index rungIndex ''.axis'')) (\<lambda>axis.
     thenE (text_of (map_of fs (js ''modelAlias'')) (rung_label index rungIndex ''.modelAlias'')) (\<lambda>alias.
     thenE (text_of (map_of fs (js ''model'')) (rung_label index rungIndex ''.model'')) (\<lambda>model.
       Inr \<lparr>ru_axis = axis, ru_modelAlias = alias, ru_model = model\<rparr>)))))"

definition routing_profile :: "nat \<times> js_value \<Rightarrow> (jstr \<times> routing_rung list) result" where
  "routing_profile = (\<lambda>(index, profile).
     (case profile of
        JObj fs \<Rightarrow>
          (case map_of fs (js ''rungs'') of
             Some (JArr rungs) \<Rightarrow>
               thenE (text_of (map_of fs (js ''name'')) (js ''profiles['' @ dec index @ js ''].name'')) (\<lambda>name.
               thenE (mapE (parse_rung index) (enumerate 0 rungs)) (\<lambda>rs. Inr (name, rs)))
           | _ \<Rightarrow> Inl (js ''profiles['' @ dec index @ js ''] is invalid''))
      | _ \<Rightarrow> Inl (js ''profiles['' @ dec index @ js ''] is invalid'')))"

definition array_of :: "js_value option \<Rightarrow> jstr \<Rightarrow> js_value list result" where
  "array_of value message = (case value of Some (JArr items) \<Rightarrow> Inr items | _ \<Rightarrow> Inl message)"

definition routing_body :: "js_members \<Rightarrow> routing_inspection result" where
  "routing_body fs =
     thenE (asRecord (map_of fs (js ''persona'')) (js ''routing persona is not an object'')) (\<lambda>persona.
     thenE (text_of (map_of persona (js ''name'')) (js ''routing persona name'')) (\<lambda>name.
     thenE (text_of (map_of persona (js ''source'')) (js ''routing persona source'')) (\<lambda>source.
     thenE (asRecord (map_of fs (js ''launch'')) (js ''routing launch is not an object'')) (\<lambda>launch.
     thenE (text_of (map_of launch (js ''targetKind'')) (js ''routing launch target kind'')) (\<lambda>kind.
     thenE (check (kind = js ''routing'') (js ''routing launch target kind is invalid'')) (\<lambda>_.
     thenE (texts (map_of launch (js ''arguments'')) (js ''routing launch arguments'')) (\<lambda>arguments.
     thenE (text_of (map_of launch (js ''fingerprint'')) (js ''routing launch fingerprint'')) (\<lambda>fingerprint.
     thenE (check (arguments \<noteq> [] \<and> length arguments \<le> 16 \<and> list_all routing_argument arguments)
       (js ''routing launch arguments are invalid'')) (\<lambda>_.
     thenE (check (sha256_text fingerprint) (js ''routing launch fingerprint is invalid'')) (\<lambda>_.
     thenE (texts (map_of fs (js ''availablePersonas'')) (js ''availablePersonas'')) (\<lambda>personas.
     thenE (check (name \<in> set personas) (js ''selected routing persona is absent from availablePersonas'')) (\<lambda>_.
     thenE (array_of (map_of fs (js ''availableModels'')) (js ''availableModels is not an array'')) (\<lambda>entries.
     thenE (mapE available_model (enumerate 0 entries)) (\<lambda>models.
     thenE (check (unique personas) (js ''availablePersonas contains duplicates'')) (\<lambda>_.
     thenE (check (unique (map fst models)) (js ''availableModels contains duplicate aliases'')) (\<lambda>_.
     thenE (array_of (map_of fs (js ''profiles'')) (js ''routing profiles is not an array'')) (\<lambda>items.
     thenE (mapE routing_profile (enumerate 0 items)) (\<lambda>profiles.
     thenE (texts (map_of fs (js ''warnings'')) (js ''routing warnings'')) (\<lambda>warnings.
       Inr \<lparr>ri_persona = (name, source), ri_arguments = arguments, ri_fingerprint = fingerprint,
            ri_availablePersonas = personas, ri_availableModels = models, ri_profiles = profiles,
            ri_warnings = warnings, ri_raw = fs\<rparr>)))))))))))))))))))"

definition parseRoutingInspection :: "jstr \<Rightarrow> js_value \<Rightarrow> routing_inspection option result" where
  "parseRoutingInspection runnerId value =
     thenE (asRecord (Some value) (js ''runner '' @ runnerId @ js '' routing inspection is not an object'')) (\<lambda>fs.
     thenE (number_of (map_of fs (js ''version'')) (js ''routing version'')) (\<lambda>version.
       if version = 1 then Inr None
       else
         thenE (check (version = 2) (js ''runner '' @ runnerId @ js '' returned unsupported routing inspection version'')) (\<lambda>_.
         thenE (assertSanitizedRouting value) (\<lambda>_.
         thenE (routing_body fs) (\<lambda>r. Inr (Some r))))))"

datatype routing_mode = Offline | RefreshModels

definition readRouting ::
  "exec_file \<Rightarrow> runner_config \<Rightarrow> jstr \<Rightarrow> jstr option \<Rightarrow> routing_mode option \<Rightarrow> routing_inspection option result" where
  "readRouting exec config cwd persona mode =
     thenE (case persona of None \<Rightarrow> Inr []
            | Some p \<Rightarrow> thenE (assertName p (js ''persona'')) (\<lambda>_. Inr [js ''--persona'', p])) (\<lambda>persona_args.
     thenE (stdout_of (invoke exec config
       (map js [''--routing'', ''--json''] @ persona_args
         @ (case mode of None \<Rightarrow> [] | Some Offline \<Rightarrow> [js ''--offline''] | Some RefreshModels \<Rightarrow> [js ''--refresh-models''])) cwd)) (\<lambda>out.
     thenE (parsed_json out) (\<lambda>parsed.
       parseRoutingInspection (rc_id config) parsed)))"

section \<open>What a sanitized value is\<close>

inductive inside_value :: "js_value \<Rightarrow> js_value \<Rightarrow> bool" where
  inside_self: "inside_value v v"
| inside_item: "x \<in> set xs \<Longrightarrow> inside_value v x \<Longrightarrow> inside_value v (JArr xs)"
| inside_member: "(k, x) \<in> set fs \<Longrightarrow> inside_value v x \<Longrightarrow> inside_value v (JObj fs)"

inductive_simps inside_value_simps:
  "inside_value v (JArr xs)" "inside_value v (JObj fs)" "inside_value v JNull" "inside_value v (JBool b)"
  "inside_value v (JNum n)" "inside_value v (JStr s)"

definition sanitized :: "js_value \<Rightarrow> bool" where
  "sanitized value \<longleftrightarrow>
     (\<forall>fs k x. inside_value (JObj fs) value \<and> (k, x) \<in> set fs \<longrightarrow> normalized k \<notin> set FORBIDDEN)"

lemma sanitized_simps [simp]:
  "sanitized JNull" "sanitized (JBool b)" "sanitized (JNum n)" "sanitized (JStr s)"
  "sanitized (JArr xs) \<longleftrightarrow> (\<forall>x \<in> set xs. sanitized x)"
  "sanitized (JObj fs) \<longleftrightarrow> (\<forall>(k, x) \<in> set fs. normalized k \<notin> set FORBIDDEN \<and> sanitized x)"
  by (auto simp: sanitized_def inside_value_simps split: prod.splits) blast+

lemma foldr_all: "foldr (\<lambda>r rest. thenE r (\<lambda>_. rest)) rs (Inr ()) = Inr () \<longleftrightarrow> (\<forall>r \<in> set rs. r = Inr ())"
  by (induction rs) (auto simp: thenE_Inr)

lemma foldr_members:
  "foldr (\<lambda>(key, r) rest. thenE (check (P key) (m key)) (\<lambda>_. thenE r (\<lambda>_. rest))) ps (Inr ()) = Inr ()
   \<longleftrightarrow> (\<forall>(key, r) \<in> set ps. P key \<and> r = Inr ())"
  by (induction ps) (auto simp: thenE_Inr)

lemma visit_iff: "visit v = Inr () \<longleftrightarrow> sanitized v"
proof (induction v rule: visit.induct)
  case (1 xs)
  then show ?case by (simp add: foldr_all)
next
  case (2 fs)
  have "visit (JObj fs) = Inr () \<longleftrightarrow> (\<forall>(k, x) \<in> set fs. normalized k \<notin> set FORBIDDEN \<and> visit x = Inr ())"
    by (simp only: visit.simps foldr_members set_own_entries) auto
  with 2 show ?case by (auto split: prod.splits)
qed simp_all

end
