(* ===== verification/CatalogueLaws.thy ===== *)
theory CatalogueLaws
  imports Routing
begin

text \<open>
  What the operations of the catalogue guarantee: the canonical text identifies a value up to
  the order of members, an accepted descriptor is consistent, the negotiated protocol is the
  highest common one, and a listing names each workflow once.
\<close>

section \<open>Canonical JSON\<close>

text \<open>A value with the members of every object sorted by name.\<close>

fun in_order :: "'n json \<Rightarrow> 'n json" where
  "in_order (JArr xs) = JArr (map in_order xs)"
| "in_order (JObj fs) = JObj (sort_key fst (map (\<lambda>(k, v). (k, in_order v)) fs))"
| "in_order v = v"

text \<open>Distinct member names, and numbers whose text is in the grammar of JSON.\<close>

fun distinct_names :: "'n json \<Rightarrow> bool" where
  "distinct_names (JArr xs) = list_all distinct_names xs"
| "distinct_names (JObj fs) = (wf_map fs \<and> list_all (\<lambda>(_, v). distinct_names v) fs)"
| "distinct_names _ = True"

definition number_texts_ok :: "(js_number \<Rightarrow> jstr) \<Rightarrow> js_value \<Rightarrow> bool" where
  "number_texts_ok number v \<longleftrightarrow> (\<forall>n \<in> set_json v. (\<exists>r. n = Finite r) \<and> number_grammar (number n))"

lemma number_texts_ok_simps [simp]:
  "number_texts_ok number JNull" "number_texts_ok number (JBool b)" "number_texts_ok number (JStr s)"
  "number_texts_ok number (JNum n) \<longleftrightarrow> (\<exists>r. n = Finite r) \<and> number_grammar (number n)"
  "number_texts_ok number (JArr xs) \<longleftrightarrow> (\<forall>x \<in> set xs. number_texts_ok number x)"
  "number_texts_ok number (JObj fs) \<longleftrightarrow> (\<forall>(k, x) \<in> set fs. number_texts_ok number x)"
  by (auto simp: number_texts_ok_def snds.simps)

lemma map_json_members: "map (\<lambda>(k, v). (k, f v)) (map (map_prod id g) fs) = map (\<lambda>(k, v). (k, f (g v))) fs"
  by (simp add: case_prod_beta)

lemma canonicalJson_encode: "number_texts_ok number v \<Longrightarrow> canonicalJson number v = encodeJson (map_json number v)"
proof (induction v)
  case (JArr xs)
  then have "map (canonicalJson number) xs = map (encodeJson \<circ> map_json number) xs" by (intro map_cong) auto
  then show ?case by (simp only: canonicalJson.simps encodeJson.simps json.map map_map)
next
  case (JObj fs)
  have "map (\<lambda>(k, v). (k, canonicalJson number v)) fs = map (\<lambda>(k, v). (k, encodeJson (map_json number v))) fs"
    using JObj by (auto simp: snds.simps split: prod.splits)
  then show ?case by (simp only: canonicalJson.simps encodeJson.simps json.map map_json_members)
qed (auto simp: number_json_def)

lemma wf_number_texts: "number_texts_ok number v \<Longrightarrow> distinct_names v \<Longrightarrow> wf_json (map_json number v)"
proof (induction v)
  case (JObj fs)
  have "map fst (map (map_prod id (map_json number)) fs) = map fst fs" by simp
  with JObj show ?case by (auto simp: list_all_iff snds.simps split: prod.splits simp del: map_map)
qed (auto simp: list_all_iff)

lemma sort_texts: "sort_members (map_json number v) = map_json number (in_order v)"
proof (induction v)
  case (JObj fs)
  have eq: "map (\<lambda>(k, v). (k, sort_members (map_json number v))) fs =
      map (\<lambda>(k, v). (k, map_json number v)) (map (\<lambda>(k, v). (k, in_order v)) fs)"
    using JObj by (auto simp: snds.simps split: prod.splits)
  have "sort_key fst (map (\<lambda>(k, v). (k, sort_members (map_json number v))) fs) =
      map (\<lambda>(k, v). (k, map_json number v)) (sort_key fst (map (\<lambda>(k, v). (k, in_order v)) fs))"
    unfolding eq by (rule sort_key_map_values)
  then show ?case
    by (simp only: sort_members.simps json.map in_order.simps map_json_members) (simp only: map_prod_def id_apply)
qed simp_all

lemma set_in_order: "set_json (in_order v) = set_json v"
  by (induction v) (auto simp: snds.simps)

lemma encode_sort_members: "encodeJson (sort_members v) = encodeJson v"
proof (induction v)
  case (JArr xs)
  then have "map (\<lambda>x. encodeJson (sort_members x)) xs = map encodeJson xs" by (intro map_cong) auto
  then show ?case by (simp only: encodeJson.simps sort_members.simps map_map comp_def)
next
  case (JObj fs)
  let ?e = "\<lambda>(k, v). (k, encodeJson v)" and ?s = "\<lambda>(k, v). (k, sort_members v)"
  have eq: "map ?e (map ?s fs) = map ?e fs" using JObj by auto
  have "sort_key fst (map ?e (sort_key fst (map ?s fs))) = sort_key fst (sort_key fst (map ?e (map ?s fs)))"
    by (simp only: sort_key_map_values [where f = encodeJson])
  also have "\<dots> = sort_key fst (map ?e fs)" by (simp only: eq sort_sorted)
  finally show ?case by simp
qed simp_all

lemma canonicalJson_eq_iff:
  assumes "number_texts_ok number v" and "number_texts_ok number w"
    and "distinct_names v" and "distinct_names w"
    and "inj_on number (set_json v \<union> set_json w)"
  shows "canonicalJson number v = canonicalJson number w \<longleftrightarrow> in_order v = in_order w"
proof
  assume "canonicalJson number v = canonicalJson number w"
  then have "tryParseJson (encodeJson (map_json number v)) = tryParseJson (encodeJson (map_json number w))"
    using assms by (simp add: canonicalJson_encode)
  then have "map_json number (in_order v) = map_json number (in_order w)"
    using assms by (simp add: tryParseJson_encodeJson wf_number_texts sort_texts)
  then show "in_order v = in_order w"
    by (rule json.inj_map_strong [rotated])
       (use assms(5) in \<open>auto simp: set_in_order inj_on_def\<close>)
next
  assume "in_order v = in_order w"
  then have "sort_members (map_json number v) = sort_members (map_json number w)" by (simp add: sort_texts)
  then have "encodeJson (map_json number v) = encodeJson (map_json number w)" by (metis encode_sort_members)
  then show "canonicalJson number v = canonicalJson number w"
    using assms by (simp add: canonicalJson_encode)
qed

section \<open>Descriptors\<close>

definition descriptor_ok :: "workflow_descriptor \<Rightarrow> bool" where
  "descriptor_ok d \<longleftrightarrow>
     wd_descriptorVersion d \<in> {1, 2, 3} \<and> wd_name d \<noteq> []
     \<and> distinct (map wi_name (wd_inputs d))
     \<and> length (input_names CommandTail (wd_inputs d)) \<le> 1 \<and> length (input_names Stdin (wd_inputs d)) \<le> 1
     \<and> 1 \<in> set (wd_protocolVersions d) \<and> 1 \<in> set (wd_storeVersions d)
     \<and> distinct (wd_protocolVersions d) \<and> distinct (wd_storeVersions d)
     \<and> (\<forall>lo hi. wd_minFold d = Some lo \<and> wd_maxFold d = Some hi \<longrightarrow> lo \<le> hi)
     \<and> (wd_descriptorVersion d = 3 \<longrightarrow>
          2 \<in> set (wd_protocolVersions d) \<and> 2 \<in> set (wd_storeVersions d)
          \<and> wd_personAnsweringModes d = [js ''local-control''])"

lemma first_duplicate_None: "first_duplicate seen names = None \<longleftrightarrow> distinct names \<and> set seen \<inter> set names = {}"
  by (induction names arbitrary: seen) auto

lemma descriptor_checks_Inr:
  assumes "descriptor_checks runner d = Inr ()" and "wd_descriptorVersion d \<in> {1, 2, 3}"
  shows "descriptor_ok d"
proof -
  note c = assms(1) [unfolded descriptor_checks_def]
  from c have "assertName (wd_name d) (js ''workflow'') = Inr ()" by (auto simp: thenE_Inr)
  then have n: "wd_name d \<noteq> []" by (simp add: assertName_def)
  from c have i: "first_duplicate [] (map wi_name (wd_inputs d)) = None"
    and one: "length (input_names CommandTail (wd_inputs d)) \<le> 1" "length (input_names Stdin (wd_inputs d)) \<le> 1"
    and v: "1 \<in> set (wd_protocolVersions d)" "1 \<in> set (wd_storeVersions d)"
      "distinct (wd_protocolVersions d)" "distinct (wd_storeVersions d)"
    and f: "\<not> (case (wd_minFold d, wd_maxFold d) of (Some lo, Some hi) \<Rightarrow> hi < lo | _ \<Rightarrow> False)"
    and three: "wd_descriptorVersion d \<ge> 3 \<longrightarrow> 2 \<in> set (wd_protocolVersions d) \<and> 2 \<in> set (wd_storeVersions d)
          \<and> wd_personAnsweringModes d = [js ''local-control'']"
    by (auto simp: thenE_Inr split: option.splits)
  show ?thesis
    using n i one v f three assms(2) by (auto simp: descriptor_ok_def first_duplicate_None)
qed

lemma descriptor_members_version:
  "descriptor_members runner fs version = Inr d \<Longrightarrow> wd_descriptorVersion d = version \<and> wd_runnerId d = runner"
  unfolding descriptor_members_def by (elim thenE_elim) auto

lemma parseDescriptor_ok: "parseDescriptor runner v = Inr d \<Longrightarrow> descriptor_ok d \<and> wd_runnerId d = runner"
  unfolding parseDescriptor_def
  by (elim thenE_elim) (auto dest: descriptor_members_version descriptor_checks_Inr)

lemma parse_listing_ok:
  "parse_listing runner names vs = Inr ds \<Longrightarrow>
     list_all2 (\<lambda>v d. parseDescriptor runner v = Inr d) vs ds
     \<and> distinct (map wd_name ds) \<and> set (map wd_name ds) \<inter> set names = {}"
proof (induction vs arbitrary: names ds)
  case (Cons v vs)
  from Cons.prems obtain d rest where d: "parseDescriptor runner v = Inr d" "wd_name d \<notin> set names"
    and rest: "parse_listing runner (wd_name d # names) vs = Inr rest" and ds: "ds = d # rest"
    by (auto simp: thenE_Inr)
  from Cons.IH [OF rest] d show ?case by (auto simp: ds)
qed simp

lemma negotiate_max:
  assumes "negotiateProtocolVersion d supported = Inr v"
  shows "v \<in> set (wd_protocolVersions d) \<inter> set supported"
    and "w \<in> set (wd_protocolVersions d) \<inter> set supported \<Longrightarrow> w \<le> v"
proof -
  let ?common = "filter (\<lambda>v. v \<in> set supported) (wd_protocolVersions d)"
  have sort: "js_sort (\<lambda>l r. r - l) ?common = sort_key uminus ?common"
    by (rule js_sort_key) auto
  from assms obtain vs where vs: "sort_key uminus ?common = v # vs"
    by (auto simp: negotiateProtocolVersion_def sort split: list.splits)
  then have mem: "set (v # vs) = set ?common" by (metis set_sort)
  then show "v \<in> set (wd_protocolVersions d) \<inter> set supported" by auto
  have "sorted (map uminus (v # vs))" unfolding vs [symmetric] by (rule sorted_sort_key)
  then show "w \<in> set (wd_protocolVersions d) \<inter> set supported \<Longrightarrow> w \<le> v"
    using mem by auto
qed

end
