(* ===== verification/Launch.thy ===== *)
theory Launch
  imports CatalogueLaws Answers
begin

text \<open>
  The preparation of a launch (\<^verbatim>\<open>launch.ts\<close>): the checks of inputs, working directory and target
  arguments, the fork edits, the manifest, and the argument vector and environment of the runner.
  The file system and the runner are parameters (\<open>host\<close>); a prepared launch lists the files that
  it wrote. When a step fails the store directory is removed, so a refusal leaves no file.
\<close>

section \<open>Manifests\<close>

datatype target_kind = Scripted | RoutingTarget | Acp | Deck | Current | Child | RemoteTarget

fun target_name :: "target_kind \<Rightarrow> jstr" where
  "target_name Scripted = js ''scripted''"
| "target_name RoutingTarget = js ''routing''"
| "target_name Acp = js ''acp''"
| "target_name Deck = js ''deck''"
| "target_name Current = js ''current''"
| "target_name Child = js ''child''"
| "target_name RemoteTarget = js ''remote''"

datatype lineage_operation = Restart | Resume | Fork

fun operation_name :: "lineage_operation \<Rightarrow> jstr" where
  "operation_name Restart = js ''restart''"
| "operation_name Resume = js ''resume''"
| "operation_name Fork = js ''fork''"

text \<open>An edit of the manifest: \<^verbatim>\<open>replace\<close> carries the hash of the replacement.\<close>

datatype manifest_edit = DropEdit jstr | ReplaceEdit jstr jstr

fun edit_occurrence :: "manifest_edit \<Rightarrow> jstr" where
  "edit_occurrence (DropEdit occ) = occ"
| "edit_occurrence (ReplaceEdit occ _) = occ"

record launch_manifest =
  lm_versioned :: bool
  lm_runId :: jstr
  lm_runnerId :: jstr
  lm_runnerExecutable :: "jstr option"
  lm_runnerVersion :: "jstr option"
  lm_workflow :: jstr
  lm_cwd :: jstr
  lm_targetKind :: target_kind
  lm_targetArgs :: "jstr list"
  lm_inputHashes :: "(jstr, jstr) jsmap"
  lm_programHash :: jstr
  lm_createdAt :: jstr
  lm_parentRunId :: "jstr option"
  lm_lineage :: "lineage_operation option"
  lm_lineageEdits :: "manifest_edit list option"
  lm_persona :: "jstr option"
  lm_policyDigest :: "jstr option"
  lm_personAnswering :: "jstr option"
  lm_ownerId :: "jstr option"
  lm_runtimeStore :: bool

section \<open>Credential arguments\<close>

definition js_space :: "unit16 \<Rightarrow> bool" where
  "js_space c \<longleftrightarrow> is_white c \<or> c = 0xFEFF \<or> c = 0x2028 \<or> c = 0x2029"

text \<open>\<^verbatim>\<open>toLowerCase\<close> as far as ASCII letters result from it.\<close>

definition lower_unit :: "unit16 \<Rightarrow> jstr" where
  "lower_unit c =
     (if 65 \<le> c \<and> c \<le> 90 then [c + 32] else if c = 0x212A then [107] else if c = 0x130 then [105, 0x307] else [c])"

definition trimmed_lower :: "jstr \<Rightarrow> jstr" where
  "trimmed_lower raw = concat (map lower_unit (trim js_space raw))"

definition CREDENTIAL_KEYS :: "jstr list" where
  "CREDENTIAL_KEYS =
     map js [''api-key'', ''api_key'', ''apikey'', ''token'', ''access-token'', ''auth-token'',
       ''secret'', ''client-secret'', ''password'', ''authorization'', ''access-key'']"

text \<open>The alternatives of the regular expression \<^verbatim>\<open>credentialKey\<close>.\<close>

definition CREDENTIAL_WORDS :: "jstr list" where
  "CREDENTIAL_WORDS =
     map js [''api-key'', ''api_key'', ''apikey'', ''access-key'', ''access_key'', ''accesskey'',
       ''auth'', ''authorization'', ''token'', ''secret'', ''password'', ''cookie'', ''credential'']"

definition word_break :: "jstr \<Rightarrow> bool" where
  "word_break s \<longleftrightarrow> s = [] \<or> hd s = 45 \<or> hd s = 95"

fun credential_from :: "bool \<Rightarrow> jstr \<Rightarrow> bool" where
  "credential_from boundary [] = False"
| "credential_from boundary (c # s) =
     (boundary \<and> (\<exists>w \<in> set CREDENTIAL_WORDS. starts_with (c # s) w \<and> word_break (drop (length w) (c # s)))
      \<or> credential_from (c = 45 \<or> c = 95) s)"

definition credentialKey :: "jstr \<Rightarrow> bool" where
  "credentialKey s = credential_from True s"

text \<open>\<^verbatim>\<open>part.replace(/^--?/, "")\<close>.\<close>

definition strip_dashes :: "jstr \<Rightarrow> jstr" where
  "strip_dashes s =
     (if s \<noteq> [] \<and> hd s = 45 then (if tl s \<noteq> [] \<and> hd (tl s) = 45 then drop 2 s else tl s) else s)"

text \<open>\<^verbatim>\<open>text.split(separator, 1)[0]\<close>, and what follows the first separator.\<close>

definition before_unit :: "unit16 \<Rightarrow> jstr \<Rightarrow> jstr" where
  "before_unit c s = takeWhile (\<lambda>u. u \<noteq> c) s"

definition after_unit :: "unit16 \<Rightarrow> jstr \<Rightarrow> jstr" where
  "after_unit c s = drop (Suc (length (before_unit c s))) s"

definition authorization_header :: "jstr \<Rightarrow> bool" where
  "authorization_header argument \<longleftrightarrow>
     starts_with argument (js ''authorization'')
     \<and> starts_with (dropWhile js_space (drop 13 argument)) (js '':'')"

definition argument_parts :: "jstr \<Rightarrow> jstr list" where
  "argument_parts argument = split_on 61 (map (\<lambda>c. if c = 58 then 61 else c) argument)"

definition credential_argument :: "jstr \<Rightarrow> jstr \<Rightarrow> bool" where
  "credential_argument previous argument \<longleftrightarrow>
     (let key = strip_dashes (before_unit 61 argument);
          headerValue = (if previous = js ''--header'' \<or> previous = js ''-h'' then Some argument
                         else if key = js ''header'' \<and> 61 \<in> set argument then Some (after_unit 61 argument) else None);
          credentialHeader = (case headerValue of None \<Rightarrow> False | Some v \<Rightarrow> credentialKey (before_unit 58 v));
          embedded = list_ex (\<lambda>part. credentialKey (strip_dashes part)) (argument_parts argument) in
      key \<in> set CREDENTIAL_KEYS \<or> credentialKey key \<or> embedded \<or> authorization_header argument \<or> credentialHeader)"

text \<open>The arguments that are inspected: not the values of the routing options, not \<^verbatim>\<open>--adapter-arg\<close>.\<close>

fun inspected_args :: "bool \<Rightarrow> jstr list \<Rightarrow> jstr list" where
  "inspected_args skip [] = []"
| "inspected_args skip (raw # args) =
     (if skip then inspected_args False args
      else if trimmed_lower raw = js ''--persona'' \<or> trimmed_lower raw = js ''--realize'' then inspected_args True args
      else if trimmed_lower raw \<noteq> js ''--adapter-arg'' then raw # inspected_args False args
      else inspected_args False args)"

fun credential_in :: "jstr \<Rightarrow> jstr list \<Rightarrow> bool" where
  "credential_in previous [] = False"
| "credential_in previous (raw # args) =
     (credential_argument previous (trimmed_lower raw) \<or> credential_in (trimmed_lower raw) args)"

definition assertNoCredentialArgs :: "jstr list \<Rightarrow> unit result" where
  "assertNoCredentialArgs args =
     check (\<not> credential_in [] (inspected_args False args))
       (js ''credential-bearing target argv is forbidden; use inherited environment configuration'')"

section \<open>Inputs, persona and paths\<close>

definition assertExactInputs :: "jstr list \<Rightarrow> (jstr, jstr) jsmap \<Rightarrow> unit result" where
  "assertExactInputs expected actual =
     check (sort expected = sort (map fst actual))
       (js ''inputs must be exactly: ''
        @ (let text = join (js '', '') expected in if text = [] then js ''(none)'' else text))"

definition personaArgument :: "jstr list \<Rightarrow> jstr option" where
  "personaArgument args =
     (let after = takeWhile (\<lambda>a. a \<noteq> js ''--persona'') (rev args) in
      if js ''--persona'' \<notin> set args then None
      else (case rev after of
              [] \<Rightarrow> None
            | v # _ \<Rightarrow> if v \<noteq> [] \<and> \<not> starts_with v (js ''--'') then Some v else None))"

text \<open>The components of a path, and \<^verbatim>\<open>relative\<close> of \<^verbatim>\<open>node:path\<close> on resolved POSIX paths.\<close>

definition components :: "jstr \<Rightarrow> jstr list" where
  "components path = filter (\<lambda>c. c \<noteq> []) (split_on 47 path)"

fun relative_components :: "jstr list \<Rightarrow> jstr list \<Rightarrow> jstr list" where
  "relative_components (a # as) (b # bs) =
     (if a = b then relative_components as bs else replicate (Suc (length as)) (js ''..'') @ b # bs)"
| "relative_components as bs = replicate (length as) (js ''..'') @ bs"

definition relative_path :: "jstr \<Rightarrow> jstr \<Rightarrow> jstr" where
  "relative_path from_dir path = join (js ''/'') (relative_components (components from_dir) (components path))"

definition inside :: "jstr \<Rightarrow> jstr \<Rightarrow> bool" where
  "inside parent path =
     (let rel = relative_path parent path in rel = [] \<or> \<not> starts_with rel (js ''..'') \<and> \<not> isAbsolute rel)"

section \<open>Fork edits\<close>

datatype lineage_edit = Drop jstr | Replace jstr jstr

fun lineage_occurrence :: "lineage_edit \<Rightarrow> jstr" where
  "lineage_occurrence (Drop occ) = occ"
| "lineage_occurrence (Replace occ _) = occ"

text \<open>The files of a launch, as pairs of path and text in the order of writing.\<close>

type_synonym writes = "(jstr \<times> jstr) list"

definition path_in :: "jstr \<Rightarrow> jstr \<Rightarrow> jstr" where
  "path_in directory name = directory @ js ''/'' @ name"

text \<open>One edit: its arguments and the file of its replacement.\<close>

definition prepare_edit :: "(js_number \<Rightarrow> jstr) \<Rightarrow> jstr \<Rightarrow> nat \<times> lineage_edit \<Rightarrow> (jstr list \<times> writes) result" where
  "prepare_edit number directory = (\<lambda>(index, edit).
     thenE (check (canonical_text (lineage_occurrence edit)) (js ''fork edit occurrenceId must be an unsigned decimal string'')) (\<lambda>_.
       (case edit of
          Drop occ \<Rightarrow> Inr ([js ''--drop-answer'', occ], [])
        | Replace occ text \<Rightarrow>
            (case json_parse text of
               None \<Rightarrow> Inl (js ''replacement for occurrence '' @ occ @ js '' is not JSON'')
             | Some v \<Rightarrow>
                 (let path = path_in directory (js ''fork-replacement-'' @ dec index @ js ''.json'') in
                  Inr ([js ''--set-answer'', occ @ js ''='' @ path], [(path, stringify number v @ [10])]))))))"

definition writeForkEdits :: "(js_number \<Rightarrow> jstr) \<Rightarrow> jstr \<Rightarrow> lineage_edit list \<Rightarrow> (jstr list \<times> writes) result" where
  "writeForkEdits number directory edits =
     thenE (mapE (prepare_edit number directory) (enumerate 0 edits)) (\<lambda>parts.
       Inr (concat (map fst parts), concat (map snd parts)))"

section \<open>Preparing a launch\<close>

text \<open>
  What the host decides: resolved paths, runner invocations, hashes, the texts of numbers, the
  fresh run identifier, the process identifier of the owner, the time, and its environment.
\<close>

record host =
  ho_realpath :: "jstr \<Rightarrow> jstr result"
  ho_exec :: exec_file
  ho_sha256 :: "jstr \<Rightarrow> jstr"
  ho_number :: "js_number \<Rightarrow> jstr"
  ho_runId :: jstr
  ho_ownerId :: jstr
  ho_now :: jstr
  ho_env :: "(jstr, jstr) jsmap"

record launch_lineage =
  ll_operation :: lineage_operation
  ll_parentRunId :: jstr
  ll_parentRuntimeDir :: jstr
  ll_edits :: "lineage_edit list option"

record launch_options =
  lo_runner :: runner_config
  lo_descriptor :: workflow_descriptor
  lo_cwd :: jstr
  lo_stateDir :: jstr
  lo_inputs :: "(jstr, jstr) jsmap"
  lo_targetKind :: target_kind
  lo_targetArgs :: "jstr list"
  lo_persona :: "jstr option"
  lo_policyDigest :: "jstr option"
  lo_lineage :: "launch_lineage option"

record prepared_launch =
  pl_manifest :: launch_manifest
  pl_storeDir :: jstr
  pl_inputFiles :: "(jstr, jstr) jsmap"
  pl_stdinFile :: "jstr option"
  pl_controlFd :: bool
  pl_protocolVersion :: int
  pl_command :: jstr
  pl_args :: "jstr list"
  pl_env :: "(jstr, jstr) jsmap"

definition canonicalExecutable :: "host \<Rightarrow> jstr \<Rightarrow> jstr result" where
  "canonicalExecutable h path =
     thenE (check (isAbsolute path) (js ''runner executable must be absolute'')) (\<lambda>_. ho_realpath h path)"

definition allowedCwd :: "host \<Rightarrow> jstr \<Rightarrow> jstr list \<Rightarrow> jstr result" where
  "allowedCwd h path roots =
     thenE (ho_realpath h path) (\<lambda>cwd.
     thenE (mapE (ho_realpath h) roots) (\<lambda>allowed.
     thenE (check (list_ex (\<lambda>r. inside r cwd) allowed) (js ''cwd is outside configured roots: '' @ cwd)) (\<lambda>_.
       Inr cwd)))"

definition parentDirectory :: "host \<Rightarrow> jstr \<Rightarrow> jstr \<Rightarrow> jstr result" where
  "parentDirectory h stateDir parent =
     thenE (ho_realpath h parent) (\<lambda>dir.
     thenE (ho_realpath h (path_in stateDir (js ''runs''))) (\<lambda>runs.
     thenE (check (inside runs dir) (js ''parent runtime store is outside the configured run-state root'')) (\<lambda>_.
       Inr dir)))"

text \<open>The input files: the \<open>i\<close>-th declared input is written to \<^verbatim>\<open>i.txt\<close>.\<close>

definition input_files :: "jstr \<Rightarrow> workflow_input list \<Rightarrow> (jstr, jstr) jsmap" where
  "input_files directory inputs =
     map (\<lambda>(index, input). (wi_name input, path_in directory (dec index @ js ''.txt''))) (enumerate 0 inputs)"

definition input_value :: "(jstr, jstr) jsmap \<Rightarrow> jstr \<Rightarrow> jstr" where
  "input_value inputs name = (case map_of inputs name of Some v \<Rightarrow> v | None \<Rightarrow> [])"

definition input_writes :: "(jstr, jstr) jsmap \<Rightarrow> (jstr, jstr) jsmap \<Rightarrow> writes" where
  "input_writes inputs files = map (\<lambda>(name, path). (path, input_value inputs name)) files"

definition manifest_edit_of :: "(jstr \<Rightarrow> jstr) \<Rightarrow> lineage_edit \<Rightarrow> manifest_edit" where
  "manifest_edit_of sha256 edit =
     (case edit of Drop occ \<Rightarrow> DropEdit occ | Replace occ v \<Rightarrow> ReplaceEdit occ (sha256 v))"

definition control_fd :: "workflow_descriptor \<Rightarrow> jstr \<Rightarrow> bool result" where
  "control_fd d runnerId =
     (case map_of (wd_capabilities d) (js ''controlFd'') of
        None \<Rightarrow> Inr False
      | Some (Amount i) \<Rightarrow>
          thenE (check (i = 3) (js ''runner '' @ runnerId @ js '' advertises unsupported control fd '' @ int_text i)) (\<lambda>_. Inr True)
      | Some (Flag b) \<Rightarrow>
          Inl (js ''runner '' @ runnerId @ js '' advertises unsupported control fd '' @ (if b then js ''true'' else js ''false'')))"

definition stdin_input :: "workflow_descriptor \<Rightarrow> workflow_input option" where
  "stdin_input d = List.find (\<lambda>input. wi_source input = Stdin) (wd_inputs d)"

definition launch_manifest_of ::
  "host \<Rightarrow> launch_options \<Rightarrow> jstr \<Rightarrow> jstr \<Rightarrow> js_members \<Rightarrow> launch_manifest" where
  "launch_manifest_of h options executable cwd plan =
     \<lparr>lm_versioned = True, lm_runId = ho_runId h, lm_runnerId = rc_id (lo_runner options),
      lm_runnerExecutable = Some executable, lm_runnerVersion = Some (wd_runnerVersion (lo_descriptor options)),
      lm_workflow = wd_name (lo_descriptor options), lm_cwd = cwd, lm_targetKind = lo_targetKind options,
      lm_targetArgs = lo_targetArgs options,
      lm_inputHashes =
        map (\<lambda>input. (wi_name input, ho_sha256 h (input_value (lo_inputs options) (wi_name input))))
          (wd_inputs (lo_descriptor options)),
      lm_programHash =
        ho_sha256 h (case map_of plan (js ''program'') of Some program \<Rightarrow> canonicalJson (ho_number h) program | None \<Rightarrow> []),
      lm_createdAt = ho_now h, lm_parentRunId = map_option ll_parentRunId (lo_lineage options),
      lm_lineage = map_option ll_operation (lo_lineage options),
      lm_lineageEdits =
        (case lo_lineage options of None \<Rightarrow> None
         | Some l \<Rightarrow> map_option (map (manifest_edit_of (ho_sha256 h))) (ll_edits l)),
      lm_persona = (case lo_persona options of Some p \<Rightarrow> Some p | None \<Rightarrow> personaArgument (lo_targetArgs options)),
      lm_policyDigest = lo_policyDigest options, lm_personAnswering = Some (js ''engine''),
      lm_ownerId = Some (ho_ownerId h), lm_runtimeStore = True\<rparr>"

definition launch_args ::
  "launch_options \<Rightarrow> jstr \<Rightarrow> jstr option \<Rightarrow> jstr list \<Rightarrow> int \<Rightarrow> (jstr, jstr) jsmap \<Rightarrow> jstr list" where
  "launch_args options runId parentDir editArgs protocol files =
     (case rc_prefixArgs (lo_runner options) of None \<Rightarrow> [] | Some p \<Rightarrow> p)
     @ (case (lo_lineage options, parentDir) of
          (Some l, Some dir) \<Rightarrow>
            [js ''machine-'' @ operation_name (ll_operation l), runId, dir, wd_name (lo_descriptor options)] @ editArgs
        | _ \<Rightarrow> [js ''machine'', runId, wd_name (lo_descriptor options)])
     @ lo_targetArgs options
     @ (if protocol = 2 then [js ''--protocol-version'', js ''2''] else [])
     @ concat (map (\<lambda>(name, path). [js ''--input-file'', name @ js ''='' @ path])
         (filter (\<lambda>(name, _). map_option wi_name (stdin_input (lo_descriptor options)) \<noteq> Some name) files))"

definition launch_env :: "host \<Rightarrow> jstr \<Rightarrow> bool \<Rightarrow> (jstr, jstr) jsmap" where
  "launch_env h storeDir fd =
     (let env = map_set (js ''AGENT_CAT_RUN_OWNER'') (ho_ownerId h)
                  (map_set (js ''AGENT_CAT_RUN_STORE'') (path_in storeDir (js ''runtime'')) (ho_env h)) in
      if fd then AList.delete (js ''AGENT_CAT_CONTROL_STDIN'') (map_set (js ''AGENT_CAT_CONTROL_FD'') (js ''3'') env)
      else AList.delete (js ''AGENT_CAT_CONTROL_FD'') (map_set (js ''AGENT_CAT_CONTROL_STDIN'') (js ''1'') env))"

text \<open>The JSON value of a manifest, as \<^verbatim>\<open>atomicJson\<close> writes it.\<close>

definition edit_value :: "manifest_edit \<Rightarrow> js_value" where
  "edit_value edit =
     (case edit of
        DropEdit occ \<Rightarrow> JObj [(js ''type'', JStr (js ''drop'')), (js ''occurrenceId'', JStr occ)]
      | ReplaceEdit occ hash \<Rightarrow>
          JObj [(js ''type'', JStr (js ''replace'')), (js ''occurrenceId'', JStr occ), (js ''replacementHash'', JStr hash)])"

definition manifest_value :: "launch_manifest \<Rightarrow> js_value" where
  "manifest_value m =
     JObj (member_if ''frontendManifestVersion'' (if lm_versioned m then Some (JNum (js_int 2)) else None)
       @ [(js ''runId'', JStr (lm_runId m)), (js ''runnerId'', JStr (lm_runnerId m))]
       @ member_if ''runnerExecutable'' (map_option JStr (lm_runnerExecutable m))
       @ member_if ''runnerVersion'' (map_option JStr (lm_runnerVersion m))
       @ [(js ''workflow'', JStr (lm_workflow m)), (js ''cwd'', JStr (lm_cwd m)),
          (js ''targetKind'', JStr (target_name (lm_targetKind m))), (js ''targetArgs'', text_list (lm_targetArgs m)),
          (js ''inputHashes'', JObj (map (\<lambda>(name, hash). (name, JStr hash)) (lm_inputHashes m))),
          (js ''programHash'', JStr (lm_programHash m)), (js ''createdAt'', JStr (lm_createdAt m))]
       @ member_if ''persona'' (map_option JStr (lm_persona m))
       @ member_if ''policyDigest'' (map_option JStr (lm_policyDigest m))
       @ member_if ''personAnswering'' (map_option JStr (lm_personAnswering m))
       @ member_if ''ownerId'' (map_option JStr (lm_ownerId m))
       @ member_if ''runtimeStore'' (if lm_runtimeStore m then Some (JStr (js ''runtime'')) else None)
       @ member_if ''parentRunId'' (map_option JStr (lm_parentRunId m))
       @ member_if ''lineage'' (map_option (\<lambda>op. JStr (operation_name op)) (lm_lineage m))
       @ member_if ''lineageEdits'' (map_option (\<lambda>edits. JArr (map edit_value edits)) (lm_lineageEdits m)))"

definition prepareLaunch :: "host \<Rightarrow> launch_options \<Rightarrow> (prepared_launch \<times> writes) result" where
  "prepareLaunch h options =
     (let runner = lo_runner options; descriptor = lo_descriptor options; inputs = wd_inputs descriptor in
      thenE (canonicalExecutable h (rc_executable runner)) (\<lambda>executable.
      thenE (allowedCwd h (lo_cwd options) (rc_allowedCwds runner)) (\<lambda>cwd.
      thenE (case lo_lineage options of None \<Rightarrow> Inr None
             | Some l \<Rightarrow> thenE (parentDirectory h (lo_stateDir options) (ll_parentRuntimeDir l)) (\<lambda>dir. Inr (Some dir))) (\<lambda>parentDir.
      thenE (assertExactInputs (map wi_name inputs) (lo_inputs options)) (\<lambda>_.
      thenE (assertNoCredentialArgs (lo_targetArgs options)) (\<lambda>_.
      thenE (control_fd descriptor (rc_id runner)) (\<lambda>fd.
      thenE (check (stdin_input descriptor = None \<or> fd)
        (js ''runner '' @ rc_id runner @ js '' cannot combine workflow stdin with live controls'')) (\<lambda>_.
      thenE (negotiateProtocolVersion descriptor [1, 2]) (\<lambda>protocol.
      (let storeDir = path_in (lo_stateDir options) (js ''runs/'' @ ho_runId h);
           inputDir = path_in storeDir (js ''inputs'');
           files = input_files inputDir inputs;
           edits = (case lo_lineage options of None \<Rightarrow> [] | Some l \<Rightarrow> (case ll_edits l of None \<Rightarrow> [] | Some es \<Rightarrow> es)) in
       thenE (writeForkEdits (ho_number h) inputDir edits) (\<lambda>(editArgs, editWrites).
       thenE (readPlan (ho_exec h) (runner\<lparr>rc_executable := executable\<rparr>) (wd_name descriptor) files cwd) (\<lambda>plan.
         (let manifest = launch_manifest_of h options executable cwd plan in
          Inr (\<lparr>pl_manifest = manifest, pl_storeDir = storeDir, pl_inputFiles = files,
                pl_stdinFile = Option.bind (stdin_input descriptor) (\<lambda>input. map_of files (wi_name input)),
                pl_controlFd = fd, pl_protocolVersion = protocol, pl_command = executable,
                pl_args = launch_args options (ho_runId h) parentDir editArgs protocol files,
                pl_env = launch_env h storeDir fd\<rparr>,
               input_writes (lo_inputs options) files @ editWrites
               @ [(path_in storeDir (js ''supervisor-manifest.json''),
                   stringify (ho_number h) (manifest_value manifest) @ [10])]))))))))))))))"

text \<open>The plan shown before a launch; its files are removed again.\<close>

definition previewPlan ::
  "host \<Rightarrow> runner_config \<Rightarrow> workflow_descriptor \<Rightarrow> jstr \<Rightarrow> jstr \<Rightarrow> (jstr, jstr) jsmap \<Rightarrow> js_members result" where
  "previewPlan h runner descriptor cwd stateDir inputs =
     thenE (canonicalExecutable h (rc_executable runner)) (\<lambda>executable.
     thenE (allowedCwd h cwd (rc_allowedCwds runner)) (\<lambda>dir.
     thenE (assertExactInputs (map wi_name (wd_inputs descriptor)) inputs) (\<lambda>_.
       readPlan (ho_exec h) (runner\<lparr>rc_executable := executable\<rparr>) (wd_name descriptor)
         (input_files (path_in stateDir (js ''previews/'' @ ho_runId h)) (wd_inputs descriptor)) dir)))"

definition preflightLineage ::
  "host \<Rightarrow> runner_config \<Rightarrow> workflow_descriptor \<Rightarrow> jstr \<Rightarrow> jstr \<Rightarrow> (jstr, jstr) jsmap \<Rightarrow> jstr list \<Rightarrow>
   launch_lineage \<Rightarrow> unit result" where
  "preflightLineage h runner descriptor cwd stateDir inputs targetArgs lineage =
     thenE (canonicalExecutable h (rc_executable runner)) (\<lambda>executable.
     thenE (allowedCwd h cwd (rc_allowedCwds runner)) (\<lambda>dir.
     thenE (parentDirectory h stateDir (ll_parentRuntimeDir lineage)) (\<lambda>parent.
     thenE (assertExactInputs (map wi_name (wd_inputs descriptor)) inputs) (\<lambda>_.
     thenE (assertNoCredentialArgs targetArgs) (\<lambda>_.
     (let directory = path_in stateDir (js ''previews/'' @ ho_runId h) in
      thenE (writeForkEdits (ho_number h) directory (case ll_edits lineage of None \<Rightarrow> [] | Some es \<Rightarrow> es)) (\<lambda>(editArgs, _).
        checkLineage (ho_exec h) (runner\<lparr>rc_executable := executable\<rparr>) (operation_name (ll_operation lineage)) parent
          (wd_name descriptor) (input_files directory (wd_inputs descriptor)) (editArgs @ targetArgs) dir)))))))"

section \<open>Confinement\<close>

text \<open>
  What \<^verbatim>\<open>inside\<close> decides: the components of the directory are a prefix, and the first component
  below it does not begin with two dots. The specification without the second condition is
  containment; a directory entry whose own name begins with two dots is refused.
\<close>

lemma relative_components_prefix: "relative_components as (as @ cs) = cs"
  by (induction as) (cases cs, auto)

lemma relative_components_not_prefix:
  "\<not> (\<exists>cs. bs = as @ cs) \<Longrightarrow> \<exists>rest. relative_components as bs = js ''..'' # rest"
  by (induction as bs rule: relative_components.induct) (auto simp: neq_Nil_conv)

lemma join_hd: "join sep (x # xs) = x \<or> (\<exists>rest. join sep (x # xs) = x @ sep @ rest)"
  by (cases xs) auto

lemma components_ne: "c \<in> set (components path) \<Longrightarrow> c \<noteq> []"
  by (simp add: components_def)

lemma starts_with_dots: "starts_with s (js ''..'') \<longleftrightarrow> (\<exists>t. s = 46 # 46 # t)"
  by (cases s; cases "tl s") (auto simp: starts_with_def js_def)

lemma component_units: "c \<in> set (components path) \<Longrightarrow> 47 \<notin> set c \<and> c \<noteq> []"
  by (auto simp: components_def dest: split_on_pieces)

lemma inside_iff:
  "inside parent path \<longleftrightarrow>
     (\<exists>cs. components path = components parent @ cs \<and> (cs = [] \<or> \<not> starts_with (hd cs) (js ''..'')))"
proof (cases "\<exists>cs. components path = components parent @ cs")
  case True
  then obtain cs where cs: "components path = components parent @ cs" by blast
  then have rel: "relative_path parent path = join (js ''/'') cs"
    by (simp add: relative_path_def relative_components_prefix)
  show ?thesis
  proof (cases cs)
    case Nil
    then show ?thesis using cs by (simp add: inside_def rel)
  next
    case (Cons c rest)
    then have "c \<in> set (components path)" using cs by simp
    then have c: "47 \<notin> set c" "c \<noteq> []" using component_units by blast+
    then obtain u v where uv: "c = u # v" "u \<noteq> 47" by (cases c) auto
    obtain t where t: "join (js ''/'') cs = c @ t" "t = [] \<or> (\<exists>r. t = 47 # r)"
      using join_hd [of "js ''/''" c rest] by (auto simp: Cons js_def)
    have "starts_with (c @ t) (js ''..'') \<longleftrightarrow> starts_with c (js ''..'')"
      using t(2) by (cases v) (auto simp: starts_with_dots uv)
    moreover have "relative_path parent path = u # v @ t" using t(1) uv by (simp add: rel)
    ultimately show ?thesis
      using cs uv by (auto simp: inside_def Cons isAbsolute_def)
  qed
next
  case False
  then obtain rest where "relative_components (components parent) (components path) = js ''..'' # rest"
    using relative_components_not_prefix by blast
  then have "\<exists>t. relative_path parent path = js ''..'' @ t"
    using join_hd [of "js ''/''" "js ''..''" rest] by (auto simp: relative_path_def)
  then have "\<not> inside parent path" by (auto simp: inside_def starts_with_def js_def Let_def)
  with False show ?thesis by auto
qed

end
