(* ===== verification/StoredRuns.thy ===== *)
theory StoredRuns
  imports Launch ReducerLaws
begin

text \<open>
  What the supervisor reads back from a run store (\<^verbatim>\<open>supervisor.ts\<close>): the launch manifest and
  the stored snapshot, and the laws that tie the manifest reader to the manifest writer of
  \<^verbatim>\<open>launch.ts\<close>.
\<close>

section \<open>Readers\<close>

definition record_of :: "js_value option \<Rightarrow> string \<Rightarrow> js_members result" where
  "record_of value label = asRecord value (js label @ js '' is not an object'')"

definition string_of :: "js_value option \<Rightarrow> string \<Rightarrow> jstr result" where
  "string_of value label = text_of value (js label)"

definition optionalText :: "js_value option \<Rightarrow> string \<Rightarrow> jstr option result" where
  "optionalText value label =
     (if value = None \<or> value = Some JNull then Inr None
      else thenE (string_of value label) (\<lambda>s. Inr (Some s)))"

definition stringArray :: "js_value option \<Rightarrow> string \<Rightarrow> jstr list result" where
  "stringArray value label = texts value (js label)"

text \<open>A member that may be \<^verbatim>\<open>undefined\<close>, and one that \<^verbatim>\<open>null\<close> also leaves out.\<close>

definition defined_text :: "js_value option \<Rightarrow> string \<Rightarrow> jstr option result" where
  "defined_text value label =
     (case value of None \<Rightarrow> Inr None | Some v \<Rightarrow> thenE (string_of (Some v) label) (\<lambda>s. Inr (Some s)))"

definition array_or_empty :: "js_value option \<Rightarrow> string \<Rightarrow> js_value list result" where
  "array_or_empty value message =
     (case value of
        None \<Rightarrow> Inr [] | Some JNull \<Rightarrow> Inr [] | Some (JArr items) \<Rightarrow> Inr items | _ \<Rightarrow> Inl (js message))"

section \<open>Launch manifests\<close>

definition MANIFEST_KEYS :: "jstr list" where
  "MANIFEST_KEYS =
     map js [''frontendManifestVersion'', ''runId'', ''runnerId'', ''runnerExecutable'', ''runnerVersion'',
       ''workflow'', ''cwd'', ''targetKind'', ''targetArgs'', ''inputHashes'', ''programHash'', ''createdAt'',
       ''parentRunId'', ''lineage'', ''lineageEdits'', ''persona'', ''policyDigest'', ''personAnswering'',
       ''ownerId'', ''runtimeStore'']"

definition target_kind_of :: "jstr \<Rightarrow> target_kind option" where
  "target_kind_of s =
     List.find (\<lambda>k. target_name k = s) [Scripted, RoutingTarget, Acp, Deck, Current, Child, RemoteTarget]"

definition operation_of :: "jstr \<Rightarrow> lineage_operation option" where
  "operation_of s = List.find (\<lambda>op. operation_name op = s) [Restart, Resume, Fork]"

definition parse_hashes :: "js_value option \<Rightarrow> (jstr, jstr) jsmap result" where
  "parse_hashes value =
     thenE (record_of value ''inputHashes'') (\<lambda>fs.
       (case string_items (map snd fs) of
          Some hashes \<Rightarrow> Inr (zip (map fst fs) hashes)
        | None \<Rightarrow> Inl (js ''inputHashes is invalid'')))"

definition parse_edit :: "bool \<Rightarrow> js_value \<Rightarrow> manifest_edit result" where
  "parse_edit versioned entry =
     thenE (record_of (Some entry) ''lineage edit'') (\<lambda>edit.
     thenE (string_of (map_of edit (js ''type'')) ''lineage edit type'') (\<lambda>kind.
     thenE (check (kind = js ''drop'' \<or> kind = js ''replace'') (js ''lineage edit type is invalid'')) (\<lambda>_.
     thenE (string_of (map_of edit (js ''occurrenceId'')) ''lineage edit occurrenceId'') (\<lambda>occ.
     thenE (check (canonical_text occ) (js ''lineage edit occurrenceId is invalid'')) (\<lambda>_.
     thenE (defined_text (map_of edit (js ''replacementHash'')) ''lineage edit replacementHash'') (\<lambda>hash.
     thenE (check (kind = js ''replace'' \<longrightarrow> truthy hash) (js ''replacement lineage edit has no hash'')) (\<lambda>_.
     thenE (check (kind = js ''drop'' \<longrightarrow> hash = None) (js ''drop lineage edit has a replacement hash'')) (\<lambda>_.
     thenE (check (\<not> (versioned \<and> (case hash of None \<Rightarrow> False | Some h \<Rightarrow> \<not> sha256_text h)))
       (js ''replacement lineage edit hash is invalid'')) (\<lambda>_.
       Inr (case hash of None \<Rightarrow> DropEdit occ | Some h \<Rightarrow> ReplaceEdit occ h))))))))))"

text \<open>The members that every manifest has; \<open>versioned\<close> selects the checks of version 2.\<close>

definition parse_base :: "bool \<Rightarrow> js_members \<Rightarrow> launch_manifest result" where
  "parse_base versioned fs =
     thenE (parse_hashes (map_of fs (js ''inputHashes''))) (\<lambda>hashes.
     thenE (stringArray (map_of fs (js ''targetArgs'')) ''targetArgs'') (\<lambda>targetArgs.
     thenE (string_of (map_of fs (js ''targetKind'')) ''targetKind'') (\<lambda>kindText.
     thenE (case target_kind_of kindText of Some k \<Rightarrow> Inr k | None \<Rightarrow> Inl (js ''targetKind is invalid'')) (\<lambda>kind.
     thenE (optionalText (map_of fs (js ''lineage'')) ''lineage'') (\<lambda>lineageText.
     thenE (case lineageText of None \<Rightarrow> Inr None
            | Some s \<Rightarrow> (case operation_of s of Some op \<Rightarrow> Inr (Some op) | None \<Rightarrow> Inl (js ''lineage is invalid''))) (\<lambda>lineage.
     thenE (array_or_empty (map_of fs (js ''lineageEdits'')) ''lineageEdits is invalid'') (\<lambda>rawEdits.
     thenE (mapE (parse_edit versioned) rawEdits) (\<lambda>edits.
     thenE (check (unique (map edit_occurrence edits)) (js ''lineage answer was edited more than once'')) (\<lambda>_.
     thenE (optionalText (map_of fs (js ''parentRunId'')) ''parentRunId'') (\<lambda>parentRunId.
     thenE (check ((parentRunId = None) = (lineage = None)) (js ''parentRunId and lineage must appear together'')) (\<lambda>_.
     thenE (check (lineage = Some Fork \<or> edits = []) (js ''only fork lineage may contain answer edits'')) (\<lambda>_.
     thenE (string_of (map_of fs (js ''runId'')) ''runId'') (\<lambda>runId.
     thenE (string_of (map_of fs (js ''runnerId'')) ''runnerId'') (\<lambda>runnerId.
     thenE (string_of (map_of fs (js ''workflow'')) ''workflow'') (\<lambda>workflow.
     thenE (string_of (map_of fs (js ''cwd'')) ''cwd'') (\<lambda>cwd.
     thenE (string_of (map_of fs (js ''programHash'')) ''programHash'') (\<lambda>programHash.
     thenE (string_of (map_of fs (js ''createdAt'')) ''createdAt'') (\<lambda>createdAt.
       Inr \<lparr>lm_versioned = False, lm_runId = runId, lm_runnerId = runnerId, lm_runnerExecutable = None,
            lm_runnerVersion = None, lm_workflow = workflow, lm_cwd = cwd, lm_targetKind = kind,
            lm_targetArgs = targetArgs, lm_inputHashes = hashes, lm_programHash = programHash,
            lm_createdAt = createdAt, lm_parentRunId = parentRunId, lm_lineage = lineage,
            lm_lineageEdits = Some edits, lm_persona = None, lm_policyDigest = None,
            lm_personAnswering = None, lm_ownerId = None, lm_runtimeStore = False\<rparr>))))))))))))))))))"

text \<open>\<^verbatim>\<open>/^[A-Za-z0-9._-]{1,128}$/\<close>.\<close>

definition run_id_text :: "jstr \<Rightarrow> bool" where
  "run_id_text s \<longleftrightarrow> 1 \<le> length s \<and> length s \<le> 128
     \<and> list_all (\<lambda>c. is_letter c \<or> is_digit c \<or> c = 46 \<or> c = 95 \<or> c = 45) s"

definition parse_versioned :: "js_members \<Rightarrow> launch_manifest \<Rightarrow> launch_manifest result" where
  "parse_versioned fs base =
     thenE (check (run_id_text (lm_runId base)) (js ''runId is invalid'')) (\<lambda>_.
     thenE (check (isAbsolute (lm_cwd base)) (js ''frontend cwd is not absolute'')) (\<lambda>_.
     thenE (check (sha256_text (lm_programHash base) \<and> list_all (\<lambda>(_, hash). sha256_text hash) (lm_inputHashes base))
       (js ''frontend digest is invalid'')) (\<lambda>_.
     thenE (string_of (map_of fs (js ''runnerExecutable'')) ''runnerExecutable'') (\<lambda>executable.
     thenE (check (isAbsolute executable) (js ''runnerExecutable is not absolute'')) (\<lambda>_.
     thenE (string_of (map_of fs (js ''personAnswering'')) ''personAnswering'') (\<lambda>answering.
     thenE (check (answering = js ''engine'' \<or> answering = js ''local-control'') (js ''personAnswering is invalid'')) (\<lambda>_.
     thenE (check (map_of fs (js ''runtimeStore'') = Some (JStr (js ''runtime''))) (js ''runtimeStore is invalid'')) (\<lambda>_.
     thenE (optionalText (map_of fs (js ''persona'')) ''persona'') (\<lambda>persona.
     thenE (optionalText (map_of fs (js ''policyDigest'')) ''policyDigest'') (\<lambda>policyDigest.
     thenE (check (case policyDigest of None \<Rightarrow> True | Some d \<Rightarrow> sha256_text d) (js ''policyDigest is invalid'')) (\<lambda>_.
     thenE (string_of (map_of fs (js ''runnerVersion'')) ''runnerVersion'') (\<lambda>runnerVersion.
     thenE (string_of (map_of fs (js ''ownerId'')) ''ownerId'') (\<lambda>ownerId.
       Inr (base\<lparr>lm_versioned := True, lm_runnerExecutable := Some executable,
                lm_runnerVersion := Some runnerVersion, lm_persona := persona, lm_policyDigest := policyDigest,
                lm_personAnswering := Some answering, lm_ownerId := Some ownerId, lm_runtimeStore := True\<rparr>))))))))))))))"

definition parseLaunchManifest :: "js_value \<Rightarrow> launch_manifest result" where
  "parseLaunchManifest value =
     thenE (record_of (Some value) ''supervisor manifest'') (\<lambda>fs.
     (let version = map_of fs (js ''frontendManifestVersion''); versioned = (version \<noteq> None) in
      thenE (if versioned then
               thenE (check (version = Some (JNum (js_int 2))) (js ''unsupported frontend manifest version'')) (\<lambda>_.
                 onlyKeys fs MANIFEST_KEYS (js ''frontend manifest''))
             else Inr ()) (\<lambda>_.
      thenE (parse_base versioned fs) (\<lambda>base.
        if versioned then parse_versioned fs base else Inr base))))"

section \<open>Stored snapshots\<close>

text \<open>
  The reader keeps the members of an occurrence and of an attempt as it finds them and rebuilds
  the maps; \<open>members\<close> are those of the stored object.
\<close>

record stored_attempt =
  sa_members :: js_members
  sa_messages :: "jstr list"
  sa_tools :: "(jstr, js_members) jsmap"
  sa_todos :: "js_members list"
  sa_usage :: "js_members option"
  sa_reasoning :: "jstr list"

record stored_occurrence =
  so_members :: js_members
  so_id :: jstr
  so_attempts :: "(jstr, stored_attempt) jsmap"

record stored_snapshot =
  ss_members :: js_members
  ss_runId :: jstr
  ss_status :: run_status
  ss_lastSequence :: "int option"
  ss_occurrences :: "(jstr, stored_occurrence) jsmap"
  ss_authoredOrder :: "jstr list"
  ss_traceRecorded :: bool
  ss_eventDigests :: "(jstr, jstr) jsmap"
  ss_controlAcks :: "(jstr, control_ack) jsmap"

definition status_of :: "js_value option \<Rightarrow> run_status option" where
  "status_of value =
     (case value of
        Some (JStr s) \<Rightarrow>
          List.find (\<lambda>st. status_name st = s) [Starting, Running, Cancelling, Succeeded, RunFailed, RunCancelled, Orphaned]
      | _ \<Rightarrow> None)"

text \<open>An entry of a stored map: an array of two elements.\<close>

definition pair_of :: "js_value \<Rightarrow> string \<Rightarrow> (js_value \<times> js_value) result" where
  "pair_of item message = (case item of JArr [a, b] \<Rightarrow> Inr (a, b) | _ \<Rightarrow> Inl (js message))"

definition array_member :: "js_members \<Rightarrow> string \<Rightarrow> string \<Rightarrow> js_value list result" where
  "array_member fs name message = array_of (map_of fs (js name)) (js message)"

definition map_entries :: "('k \<times> 'v) list \<Rightarrow> ('k, 'v) jsmap" where
  "map_entries entries = fold (\<lambda>(k, v) m. map_set k v m) entries []"

definition string_list_or_empty :: "js_value option \<Rightarrow> string \<Rightarrow> jstr list result" where
  "string_list_or_empty value label =
     (if value = None \<or> value = Some JNull then Inr [] else stringArray value label)"

definition stored_tool :: "js_value \<Rightarrow> (jstr \<times> js_members) result" where
  "stored_tool item =
     thenE (pair_of item ''snapshot public tool entry is invalid'') (\<lambda>(a, b).
     thenE (string_of (Some a) ''public tool id'') (\<lambda>ident.
     thenE (record_of (Some b) ''public tool'') (\<lambda>tool. Inr (ident, tool))))"

definition stored_attempt_entry :: "js_value \<Rightarrow> (jstr \<times> stored_attempt) result" where
  "stored_attempt_entry item =
     thenE (pair_of item ''snapshot attempt entry is invalid'') (\<lambda>(a, b).
     thenE (string_of (Some a) ''attempt id'') (\<lambda>ident.
     thenE (record_of (Some b) ''attempt'') (\<lambda>fs.
     thenE (array_or_empty (map_of fs (js ''tools'')) ''snapshot public tools is invalid'') (\<lambda>rawTools.
     thenE (mapE stored_tool rawTools) (\<lambda>tools.
     thenE (array_or_empty (map_of fs (js ''todos'')) ''snapshot public todos is invalid'') (\<lambda>rawTodos.
     thenE (string_list_or_empty (map_of fs (js ''messages'')) ''public messages'') (\<lambda>messages.
     thenE (mapE (\<lambda>todo. record_of (Some todo) ''public todo'') rawTodos) (\<lambda>todos.
     thenE (case map_of fs (js ''usage'') of None \<Rightarrow> Inr None
            | v \<Rightarrow> thenE (record_of v ''public usage'') (\<lambda>u. Inr (Some u))) (\<lambda>usage.
     thenE (string_list_or_empty (map_of fs (js ''reasoningSummaries'')) ''public reasoning summaries'') (\<lambda>reasoning.
       Inr (ident, \<lparr>sa_members = fs, sa_messages = messages, sa_tools = map_entries tools, sa_todos = todos,
                    sa_usage = usage, sa_reasoning = reasoning\<rparr>)))))))))))"

definition stored_occurrence_entry :: "js_value \<Rightarrow> (jstr \<times> stored_occurrence) result" where
  "stored_occurrence_entry item =
     thenE (pair_of item ''snapshot occurrence entry is invalid'') (\<lambda>(a, b).
     thenE (string_of (Some a) ''occurrence id'') (\<lambda>ident.
     thenE (record_of (Some b) ''occurrence'') (\<lambda>fs.
     thenE (array_member fs ''attempts'' ''snapshot attempts is invalid'') (\<lambda>items.
     thenE (mapE stored_attempt_entry items) (\<lambda>attempts.
       Inr (ident, \<lparr>so_members = fs, so_id = ident, so_attempts = map_entries attempts\<rparr>))))))"

text \<open>A stored digest that is not yet a hash (an older format) is hashed.\<close>

definition stored_digest :: "(jstr \<Rightarrow> jstr) \<Rightarrow> js_value \<Rightarrow> (jstr \<times> jstr) result" where
  "stored_digest sha256 item =
     thenE (pair_of item ''snapshot event digest is invalid'') (\<lambda>(a, b).
     thenE (string_of (Some b) ''event digest'') (\<lambda>stored.
     thenE (string_of (Some a) ''event sequence'') (\<lambda>sequence.
       Inr (sequence, if sha256_text stored then stored else sha256 stored))))"

definition stored_ack :: "js_value \<Rightarrow> (jstr \<times> control_ack) result" where
  "stored_ack item =
     thenE (pair_of item ''snapshot control acknowledgement is invalid'') (\<lambda>(a, b).
     thenE (record_of (Some b) ''control acknowledgement'') (\<lambda>fs.
     thenE (string_of (Some a) ''control id'') (\<lambda>controlId.
     thenE (string_of (map_of fs (js ''state'')) ''control state'') (\<lambda>state.
     thenE (string_of (map_of fs (js ''message'')) ''control message'') (\<lambda>message.
     thenE (defined_text (map_of fs (js ''command'')) ''control command'') (\<lambda>command.
     thenE (defined_text (map_of fs (js ''occurrenceId'')) ''control occurrenceId'') (\<lambda>occ.
     thenE (defined_text (map_of fs (js ''attemptId'')) ''control attemptId'') (\<lambda>att.
       Inr (controlId, \<lparr>ca_controlId = controlId, ca_state = state, ca_message = message,
                        ca_command = command, ca_occurrenceId = occ, ca_attemptId = att\<rparr>)))))))))"

definition stored_sequence :: "js_value option \<Rightarrow> int option result" where
  "stored_sequence value =
     (case value of
        None \<Rightarrow> Inr None
      | Some (JStr s) \<Rightarrow>
          if canonical_text s then Inr (Some (int (digits_val s))) else Inl (js ''snapshot sequence is invalid'')
      | _ \<Rightarrow> Inl (js ''snapshot sequence is invalid''))"

definition parseSnapshot :: "(jstr \<Rightarrow> jstr) \<Rightarrow> js_value \<Rightarrow> jstr \<Rightarrow> stored_snapshot result" where
  "parseSnapshot sha256 value runId =
     thenE (record_of (Some value) ''run snapshot'') (\<lambda>fs.
     thenE (check (map_of fs (js ''runId'') = Some (JStr runId)) (js ''snapshot runId does not match its directory manifest'')) (\<lambda>_.
     thenE (case status_of (map_of fs (js ''status'')) of Some st \<Rightarrow> Inr st | None \<Rightarrow> Inl (js ''snapshot status is invalid'')) (\<lambda>status.
     thenE (array_member fs ''occurrences'' ''snapshot occurrences is invalid'') (\<lambda>items.
     thenE (mapE stored_occurrence_entry items) (\<lambda>occurrences.
     thenE (array_member fs ''eventDigests'' ''snapshot eventDigests is invalid'') (\<lambda>digestItems.
     thenE (mapE (stored_digest sha256) digestItems) (\<lambda>digests.
     thenE (array_or_empty (map_of fs (js ''controlAcks'')) ''snapshot controlAcks is invalid'') (\<lambda>ackItems.
     thenE (mapE stored_ack ackItems) (\<lambda>acks.
     thenE (stored_sequence (map_of fs (js ''lastSequence''))) (\<lambda>sequence.
     thenE (stringArray (map_of fs (js ''authoredOrder'')) ''authoredOrder'') (\<lambda>authoredOrder.
     thenE (case map_of fs (js ''traceRecorded'') of
              None \<Rightarrow> Inr (authoredOrder \<noteq> [])
            | Some (JBool b) \<Rightarrow> Inr b
            | _ \<Rightarrow> Inl (js ''snapshot traceRecorded is invalid'')) (\<lambda>traceRecorded.
       Inr \<lparr>ss_members = fs, ss_runId = runId, ss_status = status, ss_lastSequence = sequence,
            ss_occurrences = map_entries occurrences, ss_authoredOrder = authoredOrder,
            ss_traceRecorded = traceRecorded, ss_eventDigests = map_entries digests,
            ss_controlAcks = map_entries acks\<rparr>))))))))))))"

end
