(* ===== verification/StoredLaws.thy ===== *)
theory StoredLaws
  imports StoredRuns
begin

text \<open>
  The manifest reader inverts the manifest writer, and what an accepted manifest is.
\<close>

definition edit_ok :: "manifest_edit \<Rightarrow> bool" where
  "edit_ok e \<longleftrightarrow> canonical_text (edit_occurrence e) \<and> (case e of DropEdit _ \<Rightarrow> True | ReplaceEdit _ h \<Rightarrow> sha256_text h)"

definition edits_of :: "launch_manifest \<Rightarrow> manifest_edit list" where
  "edits_of m = (case lm_lineageEdits m of None \<Rightarrow> [] | Some es \<Rightarrow> es)"

definition lineage_ok :: "launch_manifest \<Rightarrow> bool" where
  "lineage_ok m \<longleftrightarrow>
     (lm_parentRunId m = None \<longleftrightarrow> lm_lineage m = None) \<and> (lm_lineage m = Some Fork \<or> edits_of m = [])
     \<and> distinct (map edit_occurrence (edits_of m)) \<and> list_all (\<lambda>e. canonical_text (edit_occurrence e)) (edits_of m)"

definition manifest_ok :: "launch_manifest \<Rightarrow> bool" where
  "manifest_ok m \<longleftrightarrow>
     lm_versioned m \<and> run_id_text (lm_runId m) \<and> isAbsolute (lm_cwd m) \<and> sha256_text (lm_programHash m)
     \<and> list_all (\<lambda>(_, h). sha256_text h) (lm_inputHashes m)
     \<and> (\<exists>e. lm_runnerExecutable m = Some e \<and> isAbsolute e) \<and> lm_runnerVersion m \<noteq> None
     \<and> (lm_personAnswering m = Some (js ''engine'') \<or> lm_personAnswering m = Some (js ''local-control''))
     \<and> lm_ownerId m \<noteq> None \<and> lm_runtimeStore m \<and> pred_option sha256_text (lm_policyDigest m)
     \<and> lineage_ok m \<and> list_all edit_ok (edits_of m)"

lemma map_of_member_if [simp]:
  "map_of (member_if n v @ fs) k = (if k = js n \<and> v \<noteq> None then v else map_of fs k)"
  "map_of (member_if n v) k = (if k = js n then v else None)"
  by (auto simp: member_if_def split: option.splits)

lemma string_items_text [simp]: "string_items (map JStr xs) = Some xs"
  by (simp add: string_items_iff)

lemma string_of_text [simp]: "string_of (Some (JStr s)) label = Inr s"
  by (simp add: string_of_def text_of_def)

lemma optionalText_text [simp]: "optionalText (map_option JStr v) label = Inr v"
  by (cases v) (simp_all add: optionalText_def)

lemma stringArray_text [simp]: "stringArray (Some (text_list xs)) label = Inr xs"
  by (simp add: stringArray_def texts_def text_list_def)

lemma sha256_nonempty: "sha256_text h \<Longrightarrow> h \<noteq> []"
  by (auto simp: sha256_text_def)

lemma parse_edit_value: "edit_ok e \<Longrightarrow> parse_edit True (edit_value e) = Inr e"
  by (cases e)
     (auto simp: parse_edit_def edit_value_def edit_ok_def record_of_def asRecord_def check_def defined_text_def
        truthy_def sha256_nonempty)

lemma parse_hashes_value:
  "parse_hashes (Some (JObj (map (\<lambda>(name, hash). (name, JStr hash)) hs))) = Inr hs"
proof -
  have "map snd (map (\<lambda>(name, hash). (name, JStr hash)) hs) = map JStr (map snd hs)" by auto
  then have items: "string_items (map snd (map (\<lambda>(name, hash). (name, JStr hash)) hs)) = Some (map snd hs)"
    by (simp only: string_items_iff)
  have names: "map fst (map (\<lambda>(name, hash). (name, JStr hash)) hs) = map fst hs" by auto
  show ?thesis
    by (simp only: parse_hashes_def record_of_def asRecord_def option.case json.case thenE_simps items names
        zip_map_fst_snd)
qed

lemma target_kind_of_name [simp]: "target_kind_of (target_name k) = Some k"
  by (cases k) (simp_all add: target_kind_of_def)

lemma operation_of_name [simp]: "operation_of (operation_name op) = Some op"
  by (cases op) (simp_all add: operation_of_def)

lemma mapE_map: "(\<And>x. x \<in> set xs \<Longrightarrow> f (g x) = Inr x) \<Longrightarrow> mapE f (map g xs) = Inr xs"
  by (induction xs) auto

definition base_of :: "launch_manifest \<Rightarrow> launch_manifest" where
  "base_of m =
     m\<lparr>lm_versioned := False, lm_runnerExecutable := None, lm_runnerVersion := None,
       lm_lineageEdits := Some (edits_of m), lm_persona := None, lm_policyDigest := None,
       lm_personAnswering := None, lm_ownerId := None, lm_runtimeStore := False\<rparr>"

definition manifest_members :: "launch_manifest \<Rightarrow> js_members" where
  "manifest_members m = (case manifest_value m of JObj fs \<Rightarrow> fs | _ \<Rightarrow> [])"

lemma manifest_value_members: "manifest_value m = JObj (manifest_members m)"
  by (simp add: manifest_members_def manifest_value_def)

lemma manifest_lookup:
  "map_of (manifest_members m) (js ''frontendManifestVersion'') = (if lm_versioned m then Some (JNum (js_int 2)) else None)"
  "map_of (manifest_members m) (js ''runId'') = Some (JStr (lm_runId m))"
  "map_of (manifest_members m) (js ''runnerId'') = Some (JStr (lm_runnerId m))"
  "map_of (manifest_members m) (js ''runnerExecutable'') = map_option JStr (lm_runnerExecutable m)"
  "map_of (manifest_members m) (js ''runnerVersion'') = map_option JStr (lm_runnerVersion m)"
  "map_of (manifest_members m) (js ''workflow'') = Some (JStr (lm_workflow m))"
  "map_of (manifest_members m) (js ''cwd'') = Some (JStr (lm_cwd m))"
  "map_of (manifest_members m) (js ''targetKind'') = Some (JStr (target_name (lm_targetKind m)))"
  "map_of (manifest_members m) (js ''targetArgs'') = Some (text_list (lm_targetArgs m))"
  "map_of (manifest_members m) (js ''inputHashes'') = Some (JObj (map (\<lambda>(name, hash). (name, JStr hash)) (lm_inputHashes m)))"
  "map_of (manifest_members m) (js ''programHash'') = Some (JStr (lm_programHash m))"
  "map_of (manifest_members m) (js ''createdAt'') = Some (JStr (lm_createdAt m))"
  "map_of (manifest_members m) (js ''persona'') = map_option JStr (lm_persona m)"
  "map_of (manifest_members m) (js ''policyDigest'') = map_option JStr (lm_policyDigest m)"
  "map_of (manifest_members m) (js ''personAnswering'') = map_option JStr (lm_personAnswering m)"
  "map_of (manifest_members m) (js ''ownerId'') = map_option JStr (lm_ownerId m)"
  "map_of (manifest_members m) (js ''runtimeStore'') = (if lm_runtimeStore m then Some (JStr (js ''runtime'')) else None)"
  "map_of (manifest_members m) (js ''parentRunId'') = map_option JStr (lm_parentRunId m)"
  "map_of (manifest_members m) (js ''lineage'') = map_option (\<lambda>op. JStr (operation_name op)) (lm_lineage m)"
  "map_of (manifest_members m) (js ''lineageEdits'') = map_option (\<lambda>edits. JArr (map edit_value edits)) (lm_lineageEdits m)"
  by (simp_all add: manifest_members_def manifest_value_def del: map_of_append)

lemma member_if_keys: "P (js n) \<Longrightarrow> list_all (\<lambda>(k, _). P k) (member_if n v)"
  by (simp add: member_if_def split: option.split)

lemma manifest_keys: "list_all (\<lambda>(k, _). k \<in> set MANIFEST_KEYS) (manifest_members m)"
  by (simp add: manifest_members_def manifest_value_def member_if_keys MANIFEST_KEYS_def)

lemma edits_value:
  "list_all edit_ok (edits_of m) \<Longrightarrow>
   array_or_empty (map_of (manifest_members m) (js ''lineageEdits'')) message = Inr (map edit_value (edits_of m))
   \<and> mapE (parse_edit True) (map edit_value (edits_of m)) = Inr (edits_of m)"
  by (auto simp: manifest_lookup array_or_empty_def edits_of_def list_all_iff split: option.splits
      intro!: mapE_map parse_edit_value)

lemma lineage_value:
  "optionalText (map_of (manifest_members m) (js ''lineage'')) label = Inr (map_option operation_name (lm_lineage m))
   \<and> (case map_option operation_name (lm_lineage m) of None \<Rightarrow> Inr None
       | Some s \<Rightarrow> (case operation_of s of Some op \<Rightarrow> Inr (Some op) | None \<Rightarrow> Inl e)) = Inr (lm_lineage m)"
  by (cases "lm_lineage m") (simp_all add: manifest_lookup optionalText_def)

lemma check_True [simp]: "check True message = Inr ()"
  by (simp add: check_def)

lemma parse_base_value:
  assumes "lineage_ok m" and "list_all edit_ok (edits_of m)"
  shows "parse_base True (manifest_members m) = Inr (base_of m)"
proof -
  have l: "(lm_parentRunId m = None) = (lm_lineage m = None)" "lm_lineage m = Some Fork \<or> edits_of m = []"
    "distinct (map edit_occurrence (edits_of m))"
    using assms(1) by (auto simp: lineage_ok_def)
  note edits = edits_value [OF assms(2)]
  show ?thesis
    unfolding parse_base_def
    by (simp only: manifest_lookup(2,3,6-12,18) parse_hashes_value stringArray_text string_of_text target_kind_of_name
          option.case thenE_simps lineage_value [THEN conjunct1] lineage_value [THEN conjunct2]
          edits [THEN conjunct1] edits [THEN conjunct2] optionalText_text unique_distinct l(1,3) check_True l(2))
       (simp add: base_of_def l)
qed

lemma parseLaunchManifest_value:
  assumes "manifest_ok m"
  shows "parseLaunchManifest (manifest_value m) = Inr (m\<lparr>lm_lineageEdits := Some (edits_of m)\<rparr>)"
proof -
  from assms obtain e v o' where m: "lm_versioned m" "run_id_text (lm_runId m)" "isAbsolute (lm_cwd m)"
    "sha256_text (lm_programHash m)" "list_all (\<lambda>(_, h). sha256_text h) (lm_inputHashes m)"
    "lm_runnerExecutable m = Some e" "isAbsolute e" "lm_runnerVersion m = Some v" "lm_ownerId m = Some o'"
    "lm_runtimeStore m" "pred_option sha256_text (lm_policyDigest m)"
    and a: "lm_personAnswering m = Some (js ''engine'') \<or> lm_personAnswering m = Some (js ''local-control'')"
    and l: "lineage_ok m" "list_all edit_ok (edits_of m)"
    by (auto simp: manifest_ok_def)
  have keys: "onlyKeys (manifest_members m) MANIFEST_KEYS label = Inr ()" for label
    using manifest_keys [of m] by (auto simp: onlyKeys_def check_def filter_empty_conv list_all_iff)
  have policy: "(case lm_policyDigest m of None \<Rightarrow> True | Some d \<Rightarrow> sha256_text d)"
    using m(11) by (cases "lm_policyDigest m") auto
  have "parse_versioned (manifest_members m) (base_of m) = Inr (m\<lparr>lm_lineageEdits := Some (edits_of m)\<rparr>)"
    using a
    by (elim disjE) (simp_all add: parse_versioned_def manifest_lookup m policy base_of_def check_def)
  then show ?thesis
    by (simp add: parseLaunchManifest_def manifest_value_members record_of_def asRecord_def
        manifest_lookup(1) m(1) keys parse_base_value [OF l] Let_def)
qed

section \<open>What an accepted manifest is\<close>

lemma parse_edit_Inr:
  assumes "parse_edit versioned v = Inr e"
  shows "canonical_text (edit_occurrence e) \<and> (versioned \<longrightarrow> edit_ok e)"
proof -
  from assms obtain kind occ hash where c: "canonical_text occ"
    and h: "\<not> (versioned \<and> (case hash of None \<Rightarrow> False | Some h \<Rightarrow> \<not> sha256_text h))"
    and e: "e = (case hash of None \<Rightarrow> DropEdit occ | Some h \<Rightarrow> ReplaceEdit occ h)"
    unfolding parse_edit_def by (elim thenE_elim) simp
  then show ?thesis by (cases hash) (auto simp: edit_ok_def)
qed

lemma parse_edits_Inr:
  assumes "mapE (parse_edit versioned) raw = Inr edits"
  shows "list_all (\<lambda>e. canonical_text (edit_occurrence e)) edits"
  using assms [unfolded mapE_Inr] by (auto simp: list_all2_conv_all_nth list_all_length dest!: parse_edit_Inr)

lemma parse_base_Inr: "parse_base versioned fs = Inr m \<Longrightarrow> lineage_ok m"
  unfolding parse_base_def
  by (elim thenE_elim) (clarsimp simp: lineage_ok_def edits_of_def parse_edits_Inr)

lemma parse_versioned_lineage:
  "parse_versioned fs base = Inr m \<Longrightarrow> lineage_ok m = lineage_ok base"
  unfolding parse_versioned_def by (elim thenE_elim) (clarsimp simp: lineage_ok_def edits_of_def)

lemma parseLaunchManifest_lineage: "parseLaunchManifest v = Inr m \<Longrightarrow> lineage_ok m"
  unfolding parseLaunchManifest_def Let_def
  by (elim thenE_elim) (auto split: if_splits dest: parse_base_Inr parse_versioned_lineage)

end
