(* ===== verification/Artifacts.thy ===== *)
theory Artifacts
  imports StoredLaws
begin

text \<open>
  The check of a result artifact (\<^verbatim>\<open>supervisor.ts\<close>): the scanner that splits a compact JSON object
  into the texts of its members, and the comparison of the file with the reference in the
  snapshot. The scanner works on the text from an index on; the text it consumes stands for the
  end index of the source.
\<close>

section \<open>The scanner\<close>

definition malformed :: "string \<Rightarrow> jstr" where
  "malformed what = js ''canonical JSON '' @ js what"

definition prepend :: "jstr \<Rightarrow> (jstr \<times> jstr) result \<Rightarrow> (jstr \<times> jstr) result" where
  "prepend t m = (case m of Inl e \<Rightarrow> Inl e | Inr (a, b) \<Rightarrow> Inr (t @ a, b))"

lemma prepend_Inr: "prepend t m = Inr (a, b) \<longleftrightarrow> (\<exists>a'. m = Inr (a', b) \<and> a = t @ a')"
  by (auto simp: prepend_def split: sum.splits)

text \<open>The loop of \<^verbatim>\<open>jsonStringEnd\<close> after the opening quote: consumed text and rest.\<close>

fun string_rest :: "bool \<Rightarrow> jstr \<Rightarrow> (jstr \<times> jstr) result" where
  "string_rest escaped [] = Inl (malformed ''string is unterminated'')"
| "string_rest escaped (c # s) =
     (if escaped then prepend [c] (string_rest False s)
      else if c = 92 then prepend [c] (string_rest True s)
      else if c = 34 then Inr ([c], s)
      else prepend [c] (string_rest False s))"

definition jsonStringEnd :: "jstr \<Rightarrow> (jstr \<times> jstr) result" where
  "jsonStringEnd s =
     (case s of [] \<Rightarrow> Inl (malformed ''string is unterminated'') | c # r \<Rightarrow> prepend [c] (string_rest False r))"

lemma string_rest_parts: "string_rest e s = Inr (a, b) \<Longrightarrow> s = a @ b \<and> a \<noteq> []"
  by (induction s arbitrary: e a) (auto split: if_splits simp: prepend_Inr)

lemma jsonStringEnd_parts: "jsonStringEnd s = Inr (a, b) \<Longrightarrow> s = a @ b \<and> a \<noteq> []"
  by (auto simp: jsonStringEnd_def prepend_Inr split: list.splits dest: string_rest_parts)

lemma jsonStringEnd_shorter: "jsonStringEnd s = Inr (a, b) \<Longrightarrow> length b < length s"
  by (drule jsonStringEnd_parts) (auto simp: neq_Nil_conv)

text \<open>The loop of \<^verbatim>\<open>jsonValueEnd\<close> inside an object or an array.\<close>

function nested_rest :: "nat \<Rightarrow> jstr \<Rightarrow> (jstr \<times> jstr) result" where
  "nested_rest depth s =
     (case s of
        [] \<Rightarrow> Inl (malformed ''value is unterminated'')
      | c # r \<Rightarrow>
          if c = 34 then
            (case jsonStringEnd s of
               Inl e \<Rightarrow> Inl e
             | Inr (t, r') \<Rightarrow> prepend t (nested_rest depth r'))
          else if c = 123 \<or> c = 91 then prepend [c] (nested_rest (Suc depth) r)
          else if c = 125 \<or> c = 93 then
            (if depth = 1 then Inr ([c], r) else prepend [c] (nested_rest (depth - 1) r))
          else prepend [c] (nested_rest depth r))"
  by pat_completeness auto

termination nested_rest
  by (relation "measure (\<lambda>(_, s). length s)") (auto dest!: jsonStringEnd_shorter)

declare nested_rest.simps [simp del]

definition jsonValueEnd :: "jstr \<Rightarrow> (jstr \<times> jstr) result" where
  "jsonValueEnd s =
     (case s of
        [] \<Rightarrow> Inr ([], [])
      | c # r \<Rightarrow>
          if c = 34 then jsonStringEnd s
          else if c \<noteq> 123 \<and> c \<noteq> 91 then
            Inr (takeWhile (\<lambda>u. u \<noteq> 44 \<and> u \<noteq> 125) s, dropWhile (\<lambda>u. u \<noteq> 44 \<and> u \<noteq> 125) s)
          else nested_rest 0 s)"

text \<open>One step: a string, or one unit and the rest at another depth.\<close>

lemma nested_rest_string:
  "nested_rest d (34 # r) =
     (case jsonStringEnd (34 # r) of Inl e \<Rightarrow> Inl e | Inr (t, r') \<Rightarrow> prepend t (nested_rest d r'))"
  by (subst nested_rest.simps) simp

lemma nested_rest_unit:
  "c \<noteq> 34 \<Longrightarrow> nested_rest d (c # r) =
     (if (c = 125 \<or> c = 93) \<and> d = 1 then Inr ([c], r)
      else prepend [c]
        (nested_rest (if c = 123 \<or> c = 91 then Suc d else if c = 125 \<or> c = 93 then d - 1 else d) r))"
  by (subst nested_rest.simps) simp

lemma nested_rest_Nil: "nested_rest d [] = Inl (malformed ''value is unterminated'')"
  by (subst nested_rest.simps) simp

lemma nested_rest_parts: "nested_rest d s = Inr (a, b) \<Longrightarrow> s = a @ b"
proof (induction s arbitrary: a d rule: length_induct)
  case (1 s)
  show ?case
  proof (cases s)
    case Nil
    with "1.prems" show ?thesis by (simp add: nested_rest_Nil)
  next
    case (Cons c r)
    show ?thesis
    proof (cases "c = 34")
      case True
      with "1.prems" Cons obtain u r' a' where t: "jsonStringEnd (c # r) = Inr (u, r')"
        "nested_rest d r' = Inr (a', b)" "a = u @ a'"
        by (auto simp: nested_rest_string prepend_Inr split: sum.splits)
      have "length r' < length s" using jsonStringEnd_shorter [OF t(1)] Cons by simp
      then have "r' = a' @ b" using "1.IH" t(2) by blast
      then show ?thesis using jsonStringEnd_parts [OF t(1)] t(3) Cons by simp
    next
      case False
      then consider "a = [c]" "b = r" | d' a' where "nested_rest d' r = Inr (a', b)" "a = c # a'"
        using "1.prems" unfolding Cons nested_rest_unit [OF False]
        by (auto simp: prepend_Inr split: if_split_asm)
      then show ?thesis
      proof cases
        case 2
        then have "r = a' @ b" using "1.IH" Cons by auto
        with 2 Cons show ?thesis by simp
      qed (simp add: Cons)
    qed
  qed
qed

lemma jsonValueEnd_parts: "jsonValueEnd s = Inr (a, b) \<Longrightarrow> s = a @ b"
  by (auto simp: jsonValueEnd_def split: list.splits if_splits dest: nested_rest_parts jsonStringEnd_parts)

section \<open>The members of a compact object\<close>

text \<open>The text after the colon of a member: its value, and what follows.\<close>

definition scan_value :: "jstr \<Rightarrow> (jstr \<times> jstr) result" where
  "scan_value s =
     thenE (jsonValueEnd s) (\<lambda>(raw, rest). thenE (parsed_json raw) (\<lambda>_. Inr (raw, rest)))"

definition scan_key :: "jstr \<Rightarrow> (jstr \<times> jstr) result" where
  "scan_key s =
     (if s = [] \<or> hd s \<noteq> 34 then Inl (malformed ''object key is malformed'')
      else
        (case jsonStringEnd s of
           Inl e \<Rightarrow> Inl e
         | Inr (keyText, rest) \<Rightarrow>
             (case json_parse keyText of
                None \<Rightarrow> Inl (js ''SyntaxError'')
              | Some v \<Rightarrow>
                  (case v of
                     JStr key \<Rightarrow>
                       thenE (check (quote key = keyText \<and> rest \<noteq> [] \<and> hd rest = 58)
                         (malformed ''object key is malformed'')) (\<lambda>_. Inr (key, tl rest))
                   | _ \<Rightarrow> Inl (malformed ''object key is malformed'')))))"

lemma scan_key_parts: "scan_key s = Inr (key, rest) \<Longrightarrow> s = quote key @ 58 # rest"
  by (auto simp: scan_key_def thenE_Inr neq_Nil_conv split: if_splits option.splits sum.splits json.splits
      dest!: jsonStringEnd_parts)

lemma scan_value_parts: "scan_value s = Inr (raw, rest) \<Longrightarrow> s = raw @ rest \<and> json_parse raw \<noteq> None"
  by (auto simp: scan_value_def parsed_json_def thenE_Inr split: option.splits dest: jsonValueEnd_parts)

function compact_members :: "jstr \<Rightarrow> (jstr \<times> jstr) list result" where
  "compact_members s =
     (if length s \<le> 1 then Inl (malformed ''object is unterminated'')
      else
        (case scan_key s of
           Inl e \<Rightarrow> Inl e
         | Inr (key, afterColon) \<Rightarrow>
             (case scan_value afterColon of
                Inl e \<Rightarrow> Inl e
              | Inr (raw, rest) \<Rightarrow>
                  (case rest of
                     [] \<Rightarrow> Inl (malformed ''object separator is malformed'')
                   | c # after \<Rightarrow>
                       if c = 125 then
                         (if after \<noteq> [] then Inl (malformed ''object has trailing data'') else Inr [(key, raw)])
                       else if c \<noteq> 44 then Inl (malformed ''object separator is malformed'')
                       else thenE (compact_members after) (\<lambda>entries. Inr ((key, raw) # entries))))))"
  by pat_completeness auto

termination compact_members
  by (relation "measure length") (auto dest!: scan_key_parts scan_value_parts)

declare compact_members.simps [simp del]

definition compactObjectEntries :: "jstr \<Rightarrow> (jstr \<times> jstr) list result" where
  "compactObjectEntries value =
     (if \<not> (starts_with value (js ''{'') \<and> ends_with value (js ''}''))
      then Inl (malformed ''object is malformed'')
      else if take 1 (drop 1 value) = js ''}'' then Inr []
      else compact_members (drop 1 value))"

text \<open>The text of a compact object with given member texts.\<close>

definition compact_text :: "(jstr \<times> jstr) list \<Rightarrow> jstr" where
  "compact_text entries =
     js ''{'' @ join (js '','') (map (\<lambda>(key, raw). quote key @ js '':'' @ raw) entries) @ js ''}''"

lemma compact_members_text:
  "compact_members s = Inr es \<Longrightarrow>
     es \<noteq> [] \<and> s = join (js '','') (map (\<lambda>(key, raw). quote key @ js '':'' @ raw) es) @ js ''}''"
proof (induction s arbitrary: es rule: compact_members.induct)
  case (1 s)
  from "1.prems" obtain key a raw rest where k: "scan_key s = Inr (key, a)" and v: "scan_value a = Inr (raw, rest)"
    and long: "\<not> length s \<le> 1"
    by (subst (asm) compact_members.simps) (auto split: if_splits sum.splits prod.splits)
  from "1.prems" k v long obtain c after where r: "rest = c # after"
    by (subst (asm) compact_members.simps) (auto split: list.splits)
  have s: "s = quote key @ 58 # raw @ c # after"
    using scan_key_parts [OF k] scan_value_parts [OF v] r by simp
  show ?case
  proof (cases "c = 125")
    case True
    with "1.prems" k v long r have "after = []" "es = [(key, raw)]"
      by (subst (asm) compact_members.simps; simp split: if_splits)+
    with s True show ?thesis by (simp add: js_def)
  next
    case False
    from "1.prems" k v long r False obtain es' where c: "c = 44" and rec: "compact_members after = Inr es'"
      and es: "es = (key, raw) # es'"
      by (subst (asm) compact_members.simps) (auto simp: thenE_Inr split: if_splits)
    from "1.IH" [OF long k refl v refl r False _ rec] c
    have "es' \<noteq> [] \<and> after = join (js '','') (map (\<lambda>(key, raw). quote key @ js '':'' @ raw) es') @ js ''}''" by simp
    with s c es show ?thesis by (cases es') (simp_all add: js_def)
  qed
qed

lemma compactObjectEntries_text:
  assumes "compactObjectEntries s = Inr es" and "es \<noteq> []"
  shows "s = compact_text es"
proof -
  have v: "starts_with s (js ''{'')" and m: "compact_members (drop 1 s) = Inr es"
    using assms by (auto simp: compactObjectEntries_def split: if_splits)
  from v have "s = 123 # drop 1 s" by (cases s) (auto simp: starts_with_def js_def)
  with compact_members_text [OF m] show ?thesis by (simp add: compact_text_def js_def)
qed

section \<open>The artifact\<close>

fun outer_whitespace :: "bool \<Rightarrow> bool \<Rightarrow> jstr \<Rightarrow> bool" where
  "outer_whitespace inString escaped [] = False"
| "outer_whitespace inString escaped (c # s) =
     (if inString then
        (if escaped then outer_whitespace True False s
         else if c = 92 then outer_whitespace True True s
         else if c = 34 then outer_whitespace False False s
         else outer_whitespace True False s)
      else if c = 34 then outer_whitespace True escaped s
      else if js_space c then True
      else outer_whitespace False escaped s)"

definition jsonHasOuterWhitespace :: "jstr \<Rightarrow> bool" where
  "jsonHasOuterWhitespace value = outer_whitespace False False value"

text \<open>\<^verbatim>\<open>TextDecoder("utf-8", { fatal: true })\<close> drops a byte order mark at the start.\<close>

definition decode_text :: "u8 list \<Rightarrow> jstr option" where
  "decode_text bytes =
     map_option (\<lambda>s. if s \<noteq> [] \<and> hd s = 0xFEFF then tl s else s) (utf8_decode bytes)"

record artifact_host =
  ah_sha256 :: "u8 list \<Rightarrow> jstr"
  ah_number :: "js_number \<Rightarrow> jstr"

definition artifact_compact :: "u8 list \<Rightarrow> jstr result" where
  "artifact_compact bytes =
     (let message = js ''result artifact is not canonical compact JSON followed by one newline'' in
      if bytes = [] \<or> last bytes \<noteq> 10 \<or> 10 \<in> set (butlast bytes) then Inl message
      else
        (case decode_text (butlast bytes) of
           None \<Rightarrow> Inl (js ''TypeError'')
         | Some body \<Rightarrow> if jsonHasOuterWhitespace body then Inl message else Inr body))"

text \<open>The checks of the decoded text against the run and the code of the reference.\<close>

definition artifact_text_ok :: "artifact_host \<Rightarrow> jstr \<Rightarrow> js_value \<Rightarrow> jstr \<Rightarrow> unit result" where
  "artifact_text_ok h runId code body =
     thenE (parsed_json body) (\<lambda>v.
     thenE (record_of (Some v) ''result artifact'') (\<lambda>artifact.
     thenE (compactObjectEntries body) (\<lambda>entries.
     thenE (check (map fst entries = map js [''artifactVersion'', ''result'', ''runId''])
       (js ''result artifact has non-canonical, unknown, or missing fields'')) (\<lambda>_.
     thenE (check (snd (entries ! 0) = js ''1'' \<and> map_of artifact (js ''artifactVersion'') = Some (JNum (js_int 1)))
       (js ''unsupported or non-canonical result artifact version'')) (\<lambda>_.
     thenE (check (snd (entries ! 2) = quote runId \<and> map_of artifact (js ''runId'') = Some (JStr runId))
       (js ''result artifact run id does not canonically match its event'')) (\<lambda>_.
     thenE (record_of (map_of artifact (js ''result'')) ''result artifact payload'') (\<lambda>payload.
     thenE (compactObjectEntries (snd (entries ! 1))) (\<lambda>fields.
     thenE (check (map fst fields = map js [''code'', ''value''])
       (js ''result artifact payload has non-canonical, unknown, or missing fields'')) (\<lambda>_.
       check (snd (fields ! 0) = stringify (ah_number h) code
              \<and> map_option (stringify (ah_number h)) (map_of payload (js ''code'')) = Some (stringify (ah_number h) code))
         (js ''result artifact code does not canonically match its event''))))))))))"

definition verifyResultArtifact :: "artifact_host \<Rightarrow> jstr \<Rightarrow> result_ref \<Rightarrow> u8 list result \<Rightarrow> unit result" where
  "verifyResultArtifact h runId reference file =
     thenE file (\<lambda>bytes.
     thenE (check (length bytes = digits_val (qr_bytes (rr_ref reference)))
       (js ''result artifact byte count does not match its event'')) (\<lambda>_.
     thenE (check (ah_sha256 h bytes = qr_sha256 (rr_ref reference))
       (js ''result artifact digest does not match its event'')) (\<lambda>_.
     thenE (artifact_compact bytes) (\<lambda>body.
       artifact_text_ok h runId (rr_code reference) body))))"

text \<open>The only text that passes: three members, the payload with two, every name and text canonical.\<close>

definition canonical_artifact :: "artifact_host \<Rightarrow> jstr \<Rightarrow> js_value \<Rightarrow> jstr \<Rightarrow> jstr" where
  "canonical_artifact h runId code payload =
     compact_text
       [(js ''artifactVersion'', js ''1''),
        (js ''result'', compact_text [(js ''code'', stringify (ah_number h) code), (js ''value'', payload)]),
        (js ''runId'', quote runId)]"

lemma three_entries:
  "map fst es = [a, b, c] \<Longrightarrow> es = [(a, snd (es ! 0)), (b, snd (es ! 1)), (c, snd (es ! 2))]"
  by (auto simp: map_eq_Cons_conv)

lemma two_entries: "map fst es = [a, b] \<Longrightarrow> es = [(a, snd (es ! 0)), (b, snd (es ! 1))]"
  by (auto simp: map_eq_Cons_conv)

lemma artifact_text_canonical:
  assumes "artifact_text_ok h runId code body = Inr ()"
  shows "\<exists>payload. body = canonical_artifact h runId code payload"
proof -
  from assms obtain entries fields where e: "compactObjectEntries body = Inr entries"
    "map fst entries = map js [''artifactVersion'', ''result'', ''runId'']"
    "snd (entries ! 0) = js ''1''" "snd (entries ! 2) = quote runId"
    and f: "compactObjectEntries (snd (entries ! 1)) = Inr fields" "map fst fields = map js [''code'', ''value'']"
      "snd (fields ! 0) = stringify (ah_number h) code"
    unfolding artifact_text_ok_def thenE_Inr check_Inr by blast
  have fields: "fields = [(js ''code'', stringify (ah_number h) code), (js ''value'', snd (fields ! 1))]"
    using two_entries [OF f(2) [unfolded list.map]] f(3) by simp
  then have "fields \<noteq> []" by auto
  from compactObjectEntries_text [OF f(1) this] fields
  have inner: "snd (entries ! 1) = compact_text [(js ''code'', stringify (ah_number h) code), (js ''value'', snd (fields ! 1))]"
    by simp
  have entries: "entries = [(js ''artifactVersion'', js ''1''), (js ''result'', snd (entries ! 1)), (js ''runId'', quote runId)]"
    using three_entries [OF e(2) [unfolded list.map]] e(3,4) by simp
  then have "entries \<noteq> []" by auto
  from compactObjectEntries_text [OF e(1) this] entries inner show ?thesis
    unfolding canonical_artifact_def by metis
qed

end
