(* ===== verification/Journals.thy ===== *)
theory Journals
  imports Artifacts
begin

text \<open>
  Restoring a run from its store (\<^verbatim>\<open>supervisor.ts\<close>): reading the two protocol journals as a
  stream of chunks, comparing them, reading the stored snapshot, and deciding which state the
  restored run has. \<^term>\<open>Inr None\<close> stands for a missing file (\<^verbatim>\<open>ENOENT\<close>). The comparison
  \<^verbatim>\<open>snapshotDifference\<close> compares JSON texts, which depend on the order in which JavaScript objects
  received their members; the model of snapshots does not keep that order, so the comparison is a
  parameter.
\<close>

definition MAX_FRAME :: nat where "MAX_FRAME = 1024 * 1024"
definition MAX_METADATA_FILE :: nat where "MAX_METADATA_FILE = 4 * 1024 * 1024"
definition MAX_SNAPSHOT_FILE :: nat where "MAX_SNAPSHOT_FILE = 64 * 1024 * 1024"
definition MAX_JOURNAL_FILE :: nat where "MAX_JOURNAL_FILE = 512 * 1024 * 1024"

section \<open>Files\<close>

datatype entry_kind = Link | Directory | RegularFile | OtherEntry

record store_fs =
  sf_realpath :: "jstr \<Rightarrow> jstr option result"
  sf_lstat :: "jstr \<Rightarrow> entry_kind option result"
  sf_read :: "jstr \<Rightarrow> u8 list list option result"

definition thenM :: "'a option result \<Rightarrow> ('a \<Rightarrow> 'b option result) \<Rightarrow> 'b option result" where
  "thenM m f = (case m of Inl e \<Rightarrow> Inl e | Inr None \<Rightarrow> Inr None | Inr (Some x) \<Rightarrow> f x)"

lemma thenM_Inr: "thenM m f = Inr (Some y) \<longleftrightarrow> (\<exists>x. m = Inr (Some x) \<and> f x = Inr (Some y))"
  by (auto simp: thenM_def split: sum.splits option.splits)

definition valid_component :: "jstr \<Rightarrow> bool" where
  "valid_component c \<longleftrightarrow> c \<noteq> [] \<and> c \<noteq> js ''.'' \<and> c \<noteq> js ''..'' \<and> 47 \<notin> set c \<and> 92 \<notin> set c"

text \<open>The components below \<open>current\<close>; the last one must be a regular file.\<close>

fun confine :: "store_fs \<Rightarrow> jstr \<Rightarrow> jstr \<Rightarrow> jstr list \<Rightarrow> jstr option result" where
  "confine fs rootPath current [] = Inr (Some current)"
| "confine fs rootPath current (c # cs) =
     (if \<not> valid_component c then Inl (js ''confined path has an invalid component'')
      else
        (let next_path = path_in current c in
         thenM (sf_lstat fs next_path) (\<lambda>kind.
           if kind = Link then Inl (next_path @ js '' is a symbolic link'')
           else if cs \<noteq> [] \<and> kind \<noteq> Directory then Inl (next_path @ js '' is not a directory'')
           else if cs = [] \<and> kind \<noteq> RegularFile then Inl (next_path @ js '' is not a regular file'')
           else
             thenM (sf_realpath fs next_path) (\<lambda>resolved.
               (let descent = relative_path rootPath resolved in
                if descent = js ''..'' \<or> starts_with descent (js ''../'') \<or> isAbsolute descent
                then Inl (next_path @ js '' escapes its run store'')
                else confine fs rootPath next_path cs)))))"

definition confinedPath :: "store_fs \<Rightarrow> jstr \<Rightarrow> jstr list \<Rightarrow> jstr option result" where
  "confinedPath fs dir parts = thenM (sf_realpath fs dir) (\<lambda>rootPath. confine fs rootPath dir parts)"

definition readBytesBounded :: "store_fs \<Rightarrow> jstr \<Rightarrow> nat \<Rightarrow> u8 list option result" where
  "readBytesBounded fs path maximum =
     thenM (sf_read fs path) (\<lambda>chunks.
       if length (concat chunks) > maximum then Inl (path @ js '' exceeds '' @ dec maximum @ js '' bytes'')
       else Inr (Some (concat chunks)))"

definition readTextBounded :: "store_fs \<Rightarrow> jstr \<Rightarrow> nat \<Rightarrow> jstr option result" where
  "readTextBounded fs path maximum = thenM (readBytesBounded fs path maximum) (\<lambda>bytes. Inr (Some (utf8_to_string bytes)))"

section \<open>The streaming decoder\<close>

text \<open>A proper prefix of the encoding of a code point: a fatal stream decoder keeps it back.\<close>

definition incomplete :: "u8 list \<Rightarrow> bool" where
  "incomplete bs =
     (case bs of
        [b] \<Rightarrow> 0xC2 \<le> b \<and> b \<le> 0xF4
      | [b, c] \<Rightarrow> 0xE0 \<le> b \<and> b \<le> 0xF4 \<and> second_ok b c
      | [b, c, d] \<Rightarrow> 0xF0 \<le> b \<and> b \<le> 0xF4 \<and> second_ok b c \<and> continuation d
      | _ \<Rightarrow> False)"

definition tail_bytes :: "nat \<Rightarrow> 'a list \<Rightarrow> 'a list" where
  "tail_bytes k bs = drop (length bs - k) bs"

definition held_back :: "u8 list \<Rightarrow> nat" where
  "held_back bs =
     (if incomplete (tail_bytes 3 bs) then 3 else if incomplete (tail_bytes 2 bs) then 2
      else if incomplete (tail_bytes 1 bs) then 1 else 0)"

text \<open>The decoder state: the bytes held back, and whether a unit was produced (the byte order mark).\<close>

record stream_decoder =
  sd_pending :: "u8 list"
  sd_started :: bool

definition decode_stream :: "stream_decoder \<Rightarrow> u8 list \<Rightarrow> (jstr \<times> stream_decoder) option" where
  "decode_stream d chunk =
     (let bytes = sd_pending d @ chunk; k = min (held_back bytes) (length bytes) in
      map_option
        (\<lambda>s. (if \<not> sd_started d \<and> s \<noteq> [] \<and> hd s = 0xFEFF then tl s else s,
              \<lparr>sd_pending = tail_bytes k bytes, sd_started = sd_started d \<or> s \<noteq> []\<rparr>))
        (utf8_decode (take (length bytes - k) bytes)))"

section \<open>Journals\<close>

text \<open>
  A line as an event. The source does not check the types of the members of the envelope before it reduces it,
  and refuses there almost every line whose members have other types than \<^verbatim>\<open>RuntimeEvent\<close> declares, which is refused
  here. The exception is a \<^verbatim>\<open>sequence\<close> that is a number, or an array of one element, whose text is an unsigned
  decimal: \<^verbatim>\<open>RegExp.test\<close> and \<^verbatim>\<open>BigInt\<close> convert it, and the source accepts the line. Such a line is refused
  here, so what is shown of journals concerns the lines whose \<^verbatim>\<open>sequence\<close> is a string, as runners write them.
\<close>

definition event_of_json :: "js_value \<Rightarrow> runtime_event option" where
  "event_of_json v =
     (case v of
        JObj fs \<Rightarrow>
          (case (map_of fs (js ''protocolVersion''), map_of fs (js ''runId''), map_of fs (js ''sequence''),
                 map_of fs (js ''timestamp''), map_of fs (js ''event'')) of
             (Some (JNum version), Some (JStr runId), Some (JStr sequence), Some timestamp, Some (JObj body)) \<Rightarrow>
               (case map_of body (js ''type'') of
                  Some (JStr type) \<Rightarrow>
                    Some \<lparr>ev_protocolVersion = version, ev_runId = runId, ev_sequence = sequence,
                          ev_timestamp = timestamp, ev_type = type, ev_fields = body\<rparr>
                | _ \<Rightarrow> None)
           | _ \<Rightarrow> None)
      | _ \<Rightarrow> None)"

definition parsed_event :: "jstr \<Rightarrow> runtime_event result" where
  "parsed_event line =
     thenE (parsed_json line) (\<lambda>v. case event_of_json v of Some e \<Rightarrow> Inr e | None \<Rightarrow> Inl (js ''TypeError''))"

definition journal_line :: "platform \<Rightarrow> run_snapshot \<Rightarrow> jstr \<Rightarrow> run_snapshot result" where
  "journal_line env s line =
     (if line = [] then Inr s
      else
        thenE (check (byteLength line \<le> MAX_FRAME) (js ''stored protocol frame exceeded limit'')) (\<lambda>_.
        thenE (parsed_event line) (\<lambda>e. reduceEvent env s e)))"

text \<open>The lines of a buffer that end in it, and what is left.\<close>

function journal_lines :: "platform \<Rightarrow> run_snapshot \<Rightarrow> jstr \<Rightarrow> (run_snapshot \<times> jstr) result" where
  "journal_lines env s buffered =
     (if 10 \<notin> set buffered then Inr (s, buffered)
      else
        (case journal_line env s (takeWhile (\<lambda>u. u \<noteq> 10) buffered) of
           Inl e \<Rightarrow> Inl e
         | Inr s' \<Rightarrow> journal_lines env s' (tl (dropWhile (\<lambda>u. u \<noteq> 10) buffered))))"
  by pat_completeness auto

lemma after_newline_shorter: "10 \<in> set b \<Longrightarrow> length (tl (dropWhile (\<lambda>u. u \<noteq> (10 :: unit16)) b)) < length b"
  by (induction b) auto

termination journal_lines
  by (relation "measure (\<lambda>(_, _, b). length b)") (simp_all only: in_measure wf_measure case_prod_conv not_not after_newline_shorter)

declare journal_lines.simps [simp del]

record journal_reader =
  jr_total :: nat
  jr_decoder :: stream_decoder
  jr_buffered :: jstr
  jr_snapshot :: run_snapshot

definition exceeds :: "jstr \<Rightarrow> nat \<Rightarrow> jstr" where
  "exceeds path maximum = path @ js '' exceeds '' @ dec maximum @ js '' bytes''"

definition journal_chunk :: "platform \<Rightarrow> jstr \<Rightarrow> journal_reader \<Rightarrow> u8 list \<Rightarrow> journal_reader result" where
  "journal_chunk env path r chunk =
     (let total = jr_total r + length chunk in
      thenE (check (total \<le> MAX_JOURNAL_FILE) (exceeds path MAX_JOURNAL_FILE)) (\<lambda>_.
      (case decode_stream (jr_decoder r) chunk of
         None \<Rightarrow> Inl (js ''TypeError'')
       | Some (piece, decoder) \<Rightarrow>
           thenE (journal_lines env (jr_snapshot r) (jr_buffered r @ piece)) (\<lambda>(s, buffered).
           thenE (check (byteLength buffered \<le> MAX_FRAME) (js ''stored protocol frame exceeded limit'')) (\<lambda>_.
             Inr \<lparr>jr_total = total, jr_decoder = decoder, jr_buffered = buffered, jr_snapshot = s\<rparr>)))))"

fun journal_chunks :: "platform \<Rightarrow> jstr \<Rightarrow> journal_reader \<Rightarrow> u8 list list \<Rightarrow> journal_reader result" where
  "journal_chunks env path r [] = Inr r"
| "journal_chunks env path r (c # cs) = thenE (journal_chunk env path r c) (\<lambda>r'. journal_chunks env path r' cs)"

record reduced_journal =
  rj_content :: "u8 list"
  rj_bytes :: nat
  rj_digest :: jstr
  rj_snapshot :: run_snapshot

definition newReader :: "jstr \<Rightarrow> journal_reader" where
  "newReader runId =
     \<lparr>jr_total = 0, jr_decoder = \<lparr>sd_pending = [], sd_started = False\<rparr>, jr_buffered = [],
      jr_snapshot = initialSnapshot runId\<rparr>"

definition reduceJournal :: "platform \<Rightarrow> (u8 list \<Rightarrow> jstr) \<Rightarrow> jstr \<Rightarrow> jstr \<Rightarrow> u8 list list \<Rightarrow> reduced_journal result" where
  "reduceJournal env sha256 path runId chunks =
     thenE (check (length (concat chunks) \<le> MAX_JOURNAL_FILE) (exceeds path MAX_JOURNAL_FILE)) (\<lambda>_.
     thenE (journal_chunks env path (newReader runId) chunks) (\<lambda>r.
     thenE (check (sd_pending (jr_decoder r) = []) (js ''TypeError'')) (\<lambda>_.
     thenE (check (jr_buffered r = []) (path @ js '' has a torn final protocol record'')) (\<lambda>_.
       Inr \<lparr>rj_content = concat chunks, rj_bytes = jr_total r, rj_digest = sha256 (concat chunks),
            rj_snapshot = jr_snapshot r\<rparr>))))"

definition sequence_of :: "run_snapshot \<Rightarrow> int" where
  "sequence_of s = (case rs_lastSequence s of None \<Rightarrow> -1 | Some n \<Rightarrow> n)"

definition assertJournalPrefix :: "(u8 list \<Rightarrow> jstr) \<Rightarrow> reduced_journal \<Rightarrow> reduced_journal \<Rightarrow> unit result" where
  "assertJournalPrefix sha256 left right =
     (let l = sequence_of (rj_snapshot left); r = sequence_of (rj_snapshot right) in
      if l = r then
        check (rj_bytes left = rj_bytes right \<and> rj_digest left = rj_digest right)
          (js ''stored protocol journals disagree at equal sequence'')
      else
        (let (shorter, longer) = (if l < r then (left, right) else (right, left)) in
         thenE (check (rj_bytes shorter \<le> rj_bytes longer) (js ''stored protocol journals disagree in prefix length'')) (\<lambda>_.
         thenE (check (rj_bytes shorter = 0 \<or> rj_bytes shorter \<le> length (rj_content longer))
           (js ''stored protocol journal changed during prefix validation'')) (\<lambda>_.
           check (sha256 (take (rj_bytes shorter) (rj_content longer)) = rj_digest shorter)
             (js ''stored protocol journals disagree before sequence ''
              @ int_text (case rs_lastSequence (rj_snapshot shorter) of None \<Rightarrow> 0 | Some n \<Rightarrow> n))))))"

section \<open>Restoring\<close>

text \<open>A restored state: reduced from a journal, or read from the stored snapshot.\<close>

datatype run_view = Reduced run_snapshot | Stored stored_snapshot

fun view_status :: "run_view \<Rightarrow> run_status" where
  "view_status (Reduced s) = rs_status s"
| "view_status (Stored s) = ss_status s"

fun view_failureClass :: "run_view \<Rightarrow> jstr option" where
  "view_failureClass (Reduced s) = rs_failureClass s"
| "view_failureClass (Stored s) =
     (case map_of (ss_members s) (js ''failureClass'') of Some (JStr c) \<Rightarrow> Some c | _ \<Rightarrow> None)"

definition ORPHANED :: jstr where
  "ORPHANED = js ''supervisor ownership was lost; restart, resume, or fork is required''"

fun orphan :: "run_view \<Rightarrow> run_view" where
  "orphan (Reduced s) =
     Reduced (s\<lparr>rs_status := Orphaned, rs_failureClass := Some (js ''lost-ownership''), rs_failure := Some ORPHANED\<rparr>)"
| "orphan (Stored s) =
     Stored (s\<lparr>ss_status := Orphaned,
       ss_members := map_set (js ''failure'') (JStr ORPHANED)
         (map_set (js ''failureClass'') (JStr (js ''lost-ownership''))
           (map_set (js ''status'') (JStr (status_name Orphaned)) (ss_members s)))\<rparr>)"

record restore_host =
  rh_env :: platform
  rh_fs :: store_fs
  rh_sha256 :: "u8 list \<Rightarrow> jstr"
  rh_number :: "js_number \<Rightarrow> jstr"
  rh_difference :: "run_view \<Rightarrow> run_view \<Rightarrow> jstr list"

text \<open>The journals, each compared with those before it.\<close>

definition compare_journals :: "restore_host \<Rightarrow> bool \<Rightarrow> reduced_journal \<Rightarrow> reduced_journal \<Rightarrow> unit result" where
  "compare_journals h ownerLive prior reduced =
     thenE (assertJournalPrefix (rh_sha256 h) prior reduced) (\<lambda>_.
       check (ownerLive \<or> sequence_of (rj_snapshot prior) = sequence_of (rj_snapshot reduced)
              \<and> rh_difference h (Reduced (rj_snapshot prior)) (Reduced (rj_snapshot reduced)) = [])
         (js ''stored protocol journals disagree in terminal length or state''))"

definition read_journal :: "restore_host \<Rightarrow> jstr \<Rightarrow> jstr \<Rightarrow> jstr list \<Rightarrow> reduced_journal option result" where
  "read_journal h storeDir runId parts =
     thenM (confinedPath (rh_fs h) storeDir parts) (\<lambda>path.
     thenM (sf_read (rh_fs h) path) (\<lambda>chunks.
       thenE (reduceJournal (rh_env h) (rh_sha256 h) path runId chunks) (\<lambda>j. Inr (Some j))))"

fun gather_journals ::
  "restore_host \<Rightarrow> jstr \<Rightarrow> jstr \<Rightarrow> bool \<Rightarrow> reduced_journal list \<Rightarrow> jstr list list \<Rightarrow> reduced_journal list result" where
  "gather_journals h storeDir runId ownerLive journals [] = Inr journals"
| "gather_journals h storeDir runId ownerLive journals (parts # rest) =
     thenE (read_journal h storeDir runId parts) (\<lambda>found.
       (case found of
          None \<Rightarrow> gather_journals h storeDir runId ownerLive journals rest
        | Some j \<Rightarrow>
            thenE (mapE (\<lambda>prior. compare_journals h ownerLive prior j) journals) (\<lambda>_.
              gather_journals h storeDir runId ownerLive (journals @ [j]) rest)))"

definition JOURNAL_PATHS :: "jstr list list" where
  "JOURNAL_PATHS = [[js ''runtime'', js ''events.ndjson''], [js ''live-events.ndjson'']]"

text \<open>The journal that reached furthest; of two equal ones the first.\<close>

fun furthest :: "run_snapshot option \<Rightarrow> reduced_journal list \<Rightarrow> run_snapshot option" where
  "furthest best [] = best"
| "furthest best (j # js') =
     furthest
       (case best of
          None \<Rightarrow> Some (rj_snapshot j)
        | Some b \<Rightarrow> if sequence_of (rj_snapshot j) > sequence_of b then Some (rj_snapshot j) else Some b) js'"

definition stored_view :: "restore_host \<Rightarrow> jstr \<Rightarrow> jstr \<Rightarrow> run_snapshot option \<Rightarrow> run_view result" where
  "stored_view h storeDir runId journal =
     thenE (readTextBounded (rh_fs h) (path_in storeDir (js ''snapshot.json'')) MAX_SNAPSHOT_FILE) (\<lambda>found.
       (case found of
          None \<Rightarrow> Inr (Reduced (case journal of Some s \<Rightarrow> s | None \<Rightarrow> initialSnapshot runId))
        | Some text \<Rightarrow>
            thenE (parsed_json text) (\<lambda>v.
            thenE (parseSnapshot (\<lambda>s. rh_sha256 h (utf8_encode s)) v runId) (\<lambda>s. Inr (Stored s)))))"

definition verifySnapshotResult :: "restore_host \<Rightarrow> jstr \<Rightarrow> jstr \<Rightarrow> run_snapshot \<Rightarrow> unit result" where
  "verifySnapshotResult h storeDir runId s =
     (case (rs_status s, rs_result s) of
        (Succeeded, Some reference) \<Rightarrow>
          verifyResultArtifact \<lparr>ah_sha256 = rh_sha256 h, ah_number = rh_number h\<rparr> runId reference
            (thenE (thenM (confinedPath (rh_fs h) storeDir [js ''runtime'', js ''result.json'']) (\<lambda>path.
                 readBytesBounded (rh_fs h) path MAX_SNAPSHOT_FILE)) (\<lambda>found.
               case found of None \<Rightarrow> Inl (js ''ENOENT'') | Some bytes \<Rightarrow> Inr bytes))
      | _ \<Rightarrow> Inr ())"

definition SUPERVISOR_FAILURES :: "jstr list" where
  "SUPERVISOR_FAILURES = map js [''supervisor'', ''forced-termination'', ''missing-terminal-event'']"

definition supervisor_terminal :: "run_view \<Rightarrow> bool" where
  "supervisor_terminal v \<longleftrightarrow>
     (view_status v = RunFailed \<or> view_status v = RunCancelled)
     \<and> (case view_failureClass v of None \<Rightarrow> False | Some c \<Rightarrow> c \<in> set SUPERVISOR_FAILURES)"

definition restoreSnapshot :: "restore_host \<Rightarrow> jstr \<Rightarrow> jstr \<Rightarrow> bool \<Rightarrow> run_view result" where
  "restoreSnapshot h storeDir runId ownerLive =
     thenE (gather_journals h storeDir runId ownerLive [] JOURNAL_PATHS) (\<lambda>journals.
     (let journal = furthest None journals in
      thenE (stored_view h storeDir runId journal) (\<lambda>v.
        (case journal of
           Some s \<Rightarrow>
             if isTerminal (rs_status s) then
               (let difference = rh_difference h v (Reduced s) in
                thenE (check (\<not> (isTerminal (view_status v) \<and> difference \<noteq> []))
                  (js ''stored snapshot disagrees with the terminal protocol journal ('' @ join (js '', '') difference @ js '')'')) (\<lambda>_.
                thenE (verifySnapshotResult h storeDir runId s) (\<lambda>_.
                  Inr (Reduced s))))
             else if isTerminal (view_status v) then
               thenE (check (supervisor_terminal v) (js ''terminal snapshot has no matching terminal protocol event'')) (\<lambda>_. Inr v)
             else if ownerLive then Inr (Reduced s)
             else Inr (orphan (Reduced s))
         | None \<Rightarrow>
             if isTerminal (view_status v) then
               thenE (check (supervisor_terminal v) (js ''terminal snapshot has no matching terminal protocol event'')) (\<lambda>_. Inr v)
             else if ownerLive then Inr v
             else Inr (orphan v)))))"

section \<open>What a restored state is\<close>

lemma journal_line_replay:
  "journal_line env s line = Inr s' \<Longrightarrow> \<exists>es. replay env s es = Inr s'"
  by (auto simp: journal_line_def thenE_Inr split: if_splits intro: exI [of _ "[]"] exI [of _ "[e]" for e])

lemma replay_compose: "replay env s es = Inr s1 \<Longrightarrow> replay env s1 fs = Inr s2 \<Longrightarrow> \<exists>gs. replay env s gs = Inr s2"
  by (rule exI [of _ "es @ fs"]) (simp add: replay_append)

lemma journal_lines_replay:
  "journal_lines env s b = Inr (s', rest) \<Longrightarrow> \<exists>es. replay env s es = Inr s'"
proof (induction env s b rule: journal_lines.induct)
  case (1 env s b)
  show ?case
  proof (cases "10 \<in> set b")
    case False
    with "1.prems" show ?thesis by (subst (asm) journal_lines.simps) (auto intro: exI [of _ "[]"])
  next
    case True
    with "1.prems" obtain s1 where s1: "journal_line env s (takeWhile (\<lambda>u. u \<noteq> 10) b) = Inr s1"
      and rec: "journal_lines env s1 (tl (dropWhile (\<lambda>u. u \<noteq> 10) b)) = Inr (s', rest)"
      by (subst (asm) journal_lines.simps) (auto split: sum.splits)
    from True have "\<not> 10 \<notin> set b" by simp
    from "1.IH" [OF this s1 rec] journal_line_replay [OF s1] show ?thesis using replay_compose by blast
  qed
qed

lemma journal_chunks_replay:
  "journal_chunks env path r cs = Inr r' \<Longrightarrow> \<exists>es. replay env (jr_snapshot r) es = Inr (jr_snapshot r')"
proof (induction cs arbitrary: r)
  case Nil
  then show ?case by (auto intro: exI [of _ "[]"])
next
  case (Cons c cs)
  then obtain r1 where c: "journal_chunk env path r c = Inr r1" and rec: "journal_chunks env path r1 cs = Inr r'"
    by (auto simp: thenE_Inr)
  from c obtain b rest where "journal_lines env (jr_snapshot r) b = Inr (jr_snapshot r1, rest)"
    unfolding journal_chunk_def Let_def by (auto simp: thenE_Inr split: option.splits)
  then have "\<exists>es. replay env (jr_snapshot r) es = Inr (jr_snapshot r1)" by (rule journal_lines_replay)
  with Cons.IH [OF rec] show ?case using replay_compose by blast
qed

lemma reduceJournal_replay:
  "reduceJournal env sha256 path runId chunks = Inr j \<Longrightarrow> \<exists>es. replay env (initialSnapshot runId) es = Inr (rj_snapshot j)"
  by (auto simp: reduceJournal_def thenE_Inr newReader_def dest!: journal_chunks_replay)

definition from_journal :: "platform \<Rightarrow> jstr \<Rightarrow> run_snapshot \<Rightarrow> bool" where
  "from_journal env runId s \<longleftrightarrow> (\<exists>es. replay env (initialSnapshot runId) es = Inr s)"

lemma read_journal_from:
  "read_journal h dir runId parts = Inr (Some j) \<Longrightarrow> from_journal (rh_env h) runId (rj_snapshot j)"
  by (auto simp: read_journal_def thenM_Inr thenE_Inr from_journal_def dest: reduceJournal_replay)

lemma gather_journals_from:
  "gather_journals h dir runId owned js0 parts = Inr js1 \<Longrightarrow>
   (\<forall>j \<in> set js0. from_journal (rh_env h) runId (rj_snapshot j)) \<Longrightarrow>
   (\<forall>j \<in> set js1. from_journal (rh_env h) runId (rj_snapshot j))"
proof (induction parts arbitrary: js0)
  case (Cons p ps)
  from Cons.prems obtain found where f: "read_journal h dir runId p = Inr found"
    and rest: "(case found of
          None \<Rightarrow> gather_journals h dir runId owned js0 ps
        | Some j \<Rightarrow>
            thenE (mapE (\<lambda>prior. compare_journals h owned prior j) js0) (\<lambda>_.
              gather_journals h dir runId owned (js0 @ [j]) ps)) = Inr js1"
    by (auto simp: thenE_Inr)
  show ?case
  proof (cases found)
    case None
    with rest Cons show ?thesis by simp
  next
    case (Some j)
    with rest have "gather_journals h dir runId owned (js0 @ [j]) ps = Inr js1" by (auto simp: thenE_Inr)
    then show ?thesis
      by (rule Cons.IH) (use Cons.prems(2) read_journal_from f Some in auto)
  qed
qed simp

lemma furthest_from:
  "furthest best jss = Some s \<Longrightarrow> best = Some s \<or> (\<exists>j \<in> set jss. s = rj_snapshot j)"
proof (induction jss arbitrary: best)
  case (Cons j jss)
  from Cons.IH [of "case best of None \<Rightarrow> Some (rj_snapshot j)
      | Some b \<Rightarrow> if sequence_of (rj_snapshot j) > sequence_of b then Some (rj_snapshot j) else Some b"] Cons.prems
  show ?case by (cases best) (simp_all split: if_splits, blast+)
qed simp

lemma restore_cases:
  assumes "restoreSnapshot h dir runId owned = Inr v"
  obtains (journal) s where "v = Reduced s" "isTerminal (rs_status s)" "from_journal (rh_env h) runId s"
      "verifySnapshotResult h dir runId s = Inr ()"
  | (supervisor) "supervisor_terminal v"
  | (owned) "owned" "\<not> isTerminal (view_status v)"
  | (orphan) w where "\<not> owned" "v = orphan w" "\<not> isTerminal (view_status w)"
proof -
  from assms obtain js1 w where g: "gather_journals h dir runId owned [] JOURNAL_PATHS = Inr js1"
    and r: "(case furthest None js1 of
           Some s \<Rightarrow>
             if isTerminal (rs_status s) then
               (let difference = rh_difference h w (Reduced s) in
                thenE (check (\<not> (isTerminal (view_status w) \<and> difference \<noteq> []))
                  (js ''stored snapshot disagrees with the terminal protocol journal ('' @ join (js '', '') difference @ js '')'')) (\<lambda>_.
                thenE (verifySnapshotResult h dir runId s) (\<lambda>_.
                  Inr (Reduced s))))
             else if isTerminal (view_status w) then
               thenE (check (supervisor_terminal w) (js ''terminal snapshot has no matching terminal protocol event'')) (\<lambda>_. Inr w)
             else if owned then Inr (Reduced s)
             else Inr (orphan (Reduced s))
         | None \<Rightarrow>
             if isTerminal (view_status w) then
               thenE (check (supervisor_terminal w) (js ''terminal snapshot has no matching terminal protocol event'')) (\<lambda>_. Inr w)
             else if owned then Inr w
             else Inr (orphan w)) = Inr v"
    unfolding restoreSnapshot_def by (auto simp: thenE_Inr Let_def)
  show ?thesis
  proof (cases "furthest None js1")
    case None
    with r show ?thesis
      by (cases "isTerminal (view_status w)"; cases owned)
         (auto simp: thenE_Inr intro: supervisor orphan that(3))
  next
    case (Some s)
    have from_s: "from_journal (rh_env h) runId s"
      using gather_journals_from [OF g] furthest_from [OF Some] by auto
    show ?thesis
    proof (cases "isTerminal (rs_status s)")
      case True
      with r Some have "v = Reduced s" "verifySnapshotResult h dir runId s = Inr ()"
        by (auto simp: thenE_Inr Let_def)
      with True from_s journal show ?thesis by blast
    next
      case False
      with r Some show ?thesis
        by (cases "isTerminal (view_status w)"; cases owned)
           (auto simp: thenE_Inr intro: supervisor orphan [of "Reduced s"] that(3))
    qed
  qed
qed

lemma stored_view_cases:
  assumes "stored_view h dir runId journal = Inr w"
  obtains (stored) s where "w = Stored s" "stored_view h dir runId None = Inr (Stored s)"
  | (initial) "w = Reduced (case journal of Some s \<Rightarrow> s | None \<Rightarrow> initialSnapshot runId)" "journal = None \<Longrightarrow> stored_view h dir runId None = Inr w"
  using assms by (auto simp: stored_view_def thenE_Inr split: option.splits)

lemma initial_not_terminal: "\<not> isTerminal (rs_status (initialSnapshot runId))"
  by (simp add: initialSnapshot_def isTerminal_def)

text \<open>
  What is restored without a live owner: the terminal journal that reached furthest; or, without a terminal
  journal, the stored snapshot that a supervisor ended; or else the orphan of what is known.
\<close>

lemma restore_unowned:
  assumes "restoreSnapshot h dir runId False = Inr v"
  obtains (journal) jss j where "gather_journals h dir runId False [] JOURNAL_PATHS = Inr jss" "j \<in> set jss"
      "furthest None jss = Some (rj_snapshot j)" "isTerminal (rs_status (rj_snapshot j))" "v = Reduced (rj_snapshot j)"
      "verifySnapshotResult h dir runId (rj_snapshot j) = Inr ()"
  | (supervisor) jss s where "gather_journals h dir runId False [] JOURNAL_PATHS = Inr jss"
      "case furthest None jss of None \<Rightarrow> True | Some s' \<Rightarrow> \<not> isTerminal (rs_status s')"
      "stored_view h dir runId None = Inr (Stored s)" "v = Stored s" "supervisor_terminal (Stored s)"
  | (orphan) jss w where "gather_journals h dir runId False [] JOURNAL_PATHS = Inr jss"
      "case furthest None jss of None \<Rightarrow> stored_view h dir runId None = Inr w | Some s \<Rightarrow> w = Reduced s"
      "\<not> isTerminal (view_status w)" "v = orphan w"
proof -
  obtain jss where g: "gather_journals h dir runId False [] JOURNAL_PATHS = Inr jss"
    using assms unfolding restoreSnapshot_def thenE_Inr by blast
  obtain w where w: "stored_view h dir runId (furthest None jss) = Inr w"
    using assms g unfolding restoreSnapshot_def thenE_Inr Let_def by auto
  show ?thesis
  proof (cases "furthest None jss")
    case None
    show ?thesis
    proof (cases "isTerminal (view_status w)")
      case True
      have v: "supervisor_terminal w \<and> v = w"
        using assms g w None True by (auto simp: restoreSnapshot_def thenE_Inr check_Inr)
      from w show ?thesis unfolding None
        by (rule stored_view_cases) (use v True None initial_not_terminal supervisor [OF g] in auto)
    next
      case False
      then have "v = orphan w" using assms g w None by (auto simp: restoreSnapshot_def thenE_Inr)
      then show ?thesis using orphan [OF g] None w False by simp
    qed
  next
    case (Some s)
    obtain j where j: "j \<in> set jss" "s = rj_snapshot j" using furthest_from [OF Some] by auto
    show ?thesis
    proof (cases "isTerminal (rs_status s)")
      case True
      then have "v = Reduced s \<and> verifySnapshotResult h dir runId s = Inr ()"
        using assms g w Some by (auto simp: restoreSnapshot_def thenE_Inr Let_def)
      then show ?thesis using journal [OF g j(1)] Some True j(2) by simp
    next
      case open_end: False
      show ?thesis
      proof (cases "isTerminal (view_status w)")
        case True
        have v: "supervisor_terminal w \<and> v = w"
          using assms g w Some True open_end by (auto simp: restoreSnapshot_def thenE_Inr check_Inr)
        from w show ?thesis unfolding Some
          by (rule stored_view_cases) (use v True Some open_end supervisor [OF g] in auto)
      next
        case False
        then have "v = orphan (Reduced s)" using assms g w Some open_end by (auto simp: restoreSnapshot_def thenE_Inr)
        then show ?thesis using orphan [OF g, of "Reduced s"] Some open_end by simp
      qed
    qed
  qed
qed

lemma orphan_terminal: "view_status (orphan w) = Orphaned"
  by (cases w) simp_all

end
