(* ===== verification/Profile.thy ===== *)
theory Profile
  imports Config
begin

text \<open>
  Client profiles (\<^verbatim>\<open>manager/profile.ts\<close>): the endpoint, the files of a profile and their
  permissions, and the credential, which is read again for every request and must not have
  changed. The file system, the URL parser, the certificate parser and the hash are parameters.
\<close>

unbundle bit_operations_syntax

definition PROFILE_FILE_BYTES :: nat where "PROFILE_FILE_BYTES = 16384"
definition CA_FILE_BYTES :: nat where "CA_FILE_BYTES = 1048576"
definition CREDENTIAL_FILE_BYTES :: nat where "CREDENTIAL_FILE_BYTES = 512"
definition CREDENTIAL_MIN_BYTES :: nat where "CREDENTIAL_MIN_BYTES = 32"
definition PATH_BYTES :: nat where "PATH_BYTES = 4096"
definition ENDPOINT_CHARACTERS :: nat where "ENDPOINT_CHARACTERS = 8192"

definition PROFILE_FIELDS :: "jstr list" where
  "PROFILE_FIELDS = map js [''version'', ''endpoint'', ''credentialFile'', ''caFile'']"

section \<open>The host\<close>

record file_status =
  fs_isFile :: bool
  fs_size :: nat
  fs_mode :: "32 word"
  fs_uid :: int
  fs_nlink :: nat

text \<open>An opened file: its status, and its bytes unless reading fails.\<close>

record opened_file =
  of_status :: file_status
  of_bytes :: "u8 list option"

record parsed_url =
  pu_protocol :: jstr
  pu_username :: jstr
  pu_password :: jstr
  pu_hostname :: jstr
  pu_port :: jstr
  pu_pathname :: jstr
  pu_search :: jstr
  pu_hash :: jstr

text \<open>\<^verbatim>\<open>open\<close> without following a final link gives no file when it fails with a system error.\<close>

record client_host =
  ch_open :: "jstr \<Rightarrow> opened_file option"
  ch_euid :: int
  ch_url :: "jstr \<Rightarrow> parsed_url option"
  ch_certificate :: "jstr \<Rightarrow> bool"
  ch_sha256 :: "u8 list \<Rightarrow> u8 list"

section \<open>Paths and endpoints\<close>

definition validClientPath :: "jstr \<Rightarrow> bool" where
  "validClientPath path \<longleftrightarrow>
     isAbsolute path \<and> byteLength path \<le> PATH_BYTES \<and> list_all (\<lambda>c. c \<noteq> 0 \<and> c \<noteq> 10 \<and> c \<noteq> 13) path"

record client_endpoint =
  ce_url :: jstr
  ce_host :: jstr
  ce_port :: nat

text \<open>The units of \<^verbatim>\<open>/[\u0000- @?#\\]/\<close>.\<close>

definition endpoint_unit_refused :: "unit16 \<Rightarrow> bool" where
  "endpoint_unit_refused c \<longleftrightarrow> c \<le> 32 \<or> c = 64 \<or> c = 63 \<or> c = 35 \<or> c = 92"

definition checkedEndpoint :: "client_host \<Rightarrow> jstr \<Rightarrow> client_endpoint outcome" where
  "checkedEndpoint h endpoint =
     (if length endpoint > ENDPOINT_CHARACTERS \<or> \<not> starts_with endpoint (js ''https://'')
         \<or> list_ex endpoint_unit_refused endpoint then Inl (Fixed InvalidEndpoint)
      else
        (case ch_url h endpoint of
           None \<Rightarrow> Inl (Fixed InvalidEndpoint)
         | Some u \<Rightarrow>
             if pu_protocol u \<noteq> js ''https:'' \<or> pu_username u \<noteq> [] \<or> pu_password u \<noteq> [] \<or> pu_search u \<noteq> []
                \<or> pu_hash u \<noteq> [] \<or> pu_pathname u \<noteq> js ''/v1'' \<and> pu_pathname u \<noteq> js ''/v1/'' \<or> pu_hostname u = []
             then Inl (Fixed InvalidEndpoint)
             else
               Inr \<lparr>ce_url = endpoint,
                    ce_host = (if starts_with (pu_hostname u) (js ''['') then butlast (tl (pu_hostname u)) else pu_hostname u),
                    ce_port = (if pu_port u = [] then 443 else digits_val (pu_port u))\<rparr>))"

section \<open>Files\<close>

definition status_refused :: "client_host \<Rightarrow> bool \<Rightarrow> nat \<Rightarrow> file_status \<Rightarrow> bool" where
  "status_refused h isPrivate limit s \<longleftrightarrow>
     \<not> fs_isFile s \<or> fs_size s > limit \<or> fs_mode s AND 18 \<noteq> 0
     \<or> isPrivate \<and> (fs_uid s \<noteq> ch_euid h \<or> fs_mode s AND 63 \<noteq> 0 \<or> fs_nlink s \<noteq> 1)"

definition readClientFile :: "client_host \<Rightarrow> bool \<Rightarrow> nat \<Rightarrow> jstr \<Rightarrow> u8 list outcome" where
  "readClientFile h isPrivate limit path =
     (if \<not> validClientPath path then Inl (Fixed InvalidClientProfile)
      else
        (case ch_open h path of
           None \<Rightarrow> Inl (Fixed ClientFileUnavailable)
         | Some f \<Rightarrow>
             if status_refused h isPrivate limit (of_status f) then Inl (Fixed ClientFileUnavailable)
             else
               (case of_bytes f of
                  None \<Rightarrow> Inl (Fixed ClientFileUnavailable)
                | Some bytes \<Rightarrow>
                    if length bytes > limit then Inl (Fixed ClientFileUnavailable) else Inr bytes)))"

definition credential_byte :: "u8 \<Rightarrow> bool" where
  "credential_byte b \<longleftrightarrow> 32 < b \<and> b < 127 \<and> b \<noteq> 44"

text \<open>\<^verbatim>\<open>toString("latin1")\<close>, and \<^verbatim>\<open>update(text, "latin1")\<close> of the hash.\<close>

definition latin1 :: "u8 list \<Rightarrow> jstr" where
  "latin1 bytes = map ucast bytes"

definition latin1_bytes :: "jstr \<Rightarrow> u8 list" where
  "latin1_bytes text = map ucast text"

definition credentialOf :: "u8 list \<Rightarrow> jstr outcome" where
  "credentialOf bytes =
     (if length bytes < CREDENTIAL_MIN_BYTES \<or> length bytes > CREDENTIAL_FILE_BYTES
         \<or> \<not> list_all credential_byte bytes then Inl (Fixed CredentialUnavailable)
      else Inr (latin1 bytes))"

record profile_fields =
  pf_endpoint :: jstr
  pf_credentialFile :: jstr
  pf_caFile :: jstr

definition parseClientProfile :: "jstr \<Rightarrow> profile_fields outcome" where
  "parseClientProfile text =
     (case tryParseJson text of
        Some (JObj value) \<Rightarrow>
          if length value \<noteq> length PROFILE_FIELDS \<or> \<not> list_all (map_has value) PROFILE_FIELDS
          then Inl (Fixed InvalidClientProfile)
          else
            (case (jsonMember value (js ''version''), jsonMember value (js ''endpoint''),
                   jsonMember value (js ''credentialFile''), jsonMember value (js ''caFile'')) of
               (Some (JNum version), Some (JStr endpoint), Some (JStr credentialFile), Some (JStr caFile)) \<Rightarrow>
                 if boundedInteger version 1 1 = None \<or> \<not> validClientPath credentialFile \<or> \<not> validClientPath caFile
                 then Inl (Fixed InvalidClientProfile)
                 else Inr \<lparr>pf_endpoint = endpoint, pf_credentialFile = credentialFile, pf_caFile = caFile\<rparr>
             | _ \<Rightarrow> Inl (Fixed InvalidClientProfile))
      | _ \<Rightarrow> Inl (Fixed InvalidClientProfile))"

section \<open>Certificates\<close>

text \<open>The text before the first occurrence of a marker, and the text after it.\<close>

fun cut_at :: "jstr \<Rightarrow> jstr \<Rightarrow> (jstr \<times> jstr) option" where
  "cut_at p s =
     (if starts_with s p then Some ([], drop (length p) s)
      else (case s of [] \<Rightarrow> None | c # r \<Rightarrow> map_option (apfst ((#) c)) (cut_at p r)))"

declare cut_at.simps [simp del]

lemma cut_at_shorter: "cut_at p s = Some (a, b) \<Longrightarrow> length a + length p + length b = length s"
proof (induction s arbitrary: a b)
  case Nil
  then show ?case by (subst (asm) cut_at.simps) (auto simp: starts_with_def split: if_splits)
next
  case (Cons c s)
  show ?case
  proof (cases "starts_with (c # s) p")
    case True
    then have "length p \<le> length (c # s)" unfolding starts_with_def by (metis length_take min.cobounded1)
    with True Cons.prems show ?thesis by (subst (asm) cut_at.simps) auto
  next
    case False
    with Cons.prems obtain a' where "cut_at p s = Some (a', b)" "a = c # a'"
      by (subst (asm) cut_at.simps) (auto simp: apfst_def map_prod_def)
    with Cons.IH show ?thesis by fastforce
  qed
qed

definition BEGIN_CERTIFICATE :: jstr where "BEGIN_CERTIFICATE = js ''-----BEGIN CERTIFICATE-----''"
definition END_CERTIFICATE :: jstr where "END_CERTIFICATE = js ''-----END CERTIFICATE-----''"

function pem_blocks :: "jstr \<Rightarrow> jstr list" where
  "pem_blocks pem =
     (case cut_at BEGIN_CERTIFICATE pem of
        None \<Rightarrow> []
      | Some (_, r) \<Rightarrow>
          (case cut_at END_CERTIFICATE r of
             None \<Rightarrow> []
           | Some (body, rest) \<Rightarrow> (BEGIN_CERTIFICATE @ body @ END_CERTIFICATE) # pem_blocks rest))"
  by pat_completeness auto

termination pem_blocks
  by (relation "measure length") (auto dest!: cut_at_shorter simp: BEGIN_CERTIFICATE_def END_CERTIFICATE_def)

declare pem_blocks.simps [simp del]

definition certificatesOf :: "client_host \<Rightarrow> jstr \<Rightarrow> bool" where
  "certificatesOf h pem \<longleftrightarrow> pem_blocks pem \<noteq> [] \<and> list_all (ch_certificate h) (pem_blocks pem)"

section \<open>Profiles\<close>

definition fingerprint :: "client_host \<Rightarrow> jstr \<Rightarrow> u8 list" where
  "fingerprint h bearer = ch_sha256 h (latin1_bytes bearer)"

record client_profile =
  cp_endpoint :: client_endpoint
  cp_ca :: jstr
  cp_credentialFile :: jstr
  cp_fingerprint :: "u8 list"

definition thenO :: "'a outcome \<Rightarrow> ('a \<Rightarrow> 'b outcome) \<Rightarrow> 'b outcome" where
  "thenO m f = (case m of Inl e \<Rightarrow> Inl e | Inr x \<Rightarrow> f x)"

definition or_invalid :: "'a option \<Rightarrow> 'a outcome" where
  "or_invalid value = (case value of None \<Rightarrow> Inl (Fixed InvalidClientProfile) | Some x \<Rightarrow> Inr x)"

definition load :: "client_host \<Rightarrow> jstr \<Rightarrow> client_profile outcome" where
  "load h path =
     thenO (readClientFile h True PROFILE_FILE_BYTES path) (\<lambda>bytes.
     thenO (or_invalid (utf8_decode bytes)) (\<lambda>text.
     thenO (parseClientProfile text) (\<lambda>fields.
     thenO (checkedEndpoint h (pf_endpoint fields)) (\<lambda>endpoint.
     thenO (readClientFile h False CA_FILE_BYTES (pf_caFile fields)) (\<lambda>caBytes.
     thenO (or_invalid (utf8_decode caBytes)) (\<lambda>ca.
     thenO (if certificatesOf h ca then Inr () else Inl (Fixed InvalidClientProfile)) (\<lambda>_.
     thenO (readClientFile h True CREDENTIAL_FILE_BYTES (pf_credentialFile fields)) (\<lambda>credential.
     thenO (credentialOf credential) (\<lambda>bearer.
       Inr \<lparr>cp_endpoint = endpoint, cp_ca = ca, cp_credentialFile = pf_credentialFile fields,
            cp_fingerprint = fingerprint h bearer\<rparr>)))))))))"

definition authorization :: "client_host \<Rightarrow> client_profile \<Rightarrow> jstr outcome" where
  "authorization h profile =
     thenO (readClientFile h True CREDENTIAL_FILE_BYTES (cp_credentialFile profile)) (\<lambda>bytes.
     thenO (credentialOf bytes) (\<lambda>bearer.
       if fingerprint h bearer \<noteq> cp_fingerprint profile then Inl (Fixed CredentialChanged)
       else Inr (js ''Bearer '' @ bearer)))"

definition profile_json :: "client_profile \<Rightarrow> json_value" where
  "profile_json profile = JObj [(js ''endpoint'', JStr (ce_url (cp_endpoint profile)))]"

definition profile_inspection :: "client_profile \<Rightarrow> jstr" where
  "profile_inspection profile = js ''ClientProfile('' @ ce_url (cp_endpoint profile) @ js '')''"

section \<open>What a profile guarantees\<close>

lemma thenO_Inr: "thenO m f = Inr y \<longleftrightarrow> (\<exists>x. m = Inr x \<and> f x = Inr y)"
  by (auto simp: thenO_def split: sum.splits)

lemma thenO_elim: "thenO m f = Inr y \<Longrightarrow> (\<And>x. m = Inr x \<Longrightarrow> f x = Inr y \<Longrightarrow> P) \<Longrightarrow> P"
  by (auto simp: thenO_Inr)

lemma unat_latin1: "unat (ucast b :: unit16) = unat (b :: u8)"
proof -
  have "unat b < 2 ^ 16" using unsigned_less [of b, where 'a = nat] by simp
  then show ?thesis by (simp add: unsigned_ucast_eq take_bit_nat_eq_self)
qed

lemma latin1_round_trip: "latin1_bytes (latin1 bytes) = bytes"
proof -
  have "(ucast (ucast b :: unit16) :: u8) = b" for b :: u8
    by (rule bit_word_eqI) (auto simp: bit_ucast_iff)
  then show ?thesis by (simp add: latin1_def latin1_bytes_def comp_def)
qed

lemma readClientFile_Inr:
  assumes "readClientFile h private limit path = Inr bytes"
  shows "\<exists>f. validClientPath path \<and> ch_open h path = Some f \<and> of_bytes f = Some bytes \<and> length bytes \<le> limit
    \<and> fs_isFile (of_status f) \<and> fs_mode (of_status f) AND 18 = 0
    \<and> (private \<longrightarrow> fs_uid (of_status f) = ch_euid h \<and> fs_mode (of_status f) AND 63 = 0 \<and> fs_nlink (of_status f) = 1)"
  using assms by (auto simp: readClientFile_def status_refused_def split: if_splits option.splits)

text \<open>The characters of a bearer: visible ASCII, and neither a comma nor a line break.\<close>

definition bearer_unit :: "unit16 \<Rightarrow> bool" where
  "bearer_unit c \<longleftrightarrow> 32 < c \<and> c < 127 \<and> c \<noteq> 44"

lemma credentialOf_Inr:
  assumes "credentialOf bytes = Inr bearer"
  shows "bearer = latin1 bytes \<and> 32 \<le> length bearer \<and> length bearer \<le> 512 \<and> list_all bearer_unit bearer"
proof -
  have unit: "bearer_unit (ucast b)" if "credential_byte b" for b :: u8
  proof -
    have "unat (ucast b :: unit16) = unat b" by (rule unat_latin1)
    moreover have "(ucast b :: unit16) = 44 \<longleftrightarrow> unat (ucast b :: unit16) = 44"
      by (auto simp: word_unat_eq_iff)
    moreover have "b = 44 \<longleftrightarrow> unat b = 44" by (auto simp: word_unat_eq_iff)
    ultimately show ?thesis
      using that by (simp add: bearer_unit_def credential_byte_def word_less_nat_alt)
  qed
  show ?thesis
    using assms
    by (auto simp: credentialOf_def latin1_def CREDENTIAL_MIN_BYTES_def CREDENTIAL_FILE_BYTES_def list_all_iff
        intro!: unit split: if_splits)
qed

end
