(* ===== verification/SampleHost.thy ===== *)
theory SampleHost
  imports SampleRun Journals StoredLaws Profile
begin

text \<open>Concrete values of the host side: numbers, a descriptor, a manifest, and files.\<close>

section \<open>Numbers and canonical values\<close>

definition one_text :: "js_number \<Rightarrow> jstr" where "one_text = (\<lambda>_. [49])"

lemma one_grammar: "number_grammar [49]"
  by code_simp

definition members_ab :: js_value where
  "members_ab = JObj [(js ''a'', JNum (Finite 1)), (js ''b'', JArr [JBool True, JNull])]"

definition members_ba :: js_value where
  "members_ba = JObj [(js ''b'', JArr [JBool True, JNull]), (js ''a'', JNum (Finite 1))]"

lemma members_ok:
  "number_texts_ok one_text members_ab" "number_texts_ok one_text members_ba"
  "distinct_names members_ab" "distinct_names members_ba"
  "inj_on one_text (set_json members_ab \<union> set_json members_ba)"
  by (simp_all add: members_ab_def members_ba_def one_text_def one_grammar snds.simps inj_on_def)

lemma members_order: "in_order members_ab = in_order members_ba"
proof -
  have "js ''a'' \<le> js ''b''" "\<not> js ''b'' \<le> js ''a''" by code_simp+
  then show ?thesis by (simp add: members_ab_def members_ba_def)
qed

section \<open>A descriptor\<close>

definition descriptor_json :: js_value where
  "descriptor_json =
     JObj (map (\<lambda>(k, v). (js k, v))
       [(''descriptorVersion'', JNum (js_int 1)), (''name'', JStr (js ''build'')), (''blurb'', JStr []),
        (''level'', JStr (js ''l'')), (''size'', JNum (js_int 1)), (''askNodes'', JNum (js_int 0)),
        (''minFold'', JNull), (''maxFold'', JNum (js_int 2)), (''paths'', JNum (js_int 1)), (''inputs'', JArr []),
        (''runFacts'', JArr []), (''pins'', JArr []), (''runnerVersion'', JStr (js ''1'')),
        (''protocolVersions'', JArr [JNum (js_int 1), JNum (js_int 2)]), (''storeVersions'', JArr [JNum (js_int 1)]),
        (''capabilities'', JObj [])])"

lemma number_of_small: "\<bar>i\<bar> \<le> 1000 \<Longrightarrow> number_of (Some (JNum (js_int i))) label = Inr i"
  by (simp add: number_of_def MAX_SAFE_def)

lemma natural_small: "0 \<le> i \<Longrightarrow> i \<le> 1000 \<Longrightarrow> naturalNumber (Some (JNum (js_int i))) label = Inr i"
  by (simp add: naturalNumber_def number_of_small check_def)

definition descriptor_read :: workflow_descriptor where
  "descriptor_read =
     \<lparr>wd_runnerId = js ''r'', wd_name = js ''build'', wd_blurb = [], wd_result = None, wd_level = js ''l'', wd_size = 1,
      wd_askNodes = 0, wd_minFold = None, wd_maxFold = Some 2, wd_paths = 1, wd_inputs = [], wd_runFacts = [], wd_pins = [],
      wd_descriptorVersion = 1, wd_runnerVersion = js ''1'', wd_protocolVersions = [1, 2], wd_storeVersions = [1],
      wd_capabilities = default_capabilities, wd_personAnsweringModes = []\<rparr>"

lemma descriptor_members_sample:
  "parseDescriptor (js ''r'') descriptor_json = Inr descriptor_read"
  by (simp add: parseDescriptor_def descriptor_json_def asRecord_def number_of_small natural_small check_def
      descriptor_members_def text_of_def texts_def string_items_def numbers_def nullableNaturalNumber_def
      workflowInputs_def capabilities_def own_entries_def descriptor_read_def descriptor_checks_def assertName_def
      input_names_def) (simp add: js_def)

section \<open>A manifest and an empty store\<close>

definition manifest_sample :: launch_manifest where
  "manifest_sample =
     \<lparr>lm_versioned = True, lm_runId = js ''run'', lm_runnerId = js ''r'', lm_runnerExecutable = Some (js ''/bin/r''),
      lm_runnerVersion = Some (js ''1''), lm_workflow = js ''build'', lm_cwd = js ''/work'', lm_targetKind = Scripted,
      lm_targetArgs = [js ''--fast''], lm_inputHashes = [(js ''topic'', replicate 64 97)], lm_programHash = replicate 64 97,
      lm_createdAt = js ''now'', lm_parentRunId = Some (js ''old''), lm_lineage = Some Fork,
      lm_lineageEdits = Some [DropEdit [55], ReplaceEdit [56] (replicate 64 98)], lm_persona = None, lm_policyDigest = None,
      lm_personAnswering = Some (js ''engine''), lm_ownerId = Some (js ''o''), lm_runtimeStore = True\<rparr>"

lemma manifest_sample_texts:
  "sha256_text (replicate 64 97)" "sha256_text (replicate 64 98)" "run_id_text (js ''run'')"
  "canonical_text [55]" "canonical_text [56]" "isAbsolute (js ''/bin/r'')" "isAbsolute (js ''/work'')"
  by code_simp+

lemma manifest_sample_ok: "manifest_ok manifest_sample"
  unfolding manifest_ok_def
  by (intro conjI) (simp_all add: manifest_sample_def manifest_sample_texts lineage_ok_def edits_of_def edit_ok_def)

definition empty_host :: restore_host where
  "empty_host =
     \<lparr>rh_env = plain_platform, rh_fs = \<lparr>sf_realpath = (\<lambda>p. Inr (Some p)), sf_lstat = (\<lambda>_. Inr None), sf_read = (\<lambda>_. Inr None)\<rparr>,
      rh_sha256 = (\<lambda>b. map ucast b), rh_number = one_text, rh_difference = (\<lambda>_ _. [])\<rparr>"

lemma empty_store_restored:
  "restoreSnapshot empty_host (js ''/store'') (js ''run'') False = Inr (orphan (Reduced (initialSnapshot (js ''run''))))"
  by (simp add: restoreSnapshot_def JOURNAL_PATHS_def read_journal_def confinedPath_def thenM_def empty_host_def
      valid_component_def stored_view_def readTextBounded_def readBytesBounded_def initialSnapshot_def isTerminal_def)
     (simp add: js_def)

end
