(* ===== verification/HostProperties.thy ===== *)
theory HostProperties
  imports SampleHost
begin

text \<open>
  The properties of the host side: the catalogue of runners, launches and manifests, client
  profiles, projections, and the restoring of runs from their stores.
\<close>

section \<open>Runners and routing\<close>

text \<open>
  C30: Equivalence. The canonical text of \<^verbatim>\<open>canonicalJson\<close>, whose hash identifies a program, is the same for
  two values exactly when they are equal up to the order of the members of their objects. The platform
  gives distinct numbers distinct texts in the grammar of JSON.
\<close>

theorem canonical_text_identifies:
  assumes "number_texts_ok number v" and "number_texts_ok number w"
    and "distinct_names v" and "distinct_names w"
    and "inj_on number (set_json v \<union> set_json w)"
  shows "canonicalJson number v = canonicalJson number w \<longleftrightarrow> in_order v = in_order w"
  using assms by (rule canonicalJson_eq_iff)

theorem canonical_text_identifies_witness: "canonicalJson one_text members_ab = canonicalJson one_text members_ba"
  using canonical_text_identifies [OF members_ok(1) members_ok(2) members_ok(3) members_ok(4) members_ok(5)] members_order
  by (rule iffD2)

text \<open>
  Type. A descriptor that the catalogue accepts is consistent: a known version, a name, distinct inputs
  with at most one from the command tail and one from standard input, protocol and store 1 among
  distinct versions, ordered folds, and in version 3 protocol 2, store 2 and local control.
\<close>

theorem accepted_descriptor_is_consistent:
  assumes "parseDescriptor runner v = Inr d"
  shows "descriptor_ok d \<and> wd_runnerId d = runner"
  using assms by (rule parseDescriptor_ok)

theorem accepted_descriptor_is_consistent_witness: "descriptor_ok descriptor_read"
  using accepted_descriptor_is_consistent [OF descriptor_members_sample] by (rule conjunct1)

lemma negotiate_none:
  "(\<exists>e. negotiateProtocolVersion d supported = Inl e) \<longleftrightarrow> set (wd_protocolVersions d) \<inter> set supported = {}"
proof -
  let ?common = "filter (\<lambda>v. v \<in> set supported) (wd_protocolVersions d)"
  have "js_sort (\<lambda>l r. r - l) ?common = sort_key uminus ?common" by (rule js_sort_key) auto
  moreover have "sort_key uminus ?common = [] \<longleftrightarrow> ?common = []" by (metis length_0_conv length_sort)
  moreover have "?common = [] \<longleftrightarrow> set (wd_protocolVersions d) \<inter> set supported = {}"
    by (auto simp: filter_empty_conv)
  ultimately show ?thesis
    by (cases "sort_key uminus ?common") (simp_all add: negotiateProtocolVersion_def)
qed

text \<open>
  Functional. The negotiated protocol is the highest version that the runner and the client share, and
  negotiation fails exactly when they share none.
\<close>

theorem highest_common_protocol:
  "(case negotiateProtocolVersion d supported of
      Inr v \<Rightarrow> v = Max (set (wd_protocolVersions d) \<inter> set supported) \<and> v \<in> set (wd_protocolVersions d) \<inter> set supported
    | Inl _ \<Rightarrow> set (wd_protocolVersions d) \<inter> set supported = {})"
proof (cases "negotiateProtocolVersion d supported")
  case (Inl e)
  then show ?thesis using negotiate_none by fastforce
next
  case (Inr v)
  note v = negotiate_max [OF Inr]
  then have "Max (set (wd_protocolVersions d) \<inter> set supported) = v" by (intro Max_eqI) auto
  with v(1) Inr show ?thesis by simp
qed

text \<open>
  Equivalence. The recursive check of a routing inspection accepts a value exactly when no object inside
  it, at any depth, has a member whose normalized name is one of the forbidden names.
\<close>

theorem sanitized_is_decided: "assertSanitizedRouting v = Inr () \<longleftrightarrow> sanitized v"
  by (simp add: assertSanitizedRouting_def visit_iff)

section \<open>Configuration, profiles and paths\<close>

text \<open>
  Functional. The environment selects service mode exactly when one profile variable is set and names one
  absolute path, or a JSON array of one to eight distinct absolute paths, which are kept in order; with
  neither variable the mode is local, and every other environment is refused.
\<close>

theorem client_mode_is_decided:
  "configuredManagerProfiles env = Inr mode \<longleftrightarrow>
     (let several = env ''AGENT_CAT_MANAGER_PROFILES''; single = env ''AGENT_CAT_MANAGER_PROFILE'' in
      case mode of
        Local \<Rightarrow> \<not> truthy several \<and> \<not> truthy single
      | Service paths \<Rightarrow>
          (\<not> truthy several \<and> truthy single \<and> isAbsolute (the single) \<and> paths = [the single])
          \<or> (truthy several \<and> \<not> truthy single \<and> json_parse (the several) = Some (JArr (map JStr paths))
             \<and> 1 \<le> length paths \<and> length paths \<le> 8 \<and> list_all isAbsolute paths \<and> distinct paths))"
proof -
  have paths: "profile_paths 0 [] items = Inr ps \<longleftrightarrow> items = map JStr ps \<and> list_all isAbsolute ps \<and> distinct ps" for items ps
    by (auto simp: profile_paths_Inr)
  have several: "(case parsed of
        JArr items \<Rightarrow> thenE (check (items \<noteq> [] \<and> length items \<le> MAX_MANAGER_PROFILES) m) (\<lambda>_.
          thenE (profile_paths 0 [] items) (\<lambda>profiles. Inr (Service profiles)))
      | _ \<Rightarrow> Inl m) = Inr chosen \<longleftrightarrow>
      (\<exists>ps. chosen = Service ps \<and> parsed = JArr (map JStr ps) \<and> 1 \<le> length ps \<and> length ps \<le> 8 \<and> list_all isAbsolute ps \<and> distinct ps)"
    for parsed :: js_value and m chosen
    by (cases parsed) (auto simp: thenE_Inr check_Inr paths MAX_MANAGER_PROFILES_def Suc_le_eq)
  show ?thesis
    by (cases mode)
       (auto simp: configuredManagerProfiles_def Let_def several thenE_Inr check_Inr simp del: json.case split: option.splits)
qed

text \<open>
  C29: Safety. A request carries the header \<^verbatim>\<open>Bearer\<close> followed by the bytes of the credential file exactly
  when that file is, at the time of the request, a regular file of the user's own that nobody else can
  read or write, without other links, of 32 to 512 visible ASCII bytes without comma, and the hash of its
  bytes is the one taken when the profile was loaded.
\<close>

theorem credential_is_fresh_and_unchanged:
  "authorization h p = Inr header \<longleftrightarrow>
     (\<exists>f bytes. validClientPath (cp_credentialFile p) \<and> ch_open h (cp_credentialFile p) = Some f \<and> of_bytes f = Some bytes
      \<and> fs_isFile (of_status f) \<and> fs_size (of_status f) \<le> 512 \<and> fs_mode (of_status f) AND 63 = 0 \<and> fs_mode (of_status f) AND 18 = 0
      \<and> fs_uid (of_status f) = ch_euid h \<and> fs_nlink (of_status f) = 1
      \<and> 32 \<le> length bytes \<and> length bytes \<le> 512 \<and> list_all credential_byte bytes
      \<and> ch_sha256 h bytes = cp_fingerprint p \<and> header = js ''Bearer '' @ latin1 bytes)"
proof -
  have opened: "readClientFile h True 512 path = Inr bytes \<longleftrightarrow>
      (\<exists>f. validClientPath path \<and> ch_open h path = Some f \<and> of_bytes f = Some bytes \<and> length bytes \<le> 512
        \<and> \<not> status_refused h True 512 (of_status f))" for path bytes
    by (auto simp: readClientFile_def split: option.splits)
  have bearer: "credentialOf bytes = Inr b \<longleftrightarrow> 32 \<le> length bytes \<and> length bytes \<le> 512 \<and> list_all credential_byte bytes
      \<and> b = latin1 bytes" for bytes b
    by (auto simp: credentialOf_def CREDENTIAL_MIN_BYTES_def CREDENTIAL_FILE_BYTES_def)
  show ?thesis
    unfolding authorization_def thenO_Inr CREDENTIAL_FILE_BYTES_def opened bearer
    by (auto simp: fingerprint_def latin1_round_trip status_refused_def not_less split: if_splits)
qed

text \<open>
  Bounds. A resolved directory lies inside a configured root exactly when the components of the root are a
  prefix of its components and the first further component does not begin with two dots; a directory
  below the root whose own name begins with two dots is refused as well.
\<close>

theorem inside_is_component_prefix:
  "inside root_dir path \<longleftrightarrow>
     (\<exists>cs. components path = components root_dir @ cs
        \<and> (case cs of [] \<Rightarrow> True | name # _ \<Rightarrow> \<not> starts_with name (js ''..'')))"
  unfolding inside_iff by (intro ex_cong1) (auto split: list.split)

section \<open>Projections\<close>

text \<open>
  Functional. The JSON projection of a snapshot lists the occurrences in strictly ascending numeric order,
  each once, and does not depend on the order in which occurrences and acknowledgements arrived.
\<close>

theorem projection_is_ordered:
  assumes "replay env (initialSnapshot r) es = Inr s"
    and "mset os = mset (rs_occurrences s)" and "mset cs = mset (rs_controlAcks s)"
  shows "sorted_wrt (<) (map digits_val (projected_ids (snapshotValue s)))
    \<and> mset (projected_ids (snapshotValue s)) = mset (map fst (rs_occurrences s))
    \<and> snapshotValue (s\<lparr>rs_occurrences := os, rs_controlAcks := cs\<rparr>) = snapshotValue s"
proof -
  have "snap_inv s" using assms(1) initialSnapshot_inv by (rule replay_inv)
  then show ?thesis using projected_order snapshotValue_permuted [OF _ assms(2,3)] by blast
qed

theorem projection_is_ordered_witness: "mset (projected_ids (snapshotValue sample_snapshot)) = mset (map fst (rs_occurrences sample_snapshot))"
  using projection_is_ordered [OF sample_replay refl refl] by blast

section \<open>Stores\<close>

text \<open>
  Invariant. The lineage of every launch manifest that is read back is consistent: a parent is recorded
  exactly with an operation, only a fork has edits, and the edits concern distinct occurrences, named by
  canonical decimals.
\<close>

theorem stored_lineage_is_consistent:
  assumes "parseLaunchManifest v = Inr m"
  shows "(lm_parentRunId m = None \<longleftrightarrow> lm_lineage m = None) \<and> (lm_lineage m = Some Fork \<or> edits_of m = [])
    \<and> distinct (map edit_occurrence (edits_of m)) \<and> list_all (\<lambda>e. canonical_text (edit_occurrence e)) (edits_of m)"
  using parseLaunchManifest_lineage [OF assms] by (simp only: lineage_ok_def)

theorem stored_lineage_is_consistent_witness: "distinct (map edit_occurrence (edits_of (manifest_sample\<lparr>lm_lineageEdits := Some (edits_of manifest_sample)\<rparr>)))"
  using stored_lineage_is_consistent [OF parseLaunchManifest_value [OF manifest_sample_ok]] by (elim conjE)

text \<open>
  C28: Safety. A run that is restored without a live owner is in a terminal state, and this is one of three ends.
  It is the end that the journal which reached furthest tells, and a result that it names was verified; or no journal
  tells an end, and the stored snapshot has status failed or cancelled with one of the three failure classes that
  only a supervisor writes; or neither tells an end, and what is known of the run, the furthest journal or
  else the stored snapshot, is orphaned.
\<close>

theorem restored_without_owner_is_terminal:
  assumes "restoreSnapshot h dir run False = Inr v"
  shows "isTerminal (view_status v)
    \<and> (\<exists>journals. gather_journals h dir run False [] JOURNAL_PATHS = Inr journals
        \<and> ((\<exists>j \<in> set journals. furthest None journals = Some (rj_snapshot j) \<and> isTerminal (rs_status (rj_snapshot j))
              \<and> v = Reduced (rj_snapshot j) \<and> verifySnapshotResult h dir run (rj_snapshot j) = Inr ())
          \<or> ((case furthest None journals of None \<Rightarrow> True | Some s \<Rightarrow> rs_status s \<notin> {Succeeded, RunFailed, RunCancelled, Orphaned})
              \<and> (\<exists>s. stored_view h dir run None = Inr (Stored s) \<and> v = Stored s)
              \<and> view_status v \<in> {RunFailed, RunCancelled}
              \<and> view_failureClass v \<in> {Some (js ''supervisor''), Some (js ''forced-termination''), Some (js ''missing-terminal-event'')})
          \<or> (\<exists>w. (case furthest None journals of None \<Rightarrow> stored_view h dir run None = Inr w | Some s \<Rightarrow> w = Reduced s)
              \<and> \<not> isTerminal (view_status w) \<and> v = orphan w)))"
  using assms
proof (cases rule: restore_unowned)
  case (journal jss j)
  then show ?thesis by (intro conjI exI [of _ jss]) auto
next
  case (supervisor jss s)
  have ended: "view_status v \<in> {RunFailed, RunCancelled}"
    "view_failureClass v \<in> {Some (js ''supervisor''), Some (js ''forced-termination''), Some (js ''missing-terminal-event'')}"
    using supervisor(4,5) by (auto simp: supervisor_terminal_def SUPERVISOR_FAILURES_def split: option.splits)
  moreover have "isTerminal (view_status v)" using ended(1) by (auto simp: isTerminal_def)
  moreover have "case furthest None jss of None \<Rightarrow> True | Some s \<Rightarrow> rs_status s \<notin> {Succeeded, RunFailed, RunCancelled, Orphaned}"
    using supervisor(2) by (auto simp: isTerminal_def split: option.splits)
  ultimately show ?thesis using supervisor(1,3,4) by blast
next
  case (orphan jss w)
  moreover have "isTerminal (view_status v)" using orphan(4) by (simp add: orphan_terminal isTerminal_def)
  ultimately show ?thesis by blast
qed

theorem restored_without_owner_is_terminal_witness:
  "isTerminal (view_status (orphan (Reduced (initialSnapshot (js ''run'')))))"
  using restored_without_owner_is_terminal [OF empty_store_restored] by (rule conjunct1)

end
