(* ===== verification/Diagnostics.thy ===== *)
theory Diagnostics
  imports Journals
begin

text \<open>
  The diagnostics of a supervised run (\<^verbatim>\<open>supervisor.ts\<close>): the standard error of the runner is cut into
  lines, redacted, and appended to a log of bounded size. The state is the pending text, whether an
  overlong line is being dropped, and the number of bytes logged.
\<close>

definition MAX_STDERR_LOG :: nat where "MAX_STDERR_LOG = 10 * 1024 * 1024"
definition MAX_STDERR_LINE :: nat where "MAX_STDERR_LINE = 64 * 1024"

definition STDERR_TRUNCATION_MARKER :: "u8 list" where
  "STDERR_TRUNCATION_MARKER = utf8_encode ([10] @ js ''[agent-cat stderr truncated at 10485760 bytes]'' @ [10])"

section \<open>Redaction\<close>

text \<open>
  The regular expressions ignore the case of ASCII letters: without the \<^verbatim>\<open>u\<close> flag no other unit
  equals an ASCII letter. A match is the length of its kept prefix and of the whole; \<^verbatim>\<open>\s\<close> and
  \<^verbatim>\<open>\S\<close> are disjoint, so the greedy match needs no backtracking.
\<close>

definition after_word :: "jstr \<Rightarrow> jstr \<Rightarrow> jstr option" where
  "after_word w s = (if map ascii_lower (take (length w) s) = w then Some (drop (length w) s) else None)"

definition skip_spaces :: "jstr \<Rightarrow> jstr" where
  "skip_spaces s = dropWhile js_space s"

definition skip_visible :: "jstr \<Rightarrow> jstr" where
  "skip_visible s = dropWhile (\<lambda>c. \<not> js_space c) s"

text \<open>\<^verbatim>\<open>/(authorization\s*:\s*bearer\s+)\S+/gi\<close>: what follows the kept prefix, if there is a match.\<close>

definition match_bearer :: "jstr \<Rightarrow> jstr option" where
  "match_bearer s =
     Option.bind (after_word (js ''authorization'') s) (\<lambda>a.
     Option.bind (after_word (js '':'') (skip_spaces a)) (\<lambda>b.
     Option.bind (after_word (js ''bearer'') (skip_spaces b)) (\<lambda>c.
       (let d = skip_spaces c in if c \<noteq> d \<and> d \<noteq> [] then Some d else None))))"

definition SECRET_WORDS :: "jstr list" where
  "SECRET_WORDS = map js [''api_key'', ''api-key'', ''apikey'', ''token'', ''secret'', ''password'']"

text \<open>\<^verbatim>\<open>/((?:api[_-]?key|token|secret|password)\s*[:=]\s*)\S+/gi\<close>.\<close>

definition match_secret :: "jstr \<Rightarrow> jstr option" where
  "match_secret s =
     Option.bind (first_some (map (\<lambda>w. after_word w s) SECRET_WORDS)) (\<lambda>a.
       (case skip_spaces a of
          c # b \<Rightarrow> if (c = 58 \<or> c = 61) \<and> skip_spaces b \<noteq> [] then Some (skip_spaces b) else None
        | [] \<Rightarrow> None))"

definition REDACTED :: jstr where "REDACTED = js ''[REDACTED]''"

text \<open>
  The global replacement by \<^verbatim>\<open>$1[REDACTED]\<close>: a match keeps its prefix and loses the visible units
  after it; the search continues behind the match.
\<close>

function replace_visible :: "(jstr \<Rightarrow> jstr option) \<Rightarrow> jstr \<Rightarrow> jstr" where
  "replace_visible m s =
     (case s of
        [] \<Rightarrow> []
      | c # r \<Rightarrow>
          (case m s of
             Some rest \<Rightarrow>
               if length (skip_visible rest) < length s
               then take (length s - length rest) s @ REDACTED @ replace_visible m (skip_visible rest)
               else c # replace_visible m r
           | None \<Rightarrow> c # replace_visible m r))"
  by pat_completeness auto

termination replace_visible
  by (relation "measure (\<lambda>(_, s). length s)") auto

declare replace_visible.simps [simp del]

text \<open>\<^verbatim>\<open>redacted.split(secret).join("[REDACTED]")\<close>: occurrences from the left.\<close>

function replace_text :: "jstr \<Rightarrow> jstr \<Rightarrow> jstr" where
  "replace_text secret s =
     (case s of
        [] \<Rightarrow> []
      | c # r \<Rightarrow>
          if secret \<noteq> [] \<and> starts_with s secret then REDACTED @ replace_text secret (drop (length secret) s)
          else c # replace_text secret r)"
  by pat_completeness auto

termination replace_text
  by (relation "measure (\<lambda>(_, s). length s)") auto

declare replace_text.simps [simp del]

definition redactDiagnostic :: "jstr list \<Rightarrow> jstr \<Rightarrow> jstr" where
  "redactDiagnostic secrets line =
     fold replace_text secrets (replace_visible match_secret (replace_visible match_bearer line))"

text \<open>
  The secret values: the environment variables of at least eight units whose name contains one of the
  words.
\<close>

definition SECRET_NAMES :: "jstr list" where
  "SECRET_NAMES =
     map js [''token'', ''secret'', ''password'', ''api_key'', ''api-key'', ''apikey'', ''authorization'']"

definition secret_name :: "jstr \<Rightarrow> bool" where
  "secret_name key \<longleftrightarrow> (\<exists>i \<in> {0..<Suc (length key)}. \<exists>w \<in> set SECRET_NAMES. after_word w (drop i key) \<noteq> None)"

definition secret_values :: "(jstr, jstr) jsmap \<Rightarrow> jstr list" where
  "secret_values env = map snd (filter (\<lambda>(key, text). secret_name key \<and> length text \<ge> 8) (own_entries env))"

section \<open>The log\<close>

record stderr_log =
  sl_bytes :: nat
  sl_pending :: jstr
  sl_dropping :: bool
  sl_file :: "u8 list"

definition OVERLONG :: jstr where
  "OVERLONG = js ''[REDACTED OVERLONG DIAGNOSTIC]'' @ [10]"

text \<open>
  The loop over the pending text: the outputs, the text left, and whether a line is being dropped. An
  overlong unfinished line is replaced at once and dropped up to its end.
\<close>

function diagnostic_lines :: "jstr list \<Rightarrow> bool \<Rightarrow> jstr \<Rightarrow> jstr list \<times> jstr \<times> bool" where
  "diagnostic_lines secrets dropping pending =
     (if 10 \<notin> set pending then
        (if dropping then ([], [], True)
         else if byteLength pending > MAX_STDERR_LINE then ([OVERLONG], [], True)
         else ([], pending, False))
      else
        (let line = takeWhile (\<lambda>u. u \<noteq> 10) pending; rest = tl (dropWhile (\<lambda>u. u \<noteq> 10) pending) in
         if dropping then diagnostic_lines secrets False rest
         else
           apfst ((#) (if byteLength line > MAX_STDERR_LINE then OVERLONG else redactDiagnostic secrets line @ [10]))
             (diagnostic_lines secrets False rest)))"
  by pat_completeness auto

termination diagnostic_lines
  by (relation "measure (\<lambda>(_, _, p). length p)")
     (simp_all only: in_measure wf_measure case_prod_conv not_not after_newline_shorter)

declare diagnostic_lines.simps [simp del]

text \<open>
  \<^verbatim>\<open>utf8Prefix\<close> decodes a prefix of the bytes and drops one replacement character at its end, which stands
  for a character that the limit cuts off.
\<close>

definition utf8Prefix :: "u8 list \<Rightarrow> nat \<Rightarrow> u8 list" where
  "utf8Prefix bytes maximum =
     (let text = utf8_to_string (take maximum bytes) in
      utf8_encode (if text \<noteq> [] \<and> last text = 0xFFFD then butlast text else text))"

text \<open>One turn of \<^verbatim>\<open>#queueStderr\<close>; \<open>final\<close> also writes the unfinished line.\<close>

definition log_output :: "u8 list \<Rightarrow> stderr_log \<Rightarrow> stderr_log" where
  "log_output bytes l =
     (let limit = MAX_STDERR_LOG - length STDERR_TRUNCATION_MARKER; remaining = limit - sl_bytes l;
          retained = (if length bytes \<le> remaining then bytes else utf8Prefix bytes remaining @ STDERR_TRUNCATION_MARKER) in
      l\<lparr>sl_bytes := sl_bytes l + length retained, sl_file := sl_file l @ retained\<rparr>)"

definition queueStderr :: "jstr list \<Rightarrow> jstr \<Rightarrow> bool \<Rightarrow> stderr_log \<Rightarrow> stderr_log" where
  "queueStderr secrets chunk final l =
     (case diagnostic_lines secrets (sl_dropping l) (sl_pending l @ chunk) of
        (lines, pending, dropping) \<Rightarrow>
          (let last_one = final \<and> \<not> dropping \<and> pending \<noteq> [];
               output = lines @ (if last_one then [redactDiagnostic secrets pending] else []);
               l' = l\<lparr>sl_pending := (if last_one then [] else pending), sl_dropping := dropping\<rparr> in
           if output = [] \<or> sl_bytes l \<ge> MAX_STDERR_LOG then l'
           else log_output (utf8_encode (concat output)) l'))"

definition newLog :: stderr_log where
  "newLog = \<lparr>sl_bytes = 0, sl_pending = [], sl_dropping = False, sl_file = []\<rparr>"

end
