(* ===== verification/Supervise.thy ===== *)
theory Supervise
  imports Diagnostics
begin

text \<open>
  An owned run of the supervisor (\<^verbatim>\<open>supervisor.ts\<close>, \<^verbatim>\<open>OwnedRun\<close>): the snapshot that the protocol lines
  of the runner are reduced into, the controls that wait for their acknowledgement, cancellation, and
  the end of the run. Promises are settled once; \<open>or_settled\<close> lists the settlements. The lines handed to the
  mirror \<^verbatim>\<open>live-events.ndjson\<close>, the controls written to the pipe and the snapshots shown to the listeners are
  listed too. The process, its signals and the files are the host's.
\<close>

section \<open>State\<close>

record control_correlation =
  cc_command :: jstr
  cc_occurrenceId :: "jstr option"
  cc_attemptId :: "jstr option"

datatype settlement = Acknowledged control_ack | Unacknowledged jstr

text \<open>The child: not started, running with or without a usable control pipe, or exited.\<close>

datatype child_state = NotStarted | Started bool | Exited

record owned_run =
  or_snapshot :: run_snapshot
  or_child :: child_state
  or_buffer :: jstr
  or_terminal :: bool
  or_forced :: bool
  or_cancelRequested :: bool
  or_cleanup :: bool
  or_waiters :: "(jstr, control_correlation) jsmap"
  or_secrets :: "jstr list"
  or_log :: stderr_log
  or_mirror :: "jstr list"
  or_sent :: "js_value list"
  or_settled :: "(jstr \<times> settlement) list"
  or_shown :: "run_snapshot list"
  or_finished :: "run_snapshot option"

definition newRun :: "prepared_launch \<Rightarrow> owned_run" where
  "newRun prepared =
     \<lparr>or_snapshot = initialSnapshot (lm_runId (pl_manifest prepared)), or_child = NotStarted, or_buffer = [],
      or_terminal = False, or_forced = False, or_cancelRequested = False, or_cleanup = False, or_waiters = [],
      or_secrets = secret_values (pl_env prepared), or_log = newLog, or_mirror = [], or_sent = [], or_settled = [],
      or_shown = [], or_finished = None\<rparr>"

definition started :: "owned_run \<Rightarrow> owned_run result" where
  "started r = (if or_child r = NotStarted then Inr (r\<lparr>or_child := Started True\<rparr>) else Inl (js ''run already started''))"

definition show_snapshot :: "run_snapshot \<Rightarrow> owned_run \<Rightarrow> owned_run" where
  "show_snapshot s r = r\<lparr>or_snapshot := s, or_shown := or_shown r @ [s]\<rparr>"

section \<open>Failure\<close>

text \<open>Every waiter is rejected with the message for its control.\<close>

definition reject_all :: "(jstr \<Rightarrow> jstr) \<Rightarrow> owned_run \<Rightarrow> owned_run" where
  "reject_all message r =
     r\<lparr>or_settled := or_settled r @ map (\<lambda>(controlId, _). (controlId, Unacknowledged (message controlId))) (or_waiters r),
       or_waiters := []\<rparr>"

text \<open>\<^verbatim>\<open>#terminateFatalProcessGroup\<close> destroys the control pipe at once, if the child still runs.\<close>

definition drop_pipe :: "child_state \<Rightarrow> child_state" where
  "drop_pipe c = (case c of Started _ \<Rightarrow> Started False | _ \<Rightarrow> c)"

definition failed_snapshot :: "jstr \<Rightarrow> run_snapshot \<Rightarrow> run_snapshot" where
  "failed_snapshot message s =
     s\<lparr>rs_status := RunFailed, rs_failureClass := Some (js ''supervisor''), rs_failure := Some message\<rparr>"

definition fail_run :: "jstr \<Rightarrow> owned_run \<Rightarrow> owned_run" where
  "fail_run message r =
     (if or_terminal r then r
      else
        (let r1 = (if rs_status (or_snapshot r) \<noteq> RunFailed then show_snapshot (failed_snapshot message (or_snapshot r)) r else r);
             r2 = reject_all (\<lambda>controlId. message @ js '' (control '' @ controlId @ js '')'') r1 in
         if or_cleanup r2 then r2 else r2\<lparr>or_cleanup := True, or_child := drop_pipe (or_child r2)\<rparr>))"

section \<open>Controls\<close>

text \<open>\<^verbatim>\<open>controlCorrelation\<close>, on the JSON value of a control.\<close>

definition controlCorrelation :: "js_value \<Rightarrow> control_correlation result" where
  "controlCorrelation v =
     thenE (record_of (Some v) ''runtime control'') (\<lambda>control.
     thenE (record_of (map_of control (js ''command'')) ''runtime control command'') (\<lambda>command.
     thenE (case map_of control (js ''expectedOccurrenceId'') of
              None \<Rightarrow> Inr None
            | Some JNull \<Rightarrow> Inr None
            | o' \<Rightarrow> thenE (string_of o' ''expectedOccurrenceId'') (\<lambda>i. Inr (Some i))) (\<lambda>occ_id.
     thenE (case map_of control (js ''expectedAttemptId'') of
              None \<Rightarrow> Inr None
            | Some JNull \<Rightarrow> Inr None
            | a \<Rightarrow>
                thenE (record_of a ''expectedAttemptId'') (\<lambda>attempt.
                thenE (string_of (map_of attempt (js ''occurrenceId'')) ''attempt occurrenceId'') (\<lambda>o'.
                thenE (string_of (map_of attempt (js ''attemptNumber'')) ''attempt number'') (\<lambda>n.
                  Inr (Some (o' @ js '':'' @ n)))))) (\<lambda>att_id.
     thenE (string_of (map_of command (js ''type'')) ''control command type'') (\<lambda>name.
       Inr \<lparr>cc_command = name, cc_occurrenceId = occ_id, cc_attemptId = att_id\<rparr>)))))"

definition channel_open :: "owned_run \<Rightarrow> bool" where
  "channel_open r \<longleftrightarrow> or_child r = Started True"

text \<open>\<^verbatim>\<open>#sendControlAwait\<close>: the control waits, or its promise is rejected at once.\<close>

definition sendControlAwait :: "jstr \<Rightarrow> js_value \<Rightarrow> owned_run \<Rightarrow> owned_run" where
  "sendControlAwait controlId control r =
     (case controlCorrelation control of
        Inl e \<Rightarrow> r\<lparr>or_settled := or_settled r @ [(controlId, Unacknowledged e)]\<rparr>
      | Inr expected \<Rightarrow>
          if channel_open r
          then r\<lparr>or_waiters := map_set controlId expected (or_waiters r), or_sent := or_sent r @ [control]\<rparr>
          else r\<lparr>or_settled := or_settled r @ [(controlId, Unacknowledged (js ''run control channel is unavailable''))]\<rparr>)"

definition control_timeout :: "jstr \<Rightarrow> owned_run \<Rightarrow> owned_run" where
  "control_timeout controlId r =
     (if controlId \<in> set (map fst (or_waiters r))
      then r\<lparr>or_waiters := AList.delete controlId (or_waiters r),
             or_settled := or_settled r @ [(controlId, Unacknowledged (js ''control '' @ controlId @ js '' was not acknowledged''))]\<rparr>
      else r)"

definition control_value :: "jstr \<Rightarrow> jstr \<Rightarrow> js_value \<Rightarrow> js_members \<Rightarrow> js_value" where
  "control_value controlId occ_id attempt command =
     JObj [(js ''controlId'', JStr controlId), (js ''expectedOccurrenceId'', JStr occ_id),
           (js ''expectedAttemptId'', attempt), (js ''command'', JObj command)]"

definition live_run :: "owned_run \<Rightarrow> bool" where
  "live_run r \<longleftrightarrow> \<not> or_terminal r \<and> \<not> isTerminal (rs_status (or_snapshot r))"

datatype steer_timing = InterruptNow | NextBoundary

fun timing_name :: "steer_timing \<Rightarrow> jstr" where
  "timing_name InterruptNow = js ''interrupt-now''"
| "timing_name NextBoundary = js ''next-boundary''"

text \<open>The controls; \<open>uuid\<close> is the fresh identifier of the control.\<close>

definition steer :: "jstr \<Rightarrow> jstr \<Rightarrow> jstr \<Rightarrow> jstr \<Rightarrow> steer_timing \<Rightarrow> owned_run \<Rightarrow> owned_run result" where
  "steer uuid occ_id att_id text_in timing r =
     thenE (check (live_run r) (js ''run is terminal'')) (\<lambda>_.
     thenE (check (trim js_space text_in \<noteq> []) (js ''steering text is empty'')) (\<lambda>_.
     thenE (check (byteLength text_in \<le> 64 * 1024) (js ''steering text exceeds 65536 bytes'')) (\<lambda>_.
     thenE (check (case map_of (rs_occurrences (or_snapshot r)) occ_id of
                     None \<Rightarrow> False
                   | Some occ \<Rightarrow> (case map_of (oc_attempts occ) att_id of
                       None \<Rightarrow> False | Some a \<Rightarrow> at_state a = AttemptRunning))
       (js ''attempt '' @ att_id @ js '' is not active'')) (\<lambda>_.
     (let prefix = occ_id @ js '':'';
          number = (if starts_with att_id prefix then drop (length prefix) att_id else []);
          controlId = js ''steer-'' @ uuid in
      thenE (check (canonical_text number) (js ''invalid attempt id '' @ att_id)) (\<lambda>_.
        Inr (sendControlAwait controlId
          (control_value controlId occ_id
             (JObj [(js ''occurrenceId'', JStr occ_id), (js ''attemptNumber'', JStr number)])
             [(js ''type'', JStr (js ''steerOccurrence'')), (js ''timing'', JStr (timing_name timing)), (js ''text'', JStr text_in)])
          r)))))))"

datatype recovery_kind = RetryChoice | FailoverChoice | AbandonChoice

fun recovery_name :: "recovery_kind \<Rightarrow> jstr" where
  "recovery_name RetryChoice = js ''retry''"
| "recovery_name FailoverChoice = js ''failover''"
| "recovery_name AbandonChoice = js ''abandon''"

fun recovery_command :: "recovery_kind \<Rightarrow> jstr" where
  "recovery_command RetryChoice = js ''retryOccurrence''"
| "recovery_command FailoverChoice = js ''failoverOccurrence''"
| "recovery_command AbandonChoice = js ''abandonOccurrence''"

definition recover :: "jstr \<Rightarrow> jstr \<Rightarrow> recovery_kind \<Rightarrow> owned_run \<Rightarrow> owned_run result" where
  "recover uuid occ_id choice r =
     thenE (check (live_run r) (js ''run is terminal'')) (\<lambda>_.
     (case map_of (rs_occurrences (or_snapshot r)) occ_id of
        None \<Rightarrow> Inl (js ''occurrence '' @ occ_id @ js '' is not waiting for recovery'')
      | Some occ \<Rightarrow>
          thenE (check (oc_state occ = OccRecovering) (js ''occurrence '' @ occ_id @ js '' is not waiting for recovery'')) (\<lambda>_.
          thenE (check (case oc_recovery occ of None \<Rightarrow> False
                        | Some w \<Rightarrow> list_ex (\<lambda>offered. ch_choice offered = recovery_name choice) (rec_choices w))
            (js ''recovery choice '' @ recovery_name choice @ js '' was not offered for occurrence '' @ occ_id)) (\<lambda>_.
          (let controlId = recovery_name choice @ js ''-'' @ uuid in
           Inr (sendControlAwait controlId
             (control_value controlId occ_id JNull [(js ''type'', JStr (recovery_command choice))]) r))))))"

definition retry :: "jstr \<Rightarrow> jstr \<Rightarrow> owned_run \<Rightarrow> owned_run result" where
  "retry uuid occ_id r = recover uuid occ_id RetryChoice r"

definition redirect_run :: "jstr \<Rightarrow> jstr \<Rightarrow> jstr \<Rightarrow> owned_run \<Rightarrow> owned_run result" where
  "redirect_run uuid occ_id target r =
     thenE (check (live_run r) (js ''run is terminal'')) (\<lambda>_.
     (case map_of (rs_occurrences (or_snapshot r)) occ_id of
        None \<Rightarrow> Inl (js ''occurrence '' @ occ_id @ js '' is unknown'')
      | Some occ \<Rightarrow>
          thenE (case oc_dispatch occ of
                   Some d \<Rightarrow>
                     if dp_open d then check (target \<in> set (dp_targets d)) (js ''target '' @ target @ js '' was not reserved'')
                     else if anyAttemptRunning occ then check (trim js_space target \<noteq> []) (js ''redirect target is empty'')
                     else Inl (js ''occurrence '' @ occ_id @ js '' is neither in its dispatch window nor running an attempt'')
                 | None \<Rightarrow>
                     if anyAttemptRunning occ then check (trim js_space target \<noteq> []) (js ''redirect target is empty'')
                     else Inl (js ''occurrence '' @ occ_id @ js '' is neither in its dispatch window nor running an attempt'')) (\<lambda>_.
          (let controlId = js ''redirect-'' @ uuid in
           Inr (sendControlAwait controlId
             (control_value controlId occ_id JNull
                [(js ''type'', JStr (js ''redirectOccurrence'')), (js ''target'', JStr target)]) r)))))"

section \<open>Protocol lines\<close>

definition FINAL_STATES :: "jstr list" where
  "FINAL_STATES = map js [''delivered'', ''rejected-stale'', ''unsupported'', ''failed'']"

text \<open>An acknowledgement of protocol 2 must name the command and the target of the control.\<close>

definition correlates :: "run_snapshot \<Rightarrow> control_ack \<Rightarrow> control_correlation \<Rightarrow> bool" where
  "correlates s ack expected \<longleftrightarrow>
     rs_protocolVersion s \<noteq> Some (Finite 2)
     \<or> ca_command ack = Some (cc_command expected) \<and> ca_occurrenceId ack = cc_occurrenceId expected
       \<and> ca_attemptId ack = cc_attemptId expected"

definition settle_waiter :: "jstr \<Rightarrow> settlement \<Rightarrow> owned_run \<Rightarrow> owned_run" where
  "settle_waiter controlId result r =
     r\<lparr>or_waiters := AList.delete controlId (or_waiters r), or_settled := or_settled r @ [(controlId, result)]\<rparr>"

definition settleControl :: "jstr \<Rightarrow> control_ack \<Rightarrow> owned_run \<Rightarrow> owned_run" where
  "settleControl controlId ack r =
     (if ca_state ack \<notin> set FINAL_STATES then r
      else
        (case map_of (or_waiters r) controlId of
           None \<Rightarrow> r
         | Some expected \<Rightarrow>
             if \<not> correlates (or_snapshot r) ack expected then
               (let message = js ''control '' @ controlId @ js '' acknowledgement correlation mismatch'' in
                fail_run message (settle_waiter controlId (Unacknowledged message) r))
             else settle_waiter controlId (Acknowledged ack) r))"

text \<open>The acknowledgement that an applied event recorded.\<close>

definition recorded_ack :: "run_snapshot \<Rightarrow> runtime_event \<Rightarrow> (jstr \<times> control_ack) option" where
  "recorded_ack s e =
     (if ev_type e \<noteq> js ''control.ack'' then None
      else
        (case field e ''controlId'' of
           Some (JStr controlId) \<Rightarrow> map_option (Pair controlId) (map_of (rs_controlAcks s) controlId)
         | _ \<Rightarrow> None))"

definition reduce_line :: "platform \<Rightarrow> jstr \<Rightarrow> owned_run \<Rightarrow> owned_run" where
  "reduce_line env line r =
     (case thenE (parsed_event line) (\<lambda>e. thenE (reduceEvent env (or_snapshot r) e) (\<lambda>s. Inr (e, s))) of
        Inl message \<Rightarrow> fail_run (js ''protocol failure: '' @ message) r
      | Inr (e, s) \<Rightarrow>
          (let r1 = r\<lparr>or_snapshot := s\<rparr>;
               r2 = (case recorded_ack s e of None \<Rightarrow> r1 | Some (controlId, ack) \<Rightarrow> settleControl controlId ack r1) in
           show_snapshot (or_snapshot r2) r2))"

text \<open>
  The loop of \<^verbatim>\<open>#consume\<close> over the complete lines of the buffer. Every line is mirrored; an overlong one
  ends the loop.
\<close>

function consume_lines :: "platform \<Rightarrow> jstr \<Rightarrow> owned_run \<Rightarrow> owned_run" where
  "consume_lines env buffered r =
     (if 10 \<notin> set buffered then r\<lparr>or_buffer := buffered\<rparr>
      else
        (let line = takeWhile (\<lambda>u. u \<noteq> 10) buffered; rest = tl (dropWhile (\<lambda>u. u \<noteq> 10) buffered);
             r1 = r\<lparr>or_buffer := rest, or_mirror := or_mirror r @ [line]\<rparr> in
         if line = [] then consume_lines env rest r1
         else if byteLength line > MAX_FRAME then fail_run (js ''protocol frame exceeded limit'') r1
         else consume_lines env rest (reduce_line env line r1)))"
  by pat_completeness auto

termination consume_lines
  by (relation "measure (\<lambda>(_, b, _). length b)")
     (simp_all only: in_measure wf_measure case_prod_conv not_not after_newline_shorter)

declare consume_lines.simps [simp del]

definition consume :: "platform \<Rightarrow> jstr \<Rightarrow> owned_run \<Rightarrow> owned_run" where
  "consume env chunk r =
     (let buffered = or_buffer r @ chunk in
      if length buffered > MAX_FRAME * 2 then fail_run (js ''protocol buffer exceeded limit'') (r\<lparr>or_buffer := buffered\<rparr>)
      else consume_lines env buffered r)"

section \<open>Diagnostics, pipe errors and cancellation\<close>

definition queue_stderr :: "jstr \<Rightarrow> owned_run \<Rightarrow> owned_run" where
  "queue_stderr chunk r = r\<lparr>or_log := queueStderr (or_secrets r) chunk False (or_log r)\<rparr>"

text \<open>
  A pipe that breaks is destroyed before its error is told, also when the error is one that is passed over; a pipe
  can be destroyed without an error as well.
\<close>

definition unplugged :: "owned_run \<Rightarrow> owned_run" where
  "unplugged r = r\<lparr>or_child := drop_pipe (or_child r)\<rparr>"

definition passed_over :: "jstr \<Rightarrow> owned_run \<Rightarrow> bool" where
  "passed_over code r \<longleftrightarrow> or_cancelRequested r \<or> code = js ''EPIPE'' \<or> code = js ''ERR_STREAM_DESTROYED''"

definition control_error :: "jstr \<Rightarrow> jstr \<Rightarrow> owned_run \<Rightarrow> owned_run" where
  "control_error code message r =
     (if passed_over code r then unplugged r else fail_run (js ''control pipe failed: '' @ message) (unplugged r))"

text \<open>Standard input, where it is not the control pipe.\<close>

definition stdin_error :: "jstr \<Rightarrow> jstr \<Rightarrow> owned_run \<Rightarrow> owned_run" where
  "stdin_error code message r =
     (if passed_over code r then r else fail_run (js ''workflow stdin failed: '' @ message) r)"

definition source_error :: "jstr \<Rightarrow> owned_run \<Rightarrow> owned_run" where
  "source_error message r =
     (if or_cancelRequested r then r else fail_run (js ''workflow stdin failed: '' @ message) r)"

definition cancel_control :: "jstr \<Rightarrow> js_value" where
  "cancel_control controlId =
     JObj [(js ''controlId'', JStr controlId), (js ''expectedOccurrenceId'', JNull), (js ''expectedAttemptId'', JNull),
           (js ''command'', JObj [(js ''type'', JStr (js ''cancelRun''))])]"

definition cancel :: "jstr \<Rightarrow> owned_run \<Rightarrow> owned_run" where
  "cancel now r =
     (if or_terminal r \<or> isTerminal (rs_status (or_snapshot r)) \<or> or_cancelRequested r then r
      else
        (let r1 = r\<lparr>or_cancelRequested := True\<rparr> in
         if or_child r1 = NotStarted then r1
         else
           (let r2 = show_snapshot (or_snapshot r1) r1 in
            if channel_open r2 then r2\<lparr>or_sent := or_sent r2 @ [cancel_control (js ''cancel-'' @ now)]\<rparr> else r2)))"

text \<open>
  A child that has not exited five seconds after the control is signalled. Without a usable pipe \<^verbatim>\<open>cancel\<close> throws
  before it waits.
\<close>

definition is_cancel :: "js_value \<Rightarrow> bool" where
  "is_cancel control = (case controlCorrelation control of Inl _ \<Rightarrow> False | Inr c \<Rightarrow> cc_command c = js ''cancelRun'')"

definition force_termination :: "owned_run \<Rightarrow> owned_run" where
  "force_termination r =
     (if list_ex is_cancel (or_sent r) \<and> (or_child r = Started True \<or> or_child r = Started False) then r\<lparr>or_forced := True\<rparr> else r)"

section \<open>The end\<close>

definition null_or :: "jstr option \<Rightarrow> jstr" where
  "null_or value = (case value of None \<Rightarrow> js ''null'' | Some s \<Rightarrow> s)"

definition exit_message :: "int option \<Rightarrow> jstr option \<Rightarrow> jstr" where
  "exit_message code signal =
     js ''process exited without terminal event (code='' @ null_or (map_option int_text code) @ js '', signal=''
     @ null_or signal @ js '')''"

definition cancelled_snapshot :: "bool \<Rightarrow> run_snapshot \<Rightarrow> run_snapshot" where
  "cancelled_snapshot forced s =
     s\<lparr>rs_status := RunCancelled,
       rs_failureClass := Some (if forced then js ''forced-termination'' else js ''missing-terminal-event''),
       rs_failure := Some (if forced then js ''process group required forced termination'' else js ''process exited without run.cancelled'')\<rparr>"

text \<open>The files at the end: the result artifact, and the outcome of persisting lease, snapshot and inputs.\<close>

record end_host =
  eh_artifacts :: artifact_host
  eh_result :: "u8 list result"
  eh_persist :: "unit result"

definition verify_end :: "end_host \<Rightarrow> run_snapshot \<Rightarrow> unit result" where
  "verify_end h s =
     (case (rs_status s, rs_result s) of
        (Succeeded, Some reference) \<Rightarrow> verifyResultArtifact (eh_artifacts h) (rs_runId s) reference (eh_result h)
      | _ \<Rightarrow> Inr ())"

definition persisted :: "end_host \<Rightarrow> owned_run \<Rightarrow> owned_run" where
  "persisted h r =
     (case thenE (verify_end h (or_snapshot r)) (\<lambda>_. eh_persist h) of
        Inr _ \<Rightarrow> r
      | Inl message \<Rightarrow>
          show_snapshot ((or_snapshot r)\<lparr>rs_status := RunFailed, rs_failure := Some (js ''persistence failure: '' @ message)\<rparr>) r)"

definition ended_status :: "int option \<Rightarrow> jstr option \<Rightarrow> owned_run \<Rightarrow> owned_run" where
  "ended_status code signal r =
     (if isTerminal (rs_status (or_snapshot r)) then r
      else if or_cancelRequested r then show_snapshot (cancelled_snapshot (or_forced r) (or_snapshot r)) r
      else fail_run (exit_message code signal) r)"

definition closed :: "end_host \<Rightarrow> int option \<Rightarrow> jstr option \<Rightarrow> owned_run \<Rightarrow> owned_run" where
  "closed h code signal r =
     (if or_terminal r then r
      else
        (let r1 = (if trim js_space (or_buffer r) \<noteq> [] then fail_run (js ''protocol ended with a torn frame'') r else r);
             r2 = (ended_status code signal r1)\<lparr>or_terminal := True, or_child := Exited\<rparr>;
             r3 = r2\<lparr>or_log := queueStderr (or_secrets r2) [] True (or_log r2)\<rparr>;
             r4 = reject_all (\<lambda>controlId. js ''run ended before control '' @ controlId @ js '' reached a terminal acknowledgement'')
                    (persisted h r3) in
         r4\<lparr>or_finished := Some (or_snapshot r4)\<rparr>))"

end
