(* ===== verification/StreamDecoding.thy ===== *)
theory StreamDecoding
  imports Journals TailLaws
begin

text \<open>
  The streaming UTF-8 decoder: it keeps back exactly the beginning of a character that a chunk cuts
  off, so the pieces that it gives for the chunks of an encoded text are the pieces of the text.
\<close>

section \<open>Beginnings of characters\<close>

text \<open>The bytes of one character, by its length.\<close>

datatype point_bytes = One u8 | Two u8 u8 | Three u8 u8 u8 | Four u8 u8 u8 u8

fun bytes_of :: "point_bytes \<Rightarrow> u8 list" where
  "bytes_of (One b) = [b]"
| "bytes_of (Two b c) = [b, c]"
| "bytes_of (Three b c d) = [b, c, d]"
| "bytes_of (Four b c d e) = [b, c, d, e]"

fun point_ok :: "point_bytes \<Rightarrow> bool" where
  "point_ok (One b) \<longleftrightarrow> b < 0x80"
| "point_ok (Two b c) \<longleftrightarrow> 0xC2 \<le> b \<and> b \<le> 0xDF \<and> second_ok b c"
| "point_ok (Three b c d) \<longleftrightarrow> 0xE0 \<le> b \<and> b \<le> 0xEF \<and> second_ok b c \<and> continuation d"
| "point_ok (Four b c d e) \<longleftrightarrow> 0xF0 \<le> b \<and> b \<le> 0xF4 \<and> second_ok b c \<and> continuation d \<and> continuation e"

lemma utf8_point_parts:
  assumes "scalar_point q"
  shows "\<exists>x. utf8_point q = bytes_of x \<and> point_ok x"
proof -
  have q: "q < 0x110000" using assms by (simp add: scalar_point_def)
  have items: "utf8_items (utf8_point q) = [Some q]"
    using utf8_items_point [OF assms, of "[]"] by simp
  consider "q < 0x80" | "0x80 \<le> q" "q < 0x800" | "0x800 \<le> q" "q < 0x10000" | "0x10000 \<le> q"
    by linarith
  then show ?thesis
  proof cases
    case 1
    then show ?thesis
      by (intro exI [of _ "One (byte q)"]) (simp add: utf8_point_def word_less_nat_alt unat_byte)
  next
    case 2
    let ?b = "byte (0xC0 + q div 64)" and ?c = "byte (0x80 + q mod 64)"
    have u: "utf8_point q = [?b, ?c]" using 2 by (simp add: utf8_point_def)
    have b: "0xC2 \<le> ?b" "?b \<le> 0xDF" using 2 by (simp_all add: word_le_nat_alt unat_byte)
    have "second_ok ?b ?c" using items b by (auto simp: u utf8_items.simps(2) split: if_splits)
    with u b show ?thesis by (intro exI [of _ "Two ?b ?c"]) simp
  next
    case 3
    let ?b = "byte (0xE0 + q div 4096)" and ?c = "byte (0x80 + q div 64 mod 64)" and ?d = "byte (0x80 + q mod 64)"
    have u: "utf8_point q = [?b, ?c, ?d]" using 3 by (simp add: utf8_point_def)
    have b: "0xE0 \<le> ?b" "?b \<le> 0xEF" using 3 by (simp_all add: word_le_nat_alt unat_byte)
    have "\<not> ?b < 0x80" "\<not> ?b \<le> 0xDF" using b by (simp_all add: word_le_nat_alt word_less_nat_alt)
    with items b have "second_ok ?b ?c \<and> continuation ?d"
      by (auto simp: u utf8_items.simps(2) [of ?b] split: if_splits)
    with u b show ?thesis by (intro exI [of _ "Three ?b ?c ?d"]) simp
  next
    case 4
    let ?b = "byte (0xF0 + q div 262144)" and ?c = "byte (0x80 + q div 4096 mod 64)"
      and ?d = "byte (0x80 + q div 64 mod 64)" and ?e = "byte (0x80 + q mod 64)"
    have u: "utf8_point q = [?b, ?c, ?d, ?e]" using 4 by (simp add: utf8_point_def)
    have b: "0xF0 \<le> ?b" "?b \<le> 0xF4" using 4 q by (simp_all add: word_le_nat_alt unat_byte)
    have "\<not> ?b < 0x80" "\<not> ?b \<le> 0xDF" "\<not> ?b \<le> 0xEF" using b by (simp_all add: word_le_nat_alt word_less_nat_alt)
    with items b have "second_ok ?b ?c \<and> continuation ?d \<and> continuation ?e"
      by (auto simp: u utf8_items.simps(2) [of ?b] split: if_splits)
    with u b show ?thesis by (intro exI [of _ "Four ?b ?c ?d ?e"]) simp
  qed
qed

lemma second_continuation: "second_ok b c \<Longrightarrow> continuation c"
  by (auto simp: second_ok_def continuation_def word_le_nat_alt split: if_splits)

text \<open>A nonempty beginning of a character that is not the whole one.\<close>

definition beginning :: "u8 list \<Rightarrow> bool" where
  "beginning p \<longleftrightarrow> p \<noteq> [] \<and> (\<exists>q r. scalar_point q \<and> r \<noteq> [] \<and> utf8_point q = p @ r)"

lemma beginning_cases:
  assumes "beginning p"
  obtains b where "p = [b]" "0xC2 \<le> b" "b \<le> 0xF4"
  | b c where "p = [b, c]" "0xE0 \<le> b" "b \<le> 0xF4" "second_ok b c"
  | b c d where "p = [b, c, d]" "0xF0 \<le> b" "b \<le> 0xF4" "second_ok b c" "continuation d"
proof -
  from assms obtain q r where q: "scalar_point q" "r \<noteq> []" "utf8_point q = p @ r" and ne: "p \<noteq> []"
    by (auto simp: beginning_def)
  obtain x where x: "p @ r = bytes_of x" "point_ok x" using utf8_point_parts [OF q(1)] q(3) by auto
  show ?thesis
  proof (cases x)
    case (One b)
    with x(1) ne q(2) show ?thesis by (auto simp: append_eq_Cons_conv)
  next
    case (Two b c)
    with x(1) ne q(2) have "p = [b]" by (auto simp: append_eq_Cons_conv)
    with Two x(2) show ?thesis by (intro that(1)) (auto simp: word_le_nat_alt)
  next
    case (Three b c d)
    with x(1) ne q(2) have "p = [b] \<or> p = [b, c]" by (auto simp: append_eq_Cons_conv)
    with Three x(2) show ?thesis by (elim disjE) (auto simp: word_le_nat_alt intro: that(1,2))
  next
    case (Four b c d e)
    with x(1) ne q(2) have "p = [b] \<or> p = [b, c] \<or> p = [b, c, d]" by (auto simp: append_eq_Cons_conv)
    with Four x(2) show ?thesis by (elim disjE) (auto simp: word_le_nat_alt intro: that)
  qed
qed

lemma beginning_incomplete: "beginning p \<Longrightarrow> incomplete p \<and> length p \<in> {1, 2, 3}"
  by (erule beginning_cases) (auto simp: incomplete_def)

lemma beginning_items:
  assumes "beginning p"
  shows "utf8_items p = [None]"
  using assms
proof (cases rule: beginning_cases)
  case (1 b)
  then have "\<not> b < 0x80" by (simp add: word_le_nat_alt word_less_nat_alt)
  with 1 show ?thesis by (auto simp: utf8_items.simps(2) word_le_nat_alt)
next
  case (2 b c)
  then have "\<not> b < 0x80" "\<not> b \<le> 0xDF" by (auto simp: word_le_nat_alt word_less_nat_alt)
  with 2 show ?thesis by (auto simp: utf8_items.simps(2) [of b] word_le_nat_alt)
next
  case (3 b c d)
  then have "\<not> b < 0x80" "\<not> b \<le> 0xDF" "\<not> b \<le> 0xEF" by (auto simp: word_le_nat_alt word_less_nat_alt)
  with 3 show ?thesis by (auto simp: utf8_items.simps(2) [of b])
qed

section \<open>What is kept back\<close>

text \<open>Bytes of whole characters, followed by nothing or by a beginning.\<close>

lemma point_head: "scalar_point q \<Longrightarrow> \<exists>b cs. utf8_point q = b # cs \<and> \<not> continuation b \<and> list_all continuation cs"
  by (rule utf8_point_shape)

lemma beginning_head: "beginning p \<Longrightarrow> \<exists>b cs. p = b # cs \<and> \<not> continuation b \<and> list_all continuation cs"
  by (auto simp: beginning_def append_eq_Cons_conv Cons_eq_append_conv dest!: point_head)

lemma last_character_unique:
  assumes "xs @ b # cs = ys @ b' # cs'" and "\<not> continuation b" "\<not> continuation b'"
    and "list_all continuation cs" "list_all continuation cs'"
  shows "xs = ys \<and> b = b' \<and> cs = cs'"
proof -
  have "takeWhile continuation (rev (zs @ d # ds)) = rev ds" if "\<not> continuation d" "list_all continuation ds" for zs d ds
    using that by (simp add: takeWhile_append list_all_iff)
  then have "rev cs = rev cs'" using assms by metis
  then show ?thesis using assms(1) by simp
qed

lemma incomplete_shape:
  "incomplete t \<Longrightarrow> \<exists>b cs. t = b # cs \<and> \<not> continuation b \<and> list_all continuation cs \<and> \<not> (\<exists>x. point_ok x \<and> bytes_of x = t)"
proof -
  assume i: "incomplete t"
  have lead: "\<not> continuation b" if "0xC2 \<le> b" for b
    using that by (auto simp: continuation_def word_le_nat_alt)
  consider b where "t = [b]" "0xC2 \<le> b" | b c where "t = [b, c]" "0xE0 \<le> b" "second_ok b c"
    | b c d where "t = [b, c, d]" "0xF0 \<le> b" "second_ok b c" "continuation d"
    using i by (auto simp: incomplete_def split: list.splits)
  then show ?thesis
  proof cases
    case 1
    have "\<not> (\<exists>x. point_ok x \<and> bytes_of x = t)"
    proof (intro notI, elim exE conjE)
      fix x assume "point_ok x" "bytes_of x = t"
      with 1 show False by (cases x) (auto simp: word_le_nat_alt word_less_nat_alt)
    qed
    with 1 lead show ?thesis by auto
  next
    case 2
    have "\<not> (\<exists>x. point_ok x \<and> bytes_of x = t)"
    proof (intro notI, elim exE conjE)
      fix x assume "point_ok x" "bytes_of x = t"
      with 2 show False by (cases x) (auto simp: word_le_nat_alt word_less_nat_alt)
    qed
    moreover have "0xC2 \<le> b" using 2(2) by (simp add: word_le_nat_alt)
    ultimately show ?thesis using 2 lead second_continuation by auto
  next
    case 3
    have "\<not> (\<exists>x. point_ok x \<and> bytes_of x = t)"
    proof (intro notI, elim exE conjE)
      fix x assume "point_ok x" "bytes_of x = t"
      with 3 show False by (cases x) (auto simp: word_le_nat_alt word_less_nat_alt)
    qed
    moreover have "0xC2 \<le> b" using 3(2) by (simp add: word_le_nat_alt)
    ultimately show ?thesis using 3 lead second_continuation by auto
  qed
qed

text \<open>An incomplete end of such bytes is the beginning at their end.\<close>

lemma incomplete_end:
  assumes ps: "list_all scalar_point ps" and p: "p = [] \<or> beginning p"
    and eq: "utf8_points ps @ p = ys @ t" and t: "incomplete t"
  shows "t = p"
proof -
  from incomplete_shape [OF t] obtain b cs where b: "t = b # cs" "\<not> continuation b" "list_all continuation cs"
    and whole: "\<not> (\<exists>x. point_ok x \<and> bytes_of x = t)" by blast
  show ?thesis
  proof (cases "p = []")
    case False
    then obtain b' cs' where "p = b' # cs'" "\<not> continuation b'" "list_all continuation cs'"
      using p beginning_head by blast
    with last_character_unique [of "utf8_points ps" b' cs' ys b cs] eq b show ?thesis by simp
  next
    case True
    then have "ps \<noteq> []" using eq b by (auto simp: utf8_points_def)
    then obtain qs q where qs: "ps = qs @ [q]" by (metis append_butlast_last_id)
    with ps have q: "scalar_point q" by simp
    then obtain b' cs' where b': "utf8_point q = b' # cs'" "\<not> continuation b'" "list_all continuation cs'"
      using point_head by blast
    have "utf8_points qs @ b' # cs' = ys @ b # cs" using eq True b b' by (simp add: qs utf8_points_def)
    then have "utf8_point q = t" using last_character_unique b b' by metis
    then show ?thesis using utf8_point_parts [OF q] whole by metis
  qed
qed

lemma held_back_end:
  assumes "list_all scalar_point ps" and "p = [] \<or> beginning p"
  shows "min (held_back (utf8_points ps @ p)) (length (utf8_points ps @ p)) = length p"
proof -
  let ?bs = "utf8_points ps @ p"
  have split: "?bs = take (length ?bs - k) ?bs @ tail_bytes k ?bs" for k
    by (simp only: tail_bytes_def append_take_drop_id)
  have only: "tail_bytes k ?bs = p" if "incomplete (tail_bytes k ?bs)" for k
    by (rule incomplete_end [OF assms split that])
  have len: "length (tail_bytes k ?bs) = min k (length ?bs)" for k
    by (simp add: tail_bytes_def)
  have found: "incomplete (tail_bytes (length p) ?bs)" "length p \<in> {1, 2, 3}" if "p \<noteq> []"
    using beginning_incomplete [of p] assms(2) that by (auto simp: tail_bytes_def)
  show ?thesis
  proof (cases "p = []")
    case True
    have "\<not> incomplete []" by (simp add: incomplete_def)
    then have "\<not> incomplete (tail_bytes k ?bs)" for k
      using only True by metis
    then show ?thesis using True by (simp add: held_back_def)
  next
    case False
    obtain k where k: "held_back ?bs = k" "incomplete (tail_bytes k ?bs)"
      using found [OF False] by (auto simp: held_back_def)
    then show ?thesis using only [OF k(2)] len [of k] by simp
  qed
qed

text \<open>One chunk: the characters that it completes come out, and a beginning is kept.\<close>

lemma decode_stream_chunk:
  assumes "list_all scalar_point ps" and "p = [] \<or> beginning p"
    and "sd_pending d @ chunk = utf8_points ps @ p" and "sd_started d \<or> ps = [] \<or> hd (units_of_points ps) \<noteq> 0xFEFF"
  shows "decode_stream d chunk =
    Some (units_of_points ps, \<lparr>sd_pending = p, sd_started = sd_started d \<or> ps \<noteq> []\<rparr>)"
proof -
  have k: "min (held_back (utf8_points ps @ p)) (length (utf8_points ps @ p)) = length p"
    using assms(1,2) by (rule held_back_end)
  have dec: "utf8_decode (utf8_points ps) = Some (units_of_points ps)" using assms(1) by (rule utf8_decode_points)
  have ne: "units_of_points ps = [] \<longleftrightarrow> ps = []"
    by (cases ps) (auto simp: units_of_point_def)
  show ?thesis
    unfolding decode_stream_def assms(3) Let_def k
    using assms(4) by (auto simp: dec tail_bytes_def ne)
qed

text \<open>A beginning of encoded text splits into whole characters and a beginning of the next one.\<close>

lemma prefix_split:
  assumes "utf8_points qs = bs @ rest" and "list_all scalar_point qs"
  shows "\<exists>ps p ps'. qs = ps @ ps' \<and> bs = utf8_points ps @ p \<and> (p = [] \<or> beginning p) \<and> utf8_points ps' = p @ rest"
  using assms
proof (induction qs arbitrary: bs)
  case Nil
  then show ?case by (auto simp: utf8_points_def)
next
  case (Cons q qs)
  then have eq: "utf8_point q @ utf8_points qs = bs @ rest" and q: "scalar_point q" and qs: "list_all scalar_point qs"
    by (auto simp: utf8_points_def)
  then consider (within) r where "utf8_point q = bs @ r" "r @ utf8_points qs = rest"
    | (beyond) cs where "bs = utf8_point q @ cs" "utf8_points qs = cs @ rest"
    by (auto simp: append_eq_append_conv2)
  then show ?case
  proof cases
    case within
    show ?thesis
    proof (cases "r = []")
      case True
      with within show ?thesis
        by (intro exI [of _ "[q]"] exI [of _ "[]"] exI [of _ qs]) (simp add: utf8_points_def)
    next
      case False
      with within q show ?thesis
        by (intro exI [of _ "[]"] exI [of _ bs] exI [of _ "q # qs"])
           (auto simp: utf8_points_def beginning_def)
    qed
  next
    case beyond
    from Cons.IH [OF beyond(2) qs] obtain ps p ps' where
      "qs = ps @ ps'" "cs = utf8_points ps @ p" "p = [] \<or> beginning p" "utf8_points ps' = p @ rest" by blast
    with beyond show ?thesis
      by (intro exI [of _ "q # ps"] exI [of _ p] exI [of _ ps']) (simp add: utf8_points_def)
  qed
qed

end
