(* ===== verification/JournalLaws.thy ===== *)
theory JournalLaws
  imports StreamDecoding
begin

text \<open>
  A journal is reduced line by line, however its bytes arrive in chunks: the streaming decoder, the
  buffer and the loop over complete lines together are a fold over the lines of the text.
\<close>

definition ended :: "jstr list \<Rightarrow> jstr" where
  "ended ls = concat (map (\<lambda>l. l @ [10]) ls)"

lemma ended_simps [simp]: "ended [] = []" "ended (l # ls) = l @ 10 # ended ls" "ended (ls @ ms) = ended ls @ ended ms"
  by (simp_all add: ended_def)

fun replay_lines :: "platform \<Rightarrow> run_snapshot \<Rightarrow> jstr list \<Rightarrow> run_snapshot result" where
  "replay_lines env s [] = Inr s"
| "replay_lines env s (l # ls) = thenE (journal_line env s l) (\<lambda>s'. replay_lines env s' ls)"

lemma replay_lines_append: "replay_lines env s (ls @ ms) = thenE (replay_lines env s ls) (\<lambda>s'. replay_lines env s' ms)"
  by (induction ls arbitrary: s) (auto simp: thenE_def split: sum.splits)

lemma replay_lines_from: "replay_lines env (initialSnapshot runId) ls = Inr s \<Longrightarrow> from_journal env runId s"
proof -
  have "replay_lines env t ls = Inr s \<Longrightarrow> \<exists>es. replay env t es = Inr s" for t
  proof (induction ls arbitrary: t)
    case Nil
    then show ?case by (auto intro: exI [of _ "[]"])
  next
    case (Cons l ls)
    then obtain t' where "journal_line env t l = Inr t'" "replay_lines env t' ls = Inr s" by (auto simp: thenE_Inr)
    with Cons.IH journal_line_replay replay_compose show ?case by blast
  qed
  then show "replay_lines env (initialSnapshot runId) ls = Inr s \<Longrightarrow> from_journal env runId s"
    by (auto simp: from_journal_def)
qed

abbreviation one_line :: "jstr \<Rightarrow> bool" where
  "one_line l \<equiv> 10 \<notin> set l"

lemma cut_line: "one_line l \<Longrightarrow> takeWhile (\<lambda>u. u \<noteq> 10) (l @ 10 # b) = l \<and> tl (dropWhile (\<lambda>u. u \<noteq> 10) (l @ 10 # b)) = b"
  by (induction l) auto

lemma journal_lines_rest: "one_line r \<Longrightarrow> journal_lines env s r = Inr (s, r)"
  by (simp add: journal_lines.simps)

lemma journal_lines_ended:
  "list_all one_line ls \<Longrightarrow> one_line r \<Longrightarrow>
   journal_lines env s (ended ls @ r) = thenE (replay_lines env s ls) (\<lambda>s'. Inr (s', r))"
proof (induction ls arbitrary: s)
  case (Cons l ls)
  then have l: "one_line l" by simp
  have "journal_lines env s (l @ 10 # (ended ls @ r)) =
      (case journal_line env s l of Inl e \<Rightarrow> Inl e | Inr s' \<Rightarrow> journal_lines env s' (ended ls @ r))"
    by (subst journal_lines.simps) (simp only: cut_line [OF l] set_append list.set Un_iff insert_iff simp_thms if_False)
  then show ?case using Cons by (simp add: thenE_def split: sum.split)
qed (simp add: journal_lines_rest)

text \<open>A beginning of a text of complete lines: some of its lines, and the beginning of the next.\<close>

lemma split_lines:
  "ended ls = b @ t \<Longrightarrow> list_all one_line ls \<Longrightarrow>
   \<exists>ls1 ls2 r. ls = ls1 @ ls2 \<and> b = ended ls1 @ r \<and> one_line r \<and> ended ls2 = r @ t \<and> (ls2 = [] \<longrightarrow> r = [])
     \<and> (ls2 \<noteq> [] \<longrightarrow> (\<exists>x. hd ls2 = r @ x))"
proof (induction ls arbitrary: b)
  case Nil
  then show ?case by auto
next
  case (Cons l ls)
  from Cons.prems(1) have "(l @ [10]) @ ended ls = b @ t" by simp
  then obtain us where us: "l @ [10] = b @ us \<and> us @ ended ls = t \<or> (l @ [10]) @ us = b \<and> ended ls = us @ t"
    unfolding append_eq_append_conv2 by blast
  consider (inside) x where "l @ [10] = b @ x" "x \<noteq> []" "x @ ended ls = t" | (beyond) c where "b = l @ [10] @ c" "ended ls = c @ t"
    using us by (cases "us = []") (fastforce intro: that(2) [of "[]"])+
  then show ?case
  proof cases
    case inside
    then obtain y z where yz: "x = y @ [z]" by (cases x rule: rev_cases) auto
    then have "l @ [10] = (b @ y) @ [z]" using inside(1) by simp
    then have y: "l = b @ y" "x = y @ [10]" using yz by (simp_all only: append1_eq_conv)
    with inside Cons.prems show ?thesis
      by (intro exI [of _ "[]"] exI [of _ "l # ls"] exI [of _ b]) auto
  next
    case beyond
    from Cons.IH [OF beyond(2)] Cons.prems obtain ls1 ls2 r where
      "ls = ls1 @ ls2 \<and> c = ended ls1 @ r \<and> one_line r \<and> ended ls2 = r @ t \<and> (ls2 = [] \<longrightarrow> r = [])
       \<and> (ls2 \<noteq> [] \<longrightarrow> (\<exists>x. hd ls2 = r @ x))" by auto
    with beyond show ?thesis by (intro exI [of _ "l # ls1"] exI [of _ ls2] exI [of _ r]) simp
  qed
qed

lemma byteLength_points: "byteLength s = (\<Sum>p\<leftarrow>code_points s. length (utf8_point (utf8_scalar p)))"
  by (simp add: byteLength_def utf8_encode_def utf8_points_def length_concat comp_def)

lemma byteLength_ascii:
  assumes "list_all (\<lambda>u. u < 0x80) s"
  shows "byteLength s = length s"
proof -
  have points: "code_points s = map unat s"
    using assms by (intro code_points_ascii) (auto simp: list_all_iff word_less_nat_alt)
  have "length (utf8_point (utf8_scalar (unat u))) = 1" if "u \<in> set s" for u
    using assms that by (auto simp: list_all_iff utf8_point_def utf8_scalar_def surrogate_point_def word_less_nat_alt)
  then have eq: "map (\<lambda>u. length (utf8_point (utf8_scalar (unat u)))) s = map (\<lambda>_. 1) s" by simp
  show ?thesis
    by (simp only: byteLength_points points map_map comp_def eq sum_list_triv) simp
qed

lemma byteLength_prefix: "byteLength a \<le> byteLength (a @ b)"
proof (induction a rule: code_points.induct)
  case (2 u)
  have one: "length (utf8_point (utf8_scalar (unat u))) = 3" if "high_surrogate u"
    using that by (auto simp: high_surrogate_def utf8_scalar_def surrogate_point_def utf8_point_def word_le_nat_alt)
  have pair: "length (utf8_point (utf8_scalar (pair_point u v))) = 4" if "high_surrogate u" "low_surrogate v" for v
    using that by (auto simp: pair_point_def utf8_scalar_def surrogate_point_def utf8_point_def)
  show ?case
    by (cases b) (auto simp: byteLength_points one pair)
qed (simp_all add: byteLength_points)

section \<open>Chunks\<close>

text \<open>
  What the reader still expects: \<open>points\<close> are the characters of its pending bytes and of the chunks to
  come, and with the buffered text they are complete lines.
\<close>

definition expects :: "journal_reader \<Rightarrow> u8 list list \<Rightarrow> nat list \<Rightarrow> jstr list \<Rightarrow> bool" where
  "expects r chunks points ls \<longleftrightarrow>
     list_all scalar_point points \<and> list_all (\<lambda>l. one_line l \<and> byteLength l \<le> MAX_FRAME) ls
     \<and> sd_pending (jr_decoder r) @ concat chunks = utf8_points points
     \<and> (sd_pending (jr_decoder r) = [] \<or> beginning (sd_pending (jr_decoder r)))
     \<and> (sd_started (jr_decoder r) \<or> points = [] \<or> hd (units_of_points points) \<noteq> 0xFEFF)
     \<and> one_line (jr_buffered r) \<and> jr_buffered r @ units_of_points points = ended ls
     \<and> jr_total r + length (concat chunks) \<le> MAX_JOURNAL_FILE"

lemma scalar_units: "units_of_points (p # ps) \<noteq> []" "hd (units_of_points ((p # ps) @ qs)) = hd (units_of_points (p # ps))"
proof -
  have "units_of_point p \<noteq> []" by (simp add: units_of_point_def)
  then show "units_of_points (p # ps) \<noteq> []" "hd (units_of_points ((p # ps) @ qs)) = hd (units_of_points (p # ps))"
    by simp_all
qed

lemma units_append [simp]: "units_of_points (ps @ qs) = units_of_points ps @ units_of_points qs"
  by (simp add: units_of_points_def)

lemma points_append: "utf8_points (ps @ qs) = utf8_points ps @ utf8_points qs"
  by (simp add: utf8_points_def)

text \<open>One chunk reduces the lines that it completes, and the reader expects the others.\<close>

lemma expects_chunk:
  assumes "expects r (c # cs) points ls"
  obtains ls1 ls2 points' d b where "ls = ls1 @ ls2"
    and "journal_chunk env path r c = thenE (replay_lines env (jr_snapshot r) ls1)
           (\<lambda>s. Inr \<lparr>jr_total = jr_total r + length c, jr_decoder = d, jr_buffered = b, jr_snapshot = s\<rparr>)"
    and "\<And>s. expects \<lparr>jr_total = jr_total r + length c, jr_decoder = d, jr_buffered = b, jr_snapshot = s\<rparr> cs points' ls2"
proof -
  let ?d = "jr_decoder r" and ?buf = "jr_buffered r"
  from assms have points: "list_all scalar_point points"
    and ls: "list_all one_line ls" "list_all (\<lambda>l. byteLength l \<le> MAX_FRAME) ls"
    and bytes: "utf8_points points = (sd_pending ?d @ c) @ concat cs"
    and bom: "sd_started ?d \<or> points = [] \<or> hd (units_of_points points) \<noteq> 0xFEFF"
    and joined: "ended ls = ?buf @ units_of_points points"
    and total: "jr_total r + length c + length (concat cs) \<le> MAX_JOURNAL_FILE"
    by (auto simp: expects_def list_all_iff)
  from prefix_split [OF bytes points] obtain ps p points' where split: "points = ps @ points'"
    "sd_pending ?d @ c = utf8_points ps @ p" "p = [] \<or> beginning p" "utf8_points points' = p @ concat cs" by blast
  have ps: "list_all scalar_point ps" "list_all scalar_point points'" using points split(1) by simp_all
  have first: "sd_started ?d \<or> ps = [] \<or> hd (units_of_points ps) \<noteq> 0xFEFF"
    using bom split(1) scalar_units(2) [of "hd ps" "tl ps" points'] by (cases ps) auto
  let ?d' = "\<lparr>sd_pending = p, sd_started = sd_started ?d \<or> ps \<noteq> []\<rparr>"
  have dec: "decode_stream ?d c = Some (units_of_points ps, ?d')"
    by (rule decode_stream_chunk [OF ps(1) split(3,2) first])
  have "ended ls = (?buf @ units_of_points ps) @ units_of_points points'" using joined split(1) by simp
  from split_lines [OF this ls(1)] obtain ls1 ls2 b where lines: "ls = ls1 @ ls2" "?buf @ units_of_points ps = ended ls1 @ b"
    "one_line b" "ended ls2 = b @ units_of_points points'" "ls2 = [] \<longrightarrow> b = []" "ls2 \<noteq> [] \<longrightarrow> (\<exists>x. hd ls2 = b @ x)" by blast
  have "byteLength b \<le> MAX_FRAME"
  proof (cases ls2)
    case Nil
    with lines(5) show ?thesis by (simp add: byteLength_points MAX_FRAME_def)
  next
    case (Cons l rest)
    then obtain x where "l = b @ x" using lines(6) by auto
    moreover have "byteLength l \<le> MAX_FRAME" using ls(2) lines(1) Cons by simp
    ultimately show ?thesis using byteLength_prefix [of b x] by simp
  qed
  then have "journal_chunk env path r c = thenE (replay_lines env (jr_snapshot r) ls1)
      (\<lambda>s. Inr \<lparr>jr_total = jr_total r + length c, jr_decoder = ?d', jr_buffered = b, jr_snapshot = s\<rparr>)"
    using total ls(1) lines(1,3)
    by (simp add: journal_chunk_def dec lines(2) journal_lines_ended check_def)
       (auto simp: thenE_def split: sum.splits)
  moreover have "expects \<lparr>jr_total = jr_total r + length c, jr_decoder = ?d', jr_buffered = b, jr_snapshot = s\<rparr> cs points' ls2" for s
    using ps(2) ls lines(1,3,4) split(3,4) total bom split(1)
    by (cases ps) (auto simp: expects_def list_all_iff)
  ultimately show ?thesis using lines(1) that by blast
qed

lemma expects_end:
  assumes "expects r [] points ls"
  shows "ls = [] \<and> sd_pending (jr_decoder r) = [] \<and> jr_buffered r = []"
proof -
  from assms have pending: "sd_pending (jr_decoder r) = utf8_points points" "list_all scalar_point points"
    and joined: "jr_buffered r @ units_of_points points = ended ls" and line: "one_line (jr_buffered r)"
    and start: "sd_pending (jr_decoder r) = [] \<or> beginning (sd_pending (jr_decoder r))"
    by (auto simp: expects_def)
  have "\<not> beginning (utf8_points points)"
    using beginning_items [of "utf8_points points"] utf8_items_points [OF pending(2)] by auto
  then have none: "utf8_points points = []" using start pending(1) by simp
  then have "map Some points = utf8_items []" using utf8_items_points [OF pending(2)] by simp
  then have "points = []" by simp
  then show ?thesis using joined line pending(1) none by (cases ls) auto
qed

lemma journal_chunks_lines:
  "expects r chunks points ls \<Longrightarrow>
   (case replay_lines env (jr_snapshot r) ls of
      Inl e \<Rightarrow> journal_chunks env path r chunks = Inl e
    | Inr s \<Rightarrow> \<exists>started. journal_chunks env path r chunks =
        Inr \<lparr>jr_total = jr_total r + length (concat chunks), jr_decoder = \<lparr>sd_pending = [], sd_started = started\<rparr>,
             jr_buffered = [], jr_snapshot = s\<rparr>)"
proof (induction chunks arbitrary: r points ls)
  case Nil
  then show ?case using expects_end [OF Nil] by (cases r; cases "jr_decoder r") auto
next
  case (Cons c cs)
  obtain ls1 ls2 points' d b where ls: "ls = ls1 @ ls2"
    and c: "journal_chunk env path r c = thenE (replay_lines env (jr_snapshot r) ls1)
           (\<lambda>s. Inr \<lparr>jr_total = jr_total r + length c, jr_decoder = d, jr_buffered = b, jr_snapshot = s\<rparr>)"
    and rest: "\<And>s. expects \<lparr>jr_total = jr_total r + length c, jr_decoder = d, jr_buffered = b, jr_snapshot = s\<rparr> cs points' ls2"
    by (rule expects_chunk [OF Cons.prems, of env path]) (rule that)
  show ?case
  proof (cases "replay_lines env (jr_snapshot r) ls1")
    case (Inl e)
    then show ?thesis by (simp add: ls c replay_lines_append)
  next
    case (Inr s)
    with Cons.IH [OF rest [of s]] show ?thesis
      by (simp add: ls c replay_lines_append add.assoc split: sum.splits)
  qed
qed

text \<open>The whole journal.\<close>

theorem reduceJournal_lines:
  assumes "well_formed (ended ls)" and "list_all (\<lambda>l. one_line l \<and> byteLength l \<le> MAX_FRAME) ls"
    and "ls = [] \<or> hd (ended ls) \<noteq> 0xFEFF" and "concat chunks = utf8_encode (ended ls)"
    and "byteLength (ended ls) \<le> MAX_JOURNAL_FILE"
  shows "reduceJournal env sha256 path runId chunks =
    thenE (replay_lines env (initialSnapshot runId) ls) (\<lambda>s.
      Inr \<lparr>rj_content = concat chunks, rj_bytes = byteLength (ended ls), rj_digest = sha256 (concat chunks), rj_snapshot = s\<rparr>)"
proof -
  let ?points = "code_points (ended ls)"
  have points: "list_all scalar_point ?points" using assms(1) by (simp add: well_formed_def)
  have bytes: "concat chunks = utf8_points ?points"
    using assms(1,4) by (simp add: utf8_encode_def well_formed_scalars)
  have size: "length (concat chunks) = byteLength (ended ls)" by (simp add: assms(4) byteLength_def)
  have "expects (newReader runId) chunks ?points ls"
    using points assms(2,3,5) bytes size by (auto simp: expects_def newReader_def)
  from journal_chunks_lines [OF this, of env path]
  show ?thesis
    using assms(5) size
    by (auto simp: reduceJournal_def check_def newReader_def split: sum.splits)
qed

end
