(* ===== verification/SuperviseLaws.thy ===== *)
theory SuperviseLaws
  imports Supervise JournalLaws
begin

text \<open>
  The steps of an owned run in any order, and what every reachable run satisfies: controls are settled at
  most once and none waits after the end, the end is terminal, and a run that succeeded is the reduction
  of exactly the lines that were mirrored.
\<close>

section \<open>Steps\<close>

text \<open>A control is known once its promise exists: it waits or is settled.\<close>

definition known :: "owned_run \<Rightarrow> jstr set" where
  "known r = set (map fst (or_waiters r)) \<union> set (map fst (or_settled r))"

text \<open>\<^verbatim>\<open>randomUUID\<close> gives an identifier that no control has yet.\<close>

definition fresh_uuid :: "jstr \<Rightarrow> owned_run \<Rightarrow> bool" where
  "fresh_uuid uuid r \<longleftrightarrow> (\<forall>prefix. prefix @ uuid \<notin> known r)"

text \<open>The output of the child ends before the child is closed, so no chunk arrives after that.\<close>

inductive run_step :: "platform \<Rightarrow> owned_run \<Rightarrow> owned_run \<Rightarrow> bool" for env where
  step_start: "started r = Inr r' \<Longrightarrow> run_step env r r'"
| step_chunk: "\<not> or_terminal r \<Longrightarrow> run_step env r (consume env chunk r)"
| step_stderr: "run_step env r (queue_stderr chunk r)"
| step_steer: "fresh_uuid uuid r \<Longrightarrow> steer uuid occ att input timing r = Inr r' \<Longrightarrow> run_step env r r'"
| step_recover: "fresh_uuid uuid r \<Longrightarrow> recover uuid occ choice r = Inr r' \<Longrightarrow> run_step env r r'"
| step_redirect: "fresh_uuid uuid r \<Longrightarrow> redirect_run uuid occ target r = Inr r' \<Longrightarrow> run_step env r r'"
| step_timeout: "run_step env r (control_timeout controlId r)"
| step_control: "run_step env r (control_error code message r)"
| step_unplugged: "run_step env r (unplugged r)"
| step_stdin: "run_step env r (stdin_error code message r)"
| step_source: "run_step env r (source_error message r)"
| step_host: "run_step env r (fail_run message r)"
| step_cancel: "run_step env r (cancel now r)"
| step_force: "run_step env r (force_termination r)"
| step_close: "run_step env r (closed h code signal r)"

inductive run_steps :: "platform \<Rightarrow> owned_run \<Rightarrow> owned_run \<Rightarrow> bool" for env where
  steps_refl: "run_steps env r r"
| steps_step: "run_steps env r r1 \<Longrightarrow> run_step env r1 r2 \<Longrightarrow> run_steps env r r2"

section \<open>What the operations change\<close>

lemma show_fields [simp]:
  "or_snapshot (show_snapshot s r) = s" "or_terminal (show_snapshot s r) = or_terminal r"
  "or_waiters (show_snapshot s r) = or_waiters r" "or_settled (show_snapshot s r) = or_settled r"
  "or_mirror (show_snapshot s r) = or_mirror r" "or_sent (show_snapshot s r) = or_sent r"
  "or_finished (show_snapshot s r) = or_finished r" "or_child (show_snapshot s r) = or_child r"
  "or_buffer (show_snapshot s r) = or_buffer r" "or_cleanup (show_snapshot s r) = or_cleanup r"
  by (simp_all add: show_snapshot_def)

lemma reject_fields [simp]:
  "or_snapshot (reject_all m r) = or_snapshot r" "or_terminal (reject_all m r) = or_terminal r"
  "or_waiters (reject_all m r) = []" "or_mirror (reject_all m r) = or_mirror r" "or_sent (reject_all m r) = or_sent r"
  "or_finished (reject_all m r) = or_finished r" "or_child (reject_all m r) = or_child r"
  "map fst (or_settled (reject_all m r)) = map fst (or_settled r) @ map fst (or_waiters r)"
  "or_buffer (reject_all m r) = or_buffer r" "or_cleanup (reject_all m r) = or_cleanup r"
  by (simp_all add: reject_all_def comp_def case_prod_beta)

lemma settle_fields [simp]:
  "or_snapshot (settle_waiter c x r) = or_snapshot r" "or_terminal (settle_waiter c x r) = or_terminal r"
  "or_waiters (settle_waiter c x r) = AList.delete c (or_waiters r)" "or_settled (settle_waiter c x r) = or_settled r @ [(c, x)]"
  "or_mirror (settle_waiter c x r) = or_mirror r" "or_sent (settle_waiter c x r) = or_sent r"
  "or_finished (settle_waiter c x r) = or_finished r" "or_buffer (settle_waiter c x r) = or_buffer r"
  by (simp_all add: settle_waiter_def)

lemma fail_fields [simp]:
  "or_terminal (fail_run m r) = or_terminal r" "or_mirror (fail_run m r) = or_mirror r" "or_sent (fail_run m r) = or_sent r"
  "or_finished (fail_run m r) = or_finished r" "or_buffer (fail_run m r) = or_buffer r"
  "or_terminal r \<Longrightarrow> fail_run m r = r"
  "\<not> or_terminal r \<Longrightarrow> rs_status (or_snapshot (fail_run m r)) = RunFailed"
  by (simp_all add: fail_run_def Let_def failed_snapshot_def)

lemma unplugged_fields [simp]:
  "or_snapshot (unplugged r) = or_snapshot r" "or_terminal (unplugged r) = or_terminal r"
  "or_waiters (unplugged r) = or_waiters r" "or_settled (unplugged r) = or_settled r"
  "or_mirror (unplugged r) = or_mirror r" "or_sent (unplugged r) = or_sent r"
  "or_finished (unplugged r) = or_finished r" "or_buffer (unplugged r) = or_buffer r"
  "or_cancelRequested (unplugged r) = or_cancelRequested r"
  "or_child (unplugged r) = Exited \<longleftrightarrow> or_child r = Exited"
  by (simp_all add: unplugged_def drop_pipe_def split: child_state.split)

text \<open>What every turn of the loop over the lines preserves, the loop preserves.\<close>

lemma consume_lines_preserves:
  assumes "\<And>r b l. P r \<Longrightarrow> P (r\<lparr>or_buffer := b, or_mirror := or_mirror r @ [l]\<rparr>)" and "\<And>r b. P r \<Longrightarrow> P (r\<lparr>or_buffer := b\<rparr>)"
    and "\<And>r m. P r \<Longrightarrow> P (fail_run m r)" and "\<And>e r l. P r \<Longrightarrow> P (reduce_line e l r)"
  shows "P r \<Longrightarrow> P (consume_lines env b r)"
proof (induction env b r rule: consume_lines.induct)
  case (1 env b r)
  let ?line = "takeWhile (\<lambda>u. u \<noteq> 10) b" and ?rest = "tl (dropWhile (\<lambda>u. u \<noteq> 10) b)"
  let ?r1 = "r\<lparr>or_buffer := ?rest, or_mirror := or_mirror r @ [?line]\<rparr>"
  have r1: "P ?r1" using 1(3) by (rule assms(1))
  show ?case
  proof (cases "10 \<in> set b")
    case False
    then show ?thesis using assms(2) [OF 1(3)] by (simp add: consume_lines.simps)
  next
    case True
    consider "?line = []" | "?line \<noteq> []" "byteLength ?line > MAX_FRAME" | "?line \<noteq> []" "\<not> byteLength ?line > MAX_FRAME" by blast
    then show ?thesis
    proof cases
      case 1
      then show ?thesis using True r1 "1.IH"(1) by (subst consume_lines.simps) (simp only: Let_def simp_thms if_True if_False)
    next
      case 2
      then show ?thesis using True assms(3) [OF r1] by (subst consume_lines.simps) (simp only: Let_def simp_thms if_True if_False)
    next
      case 3
      then show ?thesis using True assms(4) [OF r1] "1.IH"(2) by (subst consume_lines.simps) (simp only: Let_def simp_thms if_True if_False)
    qed
  qed
qed

section \<open>Promises\<close>

text \<open>The promises of a run, as a multiset: each is settled or waits.\<close>

definition promises :: "owned_run \<Rightarrow> jstr multiset" where
  "promises r = mset (map fst (or_settled r)) + mset (map fst (or_waiters r))"

definition once :: "owned_run \<Rightarrow> bool" where
  "once r \<longleftrightarrow> (\<forall>c. count (promises r) c \<le> 1)"

lemma known_promises: "known r = set_mset (promises r)"
  by (auto simp: known_def promises_def)

lemma promises_eq: "or_settled r' = or_settled r \<Longrightarrow> or_waiters r' = or_waiters r \<Longrightarrow> promises r' = promises r"
  by (simp add: promises_def)

lemma count_distinct: "(\<forall>x. count (mset xs) x \<le> 1) = distinct xs"
proof -
  have "count (mset xs) x \<le> 1 \<longleftrightarrow> count (mset xs) x = (if x \<in> set xs then 1 else 0)" for x
  proof -
    have zero: "(count (mset xs) x = 0) = (x \<notin> set xs)" by (metis count_eq_zero_iff set_mset_mset)
    show ?thesis
    proof (cases "x \<in> set xs")
      case True
      then have "count (mset xs) x \<noteq> 0" using zero by blast
      then show ?thesis unfolding if_P [OF True] by linarith
    next
      case False
      then have "count (mset xs) x = 0" using zero by blast
      then show ?thesis unfolding if_not_P [OF False] by linarith
    qed
  qed
  then show ?thesis by (simp only: distinct_count_atmost_1)
qed

lemma once_distinct: "once r \<longleftrightarrow> distinct (map fst (or_settled r) @ map fst (or_waiters r))"
  unfolding count_distinct [symmetric] once_def promises_def by simp

lemma once_waiters: "once r \<Longrightarrow> distinct (map fst (or_waiters r))"
  by (simp add: once_distinct)

lemma promises_show [simp]: "promises (show_snapshot s r) = promises r"
  by (simp add: promises_def)

lemma promises_reject [simp]: "promises (reject_all m r) = promises r"
  by (simp add: promises_def del: map_map)

lemma promises_fail [simp]: "promises (fail_run m r) = promises r"
proof -
  have "promises (r\<lparr>or_cleanup := b, or_child := c\<rparr>) = promises r" for r b c by (simp add: promises_def)
  then show ?thesis by (simp add: fail_run_def Let_def)
qed

lemma promises_unplugged [simp]: "promises (unplugged r) = promises r"
  by (simp add: promises_def)

lemma mset_delete: "distinct (map fst xs) \<Longrightarrow> k \<in> set (map fst xs) \<Longrightarrow> mset (map fst xs) = add_mset k (mset (map fst (AList.delete k xs)))"
proof (induction xs)
  case (Cons x xs)
  show ?case
  proof (cases "fst x = k")
    case True
    with Cons.prems have "k \<notin> fst ` set xs" by auto
    then have "AList.delete k xs = xs" by (force simp: AList.delete_eq filter_id_conv)
    with True show ?thesis by (cases x) simp
  next
    case False
    with Cons show ?thesis by (cases x) auto
  qed
qed simp

lemma promises_settle: "once r \<Longrightarrow> c \<in> set (map fst (or_waiters r)) \<Longrightarrow> promises (settle_waiter c x r) = promises r"
  using mset_delete [OF once_waiters, of r c] by (simp add: promises_def)

lemma promises_settleControl: "once r \<Longrightarrow> promises (settleControl c ack r) = promises r"
proof -
  assume ok: "once r"
  have "c \<in> set (map fst (or_waiters r))" if "map_of (or_waiters r) c = Some w" for w
    using that by (metis map_of_eq_None_iff option.distinct(1) set_map)
  then show ?thesis
    using promises_settle [OF ok] by (auto simp: settleControl_def Let_def split: option.split)
qed

lemma promises_reduce: "once r \<Longrightarrow> promises (reduce_line env line r) = promises r"
proof -
  assume ok: "once r"
  have upd: "promises (r\<lparr>or_snapshot := s\<rparr>) = promises r" "once (r\<lparr>or_snapshot := s\<rparr>)" for s
    using ok by (simp_all add: promises_def once_def)
  then show ?thesis
    using promises_settleControl [OF upd(2)]
    by (auto simp: reduce_line_def Let_def split: sum.split option.split)
qed

lemma promises_consume:
  assumes "once r"
  shows "promises (consume env chunk r) = promises r"
proof -
  have "once r1 \<and> promises r1 = promises r \<Longrightarrow> once (consume_lines env b r1) \<and> promises (consume_lines env b r1) = promises r" for r1 b
    by (rule consume_lines_preserves)
       (auto simp: once_def promises_reduce [unfolded once_def] promises_eq [of "_\<lparr>or_buffer := _, or_mirror := _\<rparr>"]
          promises_eq [of "_\<lparr>or_buffer := _\<rparr>"])
  then have "promises (consume_lines env b r) = promises r" for b using assms by blast
  moreover have "promises (r\<lparr>or_buffer := b\<rparr>) = promises r" for b by (simp add: promises_def)
  ultimately show ?thesis by (simp add: consume_def Let_def)
qed

lemma promises_send: "c \<notin> known r \<Longrightarrow> promises (sendControlAwait c v r) = add_mset c (promises r)"
proof -
  assume "c \<notin> known r"
  then have "c \<notin> fst ` set (or_waiters r)" by (auto simp: known_def)
  then have "map_set c w (or_waiters r) = or_waiters r @ [(c, w)]" for w
    by (intro map_set_new) (simp add: map_of_eq_None_iff)
  then show ?thesis by (simp add: promises_def sendControlAwait_def split: sum.split)
qed

text \<open>The controls send at most their own control.\<close>

lemma steer_Inr:
  "steer uuid occ att input timing r = Inr r' \<Longrightarrow> live_run r \<and> (\<exists>v. r' = sendControlAwait (js ''steer-'' @ uuid) v r)"
  unfolding steer_def Let_def by (elim thenE_elim) auto

lemma recover_Inr:
  "recover uuid occ choice r = Inr r' \<Longrightarrow> live_run r \<and> (\<exists>v. r' = sendControlAwait (recovery_name choice @ js ''-'' @ uuid) v r)"
  unfolding recover_def Let_def by (elim thenE_elim) (auto simp: thenE_Inr split: option.splits)

lemma redirect_Inr:
  "redirect_run uuid occ target r = Inr r' \<Longrightarrow> live_run r \<and> (\<exists>v. r' = sendControlAwait (js ''redirect-'' @ uuid) v r)"
  unfolding redirect_run_def Let_def by (elim thenE_elim) (auto simp: thenE_Inr split: option.splits)

lemma run_step_control:
  assumes "run_step env r r'"
  obtains (send) c v where "live_run r" "c \<notin> known r" "r' = sendControlAwait c v r"
  | (start) "started r = Inr r'"
  | (chunk) chunk where "\<not> or_terminal r" "r' = consume env chunk r"
  | (fail) m where "r' = fail_run m r"
  | (stderr) chunk where "r' = queue_stderr chunk r"
  | (timeout) c where "r' = control_timeout c r"
  | (cancel) now where "r' = cancel now r"
  | (force) "r' = force_termination r"
  | (close) h code signal where "r' = closed h code signal r"
  | (unplug) "r' = unplugged r"
  | (unplug_fail) m where "r' = fail_run m (unplugged r)"
  | (same) "r' = r"
  using assms
proof (cases rule: run_step.cases)
  case (step_steer uuid occ att input timing)
  then show ?thesis using send steer_Inr fresh_uuid_def by metis
next
  case (step_recover uuid occ choice)
  then have "recovery_name choice @ js ''-'' @ uuid \<notin> known r"
    unfolding fresh_uuid_def by (metis append.assoc)
  then show ?thesis using step_recover send recover_Inr by metis
next
  case (step_redirect uuid occ target)
  then show ?thesis using send redirect_Inr fresh_uuid_def by metis
next
  case (step_control code message)
  then show ?thesis using unplug unplug_fail by (auto simp: control_error_def split: if_splits)
next
  case (step_stdin code message)
  then show ?thesis using fail same by (auto simp: stdin_error_def split: if_splits)
next
  case (step_source message)
  then show ?thesis using fail same by (auto simp: source_error_def split: if_splits)
qed (use that in blast)+

lemma promises_ended [simp]: "promises (ended_status code signal r) = promises r"
  by (simp add: ended_status_def)

lemma promises_persisted [simp]: "promises (persisted h r) = promises r"
  by (simp add: persisted_def split: sum.split)

lemma promises_closed: "promises (closed h code signal r) = promises r"
proof -
  have upd: "promises (r\<lparr>or_terminal := a, or_child := b\<rparr>) = promises r" "promises (r\<lparr>or_log := l\<rparr>) = promises r"
    "promises (r\<lparr>or_finished := f\<rparr>) = promises r" for r a b l f
    by (simp_all add: promises_def)
  show ?thesis by (simp add: closed_def Let_def upd)
qed

lemma promises_timeout: "once r \<Longrightarrow> promises (control_timeout c r) = promises r"
proof (cases "c \<in> set (map fst (or_waiters r))")
  case True
  assume "once r"
  from promises_settle [OF this True] show ?thesis
    using True by (simp add: control_timeout_def settle_waiter_def)
qed (simp add: control_timeout_def)

lemma run_step_promises:
  assumes "run_step env r r'" and "once r"
  shows "once r' \<and> promises r \<subseteq># promises r'"
  using assms(1)
proof (cases rule: run_step_control)
  case (send c v)
  then have p: "promises r' = add_mset c (promises r)" "c \<notin># promises r"
    using promises_send by (auto simp: known_promises)
  then show ?thesis using assms(2) by (auto simp: once_def not_in_iff)
next
  case start
  then have "promises r' = promises r" by (auto simp: started_def promises_def split: if_splits)
  then show ?thesis using assms(2) by (simp add: once_def)
next
  case (chunk c)
  then show ?thesis using promises_consume [OF assms(2)] assms(2) by (simp add: once_def)
next
  case (stderr c)
  then have "promises r' = promises r" by (simp add: queue_stderr_def promises_def)
  then show ?thesis using assms(2) by (simp add: once_def)
next
  case (timeout c)
  then show ?thesis using promises_timeout [OF assms(2)] assms(2) by (simp add: once_def)
next
  case (cancel now)
  then have "promises r' = promises r" by (simp add: cancel_def Let_def promises_def)
  then show ?thesis using assms(2) by (simp add: once_def)
next
  case force
  then have "promises r' = promises r" by (simp add: force_termination_def promises_def)
  then show ?thesis using assms(2) by (simp add: once_def)
qed (use assms(2) in \<open>simp_all add: once_def promises_closed\<close>)

section \<open>The end\<close>

definition end_ok :: "owned_run \<Rightarrow> bool" where
  "end_ok r \<longleftrightarrow>
     (if or_terminal r
      then or_waiters r = [] \<and> or_finished r = Some (or_snapshot r) \<and> isTerminal (rs_status (or_snapshot r))
        \<and> or_child r = Exited \<and> (\<exists>h. rs_status (or_snapshot r) = Succeeded \<longrightarrow> verify_end h (or_snapshot r) = Inr ())
      else or_finished r = None)"

lemma ended_terminal: "\<not> or_terminal r \<Longrightarrow> isTerminal (rs_status (or_snapshot (ended_status code signal r)))"
  by (auto simp: ended_status_def cancelled_snapshot_def isTerminal_def)

lemma persisted_status:
  "isTerminal (rs_status (or_snapshot r)) \<Longrightarrow> isTerminal (rs_status (or_snapshot (persisted h r)))
   \<and> (rs_status (or_snapshot (persisted h r)) = Succeeded \<longrightarrow> verify_end h (or_snapshot (persisted h r)) = Inr ())"
  by (auto simp: persisted_def isTerminal_def thenE_Inr split: sum.split)

lemma persisted_fields [simp]:
  "or_terminal (persisted h r) = or_terminal r" "or_child (persisted h r) = or_child r" "or_sent (persisted h r) = or_sent r"
  "or_mirror (persisted h r) = or_mirror r"
  by (simp_all add: persisted_def split: sum.split)

lemma ended_fields [simp]:
  "or_terminal (ended_status code signal r) = or_terminal r" "or_sent (ended_status code signal r) = or_sent r"
  "or_mirror (ended_status code signal r) = or_mirror r"
  by (simp_all add: ended_status_def)

lemma closed_end:
  assumes "\<not> or_terminal r"
  shows "end_ok (closed h code signal r)"
proof -
  let ?r1 = "if trim js_space (or_buffer r) \<noteq> [] then fail_run (js ''protocol ended with a torn frame'') r else r"
  let ?r2 = "(ended_status code signal ?r1)\<lparr>or_terminal := True, or_child := Exited\<rparr>"
  let ?r3 = "?r2\<lparr>or_log := queueStderr (or_secrets ?r2) [] True (or_log ?r2)\<rparr>"
  have "\<not> or_terminal ?r1" using assms by simp
  from ended_terminal [OF this] have "isTerminal (rs_status (or_snapshot ?r3))" by simp
  from persisted_status [OF this, of h] show ?thesis
    using assms by (auto simp: closed_def Let_def end_ok_def)
qed

lemma closed_verified:
  assumes "\<not> or_terminal r" and "rs_status (or_snapshot (closed h code signal r)) = Succeeded"
  shows "verify_end h (or_snapshot (closed h code signal r)) = Inr ()"
proof -
  let ?r1 = "if trim js_space (or_buffer r) \<noteq> [] then fail_run (js ''protocol ended with a torn frame'') r else r"
  let ?r2 = "(ended_status code signal ?r1)\<lparr>or_terminal := True, or_child := Exited\<rparr>"
  let ?r3 = "?r2\<lparr>or_log := queueStderr (or_secrets ?r2) [] True (or_log ?r2)\<rparr>"
  have "\<not> or_terminal ?r1" using assms(1) by simp
  from ended_terminal [OF this] have "isTerminal (rs_status (or_snapshot ?r3))" by simp
  from persisted_status [OF this, of h] show ?thesis
    using assms by (simp add: closed_def Let_def)
qed

lemma consume_fields [simp]:
  "or_terminal (consume env chunk r) = or_terminal r" "or_finished (consume env chunk r) = or_finished r"
  "or_sent (consume env chunk r) = or_sent r"
proof -
  have settle: "or_terminal (settleControl c ack r) = or_terminal r \<and> or_finished (settleControl c ack r) = or_finished r
      \<and> or_sent (settleControl c ack r) = or_sent r" for c ack r
    by (simp add: settleControl_def Let_def split: option.split)
  have line: "or_terminal (reduce_line e l r) = or_terminal r \<and> or_finished (reduce_line e l r) = or_finished r
      \<and> or_sent (reduce_line e l r) = or_sent r" for e l r
    by (auto simp: reduce_line_def Let_def settle split: sum.split option.split)
  have "or_terminal (consume_lines env b r) = or_terminal r \<and> or_finished (consume_lines env b r) = or_finished r
      \<and> or_sent (consume_lines env b r) = or_sent r" for b
    by (rule consume_lines_preserves [where P = "\<lambda>x. or_terminal x = or_terminal r \<and> or_finished x = or_finished r
          \<and> or_sent x = or_sent r"])
       (auto simp: line)
  then show "or_terminal (consume env chunk r) = or_terminal r" "or_finished (consume env chunk r) = or_finished r"
    "or_sent (consume env chunk r) = or_sent r"
    by (simp_all add: consume_def Let_def)
qed

lemma run_step_end:
  assumes "run_step env r r'" and "end_ok r"
  shows "end_ok r'"
  using assms(1)
proof (cases rule: run_step_control)
  case (send c v)
  then show ?thesis using assms(2) by (auto simp: end_ok_def live_run_def sendControlAwait_def split: sum.split)
next
  case start
  then show ?thesis using assms(2) by (auto simp: end_ok_def started_def split: if_splits)
next
  case (close h code signal)
  then show ?thesis using assms(2) closed_end [of r] by (cases "or_terminal r") (auto simp: closed_def)
next
  case (cancel now)
  then show ?thesis using assms(2) by (auto simp: end_ok_def cancel_def Let_def)
next
  case (fail m)
  then show ?thesis using assms(2) by (cases "or_terminal r") (auto simp: end_ok_def)
qed (use assms(2) in \<open>auto simp: end_ok_def queue_stderr_def control_timeout_def force_termination_def\<close>)

section \<open>What a run reports is what was mirrored\<close>

definition stopped :: "run_snapshot \<Rightarrow> bool" where
  "stopped s \<longleftrightarrow> rs_status s = RunFailed \<or> rs_status s = RunCancelled"

definition journaled :: "platform \<Rightarrow> jstr \<Rightarrow> owned_run \<Rightarrow> bool" where
  "journaled env runId r \<longleftrightarrow>
     replay_lines env (initialSnapshot runId) (or_mirror r) = Inr (or_snapshot r)
     \<and> list_all (\<lambda>l. one_line l \<and> byteLength l \<le> MAX_FRAME) (or_mirror r)"

definition reported :: "platform \<Rightarrow> jstr \<Rightarrow> owned_run \<Rightarrow> bool" where
  "reported env runId r \<longleftrightarrow> stopped (or_snapshot r) \<or> journaled env runId r"

lemma stopped_refuses: "stopped s \<Longrightarrow> \<exists>m. reduceEvent env s e = Inl m"
  by (rule terminal_refuses) (auto simp: stopped_def isTerminal_def)

lemma fail_stopped: "\<not> or_terminal r \<Longrightarrow> stopped (or_snapshot (fail_run m r))"
  by (simp add: stopped_def)

lemma settleControl_reported:
  "\<not> or_terminal r \<Longrightarrow> stopped (or_snapshot (settleControl c ack r)) \<or> or_snapshot (settleControl c ack r) = or_snapshot r"
  "or_mirror (settleControl c ack r) = or_mirror r"
  using fail_stopped by (auto simp: settleControl_def Let_def split: option.split)

lemma reduce_line_reported:
  assumes "\<not> or_terminal r" and "stopped (or_snapshot r) \<or> replay_lines env (initialSnapshot runId) ms = Inr (or_snapshot r)"
    and "l \<noteq> []" "byteLength l \<le> MAX_FRAME"
  shows "stopped (or_snapshot (reduce_line env l r)) \<or> replay_lines env (initialSnapshot runId) (ms @ [l]) = Inr (or_snapshot (reduce_line env l r))"
    and "or_mirror (reduce_line env l r) = or_mirror r" and "\<not> or_terminal (reduce_line env l r)"
proof -
  show "or_mirror (reduce_line env l r) = or_mirror r"
    by (auto simp: reduce_line_def Let_def settleControl_reported split: sum.split option.split)
  have settle: "or_terminal (settleControl c ack r) = or_terminal r" for c ack r
    by (simp add: settleControl_def Let_def split: option.split)
  then show "\<not> or_terminal (reduce_line env l r)"
    using assms(1) by (auto simp: reduce_line_def Let_def split: sum.split option.split)
  show "stopped (or_snapshot (reduce_line env l r)) \<or> replay_lines env (initialSnapshot runId) (ms @ [l]) = Inr (or_snapshot (reduce_line env l r))"
  proof (cases "thenE (parsed_event l) (\<lambda>e. thenE (reduceEvent env (or_snapshot r) e) (\<lambda>s. Inr (e, s)))")
    case (Inl m)
    then show ?thesis using fail_stopped [OF assms(1)] by (simp add: reduce_line_def)
  next
    case (Inr es)
    obtain e s where es: "es = (e, s)" by force
    with Inr have e: "parsed_event l = Inr e" "reduceEvent env (or_snapshot r) e = Inr s" by (auto simp: thenE_Inr)
    then have "\<not> stopped (or_snapshot r)" using stopped_refuses [of "or_snapshot r" env e] by auto
    then have "replay_lines env (initialSnapshot runId) (ms @ [l]) = Inr s"
      using assms(2-4) e by (simp add: replay_lines_append journal_line_def check_def)
    moreover have "stopped (or_snapshot (reduce_line env l r)) \<or> or_snapshot (reduce_line env l r) = s"
      using settleControl_reported(1) [of "r\<lparr>or_snapshot := s\<rparr>"] assms(1)
      by (auto simp: reduce_line_def Inr es Let_def split: option.split)
    ultimately show ?thesis by metis
  qed
qed

lemma consume_lines_reported:
  "\<not> or_terminal r \<Longrightarrow> reported env runId r \<Longrightarrow> reported env runId (consume_lines env b r)"
proof (induction env b r rule: consume_lines.induct)
  case (1 env b r)
  let ?line = "takeWhile (\<lambda>u. u \<noteq> 10) b" and ?rest = "tl (dropWhile (\<lambda>u. u \<noteq> 10) b)"
  let ?r1 = "r\<lparr>or_buffer := ?rest, or_mirror := or_mirror r @ [?line]\<rparr>"
  have ok: "one_line ?line" by (auto dest: set_takeWhileD)
  show ?case
  proof (cases "10 \<in> set b")
    case False
    then show ?thesis using 1(4) by (simp add: consume_lines.simps reported_def journaled_def)
  next
    case True
    consider "?line = []" | "?line \<noteq> []" "byteLength ?line > MAX_FRAME" | "?line \<noteq> []" "byteLength ?line \<le> MAX_FRAME" by linarith
    then show ?thesis
    proof cases
      case 1
      have "reported env runId ?r1"
        using "1.prems"(2) 1 by (auto simp: reported_def journaled_def replay_lines_append journal_line_def byteLength_points MAX_FRAME_def)
      then show ?thesis
        using True 1 "1.IH"(1) "1.prems"(1) by (subst consume_lines.simps) (simp add: Let_def)
    next
      case 2
      then show ?thesis
        using True fail_stopped [of ?r1] "1.prems"(1) by (subst consume_lines.simps) (simp add: Let_def reported_def)
    next
      case 3
      let ?r2 = "reduce_line env ?line ?r1"
      have r1: "\<not> or_terminal ?r1" "stopped (or_snapshot ?r1) \<or> replay_lines env (initialSnapshot runId) (or_mirror r) = Inr (or_snapshot ?r1)"
        using "1.prems" by (auto simp: reported_def journaled_def)
      note r2 = reduce_line_reported [OF r1 3]
      have lines: "stopped (or_snapshot r) \<or> list_all (\<lambda>l. one_line l \<and> byteLength l \<le> MAX_FRAME) (or_mirror r)"
        using "1.prems"(2) by (auto simp: reported_def journaled_def)
      have stays: "stopped (or_snapshot ?r2)" if "stopped (or_snapshot r)"
      proof -
        have "\<exists>m. thenE (parsed_event ?line) (\<lambda>e. thenE (reduceEvent env (or_snapshot ?r1) e) (\<lambda>s. Inr (e, s))) = Inl m"
          using stopped_refuses [of "or_snapshot ?r1"] that by (cases "parsed_event ?line") (auto, metis thenE_simps(1))
        then show ?thesis using fail_stopped [OF r1(1)] by (auto simp: reduce_line_def)
      qed
      have "reported env runId ?r2"
        using r2(1,2) lines stays ok 3(2) by (auto simp: reported_def journaled_def)
      then show ?thesis
        using True 3 "1.IH"(2) r2(3) by (subst consume_lines.simps) (simp add: Let_def)
    qed
  qed
qed

lemma reported_cong:
  "or_snapshot r' = or_snapshot r \<Longrightarrow> or_mirror r' = or_mirror r \<Longrightarrow> reported env runId r' = reported env runId r"
  by (simp add: reported_def journaled_def)

lemma persisted_reported: "reported env runId r \<Longrightarrow> reported env runId (persisted h r)"
  by (auto simp: persisted_def reported_def stopped_def split: sum.split)

lemma ended_reported: "\<not> or_terminal r \<Longrightarrow> reported env runId r \<Longrightarrow> reported env runId (ended_status code signal r)"
  using fail_stopped by (auto simp: ended_status_def reported_def stopped_def cancelled_snapshot_def)

lemma closed_reported:
  assumes "reported env runId r"
  shows "reported env runId (closed h code signal r)"
proof (cases "or_terminal r")
  case False
  let ?r1 = "if trim js_space (or_buffer r) \<noteq> [] then fail_run (js ''protocol ended with a torn frame'') r else r"
  let ?r2 = "(ended_status code signal ?r1)\<lparr>or_terminal := True, or_child := Exited\<rparr>"
  let ?r3 = "?r2\<lparr>or_log := queueStderr (or_secrets ?r2) [] True (or_log ?r2)\<rparr>"
  have "reported env runId ?r1" using assms fail_stopped [OF False] by (simp add: reported_def)
  then have "reported env runId (ended_status code signal ?r1)" using False by (intro ended_reported) simp_all
  then have "reported env runId ?r3" by (rule reported_cong [THEN iffD2, rotated 2]) simp_all
  from persisted_reported [OF this, of h]
  have "reported env runId (reject_all m (persisted h ?r3))" for m by (rule reported_cong [THEN iffD2, rotated 2]) simp_all
  then have "reported env runId ((reject_all m (persisted h ?r3))\<lparr>or_finished := f\<rparr>)" for m f
    by (rule reported_cong [THEN iffD2, rotated 2]) simp_all
  then show ?thesis using False by (simp only: closed_def Let_def if_False)
qed (use assms in \<open>simp add: closed_def\<close>)

lemma run_step_reported:
  assumes "run_step env r r'" and "reported env runId r"
  shows "reported env runId r'"
  using assms(1)
proof (cases rule: run_step_control)
  case (chunk c)
  have "reported env runId (r\<lparr>or_buffer := b\<rparr>)" for b
    using assms(2) by (rule reported_cong [THEN iffD2, rotated 2]) simp_all
  then show ?thesis
    using chunk assms(2) consume_lines_reported [OF chunk(1)] fail_stopped [of "r\<lparr>or_buffer := _\<rparr>"]
    by (auto simp: consume_def Let_def) (simp add: reported_def)
next
  case (fail m)
  then show ?thesis using assms(2) fail_stopped [of r m] by (cases "or_terminal r") (auto simp: reported_def)
next
  case (close h code signal)
  then show ?thesis using closed_reported [OF assms(2)] by simp
next
  case (send c v)
  then have "or_snapshot r' = or_snapshot r" "or_mirror r' = or_mirror r" by (simp_all add: sendControlAwait_def split: sum.split)
  then show ?thesis using assms(2) reported_cong by metis
next
  case start
  then have "or_snapshot r' = or_snapshot r" "or_mirror r' = or_mirror r" by (auto simp: started_def split: if_splits)
  then show ?thesis using assms(2) reported_cong by metis
next
  case (stderr c)
  then have "or_snapshot r' = or_snapshot r" "or_mirror r' = or_mirror r" by (simp_all add: queue_stderr_def)
  then show ?thesis using assms(2) reported_cong by metis
next
  case (timeout c)
  then have "or_snapshot r' = or_snapshot r" "or_mirror r' = or_mirror r" by (simp_all add: control_timeout_def)
  then show ?thesis using assms(2) reported_cong by metis
next
  case (cancel now)
  then have "or_snapshot r' = or_snapshot r" "or_mirror r' = or_mirror r" by (simp_all add: cancel_def Let_def)
  then show ?thesis using assms(2) reported_cong by metis
next
  case force
  then have "or_snapshot r' = or_snapshot r" "or_mirror r' = or_mirror r" by (simp_all add: force_termination_def)
  then show ?thesis using assms(2) reported_cong by metis
next
  case unplug
  then have "or_snapshot r' = or_snapshot r" "or_mirror r' = or_mirror r" by simp_all
  then show ?thesis using assms(2) reported_cong by metis
next
  case (unplug_fail m)
  have "reported env runId (unplugged r)"
    using assms(2) reported_cong [of "unplugged r" r] by simp
  then show ?thesis
    using unplug_fail fail_stopped [of "unplugged r" m] by (cases "or_terminal r") (auto simp: reported_def)
qed (use assms(2) in simp)

section \<open>Reachable runs\<close>

definition run_ok :: "platform \<Rightarrow> jstr \<Rightarrow> owned_run \<Rightarrow> bool" where
  "run_ok env runId r \<longleftrightarrow> once r \<and> end_ok r \<and> reported env runId r"

lemma newRun_ok: "run_ok env (lm_runId (pl_manifest prepared)) (newRun prepared)"
  by (simp add: run_ok_def newRun_def once_def promises_def end_ok_def reported_def journaled_def)

lemma run_step_ok: "run_step env r r' \<Longrightarrow> run_ok env runId r \<Longrightarrow> run_ok env runId r'"
  unfolding run_ok_def using run_step_promises run_step_end run_step_reported by blast

lemma run_steps_ok: "run_steps env r r' \<Longrightarrow> run_ok env runId r \<Longrightarrow> run_ok env runId r'"
  by (induction rule: run_steps.induct) (auto intro: run_step_ok)

lemma run_steps_promises: "run_steps env r r' \<Longrightarrow> once r \<Longrightarrow> once r' \<and> promises r \<subseteq># promises r'"
proof (induction rule: run_steps.induct)
  case (steps_step r r1 r2)
  then show ?case using run_step_promises by (meson subset_mset.order_trans)
qed simp

section \<open>Nothing is sent after the end\<close>

lemma fail_terminal: "isTerminal (rs_status (or_snapshot r)) \<Longrightarrow> isTerminal (rs_status (or_snapshot (fail_run m r)))"
  by (cases "or_terminal r") (simp_all add: isTerminal_def)

lemma reduce_terminal:
  assumes "isTerminal (rs_status (or_snapshot r))"
  shows "isTerminal (rs_status (or_snapshot (reduce_line env l r)))"
proof -
  have "\<exists>m. thenE (parsed_event l) (\<lambda>e. thenE (reduceEvent env (or_snapshot r) e) (\<lambda>s. Inr (e, s))) = Inl m"
  proof (cases "parsed_event l")
    case (Inr e)
    then show ?thesis using terminal_refuses [OF assms, of env e] by auto
  qed simp
  then show ?thesis using fail_terminal [OF assms] by (auto simp: reduce_line_def)
qed

lemma consume_terminal:
  assumes "isTerminal (rs_status (or_snapshot r))"
  shows "isTerminal (rs_status (or_snapshot (consume env chunk r)))"
proof -
  have "isTerminal (rs_status (or_snapshot (consume_lines env b r)))" for b
    by (rule consume_lines_preserves [where P = "\<lambda>x. isTerminal (rs_status (or_snapshot x))"])
       (use assms in \<open>auto intro: fail_terminal reduce_terminal\<close>)
  then show ?thesis using assms by (auto simp: consume_def Let_def intro: fail_terminal)
qed

lemma closed_sent: "or_sent (closed h code signal r) = or_sent r"
  by (simp add: closed_def Let_def)

lemma closed_not_live: "\<not> live_run (closed h code signal r)"
  by (simp add: closed_def Let_def live_run_def)

lemma run_step_silent:
  assumes "run_step env r r'" and "\<not> live_run r"
  shows "or_sent r' = or_sent r \<and> \<not> live_run r'"
  using assms(1)
proof (cases rule: run_step_control)
  case (chunk c)
  then show ?thesis using assms(2) consume_terminal [of r env c] by (simp add: live_run_def)
next
  case (fail m)
  then show ?thesis using assms(2) fail_terminal [of r m] by (auto simp: live_run_def)
next
  case (unplug_fail m)
  then show ?thesis using assms(2) fail_terminal [of "unplugged r" m] by (auto simp: live_run_def)
next
  case (cancel now)
  then have "r' = r" using assms(2) by (auto simp: cancel_def live_run_def)
  then show ?thesis using assms(2) by simp
next
  case start
  then show ?thesis using assms(2) by (auto simp: started_def live_run_def split: if_splits)
qed (use assms(2) in \<open>auto simp: live_run_def queue_stderr_def control_timeout_def force_termination_def closed_sent
      closed_not_live [unfolded live_run_def]\<close>)

end
