(* ===== verification/SampleOwned.thy ===== *)
theory SampleOwned
  imports SampleRun SuperviseLaws SampleHost
begin

text \<open>A journal as text: the lines of a run that succeeds without an occurrence, and its store.\<close>

definition stored_start :: jstr where
  "stored_start = js ''{\"protocolVersion\":1,\"runId\":\"run\",\"sequence\":\"0\",\"timestamp\":\"2024-01-01T00:00:00Z\",\"event\":{\"type\":\"run.started\",\"workflow\":\"w\",\"target\":\"t\"}}''"

definition stored_trace :: jstr where
  "stored_trace = js ''{\"protocolVersion\":1,\"runId\":\"run\",\"sequence\":\"1\",\"timestamp\":\"2024-01-01T00:00:00Z\",\"event\":{\"type\":\"trace.ordered\",\"occurrenceIds\":[]}}''"

definition stored_end :: jstr where
  "stored_end = js ''{\"protocolVersion\":1,\"runId\":\"run\",\"sequence\":\"2\",\"timestamp\":\"2024-01-01T00:00:00Z\",\"event\":{\"type\":\"run.completed\",\"billFresh\":\"1\",\"billMemo\":\"0\"}}''"

definition stored_lines :: "jstr list" where
  "stored_lines = [stored_start, stored_trace, stored_end]"

definition envelope :: "nat \<Rightarrow> (jstr \<times> json_value) list \<Rightarrow> json_value" where
  "envelope n body = JObj [(js ''protocolVersion'', JNum [49]), (js ''runId'', JStr (js ''run'')), (js ''sequence'', JStr (dec n)),
     (js ''timestamp'', JStr (js ''2024-01-01T00:00:00Z'')), (js ''event'', JObj body)]"

lemma stored_json:
  "tryParseJson stored_start =
     Some (envelope 0 [(js ''type'', JStr (js ''run.started'')), (js ''workflow'', JStr (js ''w'')), (js ''target'', JStr (js ''t''))])"
  "tryParseJson stored_trace = Some (envelope 1 [(js ''type'', JStr (js ''trace.ordered'')), (js ''occurrenceIds'', JArr [])])"
  "tryParseJson stored_end =
     Some (envelope 2 [(js ''type'', JStr (js ''run.completed'')), (js ''billFresh'', JStr [49]), (js ''billMemo'', JStr [48])])"
  unfolding stored_start_def stored_trace_def stored_end_def envelope_def by code_simp+

lemma one_double: "to_double (number_value [49]) = Finite 1"
proof -
  have "number_value [49] = of_int 1" by code_simp
  then show ?thesis using to_double_int [of 1] by (simp add: js_int_def MAX_SAFE_def)
qed

lemma stored_events:
  "parsed_event stored_start = Inr (sample_event 0 ''run.started'' [(''type'', JStr (js ''run.started'')), (''workflow'', JStr (js ''w'')), (''target'', JStr (js ''t''))])"
  "parsed_event stored_trace = Inr (sample_event 1 ''trace.ordered'' [(''type'', JStr (js ''trace.ordered'')), (''occurrenceIds'', JArr [])])"
  "parsed_event stored_end = Inr (sample_event 2 ''run.completed'' [(''type'', JStr (js ''run.completed'')), (''billFresh'', JStr [49]), (''billMemo'', JStr [48])])"
  by (simp_all add: parsed_event_def parsed_json_def json_parse_def stored_json envelope_def one_double event_of_json_def sample_event_def)

definition stored_snapshot_end :: run_snapshot where
  "stored_snapshot_end =
     \<lparr>rs_runId = js ''run'', rs_status = Succeeded, rs_protocolVersion = Some (Finite 1), rs_lastSequence = Some 2,
      rs_workflow = Some (js ''w''), rs_target = Some (js ''t''), rs_personAnswering = None, rs_occurrences = [],
      rs_authoredOrder = [], rs_traceRecorded = True, rs_eventDigests = [(dec 2, dec 2 @ js ''run.completed'')],
      rs_controlAcks = [], rs_billFresh = Some [49], rs_billMemo = Some [48], rs_result = None, rs_failure = None,
      rs_failureClass = None\<rparr>"

lemma stored_short: "list_all (\<lambda>u. u < 0x80 \<and> u \<noteq> 10) stored_start" "list_all (\<lambda>u. u < 0x80 \<and> u \<noteq> 10) stored_trace"
    "list_all (\<lambda>u. u < 0x80 \<and> u \<noteq> 10) stored_end"
  unfolding stored_start_def stored_trace_def stored_end_def by code_simp+

lemma stored_lengths: "length stored_start < 200" "length stored_trace < 200" "length stored_end < 200"
  unfolding stored_start_def stored_trace_def stored_end_def by code_simp+

lemma stored_sizes: "byteLength stored_start < 200" "byteLength stored_trace < 200" "byteLength stored_end < 200"
proof -
  have "byteLength s = length s" if "list_all (\<lambda>u. u < 0x80 \<and> u \<noteq> (10 :: unit16)) s" for s
    using that by (intro byteLength_ascii) (simp add: list_all_iff)
  then show "byteLength stored_start < 200" "byteLength stored_trace < 200" "byteLength stored_end < 200"
    using stored_lengths by (simp_all only: stored_short)
qed

lemma stored_nonempty: "stored_start \<noteq> []" "stored_trace \<noteq> []" "stored_end \<noteq> []"
  by (simp_all add: stored_start_def stored_trace_def stored_end_def)

lemma stored_replay: "replay_lines plain_platform (initialSnapshot (js ''run'')) stored_lines = Inr stored_snapshot_end"
  unfolding stored_lines_def replay_lines.simps journal_line_def
  using stored_sizes
  by (simp add: stored_nonempty MAX_FRAME_def check_def stored_events)
     (simp add: initialSnapshot_def sample_run sample_field sample_type headed_def stored_snapshot_end_def)

text \<open>An owned run that reads the sample journal from its child and is closed.\<close>

lemma settle_none: "or_waiters r = [] \<Longrightarrow> settleControl c ack r = r"
  by (simp add: settleControl_def)

lemma reduce_line_accepts:
  assumes "parsed_event l = Inr e" and "reduceEvent env (or_snapshot r) e = Inr s" and "or_waiters r = []"
  shows "reduce_line env l r = show_snapshot s (r\<lparr>or_snapshot := s\<rparr>)"
  using assms by (auto simp: reduce_line_def Let_def settle_none split: option.split)

text \<open>A text of acceptable lines is consumed into the snapshot of its lines.\<close>

lemma consume_lines_ended:
  "replay_lines env (or_snapshot r) ls = Inr s \<Longrightarrow> list_all (\<lambda>l. one_line l \<and> l \<noteq> [] \<and> byteLength l \<le> MAX_FRAME) ls \<Longrightarrow>
   or_waiters r = [] \<Longrightarrow>
   (let r' = consume_lines env (ended ls) r in
     or_snapshot r' = s \<and> or_mirror r' = or_mirror r @ ls \<and> or_waiters r' = [] \<and> or_terminal r' = or_terminal r
     \<and> or_buffer r' = [] \<and> or_settled r' = or_settled r)"
proof (induction ls arbitrary: r)
  case Nil
  then show ?case by (simp add: consume_lines.simps Let_def)
next
  case (Cons l ls)
  then have l: "one_line l" "l \<noteq> []" "\<not> byteLength l > MAX_FRAME" by auto
  from Cons.prems(1) obtain s1 where s1: "journal_line env (or_snapshot r) l = Inr s1" "replay_lines env s1 ls = Inr s"
    by (auto simp: thenE_Inr)
  then obtain e where e: "parsed_event l = Inr e" "reduceEvent env (or_snapshot r) e = Inr s1"
    using l(2) by (auto simp: journal_line_def thenE_Inr)
  let ?r1 = "r\<lparr>or_buffer := ended ls, or_mirror := or_mirror r @ [l]\<rparr>"
  let ?r2 = "show_snapshot s1 (?r1\<lparr>or_snapshot := s1\<rparr>)"
  have line: "reduce_line env l ?r1 = ?r2"
    using e Cons.prems(3) by (intro reduce_line_accepts) simp_all
  have step: "consume_lines env (ended (l # ls)) r = consume_lines env (ended ls) ?r2"
    by (subst consume_lines.simps)
       (simp only: ended_simps cut_line [OF l(1)] Let_def line l(2,3) if_False set_append list.set Un_iff insert_iff simp_thms)
  have "replay_lines env (or_snapshot ?r2) ls = Inr s" "or_waiters ?r2 = []" using s1(2) Cons.prems(3) by simp_all
  from Cons.IH [OF this(1) _ this(2)] Cons.prems(2) show ?case unfolding step by (simp add: Let_def)
qed

definition sample_prepared :: prepared_launch where
  "sample_prepared =
     \<lparr>pl_manifest = manifest_sample, pl_storeDir = js ''/store'', pl_inputFiles = [], pl_stdinFile = None, pl_controlFd = True,
      pl_protocolVersion = 1, pl_command = js ''/bin/r'', pl_args = [], pl_env = []\<rparr>"

definition owned_started :: owned_run where
  "owned_started = (newRun sample_prepared)\<lparr>or_child := Started True\<rparr>"

definition owned_read :: owned_run where
  "owned_read = consume plain_platform (ended stored_lines) owned_started"

definition sample_end_host :: end_host where
  "sample_end_host = \<lparr>eh_artifacts = \<lparr>ah_sha256 = (\<lambda>_. []), ah_number = one_text\<rparr>, eh_result = Inr [], eh_persist = Inr ()\<rparr>"

definition owned_end :: owned_run where
  "owned_end = closed sample_end_host (Some 0) None owned_read"

lemma stored_lines_ok: "list_all (\<lambda>l. one_line l \<and> l \<noteq> [] \<and> byteLength l \<le> MAX_FRAME) stored_lines"
proof -
  have "one_line l" if "list_all (\<lambda>u. u < 0x80 \<and> u \<noteq> (10 :: unit16)) l" for l
    using that by (auto simp: list_all_iff)
  then show ?thesis
    using stored_short stored_sizes by (simp add: stored_lines_def stored_nonempty MAX_FRAME_def)
qed

lemma owned_snapshot: "or_snapshot owned_started = initialSnapshot (js ''run'')"
  by (simp add: owned_started_def newRun_def sample_prepared_def manifest_sample_def)

lemma owned_read_is:
  "or_snapshot owned_read = stored_snapshot_end \<and> or_mirror owned_read = stored_lines \<and> or_waiters owned_read = []
   \<and> \<not> or_terminal owned_read \<and> or_buffer owned_read = []"
proof -
  have "replay_lines plain_platform (or_snapshot owned_started) stored_lines = Inr stored_snapshot_end"
    by (simp add: owned_snapshot stored_replay)
  from consume_lines_ended [OF this stored_lines_ok]
  have c: "or_snapshot r' = stored_snapshot_end \<and> or_mirror r' = stored_lines \<and> or_waiters r' = [] \<and> \<not> or_terminal r' \<and> or_buffer r' = []"
    if "r' = consume_lines plain_platform (ended stored_lines) owned_started" for r'
    using that by (simp add: owned_started_def newRun_def Let_def)
  have "length (ended stored_lines) \<le> MAX_FRAME * 2"
    using stored_lengths by (simp add: stored_lines_def MAX_FRAME_def)
  then have "owned_read = consume_lines plain_platform (ended stored_lines) owned_started"
    by (simp add: owned_read_def consume_def owned_started_def newRun_def)
  then show ?thesis by (rule c)
qed

lemma owned_end_is:
  "or_finished owned_end = Some stored_snapshot_end \<and> or_mirror owned_end = stored_lines"
  using owned_read_is
  by (simp add: owned_end_def closed_def Let_def trim_def ended_status_def stored_snapshot_end_def isTerminal_def persisted_def
      verify_end_def sample_end_host_def)

lemma owned_steps:
  "run_steps plain_platform (newRun sample_prepared) owned_started"
  "run_steps plain_platform owned_started owned_end"
proof -
  have "started (newRun sample_prepared) = Inr owned_started" by (simp add: started_def owned_started_def newRun_def)
  then show "run_steps plain_platform (newRun sample_prepared) owned_started"
    by (meson steps_refl steps_step step_start)
  have "run_step plain_platform owned_started owned_read"
    unfolding owned_read_def by (rule step_chunk) (simp add: owned_started_def newRun_def)
  moreover have "run_step plain_platform owned_read owned_end" unfolding owned_end_def by (rule step_close)
  ultimately show "run_steps plain_platform owned_started owned_end" by (meson steps_refl steps_step)
qed

lemma run_steps_trans: "run_steps env b c \<Longrightarrow> run_steps env a b \<Longrightarrow> run_steps env a c"
  by (induction rule: run_steps.induct) (auto intro: steps_step)

lemma owned_end_reached: "run_steps plain_platform (newRun sample_prepared) owned_end"
  using owned_steps run_steps_trans by blast

lemma owned_read_reached: "run_steps plain_platform (newRun sample_prepared) owned_read"
proof -
  have "run_step plain_platform owned_started owned_read"
    unfolding owned_read_def by (rule step_chunk) (simp add: owned_started_def newRun_def)
  with owned_steps(1) show ?thesis by (rule steps_step)
qed

section \<open>A run with a control\<close>

text \<open>The run of \<^theory_text>\<open>sample_waiting\<close>, from its lines: its occurrence is answered by a retry.\<close>

definition waiting_occurrence :: jstr where
  "waiting_occurrence = js ''{\"protocolVersion\":1,\"runId\":\"run\",\"sequence\":\"1\",\"timestamp\":\"2024-01-01T00:00:00Z\",\"event\":{\"type\":\"occurrence.started\",\"occurrenceId\":\"7\",\"code\":\"text\",\"intent\":\"i\",\"addressee\":\"model\",\"prompt\":\"p\"}}''"

definition waiting_pending :: jstr where
  "waiting_pending = js ''{\"protocolVersion\":1,\"runId\":\"run\",\"sequence\":\"2\",\"timestamp\":\"2024-01-01T00:00:00Z\",\"event\":{\"type\":\"occurrence.recovery-pending\",\"occurrenceId\":\"7\",\"gap\":\"g\",\"message\":\"m\",\"choices\":[{\"choice\":\"retry\"}]}}''"

definition waiting_lines :: "jstr list" where
  "waiting_lines = [stored_start, waiting_occurrence, waiting_pending]"

lemma waiting_json:
  "tryParseJson waiting_occurrence =
     Some (envelope 1 [(js ''type'', JStr (js ''occurrence.started'')), (js ''occurrenceId'', JStr [55]), (js ''code'', JStr (js ''text'')),
       (js ''intent'', JStr (js ''i'')), (js ''addressee'', JStr (js ''model'')), (js ''prompt'', JStr (js ''p''))])"
  "tryParseJson waiting_pending =
     Some (envelope 2 [(js ''type'', JStr (js ''occurrence.recovery-pending'')), (js ''occurrenceId'', JStr [55]), (js ''gap'', JStr (js ''g'')),
       (js ''message'', JStr (js ''m'')), (js ''choices'', JArr [JObj [(js ''choice'', JStr (js ''retry''))]])])"
  unfolding waiting_occurrence_def waiting_pending_def envelope_def by code_simp+

lemma waiting_events:
  "parsed_event waiting_occurrence = Inr (sample_event 1 ''occurrence.started'' [(''type'', JStr (js ''occurrence.started'')),
     (''occurrenceId'', JStr [55]), (''code'', JStr (js ''text'')), (''intent'', JStr (js ''i'')), (''addressee'', JStr (js ''model'')),
     (''prompt'', JStr (js ''p''))])"
  "parsed_event waiting_pending = Inr (sample_event 2 ''occurrence.recovery-pending'' [(''type'', JStr (js ''occurrence.recovery-pending'')),
     (''occurrenceId'', JStr [55]), (''gap'', JStr (js ''g'')), (''message'', JStr (js ''m'')),
     (''choices'', JArr [JObj [(js ''choice'', JStr (js ''retry''))]])])"
  by (simp_all add: parsed_event_def parsed_json_def json_parse_def waiting_json envelope_def one_double event_of_json_def sample_event_def)

lemma waiting_short: "list_all (\<lambda>l. list_all (\<lambda>u. u < 0x80 \<and> u \<noteq> 10) l \<and> l \<noteq> [] \<and> length l < 300) waiting_lines"
  unfolding waiting_lines_def stored_start_def waiting_occurrence_def waiting_pending_def by code_simp

lemma waiting_lines_ok: "list_all (\<lambda>l. one_line l \<and> l \<noteq> [] \<and> byteLength l \<le> MAX_FRAME) waiting_lines"
proof -
  have "byteLength l \<le> MAX_FRAME" if "list_all (\<lambda>u. u < 0x80 \<and> u \<noteq> (10 :: unit16)) l" "length l < 300" for l
    using that byteLength_ascii [of l] by (simp add: list_all_iff MAX_FRAME_def)
  with waiting_short show ?thesis by (auto simp: list_all_iff)
qed

lemma waiting_replay: "replay_lines plain_platform (initialSnapshot (js ''run'')) waiting_lines = Inr sample_waiting"
  using waiting_lines_ok unfolding waiting_lines_def replay_lines.simps journal_line_def
  by (simp add: check_def stored_events waiting_events)
     (simp add: initialSnapshot_def sample_run sample_field sample_type headed_def sample_waiting_def sample_running_def
      sample_defs newOccurrence_def recovery_pending_def recoveryChoice_def asRecord_def optional_string_def
      MAX_OPTIONS_def sample_recovery_def sample_retry_def)

definition owned_waiting :: owned_run where
  "owned_waiting = consume plain_platform (ended waiting_lines) owned_started"

lemma owned_waiting_is:
  "or_snapshot owned_waiting = sample_waiting \<and> known owned_waiting = {} \<and> \<not> or_terminal owned_waiting"
proof -
  have "replay_lines plain_platform (or_snapshot owned_started) waiting_lines = Inr sample_waiting"
    by (simp add: owned_snapshot waiting_replay)
  from consume_lines_ended [OF this waiting_lines_ok]
  have c: "or_snapshot r' = sample_waiting \<and> known r' = {} \<and> \<not> or_terminal r'"
    if "r' = consume_lines plain_platform (ended waiting_lines) owned_started" for r'
    using that by (simp add: owned_started_def newRun_def Let_def known_def)
  have "length (ended waiting_lines) \<le> MAX_FRAME * 2"
    using waiting_short by (simp add: waiting_lines_def MAX_FRAME_def)
  then have "owned_waiting = consume_lines plain_platform (ended waiting_lines) owned_started"
    by (simp add: owned_waiting_def consume_def owned_started_def newRun_def)
  then show ?thesis by (rule c)
qed

lemma owned_waiting_reached: "run_steps plain_platform (newRun sample_prepared) owned_waiting"
proof -
  have "run_step plain_platform owned_started owned_waiting"
    unfolding owned_waiting_def by (rule step_chunk) (simp add: owned_started_def newRun_def)
  with owned_steps(1) show ?thesis by (rule steps_step)
qed

lemma waiting_live: "live_run owned_waiting"
  using owned_waiting_is by (simp add: live_run_def sample_waiting_def sample_running_def isTerminal_def)

text \<open>The retry is promised: whether it waits or was refused by the pipe, its identifier is known.\<close>

lemma send_known: "c \<in> known (sendControlAwait c v r)"
proof -
  have "c \<in> set (map fst (map_set c w ws))" for w and ws :: "(jstr, control_correlation) jsmap"
    by (simp add: keys_map_set del: set_map)
  then show ?thesis by (simp add: known_def sendControlAwait_def split: sum.split)
qed

definition owned_retried :: "owned_run result" where
  "owned_retried = retry (js ''u'') [55] owned_waiting"

lemma owned_retried_is: "\<exists>r. owned_retried = Inr r \<and> js ''retry-u'' \<in> known r
    \<and> run_steps plain_platform (newRun sample_prepared) r"
proof -
  have id: "recovery_name RetryChoice @ js ''-'' @ js ''u'' = js ''retry-u''" by (simp add: js_def)
  obtain v where v: "owned_retried = Inr (sendControlAwait (js ''retry-u'') v owned_waiting)"
    using owned_waiting_is waiting_live
    by (simp add: owned_retried_def retry_def recover_def check_def sample_waiting_def sample_recovery_def sample_retry_def
        newOccurrence_def Let_def id [simplified])
  have none: "known owned_waiting = {}" using owned_waiting_is by simp
  then have "run_step plain_platform owned_waiting (sendControlAwait (js ''retry-u'') v owned_waiting)"
    using v by (intro step_recover) (auto simp: fresh_uuid_def owned_retried_def retry_def)
  with owned_waiting_reached have "run_steps plain_platform (newRun sample_prepared) (sendControlAwait (js ''retry-u'') v owned_waiting)"
    by (rule steps_step)
  with v send_known show ?thesis by blast
qed

end
