(* ===== verification/DiagnosticLaws.thy ===== *)
theory DiagnosticLaws
  imports Diagnostics JournalLaws
begin

text \<open>
  The size of the diagnostic log: the bound that holds for every standard error, and one that reaches
  it. The bound is larger than \<^verbatim>\<open>MAX_STDERR_LOG\<close>: when the limit cuts a character, fewer bytes than
  allowed are kept before the truncation marker, the log stays below the limit, and the next output
  appends a second marker.
\<close>

lemma utf8_items_append: "list_all scalar_point ps \<Longrightarrow> utf8_items (utf8_points ps @ r) = map Some ps @ utf8_items r"
  by (induction ps) (auto simp: utf8_points_def utf8_items_point)

lemma replacement_unit: "units_of_point 0xFFFD = [0xFFFD]"
  by (simp add: units_of_point_def)

lemma replacement_last:
  assumes "list_all scalar_point (ps @ [q])" and "last (units_of_points (ps @ [q])) = 0xFFFD"
  shows "q = 0xFFFD"
proof (cases "q < 0x10000")
  case True
  then have "(of_nat q :: unit16) = 0xFFFD" using assms(2) by (simp add: units_of_point_def)
  then have "unat (of_nat q :: unit16) = 0xFFFD" by simp
  with True show ?thesis by (simp add: unat_of_nat)
next
  case False
  let ?m = "(q - 0x10000) mod 0x400"
  have "(of_nat (0xDC00 + ?m) :: unit16) = 0xFFFD"
    using assms(2) False by (simp add: units_of_point_def)
  then have "unat (of_nat (0xDC00 + ?m) :: unit16) = 0xFFFD" by simp
  moreover have m: "?m < 0x400" by simp
  then have "unat (of_nat (0xDC00 + ?m) :: unit16) = 0xDC00 + ?m" by (subst unat_of_nat) simp
  ultimately show ?thesis using m by linarith
qed

text \<open>The kept bytes are whole characters of the output, at most up to the limit.\<close>

lemma utf8Prefix_points:
  assumes "list_all scalar_point qs"
  shows "\<exists>ps p. utf8_points ps @ p = take maximum (utf8_points qs) \<and> (p = [] \<or> beginning p) \<and> list_all scalar_point ps
    \<and> (\<exists>rest. qs = ps @ rest)
    \<and> (utf8Prefix (utf8_points qs) maximum = utf8_points ps
       \<or> p = [] \<and> (\<exists>ps'. ps = ps' @ [0xFFFD] \<and> utf8Prefix (utf8_points qs) maximum = utf8_points ps'))"
proof -
  have "utf8_points qs = take maximum (utf8_points qs) @ drop maximum (utf8_points qs)" by simp
  from prefix_split [OF this assms] obtain ps p ps' where split: "qs = ps @ ps'"
    "take maximum (utf8_points qs) = utf8_points ps @ p" "p = [] \<or> beginning p" by blast
  have ps: "list_all scalar_point ps" using assms split(1) by simp
  let ?text = "utf8_to_string (take maximum (utf8_points qs))"
  show ?thesis
  proof (cases "p = []")
    case False
    then have "utf8_items p = [None]" using split(3) beginning_items by blast
    then have "?text = units_of_points ps @ [0xFFFD]"
      by (simp add: utf8_to_string_def split(2) utf8_items_append [OF ps] comp_def replacement_unit)
    then have "utf8Prefix (utf8_points qs) maximum = utf8_points ps"
      by (simp add: utf8Prefix_def encode_scalars [OF ps])
    with split ps show ?thesis by metis
  next
    case True
    then have text_eq: "?text = units_of_points ps" by (simp add: split(2) utf8_to_string_points [OF ps])
    show ?thesis
    proof (cases "ps \<noteq> [] \<and> last (units_of_points ps) = 0xFFFD")
      case True
      then obtain qs' q where q: "ps = qs' @ [q]" by (metis append_butlast_last_id)
      then have "q = 0xFFFD" using True replacement_last ps by metis
      moreover have "list_all scalar_point qs'" using ps q by simp
      ultimately have "utf8Prefix (utf8_points qs) maximum = utf8_points qs'"
        by (simp add: utf8Prefix_def text_eq q replacement_unit encode_scalars)
      then show ?thesis using split ps \<open>p = []\<close> q \<open>q = 0xFFFD\<close> by metis
    next
      case False
      then have "\<not> (units_of_points ps \<noteq> [] \<and> last (units_of_points ps) = 0xFFFD)" by auto
      then have "utf8Prefix (utf8_points qs) maximum = utf8_points ps"
        by (simp only: utf8Prefix_def Let_def text_eq if_False encode_scalars [OF ps])
      then show ?thesis using split ps \<open>p = []\<close> by metis
    qed
  qed
qed

lemma utf8Prefix_length: "length (utf8Prefix (utf8_encode s) maximum) \<le> maximum"
proof -
  from utf8Prefix_points [OF scalars [of s], of maximum, folded utf8_encode_def]
  obtain ps p where e: "utf8_points ps @ p = take maximum (utf8_encode s)"
    and r: "utf8Prefix (utf8_encode s) maximum = utf8_points ps
     \<or> p = [] \<and> (\<exists>ps'. ps = ps' @ [0xFFFD] \<and> utf8Prefix (utf8_encode s) maximum = utf8_points ps')"
    by (elim exE conjE) (rule that)
  have "length (utf8_points ps) \<le> maximum"
    using arg_cong [OF e, of length] by simp
  with r show ?thesis by (elim disjE conjE exE) (simp_all add: points_append)
qed

lemma marker_length: "length STDERR_TRUNCATION_MARKER = 48"
proof -
  have "list_all (\<lambda>u. u < 0x80) ([10] @ js ''[agent-cat stderr truncated at 10485760 bytes]'' @ [10])" by code_simp
  from byteLength_ascii [OF this] show ?thesis by (simp add: STDERR_TRUNCATION_MARKER_def byteLength_def)
qed

section \<open>The bound\<close>

definition log_inv :: "stderr_log \<Rightarrow> bool" where
  "log_inv l \<longleftrightarrow> sl_bytes l = length (sl_file l) \<and> sl_bytes l \<le> MAX_STDERR_LOG + 47"

lemma log_output_inv: "log_inv l \<Longrightarrow> sl_bytes l < MAX_STDERR_LOG \<Longrightarrow> log_inv (log_output (utf8_encode s) l)"
  using utf8Prefix_length [of s "MAX_STDERR_LOG - 48 - sl_bytes l"]
  by (auto simp: log_inv_def log_output_def Let_def marker_length MAX_STDERR_LOG_def)

lemma queueStderr_inv: "log_inv l \<Longrightarrow> log_inv (queueStderr secrets chunk final l)"
proof -
  assume l: "log_inv l"
  obtain lines pending dropping where d: "diagnostic_lines secrets (sl_dropping l) (sl_pending l @ chunk) = (lines, pending, dropping)"
    by (cases "diagnostic_lines secrets (sl_dropping l) (sl_pending l @ chunk)") auto
  have fields: "log_inv (l\<lparr>sl_pending := a, sl_dropping := b\<rparr>) = log_inv l"
    "sl_bytes (l\<lparr>sl_pending := a, sl_dropping := b\<rparr>) = sl_bytes l" for a b
    by (simp_all add: log_inv_def)
  show ?thesis
    using l by (auto simp: queueStderr_def d Let_def fields intro!: log_output_inv)
qed

fun queue_all :: "jstr list \<Rightarrow> stderr_log \<Rightarrow> jstr list \<Rightarrow> stderr_log" where
  "queue_all secrets l [] = l"
| "queue_all secrets l (c # cs) = queue_all secrets (queueStderr secrets c False l) cs"

lemma queue_all_inv: "log_inv l \<Longrightarrow> log_inv (queue_all secrets l cs)"
  by (induction cs arbitrary: l) (auto intro: queueStderr_inv)

section \<open>A standard error that exceeds the limit\<close>

text \<open>Lines of one character of two bytes: the limit falls inside one of these characters.\<close>

definition narrow :: "nat \<Rightarrow> jstr" where
  "narrow k = concat (replicate k [233, 10])"

lemma narrow_Suc: "narrow (Suc k) = 233 # 10 # narrow k"
  by (simp add: narrow_def)

lemma narrow_line: "redactDiagnostic [] [233] = [233]" "byteLength [233] \<le> MAX_STDERR_LINE"
  by code_simp (simp add: byteLength_points utf8_point_def utf8_scalar_def surrogate_point_def MAX_STDERR_LINE_def)

lemma narrow_lines: "diagnostic_lines [] False (narrow k) = (replicate k [233, 10], [], False)"
proof (induction k)
  case 0
  then show ?case by (simp add: narrow_def diagnostic_lines.simps byteLength_points MAX_STDERR_LINE_def)
next
  case (Suc k)
  then show ?case
    by (subst diagnostic_lines.simps) (use narrow_line in \<open>simp add: narrow_Suc Let_def not_less [symmetric]\<close>)
qed

lemma narrow_points: "code_points (narrow k) = concat (replicate k [233, 10])"
proof -
  have "list_all (\<lambda>u. u < 0xD800) (narrow k)" by (induction k) (simp_all add: narrow_def)
  then have "code_points (narrow k) = map unat (narrow k)" by (rule code_points_ascii)
  then show ?thesis by (simp add: narrow_def map_concat)
qed

lemma narrow_bytes: "utf8_encode (narrow k) = utf8_points (concat (replicate k [233, 10]))"
proof -
  have "map utf8_scalar (concat (replicate k [233, 10])) = concat (replicate k [233, 10])"
    by (simp add: map_concat utf8_scalar_def surrogate_point_def)
  then show ?thesis by (simp only: utf8_encode_def narrow_points)
qed

lemma narrow_prefix:
  "ps @ rest = concat (replicate k [233, 10]) \<Longrightarrow> length (utf8_points ps) mod 3 \<noteq> 1"
proof (induction k arbitrary: ps)
  case 0
  then show ?case by (simp add: utf8_points_def)
next
  case (Suc k)
  then consider "ps = []" | "ps = [233]" | qs where "ps = 233 # 10 # qs" "qs @ rest = concat (replicate k [233, 10])"
    by (cases ps; cases "tl ps") auto
  then show ?case
  proof cases
    case 3
    then have "length (utf8_points ps) = 3 + length (utf8_points qs)" by (simp add: utf8_points_def utf8_point_def)
    with Suc.IH [OF 3(2)] show ?thesis by simp
  qed (simp_all add: utf8_points_def utf8_point_def)
qed

lemma narrow_cut:
  assumes "n mod 3 = 1" and "n \<le> length (utf8_encode (narrow k))"
  shows "length (utf8Prefix (utf8_encode (narrow k)) n) < n \<and> n \<le> length (utf8Prefix (utf8_encode (narrow k)) n) + 3"
proof -
  have "list_all scalar_point (concat (replicate k [233, 10]))"
    by (simp add: list_all_iff scalar_point_def surrogate_point_def)
  from utf8Prefix_points [OF this, of n] obtain ps p rest where
    e: "utf8_points ps @ p = take n (utf8_points (concat (replicate k [233, 10])))" and p: "p = [] \<or> beginning p"
    and ps: "concat (replicate k [233, 10]) = ps @ rest"
    and r: "utf8Prefix (utf8_points (concat (replicate k [233, 10]))) n = utf8_points ps \<or> p = []"
    by blast
  have sum: "length (utf8_points ps) + length p = n"
    using arg_cong [OF e, of length] assms(2) by (simp add: narrow_bytes)
  have "p \<noteq> []" using sum assms(1) narrow_prefix [OF ps [symmetric]] by auto
  then show ?thesis
    using sum r p beginning_incomplete [of p] by (auto simp: narrow_bytes)
qed

lemma narrow_length: "length (utf8_encode (narrow k)) = 3 * k"
  by (induction k) (simp_all add: narrow_bytes utf8_points_def utf8_point_def)

lemma queue_narrow:
  assumes "sl_bytes l < MAX_STDERR_LOG" and "k \<noteq> 0" and "sl_pending l = []" and "\<not> sl_dropping l"
  shows "queueStderr [] (narrow k) False l = log_output (utf8_encode (narrow k)) l"
  using assms by (cases l) (simp add: queueStderr_def narrow_lines [unfolded narrow_def] narrow_def Let_def)

lemma log_exceeds: "\<exists>cs. sl_bytes (queue_all [] newLog cs) > MAX_STDERR_LOG"
proof -
  obtain k :: nat where k: "k = 4000000" by simp
  then have big: "MAX_STDERR_LOG < 3 * k" by (simp add: MAX_STDERR_LOG_def)
  let ?l = "queueStderr [] (narrow k) False newLog"
  define cut where "cut = length (utf8Prefix (utf8_encode (narrow k)) (MAX_STDERR_LOG - 48))"
  have cut: "cut < MAX_STDERR_LOG - 48" "MAX_STDERR_LOG - 48 \<le> cut + 3"
    using narrow_cut [of "MAX_STDERR_LOG - 48" k] big by (simp_all add: narrow_length cut_def MAX_STDERR_LOG_def)
  have l: "?l = log_output (utf8_encode (narrow k)) newLog"
    using k by (intro queue_narrow) (simp_all add: newLog_def MAX_STDERR_LOG_def)
  have bytes: "sl_bytes ?l = cut + 48"
    unfolding l using big
    by (simp add: log_output_def newLog_def Let_def marker_length narrow_length cut_def MAX_STDERR_LOG_def)
  have fields: "sl_pending ?l = []" "\<not> sl_dropping ?l"
    unfolding l by (simp_all add: log_output_def newLog_def Let_def)
  have "queueStderr [] (narrow 1) False ?l = log_output (utf8_encode (narrow 1)) ?l"
    using cut bytes fields by (intro queue_narrow) (simp_all add: MAX_STDERR_LOG_def)
  then have "sl_bytes (queue_all [] newLog [narrow k, narrow 1]) \<ge> cut + 48 + 48"
    using cut by (simp add: log_output_def Let_def bytes marker_length narrow_length)
  then show ?thesis using cut by (intro exI [of _ "[narrow k, narrow 1]"]) linarith
qed

end
