(* ===== verification/SuperviseProperties.thy ===== *)
theory SuperviseProperties
  imports SampleOwned DiagnosticLaws
begin

text \<open>
  The properties of owned runs, of their diagnostics and of what is restored after them. Runs are reached
  from the launch by steps in any order (\<open>run_steps\<close>).
\<close>

section \<open>Success\<close>

text \<open>
  C4: Equivalence of live and restored runs. When an owned run ends in another status than failed or cancelled,
  the lines that it mirrored reduce to exactly the snapshot that it reports; and the mirrored journal, read
  back in any chunks, is reduced to the same snapshot. The mirror is well-formed text without byte order
  mark, within the size limit of journals.
\<close>

theorem mirrored_journal_restores_the_run:
  assumes "run_steps env (newRun prepared) r" and "or_finished r = Some s"
    and "rs_status s \<noteq> RunFailed" and "rs_status s \<noteq> RunCancelled"
    and "well_formed (ended (or_mirror r))" and "take 1 (ended (or_mirror r)) \<noteq> [0xFEFF]"
    and "byteLength (ended (or_mirror r)) \<le> MAX_JOURNAL_FILE"
    and "concat chunks = utf8_encode (ended (or_mirror r))"
  shows "replay_lines env (initialSnapshot (lm_runId (pl_manifest prepared))) (or_mirror r) = Inr s
    \<and> map_sum id rj_snapshot (reduceJournal env sha256 path (lm_runId (pl_manifest prepared)) chunks) = Inr s"
proof -
  have ok: "run_ok env (lm_runId (pl_manifest prepared)) r"
    using assms(1) newRun_ok by (rule run_steps_ok)
  then have s: "or_snapshot r = s"
    using assms(2) by (auto simp: run_ok_def end_ok_def split: if_splits)
  then have "journaled env (lm_runId (pl_manifest prepared)) r"
    using ok assms(3,4) by (auto simp: run_ok_def reported_def stopped_def)
  then have j: "replay_lines env (initialSnapshot (lm_runId (pl_manifest prepared))) (or_mirror r) = Inr s"
    and lines: "list_all (\<lambda>l. one_line l \<and> byteLength l \<le> MAX_FRAME) (or_mirror r)"
    by (simp_all add: journaled_def s)
  have bom: "or_mirror r = [] \<or> hd (ended (or_mirror r)) \<noteq> 0xFEFF"
    using assms(6) by (cases "ended (or_mirror r)"; cases "or_mirror r") auto
  show ?thesis
    using j reduceJournal_lines [OF assms(5) lines bom assms(8,7), of env sha256 path] by simp
qed

lemma ended_ascii: "list_all (list_all (\<lambda>u. u < 0x80)) ls \<Longrightarrow> list_all (\<lambda>u. u < 0x80) (ended ls)"
  by (induction ls) auto

lemma stored_ascii: "list_all (\<lambda>u. u < 0x80) (ended stored_lines)"
  by (rule ended_ascii) (use stored_short in \<open>auto simp: stored_lines_def list_all_iff\<close>)

lemma stored_first: "take 1 (ended stored_lines) \<noteq> [0xFEFF]"
  by (simp add: stored_lines_def stored_start_def js_def)

lemma stored_total: "byteLength (ended stored_lines) \<le> MAX_JOURNAL_FILE"
  using byteLength_ascii [OF stored_ascii] stored_lengths by (simp add: stored_lines_def MAX_JOURNAL_FILE_def)

theorem mirrored_journal_restores_the_run_witness:
  "map_sum id rj_snapshot (reduceJournal plain_platform (\<lambda>_. []) (js ''/j'') (js ''run'')
     (map (\<lambda>b. [b]) (utf8_encode (ended stored_lines)))) = Inr stored_snapshot_end"
proof -
  let ?chunks = "map (\<lambda>b. [b]) (utf8_encode (ended stored_lines))"
  have m: "or_mirror owned_end = stored_lines" and f: "or_finished owned_end = Some stored_snapshot_end"
    using owned_end_is by simp_all
  have id: "lm_runId (pl_manifest sample_prepared) = js ''run''" by (simp add: sample_prepared_def manifest_sample_def)
  have "rs_status stored_snapshot_end \<noteq> RunFailed" "rs_status stored_snapshot_end \<noteq> RunCancelled"
    by (simp_all add: stored_snapshot_end_def)
  from mirrored_journal_restores_the_run [OF owned_end_reached f this, unfolded m id, of ?chunks "\<lambda>_. []" "js ''/j''"]
    ascii_well_formed [OF stored_ascii] stored_first stored_total
  show ?thesis by (simp add: concat_map_singleton)
qed

text \<open>
  C5: Safety of success. When closing a run reports success, the run recorded its trace, every occurrence
  completed or was reused, with no running attempt and no pending question, and its result artifact, if it
  has one, was verified against the reference of the event when the run was closed.
\<close>

theorem reported_success_is_complete:
  assumes "run_steps env (newRun prepared) r" and "\<not> or_terminal r"
    and "or_finished (closed h code signal r) = Some s" and "rs_status s = Succeeded"
  shows "rs_traceRecorded s \<and> set (rs_authoredOrder s) = set (map fst (rs_occurrences s))
    \<and> list_all (\<lambda>(_, x). (oc_state x = OccCompleted \<or> oc_state x = OccReused)
         \<and> \<not> anyAttemptRunning x \<and> \<not> oc_personPending x) (rs_occurrences s)
    \<and> (case rs_result s of None \<Rightarrow> True
       | Some reference \<Rightarrow> verifyResultArtifact (eh_artifacts h) (rs_runId s) reference (eh_result h) = Inr ())"
proof -
  let ?last = "closed h code signal r"
  have "run_steps env (newRun prepared) ?last" using assms(1) step_close by (rule steps_step)
  then have ok: "run_ok env (lm_runId (pl_manifest prepared)) ?last" using newRun_ok by (rule run_steps_ok)
  then have s: "or_snapshot ?last = s" using assms(3) by (auto simp: run_ok_def end_ok_def split: if_splits)
  then have "replay_lines env (initialSnapshot (lm_runId (pl_manifest prepared))) (or_mirror ?last) = Inr s"
    using ok assms(4) by (auto simp: run_ok_def reported_def stopped_def journaled_def)
  then have "from_journal env (lm_runId (pl_manifest prepared)) s" by (rule replay_lines_from)
  then have "snap_inv s" using initialSnapshot_inv replay_inv by (auto simp: from_journal_def)
  then have settled_all: "rs_traceRecorded s \<and> set (rs_authoredOrder s) = set (map fst (rs_occurrences s))
    \<and> list_all (\<lambda>(_, x). (oc_state x = OccCompleted \<or> oc_state x = OccReused)
         \<and> \<not> anyAttemptRunning x \<and> \<not> oc_personPending x) (rs_occurrences s)"
    using settled_success assms(4) by blast
  have "verify_end h s = Inr ()" using closed_verified [OF assms(2)] assms(4) s by blast
  with settled_all assms(4) show ?thesis by (simp add: verify_end_def split: option.splits)
qed

theorem reported_success_is_complete_witness:
  "rs_traceRecorded stored_snapshot_end \<and> set (rs_authoredOrder stored_snapshot_end) = {}"
proof -
  have "or_finished (closed sample_end_host (Some 0) None owned_read) = Some stored_snapshot_end" "rs_status stored_snapshot_end = Succeeded"
    using owned_end_is by (simp_all add: owned_end_def stored_snapshot_end_def)
  from reported_success_is_complete [OF owned_read_reached _ this] owned_read_is
  show ?thesis by (simp add: stored_snapshot_end_def)
qed

section \<open>Controls\<close>

lemma distinct_filter_one: "distinct xs \<Longrightarrow> c \<in> set xs \<Longrightarrow> length (filter (\<lambda>i. i = c) xs) = 1"
  by (induction xs) (auto simp: filter_empty_conv)

text \<open>
  C6: Liveness of controls. A control that was issued at any point of a run is settled exactly once by the time
  the run has finished: acknowledged, or rejected; no control waits any more.
\<close>

theorem controls_are_settled_once:
  assumes "run_steps env (newRun prepared) r" and "c \<in> known r" and "run_steps env r r'" and "or_finished r' \<noteq> None"
  shows "length (filter (\<lambda>(i, _). i = c) (or_settled r')) = 1 \<and> or_waiters r' = []"
proof -
  have ok: "run_ok env (lm_runId (pl_manifest prepared)) r" using assms(1) newRun_ok by (rule run_steps_ok)
  then have once: "once r" by (simp add: run_ok_def)
  note r' = run_steps_promises [OF assms(3) once]
  have "end_ok r'" using run_steps_ok [OF assms(3) ok] by (simp add: run_ok_def)
  then have none: "or_waiters r' = []" using assms(4) by (auto simp: end_ok_def split: if_splits)
  have "c \<in># promises r'" using assms(2) r' by (auto simp: known_promises dest: mset_subset_eqD)
  then have "c \<in> set (map fst (or_settled r'))" "distinct (map fst (or_settled r'))"
    using none r' by (auto simp: promises_def once_distinct)
  then have "length (filter (\<lambda>i. i = c) (map fst (or_settled r'))) = 1"
    by (simp only: distinct_filter_one)
  then show ?thesis using none by (simp add: filter_map comp_def split_def)
qed

theorem controls_are_settled_once_witness:
  "case owned_retried of Inl _ \<Rightarrow> False
   | Inr r \<Rightarrow> length (filter (\<lambda>(i, _). i = js ''retry-u'') (or_settled (closed sample_end_host None None r))) = 1"
proof -
  obtain r where r: "owned_retried = Inr r" "js ''retry-u'' \<in> known r" "run_steps plain_platform (newRun sample_prepared) r"
    using owned_retried_is by blast
  let ?last = "closed sample_end_host None None r"
  have steps: "run_steps plain_platform r ?last" by (rule steps_step [OF steps_refl step_close])
  have "end_ok r" using run_steps_ok [OF r(3) newRun_ok] by (simp add: run_ok_def)
  then have "or_finished ?last \<noteq> None" by (cases "or_terminal r") (auto simp: end_ok_def closed_def Let_def)
  from controls_are_settled_once [OF r(3,2) steps this] show ?thesis unfolding r(1) sum.case by blast
qed

text \<open>
  C31: Safety of the pipe. Once a run is not live any more (closed, or its snapshot terminal), no step writes a
  control to the pipe, and the run never becomes live again.
\<close>

theorem nothing_is_sent_after_the_end:
  assumes "run_steps env r r'" and "\<not> live_run r"
  shows "or_sent r' = or_sent r \<and> \<not> live_run r'"
  using assms by (induction rule: run_steps.induct) (auto dest: run_step_silent)

theorem nothing_is_sent_after_the_end_witness: "or_sent owned_end = or_sent owned_read"
proof -
  have "run_steps plain_platform owned_read owned_end"
    unfolding owned_end_def by (rule steps_step [OF steps_refl step_close])
  moreover have "\<not> live_run owned_read"
    using owned_read_is by (simp add: live_run_def stored_snapshot_end_def isTerminal_def)
  ultimately show ?thesis using nothing_is_sent_after_the_end by blast
qed

section \<open>Diagnostics\<close>

text \<open>
  Bounds. Whatever a runner writes to standard error, and however it is chunked, the log holds at most
  47 bytes more than the limit of 10 MiB. The excess occurs: for some standard error the log is longer
  than the limit, because a cut character leaves room below it and a second marker is appended.
\<close>

theorem diagnostic_log_bound:
  "sl_bytes (queue_all secrets newLog chunks) = length (sl_file (queue_all secrets newLog chunks))
   \<and> sl_bytes (queue_all secrets newLog chunks) \<le> MAX_STDERR_LOG + 47
   \<and> (\<exists>chunks. MAX_STDERR_LOG < sl_bytes (queue_all [] newLog chunks))"
proof -
  have "log_inv newLog" by (simp add: log_inv_def newLog_def)
  from queue_all_inv [OF this, of secrets chunks] show ?thesis using log_exceeds by (simp add: log_inv_def)
qed

end
