(* ===== verification/RootRole.thy ===== *)
theory RootRole
  imports Journals
begin

text \<open>
  The role of a state root (\<^verbatim>\<open>root-role.ts\<close>): a directory with a manager marker, and every directory below
  it, is refused for local use. Paths are POSIX paths; \<open>dirname\<close>, \<open>basename\<close>, \<open>resolve\<close> and \<open>join\<close> are those of
  \<^verbatim>\<open>node:path\<close>, the last on a normal directory and a single component.
\<close>

section \<open>Paths\<close>

definition dirname :: "jstr \<Rightarrow> jstr" where
  "dirname path =
     (case path of
        [] \<Rightarrow> js ''.''
      | c # rest \<Rightarrow>
          (let r = dropWhile (\<lambda>u. u \<noteq> 47) (dropWhile (\<lambda>u. u = 47) (rev rest)) in
           if r = [] then (if c = 47 then js ''/'' else js ''.'')
           else if c = 47 \<and> tl r = [] then js ''//''
           else c # rev (tl r)))"

definition basename :: "jstr \<Rightarrow> jstr" where
  "basename path = rev (takeWhile (\<lambda>u. u \<noteq> 47) (dropWhile (\<lambda>u. u = 47) (rev path)))"

definition join_path :: "jstr \<Rightarrow> jstr \<Rightarrow> jstr" where
  "join_path directory name = (if directory = js ''/'' then js ''/'' @ name else path_in directory name)"

fun normal_components :: "jstr list \<Rightarrow> jstr list \<Rightarrow> jstr list" where
  "normal_components reached [] = reached"
| "normal_components reached (c # cs) =
     (if c = js ''.'' then normal_components reached cs
      else if c = js ''..'' then normal_components (butlast reached) cs
      else normal_components (reached @ [c]) cs)"

definition resolve_path :: "jstr \<Rightarrow> jstr \<Rightarrow> jstr" where
  "resolve_path cwd path =
     js ''/'' @ join (js ''/'') (normal_components [] (components (if isAbsolute path then path else path_in cwd path)))"

text \<open>A directory that is not its own parent is above its parent.\<close>

definition path_depth :: "jstr \<Rightarrow> nat" where
  "path_depth path = (if path = [] then 4 else if path = js ''.'' then 2 else 2 * length path + 1)"

lemma dirname_shorter: "dirname path \<noteq> path \<Longrightarrow> path_depth (dirname path) < path_depth path"
proof (cases path)
  case Nil
  then show ?thesis by (simp add: dirname_def path_depth_def js_def)
next
  case (Cons c rest)
  define r where "r = dropWhile (\<lambda>u. u \<noteq> 47) (dropWhile (\<lambda>u. u = 47) (rev rest))"
  have len: "length r \<le> length rest"
    using length_dropWhile_le [of "\<lambda>u. u \<noteq> 47" "dropWhile (\<lambda>u. u = 47) (rev rest)"]
      length_dropWhile_le [of "\<lambda>u. u = 47" "rev rest"] by (simp add: r_def)
  have single: "r = []" if "rest = [47]" using that by (simp add: r_def)
  have other: "r = []" if "rest = [u]" "u \<noteq> 47" for u using that by (simp add: r_def)
  have d: "dirname path = (if r = [] then (if c = 47 then [47] else [46])
      else if c = 47 \<and> tl r = [] then [47, 47] else c # rev (tl r))"
    unfolding Cons dirname_def list.case Let_def r_def [symmetric] js_def by simp
  assume ne: "dirname path \<noteq> path"
  consider "rest = []" | u where "rest = [u]" | "2 \<le> length rest"
    by (cases rest; cases "tl rest") auto
  then show ?thesis
  proof cases
    case 1
    then have "r = []" using len by simp
    then show ?thesis using ne d 1 by (auto simp: Cons path_depth_def js_def)
  next
    case (2 u)
    then have "r = []" using single other by blast
    then show ?thesis using d 2 by (auto simp: Cons path_depth_def js_def)
  next
    case 3
    then have "length (dirname path) < length path"
      using d len by (cases r) (auto simp: Cons)
    then show ?thesis using 3 by (auto simp: path_depth_def js_def Cons)
  qed
qed

section \<open>Markers\<close>

definition ROOT_ROLE_FILE :: jstr where "ROOT_ROLE_FILE = js ''.agentic-root-role.json''"
definition MANAGER_ROLE_MARKER :: jstr where "MANAGER_ROLE_MARKER = js ''{\"version\":1,\"role\":\"manager\"}'' @ [10]"
definition ROOT_ROLE_WALK_LIMIT :: nat where "ROOT_ROLE_WALK_LIMIT = 256"
definition MARKER_READ_LIMIT :: nat where "MARKER_READ_LIMIT = 256"

datatype root_role = Unmarked | ManagerRoot

definition marker_error :: "jstr \<Rightarrow> string \<Rightarrow> jstr" where
  "marker_error marker what = js ''state-root role marker '' @ marker @ js what"

definition readStateRootRole :: "store_fs \<Rightarrow> jstr \<Rightarrow> root_role result" where
  "readStateRootRole fs directory =
     (let marker = join_path directory ROOT_ROLE_FILE in
      case sf_lstat fs marker of
        Inl e \<Rightarrow> Inl (marker_error marker '' cannot be inspected: '' @ e)
      | Inr None \<Rightarrow> Inr Unmarked
      | Inr (Some kind) \<Rightarrow>
          thenE (check (kind \<noteq> Link) (marker_error marker '' is a symbolic link'')) (\<lambda>_.
          thenE (check (kind = RegularFile) (marker_error marker '' is not a regular file'')) (\<lambda>_.
          thenE (sf_read fs marker) (\<lambda>found.
            (case found of
               None \<Rightarrow> Inl (js ''ENOENT'')
             | Some chunks \<Rightarrow>
                 (let bytes = take (MARKER_READ_LIMIT + 1) (concat chunks) in
                  thenE (check (length bytes \<le> MARKER_READ_LIMIT) (marker_error marker '' is oversized'')) (\<lambda>_.
                  thenE (check (bytes = utf8_encode MANAGER_ROLE_MARKER)
                    (marker_error marker '' is not the version-1 manager marker'')) (\<lambda>_.
                    Inr ManagerRoot))))))))"

section \<open>The walk\<close>

text \<open>The path that exists is resolved; the components that do not exist yet are appended.\<close>

function canonicalPath :: "store_fs \<Rightarrow> jstr \<Rightarrow> jstr result" where
  "canonicalPath fs path =
     thenE (sf_realpath fs path) (\<lambda>found.
       (case found of
          Some resolved \<Rightarrow> Inr resolved
        | None \<Rightarrow>
            if dirname path = path then Inl (js ''ENOENT'')
            else thenE (canonicalPath fs (dirname path)) (\<lambda>parent. Inr (join_path parent (basename path)))))"
  by pat_completeness auto

termination canonicalPath
  by (relation "measure (\<lambda>(_, path). path_depth path)") (simp_all add: dirname_shorter)

declare canonicalPath.simps [simp del]

text \<open>\<open>left\<close> directories may still be read.\<close>

fun walk_roots :: "store_fs \<Rightarrow> jstr \<Rightarrow> jstr \<Rightarrow> nat \<Rightarrow> jstr \<Rightarrow> unit result" where
  "walk_roots fs stateDir origin 0 directory =
     Inl (js ''state directory '' @ stateDir @ js '' has more than '' @ dec ROOT_ROLE_WALK_LIMIT @ js '' ancestors'')"
| "walk_roots fs stateDir origin (Suc left) directory =
     thenE (readStateRootRole fs directory) (\<lambda>role.
       if role = ManagerRoot then
         Inl (js ''state directory '' @ stateDir
           @ (if directory = origin then js '' is a manager state root''
              else js '' lies beneath the manager state root '' @ directory)
           @ js ''; local restore and retention refuse'')
       else if dirname directory = directory then Inr ()
       else walk_roots fs stateDir origin left (dirname directory))"

definition assertLocalStateRoot :: "store_fs \<Rightarrow> jstr \<Rightarrow> jstr \<Rightarrow> unit result" where
  "assertLocalStateRoot fs cwd stateDir =
     thenE (canonicalPath fs (resolve_path cwd stateDir)) (\<lambda>origin.
       walk_roots fs stateDir origin ROOT_ROLE_WALK_LIMIT origin)"

section \<open>What the walk decides\<close>

text \<open>A directory and its ancestors up to the root.\<close>

function ancestors :: "jstr \<Rightarrow> jstr list" where
  "ancestors directory = (if dirname directory = directory then [directory] else directory # ancestors (dirname directory))"
  by pat_completeness auto

termination ancestors
  by (relation "measure path_depth") (simp_all add: dirname_shorter)

declare ancestors.simps [simp del]

lemma ancestors_ne: "ancestors d \<noteq> []"
  by (simp add: ancestors.simps [of d])

lemma walk_roots_Inr:
  "walk_roots fs stateDir origin left directory = Inr ()
    \<longleftrightarrow> length (ancestors directory) \<le> left \<and> list_all (\<lambda>a. readStateRootRole fs a = Inr Unmarked) (ancestors directory)"
proof (induction fs stateDir origin left directory rule: walk_roots.induct)
  case (1 fs stateDir origin directory)
  then show ?case using ancestors_ne [of directory] by simp
next
  case (2 fs stateDir origin left directory)
  show ?case
  proof (cases "readStateRootRole fs directory = Inr Unmarked")
    case True
    with "2.IH" [of Unmarked] show ?thesis by (simp add: ancestors.simps [of directory])
  next
    case False
    then have "walk_roots fs stateDir origin (Suc left) directory \<noteq> Inr ()"
      by (cases "readStateRootRole fs directory") (auto split: root_role.splits, (metis root_role.exhaust)+)
    with False show ?thesis by (simp add: ancestors.simps [of directory])
  qed
qed

lemma assertLocalStateRoot_Inr:
  "assertLocalStateRoot fs cwd stateDir = Inr () \<longleftrightarrow>
     (\<exists>origin. canonicalPath fs (resolve_path cwd stateDir) = Inr origin \<and> length (ancestors origin) \<le> ROOT_ROLE_WALK_LIMIT
        \<and> list_all (\<lambda>a. readStateRootRole fs a = Inr Unmarked) (ancestors origin))"
  by (auto simp: assertLocalStateRoot_def thenE_Inr walk_roots_Inr)

end
