(* ===== verification/RunStores.thy ===== *)
theory RunStores
  imports RootRole Supervise
begin

text \<open>
  The collection of runs (\<^verbatim>\<open>supervisor.ts\<close>, \<^verbatim>\<open>RunSupervisor\<close> and \<^verbatim>\<open>RestoredRun\<close>): the active runs, the
  history, and restoring a state directory with its retention policy. Times are milliseconds as exact
  rationals; \<^verbatim>\<open>Date.now\<close> gives one time during a restore.
\<close>

section \<open>Host\<close>

datatype signalled = Delivered | NotPermitted | NotDelivered

record supervisor_host = restore_host +
  sh_cwd :: jstr
  sh_entries :: "jstr \<Rightarrow> (jstr \<times> bool) list option result"
  sh_mtime :: "jstr \<Rightarrow> js_number result"
  sh_remove :: "jstr \<Rightarrow> unit result"
  sh_date :: "jstr \<Rightarrow> js_number"
  sh_iso :: "rat \<Rightarrow> jstr"
  sh_now :: rat
  sh_signal :: "int \<Rightarrow> signalled"

section \<open>Leases\<close>

definition LEASE_KEYS :: "jstr list" where
  "LEASE_KEYS = map js [''version'', ''ownerId'', ''pid'', ''heartbeat'']"

definition lease_live :: "supervisor_host \<Rightarrow> js_members \<Rightarrow> bool" where
  "lease_live h owner =
     (case (map_of owner (js ''version''), map_of owner (js ''ownerId''), map_of owner (js ''pid''), map_of owner (js ''heartbeat'')) of
        (Some (JNum version), Some (JStr ownerId), Some (JNum pid), Some (JStr heartbeat)) \<Rightarrow>
          version = js_int 1 \<and> ownerId \<noteq> []
          \<and> (case (safe_integer pid, sh_date h heartbeat) of
               (Some p, Finite beat) \<Rightarrow> 0 < p \<and> \<bar>sh_now h - beat\<bar> \<le> 10000 \<and> sh_signal h p \<noteq> NotDelivered
             | _ \<Rightarrow> False)
      | _ \<Rightarrow> False)"

definition ownerIsLive :: "supervisor_host \<Rightarrow> jstr \<Rightarrow> bool" where
  "ownerIsLive h storeDir =
     (case thenE (readTextBounded (rh_fs h) (path_in storeDir (js ''owner.json'')) MAX_METADATA_FILE) (\<lambda>found.
             (case found of
                None \<Rightarrow> Inl (js ''ENOENT'')
              | Some text \<Rightarrow>
                  thenE (parsed_json text) (\<lambda>v.
                  thenE (record_of (Some v) ''owner lease'') (\<lambda>owner.
                  thenE (onlyKeys owner LEASE_KEYS (js ''owner lease'')) (\<lambda>_.
                    Inr (lease_live h owner)))))) of
        Inl _ \<Rightarrow> False
      | Inr alive \<Rightarrow> alive)"

section \<open>Records of a state directory\<close>

record stored_run =
  sr_storeDir :: jstr
  sr_manifest :: launch_manifest
  sr_view :: run_view
  sr_created :: rat
  sr_ownerLive :: bool

fun failed_view :: "string \<Rightarrow> jstr \<Rightarrow> run_view \<Rightarrow> run_view" where
  "failed_view cls message (Reduced s) =
     Reduced (s\<lparr>rs_status := RunFailed, rs_failureClass := Some (js cls), rs_failure := Some message\<rparr>)"
| "failed_view cls message (Stored s) =
     Stored (s\<lparr>ss_status := RunFailed,
       ss_members := map_set (js ''failure'') (JStr message)
         (map_set (js ''failureClass'') (JStr (js cls))
           (map_set (js ''status'') (JStr (status_name RunFailed)) (ss_members s)))\<rparr>)"

definition corrupt_view :: "jstr \<Rightarrow> jstr \<Rightarrow> run_view" where
  "corrupt_view runId failure = failed_view ''corrupt-store'' failure (Reduced (initialSnapshot runId))"

definition storeTimestamp :: "supervisor_host \<Rightarrow> jstr \<Rightarrow> rat" where
  "storeTimestamp h storeDir = (case sh_mtime h storeDir of Inr (Finite created) \<Rightarrow> created | _ \<Rightarrow> sh_now h)"

definition corruptLaunchManifest :: "supervisor_host \<Rightarrow> jstr \<Rightarrow> jstr \<Rightarrow> rat \<Rightarrow> launch_manifest" where
  "corruptLaunchManifest h runId storeDir created =
     \<lparr>lm_versioned = False, lm_runId = runId, lm_runnerId = js ''corrupt'', lm_runnerExecutable = None,
      lm_runnerVersion = None, lm_workflow = js ''unknown'', lm_cwd = storeDir, lm_targetKind = Scripted,
      lm_targetArgs = [], lm_inputHashes = [], lm_programHash = [], lm_createdAt = sh_iso h created,
      lm_parentRunId = None, lm_lineage = None, lm_lineageEdits = None, lm_persona = None, lm_policyDigest = None,
      lm_personAnswering = None, lm_ownerId = None, lm_runtimeStore = False\<rparr>"

definition corruptRestoreRecord :: "supervisor_host \<Rightarrow> jstr \<Rightarrow> jstr \<Rightarrow> jstr \<Rightarrow> stored_run" where
  "corruptRestoreRecord h storeDir runId failure =
     (let created = storeTimestamp h storeDir in
      \<lparr>sr_storeDir = storeDir, sr_manifest = corruptLaunchManifest h runId storeDir created,
       sr_view = corrupt_view runId failure, sr_created = created, sr_ownerLive = False\<rparr>)"

definition read_manifest :: "jstr \<Rightarrow> jstr \<Rightarrow> launch_manifest result" where
  "read_manifest name text_in =
     thenE (parsed_json text_in) (\<lambda>v.
     thenE (parseLaunchManifest v) (\<lambda>m.
     thenE (check (lm_runId m = name) (js ''frontend manifest run id does not match its directory'')) (\<lambda>_.
       Inr m)))"

definition restored_record :: "supervisor_host \<Rightarrow> jstr \<Rightarrow> launch_manifest \<Rightarrow> stored_run" where
  "restored_record h storeDir m =
     (case sh_date h (lm_createdAt m) of
        Finite created \<Rightarrow>
          (let alive = ownerIsLive h storeDir in
           \<lparr>sr_storeDir = storeDir, sr_manifest = m,
            sr_view = (case restoreSnapshot (restore_host.truncate h) storeDir (lm_runId m) alive of
                         Inr v \<Rightarrow> v | Inl failure \<Rightarrow> corrupt_view (lm_runId m) failure),
            sr_created = created, sr_ownerLive = alive\<rparr>)
      | _ \<Rightarrow>
          \<lparr>sr_storeDir = storeDir, sr_manifest = m,
           sr_view = corrupt_view (lm_runId m) (js ''run '' @ lm_runId m @ js '' has an invalid createdAt''),
           sr_created = storeTimestamp h storeDir, sr_ownerLive = False\<rparr>)"

definition MANIFEST_FILE :: jstr where "MANIFEST_FILE = js ''supervisor-manifest.json''"

text \<open>\<open>None\<close> for a directory without a manifest.\<close>

definition restore_entry :: "supervisor_host \<Rightarrow> jstr \<Rightarrow> jstr \<Rightarrow> stored_run option" where
  "restore_entry h runs_dir name =
     (let storeDir = path_in runs_dir name in
      case readTextBounded (rh_fs h) (path_in storeDir MANIFEST_FILE) MAX_METADATA_FILE of
        Inr None \<Rightarrow> None
      | Inl e \<Rightarrow> Some (corruptRestoreRecord h storeDir name (js ''supervisor manifest cannot be read: '' @ e))
      | Inr (Some text) \<Rightarrow>
          (case read_manifest name text of
             Inl e \<Rightarrow> Some (corruptRestoreRecord h storeDir name (js ''supervisor manifest is corrupt: '' @ e))
           | Inr m \<Rightarrow> Some (restored_record h storeDir m)))"

section \<open>Retention\<close>

text \<open>Older than the cutoff; zero days keep every run.\<close>

definition older :: "supervisor_host \<Rightarrow> retention \<Rightarrow> rat \<Rightarrow> bool" where
  "older h policy created \<longleftrightarrow> rt_days policy \<noteq> 0 \<and> created < sh_now h - of_int (rt_days policy) * 86400000"

text \<open>A directory without a manifest that was left behind.\<close>

definition abandoned :: "supervisor_host \<Rightarrow> retention \<Rightarrow> jstr \<Rightarrow> jstr \<Rightarrow> bool" where
  "abandoned h policy runs_dir name \<longleftrightarrow>
     restore_entry h runs_dir name = None \<and> rt_days policy > 0
     \<and> (case sh_mtime h (path_in runs_dir name) of Inr (Finite t) \<Rightarrow> older h policy t | _ \<Rightarrow> False)"

definition run_of :: "stored_run \<Rightarrow> jstr" where
  "run_of r = lm_runId (sr_manifest r)"

definition parents_of :: "stored_run list \<Rightarrow> jstr list" where
  "parents_of rs = concat (map (\<lambda>r. case lm_parentRunId (sr_manifest r) of
       Some p \<Rightarrow> if p \<noteq> [] then [p] else [] | None \<Rightarrow> []) rs)"

definition isPrunable :: "stored_run \<Rightarrow> jstr list \<Rightarrow> bool" where
  "isPrunable r parents \<longleftrightarrow>
     view_status (sr_view r) \<noteq> Orphaned \<and> isTerminal (view_status (sr_view r)) \<and> run_of r \<notin> set parents"

fun prune_aged :: "(stored_run \<Rightarrow> bool) \<Rightarrow> jstr list \<Rightarrow> stored_run list \<Rightarrow> jstr list" where
  "prune_aged goes gone [] = gone"
| "prune_aged goes gone (r # rs) = prune_aged goes (if goes r then List.insert (run_of r) gone else gone) rs"

fun prune_excess :: "int \<Rightarrow> int \<Rightarrow> (stored_run \<Rightarrow> bool) \<Rightarrow> jstr list \<Rightarrow> stored_run list \<Rightarrow> jstr list" where
  "prune_excess count_all limit goes gone [] = gone"
| "prune_excess count_all limit goes gone (r # rs) =
     (if count_all - int (length gone) \<le> limit then gone
      else prune_excess count_all limit goes (if goes r then List.insert (run_of r) gone else gone) rs)"

text \<open>The runs to remove, among the records in the order of their creation.\<close>

definition doomed :: "supervisor_host \<Rightarrow> retention \<Rightarrow> stored_run list \<Rightarrow> jstr list" where
  "doomed h policy rs =
     (let prunable = (\<lambda>r. isPrunable r (parents_of rs));
          aged = prune_aged (\<lambda>r. older h policy (sr_created r) \<and> prunable r) [] rs in
      if rt_maxRuns policy > 0 then prune_excess (int (length rs)) (rt_maxRuns policy) prunable aged rs else aged)"

section \<open>Runs and history\<close>

record restored_run =
  rr_manifest :: launch_manifest
  rr_storeDir :: jstr
  rr_view :: run_view
  rr_watching :: bool
  rr_finished :: "run_view option"

definition newRestored :: "stored_run \<Rightarrow> restored_run" where
  "newRestored r =
     (let watching = (sr_ownerLive r \<and> \<not> isTerminal (view_status (sr_view r))) in
      \<lparr>rr_manifest = sr_manifest r, rr_storeDir = sr_storeDir r, rr_view = sr_view r, rr_watching = watching,
       rr_finished = (if watching then None else Some (sr_view r))\<rparr>)"

text \<open>A promise is settled once.\<close>

definition resolve_once :: "run_view \<Rightarrow> restored_run \<Rightarrow> restored_run" where
  "resolve_once v r = (case rr_finished r of None \<Rightarrow> r\<lparr>rr_finished := Some v\<rparr> | Some _ \<Rightarrow> r)"

text \<open>A tick of the monitor of a run with another live owner.\<close>

definition refresh_run :: "supervisor_host \<Rightarrow> restored_run \<Rightarrow> restored_run" where
  "refresh_run h r =
     (let alive = ownerIsLive h (rr_storeDir r) in
      case restoreSnapshot (restore_host.truncate h) (rr_storeDir r) (lm_runId (rr_manifest r)) alive of
        Inl e \<Rightarrow>
          (let v = failed_view ''reattachment'' e (rr_view r) in resolve_once v (r\<lparr>rr_view := v, rr_watching := False\<rparr>))
      | Inr v \<Rightarrow>
          if isTerminal (view_status v) then resolve_once v (r\<lparr>rr_view := v, rr_watching := False\<rparr>)
          else r\<lparr>rr_view := v\<rparr>)"

definition disposeMonitor :: "restored_run \<Rightarrow> restored_run" where
  "disposeMonitor r = r\<lparr>rr_watching := False\<rparr>"

text \<open>Every control of a restored run is refused.\<close>

definition controlError :: "restored_run \<Rightarrow> jstr" where
  "controlError r =
     (if isTerminal (view_status (rr_view r)) then js ''restored run has no live control channel''
      else js ''run is controlled by another live supervisor'')"

datatype run_entry = OwnedEntry prepared_launch owned_run | RestoredEntry restored_run

fun entry_view :: "run_entry \<Rightarrow> run_view" where
  "entry_view (OwnedEntry _ r) = Reduced (or_snapshot r)"
| "entry_view (RestoredEntry r) = rr_view r"

record run_supervisor =
  sp_runs :: "(jstr, prepared_launch \<times> owned_run) jsmap"
  sp_history :: "(jstr, run_entry) jsmap"

definition newSupervisor :: run_supervisor where
  "newSupervisor = \<lparr>sp_runs = [], sp_history = []\<rparr>"

definition has_run :: "jstr \<Rightarrow> run_supervisor \<Rightarrow> bool" where
  "has_run runId sv \<longleftrightarrow> map_has (sp_runs sv) runId \<or> map_has (sp_history sv) runId"

definition start_run :: "prepared_launch \<Rightarrow> run_supervisor \<Rightarrow> run_supervisor result" where
  "start_run prepared sv =
     (let runId = lm_runId (pl_manifest prepared) in
      thenE (check (\<not> has_run runId sv) (js ''duplicate run '' @ runId)) (\<lambda>_.
      thenE (started (newRun prepared)) (\<lambda>r.
        Inr (sv\<lparr>sp_runs := map_set runId (prepared, r) (sp_runs sv)\<rparr>))))"

definition MAX_HISTORY_RUNS :: nat where "MAX_HISTORY_RUNS = 100"

definition evict :: "(jstr, run_entry) jsmap \<Rightarrow> (jstr, run_entry) jsmap" where
  "evict history = drop (length history - MAX_HISTORY_RUNS) history"

text \<open>An active run changes; when it is closed it moves to the history.\<close>

definition update_run :: "(owned_run \<Rightarrow> owned_run) \<Rightarrow> jstr \<Rightarrow> run_supervisor \<Rightarrow> run_supervisor" where
  "update_run f runId sv =
     (case map_of (sp_runs sv) runId of
        None \<Rightarrow> sv
      | Some (prepared, r) \<Rightarrow> sv\<lparr>sp_runs := map_set runId (prepared, f r) (sp_runs sv)\<rparr>)"

definition close_run :: "end_host \<Rightarrow> int option \<Rightarrow> jstr option \<Rightarrow> jstr \<Rightarrow> run_supervisor \<Rightarrow> run_supervisor" where
  "close_run h code signal runId sv =
     (case map_of (sp_runs sv) runId of
        None \<Rightarrow> sv
      | Some (prepared, r) \<Rightarrow>
          sv\<lparr>sp_runs := AList.delete runId (sp_runs sv),
              sp_history := evict (map_set runId (OwnedEntry prepared (closed h code signal r)) (sp_history sv))\<rparr>)"

definition get_run :: "jstr \<Rightarrow> run_supervisor \<Rightarrow> run_entry option" where
  "get_run runId sv =
     (case map_of (sp_runs sv) runId of
        Some (prepared, r) \<Rightarrow> Some (OwnedEntry prepared r)
      | None \<Rightarrow> map_of (sp_history sv) runId)"

definition activeSnapshots :: "run_supervisor \<Rightarrow> run_snapshot list" where
  "activeSnapshots sv = filter (\<lambda>s. \<not> isTerminal (rs_status s)) (map (\<lambda>(_, _, r). or_snapshot r) (sp_runs sv))"

definition snapshots :: "run_supervisor \<Rightarrow> run_view list" where
  "snapshots sv =
     map (\<lambda>(_, e). entry_view e) (sp_history sv) @ map (\<lambda>(_, _, r). Reduced (or_snapshot r)) (sp_runs sv)"

definition shutdown :: "(jstr \<Rightarrow> jstr) \<Rightarrow> run_supervisor \<Rightarrow> run_supervisor" where
  "shutdown now sv =
     sv\<lparr>sp_history := map (\<lambda>(runId, e). (runId, case e of RestoredEntry r \<Rightarrow> RestoredEntry (disposeMonitor r) | _ \<Rightarrow> e)) (sp_history sv),
         sp_runs := map (\<lambda>(runId, prepared, r). (runId, prepared, cancel (now runId) r)) (sp_runs sv)\<rparr>"

section \<open>Restoring\<close>

text \<open>
  The records that are not removed enter the history; the directories whose removal was asked for are
  listed. A failing removal ends the restore, except for an abandoned directory.
\<close>

fun settle_records ::
  "supervisor_host \<Rightarrow> jstr list \<Rightarrow> jstr list \<Rightarrow> run_supervisor \<Rightarrow> stored_run list \<Rightarrow> unit result \<times> run_supervisor \<times> jstr list" where
  "settle_records h gone removed sv [] = (Inr (), sv, removed)"
| "settle_records h gone removed sv (r # rs) =
     (if run_of r \<in> set gone then
        (case sh_remove h (sr_storeDir r) of
           Inl e \<Rightarrow> (Inl e, sv, removed)
         | Inr _ \<Rightarrow> settle_records h gone (removed @ [sr_storeDir r]) sv rs)
      else if has_run (run_of r) sv then settle_records h gone removed sv rs
      else settle_records h gone removed
             (sv\<lparr>sp_history := map_set (run_of r) (RestoredEntry (newRestored r)) (sp_history sv)\<rparr>) rs)"

definition stored_records :: "supervisor_host \<Rightarrow> jstr \<Rightarrow> jstr list \<Rightarrow> stored_run list" where
  "stored_records h runs_dir names = sort_key sr_created (List.map_filter (restore_entry h runs_dir) names)"

definition restore ::
  "supervisor_host \<Rightarrow> jstr \<Rightarrow> retention \<Rightarrow> run_supervisor \<Rightarrow> unit result \<times> run_supervisor \<times> jstr list" where
  "restore h stateDir policy sv =
     (let runs_dir = path_in stateDir (js ''runs'') in
      case thenE (assertLocalStateRoot (rh_fs h) (sh_cwd h) stateDir) (\<lambda>_. sh_entries h runs_dir) of
        Inl e \<Rightarrow> (Inl e, sv, [])
      | Inr None \<Rightarrow> (Inr (), sv, [])
      | Inr (Some entries) \<Rightarrow>
          (let names = map fst (filter snd entries);
               left = map (path_in runs_dir) (filter (abandoned h policy runs_dir) names);
               rs = stored_records h runs_dir names in
           settle_records h (doomed h policy rs) left sv rs))"

end
