(* ===== verification/RunStoreLaws.thy ===== *)
theory RunStoreLaws
  imports RunStores SuperviseLaws
begin

text \<open>What retention removes, what a restore keeps, and the invariant of the collection of runs.\<close>

section \<open>Retention\<close>

lemma prune_aged_set: "set (prune_aged goes gone rs) = set gone \<union> run_of ` set (filter goes rs)"
  by (induction goes gone rs rule: prune_aged.induct) auto

lemma prune_aged_distinct: "distinct gone \<Longrightarrow> distinct (prune_aged goes gone rs)"
  by (induction goes gone rs rule: prune_aged.induct) (auto simp: distinct_insert)

text \<open>The loop over the excess removes the prunable runs of a prefix, and stops at the limit.\<close>

lemma prune_excess_prefix:
  "\<exists>k \<le> length rs. set (prune_excess n limit goes gone rs) = set gone \<union> run_of ` set (filter goes (take k rs))
     \<and> (k = length rs \<or> n - int (length (prune_excess n limit goes gone rs)) \<le> limit)"
proof (induction n limit goes gone rs rule: prune_excess.induct)
  case (2 n limit goes gone r rs)
  show ?case
  proof (cases "n - int (length gone) \<le> limit")
    case True
    then show ?thesis by (intro exI [of _ 0]) simp
  next
    case False
    from 2 [OF this] obtain k where k: "k \<le> length rs"
      "set (prune_excess n limit goes gone (r # rs)) =
         set (if goes r then List.insert (run_of r) gone else gone) \<union> run_of ` set (filter goes (take k rs))"
      "k = length rs \<or> n - int (length (prune_excess n limit goes gone (r # rs))) \<le> limit"
      using False by auto
    then show ?thesis by (intro exI [of _ "Suc k"]) auto
  qed
qed simp

lemma prune_excess_count:
  "length gone < length (prune_excess n limit goes gone rs) \<Longrightarrow> limit \<le> n - int (length (prune_excess n limit goes gone rs))"
proof (induction n limit goes gone rs rule: prune_excess.induct)
  case (2 n limit goes gone r rs)
  let ?gone = "if goes r then List.insert (run_of r) gone else gone"
  have more: "\<not> n - int (length gone) \<le> limit" using "2.prems" by (auto split: if_splits)
  have "length (List.insert (run_of r) gone) \<le> Suc (length gone)" by (simp add: List.insert_def)
  then have here: "limit \<le> n - int (length ?gone)" using more by auto
  show ?case
  proof (cases "length ?gone < length (prune_excess n limit goes ?gone rs)")
    case True
    then show ?thesis using 2 more by auto
  next
    case False
    then have "length (prune_excess n limit goes ?gone rs) \<le> length ?gone" by simp
    then have "limit \<le> n - int (length (prune_excess n limit goes ?gone rs))" using here by linarith
    then show ?thesis using more by simp
  qed
qed simp

lemma prune_excess_distinct: "distinct gone \<Longrightarrow> distinct (prune_excess n limit goes gone rs)"
  by (induction n limit goes gone rs rule: prune_excess.induct) (auto simp: distinct_insert)

lemma prefix_sorted:
  assumes "sorted (map f rs)" and "x \<in> set (take k rs)" and "y \<in> set rs" and "y \<notin> set (take k rs)"
  shows "f x \<le> f y"
proof -
  have "y \<in> set (drop k rs)" using assms(3,4) by (metis Un_iff append_take_drop_id set_append)
  moreover have "sorted (map f (take k rs) @ map f (drop k rs))" using assms(1) by (simp flip: map_append)
  ultimately show ?thesis using assms(2) by (auto simp: sorted_append)
qed

definition lost_runs :: "supervisor_host \<Rightarrow> retention \<Rightarrow> stored_run list \<Rightarrow> stored_run list" where
  "lost_runs h policy rs = filter (\<lambda>r. run_of r \<in> set (doomed h policy rs)) rs"

definition kept_runs :: "supervisor_host \<Rightarrow> retention \<Rightarrow> stored_run list \<Rightarrow> stored_run list" where
  "kept_runs h policy rs = filter (\<lambda>r. run_of r \<notin> set (doomed h policy rs)) rs"

lemma unique_run: "distinct (map run_of rs) \<Longrightarrow> r \<in> set rs \<Longrightarrow> r' \<in> set rs \<Longrightarrow> run_of r = run_of r' \<Longrightarrow> r = r'"
  by (auto simp: distinct_map dest: inj_onD)

lemma distinct_runs_length: "distinct (map run_of rs) \<Longrightarrow> distinct gone \<Longrightarrow> set gone \<subseteq> run_of ` set rs \<Longrightarrow>
  length (filter (\<lambda>r. run_of r \<in> set gone) rs) = length gone"
proof -
  assume d: "distinct (map run_of rs)" "distinct gone" and sub: "set gone \<subseteq> run_of ` set rs"
  let ?in = "filter (\<lambda>r. run_of r \<in> set gone) rs"
  have "distinct (map run_of ?in)" using d(1) by (simp add: distinct_map inj_on_def)
  moreover have "set (map run_of ?in) = set gone" using sub by auto
  ultimately have "length (map run_of ?in) = length gone" using d(2) by (metis distinct_card)
  then show ?thesis by simp
qed

text \<open>The runs that are removed are prunable; they are the aged ones and, with a limit, those of a prefix.\<close>

lemma doomed_set:
  "\<exists>k \<le> length rs.
    set (doomed h policy rs) = run_of ` set (filter (\<lambda>r. older h policy (sr_created r) \<and> isPrunable r (parents_of rs)) rs)
        \<union> run_of ` set (filter (\<lambda>r. isPrunable r (parents_of rs)) (take k rs))
    \<and> (rt_maxRuns policy > 0 \<longrightarrow> k = length rs \<or> int (length rs) - int (length (doomed h policy rs)) \<le> rt_maxRuns policy)"
proof -
  let ?prunable = "\<lambda>r. isPrunable r (parents_of rs)"
  let ?aged = "prune_aged (\<lambda>r. older h policy (sr_created r) \<and> ?prunable r) [] rs"
  note aged = prune_aged_set [of "\<lambda>r. older h policy (sr_created r) \<and> ?prunable r" "[]" rs]
  show ?thesis
  proof (cases "rt_maxRuns policy > 0")
    case True
    then have d: "doomed h policy rs = prune_excess (int (length rs)) (rt_maxRuns policy) ?prunable ?aged rs"
      by (simp add: doomed_def Let_def)
    from prune_excess_prefix [of rs "int (length rs)" "rt_maxRuns policy" ?prunable ?aged]
    show ?thesis unfolding d [symmetric] aged by auto
  next
    case False
    then show ?thesis by (intro exI [of _ 0]) (simp add: doomed_def Let_def prune_aged_set)
  qed
qed

lemma doomed_prefix:
  assumes "distinct (map run_of rs)"
  obtains k where
    "\<And>r. r \<in> set rs \<Longrightarrow> run_of r \<in> set (doomed h policy rs) \<longleftrightarrow>
       isPrunable r (parents_of rs) \<and> (older h policy (sr_created r) \<or> r \<in> set (take k rs))"
    "rt_maxRuns policy > 0 \<Longrightarrow> set rs \<subseteq> set (take k rs) \<or> int (length rs) - int (length (doomed h policy rs)) \<le> rt_maxRuns policy"
proof -
  obtain k where d: "set (doomed h policy rs) = run_of ` set (filter (\<lambda>r. older h policy (sr_created r) \<and> isPrunable r (parents_of rs)) rs)
        \<union> run_of ` set (filter (\<lambda>r. isPrunable r (parents_of rs)) (take k rs))"
    and e: "rt_maxRuns policy > 0 \<longrightarrow> k = length rs \<or> int (length rs) - int (length (doomed h policy rs)) \<le> rt_maxRuns policy"
    using doomed_set by blast
  have "run_of r \<in> set (doomed h policy rs) \<longleftrightarrow>
       isPrunable r (parents_of rs) \<and> (older h policy (sr_created r) \<or> r \<in> set (take k rs))" if r: "r \<in> set rs" for r
  proof -
    have same: "r' = r" if "r' \<in> set rs" "run_of r = run_of r'" for r' using unique_run [OF assms r that] by simp
    show ?thesis
    proof
      assume "run_of r \<in> set (doomed h policy rs)"
      then obtain r' where "run_of r = run_of r'" "isPrunable r' (parents_of rs)"
        "older h policy (sr_created r') \<and> r' \<in> set rs \<or> r' \<in> set (take k rs)"
        unfolding d by auto
      moreover from this have "r' \<in> set rs" by (auto dest: in_set_takeD)
      ultimately show "isPrunable r (parents_of rs) \<and> (older h policy (sr_created r) \<or> r \<in> set (take k rs))"
        using same by metis
    next
      assume "isPrunable r (parents_of rs) \<and> (older h policy (sr_created r) \<or> r \<in> set (take k rs))"
      then show "run_of r \<in> set (doomed h policy rs)" unfolding d using r by auto
    qed
  qed
  then show thesis using e by (intro that [of k]) auto
qed

lemma doomed_subset: "set (doomed h policy rs) \<subseteq> run_of ` set rs"
proof -
  obtain k where "set (doomed h policy rs) = run_of ` set (filter (\<lambda>r. older h policy (sr_created r) \<and> isPrunable r (parents_of rs)) rs)
        \<union> run_of ` set (filter (\<lambda>r. isPrunable r (parents_of rs)) (take k rs))"
    using doomed_set by blast
  then show ?thesis by (auto dest: in_set_takeD)
qed

lemma doomed_distinct: "distinct (doomed h policy rs)"
  by (simp add: doomed_def Let_def prune_excess_distinct prune_aged_distinct)

lemma doomed_prunable:
  assumes "distinct (map run_of rs)" and "r \<in> set (lost_runs h policy rs)"
  shows "isPrunable r (parents_of rs)"
proof -
  obtain k where "\<And>r. r \<in> set rs \<Longrightarrow> run_of r \<in> set (doomed h policy rs) \<longleftrightarrow>
       isPrunable r (parents_of rs) \<and> (older h policy (sr_created r) \<or> r \<in> set (take k rs))"
    using doomed_prefix [OF assms(1)] by metis
  with assms(2) show ?thesis by (auto simp: lost_runs_def)
qed

lemma kept_young:
  assumes "distinct (map run_of rs)" and "s \<in> set (kept_runs h policy rs)" and "isPrunable s (parents_of rs)"
  shows "\<not> older h policy (sr_created s)"
proof -
  obtain k where "\<And>r. r \<in> set rs \<Longrightarrow> run_of r \<in> set (doomed h policy rs) \<longleftrightarrow>
       isPrunable r (parents_of rs) \<and> (older h policy (sr_created r) \<or> r \<in> set (take k rs))"
    using doomed_prefix [OF assms(1)] by metis
  with assms(2,3) show ?thesis by (auto simp: kept_runs_def)
qed

lemma lost_before_kept:
  assumes "sorted (map sr_created rs)" and "distinct (map run_of rs)" and r: "r \<in> set (lost_runs h policy rs)"
    and s: "s \<in> set (kept_runs h policy rs)" "isPrunable s (parents_of rs)"
  shows "sr_created r \<le> sr_created s"
proof -
  obtain k where k: "\<And>r. r \<in> set rs \<Longrightarrow> run_of r \<in> set (doomed h policy rs) \<longleftrightarrow>
       isPrunable r (parents_of rs) \<and> (older h policy (sr_created r) \<or> r \<in> set (take k rs))"
    using doomed_prefix [OF assms(2)] by metis
  have in_rs: "r \<in> set rs" "s \<in> set rs" using r s by (simp_all add: lost_runs_def kept_runs_def)
  have late: "s \<notin> set (take k rs)" "\<not> older h policy (sr_created s)"
    using k [OF in_rs(2)] s by (auto simp: kept_runs_def)
  consider "older h policy (sr_created r)" | "r \<in> set (take k rs)"
    using k [OF in_rs(1)] r by (auto simp: lost_runs_def)
  then show ?thesis
  proof cases
    case 1
    with late show ?thesis by (auto simp: older_def)
  next
    case 2
    from prefix_sorted [OF assms(1) this in_rs(2) late(1)] show ?thesis .
  qed
qed

lemma kept_count:
  assumes "distinct (map run_of rs)"
  shows "int (length (kept_runs h policy rs)) = int (length rs) - int (length (doomed h policy rs))"
  using distinct_runs_length [OF assms doomed_distinct doomed_subset [of h policy rs]]
    sum_length_filter_compl [of "\<lambda>r. run_of r \<in> set (doomed h policy rs)" rs]
  by (simp add: kept_runs_def)

lemma kept_within_limit:
  assumes "distinct (map run_of rs)" and "rt_maxRuns policy > 0"
    and s: "s \<in> set (kept_runs h policy rs)" "isPrunable s (parents_of rs)"
  shows "int (length (kept_runs h policy rs)) \<le> rt_maxRuns policy"
proof -
  obtain k where k: "\<And>r. r \<in> set rs \<Longrightarrow> run_of r \<in> set (doomed h policy rs) \<longleftrightarrow>
       isPrunable r (parents_of rs) \<and> (older h policy (sr_created r) \<or> r \<in> set (take k rs))"
    "set rs \<subseteq> set (take k rs) \<or> int (length rs) - int (length (doomed h policy rs)) \<le> rt_maxRuns policy"
    using doomed_prefix [OF assms(1), of h policy] assms(2) by metis
  have "s \<in> set rs" using s(1) by (simp add: kept_runs_def)
  then have "s \<notin> set (take k rs)" using k(1) s by (auto simp: kept_runs_def)
  then have "int (length rs) - int (length (doomed h policy rs)) \<le> rt_maxRuns policy" using k(2) \<open>s \<in> set rs\<close> by blast
  then show ?thesis unfolding kept_count [OF assms(1)] .
qed

lemma lost_only_for_cause:
  assumes "distinct (map run_of rs)" and "r \<in> set (lost_runs h policy rs)" and "\<not> older h policy (sr_created r)"
  shows "rt_maxRuns policy > 0 \<and> rt_maxRuns policy \<le> int (length (kept_runs h policy rs))"
proof -
  let ?goes = "\<lambda>r. older h policy (sr_created r) \<and> isPrunable r (parents_of rs)" and ?prunable = "\<lambda>r. isPrunable r (parents_of rs)"
  let ?aged = "prune_aged ?goes [] rs"
  have r: "r \<in> set rs" "run_of r \<in> set (doomed h policy rs)" using assms(2) by (simp_all add: lost_runs_def)
  have out: "run_of r \<notin> set ?aged"
  proof
    assume "run_of r \<in> set ?aged"
    then obtain r' where "r' \<in> set rs" "run_of r = run_of r'" "older h policy (sr_created r')" unfolding prune_aged_set by auto
    with unique_run [OF assms(1) r(1)] assms(3) show False by metis
  qed
  have pos: "rt_maxRuns policy > 0"
  proof (rule ccontr)
    assume "\<not> rt_maxRuns policy > 0"
    then have "doomed h policy rs = ?aged" by (simp only: doomed_def Let_def if_False)
    with out r(2) show False by simp
  qed
  then have d: "doomed h policy rs = prune_excess (int (length rs)) (rt_maxRuns policy) ?prunable ?aged rs"
    by (simp only: doomed_def Let_def if_True)
  have "set ?aged \<subseteq> set (doomed h policy rs)"
    using prune_excess_prefix [of rs "int (length rs)" "rt_maxRuns policy" ?prunable ?aged] unfolding d by blast
  then have "set ?aged \<subset> set (doomed h policy rs)" using out r(2) by blast
  then have "card (set ?aged) < card (set (doomed h policy rs))" by (simp add: psubset_card_mono)
  then have "length ?aged < length (doomed h policy rs)"
    by (simp only: distinct_card [OF doomed_distinct] distinct_card [OF prune_aged_distinct [OF distinct.simps(1) [THEN iffD2, OF TrueI]]])
  from prune_excess_count [of ?aged "int (length rs)" "rt_maxRuns policy" ?prunable rs, folded d, OF this]
  show ?thesis using pos unfolding kept_count [OF assms(1)] by blast
qed

section \<open>Records\<close>

lemma restore_entry_run: "restore_entry h runs_dir name = Some r \<Longrightarrow> run_of r = name \<and> sr_storeDir r = path_in runs_dir name"
  by (auto simp: restore_entry_def Let_def corruptRestoreRecord_def corruptLaunchManifest_def run_of_def read_manifest_def
      thenE_Inr restored_record_def split: sum.splits option.splits js_number.splits)

lemma stored_records_sorted: "sorted (map sr_created (stored_records h runs_dir names))"
  by (simp add: stored_records_def)

lemma stored_records_runs:
  assumes "distinct names"
  shows "distinct (map run_of (stored_records h runs_dir names))"
proof -
  have "distinct (map run_of (List.map_filter (restore_entry h runs_dir) names))
    \<and> set (map run_of (List.map_filter (restore_entry h runs_dir) names)) \<subseteq> set names"
    using assms
  proof (induction names)
    case (Cons n ns)
    then show ?case by (auto simp: List.map_filter_simps dest: restore_entry_run split: option.split)
  qed simp
  moreover have "mset (map run_of (stored_records h runs_dir names)) = mset (map run_of (List.map_filter (restore_entry h runs_dir) names))"
    by (simp add: stored_records_def)
  ultimately show ?thesis by (metis mset_eq_imp_distinct_iff)
qed

lemma stored_records_set: "set (stored_records h runs_dir names) = set (List.map_filter (restore_entry h runs_dir) names)"
  by (simp add: stored_records_def)

section \<open>What a restore changes\<close>

lemma settle_records_runs: "settle_records h gone removed sv rs = (res, sv', removed') \<Longrightarrow> sp_runs sv' = sp_runs sv"
  by (induction h gone removed sv rs rule: settle_records.induct) (auto split: if_splits sum.splits)

lemma settle_records_keeps:
  "settle_records h gone removed sv rs = (res, sv', removed') \<Longrightarrow> map_of (sp_history sv) i = Some e \<Longrightarrow> map_of (sp_history sv') i = Some e"
proof (induction h gone removed sv rs rule: settle_records.induct)
  case (2 h gone removed sv r rs)
  then show ?case
    by (cases "i = run_of r") (auto simp: map_of_map_set has_run_def split: if_splits sum.splits)
qed auto

lemma settle_records_removed:
  "settle_records h gone removed sv rs = (res, sv', removed') \<Longrightarrow>
   set removed' \<subseteq> set removed \<union> sr_storeDir ` set (filter (\<lambda>r. run_of r \<in> set gone) rs)"
proof (induction h gone removed sv rs rule: settle_records.induct)
  case (2 h gone removed sv r rs)
  then show ?case by (auto split: if_splits sum.splits)
qed auto

lemma settle_records_done:
  "settle_records h gone removed sv rs = (Inr (), sv', removed') \<Longrightarrow>
   set removed' = set removed \<union> sr_storeDir ` set (filter (\<lambda>r. run_of r \<in> set gone) rs)
   \<and> (\<forall>r \<in> set rs. run_of r \<notin> set gone \<longrightarrow> has_run (run_of r) sv')"
proof (induction h gone removed sv rs rule: settle_records.induct)
  case (2 h gone removed sv r rs)
  consider "run_of r \<in> set gone" | "run_of r \<notin> set gone" "has_run (run_of r) sv" | "run_of r \<notin> set gone" "\<not> has_run (run_of r) sv" by blast
  then show ?case
  proof cases
    case 1
    with 2 show ?thesis by (auto split: sum.splits)
  next
    case 2
    with "2.prems" have rest: "settle_records h gone removed sv rs = (Inr (), sv', removed')" by simp
    have "has_run (run_of r) sv'"
      using 2(2) settle_records_runs [OF rest] settle_records_keeps [OF rest] by (auto simp: has_run_def)
    with 2 "2.IH"(2) rest show ?thesis by auto
  next
    case 3
    let ?sv = "sv\<lparr>sp_history := map_set (run_of r) (RestoredEntry (newRestored r)) (sp_history sv)\<rparr>"
    from 3 "2.prems" have rest: "settle_records h gone removed ?sv rs = (Inr (), sv', removed')" by simp
    have "map_of (sp_history ?sv) (run_of r) = Some (RestoredEntry (newRestored r))" by (simp add: map_of_map_set)
    from settle_records_keeps [OF rest this] have "has_run (run_of r) sv'" by (simp add: has_run_def)
    with 3 "2.IH"(3) rest show ?thesis by auto
  qed
qed auto

section \<open>The collection of runs\<close>

text \<open>An active run may still end; a run in the history has ended, or another supervisor owns it.\<close>

fun entry_ok :: "platform \<Rightarrow> jstr \<times> run_entry \<Rightarrow> bool" where
  "entry_ok env (i, OwnedEntry p r) \<longleftrightarrow> or_terminal r \<and> run_ok env i r"
| "entry_ok env (i, RestoredEntry r) \<longleftrightarrow>
     lm_runId (rr_manifest r) = i \<and> (case rr_finished r of None \<Rightarrow> True | Some v \<Rightarrow> isTerminal (view_status v))"

definition active_ok :: "platform \<Rightarrow> jstr \<times> prepared_launch \<times> owned_run \<Rightarrow> bool" where
  "active_ok env x \<longleftrightarrow> (case x of (i, p, r) \<Rightarrow> \<not> or_terminal r \<and> run_ok env i r)"

definition sv_ok :: "platform \<Rightarrow> run_supervisor \<Rightarrow> bool" where
  "sv_ok env sv \<longleftrightarrow>
     distinct (map fst (sp_runs sv) @ map fst (sp_history sv))
     \<and> list_all (active_ok env) (sp_runs sv) \<and> list_all (entry_ok env) (sp_history sv)"

inductive sv_step :: "platform \<Rightarrow> run_supervisor \<Rightarrow> run_supervisor \<Rightarrow> bool" for env where
  sv_start: "start_run prepared sv = Inr sv' \<Longrightarrow> sv_step env sv sv'"
| sv_run: "map_of (sp_runs sv) i = Some (p, r) \<Longrightarrow> run_step env r r' \<Longrightarrow> \<not> or_terminal r' \<Longrightarrow>
    sv_step env sv (update_run (\<lambda>_. r') i sv)"
| sv_close: "sv_step env sv (close_run h code signal i sv)"
| sv_restore: "restore h stateDir policy sv = (res, sv', removed) \<Longrightarrow> sv_step env sv sv'"
| sv_refresh: "map_of (sp_history sv) i = Some (RestoredEntry r) \<Longrightarrow>
    sv_step env sv (sv\<lparr>sp_history := map_set i (RestoredEntry (refresh_run h r)) (sp_history sv)\<rparr>)"
| sv_shutdown: "sv_step env sv (shutdown now sv)"

inductive sv_steps :: "platform \<Rightarrow> run_supervisor \<Rightarrow> run_supervisor \<Rightarrow> bool" for env where
  sv_refl: "sv_steps env sv sv"
| sv_more: "sv_steps env sv sv1 \<Longrightarrow> sv_step env sv1 sv2 \<Longrightarrow> sv_steps env sv sv2"

lemma list_all_map_set: "list_all P m \<Longrightarrow> P (k, v) \<Longrightarrow> list_all P (map_set k v m)"
  by (induction m) (auto split: if_splits)

lemma list_all_map_of: "list_all P m \<Longrightarrow> map_of m k = Some v \<Longrightarrow> P (k, v)"
  by (auto simp: list_all_iff dest: map_of_SomeD)

lemma keys_known: "k \<in> set (map fst m) \<longleftrightarrow> map_has m k"
  by (simp add: map_of_eq_None_iff)

lemma list_all_delete: "list_all P m \<Longrightarrow> list_all P (AList.delete k m)"
  by (auto simp: list_all_iff AList.delete_eq)

lemma restored_terminal:
  "rr_finished (newRestored (restored_record h dir m)) = Some v \<Longrightarrow> isTerminal (view_status v)"
proof -
  have corrupt: "isTerminal (view_status (corrupt_view i e))" for i e by (simp add: corrupt_view_def isTerminal_def)
  assume "rr_finished (newRestored (restored_record h dir m)) = Some v"
  moreover have "isTerminal (view_status w)" if "restoreSnapshot (restore_host.truncate h) dir i False = Inr w" for i w
    using that by (cases rule: restore_cases) (auto simp: supervisor_terminal_def isTerminal_def orphan_terminal)
  ultimately show ?thesis
    using corrupt by (cases "ownerIsLive h dir")
      (auto simp: newRestored_def restored_record_def Let_def split: js_number.splits sum.splits if_splits)
qed

lemma newRestored_ok:
  assumes "restore_entry h runs_dir name = Some r"
  shows "entry_ok env (run_of r, RestoredEntry (newRestored r))"
proof -
  have "rr_finished (newRestored r) = Some v \<Longrightarrow> isTerminal (view_status v)" for v
  proof -
    assume f: "rr_finished (newRestored r) = Some v"
    from assms consider (corrupt) "\<exists>dir i e. r = corruptRestoreRecord h dir i e" | (stored) "\<exists>dir m. r = restored_record h dir m"
      unfolding restore_entry_def Let_def by (simp split: sum.splits option.splits) blast+
    then show ?thesis
    proof cases
      case corrupt
      then obtain dir i e where "r = corruptRestoreRecord h dir i e" by blast
      then have "rr_finished (newRestored r) = Some (corrupt_view i e)"
        by (simp add: newRestored_def corruptRestoreRecord_def Let_def)
      with f have "v = corrupt_view i e" by simp
      then show ?thesis by (simp add: corrupt_view_def isTerminal_def)
    next
      case stored
      with f restored_terminal show ?thesis by blast
    qed
  qed
  then have "case rr_finished (newRestored r) of None \<Rightarrow> True | Some v \<Rightarrow> isTerminal (view_status v)"
    by (cases "rr_finished (newRestored r)") simp_all
  moreover have "lm_runId (rr_manifest (newRestored r)) = run_of r" by (simp add: newRestored_def run_of_def Let_def)
  ultimately show ?thesis unfolding entry_ok.simps by blast
qed

lemma resolve_once_ok:
  "entry_ok env (i, RestoredEntry r) \<Longrightarrow> rr_manifest r' = rr_manifest r \<Longrightarrow> rr_finished r' = rr_finished r \<Longrightarrow>
   isTerminal (view_status v) \<Longrightarrow> entry_ok env (i, RestoredEntry (resolve_once v r'))"
  by (auto simp: resolve_once_def split: option.splits)

lemma failed_view_terminal: "isTerminal (view_status (failed_view c m v))"
  by (cases v) (simp_all add: isTerminal_def)

lemma refresh_run_ok:
  assumes "entry_ok env (i, RestoredEntry r)"
  shows "entry_ok env (i, RestoredEntry (refresh_run h r))"
proof (cases "restoreSnapshot (restore_host.truncate h) (rr_storeDir r) (lm_runId (rr_manifest r)) (ownerIsLive h (rr_storeDir r))")
  case (Inl e)
  then show ?thesis unfolding refresh_run_def Let_def
    by (simp only: sum.case) (rule resolve_once_ok [OF assms], simp_all add: failed_view_terminal)
next
  case (Inr v)
  show ?thesis
  proof (cases "isTerminal (view_status v)")
    case True
    with Inr show ?thesis unfolding refresh_run_def Let_def
      by (simp only: sum.case if_True) (rule resolve_once_ok [OF assms], simp_all)
  next
    case False
    with Inr assms show ?thesis by (simp add: refresh_run_def Let_def)
  qed
qed

lemma sv_history_new:
  "sv_ok env sv \<Longrightarrow> \<not> has_run i sv \<Longrightarrow> entry_ok env (i, e) \<Longrightarrow>
   sv_ok env (sv\<lparr>sp_history := map_set i e (sp_history sv)\<rparr>)"
  by (auto simp: sv_ok_def has_run_def map_set_new map_of_eq_None_iff)

lemma settle_records_ok:
  "settle_records h gone removed sv rs = (res, sv', removed') \<Longrightarrow> sv_ok env sv \<Longrightarrow>
   list_all (\<lambda>r. entry_ok env (run_of r, RestoredEntry (newRestored r))) rs \<Longrightarrow> sv_ok env sv'"
proof (induction h gone removed sv rs rule: settle_records.induct)
  case (2 h gone removed sv r rs)
  then show ?case using sv_history_new [of env sv "run_of r" "RestoredEntry (newRestored r)"]
    by (auto simp del: entry_ok.simps split: if_splits sum.splits)
qed auto

lemma restore_ok:
  assumes "restore h stateDir policy sv = (res, sv', removed)" and "sv_ok env sv"
  shows "sv_ok env sv'"
proof (cases "thenE (assertLocalStateRoot (rh_fs h) (sh_cwd h) stateDir) (\<lambda>_. sh_entries h (path_in stateDir (js ''runs'')))")
  case (Inl e)
  with assms show ?thesis by (simp add: restore_def Let_def)
next
  case (Inr found)
  show ?thesis
  proof (cases found)
    case None
    with Inr assms show ?thesis by (simp add: restore_def Let_def)
  next
    case (Some entries)
    let ?dir = "path_in stateDir (js ''runs'')" and ?names = "map fst (filter snd entries)"
    have "list_all (\<lambda>r. entry_ok env (run_of r, RestoredEntry (newRestored r))) (stored_records h ?dir ?names)"
      unfolding list_all_iff stored_records_set using newRestored_ok by (auto simp: List.map_filter_def simp del: entry_ok.simps)
    with Inr Some assms show ?thesis by (simp add: restore_def Let_def settle_records_ok)
  qed
qed

lemma start_run_ok: "start_run prepared sv = Inr sv' \<Longrightarrow> sv_ok env sv \<Longrightarrow> sv_ok env sv'"
proof -
  assume a: "start_run prepared sv = Inr sv'" and ok: "sv_ok env sv"
  let ?i = "lm_runId (pl_manifest prepared)"
  from a obtain r where new: "\<not> has_run ?i sv" and r: "started (newRun prepared) = Inr r"
    and sv': "sv' = sv\<lparr>sp_runs := map_set ?i (prepared, r) (sp_runs sv)\<rparr>"
    by (auto simp: start_run_def Let_def thenE_Inr)
  from r have "run_ok env ?i r" by (rule run_step_ok [OF step_start newRun_ok])
  moreover from r have "\<not> or_terminal r" by (auto simp: started_def newRun_def split: if_splits)
  ultimately have "active_ok env (?i, prepared, r)" by (simp add: active_ok_def)
  with new ok show ?thesis unfolding sv' by (auto simp: sv_ok_def has_run_def map_set_new map_of_eq_None_iff)
qed

lemma update_run_ok:
  assumes "sv_ok env sv" and "map_of (sp_runs sv) i = Some (p, r)" and "run_step env r r'" and "\<not> or_terminal r'"
  shows "sv_ok env (update_run (\<lambda>_. r') i sv)"
proof -
  have "active_ok env (i, p, r)" using assms(1,2) list_all_map_of [of "active_ok env" "sp_runs sv" i] by (simp add: sv_ok_def)
  then have "active_ok env (i, p, r')" using assms(3,4) run_step_ok by (auto simp: active_ok_def)
  moreover have "i \<in> set (map fst (sp_runs sv))" using assms(2) by (simp add: keys_known del: set_map)
  ultimately show ?thesis
    using assms(1,2) list_all_map_set [of "active_ok env" "sp_runs sv" i "(p, r')"]
    by (simp add: update_run_def sv_ok_def keys_map_set del: set_map)
qed

lemma distinct_drop_right: "distinct (xs @ ys) \<Longrightarrow> distinct (xs @ drop n ys)"
  by (auto dest: in_set_dropD)

lemma closed_or_terminal: "or_terminal (closed h code signal r)"
  by (simp add: closed_def Let_def)

lemma close_run_ok:
  assumes "sv_ok env sv"
  shows "sv_ok env (close_run h code signal i sv)"
proof (cases "map_of (sp_runs sv) i")
  case None
  with assms show ?thesis by (simp add: close_run_def)
next
  case (Some pr)
  obtain p r where pr: "pr = (p, r)" by force
  let ?r1 = "closed h code signal r" and ?runs = "AList.delete i (sp_runs sv)"
  have r: "\<not> or_terminal r" "run_ok env i r"
    using assms Some pr list_all_map_of [of "active_ok env" "sp_runs sv" i] by (auto simp: sv_ok_def active_ok_def)
  then have entry: "entry_ok env (i, OwnedEntry p ?r1)"
    using run_step_ok [OF step_close] closed_or_terminal by simp
  have new: "i \<in> set (map fst (sp_runs sv))" "i \<notin> set (map fst (sp_history sv))"
  proof -
    show "i \<in> set (map fst (sp_runs sv))" using Some by (simp only: keys_known) simp
    then show "i \<notin> set (map fst (sp_history sv))" using assms unfolding sv_ok_def distinct_append by blast
  qed
  then have h: "map_set i (OwnedEntry p ?r1) (sp_history sv) = sp_history sv @ [(i, OwnedEntry p ?r1)]"
    by (intro map_set_new) (simp add: map_of_eq_None_iff)
  have keys: "map fst ?runs = filter (\<lambda>k. k \<noteq> i) (map fst (sp_runs sv))" by (simp add: AList.delete_eq filter_map comp_def split_def eq_commute)
  have "distinct (map fst ?runs @ map fst (sp_history sv @ [(i, OwnedEntry p ?r1)]))"
    using assms new unfolding keys by (auto simp: sv_ok_def simp del: set_map)
  then have "distinct (map fst ?runs @ map fst (evict (sp_history sv @ [(i, OwnedEntry p ?r1)])))"
    unfolding evict_def drop_map [symmetric] by (rule distinct_drop_right)
  moreover have "list_all (entry_ok env) (evict (sp_history sv @ [(i, OwnedEntry p ?r1)]))"
    using assms entry by (auto simp: evict_def sv_ok_def list_all_iff simp del: entry_ok.simps dest!: in_set_dropD)
  moreover have "list_all (active_ok env) ?runs" using assms by (simp add: sv_ok_def list_all_delete)
  ultimately show ?thesis unfolding close_run_def Some pr option.case prod.case h by (simp add: sv_ok_def)
qed

lemma shutdown_ok:
  assumes "sv_ok env sv"
  shows "sv_ok env (shutdown now sv)"
proof -
  let ?run = "\<lambda>(i, p, r). (i, p, cancel (now i) r)"
  let ?entry = "\<lambda>(i, e). (i, case e of RestoredEntry r \<Rightarrow> RestoredEntry (disposeMonitor r) | _ \<Rightarrow> e)"
  have fields: "sp_runs (shutdown now sv) = map ?run (sp_runs sv)" "sp_history (shutdown now sv) = map ?entry (sp_history sv)"
    by (simp_all add: shutdown_def)
  have "run_ok env i (cancel (now i) r) \<and> or_terminal (cancel (now i) r) = or_terminal r" if "run_ok env i r" for i r
    using run_step_ok [OF step_cancel that, of "now i"] by (simp add: cancel_def Let_def)
  then have "list_all (active_ok env) (map ?run (sp_runs sv))"
    using assms by (auto simp: sv_ok_def list_all_iff active_ok_def)
  moreover have "entry_ok env (?entry x)" if "entry_ok env x" for x
    using that by (cases x; cases "snd x") (simp_all add: disposeMonitor_def)
  then have "list_all (entry_ok env) (map ?entry (sp_history sv))"
    using assms unfolding sv_ok_def list_all_iff by simp
  moreover have "map fst (map ?run (sp_runs sv)) = map fst (sp_runs sv)" "map fst (map ?entry (sp_history sv)) = map fst (sp_history sv)"
    by (simp_all add: comp_def split_def)
  ultimately show ?thesis using assms unfolding sv_ok_def fields by metis
qed

lemma sv_refresh_ok:
  assumes "sv_ok env sv" and "map_of (sp_history sv) i = Some (RestoredEntry r)"
  shows "sv_ok env (sv\<lparr>sp_history := map_set i (RestoredEntry (refresh_run h r)) (sp_history sv)\<rparr>)"
proof -
  have "entry_ok env (i, RestoredEntry r)" using assms list_all_map_of [of "entry_ok env" "sp_history sv" i] by (simp add: sv_ok_def)
  then have e: "entry_ok env (i, RestoredEntry (refresh_run h r))" by (rule refresh_run_ok)
  have "i \<in> set (map fst (sp_history sv))" using assms(2) by (simp only: keys_known) simp
  then show ?thesis
    using assms(1) list_all_map_set [of "entry_ok env" "sp_history sv" i, OF _ e] by (simp add: sv_ok_def keys_map_set del: set_map entry_ok.simps)
qed

lemma sv_step_ok: "sv_step env sv sv' \<Longrightarrow> sv_ok env sv \<Longrightarrow> sv_ok env sv'"
  by (induction rule: sv_step.induct) (blast intro: start_run_ok update_run_ok close_run_ok restore_ok sv_refresh_ok shutdown_ok)+

lemma sv_steps_ok: "sv_steps env sv sv' \<Longrightarrow> sv_ok env sv \<Longrightarrow> sv_ok env sv'"
  by (induction rule: sv_steps.induct) (blast intro: sv_step_ok)+

lemma newSupervisor_ok: "sv_ok env newSupervisor"
  by (simp add: sv_ok_def newSupervisor_def)

end
