(* ===== verification/StoreProperties.thy ===== *)
theory StoreProperties
  imports RunStoreLaws SampleOwned
begin

text \<open>The properties of state directories, of retention and of the collection of runs.\<close>

section \<open>A state directory to restore\<close>

text \<open>Two directories whose manifests cannot be read, the first older, and a policy that keeps one run.\<close>

definition unreadable_host :: supervisor_host where
  "unreadable_host =
     \<lparr>rh_env = plain_platform,
      rh_fs = \<lparr>sf_realpath = (\<lambda>path. Inr (Some path)), sf_lstat = (\<lambda>_. Inr None), sf_read = (\<lambda>_. Inl (js ''EACCES''))\<rparr>,
      rh_sha256 = (\<lambda>_. []), rh_number = (\<lambda>_. []), rh_difference = (\<lambda>_ _. []),
      sh_cwd = js ''/'', sh_entries = (\<lambda>_. Inr (Some [(js ''b'', True), (js ''a'', True), (js ''f'', False)])),
      sh_mtime = (\<lambda>path. Inr (Finite (if path = js ''/s/runs/a'' then 1 else 2))), sh_remove = (\<lambda>_. Inr ()),
      sh_date = (\<lambda>_. NotANumber), sh_iso = (\<lambda>_. []), sh_now = 3, sh_signal = (\<lambda>_. NotDelivered)\<rparr>"

definition keep_one :: retention where
  "keep_one = \<lparr>rt_days = 0, rt_maxRuns = 1\<rparr>"

abbreviation sample_dir :: jstr where
  "sample_dir \<equiv> js ''/s/runs''"

definition unreadable_record :: "jstr \<Rightarrow> stored_run" where
  "unreadable_record name =
     corruptRestoreRecord unreadable_host (path_in sample_dir name) name (js ''supervisor manifest cannot be read: EACCES'')"

lemma unreadable_entry: "restore_entry unreadable_host sample_dir name = Some (unreadable_record name)"
  by (simp add: restore_entry_def unreadable_record_def readTextBounded_def readBytesBounded_def unreadable_host_def thenM_def js_def)

lemma unreadable_created: "sr_created (unreadable_record (js ''a'')) = 1" "sr_created (unreadable_record (js ''b'')) = 2"
  by (simp_all add: unreadable_record_def corruptRestoreRecord_def storeTimestamp_def unreadable_host_def path_in_def js_def Let_def)

lemma unreadable_run: "run_of (unreadable_record name) = name" "sr_storeDir (unreadable_record name) = path_in sample_dir name"
  using restore_entry_run [OF unreadable_entry] by simp_all

lemma unreadable_view: "isTerminal (view_status (sr_view (unreadable_record name)))" "view_status (sr_view (unreadable_record name)) \<noteq> Orphaned"
  by (simp_all add: unreadable_record_def corruptRestoreRecord_def corrupt_view_def Let_def isTerminal_def)

lemma unreadable_records:
  "stored_records unreadable_host sample_dir [js ''b'', js ''a''] = [unreadable_record (js ''a''), unreadable_record (js ''b'')]"
  by (simp add: stored_records_def List.map_filter_simps unreadable_entry unreadable_created)

lemma unreadable_parents: "parents_of [unreadable_record (js ''a''), unreadable_record (js ''b'')] = []"
  by (simp add: parents_of_def unreadable_record_def corruptRestoreRecord_def corruptLaunchManifest_def Let_def)

lemma unreadable_doomed:
  "doomed unreadable_host keep_one [unreadable_record (js ''a''), unreadable_record (js ''b'')] = [js ''a'']"
  by (simp add: doomed_def Let_def keep_one_def older_def isPrunable_def unreadable_parents unreadable_run unreadable_view)

section \<open>State roots\<close>

text \<open>
  Equivalence of the walk. A state directory is accepted for local use exactly when its canonical path has
  at most 256 ancestors and neither it nor an ancestor has a marker; a marker that cannot be read refuses.
\<close>

theorem local_root_is_decided:
  "assertLocalStateRoot fs cwd stateDir = Inr () \<longleftrightarrow>
     (case canonicalPath fs (resolve_path cwd stateDir) of
        Inl _ \<Rightarrow> False
      | Inr origin \<Rightarrow> length (ancestors origin) \<le> 256
          \<and> list_all (\<lambda>a. readStateRootRole fs a = Inr Unmarked) (ancestors origin))"
  by (auto simp: assertLocalStateRoot_Inr ROOT_ROLE_WALK_LIMIT_def split: sum.splits)

section \<open>Retention\<close>

text \<open>
  C13: Function of retention. Of the records of a state directory, only runs that ended and that are not the
  parent of another are removed. No prunable run that is kept is too old, none is older than a removed one,
  and with a limit on their number a prunable run is kept only while the limit holds; a run that is not too
  old is removed only when at least as many as the limit are kept.
\<close>

theorem retention_is_exact:
  assumes "distinct names" and "rs = stored_records h runs_dir names"
  shows "(\<forall>r \<in> set (lost_runs h policy rs). isPrunable r (parents_of rs))
    \<and> (\<forall>s \<in> set (kept_runs h policy rs). isPrunable s (parents_of rs) \<longrightarrow>
         \<not> older h policy (sr_created s)
         \<and> (\<forall>r \<in> set (lost_runs h policy rs). sr_created r \<le> sr_created s)
         \<and> (0 < rt_maxRuns policy \<longrightarrow> int (length (kept_runs h policy rs)) \<le> rt_maxRuns policy))
    \<and> (\<forall>r \<in> set (lost_runs h policy rs). older h policy (sr_created r)
         \<or> 0 < rt_maxRuns policy \<and> rt_maxRuns policy \<le> int (length (kept_runs h policy rs)))"
proof -
  have order: "sorted (map sr_created rs)" "distinct (map run_of rs)"
    unfolding assms(2) using assms(1) by (simp_all add: stored_records_sorted stored_records_runs)
  show ?thesis
    using doomed_prunable [OF order(2)] kept_young [OF order(2)] lost_before_kept [OF order] kept_within_limit [OF order(2)]
      lost_only_for_cause [OF order(2)]
    by blast
qed

theorem retention_is_exact_witness:
  "lost_runs unreadable_host keep_one [unreadable_record (js ''a''), unreadable_record (js ''b'')] = [unreadable_record (js ''a'')]
   \<and> sr_created (unreadable_record (js ''a'')) \<le> sr_created (unreadable_record (js ''b''))"
proof -
  let ?rs = "[unreadable_record (js ''a''), unreadable_record (js ''b'')]"
  have lost: "lost_runs unreadable_host keep_one ?rs = [unreadable_record (js ''a'')]"
    and kept: "kept_runs unreadable_host keep_one ?rs = [unreadable_record (js ''b'')]"
    by (simp_all add: lost_runs_def kept_runs_def unreadable_doomed unreadable_run)
  have "isPrunable (unreadable_record (js ''b'')) (parents_of ?rs)"
    by (simp add: isPrunable_def unreadable_parents unreadable_view)
  with retention_is_exact [of "[js ''b'', js ''a'']", OF _ unreadable_records [symmetric], of keep_one] lost kept
  show ?thesis by simp
qed

text \<open>
  C14: Safety of restoring. Whatever the outcome of a restore, a directory is removed only if the state root is a
  local one, and the directory is an abandoned one or the store of a prunable run; and every run that
  was known before is still the same.
\<close>

theorem restore_removes_only_prunable:
  assumes "sh_entries h runs_dir = Inr (Some entries)" and "distinct (map fst entries)"
    and "runs_dir = path_in stateDir (js ''runs'')" and "rs = stored_records h runs_dir (map fst (filter snd entries))"
    and "restore h stateDir policy sv = (res, sv', removed)" and "directory \<in> set removed"
  shows "assertLocalStateRoot (rh_fs h) (sh_cwd h) stateDir = Inr ()
    \<and> (list_ex (\<lambda>name. directory = path_in runs_dir name \<and> abandoned h policy runs_dir name) (map fst (filter snd entries))
       \<or> list_ex (\<lambda>r. directory = sr_storeDir r \<and> isPrunable r (parents_of rs)) rs)
    \<and> sp_runs sv' = sp_runs sv
    \<and> (case map_of (sp_history sv) i of None \<Rightarrow> True | Some e \<Rightarrow> map_of (sp_history sv') i = Some e)"
proof -
  let ?names = "map fst (filter snd entries)"
  have local_root: "assertLocalStateRoot (rh_fs h) (sh_cwd h) stateDir = Inr ()"
    using assms(5,6) by (cases "assertLocalStateRoot (rh_fs h) (sh_cwd h) stateDir") (auto simp: restore_def Let_def)
  then have s: "settle_records h (doomed h policy rs) (map (path_in runs_dir) (filter (abandoned h policy runs_dir) ?names)) sv rs
      = (res, sv', removed)"
    using assms(1,5) by (simp add: restore_def Let_def assms(3,4))
  have "distinct ?names" using assms(2) by (simp add: distinct_map inj_on_def)
  then have "distinct (map run_of rs)" unfolding assms(4) by (rule stored_records_runs)
  from doomed_prunable [OF this] have prunable: "isPrunable r (parents_of rs)" if "r \<in> set rs" "run_of r \<in> set (doomed h policy rs)" for r
    using that by (auto simp: lost_runs_def)
  from settle_records_removed [OF s] assms(6)
  have "directory \<in> path_in runs_dir ` {name \<in> set ?names. abandoned h policy runs_dir name}
      \<union> sr_storeDir ` {r \<in> set rs. run_of r \<in> set (doomed h policy rs)}"
    by (auto simp only: set_map [of "path_in runs_dir"] set_filter [of "abandoned h policy runs_dir"] set_filter [of _ rs])
  with prunable have "list_ex (\<lambda>name. directory = path_in runs_dir name \<and> abandoned h policy runs_dir name) ?names
       \<or> list_ex (\<lambda>r. directory = sr_storeDir r \<and> isPrunable r (parents_of rs)) rs"
    unfolding list_ex_iff by blast
  moreover have "case map_of (sp_history sv) i of None \<Rightarrow> True | Some e \<Rightarrow> map_of (sp_history sv') i = Some e"
    using settle_records_keeps [OF s, of i] by (auto split: option.split)
  ultimately show ?thesis using local_root settle_records_runs [OF s] by blast
qed

lemma unreadable_root: "assertLocalStateRoot (rh_fs unreadable_host) (js ''/'') (js ''/s'') = Inr ()"
proof -
  have paths: "resolve_path (js ''/'') (js ''/s'') = js ''/s''" "ancestors (js ''/s'') = [js ''/s'', js ''/'']"
    by code_simp+
  have "canonicalPath (rh_fs unreadable_host) (js ''/s'') = Inr (js ''/s'')"
    by (subst canonicalPath.simps) (simp add: unreadable_host_def)
  moreover have "readStateRootRole (rh_fs unreadable_host) a = Inr Unmarked" for a
    by (simp add: readStateRootRole_def unreadable_host_def Let_def)
  ultimately show ?thesis by (simp add: assertLocalStateRoot_Inr paths ROOT_ROLE_WALK_LIMIT_def)
qed

lemma unreadable_restore:
  "\<exists>sv'. restore unreadable_host (js ''/s'') keep_one newSupervisor = (Inr (), sv', [path_in sample_dir (js ''a'')])"
proof -
  have dir: "path_in (js ''/s'') (js ''runs'') = sample_dir" by (simp add: path_in_def js_def)
  have "sh_cwd unreadable_host = js ''/''" "sh_entries unreadable_host d = Inr (Some [(js ''b'', True), (js ''a'', True), (js ''f'', False)])"
    "sh_remove unreadable_host d = Inr ()" for d
    by (simp_all add: unreadable_host_def)
  then show ?thesis
    by (simp add: restore_def Let_def unreadable_root dir unreadable_records unreadable_doomed unreadable_run abandoned_def unreadable_entry)
qed

theorem restore_removes_only_prunable_witness:
  "list_ex (\<lambda>r. path_in sample_dir (js ''a'') = sr_storeDir r \<and> isPrunable r [])
     [unreadable_record (js ''a''), unreadable_record (js ''b'')]"
proof -
  obtain sv' where r: "restore unreadable_host (js ''/s'') keep_one newSupervisor = (Inr (), sv', [path_in sample_dir (js ''a'')])"
    using unreadable_restore by blast
  let ?entries = "[(js ''b'', True), (js ''a'', True), (js ''f'', False)]"
  have e: "sh_entries unreadable_host sample_dir = Inr (Some ?entries)" "distinct (map fst ?entries)"
    "sample_dir = path_in (js ''/s'') (js ''runs'')"
    by (simp_all add: unreadable_host_def path_in_def js_def)
  have rs: "[unreadable_record (js ''a''), unreadable_record (js ''b'')]
      = stored_records unreadable_host sample_dir (map fst (filter snd ?entries))"
    by (simp add: unreadable_records)
  from restore_removes_only_prunable [OF e rs r, of "path_in sample_dir (js ''a'')"]
  show ?thesis by (simp add: unreadable_parents abandoned_def unreadable_entry)
qed

section \<open>Runs\<close>

text \<open>
  C15: Invariant of the collection of runs. However runs are started, stepped, closed and restored, each run is
  known once, as active or in the history; an active run has not finished; an owned run in the history
  finished with its snapshot, which is terminal; and a restored run that finished did so terminally.
\<close>

theorem runs_are_known_once:
  assumes "sv_steps env newSupervisor sv"
  shows "distinct (map fst (sp_runs sv) @ map fst (sp_history sv))
    \<and> list_all (\<lambda>(i, p, r). or_finished r = None) (sp_runs sv)
    \<and> list_all (\<lambda>(i, e). case e of
         OwnedEntry p r \<Rightarrow> or_finished r = Some (or_snapshot r) \<and> isTerminal (rs_status (or_snapshot r)) \<and> or_waiters r = []
       | RestoredEntry r \<Rightarrow> lm_runId (rr_manifest r) = i
           \<and> (case rr_finished r of None \<Rightarrow> True | Some v \<Rightarrow> isTerminal (view_status v))) (sp_history sv)"
proof -
  have ok: "sv_ok env sv" using assms newSupervisor_ok by (rule sv_steps_ok)
  have "or_finished r = None" if "active_ok env (i, p, r)" for i p r
    using that by (auto simp: active_ok_def run_ok_def end_ok_def)
  moreover have "case e of
         OwnedEntry p r \<Rightarrow> or_finished r = Some (or_snapshot r) \<and> isTerminal (rs_status (or_snapshot r)) \<and> or_waiters r = []
       | RestoredEntry r \<Rightarrow> lm_runId (rr_manifest r) = i
           \<and> (case rr_finished r of None \<Rightarrow> True | Some v \<Rightarrow> isTerminal (view_status v))" if "entry_ok env (i, e)" for i e
    using that by (cases e) (auto simp: run_ok_def end_ok_def)
  ultimately show ?thesis using ok unfolding sv_ok_def list_all_iff by fast
qed

theorem runs_are_known_once_witness:
  "case start_run sample_prepared newSupervisor of Inl _ \<Rightarrow> False
   | Inr sv \<Rightarrow> list_all (\<lambda>(i, e). case e of
         OwnedEntry p r \<Rightarrow> isTerminal (rs_status (or_snapshot r)) | RestoredEntry r \<Rightarrow> True)
       (sp_history (close_run sample_end_host None None (js ''run'') sv))"
proof -
  obtain sv where sv: "start_run sample_prepared newSupervisor = Inr sv"
    by (auto simp: start_run_def Let_def has_run_def newSupervisor_def check_def started_def newRun_def)
  have "sv_steps plain_platform newSupervisor (close_run sample_end_host None None (js ''run'') sv)"
    by (rule sv_more [OF sv_more [OF sv_refl sv_start [OF sv]] sv_close])
  from runs_are_known_once [OF this] show ?thesis unfolding sv sum.case list_all_iff by (auto split: run_entry.splits)
qed

end
