(* ===== verification/Transport.thy ===== *)
theory Transport
  imports Profile Refresh
begin

text \<open>
  The transport of a manager session (\<^verbatim>\<open>manager/transport.ts\<close>): idempotency keys, the requests, the checks of
  headers and bodies, downloads, the event stream, and the loop that follows events by stream and by
  polling. The network is an \<open>exchange\<close>: what a request meets, with the times at which the session may
  have been closed. Nothing else of the connection is visible to the code.
\<close>

section \<open>Constants\<close>

definition RESPONSE_BYTES :: nat where "RESPONSE_BYTES = 1048576"
definition COMMAND_BYTES :: nat where "COMMAND_BYTES = 2097152"
definition CAPTURE_POST_BYTES :: nat where "CAPTURE_POST_BYTES = 67108864"
definition ARTIFACT_BYTES :: nat where "ARTIFACT_BYTES = 67108864"
definition STREAM_FAILURE_LIMIT :: nat where "STREAM_FAILURE_LIMIT = 2"
definition HEADER_COUNT :: nat where "HEADER_COUNT = 100"
definition HEADER_BYTES :: nat where "HEADER_BYTES = 16384"

definition UNIQUE_HEADERS :: "jstr list" where
  "UNIQUE_HEADERS =
     map js [''content-type'', ''content-length'', ''transfer-encoding'', ''content-encoding'', ''etag'', ''location'',
       ''cache-control'', ''content-disposition'']"

section \<open>Idempotency keys\<close>

definition base64_unit :: "nat \<Rightarrow> unit16" where
  "base64_unit n = js ''ABCDEFGHIJKLMNOPQRSTUVWXYZabcdefghijklmnopqrstuvwxyz0123456789-_'' ! (n mod 64)"

text \<open>\<^verbatim>\<open>toString("base64url")\<close>, without padding.\<close>

fun base64url :: "u8 list \<Rightarrow> jstr" where
  "base64url [] = []"
| "base64url [a] = [base64_unit (unat a div 4), base64_unit (unat a * 16)]"
| "base64url [a, b] =
     [base64_unit (unat a div 4), base64_unit (unat a * 16 + unat b div 16), base64_unit (unat b * 4)]"
| "base64url (a # b # c # rest) =
     [base64_unit (unat a div 4), base64_unit (unat a * 16 + unat b div 16), base64_unit (unat b * 4 + unat c div 64),
      base64_unit (unat c)] @ base64url rest"

definition commandKey :: "u8 list \<Rightarrow> jstr \<Rightarrow> jstr outcome" where
  "commandKey random epoch =
     (if \<not> validId epoch \<or> length epoch > 105 then Inl (Fixed UnsupportedVersion)
      else Inr (epoch @ js ''.'' @ base64url random))"

definition validKey :: "jstr \<Rightarrow> bool" where
  "validKey key \<longleftrightarrow> 0 < length key \<and> length key \<le> 128 \<and> list_all (\<lambda>c. 0x21 \<le> c \<and> c \<le> 0x7e) key"

section \<open>Requests\<close>

record http_request =
  hr_method :: jstr
  hr_host :: jstr
  hr_port :: nat
  hr_path :: jstr
  hr_servername :: "jstr option"
  hr_headers :: "(jstr, jstr) jsmap"
  hr_body :: "u8 list option"

text \<open>\<open>ip\<close> is \<^verbatim>\<open>isIP(host) !== 0\<close>.\<close>

definition http_request_of ::
  "(jstr \<Rightarrow> bool) \<Rightarrow> client_profile \<Rightarrow> jstr \<Rightarrow> jstr \<Rightarrow> jstr \<Rightarrow> (jstr, jstr) jsmap \<Rightarrow> u8 list option \<Rightarrow> http_request" where
  "http_request_of ip profile bearer meth resource headers body =
     (let host = ce_host (cp_endpoint profile);
          base = map_set (js ''Connection'') (js ''close'')
                   (map_set (js ''Accept-Encoding'') (js ''identity'') (map_set (js ''Authorization'') bearer headers)) in
      \<lparr>hr_method = meth, hr_host = host, hr_port = ce_port (cp_endpoint profile), hr_path = resource,
       hr_servername = (if ip host then None else Some host),
       hr_headers = (case body of None \<Rightarrow> base | Some bytes \<Rightarrow> map_set (js ''Content-Length'') (dec (length bytes)) base),
       hr_body = body\<rparr>)"

section \<open>Headers of a response\<close>

definition header_name :: "jstr \<Rightarrow> jstr" where
  "header_name name = map ascii_lower name"

definition header_size :: "(jstr \<times> jstr) list \<Rightarrow> nat" where
  "header_size raw = sum_list (map (\<lambda>(name, v). length name + length v + 4) raw)"

text \<open>Of a repeated header the first value is kept.\<close>

fun first_values :: "(jstr, jstr) jsmap \<Rightarrow> (jstr \<times> jstr) list \<Rightarrow> (jstr, jstr) jsmap" where
  "first_values received [] = received"
| "first_values received ((name, v) # raw) =
     first_values (if map_has received (header_name name) then received else received @ [(header_name name, v)]) raw"

definition header_count :: "jstr \<Rightarrow> (jstr \<times> jstr) list \<Rightarrow> nat" where
  "header_count name raw = length (filter (\<lambda>(n, _). header_name n = name) raw)"

record opened_response =
  op_status :: int
  op_headers :: "(jstr, jstr) jsmap"

definition responseHeaders :: "int \<Rightarrow> (jstr \<times> jstr) list \<Rightarrow> opened_response outcome" where
  "responseHeaders status raw =
     (let received = first_values [] raw in
      if length received > HEADER_COUNT \<or> length raw > HEADER_COUNT \<or> header_size raw > HEADER_BYTES
      then Inl (Fixed ResponseTooLarge)
      else if list_ex (\<lambda>name. header_count name raw > 1) UNIQUE_HEADERS
        \<or> map_has received (js ''transfer-encoding'') \<and> map_has received (js ''content-length'')
      then Inl (Fixed InvalidResponse)
      else if 300 \<le> status \<and> status < 400 then Inl (Fixed RedirectRefused)
      else if map_has received (js ''content-encoding'') then Inl (Fixed InvalidResponse)
      else Inr \<lparr>op_status = status, op_headers = received\<rparr>)"

definition mediaType :: "(jstr, jstr) jsmap \<Rightarrow> jstr option" where
  "mediaType headers = map_option (\<lambda>v. takeWhile (\<lambda>c. c \<noteq> 59) v) (map_of headers (js ''content-type''))"

section \<open>An exchange\<close>

datatype net_answer = NetFailed | NetResponse int "(jstr \<times> jstr) list"

text \<open>
  What one request meets: the credential, the answer, the chunks of the body and whether it ended; and
  whether the transport was closed before the request, before it was sent, before the response was
  opened, and before the result.
\<close>

record exchange =
  ex_closed :: bool
  ex_authorization :: "jstr outcome"
  ex_closed_send :: bool
  ex_answer :: net_answer
  ex_closed_open :: bool
  ex_chunks :: "u8 list list"
  ex_ended :: bool
  ex_closed_result :: bool

definition fence :: "bool \<Rightarrow> 'a outcome \<Rightarrow> 'a outcome" where
  "fence gone outcome = (if gone then Inl (Fixed ClientClosed) else outcome)"

definition is_sent :: "exchange \<Rightarrow> jstr \<Rightarrow> bool" where
  "is_sent x resource \<longleftrightarrow>
     \<not> ex_closed x \<and> validResource resource \<and> (case ex_authorization x of Inl _ \<Rightarrow> False | Inr _ \<Rightarrow> \<not> ex_closed_send x)"

definition open_exchange :: "exchange \<Rightarrow> jstr \<Rightarrow> opened_response outcome" where
  "open_exchange x resource =
     (if ex_closed x then Inl (Fixed ClientClosed)
      else if \<not> validResource resource then Inl (Fixed InvalidEndpoint)
      else
        (case ex_authorization x of
           Inl e \<Rightarrow> fence (ex_closed_send x) (Inl e)
         | Inr _ \<Rightarrow>
             if ex_closed_send x then Inl (Fixed ClientClosed)
             else
               fence (ex_closed_open x)
                 (case ex_answer x of
                    NetFailed \<Rightarrow> Inl (Fixed TransportUnavailable)
                  | NetResponse status raw \<Rightarrow> responseHeaders status raw)))"

text \<open>\<^verbatim>\<open>Number(declared)\<close>; the HTTP parser gives a content length of digits only.\<close>

definition declared_length :: "(jstr, jstr) jsmap \<Rightarrow> nat option" where
  "declared_length headers =
     (case map_of headers (js ''content-length'') of
        None \<Rightarrow> None
      | Some v \<Rightarrow> if v \<noteq> [] \<and> list_all is_digit v then Some (digits_val v) else None)"

fun body_chunks :: "nat \<Rightarrow> u8 list \<Rightarrow> bool \<Rightarrow> u8 list list \<Rightarrow> u8 list outcome" where
  "body_chunks limit body ended [] = (if ended then Inr body else Inl (Fixed TransportUnavailable))"
| "body_chunks limit body ended (chunk # chunks) =
     (if length body + length chunk > limit then Inl (Fixed ResponseTooLarge)
      else body_chunks limit (body @ chunk) ended chunks)"

definition consume_body :: "exchange \<Rightarrow> (jstr, jstr) jsmap \<Rightarrow> nat \<Rightarrow> u8 list outcome" where
  "consume_body x headers limit =
     fence (ex_closed_result x)
       (case declared_length headers of
          Some n \<Rightarrow> if n > limit then Inl (Fixed ResponseTooLarge) else body_chunks limit [] (ex_ended x) (ex_chunks x)
        | None \<Rightarrow> body_chunks limit [] (ex_ended x) (ex_chunks x))"

section \<open>JSON responses\<close>

record client_response =
  re_status :: int
  re_value :: json_value
  re_etag :: "jstr option"
  re_location :: "jstr option"
  re_bytes :: nat

definition no_store :: "(jstr, jstr) jsmap \<Rightarrow> bool" where
  "no_store headers \<longleftrightarrow> map_of headers (js ''cache-control'') = Some (js ''no-store'')"

definition json_body :: "u8 list \<Rightarrow> json_value option" where
  "json_body bytes = (case utf8_decode bytes of None \<Rightarrow> None | Some text \<Rightarrow> tryParseJson text)"

definition problem :: "int \<Rightarrow> (jstr, jstr) jsmap \<Rightarrow> u8 list \<Rightarrow> client_failure" where
  "problem status headers bytes =
     (if mediaType headers \<noteq> Some (js ''application/problem+json'') \<or> \<not> no_store headers then Fixed InvalidResponse
      else (case json_body bytes of None \<Rightarrow> Fixed InvalidResponse | Some v \<Rightarrow> problemFailure status v))"

definition json_response :: "int \<Rightarrow> (jstr, jstr) jsmap \<Rightarrow> u8 list \<Rightarrow> client_response outcome" where
  "json_response status headers bytes =
     (if status < 200 \<or> 300 \<le> status then Inl (problem status headers bytes)
      else if mediaType headers \<noteq> Some (js ''application/json'') \<or> \<not> no_store headers then Inl (Fixed InvalidResponse)
      else
        (case json_body bytes of
           None \<Rightarrow> Inl (Fixed InvalidResponse)
         | Some v \<Rightarrow>
             (case (case v of JObj fs \<Rightarrow> jsonMember fs (js ''version'') | _ \<Rightarrow> None) of
                Some (JNum version) \<Rightarrow>
                  if \<not> numberEqual version (js ''1'') then Inl (Fixed UnsupportedVersion)
                  else
                    (let etag = map_of headers (js ''etag''); location = map_of headers (js ''location'') in
                     if (case etag of None \<Rightarrow> False | Some t \<Rightarrow> \<not> validETag t)
                       \<or> (case location of None \<Rightarrow> False | Some l \<Rightarrow> \<not> validResource l)
                     then Inl (Fixed InvalidResponse)
                     else Inr \<lparr>re_status = status, re_value = v, re_etag = etag, re_location = location, re_bytes = length bytes\<rparr>)
              | _ \<Rightarrow> Inl (Fixed UnsupportedVersion))))"

definition exchangeJson :: "exchange \<Rightarrow> jstr \<Rightarrow> client_response outcome" where
  "exchangeJson x resource =
     thenO (open_exchange x resource) (\<lambda>opened.
     thenO (consume_body x (op_headers opened) RESPONSE_BYTES) (\<lambda>bytes.
       json_response (op_status opened) (op_headers opened) bytes))"

definition get_resource :: "exchange \<Rightarrow> jstr \<Rightarrow> client_response outcome" where
  "get_resource x resource = exchangeJson x resource"

section \<open>Commands\<close>

record command_headers =
  ch_idempotencyKey :: jstr
  ch_ifMatch :: "jstr option"

definition command_ok :: "command_headers \<Rightarrow> bool" where
  "command_ok c \<longleftrightarrow> validKey (ch_idempotencyKey c) \<and> (case ch_ifMatch c of None \<Rightarrow> True | Some t \<Rightarrow> validETag t)"

definition command_request_headers :: "string \<Rightarrow> command_headers \<Rightarrow> (jstr, jstr) jsmap" where
  "command_request_headers content c =
     [(js ''Content-Type'', js content), (js ''Idempotency-Key'', ch_idempotencyKey c)]
     @ (case ch_ifMatch c of None \<Rightarrow> [] | Some t \<Rightarrow> [(js ''If-Match'', t)])"

definition post_bytes :: "nat \<Rightarrow> exchange \<Rightarrow> jstr \<Rightarrow> u8 list \<Rightarrow> command_headers \<Rightarrow> client_response outcome" where
  "post_bytes limit x resource bytes command =
     (if length bytes > limit then Inl (Fixed ResponseTooLarge)
      else if \<not> command_ok command then Inl (Fixed InvalidResponse)
      else exchangeJson x resource)"

definition post :: "exchange \<Rightarrow> jstr \<Rightarrow> json_value \<Rightarrow> command_headers \<Rightarrow> client_response outcome" where
  "post x resource body command = post_bytes COMMAND_BYTES x resource (utf8_encode (encodeJson body)) command"

definition postBytes :: "exchange \<Rightarrow> jstr \<Rightarrow> u8 list \<Rightarrow> command_headers \<Rightarrow> client_response outcome" where
  "postBytes x resource bytes command = post_bytes CAPTURE_POST_BYTES x resource bytes command"

section \<open>Downloads\<close>

definition downloadVerified :: "(u8 list \<Rightarrow> jstr) \<Rightarrow> exchange \<Rightarrow> jstr \<Rightarrow> int \<Rightarrow> jstr \<Rightarrow> u8 list outcome" where
  "downloadVerified sha256 x resource stated digest =
     (if stated < 0 \<or> stated > int ARTIFACT_BYTES \<or> \<not> sha256_text digest then Inl (Fixed InvalidResponse)
      else
        thenO (open_exchange x resource) (\<lambda>opened.
        (let status = op_status opened; headers = op_headers opened in
         thenO (consume_body x headers (if status = 200 then ARTIFACT_BYTES else RESPONSE_BYTES)) (\<lambda>bytes.
           if status \<noteq> 200 then Inl (problem status headers bytes)
           else if mediaType headers \<noteq> Some (js ''application/octet-stream'') \<or> \<not> no_store headers
             \<or> map_of headers (js ''x-content-type-options'') \<noteq> Some (js ''nosniff'')
             \<or> \<not> starts_with (case map_of headers (js ''content-disposition'') of None \<Rightarrow> [] | Some d \<Rightarrow> d) (js ''attachment'')
             \<or> int (length bytes) \<noteq> stated \<or> sha256 bytes \<noteq> digest
           then Inl (Fixed InvalidResponse)
           else Inr bytes))))"

section \<open>Polling and streaming\<close>

definition EVENTS_RESOURCE :: jstr where "EVENTS_RESOURCE = js ''/v1/events''"

definition pollEvents :: "exchange \<Rightarrow> jstr \<Rightarrow> event_batch outcome" where
  "pollEvents x cursor =
     (if \<not> validCursor cursor then Inl (Fixed InvalidResponse)
      else
        thenO (exchangeJson x EVENTS_RESOURCE) (\<lambda>r.
          if re_status r = 200 then decodeEventBatch (re_value r) else Inl (Fixed InvalidResponse)))"

datatype stream_item = InvalidationItem invalidation_event | HeartbeatItem

fun stream_items :: "sse_block list \<Rightarrow> stream_item list outcome" where
  "stream_items [] = Inr []"
| "stream_items (Heartbeat # blocks) = thenO (stream_items blocks) (\<lambda>items. Inr (HeartbeatItem # items))"
| "stream_items (Advance _ # blocks) = stream_items blocks"
| "stream_items (Dispatch e # blocks) =
     thenO (decodeEventBlock e) (\<lambda>event. thenO (stream_items blocks) (\<lambda>items. Inr (InvalidationItem event # items)))"

text \<open>
  What an open stream meets: a chunk, its end or no byte for the idle bound, the end of the connection, or
  \<^verbatim>\<open>close\<close>. The items of a chunk are delivered only when the whole chunk is well formed.
\<close>

datatype stream_input = StreamChunk "u8 list" | StreamEnd | StreamLost | StreamShut

fun stream_run :: "sse_parser \<Rightarrow> stream_item list \<Rightarrow> stream_input list \<Rightarrow> stream_item list \<times> jstr outcome" where
  "stream_run p given [] = (given, Inl (Fixed TransportUnavailable))"
| "stream_run p given (StreamLost # _) = (given, Inl (Fixed TransportUnavailable))"
| "stream_run p given (StreamShut # _) = (given, Inl (Fixed ClientClosed))"
| "stream_run p given (StreamEnd # _) =
     (given, case closeSse p of None \<Rightarrow> Inl (Fixed InvalidResponse) | Some last_id \<Rightarrow> Inr last_id)"
| "stream_run p given (StreamChunk chunk # inputs) =
     (case thenO (feedSse p chunk) (\<lambda>(p', blocks). thenO (stream_items blocks) (\<lambda>items. Inr (p', items))) of
        Inl e \<Rightarrow> (given, Inl e)
      | Inr (p', items) \<Rightarrow> stream_run p' (given @ items) inputs)"

text \<open>One connection: the items it delivered, its outcome, and whether the stream was accepted.\<close>

record stream_result =
  st_items :: "stream_item list"
  st_outcome :: "jstr outcome"
  st_accepted :: bool

definition not_streamed :: "client_failure \<Rightarrow> stream_result" where
  "not_streamed e = \<lparr>st_items = [], st_outcome = Inl e, st_accepted = False\<rparr>"

definition streamEvents :: "exchange \<Rightarrow> bool \<Rightarrow> jstr \<Rightarrow> stream_input list \<Rightarrow> stream_result" where
  "streamEvents x dropped cursor inputs =
     (if \<not> validCursor cursor then not_streamed (Fixed InvalidResponse)
      else
        (case open_exchange x EVENTS_RESOURCE of
           Inl e \<Rightarrow> not_streamed e
         | Inr opened \<Rightarrow>
             if dropped then not_streamed (Fixed TransportUnavailable)
             else if op_status opened \<noteq> 200 then
               (case consume_body x (op_headers opened) RESPONSE_BYTES of
                  Inl e \<Rightarrow> not_streamed e
                | Inr bytes \<Rightarrow> not_streamed (problem (op_status opened) (op_headers opened) bytes))
             else if mediaType (op_headers opened) \<noteq> Some (js ''text/event-stream'') \<or> \<not> no_store (op_headers opened)
             then not_streamed (Fixed InvalidResponse)
             else
               (let (items, outcome) = stream_run (newSseParser (Some cursor)) [] inputs in
                \<lparr>st_items = items, st_outcome = outcome, st_accepted = True\<rparr>)))"

end
