(* ===== verification/Following.thy ===== *)
theory Following
  imports Transport
begin

text \<open>
  The loop that follows the events of a manager (\<^verbatim>\<open>manager/transport.ts\<close>, \<^verbatim>\<open>followEvents\<close>): it connects a
  stream, resumes from the last complete event, backs off, and polls after repeated failures or by
  preference. The loop is a machine: each step takes the next answer of its environment, which is what the
  code awaits or reads there. Its specification is the log of a manager,
  whose events are delivered in order, each once; records that the credential cannot see are passed over.
\<close>

section \<open>The loop\<close>

datatype delivery_via = ViaStream | ViaPoll

datatype delivery_preference = PreferSse | PreferPoll

datatype follow_state = LiveStream | PollingBatches | Unreachable

datatype follow_end = FollowClosed | Resnapshot jstr client_failure | FollowRefused jstr client_failure

definition followEnd :: "client_failure \<Rightarrow> jstr \<Rightarrow> follow_end option" where
  "followEnd failure cursor =
     (case failure of
        Fixed ClientClosed \<Rightarrow> Some FollowClosed
      | Fixed CredentialUnavailable \<Rightarrow> Some (FollowRefused cursor failure)
      | Fixed CredentialChanged \<Rightarrow> Some (FollowRefused cursor failure)
      | Refused status _ \<Rightarrow>
          if status = 410 then Some (Resnapshot cursor failure)
          else if status = 401 then Some (FollowRefused cursor failure) else None
      | _ \<Rightarrow> None)"

text \<open>Polling lasts until the preference changes, or until the backoff is over.\<close>

datatype poll_reason = ByPreference | ByDeadline

datatype follow_mode =
  AtTop | InStream | InPoll poll_reason | PollPause poll_reason | Pause | FollowEnded follow_end

record follow_loop =
  fo_mode :: follow_mode
  fo_cursor :: jstr
  fo_backoff :: backoff
  fo_failures :: nat
  fo_wait :: int
  fo_items :: "(delivery_via \<times> stream_item) list"
  fo_connected :: "(delivery_via \<times> jstr) list"
  fo_states :: "follow_state list"

definition newFollow :: "jstr \<Rightarrow> follow_loop" where
  "newFollow cursor =
     \<lparr>fo_mode = AtTop, fo_cursor = cursor, fo_backoff = INITIAL_BACKOFF, fo_failures = 0, fo_wait = 0, fo_items = [],
      fo_connected = [], fo_states = []\<rparr>"

text \<open>
  The answers: the preference, the end of a connection, a batch (and whether the transport was closed by
  then), and a wake-up (and whether it was closed, the preference, and whether the backoff is over).
\<close>

datatype follow_answer =
  Preferred delivery_preference
| Streamed stream_result
| Polled bool "event_batch outcome"
| Woken bool delivery_preference bool

definition connect :: "delivery_via \<Rightarrow> follow_mode \<Rightarrow> follow_loop \<Rightarrow> follow_loop" where
  "connect via mode lo = lo\<lparr>fo_mode := mode, fo_connected := fo_connected lo @ [(via, fo_cursor lo)]\<rparr>"

fun event_ids :: "stream_item list \<Rightarrow> jstr list" where
  "event_ids [] = []"
| "event_ids (InvalidationItem e # items) = ie_id e # event_ids items"
| "event_ids (HeartbeatItem # items) = event_ids items"

definition latest_id :: "jstr \<Rightarrow> stream_item list \<Rightarrow> jstr" where
  "latest_id cursor items = (if event_ids items = [] then cursor else last (event_ids items))"

definition is_refused :: "client_failure option \<Rightarrow> bool" where
  "is_refused failure = (case failure of Some (Refused _ _) \<Rightarrow> True | _ \<Rightarrow> False)"

definition after_stream :: "stream_result \<Rightarrow> follow_loop \<Rightarrow> follow_loop" where
  "after_stream res lo =
     (let items = st_items res;
          cursor = (case st_outcome res of Inr v \<Rightarrow> v | Inl _ \<Rightarrow> latest_id (fo_cursor lo) items);
          failure = (case st_outcome res of Inr _ \<Rightarrow> None | Inl f \<Rightarrow> Some f);
          lo1 = lo\<lparr>fo_cursor := cursor, fo_items := fo_items lo @ map (Pair ViaStream) items,
                   fo_states := fo_states lo @ (if st_accepted res then [LiveStream] else [])\<rparr> in
      case (case failure of None \<Rightarrow> None | Some f \<Rightarrow> followEnd f cursor) of
        Some e \<Rightarrow> lo1\<lparr>fo_mode := FollowEnded e\<rparr>
      | None \<Rightarrow>
          (let failures = (if items \<noteq> [] then 0 else fo_failures lo) + 1;
               (delay, next_backoff) = reconnectDelay (if items \<noteq> [] then INITIAL_BACKOFF else fo_backoff lo);
               lo2 = lo1\<lparr>fo_states := fo_states lo1 @ (if st_accepted res then [] else [Unreachable]),
                         fo_failures := failures, fo_backoff := next_backoff, fo_wait := delay\<rparr> in
           if is_refused failure \<or> failures \<ge> STREAM_FAILURE_LIMIT then connect ViaPoll (InPoll ByDeadline) lo2
           else lo2\<lparr>fo_mode := Pause\<rparr>))"

definition after_poll :: "poll_reason \<Rightarrow> bool \<Rightarrow> event_batch outcome \<Rightarrow> follow_loop \<Rightarrow> follow_loop" where
  "after_poll reason gone batch lo =
     (if gone then lo\<lparr>fo_mode := FollowEnded FollowClosed\<rparr>
      else
        (case batch of
           Inr b \<Rightarrow>
             (let lo1 = lo\<lparr>fo_states := fo_states lo @ [PollingBatches], fo_cursor := eb_cursor b,
                           fo_items := fo_items lo @ map (\<lambda>e. (ViaPoll, InvalidationItem e)) (eb_events b)\<rparr> in
              if eb_hasMore b then connect ViaPoll (InPoll reason) lo1 else lo1\<lparr>fo_mode := PollPause reason\<rparr>)
         | Inl f \<Rightarrow>
             (let lo1 = lo\<lparr>fo_states := fo_states lo @ [Unreachable]\<rparr> in
              case followEnd f (fo_cursor lo) of
                Some e \<Rightarrow> lo1\<lparr>fo_mode := FollowEnded e\<rparr>
              | None \<Rightarrow> lo1\<lparr>fo_mode := PollPause reason\<rparr>)))"

fun poll_done :: "poll_reason \<Rightarrow> delivery_preference \<Rightarrow> bool \<Rightarrow> bool" where
  "poll_done ByPreference prefer due = (prefer \<noteq> PreferPoll)"
| "poll_done ByDeadline prefer due = (due \<or> prefer = PreferPoll)"

definition after_pause :: "poll_reason \<Rightarrow> bool \<Rightarrow> delivery_preference \<Rightarrow> bool \<Rightarrow> follow_loop \<Rightarrow> follow_loop" where
  "after_pause reason gone prefer due lo =
     (if gone then lo\<lparr>fo_mode := FollowEnded FollowClosed\<rparr>
      else if \<not> poll_done reason prefer due then connect ViaPoll (InPoll reason) lo
      else if reason = ByPreference then lo\<lparr>fo_mode := AtTop, fo_backoff := INITIAL_BACKOFF, fo_failures := 0\<rparr>
      else lo\<lparr>fo_mode := AtTop\<rparr>)"

text \<open>\<open>None\<close> for an answer that the loop does not wait for.\<close>

fun follow_next :: "follow_answer \<Rightarrow> follow_mode \<Rightarrow> follow_loop \<Rightarrow> follow_loop option" where
  "follow_next (Preferred p) AtTop lo =
     Some (if p = PreferPoll then connect ViaPoll (InPoll ByPreference) lo else connect ViaStream InStream lo)"
| "follow_next (Streamed res) InStream lo = Some (after_stream res lo)"
| "follow_next (Polled gone batch) (InPoll reason) lo = Some (after_poll reason gone batch lo)"
| "follow_next (Woken gone prefer due) (PollPause reason) lo = Some (after_pause reason gone prefer due lo)"
| "follow_next (Woken gone prefer due) Pause lo =
     Some (if gone then lo\<lparr>fo_mode := FollowEnded FollowClosed\<rparr> else lo\<lparr>fo_mode := AtTop\<rparr>)"
| "follow_next _ _ lo = None"

definition follow_step :: "follow_answer \<Rightarrow> follow_loop \<Rightarrow> follow_loop option" where
  "follow_step answer lo = follow_next answer (fo_mode lo) lo"

section \<open>The log of a manager\<close>

text \<open>
  The records of the log after the cursor \<open>base\<close>: events, and records that the credential cannot see, of which
  only the position shows. A stream gives some of the next events. A batch scans some of the next records, gives
  their events, and its cursor is the position of the last record that it scanned.
\<close>

datatype log_record = Visible invalidation_event | Unseen jstr

fun record_id :: "log_record \<Rightarrow> jstr" where
  "record_id (Visible e) = ie_id e"
| "record_id (Unseen i) = i"

fun visible_events :: "log_record list \<Rightarrow> invalidation_event list" where
  "visible_events [] = []"
| "visible_events (Visible e # rs) = e # visible_events rs"
| "visible_events (Unseen i # rs) = visible_events rs"

definition records_after :: "jstr \<Rightarrow> log_record list \<Rightarrow> jstr \<Rightarrow> log_record list" where
  "records_after base past cursor = (if cursor = base then past else tl (dropWhile (\<lambda>r. record_id r \<noteq> cursor) past))"

definition reached :: "jstr \<Rightarrow> log_record list \<Rightarrow> jstr" where
  "reached cursor rs = (if rs = [] then cursor else record_id (last rs))"

definition gives :: "jstr \<Rightarrow> log_record list \<Rightarrow> jstr \<Rightarrow> invalidation_event list \<Rightarrow> jstr \<Rightarrow> bool" where
  "gives base past cursor es next_cursor \<longleftrightarrow>
     (\<exists>rs rest. records_after base past cursor = rs @ rest \<and> es = visible_events rs \<and> next_cursor = reached cursor rs)"

fun invalidations :: "stream_item list \<Rightarrow> invalidation_event list" where
  "invalidations [] = []"
| "invalidations (InvalidationItem e # items) = e # invalidations items"
| "invalidations (HeartbeatItem # items) = invalidations items"

fun faithful :: "jstr \<Rightarrow> log_record list \<Rightarrow> jstr \<Rightarrow> follow_answer \<Rightarrow> bool" where
  "faithful base past cursor (Streamed res) \<longleftrightarrow>
     gives base past cursor (invalidations (st_items res))
       (case st_outcome res of Inr v \<Rightarrow> v | Inl _ \<Rightarrow> latest_id cursor (st_items res))"
| "faithful base past cursor (Polled gone (Inr b)) \<longleftrightarrow> gives base past cursor (eb_events b) (eb_cursor b)"
| "faithful base past cursor _ \<longleftrightarrow> True"

inductive following :: "jstr \<Rightarrow> log_record list \<Rightarrow> follow_loop \<Rightarrow> bool" for base past where
  following_start: "following base past (newFollow base)"
| following_step: "following base past lo \<Longrightarrow> faithful base past (fo_cursor lo) answer \<Longrightarrow> follow_step answer lo = Some lo'
    \<Longrightarrow> following base past lo'"

definition delivered_events :: "follow_loop \<Rightarrow> invalidation_event list" where
  "delivered_events lo = invalidations (map snd (fo_items lo))"

lemma invalidations_append [simp]: "invalidations (xs @ ys) = invalidations xs @ invalidations ys"
  by (induction xs rule: invalidations.induct) auto

lemma visible_append [simp]: "visible_events (xs @ ys) = visible_events xs @ visible_events ys"
  by (induction xs rule: visible_events.induct) auto

lemma event_ids_invalidations: "event_ids items = map ie_id (invalidations items)"
  by (induction items rule: invalidations.induct) auto

lemma invalidations_polled [simp]: "invalidations (map (snd \<circ> (\<lambda>e. (ViaPoll, InvalidationItem e))) es) = es"
  by (induction es) auto

text \<open>Some of the next events reach the record of the last of them.\<close>

lemma visible_upto: "visible_events rs = front @ e # others \<Longrightarrow> \<exists>before rest. rs = before @ Visible e # rest \<and> visible_events before = front"
proof (induction rs arbitrary: front rule: visible_events.induct)
  case (2 d rs)
  show ?case
  proof (cases front)
    case Nil
    with 2 show ?thesis by (intro exI [of _ "[]"] exI [of _ rs]) simp
  next
    case (Cons c cs)
    with 2 obtain before rest where "rs = before @ Visible e # rest" "visible_events before = cs" by auto
    with Cons 2 show ?thesis by (intro exI [of _ "Visible d # before"] exI [of _ rest]) simp
  qed
next
  case (3 i rs)
  then obtain before rest where "rs = before @ Visible e # rest" "visible_events before = front" by auto
  then show ?case by (intro exI [of _ "Unseen i # before"] exI [of _ rest]) simp
qed simp

lemma gives_events:
  assumes "visible_events (records_after base past cursor) = es @ others"
  shows "gives base past cursor es (if es = [] then cursor else ie_id (last es))"
proof (cases "es = []")
  case True
  then show ?thesis unfolding gives_def by (intro exI [of _ "[]"] exI [of _ "records_after base past cursor"]) (simp add: reached_def)
next
  case False
  then obtain front e where es: "es = front @ [e]" by (metis append_butlast_last_id)
  with assms obtain before rest where "records_after base past cursor = before @ Visible e # rest" "visible_events before = front"
    using visible_upto by fastforce
  then show ?thesis unfolding gives_def by (intro exI [of _ "before @ [Visible e]"] exI [of _ rest]) (simp add: es reached_def)
qed

text \<open>What follows the cursor reached is what is left of the log.\<close>

lemma records_after_reached:
  assumes "distinct (base # map record_id past)" and "seen @ records_after base past cursor = past"
    and "cursor = reached base seen" and "records_after base past cursor = rs @ rest"
  shows "(seen @ rs) @ records_after base past (reached cursor rs) = past" and "reached cursor rs = reached base (seen @ rs)"
proof -
  have past: "past = seen @ rs @ rest" using assms(2,4) by simp
  have next_rest: "records_after base past (record_id (last rs)) = rest" if "rs \<noteq> []"
  proof -
    obtain front r where rs: "rs = front @ [r]" using \<open>rs \<noteq> []\<close> by (metis append_butlast_last_id)
    have "distinct (base # map record_id (seen @ front) @ record_id r # map record_id rest)" using assms(1) by (simp add: past rs)
    then have "base \<noteq> record_id r" "record_id r \<notin> record_id ` set seen" "record_id r \<notin> record_id ` set front" by simp_all
    then have "record_id r \<noteq> base" and "record_id x \<noteq> record_id r" if "x \<in> set (seen @ front)" for x
      using that by (metis, metis Un_iff image_eqI set_append)
    then have "dropWhile (\<lambda>x. record_id x \<noteq> record_id r) ((seen @ front) @ r # rest) = r # rest"
      by (subst dropWhile_append2) simp_all
    then show ?thesis using \<open>base \<noteq> record_id r\<close> by (simp add: records_after_def past rs)
  qed
  show "(seen @ rs) @ records_after base past (reached cursor rs) = past"
  proof (cases "rs = []")
    case True
    then show ?thesis using assms(2) by (simp add: reached_def)
  next
    case False
    then show ?thesis using next_rest past by (simp add: reached_def)
  qed
  show "reached cursor rs = reached base (seen @ rs)" using assms(3) by (simp add: reached_def)
qed

text \<open>The records that the loop has passed.\<close>

definition passed :: "jstr \<Rightarrow> log_record list \<Rightarrow> follow_loop \<Rightarrow> log_record list \<Rightarrow> bool" where
  "passed base past lo seen \<longleftrightarrow>
     seen @ records_after base past (fo_cursor lo) = past
     \<and> delivered_events lo = visible_events seen \<and> fo_cursor lo = reached base seen
     \<and> (\<forall>(_, c) \<in> set (fo_connected lo). c = base \<or> c \<in> record_id ` set seen)"

definition follow_inv :: "jstr \<Rightarrow> log_record list \<Rightarrow> follow_loop \<Rightarrow> bool" where
  "follow_inv base past lo \<longleftrightarrow>
     (\<exists>seen. passed base past lo seen) \<and> 1 \<le> seconds (fo_backoff lo) \<and> seconds (fo_backoff lo) \<le> 30 \<and> fo_wait lo \<le> 30"

lemma connect_fields [simp]:
  "fo_items (connect via mode lo) = fo_items lo" "fo_cursor (connect via mode lo) = fo_cursor lo"
  "fo_backoff (connect via mode lo) = fo_backoff lo" "fo_wait (connect via mode lo) = fo_wait lo"
  "fo_connected (connect via mode lo) = fo_connected lo @ [(via, fo_cursor lo)]"
  by (simp_all add: connect_def)

lemma reached_known: "reached base rs = base \<or> reached base rs \<in> record_id ` set rs"
  by (simp add: reached_def)

lemma passed_connect: "passed base past lo seen \<Longrightarrow> passed base past (connect via mode lo) seen"
  using reached_known [of base seen] by (auto simp: passed_def delivered_events_def)

lemma connect_inv: "follow_inv base past lo \<Longrightarrow> follow_inv base past (connect via mode lo)"
  unfolding follow_inv_def connect_fields using passed_connect by blast

lemma follow_inv_cong:
  "follow_inv base past lo \<Longrightarrow> fo_items lo' = fo_items lo \<Longrightarrow> fo_cursor lo' = fo_cursor lo \<Longrightarrow> fo_connected lo' = fo_connected lo
   \<Longrightarrow> 1 \<le> seconds (fo_backoff lo') \<Longrightarrow> seconds (fo_backoff lo') \<le> 30 \<Longrightarrow> fo_wait lo' \<le> 30 \<Longrightarrow> follow_inv base past lo'"
  unfolding follow_inv_def passed_def delivered_events_def by (elim conjE, intro conjI) simp_all

lemma deliver_inv:
  assumes "distinct (base # map record_id past)" and "follow_inv base past lo"
    and "gives base past (fo_cursor lo) (invalidations items) (fo_cursor lo')"
    and "fo_items lo' = fo_items lo @ map (Pair via) items" and "fo_connected lo' = fo_connected lo"
    and "1 \<le> seconds (fo_backoff lo')" "seconds (fo_backoff lo') \<le> 30" "fo_wait lo' \<le> 30"
  shows "follow_inv base past lo'"
proof -
  obtain seen where seen: "passed base past lo seen" using assms(2) unfolding follow_inv_def by blast
  obtain rs rest where rs: "records_after base past (fo_cursor lo) = rs @ rest" "invalidations items = visible_events rs"
    "fo_cursor lo' = reached (fo_cursor lo) rs"
    using assms(3) unfolding gives_def by blast
  have d: "delivered_events lo' = delivered_events lo @ invalidations items"
    using assms(4) by (simp add: delivered_events_def comp_def)
  have s: "seen @ records_after base past (fo_cursor lo) = past" "fo_cursor lo = reached base seen"
    "delivered_events lo = visible_events seen" "\<forall>(_, c) \<in> set (fo_connected lo). c = base \<or> c \<in> record_id ` set seen"
    using seen unfolding passed_def by blast+
  from records_after_reached [OF assms(1) s(1,2) rs(1)]
  have "passed base past lo' (seen @ rs)" using s(4) by (auto simp: passed_def d s(3) rs(2,3) assms(5))
  then show ?thesis using assms(6-8) unfolding follow_inv_def by blast
qed

end
