(* ===== verification/FollowingLaws.thy ===== *)
theory FollowingLaws
  imports Following SseFormat SseLaws
begin

text \<open>
  The loop keeps the log: the records it passed followed by what is left after its cursor are the whole log,
  and it delivered the events among them. A connection that carries formatted events and heartbeats, cut at any
  byte and split into any chunks, gives events as the log demands.
\<close>

section \<open>Steps\<close>

lemma reconnectDelay_range:
  "reconnectDelay b = (d, b') \<Longrightarrow> 1 \<le> seconds b \<Longrightarrow> seconds b \<le> 30 \<Longrightarrow> d \<le> 30 \<and> 1 \<le> seconds b' \<and> seconds b' \<le> 30"
  by (auto simp: reconnectDelay_def RECONNECT_BACKOFF_MAX_SECONDS_def)

lemma after_stream_inv:
  assumes d: "distinct (base # map record_id past)" and inv: "follow_inv base past lo" and f: "faithful base past (fo_cursor lo) (Streamed res)"
  shows "follow_inv base past (after_stream res lo)"
proof -
  let ?items = "st_items res"
  define cursor where "cursor = (case st_outcome res of Inr v \<Rightarrow> v | Inl _ \<Rightarrow> latest_id (fo_cursor lo) ?items)"
  define failure where "failure = (case st_outcome res of Inr _ \<Rightarrow> None | Inl f \<Rightarrow> Some f)"
  let ?lo1 = "lo\<lparr>fo_cursor := cursor, fo_items := fo_items lo @ map (Pair ViaStream) ?items,
                   fo_states := fo_states lo @ (if st_accepted res then [LiveStream] else [])\<rparr>"
  have gives: "gives base past (fo_cursor lo) (invalidations ?items) cursor" using f by (simp add: cursor_def)
  have range: "1 \<le> seconds (fo_backoff lo)" "seconds (fo_backoff lo) \<le> 30" "fo_wait lo \<le> 30"
    using inv unfolding follow_inv_def by blast+
  have one: "follow_inv base past ?lo1"
    by (rule deliver_inv [OF d inv, where items = ?items and via = ViaStream]) (simp_all add: gives range)
  show ?thesis
  proof (cases "case failure of None \<Rightarrow> None | Some f \<Rightarrow> followEnd f cursor")
    case (Some e)
    then have "after_stream res lo = ?lo1\<lparr>fo_mode := FollowEnded e\<rparr>"
      by (simp only: after_stream_def Let_def cursor_def failure_def option.case)
    then show ?thesis using follow_inv_cong [OF one] range by simp
  next
    case None
    obtain delay nb where rd: "reconnectDelay (if ?items \<noteq> [] then INITIAL_BACKOFF else fo_backoff lo) = (delay, nb)" by force
    then have nb: "delay \<le> 30 \<and> 1 \<le> seconds nb \<and> seconds nb \<le> 30"
      by (rule reconnectDelay_range) (use range in \<open>simp_all add: INITIAL_BACKOFF_def\<close>)
    let ?n = "(if ?items \<noteq> [] then 0 else fo_failures lo) + 1"
    let ?lo2 = "?lo1\<lparr>fo_states := fo_states ?lo1 @ (if st_accepted res then [] else [Unreachable]),
                         fo_failures := ?n, fo_backoff := nb, fo_wait := delay\<rparr>"
    have two: "follow_inv base past ?lo2" by (rule follow_inv_cong [OF one]) (simp_all add: nb)
    have "after_stream res lo =
        (if is_refused failure \<or> ?n \<ge> STREAM_FAILURE_LIMIT then connect ViaPoll (InPoll ByDeadline) ?lo2 else ?lo2\<lparr>fo_mode := Pause\<rparr>)"
      using None by (simp only: after_stream_def Let_def cursor_def failure_def option.case rd prod.case)
    then show ?thesis using connect_inv [OF two] follow_inv_cong [OF two, of "?lo2\<lparr>fo_mode := Pause\<rparr>"] nb by simp
  qed
qed

lemma after_poll_inv:
  assumes d: "distinct (base # map record_id past)" and inv: "follow_inv base past lo"
    and f: "faithful base past (fo_cursor lo) (Polled gone batch)"
  shows "follow_inv base past (after_poll reason gone batch lo)"
proof -
  have range: "1 \<le> seconds (fo_backoff lo)" "seconds (fo_backoff lo) \<le> 30" "fo_wait lo \<le> 30"
    using inv unfolding follow_inv_def by blast+
  note same = follow_inv_cong [OF inv _ _ _ _ _ _]
  show ?thesis
  proof (cases batch)
    case (Inl e)
    then show ?thesis using inv by (auto simp: after_poll_def Let_def range intro: same split: option.split)
  next
    case (Inr b)
    let ?lo1 = "lo\<lparr>fo_states := fo_states lo @ [PollingBatches], fo_cursor := eb_cursor b,
                           fo_items := fo_items lo @ map (\<lambda>e. (ViaPoll, InvalidationItem e)) (eb_events b)\<rparr>"
    have es: "invalidations (map InvalidationItem es) = es" for es by (induction es) simp_all
    have one: "follow_inv base past ?lo1"
      by (rule deliver_inv [OF d inv, where items = "map InvalidationItem (eb_events b)" and via = ViaPoll])
         (use f in \<open>simp_all add: Inr es range\<close>)
    have pause: "follow_inv base past (?lo1\<lparr>fo_mode := m\<rparr>)" for m by (rule follow_inv_cong [OF one]) (simp_all add: range)
    have gone: "follow_inv base past (lo\<lparr>fo_mode := m\<rparr>)" for m by (rule same) (simp_all add: range)
    show ?thesis using connect_inv [OF one] pause gone by (simp add: after_poll_def Let_def Inr)
  qed
qed

lemma after_pause_inv: "follow_inv base past lo \<Longrightarrow> follow_inv base past (after_pause reason gone prefer due lo)"
proof -
  assume inv: "follow_inv base past lo"
  have "1 \<le> seconds (fo_backoff lo)" "seconds (fo_backoff lo) \<le> 30" "fo_wait lo \<le> 30"
    using inv unfolding follow_inv_def by blast+
  then show ?thesis
    using connect_inv [OF inv] by (auto simp: after_pause_def INITIAL_BACKOFF_def intro: follow_inv_cong [OF inv])
qed

lemma follow_step_inv:
  assumes "distinct (base # map record_id past)" and "follow_inv base past lo" and "faithful base past (fo_cursor lo) answer"
    and "follow_step answer lo = Some lo'"
  shows "follow_inv base past lo'"
proof -
  have range: "1 \<le> seconds (fo_backoff lo)" "seconds (fo_backoff lo) \<le> 30" "fo_wait lo \<le> 30"
    using assms(2) unfolding follow_inv_def by blast+
  have pause: "follow_inv base past (lo\<lparr>fo_mode := m\<rparr>)" for m by (rule follow_inv_cong [OF assms(2)]) (simp_all add: range)
  show ?thesis
    using assms(4) unfolding follow_step_def
    by (cases "(answer, fo_mode lo, lo)" rule: follow_next.cases)
       (use assms(1-3) pause in \<open>auto simp del: faithful.simps intro: connect_inv after_stream_inv after_poll_inv after_pause_inv\<close>)
qed

lemma newFollow_inv: "follow_inv base past (newFollow base)"
  by (auto simp: follow_inv_def passed_def newFollow_def delivered_events_def records_after_def reached_def INITIAL_BACKOFF_def
      intro: exI [of _ "[]"])

lemma following_inv: "following base past lo \<Longrightarrow> distinct (base # map record_id past) \<Longrightarrow> follow_inv base past lo"
  by (induction rule: following.induct) (blast intro: newFollow_inv follow_step_inv)+

section \<open>Streams of events\<close>

text \<open>
  The block that carries an event; a heartbeat is a block of one comment line, as the manager writes it. The
  bytes of a stream are those of its pieces.
\<close>

definition block_of_event :: "invalidation_event \<Rightarrow> sse_event" where
  "block_of_event e =
     \<lparr>event_id = Some (ie_id e), event_name = ie_name e, event_data = encodeJson (encodeInvalidation (ie_data e))\<rparr>"

datatype stream_piece = EventPiece invalidation_event | CommentPiece jstr

fun wire_piece :: "stream_piece \<Rightarrow> u8 list" where
  "wire_piece (EventPiece e) = wire_event (block_of_event e)"
| "wire_piece (CommentPiece comment) = wire_lines [utf8_encode (58 # comment)]"

fun piece_item :: "stream_piece \<Rightarrow> stream_item" where
  "piece_item (EventPiece e) = InvalidationItem e"
| "piece_item (CommentPiece comment) = HeartbeatItem"

fun piece_block :: "stream_piece \<Rightarrow> sse_block" where
  "piece_block (EventPiece e) = Dispatch (block_of_event e)"
| "piece_block (CommentPiece comment) = Heartbeat"

abbreviation wire_pieces :: "stream_piece list \<Rightarrow> u8 list" where
  "wire_pieces ps \<equiv> concat (map wire_piece ps)"

abbreviation piece_events :: "stream_piece list \<Rightarrow> invalidation_event list" where
  "piece_events ps \<equiv> invalidations (map piece_item ps)"

definition streamable :: "invalidation_event \<Rightarrow> bool" where
  "streamable e \<longleftrightarrow> event_ok e \<and> wire_ok (block_of_event e)"

fun piece_ok :: "stream_piece \<Rightarrow> bool" where
  "piece_ok (EventPiece e) \<longleftrightarrow> streamable e"
| "piece_ok (CommentPiece comment) \<longleftrightarrow>
     well_formed comment \<and> 10 \<notin> set comment \<and> 13 \<notin> set comment \<and> length (wire_lines [utf8_encode (58 # comment)]) \<le> SSE_BLOCK_BYTES"

lemma block_decodes: "event_ok e \<Longrightarrow> decodeEventBlock (block_of_event e) = Inr e"
proof -
  assume "event_ok e"
  then have ok: "invalidation_ok (ie_data e)" "ie_name e \<in> set EVENT_NAMES" by (simp_all add: event_ok_def)
  have "Option.bind (tryParseJson (encodeJson (encodeInvalidation (ie_data e)))) (\<lambda>v. parseInvalidation (Some v)) = Some (ie_data e)"
    using ok(1) by (rule invalidation.wire_roundtrip)
  then obtain d where "tryParseJson (encodeJson (encodeInvalidation (ie_data e))) = Some d"
    "parseInvalidation (Some d) = Some (ie_data e)" by (auto simp: bind_eq_Some_conv)
  moreover have "parseEventName (ie_name e) = Some (ie_name e)"
    using ok(2) by (auto simp: parseEventName_def EVENT_NAMES_def)
  ultimately show ?thesis by (simp add: decodeEventBlock_Inr block_of_event_def)
qed

text \<open>The last identifier after some blocks.\<close>

fun block_id :: "sse_block \<Rightarrow> jstr option" where
  "block_id (Dispatch e) = event_id e"
| "block_id (Advance i) = Some i"
| "block_id Heartbeat = None"

fun seen_after :: "jstr option \<Rightarrow> sse_block list \<Rightarrow> jstr option" where
  "seen_after seen [] = seen"
| "seen_after seen (b # bs) = seen_after (case block_id b of Some i \<Rightarrow> Some i | None \<Rightarrow> seen) bs"

lemma seen_after_append: "seen_after seen (a @ b) = seen_after (seen_after seen a) b"
  by (induction a arbitrary: seen) simp_all

lemma blockOf_none: "blockOf ls = Some (ident, None) \<Longrightarrow> ident = None"
  by (auto simp: blockOf_def Let_def split: option.splits if_splits)

lemma byte_step_seen: "byte_step s b = Inr (s', out) \<Longrightarrow> seen_id s' = seen_after (seen_id s) out"
proof -
  assume a: "byte_step s b = Inr (s', out)"
  have ident: "(case i of Some x \<Rightarrow> Some x | None \<Rightarrow> seen) = seen_after seen (case bl of Some x \<Rightarrow> [x] | None \<Rightarrow> [])"
    if "blockOf ls = Some (i, bl)" for i bl seen ls
    using that blockOf_none [of ls i] blockOf_events [of ls i]
    by (cases bl) (auto split: sse_block.splits, (metis block_id.simps sse_block.exhaust)?)
  from a show ?thesis
    by (auto simp: byte_step_def end_line_def Let_def ident split: if_splits option.splits)
qed

lemma byte_run_seen: "byte_run s bs = Inr (s', out) \<Longrightarrow> seen_id s' = seen_after (seen_id s) out"
  by (induction bs arbitrary: s out) (auto simp: seen_after_append dest: byte_step_seen split: sum.splits prod.splits)

lemma byte_run_comment:
  assumes "piece_ok (CommentPiece comment)" and "open_line s = []" "done_lines s = []" "count s = 0"
  shows "byte_run s (wire_lines [utf8_encode (58 # comment)]) = Inr (s, [Heartbeat])"
proof -
  let ?l = "utf8_encode (58 # comment)"
  have wf: "well_formed (58 # comment)" using assms(1) well_formed_ascii_append [of "[58]" comment] by simp
  then have dec: "utf8_decode ?l = Some (58 # comment)" by (rule utf8_decode_encode)
  then have "?l \<noteq> []" by (auto simp: utf8_decode_def)
  then have plain: "list_all plain_line [?l]" using assms(1) utf8_no_line_end [of "58 # comment"] by (simp add: plain_line_def)
  have len: "length ?l + 1 < SSE_BLOCK_BYTES" using assms(1) by (simp add: wire_lines_def)
  have "blockOf [?l] = Some (None, Some Heartbeat)"
    by (simp add: blockOf_def dec Let_def starts_with_def sse_values_def)
  then have "byte_run (s\<lparr>done_lines := [?l], count := length ?l + 1\<rparr>) [10] = Inr (s, [Heartbeat])"
    using assms(2-4) len by (subst byte_run_blank) auto
  then show ?thesis
    using byte_run_plain [OF plain assms(2), of "[10]"] assms(3,4) len by (simp add: wire_lines_def del: byte_run.simps)
qed

lemma byte_run_pieces:
  "list_all piece_ok ps \<Longrightarrow> open_line s = [] \<Longrightarrow> done_lines s = [] \<Longrightarrow> count s = 0 \<Longrightarrow>
   \<exists>s'. byte_run s (wire_pieces ps) = Inr (s', map piece_block ps)"
proof (induction ps arbitrary: s)
  case (Cons p ps)
  obtain s1 where s1: "byte_run s (wire_piece p) = Inr (s1, [piece_block p])" "open_line s1 = []" "done_lines s1 = []" "count s1 = 0"
  proof (cases p)
    case (EventPiece e)
    then show ?thesis using that byte_run_event [of "block_of_event e" s] Cons.prems by (simp add: streamable_def)
  next
    case (CommentPiece comment)
    then show ?thesis using that byte_run_comment [of comment s] Cons.prems by simp
  qed
  obtain s' where "byte_run s1 (wire_pieces ps) = Inr (s', map piece_block ps)"
    using Cons.IH [of s1] Cons.prems s1 by auto
  then show ?case using s1(1) by (simp add: byte_run_append)
qed simp

text \<open>What arrives of a stream is a prefix of its pieces.\<close>

lemma seen_after_pieces:
  "seen_after (Some cursor) (map piece_block ps) = Some (latest_id cursor (map piece_item ps))"
proof (induction ps arbitrary: cursor)
  case (Cons p ps)
  then show ?case by (cases p) (simp_all add: latest_id_def block_of_event_def)
qed (simp add: latest_id_def)

lemma feed_prefix:
  assumes "list_all piece_ok ps" and "validCursor cursor" and "concat chunks @ missing = wire_pieces ps"
  shows "\<exists>p k. feed_all (newSseParser (Some cursor)) chunks = Inr (p, map piece_block (take k ps))
    \<and> closeSse p = Some (latest_id cursor (map piece_item (take k ps)))"
proof -
  let ?p = "newSseParser (Some cursor)"
  have inv: "parser_inv ?p" by (rule newSseParser_inv) (simp add: assms(2))
  obtain s' where whole: "byte_run (abs_parser ?p) (concat chunks @ missing) = Inr (s', map piece_block ps)"
    unfolding assms(3) using byte_run_pieces [OF assms(1), of "abs_parser ?p"] by (auto simp: abs_parser_def newSseParser_def)
  then obtain s1 b1 where first: "byte_run (abs_parser ?p) (concat chunks) = Inr (s1, b1)"
    unfolding byte_run_append by (cases "byte_run (abs_parser ?p) (concat chunks)") auto
  with whole obtain b2 where split_blocks: "b1 @ b2 = map piece_block ps"
    unfolding byte_run_append by (auto split: sum.splits)
  define k where "k = length b1"
  have b1: "b1 = map piece_block (take k ps)"
    using arg_cong [OF split_blocks, of "take k"] by (simp add: k_def take_map)
  from feed_all_refines [OF inv, of chunks] first obtain p where p: "feed_all ?p chunks = Inr (p, b1)" "abs_parser p = s1"
    by (cases "feed_all ?p chunks") auto
  have "seen_id s1 = seen_after (Some cursor) b1"
    using byte_run_seen [OF first] by (simp add: abs_parser_def newSseParser_def)
  then have "closeSse p = Some (latest_id cursor (map piece_item (take k ps)))"
    using p(2) unfolding b1 seen_after_pieces by (auto simp: closeSse_def abs_parser_def)
  then show ?thesis using p(1) b1 by blast
qed

lemma stream_items_append: "stream_items (a @ b) = thenO (stream_items a) (\<lambda>x. thenO (stream_items b) (\<lambda>y. Inr (x @ y)))"
proof (induction a rule: stream_items.induct)
  case (4 e blocks)
  then show ?case by (cases "decodeEventBlock e"; cases "stream_items blocks") (simp_all add: thenO_def split: sum.split)
qed (simp_all add: thenO_def split: sum.split)

lemma stream_run_feed:
  "feed_all p chunks = Inr (p', blocks) \<Longrightarrow> stream_items blocks = Inr items \<Longrightarrow>
   stream_run p given (map StreamChunk chunks @ inputs) = stream_run p' (given @ items) inputs"
proof (induction chunks arbitrary: p blocks items given)
  case (Cons c cs)
  then obtain p1 o1 o2 where f: "feedSse p c = Inr (p1, o1)" "feed_all p1 cs = Inr (p', o2)" "blocks = o1 @ o2"
    by (auto split: sum.splits)
  with Cons.prems(2) obtain i1 i2 where i: "stream_items o1 = Inr i1" "stream_items o2 = Inr i2" "items = i1 @ i2"
    by (auto simp: stream_items_append thenO_Inr)
  then show ?case using Cons.IH [OF f(2) i(2), of "given @ i1"] f(1) by (simp add: thenO_def)
qed simp

lemma stream_items_pieces: "list_all piece_ok ps \<Longrightarrow> stream_items (map piece_block ps) = Inr (map piece_item ps)"
proof (induction ps)
  case (Cons p ps)
  then show ?case by (cases p) (simp_all add: streamable_def block_decodes thenO_def)
qed simp

text \<open>
  A connection on which the manager writes the events after the cursor, with heartbeats between them, cut at
  any byte: the code meets the chunks and then an end, a lost connection or \<^verbatim>\<open>close\<close>.
\<close>

definition served :: "jstr \<Rightarrow> log_record list \<Rightarrow> jstr \<Rightarrow> stream_input list \<Rightarrow> bool" where
  "served base past cursor inputs \<longleftrightarrow>
     (\<exists>ps chunks missing ending. inputs = map StreamChunk chunks @ ending
        \<and> list_all piece_ok ps \<and> piece_events ps = visible_events (records_after base past cursor)
        \<and> concat chunks @ missing = wire_pieces ps
        \<and> (ending = [] \<or> ending = [StreamEnd] \<or> ending = [StreamLost] \<or> ending = [StreamShut]))"

lemma piece_events_take: "\<exists>others. piece_events ps = piece_events (take k ps) @ others"
  by (metis append_take_drop_id invalidations_append map_append)

lemma gives_latest:
  "visible_events (records_after base past cursor) = invalidations items @ others \<Longrightarrow>
   gives base past cursor (invalidations items) (latest_id cursor items)"
  using gives_events [of base past cursor "invalidations items" others]
  by (cases "invalidations items = []") (simp_all add: latest_id_def event_ids_invalidations last_map)

lemma served_faithful:
  assumes "served base past cursor inputs"
  shows "faithful base past cursor (Streamed (streamEvents x dropped cursor inputs))"
proof -
  have none: "faithful base past cursor (Streamed (not_streamed e))" for e
    using gives_latest [of base past cursor "[]"] by (simp add: not_streamed_def)
  obtain ps chunks missing ending where inputs: "inputs = map StreamChunk chunks @ ending" "list_all piece_ok ps"
    "piece_events ps = visible_events (records_after base past cursor)"
    "concat chunks @ missing = wire_pieces ps" "ending = [] \<or> ending = [StreamEnd] \<or> ending = [StreamLost] \<or> ending = [StreamShut]"
    using assms by (auto simp: served_def)
  show ?thesis
  proof (cases "validCursor cursor")
    case False
    then show ?thesis using none by (simp add: streamEvents_def del: faithful.simps)
  next
    case True
    obtain p k where p: "feed_all (newSseParser (Some cursor)) chunks = Inr (p, map piece_block (take k ps))"
      "closeSse p = Some (latest_id cursor (map piece_item (take k ps)))"
      using feed_prefix [OF inputs(2) True inputs(4)] by blast
    define items where "items = map piece_item (take k ps)"
    have "list_all piece_ok (take k ps)" using inputs(2) by (auto simp: list_all_iff dest: in_set_takeD)
    from stream_run_feed [OF p(1) stream_items_pieces [OF this], of "[]" ending]
    have "stream_run (newSseParser (Some cursor)) [] inputs = stream_run p items ending" by (simp add: inputs(1) items_def)
    then obtain outcome where k: "stream_run (newSseParser (Some cursor)) [] inputs = (items, outcome)"
      "case outcome of Inl _ \<Rightarrow> True | Inr v \<Rightarrow> v = latest_id cursor items"
      using inputs(5) p(2) by (auto simp: items_def)
    have "gives base past cursor (invalidations items) (latest_id cursor items)"
      using gives_latest piece_events_take [of ps k] inputs(3) unfolding items_def by metis
    then have "faithful base past cursor (Streamed \<lparr>st_items = items, st_outcome = outcome, st_accepted = True\<rparr>)"
      using k(2) by (cases outcome) simp_all
    then show ?thesis
      using none True k(1) by (auto simp: streamEvents_def simp del: faithful.simps split: sum.splits)
  qed
qed

section \<open>Runs of the loop\<close>

text \<open>
  The loop against a manager: each stream is served, and each batch is faithful.
\<close>

definition served_answer :: "jstr \<Rightarrow> log_record list \<Rightarrow> jstr \<Rightarrow> follow_answer \<Rightarrow> bool" where
  "served_answer base past cursor answer \<longleftrightarrow>
     (case answer of
        Streamed res \<Rightarrow> \<exists>x dropped inputs. res = streamEvents x dropped cursor inputs \<and> served base past cursor inputs
      | _ \<Rightarrow> faithful base past cursor answer)"

inductive follow_run :: "jstr \<Rightarrow> log_record list \<Rightarrow> follow_loop \<Rightarrow> bool" for base past where
  follow_run_start: "follow_run base past (newFollow base)"
| follow_run_step: "follow_run base past lo \<Longrightarrow> served_answer base past (fo_cursor lo) answer \<Longrightarrow> follow_step answer lo = Some lo'
    \<Longrightarrow> follow_run base past lo'"

lemma served_answer_faithful: "served_answer base past cursor answer \<Longrightarrow> faithful base past cursor answer"
  by (auto simp: served_answer_def simp del: faithful.simps intro: served_faithful split: follow_answer.splits)

lemma follow_run_following: "follow_run base past lo \<Longrightarrow> following base past lo"
  by (induction rule: follow_run.induct) (blast intro: following_start following_step served_answer_faithful)+

end
