(* ===== verification/TransportLaws.thy ===== *)
theory TransportLaws
  imports Transport
begin

text \<open>What an accepted response and a sent command are.\<close>

section \<open>Keys\<close>

lemma base64_alphabet: "length (js ''ABCDEFGHIJKLMNOPQRSTUVWXYZabcdefghijklmnopqrstuvwxyz0123456789-_'') = 64"
  "distinct (js ''ABCDEFGHIJKLMNOPQRSTUVWXYZabcdefghijklmnopqrstuvwxyz0123456789-_'')"
  "list_all id_unit (js ''ABCDEFGHIJKLMNOPQRSTUVWXYZabcdefghijklmnopqrstuvwxyz0123456789-_'')"
  by code_simp+

lemma base64_unit_eq: "base64_unit m = base64_unit n \<longleftrightarrow> m mod 64 = n mod 64"
  using base64_alphabet(1,2) by (simp add: base64_unit_def nth_eq_iff_index_eq)

lemma base64_unit_id: "id_unit (base64_unit n)"
  using base64_alphabet(1,3) by (simp add: base64_unit_def list_all_length)

lemma base64url_ids: "list_all id_unit (base64url bytes)"
  by (induction bytes rule: base64url.induct) (simp_all add: base64_unit_id)

lemma base64url_length: "length (base64url bytes) = (4 * length bytes + 2) div 3"
  by (induction bytes rule: base64url.induct) simp_all

lemma byte_bound: "unat (b :: u8) < 256"
  using unsigned_less [of b, where 'a = nat] by simp

text \<open>The bits that a sextet takes of two bytes.\<close>

lemma high_sextet: "a < 256 \<Longrightarrow> a div 4 mod 64 = a div (4 :: nat)"
  by simp

lemma middle_sextet: "x < 16 \<Longrightarrow> (a * 16 + x) mod 64 = a mod 4 * 16 + (x :: nat)"
  using mod_mult_mult1 [of 16 a 4] mod_add_eq [of "a * 16" 64 x] by (simp add: mult.commute)

lemma low_sextet: "x < 4 \<Longrightarrow> (b * 4 + x) mod 64 = b mod 16 * 4 + (x :: nat)"
  using mod_mult_mult1 [of 4 b 16] mod_add_eq [of "b * 4" 64 x] by (simp add: mult.commute)

lemma digits_eq: "x < k \<Longrightarrow> y < k \<Longrightarrow> m * k + x = n * k + y \<longleftrightarrow> m = n \<and> x = (y :: nat)"
  by (metis add.commute mod_mult_self3 mod_less mult_cancel2 not_less0 add_right_cancel)

lemma quotient_rest: "(a :: nat) div k = b div k \<Longrightarrow> a mod k = b mod k \<Longrightarrow> a = b"
  by (metis div_mult_mod_eq)

lemma sextets:
  fixes a b c a' b' c' :: nat
  assumes "a < 256" "b < 256" "c < 256" "a' < 256" "b' < 256" "c' < 256"
  shows "a div 4 mod 64 = a' div 4 mod 64 \<Longrightarrow> a * 16 mod 64 = a' * 16 mod 64 \<Longrightarrow> a = a'"
    and "a div 4 mod 64 = a' div 4 mod 64 \<Longrightarrow> (a * 16 + b div 16) mod 64 = (a' * 16 + b' div 16) mod 64 \<Longrightarrow>
      b * 4 mod 64 = b' * 4 mod 64 \<Longrightarrow> a = a' \<and> b = b'"
    and "a div 4 mod 64 = a' div 4 mod 64 \<Longrightarrow> (a * 16 + b div 16) mod 64 = (a' * 16 + b' div 16) mod 64 \<Longrightarrow>
      (b * 4 + c div 64) mod 64 = (b' * 4 + c' div 64) mod 64 \<Longrightarrow> c mod 64 = c' mod 64 \<Longrightarrow> a = a' \<and> b = b' \<and> c = c'"
proof -
  have small: "b div 16 < 16" "b' div 16 < 16" "c div 64 < 4" "c' div 64 < 4" using assms by simp_all
  note high = high_sextet [OF assms(1)] high_sextet [OF assms(4)]
  note zero = middle_sextet [of 0, simplified] low_sextet [of 0, simplified]
  note middle = middle_sextet [OF small(1)] middle_sextet [OF small(2)]
  note low = low_sextet [OF small(3)] low_sextet [OF small(4)]
  show "a div 4 mod 64 = a' div 4 mod 64 \<Longrightarrow> a * 16 mod 64 = a' * 16 mod 64 \<Longrightarrow> a = a'"
    unfolding high zero using quotient_rest [of a 4 a'] by simp
  show "a div 4 mod 64 = a' div 4 mod 64 \<Longrightarrow> (a * 16 + b div 16) mod 64 = (a' * 16 + b' div 16) mod 64 \<Longrightarrow>
      b * 4 mod 64 = b' * 4 mod 64 \<Longrightarrow> a = a' \<and> b = b'"
    unfolding high zero middle digits_eq [OF small(1,2)] using quotient_rest [of a 4 a'] quotient_rest [of b 16 b'] by simp
  show "a div 4 mod 64 = a' div 4 mod 64 \<Longrightarrow> (a * 16 + b div 16) mod 64 = (a' * 16 + b' div 16) mod 64 \<Longrightarrow>
      (b * 4 + c div 64) mod 64 = (b' * 4 + c' div 64) mod 64 \<Longrightarrow> c mod 64 = c' mod 64 \<Longrightarrow> a = a' \<and> b = b' \<and> c = c'"
    unfolding high middle low digits_eq [OF small(1,2)] digits_eq [OF small(3,4)]
    using quotient_rest [of a 4 a'] quotient_rest [of b 16 b'] quotient_rest [of c 64 c'] by simp
qed

lemma byte_eq: "unat (a :: u8) = unat b \<longleftrightarrow> a = b"
  by (rule word_unat_eq_iff [symmetric])

lemma base64url_inject: "length xs = length ys \<Longrightarrow> base64url xs = base64url ys \<Longrightarrow> xs = ys"
proof (induction xs arbitrary: ys rule: base64url.induct)
  case (2 a)
  then obtain a' where ys: "ys = [a']" by (metis length_0_conv length_Suc_conv)
  then show ?case
    using 2 sextets(1) [OF byte_bound byte_bound byte_bound byte_bound byte_bound byte_bound, of a a'] by (auto simp: base64_unit_eq byte_eq)
next
  case (3 a b)
  then obtain a' b' where ys: "ys = [a', b']" by (metis length_0_conv length_Suc_conv)
  then show ?case
    using 3 sextets(2) [OF byte_bound byte_bound byte_bound byte_bound byte_bound byte_bound, of a a' b b'] by (auto simp: base64_unit_eq byte_eq)
next
  case (4 a b c rest)
  then obtain a' b' c' rest' where ys: "ys = a' # b' # c' # rest'" "length rest = length rest'"
    by (metis (no_types, lifting) length_Suc_conv)
  then show ?case
    using 4 sextets(3) [OF byte_bound byte_bound byte_bound byte_bound byte_bound byte_bound, of a a' b b' c c']
    by (auto simp: base64_unit_eq byte_eq)
qed simp

lemma unit_literals:
  "unat (0x21 :: unit16) = 33" "unat (0x7e :: unit16) = 126" "unat (45 :: unit16) = 45" "unat (95 :: unit16) = 95"
  "unat (48 :: unit16) = 48" "unat (57 :: unit16) = 57" "unat (65 :: unit16) = 65" "unat (90 :: unit16) = 90"
  "unat (97 :: unit16) = 97" "unat (122 :: unit16) = 122"
  by simp_all

lemma id_unit_printable: "id_unit c \<Longrightarrow> 0x21 \<le> c \<and> c \<le> 0x7e"
  unfolding id_unit_def is_letter_def is_digit_def word_le_nat_alt word_unat_eq_iff unit_literals by linarith

lemma commandKey_valid: "commandKey r epoch = Inr k \<Longrightarrow> length r = 16 \<Longrightarrow> validKey k"
proof -
  assume a: "commandKey r epoch = Inr k" "length r = 16"
  then have k: "k = epoch @ 46 # base64url r" "validId epoch" "length epoch \<le> 105"
    by (auto simp: commandKey_def js_def split: if_splits)
  then have "list_all id_unit epoch" by (simp add: validId_def)
  then show ?thesis
    using k(3) base64url_length [of r] base64url_ids [of r] a(2)
    by (auto simp: validKey_def k(1) list_all_iff dest: id_unit_printable)
qed

section \<open>Responses\<close>

lemma fence_Inr [simp]: "fence gone m = Inr x \<longleftrightarrow> \<not> gone \<and> m = Inr x"
  by (simp add: fence_def)

lemma body_chunks_Inr:
  "body_chunks limit body ended chunks = Inr bytes \<Longrightarrow> length body \<le> limit \<Longrightarrow>
   bytes = body @ concat chunks \<and> length bytes \<le> limit \<and> ended"
  by (induction limit body ended chunks rule: body_chunks.induct) (auto split: if_splits)

lemma consume_body_Inr:
  "consume_body x headers limit = Inr bytes \<Longrightarrow>
   bytes = concat (ex_chunks x) \<and> length bytes \<le> limit \<and> ex_ended x \<and> \<not> ex_closed_result x"
  using body_chunks_Inr [of limit "[]" "ex_ended x" "ex_chunks x" bytes]
  by (auto simp: consume_body_def split: option.splits if_splits)

lemma open_exchange_Inr:
  "open_exchange x resource = Inr opened \<Longrightarrow>
   is_sent x resource \<and> \<not> ex_closed_open x \<and> \<not> (300 \<le> op_status opened \<and> op_status opened < 400)
   \<and> \<not> map_has (op_headers opened) (js ''content-encoding'')
   \<and> (\<exists>raw. ex_answer x = NetResponse (op_status opened) raw \<and> op_headers opened = first_values [] raw)"
  by (auto simp: open_exchange_def is_sent_def responseHeaders_def Let_def fence_def split: sum.splits if_splits net_answer.splits)

lemma json_response_Inr:
  "json_response status headers bytes = Inr r \<Longrightarrow>
   200 \<le> re_status r \<and> re_status r < 300 \<and> re_status r = status \<and> json_body bytes = Some (re_value r) \<and> re_bytes r = length bytes
   \<and> mediaType headers = Some (js ''application/json'') \<and> no_store headers
   \<and> (\<exists>fs n. re_value r = JObj fs \<and> map_of fs (js ''version'') = Some (JNum n) \<and> numberEqual n (js ''1''))
   \<and> (case re_etag r of None \<Rightarrow> True | Some t \<Rightarrow> validETag t) \<and> (case re_location r of None \<Rightarrow> True | Some l \<Rightarrow> validResource l)"
  by (auto simp: json_response_def Let_def jsonMember_def split: if_splits option.splits json.splits)

lemma exchangeJson_Inr:
  "exchangeJson x resource = Inr r \<Longrightarrow> \<exists>headers. \<not> ex_closed_result x \<and> is_sent x resource \<and> re_bytes r \<le> RESPONSE_BYTES
    \<and> json_response (re_status r) headers (concat (ex_chunks x)) = Inr r"
proof -
  assume "exchangeJson x resource = Inr r"
  then obtain opened bytes where o: "open_exchange x resource = Inr opened" "consume_body x (op_headers opened) RESPONSE_BYTES = Inr bytes"
    "json_response (op_status opened) (op_headers opened) bytes = Inr r"
    by (auto simp: exchangeJson_def thenO_Inr)
  from json_response_Inr [OF o(3)] consume_body_Inr [OF o(2)] open_exchange_Inr [OF o(1)] o(3) show ?thesis by auto
qed

end
