(* ===== verification/ManagerProperties.thy ===== *)
theory ManagerProperties
  imports FollowingLaws TransportLaws StreamProperties
begin

text \<open>
  The properties of the manager client's transport: what a followed log delivers, what an idempotency key
  is, and what an accepted response or download has passed.
\<close>

section \<open>The follow loop\<close>

text \<open>
  C7: Every event once, in order. Let \<open>past\<close> be the log of the manager after the cursor \<open>base\<close>: events, and records
  that the credential cannot see. The loop may meet any sequence of answers: streams of the events with heartbeats
  between them, cut at any byte and split into any chunks, ended, lost or closed, refused connections, batches
  that scan some of the next records and whose cursor passes the unseen ones, failures, pauses and changes of the
  preference. The log is then always split into the records that the loop has passed and the rest: it delivered
  exactly the events among those it passed, each once and in order, its cursor is the last record passed, every
  connection and every batch resumed after a record that it had passed or at the start, and the wait before a
  reconnection is at most 30 seconds.
\<close>

theorem events_are_delivered_once:
  assumes "follow_run base past lo" and "distinct (base # map record_id past)"
  shows "\<exists>seen rest. past = seen @ rest \<and> delivered_events lo = visible_events seen
    \<and> fo_cursor lo = (if seen = [] then base else record_id (last seen))
    \<and> (\<forall>(_, c) \<in> set (fo_connected lo). c = base \<or> c \<in> record_id ` set seen)
    \<and> fo_wait lo \<le> 30"
proof -
  have inv: "follow_inv base past lo" by (rule following_inv [OF follow_run_following [OF assms(1)] assms(2)])
  then obtain seen where seen: "passed base past lo seen" unfolding follow_inv_def by blast
  then have "seen @ records_after base past (fo_cursor lo) = past" unfolding passed_def by blast
  note this [symmetric]
  moreover have "delivered_events lo = visible_events seen"
    "fo_cursor lo = (if seen = [] then base else record_id (last seen))"
    "\<forall>(_, c) \<in> set (fo_connected lo). c = base \<or> c \<in> record_id ` set seen"
    using seen unfolding passed_def reached_def by blast+
  moreover have "fo_wait lo \<le> 30" using inv unfolding follow_inv_def by blast
  ultimately show ?thesis by blast
qed

definition sample_base :: jstr where "sample_base = js ''s.6''"

text \<open>An event, and after it a record that the credential cannot see; the batch passes both.\<close>

definition sample_log :: "log_record list" where
  "sample_log = [Visible sample_update, Unseen (js ''s.8'')]"

definition sample_scan :: event_batch where
  "sample_scan = sample_batch\<lparr>eb_cursor := js ''s.8''\<rparr>"

definition sample_exchange :: exchange where
  "sample_exchange = \<lparr>ex_closed = False, ex_authorization = Inr (js ''Bearer x''), ex_closed_send = False, ex_answer = NetFailed,
     ex_closed_open = False, ex_chunks = [], ex_ended = False, ex_closed_result = False\<rparr>"

definition sample_answers :: "follow_answer list" where
  "sample_answers =
     [Preferred PreferSse, Streamed (streamEvents sample_exchange False sample_base []), Woken False PreferPoll False,
      Preferred PreferPoll, Polled False (Inr sample_scan)]"

fun follow_all :: "follow_answer list \<Rightarrow> follow_loop \<Rightarrow> follow_loop option" where
  "follow_all [] lo = Some lo"
| "follow_all (a # answers) lo = Option.bind (follow_step a lo) (follow_all answers)"

lemma sample_update_streamable: "streamable sample_update"
proof -
  let ?block = "block_of_event sample_update"
  let ?data = "js ''{\"resource\":\"/v1/runs/id-1\",\"revision\":\"id-1\",\"version\":1}''"
  have json: "encodeJson (encodeInvalidation sample_invalidation) = ?data"
    unfolding sample_invalidation_def sample_resource_def ident_def by code_simp
  have parts: "event_id ?block = Some sample_cursor" "event_name ?block = js ''run.changed''" "event_data ?block = ?data"
    by (simp_all add: block_of_event_def sample_update_def json)
  have texts: "event_texts ?block = [js ''id: s.7'', js ''event: run.changed'', js ''data: '' @ ?data]"
    unfolding event_texts_def parts sample_cursor_def by code_simp
  have "list_all (\<lambda>u. u < 0x80) (js ''id: s.7'')" "list_all (\<lambda>u. u < 0x80) (js ''event: run.changed'')"
    "list_all (\<lambda>u. u < 0x80) (js ''data: '' @ ?data)" by code_simp+
  then have "length (wire_event ?block) \<le> SSE_BLOCK_BYTES"
    by (simp add: wire_event_def wire_lines_def texts ascii_length SSE_BLOCK_BYTES_def)
  moreover have "well_formed (js ''run.changed'')" "well_formed ?data" by (rule ascii_well_formed, code_simp)+
  moreover have "10 \<notin> set (js ''run.changed'')" "13 \<notin> set (js ''run.changed'')" "13 \<notin> set ?data"
    by (simp_all add: js_def)
  ultimately have "wire_ok ?block" unfolding wire_ok_def parts by simp
  then show ?thesis using sample_update_ok by (simp add: streamable_def)
qed

lemma sample_log_distinct: "distinct (sample_base # map record_id sample_log)"
  by (simp add: sample_log_def sample_base_def sample_update_def sample_cursor_def js_def)

lemma follow_run_more:
  "follow_run base past lo \<Longrightarrow> follow_step a lo = Some lo' \<Longrightarrow> served_answer base past (fo_cursor lo) a \<Longrightarrow> follow_run base past lo'"
  by (rule follow_run_step)

lemma sample_not_streamed: "streamEvents sample_exchange False sample_base [] = not_streamed (Fixed TransportUnavailable)"
proof -
  have "validCursor sample_base" "validResource EVENTS_RESOURCE"
    unfolding sample_base_def EVENTS_RESOURCE_def by code_simp+
  then show ?thesis by (simp add: streamEvents_def open_exchange_def sample_exchange_def fence_def)
qed

lemma sample_follow:
  "\<exists>lo. follow_all sample_answers (newFollow sample_base) = Some lo \<and> follow_run sample_base sample_log lo
     \<and> delivered_events lo = [sample_update] \<and> fo_cursor lo = js ''s.8''"
proof -
  let ?b = sample_base and ?past = sample_log
  define lo1 where "lo1 = connect ViaStream InStream (newFollow ?b)"
  have one: "follow_step (Preferred PreferSse) (newFollow ?b) = Some lo1" "fo_cursor lo1 = ?b" "fo_mode lo1 = InStream"
    "fo_failures lo1 = 0" "fo_items lo1 = []"
    by (simp_all add: lo1_def follow_step_def newFollow_def connect_def)
  define lo2 where "lo2 = after_stream (not_streamed (Fixed TransportUnavailable)) lo1"
  have two: "follow_step (Streamed (not_streamed (Fixed TransportUnavailable))) lo1 = Some lo2" "fo_cursor lo2 = ?b"
    "fo_mode lo2 = Pause" "fo_items lo2 = []"
    using one by (simp_all add: lo2_def follow_step_def after_stream_def not_streamed_def latest_id_def followEnd_def
      is_refused_def STREAM_FAILURE_LIMIT_def Let_def split_def)
  define lo3 where "lo3 = connect ViaPoll (InPoll ByPreference) (lo2\<lparr>fo_mode := AtTop\<rparr>)"
  have three: "follow_step (Woken False PreferPoll False) lo2 = Some (lo2\<lparr>fo_mode := AtTop\<rparr>)"
    "follow_step (Preferred PreferPoll) (lo2\<lparr>fo_mode := AtTop\<rparr>) = Some lo3" "fo_cursor lo3 = ?b"
    "fo_mode lo3 = InPoll ByPreference" "fo_items lo3 = []"
    using two by (simp_all add: lo3_def follow_step_def connect_def)
  define lo4 where "lo4 = after_poll ByPreference False (Inr sample_scan) lo3"
  have four: "follow_step (Polled False (Inr sample_scan)) lo3 = Some lo4" "delivered_events lo4 = [sample_update]" "fo_cursor lo4 = js ''s.8''"
    using three by (simp_all add: lo4_def follow_step_def after_poll_def sample_scan_def sample_batch_def Let_def delivered_events_def)
  have "follow_all sample_answers (newFollow ?b) = Some lo4"
    by (simp add: sample_answers_def sample_not_streamed one two three four)
  moreover have "follow_run ?b ?past lo1" by (rule follow_run_more [OF follow_run_start one(1)]) (simp add: served_answer_def)
  moreover have "served ?b ?past ?b []"
    unfolding served_def by (rule exI [of _ "map EventPiece [sample_update]"]) (use sample_update_streamable in \<open>simp add: sample_log_def records_after_def\<close>)
  then have "served_answer ?b ?past (fo_cursor lo1) (Streamed (not_streamed (Fixed TransportUnavailable)))"
    unfolding served_answer_def one(2) follow_answer.case using sample_not_streamed by metis
  then have "follow_run ?b ?past lo2" using \<open>follow_run ?b ?past lo1\<close> two(1) by (rule follow_run_more [rotated 2])
  moreover have "follow_run ?b ?past lo3"
    by (rule follow_run_more [OF follow_run_more [OF \<open>follow_run ?b ?past lo2\<close> three(1)] three(2)]) (simp_all add: served_answer_def)
  moreover have "follow_run ?b ?past lo4"
    by (rule follow_run_more [OF \<open>follow_run ?b ?past lo3\<close> four(1)])
       (use exI [of _ sample_log] in \<open>simp add: served_answer_def three(3) gives_def records_after_def reached_def sample_scan_def sample_batch_def sample_log_def\<close>)
  ultimately show ?thesis using four by blast
qed

theorem events_are_delivered_once_witness:
  "\<exists>lo seen. follow_all sample_answers (newFollow sample_base) = Some lo \<and> delivered_events lo = visible_events seen
     \<and> last seen = Unseen (js ''s.8'')"
proof -
  obtain lo where lo: "follow_all sample_answers (newFollow sample_base) = Some lo" "follow_run sample_base sample_log lo"
    "fo_cursor lo = js ''s.8''"
    using sample_follow by blast
  from events_are_delivered_once [OF lo(2) sample_log_distinct] obtain seen rest
    where seen: "sample_log = seen @ rest" "delivered_events lo = visible_events seen"
      "js ''s.8'' = (if seen = [] then sample_base else record_id (last seen))"
    unfolding lo(3) by blast
  moreover have "last seen = Unseen (js ''s.8'')"
    using seen(1,3) by (cases seen; cases "tl seen") (auto simp: sample_log_def Cons_eq_append_conv sample_base_def sample_update_def sample_cursor_def js_def)
  ultimately show ?thesis using lo(1) by blast
qed

section \<open>Keys\<close>

lemma append_separator_eq: "c \<notin> set xs \<Longrightarrow> c \<notin> set ys \<Longrightarrow> xs @ c # us = ys @ c # vs \<longleftrightarrow> xs = ys \<and> us = vs"
proof (induction xs arbitrary: ys)
  case Nil
  then show ?case by (cases ys) auto
next
  case (Cons x xs)
  then show ?case by (cases ys) auto
qed

text \<open>
  Keys of commands. The idempotency key of a new command is a valid key of at most 128 characters,
  and two keys are equal only for the same authority epoch and the same sixteen random bytes.
\<close>

theorem command_keys_are_unique:
  assumes "commandKey r epoch = Inr k" and "commandKey r' epoch' = Inr k'" and "length r = 16" and "length r' = 16"
  shows "validKey k \<and> (k = k' \<longleftrightarrow> epoch = epoch' \<and> r = r')"
proof -
  have k: "k = epoch @ 46 # base64url r" "k' = epoch' @ 46 # base64url r'" "validId epoch" "validId epoch'" "length epoch \<le> 105"
    using assms(1,2) by (auto simp: commandKey_def js_def split: if_splits)
  have dotless: "46 \<notin> set s" if "list_all id_unit s" for s
    using that by (auto simp: list_all_iff)
  have "list_all id_unit epoch" "list_all id_unit epoch'" using k(3,4) by (simp_all add: validId_def)
  then have "k = k' \<longleftrightarrow> epoch = epoch' \<and> base64url r = base64url r'"
    unfolding k using dotless append_separator_eq [of 46] by blast
  moreover have "base64url r = base64url r' \<longleftrightarrow> r = r'" using base64url_inject [of r r'] assms(3,4) by auto
  moreover have "validKey k" using commandKey_valid [OF assms(1,3)] .
  ultimately show ?thesis by blast
qed

theorem command_keys_are_unique_witness:
  "commandKey (replicate 16 0) ident \<noteq> commandKey (replicate 16 1) ident"
proof -
  have "\<exists>k. commandKey r ident = Inr k" for r by (simp add: commandKey_def) (simp add: ident_def js_def)
  then obtain k k' where k: "commandKey (replicate 16 0) ident = Inr k" "commandKey (replicate 16 1) ident = Inr k'" by metis
  from command_keys_are_unique [OF k] k show ?thesis by auto
qed

section \<open>Responses\<close>

text \<open>
  C16: Accepted responses. A response that an exchange accepts answers a request that was sent to a valid
  resource with a bearer, by a transport that was not closed meanwhile. Its status is 2xx and not a
  redirect; its body ended, has at most one MiB and is the JSON text of an object of version 1, served as
  \<^verbatim>\<open>application/json\<close> with \<^verbatim>\<open>no-store\<close>; and its entity tag and location are valid.
\<close>

theorem accepted_response_is_checked:
  assumes "exchangeJson x resource = Inr r"
  shows "is_sent x resource \<and> validResource resource \<and> \<not> ex_closed_result x
    \<and> 200 \<le> re_status r \<and> re_status r < 300
    \<and> re_bytes r = length (concat (ex_chunks x)) \<and> re_bytes r \<le> 1048576
    \<and> json_body (concat (ex_chunks x)) = Some (re_value r)
    \<and> (\<exists>fs n. re_value r = JObj fs \<and> map_of fs (js ''version'') = Some (JNum n) \<and> numberEqual n (js ''1''))
    \<and> (case re_etag r of None \<Rightarrow> True | Some t \<Rightarrow> validETag t)
    \<and> (case re_location r of None \<Rightarrow> True | Some l \<Rightarrow> validResource l)"
proof -
  obtain headers where r: "\<not> ex_closed_result x" "is_sent x resource" "re_bytes r \<le> RESPONSE_BYTES"
    "json_response (re_status r) headers (concat (ex_chunks x)) = Inr r"
    using exchangeJson_Inr [OF assms] by blast
  have "validResource resource" using r(2) by (simp add: is_sent_def)
  with json_response_Inr [OF r(4)] r show ?thesis unfolding RESPONSE_BYTES_def by blast
qed

definition sample_headers :: "(jstr \<times> jstr) list" where
  "sample_headers =
     [(js ''Content-Type'', js ''application/json; charset=utf-8''), (js ''Cache-Control'', js ''no-store''),
      (js ''ETag'', [34] @ ident @ [34])]"

definition sample_accepted :: exchange where
  "sample_accepted = sample_exchange\<lparr>ex_answer := NetResponse 200 sample_headers,
     ex_chunks := [utf8_encode (js ''{\"version\":1}'')], ex_ended := True\<rparr>"

lemma sample_accepted_response:
  "exchangeJson sample_accepted sample_resource =
     Inr \<lparr>re_status = 200, re_value = JObj [(js ''version'', JNum (js ''1''))], re_etag = Some ([34] @ ident @ [34]),
          re_location = None, re_bytes = 13\<rparr>"
proof -
  let ?text = "js ''{\"version\":1}''"
  have ascii: "list_all (\<lambda>u. u < 0x80) ?text" by code_simp
  have body: "json_body (utf8_encode ?text) = tryParseJson ?text"
    using ascii_well_formed [OF ascii] by (simp add: json_body_def utf8_decode_encode)
  have parsed: "tryParseJson ?text = Some (JObj [(js ''version'', JNum (js ''1''))])" by code_simp
  let ?headers = "first_values [] sample_headers"
  have headers: "responseHeaders 200 sample_headers = Inr \<lparr>op_status = 200, op_headers = ?headers\<rparr>"
    "mediaType ?headers = Some (js ''application/json'')" "no_store ?headers" "map_of ?headers (js ''etag'') = Some ([34] @ ident @ [34])"
    "map_of ?headers (js ''location'') = None" "map_of ?headers (js ''content-length'') = None"
    unfolding sample_headers_def ident_def by code_simp+
  have checks: "validETag ([34] @ ident @ [34])" "numberEqual (js ''1'') (js ''1'')" unfolding ident_def by code_simp+
  have opened: "open_exchange sample_accepted sample_resource = Inr \<lparr>op_status = 200, op_headers = ?headers\<rparr>"
    by (simp add: open_exchange_def sample_accepted_def sample_exchange_def fence_def headers)
  have "length (utf8_encode ?text) = 13" using ascii_length [OF ascii] by (simp add: js_def)
  then have "consume_body sample_accepted ?headers RESPONSE_BYTES = Inr (utf8_encode ?text)"
    by (simp add: consume_body_def declared_length_def headers sample_accepted_def sample_exchange_def RESPONSE_BYTES_def fence_def)
  then show ?thesis using \<open>length (utf8_encode ?text) = 13\<close> checks
    by (simp add: exchangeJson_def thenO_def opened json_response_def headers body parsed jsonMember_def Let_def)
qed

theorem accepted_response_is_checked_witness:
  "\<exists>r. exchangeJson sample_accepted sample_resource = Inr r \<and> re_bytes r = length (concat (ex_chunks sample_accepted))
     \<and> is_sent sample_accepted sample_resource"
  using sample_accepted_response accepted_response_is_checked [OF sample_accepted_response] by blast

section \<open>Downloads\<close>

text \<open>
  C17: Verified downloads. An artifact is given only with the exact bytes that were received, at most 64 MiB
  of them, of the stated size and SHA-256, in a complete body of a 200 response to a request that was sent.
\<close>

theorem downloads_are_verified:
  assumes "downloadVerified sha256 x resource stated digest = Inr bytes"
  shows "bytes = concat (ex_chunks x) \<and> int (length bytes) = stated \<and> length bytes \<le> 67108864
    \<and> sha256 bytes = digest \<and> validDigest digest
    \<and> ex_ended x \<and> \<not> ex_closed_result x \<and> is_sent x resource
    \<and> (case ex_answer x of NetFailed \<Rightarrow> False | NetResponse status _ \<Rightarrow> status = 200)"
proof -
  obtain opened where o: "open_exchange x resource = Inr opened"
    "consume_body x (op_headers opened) (if op_status opened = 200 then ARTIFACT_BYTES else RESPONSE_BYTES) = Inr bytes"
    "op_status opened = 200" "int (length bytes) = stated" "sha256 bytes = digest" "sha256_text digest"
    using assms by (auto simp: downloadVerified_def thenO_Inr Let_def split: if_splits)
  have body: "bytes = concat (ex_chunks x)" "length bytes \<le> 67108864" "ex_ended x" "\<not> ex_closed_result x"
    using consume_body_Inr [OF o(2)] o(3) by (auto simp: ARTIFACT_BYTES_def)
  have "is_sent x resource \<and> (case ex_answer x of NetFailed \<Rightarrow> False | NetResponse status _ \<Rightarrow> status = 200)"
    using open_exchange_Inr [OF o(1)] o(3) by auto
  with body o(4-6) show ?thesis unfolding validDigest_def by blast
qed

definition sample_download_headers :: "(jstr \<times> jstr) list" where
  "sample_download_headers =
     [(js ''content-type'', js ''application/octet-stream''), (js ''cache-control'', js ''no-store''),
      (js ''x-content-type-options'', js ''nosniff''), (js ''content-disposition'', js ''attachment; filename=a'')]"

definition sample_download :: exchange where
  "sample_download = sample_exchange\<lparr>ex_answer := NetResponse 200 sample_download_headers, ex_chunks := [[1, 2], [3]], ex_ended := True\<rparr>"

lemma sample_downloaded: "downloadVerified (\<lambda>_. sample_digest) sample_download sample_resource 3 sample_digest = Inr [1, 2, 3]"
proof -
  let ?headers = "first_values [] sample_download_headers"
  have headers: "responseHeaders 200 sample_download_headers = Inr \<lparr>op_status = 200, op_headers = ?headers\<rparr>"
    "mediaType ?headers = Some (js ''application/octet-stream'')" "no_store ?headers"
    "map_of ?headers (js ''x-content-type-options'') = Some (js ''nosniff'')" "map_of ?headers (js ''content-length'') = None"
    "map_of ?headers (js ''content-disposition'') = Some (js ''attachment; filename=a'')"
    unfolding sample_download_headers_def by code_simp+
  have attachment: "starts_with (js ''attachment; filename=a'') (js ''attachment'')" by code_simp
  have opened: "open_exchange sample_download sample_resource = Inr \<lparr>op_status = 200, op_headers = ?headers\<rparr>"
    by (simp add: open_exchange_def sample_download_def sample_exchange_def fence_def headers)
  have "consume_body sample_download ?headers ARTIFACT_BYTES = Inr [1, 2, 3]"
    by (simp add: consume_body_def declared_length_def headers sample_download_def sample_exchange_def ARTIFACT_BYTES_def fence_def)
  moreover have "sha256_text sample_digest" using sample_digest_valid by (simp add: validDigest_def)
  ultimately show ?thesis
    by (simp add: downloadVerified_def thenO_def opened headers attachment Let_def) (simp add: ARTIFACT_BYTES_def)
qed

theorem downloads_are_verified_witness:
  "downloadVerified (\<lambda>_. sample_digest) sample_download sample_resource 3 sample_digest = Inr [1, 2, 3]
   \<and> is_sent sample_download sample_resource"
  using sample_downloaded downloads_are_verified [OF sample_downloaded] by blast

end
