(* ===== verification/Pages.thy ===== *)
theory Pages
  imports Transport Runs
begin

text \<open>
  What a manager session reads when it connects (\<^verbatim>\<open>manager/session.ts\<close>): the capabilities and their check,
  page sets, and the overview that is assembled from the page set of \<^verbatim>\<open>/v1/snapshot\<close>. A page set is read page
  by page; an answer says what one page met, and until the last answer there is no result.
\<close>

section \<open>References\<close>

record reference =
  rf_endpoint :: jstr
  rf_uri :: jstr

definition referenceOf :: "jstr \<Rightarrow> jstr \<Rightarrow> reference outcome" where
  "referenceOf identity uri =
     (if validResource uri then Inr \<lparr>rf_endpoint = identity, rf_uri = uri\<rparr> else Inl (Fixed InvalidEndpoint))"

definition OVERVIEW :: jstr where "OVERVIEW = js ''/v1/snapshot''"

section \<open>Readers\<close>

definition exactFields :: "json_value option \<Rightarrow> jstr list \<Rightarrow> json_members option" where
  "exactFields value names =
     (case value of
        Some (JObj fs) \<Rightarrow> if length fs = length names \<and> list_all (map_has fs) names then Some fs else None
      | _ \<Rightarrow> None)"

definition text_item :: "json_value \<Rightarrow> jstr option" where
  "text_item value = (case value of JStr s \<Rightarrow> Some s | _ \<Rightarrow> None)"

definition text_items :: "json_value option \<Rightarrow> jstr list option" where
  "text_items value =
     (case value of
        Some (JArr items) \<Rightarrow>
          (let strings = List.map_filter text_item items in if length strings = length items then Some strings else None)
      | _ \<Rightarrow> None)"

definition integer_of :: "json_value \<Rightarrow> int option" where
  "integer_of value = (case value of JNum n \<Rightarrow> boundedInteger n (-2147483648) 2147483647 | _ \<Rightarrow> None)"

definition integers :: "json_value option \<Rightarrow> int list option" where
  "integers value =
     (case value of
        Some (JArr items) \<Rightarrow>
          if list_all (\<lambda>item. integer_of item \<noteq> None) items then Some (List.map_filter integer_of items) else None
      | _ \<Rightarrow> None)"

definition text_member :: "json_members \<Rightarrow> string \<Rightarrow> jstr option" where
  "text_member own name = (case jsonMember own (js name) of Some (JStr s) \<Rightarrow> Some s | _ \<Rightarrow> None)"

definition number_member :: "json_members \<Rightarrow> string \<Rightarrow> jstr option" where
  "number_member own name = (case jsonMember own (js name) of Some (JNum n) \<Rightarrow> Some n | _ \<Rightarrow> None)"

definition limitOf :: "json_members \<Rightarrow> jstr \<Rightarrow> int option" where
  "limitOf own name =
     (case jsonMember own name of Some (JNum n) \<Rightarrow> boundedInteger n (- (2 ^ 63)) (2 ^ 63) | _ \<Rightarrow> None)"

section \<open>Capabilities\<close>

definition NUMERIC_VERSIONS :: "(jstr \<times> int list) list" where
  "NUMERIC_VERSIONS =
     [(js ''api'', [1]), (js ''snapshot'', [1]), (js ''event'', [1]), (js ''descriptor'', [2, 3]), (js ''frontendSession'', [1, 2]),
      (js ''control'', [1, 2]), (js ''runtimeProtocol'', [1, 2, 3]), (js ''runtimeStore'', [1, 2]),
      (js ''managerStore'', [1, 2, 3, 4, 5, 6, 7, 8, 9, 10, 11, 12]), (js ''invocation'', [1])]"

definition FIXED_LIMITS :: "(jstr \<times> int) list" where
  "FIXED_LIMITS =
     [(js ''requestTargetBytes'', 8192), (js ''headerBytes'', 16384), (js ''headerFields'', 100), (js ''jsonBodyBytes'', 2097152),
      (js ''jsonDepth'', 64), (js ''nativeControlBytes'', 1048576), (js ''captureBytes'', 67108864),
      (js ''aggregateInputBytes'', 67108864), (js ''artifactBytes'', 67108864), (js ''sseBlockBytes'', 16384),
      (js ''pageBytes'', 1048576), (js ''pageSetBytes'', 67108864), (js ''pageSetsPerClient'', 2),
      (js ''pageSetLifetimeSeconds'', 60), (js ''queuedRequests'', 100), (js ''maxReservations'', 16),
      (js ''reviewLifetimeSeconds'', 600), (js ''sseReadersPerClient'', 2), (js ''ssePendingBytesPerReader'', 1048576),
      (js ''replaySeconds'', 604800), (js ''replayBytes'', 268435456), (js ''heartbeatSeconds'', 15),
      (js ''reconnectIdleSeconds'', 45), (js ''reconnectBackoffMaxSeconds'', 30), (js ''ordinaryMutationsPerMinute'', 30)]"

definition CONFIGURED_LIMITS :: "(jstr \<times> int) list" where
  "CONFIGURED_LIMITS =
     map (\<lambda>name. (js name, 2147483647)) [''drafts'', ''globalDrafts'', ''globalCaptureBytes'', ''globalPageSets'',
       ''globalConnections'', ''globalDatabaseReaders'', ''globalMutationLedgerBytes'', ''safetyControlsPerMinute'']
     @ [(js ''executionReservations'', 16)]"

record checked_capabilities =
  ca_fields :: json_members
  ca_epoch :: jstr

definition versions_supported :: "json_members \<Rightarrow> bool" where
  "versions_supported own \<longleftrightarrow>
     (case exactFields (jsonMember own (js ''versions'')) (js ''frontendManifest'' # map fst NUMERIC_VERSIONS) of
        None \<Rightarrow> False
      | Some versions \<Rightarrow>
          (case text_items (jsonMember versions (js ''frontendManifest'')) of
             None \<Rightarrow> False
           | Some manifests \<Rightarrow>
               manifests \<noteq> [] \<and> distinct manifests
               \<and> list_all (\<lambda>name. name \<in> set [js ''legacy'', js ''2'', js ''3'']) manifests
               \<and> list_all (\<lambda>(name, supported).
                    case integers (jsonMember versions name) of
                      None \<Rightarrow> False
                    | Some values \<Rightarrow> values \<noteq> [] \<and> distinct values \<and> list_all (\<lambda>v. v \<in> set supported) values)
                  NUMERIC_VERSIONS))"

text \<open>The epoch of the fields, when they agree with the client.\<close>

definition fields_supported :: "json_members \<Rightarrow> jstr option" where
  "fields_supported own = do {
     version \<leftarrow> number_member own ''version'';
     epoch \<leftarrow> text_member own ''authorityEpoch'';
     stream \<leftarrow> text_member own ''streamId'';
     scopes \<leftarrow> text_items (jsonMember own (js ''scopes''));
     profiles \<leftarrow> text_items (jsonMember own (js ''profileIds''));
     transports \<leftarrow> text_items (jsonMember own (js ''transports''));
     require (boundedInteger version 1 1 \<noteq> None \<and> validId epoch \<and> length epoch \<le> 105 \<and> validId stream
       \<and> length scopes \<le> 4 \<and> distinct scopes
       \<and> list_all (\<lambda>scope. scope \<in> set [js ''observe'', js ''submit'', js ''control'', js ''export'']) scopes
       \<and> length profiles \<le> 256 \<and> list_all validId profiles \<and> distinct profiles
       \<and> length transports = 2 \<and> distinct transports
       \<and> list_all (\<lambda>name. name = js ''sse'' \<or> name = js ''polling'') transports);
     Some epoch
   }"

definition limits_supported :: "json_members \<Rightarrow> bool" where
  "limits_supported own \<longleftrightarrow>
     (case exactFields (jsonMember own (js ''limits'')) (map fst FIXED_LIMITS @ map fst CONFIGURED_LIMITS) of
        None \<Rightarrow> False
      | Some limits \<Rightarrow>
          list_all (\<lambda>(name, expected). limitOf limits name = Some expected) FIXED_LIMITS
          \<and> list_all (\<lambda>(name, maximum). case limitOf limits name of None \<Rightarrow> False | Some n \<Rightarrow> 0 < n \<and> n \<le> maximum) CONFIGURED_LIMITS)"

definition checkCapabilities :: "json_value \<Rightarrow> checked_capabilities outcome" where
  "checkCapabilities value =
     (case exactFields (Some value) (map js [''version'', ''authorityEpoch'', ''streamId'', ''versions'', ''scopes'',
         ''profileIds'', ''transports'', ''limits'']) of
        None \<Rightarrow> Inl (Fixed InvalidResponse)
      | Some own \<Rightarrow>
          if \<not> versions_supported own then Inl (Fixed UnsupportedVersion)
          else
            (case fields_supported own of
               None \<Rightarrow> Inl (Fixed InvalidResponse)
             | Some epoch \<Rightarrow>
                 if limits_supported own then Inr \<lparr>ca_fields = own, ca_epoch = epoch\<rparr> else Inl (Fixed InvalidResponse)))"

section \<open>Pages\<close>

text \<open>\<^verbatim>\<open>toUpperCase\<close> and \<^verbatim>\<open>Date.parse\<close>, which gives no number for a text that is no date.\<close>

record page_clock =
  pc_upper :: "jstr \<Rightarrow> jstr"
  pc_date :: "jstr \<Rightarrow> int option"

record page_info =
  pg_setId :: jstr
  pg_revision :: jstr
  pg_expiresAt :: jstr
  pg_expiry :: int
  pg_index :: int
  pg_total :: int
  pg_next :: "jstr option"

definition next_link :: "json_value option \<Rightarrow> jstr option option" where
  "next_link value =
     (case value of
        Some JNull \<Rightarrow> Some None
      | Some (JStr uri) \<Rightarrow> if validResource uri then Some (Some uri) else None
      | _ \<Rightarrow> None)"

definition pageInfo :: "page_clock \<Rightarrow> json_value option \<Rightarrow> page_info option" where
  "pageInfo clock value = do {
     own \<leftarrow> exactFields value (map js [''setId'', ''revision'', ''expiresAt'', ''index'', ''totalItems'', ''next'']);
     setId \<leftarrow> text_member own ''setId'';
     revision \<leftarrow> text_member own ''revision'';
     expiresAt \<leftarrow> text_member own ''expiresAt'';
     index \<leftarrow> number_member own ''index'';
     items_total \<leftarrow> number_member own ''totalItems'';
     onward \<leftarrow> next_link (jsonMember own (js ''next''));
     require (validId setId \<and> validId revision \<and> length expiresAt \<le> 40);
     expiry \<leftarrow> pc_date clock (pc_upper clock expiresAt);
     i \<leftarrow> boundedInteger index 0 65535;
     n \<leftarrow> boundedInteger items_total 0 1048576;
     Some \<lparr>pg_setId = setId, pg_revision = revision, pg_expiresAt = expiresAt, pg_expiry = expiry, pg_index = i, pg_total = n,
           pg_next = onward\<rparr>
   }"

text \<open>
  \<^verbatim>\<open>new URLSearchParams(query)\<close>: a leading question mark is dropped, a plus is a space, percent escapes are
  bytes, and the bytes are decoded with replacement.
\<close>

definition percent_digit :: "u8 \<Rightarrow> nat option" where
  "percent_digit b =
     (let n = unat b in
      if 48 \<le> n \<and> n \<le> 57 then Some (n - 48)
      else if 65 \<le> n \<and> n \<le> 70 then Some (n - 55)
      else if 97 \<le> n \<and> n \<le> 102 then Some (n - 87) else None)"

fun percent_decode :: "u8 list \<Rightarrow> u8 list" where
  "percent_decode (p # a # b # bytes) =
     (case (p = 37, percent_digit a, percent_digit b) of
        (True, Some high, Some low) \<Rightarrow> of_nat (16 * high + low) # percent_decode bytes
      | _ \<Rightarrow> p # percent_decode (a # b # bytes))"
| "percent_decode bytes = bytes"

definition form_decode :: "jstr \<Rightarrow> jstr" where
  "form_decode s = utf8_to_string (percent_decode (utf8_encode (map (\<lambda>c. if c = 43 then 32 else c) s)))"

definition query_pair :: "jstr \<Rightarrow> jstr \<times> jstr" where
  "query_pair s = (form_decode (takeWhile (\<lambda>c. c \<noteq> 61) s), form_decode (drop 1 (dropWhile (\<lambda>c. c \<noteq> 61) s)))"

definition query_pairs :: "jstr \<Rightarrow> (jstr \<times> jstr) list" where
  "query_pairs query =
     (let given = (if take 1 query = [63] then drop 1 query else query) in
      map query_pair (filter (\<lambda>s. s \<noteq> []) (split_on 38 given)))"

definition pageScope :: "jstr \<Rightarrow> jstr option" where
  "pageScope uri =
     (let path = takeWhile (\<lambda>c. c \<noteq> 63) uri;
          pairs = (if 63 \<in> set uri then query_pairs (drop 1 (dropWhile (\<lambda>c. c \<noteq> 63) uri)) else []) in
      if \<not> distinct (map fst pairs) then None
      else
        (let kept = sort_key fst (sort_key snd (filter (\<lambda>(name, _). name \<noteq> js ''pageToken'') pairs)) in
         Some (encodeJson (JArr [JStr path, JArr (map (\<lambda>(name, v). JArr [JStr name, JStr v]) kept)]))))"

definition repeatedFields :: "json_members \<Rightarrow> json_members" where
  "repeatedFields own = filter (\<lambda>(name, _). name \<noteq> js ''page'' \<and> name \<noteq> js ''items'') own"

section \<open>Page sets\<close>

definition PAGE_SET_BYTES :: int where "PAGE_SET_BYTES = 67108864"

text \<open>
  What one page meets: whether the session is closed and its binding live before the request, the
  response, and the binding and the time when it arrives.
\<close>

record page_answer =
  pa_closed :: bool
  pa_before :: bool
  pa_response :: "client_response outcome"
  pa_after :: bool
  pa_now :: int

record page_set =
  ps_metadata :: json_members
  ps_items :: "json_value list"

record page_loop =
  pl_index :: int
  pl_location :: reference
  pl_items :: "json_value list"
  pl_stamp :: "page_info option"
  pl_metadata :: "json_members option"
  pl_used :: int

definition first_page :: "reference \<Rightarrow> page_loop" where
  "first_page first =
     \<lparr>pl_index = 0, pl_location = first, pl_items = [], pl_stamp = None, pl_metadata = None, pl_used = 0\<rparr>"

text \<open>The failure before a page is requested.\<close>

definition page_refused :: "jstr \<Rightarrow> jstr \<Rightarrow> page_answer \<Rightarrow> page_loop \<Rightarrow> client_failure option" where
  "page_refused identity scope answer lo =
     (if pageScope (rf_uri (pl_location lo)) \<noteq> Some scope then Some (Fixed InvalidResponse)
      else if pa_closed answer then Some (Fixed ClientClosed)
      else if rf_endpoint (pl_location lo) \<noteq> identity \<or> \<not> pa_before answer then Some (Fixed WrongEndpoint)
      else None)"

text \<open>The parts of a page that arrived.\<close>

definition page_parts :: "page_clock \<Rightarrow> client_response \<Rightarrow> (page_info \<times> json_value list \<times> json_members) option" where
  "page_parts clock r =
     (if re_status r \<noteq> 200 then None
      else
        (case re_value r of
           JObj fs \<Rightarrow>
             (case (pageInfo clock (jsonMember fs (js ''page'')), jsonMember fs (js ''items'')) of
                (Some page, Some (JArr items)) \<Rightarrow> Some (page, items, repeatedFields fs)
              | _ \<Rightarrow> None)
         | _ \<Rightarrow> None))"

definition same_set :: "page_info \<Rightarrow> page_info \<Rightarrow> bool" where
  "same_set stamp page \<longleftrightarrow>
     pg_setId stamp = pg_setId page \<and> pg_revision stamp = pg_revision page \<and> pg_expiresAt stamp = pg_expiresAt page
     \<and> pg_total stamp = pg_total page"

datatype page_progress = NextPage page_loop | LastPage "page_set outcome"

definition page_accepted :: "page_clock \<Rightarrow> page_answer \<Rightarrow> client_response \<Rightarrow> page_loop \<Rightarrow> page_progress" where
  "page_accepted clock answer r lo =
     (case page_parts clock r of
        None \<Rightarrow> LastPage (Inl (Fixed InvalidResponse))
      | Some (page, page_items, repeated) \<Rightarrow>
          (let used = pl_used lo + int (re_bytes r);
               items = pl_items lo @ page_items;
               got = int (length items) in
           if pg_index page \<noteq> pl_index lo \<or> pa_now answer \<ge> pg_expiry page \<or> length page_items > 256
             \<or> got > pg_total page \<or> used > PAGE_SET_BYTES
             \<or> (case pl_stamp lo of None \<Rightarrow> False | Some stamp \<Rightarrow> \<not> same_set stamp page)
             \<or> (case pl_metadata lo of None \<Rightarrow> False | Some metadata \<Rightarrow> \<not> jsonEqual (JObj metadata) (JObj repeated))
           then LastPage (Inl (Fixed InvalidResponse))
           else
             (case pg_next page of
                None \<Rightarrow>
                  if got = pg_total page then LastPage (Inr \<lparr>ps_metadata = repeated, ps_items = items\<rparr>)
                  else LastPage (Inl (Fixed InvalidResponse))
              | Some uri \<Rightarrow>
                  if page_items = [] \<or> got \<ge> pg_total page \<or> pl_index lo \<ge> 65535
                  then LastPage (Inl (Fixed InvalidResponse))
                  else NextPage \<lparr>pl_index = pl_index lo + 1, pl_location = (pl_location lo)\<lparr>rf_uri := uri\<rparr>, pl_items = items,
                         pl_stamp = Some page, pl_metadata = Some repeated, pl_used = used\<rparr>)))"

definition page_step :: "page_clock \<Rightarrow> page_answer \<Rightarrow> page_loop \<Rightarrow> page_progress" where
  "page_step clock answer lo =
     (if \<not> pa_after answer then LastPage (Inl (Fixed WrongEndpoint))
      else
        (case pa_response answer of
           Inl e \<Rightarrow> LastPage (Inl e)
         | Inr r \<Rightarrow> page_accepted clock answer r lo))"

text \<open>The requests that were made, and the result unless a response is outstanding.\<close>

fun read_pages :: "page_clock \<Rightarrow> jstr \<Rightarrow> jstr \<Rightarrow> page_loop \<Rightarrow> page_answer list \<Rightarrow> jstr list \<times> page_set outcome option" where
  "read_pages clock identity scope lo [] = ([], None)"
| "read_pages clock identity scope lo (answer # answers) =
     (case page_refused identity scope answer lo of
        Some e \<Rightarrow> ([], Some (Inl e))
      | None \<Rightarrow>
          (case page_step clock answer lo of
             LastPage result \<Rightarrow> ([rf_uri (pl_location lo)], Some result)
           | NextPage lo' \<Rightarrow>
               (let (requests, result) = read_pages clock identity scope lo' answers in
                (rf_uri (pl_location lo) # requests, result))))"

definition pageSet :: "page_clock \<Rightarrow> jstr \<Rightarrow> reference \<Rightarrow> page_answer list \<Rightarrow> jstr list \<times> page_set outcome option" where
  "pageSet clock identity first answers =
     (case pageScope (rf_uri first) of
        None \<Rightarrow> ([], Some (Inl (Fixed InvalidResponse)))
      | Some scope \<Rightarrow> read_pages clock identity scope (first_page first) answers)"

section \<open>The overview\<close>

record overview_item =
  oi_member :: overview_member
  oi_reference :: reference
  oi_revision :: jstr

record overview =
  ov_cursor :: jstr
  ov_oldestCursor :: jstr
  ov_items :: "overview_item list"

definition MEMBER_COLLECTIONS :: "jstr list" where
  "MEMBER_COLLECTIONS = [js ''requests'', js ''preparations'', js ''runs'', js ''decisions'']"

fun member_collection :: "overview_member \<Rightarrow> jstr" where
  "member_collection (MRequest _) = js ''requests''"
| "member_collection (MPreparation _) = js ''preparations''"
| "member_collection (MRun _) = js ''runs''"
| "member_collection (MDecision _) = js ''decisions''"

fun memberIdentity :: "overview_member \<Rightarrow> jstr \<times> jstr" where
  "memberIdentity (MRequest d) = (dv_id d, dv_revision d)"
| "memberIdentity (MPreparation p) = (pp_id p, pp_revision p)"
| "memberIdentity (MRun r) = (rn_id r, rn_revision r)"
| "memberIdentity (MDecision d) = (dc_id d, dc_revision d)"

definition member_uri :: "overview_member \<Rightarrow> jstr" where
  "member_uri m = js ''/v1/'' @ member_collection m @ js ''/'' @ fst (memberIdentity m)"

definition overview_item_of :: "jstr \<Rightarrow> json_value \<Rightarrow> overview_item outcome" where
  "overview_item_of identity value =
     thenO (decodeOverviewMember value) (\<lambda>m.
       (let (ident, revision) = memberIdentity m in
        if \<not> validId ident \<or> \<not> validRevision revision then Inl (Fixed InvalidResponse)
        else
          (case referenceOf identity (member_uri m) of
             Inl _ \<Rightarrow> Inl (Fixed InvalidResponse)
           | Inr reference \<Rightarrow> Inr \<lparr>oi_member = m, oi_reference = reference, oi_revision = revision\<rparr>)))"

fun overview_items :: "jstr \<Rightarrow> json_value list \<Rightarrow> overview_item list outcome" where
  "overview_items identity [] = Inr []"
| "overview_items identity (v # vs) =
     thenO (overview_item_of identity v) (\<lambda>item. thenO (overview_items identity vs) (\<lambda>items. Inr (item # items)))"

definition overview_cursors :: "json_members \<Rightarrow> (jstr \<times> jstr) option" where
  "overview_cursors metadata = do {
     own \<leftarrow> exactFields (Some (JObj metadata)) (map js [''version'', ''snapshotVersion'', ''cursor'', ''oldestCursor'']);
     version \<leftarrow> number_member own ''version'';
     snapshotVersion \<leftarrow> number_member own ''snapshotVersion'';
     cursor \<leftarrow> text_member own ''cursor'';
     oldestCursor \<leftarrow> text_member own ''oldestCursor'';
     require (boundedInteger version 1 1 \<noteq> None \<and> boundedInteger snapshotVersion 1 1 \<noteq> None
       \<and> validCursor cursor \<and> validCursor oldestCursor);
     Some (cursor, oldestCursor)
   }"

definition overview_of :: "jstr \<Rightarrow> page_set \<Rightarrow> overview outcome" where
  "overview_of identity set_read =
     (case overview_cursors (ps_metadata set_read) of
        None \<Rightarrow> Inl (Fixed InvalidResponse)
      | Some (cursor, oldestCursor) \<Rightarrow>
          thenO (overview_items identity (ps_items set_read)) (\<lambda>items.
            Inr \<lparr>ov_cursor = cursor, ov_oldestCursor = oldestCursor, ov_items = items\<rparr>))"

definition loadOverview :: "page_clock \<Rightarrow> jstr \<Rightarrow> page_answer list \<Rightarrow> overview outcome option" where
  "loadOverview clock identity answers =
     (case referenceOf identity OVERVIEW of
        Inl e \<Rightarrow> Some (Inl e)
      | Inr first \<Rightarrow> map_option (\<lambda>r. thenO r (overview_of identity)) (snd (pageSet clock identity first answers)))"

text \<open>What a complete page set consists of, and that its reading ends.\<close>

section \<open>Page sets\<close>

text \<open>The page of an answer: its stamp, its items and its repeated fields.\<close>

type_synonym page = "page_info \<times> json_value list \<times> json_members"

definition answer_page :: "page_clock \<Rightarrow> page_answer \<Rightarrow> page option" where
  "answer_page clock answer = (case pa_response answer of Inr r \<Rightarrow> page_parts clock r | Inl _ \<Rightarrow> None)"

definition answer_bytes :: "page_answer \<Rightarrow> int" where
  "answer_bytes answer = (case pa_response answer of Inr r \<Rightarrow> int (re_bytes r) | Inl _ \<Rightarrow> 0)"

definition page_items :: "page \<Rightarrow> json_value list" where
  "page_items p = fst (snd p)"

text \<open>The facts of a page that the loop accepts.\<close>

definition page_fits :: "page_answer \<Rightarrow> page \<Rightarrow> page_loop \<Rightarrow> bool" where
  "page_fits answer p lo \<longleftrightarrow>
     pg_index (fst p) = pl_index lo \<and> pa_now answer < pg_expiry (fst p) \<and> length (page_items p) \<le> 256
     \<and> int (length (pl_items lo @ page_items p)) \<le> pg_total (fst p)
     \<and> pl_used lo + answer_bytes answer \<le> PAGE_SET_BYTES
     \<and> (case pl_stamp lo of None \<Rightarrow> True | Some stamp \<Rightarrow> same_set stamp (fst p))
     \<and> (case pl_metadata lo of None \<Rightarrow> True | Some metadata \<Rightarrow> jsonEqual (JObj metadata) (JObj (snd (snd p))))"

definition advanced :: "page_answer \<Rightarrow> page \<Rightarrow> jstr \<Rightarrow> page_loop \<Rightarrow> page_loop" where
  "advanced answer p uri lo =
     \<lparr>pl_index = pl_index lo + 1, pl_location = (pl_location lo)\<lparr>rf_uri := uri\<rparr>, pl_items = pl_items lo @ page_items p,
      pl_stamp = Some (fst p), pl_metadata = Some (snd (snd p)), pl_used = pl_used lo + answer_bytes answer\<rparr>"

lemma page_step_next:
  "page_step clock answer lo = NextPage lo' \<Longrightarrow>
   \<exists>p uri. answer_page clock answer = Some p \<and> page_fits answer p lo \<and> pa_after answer \<and> pg_next (fst p) = Some uri
     \<and> page_items p \<noteq> [] \<and> pl_index lo < 65535 \<and> lo' = advanced answer p uri lo"
  by (auto simp: page_step_def page_accepted_def answer_page_def answer_bytes_def page_fits_def page_items_def advanced_def Let_def
      split: if_splits sum.splits option.splits)

lemma page_step_last:
  "page_step clock answer lo = LastPage (Inr ps) \<Longrightarrow>
   \<exists>p. answer_page clock answer = Some p \<and> page_fits answer p lo \<and> pa_after answer \<and> pg_next (fst p) = None
     \<and> ps_items ps = pl_items lo @ page_items p \<and> ps_metadata ps = snd (snd p) \<and> int (length (ps_items ps)) = pg_total (fst p)"
  by (auto simp: page_step_def page_accepted_def answer_page_def answer_bytes_def page_fits_def page_items_def Let_def
      split: if_splits sum.splits option.splits)

text \<open>Consecutive pages of one set.\<close>

fun page_chain :: "page list \<Rightarrow> bool" where
  "page_chain (p # q # pages) \<longleftrightarrow>
     same_set (fst p) (fst q) \<and> jsonEqual (JObj (snd (snd p))) (JObj (snd (snd q))) \<and> pg_index (fst q) = pg_index (fst p) + 1
     \<and> page_items p \<noteq> [] \<and> page_chain (q # pages)"
| "page_chain _ \<longleftrightarrow> True"

text \<open>The requests that follow the links of the pages.\<close>

definition followed :: "jstr \<Rightarrow> page list \<Rightarrow> jstr list" where
  "followed uri pages = uri # List.map_filter (\<lambda>p. pg_next (fst p)) pages"

definition complete_set :: "page_clock \<Rightarrow> page_answer list \<Rightarrow> page list \<Rightarrow> page_set \<Rightarrow> bool" where
  "complete_set clock answers pages ps \<longleftrightarrow>
     map (answer_page clock) answers = map Some pages \<and> pages \<noteq> [] \<and> page_chain pages
     \<and> list_all (\<lambda>p. length (page_items p) \<le> 256 \<and> pg_total (fst p) = int (length (ps_items ps))) pages
     \<and> list_all2 (\<lambda>a p. pa_after a \<and> pa_now a < pg_expiry (fst p)) answers pages
     \<and> list_all (\<lambda>p. pg_next (fst p) \<noteq> None) (butlast pages) \<and> pg_next (fst (last pages)) = None
     \<and> ps_metadata ps = snd (snd (last pages))"

lemma same_set_total: "same_set p q \<Longrightarrow> pg_total p = pg_total q"
  by (simp add: same_set_def)

lemma read_pages_complete:
  assumes "read_pages clock identity scope lo answers = (requests, Some (Inr ps))"
  shows "\<exists>pages. length requests = length pages \<and> complete_set clock (take (length pages) answers) pages ps
    \<and> ps_items ps = pl_items lo @ concat (map page_items pages) \<and> page_fits (hd answers) (hd pages) lo
    \<and> pl_used lo + sum_list (map answer_bytes (take (length pages) answers)) \<le> PAGE_SET_BYTES
    \<and> requests = followed (rf_uri (pl_location lo)) pages
    \<and> list_all (\<lambda>uri. pageScope uri = Some scope) requests
    \<and> rf_endpoint (pl_location lo) = identity"
  using assms
proof (induction clock identity scope lo answers arbitrary: requests rule: read_pages.induct)
  case (2 clock identity scope lo answer answers)
  then have free: "page_refused identity scope answer lo = None" by (auto split: option.splits)
  then have here: "pageScope (rf_uri (pl_location lo)) = Some scope" "rf_endpoint (pl_location lo) = identity"
    by (auto simp: page_refused_def split: if_splits)
  show ?case
  proof (cases "page_step clock answer lo")
    case (LastPage result)
    then have r: "result = Inr ps" "requests = [rf_uri (pl_location lo)]" using 2(2) free by auto
    obtain p where p: "answer_page clock answer = Some p" "page_fits answer p lo" "pa_after answer" "pg_next (fst p) = None"
      "ps_items ps = pl_items lo @ page_items p" "ps_metadata ps = snd (snd p)" "int (length (ps_items ps)) = pg_total (fst p)"
      using page_step_last LastPage r(1) by blast
    show ?thesis
      using p here r(2) by (intro exI [of _ "[p]"])
        (auto simp: complete_set_def page_fits_def followed_def List.map_filter_simps)
  next
    case (NextPage lo')
    then obtain rest where rest: "read_pages clock identity scope lo' answers = (rest, Some (Inr ps))"
      "requests = rf_uri (pl_location lo) # rest"
      using 2(2) free by (auto split: prod.splits)
    obtain p uri where p: "answer_page clock answer = Some p" "page_fits answer p lo" "pa_after answer" "pg_next (fst p) = Some uri"
      "page_items p \<noteq> []" "lo' = advanced answer p uri lo"
      using page_step_next NextPage by blast
    from 2(1) [OF free NextPage rest(1)] obtain pages where
      pages: "length rest = length pages" "complete_set clock (take (length pages) answers) pages ps"
      "ps_items ps = pl_items lo' @ concat (map page_items pages)" "page_fits (hd answers) (hd pages) lo'"
      "pl_used lo' + sum_list (map answer_bytes (take (length pages) answers)) \<le> PAGE_SET_BYTES"
      "rest = followed (rf_uri (pl_location lo')) pages" "list_all (\<lambda>uri. pageScope uri = Some scope) rest" by blast
    obtain q others where q: "pages = q # others" using pages(2) by (cases pages) (auto simp: complete_set_def)
    have chain: "same_set (fst p) (fst q)" "jsonEqual (JObj (snd (snd p))) (JObj (snd (snd q)))" "pg_index (fst q) = pg_index (fst p) + 1"
      using pages(4) p(2) by (auto simp: q p(6) advanced_def page_fits_def)
    have "complete_set clock (take (length (p # pages)) (answer # answers)) (p # pages) ps"
      using pages(2) p(1-5) chain same_set_total [OF chain(1)]
      by (auto simp: complete_set_def q page_fits_def)
    moreover have "requests = followed (rf_uri (pl_location lo)) (p # pages)"
      using rest(2) pages(6) p(4) by (simp add: followed_def p(6) advanced_def List.map_filter_simps)
    moreover have "length requests = length (p # pages)" "list_all (\<lambda>uri. pageScope uri = Some scope) requests"
      using rest(2) pages(1,7) here by simp_all
    moreover have "ps_items ps = pl_items lo @ concat (map page_items (p # pages))"
      "pl_used lo + sum_list (map answer_bytes (take (length (p # pages)) (answer # answers))) \<le> PAGE_SET_BYTES"
      using pages(3,5) by (simp_all add: p(6) advanced_def)
    ultimately show ?thesis
      using p(2) here(2) by (intro exI [of _ "p # pages"] conjI) (assumption | simp)+
  qed
qed simp

lemma read_pages_ends:
  "65536 \<le> pl_index lo + int (length answers) \<Longrightarrow> pl_index lo \<le> 65535 \<Longrightarrow>
   \<exists>r. snd (read_pages clock identity scope lo answers) = Some r"
proof (induction clock identity scope lo answers rule: read_pages.induct)
  case (2 clock identity scope lo answer answers)
  show ?case
  proof (cases "page_refused identity scope answer lo")
    case None
    then show ?thesis
    proof (cases "page_step clock answer lo")
      case (NextPage lo')
      then obtain p uri where "lo' = advanced answer p uri lo" "pl_index lo < 65535" using page_step_next by blast
      then show ?thesis using 2 None NextPage by (auto simp: advanced_def split: prod.split)
    qed simp
  qed simp
qed simp

section \<open>The overview\<close>

lemma overview_items_Inr:
  "overview_items identity vs = Inr items \<Longrightarrow>
   list_all (\<lambda>i. rf_endpoint (oi_reference i) = identity \<and> rf_uri (oi_reference i) = member_uri (oi_member i)
     \<and> validResource (member_uri (oi_member i)) \<and> oi_revision i = snd (memberIdentity (oi_member i))) items
   \<and> map (\<lambda>i. Inr (oi_member i)) items = map decodeOverviewMember vs"
proof (induction identity vs arbitrary: items rule: overview_items.induct)
  case (2 identity v vs)
  then obtain i rest where i: "overview_item_of identity v = Inr i" "overview_items identity vs = Inr rest" "items = i # rest"
    by (auto simp: thenO_Inr)
  then show ?case using 2(1) [OF i(2)]
    by (auto simp: overview_item_of_def thenO_Inr referenceOf_def Let_def split_def split: if_splits sum.splits)
qed simp

lemma overview_of_items:
  "overview_of identity ps = Inr ov \<Longrightarrow> overview_items identity (ps_items ps) = Inr (ov_items ov) \<and> validCursor (ov_cursor ov)"
  by (auto simp: overview_of_def overview_cursors_def thenO_Inr bind_eq_Some_conv split: option.splits)

lemma loadOverview_bound:
  assumes "loadOverview clock identity answers = Some (Inr ov)"
  shows "list_all (\<lambda>i. rf_endpoint (oi_reference i) = identity) (ov_items ov)"
proof -
  obtain ps where "overview_of identity ps = Inr ov"
    using assms by (auto simp: loadOverview_def thenO_Inr split: sum.splits)
  from overview_items_Inr [OF conjunct1 [OF overview_of_items [OF this]]] show ?thesis by (simp add: list_all_iff)
qed

end
