(* ===== verification/Sessions.thy ===== *)
theory Sessions
  imports Pages Following Receipts
begin

text \<open>
  The session of a manager (\<^verbatim>\<open>manager/session.ts\<close>): its binding, the resources it watches, the lane that reads
  them one at a time, the overview, the follow loops, the change of the endpoint and the commands. What
  runs concurrently in the code is a step here: the state is a record, each operation a function on it, and
  the relation \<open>session_step\<close> takes the operations in any order with any answers of the network.
\<close>

section \<open>Resources\<close>

record observed =
  ob_reference :: reference
  ob_status :: int
  ob_etag :: "jstr option"
  ob_value :: json_value

definition transientRead :: "client_failure \<Rightarrow> bool" where
  "transientRead failure \<longleftrightarrow>
     (case failure of
        Refused status code \<Rightarrow>
          status = 429 \<and> code = js ''storage-quota'' \<or> status = 503 \<and> code = js ''storage-unavailable''
      | _ \<Rightarrow> False)"

definition isMemberResource :: "jstr \<Rightarrow> bool" where
  "isMemberResource resource \<longleftrightarrow>
     (case split_on 47 resource of
        a # b # c # d # _ \<Rightarrow> a = [] \<and> b = js ''v1'' \<and> c \<in> set MEMBER_COLLECTIONS \<and> d \<noteq> []
      | _ \<Rightarrow> False)"

definition resource_path :: "jstr \<Rightarrow> jstr" where
  "resource_path uri = hd (split_on 63 uri)"

definition related :: "jstr \<Rightarrow> jstr \<Rightarrow> bool" where
  "related one other =
     (let a = resource_path one; b = resource_path other in
      a = b \<or> starts_with a (b @ js ''/'') \<or> starts_with b (a @ js ''/''))"

section \<open>The state\<close>

datatype delivery_state = Connecting | Delivering follow_state

text \<open>
  A read of the lane, and a read of the overview outside it, keep the generation and the binding with which
  they started; a binding is the number of its transport and its identity.
\<close>

record fetch =
  ft_key :: jstr
  ft_generation :: int

record running_fetch = fetch +
  ft_transport :: nat
  ft_identity :: jstr
  ft_closed :: bool

record overview_read =
  or_generation :: int
  or_transport :: nat
  or_identity :: jstr

text \<open>A follow loop follows events, or reads the overview after the end that it met.\<close>

datatype loop_phase = OnEvents jstr | OnResnapshot overview_read follow_end

record session_loop =
  lp_transport :: nat
  lp_phase :: loop_phase

record pending_switch =
  sw_earlier :: nat
  sw_transport :: nat

record session =
  se_transport :: nat
  se_made :: nat
  se_shut :: "nat list"
  se_endpoint :: jstr
  se_identity :: jstr
  se_capabilities :: checked_capabilities
  se_delivery :: delivery_preference
  se_refresh :: "jstr refresh"
  se_watched :: "jstr list"
  se_installed :: "(jstr, observed outcome) jsmap"
  se_overview :: "overview outcome option"
  se_lane :: "fetch list"
  se_running :: "running_fetch option"
  se_rereads :: "fetch list"
  se_starts :: "overview_read list"
  se_following :: bool
  se_loops :: "session_loop list"
  se_followEnd :: "follow_end option"
  se_deliveryState :: delivery_state
  se_switches :: "pending_switch list"
  se_closed :: bool

section \<open>Connecting\<close>

text \<open>The binding that a response to the read of the capabilities gives.\<close>

definition bind_capabilities :: "client_response outcome \<Rightarrow> checked_capabilities outcome" where
  "bind_capabilities response =
     (case response of
        Inl e \<Rightarrow> Inl e
      | Inr r \<Rightarrow> if re_status r = 200 then checkCapabilities (re_value r) else Inl (Fixed InvalidResponse))"

definition newSession :: "jstr \<Rightarrow> jstr \<Rightarrow> checked_capabilities \<Rightarrow> delivery_preference option \<Rightarrow> session" where
  "newSession endpoint identity capabilities delivery =
     \<lparr>se_transport = 0, se_made = 1, se_shut = [], se_endpoint = endpoint, se_identity = identity,
      se_capabilities = capabilities, se_delivery = (case delivery of None \<Rightarrow> PreferSse | Some d \<Rightarrow> d),
      se_refresh = newRefresh, se_watched = [], se_installed = [], se_overview = None, se_lane = [], se_running = None,
      se_rereads = [], se_starts = [], se_following = False, se_loops = [], se_followEnd = None,
      se_deliveryState = Connecting, se_switches = [], se_closed = False\<rparr>"

definition connect_session ::
  "client_profile \<Rightarrow> jstr \<Rightarrow> delivery_preference option \<Rightarrow> client_response outcome \<Rightarrow> session outcome" where
  "connect_session profile identity delivery response =
     thenO (bind_capabilities response) (\<lambda>capabilities.
       Inr (newSession (ce_url (cp_endpoint profile)) identity capabilities delivery))"

definition session_reference :: "session \<Rightarrow> jstr \<Rightarrow> reference outcome" where
  "session_reference se uri = referenceOf (se_identity se) uri"

definition session_check :: "bool \<Rightarrow> jstr \<Rightarrow> reference \<Rightarrow> client_failure option" where
  "session_check gone identity reference =
     (if gone then Some (Fixed ClientClosed)
      else if rf_endpoint reference = identity then None else Some (Fixed WrongEndpoint))"

text \<open>
  One read: \<open>gone\<close> and \<open>identity\<close> are those at the start, and \<open>same\<close> tells that the transport is still that of the
  session when the response arrives.
\<close>

definition observe :: "bool \<Rightarrow> jstr \<Rightarrow> bool \<Rightarrow> reference \<Rightarrow> client_response outcome \<Rightarrow> observed outcome" where
  "observe gone identity same reference response =
     (case session_check gone identity reference of
        Some e \<Rightarrow> Inl e
      | None \<Rightarrow>
          if \<not> same then Inl (Fixed WrongEndpoint)
          else
            (case response of
               Inl e \<Rightarrow> Inl e
             | Inr r \<Rightarrow>
                 if re_status r \<noteq> 200 then Inl (Fixed InvalidResponse)
                 else Inr \<lparr>ob_reference = reference, ob_status = 200, ob_etag = re_etag r, ob_value = re_value r\<rparr>))"

section \<open>The read lane\<close>

fun perform_actions :: "jstr refresh_action list \<Rightarrow> session \<Rightarrow> session" where
  "perform_actions [] se = se"
| "perform_actions (Fetch k g # actions) se =
     perform_actions actions (se\<lparr>se_lane := se_lane se @ [\<lparr>ft_key = k, ft_generation = g\<rparr>]\<rparr>)"
| "perform_actions (_ # actions) se = perform_actions actions se"

definition invalidate_key :: "jstr \<Rightarrow> session \<Rightarrow> session" where
  "invalidate_key key se =
     (let (state, actions) = invalidateResource key (se_refresh se) in perform_actions actions (se\<lparr>se_refresh := state\<rparr>))"

definition concerns :: "jstr \<Rightarrow> jstr \<Rightarrow> bool" where
  "concerns resource key = (if key = OVERVIEW then isMemberResource resource else related key resource)"

definition invalidated :: "invalidation_event \<Rightarrow> session \<Rightarrow> session" where
  "invalidated event se = fold invalidate_key (filter (concerns (inv_resource (ie_data event))) (se_watched se)) se"

definition watch :: "reference \<Rightarrow> session \<Rightarrow> unit outcome \<times> session" where
  "watch reference se =
     (case session_check (se_closed se) (se_identity se) reference of
        Some e \<Rightarrow> (Inl e, se)
      | None \<Rightarrow>
          if rf_uri reference \<in> set (se_watched se) then (Inr (), se)
          else (Inr (), invalidate_key (rf_uri reference) (se\<lparr>se_watched := se_watched se @ [rf_uri reference]\<rparr>)))"

definition current :: "session \<Rightarrow> reference \<Rightarrow> observed outcome option" where
  "current se reference =
     (if rf_endpoint reference = se_identity se then map_of (se_installed se) (rf_uri reference)
      else Some (Inl (Fixed WrongEndpoint)))"

text \<open>The next read of the lane starts when none runs; a read of an earlier generation is dropped.\<close>

definition begin_fetch :: "session \<Rightarrow> session option" where
  "begin_fetch se =
     (case (se_running se, se_lane se) of
        (None, f # rest) \<Rightarrow>
          Some (if ft_generation f \<noteq> generation (se_refresh se) then se\<lparr>se_lane := rest\<rparr>
                else se\<lparr>se_lane := rest,
                        se_running := Some \<lparr>ft_key = ft_key f, ft_generation = ft_generation f, ft_transport = se_transport se,
                          ft_identity = se_identity se, ft_closed = se_closed se\<rparr>\<rparr>)
      | _ \<Rightarrow> None)"

definition is_install :: "jstr refresh_action \<Rightarrow> bool" where
  "is_install action = (case action of Install _ _ \<Rightarrow> True | _ \<Rightarrow> False)"

definition complete_fetch :: "jstr \<Rightarrow> int \<Rightarrow> 'a outcome \<Rightarrow> (session \<Rightarrow> session) \<Rightarrow> session \<Rightarrow> session" where
  "complete_fetch key gen outcome install se =
     (let (state, actions) = completeFetch key gen (se_refresh se);
          se1 = se\<lparr>se_refresh := state\<rparr>;
          se2 =
            (if list_ex is_install actions then
               (let se' = install se1 in
                case outcome of
                  Inl e \<Rightarrow> if transientRead e then se'\<lparr>se_rereads := se_rereads se' @ [\<lparr>ft_key = key, ft_generation = gen\<rparr>]\<rparr> else se'
                | Inr _ \<Rightarrow> se')
             else se1) in
      perform_actions actions se2)"

definition finish_read :: "running_fetch \<Rightarrow> client_response outcome \<Rightarrow> session \<Rightarrow> session" where
  "finish_read f response se =
     (let outcome = observe (ft_closed f) (ft_identity f) (ft_transport f = se_transport se)
            \<lparr>rf_endpoint = ft_identity f, rf_uri = ft_key f\<rparr> response in
      complete_fetch (ft_key f) (ft_generation f) outcome
        (\<lambda>s. s\<lparr>se_installed := map_set (ft_key f) outcome (se_installed s)\<rparr>) (se\<lparr>se_running := None\<rparr>))"

definition finish_overview :: "running_fetch \<Rightarrow> overview outcome \<Rightarrow> session \<Rightarrow> session" where
  "finish_overview f outcome se =
     complete_fetch (ft_key f) (ft_generation f) outcome (\<lambda>s. s\<lparr>se_overview := Some outcome\<rparr>) (se\<lparr>se_running := None\<rparr>)"

text \<open>The timer of a read that was refused for lack of capacity.\<close>

definition reread :: "fetch \<Rightarrow> session \<Rightarrow> session" where
  "reread f se =
     (let se1 = se\<lparr>se_rereads := remove1 f (se_rereads se)\<rparr> in
      if \<not> se_closed se \<and> ft_generation f = generation (se_refresh se) \<and> ft_key f \<in> set (se_watched se)
      then invalidate_key (ft_key f) se1 else se1)"

section \<open>Starting and following\<close>

definition set_add :: "jstr \<Rightarrow> jstr list \<Rightarrow> jstr list" where
  "set_add key keys = (if key \<in> set keys then keys else keys @ [key])"

definition bootstrap_begin :: "session \<Rightarrow> session \<times> overview_read" where
  "bootstrap_begin se =
     (se\<lparr>se_watched := set_add OVERVIEW (se_watched se)\<rparr>,
      \<lparr>or_generation = generation (se_refresh se), or_transport = se_transport se, or_identity = se_identity se\<rparr>)"

definition bootstrap_end :: "overview_read \<Rightarrow> overview outcome \<Rightarrow> session \<Rightarrow> session" where
  "bootstrap_end r outcome se =
     (if or_generation r = generation (se_refresh se) then se\<lparr>se_overview := Some outcome\<rparr> else se)"

definition start_begin :: "session \<Rightarrow> session outcome" where
  "start_begin se =
     (if se_following se then Inl (Fixed InvalidResponse)
      else (let (se1, r) = bootstrap_begin se in Inr (se1\<lparr>se_starts := se_starts se1 @ [r]\<rparr>)))"

definition follow_from :: "jstr \<Rightarrow> session \<Rightarrow> session_loop" where
  "follow_from cursor se = \<lparr>lp_transport = se_transport se, lp_phase = OnEvents cursor\<rparr>"

definition start_end :: "overview_read \<Rightarrow> overview outcome \<Rightarrow> session \<Rightarrow> session" where
  "start_end r outcome se =
     (let se1 = bootstrap_end r outcome (se\<lparr>se_starts := remove1 r (se_starts se)\<rparr>) in
      case outcome of
        Inl _ \<Rightarrow> se1
      | Inr ov \<Rightarrow> se1\<lparr>se_following := True, se_loops := se_loops se1 @ [follow_from (ov_cursor ov) se1]\<rparr>)"

definition loop_event :: "session_loop \<Rightarrow> invalidation_event \<Rightarrow> session \<Rightarrow> session" where
  "loop_event lp event se = (if lp_transport lp = se_transport se then invalidated event se else se)"

definition loop_state :: "session_loop \<Rightarrow> follow_state \<Rightarrow> session \<Rightarrow> session" where
  "loop_state lp state se =
     (if lp_transport lp \<noteq> se_transport se \<or> se_closed se \<or> Delivering state = se_deliveryState se then se
      else se\<lparr>se_deliveryState := Delivering state\<rparr>)"

text \<open>A loop ends, or it continues on the binding that replaced its own.\<close>

definition loop_over :: "session_loop \<Rightarrow> follow_end \<Rightarrow> session \<Rightarrow> session" where
  "loop_over lp ending se =
     (let se1 = se\<lparr>se_loops := remove1 lp (se_loops se)\<rparr>;
          over = se1\<lparr>se_followEnd := Some ending\<rparr> in
      if lp_transport lp \<noteq> se_transport se \<and> \<not> se_closed se then
        (case se_overview se of
           Some (Inr ov) \<Rightarrow> se1\<lparr>se_loops := se_loops se1 @ [follow_from (ov_cursor ov) se1]\<rparr>
         | _ \<Rightarrow> over)
      else over)"

definition is_resnapshot :: "follow_end \<Rightarrow> bool" where
  "is_resnapshot ending = (case ending of Resnapshot _ _ \<Rightarrow> True | _ \<Rightarrow> False)"

definition loop_ended :: "session_loop \<Rightarrow> follow_end \<Rightarrow> session \<Rightarrow> session" where
  "loop_ended lp ending se =
     (if is_resnapshot ending \<and> \<not> se_closed se \<and> lp_transport lp = se_transport se then
        (let (se1, r) = bootstrap_begin (se\<lparr>se_refresh := advanceGeneration (se_refresh se)\<rparr>) in
         se1\<lparr>se_loops := remove1 lp (se_loops se1) @ [\<lparr>lp_transport = lp_transport lp, lp_phase = OnResnapshot r ending\<rparr>]\<rparr>)
      else loop_over lp ending se)"

definition resnapshot_end :: "session_loop \<Rightarrow> overview_read \<Rightarrow> follow_end \<Rightarrow> overview outcome \<Rightarrow> session \<Rightarrow> session" where
  "resnapshot_end lp r ending outcome se =
     (let se1 = bootstrap_end r outcome se in
      case outcome of
        Inr ov \<Rightarrow>
          (let se2 = fold invalidate_key (filter (\<lambda>key. key \<noteq> OVERVIEW) (se_watched se1)) se1 in
           se2\<lparr>se_loops := remove1 lp (se_loops se2) @ [follow_from (ov_cursor ov) se2]\<rparr>)
      | Inl _ \<Rightarrow> loop_over lp ending se1)"

section \<open>The change of the endpoint\<close>

definition switch_begin :: "session \<Rightarrow> session outcome" where
  "switch_begin se =
     (if se_closed se then Inl (Fixed ClientClosed)
      else Inr (se\<lparr>se_made := se_made se + 1,
                  se_switches := se_switches se @ [\<lparr>sw_earlier = se_transport se, sw_transport = se_made se\<rparr>]\<rparr>))"

definition switch_live :: "pending_switch \<Rightarrow> session \<Rightarrow> bool" where
  "switch_live sw se \<longleftrightarrow> \<not> se_closed se \<and> se_transport se = sw_earlier sw"

definition shut :: "nat \<Rightarrow> session \<Rightarrow> session" where
  "shut transport se = se\<lparr>se_shut := transport # se_shut se\<rparr>"

definition switch_commit :: "pending_switch \<Rightarrow> client_profile \<Rightarrow> jstr \<Rightarrow> checked_capabilities \<Rightarrow> overview \<Rightarrow> session \<Rightarrow> session" where
  "switch_commit sw profile identity capabilities ov se =
     shut (sw_earlier sw)
       (se\<lparr>se_transport := sw_transport sw, se_endpoint := ce_url (cp_endpoint profile), se_identity := identity,
           se_capabilities := capabilities, se_deliveryState := Connecting,
           se_refresh := advanceGeneration (se_refresh se), se_watched := [OVERVIEW], se_installed := [],
           se_overview := Some (Inr ov)\<rparr>)"

text \<open>The read of the capabilities and, when it succeeds, that of the overview.\<close>

definition switch_end ::
  "pending_switch \<Rightarrow> client_profile \<Rightarrow> jstr \<Rightarrow> client_response outcome \<Rightarrow> overview outcome \<Rightarrow> session \<Rightarrow> overview outcome \<times> session" where
  "switch_end sw profile identity response outcome se =
     (let se1 = se\<lparr>se_switches := remove1 sw (se_switches se)\<rparr> in
      case bind_capabilities response of
        Inl e \<Rightarrow> (Inl e, shut (sw_transport sw) se1)
      | Inr capabilities \<Rightarrow>
          (case outcome of
             Inl e \<Rightarrow> (Inl (if se_closed se then Fixed ClientClosed else e), shut (sw_transport sw) se1)
           | Inr ov \<Rightarrow>
               if switch_live sw se then (Inr ov, switch_commit sw profile identity capabilities ov se1)
               else (Inl (Fixed (if se_closed se then ClientClosed else WrongEndpoint)), shut (sw_transport sw) se1)))"

definition setDelivery :: "delivery_preference \<Rightarrow> session \<Rightarrow> session" where
  "setDelivery delivery se = se\<lparr>se_delivery := delivery\<rparr>"

text \<open>Whether a change of the preference drops the open stream.\<close>

definition drops_stream :: "delivery_preference \<Rightarrow> session \<Rightarrow> bool" where
  "drops_stream delivery se \<longleftrightarrow> delivery \<noteq> se_delivery se \<and> delivery = PreferPoll"

definition close_session :: "session \<Rightarrow> session" where
  "close_session se = shut (se_transport se) (se\<lparr>se_closed := True\<rparr>)"

section \<open>Waiting\<close>

definition until_found :: "session \<Rightarrow> 'a outcome option \<Rightarrow> 'a outcome option" where
  "until_found se found = (if se_closed se then Some (Inl (Fixed ClientClosed)) else found)"

definition waitFor_found :: "session \<Rightarrow> reference \<Rightarrow> (observed \<Rightarrow> bool) \<Rightarrow> observed outcome option" where
  "waitFor_found se reference ready =
     until_found se
       (case current se reference of
          Some (Inr ob) \<Rightarrow> if ready ob then Some (Inr ob) else None
        | _ \<Rightarrow> None)"

definition waitForOverview_found :: "session \<Rightarrow> (overview \<Rightarrow> bool) \<Rightarrow> overview outcome option" where
  "waitForOverview_found se ready =
     until_found se
       (case se_overview se of
          Some (Inr ov) \<Rightarrow> if ready ov then Some (Inr ov) else None
        | _ \<Rightarrow> None)"

section \<open>Commands\<close>

datatype command_body = JsonBody json_value | RawBody "u8 list"

record pending_command =
  pn_reference :: reference
  pn_body :: command_body
  pn_idempotencyKey :: jstr
  pn_ifMatch :: "jstr option"

definition pending_of :: "session \<Rightarrow> u8 list \<Rightarrow> reference \<Rightarrow> command_body \<Rightarrow> jstr option \<Rightarrow> pending_command outcome" where
  "pending_of se random reference payload ifMatch =
     (case session_check (se_closed se) (se_identity se) reference of
        Some e \<Rightarrow> Inl e
      | None \<Rightarrow>
          thenO (commandKey random (ca_epoch (se_capabilities se))) (\<lambda>key.
            Inr \<lparr>pn_reference = reference, pn_body = payload, pn_idempotencyKey = key, pn_ifMatch = ifMatch\<rparr>))"

definition prepare_command :: "session \<Rightarrow> u8 list \<Rightarrow> reference \<Rightarrow> json_value \<Rightarrow> jstr option \<Rightarrow> pending_command outcome" where
  "prepare_command se random reference payload ifMatch = pending_of se random reference (JsonBody payload) ifMatch"

definition capture_limit :: "session \<Rightarrow> int option" where
  "capture_limit se =
     (case jsonMember (ca_fields (se_capabilities se)) (js ''limits'') of
        Some (JObj limits) \<Rightarrow> limitOf limits (js ''captureBytes'')
      | _ \<Rightarrow> None)"

definition prepareCapture :: "session \<Rightarrow> u8 list \<Rightarrow> jstr \<Rightarrow> u8 list \<Rightarrow> pending_command outcome" where
  "prepareCapture se random requestId bytes =
     (if \<not> validId requestId then Inl (Fixed InvalidEndpoint)
      else
        thenO (session_reference se (js ''/v1/captures?requestId='' @ requestId)) (\<lambda>reference.
          (case capture_limit se of
             None \<Rightarrow> Inl (Fixed InvalidResponse)
           | Some limit \<Rightarrow>
               if int (length bytes) > limit then Inl (Fixed ResponseTooLarge)
               else if utf8_decode bytes = None then Inl (Fixed InvalidResponse)
               else pending_of se random reference (RawBody bytes) None)))"

datatype send_outcome =
  Delivered client_response reference "command_receipt option" "capture_receipt option"
| SendRefused client_failure
| SendUncertain "client_failure option" "(pending_command, reference) uncertain"

definition command_uncertain :: "pending_command \<Rightarrow> (pending_command, reference) uncertain" where
  "command_uncertain pending =
     \<lparr>un_command = pending, un_target = pn_reference pending, un_precondition = pn_ifMatch pending, un_receipt = None\<rparr>"

definition headers_of :: "pending_command \<Rightarrow> command_headers" where
  "headers_of pending = \<lparr>ch_idempotencyKey = pn_idempotencyKey pending, ch_ifMatch = pn_ifMatch pending\<rparr>"

definition send_response :: "pending_command \<Rightarrow> exchange \<Rightarrow> client_response outcome" where
  "send_response pending x =
     (case pn_body pending of
        RawBody bytes \<Rightarrow> postBytes x (rf_uri (pn_reference pending)) bytes (headers_of pending)
      | JsonBody v \<Rightarrow> post x (rf_uri (pn_reference pending)) v (headers_of pending))"

definition send_command :: "session \<Rightarrow> pending_command \<Rightarrow> exchange \<Rightarrow> send_outcome" where
  "send_command se pending x =
     (case session_check (se_closed se) (se_identity se) (pn_reference pending) of
        Some e \<Rightarrow> SendRefused e
      | None \<Rightarrow>
          (case send_response pending x of
             Inl e \<Rightarrow>
               if e = Refused 412 (js ''stale-revision'') then SendRefused e else SendUncertain (Some e) (command_uncertain pending)
           | Inr r \<Rightarrow>
               (case re_location r of
                  None \<Rightarrow> SendUncertain None (command_uncertain pending)
                | Some location \<Rightarrow>
                    (let reference = \<lparr>rf_endpoint = rf_endpoint (pn_reference pending), rf_uri = location\<rparr> in
                     case pn_body pending of
                       RawBody _ \<Rightarrow>
                         (case decodeCaptureReceipt (re_value r) of
                            Inr received \<Rightarrow>
                              if re_status r = 202 \<and> starts_with location (js ''/v1/commands/'') \<and> validId (drop 13 location)
                              then Delivered r reference None (Some received) else SendUncertain None (command_uncertain pending)
                          | Inl _ \<Rightarrow> SendUncertain None (command_uncertain pending))
                     | JsonBody _ \<Rightarrow>
                         if re_status r \<noteq> 202 then Delivered r reference None None
                         else
                           (case decodeCommandReceipt (re_value r) of
                              Inr receipt \<Rightarrow>
                                if location = js ''/v1/commands/'' @ rc_id receipt then Delivered r reference (Some receipt) None
                                else SendUncertain None (command_uncertain pending)
                            | Inl _ \<Rightarrow> SendUncertain None (command_uncertain pending))))))"

section \<open>Reconciliation\<close>

record reconcile_target =
  rt_reference :: reference
  rt_precondition :: "jstr option"

type_synonym uncertain_command = "(pending_command, reference) uncertain"

definition reconcile_basis :: "uncertain_command \<Rightarrow> reconcile_target option \<Rightarrow> uncertain_command" where
  "reconcile_basis u instead =
     (case instead of
        None \<Rightarrow> u
      | Some target \<Rightarrow>
          if un_receipt u \<noteq> None then u
          else u\<lparr>un_target := rt_reference target, un_precondition := rt_precondition target\<rparr>)"

definition kept_uncertain ::
  "uncertain_command \<Rightarrow> (pending_command, reference) reconciled \<Rightarrow> (pending_command, reference) reconciled" where
  "kept_uncertain u reconciled = (case reconciled of StillUncertain _ \<Rightarrow> StillUncertain u | r \<Rightarrow> r)"

text \<open>
  A computation that may await one read: it has its result, or it has asked for the resource at a URI and
  continues with whether the transport is still that of the session by then, and the response.
\<close>

datatype 'a awaiting = Settled 'a | Asking jstr "bool \<Rightarrow> client_response outcome \<Rightarrow> 'a"

definition session_read :: "session \<Rightarrow> reference \<Rightarrow> (observed outcome \<Rightarrow> 'a) \<Rightarrow> 'a awaiting" where
  "session_read se reference continue =
     (case session_check (se_closed se) (se_identity se) reference of
        Some e \<Rightarrow> Settled (continue (Inl e))
      | None \<Rightarrow> Asking (rf_uri reference)
          (\<lambda>same response. continue (observe (se_closed se) (se_identity se) same reference response)))"

text \<open>The URIs that are asked for, and the result when the manager answers by \<open>net\<close>.\<close>

fun asked_for :: "'a awaiting \<Rightarrow> jstr list" where
  "asked_for (Settled x) = []"
| "asked_for (Asking uri continue) = [uri]"

fun answered_by :: "(jstr \<Rightarrow> bool \<times> client_response outcome) \<Rightarrow> 'a awaiting \<Rightarrow> 'a" where
  "answered_by net (Settled x) = x"
| "answered_by net (Asking uri continue) = continue (fst (net uri)) (snd (net uri))"

fun read_location :: "'l reconcile_read \<Rightarrow> 'l" where
  "read_location (ReadReceipt l) = l"
| "read_location (ReadTarget l) = l"

definition read_observation :: "'l reconcile_read \<Rightarrow> (json_value \<Rightarrow> bool) \<Rightarrow> observed outcome \<Rightarrow> observation" where
  "read_observation next_read effectVisible reading =
     (case reading of
        Inl e \<Rightarrow> ObservedFailure e
      | Inr ob \<Rightarrow>
          (case next_read of
             ReadReceipt _ \<Rightarrow>
               (case decodeCommandReceipt (ob_value ob) of
                  Inr receipt \<Rightarrow> ObservedReceipt (rc_state receipt)
                | Inl e \<Rightarrow> ObservedFailure e)
           | ReadTarget _ \<Rightarrow>
               (case ob_etag ob of
                  None \<Rightarrow> ObservedFailure (Fixed InvalidResponse)
                | Some etag \<Rightarrow> ObservedTarget etag (effectVisible (ob_value ob)))))"

definition reconcileCommand ::
  "session \<Rightarrow> uncertain_command \<Rightarrow> reconcile_target option \<Rightarrow> (json_value \<Rightarrow> bool)
   \<Rightarrow> (pending_command, reference) reconciled awaiting" where
  "reconcileCommand se u instead effectVisible =
     (let basis = reconcile_basis u instead; next_read = reconcileRead basis in
      session_read se (read_location next_read)
        (\<lambda>reading. kept_uncertain u (reconcile basis (read_observation next_read effectVisible reading))))"

definition download :: "(u8 list \<Rightarrow> jstr) \<Rightarrow> session \<Rightarrow> exchange \<Rightarrow> reference \<Rightarrow> int \<Rightarrow> jstr \<Rightarrow> u8 list outcome" where
  "download sha256 se x reference stated digest =
     (case session_check (se_closed se) (se_identity se) reference of
        Some e \<Rightarrow> Inl e
      | None \<Rightarrow> downloadVerified sha256 x (rf_uri reference) stated digest)"

section \<open>Steps\<close>

text \<open>
  One step of a session. Reads end with any answers of the network; the identity of a new binding is sixteen
  random bytes, here one that no reference of the session has.
\<close>

inductive session_step :: "page_clock \<Rightarrow> session \<Rightarrow> session \<Rightarrow> bool" for clock where
  step_watch: "watch reference se = (r, se') \<Longrightarrow> session_step clock se se'"
| step_begin: "begin_fetch se = Some se' \<Longrightarrow> session_step clock se se'"
| step_read: "se_running se = Some f \<Longrightarrow> ft_key f \<noteq> OVERVIEW \<Longrightarrow> session_step clock se (finish_read f response se)"
| step_overview: "se_running se = Some f \<Longrightarrow> ft_key f = OVERVIEW \<Longrightarrow> loadOverview clock (ft_identity f) answers = Some outcome
    \<Longrightarrow> session_step clock se (finish_overview f outcome se)"
| step_reread: "f \<in> set (se_rereads se) \<Longrightarrow> session_step clock se (reread f se)"
| step_start: "start_begin se = Inr se' \<Longrightarrow> session_step clock se se'"
| step_started: "r \<in> set (se_starts se) \<Longrightarrow> loadOverview clock (or_identity r) answers = Some outcome
    \<Longrightarrow> session_step clock se (start_end r outcome se)"
| step_event: "lp \<in> set (se_loops se) \<Longrightarrow> session_step clock se (loop_event lp event se)"
| step_state: "lp \<in> set (se_loops se) \<Longrightarrow> session_step clock se (loop_state lp state se)"
| step_ended: "lp \<in> set (se_loops se) \<Longrightarrow> lp_phase lp = OnEvents cursor \<Longrightarrow> session_step clock se (loop_ended lp ending se)"
| step_resnapshot: "lp \<in> set (se_loops se) \<Longrightarrow> lp_phase lp = OnResnapshot r ending
    \<Longrightarrow> loadOverview clock (or_identity r) answers = Some outcome \<Longrightarrow> session_step clock se (resnapshot_end lp r ending outcome se)"
| step_switch: "switch_begin se = Inr se' \<Longrightarrow> session_step clock se se'"
| step_switched: "sw \<in> set (se_switches se) \<Longrightarrow> loadOverview clock identity answers = Some outcome
    \<Longrightarrow> switch_end sw profile identity response outcome se = (r, se') \<Longrightarrow> session_step clock se se'"
| step_delivery: "session_step clock se (setDelivery delivery se)"
| step_close: "session_step clock se (close_session se)"

inductive session_run :: "page_clock \<Rightarrow> session \<Rightarrow> bool" for clock where
  run_connect: "connect_session profile identity delivery response = Inr se \<Longrightarrow> session_run clock se"
| run_step: "session_run clock se \<Longrightarrow> session_step clock se se' \<Longrightarrow> session_run clock se'"

end
