(* ===== verification/SessionLaws.thy ===== *)
theory SessionLaws
  imports Sessions Pages TransportLaws
begin

text \<open>
  What every reachable session satisfies. The reads of the lane that belong to the current generation are
  exactly the reads that the refresh coordinator counts as in flight; what is installed was read over the
  current binding; and the capabilities were checked.
\<close>

section \<open>Capabilities\<close>

definition checked :: "checked_capabilities \<Rightarrow> bool" where
  "checked c \<longleftrightarrow> (\<exists>v. checkCapabilities v = Inr c)"

lemma checkCapabilities_Inr:
  "checkCapabilities v = Inr c \<longleftrightarrow>
     exactFields (Some v) (map js [''version'', ''authorityEpoch'', ''streamId'', ''versions'', ''scopes'', ''profileIds'',
       ''transports'', ''limits'']) = Some (ca_fields c)
     \<and> versions_supported (ca_fields c) \<and> fields_supported (ca_fields c) = Some (ca_epoch c) \<and> limits_supported (ca_fields c)"
  unfolding checkCapabilities_def by (cases c) (auto split: option.split)

lemma checked_epoch: "checked c \<Longrightarrow> validId (ca_epoch c) \<and> length (ca_epoch c) \<le> 105"
  by (auto simp: checked_def checkCapabilities_Inr fields_supported_def bind_eq_Some_conv)

lemma checked_limits:
  assumes "checked c"
  shows "\<exists>limits. jsonMember (ca_fields c) (js ''limits'') = Some (JObj limits)
    \<and> list_all (\<lambda>(name, expected). limitOf limits name = Some expected) FIXED_LIMITS"
proof -
  have "limits_supported (ca_fields c)" using assms by (auto simp: checked_def checkCapabilities_Inr)
  then show ?thesis unfolding limits_supported_def exactFields_def
    by (auto split: option.splits json.splits if_splits)
qed

lemma bind_checked: "bind_capabilities response = Inr c \<Longrightarrow> checked c"
  by (auto simp: bind_capabilities_def checked_def split: sum.splits if_splits)

section \<open>The lane and the reads in flight\<close>

definition tasks :: "running_fetch option \<Rightarrow> fetch list \<Rightarrow> fetch list" where
  "tasks running lane =
     (case running of None \<Rightarrow> [] | Some f \<Rightarrow> [\<lparr>ft_key = ft_key f, ft_generation = ft_generation f\<rparr>]) @ lane"

definition current_keys :: "int \<Rightarrow> fetch list \<Rightarrow> jstr list" where
  "current_keys gen fs = map ft_key (filter (\<lambda>f. ft_generation f = gen) fs)"

definition lane_inv :: "jstr refresh \<Rightarrow> fetch list \<Rightarrow> jstr list \<Rightarrow> bool" where
  "lane_inv state fs watched \<longleftrightarrow>
     wf_map (flights state) \<and> distinct (current_keys (generation state) fs)
     \<and> (\<forall>k. map_has (flights state) k \<longleftrightarrow> k \<in> set (current_keys (generation state) fs))
     \<and> (\<forall>k f. map_of (flights state) k = Some f \<longrightarrow> fl_generation f = generation state)
     \<and> (\<forall>f \<in> set fs. ft_generation f \<le> generation state)
     \<and> set (current_keys (generation state) fs) \<subseteq> set watched"

lemma current_keys_append [simp]: "current_keys gen (fs @ gs) = current_keys gen fs @ current_keys gen gs"
  by (simp add: current_keys_def)

lemma current_keys_Nil [simp]: "current_keys gen [] = []"
  by (simp add: current_keys_def)

lemma current_keys_Cons: "current_keys gen (f # fs) = (if ft_generation f = gen then [ft_key f] else []) @ current_keys gen fs"
  by (simp add: current_keys_def)

text \<open>The actions that put keys into the lane.\<close>

definition fetches :: "jstr refresh_action list \<Rightarrow> fetch list" where
  "fetches actions = List.map_filter (\<lambda>a. case a of Fetch k g \<Rightarrow> Some \<lparr>ft_key = k, ft_generation = g\<rparr> | _ \<Rightarrow> None) actions"

lemma fetches_simps [simp]:
  "fetches [] = []" "fetches (Fetch k g # as) = \<lparr>ft_key = k, ft_generation = g\<rparr> # fetches as"
  "fetches (Install k g # as) = fetches as" "fetches (Discard k g # as) = fetches as"
  by (simp_all add: fetches_def List.map_filter_simps)

lemma perform_actions_lane: "perform_actions actions se = se\<lparr>se_lane := se_lane se @ fetches actions\<rparr>"
  by (induction actions se rule: perform_actions.induct) (auto simp: fetches_def List.map_filter_simps split: refresh_action.splits)

lemma flights_withFlight [simp]:
  "generation (withFlight state key f) = generation state"
  "map_of (flights (withFlight state key f)) = (map_of (flights state))(key := f)"
  "wf_map (flights state) \<Longrightarrow> wf_map (flights (withFlight state key f))"
  by (auto simp: withFlight_def map_of_map_set AList.delete_conv' AList.distinct_delete restrict_complement_singleton_eq split: option.split)

lemma invalidate_lane_inv:
  assumes "lane_inv state fs watched" and "key \<in> set watched" and "invalidateResource key state = (state', actions)"
  shows "lane_inv state' (fs @ fetches actions) watched" and "generation state' = generation state" and "map_has (flights state') key"
proof -
  have inv: "wf_map (flights state)" "distinct (current_keys (generation state) fs)"
    "\<And>k. map_has (flights state) k \<longleftrightarrow> k \<in> set (current_keys (generation state) fs)"
    "\<And>k f. map_of (flights state) k = Some f \<Longrightarrow> fl_generation f = generation state"
    "\<And>f. f \<in> set fs \<Longrightarrow> ft_generation f \<le> generation state"
    "set (current_keys (generation state) fs) \<subseteq> set watched"
    using assms(1) unfolding lane_inv_def by blast+
  have "lane_inv state' (fs @ fetches actions) watched \<and> generation state' = generation state \<and> map_has (flights state') key"
  proof (cases "map_of (flights state) key")
    case None
    then have a: "state' = withFlight state key (Some \<lparr>fl_generation = generation state, fl_dirty = False\<rparr>)"
      "actions = [Fetch key (generation state)]"
      using assms(3) by (simp_all add: invalidateResource_def)
    have "key \<notin> set (current_keys (generation state) fs)" using inv(3) [of key] None by simp
    then show ?thesis unfolding lane_inv_def using inv assms(2) by (auto simp: a current_keys_Cons)
  next
    case (Some f)
    then have a: "state' = withFlight state key (Some \<lparr>fl_generation = fl_generation f, fl_dirty = True\<rparr>)" "actions = []"
      using assms(3) by (simp_all add: invalidateResource_def)
    have "key \<in> set (current_keys (generation state) fs)" using inv(3) [of key] Some by simp
    then show ?thesis unfolding lane_inv_def using inv Some by (auto simp: a)
  qed
  then show "lane_inv state' (fs @ fetches actions) watched" and "generation state' = generation state"
    and "map_has (flights state') key" by blast+
qed

text \<open>The completion of a read that leaves the lane.\<close>

lemma complete_lane_inv:
  assumes "lane_inv state (\<lparr>ft_key = key, ft_generation = gen\<rparr> # fs) watched" and "completeFetch key gen state = (state', actions)"
  shows "lane_inv state' (fs @ fetches actions) watched" and "generation state' = generation state"
    and "list_ex is_install actions \<longleftrightarrow> gen = generation state"
    and "gen = generation state \<Longrightarrow> key \<in> set watched"
proof -
  let ?fs = "\<lparr>ft_key = key, ft_generation = gen\<rparr> # fs"
  have inv: "wf_map (flights state)" "distinct (current_keys (generation state) ?fs)"
    "\<And>k. map_has (flights state) k \<longleftrightarrow> k \<in> set (current_keys (generation state) ?fs)"
    "\<And>k f. map_of (flights state) k = Some f \<Longrightarrow> fl_generation f = generation state"
    "\<And>f. f \<in> set ?fs \<Longrightarrow> ft_generation f \<le> generation state"
    "set (current_keys (generation state) ?fs) \<subseteq> set watched"
    using assms(1) unfolding lane_inv_def by blast+
  have "lane_inv state' (fs @ fetches actions) watched \<and> generation state' = generation state
      \<and> (list_ex is_install actions \<longleftrightarrow> gen = generation state)"
  proof (cases "gen = generation state")
    case False
    then have "state' = state" "actions = [Discard key gen]"
      using assms(2) by (auto simp: completeFetch_def Let_def split: option.splits)
    then show ?thesis using inv False unfolding lane_inv_def by (auto simp: current_keys_Cons is_install_def)
  next
    case True
    then have "key \<in> set (current_keys (generation state) ?fs)" by (simp add: current_keys_Cons)
    then obtain f where f: "map_of (flights state) key = Some f" using inv(3) by blast
    have fresh: "key \<notin> set (current_keys (generation state) fs)" using inv(2) True by (simp add: current_keys_Cons)
    have gen: "fl_generation f = generation state" using inv(4) f by blast
    show ?thesis
    proof (cases "fl_dirty f")
      case dirty: True
      then have "state' = withFlight state key (Some \<lparr>fl_generation = generation state, fl_dirty = False\<rparr>)"
        "actions = [Install key gen, Fetch key (generation state)]"
        using assms(2) True f gen by (auto simp: completeFetch_def Let_def)
      then show ?thesis unfolding lane_inv_def using inv True fresh by (auto simp: current_keys_Cons is_install_def)
    next
      case False
      then have "state' = withFlight state key None" "actions = [Install key gen]"
        using assms(2) True f gen by (auto simp: completeFetch_def Let_def)
      then show ?thesis unfolding lane_inv_def using inv True fresh by (auto simp: current_keys_Cons is_install_def)
    qed
  qed
  then show "lane_inv state' (fs @ fetches actions) watched" and "generation state' = generation state"
    and "list_ex is_install actions \<longleftrightarrow> gen = generation state" by blast+
  show "gen = generation state \<Longrightarrow> key \<in> set watched" using inv(6) by (simp add: current_keys_Cons)
qed

lemma advance_lane_inv: "lane_inv state fs watched \<Longrightarrow> lane_inv (advanceGeneration state) fs watched'"
proof -
  assume "lane_inv state fs watched"
  then have "ft_generation f \<le> generation state" if "f \<in> set fs" for f using that unfolding lane_inv_def by blast
  then have old: "ft_generation f < generation state + 1" if "f \<in> set fs" for f using that by fastforce
  then have "current_keys (generation state + 1) fs = []" by (force simp: current_keys_def filter_empty_conv)
  then show ?thesis using old unfolding lane_inv_def by (auto simp: advanceGeneration_def order_less_imp_le)
qed

lemma lane_inv_watch: "lane_inv state fs watched \<Longrightarrow> set watched \<subseteq> set watched' \<Longrightarrow> lane_inv state fs watched'"
  unfolding lane_inv_def by blast

section \<open>The invariant\<close>

text \<open>
  The parts of the invariant: the lane and the read that runs; what is installed; the reads of the overview
  outside the lane; and the transports, of which each one that was made is the current one, one that a change
  of the endpoint tries, or shut.
\<close>

definition lane_part :: "jstr refresh \<Rightarrow> running_fetch option \<Rightarrow> fetch list \<Rightarrow> jstr list \<Rightarrow> nat \<Rightarrow> jstr \<Rightarrow> bool" where
  "lane_part state running lane watched transport identity \<longleftrightarrow>
     lane_inv state (tasks running lane) watched
     \<and> (case running of None \<Rightarrow> True
        | Some f \<Rightarrow> ft_generation f = generation state \<longrightarrow> ft_transport f = transport \<and> ft_identity f = identity)"

definition bound_overview :: "jstr \<Rightarrow> overview \<Rightarrow> bool" where
  "bound_overview identity ov \<longleftrightarrow> list_all (\<lambda>i. rf_endpoint (oi_reference i) = identity) (ov_items ov)"

definition installed_part :: "(jstr, observed outcome) jsmap \<Rightarrow> overview outcome option \<Rightarrow> jstr list \<Rightarrow> jstr \<Rightarrow> bool" where
  "installed_part reads ov watched identity \<longleftrightarrow>
     (\<forall>(k, outcome) \<in> set reads. k \<in> set watched
        \<and> (case outcome of Inl _ \<Rightarrow> True | Inr ob \<Rightarrow> ob_reference ob = \<lparr>rf_endpoint = identity, rf_uri = k\<rparr>))
     \<and> (case ov of Some (Inr v) \<Rightarrow> bound_overview identity v | _ \<Rightarrow> True)"

definition read_ok :: "int \<Rightarrow> nat \<Rightarrow> jstr \<Rightarrow> overview_read \<Rightarrow> bool" where
  "read_ok gen transport identity r \<longleftrightarrow>
     or_generation r \<le> gen \<and> (or_generation r = gen \<longrightarrow> or_transport r = transport \<and> or_identity r = identity)"

definition loop_ok :: "int \<Rightarrow> nat \<Rightarrow> jstr \<Rightarrow> session_loop \<Rightarrow> bool" where
  "loop_ok gen transport identity lp \<longleftrightarrow>
     (case lp_phase lp of OnEvents _ \<Rightarrow> True | OnResnapshot r _ \<Rightarrow> read_ok gen transport identity r)"

definition reads_part :: "overview_read list \<Rightarrow> session_loop list \<Rightarrow> int \<Rightarrow> nat \<Rightarrow> jstr \<Rightarrow> bool" where
  "reads_part starts loops gen transport identity \<longleftrightarrow>
     list_all (read_ok gen transport identity) starts \<and> list_all (loop_ok gen transport identity) loops"

definition transports_part :: "nat \<Rightarrow> nat \<Rightarrow> nat list \<Rightarrow> pending_switch list \<Rightarrow> bool \<Rightarrow> bool" where
  "transports_part transport made gone switches closed_now \<longleftrightarrow>
     distinct (transport # map sw_transport switches)
     \<and> set (map sw_transport switches) \<inter> set gone = {}
     \<and> (closed_now \<longleftrightarrow> transport \<in> set gone)
     \<and> insert transport (set (map sw_transport switches) \<union> set gone) = {0..<made}"

definition session_ok :: "session \<Rightarrow> bool" where
  "session_ok se \<longleftrightarrow>
     lane_part (se_refresh se) (se_running se) (se_lane se) (se_watched se) (se_transport se) (se_identity se)
     \<and> installed_part (se_installed se) (se_overview se) (se_watched se) (se_identity se)
     \<and> reads_part (se_starts se) (se_loops se) (generation (se_refresh se)) (se_transport se) (se_identity se)
     \<and> transports_part (se_transport se) (se_made se) (se_shut se) (se_switches se) (se_closed se)
     \<and> checked (se_capabilities se)"

lemma tasks_append [simp]: "tasks running (lane @ fs) = tasks running lane @ fs"
  by (simp add: tasks_def)

section \<open>The lane\<close>

lemma invalidate_key_eq:
  "invalidateResource key (se_refresh se) = (state, actions) \<Longrightarrow>
   invalidate_key key se = se\<lparr>se_refresh := state, se_lane := se_lane se @ fetches actions\<rparr>"
  by (simp add: invalidate_key_def perform_actions_lane)

lemma invalidate_key_ok:
  assumes "session_ok se" and "key \<in> set (se_watched se)"
  shows "session_ok (invalidate_key key se)" and "se_watched (invalidate_key key se) = se_watched se"
    and "generation (se_refresh (invalidate_key key se)) = generation (se_refresh se)"
    and "se_running (invalidate_key key se) = se_running se"
    and "key \<in> set (current_keys (generation (se_refresh se)) (tasks (se_running se) (se_lane (invalidate_key key se))))"
proof -
  obtain state actions where i: "invalidateResource key (se_refresh se) = (state, actions)" by force
  note eq = invalidate_key_eq [OF i]
  have lane: "lane_inv (se_refresh se) (tasks (se_running se) (se_lane se)) (se_watched se)"
    using assms(1) by (simp add: session_ok_def lane_part_def)
  note l = invalidate_lane_inv [OF lane assms(2) i]
  have "lane_part state (se_running se) (se_lane se @ fetches actions) (se_watched se) (se_transport se) (se_identity se)"
    using assms(1) l(1,2) by (auto simp: session_ok_def lane_part_def split: option.splits)
  then show "session_ok (invalidate_key key se)" using assms(1) l(2) by (simp add: session_ok_def eq)
  show "se_watched (invalidate_key key se) = se_watched se" "se_running (invalidate_key key se) = se_running se"
    "generation (se_refresh (invalidate_key key se)) = generation (se_refresh se)" using l(2) by (simp_all add: eq)
  show "key \<in> set (current_keys (generation (se_refresh se)) (tasks (se_running se) (se_lane (invalidate_key key se))))"
  proof -
    have "key \<in> set (current_keys (generation state) (tasks (se_running se) (se_lane se) @ fetches actions))"
      using l(1,3) unfolding lane_inv_def by blast
    then show ?thesis using l(2) by (simp add: eq)
  qed
qed

lemma invalidate_keys_ok:
  "session_ok se \<Longrightarrow> set keys \<subseteq> set (se_watched se) \<Longrightarrow> session_ok (fold invalidate_key keys se)"
  by (induction keys arbitrary: se) (simp_all add: invalidate_key_ok)

lemma invalidated_ok: "session_ok se \<Longrightarrow> session_ok (invalidated event se)"
  unfolding invalidated_def by (rule invalidate_keys_ok) auto

lemma lane_part_watch:
  "lane_part state running lane watched transport identity \<Longrightarrow> set watched \<subseteq> set watched' \<Longrightarrow>
   lane_part state running lane watched' transport identity"
  unfolding lane_part_def using lane_inv_watch by blast

lemma installed_part_watch:
  "installed_part reads ov watched identity \<Longrightarrow> set watched \<subseteq> set watched' \<Longrightarrow> installed_part reads ov watched' identity"
  unfolding installed_part_def by blast

lemma add_watched_ok: "session_ok se \<Longrightarrow> set (se_watched se) \<subseteq> set watched \<Longrightarrow> session_ok (se\<lparr>se_watched := watched\<rparr>)"
  using lane_part_watch installed_part_watch by (simp add: session_ok_def) blast

lemma watch_ok: "session_ok se \<Longrightarrow> watch reference se = (r, se') \<Longrightarrow> session_ok se'"
proof -
  assume ok: "session_ok se" and w: "watch reference se = (r, se')"
  let ?se = "se\<lparr>se_watched := se_watched se @ [rf_uri reference]\<rparr>"
  have "set (se_watched se) \<subseteq> set (se_watched se @ [rf_uri reference])" by auto
  from add_watched_ok [OF ok this] have "session_ok (invalidate_key (rf_uri reference) ?se)"
    by (simp add: invalidate_key_ok(1))
  then show ?thesis using w ok by (simp add: watch_def split: option.splits if_splits)
qed

lemma lane_part_begin:
  assumes "lane_part state None (f # rest) watched transport identity"
  shows "ft_generation f = generation state \<Longrightarrow>
      lane_part state (Some \<lparr>ft_key = ft_key f, ft_generation = generation state, ft_transport = transport, ft_identity = identity,
        ft_closed = gone\<rparr>) rest watched transport identity"
    and "ft_generation f \<noteq> generation state \<Longrightarrow> lane_part state None rest watched transport identity"
  using assms by (auto simp: lane_part_def tasks_def lane_inv_def current_keys_Cons)

lemma begin_fetch_ok: "session_ok se \<Longrightarrow> begin_fetch se = Some se' \<Longrightarrow> session_ok se'"
  unfolding session_ok_def
  by (auto simp: begin_fetch_def lane_part_begin split: option.splits list.splits if_splits)

section \<open>Completed reads\<close>

text \<open>What installing may do: it sets reads and the overview, and nothing else.\<close>

definition installs :: "(session \<Rightarrow> session) \<Rightarrow> session \<Rightarrow> bool" where
  "installs install se \<longleftrightarrow>
     install se = se\<lparr>se_installed := se_installed (install se), se_overview := se_overview (install se)\<rparr>
     \<and> installed_part (se_installed (install se)) (se_overview (install se)) (se_watched se) (se_identity se)"

lemma complete_fetch_ok:
  assumes ok: "session_ok se" and f: "se_running se = Some f"
    and install: "\<And>state. ft_generation f = generation (se_refresh se) \<Longrightarrow> ft_key f \<in> set (se_watched se) \<Longrightarrow>
      ft_transport f = se_transport se \<Longrightarrow> ft_identity f = se_identity se \<Longrightarrow>
      installs install (se\<lparr>se_running := None, se_refresh := state\<rparr>)"
  shows "session_ok (complete_fetch (ft_key f) (ft_generation f) outcome install (se\<lparr>se_running := None\<rparr>))"
proof -
  let ?gen = "generation (se_refresh se)"
  obtain state actions where c: "completeFetch (ft_key f) (ft_generation f) (se_refresh se) = (state, actions)" by force
  let ?se = "se\<lparr>se_running := None, se_refresh := state\<rparr>"
  have lane: "lane_inv (se_refresh se) (\<lparr>ft_key = ft_key f, ft_generation = ft_generation f\<rparr> # se_lane se) (se_watched se)"
    using ok f by (simp add: session_ok_def lane_part_def tasks_def)
  note l = complete_lane_inv [OF lane c]
  have part: "lane_part state None (se_lane se @ fetches actions) (se_watched se) (se_transport se) (se_identity se)"
    using l(1) by (simp add: lane_part_def tasks_def)
  show ?thesis
  proof (cases "ft_generation f = ?gen")
    case False
    then have "complete_fetch (ft_key f) (ft_generation f) outcome install (se\<lparr>se_running := None\<rparr>)
        = ?se\<lparr>se_lane := se_lane se @ fetches actions\<rparr>"
      using l(3) by (simp add: complete_fetch_def c perform_actions_lane)
    then show ?thesis using ok part l(2) by (simp add: session_ok_def)
  next
    case True
    have "ft_transport f = se_transport se" "ft_identity f = se_identity se"
      using ok f True by (simp_all add: session_ok_def lane_part_def)
    from install [OF True l(4) [OF True] this, of state] obtain reads ov where i: "install ?se = ?se\<lparr>se_installed := reads, se_overview := ov\<rparr>"
      "installed_part reads ov (se_watched se) (se_identity se)"
      unfolding installs_def by auto
    have "\<exists>rereads. complete_fetch (ft_key f) (ft_generation f) outcome install (se\<lparr>se_running := None\<rparr>)
        = ?se\<lparr>se_installed := reads, se_overview := ov, se_rereads := rereads, se_lane := se_lane se @ fetches actions\<rparr>"
      using l(3) True i(1) by (cases outcome) (auto simp: complete_fetch_def c [unfolded True] perform_actions_lane Let_def intro: exI [of _ "se_rereads se"])
    then show ?thesis using ok part l(2) i(2) by (auto simp: session_ok_def)
  qed
qed

lemma map_set_subset: "set (map_set k v m) \<subseteq> insert (k, v) (set m)"
  by (induction m) auto

lemma finish_read_ok:
  assumes "session_ok se" and "se_running se = Some f"
  shows "session_ok (finish_read f response se)"
proof -
  define outcome where "outcome = observe (ft_closed f) (ft_identity f) (ft_transport f = se_transport se)
            \<lparr>rf_endpoint = ft_identity f, rf_uri = ft_key f\<rparr> response"
  have "case outcome of Inl _ \<Rightarrow> True | Inr ob \<Rightarrow> ob_reference ob = \<lparr>rf_endpoint = ft_identity f, rf_uri = ft_key f\<rparr>"
    by (auto simp: outcome_def observe_def session_check_def split: sum.split)
  then have put: "installed_part (map_set (ft_key f) outcome reads) ov watched (ft_identity f)"
    if "installed_part reads ov watched (ft_identity f)" "ft_key f \<in> set watched" for reads ov watched
    using that map_set_subset [of "ft_key f" outcome reads] unfolding installed_part_def by fastforce
  show ?thesis
    unfolding finish_read_def outcome_def [symmetric] Let_def
    by (rule complete_fetch_ok [OF assms]) (use assms(1) put in \<open>auto simp: installs_def session_ok_def\<close>)
qed

definition outcome_bound :: "jstr \<Rightarrow> overview outcome \<Rightarrow> bool" where
  "outcome_bound identity outcome \<longleftrightarrow> (case outcome of Inl _ \<Rightarrow> True | Inr ov \<Rightarrow> bound_overview identity ov)"

lemma loadOverview_outcome: "loadOverview clock identity answers = Some outcome \<Longrightarrow> outcome_bound identity outcome"
  using loadOverview_bound by (auto simp: outcome_bound_def bound_overview_def split: sum.split)

lemma installed_overview:
  "installed_part reads ov watched identity \<Longrightarrow> outcome_bound identity outcome \<Longrightarrow> installed_part reads (Some outcome) watched identity"
  by (auto simp: installed_part_def outcome_bound_def split: sum.splits)

lemma finish_overview_ok:
  "session_ok se \<Longrightarrow> se_running se = Some f \<Longrightarrow> outcome_bound (ft_identity f) outcome \<Longrightarrow> session_ok (finish_overview f outcome se)"
  unfolding finish_overview_def
  by (rule complete_fetch_ok) (auto simp: installs_def session_ok_def intro: installed_overview)

lemma reread_ok: "session_ok se \<Longrightarrow> session_ok (reread f se)"
proof -
  assume ok: "session_ok se"
  then have "session_ok (se\<lparr>se_rereads := remove1 f (se_rereads se)\<rparr>)" by (simp add: session_ok_def)
  then show ?thesis using invalidate_key_ok(1) [of "se\<lparr>se_rereads := remove1 f (se_rereads se)\<rparr>" "ft_key f"]
    by (simp add: reread_def Let_def)
qed

section \<open>Following\<close>

lemma reads_part_advance: "reads_part starts loops gen transport identity \<Longrightarrow> reads_part starts loops (gen + 1) transport' identity'"
proof -
  have one: "read_ok gen transport identity r \<Longrightarrow> read_ok (gen + 1) transport' identity' r" for r
    by (auto simp: read_ok_def)
  then have "loop_ok gen transport identity lp \<Longrightarrow> loop_ok (gen + 1) transport' identity' lp" for lp
    by (auto simp: loop_ok_def split: loop_phase.splits)
  with one show "reads_part starts loops gen transport identity \<Longrightarrow> reads_part starts loops (gen + 1) transport' identity'"
    unfolding reads_part_def by (auto elim: list.pred_mono_strong)
qed

lemma reads_part_more:
  "reads_part (starts @ [r]) loops gen transport identity \<longleftrightarrow> read_ok gen transport identity r \<and> reads_part starts loops gen transport identity"
  "reads_part starts (loops @ [lp]) gen transport identity \<longleftrightarrow> loop_ok gen transport identity lp \<and> reads_part starts loops gen transport identity"
  by (auto simp: reads_part_def)

lemma list_all_remove1: "list_all P xs \<Longrightarrow> list_all P (remove1 x xs)"
  by (auto simp: list_all_iff dest: notin_set_remove1)

lemma reads_part_remove:
  "reads_part starts loops gen transport identity \<Longrightarrow> reads_part (remove1 r starts) loops gen transport identity"
  "reads_part starts loops gen transport identity \<Longrightarrow> reads_part starts (remove1 lp loops) gen transport identity"
  by (auto simp: reads_part_def list_all_remove1)

lemma loops_ok:
  "session_ok se \<Longrightarrow> reads_part (se_starts se) loops (generation (se_refresh se)) (se_transport se) (se_identity se)
   \<Longrightarrow> session_ok (se\<lparr>se_loops := loops\<rparr>)"
  by (simp add: session_ok_def)

lemma follow_from_ok [simp]: "loop_ok gen transport identity (follow_from cursor se)"
  by (simp add: loop_ok_def follow_from_def)

lemma bootstrap_begin_ok:
  assumes "session_ok se" and "bootstrap_begin se = (se', r)"
  shows "session_ok se'" and "read_ok (generation (se_refresh se')) (se_transport se') (se_identity se') r"
    and "se_loops se' = se_loops se" and "se_starts se' = se_starts se"
proof -
  have "set (se_watched se) \<subseteq> set (set_add OVERVIEW (se_watched se))" by (auto simp: set_add_def)
  from add_watched_ok [OF assms(1) this] assms(2) show "session_ok se'" by (auto simp: bootstrap_begin_def)
  show "read_ok (generation (se_refresh se')) (se_transport se') (se_identity se') r" "se_loops se' = se_loops se" "se_starts se' = se_starts se"
    using assms(2) by (auto simp: bootstrap_begin_def read_ok_def)
qed

lemma bootstrap_end_ok:
  assumes "session_ok se" and "read_ok (generation (se_refresh se)) (se_transport se) (se_identity se) r"
    and "outcome_bound (or_identity r) outcome"
  shows "session_ok (bootstrap_end r outcome se)"
  using assms installed_overview [of "se_installed se" "se_overview se" "se_watched se" "se_identity se" outcome]
  by (auto simp: bootstrap_end_def session_ok_def read_ok_def)

lemma bootstrap_end_keeps [simp]:
  "se_loops (bootstrap_end r outcome se) = se_loops se" "se_refresh (bootstrap_end r outcome se) = se_refresh se"
  "se_transport (bootstrap_end r outcome se) = se_transport se" "se_identity (bootstrap_end r outcome se) = se_identity se"
  "se_starts (bootstrap_end r outcome se) = se_starts se" "se_watched (bootstrap_end r outcome se) = se_watched se"
  by (simp_all add: bootstrap_end_def)

lemma session_reads: "session_ok se \<Longrightarrow> reads_part (se_starts se) (se_loops se) (generation (se_refresh se)) (se_transport se) (se_identity se)"
  by (simp add: session_ok_def)

lemma start_begin_ok: "session_ok se \<Longrightarrow> start_begin se = Inr se' \<Longrightarrow> session_ok se'"
proof -
  assume ok: "session_ok se" and s: "start_begin se = Inr se'"
  obtain se1 r where b: "bootstrap_begin se = (se1, r)" by force
  have "se' = se1\<lparr>se_starts := se_starts se1 @ [r]\<rparr>" using s by (simp add: start_begin_def b split: if_splits)
  then show ?thesis using bootstrap_begin_ok(1,2) [OF ok b] by (simp add: session_ok_def reads_part_more)
qed

lemma start_end_ok:
  assumes ok: "session_ok se" and r: "r \<in> set (se_starts se)" and bound: "outcome_bound (or_identity r) outcome"
  shows "session_ok (start_end r outcome se)"
proof -
  let ?se = "se\<lparr>se_starts := remove1 r (se_starts se)\<rparr>"
  have "session_ok ?se" using ok reads_part_remove(1) by (simp add: session_ok_def)
  moreover have "read_ok (generation (se_refresh se)) (se_transport se) (se_identity se) r"
    using session_reads [OF ok] r by (auto simp: reads_part_def list_all_iff)
  ultimately have one: "session_ok (bootstrap_end r outcome ?se)" using bound by (intro bootstrap_end_ok) simp_all
  then show ?thesis
    using session_reads [OF one] by (cases outcome) (simp_all add: start_end_def Let_def session_ok_def reads_part_more)
qed

lemma loop_over_ok: "session_ok se \<Longrightarrow> session_ok (loop_over lp ending se)"
  using reads_part_remove(2) [OF session_reads]
  by (auto simp: loop_over_def Let_def session_ok_def reads_part_more split: option.split sum.split)

lemma lane_part_advance:
  assumes "lane_part state running lane watched transport identity"
  shows "lane_part (advanceGeneration state) running lane watched' transport' identity'"
proof -
  have inv: "lane_inv state (tasks running lane) watched" using assms by (simp add: lane_part_def)
  have "ft_generation f \<le> generation state" if "running = Some f" for f
    using inv that by (simp add: lane_inv_def tasks_def)
  then show ?thesis using advance_lane_inv [OF inv] by (force simp: lane_part_def advanceGeneration_def split: option.split)
qed

lemma advance_ok: "session_ok se \<Longrightarrow> session_ok (se\<lparr>se_refresh := advanceGeneration (se_refresh se)\<rparr>)"
proof -
  assume ok: "session_ok se"
  have "generation (advanceGeneration (se_refresh se)) = generation (se_refresh se) + 1" by (simp add: advanceGeneration_def)
  then show ?thesis
    using ok lane_part_advance [of "se_refresh se" "se_running se" "se_lane se" "se_watched se" "se_transport se" "se_identity se"]
      reads_part_advance [of "se_starts se" "se_loops se" "generation (se_refresh se)" "se_transport se" "se_identity se"]
    by (simp add: session_ok_def)
qed

lemma loop_ended_ok: "session_ok se \<Longrightarrow> session_ok (loop_ended lp ending se)"
proof -
  assume ok: "session_ok se"
  obtain se1 r where b: "bootstrap_begin (se\<lparr>se_refresh := advanceGeneration (se_refresh se)\<rparr>) = (se1, r)" by force
  note one = bootstrap_begin_ok [OF advance_ok [OF ok] b]
  have "loop_ok (generation (se_refresh se1)) (se_transport se1) (se_identity se1) \<lparr>lp_transport = t, lp_phase = OnResnapshot r ending\<rparr>" for t
    using one(2) by (simp add: loop_ok_def)
  then show ?thesis
    using loop_over_ok [OF ok] one(1) reads_part_remove(2) [OF session_reads [OF one(1)]]
    by (auto simp: loop_ended_def b intro!: loops_ok simp: reads_part_more)
qed

lemma fold_invalidate_keeps [simp]:
  "se_loops (fold invalidate_key keys se) = se_loops se" "se_transport (fold invalidate_key keys se) = se_transport se"
  "se_identity (fold invalidate_key keys se) = se_identity se" "se_starts (fold invalidate_key keys se) = se_starts se"
  by (induction keys arbitrary: se) (simp_all add: invalidate_key_def perform_actions_lane Let_def split_def)

lemma resnapshot_end_ok:
  assumes ok: "session_ok se" and lp: "lp \<in> set (se_loops se)" "lp_phase lp = OnResnapshot r ending"
    and bound: "outcome_bound (or_identity r) outcome"
  shows "session_ok (resnapshot_end lp r ending outcome se)"
proof -
  have "loop_ok (generation (se_refresh se)) (se_transport se) (se_identity se) lp"
    using session_reads [OF ok] lp(1) by (auto simp: reads_part_def list_all_iff)
  then have "session_ok (bootstrap_end r outcome se)" using ok bound lp(2) by (intro bootstrap_end_ok) (simp_all add: loop_ok_def)
  then have one: "session_ok (bootstrap_end r outcome se)"
    and two: "session_ok (fold invalidate_key (filter (\<lambda>key. key \<noteq> OVERVIEW) (se_watched se)) (bootstrap_end r outcome se))"
    by (simp, intro invalidate_keys_ok) auto
  show ?thesis
    using loop_over_ok [OF one] loops_ok [OF two] reads_part_remove(2) [OF session_reads [OF two]]
    by (cases outcome) (simp_all add: resnapshot_end_def Let_def reads_part_more)
qed

section \<open>The change of the endpoint\<close>

lemma transports_new:
  assumes "transports_part transport made gone switches closed_now"
  shows "transports_part transport (Suc made) gone (switches @ [\<lparr>sw_earlier = e, sw_transport = made\<rparr>]) closed_now"
proof -
  have all: "insert transport (set (map sw_transport switches) \<union> set gone) = {0..<made}"
    using assms by (simp add: transports_part_def)
  then have "made \<notin> insert transport (set (map sw_transport switches) \<union> set gone)" by simp
  moreover have "insert made {0..<made} = {0..<Suc made}" by auto
  ultimately show ?thesis using assms all by (auto simp: transports_part_def)
qed

lemma switch_begin_ok: "session_ok se \<Longrightarrow> switch_begin se = Inr se' \<Longrightarrow> session_ok se'"
  using transports_new [of "se_transport se" "se_made se" "se_shut se" "se_switches se" False "se_transport se"]
  by (auto simp: switch_begin_def session_ok_def split: if_splits)

lemma transports_shut:
  assumes "transports_part transport made gone switches closed_now" and "sw \<in> set switches"
  shows "transports_part transport made (sw_transport sw # gone) (remove1 sw switches) closed_now"
    and "sw_transport sw \<noteq> transport"
    and "\<not> closed_now \<Longrightarrow> transports_part (sw_transport sw) made (transport # gone) (remove1 sw switches) closed_now"
proof -
  have d: "distinct (map sw_transport switches)" using assms(1) by (simp add: transports_part_def)
  obtain a b where ab: "switches = a @ sw # b" "sw \<notin> set a" using assms(2) split_list_first by metis
  then have r: "remove1 sw switches = a @ b" by (simp add: remove1_append)
  show "transports_part transport made (sw_transport sw # gone) (remove1 sw switches) closed_now" "sw_transport sw \<noteq> transport"
    "\<not> closed_now \<Longrightarrow> transports_part (sw_transport sw) made (transport # gone) (remove1 sw switches) closed_now"
    using assms(1) unfolding r unfolding ab(1) by (auto simp: transports_part_def)
qed

lemma switch_end_ok:
  assumes ok: "session_ok se" and sw: "sw \<in> set (se_switches se)" and bound: "outcome_bound identity outcome"
    and e: "switch_end sw profile identity response outcome se = (res, se')"
  shows "session_ok se'"
proof -
  let ?se1 = "se\<lparr>se_switches := remove1 sw (se_switches se)\<rparr>"
  have tp: "transports_part (se_transport se) (se_made se) (se_shut se) (se_switches se) (se_closed se)"
    using ok by (simp add: session_ok_def)
  note t = transports_shut [OF tp sw]
  have refused: "session_ok (shut (sw_transport sw) ?se1)" using ok t(1) by (simp add: session_ok_def shut_def)
  have "session_ok (switch_commit sw profile identity c ov ?se1)"
    if "bind_capabilities response = Inr c" "outcome = Inr ov" "switch_live sw se" for c ov
  proof -
    have live: "\<not> se_closed se" "se_transport se = sw_earlier sw" using that(3) by (simp_all add: switch_live_def)
    have "lane_part (advanceGeneration (se_refresh se)) (se_running se) (se_lane se) [OVERVIEW] (sw_transport sw) identity"
      by (rule lane_part_advance [of _ _ _ "se_watched se" "se_transport se" "se_identity se"]) (use ok in \<open>simp add: session_ok_def\<close>)
    moreover have "installed_part [] (Some (Inr ov)) [OVERVIEW] identity"
      using bound that(2) by (simp add: installed_part_def outcome_bound_def)
    moreover have "checked c" using that(1) by (rule bind_checked)
    moreover have "reads_part (se_starts se) (se_loops se) (generation (advanceGeneration (se_refresh se))) (sw_transport sw) identity"
      using session_reads [OF ok] reads_part_advance by (simp add: advanceGeneration_def)
    ultimately show ?thesis
      using t(3) live by (simp add: session_ok_def switch_commit_def shut_def)
  qed
  then show ?thesis using e refused
    by (auto simp: switch_end_def Let_def split: sum.splits if_splits)
qed

section \<open>Reachable sessions\<close>

lemma newSession_ok: "checked c \<Longrightarrow> session_ok (newSession endpoint identity c delivery)"
  by (simp add: session_ok_def newSession_def lane_part_def tasks_def lane_inv_def newRefresh_def installed_part_def reads_part_def
      transports_part_def)

lemma connect_ok: "connect_session profile identity delivery response = Inr se \<Longrightarrow> session_ok se"
  by (auto simp: connect_session_def thenO_Inr intro: newSession_ok dest: bind_checked)

lemma close_ok: "session_ok se \<Longrightarrow> session_ok (close_session se)"
  by (auto simp: session_ok_def close_session_def shut_def transports_part_def)

lemma session_step_ok: "session_step clock se se' \<Longrightarrow> session_ok se \<Longrightarrow> session_ok se'"
proof (induction rule: session_step.induct)
  case (step_event lp se event)
  then show ?case by (simp add: loop_event_def invalidated_ok)
next
  case (step_state lp se state)
  then show ?case by (auto simp: loop_state_def session_ok_def)
next
  case (step_delivery se delivery)
  then show ?case by (simp add: setDelivery_def session_ok_def)
qed (auto intro: watch_ok begin_fetch_ok finish_read_ok finish_overview_ok reread_ok start_begin_ok start_end_ok loop_ended_ok
       resnapshot_end_ok switch_begin_ok switch_end_ok close_ok dest!: loadOverview_outcome)

lemma session_run_ok: "session_run clock se \<Longrightarrow> session_ok se"
  by (induction rule: session_run.induct) (blast intro: connect_ok session_step_ok)+

section \<open>Invalidations are read\<close>

text \<open>
  A resource is marked when a read of it waits in the lane, or when the read that runs will be followed by
  another one.
\<close>

definition marked :: "jstr \<Rightarrow> session \<Rightarrow> bool" where
  "marked key se \<longleftrightarrow>
     \<lparr>ft_key = key, ft_generation = generation (se_refresh se)\<rparr> \<in> set (se_lane se)
     \<or> (case se_running se of None \<Rightarrow> False
        | Some f \<Rightarrow> ft_key f = key \<and> ft_generation f = generation (se_refresh se)
            \<and> (case map_of (flights (se_refresh se)) key of None \<Rightarrow> False | Some fl \<Rightarrow> fl_dirty fl))"

lemma invalidate_marks_other:
  assumes "marked key se"
  shows "marked key (invalidate_key other se)"
proof -
  obtain state actions where i: "invalidateResource other (se_refresh se) = (state, actions)" by force
  have "generation state = generation (se_refresh se)"
    "\<And>fl. map_of (flights (se_refresh se)) key = Some fl \<Longrightarrow> fl_dirty fl \<Longrightarrow>
      \<exists>fl'. map_of (flights state) key = Some fl' \<and> fl_dirty fl'"
    using i by (auto simp: invalidateResource_def split: option.splits)
  then show ?thesis using assms
    by (auto simp: marked_def invalidate_key_eq [OF i] split: option.splits)
qed

lemma invalidate_marks:
  assumes ok: "session_ok se" and key: "key \<in> set (se_watched se)"
  shows "marked key (invalidate_key key se)"
proof -
  obtain state actions where i: "invalidateResource key (se_refresh se) = (state, actions)" by force
  have lane: "lane_inv (se_refresh se) (tasks (se_running se) (se_lane se)) (se_watched se)"
    using ok by (simp add: session_ok_def lane_part_def)
  show ?thesis
  proof (cases "map_of (flights (se_refresh se)) key")
    case None
    then have "generation state = generation (se_refresh se)" "actions = [Fetch key (generation (se_refresh se))]"
      using i by (auto simp: invalidateResource_def)
    then show ?thesis by (simp add: marked_def invalidate_key_eq [OF i])
  next
    case (Some fl)
    then have dirty: "generation state = generation (se_refresh se)" "\<exists>fl'. map_of (flights state) key = Some fl' \<and> fl_dirty fl'" "actions = []"
      using i by (auto simp: invalidateResource_def)
    have "map_has (flights (se_refresh se)) key" using Some by simp
    then have "key \<in> set (current_keys (generation (se_refresh se)) (tasks (se_running se) (se_lane se)))"
      using lane unfolding lane_inv_def by blast
    then obtain t where t: "t \<in> set (tasks (se_running se) (se_lane se))" "ft_key t = key" "ft_generation t = generation (se_refresh se)"
      by (auto simp: current_keys_def)
    then have "t = \<lparr>ft_key = key, ft_generation = generation (se_refresh se)\<rparr>" by simp
    then show ?thesis using t(1) dirty
      by (auto simp: marked_def invalidate_key_eq [OF i] tasks_def split: option.splits)
  qed
qed

lemma fold_marks:
  "session_ok se \<Longrightarrow> set keys \<subseteq> set (se_watched se) \<Longrightarrow> key \<in> set keys \<or> marked key se \<Longrightarrow> marked key (fold invalidate_key keys se)"
proof (induction keys arbitrary: se)
  case (Cons k keys)
  then have "session_ok (invalidate_key k se)" "set keys \<subseteq> set (se_watched (invalidate_key k se))"
    by (simp_all add: invalidate_key_ok)
  moreover have "key \<in> set keys \<or> marked key (invalidate_key k se)"
    using Cons.prems invalidate_marks [of se k] invalidate_marks_other [of key se k] by auto
  ultimately show ?case using Cons.IH by simp
qed simp

text \<open>The end of the read that runs puts a marked resource into the lane.\<close>

lemma complete_marked:
  assumes "session_ok se" and "se_running se = Some f" and "marked key se"
    and install: "\<And>s. se_lane (install s) = se_lane s"
  shows "\<lparr>ft_key = key, ft_generation = generation (se_refresh se)\<rparr> \<in>
    set (se_lane (complete_fetch (ft_key f) (ft_generation f) outcome install (se\<lparr>se_running := None\<rparr>)))"
proof -
  obtain state actions where c: "completeFetch (ft_key f) (ft_generation f) (se_refresh se) = (state, actions)" by force
  have lane: "se_lane (complete_fetch (ft_key f) (ft_generation f) outcome install (se\<lparr>se_running := None\<rparr>)) = se_lane se @ fetches actions"
    by (cases outcome) (auto simp: complete_fetch_def c perform_actions_lane Let_def install)
  have "Fetch key (generation (se_refresh se)) \<in> set actions"
    if "ft_key f = key" "ft_generation f = generation (se_refresh se)" "map_of (flights (se_refresh se)) key = Some fl" "fl_dirty fl" for fl
  proof -
    have "lane_inv (se_refresh se) (tasks (se_running se) (se_lane se)) (se_watched se)"
      using assms(1) by (simp add: session_ok_def lane_part_def)
    then have "fl_generation fl = generation (se_refresh se)" using that(3) unfolding lane_inv_def by blast
    then show ?thesis using c that by (auto simp: completeFetch_def Let_def)
  qed
  moreover have "\<lparr>ft_key = k, ft_generation = g\<rparr> \<in> set (fetches actions)" if "Fetch k g \<in> set actions" for k g
    using that by (induction actions) (auto simp: fetches_def List.map_filter_simps split: refresh_action.splits)
  ultimately show ?thesis using assms(2,3) by (auto simp: marked_def lane split: option.splits)
qed

section \<open>Related resources\<close>

lemma split_on_join: "split_on c (a @ c # b) = split_on c a @ split_on c b"
  by (induction a) (auto split: list.splits)

lemma join_pieces: "join [c] (split_on c s) = s"
proof (induction s)
  case (Cons u s)
  show ?case
  proof (cases "split_on c s")
    case (Cons p ps)
    then show ?thesis using Cons.IH by (cases ps) (auto simp: Cons)
  qed simp
qed simp

lemma join_append: "xs \<noteq> [] \<Longrightarrow> ys \<noteq> [] \<Longrightarrow> join sep (xs @ ys) = join sep xs @ sep @ join sep ys"
proof (induction xs)
  case (Cons x xs)
  obtain y rest where y: "ys = y # rest" using Cons.prems by (cases ys) auto
  show ?case using Cons by (cases xs) (simp_all add: y)
qed simp

lemma split_on_prefix: "(\<exists>xs. xs \<noteq> [] \<and> split_on (c :: unit16) a = split_on c b @ xs) \<longleftrightarrow> (\<exists>r. a = b @ c # r)"
proof
  assume "\<exists>xs. xs \<noteq> [] \<and> split_on c a = split_on c b @ xs"
  then obtain xs where xs: "xs \<noteq> []" "split_on c a = split_on c b @ xs" by blast
  then have "a = join [c] (split_on c b @ xs)" using join_pieces by metis
  then show "\<exists>r. a = b @ c # r" using join_append [of "split_on c b" xs "[c]"] xs(1) by (simp add: join_pieces)
qed (auto simp: split_on_join)

lemma split_on_inject: "split_on (c :: unit16) a = split_on c b \<Longrightarrow> a = b"
  using join_pieces by metis

end
