(* ===== verification/SampleSession.thy ===== *)
theory SampleSession
  imports SessionLaws SampleWire
begin

text \<open>A manager that accepts the client, a session with it, and some of its steps.\<close>

section \<open>A session\<close>

definition num :: "int \<Rightarrow> json_value" where "num n = JNum (int_text n)"

definition sample_versions :: json_value where
  "sample_versions = JObj ((js ''frontendManifest'', JArr [JStr (js ''3'')]) # map (\<lambda>(name, vs). (name, JArr [num (hd vs)])) NUMERIC_VERSIONS)"

definition sample_limits :: json_value where
  "sample_limits = JObj (map (\<lambda>(name, n). (name, num n)) (FIXED_LIMITS @ CONFIGURED_LIMITS))"

definition sample_capabilities :: json_value where
  "sample_capabilities = JObj
     [(js ''version'', num 1), (js ''authorityEpoch'', JStr ident), (js ''streamId'', JStr ident), (js ''versions'', sample_versions),
      (js ''scopes'', JArr [JStr (js ''observe'')]), (js ''profileIds'', JArr []),
      (js ''transports'', JArr [JStr (js ''sse''), JStr (js ''polling'')]), (js ''limits'', sample_limits)]"

lemma numbered:
  assumes "distinct (map fst L)" and "(name, v) \<in> set L"
  shows "jsonMember (map (\<lambda>(name, n). (name, num n)) L) name = Some (num v)"
  using assms by (induction L) (auto simp: jsonMember_def rev_image_eqI)

lemma exact_map:
  "distinct (map fst fs) \<Longrightarrow> names = map fst fs \<Longrightarrow> exactFields (Some (JObj fs)) names = Some fs"
  by (auto simp: exactFields_def list_all_iff map_of_eq_None_iff)

lemma limit_names: "distinct (map fst (FIXED_LIMITS @ CONFIGURED_LIMITS))"
  by code_simp

lemma limit_values:
  "list_all (\<lambda>(_, n). 0 < n \<and> n < 2 ^ 63) (FIXED_LIMITS @ CONFIGURED_LIMITS)"
  by (simp add: FIXED_LIMITS_def CONFIGURED_LIMITS_def)

lemma version_names: "distinct (js ''frontendManifest'' # map fst NUMERIC_VERSIONS)"
  by code_simp

lemma sample_limits_supported: "jsonMember own (js ''limits'') = Some sample_limits \<Longrightarrow> limits_supported own"
proof -
  let ?L = "FIXED_LIMITS @ CONFIGURED_LIMITS"
  let ?fs = "map (\<lambda>(name, n). (name, num n)) ?L"
  have names: "map fst ?fs = map fst FIXED_LIMITS @ map fst CONFIGURED_LIMITS" by (simp add: split_def comp_def)
  have exact: "exactFields (Some sample_limits) (map fst FIXED_LIMITS @ map fst CONFIGURED_LIMITS) = Some ?fs"
    unfolding sample_limits_def by (rule exact_map) (use limit_names in \<open>simp_all add: split_def comp_def\<close>)
  have limit: "limitOf ?fs name = Some n" if "(name, n) \<in> set ?L" for name n
  proof -
    have "0 < n" "n < 2 ^ 63" using that limit_values unfolding list_all_iff by blast+
    then show ?thesis using numbered [OF limit_names that] by (simp add: limitOf_def num_def)
  qed
  have positive: "0 < n" if "(name, n) \<in> set ?L" for name n using that limit_values unfolding list_all_iff by blast
  assume "jsonMember own (js ''limits'') = Some sample_limits"
  then show ?thesis
    using exact limit positive by (fastforce simp: limits_supported_def list_all_iff)
qed

lemma sample_versions_supported: "jsonMember own (js ''versions'') = Some sample_versions \<Longrightarrow> versions_supported own"
proof -
  let ?L = "map (\<lambda>(name, vs). (name, hd vs)) NUMERIC_VERSIONS"
  let ?fs = "(js ''frontendManifest'', JArr [JStr (js ''3'')]) # map (\<lambda>(name, vs). (name, JArr [num (hd vs)])) NUMERIC_VERSIONS"
  have exact: "exactFields (Some sample_versions) (js ''frontendManifest'' # map fst NUMERIC_VERSIONS) = Some ?fs"
    unfolding sample_versions_def by (rule exact_map) (use version_names in \<open>simp_all add: split_def comp_def\<close>)
  have "jsonMember ?fs name = Some (JArr [num (hd vs)])" if "(name, vs) \<in> set NUMERIC_VERSIONS" for name vs
  proof -
    have "name \<noteq> js ''frontendManifest''" using that version_names by force
    moreover have "map_of (map (\<lambda>(name, vs). (name, JArr [num (hd vs)])) L) name = Some (JArr [num (hd vs)])"
      if "distinct (map fst L)" "(name, vs) \<in> set L" for L using that by (induction L) (auto simp: rev_image_eqI)
    ultimately show ?thesis using version_names that by (simp add: jsonMember_def)
  qed
  moreover have "list_all (\<lambda>(_, vs). vs \<noteq> [] \<and> -2147483648 \<le> hd vs \<and> hd vs \<le> 2147483647) NUMERIC_VERSIONS"
    by (simp add: NUMERIC_VERSIONS_def)
  ultimately have "list_all (\<lambda>(name, supported).
      case integers (jsonMember ?fs name) of None \<Rightarrow> False
      | Some values \<Rightarrow> values \<noteq> [] \<and> distinct values \<and> list_all (\<lambda>v. v \<in> set supported) values) NUMERIC_VERSIONS"
    by (fastforce simp: list_all_iff integers_def integer_of_def num_def List.map_filter_simps)
  moreover have "text_items (jsonMember ?fs (js ''frontendManifest'')) = Some [js ''3'']"
    by (simp add: jsonMember_def text_items_def text_item_def List.map_filter_simps)
  moreover assume "jsonMember own (js ''versions'') = Some sample_versions"
  ultimately show ?thesis using exact by (simp add: versions_supported_def)
qed

definition sample_fields :: json_members where
  "sample_fields = (case sample_capabilities of JObj fs \<Rightarrow> fs | _ \<Rightarrow> [])"

lemma sample_members:
  "jsonMember sample_fields (js ''version'') = Some (num 1)" "jsonMember sample_fields (js ''authorityEpoch'') = Some (JStr ident)"
  "jsonMember sample_fields (js ''streamId'') = Some (JStr ident)" "jsonMember sample_fields (js ''versions'') = Some sample_versions"
  "jsonMember sample_fields (js ''scopes'') = Some (JArr [JStr (js ''observe'')])" "jsonMember sample_fields (js ''profileIds'') = Some (JArr [])"
  "jsonMember sample_fields (js ''transports'') = Some (JArr [JStr (js ''sse''), JStr (js ''polling'')])"
  "jsonMember sample_fields (js ''limits'') = Some sample_limits"
  by (simp_all add: sample_fields_def sample_capabilities_def jsonMember_def js_def)

lemma sample_capabilities_checked: "checkCapabilities sample_capabilities = Inr \<lparr>ca_fields = sample_fields, ca_epoch = ident\<rparr>"
proof -
  have "fields_supported sample_fields = Some ident"
    by (simp add: fields_supported_def text_member_def number_member_def sample_members num_def text_items_def text_item_def
        List.map_filter_simps require_def) (simp add: ident_def js_def)
  moreover have "exactFields (Some sample_capabilities) (map js [''version'', ''authorityEpoch'', ''streamId'', ''versions'', ''scopes'', ''profileIds'',
       ''transports'', ''limits'']) = Some sample_fields"
    unfolding sample_fields_def sample_capabilities_def json.case by (rule exact_map) (simp_all add: js_def)
  ultimately show ?thesis
    using sample_versions_supported [OF sample_members(4)] sample_limits_supported [OF sample_members(8)] by (simp add: checkCapabilities_Inr)
qed

definition sample_endpoint :: client_profile where
  "sample_endpoint = \<lparr>cp_endpoint = \<lparr>ce_url = js ''https://m'', ce_host = js ''m'', ce_port = 443\<rparr>, cp_ca = [], cp_credentialFile = [],
     cp_fingerprint = []\<rparr>"

text \<open>One page, which is a whole overview without members.\<close>

definition sample_clock :: page_clock where
  "sample_clock = \<lparr>pc_upper = id, pc_date = (\<lambda>_. Some 100)\<rparr>"

definition sample_page :: json_members where
  "sample_page =
     [(js ''setId'', JStr ident), (js ''revision'', JStr ident), (js ''expiresAt'', JStr ident), (js ''index'', num 0),
      (js ''totalItems'', num 0), (js ''next'', JNull)]"

definition sample_metadata :: json_members where
  "sample_metadata =
     [(js ''version'', num 1), (js ''snapshotVersion'', num 1), (js ''cursor'', JStr sample_cursor),
      (js ''oldestCursor'', JStr sample_cursor)]"

definition ok_response :: "json_value \<Rightarrow> client_response" where
  "ok_response v = \<lparr>re_status = 200, re_value = v, re_etag = None, re_location = None, re_bytes = 10\<rparr>"

definition sample_answer :: page_answer where
  "sample_answer =
     \<lparr>pa_closed = False, pa_before = True,
      pa_response = Inr (ok_response (JObj (sample_metadata @ [(js ''page'', JObj sample_page), (js ''items'', JArr [])]))),
      pa_after = True, pa_now = 1\<rparr>"

definition sample_overview :: overview where
  "sample_overview = \<lparr>ov_cursor = sample_cursor, ov_oldestCursor = sample_cursor, ov_items = []\<rparr>"

lemma sample_page_parts:
  "page_parts sample_clock (ok_response (JObj (sample_metadata @ [(js ''page'', JObj sample_page), (js ''items'', JArr [])]))) =
     Some (\<lparr>pg_setId = ident, pg_revision = ident, pg_expiresAt = ident, pg_expiry = 100, pg_index = 0, pg_total = 0, pg_next = None\<rparr>,
           [], sample_metadata)"
proof -
  let ?fs = "sample_metadata @ [(js ''page'', JObj sample_page), (js ''items'', JArr [])]"
  have members: "jsonMember ?fs (js ''page'') = Some (JObj sample_page)" "jsonMember ?fs (js ''items'') = Some (JArr [])"
    "repeatedFields ?fs = sample_metadata"
    by (simp_all add: jsonMember_def sample_metadata_def repeatedFields_def js_def)
  have exact: "exactFields (Some (JObj sample_page)) (map js [''setId'', ''revision'', ''expiresAt'', ''index'', ''totalItems'', ''next''])
      = Some sample_page"
    unfolding sample_page_def by (rule exact_map) (simp_all add: js_def)
  have page: "text_member sample_page ''setId'' = Some ident" "text_member sample_page ''revision'' = Some ident"
    "text_member sample_page ''expiresAt'' = Some ident" "number_member sample_page ''index'' = Some (int_text 0)"
    "number_member sample_page ''totalItems'' = Some (int_text 0)" "jsonMember sample_page (js ''next'') = Some JNull"
    by (simp_all add: text_member_def number_member_def jsonMember_def sample_page_def num_def js_def)
  have "length ident = 4" by (simp add: ident_def js_def)
  then have "pageInfo sample_clock (Some (JObj sample_page)) =
      Some \<lparr>pg_setId = ident, pg_revision = ident, pg_expiresAt = ident, pg_expiry = 100, pg_index = 0, pg_total = 0, pg_next = None\<rparr>"
    unfolding pageInfo_def exact by (simp add: page next_link_def require_def sample_clock_def)
  then show ?thesis by (simp add: page_parts_def ok_response_def members)
qed

lemma sample_page_set:
  "pageSet sample_clock identity \<lparr>rf_endpoint = identity, rf_uri = OVERVIEW\<rparr> [sample_answer] =
     ([OVERVIEW], Some (Inr \<lparr>ps_metadata = sample_metadata, ps_items = []\<rparr>))"
proof -
  have "pageScope OVERVIEW = Some s \<Longrightarrow> read_pages sample_clock identity s (first_page \<lparr>rf_endpoint = identity, rf_uri = OVERVIEW\<rparr>) [sample_answer]
      = ([OVERVIEW], Some (Inr \<lparr>ps_metadata = sample_metadata, ps_items = []\<rparr>))" for s
    by (simp add: page_refused_def first_page_def sample_answer_def page_step_def page_accepted_def sample_page_parts PAGE_SET_BYTES_def)
       (simp add: ok_response_def)
  moreover have "\<exists>s. pageScope OVERVIEW = Some s"
    by (simp add: pageScope_def Let_def) (simp add: OVERVIEW_def js_def)
  ultimately show ?thesis by (auto simp: pageSet_def)
qed

lemma sample_load: "loadOverview sample_clock identity [sample_answer] = Some (Inr sample_overview)"
proof -
  have "validResource OVERVIEW" unfolding OVERVIEW_def by code_simp
  moreover have "overview_cursors sample_metadata = Some (sample_cursor, sample_cursor)"
  proof -
    have exact: "exactFields (Some (JObj sample_metadata)) (map js [''version'', ''snapshotVersion'', ''cursor'', ''oldestCursor'']) = Some sample_metadata"
      unfolding sample_metadata_def by (rule exact_map) (simp_all add: js_def)
    have "number_member sample_metadata ''version'' = Some (int_text 1)" "number_member sample_metadata ''snapshotVersion'' = Some (int_text 1)"
      "text_member sample_metadata ''cursor'' = Some sample_cursor" "text_member sample_metadata ''oldestCursor'' = Some sample_cursor"
      by (simp_all add: text_member_def number_member_def jsonMember_def sample_metadata_def num_def js_def)
    then show ?thesis unfolding overview_cursors_def exact by (simp add: require_def)
  qed
  ultimately show ?thesis
    by (simp add: loadOverview_def referenceOf_def sample_page_set overview_of_def thenO_def sample_overview_def)
qed

section \<open>Steps\<close>

definition sample_session :: session where
  "sample_session = newSession (js ''https://m'') ident \<lparr>ca_fields = sample_fields, ca_epoch = ident\<rparr> None"

lemma sample_session_fields:
  "se_closed sample_session = False" "se_identity sample_session = ident"
  "se_capabilities sample_session = \<lparr>ca_fields = sample_fields, ca_epoch = ident\<rparr>"
  by (simp_all add: sample_session_def newSession_def)

lemma sample_run: "session_run clock sample_session"
proof (rule run_connect)
  show "connect_session sample_endpoint ident None (Inr (ok_response sample_capabilities)) = Inr sample_session"
    by (simp add: connect_session_def bind_capabilities_def ok_response_def sample_capabilities_checked thenO_def sample_endpoint_def
        sample_session_def)
qed

definition sample_reference :: reference where
  "sample_reference = \<lparr>rf_endpoint = ident, rf_uri = sample_resource\<rparr>"

definition sample_watching :: session where
  "sample_watching = sample_session\<lparr>se_watched := [sample_resource],
     se_refresh := \<lparr>generation = 0, flights = [(sample_resource, \<lparr>fl_generation = 0, fl_dirty = False\<rparr>)]\<rparr>,
     se_lane := [\<lparr>ft_key = sample_resource, ft_generation = 0\<rparr>]\<rparr>"

lemma sample_watch: "watch sample_reference sample_session = (Inr (), sample_watching)"
  by (simp add: watch_def session_check_def sample_session_def newSession_def sample_reference_def invalidate_key_def
      invalidateResource_def newRefresh_def withFlight_def sample_watching_def)

lemma sample_watching_run: "session_run clock sample_watching"
  using run_step [OF sample_run step_watch [OF sample_watch]] .

definition sample_fetch :: running_fetch where
  "sample_fetch = \<lparr>ft_key = sample_resource, ft_generation = 0, ft_transport = 0, ft_identity = ident, ft_closed = False\<rparr>"

definition sample_reading :: session where
  "sample_reading = sample_watching\<lparr>se_lane := [], se_running := Some sample_fetch\<rparr>"

lemma sample_begin: "begin_fetch sample_watching = Some sample_reading"
  by (simp add: begin_fetch_def sample_watching_def sample_session_def newSession_def sample_reading_def sample_fetch_def)

lemma sample_reading_run: "session_run clock sample_reading"
  using run_step [OF sample_watching_run step_begin [OF sample_begin]] .

lemma sample_resource_other: "sample_resource \<noteq> OVERVIEW"
  by (simp add: sample_resource_def OVERVIEW_def js_def)

definition sample_installed :: session where
  "sample_installed = finish_read sample_fetch (Inr (ok_response JNull)) sample_reading"

lemma sample_installed_run: "session_run clock sample_installed"
  unfolding sample_installed_def
  by (rule run_step [OF sample_reading_run step_read]) (simp_all add: sample_reading_def sample_fetch_def sample_resource_other)

lemma sample_installed_reads:
  "se_installed sample_installed =
     [(sample_resource, Inr \<lparr>ob_reference = sample_reference, ob_status = 200, ob_etag = None, ob_value = JNull\<rparr>)]"
  by (simp add: sample_installed_def finish_read_def complete_fetch_def sample_reading_def sample_watching_def sample_session_def
      newSession_def completeFetch_def withFlight_def sample_fetch_def observe_def session_check_def ok_response_def sample_reference_def
      is_install_def Let_def)

definition sample_switch :: pending_switch where
  "sample_switch = \<lparr>sw_earlier = 0, sw_transport = 1\<rparr>"

definition sample_switching :: session where
  "sample_switching = sample_reading\<lparr>se_made := 2, se_switches := [sample_switch]\<rparr>"

lemma sample_switching_run: "session_run clock sample_switching"
proof (rule run_step [OF sample_reading_run step_switch])
  show "switch_begin sample_reading = Inr sample_switching"
    by (simp add: switch_begin_def sample_reading_def sample_watching_def sample_session_def newSession_def sample_switching_def sample_switch_def)
qed

lemma sample_switched:
  "\<exists>se'. switch_end sample_switch sample_endpoint (js ''b'') (Inr (ok_response sample_capabilities)) (Inr sample_overview) sample_switching
     = (Inr sample_overview, se') \<and> se_running se' = Some sample_fetch"
  by (simp add: switch_end_def bind_capabilities_def ok_response_def sample_capabilities_checked switch_live_def sample_switching_def
      sample_reading_def sample_watching_def sample_session_def newSession_def sample_switch_def switch_commit_def shut_def Let_def)

end
