(* ===== verification/SessionProperties.thy ===== *)
theory SessionProperties
  imports SampleSession
begin

text \<open>The properties of manager sessions, over every order of their steps.\<close>

section \<open>Invalidations\<close>

lemma prefix_either:
  "p = q \<or> (\<exists>xs. xs \<noteq> [] \<and> p = q @ xs) \<or> (\<exists>xs. xs \<noteq> [] \<and> q = p @ xs) \<longleftrightarrow> (\<exists>xs. q = p @ xs) \<or> (\<exists>xs. p = q @ xs)"
  by (metis append_Nil2)

text \<open>
  Related resources. Two resources concern each other exactly when, without their queries, the components of
  one path begin the components of the other.
\<close>

theorem related_is_component_prefix:
  "related one other \<longleftrightarrow>
     (let p = split_on 47 (resource_path one); q = split_on 47 (resource_path other) in
      (\<exists>xs. q = p @ xs) \<or> (\<exists>xs. p = q @ xs))"
proof -
  let ?a = "resource_path one" and ?b = "resource_path other"
  have below: "starts_with a (b @ js ''/'') \<longleftrightarrow> (\<exists>xs. xs \<noteq> [] \<and> split_on 47 a = split_on 47 b @ xs)" for a b
  proof -
    have "starts_with a (b @ js ''/'') \<longleftrightarrow> (\<exists>r. a = (b @ js ''/'') @ r)"
      unfolding starts_with_def by (metis append_eq_conv_conj append_take_drop_id)
    then show ?thesis unfolding split_on_prefix by (simp add: js_def)
  qed
  have "?a = ?b \<longleftrightarrow> split_on 47 ?a = split_on 47 ?b" by (auto dest: split_on_inject)
  then show ?thesis
    using prefix_either [of "split_on 47 ?a" "split_on 47 ?b"] unfolding related_def Let_def below by (simp only:)
qed

section \<open>Page sets\<close>

text \<open>
  C11: Complete page sets. A page set is given only when every page arrived, in order and before its
  expiry, over the binding that asked for it: the pages follow each other by their links, have one set,
  revision, expiry, total and metadata, carry the indexes 0, 1, 2 and so on, have at most 256 items each and
  64 MiB together, and the items are those of all pages in order, as many as each page states.
\<close>

theorem page_set_is_complete:
  assumes "pageSet clock identity first answers = (requests, Some (Inr ps))"
  shows "\<exists>pages. complete_set clock (take (length pages) answers) pages ps
    \<and> ps_items ps = concat (map page_items pages) \<and> pg_index (fst (hd pages)) = 0
    \<and> sum_list (map answer_bytes (take (length pages) answers)) \<le> 67108864
    \<and> requests = followed (rf_uri first) pages \<and> length requests = length pages
    \<and> list_all (\<lambda>uri. pageScope uri = pageScope (rf_uri first)) requests
    \<and> rf_endpoint first = identity"
proof -
  obtain scope where scope: "pageScope (rf_uri first) = Some scope"
    "read_pages clock identity scope (first_page first) answers = (requests, Some (Inr ps))"
    using assms by (auto simp: pageSet_def split: option.splits)
  from read_pages_complete [OF scope(2)] scope(1) show ?thesis
    by (auto simp: first_page_def page_fits_def PAGE_SET_BYTES_def)
qed

theorem page_set_is_complete_witness:
  "\<exists>pages. complete_set sample_clock (take (length pages) [sample_answer]) pages \<lparr>ps_metadata = sample_metadata, ps_items = []\<rparr>
    \<and> length pages = 1"
  using page_set_is_complete [OF sample_page_set [of ident]] by auto

text \<open>
  C19: Reading a page set ends. However the pages link to each other, the result is decided after at most
  65536 responses.
\<close>

theorem page_sets_end:
  assumes "65536 \<le> length answers"
  shows "\<exists>r. snd (pageSet clock identity first answers) = Some r"
  using read_pages_ends [of "first_page first" answers clock identity] assms
  by (auto simp: pageSet_def first_page_def split: option.split)

theorem page_sets_end_witness:
  "\<exists>r. snd (pageSet sample_clock ident \<lparr>rf_endpoint = ident, rf_uri = OVERVIEW\<rparr> (replicate 65536 sample_answer)) = Some r"
  using page_sets_end [of "replicate 65536 sample_answer"] by simp

section \<open>Reads and bindings\<close>

text \<open>
  C8: A session holds what its binding gave. In every reachable session, whatever reads, events, changes of
  the endpoint and closes happened in any order: every read that is installed was read over the current
  binding for a watched resource, every member of the overview belongs to the current binding, and the
  read that runs in the current generation uses the transport and the identity of the current binding for a
  resource that this binding watches.
\<close>

theorem session_holds_its_binding:
  assumes "session_run clock se"
  shows "list_all (\<lambda>(k, outcome). k \<in> set (se_watched se)
        \<and> (case outcome of Inl _ \<Rightarrow> True | Inr ob \<Rightarrow> ob_reference ob = \<lparr>rf_endpoint = se_identity se, rf_uri = k\<rparr>)) (se_installed se)
    \<and> (case se_overview se of Some (Inr ov) \<Rightarrow> list_all (\<lambda>i. rf_endpoint (oi_reference i) = se_identity se) (ov_items ov) | _ \<Rightarrow> True)
    \<and> (case se_running se of None \<Rightarrow> True
       | Some f \<Rightarrow> ft_generation f < generation (se_refresh se)
           \<or> ft_transport f = se_transport se \<and> ft_identity f = se_identity se \<and> ft_key f \<in> set (se_watched se))"
proof -
  have ok: "session_ok se" using assms by (rule session_run_ok)
  have inv: "lane_inv (se_refresh se) (tasks (se_running se) (se_lane se)) (se_watched se)"
    using ok by (simp add: session_ok_def lane_part_def)
  have "ft_generation f < generation (se_refresh se)
      \<or> ft_transport f = se_transport se \<and> ft_identity f = se_identity se \<and> ft_key f \<in> set (se_watched se)"
    if f: "se_running se = Some f" for f
  proof (cases "ft_generation f = generation (se_refresh se)")
    case True
    have "ft_key f \<in> set (se_watched se)" using inv True by (simp add: f lane_inv_def tasks_def current_keys_Cons)
    then show ?thesis using ok True f by (simp add: session_ok_def lane_part_def)
  next
    case False
    then show ?thesis using inv by (auto simp: f lane_inv_def tasks_def)
  qed
  then show ?thesis using ok unfolding session_ok_def installed_part_def bound_overview_def list_all_iff
    by (auto split: option.splits sum.splits)
qed

theorem session_holds_its_binding_witness:
  "se_installed sample_installed \<noteq> []
   \<and> list_all (\<lambda>(k, outcome). k \<in> set (se_watched sample_installed)) (se_installed sample_installed)"
  using session_holds_its_binding [OF sample_installed_run [of sample_clock]] sample_installed_reads
  by (auto simp: list_all_iff)

text \<open>
  The lane holds the reads in flight. In every reachable session the reads of the current generation
  that wait or run are for different resources, and they are exactly those that the refresh coordinator
  counts as in flight; each is for a watched resource.
\<close>

theorem lane_holds_the_flights:
  assumes "session_run clock se"
  shows "distinct (current_keys (generation (se_refresh se)) (tasks (se_running se) (se_lane se)))
    \<and> set (map fst (flights (se_refresh se))) = set (current_keys (generation (se_refresh se)) (tasks (se_running se) (se_lane se)))
    \<and> set (map fst (flights (se_refresh se))) \<subseteq> set (se_watched se)"
proof -
  have inv: "lane_inv (se_refresh se) (tasks (se_running se) (se_lane se)) (se_watched se)"
    using session_run_ok [OF assms] by (simp add: session_ok_def lane_part_def)
  have "map_has (flights (se_refresh se)) k \<longleftrightarrow> k \<in> set (map fst (flights (se_refresh se)))" for k
    by (simp add: map_of_eq_None_iff)
  with inv show ?thesis unfolding lane_inv_def by blast
qed

theorem lane_holds_the_flights_witness:
  "set (map fst (flights (se_refresh sample_reading))) = set (current_keys 0 (tasks (se_running sample_reading) (se_lane sample_reading)))
   \<and> se_running sample_reading \<noteq> None"
  using lane_holds_the_flights [OF sample_reading_run [of sample_clock]]
  by (simp add: sample_reading_def sample_watching_def)

text \<open>
  C9: No invalidation is lost. After an event, every watched resource that it concerns is read again by a
  read that starts later: one that waits in the lane, or one that the end of the read that runs now puts
  into the lane, whatever that read gives.
\<close>

theorem invalidations_are_read:
  assumes "session_run clock se" and "key \<in> set (se_watched se)" and "concerns (inv_resource (ie_data event)) key"
    and "se' = invalidated event se"
  shows "\<lparr>ft_key = key, ft_generation = generation (se_refresh se')\<rparr> \<in> set (se_lane se')
    \<or> (case se_running se' of None \<Rightarrow> False
       | Some f \<Rightarrow> ft_key f = key
           \<and> \<lparr>ft_key = key, ft_generation = generation (se_refresh se')\<rparr> \<in> set (se_lane (finish_read f response se'))
           \<and> \<lparr>ft_key = key, ft_generation = generation (se_refresh se')\<rparr> \<in> set (se_lane (finish_overview f outcome se')))"
proof -
  have ok: "session_ok se" using assms(1) by (rule session_run_ok)
  have ok': "session_ok se'" unfolding assms(4) using ok by (rule invalidated_ok)
  have m: "marked key se'" unfolding assms(4) invalidated_def
    by (rule fold_marks [OF ok]) (use assms(2,3) in auto)
  show ?thesis
  proof (cases "se_running se'")
    case None
    then show ?thesis using m by (simp add: marked_def)
  next
    case (Some f)
    have "\<lparr>ft_key = key, ft_generation = generation (se_refresh se')\<rparr> \<in> set (se_lane (finish_read f response se'))"
      "\<lparr>ft_key = key, ft_generation = generation (se_refresh se')\<rparr> \<in> set (se_lane (finish_overview f outcome se'))"
      unfolding finish_read_def finish_overview_def Let_def by (rule complete_marked [OF ok' Some m]; simp)+
    then show ?thesis using m Some by (auto simp: marked_def)
  qed
qed

theorem invalidations_are_read_witness:
  "\<lparr>ft_key = sample_resource, ft_generation = 0\<rparr> \<in> set (se_lane (finish_read sample_fetch (Inr (ok_response JNull)) (invalidated sample_update sample_reading)))"
proof -
  have watched: "sample_resource \<in> set (se_watched sample_reading)" by (simp add: sample_reading_def sample_watching_def)
  have "concerns (inv_resource (ie_data sample_update)) sample_resource"
    by (simp add: concerns_def sample_resource_other sample_update_def sample_invalidation_def related_def)
  note read = invalidations_are_read [OF sample_reading_run [of sample_clock] watched this refl,
      of "Inr (ok_response JNull)" "Inl (Fixed InvalidResponse)"]
  have "se_running (invalidated sample_update sample_reading) = Some sample_fetch" "se_lane (invalidated sample_update sample_reading) = []"
    "generation (se_refresh (invalidated sample_update sample_reading)) = 0"
    using \<open>concerns _ _\<close>
    by (simp_all add: invalidated_def sample_reading_def sample_watching_def invalidate_key_def invalidateResource_def withFlight_def)
  with read show ?thesis by simp
qed

text \<open>
  Transports are accounted for. In every reachable session each transport that was made is the
  current one, belongs to a change of the endpoint that is under way, or is shut; and the current one is
  shut exactly when the session is closed. So when a closed session has no change under way, all are shut.
\<close>

theorem transports_are_accounted_for:
  assumes "session_run clock se"
  shows "{0..<se_made se} = insert (se_transport se) (set (map sw_transport (se_switches se)) \<union> set (se_shut se))
    \<and> set (map sw_transport (se_switches se)) \<inter> set (se_shut se) = {}
    \<and> (se_closed se \<longleftrightarrow> se_transport se \<in> set (se_shut se))"
  using session_run_ok [OF assms] unfolding session_ok_def transports_part_def by auto

theorem transports_are_accounted_for_witness:
  "{0..<se_made sample_switching} = {0, 1} \<and> se_shut sample_switching = []"
  using transports_are_accounted_for [OF sample_switching_run [of sample_clock]]
  by (simp add: sample_switching_def sample_switch_def sample_reading_def sample_watching_def sample_session_def newSession_def)

section \<open>The change of the endpoint\<close>

text \<open>
  C10: A change of the endpoint is all or nothing. When it fails, only its own transport is shut and nothing
  else of the session changes. When it succeeds, the session was open and still on the binding from which
  the change began; it then has the new identity and overview, watches only the overview and has no installed
  read; the earlier transport is shut; no result of a read that was running is installed; and a reference of
  another identity is refused by every operation.
\<close>

theorem switch_is_all_or_nothing:
  assumes "session_run clock se" and "sw \<in> set (se_switches se)"
    and "switch_end sw profile identity response outcome se = (res, se')"
  shows "case res of
      Inl _ \<Rightarrow> se' = se\<lparr>se_switches := remove1 sw (se_switches se), se_shut := sw_transport sw # se_shut se\<rparr>
    | Inr ov \<Rightarrow>
        \<not> se_closed se \<and> se_transport se = sw_earlier sw \<and> outcome = Inr ov
        \<and> se_identity se' = identity \<and> se_overview se' = Some (Inr ov) \<and> se_watched se' = [OVERVIEW]
        \<and> se_installed se' = [] \<and> se_transport se' = sw_transport sw \<and> se_transport se \<in> set (se_shut se')
        \<and> (case se_running se' of None \<Rightarrow> True
           | Some f \<Rightarrow> se_installed (finish_read f answered se') = [] \<and> se_overview (finish_overview f read_overview se') = Some (Inr ov))
        \<and> (rf_endpoint reference = identity
           \<or> fst (watch reference se') = Inl (Fixed WrongEndpoint) \<and> current se' reference = Some (Inl (Fixed WrongEndpoint))
             \<and> pending_of se' random reference payload ifMatch = Inl (Fixed WrongEndpoint)
             \<and> download sha256 se' x reference stated digest = Inl (Fixed WrongEndpoint))"
proof (cases res)
  case (Inl e)
  then show ?thesis using assms(3)
    by (auto simp: switch_end_def Let_def shut_def split: sum.splits if_splits)
next
  case (Inr ov)
  then obtain c where c: "outcome = Inr ov" "switch_live sw se"
    "se' = switch_commit sw profile identity c ov (se\<lparr>se_switches := remove1 sw (se_switches se)\<rparr>)"
    using assms(3) by (auto simp: switch_end_def Let_def split: sum.splits if_splits)
  then have new: "se_identity se' = identity" "se_overview se' = Some (Inr ov)" "se_watched se' = [OVERVIEW]" "se_installed se' = []"
    "se_transport se' = sw_transport sw" "se_shut se' = sw_earlier sw # se_shut se" "\<not> se_closed se'" "se_running se' = se_running se"
    "se_refresh se' = advanceGeneration (se_refresh se)" "\<not> se_closed se" "se_transport se = sw_earlier sw"
    by (auto simp: switch_commit_def shut_def switch_live_def)
  have discarded: "completeFetch (ft_key f) (ft_generation f) (advanceGeneration (se_refresh se))
      = (advanceGeneration (se_refresh se), [Discard (ft_key f) (ft_generation f)])" for f
    by (simp add: completeFetch_def advanceGeneration_def)
  have "se_installed (finish_read f answered se') = []" "se_overview (finish_overview f read_overview se') = Some (Inr ov)" for f
    by (simp_all add: finish_read_def finish_overview_def complete_fetch_def discarded is_install_def Let_def new)
  moreover have "session_check (se_closed se') (se_identity se') reference = Some (Fixed WrongEndpoint)" if "rf_endpoint reference \<noteq> identity"
    using that new by (simp add: session_check_def)
  ultimately show ?thesis using Inr c(1) new
    by (auto simp: watch_def current_def pending_of_def download_def split: option.split)
qed

theorem switch_is_all_or_nothing_witness:
  "\<exists>se'. switch_end sample_switch sample_endpoint (js ''b'') (Inr (ok_response sample_capabilities)) (Inr sample_overview) sample_switching
     = (Inr sample_overview, se') \<and> se_watched se' = [OVERVIEW] \<and> se_installed (finish_read sample_fetch (Inr (ok_response JNull)) se') = []
     \<and> current se' sample_reference = Some (Inl (Fixed WrongEndpoint))"
proof -
  obtain se' where s: "switch_end sample_switch sample_endpoint (js ''b'') (Inr (ok_response sample_capabilities)) (Inr sample_overview)
      sample_switching = (Inr sample_overview, se')" "se_running se' = Some sample_fetch"
    using sample_switched by blast
  have "sample_switch \<in> set (se_switches sample_switching)" by (simp add: sample_switching_def)
  from switch_is_all_or_nothing [OF sample_switching_run [of sample_clock] this s(1), of "Inr (ok_response JNull)" "Inl (Fixed ClientClosed)"
      sample_reference]
  have "se_watched se' = [OVERVIEW]" "se_installed (finish_read sample_fetch (Inr (ok_response JNull)) se') = []"
    "rf_endpoint sample_reference = js ''b'' \<or> current se' sample_reference = Some (Inl (Fixed WrongEndpoint))"
    using s(2) by auto
  moreover have "rf_endpoint sample_reference \<noteq> js ''b''" by (simp add: sample_reference_def ident_def js_def)
  ultimately show ?thesis using s(1) by blast
qed

section \<open>Commands\<close>

text \<open>
  C12: What a send proves. A send is refused only when nothing was sent, because the session is closed or
  the command belongs to another binding, or when the manager answered 412 \<^verbatim>\<open>stale-revision\<close>. A delivered command
  was sent with its key and precondition over the current binding and answered with 2xx and the location that
  the result names; a receipt then is that of a 202 answer at its own location. In every other
  case the command is kept unchanged, with its target and precondition, for reconciliation.
\<close>

theorem send_outcome_is_evidence:
  "case send_command se pending x of
     SendRefused e \<Rightarrow> session_check (se_closed se) (se_identity se) (pn_reference pending) = Some e
       \<or> e = Refused 412 (js ''stale-revision'') \<and> send_response pending x = Inl e
   | SendUncertain failure u \<Rightarrow> u = command_uncertain pending \<and> failure \<noteq> Some (Refused 412 (js ''stale-revision''))
   | Delivered r location receipt capture \<Rightarrow>
       \<not> se_closed se \<and> rf_endpoint location = se_identity se \<and> re_location r = Some (rf_uri location)
       \<and> command_ok (headers_of pending) \<and> is_sent x (rf_uri (pn_reference pending)) \<and> 200 \<le> re_status r \<and> re_status r < 300
       \<and> (case receipt of None \<Rightarrow> True
          | Some c \<Rightarrow> re_status r = 202 \<and> decodeCommandReceipt (re_value r) = Inr c \<and> rf_uri location = js ''/v1/commands/'' @ rc_id c)
       \<and> (case pn_body pending of RawBody _ \<Rightarrow> re_status r = 202 \<and> receipt = None \<and> capture \<noteq> None | JsonBody _ \<Rightarrow>
            capture = None \<and> (re_status r = 202) = (receipt \<noteq> None))"
proof (cases "session_check (se_closed se) (se_identity se) (pn_reference pending)")
  case (Some e)
  then show ?thesis by (simp add: send_command_def)
next
  case None
  then have here: "\<not> se_closed se" "rf_endpoint (pn_reference pending) = se_identity se" by (auto simp: session_check_def split: if_splits)
  show ?thesis
  proof (cases "send_response pending x")
    case (Inl e)
    then show ?thesis using None by (simp add: send_command_def)
  next
    case (Inr r)
    then have sent: "exchangeJson x (rf_uri (pn_reference pending)) = Inr r" "command_ok (headers_of pending)"
      by (auto simp: send_response_def post_def postBytes_def post_bytes_def split: command_body.splits if_splits)
    from exchangeJson_Inr [OF sent(1)] obtain headers where h: "is_sent x (rf_uri (pn_reference pending))"
      "json_response (re_status r) headers (concat (ex_chunks x)) = Inr r" by blast
    note status = json_response_Inr [OF h(2)]
    show ?thesis
    proof (cases "re_location r")
      case noloc: None
      then show ?thesis using None Inr by (simp add: send_command_def)
    next
      case (Some location)
      show ?thesis
      proof (cases "pn_body pending")
        case (JsonBody v)
        then show ?thesis using None here sent(2) h(1) status Inr Some
          by (cases "decodeCommandReceipt (re_value r)") (simp_all add: send_command_def Let_def)
      next
        case (RawBody bytes)
        then show ?thesis using None here sent(2) h(1) status Inr Some
          by (cases "decodeCaptureReceipt (re_value r)") (simp_all add: send_command_def Let_def)
      qed
    qed
  qed
qed

text \<open>
  Prepared commands can be sent. Preparing a command fails only for a closed session or a reference
  of another binding, never for its key; and the key is valid. Every binding of a reachable session has
  capabilities that were checked.
\<close>

theorem prepared_commands_have_keys:
  assumes "session_run clock se" and "length random = 16"
  shows "prepare_command se random reference payload ifMatch =
      (case session_check (se_closed se) (se_identity se) reference of
         Some e \<Rightarrow> Inl e
       | None \<Rightarrow> Inr \<lparr>pn_reference = reference, pn_body = JsonBody payload,
           pn_idempotencyKey = ca_epoch (se_capabilities se) @ js ''.'' @ base64url random, pn_ifMatch = ifMatch\<rparr>)
    \<and> validKey (ca_epoch (se_capabilities se) @ js ''.'' @ base64url random)"
proof -
  have "validId (ca_epoch (se_capabilities se)) \<and> length (ca_epoch (se_capabilities se)) \<le> 105"
    using session_run_ok [OF assms(1)] by (intro checked_epoch) (simp add: session_ok_def)
  then have key: "commandKey random (ca_epoch (se_capabilities se)) = Inr (ca_epoch (se_capabilities se) @ js ''.'' @ base64url random)"
    by (simp add: commandKey_def)
  from commandKey_valid [OF key assms(2)] key show ?thesis
    by (simp add: prepare_command_def pending_of_def thenO_def split: option.split)
qed

theorem prepared_commands_have_keys_witness:
  "\<exists>p. prepare_command sample_session (replicate 16 0) sample_reference JNull None = Inr p \<and> validKey (pn_idempotencyKey p)"
proof -
  have "session_check (se_closed sample_session) (se_identity sample_session) sample_reference = None"
    by (simp add: session_check_def sample_session_fields sample_reference_def)
  with prepared_commands_have_keys [OF sample_run [of sample_clock], of "replicate 16 0" sample_reference JNull None] show ?thesis by simp
qed

text \<open>
  Prepared captures fit. A capture that a session prepares has exactly the given bytes, which are
  UTF-8, and the transport never refuses it before sending: its key, its resource and its size pass the checks,
  because the limit that the session takes from the capabilities is the limit of the transport.
\<close>

theorem prepared_captures_fit:
  assumes "session_run clock se" and "length random = 16" and "prepareCapture se random requestId bytes = Inr p"
  shows "pn_body p = RawBody bytes \<and> utf8_decode bytes \<noteq> None \<and> length bytes \<le> CAPTURE_POST_BYTES
    \<and> rf_endpoint (pn_reference p) = se_identity se \<and> validResource (rf_uri (pn_reference p)) \<and> pn_ifMatch p = None
    \<and> send_response p x = exchangeJson x (rf_uri (pn_reference p))"
proof -
  have c: "checked (se_capabilities se)" using session_run_ok [OF assms(1)] by (simp add: session_ok_def)
  obtain limits where limits: "jsonMember (ca_fields (se_capabilities se)) (js ''limits'') = Some (JObj limits)"
    "list_all (\<lambda>(name, expected). limitOf limits name = Some expected) FIXED_LIMITS"
    using checked_limits [OF c] by blast
  have "(js ''captureBytes'', 67108864) \<in> set FIXED_LIMITS" by (simp add: FIXED_LIMITS_def)
  then have "limitOf limits (js ''captureBytes'') = Some 67108864" using limits(2) unfolding list_all_iff by blast
  then have limit: "capture_limit se = Some 67108864" by (simp add: capture_limit_def limits(1))
  obtain reference where r: "session_reference se (js ''/v1/captures?requestId='' @ requestId) = Inr reference"
    "int (length bytes) \<le> 67108864" "utf8_decode bytes \<noteq> None" "pending_of se random reference (RawBody bytes) None = Inr p"
    using assms(3) by (auto simp: prepareCapture_def thenO_Inr limit split: if_splits)
  obtain key where k: "commandKey random (ca_epoch (se_capabilities se)) = Inr key"
    "p = \<lparr>pn_reference = reference, pn_body = RawBody bytes, pn_idempotencyKey = key, pn_ifMatch = None\<rparr>"
    using r(4) by (auto simp: pending_of_def thenO_Inr split: option.splits)
  have "validKey key" using commandKey_valid [OF k(1) assms(2)] .
  then show ?thesis using r k(2)
    by (auto simp: session_reference_def referenceOf_def CAPTURE_POST_BYTES_def send_response_def postBytes_def post_bytes_def
        command_ok_def headers_of_def split: if_splits)
qed

theorem prepared_captures_fit_witness:
  "\<exists>p. prepareCapture sample_session (replicate 16 0) ident [104, 105] = Inr p \<and> pn_body p = RawBody [104, 105]
     \<and> validResource (rf_uri (pn_reference p))"
proof -
  have limits: "capture_limit sample_session = Some 67108864"
  proof -
    have "checked \<lparr>ca_fields = sample_fields, ca_epoch = ident\<rparr>" using sample_capabilities_checked by (auto simp: checked_def)
    from checked_limits [OF this] obtain limits where "jsonMember sample_fields (js ''limits'') = Some (JObj limits)"
      "list_all (\<lambda>(name, expected). limitOf limits name = Some expected) FIXED_LIMITS" by auto
    moreover have "(js ''captureBytes'', 67108864) \<in> set FIXED_LIMITS" by (simp add: FIXED_LIMITS_def)
    ultimately have "limitOf limits (js ''captureBytes'') = Some 67108864" unfolding list_all_iff by blast
    with \<open>jsonMember sample_fields _ = _\<close> show ?thesis by (simp add: capture_limit_def sample_session_fields)
  qed
  have "validResource (js ''/v1/captures?requestId='' @ ident)" unfolding ident_def by code_simp
  moreover have "utf8_decode [104, 105] \<noteq> None" by (simp add: utf8_decode_def utf8_items.simps)
  moreover have "commandKey (replicate 16 0) ident = Inr (ident @ js ''.'' @ base64url (replicate 16 0))"
    by (simp add: commandKey_def) (simp add: ident_def js_def)
  ultimately obtain p where p: "prepareCapture sample_session (replicate 16 0) ident [104, 105] = Inr p"
    by (auto simp: prepareCapture_def limits session_reference_def referenceOf_def thenO_def pending_of_def session_check_def
        sample_session_fields split: if_splits)
  from prepared_captures_fit [OF sample_run [of sample_clock] _ p] p show ?thesis by auto
qed

text \<open>
  Where an uncertain command is reconciled, as the comment of the method states it: at its receipt when the
  location is known, otherwise at the resource that the caller names instead, otherwise at its target; and the entity
  tag that the read resource had before the command.
\<close>

definition reconcile_place :: "uncertain_command \<Rightarrow> reconcile_target option \<Rightarrow> reference" where
  "reconcile_place u instead =
     (case un_receipt u of
        Some receipt \<Rightarrow> receipt
      | None \<Rightarrow> (case instead of Some target \<Rightarrow> rt_reference target | None \<Rightarrow> un_target u))"

definition tag_before :: "uncertain_command \<Rightarrow> reconcile_target option \<Rightarrow> jstr option" where
  "tag_before u instead = (case instead of Some target \<Rightarrow> rt_precondition target | None \<Rightarrow> un_precondition u)"

text \<open>
  C18: Reconciliation reads once and keeps the command. The only request is one read of the place of the
  reconciliation, and there is none when the session is closed or the place belongs to another binding. Let the
  manager answer reads by \<open>net\<close>. The command took effect exactly when that read is a 200 over the same
  transport that carries, with a known receipt, the receipt in the state \<^verbatim>\<open>effect-observed\<close>, and without one, the
  effect under an entity tag other than the one before the command. It was refused exactly when the read of a
  known receipt gives the state \<^verbatim>\<open>refused\<close>. In every other case it stays uncertain, exactly as it was.
\<close>

theorem reconciliation_keeps_the_command:
  "asked_for (reconcileCommand se u instead effectVisible) =
     (if \<not> se_closed se \<and> rf_endpoint (reconcile_place u instead) = se_identity se
      then [rf_uri (reconcile_place u instead)] else [])
   \<and> (answered_by net (reconcileCommand se u instead effectVisible) = EffectObserved \<longleftrightarrow>
        \<not> se_closed se \<and> rf_endpoint (reconcile_place u instead) = se_identity se
        \<and> (\<exists>r. net (rf_uri (reconcile_place u instead)) = (True, Inr r) \<and> re_status r = 200
            \<and> (case un_receipt u of
                 Some _ \<Rightarrow> (\<exists>c. decodeCommandReceipt (re_value r) = Inr c \<and> rc_state c = js ''effect-observed'')
               | None \<Rightarrow> effectVisible (re_value r) \<and> (\<exists>etag. re_etag r = Some etag \<and> tag_before u instead \<noteq> Some etag))))
   \<and> (answered_by net (reconcileCommand se u instead effectVisible) = CommandRefused \<longleftrightarrow>
        \<not> se_closed se \<and> rf_endpoint (reconcile_place u instead) = se_identity se \<and> un_receipt u \<noteq> None
        \<and> (\<exists>r c. net (rf_uri (reconcile_place u instead)) = (True, Inr r) \<and> re_status r = 200
            \<and> decodeCommandReceipt (re_value r) = Inr c \<and> rc_state c = js ''refused''))
   \<and> (case answered_by net (reconcileCommand se u instead effectVisible) of StillUncertain u' \<Rightarrow> u' = u | _ \<Rightarrow> True)"
proof -
  let ?place = "reconcile_place u instead" and ?basis = "reconcile_basis u instead"
  have place: "read_location (reconcileRead ?basis) = ?place"
    by (auto simp: reconcile_basis_def reconcileRead_def reconcile_place_def split: option.split)
  have asked: "asked_for (reconcileCommand se u instead effectVisible) =
      (if \<not> se_closed se \<and> rf_endpoint ?place = se_identity se then [rf_uri ?place] else [])"
    by (simp add: reconcileCommand_def Let_def session_read_def place session_check_def)
  show ?thesis
  proof (cases "\<not> se_closed se \<and> rf_endpoint ?place = se_identity se")
    case False
    then show ?thesis unfolding asked
      by (auto simp: reconcileCommand_def Let_def session_read_def place session_check_def kept_uncertain_def read_observation_def
          reconcile_def split: option.splits)
  next
    case True
    obtain same response where net: "net (rf_uri ?place) = (same, response)" by force
    have result: "answered_by net (reconcileCommand se u instead effectVisible) =
        kept_uncertain u (reconcile ?basis (read_observation (reconcileRead ?basis) effectVisible
          (observe False (se_identity se) same ?place response)))"
      using True by (simp add: reconcileCommand_def Let_def session_read_def place session_check_def net)
    show ?thesis unfolding asked result net
      using True by (cases "un_receipt u"; cases response; cases same)
        (auto simp: kept_uncertain_def reconcile_def read_observation_def reconcileRead_def reconcile_basis_def
          observe_def session_check_def tag_before_def split: option.splits sum.splits)
  qed
qed

end
