(* ===== verification/Monitor.thy ===== *)
theory Monitor
  imports Launch
begin

text \<open>
  The text monitor of a local run (\<^verbatim>\<open>monitor.ts\<close>): the selection and the folded occurrences over a
  snapshot, the lines of each occurrence, and the window of lines around the selected one. Widths and
  lengths count UTF-16 units, as \<^verbatim>\<open>length\<close> does.
\<close>

section \<open>Lines\<close>

definition orElse :: "jstr option \<Rightarrow> string \<Rightarrow> jstr" where
  "orElse value other = (case value of Some s \<Rightarrow> s | None \<Rightarrow> js other)"

definition fit :: "jstr \<Rightarrow> nat \<Rightarrow> jstr" where
  "fit value width = (if length value \<le> width then value else take (width - 1) value @ [0x2026])"

text \<open>\<^verbatim>\<open>value.replace(/\s+/g, " ")\<close>.\<close>

fun collapse_space :: "bool \<Rightarrow> jstr \<Rightarrow> jstr" where
  "collapse_space skipping [] = []"
| "collapse_space skipping (c # s) =
     (if js_space c then (if skipping then [] else [32]) @ collapse_space True s else c # collapse_space False s)"

definition normalized_text :: "jstr \<Rightarrow> jstr" where
  "normalized_text value = trim js_space (collapse_space False value)"

fun slices :: "nat \<Rightarrow> jstr \<Rightarrow> jstr list" where
  "slices room s = (if s = [] \<or> room = 0 then [] else take room s # slices room (drop room s))"

declare slices.simps [simp del]

definition appendWrapped :: "jstr list \<Rightarrow> jstr \<Rightarrow> jstr option \<Rightarrow> nat \<Rightarrow> jstr list" where
  "appendWrapped shown prefix value width =
     (if \<not> truthy value then shown
      else
        (let chunks = (case slices (max 1 (width - length prefix)) (normalized_text (the value)) of
               [] \<Rightarrow> [[]] | cs \<Rightarrow> cs)
         in shown @ fit (prefix @ hd chunks) width
            # map (\<lambda>chunk. fit (replicate (length prefix) 32 @ chunk) width) (tl chunks)))"

section \<open>The model\<close>

record monitor_model =
  mo_snapshot :: run_snapshot
  mo_selectedId :: "jstr option"
  mo_collapsed :: "jstr list"

definition occurrenceIds :: "run_snapshot \<Rightarrow> jstr list" where
  "occurrenceIds snapshot =
     rs_authoredOrder snapshot
     @ filter (\<lambda>ident. ident \<notin> set (rs_authoredOrder snapshot)) (map fst (rs_occurrences snapshot))"

definition first_id :: "jstr list \<Rightarrow> jstr option" where
  "first_id ids = (case ids of [] \<Rightarrow> None | ident # _ \<Rightarrow> Some ident)"

text \<open>\<^verbatim>\<open>Math.max(0, ids.indexOf(id))\<close>.\<close>

fun index_or_zero :: "jstr list \<Rightarrow> jstr \<Rightarrow> nat" where
  "index_or_zero ids ident = (if ident \<in> set ids then length (takeWhile (\<lambda>other. other \<noteq> ident) ids) else 0)"

definition monitor_new :: "run_snapshot \<Rightarrow> monitor_model" where
  "monitor_new snapshot =
     \<lparr>mo_snapshot = snapshot, mo_selectedId = first_id (occurrenceIds snapshot), mo_collapsed = []\<rparr>"

definition monitor_update :: "monitor_model \<Rightarrow> run_snapshot \<Rightarrow> monitor_model" where
  "monitor_update m snapshot =
     (let ids = occurrenceIds snapshot; m1 = m\<lparr>mo_snapshot := snapshot\<rparr> in
      if \<not> truthy (mo_selectedId m) \<or> the (mo_selectedId m) \<notin> set ids
      then m1\<lparr>mo_selectedId := first_id ids\<rparr> else m1)"

definition monitor_move :: "monitor_model \<Rightarrow> int \<Rightarrow> monitor_model" where
  "monitor_move m delta =
     (let ids = occurrenceIds (mo_snapshot m) in
      if ids = [] then m
      else
        (let current = int (index_or_zero ids (case mo_selectedId m of Some s \<Rightarrow> s | None \<Rightarrow> hd ids))
         in m\<lparr>mo_selectedId := Some (ids ! nat (max 0 (min (int (length ids) - 1) (current + delta))))\<rparr>))"

definition monitor_toggle :: "monitor_model \<Rightarrow> monitor_model" where
  "monitor_toggle m =
     (if \<not> truthy (mo_selectedId m) then m
      else if the (mo_selectedId m) \<in> set (mo_collapsed m)
      then m\<lparr>mo_collapsed := filter (\<lambda>ident. ident \<noteq> the (mo_selectedId m)) (mo_collapsed m)\<rparr>
      else m\<lparr>mo_collapsed := mo_collapsed m @ [the (mo_selectedId m)]\<rparr>)"

section \<open>The block of an occurrence\<close>

definition choice_label :: "recovery_choice \<Rightarrow> jstr" where
  "choice_label choice =
     ch_choice choice @ (if truthy (ch_target choice) then js '':'' @ the (ch_target choice) else [])"

definition dispatch_lines :: "occurrence \<Rightarrow> nat \<Rightarrow> dispatch \<Rightarrow> jstr list" where
  "dispatch_lines occ width d =
     fit (js ''    dispatch '' @ (if dp_open d then js ''pending'' else js ''closed'') @ js '': ''
          @ join (js '', '') (dp_targets d)) width
     # (case dp_redirect d of
          None \<Rightarrow> []
        | Some moved \<Rightarrow>
            if truthy (rd_stoppedAttempt moved)
            then
              [fit (js ''      redirected in flight by '' @ rd_controlId moved @ [32, 0x2192, 32] @ rd_target moved
                 @ js '', stopped attempt '' @ the (rd_stoppedAttempt moved) @ js '': ''
                 @ (case map_of (oc_attempts occ) (the (rd_stoppedAttempt moved)) of
                      Some stopped \<Rightarrow> attempt_state_name (at_state stopped) | None \<Rightarrow> js ''unknown'')) width]
            else [fit (js ''      redirected by '' @ rd_controlId moved @ [32, 0x2192, 32] @ rd_target moved) width])"

definition recovery_lines :: "jstr list \<Rightarrow> nat \<Rightarrow> recovery \<Rightarrow> jstr list" where
  "recovery_lines shown width r =
     appendWrapped shown (js ''    recovery ('' @ rec_gap r @ js ''): '') (Some (rec_message r)) width
     @ (if rec_retries r \<noteq> [] then [fit (js ''      retries: '' @ join (js '', '') (rec_retries r)) width] else [])
     @ (if rec_choices r \<noteq> []
        then [fit (js ''      options: '' @ join (js '', '') (map choice_label (rec_choices r))) width] else [])
     @ (case rec_chosen r of
          None \<Rightarrow> []
        | Some (controlId, choice) \<Rightarrow>
            [fit (js ''      chosen: '' @ choice_label choice @ js '' ('' @ controlId @ js '')'') width])"

definition tool_lines :: "jstr list \<Rightarrow> nat \<Rightarrow> public_tool \<Rightarrow> jstr list" where
  "tool_lines shown width tool =
     appendWrapped shown
       (js ''      tool '' @ orElse (tp_status tool) ''pending'' @ js '' ''
        @ (case tp_title tool of Some title \<Rightarrow> title | None \<Rightarrow> tp_id tool)
        @ (if truthy (tp_toolKind tool) then js '' ['' @ the (tp_toolKind tool) @ js '']'' else []) @ js '': '')
       (tp_summary tool) width"

definition attempt_lines :: "nat \<Rightarrow> jstr list \<Rightarrow> attempt_snapshot \<Rightarrow> jstr list" where
  "attempt_lines width shown a =
     (let l1 = shown @ [fit (js ''    attempt '' @ at_id a @ js '': '' @ attempt_state_name (at_state a) @ js '' target=''
            @ orElse (at_target a) ''?''
            @ (if truthy (at_failure a)
               then js '' failure='' @ orElse (at_failureClass a) ''unknown'' @ js '':'' @ normalized_text (the (at_failure a))
               else [])) width];
          l2 = appendWrapped l1 (js ''      output: '') (Some (at_output a)) width;
          l3 = foldl (\<lambda>l message. appendWrapped l (js ''      message: '') (Some message) width) l2 (at_messages a);
          l4 = foldl (\<lambda>l (_, tool). tool_lines l width tool) l3 (at_tools a);
          l5 = foldl (\<lambda>l todo. appendWrapped l
                 (js ''      todo '' @ td_status todo @ js ''/'' @ td_priority todo @ js '': '') (Some (td_content todo)) width)
               l4 (at_todos a);
          l6 = l5 @ (case at_usage a of
                 None \<Rightarrow> [] | Some u \<Rightarrow> [fit (js ''      usage: '' @ us_used u @ js ''/'' @ us_size u) width]);
          l7 = foldl (\<lambda>l summary. appendWrapped l (js ''      reasoning summary: '') (Some summary) width) l6 (at_reasoning a)
      in foldl (\<lambda>l steer. appendWrapped l
           (js ''      steer '' @ sr_controlId steer @ js '' ('' @ sr_timing steer @ js ''): '') (Some (sr_text steer)) width)
           l7 (at_steers a))"

definition heading_line :: "monitor_model \<Rightarrow> jstr \<Rightarrow> occurrence \<Rightarrow> nat \<Rightarrow> jstr" where
  "heading_line m ident occ width =
     fit ((if mo_selectedId m = Some ident then [0x203A] else [32]) @ js '' ['' @ ident @ js ''] ''
          @ (if ident \<in> set (mo_collapsed m) then [0x25B8] else [0x25BE]) @ js '' '' @ state_name (oc_state occ) @ js '' ''
          @ orElse (oc_intent occ) ''?'' @ js ''/'' @ orElse (oc_code occ) ''?'' @ [32, 0x2192, 32]
          @ orElse (oc_addressee occ) ''?'') width"

definition monitor_block :: "monitor_model \<Rightarrow> jstr \<Rightarrow> nat \<Rightarrow> jstr list" where
  "monitor_block m ident width =
     (case map_of (rs_occurrences (mo_snapshot m)) ident of
        None \<Rightarrow> [fit (js ''  ['' @ ident @ js ''] unavailable'') width]
      | Some occ \<Rightarrow>
          (let l0 = [heading_line m ident occ width] in
           if ident \<in> set (mo_collapsed m) then l0
           else
             (let l1 = appendWrapped l0 (js ''    prompt: '') (oc_prompt occ) width;
                  l2 = l1 @ (if truthy (oc_failureClass occ)
                             then [fit (js ''    failure class: '' @ the (oc_failureClass occ)) width] else []);
                  l3 = l2 @ (case oc_dispatch occ of None \<Rightarrow> [] | Some d \<Rightarrow> dispatch_lines occ width d);
                  l4 = (case oc_recovery occ of None \<Rightarrow> l3 | Some r \<Rightarrow> recovery_lines l3 width r);
                  l5 = foldl (\<lambda>l (_, a). attempt_lines width l a) l4 (oc_attempts occ)
              in appendWrapped l5
                   (js ''    answer ('' @ orElse (oc_source occ) ''unknown''
                    @ (if truthy (oc_reuseKind occ) then js '', '' @ the (oc_reuseKind occ) else [])
                    @ (if oc_replayable occ then [] else js '', non-replayable'') @ js ''): '')
                   (oc_answer occ) width)))"

section \<open>Rendering\<close>

definition last_three :: "'a list \<Rightarrow> 'a list" where
  "last_three xs = drop (length xs - 3) xs"

definition monitor_prefix :: "run_snapshot \<Rightarrow> nat \<Rightarrow> jstr list" where
  "monitor_prefix s width =
     (if truthy (rs_failure s)
      then [fit (js ''failure ('' @ orElse (rs_failureClass s) ''unknown'' @ js ''): '' @ the (rs_failure s)) width] else [])
     @ map (\<lambda>(_, ack). fit (js ''control '' @ ca_controlId ack @ js '': '' @ ca_state ack @ [32, 0x2014, 32] @ ca_message ack) width)
         (last_three (rs_controlAcks s))"

definition monitor_header :: "run_snapshot \<Rightarrow> nat \<Rightarrow> jstr" where
  "monitor_header s width =
     fit (rs_runId s @ js ''  '' @ status_name (rs_status s) @ js ''  '' @ orElse (rs_workflow s) ''starting''
          @ js ''  target='' @ orElse (rs_target s) ''pending'') width"

definition monitor_footer :: "nat \<Rightarrow> jstr" where
  "monitor_footer width = fit ([0x2191, 47, 0x2193] @ js '' select  enter fold  esc close'') width"

definition monitor_render :: "monitor_model \<Rightarrow> int \<Rightarrow> int \<Rightarrow> jstr list" where
  "monitor_render m width height =
     (let safeWidth = nat (max 20 width); s = mo_snapshot m; ids = occurrenceIds s;
          prefix = monitor_prefix s safeWidth;
          blocks = map (\<lambda>ident. monitor_block m ident safeWidth) ids;
          selectedIndex = index_or_zero ids (case mo_selectedId m of Some ident \<Rightarrow> ident | None \<Rightarrow> []);
          room = max 1 (height - 2);
          start = int (length prefix) + int (sum_list (map length (take selectedIndex blocks)));
          selectedLength = (if selectedIndex < length blocks then int (length (blocks ! selectedIndex)) else 0);
          all = prefix @ concat blocks;
          offset = max 0 (min start (min (start + selectedLength - room) (max 0 (int (length all) - room))))
      in monitor_header s safeWidth # take (nat room) (drop (nat offset) all) @ [monitor_footer safeWidth])"

definition formatMonitor :: "run_snapshot \<Rightarrow> jstr" where
  "formatMonitor snapshot = take 24000 (join [10] (monitor_render (monitor_new snapshot) 120 200))"

definition formatControl :: "jstr \<Rightarrow> control_ack \<Rightarrow> run_snapshot option \<Rightarrow> jstr option \<Rightarrow> jstr" where
  "formatControl action ack snapshot occurrence =
     (let report = action @ js '' '' @ ca_state ack @ js '' ('' @ ca_controlId ack @ js ''): '' @ ca_message ack;
          moved = (case occurrence of
            None \<Rightarrow> None
          | Some ident \<Rightarrow>
              Option.bind snapshot (\<lambda>s. Option.bind (map_of (rs_occurrences s) ident) (\<lambda>occ.
                Option.bind (oc_dispatch occ) dp_redirect)))
      in case moved of
           None \<Rightarrow> report
         | Some r \<Rightarrow>
             (case rd_stoppedAttempt r of
                Some stopped \<Rightarrow>
                  if rd_controlId r = ca_controlId ack then report @ js ''; stopped attempt '' @ stopped else report
              | None \<Rightarrow> report))"

section \<open>The keys of the monitor\<close>

text \<open>
  \<^verbatim>\<open>monitor-ui.ts\<close>: what an input does to the model. Whether an input is a named key is decided by the
  terminal library, here the parameter \<open>matchesKey\<close>; \<^term>\<open>None\<close> is the call of \<^verbatim>\<open>close\<close>.
\<close>

definition handleInput :: "(jstr \<Rightarrow> jstr \<Rightarrow> bool) \<Rightarrow> jstr \<Rightarrow> monitor_model \<Rightarrow> monitor_model option" where
  "handleInput matchesKey data m =
     (if matchesKey data (js ''escape'') \<or> matchesKey data (js ''ctrl+c'') \<or> data = js ''q'' then None
      else if matchesKey data (js ''down'') \<or> data = js ''j'' then Some (monitor_move m 1)
      else if matchesKey data (js ''up'') \<or> data = js ''k'' then Some (monitor_move m (- 1))
      else if matchesKey data (js ''return'') \<or> data = js '' '' then Some (monitor_toggle m)
      else Some m)"

section \<open>What the monitor keeps\<close>

text \<open>
  What the text monitor keeps: the selection names an occurrence of the snapshot, no line is wider than
  the screen, and the window of lines shows the selected occurrence.
\<close>

section \<open>Widths\<close>

definition fits_width :: "nat \<Rightarrow> jstr list \<Rightarrow> bool" where
  "fits_width width shown \<longleftrightarrow> (\<forall>line \<in> set shown. length line \<le> width)"

named_theorems fitting

lemma fits_simps [simp]:
  "fits_width width []" "fits_width width (line # shown) \<longleftrightarrow> length line \<le> width \<and> fits_width width shown"
  "fits_width width (a @ b) \<longleftrightarrow> fits_width width a \<and> fits_width width b"
  by (auto simp: fits_width_def)

lemma length_fit [simp]: "0 < width \<Longrightarrow> length (fit value width) \<le> width"
  by (simp add: fit_def)

lemma fits_map_fit [simp]: "0 < width \<Longrightarrow> fits_width width (map (\<lambda>x. fit (f x) width) xs)"
  by (simp add: fits_width_def)

lemma fits_appendWrapped [fitting]:
  "0 < width \<Longrightarrow> fits_width width shown \<Longrightarrow> fits_width width (appendWrapped shown prefix value width)"
  by (simp add: appendWrapped_def Let_def)

lemma fits_foldl [fitting]:
  "(\<And>l x. fits_width width l \<Longrightarrow> fits_width width (f l x)) \<Longrightarrow> fits_width width shown \<Longrightarrow> fits_width width (foldl f shown xs)"
  by (induction xs arbitrary: shown) simp_all

lemma fits_dispatch [fitting]: "0 < width \<Longrightarrow> fits_width width (dispatch_lines occ width d)"
  by (simp add: dispatch_lines_def split: option.split)

lemma fits_recovery [fitting]:
  "0 < width \<Longrightarrow> fits_width width shown \<Longrightarrow> fits_width width (recovery_lines shown width r)"
  by (simp add: recovery_lines_def fitting split: option.split)

lemma fits_foldl_pair:
  "(\<And>l k x. fits_width width l \<Longrightarrow> fits_width width (f l k x)) \<Longrightarrow> fits_width width shown \<Longrightarrow>
     fits_width width (foldl (\<lambda>l (k, x). f l k x) shown xs)"
  by (induction xs arbitrary: shown) (simp_all add: split_def)

lemma fits_tool [fitting]:
  "0 < width \<Longrightarrow> fits_width width shown \<Longrightarrow> fits_width width (tool_lines shown width tool)"
  unfolding tool_lines_def by (rule fits_appendWrapped)

lemma fits_append [fitting]: "fits_width width a \<Longrightarrow> fits_width width b \<Longrightarrow> fits_width width (a @ b)"
  by simp

lemma fits_single [fitting]: "0 < width \<Longrightarrow> fits_width width [fit value width]"
  by simp

lemma fits_option [fitting]:
  "(\<And>x. found = Some x \<Longrightarrow> fits_width width (f x)) \<Longrightarrow> fits_width width (case found of None \<Rightarrow> [] | Some x \<Rightarrow> f x)"
  by (cases found) simp_all

lemma fits_attempt [fitting]:
  "0 < width \<Longrightarrow> fits_width width shown \<Longrightarrow> fits_width width (attempt_lines width shown a)"
  unfolding attempt_lines_def Let_def
  by (intro fits_foldl fits_foldl_pair fitting; assumption)

lemma fits_block: "0 < width \<Longrightarrow> fits_width width (monitor_block m ident width)"
  by (simp add: monitor_block_def Let_def heading_line_def split: option.split)
    (intro allI conjI impI fits_appendWrapped fits_foldl_pair fits_attempt fits_recovery;
     simp add: fitting)

lemma fits_prefix: "0 < width \<Longrightarrow> fits_width width (monitor_prefix s width)"
  by (auto simp: monitor_prefix_def fits_width_def split_def)

section \<open>The heading of a block\<close>

definition headed :: "jstr \<Rightarrow> jstr list \<Rightarrow> bool" where
  "headed line shown \<longleftrightarrow> (\<exists>rest. shown = line # rest)"

named_theorems heading

lemma headed_append [heading]: "headed line shown \<Longrightarrow> headed line (shown @ others)"
  by (auto simp: headed_def)

lemma headed_wrapped [heading]: "headed line shown \<Longrightarrow> headed line (appendWrapped shown prefix value width)"
  by (auto simp: appendWrapped_def Let_def headed_def)

lemma headed_foldl:
  "(\<And>l x. headed line l \<Longrightarrow> headed line (f l x)) \<Longrightarrow> headed line shown \<Longrightarrow> headed line (foldl f shown xs)"
  by (induction xs arbitrary: shown) simp_all

lemma headed_foldl_pair:
  "(\<And>l k x. headed line l \<Longrightarrow> headed line (f l k x)) \<Longrightarrow> headed line shown \<Longrightarrow>
     headed line (foldl (\<lambda>l (k, x). f l k x) shown xs)"
  by (induction xs arbitrary: shown) (simp_all add: split_def)

lemma headed_tool [heading]: "headed line shown \<Longrightarrow> headed line (tool_lines shown width tool)"
  unfolding tool_lines_def by (rule headed_wrapped)

lemma headed_recovery [heading]: "headed line shown \<Longrightarrow> headed line (recovery_lines shown width r)"
  unfolding recovery_lines_def by (intro heading)

lemma headed_attempt [heading]: "headed line shown \<Longrightarrow> headed line (attempt_lines width shown a)"
  unfolding attempt_lines_def Let_def by (intro headed_foldl_pair headed_foldl heading; assumption)

lemma headed_recovery_option [heading]:
  "headed line shown \<Longrightarrow> headed line (case r of None \<Rightarrow> shown | Some x \<Rightarrow> recovery_lines shown width x)"
  by (cases r) (simp_all add: headed_recovery)

lemma headed_single [heading]: "headed line [line]"
  by (simp add: headed_def)

lemma headed_block:
  "map_of (rs_occurrences (mo_snapshot m)) ident = Some occ \<Longrightarrow>
     headed (heading_line m ident occ width) (monitor_block m ident width)"
  by (simp add: monitor_block_def Let_def del: append_assoc)
    (intro conjI impI heading headed_foldl_pair headed_attempt; assumption?)

lemma block_nonempty: "monitor_block m ident width \<noteq> []"
proof (cases "map_of (rs_occurrences (mo_snapshot m)) ident")
  case None
  then show ?thesis by (simp add: monitor_block_def)
next
  case (Some occ)
  then show ?thesis using headed_block [OF Some, of width] by (auto simp: headed_def)
qed

section \<open>The window\<close>

text \<open>
  The window shows as much of the selected block as fits: the block, or its first lines when it is longer
  than the room.
\<close>

lemma window_shows_block:
  fixes room start :: int
  assumes "1 \<le> room" "start = int (length before)"
    and "offset = max 0 (min start (min (start + int (length block) - room)
           (max 0 (int (length (before @ block @ after)) - room))))"
  shows "\<exists>a b. take (nat room) (drop (nat offset) (before @ block @ after)) = a @ take (nat room) block @ b"
proof -
  define o' where "o' = nat offset"
  define r where "r = nat room"
  have r: "int r = room" "1 \<le> r" using assms(1) by (auto simp: r_def)
  have off: "o' \<le> length before" using assms(2,3) by (auto simp: o'_def)
  have fits: "length before + min r (length block) \<le> o' + r"
    using assms(2,3) r by (auto simp: o'_def min_def max_def nat_le_iff split: if_splits)
  define a where "a = drop o' before"
  have "drop o' (before @ block @ after) = a @ block @ after" using off by (simp add: a_def)
  moreover have "length a = length before - o'" by (simp add: a_def)
  then have len: "length a + min r (length block) \<le> r" using fits off by simp
  have "take r (a @ block @ after) = a @ take (r - length a) (block @ after)"
    using len by simp
  moreover have "\<exists>b. take (r - length a) (block @ after) = take r block @ b"
  proof (cases "length block \<le> r")
    case True
    then have "length block \<le> r - length a" using len by linarith
    then show ?thesis using True by simp
  next
    case False
    then have "length a = 0" using len by simp
    then show ?thesis using False by simp
  qed
  ultimately show ?thesis by (auto simp: o'_def [symmetric] r_def [symmetric])
qed

section \<open>The selection\<close>

inductive monitor_reachable :: "monitor_model \<Rightarrow> bool" where
  opened: "monitor_reachable (monitor_new s)"
| updated: "monitor_reachable m \<Longrightarrow> monitor_reachable (monitor_update m s)"
| handled: "monitor_reachable m \<Longrightarrow> handleInput matchesKey data m = Some m' \<Longrightarrow> monitor_reachable m'"

definition selection_ok :: "monitor_model \<Rightarrow> bool" where
  "selection_ok m \<longleftrightarrow>
     (case mo_selectedId m of
        None \<Rightarrow> occurrenceIds (mo_snapshot m) = []
      | Some ident \<Rightarrow> ident \<in> set (occurrenceIds (mo_snapshot m)))"

lemma selection_first:
  "mo_snapshot m = s \<Longrightarrow> mo_selectedId m = first_id (occurrenceIds s) \<Longrightarrow> selection_ok m"
  by (cases "occurrenceIds s") (auto simp: selection_ok_def first_id_def)

lemma selection_move: "selection_ok m \<Longrightarrow> selection_ok (monitor_move m delta)"
  by (auto simp: monitor_move_def Let_def selection_ok_def nat_less_iff intro!: nth_mem)

lemma selection_toggle: "selection_ok m \<Longrightarrow> selection_ok (monitor_toggle m)"
  by (cases "mo_selectedId m") (simp_all add: monitor_toggle_def selection_ok_def)

lemma selection_update: "selection_ok (monitor_update m s)"
  by (auto simp: monitor_update_def Let_def truthy_def selection_ok_def first_id_def split: option.splits list.splits)

lemma selection_handled: "selection_ok m \<Longrightarrow> handleInput matchesKey data m = Some m' \<Longrightarrow> selection_ok m'"
  by (auto simp: handleInput_def selection_move selection_toggle split: if_splits)

lemma reachable_selection: "monitor_reachable m \<Longrightarrow> selection_ok m"
  by (induction rule: monitor_reachable.induct)
    (auto simp: selection_update intro: selection_handled selection_first [OF refl] simp: monitor_new_def)

lemma index_in:
  assumes "ident \<in> set ids"
  shows "index_or_zero ids ident < length ids" and "ids ! index_or_zero ids ident = ident"
proof -
  let ?p = "\<lambda>other. other \<noteq> ident"
  show lt: "index_or_zero ids ident < length ids"
    using assms by (simp add: takeWhile_eq_all_conv less_le length_takeWhile_le)
      (metis (mono_tags, lifting) length_takeWhile_le le_neq_implies_less takeWhile_eq_all_conv takeWhile_eq_take take_all_iff le_refl)
  then show "ids ! index_or_zero ids ident = ident"
    using assms nth_length_takeWhile [of ?p ids] by simp
qed

lemma split_blocks:
  assumes "i < length blocks"
  shows "concat blocks = concat (take i blocks) @ blocks ! i @ concat (drop (Suc i) blocks)"
  using arg_cong [OF id_take_nth_drop [OF assms], of concat] by simp

text \<open>The lines between the header and the footer, over the parts of the rendering.\<close>

definition windowed :: "jstr list \<Rightarrow> jstr list list \<Rightarrow> nat \<Rightarrow> int \<Rightarrow> jstr list" where
  "windowed prefix blocks i room =
     (let start = int (length prefix) + int (sum_list (map length (take i blocks)));
          selectedLength = (if i < length blocks then int (length (blocks ! i)) else 0);
          all = prefix @ concat blocks
      in take (nat room) (drop (nat (max 0 (min start (min (start + selectedLength - room)
           (max 0 (int (length all) - room)))))) all))"

lemma render_windowed:
  "monitor_render m width height =
     (let w = nat (max 20 width); s = mo_snapshot m; ids = occurrenceIds s in
      monitor_header s w
      # windowed (monitor_prefix s w) (map (\<lambda>ident. monitor_block m ident w) ids)
          (index_or_zero ids (case mo_selectedId m of Some ident \<Rightarrow> ident | None \<Rightarrow> [])) (max 1 (height - 2))
      @ [monitor_footer w])"
  by (simp only: monitor_render_def windowed_def Let_def)

lemma windowed_shows:
  assumes i: "i < length blocks" and room: "1 \<le> room"
  shows "\<exists>a b. windowed prefix blocks i room = a @ take (nat room) (blocks ! i) @ b"
proof -
  let ?before = "prefix @ concat (take i blocks)" and ?after = "concat (drop (Suc i) blocks)"
  have all: "prefix @ concat blocks = ?before @ blocks ! i @ ?after"
    using split_blocks [OF i] by simp
  have start: "int (length prefix) + int (sum_list (map length (take i blocks))) = int (length ?before)"
    by (simp add: length_concat)
  show ?thesis
    using window_shows_block [OF room start refl, of "blocks ! i" ?after] i
    by (simp only: windowed_def Let_def all if_True)
qed

lemma windowed_bounds:
  "length (windowed prefix blocks i room) \<le> nat room"
  "fits_width width prefix \<Longrightarrow> (\<And>block. block \<in> set blocks \<Longrightarrow> fits_width width block) \<Longrightarrow> fits_width width (windowed prefix blocks i room)"
proof -
  show "length (windowed prefix blocks i room) \<le> nat room"
    unfolding windowed_def Let_def length_take by (rule min.cobounded2)
  assume "fits_width width prefix" "\<And>block. block \<in> set blocks \<Longrightarrow> fits_width width block"
  then have "fits_width width (prefix @ concat blocks)" by (auto simp: fits_width_def)
  then show "fits_width width (windowed prefix blocks i room)"
    unfolding windowed_def Let_def fits_width_def by (meson in_set_dropD in_set_takeD)
qed

lemma render_shows:
  assumes "selection_ok m" "mo_selectedId m = Some ident"
  shows "\<exists>before after. monitor_render m width height =
           monitor_header (mo_snapshot m) (nat (max 20 width))
           # before @ take (nat (max 1 (height - 2))) (monitor_block m ident (nat (max 20 width))) @ after"
proof -
  let ?w = "nat (max 20 width)" and ?ids = "occurrenceIds (mo_snapshot m)"
  let ?blocks = "map (\<lambda>other. monitor_block m other ?w) ?ids" and ?i = "index_or_zero ?ids ident"
  have "ident \<in> set ?ids" using assms by (simp add: selection_ok_def)
  then have i: "?i < length ?blocks" "?blocks ! ?i = monitor_block m ident ?w"
    using index_in [of ident ?ids] by (simp_all del: index_or_zero.simps)
  obtain a b where "windowed (monitor_prefix (mo_snapshot m) ?w) ?blocks ?i (max 1 (height - 2))
      = a @ take (nat (max 1 (height - 2))) (monitor_block m ident ?w) @ b"
    using windowed_shows [OF i(1), of "max 1 (height - 2)"] unfolding i(2) by fastforce
  then have "monitor_render m width height = monitor_header (mo_snapshot m) ?w
      # a @ take (nat (max 1 (height - 2))) (monitor_block m ident ?w) @ (b @ [monitor_footer ?w])"
    by (simp add: render_windowed Let_def assms(2) del: index_or_zero.simps)
  then show ?thesis by blast
qed

lemma render_bounds:
  "length (monitor_render m width height) \<le> nat (max 1 (height - 2)) + 2"
  "fits_width (nat (max 20 width)) (monitor_render m width height)"
proof -
  show "length (monitor_render m width height) \<le> nat (max 1 (height - 2)) + 2"
    unfolding render_windowed Let_def list.size length_append by (simp add: windowed_bounds(1))
  have pos: "0 < nat (max 20 width)" by simp
  show "fits_width (nat (max 20 width)) (monitor_render m width height)"
    unfolding render_windowed Let_def
    by (simp add: monitor_header_def monitor_footer_def length_fit [OF pos] del: index_or_zero.simps)
      (rule windowed_bounds(2) [OF fits_prefix [OF pos]]; auto simp: fits_block [OF pos])
qed

end
