(* ===== verification/Bridge.thy ===== *)
theory Bridge
  imports RootRole
begin

text \<open>
  The current-session bridge (\<^verbatim>\<open>current-bridge.ts\<close>): a Unix socket over which a runner drives the
  current Pi session. The state is the bridge with its connections; \<open>bridge_step\<close> takes the callbacks of
  the code (a connection, a chunk of data, a closed socket, the end of a turn, a delivery) in any order.
  The files, the random values and the Pi session are parameters of a step, and what the bridge
  asks of the Pi session is a log.
\<close>

definition BRIDGE_FRAME :: nat where "BRIDGE_FRAME = 1024 * 1024"
definition MAX_SOCKET_PATH :: nat where "MAX_SOCKET_PATH = 103"

section \<open>State\<close>

datatype bridge_error = FrameLimit | AuthenticationFailed | NotJson | Thrown jstr

text \<open>
  A socket is open, destroyed (with the error that \<^verbatim>\<open>destroy\<close> was given) until its \<^verbatim>\<open>close\<close>
  event, or ended. \<open>cn_heard\<close>: a socket that \<^verbatim>\<open>#accept\<close> destroys at once has no handlers.
\<close>

datatype socket_state = SocketOpen | SocketDestroyed "bridge_error option" | SocketEnded

record bridge_conn =
  cn_state :: socket_state
  cn_heard :: bool
  cn_buffer :: jstr
  cn_authenticated :: bool
  cn_sent :: "js_value list"

record pending_turn =
  pd_socket :: nat
  pd_id :: "js_value option"
  pd_sessionId :: jstr
  pd_turn :: nat

datatype turn_call = StartTurn jstr | SteerTurn nat jstr | FollowUp nat jstr | AbortTurn nat

text \<open>There is no server, or it listens, its \<^verbatim>\<open>listen\<close> failed, or \<^verbatim>\<open>close\<close> was called.\<close>

datatype server_state = NoServer | Listening | ListenFailed | ServerClosing

record bridge =
  br_server :: server_state
  br_socketPath :: "jstr option"
  br_socketDirectory :: "jstr option"
  br_tokenFile :: "jstr option"
  br_token :: "u8 list option"
  br_client :: "nat option"
  br_pending :: "pending_turn option"
  br_sessionId :: "jstr option"
  br_conns :: "(nat, bridge_conn) jsmap"
  br_turns :: nat
  br_calls :: "turn_call list"
  br_deliveries :: "(nat \<times> jstr) list"

text \<open>
  What the Pi session and the platform answer: whether \<^verbatim>\<open>startTaskTurn\<close> exists, whether the session is idle
  (\<^term>\<open>None\<close>: there is no context), whether \<^verbatim>\<open>startTaskTurn\<close> throws, and a random session identifier.
\<close>

record pi_answers =
  pi_isIdle :: "bool option"
  pi_refusal :: "jstr option"
  pi_sessionId :: jstr

definition new_bridge :: bridge where
  "new_bridge =
     \<lparr>br_server = NoServer, br_socketPath = None, br_socketDirectory = None, br_tokenFile = None, br_token = None, br_client = None, br_pending = None, br_sessionId = None,
      br_conns = [], br_turns = 0, br_calls = [], br_deliveries = []\<rparr>"

definition busy :: "bridge \<Rightarrow> bool" where
  "busy b \<longleftrightarrow> br_client b \<noteq> None \<or> br_pending b \<noteq> None"

section \<open>Starting\<close>

text \<open>
  A start is one step: the code awaits it before anything else is asked of the bridge.
  What the host does during a start: \<open>sh_instance\<close> is the process identifier with a random part, \<open>sh_token\<close> the random
  token; \<^verbatim>\<open>mkdtemp\<close> gives a directory or fails, and each other call fails with the text of an error or not.
\<close>

record start_host =
  sh_instance :: jstr
  sh_mkdir :: "jstr option"
  sh_mkdtemp :: "jstr result"
  sh_rm :: "jstr option"
  sh_token :: "u8 list"
  sh_write :: "jstr option"
  sh_listen :: "jstr option"

text \<open>The path of the socket: the state it leaves, and the error that it throws.\<close>

definition choose_socket :: "jstr \<Rightarrow> start_host \<Rightarrow> bridge \<Rightarrow> bridge \<times> jstr option" where
  "choose_socket directory host b =
     (let socket = path_in directory (js ''current-'' @ sh_instance host @ js ''.sock''); b1 = b\<lparr>br_socketPath := Some socket\<rparr>
      in if byteLength socket \<le> MAX_SOCKET_PATH then (b1, None)
         else
           (case sh_mkdtemp host of
              Inl e \<Rightarrow> (b1, Some e)
            | Inr temporary \<Rightarrow>
                (let short = path_in temporary (js ''current.sock'');
                     b2 = b1\<lparr>br_socketDirectory := Some temporary, br_socketPath := Some short\<rparr>
                 in if byteLength short \<le> MAX_SOCKET_PATH then (b2, None)
                    else
                      (case sh_rm host of
                         Some e \<Rightarrow> (b2, Some e)
                       | None \<Rightarrow>
                           (b2\<lparr>br_socketDirectory := None\<rparr>,
                            Some (js ''current-session bridge socket path exceeds '' @ dec MAX_SOCKET_PATH @ js '' bytes: '' @ short))))))"

definition bridge_start :: "bool \<Rightarrow> jstr \<Rightarrow> start_host \<Rightarrow> bridge \<Rightarrow> bridge \<times> jstr option" where
  "bridge_start supported stateDir host b =
     (if \<not> supported \<or> br_server b \<noteq> NoServer then (b, None)
      else if sh_mkdir host \<noteq> None then (b, sh_mkdir host)
      else
        (let directory = join_path stateDir (js ''bridge''); (b1, failure) = choose_socket directory host b in
         if failure \<noteq> None then (b1, failure)
         else
           (let b2 = b1\<lparr>br_tokenFile := Some (path_in directory (js ''current-'' @ sh_instance host @ js ''.token'')),
                         br_token := Some (sh_token host)\<rparr>
            in if sh_write host \<noteq> None then (b2, sh_write host)
               else (b2\<lparr>br_server := (if sh_listen host = None then Listening else ListenFailed)\<rparr>, sh_listen host))))"

text \<open>\<open>node\<close> is \<^verbatim>\<open>process.execPath\<close> and \<open>proxy\<close> the path of \<^verbatim>\<open>acp-proxy.mjs\<close>.\<close>

definition bridge_target ::
    "bool \<Rightarrow> jstr \<Rightarrow> jstr \<Rightarrow> bridge \<Rightarrow> (jstr list \<times> (jstr \<times> jstr) list) result" where
  "bridge_target supported node proxy b =
     (if \<not> supported then Inl (js ''current-session workflows require Pi ExtensionAPI.startTaskTurn'')
      else
        (case (br_server b \<noteq> NoServer, br_socketPath b, br_tokenFile b) of
           (True, Some (c # socket), Some (d # token)) \<Rightarrow>
             Inr (map js [''--engine'', ''acp'', ''--adapter''] @ [node, js ''--adapter-arg'', proxy],
               [(js ''AGENT_CAT_PI_BRIDGE_SOCKET'', c # socket), (js ''AGENT_CAT_PI_BRIDGE_TOKEN_FILE'', d # token)])
         | _ \<Rightarrow> Inl (js ''current-session bridge is not started'')))"

section \<open>Sockets\<close>

definition conn :: "bridge \<Rightarrow> nat \<Rightarrow> bridge_conn option" where
  "conn b s = map_of (br_conns b) s"

definition update_conn :: "nat \<Rightarrow> (bridge_conn \<Rightarrow> bridge_conn) \<Rightarrow> bridge \<Rightarrow> bridge" where
  "update_conn s f b =
     (case conn b s of None \<Rightarrow> b | Some c \<Rightarrow> b\<lparr>br_conns := map_set s (f c) (br_conns b)\<rparr>)"

text \<open>\<^verbatim>\<open>socket.write\<close> on a destroyed socket sends nothing.\<close>

definition send :: "nat \<Rightarrow> js_value \<Rightarrow> bridge \<Rightarrow> bridge" where
  "send s v = update_conn s (\<lambda>c. if cn_state c = SocketOpen then c\<lparr>cn_sent := cn_sent c @ [v]\<rparr> else c)"

definition frame_text :: "(js_number \<Rightarrow> jstr) \<Rightarrow> js_value \<Rightarrow> jstr" where
  "frame_text number v = stringify number v @ [10]"

text \<open>Only the first \<^verbatim>\<open>destroy\<close> counts.\<close>

definition destroy :: "nat \<Rightarrow> bridge_error option \<Rightarrow> bridge \<Rightarrow> bridge" where
  "destroy s e = update_conn s (\<lambda>c. if cn_state c = SocketOpen then c\<lparr>cn_state := SocketDestroyed e\<rparr> else c)"

section \<open>Messages\<close>

text \<open>An absent \<^verbatim>\<open>id\<close> is \<^verbatim>\<open>undefined\<close>, and \<^verbatim>\<open>JSON.stringify\<close> leaves it out.\<close>

definition rpc_head :: "js_value option \<Rightarrow> js_members" where
  "rpc_head ident =
     (js ''jsonrpc'', JStr (js ''2.0'')) # (case ident of None \<Rightarrow> [] | Some v \<Rightarrow> [(js ''id'', v)])"

definition rpcError :: "nat \<Rightarrow> js_value option \<Rightarrow> int \<Rightarrow> jstr \<Rightarrow> bridge \<Rightarrow> bridge" where
  "rpcError s ident code message =
     send s (JObj (rpc_head ident
       @ [(js ''error'', JObj [(js ''code'', JNum (js_int code)), (js ''message'', JStr message)])]))"

definition rpc_result :: "nat \<Rightarrow> js_value option \<Rightarrow> js_members \<Rightarrow> bridge \<Rightarrow> bridge" where
  "rpc_result s ident result = send s (JObj (rpc_head ident @ [(js ''result'', JObj result)]))"

definition steer_ack :: "nat \<Rightarrow> jstr \<Rightarrow> bool \<Rightarrow> bridge \<Rightarrow> bridge" where
  "steer_ack s steerId accepted =
     send s (JObj [(js ''jsonrpc'', JStr (js ''2.0'')), (js ''method'', JStr (js ''session/steer_ack'')),
       (js ''params'', JObj [(js ''steerId'', JStr steerId), (js ''accepted'', JBool accepted)])])"

definition text_part :: "js_value \<Rightarrow> jstr option" where
  "text_part part =
     (case part of
        JObj fs \<Rightarrow>
          if map_of fs (js ''type'') = Some (JStr (js ''text''))
          then (case map_of fs (js ''text'') of Some (JStr s) \<Rightarrow> Some s | _ \<Rightarrow> None) else None
      | _ \<Rightarrow> None)"

definition promptText :: "js_value option \<Rightarrow> jstr result" where
  "promptText prompt =
     (case prompt of
        Some (JArr parts) \<Rightarrow>
          (case all_some (map text_part parts) of
             Some strings \<Rightarrow> Inr (concat strings) | None \<Rightarrow> Inl (js ''only text ACP prompts are supported''))
      | _ \<Rightarrow> Inl (js ''prompt is not an array''))"

definition initialize_result :: js_members where
  "initialize_result =
     [(js ''protocolVersion'', JNum (js_int 1)),
      (js ''agentCapabilities'', JObj [(js ''loadSession'', JBool False), (js ''agentCat'', JObj [(js ''steer'', JBool True)])]),
      (js ''agentInfo'', JObj [(js ''name'', JStr (js ''pi-current-session'')), (js ''version'', JStr (js ''1''))])]"

definition session_new :: "pi_answers \<Rightarrow> nat \<Rightarrow> js_value option \<Rightarrow> bridge \<Rightarrow> bridge" where
  "session_new env s ident b =
     (let sessionId = js ''current-'' @ pi_sessionId env in
      rpc_result s ident [(js ''sessionId'', JStr sessionId)] (b\<lparr>br_sessionId := Some sessionId\<rparr>))"

definition session_prompt ::
    "pi_answers \<Rightarrow> nat \<Rightarrow> js_value option \<Rightarrow> js_members \<Rightarrow> bridge \<Rightarrow> bridge result" where
  "session_prompt env s ident params b =
     (if br_pending b \<noteq> None
      then Inr (rpcError s ident (- 32000) (js ''current Pi session is already answering'') b)
      else if pi_isIdle env \<noteq> Some True
      then Inr (rpcError s ident (- 32000) (js ''current Pi session is not idle'') b)
      else
        thenE (textE (map_of params (js ''sessionId'')) ''sessionId'') (\<lambda>sessionId.
          if Some sessionId \<noteq> br_sessionId b
          then Inr (rpcError s ident (- 32000) (js ''unknown current Pi session'') b)
          else
            thenE (promptText (map_of params (js ''prompt''))) (\<lambda>prompt.
              (case pi_refusal env of
                 Some message \<Rightarrow> Inr (rpcError s ident (- 32000) message b)
               | None \<Rightarrow>
                   Inr (b\<lparr>br_pending := Some \<lparr>pd_socket = s, pd_id = ident, pd_sessionId = sessionId, pd_turn = br_turns b\<rparr>,
                          br_turns := br_turns b + 1, br_calls := br_calls b @ [StartTurn prompt]\<rparr>)))))"

definition same_session :: "js_value option \<Rightarrow> jstr option \<Rightarrow> bool" where
  "same_session named sessionId \<longleftrightarrow>
     (case named of None \<Rightarrow> sessionId = None | Some v \<Rightarrow> (\<exists>ident \<in> set_option sessionId. v = JStr ident))"

definition session_steer :: "nat \<Rightarrow> js_members \<Rightarrow> bridge \<Rightarrow> bridge result" where
  "session_steer s params b =
     thenE (textE (map_of params (js ''steerId'')) ''steerId'') (\<lambda>steerId.
     thenE (textE (map_of params (js ''timing'')) ''timing'') (\<lambda>timing.
     thenE (textE (map_of params (js ''text'')) ''text'') (\<lambda>steeringText.
       let validTiming = (timing = js ''interrupt-now'' \<or> timing = js ''next-boundary'');
           accepted = (same_session (map_of params (js ''sessionId'')) (br_sessionId b) \<and> validTiming)
       in (case br_pending b of
             Some p \<Rightarrow>
               if accepted
               then Inr (b\<lparr>br_calls := br_calls b
                             @ [if timing = js ''next-boundary'' then FollowUp (pd_turn p) steeringText
                                else SteerTurn (pd_turn p) steeringText],
                           br_deliveries := br_deliveries b @ [(s, steerId)]\<rparr>)
               else Inr (steer_ack s steerId False b)
           | None \<Rightarrow> Inr (steer_ack s steerId False b)))))"

definition abort_pending :: "bridge \<Rightarrow> bridge" where
  "abort_pending b =
     (case br_pending b of None \<Rightarrow> b | Some p \<Rightarrow> b\<lparr>br_calls := br_calls b @ [AbortTurn (pd_turn p)]\<rparr>)"

definition bridge_message :: "pi_answers \<Rightarrow> nat \<Rightarrow> js_value \<Rightarrow> bridge \<Rightarrow> bridge result" where
  "bridge_message env s v b =
     (case v of
        JObj fs \<Rightarrow>
          (case map_of fs (js ''method'') of
             Some (JStr method) \<Rightarrow>
               (let ident = map_of fs (js ''id'');
                    params = (case map_of fs (js ''params'') of Some (JObj ps) \<Rightarrow> ps | _ \<Rightarrow> [])
                in if method = js ''initialize'' then Inr (rpc_result s ident initialize_result b)
                   else if method = js ''session/new'' then Inr (session_new env s ident b)
                   else if method = js ''session/prompt'' then session_prompt env s ident params b
                   else if method = js ''session/steer'' then session_steer s params b
                   else if method = js ''session/cancel'' then Inr (abort_pending b)
                   else if ident \<noteq> None then Inr (rpcError s ident (- 32601) (js ''unknown method '' @ method) b)
                   else Inr b)
           | _ \<Rightarrow> Inl (js ''invalid ACP message''))
      | _ \<Rightarrow> Inl (js ''invalid ACP message''))"

section \<open>Frames\<close>

text \<open>\<^verbatim>\<open>Buffer.from(text, "hex")\<close> stops at the first pair that is not hexadecimal.\<close>

fun hex_bytes :: "jstr \<Rightarrow> u8 list" where
  "hex_bytes (a # b # s) =
     (case (hex_value a, hex_value b) of
        (Some h, Some l) \<Rightarrow> of_nat (16 * h + l) # hex_bytes s
      | _ \<Rightarrow> [])"
| "hex_bytes _ = []"

definition authenticates :: "u8 list option \<Rightarrow> js_value \<Rightarrow> bool" where
  "authenticates token v \<longleftrightarrow>
     (case v of
        JObj fs \<Rightarrow>
          (case map_of fs (js ''token'') of
             Some (JStr given) \<Rightarrow> (case token of None \<Rightarrow> False | Some t \<Rightarrow> hex_bytes given = t)
           | _ \<Rightarrow> False)
      | _ \<Rightarrow> False)"

text \<open>
  One line: the bridge after it, and whether the loop over the buffer goes on. The \<^verbatim>\<open>catch\<close> of the loop
  destroys the socket and goes on.
\<close>

definition bridge_line :: "pi_answers \<Rightarrow> nat \<Rightarrow> jstr \<Rightarrow> bridge \<Rightarrow> bridge \<times> bool" where
  "bridge_line env s line b =
     (if byteLength line > BRIDGE_FRAME then (destroy s (Some FrameLimit) b, False)
      else
        (case json_parse line of
           None \<Rightarrow> (destroy s (Some NotJson) b, True)
         | Some v \<Rightarrow>
             if \<not> (case conn b s of Some c \<Rightarrow> cn_authenticated c | None \<Rightarrow> False)
             then
               (if authenticates (br_token b) v
                then ((update_conn s (\<lambda>c. c\<lparr>cn_authenticated := True\<rparr>) b)\<lparr>br_client := Some s\<rparr>, True)
                else (destroy s (Some AuthenticationFailed) b, False))
             else
               (case bridge_message env s v b of
                  Inl message \<Rightarrow> (destroy s (Some (Thrown message)) b, True)
                | Inr b' \<Rightarrow> (b', True))))"

definition keep_buffer :: "nat \<Rightarrow> jstr \<Rightarrow> bridge \<Rightarrow> bridge" where
  "keep_buffer s buffer = update_conn s (\<lambda>c. c\<lparr>cn_buffer := buffer\<rparr>)"

text \<open>Each line asks the Pi session again: one answer per line.\<close>

function bridge_lines :: "(nat \<Rightarrow> pi_answers) \<Rightarrow> nat \<Rightarrow> nat \<Rightarrow> jstr \<Rightarrow> bridge \<Rightarrow> bridge" where
  "bridge_lines envs k s buffer b =
     (if 10 \<notin> set buffer then keep_buffer s buffer b
      else
        (let line = takeWhile (\<lambda>c. c \<noteq> 10) buffer;
             rest = drop (Suc (length line)) buffer;
             (b', goes_on) = bridge_line (envs k) s line b
         in if goes_on then bridge_lines envs (Suc k) s rest b' else keep_buffer s rest b'))"
  by pat_completeness auto

termination
  by (relation "measure (\<lambda>(_, _, _, buffer, _). length buffer)") (auto dest: length_pos_if_in_set)

declare bridge_lines.simps [simp del]

definition bridge_data :: "(nat \<Rightarrow> pi_answers) \<Rightarrow> nat \<Rightarrow> jstr \<Rightarrow> bridge \<Rightarrow> bridge" where
  "bridge_data envs s chunk b =
     (case conn b s of
        None \<Rightarrow> b
      | Some c \<Rightarrow>
          if cn_state c \<noteq> SocketOpen \<or> \<not> cn_heard c then b
          else
            (let buffer = cn_buffer c @ chunk in
             if length buffer > BRIDGE_FRAME * 2 then destroy s (Some FrameLimit) (keep_buffer s buffer b)
             else bridge_lines envs 0 s buffer b))"

section \<open>Connections\<close>

definition bridge_accept :: "nat \<Rightarrow> bridge \<Rightarrow> bridge" where
  "bridge_accept s b =
     (let refused = (br_client b \<noteq> None) in
      b\<lparr>br_conns := map_set s
          \<lparr>cn_state = (if refused then SocketDestroyed None else SocketOpen), cn_heard = \<not> refused, cn_buffer = [],
           cn_authenticated = False, cn_sent = []\<rparr> (br_conns b)\<rparr>)"

text \<open>The \<^verbatim>\<open>close\<close> event of a socket.\<close>

definition bridge_hangup :: "nat \<Rightarrow> bridge \<Rightarrow> bridge" where
  "bridge_hangup s b =
     (let heard = (case conn b s of Some c \<Rightarrow> cn_heard c | None \<Rightarrow> False);
          b1 = update_conn s (\<lambda>c. c\<lparr>cn_state := SocketEnded\<rparr>) b;
          b2 = (if heard \<and> br_client b1 = Some s then b1\<lparr>br_client := None, br_sessionId := None\<rparr> else b1)
      in if heard \<and> (\<exists>p \<in> set_option (br_pending b2). pd_socket p = s)
         then (abort_pending b2)\<lparr>br_pending := None\<rparr> else b2)"

section \<open>Turns\<close>

definition message_text :: "js_value list \<Rightarrow> jstr" where
  "message_text content = concat (List.map_filter text_part content)"

text \<open>\<^verbatim>\<open>a ?? b\<close>.\<close>

definition nullish_or :: "js_value option \<Rightarrow> js_value option \<Rightarrow> js_value option" where
  "nullish_or a b = (case a of None \<Rightarrow> b | Some JNull \<Rightarrow> b | Some v \<Rightarrow> Some v)"

definition stop_reason :: "js_value option \<Rightarrow> jstr" where
  "stop_reason reason =
     (if reason = Some (JStr (js ''length'')) then js ''max_tokens''
      else if reason = Some (JStr (js ''aborted'')) then js ''cancelled''
      else if reason = Some (JStr (js ''error'')) then js ''refusal''
      else js ''end_turn'')"

definition assistant_message :: "js_value \<Rightarrow> (jstr \<times> jstr) option" where
  "assistant_message v =
     (case v of
        JObj fs \<Rightarrow>
          if map_of fs (js ''role'') = Some (JStr (js ''assistant''))
          then (case map_of fs (js ''content'') of
                  Some (JArr content) \<Rightarrow>
                    Some (message_text content, stop_reason (nullish_or (map_of fs (js ''stopReason'')) (map_of fs (js ''status''))))
                | _ \<Rightarrow> None)
          else None
      | _ \<Rightarrow> None)"

text \<open>The last assistant message.\<close>

definition assistantResult :: "js_value list \<Rightarrow> jstr \<times> jstr" where
  "assistantResult messages =
     (case List.map_filter assistant_message (rev messages) of
        [] \<Rightarrow> ([], js ''refusal'') | found # _ \<Rightarrow> found)"

definition completeTurn :: "pending_turn \<Rightarrow> js_value list \<Rightarrow> bridge \<Rightarrow> bridge" where
  "completeTurn p messages b =
     (let (answer, stopReason) = assistantResult messages;
          b1 = b\<lparr>br_pending := None\<rparr>;
          b2 = (if answer = [] then b1
                else send (pd_socket p) (JObj
                  [(js ''jsonrpc'', JStr (js ''2.0'')), (js ''method'', JStr (js ''session/update'')),
                   (js ''params'', JObj
                     [(js ''sessionId'', JStr (pd_sessionId p)),
                      (js ''update'', JObj
                        [(js ''sessionUpdate'', JStr (js ''agent_message_chunk'')),
                         (js ''content'', JObj [(js ''type'', JStr (js ''text'')), (js ''text'', JStr answer)])])])]) b1)
      in rpc_result (pd_socket p) (pd_id p) [(js ''stopReason'', JStr stopReason)] b2)"

text \<open>The promise of turn \<open>k\<close> settles: its messages, or the text of an error.\<close>

definition turn_settled :: "nat \<Rightarrow> jstr + js_value list \<Rightarrow> bridge \<Rightarrow> bridge" where
  "turn_settled k outcome b =
     (case br_pending b of
        None \<Rightarrow> b
      | Some p \<Rightarrow>
          if pd_turn p \<noteq> k then b
          else
            (case outcome of
               Inr messages \<Rightarrow> completeTurn p messages b
             | Inl message \<Rightarrow> rpcError (pd_socket p) (pd_id p) (- 32000) message (b\<lparr>br_pending := None\<rparr>)))"

definition delivered :: "nat \<Rightarrow> bool \<Rightarrow> bridge \<Rightarrow> bridge" where
  "delivered i accepted b =
     (if i < length (br_deliveries b)
      then (let (s, steerId) = br_deliveries b ! i in
            steer_ack s steerId accepted
              (b\<lparr>br_deliveries := take i (br_deliveries b) @ drop (Suc i) (br_deliveries b)\<rparr>))
      else b)"

section \<open>Closing\<close>

text \<open>
  \<^verbatim>\<open>close\<close> up to its first \<^verbatim>\<open>await\<close>, and the rest, which \<^verbatim>\<open>server.close\<close> runs when every connection has
  ended. The rest removes the files.
\<close>

definition bridge_close :: "bridge \<Rightarrow> bridge" where
  "bridge_close b =
     (let b1 = abort_pending b;
          b2 = (case br_client b1 of None \<Rightarrow> b1 | Some s \<Rightarrow> destroy s None b1)
      in if br_server b2 \<noteq> NoServer then b2\<lparr>br_server := ServerClosing\<rparr> else b2)"

definition close_resolves :: "bridge \<Rightarrow> bool" where
  "close_resolves b \<longleftrightarrow>
     br_server b = NoServer \<or> list_all (\<lambda>(_, c). cn_state c = SocketEnded) (br_conns b)"

text \<open>\<open>removed\<close> tells whether every file could be removed.\<close>

definition bridge_closed :: "bool \<Rightarrow> bridge \<Rightarrow> bridge" where
  "bridge_closed removed b =
     b\<lparr>br_server := NoServer, br_socketDirectory := (if removed then None else br_socketDirectory b)\<rparr>"

definition removed_files :: "bridge \<Rightarrow> jstr list" where
  "removed_files b = filter (\<lambda>p. p \<noteq> []) (List.map_filter id [br_socketPath b, br_tokenFile b, br_socketDirectory b])"

section \<open>Steps\<close>

inductive bridge_step :: "bridge \<Rightarrow> bridge \<Rightarrow> bool" where
  starts: "bridge_start supported stateDir host b = (b', failure) \<Longrightarrow> bridge_step b b'"
| accepts: "br_server b = Listening \<Longrightarrow> conn b s = None \<Longrightarrow> bridge_step b (bridge_accept s b)"
| receives: "bridge_step b (bridge_data envs s chunk b)"
| ends: "conn b s = Some c \<Longrightarrow> cn_state c \<noteq> SocketEnded \<Longrightarrow> bridge_step b (bridge_hangup s b)"
| settles: "bridge_step b (turn_settled k outcome b)"
| delivers: "bridge_step b (delivered i accepted b)"
| closes: "bridge_step b (bridge_close b)"
| closed: "br_server b = ServerClosing \<Longrightarrow> close_resolves b \<Longrightarrow> bridge_step b (bridge_closed removed b)"
| closed_unstarted: "br_server b = NoServer \<Longrightarrow> bridge_step b (bridge_closed removed (bridge_close b))"

definition bridge_reachable :: "bridge \<Rightarrow> bool" where
  "bridge_reachable b \<longleftrightarrow> bridge_step\<^sup>*\<^sup>* new_bridge b"

section \<open>The invariant\<close>

text \<open>
  The invariant of the current-session bridge: connections are bounded and silent before they
  authenticate, the pending turn belongs to a live authenticated connection, and the Pi session is
  only asked about the last turn that it started.
\<close>

section \<open>Connections\<close>

named_theorems bridge_parts

lemma conn_update_conn [simp]:
  "conn (update_conn s f b) t = (if t = s then map_option f (conn b s) else conn b t)"
  by (auto simp: update_conn_def conn_def map_of_map_set split: option.split)

lemma update_conn_fields [simp]:
  "br_server (update_conn s f b) = br_server b" "br_socketPath (update_conn s f b) = br_socketPath b"
  "br_socketDirectory (update_conn s f b) = br_socketDirectory b" "br_tokenFile (update_conn s f b) = br_tokenFile b"
  "br_token (update_conn s f b) = br_token b" "br_client (update_conn s f b) = br_client b"
  "br_pending (update_conn s f b) = br_pending b" "br_sessionId (update_conn s f b) = br_sessionId b"
  "br_turns (update_conn s f b) = br_turns b" "br_calls (update_conn s f b) = br_calls b"
  "br_deliveries (update_conn s f b) = br_deliveries b"
  by (simp_all add: update_conn_def split: option.split)

lemma conn_fields [simp]:
  "conn (b\<lparr>br_server := v1\<rparr>) s = conn b s" "conn (b\<lparr>br_socketPath := v2\<rparr>) s = conn b s"
  "conn (b\<lparr>br_socketDirectory := v10\<rparr>) s = conn b s" "conn (b\<lparr>br_tokenFile := v11\<rparr>) s = conn b s"
  "conn (b\<lparr>br_token := v3\<rparr>) s = conn b s" "conn (b\<lparr>br_client := v4\<rparr>) s = conn b s"
  "conn (b\<lparr>br_pending := v5\<rparr>) s = conn b s" "conn (b\<lparr>br_sessionId := v6\<rparr>) s = conn b s"
  "conn (b\<lparr>br_turns := v7\<rparr>) s = conn b s" "conn (b\<lparr>br_calls := v8\<rparr>) s = conn b s"
  "conn (b\<lparr>br_deliveries := v9\<rparr>) s = conn b s"
  by (simp_all add: conn_def)

definition conn_ok :: "bridge_conn \<Rightarrow> bool" where
  "conn_ok c \<longleftrightarrow>
     (cn_state c = SocketOpen \<longrightarrow> length (cn_buffer c) \<le> BRIDGE_FRAME * 2)
     \<and> (\<not> cn_authenticated c \<longrightarrow> cn_sent c = [])
     \<and> (cn_authenticated c \<longrightarrow> cn_heard c)"

definition known :: "bridge \<Rightarrow> nat \<Rightarrow> bool" where
  "known b s \<longleftrightarrow> (\<exists>c. conn b s = Some c \<and> cn_authenticated c)"

definition alive :: "bridge \<Rightarrow> nat \<Rightarrow> bool" where
  "alive b s \<longleftrightarrow> (\<exists>c. conn b s = Some c \<and> cn_authenticated c \<and> cn_state c \<noteq> SocketEnded)"

lemma alive_known: "alive b s \<Longrightarrow> known b s"
  by (auto simp: alive_def known_def)

lemma same_conns:
  assumes "\<And>t. conn b' t = conn b t"
  shows "alive b' s = alive b s" and "known b' s = known b s"
  using assms by (simp_all add: alive_def known_def)

section \<open>The log of turns\<close>

text \<open>With \<open>n\<close> turns started, a call addresses the last one; \<open>m\<close> turns are started in the end.\<close>

fun turn_log :: "nat \<Rightarrow> nat \<Rightarrow> turn_call list \<Rightarrow> bool" where
  "turn_log n m [] \<longleftrightarrow> n = m"
| "turn_log n m (StartTurn _ # cs) \<longleftrightarrow> turn_log (Suc n) m cs"
| "turn_log n m (SteerTurn k _ # cs) \<longleftrightarrow> Suc k = n \<and> turn_log n m cs"
| "turn_log n m (FollowUp k _ # cs) \<longleftrightarrow> Suc k = n \<and> turn_log n m cs"
| "turn_log n m (AbortTurn k # cs) \<longleftrightarrow> Suc k = n \<and> turn_log n m cs"

lemma turn_log_start: "turn_log n m cs \<Longrightarrow> turn_log n (Suc m) (cs @ [StartTurn p])"
  by (induction n m cs rule: turn_log.induct) simp_all

lemma turn_log_last:
  "turn_log n m cs \<Longrightarrow> Suc k = m \<Longrightarrow> call \<in> {SteerTurn k t, FollowUp k t, AbortTurn k} \<Longrightarrow> turn_log n m (cs @ [call])"
  by (induction n m cs rule: turn_log.induct) auto

section \<open>The invariant\<close>

definition pending_ok :: "bridge \<Rightarrow> pending_turn option \<Rightarrow> nat \<Rightarrow> bool" where
  "pending_ok b pending turns \<longleftrightarrow> (\<forall>p. pending = Some p \<longrightarrow> alive b (pd_socket p) \<and> Suc (pd_turn p) = turns)"

definition path_fits :: "server_state \<Rightarrow> jstr option \<Rightarrow> bool" where
  "path_fits server path \<longleftrightarrow> (server \<noteq> NoServer \<longrightarrow> (\<exists>p. path = Some p \<and> byteLength p \<le> MAX_SOCKET_PATH))"

lemma path_fits_none [simp]: "path_fits NoServer path"
  by (simp add: path_fits_def)

definition bridge_inv :: "bridge \<Rightarrow> bool" where
  "bridge_inv b \<longleftrightarrow>
     (\<forall>s c. conn b s = Some c \<longrightarrow> conn_ok c)
     \<and> (\<forall>s. br_client b = Some s \<longrightarrow> alive b s)
     \<and> pending_ok b (br_pending b) (br_turns b)
     \<and> turn_log 0 (br_turns b) (br_calls b)
     \<and> (\<forall>d \<in> set (br_deliveries b). known b (fst d))
     \<and> path_fits (br_server b) (br_socketPath b)"

lemma inv_conn_ok: "bridge_inv b \<Longrightarrow> conn b s = Some c \<Longrightarrow> conn_ok c"
  by (simp add: bridge_inv_def)

lemma inv_pending: "bridge_inv b \<Longrightarrow> br_pending b = Some p \<Longrightarrow> alive b (pd_socket p) \<and> Suc (pd_turn p) = br_turns b"
  by (simp add: bridge_inv_def pending_ok_def)

lemma inv_update_conn:
  assumes "bridge_inv b"
    and "\<And>c. conn b s = Some c \<Longrightarrow> conn_ok c \<Longrightarrow>
       conn_ok (f c) \<and> (cn_authenticated c \<longrightarrow> cn_authenticated (f c))
       \<and> (cn_state c \<noteq> SocketEnded \<longrightarrow> cn_state (f c) \<noteq> SocketEnded)"
  shows "bridge_inv (update_conn s f b)"
proof -
  have "alive (update_conn s f b) t" if "alive b t" for t
    using that assms(2) inv_conn_ok [OF assms(1)] by (auto simp: alive_def)
  moreover have "known (update_conn s f b) t" if "known b t" for t
    using that assms(2) inv_conn_ok [OF assms(1)] by (auto simp: known_def)
  ultimately show ?thesis
    using assms by (auto simp: bridge_inv_def pending_ok_def split: if_splits)
qed

lemma inv_send: "bridge_inv b \<Longrightarrow> known b s \<Longrightarrow> bridge_inv (send s v b)"
  unfolding send_def by (rule inv_update_conn) (auto simp: conn_ok_def known_def)

lemma inv_destroy: "bridge_inv b \<Longrightarrow> bridge_inv (destroy s e b)"
  unfolding destroy_def by (rule inv_update_conn) (auto simp: conn_ok_def)

lemma inv_keep: "bridge_inv b \<Longrightarrow> length buffer \<le> BRIDGE_FRAME * 2 \<Longrightarrow> bridge_inv (keep_buffer s buffer b)"
  unfolding keep_buffer_def by (rule inv_update_conn) (auto simp: conn_ok_def)

text \<open>What \<open>send\<close>, \<open>destroy\<close> and the answers keep.\<close>

lemma alive_updates [simp]:
  "alive (send s v b) t = alive b t" "alive (destroy s e b) t = alive b t" "alive (keep_buffer s buffer b) t = alive b t"
  "known (send s v b) t = known b t" "known (destroy s e b) t = known b t" "known (keep_buffer s buffer b) t = known b t"
  by (cases "conn b s"; auto simp: send_def destroy_def keep_buffer_def alive_def known_def split: if_splits)+

lemma alive_fields [simp]:
  "alive (b\<lparr>br_server := v1\<rparr>) s = alive b s" "alive (b\<lparr>br_socketPath := v2\<rparr>) s = alive b s"
  "alive (b\<lparr>br_socketDirectory := v10\<rparr>) s = alive b s" "alive (b\<lparr>br_tokenFile := v11\<rparr>) s = alive b s"
  "alive (b\<lparr>br_token := v3\<rparr>) s = alive b s" "alive (b\<lparr>br_client := v4\<rparr>) s = alive b s"
  "alive (b\<lparr>br_pending := v5\<rparr>) s = alive b s" "alive (b\<lparr>br_sessionId := v6\<rparr>) s = alive b s"
  "alive (b\<lparr>br_turns := v7\<rparr>) s = alive b s" "alive (b\<lparr>br_calls := v8\<rparr>) s = alive b s"
  "alive (b\<lparr>br_deliveries := v9\<rparr>) s = alive b s"
  by (simp_all add: alive_def)

lemma known_fields [simp]:
  "known (b\<lparr>br_server := v1\<rparr>) s = known b s" "known (b\<lparr>br_socketPath := v2\<rparr>) s = known b s"
  "known (b\<lparr>br_socketDirectory := v10\<rparr>) s = known b s" "known (b\<lparr>br_tokenFile := v11\<rparr>) s = known b s"
  "known (b\<lparr>br_token := v3\<rparr>) s = known b s" "known (b\<lparr>br_client := v4\<rparr>) s = known b s"
  "known (b\<lparr>br_pending := v5\<rparr>) s = known b s" "known (b\<lparr>br_sessionId := v6\<rparr>) s = known b s"
  "known (b\<lparr>br_turns := v7\<rparr>) s = known b s" "known (b\<lparr>br_calls := v8\<rparr>) s = known b s"
  "known (b\<lparr>br_deliveries := v9\<rparr>) s = known b s"
  by (simp_all add: known_def)

lemma pending_ok_None [simp]: "pending_ok b None turns"
  by (simp add: pending_ok_def)

lemma pending_ok_alive: "(\<And>s. alive b s \<Longrightarrow> alive b' s) \<Longrightarrow> pending_ok b p turns \<Longrightarrow> pending_ok b' p turns"
  by (simp add: pending_ok_def)

lemma inv_session [simp]: "bridge_inv (b\<lparr>br_sessionId := v\<rparr>) = bridge_inv b"
  by (simp add: bridge_inv_def pending_ok_def)

lemma inv_unpend: "bridge_inv b \<Longrightarrow> bridge_inv (b\<lparr>br_pending := None\<rparr>)"
  by (simp add: bridge_inv_def)

lemma inv_abort: "bridge_inv b \<Longrightarrow> bridge_inv (abort_pending b)"
  by (auto simp: abort_pending_def bridge_inv_def pending_ok_def intro!: turn_log_last split: option.splits)

section \<open>Messages\<close>

lemma inv_start_turn:
  "bridge_inv b \<Longrightarrow> alive b s \<Longrightarrow>
     bridge_inv (b\<lparr>br_pending := Some \<lparr>pd_socket = s, pd_id = ident, pd_sessionId = sessionId, pd_turn = br_turns b\<rparr>,
       br_turns := br_turns b + 1, br_calls := br_calls b @ [StartTurn prompt]\<rparr>)"
  by (simp add: bridge_inv_def pending_ok_def turn_log_start)

lemma inv_call:
  assumes "bridge_inv b" "br_pending b = Some p" "known b s"
    and "call = SteerTurn (pd_turn p) t \<or> call = FollowUp (pd_turn p) t"
  shows "bridge_inv (b\<lparr>br_calls := br_calls b @ [call], br_deliveries := br_deliveries b @ [(s, steerId)]\<rparr>)"
proof -
  have "turn_log 0 (br_turns b) (br_calls b @ [call])"
    using assms inv_pending [OF assms(1,2)] by (intro turn_log_last [where k = "pd_turn p" and t = t]) (auto simp: bridge_inv_def)
  then show ?thesis using assms(1,3) by (auto simp: bridge_inv_def pending_ok_def)
qed

lemma inv_answers:
  assumes "bridge_inv b" "known b s"
  shows "bridge_inv (rpcError s ident code message b)" "bridge_inv (rpc_result s ident result b)"
    "bridge_inv (steer_ack s steerId accepted b)" "bridge_inv (session_new env s ident b)"
  using assms by (simp_all add: rpcError_def rpc_result_def steer_ack_def session_new_def Let_def inv_send)

lemma inv_prompt:
  assumes "bridge_inv b" "alive b s" "session_prompt env s ident params b = Inr b'"
  shows "bridge_inv b'"
  using assms(3) inv_answers(1) [OF assms(1) alive_known [OF assms(2)]] inv_start_turn [OF assms(1,2)]
  unfolding session_prompt_def
  by (auto simp: thenE_Inr split: if_split_asm option.split_asm)

lemma inv_steer:
  assumes "bridge_inv b" "known b s" "session_steer s params b = Inr b'"
  shows "bridge_inv b'"
proof -
  have ack: "bridge_inv (steer_ack s steerId False b)" for steerId
    by (rule inv_answers(3) [OF assms(1,2)])
  show ?thesis
  proof (cases "br_pending b")
    case None
    then show ?thesis using assms(3) ack by (auto simp: session_steer_def thenE_Inr Let_def)
  next
    case (Some p)
    then show ?thesis using assms(3) ack
      by (auto simp: session_steer_def thenE_Inr Let_def split: if_split_asm intro!: inv_call [OF assms(1) Some assms(2)])
  qed
qed

lemma inv_message:
  assumes "bridge_inv b" "alive b s" "bridge_message env s v b = Inr b'"
  shows "bridge_inv b'"
proof -
  obtain fs name where v: "v = JObj fs" "map_of fs (js ''method'') = Some (JStr name)"
    using assms(3) by (auto simp: bridge_message_def split: json.split_asm option.split_asm)
  note known = alive_known [OF assms(2)]
  show ?thesis
    using assms(3) inv_answers [OF assms(1) known] inv_prompt [OF assms(1,2)] inv_steer [OF assms(1) known] inv_abort [OF assms(1)] assms(1)
    unfolding bridge_message_def v(1) Let_def json.case v(2) option.case
    by (simp split: if_split_asm) (metis+)?
qed

lemma answers_alive [simp]:
  "alive (rpcError s ident code message b) t = alive b t" "alive (rpc_result s ident result b) t = alive b t"
  "alive (steer_ack s steerId accepted b) t = alive b t" "alive (session_new env s ident b) t = alive b t"
  "alive (abort_pending b) t = alive b t"
  by (simp_all add: rpcError_def rpc_result_def steer_ack_def session_new_def Let_def abort_pending_def split: option.split)

lemma message_alive:
  assumes "bridge_message env s v b = Inr b'"
  shows "alive b' t = alive b t"
proof -
  have "alive b' t = alive b t" if "session_prompt env s ident params b = Inr b'" for ident params
    using that by (auto simp: session_prompt_def thenE_Inr split: if_split_asm option.split_asm)
  moreover have "alive b' t = alive b t" if "session_steer s params b = Inr b'" for params
    using that by (cases "br_pending b") (auto simp: session_steer_def thenE_Inr Let_def split: if_split_asm)
  moreover obtain fs name where v: "v = JObj fs" "map_of fs (js ''method'') = Some (JStr name)"
    using assms by (auto simp: bridge_message_def split: json.split_asm option.split_asm)
  ultimately show ?thesis
    using assms unfolding bridge_message_def v(1) Let_def json.case v(2) option.case
    by (auto split: if_split_asm)
qed

section \<open>Frames\<close>

definition present :: "bridge \<Rightarrow> nat \<Rightarrow> bool" where
  "present b s \<longleftrightarrow> (\<exists>c. conn b s = Some c \<and> cn_heard c \<and> cn_state c \<noteq> SocketEnded)"

lemma alive_present: "bridge_inv b \<Longrightarrow> alive b s \<Longrightarrow> present b s"
  using inv_conn_ok by (fastforce simp: alive_def present_def conn_ok_def)

lemma present_destroy: "present b s \<Longrightarrow> present (destroy s e b) s"
  by (cases "conn b s") (auto simp: present_def destroy_def)

lemma inv_authenticate:
  assumes "bridge_inv b" "present b s"
  defines "b' \<equiv> (update_conn s (\<lambda>c. c\<lparr>cn_authenticated := True\<rparr>) b)\<lparr>br_client := Some s\<rparr>"
  shows "bridge_inv b'" "present b' s"
proof -
  have "bridge_inv (update_conn s (\<lambda>c. c\<lparr>cn_authenticated := True\<rparr>) b)"
    using assms(1,2) by (intro inv_update_conn) (auto simp: conn_ok_def present_def)
  moreover have "alive (update_conn s (\<lambda>c. c\<lparr>cn_authenticated := True\<rparr>) b) s"
    using assms(2) by (auto simp: alive_def present_def)
  ultimately show "bridge_inv b'" by (simp add: bridge_inv_def b'_def pending_ok_def)
  show "present b' s" using assms(2) by (auto simp: present_def b'_def)
qed

lemma inv_line:
  assumes "bridge_inv b" "present b s" "bridge_line env s line b = (b', goes_on)"
  shows "bridge_inv b' \<and> present b' s"
proof (cases "byteLength line > BRIDGE_FRAME \<or> json_parse line = None")
  case True
  then show ?thesis using assms by (auto simp: bridge_line_def inv_destroy present_destroy split: if_splits option.splits)
next
  case False
  then obtain v where v: "\<not> byteLength line > BRIDGE_FRAME" "json_parse line = Some v" by auto
  obtain c where c: "conn b s = Some c" "cn_heard c" "cn_state c \<noteq> SocketEnded" using assms(2) by (auto simp: present_def)
  show ?thesis
  proof (cases "cn_authenticated c")
    case True
    then have live: "alive b s" using c by (auto simp: alive_def)
    show ?thesis
    proof (cases "bridge_message env s v b")
      case (Inl message)
      then show ?thesis using assms v c True by (auto simp: bridge_line_def inv_destroy present_destroy)
    next
      case (Inr b1)
      then have "bridge_inv b1" "alive b1 s" using inv_message [OF assms(1) live] message_alive live by auto
      then show ?thesis using assms(3) v c True Inr by (auto simp: bridge_line_def alive_present)
    qed
  next
    case False
    then show ?thesis
      using assms(3) v c inv_authenticate [OF assms(1,2)] inv_destroy [OF assms(1)] present_destroy [OF assms(2)]
      by (auto simp: bridge_line_def split: if_splits)
  qed
qed

lemma inv_lines:
  "bridge_inv b \<Longrightarrow> present b s \<Longrightarrow> length buffer \<le> BRIDGE_FRAME * 2 \<Longrightarrow> bridge_inv (bridge_lines envs k s buffer b)"
proof (induction envs k s buffer b rule: bridge_lines.induct)
  case (1 envs k s buffer b)
  let ?line = "takeWhile (\<lambda>c. c \<noteq> 10) buffer"
  obtain b' goes_on where line: "bridge_line (envs k) s ?line b = (b', goes_on)" by force
  note kept = inv_line [OF 1(2,3) line]
  show ?case
  proof (cases "10 \<in> set buffer")
    case False
    then show ?thesis using 1(2,4) by (simp add: bridge_lines.simps inv_keep)
  next
    case True
    have "length (drop (Suc (length ?line)) buffer) \<le> BRIDGE_FRAME * 2" using 1(4) by simp
    then show ?thesis
      using 1(1) [of ?line "drop (Suc (length ?line)) buffer" "(b', goes_on)" b' goes_on] True line kept
      by (subst bridge_lines.simps) (simp add: Let_def inv_keep)
  qed
qed

lemma inv_data:
  assumes "bridge_inv b"
  shows "bridge_inv (bridge_data envs s chunk b)"
proof (cases "\<exists>c. conn b s = Some c \<and> cn_state c = SocketOpen \<and> cn_heard c")
  case False
  then show ?thesis using assms by (auto simp: bridge_data_def split: option.split)
next
  case True
  then obtain c where c: "conn b s = Some c" "cn_state c = SocketOpen" "cn_heard c" by blast
  let ?buffer = "cn_buffer c @ chunk"
  have big: "destroy s e (keep_buffer s ?buffer b)
      = update_conn s (\<lambda>c'. if cn_state c' = SocketOpen then c'\<lparr>cn_buffer := ?buffer, cn_state := SocketDestroyed e\<rparr>
          else c'\<lparr>cn_buffer := ?buffer\<rparr>) b" for e
    using c by (simp add: destroy_def keep_buffer_def update_conn_def conn_def map_of_map_set)
  have "bridge_inv (destroy s e (keep_buffer s ?buffer b))" for e
    unfolding big by (rule inv_update_conn [OF assms]) (auto simp: conn_ok_def c)
  moreover have "present b s" using c by (simp add: present_def)
  ultimately show ?thesis
    using c assms by (auto simp: bridge_data_def Let_def inv_lines)
qed

section \<open>Steps\<close>

lemma inv_accept:
  assumes "bridge_inv b" "conn b s = None"
  shows "bridge_inv (bridge_accept s b)"
proof -
  have conns: "conn (bridge_accept s b) t =
      (if t = s then Some \<lparr>cn_state = (if br_client b \<noteq> None then SocketDestroyed None else SocketOpen), cn_heard = (br_client b = None),
         cn_buffer = [], cn_authenticated = False, cn_sent = []\<rparr> else conn b t)" for t
    by (simp add: bridge_accept_def Let_def conn_def map_of_map_set)
  then have "alive (bridge_accept s b) t" if "alive b t" for t using that assms(2) by (auto simp: alive_def)
  moreover have "known (bridge_accept s b) t" if "known b t" for t using that assms(2) conns by (auto simp: known_def)
  moreover have "conn_ok c" if "conn (bridge_accept s b) t = Some c" for t c
    using that assms(1) by (auto simp: conns conn_ok_def inv_conn_ok split: if_split_asm dest: inv_conn_ok [OF assms(1)])
  moreover have "br_client (bridge_accept s b) = br_client b" "br_pending (bridge_accept s b) = br_pending b"
    "br_turns (bridge_accept s b) = br_turns b" "br_calls (bridge_accept s b) = br_calls b"
    "br_deliveries (bridge_accept s b) = br_deliveries b" "br_socketPath (bridge_accept s b) = br_socketPath b" "br_server (bridge_accept s b) = br_server b"
    by (simp_all add: bridge_accept_def Let_def)
  ultimately show ?thesis
    using assms(1) unfolding bridge_inv_def pending_ok_def by metis
qed

text \<open>After the \<^verbatim>\<open>close\<close> event, nothing refers to the socket but deliveries.\<close>

lemma inv_hangup:
  assumes "bridge_inv b" "conn b s = Some c"
  shows "bridge_inv (bridge_hangup s b)"
proof -
  let ?b1 = "update_conn s (\<lambda>c. c\<lparr>cn_state := SocketEnded\<rparr>) b"
  have alive: "alive ?b1 t = (alive b t \<and> t \<noteq> s)" for t
    by (cases "conn b s") (auto simp: alive_def)
  have known: "known ?b1 t = known b t" for t
    by (cases "conn b s") (auto simp: known_def split: if_splits)
  have ok: "conn_ok (c\<lparr>cn_state := SocketEnded\<rparr>)" using inv_conn_ok [OF assms] by (simp add: conn_ok_def)
  have heard: "cn_heard c" if "alive b s"
    using that assms(2) inv_conn_ok [OF assms] by (auto simp: alive_def conn_ok_def)
  show ?thesis
    using assms(1) heard
    by (auto simp: bridge_hangup_def Let_def assms(2) bridge_inv_def pending_ok_def abort_pending_def alive known
        intro: ok turn_log_last split: option.splits)
qed

lemma inv_settled:
  assumes "bridge_inv b"
  shows "bridge_inv (turn_settled k outcome b)"
proof (cases "\<exists>p. br_pending b = Some p \<and> pd_turn p = k")
  case False
  then show ?thesis using assms by (auto simp: turn_settled_def split: option.split)
next
  case True
  then obtain p where p: "br_pending b = Some p" "pd_turn p = k" by blast
  have known: "known (b\<lparr>br_pending := None\<rparr>) (pd_socket p)"
    using inv_pending [OF assms p(1)] by (simp add: alive_known)
  note settled = inv_unpend [OF assms]
  show ?thesis
    using p known settled
    by (auto simp: turn_settled_def completeTurn_def rpcError_def rpc_result_def Let_def split_def
        intro!: inv_send split: sum.split)
qed

lemma inv_delivered:
  assumes "bridge_inv b"
  shows "bridge_inv (delivered i accepted b)"
proof (cases "i < length (br_deliveries b)")
  case True
  obtain s steerId where d: "br_deliveries b ! i = (s, steerId)" by force
  let ?b' = "b\<lparr>br_deliveries := take i (br_deliveries b) @ drop (Suc i) (br_deliveries b)\<rparr>"
  have "(s, steerId) \<in> set (br_deliveries b)" using True d by (metis nth_mem)
  then have "known ?b' s" using assms by (fastforce simp: bridge_inv_def)
  moreover have "bridge_inv ?b'"
    using assms by (auto simp: bridge_inv_def pending_ok_def dest: in_set_takeD in_set_dropD)
  ultimately show ?thesis using True d by (simp add: delivered_def steer_ack_def inv_send)
qed (use assms in \<open>simp add: delivered_def\<close>)

lemma inv_files [simp]:
  "bridge_inv (b\<lparr>br_socketDirectory := d\<rparr>) = bridge_inv b" "bridge_inv (b\<lparr>br_tokenFile := t\<rparr>) = bridge_inv b"
  "bridge_inv (b\<lparr>br_token := k\<rparr>) = bridge_inv b"
  by (simp_all add: bridge_inv_def pending_ok_def)

lemma inv_path: "bridge_inv b \<Longrightarrow> br_server b = NoServer \<Longrightarrow> bridge_inv (b\<lparr>br_socketPath := p\<rparr>)"
  by (simp add: bridge_inv_def pending_ok_def)

lemma inv_listen: "bridge_inv b \<Longrightarrow> path_fits v (br_socketPath b) \<Longrightarrow> bridge_inv (b\<lparr>br_server := v\<rparr>)"
  by (simp add: bridge_inv_def pending_ok_def)

lemma inv_stop: "bridge_inv b \<Longrightarrow> br_server b \<noteq> NoServer \<Longrightarrow> bridge_inv (b\<lparr>br_server := ServerClosing\<rparr>)"
  by (auto simp: bridge_inv_def pending_ok_def path_fits_def)

lemma inv_close: "bridge_inv b \<Longrightarrow> bridge_inv (bridge_close b)"
  by (auto simp: bridge_close_def Let_def inv_abort inv_destroy intro: inv_stop split: option.split)

lemma inv_socket:
  assumes "choose_socket directory host b = (b', failure)"
  shows "bridge_inv b \<Longrightarrow> br_server b = NoServer \<Longrightarrow> bridge_inv b'" and "br_server b' = br_server b"
    and "failure = None \<Longrightarrow> \<exists>p. br_socketPath b' = Some p \<and> byteLength p \<le> MAX_SOCKET_PATH"
  using assms by (auto simp: choose_socket_def Let_def inv_path split: if_splits sum.splits option.splits)

lemma inv_start:
  assumes "bridge_inv b" and "bridge_start supported stateDir host b = (b', failure)"
  shows "bridge_inv b'"
proof (cases "\<not> supported \<or> br_server b \<noteq> NoServer \<or> sh_mkdir host \<noteq> None")
  case True
  then show ?thesis using assms by (auto simp: bridge_start_def split: if_splits)
next
  case False
  obtain b1 f where c: "choose_socket (join_path stateDir (js ''bridge'')) host b = (b1, f)" by force
  have one: "bridge_inv b1" using inv_socket(1) [OF c assms(1)] False by blast
  have path: "path_fits v (br_socketPath b1)" if "f = None" for v
    using inv_socket(3) [OF c that] by (auto simp: path_fits_def)
  show ?thesis
    using False assms(2) c one path
    by (auto simp: bridge_start_def Let_def intro: inv_listen split: if_splits)
qed

lemma inv_closed: "bridge_inv b \<Longrightarrow> bridge_inv (bridge_closed removed b)"
  by (simp add: bridge_closed_def bridge_inv_def pending_ok_def)

lemma inv_step: "bridge_step b b' \<Longrightarrow> bridge_inv b \<Longrightarrow> bridge_inv b'"
  by (induction rule: bridge_step.induct)
    (auto intro: inv_start inv_accept inv_data inv_hangup inv_settled inv_delivered inv_close inv_closed inv_closed [OF inv_close])

lemma inv_reachable: "bridge_reachable b \<Longrightarrow> bridge_inv b"
proof -
  have "bridge_inv new_bridge"
    by (simp add: bridge_inv_def new_bridge_def conn_def pending_ok_def)
  moreover assume "bridge_reachable b"
  then have "bridge_step\<^sup>*\<^sup>* new_bridge b" by (simp add: bridge_reachable_def)
  then have "bridge_inv new_bridge \<longrightarrow> bridge_inv b"
    by (induction rule: rtranclp_induct) (auto intro: inv_step)
  ultimately show "bridge_inv b" by blast
qed

section \<open>Lines before authentication\<close>

text \<open>The lines that end with a line feed.\<close>

fun complete_lines :: "jstr \<Rightarrow> jstr list" where
  "complete_lines [] = []"
| "complete_lines (c # s) =
     (if c = 10 then [] # complete_lines s
      else (case complete_lines s of [] \<Rightarrow> [] | line # others \<Rightarrow> (c # line) # others))"

lemma complete_lines_unfold:
  "10 \<in> set buffer \<Longrightarrow>
     complete_lines buffer =
       takeWhile (\<lambda>c. c \<noteq> 10) buffer # complete_lines (drop (Suc (length (takeWhile (\<lambda>c. c \<noteq> 10) buffer))) buffer)"
  by (induction buffer) auto

definition admitting :: "u8 list option \<Rightarrow> jstr \<Rightarrow> bool" where
  "admitting token line \<longleftrightarrow> (case json_parse line of Some v \<Rightarrow> authenticates token v | None \<Rightarrow> False)"

text \<open>Only the state and the buffer of connection \<open>s\<close> differ.\<close>

definition silent_change :: "nat \<Rightarrow> bridge_conn \<Rightarrow> bridge \<Rightarrow> bridge \<Rightarrow> bool" where
  "silent_change s c b b' \<longleftrightarrow>
     (\<exists>c'. b' = b\<lparr>br_conns := map_set s c' (br_conns b)\<rparr> \<and> \<not> cn_authenticated c' \<and> cn_sent c' = cn_sent c)"

lemma silent_refl: "conn b s = Some c \<Longrightarrow> \<not> cn_authenticated c \<Longrightarrow> silent_change s c b b"
  unfolding silent_change_def by (rule exI [of _ c]) (simp add: conn_def map_set_triv)

lemma silent_update:
  assumes "conn b s = Some c" "silent_change s c b b'"
    and "\<And>d. cn_authenticated (f d) = cn_authenticated d \<and> cn_sent (f d) = cn_sent d"
  shows "silent_change s c b (update_conn s f b')"
proof -
  obtain c' where c': "b' = b\<lparr>br_conns := map_set s c' (br_conns b)\<rparr>" "\<not> cn_authenticated c'" "cn_sent c' = cn_sent c"
    using assms(2) by (auto simp: silent_change_def)
  then have "update_conn s f b' = b\<lparr>br_conns := map_set s (f c') (br_conns b)\<rparr>"
    by (simp add: update_conn_def conn_def map_of_map_set)
  then show ?thesis using c' assms(3) unfolding silent_change_def by auto
qed

lemma silent_destroy: "conn b s = Some c \<Longrightarrow> silent_change s c b b' \<Longrightarrow> silent_change s c b (destroy s e b')"
  unfolding destroy_def by (rule silent_update) auto

lemma silent_keep: "conn b s = Some c \<Longrightarrow> silent_change s c b b' \<Longrightarrow> silent_change s c b (keep_buffer s buffer b')"
  unfolding keep_buffer_def by (rule silent_update) auto

lemma silent_line:
  assumes "conn b s = Some c" "silent_change s c b b'" "\<not> admitting (br_token b) line"
    "bridge_line env s line b' = (b'', goes_on)"
  shows "silent_change s c b b''"
proof -
  obtain c' where c': "conn b' s = Some c'" "\<not> cn_authenticated c'" "br_token b' = br_token b"
    using assms(2) by (auto simp: silent_change_def conn_def map_of_map_set)
  then show ?thesis
    using assms silent_destroy [OF assms(1,2)]
    by (auto simp: bridge_line_def admitting_def split: if_splits option.splits)
qed

lemma silent_lines:
  "conn b s = Some c \<Longrightarrow> silent_change s c b b' \<Longrightarrow> (\<And>line. line \<in> set (complete_lines buffer) \<Longrightarrow> \<not> admitting (br_token b) line) \<Longrightarrow>
     silent_change s c b (bridge_lines envs k s buffer b')"
proof (induction envs k s buffer b' rule: bridge_lines.induct)
  case (1 envs k s buffer b')
  let ?line = "takeWhile (\<lambda>c. c \<noteq> 10) buffer" and ?rest = "drop (Suc (length (takeWhile (\<lambda>c. c \<noteq> 10) buffer))) buffer"
  obtain b'' goes_on where line: "bridge_line (envs k) s ?line b' = (b'', goes_on)" by force
  show ?case
  proof (cases "10 \<in> set buffer")
    case False
    then show ?thesis using 1(2,3) by (simp add: bridge_lines.simps silent_keep)
  next
    case True
    note split = complete_lines_unfold [OF True]
    have "silent_change s c b b''" using silent_line [OF 1(2,3) _ line] 1(4) split by simp
    moreover have "goes_on \<Longrightarrow> silent_change s c b (bridge_lines envs (Suc k) s ?rest b'')"
      using 1(1) [of ?line ?rest "(b'', goes_on)" b'' goes_on] True line calculation 1(2,4) split by simp
    ultimately show ?thesis
      using True line 1(2) by (subst bridge_lines.simps) (simp add: Let_def silent_keep)
  qed
qed

lemma silent_data:
  assumes "conn b s = Some c" "\<not> cn_authenticated c"
    and "\<And>line. line \<in> set (complete_lines (cn_buffer c @ chunk)) \<Longrightarrow> \<not> admitting (br_token b) line"
  shows "silent_change s c b (bridge_data envs s chunk b)"
  using assms silent_refl [OF assms(1,2)]
  by (simp add: bridge_data_def Let_def silent_destroy silent_keep silent_lines)

end
