(* ===== verification/ServiceMode.thy ===== *)
theory ServiceMode
  imports Sessions
begin

text \<open>
  Service mode (\<^verbatim>\<open>service-mode.ts\<close>): the selection of a client profile, the connection to its manager,
  and the runs, requests and decisions of the overview as observations. A selection is a sequence of
  continuations between the awaits of the code, a phase of the state, and \<open>service_step\<close> takes them in any
  order with the changes of the session, the reads of the workflow names and \<^verbatim>\<open>close\<close>. The status text of
  \<^verbatim>\<open>index.ts\<close> is at the end.
\<close>

section \<open>Views\<close>

record service_run =
  vr_endpoint :: jstr
  vr_runId :: jstr
  vr_reference :: reference
  vr_workflowId :: "jstr option"
  vr_status :: jstr
  vr_supervision :: "jstr option"

record service_request =
  vq_endpoint :: jstr
  vq_requestId :: jstr
  vq_reference :: reference
  vq_workflowId :: jstr
  vq_phase :: jstr
  vq_runId :: "jstr option"

record service_decision =
  vd_endpoint :: jstr
  vd_decisionId :: jstr
  vd_reference :: reference
  vd_runId :: jstr
  vd_state :: jstr
  vd_kind :: jstr

record connected_to =
  ct_profile :: jstr
  ct_endpoint :: jstr
  ct_identity :: jstr
  ct_delivery :: delivery_state
  ct_loaded :: bool

datatype problem_kind = ProblemRefused | ProblemUnreachable

datatype connection =
  ConnectingTo jstr
| ConnectedTo connected_to
| ConnectionProblem problem_kind jstr jstr
| ConnectionClosed

datatype selection =
  SelectedConnected connection
| SelectionFailed connection
| SelectionKept jstr jstr connection
| SelectionClosed

section \<open>Problems\<close>

fun failure_name :: "client_failure \<Rightarrow> jstr" where
  "failure_name (Refused _ _) = js ''Refused''"
| "failure_name (Fixed ClientClosed) = js ''ClientClosed''"
| "failure_name (Fixed InvalidEndpoint) = js ''InvalidEndpoint''"
| "failure_name (Fixed WrongEndpoint) = js ''WrongEndpoint''"
| "failure_name (Fixed CredentialUnavailable) = js ''CredentialUnavailable''"
| "failure_name (Fixed CredentialChanged) = js ''CredentialChanged''"
| "failure_name (Fixed TransportUnavailable) = js ''TransportUnavailable''"
| "failure_name (Fixed RedirectRefused) = js ''RedirectRefused''"
| "failure_name (Fixed InvalidResponse) = js ''InvalidResponse''"
| "failure_name (Fixed ResponseTooLarge) = js ''ResponseTooLarge''"
| "failure_name (Fixed UnsupportedVersion) = js ''UnsupportedVersion''"
| "failure_name (Fixed ClientFileUnavailable) = js ''ClientFileUnavailable''"
| "failure_name (Fixed InvalidClientProfile) = js ''InvalidClientProfile''"

definition status_and_code :: "int \<Rightarrow> jstr \<Rightarrow> jstr" where
  "status_and_code status code = js '' ('' @ int_text status @ js '' '' @ code @ js '')''"

definition connectionProblem :: "client_failure \<Rightarrow> problem_kind \<times> jstr" where
  "connectionProblem failure =
     (case failure of
        Refused status code \<Rightarrow>
          if status = 401 \<or> status = 403
          then (ProblemRefused, js ''the manager refused the credential'' @ status_and_code status code)
          else if status \<ge> 500 then (ProblemUnreachable, js ''the manager is unavailable'' @ status_and_code status code)
          else (ProblemRefused, js ''the manager refused the connection'' @ status_and_code status code)
      | Fixed kind \<Rightarrow>
          if kind \<in> {InvalidClientProfile, InvalidEndpoint, ClientFileUnavailable, CredentialUnavailable}
          then (ProblemRefused, js ''unsupported profile ('' @ failure_name failure @ js '')'')
          else if kind = UnsupportedVersion
          then (ProblemRefused, js ''the manager offers no capability version that this client supports'')
          else if kind = CredentialChanged
          then (ProblemRefused, js ''the credential file changed after the profile was loaded'')
          else if kind = TransportUnavailable then (ProblemUnreachable, js ''the manager does not answer'')
          else (ProblemRefused, js ''the connection failed ('' @ failure_name failure @ js '')''))"

definition end_problem :: "follow_end \<Rightarrow> problem_kind \<times> jstr" where
  "end_problem ending =
     (case ending of
        FollowRefused _ failure \<Rightarrow> connectionProblem failure
      | FollowClosed \<Rightarrow> (ProblemUnreachable, js ''the event stream of the manager closed'')
      | Resnapshot _ _ \<Rightarrow> (ProblemUnreachable, js ''the manager refused the event cursor, and a new overview failed''))"

definition capability_list :: "session \<Rightarrow> string \<Rightarrow> jstr" where
  "capability_list se name =
     (case jsonMember (ca_fields (se_capabilities se)) (js name) of
        Some (JArr items) \<Rightarrow>
          (let strings = join (js '', '') (List.map_filter text_item items) in if strings = [] then js ''none'' else strings)
      | _ \<Rightarrow> js ''none'')"

definition capabilityText :: "session \<Rightarrow> jstr" where
  "capabilityText se =
     js ''scopes '' @ capability_list se ''scopes'' @ js ''; profiles '' @ capability_list se ''profileIds''
     @ js ''; transports '' @ capability_list se ''transports''"

section \<open>State\<close>

datatype selection_phase =
  Idle
| ClosingEarlier nat
| LoadingProfile nat bool
| Switching nat client_profile pending_switch jstr
| DroppingSession nat client_failure
| ConnectingProfile nat client_profile
| StartingSession nat overview_read
| ClosingFailed nat client_failure

record naming =
  nm_session :: nat
  nm_asked :: "jstr list"
  nm_profiles :: "jstr list"

record service =
  sv_profiles :: "jstr list"
  sv_active :: nat
  sv_session :: "session option"
  sv_number :: nat
  sv_connection :: connection
  sv_runs :: "(jstr, service_run) jsmap"
  sv_requests :: "(jstr, service_request) jsmap"
  sv_decisions :: "(jstr, service_decision) jsmap"
  sv_namesOf :: "jstr option"
  sv_names :: "(jstr, jstr) jsmap"
  sv_unnamed :: "jstr list"
  sv_naming :: "naming option"
  sv_lane :: "nat list"
  sv_phase :: selection_phase
  sv_selections :: "selection list"
  sv_changes :: nat
  sv_closed :: bool

definition new_service :: "jstr list \<Rightarrow> service result" where
  "new_service profiles =
     (if profiles = [] then Inl (js ''service mode requires at least one client profile'')
      else Inr \<lparr>sv_profiles = profiles, sv_active = 0, sv_session = None, sv_number = 0,
        sv_connection = ConnectingTo (hd profiles), sv_runs = [], sv_requests = [], sv_decisions = [], sv_namesOf = None,
        sv_names = [], sv_unnamed = [], sv_naming = None, sv_lane = [], sv_phase = Idle, sv_selections = [],
        sv_changes = 0, sv_closed = False\<rparr>)"

text \<open>\<open>sv_changes\<close> counts the calls of \<^verbatim>\<open>onChange\<close> and the listeners.\<close>

definition changed :: "service \<Rightarrow> service" where
  "changed sv = (if sv_closed sv then sv else sv\<lparr>sv_changes := sv_changes sv + 1\<rparr>)"

definition clear_views :: "service \<Rightarrow> service" where
  "clear_views sv = sv\<lparr>sv_runs := [], sv_requests := [], sv_decisions := []\<rparr>"

definition profile_path :: "service \<Rightarrow> nat \<Rightarrow> jstr" where
  "profile_path sv i = sv_profiles sv ! i"

section \<open>Observations\<close>

definition run_observation :: "reference \<Rightarrow> run_item \<Rightarrow> service_run" where
  "run_observation reference r =
     \<lparr>vr_endpoint = rf_endpoint reference, vr_runId = rn_id r, vr_reference = reference,
      vr_workflowId = (case rn_content r of Known k \<Rightarrow> Some (kr_workflowId k) | Unreadable _ \<Rightarrow> None),
      vr_status = (case rn_content r of
          Unreadable _ \<Rightarrow> js ''unreadable''
        | Known k \<Rightarrow> (case kr_runtime k of Some rt \<Rightarrow> rt_status rt | None \<Rightarrow> js ''pending'')),
      vr_supervision = (case rn_content r of Known k \<Rightarrow> Some (kr_supervision k) | Unreadable _ \<Rightarrow> None)\<rparr>"

definition request_observation :: "reference \<Rightarrow> draft_view \<Rightarrow> service_request" where
  "request_observation reference d =
     \<lparr>vq_endpoint = rf_endpoint reference, vq_requestId = dv_id d, vq_reference = reference,
      vq_workflowId = dv_workflowId d, vq_phase = dv_phase d, vq_runId = dv_runId d\<rparr>"

definition decision_kind :: "decision_content \<Rightarrow> jstr" where
  "decision_kind content = (case content of Question _ _ _ \<Rightarrow> js ''question'' | Recovery _ _ _ \<Rightarrow> js ''recovery'')"

definition decision_observation :: "reference \<Rightarrow> decision_view \<Rightarrow> service_decision" where
  "decision_observation reference d =
     \<lparr>vd_endpoint = rf_endpoint reference, vd_decisionId = dc_id d, vd_reference = reference, vd_runId = dc_runId d,
      vd_state = dc_state d, vd_kind = decision_kind (dc_content d)\<rparr>"

definition view_key :: "reference \<Rightarrow> jstr" where
  "view_key reference = rf_endpoint reference @ js '' '' @ rf_uri reference"

definition observe_item :: "jstr \<Rightarrow> overview_item \<Rightarrow> service \<Rightarrow> service" where
  "observe_item identity item sv =
     (let reference = oi_reference item; key = view_key reference in
      if rf_endpoint reference \<noteq> identity then sv
      else
        (case oi_member item of
           MRun r \<Rightarrow> sv\<lparr>sv_runs := map_set key (run_observation reference r) (sv_runs sv)\<rparr>
         | MRequest d \<Rightarrow> sv\<lparr>sv_requests := map_set key (request_observation reference d) (sv_requests sv)\<rparr>
         | MDecision d \<Rightarrow>
             if dc_position d = 0 then sv\<lparr>sv_decisions := map_set key (decision_observation reference d) (sv_decisions sv)\<rparr> else sv
         | MPreparation _ \<Rightarrow> sv))"

text \<open>Workflows are asked for and kept as a set: the order of these lists is not observed.\<close>

definition observedWorkflows :: "service \<Rightarrow> jstr list" where
  "observedWorkflows sv =
     remdups (List.map_filter (\<lambda>(_, r). vr_workflowId r) (sv_runs sv) @ map (\<lambda>(_, q). vq_workflowId q) (sv_requests sv))"

definition workflowLabel :: "service \<Rightarrow> jstr \<Rightarrow> jstr" where
  "workflowLabel sv ident = (case map_of (sv_names sv) ident of Some name \<Rightarrow> name | None \<Rightarrow> ident)"

section \<open>Workflow names\<close>

text \<open>\<^verbatim>\<open>encodeURIComponent\<close> on well-formed text.\<close>

definition hex_upper :: "nat \<Rightarrow> unit16" where
  "hex_upper n = (if n < 10 then of_nat (48 + n) else of_nat (55 + n))"

definition encodeURIComponent :: "jstr \<Rightarrow> jstr" where
  "encodeURIComponent s =
     concat (map (\<lambda>b. let n = unat b; c = of_nat n in
       if is_digit c \<or> is_letter c \<or> c \<in> set (js ''-_.!~*()'') \<or> n = 39 then [c]
       else [37, hex_upper (n div 16), hex_upper (n mod 16)]) (utf8_encode s))"

definition workflows_uri :: "jstr \<Rightarrow> jstr" where
  "workflows_uri profile = js ''/v1/workflows?profileId='' @ encodeURIComponent profile"

definition granted_profiles :: "session \<Rightarrow> jstr list" where
  "granted_profiles se =
     (case jsonMember (ca_fields (se_capabilities se)) (js ''profileIds'') of
        Some (JArr items) \<Rightarrow> List.map_filter text_item items
      | _ \<Rightarrow> [])"

text \<open>A read that is in flight is shared.\<close>

definition names_begin :: "service \<Rightarrow> service" where
  "names_begin sv =
     (case (sv_naming sv, sv_session sv) of
        (None, Some se) \<Rightarrow>
          sv\<lparr>sv_naming := Some \<lparr>nm_session = sv_number sv, nm_asked = observedWorkflows sv, nm_profiles = granted_profiles se\<rparr>\<rparr>
      | _ \<Rightarrow> sv)"

definition item_name :: "json_value \<Rightarrow> (jstr \<times> jstr) option" where
  "item_name item =
     (case item of
        JObj fs \<Rightarrow>
          (case (jsonMember fs (js ''id''), jsonMember fs (js ''name'')) of
             (Some (JStr ident), Some (JStr name)) \<Rightarrow> Some (ident, name)
           | _ \<Rightarrow> None)
      | _ \<Rightarrow> None)"

definition set_names :: "(jstr \<times> jstr) list \<Rightarrow> (jstr, jstr) jsmap \<Rightarrow> (jstr, jstr) jsmap" where
  "set_names = fold (\<lambda>(ident, name). map_set ident name)"

definition names_of_set :: "page_set outcome \<Rightarrow> (jstr \<times> jstr) list" where
  "names_of_set read = (case read of Inl _ \<Rightarrow> [] | Inr set_read \<Rightarrow> List.map_filter item_name (ps_items set_read))"

definition found_names :: "page_set outcome list \<Rightarrow> (jstr, jstr) jsmap" where
  "found_names reads = set_names (concat (map names_of_set reads)) []"

definition names_failure :: "page_set outcome list \<Rightarrow> client_failure option" where
  "names_failure reads = (case List.map_filter (\<lambda>r. case r of Inl e \<Rightarrow> Some e | Inr _ \<Rightarrow> None) reads of [] \<Rightarrow> None | e # _ \<Rightarrow> Some e)"

text \<open>\<open>reads\<close>: what the read of each granted profile gave, in order.\<close>

definition names_end :: "naming \<Rightarrow> page_set outcome list \<Rightarrow> service \<Rightarrow> service \<times> (jstr, jstr) jsmap \<times> client_failure option" where
  "names_end n reads sv =
     (let sv0 = sv\<lparr>sv_naming := None\<rparr>; found = found_names reads in
      if sv_session sv = None \<or> nm_session n \<noteq> sv_number sv \<or> Some (se_identity (the (sv_session sv))) \<noteq> sv_namesOf sv
      then (sv0, [], Some (Fixed WrongEndpoint))
      else
        (let asked = filter (\<lambda>ident. map_of found ident = None) (nm_asked n);
             unnamed = filter (\<lambda>ident. map_of found ident = None) (remdups (sv_unnamed sv @ asked));
             added = (\<exists>(ident, name) \<in> set found. map_of (sv_names sv) ident \<noteq> Some name);
             sv1 = sv0\<lparr>sv_unnamed := unnamed, sv_names := set_names found (sv_names sv)\<rparr>
         in (if added then changed sv1 else sv1, sv_names sv1, names_failure reads)))"

section \<open>Installing\<close>

definition binding_names :: "jstr \<Rightarrow> service \<Rightarrow> service" where
  "binding_names identity sv =
     (if sv_namesOf sv = Some identity then sv else sv\<lparr>sv_namesOf := Some identity, sv_names := [], sv_unnamed := []\<rparr>)"

definition wants_names :: "service \<Rightarrow> bool" where
  "wants_names sv \<longleftrightarrow>
     list_ex (\<lambda>ident. map_of (sv_names sv) ident = None \<and> ident \<notin> set (sv_unnamed sv)) (observedWorkflows sv)"

definition connection_of :: "service \<Rightarrow> session \<Rightarrow> connection" where
  "connection_of sv se =
     ConnectedTo \<lparr>ct_profile = profile_path sv (sv_active sv), ct_endpoint = se_endpoint se, ct_identity = se_identity se,
       ct_delivery = se_deliveryState se, ct_loaded = (case se_overview se of Some (Inr _) \<Rightarrow> True | _ \<Rightarrow> False)\<rparr>"

definition problem_of :: "service \<Rightarrow> nat \<Rightarrow> problem_kind \<times> jstr \<Rightarrow> connection" where
  "problem_of sv i p = ConnectionProblem (fst p) (profile_path sv i) (snd p)"

definition install_view :: "service \<Rightarrow> service" where
  "install_view sv =
     (case sv_session sv of
        None \<Rightarrow> sv
      | Some se \<Rightarrow>
          if sv_closed sv then sv
          else
            (case se_followEnd se of
               Some ending \<Rightarrow>
                 changed (clear_views (sv\<lparr>sv_connection := problem_of sv (sv_active sv) (end_problem ending)\<rparr>))
             | None \<Rightarrow>
                 (let sv1 = clear_views (sv\<lparr>sv_connection := connection_of sv se\<rparr>);
                      sv2 = (case se_overview se of
                               Some (Inr ov) \<Rightarrow> fold (observe_item (se_identity se)) (ov_items ov) sv1
                             | _ \<Rightarrow> sv1);
                      sv3 = binding_names (se_identity se) sv2
                  in changed (if wants_names sv3 then names_begin sv3 else sv3))))"

section \<open>Selecting\<close>

definition settle :: "selection \<Rightarrow> service \<Rightarrow> service" where
  "settle s sv = sv\<lparr>sv_phase := Idle, sv_selections := sv_selections sv @ [s]\<rparr>"

definition report :: "service \<Rightarrow> service" where
  "report sv =
     (let sv1 = install_view sv in
      settle (case sv_connection sv1 of ConnectedTo _ \<Rightarrow> SelectedConnected (sv_connection sv1)
              | _ \<Rightarrow> SelectionFailed (sv_connection sv1)) sv1)"

definition failed :: "nat \<Rightarrow> client_failure \<Rightarrow> bool \<Rightarrow> service \<Rightarrow> service" where
  "failed i failure kept sv =
     (let problem = connectionProblem failure in
      if kept
      then (let sv1 = install_view sv in
            settle (SelectionKept (profile_path sv i) (snd problem) (sv_connection sv1)) sv1)
      else
        (let sv1 = changed (clear_views (sv\<lparr>sv_active := i, sv_connection := problem_of sv i problem\<rparr>))
         in settle (SelectionFailed (sv_connection sv1)) sv1))"

text \<open>\<open>unless_closed\<close>: the checks of \<^verbatim>\<open>#closed\<close> after an await.\<close>

definition unless_closed :: "(service \<Rightarrow> service) \<Rightarrow> service \<Rightarrow> service" where
  "unless_closed f sv = (if sv_closed sv then settle SelectionClosed sv else f sv)"

definition select :: "int \<Rightarrow> service \<Rightarrow> service result" where
  "select i sv =
     (if i < 0 \<or> i \<ge> int (length (sv_profiles sv))
      then Inl (js ''profile index '' @ int_text i @ js '' is outside 0 to '' @ int_text (int (length (sv_profiles sv)) - 1))
      else Inr (sv\<lparr>sv_lane := sv_lane sv @ [nat i]\<rparr>))"

text \<open>The next selection of the lane, up to its first await; the earlier session that it closes is dropped.\<close>

definition prepare_profile :: "nat \<Rightarrow> service \<Rightarrow> service" where
  "prepare_profile i sv =
     changed (clear_views (sv\<lparr>sv_active := i, sv_connection := ConnectingTo (profile_path sv i),
       sv_phase := LoadingProfile i False\<rparr>))"

definition select_begin :: "service \<Rightarrow> service option" where
  "select_begin sv =
     (case (sv_phase sv, sv_lane sv) of
        (Idle, i # rest) \<Rightarrow>
          Some (unless_closed (\<lambda>sv.
            (case sv_session sv of
               None \<Rightarrow> prepare_profile i sv
             | Some se \<Rightarrow>
                 if se_followEnd se = None then sv\<lparr>sv_phase := LoadingProfile i True\<rparr>
                 else sv\<lparr>sv_session := None, sv_phase := ClosingEarlier i\<rparr>)) (sv\<lparr>sv_lane := rest\<rparr>))
      | _ \<Rightarrow> None)"

definition profile_loaded :: "nat \<Rightarrow> bool \<Rightarrow> client_profile outcome \<Rightarrow> service \<Rightarrow> service" where
  "profile_loaded i switching loaded =
     unless_closed (\<lambda>sv.
       (case loaded of
          Inl e \<Rightarrow> failed i e switching sv
        | Inr profile \<Rightarrow>
            (case (switching, sv_session sv) of
               (True, Some se) \<Rightarrow>
                 (case switch_begin se of
                    Inl e \<Rightarrow>
                      if se_followEnd se = None then failed i e True sv
                      else sv\<lparr>sv_session := None, sv_phase := DroppingSession i e\<rparr>
                  | Inr se' \<Rightarrow>
                      sv\<lparr>sv_session := Some se',
                         sv_phase := Switching i profile (last (se_switches se')) (se_identity se)\<rparr>)
             | _ \<Rightarrow> sv\<lparr>sv_phase := ConnectingProfile i profile\<rparr>)))"

text \<open>
  The switch ends with the capabilities and the overview of the new endpoint, under the identity of the
  new binding.
\<close>

definition select_switched ::
  "nat \<Rightarrow> client_profile \<Rightarrow> pending_switch \<Rightarrow> jstr \<Rightarrow> jstr \<Rightarrow> client_response outcome \<Rightarrow> overview outcome \<Rightarrow> service \<Rightarrow> service" where
  "select_switched i profile sw before identity response outcome =
     unless_closed (\<lambda>sv.
       (case sv_session sv of
          None \<Rightarrow> sv
        | Some se \<Rightarrow>
            (let (switched, se') = switch_end sw profile identity response outcome se; sv1 = sv\<lparr>sv_session := Some se'\<rparr> in
             case switched of
               Inr _ \<Rightarrow> report (sv1\<lparr>sv_active := i\<rparr>)
             | Inl e \<Rightarrow>
                 if se_identity se' = before \<and> se_followEnd se' = None then failed i e True sv1
                 else sv1\<lparr>sv_session := None, sv_phase := DroppingSession i e\<rparr>)))"

definition select_connected :: "nat \<Rightarrow> session outcome \<Rightarrow> service \<Rightarrow> service" where
  "select_connected i session_made =
     unless_closed (\<lambda>sv.
       (case session_made of
          Inl e \<Rightarrow> failed i e False sv
        | Inr se \<Rightarrow>
            (case start_begin se of
               Inl e \<Rightarrow> sv\<lparr>sv_number := sv_number sv + 1, sv_session := None, sv_phase := ClosingFailed i e\<rparr>
             | Inr se' \<Rightarrow>
                 sv\<lparr>sv_number := sv_number sv + 1, sv_session := Some se',
                    sv_phase := StartingSession i (last (se_starts se'))\<rparr>)))"

definition select_started :: "nat \<Rightarrow> overview_read \<Rightarrow> overview outcome \<Rightarrow> service \<Rightarrow> service" where
  "select_started i r outcome =
     unless_closed (\<lambda>sv.
       (case outcome of
          Inr _ \<Rightarrow> report (sv\<lparr>sv_session := map_option (start_end r outcome) (sv_session sv)\<rparr>)
        | Inl e \<Rightarrow> sv\<lparr>sv_session := None, sv_phase := ClosingFailed i e\<rparr>))"

text \<open>
  The awaits of the close of a session. After a failed switch the code checks \<^verbatim>\<open>#closed\<close>; after the close
  of an earlier session and of a session that did not start it does not.
\<close>

definition session_closed :: "service \<Rightarrow> service option" where
  "session_closed sv =
     (case sv_phase sv of
        ClosingEarlier i \<Rightarrow> Some (prepare_profile i sv)
      | DroppingSession i e \<Rightarrow> Some (unless_closed (failed i e False) sv)
      | ClosingFailed i e \<Rightarrow> Some (failed i e False sv)
      | _ \<Rightarrow> None)"

definition close_service :: "service \<Rightarrow> service" where
  "close_service sv =
     (if sv_closed sv then sv
      else (clear_views (sv\<lparr>sv_closed := True, sv_connection := ConnectionClosed, sv_changes := sv_changes sv + 1,
        sv_session := None\<rparr>)))"

section \<open>Steps\<close>

text \<open>
  A change of the session is followed by \<^verbatim>\<open>onChange\<close>, or it is one that the session does not report.
\<close>

inductive service_step :: "page_clock \<Rightarrow> service \<Rightarrow> service \<Rightarrow> bool" for clock where
  asked: "select i sv = Inr sv' \<Longrightarrow> service_step clock sv sv'"
| begins: "select_begin sv = Some sv' \<Longrightarrow> service_step clock sv sv'"
| loaded: "sv_phase sv = LoadingProfile i switching \<Longrightarrow> service_step clock sv (profile_loaded i switching outcome sv)"
| switched: "sv_phase sv = Switching i profile sw before \<Longrightarrow> loadOverview clock identity answers = Some outcome
    \<Longrightarrow> service_step clock sv (select_switched i profile sw before identity response outcome sv)"
| connected: "sv_phase sv = ConnectingProfile i profile
    \<Longrightarrow> service_step clock sv (select_connected i (connect_session profile identity delivery response) sv)"
| started: "sv_phase sv = StartingSession i r \<Longrightarrow> loadOverview clock (or_identity r) answers = Some outcome
    \<Longrightarrow> service_step clock sv (select_started i r outcome sv)"
| dropped: "session_closed sv = Some sv' \<Longrightarrow> service_step clock sv sv'"
| moves: "sv_session sv = Some se \<Longrightarrow> session_step clock se se' \<Longrightarrow> service_step clock sv (sv\<lparr>sv_session := Some se'\<rparr>)"
| reports: "service_step clock sv (install_view sv)"
| asks_names: "service_step clock sv (names_begin sv)"
| named: "sv_naming sv = Some n \<Longrightarrow> names_end n reads sv = (sv', names, failure) \<Longrightarrow> service_step clock sv sv'"
| closes: "service_step clock sv (close_service sv)"

inductive service_reachable :: "page_clock \<Rightarrow> service \<Rightarrow> bool" for clock where
  made: "new_service profiles = Inr sv \<Longrightarrow> service_reachable clock sv"
| stepped: "service_reachable clock sv \<Longrightarrow> service_step clock sv sv' \<Longrightarrow> service_reachable clock sv'"

section \<open>The status\<close>

fun delivery_name :: "delivery_state \<Rightarrow> jstr" where
  "delivery_name Connecting = js ''connecting''"
| "delivery_name (Delivering LiveStream) = js ''live''"
| "delivery_name (Delivering PollingBatches) = js ''polling''"
| "delivery_name (Delivering Unreachable) = js ''unreachable''"

text \<open>A path, or the number of the profile when paths are not shown.\<close>

definition profile_name :: "service \<Rightarrow> bool \<Rightarrow> jstr \<Rightarrow> jstr" where
  "profile_name sv paths path =
     (if paths then path
      else js ''profile '' @ int_text (if path \<in> set (sv_profiles sv)
        then int (length (takeWhile (\<lambda>p. p \<noteq> path) (sv_profiles sv))) + 1 else 0))"

definition connectionLine :: "service \<Rightarrow> bool \<Rightarrow> jstr" where
  "connectionLine sv paths =
     (case sv_connection sv of
        ConnectingTo path \<Rightarrow> js ''Connection: connecting to '' @ profile_name sv paths path
      | ConnectedTo c \<Rightarrow>
          js ''Connection: connected to '' @ ct_endpoint c @ js '' (endpoint identity '' @ ct_identity c @ js ''), delivery ''
          @ delivery_name (ct_delivery c) @ (if ct_loaded c then [] else js '', overview unavailable'')
      | ConnectionProblem ProblemRefused path reason \<Rightarrow>
          js ''Connection: refused for '' @ profile_name sv paths path @ js '': '' @ reason @ js ''. No manager command is sent.''
      | ConnectionProblem ProblemUnreachable path reason \<Rightarrow>
          js ''Connection: unreachable for '' @ profile_name sv paths path @ js '': '' @ reason
          @ js ''. No manager command is sent. /wfm-endpoints connects again.''
      | ConnectionClosed \<Rightarrow> js ''Connection: closed. The manager keeps its runs under its own supervision.'')"

record command_record =
  cr_operation :: jstr
  cr_outcome :: jstr
  cr_detail :: jstr
  cr_target :: jstr

definition two :: jstr where "two = js ''  ''"

definition formatServiceStatus :: "service \<Rightarrow> command_record list \<Rightarrow> bool \<Rightarrow> jstr" where
  "formatServiceStatus sv commands paths =
     join [10]
       ([js ''Service mode: profile '' @ int_text (int (sv_active sv) + 1) @ js '' of '' @ int_text (int (length (sv_profiles sv)))
           @ (if paths then js '', '' @ profile_path sv (sv_active sv) else []),
         connectionLine sv paths]
        @ (case (sv_session sv, sv_connection sv) of
             (Some se, ConnectedTo _) \<Rightarrow> [js ''Manager capabilities: '' @ capabilityText se] | _ \<Rightarrow> [])
        @ [if sv_runs sv = [] then js ''Service runs: none'' else js ''Service runs:'']
        @ map (\<lambda>(_, r). two @ vr_runId r @ two @ vr_status r @ two
            @ (case vr_supervision r of Some s \<Rightarrow> s | None \<Rightarrow> js ''unknown'') @ js '' supervision  ''
            @ (case vr_workflowId r of None \<Rightarrow> js ''unreadable manifest'' | Some w \<Rightarrow> workflowLabel sv w)) (sv_runs sv)
        @ [if sv_requests sv = [] then js ''Requests: none'' else js ''Requests:'']
        @ map (\<lambda>(_, q). two @ vq_requestId q @ two @ vq_phase q @ two @ workflowLabel sv (vq_workflowId q)
            @ (case vq_runId q of Some run \<Rightarrow> if run = [] then [] else js ''  run '' @ run | None \<Rightarrow> [])) (sv_requests sv)
        @ [if sv_decisions sv = [] then js ''Decision heads: none'' else js ''Decision heads:'']
        @ map (\<lambda>(_, d). two @ vd_decisionId d @ two @ vd_state d @ js '' '' @ vd_kind d @ js ''  run '' @ vd_runId d) (sv_decisions sv)
        @ (if commands = [] then []
           else js ''Command receipts:''
             # map (\<lambda>c. two @ cr_operation c @ two @ cr_outcome c @ two @ cr_detail c @ two @ cr_target c) commands))"

section \<open>The invariant\<close>

text \<open>
  The invariant of service mode: what it shows belongs to the binding that it reports, and a service
  that is closed or not connected shows nothing.
\<close>

section \<open>The views\<close>

definition owned ::  "('v \<Rightarrow> jstr) \<Rightarrow> ('v \<Rightarrow> reference) \<Rightarrow> jstr \<Rightarrow> (jstr, 'v) jsmap \<Rightarrow> bool" where
  "owned endpoint reference identity m \<longleftrightarrow>
     list_all (\<lambda>(_, v). endpoint v = identity \<and> rf_endpoint (reference v) = identity) m"

definition owned_views ::
  "jstr \<Rightarrow> (jstr, service_run) jsmap \<Rightarrow> (jstr, service_request) jsmap \<Rightarrow> (jstr, service_decision) jsmap \<Rightarrow> bool" where
  "owned_views identity rs qs ds \<longleftrightarrow>
     owned vr_endpoint vr_reference identity rs \<and> owned vq_endpoint vq_reference identity qs
     \<and> owned vd_endpoint vd_reference identity ds"

definition views_part ::
  "connection \<Rightarrow> bool \<Rightarrow> (jstr, service_run) jsmap \<Rightarrow> (jstr, service_request) jsmap \<Rightarrow> (jstr, service_decision) jsmap \<Rightarrow> bool" where
  "views_part connection over rs qs ds \<longleftrightarrow>
     (case connection of
        ConnectedTo c \<Rightarrow> \<not> over \<and> owned_views (ct_identity c) rs qs ds
      | _ \<Rightarrow> rs = [] \<and> qs = [] \<and> ds = [])"

lemma owned_Nil [simp]: "owned endpoint reference identity []"
  by (simp add: owned_def)

lemma owned_set:
  "owned endpoint reference identity m \<Longrightarrow> endpoint v = identity \<Longrightarrow> rf_endpoint (reference v) = identity \<Longrightarrow>
     owned endpoint reference identity (map_set k v m)"
  unfolding owned_def by (induction m) auto

text \<open>The fields that only selections change.\<close>

definition bounded_phase :: "nat \<Rightarrow> selection_phase \<Rightarrow> bool" where
  "bounded_phase n phase \<longleftrightarrow>
     (case phase of
        Idle \<Rightarrow> True
      | ClosingEarlier i \<Rightarrow> i < n
      | LoadingProfile i _ \<Rightarrow> i < n
      | Switching i _ _ _ \<Rightarrow> i < n
      | DroppingSession i _ \<Rightarrow> i < n
      | ConnectingProfile i _ \<Rightarrow> i < n
      | StartingSession i _ \<Rightarrow> i < n
      | ClosingFailed i _ \<Rightarrow> i < n)"

text \<open>The phases between which the session stays.\<close>

definition session_part :: "selection_phase \<Rightarrow> session option \<Rightarrow> bool \<Rightarrow> bool" where
  "session_part phase se over \<longleftrightarrow>
     (case phase of
        LoadingProfile _ switching \<Rightarrow> switching \<longrightarrow> over \<or> se \<noteq> None
      | Switching _ _ _ _ \<Rightarrow> over \<or> se \<noteq> None
      | StartingSession _ _ \<Rightarrow> over \<or> se \<noteq> None
      | _ \<Rightarrow> True)"

text \<open>What holds without regard to the selection that runs, and with it.\<close>

definition quiet_inv :: "service \<Rightarrow> bool" where
  "quiet_inv sv \<longleftrightarrow>
     views_part (sv_connection sv) (sv_closed sv) (sv_runs sv) (sv_requests sv) (sv_decisions sv)
     \<and> sv_active sv < length (sv_profiles sv) \<and> list_all (\<lambda>i. i < length (sv_profiles sv)) (sv_lane sv)"

definition service_inv :: "service \<Rightarrow> bool" where
  "service_inv sv \<longleftrightarrow>
     quiet_inv sv \<and> bounded_phase (length (sv_profiles sv)) (sv_phase sv)
     \<and> session_part (sv_phase sv) (sv_session sv) (sv_closed sv)"

lemma quiet: "service_inv sv \<Longrightarrow> quiet_inv sv"
  by (simp add: service_inv_def)

section \<open>Installing\<close>

lemma observe_item_keeps [simp]:
  "sv_profiles (observe_item identity item sv) = sv_profiles sv" "sv_active (observe_item identity item sv) = sv_active sv"
  "sv_session (observe_item identity item sv) = sv_session sv" "sv_connection (observe_item identity item sv) = sv_connection sv"
  "sv_lane (observe_item identity item sv) = sv_lane sv" "sv_phase (observe_item identity item sv) = sv_phase sv"
  "sv_closed (observe_item identity item sv) = sv_closed sv" "sv_selections (observe_item identity item sv) = sv_selections sv"
  by (simp_all add: observe_item_def Let_def split: overview_member.split)

lemma observe_items_keep [simp]:
  "sv_profiles (fold (observe_item identity) items sv) = sv_profiles sv" "sv_active (fold (observe_item identity) items sv) = sv_active sv"
  "sv_session (fold (observe_item identity) items sv) = sv_session sv"
  "sv_connection (fold (observe_item identity) items sv) = sv_connection sv"
  "sv_lane (fold (observe_item identity) items sv) = sv_lane sv" "sv_phase (fold (observe_item identity) items sv) = sv_phase sv"
  "sv_closed (fold (observe_item identity) items sv) = sv_closed sv"
  "sv_selections (fold (observe_item identity) items sv) = sv_selections sv"
  by (induction items arbitrary: sv) simp_all

lemma owned_observe:
  "owned_views identity (sv_runs sv) (sv_requests sv) (sv_decisions sv) \<Longrightarrow>
     owned_views identity (sv_runs (observe_item identity item sv)) (sv_requests (observe_item identity item sv))
       (sv_decisions (observe_item identity item sv))"
  by (auto simp: observe_item_def Let_def run_observation_def request_observation_def decision_observation_def
      owned_views_def owned_set split: overview_member.split)

lemma owned_observations:
  "owned_views identity (sv_runs sv) (sv_requests sv) (sv_decisions sv) \<Longrightarrow>
     owned_views identity (sv_runs (fold (observe_item identity) items sv)) (sv_requests (fold (observe_item identity) items sv))
       (sv_decisions (fold (observe_item identity) items sv))"
  by (induction items arbitrary: sv) (simp_all add: owned_observe)

lemma owned_empty [simp]: "owned_views identity [] [] []"
  by (simp add: owned_views_def)

text \<open>The fields that naming and notification leave alone.\<close>

lemma names_begin_keeps [simp]:
  "sv_profiles (names_begin sv) = sv_profiles sv" "sv_active (names_begin sv) = sv_active sv"
  "sv_session (names_begin sv) = sv_session sv" "sv_connection (names_begin sv) = sv_connection sv"
  "sv_lane (names_begin sv) = sv_lane sv" "sv_phase (names_begin sv) = sv_phase sv" "sv_closed (names_begin sv) = sv_closed sv"
  "sv_selections (names_begin sv) = sv_selections sv" "sv_runs (names_begin sv) = sv_runs sv"
  "sv_requests (names_begin sv) = sv_requests sv" "sv_decisions (names_begin sv) = sv_decisions sv"
  by (simp_all add: names_begin_def split: option.split)

lemma changed_keeps [simp]:
  "sv_profiles (changed sv) = sv_profiles sv" "sv_active (changed sv) = sv_active sv"
  "sv_session (changed sv) = sv_session sv" "sv_connection (changed sv) = sv_connection sv"
  "sv_lane (changed sv) = sv_lane sv" "sv_phase (changed sv) = sv_phase sv" "sv_closed (changed sv) = sv_closed sv"
  "sv_selections (changed sv) = sv_selections sv" "sv_runs (changed sv) = sv_runs sv"
  "sv_requests (changed sv) = sv_requests sv" "sv_decisions (changed sv) = sv_decisions sv"
  by (simp_all add: changed_def)

lemma binding_names_keeps [simp]:
  "sv_profiles (binding_names i sv) = sv_profiles sv" "sv_active (binding_names i sv) = sv_active sv"
  "sv_session (binding_names i sv) = sv_session sv" "sv_connection (binding_names i sv) = sv_connection sv"
  "sv_lane (binding_names i sv) = sv_lane sv" "sv_phase (binding_names i sv) = sv_phase sv"
  "sv_closed (binding_names i sv) = sv_closed sv" "sv_selections (binding_names i sv) = sv_selections sv"
  "sv_runs (binding_names i sv) = sv_runs sv" "sv_requests (binding_names i sv) = sv_requests sv"
  "sv_decisions (binding_names i sv) = sv_decisions sv"
  by (simp_all add: binding_names_def)

lemma clear_views_keeps [simp]:
  "sv_profiles (clear_views sv) = sv_profiles sv" "sv_active (clear_views sv) = sv_active sv"
  "sv_session (clear_views sv) = sv_session sv" "sv_connection (clear_views sv) = sv_connection sv"
  "sv_lane (clear_views sv) = sv_lane sv" "sv_phase (clear_views sv) = sv_phase sv" "sv_closed (clear_views sv) = sv_closed sv"
  "sv_selections (clear_views sv) = sv_selections sv" "sv_runs (clear_views sv) = []" "sv_requests (clear_views sv) = []"
  "sv_decisions (clear_views sv) = []"
  by (simp_all add: clear_views_def)

lemma install_keeps [simp]:
  "sv_profiles (install_view sv) = sv_profiles sv" "sv_active (install_view sv) = sv_active sv"
  "sv_session (install_view sv) = sv_session sv" "sv_lane (install_view sv) = sv_lane sv"
  "sv_phase (install_view sv) = sv_phase sv" "sv_closed (install_view sv) = sv_closed sv"
  "sv_selections (install_view sv) = sv_selections sv"
  by (simp_all add: install_view_def Let_def split: option.split sum.split)

text \<open>A connected view is that of a session whose follow loop runs.\<close>

lemma install_connection:
  assumes "sv_session sv = Some se" "\<not> sv_closed sv"
  shows "sv_connection (install_view sv) =
    (case se_followEnd se of None \<Rightarrow> connection_of sv se | Some ending \<Rightarrow> problem_of sv (sv_active sv) (end_problem ending))"
  using assms by (simp add: install_view_def Let_def split: option.split sum.split)

lemma connection_of_sums [simp]:
  "connection_of (f sv) se = connection_of sv se" if "sv_profiles (f sv) = sv_profiles sv" "sv_active (f sv) = sv_active sv"
  using that by (simp add: connection_of_def profile_path_def)

lemma quiet_install:
  assumes "quiet_inv sv"
  shows "quiet_inv (install_view sv)"
proof (cases "sv_session sv = None \<or> sv_closed sv")
  case True
  then show ?thesis using assms by (auto simp: install_view_def split: option.split)
next
  case False
  then obtain se where se: "sv_session sv = Some se" "\<not> sv_closed sv" by auto
  have "views_part (sv_connection (install_view sv)) False (sv_runs (install_view sv)) (sv_requests (install_view sv))
      (sv_decisions (install_view sv))"
    using se by (simp add: install_view_def Let_def connection_of_def problem_of_def views_part_def owned_observations
        split: option.split sum.split)
  then show ?thesis using assms se by (simp add: quiet_inv_def)
qed

lemma inv_install: "service_inv sv \<Longrightarrow> service_inv (install_view sv)"
  by (simp add: service_inv_def quiet_install)

section \<open>Selections\<close>

text \<open>What a reported selection says of the state in which it is reported.\<close>

definition selection_true :: "service \<Rightarrow> selection \<Rightarrow> bool" where
  "selection_true sv s \<longleftrightarrow>
     (case s of
        SelectedConnected con \<Rightarrow>
          \<not> sv_closed sv \<and> con = sv_connection sv
          \<and> (\<exists>se. sv_session sv = Some se \<and> se_followEnd se = None \<and> con = connection_of sv se)
      | SelectionFailed con \<Rightarrow> con = sv_connection sv \<and> (\<forall>c. con \<noteq> ConnectedTo c)
      | SelectionKept path reason con \<Rightarrow>
          \<not> sv_closed sv \<and> con = sv_connection sv
          \<and> (\<exists>se. sv_session sv = Some se \<and> (se_followEnd se = None \<longrightarrow> con = connection_of sv se))
      | SelectionClosed \<Rightarrow> sv_closed sv)"

text \<open>A state whose selection has not ended, or that reports its end.\<close>

definition ends_well :: "service \<Rightarrow> service \<Rightarrow> bool" where
  "ends_well sv sv' \<longleftrightarrow>
     service_inv sv'
     \<and> (sv_selections sv' = sv_selections sv
        \<or> (\<exists>s. sv_selections sv' = sv_selections sv @ [s] \<and> selection_true sv' s))"

lemma ends_goes: "service_inv sv' \<Longrightarrow> sv_selections sv' = sv_selections sv \<Longrightarrow> ends_well sv sv'"
  by (simp add: ends_well_def)

lemma inv_settle: "quiet_inv sv \<Longrightarrow> service_inv (settle s sv)"
  by (simp add: service_inv_def quiet_inv_def settle_def bounded_phase_def session_part_def)

lemma settled_service_fields [simp]:
  "sv_selections (settle s sv) = sv_selections sv @ [s]" "sv_session (settle s sv) = sv_session sv"
  "sv_connection (settle s sv) = sv_connection sv" "sv_closed (settle s sv) = sv_closed sv"
  "connection_of (settle s sv) se = connection_of sv se"
  by (simp_all add: settle_def connection_of_def profile_path_def)

lemma ends_unless: "service_inv sv \<Longrightarrow> (\<not> sv_closed sv \<Longrightarrow> ends_well sv (f sv)) \<Longrightarrow> ends_well sv (unless_closed f sv)"
  by (simp add: unless_closed_def ends_well_def inv_settle quiet selection_true_def)

lemma connection_of_install [simp]: "connection_of (install_view sv) se = connection_of sv se"
  by (simp add: connection_of_def profile_path_def)

lemma ends_report:
  assumes "quiet_inv sv" "sv_session sv = Some se" "\<not> sv_closed sv" "sv_selections sv = sv_selections old"
  shows "ends_well old (report sv)"
proof -
  note con = install_connection [OF assms(2,3)]
  obtain c where c: "connection_of sv se = ConnectedTo c" by (simp add: connection_of_def)
  show ?thesis
    using assms con c
    by (cases "se_followEnd se")
      (auto simp: report_def Let_def ends_well_def inv_settle quiet_install selection_true_def problem_of_def)
qed

lemma ends_failed:
  assumes "quiet_inv sv" "\<not> sv_closed sv" "i < length (sv_profiles sv)" "kept \<longrightarrow> sv_session sv \<noteq> None"
    "sv_selections sv = sv_selections old"
  shows "ends_well old (failed i e kept sv)"
proof (cases kept)
  case True
  then obtain se where se: "sv_session sv = Some se" using assms by auto
  show ?thesis
    using assms True se install_connection [OF se assms(2)]
    by (auto simp: failed_def Let_def ends_well_def inv_settle quiet_install selection_true_def)
next
  case False
  let ?sv = "changed (clear_views (sv\<lparr>sv_active := i, sv_connection := problem_of sv i (connectionProblem e)\<rparr>))"
  have "quiet_inv ?sv" using assms by (simp add: quiet_inv_def views_part_def problem_of_def)
  then have "service_inv (settle s ?sv)" for s by (rule inv_settle)
  then show ?thesis
    using False assms by (auto simp: failed_def Let_def ends_well_def selection_true_def problem_of_def)
qed

text \<open>The close of a session that did not start, when service mode may be closed.\<close>

lemma ends_failed_closed:
  assumes "quiet_inv sv" "i < length (sv_profiles sv)"
  shows "ends_well sv (failed i e False sv)"
proof -
  let ?sv = "changed (clear_views (sv\<lparr>sv_active := i, sv_connection := problem_of sv i (connectionProblem e)\<rparr>))"
  have "quiet_inv ?sv" using assms by (simp add: quiet_inv_def views_part_def problem_of_def)
  then have "service_inv (settle s ?sv)" for s by (rule inv_settle)
  then show ?thesis by (auto simp: failed_def Let_def ends_well_def selection_true_def problem_of_def)
qed

lemma quiet_fields [simp]:
  "quiet_inv (sv\<lparr>sv_session := se\<rparr>) = quiet_inv sv" "quiet_inv (sv\<lparr>sv_number := n\<rparr>) = quiet_inv sv"
  "quiet_inv (sv\<lparr>sv_phase := phase\<rparr>) = quiet_inv sv" "quiet_inv (sv\<lparr>sv_naming := nm\<rparr>) = quiet_inv sv"
  "quiet_inv (sv\<lparr>sv_unnamed := us\<rparr>) = quiet_inv sv" "quiet_inv (sv\<lparr>sv_names := ns\<rparr>) = quiet_inv sv"
  "quiet_inv (changed sv) = quiet_inv sv" "quiet_inv (names_begin sv) = quiet_inv sv"
  by (simp_all add: quiet_inv_def)

lemma inv_prepare: "quiet_inv sv \<Longrightarrow> i < length (sv_profiles sv) \<Longrightarrow> service_inv (prepare_profile i sv)"
  by (simp add: prepare_profile_def service_inv_def quiet_inv_def views_part_def bounded_phase_def session_part_def)

lemma prepare_selections [simp]: "sv_selections (prepare_profile i sv) = sv_selections sv"
  by (simp add: prepare_profile_def)

section \<open>Steps\<close>

lemma ends_begin:
  assumes "service_inv sv" "select_begin sv = Some sv'"
  shows "ends_well sv sv'"
proof -
  obtain i rest where i: "sv_phase sv = Idle" "sv_lane sv = i # rest" using assms(2)
    by (auto simp: select_begin_def split: selection_phase.splits list.splits)
  let ?sv = "sv\<lparr>sv_lane := rest\<rparr>"
  have inv: "service_inv ?sv" "i < length (sv_profiles sv)"
    using assms(1) i by (simp_all add: service_inv_def quiet_inv_def)
  have "ends_well ?sv (case sv_session ?sv of
      None \<Rightarrow> prepare_profile i ?sv
    | Some se \<Rightarrow> if se_followEnd se = None then ?sv\<lparr>sv_phase := LoadingProfile i True\<rparr>
        else ?sv\<lparr>sv_session := None, sv_phase := ClosingEarlier i\<rparr>)"
    using inv quiet [OF inv(1)] inv_prepare [OF quiet [OF inv(1)], of i]
    by (auto simp: ends_goes service_inv_def bounded_phase_def session_part_def split: option.split intro!: ends_goes)
  then have "ends_well ?sv sv'"
    using assms(2) i ends_unless [OF inv(1)] by (auto simp: select_begin_def)
  then show ?thesis by (simp add: ends_well_def)
qed

lemma ends_loaded:
  assumes "service_inv sv" "sv_phase sv = LoadingProfile i switching"
  shows "ends_well sv (profile_loaded i switching outcome sv)"
  unfolding profile_loaded_def
proof (rule ends_unless [OF assms(1)])
  assume live: "\<not> sv_closed sv"
  have i: "i < length (sv_profiles sv)" and held: "switching \<longrightarrow> sv_session sv \<noteq> None"
    using assms live by (auto simp: service_inv_def bounded_phase_def session_part_def)
  note q = quiet [OF assms(1)]
  show "ends_well sv (case outcome of
          Inl e \<Rightarrow> failed i e switching sv
        | Inr profile \<Rightarrow>
            (case (switching, sv_session sv) of
               (True, Some se) \<Rightarrow>
                 (case switch_begin se of
                    Inl e \<Rightarrow>
                      if se_followEnd se = None then failed i e True sv
                      else sv\<lparr>sv_session := None, sv_phase := DroppingSession i e\<rparr>
                  | Inr se' \<Rightarrow>
                      sv\<lparr>sv_session := Some se',
                         sv_phase := Switching i profile (last (se_switches se')) (se_identity se)\<rparr>)
             | _ \<Rightarrow> sv\<lparr>sv_phase := ConnectingProfile i profile\<rparr>))"
    using ends_failed [OF q live i held refl] ends_failed [OF q live i, of True sv] q i held
    by (auto simp: service_inv_def bounded_phase_def session_part_def split: sum.split option.split bool.split
        intro!: ends_goes)
qed

lemma ends_switched:
  assumes "service_inv sv" "sv_phase sv = Switching i profile sw before"
  shows "ends_well sv (select_switched i profile sw before identity response outcome sv)"
  unfolding select_switched_def
proof (rule ends_unless [OF assms(1)])
  assume live: "\<not> sv_closed sv"
  have i: "i < length (sv_profiles sv)" using assms by (simp add: service_inv_def bounded_phase_def)
  obtain se where se: "sv_session sv = Some se" using assms live by (auto simp: service_inv_def session_part_def)
  obtain switched se' where sw: "switch_end sw profile identity response outcome se = (switched, se')" by force
  note q = quiet [OF assms(1)]
  let ?sv = "sv\<lparr>sv_session := Some se'\<rparr>"
  have active: "quiet_inv (?sv\<lparr>sv_active := i\<rparr>)" using q i by (simp add: quiet_inv_def)
  have "ends_well sv (case switched of Inr _ \<Rightarrow> report (?sv\<lparr>sv_active := i\<rparr>)
     | Inl e \<Rightarrow> if se_identity se' = before \<and> se_followEnd se' = None then failed i e True ?sv
               else ?sv\<lparr>sv_session := None, sv_phase := DroppingSession i e\<rparr>)"
    using ends_report [OF active, of se' sv] ends_failed [of ?sv i True sv] q live i
    by (auto simp: service_inv_def bounded_phase_def session_part_def split: sum.split intro!: ends_goes)
  then show "ends_well sv (case sv_session sv of None \<Rightarrow> sv
     | Some se \<Rightarrow> let (switched, se') = switch_end sw profile identity response outcome se; sv1 = sv\<lparr>sv_session := Some se'\<rparr> in
        case switched of Inl e \<Rightarrow> if se_identity se' = before \<and> se_followEnd se' = None then failed i e True sv1
              else sv1\<lparr>sv_session := None, sv_phase := DroppingSession i e\<rparr>
        | Inr _ \<Rightarrow> report (sv1\<lparr>sv_active := i\<rparr>))"
    by (simp add: se sw Let_def)
qed

lemma ends_connected:
  assumes "service_inv sv" "sv_phase sv = ConnectingProfile i profile"
  shows "ends_well sv (select_connected i made sv)"
  unfolding select_connected_def
proof (rule ends_unless [OF assms(1)])
  assume live: "\<not> sv_closed sv"
  have i: "i < length (sv_profiles sv)" using assms by (simp add: service_inv_def bounded_phase_def)
  note q = quiet [OF assms(1)]
  show "ends_well sv (case made of
          Inl e \<Rightarrow> failed i e False sv
        | Inr se \<Rightarrow>
            (case start_begin se of
               Inl e \<Rightarrow> sv\<lparr>sv_number := sv_number sv + 1, sv_session := None, sv_phase := ClosingFailed i e\<rparr>
             | Inr se' \<Rightarrow>
                 sv\<lparr>sv_number := sv_number sv + 1, sv_session := Some se',
                    sv_phase := StartingSession i (last (se_starts se'))\<rparr>))"
    using ends_failed [OF q live i, of False sv] q i
    by (auto simp: service_inv_def bounded_phase_def session_part_def split: sum.split intro!: ends_goes)
qed

lemma ends_started:
  assumes "service_inv sv" "sv_phase sv = StartingSession i r"
  shows "ends_well sv (select_started i r outcome sv)"
  unfolding select_started_def
proof (rule ends_unless [OF assms(1)])
  assume live: "\<not> sv_closed sv"
  have i: "i < length (sv_profiles sv)" using assms by (simp add: service_inv_def bounded_phase_def)
  obtain se where se: "sv_session sv = Some se" using assms live by (auto simp: service_inv_def session_part_def)
  note q = quiet [OF assms(1)]
  show "ends_well sv (case outcome of
          Inl e \<Rightarrow> sv\<lparr>sv_session := None, sv_phase := ClosingFailed i e\<rparr>
        | Inr _ \<Rightarrow> report (sv\<lparr>sv_session := map_option (start_end r outcome) (sv_session sv)\<rparr>))"
    using ends_report [of "sv\<lparr>sv_session := map_option (start_end r outcome) (sv_session sv)\<rparr>" _ sv] q i live se
    by (auto simp: service_inv_def bounded_phase_def session_part_def split: sum.split intro!: ends_goes)
qed

lemma ends_dropped:
  assumes "service_inv sv" "session_closed sv = Some sv'"
  shows "ends_well sv sv'"
proof -
  note q = quiet [OF assms(1)]
  have failed: "ends_well sv (unless_closed (failed i e False) sv)" if "i < length (sv_profiles sv)" for i e
    using ends_unless [OF assms(1), of "failed i e False"] ends_failed [OF q _ that, of False sv e] by simp
  have prepared: "ends_well sv (prepare_profile i sv)" if "i < length (sv_profiles sv)" for i
    using inv_prepare [OF q that] by (simp add: ends_goes)
  have "bounded_phase (length (sv_profiles sv)) (sv_phase sv)" using assms(1) by (simp add: service_inv_def)
  then show ?thesis
    using assms(2) prepared failed ends_failed_closed [OF q]
    by (cases "sv_phase sv") (auto simp: session_closed_def bounded_phase_def)
qed

lemma names_end_keeps:
  assumes "names_end n reads sv = (sv', names, failure)"
  shows "sv_session sv' = sv_session sv \<and> sv_phase sv' = sv_phase sv \<and> sv_closed sv' = sv_closed sv
    \<and> sv_selections sv' = sv_selections sv \<and> sv_profiles sv' = sv_profiles sv \<and> quiet_inv sv' = quiet_inv sv"
  using assms by (auto simp: names_end_def Let_def split: if_splits)

lemma ends_step: "service_step clock sv sv' \<Longrightarrow> service_inv sv \<Longrightarrow> ends_well sv sv'"
proof (induction rule: service_step.cases)
  case (asked i sv sv')
  then show ?case
    by (auto simp: select_def service_inv_def quiet_inv_def split: if_splits intro!: ends_goes)
next
  case (begins sv sv')
  then show ?case by (simp add: ends_begin)
next
  case (loaded sv i switching outcome)
  then show ?case by (simp add: ends_loaded)
next
  case (switched sv i profile sw before identity answers outcome response)
  then show ?case by (simp add: ends_switched)
next
  case (connected sv i profile identity delivery response)
  then show ?case by (simp add: ends_connected)
next
  case (started sv i r answers outcome)
  then show ?case by (simp add: ends_started)
next
  case (dropped sv sv')
  then show ?case by (simp add: ends_dropped)
next
  case (moves sv se se')
  then show ?case by (auto simp: service_inv_def session_part_def split: selection_phase.splits intro!: ends_goes)
next
  case (reports sv)
  then show ?case by (simp add: ends_goes inv_install)
next
  case (asks_names sv)
  then show ?case by (simp add: ends_goes service_inv_def)
next
  case (named sv n reads sv' names failure)
  then show ?case using names_end_keeps [OF named(4)] by (simp add: ends_goes service_inv_def)
next
  case (closes sv)
  then show ?case
    by (cases "sv_closed sv")
      (auto simp: close_service_def service_inv_def quiet_inv_def views_part_def session_part_def ends_well_def
        split: selection_phase.splits)
qed

lemma inv_reachable_service: "service_reachable clock sv \<Longrightarrow> service_inv sv"
proof (induction rule: service_reachable.induct)
  case (made profiles sv)
  then show ?case
    by (auto simp: new_service_def service_inv_def quiet_inv_def views_part_def bounded_phase_def session_part_def split: if_splits)
next
  case (stepped sv sv')
  then show ?case using ends_step by (auto simp: ends_well_def)
qed

end
