(* ===== verification/Offers.thy ===== *)
theory Offers
  imports ServiceMode RootRole
begin

text \<open>
  The human path of the manager commands (\<^verbatim>\<open>manager-ui.ts\<close>): which controls the manager offers for a decision,
  when the receipt of a control has settled, what a read shows of the effect of an answer, the lines of the
  live monitor and of the history, the monitor with its retrieval of the verified result, and the exact save of
  a result. The dialogues of the host and the wrapping of lines are not modelled.
\<close>

section \<open>Members\<close>

text \<open>\<open>text\<close> and \<open>memberOf\<close> of the code; \<^verbatim>\<open>undefined\<close> is \<^term>\<open>None\<close>.\<close>

definition text_value :: "json_value option \<Rightarrow> jstr option" where
  "text_value value = Option.bind value text_item"

definition member_of :: "json_value option \<Rightarrow> string \<Rightarrow> json_value option" where
  "member_of value name = (case value of Some (JObj fs) \<Rightarrow> jsonMember fs (js name) | _ \<Rightarrow> None)"

definition elements_of :: "json_value option \<Rightarrow> json_value list option" where
  "elements_of value = (case value of Some (JArr items) \<Rightarrow> Some items | _ \<Rightarrow> None)"

definition failure_text :: "client_failure option \<Rightarrow> jstr" where
  "failure_text failure =
     (case failure of
        None \<Rightarrow> js ''the response does not agree with the command''
      | Some (Refused status code) \<Rightarrow> int_text status @ js '' '' @ code
      | Some f \<Rightarrow> failure_name f)"

text \<open>\<^verbatim>\<open>[...new Set(xs)]\<close>: the first of equal items stays.\<close>

definition unique_items :: "'a list \<Rightarrow> 'a list" where
  "unique_items xs = rev (remdups (rev xs))"

text \<open>\<^verbatim>\<open>value || "none"\<close>.\<close>

definition or_none :: "jstr \<Rightarrow> jstr" where
  "or_none s = (if s = [] then js ''none'' else s)"

section \<open>Requests and reviews\<close>

definition admissionLine :: "draft_view \<Rightarrow> jstr" where
  "admissionLine request =
     (let adm = dv_admission request; missing = rd_missing (dv_readiness request) in
      join (js '', '')
        ([js ''Request '' @ dv_id request @ js '': '' @ dv_phase request, js ''admission '' @ adm_state adm]
         @ (case adm_position adm of None \<Rightarrow> [] | Some p \<Rightarrow> [js ''queue position '' @ int_text p])
         @ (if adm_reasons adm = [] then [] else [js ''waiting for '' @ join (js '', '') (adm_reasons adm)])
         @ (if missing = [] then [] else [js ''missing inputs '' @ join (js '', '') missing])))"

section \<open>Offers\<close>

definition decisionOffers :: "control_view \<Rightarrow> decision_view \<Rightarrow> control_offer list" where
  "decisionOffers control decision =
     (if cv_runId control \<noteq> dc_runId decision \<or> cv_supervision control \<noteq> js ''owned''
        \<or> cv_decisionHeadId control \<noteq> Some (dc_id decision)
        \<or> dc_state decision \<noteq> js ''pending'' \<or> dc_position decision \<noteq> 0
      then []
      else filter (\<lambda>offer. of_occurrenceId offer = dc_occurrenceId decision \<and> of_attemptId offer = None
             \<and> of_generation offer = Some (dc_generation decision)) (cv_offers control))"

record recovery_action =
  ra_label :: jstr
  ra_option :: recovery_option
  ra_operation :: jstr

definition recoveryLabel :: "recovery_option \<Rightarrow> jstr" where
  "recoveryLabel option =
     (if ro_choice option = js ''retry'' then js ''Retry''
      else if ro_choice option = js ''abandon'' then js ''Abandon''
      else (case ro_target option of None \<Rightarrow> js ''Fail over'' | Some target \<Rightarrow> js ''Fail over to '' @ target))"

definition recovery_action_of :: "control_offer list \<Rightarrow> recovery_option \<Rightarrow> recovery_action option" where
  "recovery_action_of offers option =
     (let retry = ro_choice option = js ''retry'' \<and> list_ex (\<lambda>offer. of_operation offer = js ''retry'') offers;
          chosen = list_ex (\<lambda>offer. of_operation offer = js ''choose-recovery''
            \<and> list_ex (\<lambda>item. ro_choice item = ro_choice option \<and> ro_target item = ro_target option) (of_choices offer)) offers
      in if retry \<or> chosen
         then Some \<lparr>ra_label = recoveryLabel option, ra_option = option,
                    ra_operation = (if retry then js ''retry'' else js ''choose-recovery'')\<rparr>
         else None)"

definition recoveryActions :: "control_view \<Rightarrow> decision_view \<Rightarrow> recovery_action list" where
  "recoveryActions control decision =
     (case dc_content decision of
        Recovery _ _ choices \<Rightarrow> List.map_filter (recovery_action_of (decisionOffers control decision)) choices
      | Question _ _ _ \<Rightarrow> [])"

definition cancelOffered :: "control_view \<Rightarrow> bool" where
  "cancelOffered control \<longleftrightarrow> cv_supervision control = js ''owned'' \<and> cv_cancelAllowed control"

definition steerOffers :: "control_view \<Rightarrow> control_offer list" where
  "steerOffers control =
     (if cv_supervision control \<noteq> js ''owned'' then []
      else filter (\<lambda>offer. of_operation offer = js ''steer'' \<and> of_attemptId offer \<noteq> None \<and> of_timings offer \<noteq> []) (cv_offers control))"

definition redirectOffers :: "control_view \<Rightarrow> control_offer list" where
  "redirectOffers control =
     (if cv_supervision control \<noteq> js ''owned'' then []
      else filter (\<lambda>offer. of_operation offer = js ''redirect'' \<and> of_targets offer \<noteq> []) (cv_offers control))"

section \<open>What a snapshot shows\<close>

datatype redirect_place = PlaceDispatch | PlaceAttempt jstr | PlaceUnknown

definition occurrence_item :: "json_value option \<Rightarrow> int \<Rightarrow> json_value option" where
  "occurrence_item snapshot occurrence =
     (case elements_of (member_of snapshot ''items'') of
        None \<Rightarrow> None
      | Some items \<Rightarrow> List.find (\<lambda>item. member_of (Some item) ''occurrenceId'' = Some (JStr (int_text occurrence))) items)"

definition redirectPlace :: "json_members \<Rightarrow> int \<Rightarrow> redirect_place" where
  "redirectPlace snapshot occurrence =
     (case occurrence_item (Some (JObj snapshot)) occurrence of
        None \<Rightarrow> PlaceUnknown
      | Some item \<Rightarrow>
          if member_of (member_of (Some item) ''dispatch'') ''open'' = Some (JBool True) then PlaceDispatch
          else
            (let attempts = (case elements_of (member_of (Some item) ''attempts'') of None \<Rightarrow> [] | Some attempts \<Rightarrow> attempts);
                 running = map (\<lambda>attempt. text_value (member_of (member_of (Some attempt) ''address'') ''attemptId''))
                   (filter (\<lambda>attempt. member_of (Some attempt) ''state'' = Some (JStr (js ''running''))) attempts)
             in case running of [Some attemptId'] \<Rightarrow> PlaceAttempt attemptId' | _ \<Rightarrow> PlaceUnknown))"

definition answerObserved :: "json_value \<Rightarrow> decision_view \<Rightarrow> jstr \<Rightarrow> bool" where
  "answerObserved snapshot decision stored =
     (case occurrence_item (Some snapshot) (dc_occurrenceId decision) of
        None \<Rightarrow> False
      | Some item \<Rightarrow>
          (let waiting = member_of (Some item) ''personPending'' = Some (JBool True)
                 \<and> member_of (Some item) ''decisionId'' = Some (JStr (dc_id decision))
           in \<not> waiting \<and> member_of (Some item) ''state'' = Some (JStr (js ''completed''))
              \<and> member_of (Some item) ''answer'' = Some (JStr stored)))"

datatype effect_operation = AnswerEffect | RecoveryEffect

definition controlPassed :: "json_value \<Rightarrow> decision_view \<Rightarrow> effect_operation \<Rightarrow> bool" where
  "controlPassed observed decision operation =
     (case decodeControl observed of
        Inl _ \<Rightarrow> False
      | Inr control \<Rightarrow>
          cv_decisionHeadId control \<noteq> Some (dc_id decision)
          \<and> (operation = RecoveryEffect \<or> cv_cancelAllowed control \<and> cv_decisionHeadId control \<noteq> None))"

section \<open>Receipts of controls\<close>

definition SETTLED :: "jstr list" where
  "SETTLED = [js ''effect-observed'', js ''refused'', js ''unresolved'']"

definition ACCEPTING :: "jstr list" where
  "ACCEPTING = [js ''accepted'', js ''queued'', js ''delivered'']"

definition REJECTING :: "jstr list" where
  "REJECTING = [js ''rejected-stale'', js ''unsupported'', js ''failed'']"

definition acknowledgementOf :: "command_receipt \<Rightarrow> (jstr \<times> jstr) option" where
  "acknowledgementOf receipt =
     (case (text_value (member_of (rc_acknowledgement receipt) ''state''), text_value (member_of (rc_acknowledgement receipt) ''message'')) of
        (Some state, Some message) \<Rightarrow> Some (state, message)
      | _ \<Rightarrow> None)"

definition effectKind :: "command_receipt \<Rightarrow> jstr option" where
  "effectKind receipt = text_value (member_of (rc_effect receipt) ''kind'')"

definition controlSettled :: "jstr \<Rightarrow> command_receipt \<Rightarrow> bool" where
  "controlSettled operation receipt =
     (if rc_state receipt \<in> set SETTLED then True
      else
        (case acknowledgementOf receipt of
           None \<Rightarrow> False
         | Some (state, message) \<Rightarrow>
             if rc_state receipt \<noteq> js ''acknowledged'' then False
             else state \<in> set REJECTING \<or> operation = js ''cancel'' \<and> state \<in> set ACCEPTING))"

definition acknowledgementLine :: "command_receipt \<Rightarrow> jstr" where
  "acknowledgementLine receipt =
     (case acknowledgementOf receipt of
        None \<Rightarrow> js ''Command '' @ rc_id receipt @ js '' has no runtime acknowledgement (receipt '' @ rc_state receipt @ js '').''
      | Some (state, message) \<Rightarrow>
          js ''Acknowledgement of command '' @ rc_id receipt @ js '': '' @ state @ js '': '' @ message)"

section \<open>Lines of decisions\<close>

text \<open>\<^verbatim>\<open>value.replace(/\r?\n/g, " ")\<close>.\<close>

fun oneLine :: "jstr \<Rightarrow> jstr" where
  "oneLine [] = []"
| "oneLine (c # rest) =
     (if c = 10 then 32 # oneLine rest
      else if c = 13 then (case rest of d # others \<Rightarrow> if d = 10 then 32 # oneLine others else c # oneLine rest | [] \<Rightarrow> [c])
      else c # oneLine rest)"

definition codeLabel :: "decision_view \<Rightarrow> jstr" where
  "codeLabel decision =
     (case dc_content decision of
        Recovery _ _ _ \<Rightarrow> js ''recovery''
      | Question code _ _ \<Rightarrow>
          if code = JStr (js ''flag'') then js ''flag: yes, no, true or false''
          else if code = JStr (js ''receipt'') then js ''receipt: empty''
          else (case code of JStr s \<Rightarrow> s | _ \<Rightarrow> js ''structured JSON''))"

definition decisionLine :: "decision_view \<Rightarrow> jstr" where
  "decisionLine decision =
     (let place = (if dc_position decision = 0 then js ''Head '' @ dc_id decision
                   else dc_id decision @ js '' at position '' @ int_text (dc_position decision))
      in case dc_content decision of
           Question _ _ prompt \<Rightarrow>
             js ''  '' @ place @ js '': '' @ dc_state decision @ js '' question ('' @ codeLabel decision @ js ''): '' @ oneLine prompt
         | Recovery gap message choices \<Rightarrow>
             js ''  '' @ place @ js '': '' @ dc_state decision @ js '' recovery ('' @ gap @ js ''): '' @ oneLine message
             @ js ''; choices '' @ or_none (join (js '', '') (map recoveryLabel choices)))"

section \<open>The lines of the live monitor\<close>

datatype result_retrieval = NoResult | WaitingResult | RetrievingResult | VerifiedResult nat jstr | FailedResult jstr

text \<open>The last complete read of a resource, and the failure of the latest read.\<close>

record 'a kept_read =
  kp_value :: "'a option"
  kp_failure :: "jstr option"

record monitor_state =
  mn_runId :: jstr
  mn_delivery :: jstr
  mn_snapshot :: "json_members kept_read"
  mn_control :: "control_view kept_read"
  mn_queue :: "decision_view list kept_read"
  mn_result :: result_retrieval

definition TERMINAL_STATUSES :: "jstr list" where
  "TERMINAL_STATUSES = [js ''succeeded'', js ''failed'', js ''cancelled'', js ''orphaned'']"

definition snapshotStatus :: "json_members \<Rightarrow> jstr option" where
  "snapshotStatus snapshot = text_value (member_of (member_of (Some (JObj snapshot)) ''runtime'') ''status'')"

definition snapshot_verification :: "json_members \<Rightarrow> jstr option" where
  "snapshot_verification snapshot = text_value (member_of (member_of (Some (JObj snapshot)) ''verification'') ''state'')"

definition result_lines :: "json_members \<Rightarrow> result_retrieval \<Rightarrow> jstr list" where
  "result_lines snapshot result =
     (case result of
        VerifiedResult bytes digest \<Rightarrow>
          [js ''Result: verified '' @ int_text (int bytes) @ js '' bytes'', js ''Result SHA-256: '' @ digest]
      | FailedResult code \<Rightarrow> [js ''Result: not retrieved ('' @ code @ js ''); the next change of the run retries'']
      | RetrievingResult \<Rightarrow> [js ''Result: retrieving the verified bytes'']
      | WaitingResult \<Rightarrow> [js ''Result: waiting for the verification of the manager'']
      | NoResult \<Rightarrow>
          (let verification = (case snapshot_verification snapshot of None \<Rightarrow> js ''absent'' | Some v \<Rightarrow> v) in
           [if verification \<in> {js ''verified'', js ''referenced''} then js ''Result: retrieving the verified bytes''
            else js ''Result: no download; verification is '' @ verification]))"

definition outcomeLines :: "monitor_state \<Rightarrow> jstr list" where
  "outcomeLines state =
     (case kp_value (mn_snapshot state) of
        None \<Rightarrow> []
      | Some snapshot \<Rightarrow>
          (case snapshotStatus snapshot of
             None \<Rightarrow> []
           | Some status \<Rightarrow>
               if status \<notin> set TERMINAL_STATUSES then []
               else
                 [js ''Terminal: '' @ status]
                 @ (case text_value (jsonMember snapshot (js ''failure'')) of
                      None \<Rightarrow> []
                    | Some failure \<Rightarrow>
                        [js ''Failure: ''
                         @ (case text_value (jsonMember snapshot (js ''failureClass'')) of None \<Rightarrow> js ''unclassified'' | Some c \<Rightarrow> c)
                         @ js '': '' @ oneLine failure])
                 @ (if status \<noteq> js ''succeeded'' then [js ''Result: no download for a run that did not succeed'']
                    else result_lines snapshot (mn_result state))))"

text \<open>The freshness of the three kept reads: each is the presence of a value and its failure.\<close>

definition observation_line :: "(bool \<times> jstr option) list \<Rightarrow> jstr" where
  "observation_line reads =
     (let failure = (case List.map_filter snd reads of [] \<Rightarrow> None | f # _ \<Rightarrow> Some f) in
      if list_all (\<lambda>(present, fail). \<not> present \<and> fail = None) reads then js ''Observation: not yet read''
      else
        (case failure of
           None \<Rightarrow> if list_all fst reads then js ''Observation: current'' else js ''Observation: reading''
         | Some f \<Rightarrow>
             if list_all fst reads then js ''Observation: stale ('' @ f @ js ''); the last complete observation is retained''
             else js ''Observation: refused ('' @ f @ js ''); no complete observation is installed''))"

definition pending_decisions :: "decision_view list \<Rightarrow> decision_view list" where
  "pending_decisions queue =
     sort_key dc_position (filter (\<lambda>d. dc_state d = js ''pending'' \<or> dc_state d = js ''submitting'') queue)"

definition serviceMonitorLines :: "monitor_state \<Rightarrow> jstr list" where
  "serviceMonitorLines state =
     [js ''Service run '' @ mn_runId state
        @ (case Option.bind (kp_value (mn_snapshot state)) (\<lambda>s. text_value (jsonMember s (js ''workflow''))) of
             None \<Rightarrow> [] | Some workflow \<Rightarrow> js '', workflow '' @ workflow),
      js ''Delivery: '' @ mn_delivery state,
      observation_line [(kp_value (mn_snapshot state) \<noteq> None, kp_failure (mn_snapshot state)),
        (kp_value (mn_control state) \<noteq> None, kp_failure (mn_control state)),
        (kp_value (mn_queue state) \<noteq> None, kp_failure (mn_queue state))]]
     @ (case kp_value (mn_snapshot state) of
          None \<Rightarrow> []
        | Some snapshot \<Rightarrow>
            [js ''Runtime: '' @ (case snapshotStatus snapshot of None \<Rightarrow> js ''not yet observed'' | Some s \<Rightarrow> s)
             @ (case text_value (jsonMember snapshot (js ''supervision'')) of
                  None \<Rightarrow> []
                | Some supervision \<Rightarrow> if supervision = js ''owned'' then [] else js ''; supervision '' @ supervision)])
     @ (case kp_value (mn_queue state) of
          None \<Rightarrow> []
        | Some queue \<Rightarrow>
            (let pending = pending_decisions queue in
             (if pending = [] then js ''Decisions: none pending''
              else js ''Decisions: '' @ int_text (int (length pending)) @ js '' pending'')
             # map decisionLine pending))
     @ (case kp_value (mn_control state) of
          None \<Rightarrow> []
        | Some control \<Rightarrow>
            [js ''Offers: '' @ or_none (join (js '', '')
               (unique_items (map of_operation (cv_offers control)) @ (if cv_cancelAllowed control then [js ''cancel''] else [])))])
     @ outcomeLines state"

section \<open>The verified artifact\<close>

record result_artifact =
  va_download :: jstr
  va_bytes :: int
  va_sha256 :: jstr

text \<open>\<^verbatim>\<open>/^[0-9]+$/\<close> on a text or on the source of a number.\<close>

definition artifact_size :: "json_value option \<Rightarrow> int option" where
  "artifact_size stated =
     (let digits_of = (\<lambda>s. if s \<noteq> [] \<and> list_all is_digit s then Some (int (digits_val s)) else None)
      in case stated of Some (JStr s) \<Rightarrow> digits_of s | Some (JNum source) \<Rightarrow> digits_of source | _ \<Rightarrow> None)"

definition verified_item :: "json_value \<Rightarrow> result_artifact option" where
  "verified_item item =
     (let verification = member_of (Some item) ''verification''; artifact = member_of (Some item) ''artifact'' in
      if member_of (Some item) ''kind'' \<noteq> Some (JStr (js ''result'')) \<or> member_of verification ''state'' \<noteq> Some (JStr (js ''verified''))
      then None
      else if text_value (member_of artifact ''id'') = None
        \<or> text_value (member_of artifact ''id'') \<noteq> text_value (member_of verification ''artifactId'')
      then None
      else
        (case (text_value (member_of artifact ''download''), artifact_size (member_of artifact ''bytes''),
               text_value (member_of artifact ''sha256'')) of
           (Some place, Some bytes, Some digest) \<Rightarrow>
             Some \<lparr>va_download = place, va_bytes = bytes, va_sha256 = digest\<rparr>
         | _ \<Rightarrow> None))"

definition verifiedArtifact :: "json_value \<Rightarrow> result_artifact option" where
  "verifiedArtifact outputs =
     (case elements_of (member_of (Some outputs) ''items'') of
        None \<Rightarrow> None
      | Some items \<Rightarrow> (case List.map_filter verified_item items of [] \<Rightarrow> None | a # _ \<Rightarrow> Some a))"

section \<open>The live monitor\<close>

text \<open>
  \<open>sm_attempted\<close> is the entity tag of the snapshot at the last retrieval: \<^term>\<open>None\<close> is \<^verbatim>\<open>undefined\<close> and
  \<^term>\<open>Some None\<close> is \<^verbatim>\<open>null\<close>. A retrieval runs between the awaits of \<^verbatim>\<open>#retrieve\<close>: it reads the outputs, over the
  transport that the session had and after the check that it made when the read began, or downloads, as the session was when the download
  began. \<open>sm_changes\<close> counts the calls of \<^verbatim>\<open>changed\<close>.
\<close>

datatype retrieval = ReadingOutputs reference "client_failure option" nat | Downloading session reference int jstr

record service_monitor =
  sm_runId :: jstr
  sm_snapshotRef :: reference
  sm_controlRef :: reference
  sm_queueRef :: reference
  sm_snapshot :: "json_members kept_read"
  sm_control :: "control_view kept_read"
  sm_queue :: "decision_view list kept_read"
  sm_result :: result_retrieval
  sm_attempted :: "jstr option option"
  sm_retrievals :: "retrieval list"
  sm_changes :: nat
  sm_closed :: bool

definition not_read :: "'a kept_read" where
  "not_read = \<lparr>kp_value = None, kp_failure = None\<rparr>"

definition smonitor_open :: "session \<Rightarrow> jstr \<Rightarrow> service_monitor outcome" where
  "smonitor_open se runId =
     thenO (session_reference se (js ''/v1/runs/'' @ runId @ js ''/snapshot'')) (\<lambda>snapshot.
     thenO (session_reference se (js ''/v1/runs/'' @ runId @ js ''/control'')) (\<lambda>control.
     thenO (session_reference se (js ''/v1/decisions?runId='' @ runId)) (\<lambda>queue.
       Inr \<lparr>sm_runId = runId, sm_snapshotRef = snapshot, sm_controlRef = control, sm_queueRef = queue, sm_snapshot = not_read,
            sm_control = not_read, sm_queue = not_read, sm_result = NoResult, sm_attempted = None, sm_retrievals = [],
            sm_changes = 0, sm_closed = False\<rparr>)))"

definition smonitor_changed :: "service_monitor \<Rightarrow> service_monitor" where
  "smonitor_changed m = (if sm_closed m then m else m\<lparr>sm_changes := sm_changes m + 1\<rparr>)"

definition smonitor_close :: "service_monitor \<Rightarrow> service_monitor" where
  "smonitor_close m = m\<lparr>sm_closed := True\<rparr>"

definition smonitor_state :: "session \<Rightarrow> service_monitor \<Rightarrow> monitor_state" where
  "smonitor_state se m =
     \<lparr>mn_runId = sm_runId m, mn_delivery = delivery_name (se_deliveryState se), mn_snapshot = sm_snapshot m,
      mn_control = sm_control m, mn_queue = sm_queue m, mn_result = sm_result m\<rparr>"

text \<open>\<^verbatim>\<open>#take\<close>: the kept read, and the entity tag when this read completed.\<close>

definition take_read :: "observed outcome option \<Rightarrow> (json_value \<Rightarrow> 'a option) \<Rightarrow> 'a kept_read \<Rightarrow> 'a kept_read \<times> jstr option option" where
  "take_read read decode kept =
     (case read of
        None \<Rightarrow> (kept, None)
      | Some (Inl e) \<Rightarrow> (\<lparr>kp_value = kp_value kept, kp_failure = Some (failure_text (Some e))\<rparr>, None)
      | Some (Inr ob) \<Rightarrow>
          (case decode (ob_value ob) of
             None \<Rightarrow> (\<lparr>kp_value = kp_value kept, kp_failure = Some (js ''InvalidResponse'')\<rparr>, None)
           | Some value \<Rightarrow> (\<lparr>kp_value = Some value, kp_failure = None\<rparr>, Some (ob_etag ob))))"

definition decode_snapshot :: "json_value \<Rightarrow> json_members option" where
  "decode_snapshot value = (case value of JObj fs \<Rightarrow> Some fs | _ \<Rightarrow> None)"

definition decode_control :: "json_value \<Rightarrow> control_view option" where
  "decode_control value = (case decodeControl value of Inr control \<Rightarrow> Some control | Inl _ \<Rightarrow> None)"

fun decode_decisions :: "json_value list \<Rightarrow> decision_view list option" where
  "decode_decisions [] = Some []"
| "decode_decisions (item # items) =
     (case decodeDecision item of
        Inl _ \<Rightarrow> None
      | Inr decision \<Rightarrow> map_option (Cons decision) (decode_decisions items))"

definition decode_queue :: "json_value \<Rightarrow> decision_view list option" where
  "decode_queue value = (case elements_of (member_of (Some value) ''items'') of None \<Rightarrow> None | Some items \<Rightarrow> decode_decisions items)"

text \<open>\<^verbatim>\<open>#retrieve\<close> up to its first await, and after a failure.\<close>

definition retrieve_failed :: "client_failure \<Rightarrow> service_monitor \<Rightarrow> service_monitor" where
  "retrieve_failed e m = smonitor_changed (m\<lparr>sm_result := FailedResult (failure_text (Some e))\<rparr>)"

definition retrieve_begin :: "session \<Rightarrow> service_monitor \<Rightarrow> service_monitor" where
  "retrieve_begin se m =
     (case session_reference se (js ''/v1/runs/'' @ sm_runId m @ js ''/outputs'') of
        Inl e \<Rightarrow> retrieve_failed e m
      | Inr outputs \<Rightarrow> m\<lparr>sm_retrievals := sm_retrievals m @ [
        ReadingOutputs outputs (session_check (se_closed se) (se_identity se) outputs) (se_transport se)]\<rparr>)"

definition wants_result :: "jstr option option \<Rightarrow> service_monitor \<Rightarrow> bool" where
  "wants_result etag m \<longleftrightarrow>
     (case kp_value (sm_snapshot m) of
        None \<Rightarrow> False
      | Some snapshot \<Rightarrow>
          snapshotStatus snapshot = Some (js ''succeeded'')
          \<and> snapshot_verification snapshot \<in> {Some (js ''verified''), Some (js ''referenced'')}
          \<and> (\<forall>n d. sm_result m \<noteq> VerifiedResult n d) \<and> sm_result m \<noteq> RetrievingResult \<and> etag \<noteq> sm_attempted m)"

definition smonitor_refresh :: "session \<Rightarrow> service_monitor \<Rightarrow> service_monitor" where
  "smonitor_refresh se m =
     (if sm_closed m then m
      else
        (let (snapshot, etag) = take_read (current se (sm_snapshotRef m)) decode_snapshot (sm_snapshot m);
             m1 = m\<lparr>sm_snapshot := snapshot,
                    sm_control := fst (take_read (current se (sm_controlRef m)) decode_control (sm_control m)),
                    sm_queue := fst (take_read (current se (sm_queueRef m)) decode_queue (sm_queue m))\<rparr>
         in if wants_result etag m1 then retrieve_begin se (m1\<lparr>sm_attempted := etag, sm_result := RetrievingResult\<rparr>) else m1))"

text \<open>
  \<^verbatim>\<open>get\<close> of the session \<open>se\<close> at its end: what its check gave when it began, over which transport, and what it
  makes of the response.
\<close>

definition session_get :: "session \<Rightarrow> client_failure option \<Rightarrow> nat \<Rightarrow> reference \<Rightarrow> client_response outcome \<Rightarrow> observed outcome" where
  "session_get se checked used reference response =
     (case checked of
        Some e \<Rightarrow> Inl e
      | None \<Rightarrow>
          if used \<noteq> se_transport se then Inl (Fixed WrongEndpoint)
          else
            (case response of
               Inl e \<Rightarrow> Inl e
             | Inr r \<Rightarrow>
                 if re_status r \<noteq> 200 then Inl (Fixed InvalidResponse)
                 else Inr \<lparr>ob_reference = reference, ob_status = 200, ob_etag = re_etag r, ob_value = re_value r\<rparr>))"

text \<open>The continuations of \<^verbatim>\<open>#retrieve\<close>: the outputs were read, and the download ended.\<close>

definition outputs_read :: "session \<Rightarrow> observed outcome \<Rightarrow> service_monitor \<Rightarrow> service_monitor" where
  "outputs_read se read m =
     (if sm_closed m then m
      else
        (case read of
           Inl e \<Rightarrow> retrieve_failed e m
         | Inr ob \<Rightarrow>
             (case verifiedArtifact (ob_value ob) of
                None \<Rightarrow> smonitor_changed (m\<lparr>sm_result := WaitingResult\<rparr>)
              | Some artifact \<Rightarrow>
                  (case session_reference se (va_download artifact) of
                     Inl e \<Rightarrow> retrieve_failed e m
                   | Inr location \<Rightarrow>
                       m\<lparr>sm_retrievals := sm_retrievals m @ [Downloading se location (va_bytes artifact) (va_sha256 artifact)]\<rparr>))))"

definition download_ended :: "u8 list outcome \<Rightarrow> jstr \<Rightarrow> service_monitor \<Rightarrow> service_monitor" where
  "download_ended received digest m =
     (if sm_closed m then m
      else
        (case received of
           Inl e \<Rightarrow> retrieve_failed e m
         | Inr bytes \<Rightarrow> smonitor_changed (m\<lparr>sm_result := VerifiedResult (length bytes) digest\<rparr>)))"

text \<open>
  One step of a monitor beside its session, which moves on its own: the answers of the network are any.
\<close>

inductive smonitor_step ::
  "page_clock \<Rightarrow> (u8 list \<Rightarrow> jstr) \<Rightarrow> session \<times> service_monitor \<Rightarrow> session \<times> service_monitor \<Rightarrow> bool" for clock sha256 where
  session_moves: "session_step clock se se' \<Longrightarrow> smonitor_step clock sha256 (se, m) (se', m)"
| refreshes: "smonitor_step clock sha256 (se, m) (se, smonitor_refresh se m)"
| outputs_arrive: "sm_retrievals m = before @ ReadingOutputs outputs checked used # after
    \<Longrightarrow> smonitor_step clock sha256 (se, m)
          (se, outputs_read se (session_get se checked used outputs response) (m\<lparr>sm_retrievals := before @ after\<rparr>))"
| download_ends: "sm_retrievals m = before @ Downloading began location stated digest # after
    \<Longrightarrow> smonitor_step clock sha256 (se, m)
          (se, download_ended (download sha256 began x location stated digest) digest (m\<lparr>sm_retrievals := before @ after\<rparr>))"
| closes_monitor: "smonitor_step clock sha256 (se, m) (se, smonitor_close m)"

inductive smonitor_reachable :: "page_clock \<Rightarrow> (u8 list \<Rightarrow> jstr) \<Rightarrow> session \<times> service_monitor \<Rightarrow> bool" for clock sha256 where
  smonitor_opened: "session_run clock se \<Longrightarrow> smonitor_open se runId = Inr m \<Longrightarrow> smonitor_reachable clock sha256 (se, m)"
| smonitor_moved: "smonitor_reachable clock sha256 c \<Longrightarrow> smonitor_step clock sha256 c c' \<Longrightarrow> smonitor_reachable clock sha256 c'"

section \<open>The exact save\<close>

text \<open>
  The entries of the destination directory by name. What the host answers to each call is a text of an error or
  nothing; a write that fails leaves any bytes. \<open>sh_exists\<close> is the text of the error of an existing entry.
\<close>

datatype dir_entry = FileOf "u8 list" | OtherEntry

type_synonym directory = "jstr \<Rightarrow> dir_entry option"

record save_host =
  sh_open :: "jstr option"
  sh_chmod :: "jstr option"
  sh_write :: "jstr option"
  sh_partial :: "u8 list"
  sh_sync :: "jstr option"
  sh_close :: "jstr option"
  sh_link :: "jstr option"
  sh_unlink :: "jstr option"
  sh_exists :: jstr

datatype save_outcome = Saved "jstr option" | NotSaved jstr

definition dir_entry_of :: "directory \<Rightarrow> jstr \<Rightarrow> dir_entry option" where
  "dir_entry_of d name = (if name \<in> {js ''.'', js ''..''} then Some OtherEntry else d name)"

definition lower_hex :: "u8 list \<Rightarrow> jstr" where
  "lower_hex bytes = concat (map (\<lambda>b. [hex_unit (unat b div 16), hex_unit (unat b mod 16)]) bytes)"

definition partial_name :: "jstr \<Rightarrow> u8 list \<Rightarrow> jstr" where
  "partial_name path random = js ''.'' @ basename path @ js ''.'' @ lower_hex random @ js ''.partial''"

text \<open>\<^verbatim>\<open>join(dirname(path), name)\<close> of an absolute path.\<close>

definition partial_path :: "jstr \<Rightarrow> u8 list \<Rightarrow> jstr" where
  "partial_path path random = resolve_path [] (path_in (dirname path) (partial_name path random))"

definition valid_destination :: "jstr \<Rightarrow> bool" where
  "valid_destination path \<longleftrightarrow>
     isAbsolute path \<and> \<not> ends_with path (js ''/'') \<and> basename path \<noteq> [] \<and> list_all (\<lambda>c. c \<notin> {0, 10, 13}) path"

text \<open>The first failure of the mode, the write and the sync, and the bytes of the private file then.\<close>

definition written :: "save_host \<Rightarrow> u8 list \<Rightarrow> jstr option \<times> u8 list" where
  "written h bytes =
     (case sh_chmod h of
        Some e \<Rightarrow> (Some e, [])
      | None \<Rightarrow> (case sh_write h of Some e \<Rightarrow> (Some e, sh_partial h) | None \<Rightarrow> (sh_sync h, bytes)))"

definition unlink_entry :: "save_host \<Rightarrow> jstr \<Rightarrow> directory \<Rightarrow> jstr option \<times> directory" where
  "unlink_entry h name d = (case sh_unlink h of Some e \<Rightarrow> (Some e, d) | None \<Rightarrow> (None, d(name := None)))"

definition link_entry :: "save_host \<Rightarrow> jstr \<Rightarrow> jstr \<Rightarrow> directory \<Rightarrow> jstr option \<times> directory" where
  "link_entry h name target d =
     (case sh_link h of
        Some e \<Rightarrow> (Some e, d)
      | None \<Rightarrow> if dir_entry_of d target \<noteq> None then (Some (sh_exists h), d) else (None, d(target := d name)))"

definition saveExact :: "save_host \<Rightarrow> u8 list \<Rightarrow> jstr \<Rightarrow> u8 list \<Rightarrow> directory \<Rightarrow> save_outcome \<times> directory" where
  "saveExact h random path bytes d =
     (if \<not> valid_destination path then (NotSaved (js ''the destination must be one absolute single-line file path''), d)
      else
        (let name = partial_name path random; temporary = partial_path path random in
         case sh_open h of
           Some e \<Rightarrow> (NotSaved e, d)
         | None \<Rightarrow>
             if dir_entry_of d name \<noteq> None then (NotSaved (sh_exists h), d)
             else
               (let (write_failure, content) = written h bytes;
                    failure = (case write_failure of None \<Rightarrow> sh_close h | Some e \<Rightarrow> Some e);
                    d1 = d(name := Some (FileOf content));
                    (failure', d2) = (case failure of None \<Rightarrow> link_entry h name (basename path) d1 | Some e \<Rightarrow> (Some e, d1));
                    (removal, d3) = unlink_entry h name d2
                in (case failure' of
                      None \<Rightarrow> Saved (map_option (\<lambda>_. temporary) removal)
                    | Some e \<Rightarrow>
                        NotSaved (case removal of
                          None \<Rightarrow> e
                        | Some r \<Rightarrow> e @ js ''; the private file '' @ temporary @ js '' remains ('' @ r @ js '')''), d3))))"

section \<open>The history\<close>

definition itemStatus :: "run_item \<Rightarrow> jstr" where
  "itemStatus run =
     (case rn_content run of
        Unreadable category \<Rightarrow> js ''unreadable ('' @ category @ js '')''
      | Known content \<Rightarrow> (case kr_runtime content of Some runtime \<Rightarrow> rt_status runtime | None \<Rightarrow> js ''no runtime evidence''))"

fun verification_name :: "verification_state \<Rightarrow> jstr" where
  "verification_name VAbsent = js ''absent''"
| "verification_name (VReferenced _) = js ''referenced''"
| "verification_name (VVerified _) = js ''verified''"
| "verification_name (VUnavailable _ _) = js ''unavailable''"

definition historyLine :: "(jstr, jstr) jsmap \<Rightarrow> run_item \<Rightarrow> jstr" where
  "historyLine names run =
     (case rn_content run of
        Unreadable _ \<Rightarrow> js ''  '' @ rn_id run @ js ''  profile '' @ rn_profileId run @ js ''  '' @ itemStatus run
      | Known content \<Rightarrow>
          join (js '', '')
            ([js ''  '' @ rn_id run @ js ''  ''
                @ (case map_of names (kr_workflowId content) of Some name \<Rightarrow> name | None \<Rightarrow> kr_workflowId content)
                @ js ''  profile '' @ rn_profileId run @ js ''  '' @ itemStatus run,
              if kr_supervision content = js ''observer'' then js ''observer (legacy entry, read only)''
              else js ''supervision '' @ kr_supervision content]
             @ (case (kr_lineage content, kr_parentRunId content) of
                  (Some lineage, Some parent) \<Rightarrow> [lineage @ js '' of run '' @ parent]
                | _ \<Rightarrow> [])
             @ [js ''result '' @ verification_name (kr_verification content)]))"

definition observer_entry :: "run_item \<Rightarrow> bool" where
  "observer_entry run \<longleftrightarrow> (case rn_content run of Known content \<Rightarrow> kr_supervision content = js ''observer'' | _ \<Rightarrow> False)"

definition historyLines :: "(jstr, jstr) jsmap \<Rightarrow> run_item list \<Rightarrow> jstr list" where
  "historyLines names runs =
     (let observers = length (filter observer_entry runs) in
      (js ''History: '' @ int_text (int (length runs - observers)) @ js '' managed runs and '' @ int_text (int observers)
       @ js '' observer entries'') # map (historyLine names) runs)"

record fork_target =
  ft_occurrenceId :: int
  ft_code :: jstr
  ft_intent :: jstr
  ft_answer :: "jstr option"

definition fork_target_of :: "json_value \<Rightarrow> fork_target option" where
  "fork_target_of item =
     (case (text_value (member_of (Some item) ''occurrenceId''), text_value (member_of (Some item) ''code''),
            text_value (member_of (Some item) ''state'')) of
        (Some ident, Some code, Some state) \<Rightarrow>
          if canonical_text ident \<and> state \<in> {js ''completed'', js ''reused''}
          then Some \<lparr>ft_occurrenceId = int (digits_val ident), ft_code = code,
                     ft_intent = (case text_value (member_of (Some item) ''intent'') of None \<Rightarrow> [] | Some i \<Rightarrow> i),
                     ft_answer = text_value (member_of (Some item) ''answer'')\<rparr>
          else None
      | _ \<Rightarrow> None)"

definition forkTargets :: "json_members \<Rightarrow> fork_target list" where
  "forkTargets snapshot =
     (case elements_of (jsonMember snapshot (js ''items'')) of
        None \<Rightarrow> []
      | Some items \<Rightarrow> sort_key ft_occurrenceId (List.map_filter fork_target_of items))"

section \<open>Laws of recovery choices\<close>

text \<open>What the manager offers for a decision, said of one choice.\<close>

definition addressed_offer :: "control_view \<Rightarrow> decision_view \<Rightarrow> control_offer \<Rightarrow> bool" where
  "addressed_offer control decision offer \<longleftrightarrow>
     offer \<in> set (cv_offers control) \<and> of_occurrenceId offer = dc_occurrenceId decision \<and> of_attemptId offer = None
     \<and> of_generation offer = Some (dc_generation decision)"

definition head_decision :: "control_view \<Rightarrow> decision_view \<Rightarrow> bool" where
  "head_decision control decision \<longleftrightarrow>
     cv_runId control = dc_runId decision \<and> cv_supervision control = js ''owned''
     \<and> cv_decisionHeadId control = Some (dc_id decision) \<and> dc_state decision = js ''pending'' \<and> dc_position decision = 0"

definition offers_retry :: "control_view \<Rightarrow> decision_view \<Rightarrow> recovery_option \<Rightarrow> bool" where
  "offers_retry control decision choice \<longleftrightarrow>
     head_decision control decision \<and> ro_choice choice = js ''retry''
     \<and> (\<exists>offer. addressed_offer control decision offer \<and> of_operation offer = js ''retry'')"

definition offers_choice :: "control_view \<Rightarrow> decision_view \<Rightarrow> recovery_option \<Rightarrow> bool" where
  "offers_choice control decision choice \<longleftrightarrow>
     head_decision control decision
     \<and> (\<exists>offer. addressed_offer control decision offer \<and> of_operation offer = js ''choose-recovery'' \<and> choice \<in> set (of_choices offer))"

lemma decisionOffers_set:
  "offer \<in> set (decisionOffers control decision) \<longleftrightarrow> head_decision control decision \<and> addressed_offer control decision offer"
  by (auto simp: decisionOffers_def head_decision_def addressed_offer_def)

lemma same_choice: "ro_choice a = ro_choice b \<and> ro_target a = ro_target b \<longleftrightarrow> a = (b :: recovery_option)"
  by (cases a; cases b) auto

lemma recovery_action_of_offers:
  "recovery_action_of (decisionOffers control decision) choice =
     (if offers_retry control decision choice
      then Some \<lparr>ra_label = recoveryLabel choice, ra_option = choice, ra_operation = js ''retry''\<rparr>
      else if offers_choice control decision choice
      then Some \<lparr>ra_label = recoveryLabel choice, ra_option = choice, ra_operation = js ''choose-recovery''\<rparr>
      else None)"
proof -
  have retry: "(ro_choice choice = js ''retry'' \<and> list_ex (\<lambda>offer. of_operation offer = js ''retry'') (decisionOffers control decision))
      \<longleftrightarrow> offers_retry control decision choice"
    by (auto simp: offers_retry_def list_ex_iff decisionOffers_set)
  have chosen: "list_ex (\<lambda>offer. of_operation offer = js ''choose-recovery''
        \<and> list_ex (\<lambda>item. ro_choice item = ro_choice choice \<and> ro_target item = ro_target choice) (of_choices offer))
        (decisionOffers control decision) \<longleftrightarrow> offers_choice control decision choice"
    by (auto simp: offers_choice_def list_ex_iff decisionOffers_set same_choice)
  show ?thesis unfolding recovery_action_of_def Let_def retry chosen by simp
qed

section \<open>Laws of the exact save\<close>

lemma partial_name_longer: "partial_name path random \<noteq> basename path"
proof
  assume "partial_name path random = basename path"
  then have "length (partial_name path random) = length (basename path)" by simp
  then show False by (simp add: partial_name_def)
qed

lemma partial_name_normal: "partial_name path random \<noteq> js ''.''" "partial_name path random \<noteq> js ''..''"
proof -
  have "length (partial_name path random) > 2" by (simp add: partial_name_def)
  then show "partial_name path random \<noteq> js ''.''" "partial_name path random \<noteq> js ''..''" by auto
qed

lemma written_complete: "written h bytes = (None, content) \<Longrightarrow> content = bytes"
  by (auto simp: written_def split: option.splits)

text \<open>\<open>saved_as\<close>: what a save promises of the directory.\<close>

definition saved_as :: "jstr \<Rightarrow> jstr \<Rightarrow> jstr \<Rightarrow> u8 list \<Rightarrow> directory \<Rightarrow> save_outcome \<times> directory \<Rightarrow> bool" where
  "saved_as target own temporary bytes d r \<longleftrightarrow>
     (\<forall>name. name \<noteq> target \<longrightarrow> name \<noteq> own \<longrightarrow> snd r name = d name)
     \<and> (case fst r of
          Saved leftover \<Rightarrow>
            dir_entry_of d target = None \<and> snd r target = Some (FileOf bytes)
            \<and> snd r own = (if leftover = None then None else Some (FileOf bytes)) \<and> leftover \<in> {None, Some temporary}
        | NotSaved reason \<Rightarrow>
            snd r target = d target
            \<and> (snd r own = d own \<or> (\<exists>before after. reason = before @ temporary @ after)))"

lemma unlink_cases:
  "unlink_entry h name d = (removal, d') \<Longrightarrow> (removal = None \<and> d' = d(name := None)) \<or> (removal \<noteq> None \<and> d' = d)"
  by (auto simp: unlink_entry_def split: option.splits)

lemma link_cases:
  "link_entry h name target d = (failure, d') \<Longrightarrow>
     (failure = None \<and> dir_entry_of d target = None \<and> d' = d(target := d name)) \<or> (failure \<noteq> None \<and> d' = d)"
  by (auto simp: link_entry_def split: option.splits if_splits)

lemma saveExact_saves:
  "saved_as (basename path) (partial_name path random) (partial_path path random) bytes d (saveExact h random path bytes d)"
proof (cases "valid_destination path \<and> sh_open h = None \<and> dir_entry_of d (partial_name path random) = None")
  case False
  then show ?thesis by (auto simp: saveExact_def saved_as_def Let_def split: option.splits)
next
  case True
  let ?name = "partial_name path random" and ?target = "basename path"
  note other = partial_name_longer [of path random]
  have absent: "d ?name = None" using True partial_name_normal [of path random] by (simp add: dir_entry_of_def)
  obtain failure content where w: "written h bytes = (failure, content)" by force
  let ?f = "case failure of None \<Rightarrow> sh_close h | Some e \<Rightarrow> Some e"
  let ?d1 = "d(?name := Some (FileOf content))"
  obtain failure' d2 where l: "(case ?f of None \<Rightarrow> link_entry h ?name ?target ?d1 | Some e \<Rightarrow> (Some e, ?d1)) = (failure', d2)" by force
  obtain removal d3 where u: "unlink_entry h ?name d2 = (removal, d3)" by force
  have linked: "(failure' = None \<and> content = bytes \<and> dir_entry_of d ?target = None \<and> d2 = ?d1(?target := Some (FileOf bytes)))
      \<or> (failure' \<noteq> None \<and> d2 = ?d1)"
  proof (cases ?f)
    case None
    then have "content = bytes" using w written_complete by (auto split: option.splits)
    with None l link_cases [of h ?name ?target ?d1 failure' d2] other show ?thesis
      by (auto simp: dir_entry_of_def split: if_splits)
  next
    case (Some e)
    then show ?thesis using l by auto
  qed
  have result: "saveExact h random path bytes d =
      (case failure' of None \<Rightarrow> Saved (map_option (\<lambda>_. partial_path path random) removal)
       | Some e \<Rightarrow> NotSaved (case removal of None \<Rightarrow> e
           | Some r \<Rightarrow> e @ js ''; the private file '' @ partial_path path random @ js '' remains ('' @ r @ js '')''), d3)"
    using True by (simp add: saveExact_def Let_def w l u)
  have named: "\<exists>before after. e @ js ''; the private file '' @ partial_path path random @ js '' remains ('' @ r @ js '')''
      = before @ partial_path path random @ after" for e r
    by (rule exI [of _ "e @ js ''; the private file ''"], rule exI [of _ "js '' remains ('' @ r @ js '')''"]) simp
  from linked unlink_cases [OF u] other absent show ?thesis
    unfolding result saved_as_def by (cases failure'; cases removal) (auto simp: named)
qed

section \<open>Laws of the live monitor\<close>

definition verified_bytes :: "(u8 list \<Rightarrow> jstr) \<Rightarrow> nat \<Rightarrow> jstr \<Rightarrow> bool" where
  "verified_bytes sha256 n digest \<longleftrightarrow>
     (\<exists>bytes. length bytes = n \<and> sha256 bytes = digest) \<and> sha256_text digest \<and> n \<le> ARTIFACT_BYTES"

text \<open>What holds of the retrieval: at most one runs, and only while the monitor says so.\<close>

definition retrieval_inv :: "(u8 list \<Rightarrow> jstr) \<Rightarrow> service_monitor \<Rightarrow> bool" where
  "retrieval_inv sha256 m \<longleftrightarrow>
     (sm_retrievals m = [] \<or> (\<exists>r. sm_retrievals m = [r]) \<and> sm_result m = RetrievingResult)
     \<and> (sm_result m = RetrievingResult \<longrightarrow> \<not> sm_closed m \<longrightarrow> sm_retrievals m \<noteq> [])
     \<and> (\<forall>n digest. sm_result m = VerifiedResult n digest \<longrightarrow> verified_bytes sha256 n digest)"

definition succeeded_result :: "service_monitor \<Rightarrow> bool" where
  "succeeded_result m \<longleftrightarrow>
     (\<exists>snapshot. kp_value (sm_snapshot m) = Some snapshot \<and> snapshotStatus snapshot = Some (js ''succeeded'')
        \<and> snapshot_verification snapshot \<in> {Some (js ''verified''), Some (js ''referenced'')})"

text \<open>What a step keeps: the reads that completed, a verified result, and the reason of a retrieval that starts.\<close>

definition nothing_lost :: "service_monitor \<Rightarrow> service_monitor \<Rightarrow> bool" where
  "nothing_lost m m' \<longleftrightarrow>
     (kp_value (sm_snapshot m) \<noteq> None \<longrightarrow> kp_value (sm_snapshot m') \<noteq> None)
     \<and> (kp_value (sm_control m) \<noteq> None \<longrightarrow> kp_value (sm_control m') \<noteq> None)
     \<and> (kp_value (sm_queue m) \<noteq> None \<longrightarrow> kp_value (sm_queue m') \<noteq> None)
     \<and> (\<forall>n digest. sm_result m = VerifiedResult n digest \<longrightarrow> sm_result m' = VerifiedResult n digest)
     \<and> (sm_result m' = RetrievingResult \<longrightarrow> sm_result m = RetrievingResult \<or> succeeded_result m')"

lemma nothing_lost_refl [simp]: "nothing_lost m m"
  by (simp add: nothing_lost_def)

lemma take_read_keeps: "kp_value kept \<noteq> None \<longrightarrow> kp_value (fst (take_read read decode kept)) \<noteq> None"
  by (simp add: take_read_def split: option.split sum.split)

lemma failed_fields [simp]:
  "sm_retrievals (retrieve_failed e m) = sm_retrievals m" "sm_closed (retrieve_failed e m) = sm_closed m"
  "sm_result (retrieve_failed e m) = FailedResult (failure_text (Some e))"
  "sm_snapshot (retrieve_failed e m) = sm_snapshot m" "sm_control (retrieve_failed e m) = sm_control m"
  "sm_queue (retrieve_failed e m) = sm_queue m"
  by (simp_all add: retrieve_failed_def smonitor_changed_def)

lemma changed_fields [simp]:
  "sm_retrievals (smonitor_changed m) = sm_retrievals m" "sm_closed (smonitor_changed m) = sm_closed m"
  "sm_result (smonitor_changed m) = sm_result m" "sm_snapshot (smonitor_changed m) = sm_snapshot m"
  "sm_control (smonitor_changed m) = sm_control m" "sm_queue (smonitor_changed m) = sm_queue m"
  by (simp_all add: smonitor_changed_def)

lemma begin_fields [simp]:
  "sm_closed (retrieve_begin se m) = sm_closed m" "sm_snapshot (retrieve_begin se m) = sm_snapshot m"
  "sm_control (retrieve_begin se m) = sm_control m" "sm_queue (retrieve_begin se m) = sm_queue m"
  by (simp_all add: retrieve_begin_def split: sum.split)

lemma downloaded_bytes:
  assumes "download sha256 se x location stated digest = Inr bytes"
  shows "verified_bytes sha256 (length bytes) digest"
proof -
  have "downloadVerified sha256 x (rf_uri location) stated digest = Inr bytes"
    using assms by (simp add: download_def split: option.splits)
  then have "\<not> (stated < 0 \<or> stated > int ARTIFACT_BYTES \<or> \<not> sha256_text digest)" "int (length bytes) = stated" "sha256 bytes = digest"
    by (auto simp: downloadVerified_def thenO_def Let_def split: if_splits sum.splits)
  then show ?thesis by (auto simp: verified_bytes_def)
qed

lemma retrieval_begins:
  assumes "sm_retrievals m = []" "sm_result m = RetrievingResult"
  shows "retrieval_inv sha256 (retrieve_begin se m)"
  using assms by (simp add: retrieval_inv_def retrieve_begin_def split: sum.split)

lemma refresh_keeps:
  assumes "retrieval_inv sha256 m"
  shows "retrieval_inv sha256 (smonitor_refresh se m) \<and> nothing_lost m (smonitor_refresh se m)"
proof (cases "sm_closed m")
  case True
  then show ?thesis using assms by (simp add: smonitor_refresh_def)
next
  case False
  obtain snapshot etag where t: "take_read (current se (sm_snapshotRef m)) decode_snapshot (sm_snapshot m) = (snapshot, etag)" by force
  define m1 where "m1 = m\<lparr>sm_snapshot := snapshot,
      sm_control := fst (take_read (current se (sm_controlRef m)) decode_control (sm_control m)),
      sm_queue := fst (take_read (current se (sm_queueRef m)) decode_queue (sm_queue m))\<rparr>"
  have kept: "kp_value (sm_snapshot m) \<noteq> None \<longrightarrow> kp_value snapshot \<noteq> None"
    using take_read_keeps [of "sm_snapshot m" "current se (sm_snapshotRef m)" decode_snapshot] t by auto
  have m1: "retrieval_inv sha256 m1" "nothing_lost m m1" "sm_result m1 = sm_result m" "sm_retrievals m1 = sm_retrievals m"
    using assms kept take_read_keeps [of "sm_control m" "current se (sm_controlRef m)" decode_control]
      take_read_keeps [of "sm_queue m" "current se (sm_queueRef m)" decode_queue]
    by (simp_all add: m1_def retrieval_inv_def nothing_lost_def)
  show ?thesis
  proof (cases "wants_result etag m1")
    case wanted: True
    then have idle: "sm_retrievals m = []" "succeeded_result m1" "\<forall>n d. sm_result m \<noteq> VerifiedResult n d"
      using assms m1(3) by (auto simp: wants_result_def succeeded_result_def retrieval_inv_def split: option.splits)
    have "smonitor_refresh se m = retrieve_begin se (m1\<lparr>sm_attempted := etag, sm_result := RetrievingResult\<rparr>)"
      using wanted False t by (simp add: smonitor_refresh_def m1_def)
    with retrieval_begins [of "m1\<lparr>sm_attempted := etag, sm_result := RetrievingResult\<rparr>" sha256 se] idle m1
    show ?thesis by (simp add: nothing_lost_def succeeded_result_def)
  next
    case unwanted: False
    then have "smonitor_refresh se m = m1" using False t by (simp add: smonitor_refresh_def m1_def)
    with m1 show ?thesis by simp
  qed
qed

lemma outputs_keep:
  assumes "retrieval_inv sha256 m" "sm_retrievals m = before @ ReadingOutputs outputs checked used # after"
  shows "retrieval_inv sha256 (outputs_read se read (m\<lparr>sm_retrievals := before @ after\<rparr>))
         \<and> nothing_lost m (outputs_read se read (m\<lparr>sm_retrievals := before @ after\<rparr>))"
proof -
  have one: "before = []" "after = []" "sm_result m = RetrievingResult"
    using assms by (auto simp: retrieval_inv_def append_eq_Cons_conv)
  show ?thesis
    by (simp add: one outputs_read_def retrieval_inv_def nothing_lost_def split: sum.split option.split)
qed

lemma download_keeps:
  assumes "retrieval_inv sha256 m" "sm_retrievals m = before @ Downloading began location stated digest # after"
  shows "retrieval_inv sha256 (download_ended (download sha256 began x location stated digest) digest (m\<lparr>sm_retrievals := before @ after\<rparr>))
         \<and> nothing_lost m (download_ended (download sha256 began x location stated digest) digest (m\<lparr>sm_retrievals := before @ after\<rparr>))"
proof -
  have one: "before = []" "after = []" "sm_result m = RetrievingResult"
    using assms by (auto simp: retrieval_inv_def append_eq_Cons_conv)
  show ?thesis
    using downloaded_bytes [of sha256 began x location stated digest]
    by (simp add: one download_ended_def retrieval_inv_def nothing_lost_def split: sum.split)
qed

lemma monitor_step_keeps:
  assumes "smonitor_step clock sha256 c c'" "retrieval_inv sha256 (snd c)"
  shows "retrieval_inv sha256 (snd c') \<and> nothing_lost (snd c) (snd c')"
  using assms
proof (induction rule: smonitor_step.induct)
  case (closes_monitor se m)
  then show ?case by (simp add: smonitor_close_def retrieval_inv_def nothing_lost_def)
qed (simp_all add: refresh_keeps outputs_keep download_keeps)

lemma monitor_inv: "smonitor_reachable clock sha256 c \<Longrightarrow> retrieval_inv sha256 (snd c)"
proof (induction rule: smonitor_reachable.induct)
  case (smonitor_opened se runId m)
  then show ?case by (auto simp: smonitor_open_def thenO_def retrieval_inv_def split: sum.splits)
next
  case (smonitor_moved c c')
  then show ?case using monitor_step_keeps by blast
qed

end
