(* ===== verification/InterfaceProperties.thy ===== *)
theory InterfaceProperties
  imports Monitor Bridge JournalLaws ServiceMode Offers SampleSession
begin

text \<open>
  The properties of the text monitor, of the current-session bridge, of service mode and of the manager commands,
  over every order of their steps.
\<close>

section \<open>The text monitor\<close>

text \<open>
  C38: in a monitor that was opened, updated and driven by keys in any order, an occurrence is selected as
  soon as the snapshot has one, and the rendering is the header, the footer and between them a window that
  shows the selected occurrence, whole when it fits; the rendering has at most the lines of the screen
  and none is wider than the screen.
\<close>

theorem monitor_shows_the_selection:
  assumes "monitor_reachable m"
  shows "(occurrenceIds (mo_snapshot m) \<noteq> [] \<longrightarrow>
            (\<exists>ident \<in> set (occurrenceIds (mo_snapshot m)). mo_selectedId m = Some ident
              \<and> (\<exists>before after. monitor_render m width height =
                   monitor_header (mo_snapshot m) (nat (max 20 width))
                   # before @ take (nat (max 1 (height - 2))) (monitor_block m ident (nat (max 20 width))) @ after)))
         \<and> int (length (monitor_render m width height)) \<le> max 3 height
         \<and> (\<forall>line \<in> set (monitor_render m width height). int (length line) \<le> max 20 width)"
proof (intro conjI impI)
  have ok: "selection_ok m" using assms by (rule reachable_selection)
  assume "occurrenceIds (mo_snapshot m) \<noteq> []"
  then obtain ident where ident: "mo_selectedId m = Some ident" "ident \<in> set (occurrenceIds (mo_snapshot m))"
    using ok by (auto simp: selection_ok_def split: option.splits)
  then show "\<exists>ident \<in> set (occurrenceIds (mo_snapshot m)). mo_selectedId m = Some ident
              \<and> (\<exists>before after. monitor_render m width height =
                   monitor_header (mo_snapshot m) (nat (max 20 width))
                   # before @ take (nat (max 1 (height - 2))) (monitor_block m ident (nat (max 20 width))) @ after)"
    using render_shows [OF ok ident(1)] by blast
next
  show "int (length (monitor_render m width height)) \<le> max 3 height"
    using render_bounds(1) [of m width height] by linarith
next
  show "\<forall>line \<in> set (monitor_render m width height). int (length line) \<le> max 20 width"
    using render_bounds(2) [of width m height] by (auto simp: fits_width_def nat_le_iff le_nat_iff)
qed

definition sample_monitor :: monitor_model where
  "sample_monitor = monitor_move (monitor_new ((initialSnapshot (js ''run''))\<lparr>rs_authoredOrder := [js ''1'', js ''2'']\<rparr>)) 1"

theorem monitor_shows_the_selection_witness:
  "mo_selectedId sample_monitor = Some (js ''2'')
   \<and> (\<exists>before after. monitor_render sample_monitor 80 3 =
        monitor_header (mo_snapshot sample_monitor) 80 # before @ take 1 (monitor_block sample_monitor (js ''2'') 80) @ after)"
proof -
  have selected: "mo_selectedId sample_monitor = Some (js ''2'')" "occurrenceIds (mo_snapshot sample_monitor) = [js ''1'', js ''2'']"
    by (simp_all add: sample_monitor_def monitor_move_def monitor_new_def occurrenceIds_def initialSnapshot_def first_id_def)
  have "handleInput (\<lambda>_ _. False) (js ''j'')
      (monitor_new ((initialSnapshot (js ''run''))\<lparr>rs_authoredOrder := [js ''1'', js ''2'']\<rparr>)) = Some sample_monitor"
    by (simp add: handleInput_def sample_monitor_def)
  then have "monitor_reachable sample_monitor" by (rule handled [OF opened])
  from monitor_shows_the_selection [OF this, of 80 3] show ?thesis using selected by auto
qed

section \<open>The current-session bridge\<close>

text \<open>
  C20: in any order of connections, chunks, hangups, settled turns and deliveries, the pending turn and the
  client belong to an authenticated connection that has not ended; the Pi session is asked to steer,
  follow up or abort only the last turn it started; a connection buffers at most two frames while it is
  open and is sent nothing before it authenticates; and whatever of a start fails, no server is created but
  with a socket path that fits into the 103 bytes that the platforms accept.
\<close>

theorem bridge_state_is_sound:
  assumes "bridge_reachable b"
  shows "(\<forall>s. br_client b = Some s \<longrightarrow> (\<exists>c. conn b s = Some c \<and> cn_authenticated c \<and> cn_state c \<noteq> SocketEnded))
         \<and> (\<forall>p. br_pending b = Some p \<longrightarrow> Suc (pd_turn p) = br_turns b
              \<and> (\<exists>c. conn b (pd_socket p) = Some c \<and> cn_authenticated c \<and> cn_state c \<noteq> SocketEnded))
         \<and> turn_log 0 (br_turns b) (br_calls b)
         \<and> (\<forall>s c. conn b s = Some c \<longrightarrow>
              (cn_state c = SocketOpen \<longrightarrow> length (cn_buffer c) \<le> 2 * 1048576)
              \<and> (cn_authenticated c \<or> cn_sent c = []))
         \<and> (br_server b \<noteq> NoServer \<longrightarrow> (\<exists>p. br_socketPath b = Some p \<and> byteLength p \<le> 103))"
  using inv_reachable [OF assms]
  by (auto simp: bridge_inv_def alive_def pending_ok_def conn_ok_def path_fits_def MAX_SOCKET_PATH_def BRIDGE_FRAME_def)

text \<open>
  A line carries the token when it is a JSON object whose \<^verbatim>\<open>token\<close> is a string that begins with the hexadecimal
  text of the token, in letters of either case; two more hexadecimal digits would be a further byte.
\<close>

definition hex_digit :: "unit16 \<Rightarrow> bool" where
  "hex_digit u \<longleftrightarrow> u \<in> set (js ''0123456789abcdefABCDEF'')"

definition further_byte :: "jstr \<Rightarrow> bool" where
  "further_byte rest \<longleftrightarrow> (\<exists>a b others. rest = a # b # others \<and> hex_digit a \<and> hex_digit b)"

definition carries :: "u8 list option \<Rightarrow> jstr \<Rightarrow> bool" where
  "carries token line \<longleftrightarrow>
     (\<exists>fs p rest t. json_parse line = Some (JObj fs) \<and> map_of fs (js ''token'') = Some (JStr (p @ rest)) \<and> token = Some t
        \<and> map ascii_lower p = lower_hex t \<and> \<not> further_byte rest)"

lemma hex_value_lower: "hex_value c = Some h \<Longrightarrow> h < 16 \<and> ascii_lower c = hex_unit h"
proof -
  assume h: "hex_value c = Some h"
  consider (digit) "48 \<le> unat c" "unat c \<le> 57" "h = unat c - 48"
    | (small) "97 \<le> unat c" "unat c \<le> 102" "h = unat c - 87"
    | (capital) "65 \<le> unat c" "unat c \<le> 70" "h = unat c - 55"
    using h by (auto simp: hex_value_def is_digit_def word_le_nat_alt split: if_splits)
  then show ?thesis
  proof cases
    case digit
    then have "of_nat (48 + h) = c" "h < 10" by simp_all
    with digit show ?thesis by (simp add: hex_unit_def ascii_lower_def word_le_nat_alt del: of_nat_add)
  next
    case small
    then have "of_nat (87 + h) = c" "\<not> h < 10" by simp_all
    with small show ?thesis by (simp add: hex_unit_def ascii_lower_def word_le_nat_alt del: of_nat_add)
  next
    case capital
    then have n: "87 + h = unat c + 32" "\<not> h < 10" by simp_all
    then have "hex_unit h = of_nat (87 + h)" by (simp add: hex_unit_def)
    also have "\<dots> = c + 32" unfolding n(1) by simp
    finally show ?thesis using capital by (simp add: ascii_lower_def word_le_nat_alt)
  qed
qed

lemma hex_digit_value: "hex_digit c \<Longrightarrow> hex_value c \<noteq> None"
  by (auto simp: hex_digit_def js_def hex_value_def is_digit_def)

lemma hex_bytes_text:
  "\<exists>p rest. s = p @ rest \<and> map ascii_lower p = lower_hex (hex_bytes s) \<and> \<not> further_byte rest"
proof (induction s rule: hex_bytes.induct)
  case (1 a b s)
  show ?case
  proof (cases "\<exists>h l. hex_value a = Some h \<and> hex_value b = Some l")
    case True
    then obtain h l where hl: "hex_value a = Some h" "hex_value b = Some l" by blast
    then obtain p rest where "s = p @ rest" "map ascii_lower p = lower_hex (hex_bytes s)"
      "\<not> further_byte rest"
      using 1 by blast
    note parts = this
    have units: "h < 16" "l < 16" "ascii_lower a = hex_unit h" "ascii_lower b = hex_unit l"
      using hex_value_lower hl by blast+
    have "unat (of_nat (16 * h + l) :: u8) = 16 * h + l" using units(1,2) by (simp add: unat_of_nat del: of_nat_add of_nat_mult)
    then have "lower_hex (hex_bytes (a # b # s)) = hex_unit h # hex_unit l # lower_hex (hex_bytes s)"
      using hl units(1,2) by (simp add: lower_hex_def)
    then have "map ascii_lower (a # b # p) = lower_hex (hex_bytes (a # b # s))" using units(3,4) parts(2) by simp
    moreover have "a # b # s = (a # b # p) @ rest" using parts(1) by simp
    ultimately show ?thesis using parts(3) by blast
  next
    case False
    then have "hex_bytes (a # b # s) = []" by (auto split: option.splits)
    have "\<not> (hex_digit a \<and> hex_digit b)" using False hex_digit_value by blast
    then have "\<not> further_byte (a # b # s)" by (simp add: further_byte_def)
    with \<open>hex_bytes (a # b # s) = []\<close> show ?thesis
      by - (rule exI [of _ "[]"], rule exI [of _ "a # b # s"], simp add: lower_hex_def)
  qed
qed (auto simp: lower_hex_def further_byte_def)

lemma admitting_carries: "admitting token line \<Longrightarrow> carries token line"
proof -
  assume "admitting token line"
  then obtain v where v: "json_parse line = Some v" "authenticates token v"
    by (cases "json_parse line") (simp_all add: admitting_def)
  then obtain fs where fs: "v = JObj fs" by (cases v) (simp_all add: authenticates_def)
  then obtain x where x: "map_of fs (js ''token'') = Some x"
    using v(2) by (cases "map_of fs (js ''token'')") (simp_all add: authenticates_def)
  then obtain s where s: "x = JStr s" using v(2) fs by (cases x) (simp_all add: authenticates_def)
  then obtain t where "token = Some t" "hex_bytes s = t"
    using v(2) fs x by (cases token) (simp_all add: authenticates_def)
  moreover have "json_parse line = Some (JObj fs)" "map_of fs (js ''token'') = Some (JStr s)" using v(1) fs x s by simp_all
  moreover obtain p rest where "s = p @ rest" "map ascii_lower p = lower_hex (hex_bytes s)" "\<not> further_byte rest"
    using hex_bytes_text [of s] by blast
  ultimately show ?thesis unfolding carries_def by blast
qed

text \<open>
  C21: until a complete line of an unauthenticated connection carries the token of the bridge, its data
  changes nothing but the buffer and the state of that connection: it stays unauthenticated, no turn starts, no
  session opens, nothing is sent.
\<close>

theorem only_the_token_admits:
  assumes "conn b s = Some c" "\<not> cn_authenticated c"
    and "\<forall>line \<in> set (complete_lines (cn_buffer c @ chunk)). \<not> carries (br_token b) line"
  shows "\<exists>c'. bridge_data envs s chunk b = b\<lparr>br_conns := map_set s c' (br_conns b)\<rparr>
               \<and> \<not> cn_authenticated c' \<and> cn_sent c' = cn_sent c"
  using silent_data [OF assms(1,2), of chunk envs] assms(3) admitting_carries by (auto simp: silent_change_def)

text \<open>Two connections that arrive before either has authenticated.\<close>

definition token_line :: jstr where
  "token_line = encodeJson (JObj [(js ''token'', JStr (js ''ab''))])"

lemma token_line_parses: "json_parse token_line = Some (JObj [(js ''token'', JStr (js ''ab''))])"
proof -
  have "tryParseJson token_line = Some (sort_members (JObj [(js ''token'', JStr (js ''ab''))]))"
    unfolding token_line_def by (rule tryParseJson_encodeJson) simp
  then show ?thesis by (simp add: json_parse_def)
qed

lemma token_line_text: "token_line = js ''{\"token\":\"ab\"}''"
  by (simp add: token_line_def) code_simp

lemma token_line_plain: "list_all (\<lambda>u. u < 0x80 \<and> u \<noteq> (10 :: unit16)) token_line" "length token_line = 14"
  unfolding token_line_text by (simp_all add: js_def)

lemma token_line_short: "byteLength token_line \<le> BRIDGE_FRAME" "10 \<notin> set token_line"
proof -
  have "byteLength token_line = 14"
    using byteLength_ascii [of token_line] token_line_plain by (simp add: list_all_iff)
  then show "byteLength token_line \<le> BRIDGE_FRAME" by (simp add: BRIDGE_FRAME_def)
  show "10 \<notin> set token_line" using token_line_plain(1) by (auto simp: list_all_iff)
qed

lemma token_authenticates: "authenticates (Some [0xAB]) (JObj [(js ''token'', JStr (js ''ab''))])"
  by (simp add: authenticates_def js_def hex_value_def is_digit_def)

definition open_conn :: bridge_conn where
  "open_conn = \<lparr>cn_state = SocketOpen, cn_heard = True, cn_buffer = [], cn_authenticated = False, cn_sent = []\<rparr>"

definition shared_bridge :: "(nat, bridge_conn) jsmap \<Rightarrow> nat option \<Rightarrow> bridge" where
  "shared_bridge conns held =
     new_bridge\<lparr>br_server := Listening, br_token := Some [0xAB], br_client := held, br_conns := conns,
       br_socketPath := Some (js ''/s/bridge/current-1.sock''), br_tokenFile := Some (js ''/s/bridge/current-1.token'')\<rparr>"

definition sample_host :: start_host where
  "sample_host = \<lparr>sh_instance = js ''1'', sh_mkdir = None, sh_mkdtemp = Inl [], sh_rm = None, sh_token = [0xAB],
     sh_write = None, sh_listen = None\<rparr>"

lemma shared_token:
  assumes "map_of conns s = Some open_conn"
  shows "bridge_data envs s (token_line @ [10]) (shared_bridge conns held)
         = shared_bridge (map_set s (open_conn\<lparr>cn_authenticated := True\<rparr>) conns) (Some s)"
proof -
  let ?b = "shared_bridge conns held"
  have split: "takeWhile (\<lambda>c. c \<noteq> 10) (token_line @ [10]) = token_line"
    using token_line_short(2) by (subst takeWhile_append2) auto
  have c: "conn ?b s = Some open_conn" "br_token ?b = Some [0xAB]" using assms by (simp_all add: shared_bridge_def conn_def)
  let ?b' = "(update_conn s (\<lambda>c. c\<lparr>cn_authenticated := True\<rparr>) ?b)\<lparr>br_client := Some s\<rparr>"
  have "bridge_line (envs 0) s token_line ?b = (?b', True)"
    using token_line_short(1) c by (simp add: bridge_line_def token_line_parses open_conn_def token_authenticates)
  then have "bridge_lines envs 0 s (token_line @ [10]) ?b = keep_buffer s [] ?b'"
    by (subst bridge_lines.simps) (simp add: split Let_def bridge_lines.simps)
  also have "\<dots> = shared_bridge (map_set s (open_conn\<lparr>cn_authenticated := True\<rparr>) conns) (Some s)"
    using assms by (simp add: keep_buffer_def update_conn_def conn_def shared_bridge_def map_of_map_set open_conn_def)
  finally show ?thesis
    using c token_line_plain(2) by (simp add: bridge_data_def open_conn_def BRIDGE_FRAME_def)
qed

abbreviation "one_client \<equiv> shared_bridge [(0, open_conn\<lparr>cn_authenticated := True\<rparr>), (1, open_conn)] (Some 0)"

abbreviation "two_waiting \<equiv> shared_bridge [(0, open_conn), (1, open_conn)] None"

lemma shared_bridge_starts: "bridge_start True (js ''/s'') sample_host new_bridge = (shared_bridge [] None, None)"
proof -
  have "byteLength (js ''/s/bridge/current-1.sock'') \<le> MAX_SOCKET_PATH"
    using byteLength_ascii [of "js ''/s/bridge/current-1.sock''"] by (simp add: js_def MAX_SOCKET_PATH_def)
  then show ?thesis
    by (simp add: bridge_start_def new_bridge_def choose_socket_def sample_host_def Let_def join_path_def path_in_def shared_bridge_def js_def)
qed

lemma shared_reachable: "bridge_reachable two_waiting" "bridge_reachable one_client"
proof -
  let ?b0 = "shared_bridge [] None" and ?b1 = "shared_bridge [(0, open_conn)] None"
  have "bridge_step new_bridge ?b0" using shared_bridge_starts by (rule starts)
  moreover have "bridge_step ?b0 ?b1"
    using accepts [of ?b0 0] by (simp add: bridge_accept_def shared_bridge_def conn_def open_conn_def new_bridge_def)
  moreover have "bridge_step ?b1 two_waiting"
    using accepts [of ?b1 1] by (simp add: bridge_accept_def shared_bridge_def conn_def open_conn_def new_bridge_def)
  ultimately show reached: "bridge_reachable two_waiting"
    unfolding bridge_reachable_def by (meson rtranclp.rtrancl_into_rtrancl rtranclp.rtrancl_refl)
  have "bridge_step two_waiting one_client"
    using receives [of two_waiting _ 0 "token_line @ [10]"] by (simp add: shared_token)
  then show "bridge_reachable one_client"
    using reached unfolding bridge_reachable_def by (meson rtranclp.rtrancl_into_rtrancl)
qed

theorem bridge_state_is_sound_witness:
  "br_client one_client = Some 0 \<and> (\<exists>c. conn one_client 0 = Some c \<and> cn_authenticated c \<and> cn_state c \<noteq> SocketEnded)"
  using bridge_state_is_sound [OF shared_reachable(2)] by (simp add: shared_bridge_def)

text \<open>A connection that sends a frame without the token.\<close>

theorem only_the_token_admits_witness:
  "\<exists>c'. bridge_data (\<lambda>_. \<lparr>pi_isIdle = None, pi_refusal = None, pi_sessionId = []\<rparr>) 0 (js ''{}'' @ [10])
          (shared_bridge [(0, open_conn)] None)
          = (shared_bridge [(0, open_conn)] None)\<lparr>br_conns := map_set 0 c' [(0, open_conn)]\<rparr>
        \<and> \<not> cn_authenticated c' \<and> cn_sent c' = []"
proof -
  let ?b = "shared_bridge [(0, open_conn)] None"
  have braces: "encodeJson (JObj []) = js ''{}''" by (simp add: js_def)
  have "tryParseJson (encodeJson (JObj [])) = Some (sort_members (JObj []))" by (rule tryParseJson_encodeJson) simp
  then have "json_parse (js ''{}'') = Some (JObj [])" unfolding braces by (simp add: json_parse_def)
  then have "\<not> carries (br_token ?b) (js ''{}'')" by (simp add: carries_def)
  moreover have "complete_lines (js ''{}'' @ [10]) = [js ''{}'']" by (simp add: js_def)
  ultimately have "\<forall>line \<in> set (complete_lines (cn_buffer open_conn @ js ''{}'' @ [10])). \<not> carries (br_token ?b) line"
    by (simp add: open_conn_def)
  moreover have "conn ?b 0 = Some open_conn" "\<not> cn_authenticated open_conn" "cn_sent open_conn = []" "br_conns ?b = [(0, open_conn)]"
    by (simp_all add: shared_bridge_def conn_def open_conn_def)
  ultimately show ?thesis
    using only_the_token_admits [of ?b 0 open_conn "js ''{}'' @ [10]"] by metis
qed

text \<open>A line that carries the token makes its connection the client.\<close>

definition waiting_conn :: "bridge \<Rightarrow> nat \<Rightarrow> bridge_conn \<Rightarrow> bool" where
  "waiting_conn b s c \<longleftrightarrow>
     conn b s = Some c \<and> cn_state c = SocketOpen \<and> cn_heard c \<and> cn_buffer c = [] \<and> \<not> cn_authenticated c"

definition token_frame :: "u8 list option \<Rightarrow> jstr \<Rightarrow> bool" where
  "token_frame token line \<longleftrightarrow> admitting token line \<and> 10 \<notin> set line \<and> byteLength line \<le> BRIDGE_FRAME \<and> length line \<le> BRIDGE_FRAME"

lemma token_data:
  assumes "waiting_conn b s c" and "token_frame (br_token b) line"
  shows "conn (bridge_data envs s (line @ [10]) b) t = (if t = s then Some (c\<lparr>cn_authenticated := True\<rparr>) else conn b t)"
    and "br_client (bridge_data envs s (line @ [10]) b) = Some s"
    and "br_pending (bridge_data envs s (line @ [10]) b) = br_pending b"
    and "br_server (bridge_data envs s (line @ [10]) b) = br_server b"
    and "br_token (bridge_data envs s (line @ [10]) b) = br_token b"
proof -
  let ?b' = "(update_conn s (\<lambda>c. c\<lparr>cn_authenticated := True\<rparr>) b)\<lparr>br_client := Some s\<rparr>"
  have c: "conn b s = Some c" "cn_state c = SocketOpen" "cn_heard c" "cn_buffer c = []" "\<not> cn_authenticated c"
    using assms(1) by (simp_all add: waiting_conn_def)
  have l: "admitting (br_token b) line" "10 \<notin> set line" "byteLength line \<le> BRIDGE_FRAME" "length line \<le> BRIDGE_FRAME"
    using assms(2) by (simp_all add: token_frame_def)
  then obtain v where v: "json_parse line = Some v" "authenticates (br_token b) v"
    by (auto simp: admitting_def split: option.splits)
  have split: "takeWhile (\<lambda>c. c \<noteq> 10) (line @ [10]) = line" using l(2) by (subst takeWhile_append2) auto
  have "bridge_line (envs 0) s line b = (?b', True)" using l(3) c v by (simp add: bridge_line_def)
  then have "bridge_lines envs 0 s (line @ [10]) b = keep_buffer s [] ?b'"
    by (subst bridge_lines.simps) (simp add: split Let_def bridge_lines.simps)
  then have data: "bridge_data envs s (line @ [10]) b = keep_buffer s [] ?b'"
    using c l(4) by (simp add: bridge_data_def BRIDGE_FRAME_def)
  have same: "c\<lparr>cn_authenticated := True, cn_buffer := []\<rparr> = c\<lparr>cn_authenticated := True\<rparr>" using c(4) by (cases c) simp
  show "conn (bridge_data envs s (line @ [10]) b) t = (if t = s then Some (c\<lparr>cn_authenticated := True\<rparr>) else conn b t)"
    "br_client (bridge_data envs s (line @ [10]) b) = Some s"
    "br_pending (bridge_data envs s (line @ [10]) b) = br_pending b"
    "br_server (bridge_data envs s (line @ [10]) b) = br_server b"
    "br_token (bridge_data envs s (line @ [10]) b) = br_token b"
    by (simp_all add: data keep_buffer_def c(1) same)
qed

lemma second_admitted:
  assumes "waiting_conn b s c" and "waiting_conn b t d" and "s \<noteq> t" and "token_frame (br_token b) line"
  shows "conn (bridge_data envs' t (line @ [10]) (bridge_data envs s (line @ [10]) b)) s = Some (c\<lparr>cn_authenticated := True\<rparr>)"
    and "conn (bridge_data envs' t (line @ [10]) (bridge_data envs s (line @ [10]) b)) t = Some (d\<lparr>cn_authenticated := True\<rparr>)"
    and "br_client (bridge_data envs' t (line @ [10]) (bridge_data envs s (line @ [10]) b)) = Some t"
    and "br_pending (bridge_data envs' t (line @ [10]) (bridge_data envs s (line @ [10]) b)) = br_pending b"
    and "br_server (bridge_data envs' t (line @ [10]) (bridge_data envs s (line @ [10]) b)) = br_server b"
proof -
  let ?b1 = "bridge_data envs s (line @ [10]) b"
  note one = token_data [OF assms(1,4)]
  have two: "waiting_conn ?b1 t d" "token_frame (br_token ?b1) line"
    using assms(2-4) by (simp_all add: waiting_conn_def one)
  note both = token_data [OF two]
  show "conn (bridge_data envs' t (line @ [10]) ?b1) s = Some (c\<lparr>cn_authenticated := True\<rparr>)"
    "conn (bridge_data envs' t (line @ [10]) ?b1) t = Some (d\<lparr>cn_authenticated := True\<rparr>)"
    "br_client (bridge_data envs' t (line @ [10]) ?b1) = Some t"
    "br_pending (bridge_data envs' t (line @ [10]) ?b1) = br_pending b"
    "br_server (bridge_data envs' t (line @ [10]) ?b1) = br_server b"
    using assms(3) by (simp_all add: both one)
qed

text \<open>The requests of a connection that opens a session and starts a turn.\<close>

definition acp_request :: "string \<Rightarrow> js_members \<Rightarrow> js_value" where
  "acp_request method params = JObj [(js ''id'', JNum (js_int 1)), (js ''method'', JStr (js method)), (js ''params'', JObj params)]"

definition prompt_params :: "pi_answers \<Rightarrow> jstr \<Rightarrow> js_members" where
  "prompt_params env prompt =
     [(js ''sessionId'', JStr (js ''current-'' @ pi_sessionId env)),
      (js ''prompt'', JArr [JObj [(js ''type'', JStr (js ''text'')), (js ''text'', JStr prompt)]])]"

lemma opens_and_prompts:
  assumes "br_pending b = None" and "pi_isIdle env = Some True" and "pi_refusal env = None"
  shows "\<exists>b' b''. bridge_message env s (acp_request ''session/new'' []) b = Inr b'
    \<and> bridge_message env s (acp_request ''session/prompt'' (prompt_params env prompt)) b' = Inr b''
    \<and> br_calls b'' = br_calls b @ [StartTurn prompt]"
proof -
  define b' where "b' = session_new env s (Some (JNum (js_int 1))) b"
  have "bridge_message env s (acp_request ''session/new'' []) b = Inr b'"
    by (simp add: bridge_message_def acp_request_def b'_def js_def)
  moreover have fields: "br_pending b' = None" "br_sessionId b' = Some (js ''current-'' @ pi_sessionId env)" "br_calls b' = br_calls b"
    using assms(1) by (simp_all add: b'_def session_new_def Let_def rpc_result_def send_def)
  have "bridge_message env s (acp_request ''session/prompt'' (prompt_params env prompt)) b'
      = session_prompt env s (Some (JNum (js_int 1))) (prompt_params env prompt) b'"
    by (simp add: bridge_message_def acp_request_def js_def)
  moreover have "map_of (prompt_params env prompt) (js ''sessionId'') = Some (JStr (js ''current-'' @ pi_sessionId env))"
    "promptText (map_of (prompt_params env prompt) (js ''prompt'')) = Inr prompt"
    by (simp_all add: prompt_params_def promptText_def text_part_def js_def)
  ultimately show ?thesis
    using fields assms(2,3) by (simp add: session_prompt_def textE_def)
qed

text \<open>
  C39: the bridge means to serve one client, but checks this only when a connection arrives. Let two connections
  wait in a reachable state before either has authenticated. When both then send the token, both become
  authenticated and the later one is the client. When the later one ends, the bridge is not busy, while the earlier
  one is still open and authenticated and can open a session and start a turn. Closing the bridge then destroys
  no socket and waits until the other side of the earlier connection ends it.
\<close>

theorem second_client_is_admitted:
  assumes "bridge_reachable b" and "br_server b = Listening" and "br_pending b = None"
    and "waiting_conn b s c" and "waiting_conn b t d" and "s \<noteq> t" and "token_frame (br_token b) line"
    and "pi_isIdle env = Some True" and "pi_refusal env = None"
  shows "\<exists>both alone. both = bridge_data envs' t (line @ [10]) (bridge_data envs s (line @ [10]) b) \<and> alone = bridge_hangup t both
    \<and> bridge_reachable alone
    \<and> conn both s = Some (c\<lparr>cn_authenticated := True\<rparr>) \<and> conn both t = Some (d\<lparr>cn_authenticated := True\<rparr>) \<and> br_client both = Some t
    \<and> \<not> busy alone \<and> conn alone s = Some (c\<lparr>cn_authenticated := True\<rparr>)
    \<and> (\<exists>b' b''. bridge_message env s (acp_request ''session/new'' []) alone = Inr b'
        \<and> bridge_message env s (acp_request ''session/prompt'' (prompt_params env prompt)) b' = Inr b''
        \<and> br_calls b'' = br_calls alone @ [StartTurn prompt])
    \<and> conn (bridge_close alone) s = Some (c\<lparr>cn_authenticated := True\<rparr>) \<and> \<not> close_resolves (bridge_close alone)"
proof -
  define both where "both = bridge_data envs' t (line @ [10]) (bridge_data envs s (line @ [10]) b)"
  define alone where "alone = bridge_hangup t both"
  note both = second_admitted [OF assms(4-7), of envs' envs, folded both_def]
  have c: "cn_state c = SocketOpen" "cn_heard d" "cn_state d = SocketOpen" using assms(4,5) by (simp_all add: waiting_conn_def)
  have alone: "br_client alone = None" "br_pending alone = None" "br_server alone = Listening"
    "conn alone s = Some (c\<lparr>cn_authenticated := True\<rparr>)"
    using assms(2,3,6) both c by (simp_all add: alone_def bridge_hangup_def Let_def)
  have "bridge_step\<^sup>*\<^sup>* new_bridge b" using assms(1) by (simp add: bridge_reachable_def)
  moreover have "bridge_step b (bridge_data envs s (line @ [10]) b)" by (rule receives)
  moreover have "bridge_step (bridge_data envs s (line @ [10]) b) both" unfolding both_def by (rule receives)
  moreover have "bridge_step both alone" unfolding alone_def by (rule ends [OF both(2)]) (simp add: c)
  ultimately have "bridge_reachable alone" unfolding bridge_reachable_def by (meson rtranclp.rtrancl_into_rtrancl)
  moreover have shut: "bridge_close alone = alone\<lparr>br_server := ServerClosing\<rparr>"
    using alone by (simp add: bridge_close_def abort_pending_def)
  moreover have "\<not> close_resolves (alone\<lparr>br_server := ServerClosing\<rparr>)"
    using alone(4) c(1) by (fastforce simp: close_resolves_def conn_def list_all_iff dest!: map_of_SomeD)
  moreover note opens_and_prompts [OF alone(2) assms(8,9), of s prompt]
  ultimately show ?thesis
    using alone both by (intro exI [of _ both] exI [of _ alone]) (simp add: busy_def both_def alone_def)
qed

lemma sample_waiting: "waiting_conn two_waiting 0 open_conn" "waiting_conn two_waiting 1 open_conn"
  by (simp_all add: waiting_conn_def conn_def shared_bridge_def open_conn_def)

theorem second_client_is_admitted_witness:
  "\<exists>b. bridge_reachable b \<and> \<not> busy b \<and> conn b 0 = Some (open_conn\<lparr>cn_authenticated := True\<rparr>) \<and> \<not> close_resolves (bridge_close b)"
proof -
  have "token_frame (br_token two_waiting) token_line"
    using token_line_short token_line_plain(2)
    by (simp add: token_frame_def admitting_def token_line_parses token_authenticates shared_bridge_def BRIDGE_FRAME_def)
  with second_client_is_admitted [OF shared_reachable(1) _ _ sample_waiting, of token_line
      "\<lparr>pi_isIdle = Some True, pi_refusal = None, pi_sessionId = []\<rparr>"]
  show ?thesis by (auto simp: shared_bridge_def new_bridge_def)
qed

section \<open>Service mode\<close>

text \<open>
  C23: what service mode shows belongs to the binding that it reports. While it is connected, every run,
  request and decision that it shows carries the endpoint identity of the connection, and so does its
  reference; in every other state it shows none. A closed service is never connected, and the active
  profile is a configured one.
\<close>

theorem observations_belong_to_the_binding:
  assumes "service_reachable clock sv"
  shows "(case sv_connection sv of
            ConnectedTo c \<Rightarrow>
              \<not> sv_closed sv
              \<and> list_all (\<lambda>(_, r). vr_endpoint r = ct_identity c \<and> rf_endpoint (vr_reference r) = ct_identity c) (sv_runs sv)
              \<and> list_all (\<lambda>(_, q). vq_endpoint q = ct_identity c \<and> rf_endpoint (vq_reference q) = ct_identity c) (sv_requests sv)
              \<and> list_all (\<lambda>(_, d). vd_endpoint d = ct_identity c \<and> rf_endpoint (vd_reference d) = ct_identity c) (sv_decisions sv)
          | _ \<Rightarrow> sv_runs sv = [] \<and> sv_requests sv = [] \<and> sv_decisions sv = [])
         \<and> sv_active sv < length (sv_profiles sv)"
  using quiet [OF inv_reachable_service [OF assms]]
  by (cases "sv_connection sv") (simp_all add: quiet_inv_def views_part_def owned_views_def owned_def)

definition sample_service :: service where
  "sample_service =
     \<lparr>sv_profiles = [js ''/p''], sv_active = 0, sv_session = None, sv_number = 0, sv_connection = ConnectingTo (js ''/p''),
      sv_runs = [], sv_requests = [], sv_decisions = [], sv_namesOf = None, sv_names = [], sv_unnamed = [], sv_naming = None,
      sv_lane = [], sv_phase = Idle, sv_selections = [], sv_changes = 0, sv_closed = False\<rparr>"

abbreviation "sample_start \<equiv> \<lparr>or_generation = 0, or_transport = 0, or_identity = ident\<rparr>"

definition sample_starting :: service where
  "sample_starting = sample_service\<lparr>sv_changes := 1, sv_number := 1, sv_phase := StartingSession 0 sample_start,
     sv_session := Some (sample_session\<lparr>se_watched := [OVERVIEW], se_starts := [sample_start]\<rparr>)\<rparr>"

definition sample_connected :: service where
  "sample_connected = select_started 0 sample_start (Inr sample_overview) sample_starting"

lemma sample_starting_reachable: "service_reachable clock sample_starting"
proof -
  let ?asked = "sample_service\<lparr>sv_lane := [0]\<rparr>" and ?loading = "sample_service\<lparr>sv_changes := 1, sv_phase := LoadingProfile 0 False\<rparr>"
  let ?connecting = "sample_service\<lparr>sv_changes := 1, sv_phase := ConnectingProfile 0 sample_endpoint\<rparr>"
  have "service_reachable clock sample_service" by (rule made [of "[js ''/p'']"]) (simp add: new_service_def sample_service_def)
  moreover have "service_step clock sample_service ?asked" by (rule asked [of 0]) (simp add: select_def sample_service_def)
  moreover have "service_step clock ?asked ?loading"
    by (rule begins) (simp add: select_begin_def unless_closed_def sample_service_def prepare_profile_def changed_def clear_views_def
        profile_path_def)
  moreover have "service_step clock ?loading ?connecting"
    using loaded [of ?loading 0 False clock "Inr sample_endpoint"] by (simp add: profile_loaded_def unless_closed_def sample_service_def)
  moreover have "service_step clock ?connecting sample_starting"
  proof -
    have "connect_session sample_endpoint ident None (Inr (ok_response sample_capabilities)) = Inr sample_session"
      by (simp add: connect_session_def bind_capabilities_def ok_response_def sample_capabilities_checked thenO_def sample_endpoint_def
          sample_session_def)
    moreover have "select_connected 0 (Inr sample_session) ?connecting = sample_starting"
      by (simp add: select_connected_def unless_closed_def start_begin_def bootstrap_begin_def sample_session_def newSession_def
          sample_service_def sample_starting_def set_add_def newRefresh_def Let_def)
    ultimately show ?thesis
      using connected [of ?connecting 0 sample_endpoint clock ident None "Inr (ok_response sample_capabilities)"] by simp
  qed
  ultimately show ?thesis by (meson stepped)
qed

lemma sample_connected_step: "service_step sample_clock sample_starting sample_connected"
  unfolding sample_connected_def
  by (rule started [OF _ sample_load]) (simp add: sample_starting_def)

lemma sample_connected_fields:
  "sv_selections sample_connected = [SelectedConnected (sv_connection sample_connected)]"
  "\<exists>c. sv_connection sample_connected = ConnectedTo c \<and> ct_identity c = ident \<and> ct_loaded c"
  by (simp_all add: sample_connected_def select_started_def unless_closed_def report_def install_view_def sample_starting_def
      sample_service_def sample_session_def newSession_def start_end_def bootstrap_end_def newRefresh_def sample_overview_def
      binding_names_def wants_names_def observedWorkflows_def changed_def clear_views_def settle_def connection_of_def Let_def
      follow_from_def List.map_filter_simps)

theorem observations_belong_to_the_binding_witness:
  "sv_closed sample_connected = False \<and> sv_active sample_connected < length (sv_profiles sample_connected)"
proof -
  have "service_reachable sample_clock sample_connected"
    using stepped [OF sample_starting_reachable sample_connected_step] .
  from observations_belong_to_the_binding [OF this] sample_connected_fields(2) show ?thesis by auto
qed

text \<open>
  C22: a selection tells the truth. A step reports at most one selection: \<open>connected\<close> only with the connection
  of a session whose follow loop has not ended, \<open>kept\<close> only while a session stays active, \<open>failed\<close> only when
  the service is not connected, and \<open>closed\<close> only when it is closed; the connection that is reported is the
  current one.
\<close>

theorem selections_are_true:
  assumes "service_reachable clock sv" "service_step clock sv sv'"
  shows "sv_selections sv' = sv_selections sv
         \<or> (\<exists>s. sv_selections sv' = sv_selections sv @ [s]
              \<and> (case s of
                   SelectedConnected con \<Rightarrow>
                     \<not> sv_closed sv' \<and> con = sv_connection sv'
                     \<and> (\<exists>se. sv_session sv' = Some se \<and> se_followEnd se = None \<and> con = connection_of sv' se)
                 | SelectionFailed con \<Rightarrow> con = sv_connection sv' \<and> (\<forall>c. con \<noteq> ConnectedTo c)
                 | SelectionKept path reason con \<Rightarrow>
                     \<not> sv_closed sv' \<and> con = sv_connection sv'
                     \<and> (\<exists>se. sv_session sv' = Some se \<and> (se_followEnd se = None \<longrightarrow> con = connection_of sv' se))
                 | SelectionClosed \<Rightarrow> sv_closed sv'))"
  using ends_step [OF assms(2) inv_reachable_service [OF assms(1)]] by (simp add: ends_well_def selection_true_def)

theorem selections_are_true_witness:
  "\<exists>se. sv_session sample_connected = Some se \<and> se_followEnd se = None
        \<and> sv_connection sample_connected = connection_of sample_connected se"
proof -
  have "sv_selections sample_starting = []" by (simp add: sample_starting_def sample_service_def)
  then show ?thesis
    using selections_are_true [OF sample_starting_reachable sample_connected_step] sample_connected_fields(1) by auto
qed

section \<open>The manager commands\<close>

text \<open>
  C26: the recovery choices that a person may take are exactly those choices of the decision, in its order, that the
  manager offers: the run is owned, the decision is its pending head, and an offer for its occurrence and
  generation is a retry (for the choice retry) or carries the choice; a retry goes to the controls of the run
  when it is offered there. A question has no recovery choice.
\<close>

theorem recovery_choices_are_offered:
  "recoveryActions control decision =
     (case dc_content decision of
        Recovery _ _ choices \<Rightarrow>
          map (\<lambda>c. \<lparr>ra_label = recoveryLabel c, ra_option = c,
                     ra_operation = (if offers_retry control decision c then js ''retry'' else js ''choose-recovery'')\<rparr>)
            (filter (\<lambda>c. offers_retry control decision c \<or> offers_choice control decision c) choices)
      | Question _ _ _ \<Rightarrow> [])"
proof -
  have "List.map_filter (recovery_action_of (decisionOffers control decision)) choices =
      map (\<lambda>c. \<lparr>ra_label = recoveryLabel c, ra_option = c,
                 ra_operation = (if offers_retry control decision c then js ''retry'' else js ''choose-recovery'')\<rparr>)
        (filter (\<lambda>c. offers_retry control decision c \<or> offers_choice control decision c) choices)" for choices
    by (induction choices) (simp_all add: List.map_filter_simps recovery_action_of_offers)
  then show ?thesis by (simp add: recoveryActions_def split: decision_content.split)
qed

text \<open>
  C24: the live monitor of a run, over any order of session steps, refreshes, arrivals of its own reads and closing.
  At most one retrieval of the result runs, and while the monitor says so exactly one does unless it is closed; a
  result that it shows as verified has the size and the hash of bytes that were downloaded, and stays; a
  retrieval starts only for a succeeded run with a result; and no completed read is lost to a later failure.
\<close>

theorem result_is_verified:
  assumes "smonitor_reachable clock sha256 (se, m)" "smonitor_step clock sha256 (se, m) (se', m')"
  shows "length (sm_retrievals m') \<le> 1
         \<and> (sm_result m' = RetrievingResult \<longrightarrow> \<not> sm_closed m' \<longrightarrow> length (sm_retrievals m') = 1)
         \<and> (\<forall>n digest. sm_result m' = VerifiedResult n digest \<longrightarrow>
              (\<exists>bytes. length bytes = n \<and> sha256 bytes = digest) \<and> sha256_text digest \<and> n \<le> ARTIFACT_BYTES)
         \<and> (\<forall>n digest. sm_result m = VerifiedResult n digest \<longrightarrow> sm_result m' = VerifiedResult n digest)
         \<and> (sm_result m' = RetrievingResult \<longrightarrow> sm_result m \<noteq> RetrievingResult \<longrightarrow> succeeded_result m')
         \<and> (kp_value (sm_snapshot m) \<noteq> None \<longrightarrow> kp_value (sm_snapshot m') \<noteq> None)
         \<and> (kp_value (sm_control m) \<noteq> None \<longrightarrow> kp_value (sm_control m') \<noteq> None)
         \<and> (kp_value (sm_queue m) \<noteq> None \<longrightarrow> kp_value (sm_queue m') \<noteq> None)"
proof -
  have "retrieval_inv sha256 m' \<and> nothing_lost m m'"
    using monitor_step_keeps [OF assms(2)] monitor_inv [OF assms(1)] by simp
  then show ?thesis by (auto simp: retrieval_inv_def nothing_lost_def verified_bytes_def)
qed

theorem result_is_verified_witness:
  "\<exists>m. smonitor_open sample_session (js ''r'') = Inr m \<and> length (sm_retrievals (smonitor_refresh sample_session m)) \<le> 1"
proof -
  have "validResource (js ''/v1/runs/r/snapshot'')" "validResource (js ''/v1/runs/r/control'')" "validResource (js ''/v1/decisions?runId=r'')"
    by code_simp+
  then obtain m where m: "smonitor_open sample_session (js ''r'') = Inr m"
    by (simp add: smonitor_open_def session_reference_def referenceOf_def thenO_def js_append [symmetric])
  have "length (sm_retrievals (smonitor_refresh sample_session m)) \<le> 1"
    using result_is_verified [OF smonitor_opened [OF sample_run m] refreshes] by simp
  with m show ?thesis by blast
qed

text \<open>
  C25: saving a result publishes exactly its bytes under a name that did not exist, or publishes nothing: whatever
  call of the host fails, a save that succeeds created the destination with these bytes, one that fails left
  it as it was; no other entry of the directory changes, and a private file that remains is named.
\<close>

theorem saved_exactly:
  assumes "saveExact h random path bytes d = (outcome, d')"
  shows "(\<forall>name. name \<noteq> basename path \<longrightarrow> name \<noteq> partial_name path random \<longrightarrow> d' name = d name)
         \<and> (case outcome of
              Saved leftover \<Rightarrow>
                dir_entry_of d (basename path) = None \<and> d' (basename path) = Some (FileOf bytes)
                \<and> d' (partial_name path random) = (if leftover = None then None else Some (FileOf bytes))
                \<and> leftover \<in> {None, Some (partial_path path random)}
            | NotSaved reason \<Rightarrow>
                d' (basename path) = d (basename path)
                \<and> (d' (partial_name path random) = d (partial_name path random)
                   \<or> (\<exists>before after. reason = before @ partial_path path random @ after)))"
  using saveExact_saves [of path random bytes d h] unfolding assms saved_as_def fst_conv snd_conv .

theorem saved_exactly_witness:
  "\<exists>d'. saveExact \<lparr>sh_open = None, sh_chmod = None, sh_write = None, sh_partial = [], sh_sync = None, sh_close = None,
           sh_link = None, sh_unlink = None, sh_exists = []\<rparr> [] (js ''/r'') [7] (\<lambda>_. None) = (Saved None, d')
        \<and> d' (js ''r'') = Some (FileOf [7])"
proof -
  let ?h = "\<lparr>sh_open = None, sh_chmod = None, sh_write = None, sh_partial = [], sh_sync = None, sh_close = None,
           sh_link = None, sh_unlink = None, sh_exists = []\<rparr>"
  have base: "basename (js ''/r'') = js ''r''" "valid_destination (js ''/r'')" by code_simp+
  have "partial_name (js ''/r'') [] \<noteq> js ''.''" "partial_name (js ''/r'') [] \<noteq> js ''..''" "partial_name (js ''/r'') [] \<noteq> js ''r''"
    by (simp_all only: partial_name_def base(1)) (simp_all add: js_def lower_hex_def)
  then have "fst (saveExact ?h [] (js ''/r'') [7] (\<lambda>_. None)) = Saved None"
    by (simp add: saveExact_def Let_def base dir_entry_of_def written_def link_entry_def unlink_entry_def)
  then obtain d' where d': "saveExact ?h [] (js ''/r'') [7] (\<lambda>_. None) = (Saved None, d')"
    by (cases "saveExact ?h [] (js ''/r'') [7] (\<lambda>_. None)") simp
  from saved_exactly [OF d'] d' show ?thesis by (auto simp: base)
qed

end
