(* ===== verification/Spec2Isabelle.thy ===== *)
theory Spec2Isabelle
  imports RunProperties WireProperties StreamProperties ClientProperties HostProperties SuperviseProperties StoreProperties
    ManagerProperties SessionProperties InterfaceProperties
begin

text \<open>
  A verification library for the TypeScript client of agent-cat (\<^verbatim>\<open>src/ext-pi/src\<close>).

  The client runs workflows through a local runner or follows them on a manager. It has a lossless
  JSON layer (\<^verbatim>\<open>manager/json.ts\<close>), the event stream and its closed formats (\<^verbatim>\<open>manager/events.ts\<close>),
  the refresh, backoff and reconciliation decisions (\<^verbatim>\<open>manager/refresh.ts\<close>), the decoders, projections
  and answers of the public resources (\<^verbatim>\<open>manager/resources.ts\<close>), and the reducer of the runtime protocol
  (\<^verbatim>\<open>reducer.ts\<close> on the types of \<^verbatim>\<open>types.ts\<close>). The supervisor and the manager session feed these with
  bytes from processes and connections.

  \<^bold>\<open>Shared layers.\<close> \<^theory_text>\<open>Prelude\<close>: JavaScript strings as lists of 16-bit words, decimal texts, insertion-ordered
  maps. \<^theory_text>\<open>Utf8\<close>: code points, the UTF-8 encoder and decoder.

  \<^bold>\<open>JSON.\<close> \<^theory_text>\<open>Json\<close> (values, exact decimals), \<^theory_text>\<open>JsonText\<close> (parser and printer), with their laws in \<^theory_text>\<open>JsonLaws\<close>
  (equality too), \<^theory_text>\<open>JsonTextLaws\<close> and \<^theory_text>\<open>JsonRoundtrip\<close>. The parser has fuel for its nesting: twice the
  length of the text, and a proof that this always suffices.

  \<^bold>\<open>Formats.\<close> \<^theory_text>\<open>Readers\<close> and \<^theory_text>\<open>Identifiers\<close> are the field readers and the identifier grammars. \<^theory_text>\<open>Codec\<close> holds the
  interface of a format as the locales \<^theory_text>\<open>codec\<close> and \<^theory_text>\<open>text_codec\<close>, interpreted on the decoders and encoders
  of \<^theory_text>\<open>Events\<close>, \<^theory_text>\<open>Routes\<close>, \<^theory_text>\<open>Drafts\<close> (\<^theory_text>\<open>DraftLaws\<close>), \<^theory_text>\<open>Reviews\<close> (\<^theory_text>\<open>ReviewLaws\<close>) and \<^theory_text>\<open>Receipts\<close>. \<^theory_text>\<open>Schemas\<close>: semantic
  schemas against an abstract syntax. \<^theory_text>\<open>Decisions\<close>, \<^theory_text>\<open>Runs\<close>, \<^theory_text>\<open>Answers\<close>, \<^theory_text>\<open>Exports\<close>: the other resources, their
  projections, the typed answers and the bodies of requests.

  \<^bold>\<open>Stream and refresh.\<close> \<^theory_text>\<open>Sse\<close> is the incremental parser and a byte machine that specifies it; \<^theory_text>\<open>SseLaws\<close> is the
  refinement and the invariant, \<^theory_text>\<open>SseFormat\<close> the printed format as its inverse. \<^theory_text>\<open>Refresh\<close> has the refresh state and,
  as its specification, a system of client and server: resources change and are announced, reads start, succeed or are
  refused, a resnapshot empties the flights and is caught up only when it succeeds, and the endpoint changes, in any order.

  \<^bold>\<open>Runs.\<close> \<^theory_text>\<open>Snapshot\<close> and \<^theory_text>\<open>Reducer\<close> are the snapshot and every event of the reducer; \<^theory_text>\<open>Lifecycle\<close> is the abstract
  machine and the refinement, \<^theory_text>\<open>TailLaws\<close> and \<^theory_text>\<open>ReducerLaws\<close> the invariant and the laws of journals.

  \<^bold>\<open>The host of local runs.\<close> \<^theory_text>\<open>JsValues\<close>: plain JavaScript values, the printer of \<^verbatim>\<open>JSON.stringify\<close>. \<^theory_text>\<open>Config\<close>
  (\<^verbatim>\<open>config.ts\<close>) reads the environment. \<^theory_text>\<open>Catalogue\<close> and \<^theory_text>\<open>Routing\<close> (\<^verbatim>\<open>catalogue.ts\<close>) ask a runner for its
  descriptors, plans and routing; \<^theory_text>\<open>CatalogueLaws\<close> has the canonical texts. \<^theory_text>\<open>Launch\<close> (\<^verbatim>\<open>launch.ts\<close>) prepares a run
  and its manifest. \<^theory_text>\<open>Profile\<close> (\<^verbatim>\<open>manager/profile.ts\<close>) loads the profile of a manager and its credential.
  \<^theory_text>\<open>Projection\<close> is the JSON view of a snapshot (\<^verbatim>\<open>reducer.ts\<close>, \<^verbatim>\<open>snapshotValue\<close>).

  \<^bold>\<open>The supervisor\<close> (\<^verbatim>\<open>supervisor.ts\<close>). \<^theory_text>\<open>StoredRuns\<close> (\<^theory_text>\<open>StoredLaws\<close>) reads stored manifests and snapshots, \<^theory_text>\<open>Artifacts\<close>
  verifies result artifacts byte by byte, \<^theory_text>\<open>Journals\<close> reads journals in chunks and restores a snapshot from
  them; \<^theory_text>\<open>StreamDecoding\<close> and \<^theory_text>\<open>JournalLaws\<close> show that the chunks do not matter. \<^theory_text>\<open>Diagnostics\<close> redacts and bounds
  standard error (\<^theory_text>\<open>DiagnosticLaws\<close>). \<^theory_text>\<open>Supervise\<close> is an owned run: the snapshot, the buffered protocol text,
  the waiting controls and the pipe that they need, which may break while the run is live, cancellation, failure and the end; \<^theory_text>\<open>SuperviseLaws\<close> has the steps in any order as a
  step relation and what every reachable run satisfies. \<^theory_text>\<open>RunStores\<close> (\<^theory_text>\<open>RunStoreLaws\<close>) is the collection of runs: starting
  and closing them, restoring a state directory, its leases and its retention. \<^theory_text>\<open>RootRole\<close> (\<^verbatim>\<open>root-role.ts\<close>) decides
  which state roots are local.

  \<^bold>\<open>The transport of the manager\<close> (\<^verbatim>\<open>manager/transport.ts\<close>). \<^theory_text>\<open>Transport\<close>: idempotency keys, requests, the checks of
  headers and bodies, JSON responses, commands, downloads, batches and one connection of the event stream;
  what a request meets is a value, \<open>exchange\<close>. \<^theory_text>\<open>Following\<close>: the loop that follows the events as a machine with an
  answer per step; its specification is the log of a manager, with records that the credential cannot see, which a batch
  passes over. \<^theory_text>\<open>TransportLaws\<close> and \<^theory_text>\<open>FollowingLaws\<close> have the facts of accepted responses, and that streams of events
  and heartbeats, cut anywhere, keep the log.

  \<^bold>\<open>The session of the manager\<close> (\<^verbatim>\<open>manager/session.ts\<close>). \<^theory_text>\<open>Pages\<close>: the capabilities and their check, page sets and the
  overview, with what a complete set consists of and that reading ends within 65536 pages. \<^theory_text>\<open>Sessions\<close>: the
  state of a session as a record, each operation as a function on it, and \<open>session_step\<close>, which takes the
  continuations of the code (a read that ends, an event, a timer, an endpoint change) in any order. A reconciliation is
  a value that asks for one URI and continues with the response, so that what it reads is part of the model.
  \<^theory_text>\<open>SessionLaws\<close>: the invariant of reachable sessions, which ties the lane to the refresh coordinator.

  \<^bold>\<open>The interfaces.\<close> \<^theory_text>\<open>Monitor\<close> (\<^verbatim>\<open>monitor.ts\<close>, \<^verbatim>\<open>monitor-ui.ts\<close>) is the text monitor of a run: its selection, its
  keys and the window of lines that it renders, with the selection as the invariant of every monitor that is
  opened, updated and driven by keys. \<^theory_text>\<open>Bridge\<close> (\<^verbatim>\<open>current-bridge.ts\<close>) is the socket that lends the current Pi
  session to a runner: the bridge as a record, a start with the failures of its calls and the state each leaves, the
  connections as numbers with their buffers, the calls to the Pi session as a log, and \<open>bridge_step\<close> for everything that sockets, turns and deliveries do in any order.
  \<^theory_text>\<open>ServiceMode\<close> (\<^verbatim>\<open>service-mode.ts\<close>, and the status texts of \<^verbatim>\<open>index.ts\<close>) is the selection of a manager profile,
  what is observed of it, and the names of workflows; a method that awaits is split at each await into
  phases, and \<open>service_step\<close> interleaves them with the session, with close and with the naming of workflows. \<^theory_text>\<open>Offers\<close> (\<^verbatim>\<open>manager-ui.ts\<close>)
  is what the commands of a manager decide without a dialogue: the offered controls, settled receipts, observed
  effects, the lines of decisions, history and the live monitor, the monitor with its retrieval of the result as
  \<open>smonitor_step\<close>, and the exact save over a directory and the failures of the host.

  \<^bold>\<open>Properties.\<close> \<^theory_text>\<open>WireProperties\<close>, \<^theory_text>\<open>StreamProperties\<close>, \<^theory_text>\<open>ClientProperties\<close>, \<^theory_text>\<open>RunProperties\<close>, \<^theory_text>\<open>HostProperties\<close>,
  \<^theory_text>\<open>SuperviseProperties\<close>, \<^theory_text>\<open>StoreProperties\<close>, \<^theory_text>\<open>ManagerProperties\<close>, \<^theory_text>\<open>SessionProperties\<close> and \<^theory_text>\<open>InterfaceProperties\<close> state the properties, each with its witness on
  the concrete values of \<^theory_text>\<open>SampleWire\<close>, \<^theory_text>\<open>SampleRun\<close>, \<^theory_text>\<open>SampleHost\<close>, \<^theory_text>\<open>SampleOwned\<close> and \<^theory_text>\<open>SampleSession\<close>.

  \<^bold>\<open>Conventions.\<close> \<^verbatim>\<open>undefined\<close> is \<^term>\<open>None\<close>; a refusal of the manager client is the left summand of an outcome, an
  \<^verbatim>\<open>Error\<close> the left summand with its message; \<^verbatim>\<open>bigint\<close> is \<^typ>\<open>int\<close>. The platform that the reducer
  uses (SHA-256 of an event, \<^verbatim>\<open>Date.parse\<close>, the Unicode classes, the text of a number) is a parameter
  without assumptions, and so are the file system, the hash, the runner process and the parsers of URLs
  and certificates where the host code uses them. Loops over texts and chunks are structural or have a
  measure; no other definition has fuel than the JSON parser.

  \<^bold>\<open>Not modelled.\<close> Processes, sockets, timers, the dialogues and widgets of the host (\<^verbatim>\<open>index.ts\<close>, the commands of \<^verbatim>\<open>manager-ui.ts\<close>,
  \<^verbatim>\<open>workflow-picker.ts\<close>) and the text of the current session's proxy process. An owned run reaches its
  files through queues; the model writes in their order and takes a failed write as a step that fails
  the run.
\<close>

end
